(* ===== verification/Base.thy ===== *)
theory Base
  imports Complex_Main "HOL-Library.Multiset" "HOL-Library.AList"
begin

section \<open>Shared vocabulary of the frontend model\<close>

text \<open>
  What every component of the model uses: JSON values as the code builds them, the
  falsy and nullish defaults of JavaScript, the three array idioms that the stores and
  hooks are written with (\<open>xs.find\<close>, \<open>xs.map\<close> with a conditional spread, \<open>xs.filter\<close> by
  id), and the interface \<open>keyed_store\<close> that says what those idioms promise.

  JavaScript strings are lists of characters.  JavaScript numbers are exact reals:
  rounding, \<open>NaN\<close> and the infinities of IEEE doubles are outside the model.
  \<open>undefined\<close> and \<open>null\<close> are both \<open>None\<close> where the code does not distinguish them.
\<close>

named_theorems js_simps \<open>rules that compute the JavaScript idioms of this theory\<close>

subsection \<open>Strings\<close>

abbreviation newline :: char where "newline \<equiv> CHR 0x0A"

definition starts_with :: "string \<Rightarrow> string \<Rightarrow> bool" where
  "starts_with s p \<longleftrightarrow> take (length p) s = p"

definition ends_with :: "string \<Rightarrow> string \<Rightarrow> bool" where
  "ends_with s p \<longleftrightarrow> length p \<le> length s \<and> drop (length s - length p) s = p"

fun join :: "string \<Rightarrow> string list \<Rightarrow> string" where
  "join sep [] = []"
| "join sep [x] = x"
| "join sep (x # y # xs) = x @ sep @ join sep (y # xs)"

text \<open>\<open>s.split(c)\<close> for a one-character separator: always at least one part.\<close>

fun split_on :: "char \<Rightarrow> string \<Rightarrow> string list" where
  "split_on c [] = [[]]"
| "split_on c (x # xs) =
     (if x = c then [] # split_on c xs
      else (case split_on c xs of
              [] \<Rightarrow> [[x]]
            | p # ps \<Rightarrow> (x # p) # ps))"

definition to_lower_char :: "char \<Rightarrow> char" where
  "to_lower_char c =
     (if (65::nat) \<le> of_char c \<and> of_char c \<le> (90::nat) then char_of (of_char c + (32::nat)) else c)"

definition to_upper_char :: "char \<Rightarrow> char" where
  "to_upper_char c =
     (if (97::nat) \<le> of_char c \<and> of_char c \<le> (122::nat) then char_of (of_char c - (32::nat)) else c)"

text \<open>
  Case mapping, on the ASCII letters.  Where the code uses it, it compares the result with
  ASCII words, or applies it to the ASCII names of the timeline's media types.
\<close>

definition to_lower :: "string \<Rightarrow> string" where
  "to_lower s = map to_lower_char s"

definition to_upper :: "string \<Rightarrow> string" where
  "to_upper s = map to_upper_char s"

definition show_digit :: "nat \<Rightarrow> char" where
  "show_digit d = char_of (48 + d)"

fun show_nat :: "nat \<Rightarrow> string" where
  "show_nat n = (if n < 10 then [show_digit n] else show_nat (n div 10) @ [show_digit (n mod 10)])"

declare show_nat.simps [simp del]

text \<open>\<open>String(n)\<close> for an integral number.\<close>

definition show_int :: "int \<Rightarrow> string" where
  "show_int i = (if i < 0 then ''-'' @ show_nat (nat (- i)) else show_nat (nat i))"

definition show_bool :: "bool \<Rightarrow> string" where
  "show_bool b = (if b then ''true'' else ''false'')"

subsection \<open>Falsy and nullish defaults\<close>

text \<open>\<open>x || d\<close> for an optional string: the empty string counts as absent.\<close>

definition or_string :: "string option \<Rightarrow> string \<Rightarrow> string" where
  "or_string x d = (case x of None \<Rightarrow> d | Some s \<Rightarrow> if s = [] then d else s)"

text \<open>\<open>x ?? d\<close>.\<close>

definition nullish :: "'a option \<Rightarrow> 'a \<Rightarrow> 'a" where
  "nullish x d = (case x of None \<Rightarrow> d | Some v \<Rightarrow> v)"

text \<open>Truthiness of an optional string and of an optional number.\<close>

definition truthy_string :: "string option \<Rightarrow> bool" where
  "truthy_string x \<longleftrightarrow> x \<noteq> None \<and> x \<noteq> Some []"

definition or_number :: "real option \<Rightarrow> real \<Rightarrow> real" where
  "or_number x d = (case x of None \<Rightarrow> d | Some v \<Rightarrow> if v = 0 then d else v)"

lemma or_string_simps [js_simps]:
  "or_string None d = d" "or_string (Some []) d = d" "or_string (Some (c # s)) d = c # s"
  by (simp_all add: or_string_def)

lemma nullish_simps [js_simps, simp]: "nullish None d = d" "nullish (Some v) d = v"
  by (simp_all add: nullish_def)

subsection \<open>JSON values\<close>

datatype json =
    JNull
  | JBool bool
  | JNum real
  | JStr string
  | JArr "json list"
  | JObj "(string \<times> json) list"

text \<open>A member that the code uses as a string, where it is one.\<close>

fun as_string :: "json option \<Rightarrow> string option" where
  "as_string (Some (JStr s)) = Some s"
| "as_string _ = None"

text \<open>
  \<open>JSON.stringify\<close> of an object literal drops the members whose value is \<open>undefined\<close>.
  \<open>js_object\<close> is the value that is sent for such a literal.
\<close>

fun drop_undefined :: "(string \<times> json option) list \<Rightarrow> (string \<times> json) list" where
  "drop_undefined [] = []"
| "drop_undefined ((k, None) # kvs) = drop_undefined kvs"
| "drop_undefined ((k, Some v) # kvs) = (k, v) # drop_undefined kvs"

definition js_object :: "(string \<times> json option) list \<Rightarrow> json" where
  "js_object kvs = JObj (drop_undefined kvs)"

lemma map_of_drop_undefined:
  "distinct (map fst kvs) \<Longrightarrow> map_of (drop_undefined kvs) k = Option.bind (map_of kvs k) id"
proof (induction kvs rule: drop_undefined.induct)
  case (2 j kvs)
  then have "map_of kvs j = None" by (simp add: map_of_eq_None_iff)
  then show ?case using 2 by (cases "k = j") simp_all
qed auto

text \<open>\<open>{ ...a, ...b }\<close>: the members of \<open>b\<close> replace those of \<open>a\<close> in place, new ones come last.\<close>

definition spread :: "(string \<times> 'a) list \<Rightarrow> (string \<times> 'a) list \<Rightarrow> (string \<times> 'a) list" where
  "spread a b = fold (\<lambda>(k, v) acc. AList.update k v acc) b a"

lemma map_of_spread: "distinct (map fst b) \<Longrightarrow>
    map_of (spread a b) k = (case map_of b k of None \<Rightarrow> map_of a k | Some v \<Rightarrow> Some v)"
proof (induction b arbitrary: a)
  case (Cons kv b)
  obtain j v where kv: "kv = (j, v)" by (cases kv)
  then have "j = k \<Longrightarrow> map_of b k = None" using Cons.prems by (simp add: map_of_eq_None_iff)
  moreover have "map_of (spread (AList.update j v a) b) k =
      (case map_of b k of None \<Rightarrow> map_of (AList.update j v a) k | Some w \<Rightarrow> Some w)"
    using Cons by simp
  ultimately show ?case
    by (cases "j = k") (simp_all add: kv spread_def update_conv' split: option.split)
qed (simp add: spread_def)

subsection \<open>The array idioms\<close>

text \<open>\<open>xs.find((x) => x.id === k)\<close>\<close>

definition find_by :: "('a \<Rightarrow> 'k) \<Rightarrow> 'k \<Rightarrow> 'a list \<Rightarrow> 'a option" where
  "find_by key k xs = find (\<lambda>x. key x = k) xs"

text \<open>\<open>xs.map((x) => (x.id === k ? f(x) : x))\<close>\<close>

definition map_where :: "('a \<Rightarrow> 'k) \<Rightarrow> 'k \<Rightarrow> ('a \<Rightarrow> 'a) \<Rightarrow> 'a list \<Rightarrow> 'a list" where
  "map_where key k f xs = map (\<lambda>x. if key x = k then f x else x) xs"

text \<open>\<open>xs.filter((x) => x.id !== k)\<close>\<close>

definition filter_out :: "('a \<Rightarrow> 'k) \<Rightarrow> 'k \<Rightarrow> 'a list \<Rightarrow> 'a list" where
  "filter_out key k xs = filter (\<lambda>x. key x \<noteq> k) xs"

lemma find_by_simps [simp]:
  "find_by key k [] = None"
  "find_by key k (x # xs) = (if key x = k then Some x else find_by key k xs)"
  by (simp_all add: find_by_def)

lemma map_where_simps [simp]:
  "map_where key k f [] = []"
  "map_where key k f (x # xs) = (if key x = k then f x else x) # map_where key k f xs"
  by (simp_all add: map_where_def)

lemma filter_out_simps [simp]:
  "filter_out key k [] = []"
  "filter_out key k (x # xs) = (if key x = k then filter_out key k xs else x # filter_out key k xs)"
  by (simp_all add: filter_out_def)

lemma find_by_None_iff: "find_by key k xs = None \<longleftrightarrow> k \<notin> key ` set xs"
  by (induction xs) auto

lemma find_by_SomeD: "find_by key k xs = Some x \<Longrightarrow> x \<in> set xs \<and> key x = k"
  by (induction xs) (auto split: if_splits)

lemma find_by_append:
  "find_by key k (xs @ ys) = (case find_by key k xs of None \<Rightarrow> find_by key k ys | Some x \<Rightarrow> Some x)"
  by (induction xs) auto

lemma map_where_append [simp]: "map_where key k f (xs @ ys) = map_where key k f xs @ map_where key k f ys"
  by (simp add: map_where_def)

lemma filter_out_append [simp]: "filter_out key k (xs @ ys) = filter_out key k xs @ filter_out key k ys"
  by (simp add: filter_out_def)

lemma map_where_absent: "k \<notin> key ` set xs \<Longrightarrow> map_where key k f xs = xs"
  by (induction xs) auto

lemma filter_out_absent: "k \<notin> key ` set xs \<Longrightarrow> filter_out key k xs = xs"
  by (induction xs) auto

lemma length_map_where [simp]: "length (map_where key k f xs) = length xs"
  by (simp add: map_where_def)

lemma set_filter_out [simp]: "set (filter_out key k xs) = {x \<in> set xs. key x \<noteq> k}"
  by (auto simp: filter_out_def)

lemma keys_map_where:
  assumes "\<And>x. key (f x) = key x"
  shows "map key (map_where key k f xs) = map key xs"
  using assms by (induction xs) auto

lemma keys_filter_out: "map key (filter_out key k xs) = filter (\<lambda>j. j \<noteq> k) (map key xs)"
  by (induction xs) auto

subsection \<open>The interface of keyed state\<close>

text \<open>
  Most of the state of the frontend is a collection of items with an id: tracks, clips,
  messages, tool calls, nodes of the page builder.  \<open>keyed_store\<close> is what such a
  collection promises: looking an id up after an update of that id or of another one, and
  an unchanged sequence of ids.  \<open>adm\<close> says which item updates the contract is about (the
  ones that keep the id).  \<open>keyed_collection\<close> adds removal.
\<close>

locale keyed_store =
  fixes get :: "'k \<Rightarrow> 's \<Rightarrow> 'a option"
    and upd :: "'k \<Rightarrow> ('a \<Rightarrow> 'a) \<Rightarrow> 's \<Rightarrow> 's"
    and ids :: "'s \<Rightarrow> 'k list"
    and adm :: "('a \<Rightarrow> 'a) \<Rightarrow> bool"
  assumes get_upd_same: "adm f \<Longrightarrow> get k (upd k f s) = map_option f (get k s)"
    and get_upd_other: "adm f \<Longrightarrow> j \<noteq> k \<Longrightarrow> get j (upd k f s) = get j s"
    and ids_upd: "adm f \<Longrightarrow> ids (upd k f s) = ids s"
    and get_None_iff: "get k s = None \<longleftrightarrow> k \<notin> set (ids s)"
begin

lemma get_upd: "adm f \<Longrightarrow> get j (upd k f s) = (if j = k then map_option f (get k s) else get j s)"
  by (simp add: get_upd_same get_upd_other)

lemma upd_twice:
  "adm f \<Longrightarrow> adm g \<Longrightarrow> adm (\<lambda>x. g (f x)) \<Longrightarrow>
   get j (upd k g (upd k f s)) = get j (upd k (\<lambda>x. g (f x)) s)"
  by (simp add: get_upd option.map_comp comp_def)

lemma upd_commute:
  "adm f \<Longrightarrow> adm g \<Longrightarrow> i \<noteq> k \<Longrightarrow> get j (upd i f (upd k g s)) = get j (upd k g (upd i f s))"
  by (simp add: get_upd)

lemma upd_distinct: "adm f \<Longrightarrow> distinct (ids s) \<Longrightarrow> distinct (ids (upd k f s))"
  by (simp add: ids_upd)

lemma upd_absent: "adm f \<Longrightarrow> k \<notin> set (ids s) \<Longrightarrow> get j (upd k f s) = get j s"
  by (cases "j = k") (simp_all add: get_upd get_None_iff [symmetric])

end

locale keyed_collection = keyed_store +
  fixes del :: "'k \<Rightarrow> 's \<Rightarrow> 's"
  assumes ids_del: "ids (del k s) = filter (\<lambda>j. j \<noteq> k) (ids s)"
    and get_del_other: "j \<noteq> k \<Longrightarrow> get j (del k s) = get j s"
begin

lemma get_del_same: "get k (del k s) = None"
  by (simp add: get_None_iff ids_del)

lemma del_distinct: "distinct (ids s) \<Longrightarrow> distinct (ids (del k s))"
  by (simp add: ids_del)

lemma del_absent: "k \<notin> set (ids s) \<Longrightarrow> get j (del k s) = get j s"
  by (cases "j = k") (simp_all add: get_del_other get_del_same get_None_iff [symmetric])

lemma del_upd: "adm f \<Longrightarrow> get j (del k (upd k f s)) = get j (del k s)"
  by (cases "j = k") (simp_all add: get_del_other get_del_same get_upd)

end

text \<open>The array idioms keep the contract, whatever the id field is.\<close>

definition keeps :: "('a \<Rightarrow> 'k) \<Rightarrow> ('a \<Rightarrow> 'a) \<Rightarrow> bool" where
  "keeps key f \<longleftrightarrow> (\<forall>x. key (f x) = key x)"

lemma keepsI [intro]: "(\<And>x. key (f x) = key x) \<Longrightarrow> keeps key f"
  by (simp add: keeps_def)

lemma array_keyed_collection:
  fixes key :: "'a \<Rightarrow> 'b"
  shows "keyed_collection (find_by key) (map_where key) (map key) (keeps key) (filter_out key)"
proof
  fix f :: "'a \<Rightarrow> 'a" and k j :: 'b and s :: "'a list"
  show "find_by key k (map_where key k f s) = map_option f (find_by key k s)" if "keeps key f"
    using that by (induction s) (auto simp: keeps_def)
  show "find_by key j (map_where key k f s) = find_by key j s" if "keeps key f" "j \<noteq> k"
    using that by (induction s) (auto simp: keeps_def)
  show "map key (map_where key k f s) = map key s" if "keeps key f"
    using that by (simp add: keeps_def keys_map_where)
  show "find_by key k s = None \<longleftrightarrow> k \<notin> set (map key s)"
    by (simp add: find_by_None_iff)
  show "map key (filter_out key k s) = filter (\<lambda>j. j \<noteq> k) (map key s)"
    by (rule keys_filter_out)
  show "find_by key j (filter_out key k s) = find_by key j s" if "j \<noteq> k"
    using that by (induction s) auto
qed

subsection \<open>Strings, continued\<close>

lemma split_on_not_Nil [simp]: "split_on c s \<noteq> []"
  by (induction s) (auto split: list.splits)

lemma split_on_no_sep: "c \<notin> set s \<Longrightarrow> split_on c s = [s]"
  by (induction s) auto

lemma split_on_Cons_sep [simp]: "split_on c (s @ c # t) = split_on c s @ split_on c t"
  by (induction s) (auto split: list.splits simp: Cons_eq_append_conv)

lemma split_on_append:
  "split_on c (s @ t) = butlast (split_on c s) @
     (last (split_on c s) @ hd (split_on c t)) # tl (split_on c t)"
proof (induction s)
  case Nil
  then show ?case by (simp add: hd_Cons_tl)
next
  case (Cons x s)
  obtain p ps where p: "split_on c s = p # ps"
    by (cases "split_on c s") simp_all
  show ?case
    using Cons p by (cases ps) (auto split: list.splits)
qed

lemma join_split_on: "join [c] (split_on c s) = s"
proof (induction s)
  case (Cons x s)
  obtain p ps where "split_on c s = p # ps"
    by (cases "split_on c s") simp_all
  then show ?case
    using Cons by (cases ps) auto
qed simp

lemma split_on_no_sep_parts: "p \<in> set (split_on c s) \<Longrightarrow> c \<notin> set p"
  by (induction s arbitrary: p) (auto split: list.splits if_splits)

lemma count_split_on: "length (split_on c s) = Suc (count_list s c)"
  by (induction s) (auto split: list.splits)

lemma show_nat_digits: "c \<in> set (show_nat n) \<Longrightarrow> (48::nat) \<le> of_char c \<and> of_char c \<le> (57::nat)"
proof (induction n rule: show_nat.induct)
  case (1 n)
  have d: "(48::nat) \<le> of_char (show_digit k) \<and> of_char (show_digit k) \<le> (57::nat)" if "k < 10" for k
    using that by (simp add: show_digit_def)
  show ?case
  proof (cases "n < 10")
    case True
    then show ?thesis using "1.prems" d [of n] by (auto simp: show_nat.simps [of n])
  next
    case False
    then have "c \<in> set (show_nat (n div 10)) \<or> c = show_digit (n mod 10)"
      using "1.prems" by (auto simp: show_nat.simps [of n])
    then show ?thesis using "1.IH" [OF False] d [of "n mod 10"] by auto
  qed
qed

definition read_nat :: "string \<Rightarrow> nat" where
  "read_nat s = foldl (\<lambda>n c. 10 * n + (of_char c - 48)) 0 s"

lemma read_show_nat: "read_nat (show_nat n) = n"
proof (induction n rule: show_nat.induct)
  case (1 n)
  have "of_char (show_digit d) - 48 = d" if "d < 10" for d :: nat
    using that by (simp add: show_digit_def)
  then show ?case
    using 1 by (cases "n < 10") (auto simp: show_nat.simps [of n] read_nat_def)
qed

lemma show_nat_inject [simp]: "show_nat m = show_nat n \<longleftrightarrow> m = n"
  using read_show_nat by metis

end
