(* ===== verification/Studio_Store.thy ===== *)
theory Studio_Store
  imports Base
begin

section \<open>The studio store\<close>

text \<open>
  \<^verbatim>\<open>apps/chat/components/studio/use-studio-store.ts\<close>: the zustand store of the video
  studio.  The interfaces of the file are records and datatypes, each action is one
  definition from state to state, and \<open>studio_step\<close> dispatches an action.  The random
  UUIDs the store asks the browser for are arguments.
\<close>

subsection \<open>Data\<close>

datatype media_kind = Video | Audio | Text | Image | Subtitle

datatype subtitle_style = BottomCenter | TopCenter | CustomStyle

record vec2 =
  vx :: real
  vy :: real

record clip_properties =
  opacity :: "real option"
  volume :: "real option"
  position :: "vec2 option"
  scale :: "vec2 option"
  text_content :: "string option"
  font_family :: "string option"
  font_size :: "real option"
  text_color :: "string option"
  link_url :: "string option"
  link_label :: "string option"
  subtitle_text :: "string option"
  subtitle_style_of :: "subtitle_style option"
  background_opacity :: "real option"

record timeline_clip =
  clip_id :: string
  clip_kind :: media_kind
  media_asset_id :: "string option"
  start_time :: real
  clip_duration :: real
  trim_start :: "real option"
  trim_end :: "real option"
  properties :: clip_properties

record timeline_track =
  track_id :: string
  track_kind :: media_kind
  track_name :: string
  track_order :: nat
  muted :: bool
  locked :: bool
  visible :: bool
  clips :: "timeline_clip list"

record timeline_settings =
  width_px :: nat
  height_px :: nat
  fps :: nat
  background_color :: string

record timeline_data =
  timeline_version :: nat
  timeline_settings_of :: timeline_settings
  tracks :: "timeline_track list"

datatype asset_kind = AssetVideo | AssetAudio | AssetImage

record media_asset =
  asset_id :: string
  asset_filename :: string
  media_type :: asset_kind
  mime_type :: "string option"
  file_size_bytes :: "nat option"
  duration_seconds :: "real option"
  asset_width :: "nat option"
  asset_height :: "nat option"
  asset_created_at :: "string option"

record studio_state =
  project_id :: "string option"
  project_name :: string
  is_dirty :: bool
  timeline :: timeline_data
  selected_clip_id :: "string option"
  selected_track_id :: "string option"
  current_time :: real
  is_playing :: bool
  total_duration :: real
  pixels_per_second :: real
  scroll_left :: real
  media_assets :: "media_asset list"

definition default_timeline :: timeline_data where
  "default_timeline =
     \<lparr>timeline_version = 1,
      timeline_settings_of = \<lparr>width_px = 1920, height_px = 1080, fps = 30, background_color = ''#000000''\<rparr>,
      tracks = []\<rparr>"

definition initial_state :: studio_state where
  "initial_state =
     \<lparr>project_id = None, project_name = ''Untitled Project'', is_dirty = False,
      timeline = default_timeline, selected_clip_id = None, selected_track_id = None,
      current_time = 0, is_playing = False, total_duration = 0,
      pixels_per_second = 100, scroll_left = 0, media_assets = []\<rparr>"

text \<open>
  \<open>Partial<TimelineClip>\<close>: a field is present or absent; a present optional field may
  itself be \<open>undefined\<close>, which overwrites.
\<close>

record clip_updates =
  upd_id :: "string option"
  upd_kind :: "media_kind option"
  upd_media_asset_id :: "string option option"
  upd_start_time :: "real option"
  upd_duration :: "real option"
  upd_trim_start :: "real option option"
  upd_trim_end :: "real option option"
  upd_properties :: "clip_properties option"

definition no_updates :: clip_updates where
  "no_updates =
     \<lparr>upd_id = None, upd_kind = None, upd_media_asset_id = None, upd_start_time = None,
      upd_duration = None, upd_trim_start = None, upd_trim_end = None, upd_properties = None\<rparr>"

text \<open>\<open>{ ...c, ...updates }\<close>\<close>

definition spread_clip :: "timeline_clip \<Rightarrow> clip_updates \<Rightarrow> timeline_clip" where
  "spread_clip c u =
     \<lparr>clip_id = nullish (upd_id u) (clip_id c),
      clip_kind = nullish (upd_kind u) (clip_kind c),
      media_asset_id = nullish (upd_media_asset_id u) (media_asset_id c),
      start_time = nullish (upd_start_time u) (start_time c),
      clip_duration = nullish (upd_duration u) (clip_duration c),
      trim_start = nullish (upd_trim_start u) (trim_start c),
      trim_end = nullish (upd_trim_end u) (trim_end c),
      properties = nullish (upd_properties u) (properties c)\<rparr>"

subsection \<open>Actions\<close>

fun kind_string :: "media_kind \<Rightarrow> string" where
  "kind_string Video = ''video''"
| "kind_string Audio = ''audio''"
| "kind_string Text = ''text''"
| "kind_string Image = ''image''"
| "kind_string Subtitle = ''subtitle''"

definition next_track_id :: "string \<Rightarrow> string" where
  "next_track_id uuid = ''track-'' @ uuid"

definition next_clip_id :: "string \<Rightarrow> string" where
  "next_clip_id uuid = ''clip-'' @ uuid"

definition generate_clip_id :: "string \<Rightarrow> string" where
  "generate_clip_id uuid = next_clip_id uuid"

definition set_project_id :: "string option \<Rightarrow> studio_state \<Rightarrow> studio_state" where
  "set_project_id i s = s\<lparr>project_id := i\<rparr>"

definition set_project_name :: "string \<Rightarrow> studio_state \<Rightarrow> studio_state" where
  "set_project_name n s = s\<lparr>project_name := n, is_dirty := True\<rparr>"

definition set_timeline :: "timeline_data \<Rightarrow> studio_state \<Rightarrow> studio_state" where
  "set_timeline d s = s\<lparr>timeline := d\<rparr>"

definition mark_dirty :: "studio_state \<Rightarrow> studio_state" where
  "mark_dirty s = s\<lparr>is_dirty := True\<rparr>"

definition mark_clean :: "studio_state \<Rightarrow> studio_state" where
  "mark_clean s = s\<lparr>is_dirty := False\<rparr>"

text \<open>\<open>set((state) => ({ timeline: { ...state.timeline, tracks: f(...) }, isDirty: true }))\<close>\<close>

definition edit_tracks ::
  "(timeline_track list \<Rightarrow> timeline_track list) \<Rightarrow> studio_state \<Rightarrow> studio_state" where
  "edit_tracks f s =
     s\<lparr>timeline := (timeline s)\<lparr>tracks := f (tracks (timeline s))\<rparr>, is_dirty := True\<rparr>"

definition default_track_name :: "media_kind \<Rightarrow> string" where
  "default_track_name k =
     to_upper (take 1 (kind_string k)) @ drop 1 (kind_string k) @ '' Track''"

definition add_track :: "string \<Rightarrow> media_kind \<Rightarrow> string option \<Rightarrow> studio_state \<Rightarrow> studio_state" where
  "add_track uuid k name s =
     edit_tracks (\<lambda>ts. ts @
       [\<lparr>track_id = next_track_id uuid, track_kind = k,
         track_name = or_string name (default_track_name k),
         track_order = length ts, muted = False, locked = False, visible = True, clips = []\<rparr>]) s"

definition remove_track :: "string \<Rightarrow> studio_state \<Rightarrow> studio_state" where
  "remove_track trackId s =
     (edit_tracks (filter_out track_id trackId) s)
       \<lparr>selected_track_id := (if selected_track_id s = Some trackId then None else selected_track_id s),
        selected_clip_id :=
          (if (case find_by track_id trackId (tracks (timeline s)) of
                 None \<Rightarrow> False
               | Some t \<Rightarrow> list_ex (\<lambda>c. Some (clip_id c) = selected_clip_id s) (clips t))
           then None else selected_clip_id s)\<rparr>"

definition add_clip :: "string \<Rightarrow> timeline_clip \<Rightarrow> studio_state \<Rightarrow> studio_state" where
  "add_clip trackId clip s =
     edit_tracks (map_where track_id trackId (\<lambda>t. t\<lparr>clips := clips t @ [clip]\<rparr>)) s"

definition update_clip :: "string \<Rightarrow> string \<Rightarrow> clip_updates \<Rightarrow> studio_state \<Rightarrow> studio_state" where
  "update_clip trackId clipId u s =
     edit_tracks (map_where track_id trackId
       (\<lambda>t. t\<lparr>clips := map_where clip_id clipId (\<lambda>c. spread_clip c u) (clips t)\<rparr>)) s"

definition remove_clip :: "string \<Rightarrow> string \<Rightarrow> studio_state \<Rightarrow> studio_state" where
  "remove_clip trackId clipId s =
     (edit_tracks (map_where track_id trackId
        (\<lambda>t. t\<lparr>clips := filter_out clip_id clipId (clips t)\<rparr>)) s)
       \<lparr>selected_clip_id := (if selected_clip_id s = Some clipId then None else selected_clip_id s)\<rparr>"

text \<open>The function that \<open>moveClip\<close> maps over the tracks once it has found the clip.\<close>

definition move_in_track ::
  "string \<Rightarrow> string \<Rightarrow> string \<Rightarrow> timeline_clip \<Rightarrow> timeline_track \<Rightarrow> timeline_track" where
  "move_in_track fromId toId clipId moved t =
     (if track_id t = fromId \<and> fromId \<noteq> toId then t\<lparr>clips := filter_out clip_id clipId (clips t)\<rparr>
      else if track_id t = toId then
        t\<lparr>clips := (if fromId = toId then map_where clip_id clipId (\<lambda>_. moved) (clips t)
                    else clips t @ [moved])\<rparr>
      else t)"

definition move_clip :: "string \<Rightarrow> string \<Rightarrow> string \<Rightarrow> real \<Rightarrow> studio_state \<Rightarrow> studio_state" where
  "move_clip fromId toId clipId newStart s =
     (case Option.bind (find_by track_id fromId (tracks (timeline s)))
             (\<lambda>t. find_by clip_id clipId (clips t)) of
        None \<Rightarrow> s
      | Some clip \<Rightarrow>
          edit_tracks (map (move_in_track fromId toId clipId (clip\<lparr>start_time := max 0 newStart\<rparr>))) s)"

definition select_clip :: "string option \<Rightarrow> string option \<Rightarrow> studio_state \<Rightarrow> studio_state" where
  "select_clip clipId trackId s = s\<lparr>selected_clip_id := clipId, selected_track_id := trackId\<rparr>"

definition set_current_time :: "real \<Rightarrow> studio_state \<Rightarrow> studio_state" where
  "set_current_time t s = s\<lparr>current_time := t\<rparr>"

definition set_is_playing :: "bool \<Rightarrow> studio_state \<Rightarrow> studio_state" where
  "set_is_playing p s = s\<lparr>is_playing := p\<rparr>"

definition set_duration :: "real \<Rightarrow> studio_state \<Rightarrow> studio_state" where
  "set_duration d s = s\<lparr>total_duration := d\<rparr>"

definition clamp_zoom :: "real \<Rightarrow> real" where
  "clamp_zoom pps = max 10 (min 500 pps)"

definition set_pixels_per_second :: "real \<Rightarrow> studio_state \<Rightarrow> studio_state" where
  "set_pixels_per_second pps s = s\<lparr>pixels_per_second := clamp_zoom pps\<rparr>"

definition set_scroll_left :: "real \<Rightarrow> studio_state \<Rightarrow> studio_state" where
  "set_scroll_left px s = s\<lparr>scroll_left := max 0 px\<rparr>"

text \<open>The two nested loops that both the store and the playback engine run over the clips.\<close>

definition clip_end :: "timeline_clip \<Rightarrow> real" where
  "clip_end c = start_time c + clip_duration c"

fun max_end_clips :: "real \<Rightarrow> timeline_clip list \<Rightarrow> real" where
  "max_end_clips m [] = m"
| "max_end_clips m (c # cs) = max_end_clips (max m (clip_end c)) cs"

fun max_end_tracks :: "real \<Rightarrow> timeline_track list \<Rightarrow> real" where
  "max_end_tracks m [] = m"
| "max_end_tracks m (t # ts) = max_end_tracks (max_end_clips m (clips t)) ts"

definition fit_to_window :: "real \<Rightarrow> studio_state \<Rightarrow> studio_state" where
  "fit_to_window containerWidth s =
     (let maxTime = max_end_tracks 10 (tracks (timeline s));
          pps = clamp_zoom (containerWidth * 0.95 / maxTime)
      in s\<lparr>pixels_per_second := pps, scroll_left := 0\<rparr>)"

definition set_media_assets :: "media_asset list \<Rightarrow> studio_state \<Rightarrow> studio_state" where
  "set_media_assets as s = s\<lparr>media_assets := as\<rparr>"

definition add_media_asset :: "media_asset \<Rightarrow> studio_state \<Rightarrow> studio_state" where
  "add_media_asset a s = s\<lparr>media_assets := a # media_assets s\<rparr>"

definition remove_media_asset :: "string \<Rightarrow> studio_state \<Rightarrow> studio_state" where
  "remove_media_asset i s = s\<lparr>media_assets := filter_out asset_id i (media_assets s)\<rparr>"

fun find_clip_in_tracks ::
  "string \<Rightarrow> timeline_track list \<Rightarrow> (timeline_track \<times> timeline_clip) option" where
  "find_clip_in_tracks k [] = None"
| "find_clip_in_tracks k (t # ts) =
     (case find_by clip_id k (clips t) of
        Some c \<Rightarrow> Some (t, c)
      | None \<Rightarrow> find_clip_in_tracks k ts)"

definition get_selected_clip :: "studio_state \<Rightarrow> (timeline_track \<times> timeline_clip) option" where
  "get_selected_clip s =
     (if truthy_string (selected_clip_id s)
      then find_clip_in_tracks (the (selected_clip_id s)) (tracks (timeline s))
      else None)"

datatype studio_action =
    SetProjectId "string option"
  | SetProjectName string
  | SetTimeline timeline_data
  | MarkDirty
  | MarkClean
  | AddTrack string media_kind "string option"
  | RemoveTrack string
  | AddClip string timeline_clip
  | UpdateClip string string clip_updates
  | RemoveClip string string
  | MoveClip string string string real
  | SelectClip "string option" "string option"
  | SetCurrentTime real
  | SetIsPlaying bool
  | SetDuration real
  | SetPixelsPerSecond real
  | SetScrollLeft real
  | FitToWindow real
  | SetMediaAssets "media_asset list"
  | AddMediaAsset media_asset
  | RemoveMediaAsset string

fun studio_step :: "studio_action \<Rightarrow> studio_state \<Rightarrow> studio_state" where
  "studio_step (SetProjectId i) s = set_project_id i s"
| "studio_step (SetProjectName n) s = set_project_name n s"
| "studio_step (SetTimeline d) s = set_timeline d s"
| "studio_step MarkDirty s = mark_dirty s"
| "studio_step MarkClean s = mark_clean s"
| "studio_step (AddTrack u k n) s = add_track u k n s"
| "studio_step (RemoveTrack i) s = remove_track i s"
| "studio_step (AddClip t c) s = add_clip t c s"
| "studio_step (UpdateClip t c u) s = update_clip t c u s"
| "studio_step (RemoveClip t c) s = remove_clip t c s"
| "studio_step (MoveClip f t c x) s = move_clip f t c x s"
| "studio_step (SelectClip c t) s = select_clip c t s"
| "studio_step (SetCurrentTime t) s = set_current_time t s"
| "studio_step (SetIsPlaying p) s = set_is_playing p s"
| "studio_step (SetDuration d) s = set_duration d s"
| "studio_step (SetPixelsPerSecond p) s = set_pixels_per_second p s"
| "studio_step (SetScrollLeft p) s = set_scroll_left p s"
| "studio_step (FitToWindow w) s = fit_to_window w s"
| "studio_step (SetMediaAssets as) s = set_media_assets as s"
| "studio_step (AddMediaAsset a) s = add_media_asset a s"
| "studio_step (RemoveMediaAsset i) s = remove_media_asset i s"

subsection \<open>The clips of a timeline\<close>

definition all_clips :: "timeline_track list \<Rightarrow> timeline_clip list" where
  "all_clips ts = concat (map clips ts)"

definition wf_tracks :: "timeline_track list \<Rightarrow> bool" where
  "wf_tracks ts \<longleftrightarrow> distinct (map track_id ts) \<and> distinct (map clip_id (all_clips ts))"

interpretation track_store: keyed_collection
  "find_by track_id" "map_where track_id" "map track_id" "keeps track_id" "filter_out track_id"
  by (rule array_keyed_collection)

interpretation clip_store: keyed_collection
  "find_by clip_id" "map_where clip_id" "map clip_id" "keeps clip_id" "filter_out clip_id"
  by (rule array_keyed_collection)

interpretation asset_store: keyed_collection
  "find_by asset_id" "map_where asset_id" "map asset_id" "keeps asset_id" "filter_out asset_id"
  by (rule array_keyed_collection)

named_theorems studio_defs \<open>the store's actions\<close>

lemmas [studio_defs] =
  set_project_id_def set_project_name_def set_timeline_def mark_dirty_def mark_clean_def
  edit_tracks_def add_track_def remove_track_def add_clip_def update_clip_def remove_clip_def
  select_clip_def set_current_time_def set_is_playing_def set_duration_def
  set_pixels_per_second_def set_scroll_left_def fit_to_window_def set_media_assets_def
  add_media_asset_def remove_media_asset_def

lemma all_clips_simps [simp]:
  "all_clips [] = []"
  "all_clips (t # ts) = clips t @ all_clips ts"
  "all_clips (ts @ us) = all_clips ts @ all_clips us"
  by (simp_all add: all_clips_def)

lemma set_all_clips: "set (all_clips ts) = (\<Union>t \<in> set ts. set (clips t))"
  by (simp add: all_clips_def)

lemma wf_tracksD:
  "wf_tracks ts \<Longrightarrow> distinct (map track_id ts)"
  "wf_tracks ts \<Longrightarrow> distinct (map clip_id (all_clips ts))"
  by (simp_all add: wf_tracks_def)

lemma distinct_clips_of_track:
  "distinct (map clip_id (all_clips ts)) \<Longrightarrow> t \<in> set ts \<Longrightarrow> distinct (map clip_id (clips t))"
  by (induction ts) auto

text \<open>Editing one track changes the clips of the timeline by the clips of that track.\<close>

lemma mset_edit_track:
  assumes "distinct (map track_id ts)" and "find_by track_id k ts = Some t"
  shows "mset (all_clips (map_where track_id k f ts)) + mset (clips t)
           = mset (all_clips ts) + mset (clips (f t))"
  using assms
proof (induction ts)
  case (Cons u ts)
  show ?case
  proof (cases "track_id u = k")
    case True
    with Cons.prems have "k \<notin> track_id ` set ts" and "u = t" by auto
    then show ?thesis using True by (simp add: map_where_absent)
  next
    case False
    with Cons show ?thesis by (simp add: ac_simps)
  qed
qed simp

lemma mset_filter_out_unique:
  assumes "distinct (map key xs)" and "find_by key k xs = Some x"
  shows "mset (filter_out key k xs) + {#x#} = mset xs"
  using assms
proof (induction xs)
  case (Cons y xs)
  show ?case
  proof (cases "key y = k")
    case True
    with Cons.prems have "k \<notin> key ` set xs" by auto
    with True Cons.prems show ?thesis by (simp add: filter_out_absent)
  qed (use Cons in auto)
qed simp

lemma mset_map_where_unique:
  assumes "distinct (map key xs)" and "find_by key k xs = Some x"
  shows "mset (map_where key k f xs) + {#x#} = mset xs + {#f x#}"
  using assms
proof (induction xs)
  case (Cons y xs)
  show ?case
  proof (cases "key y = k")
    case True
    with Cons.prems have "k \<notin> key ` set xs" by auto
    with True Cons.prems show ?thesis by (simp add: map_where_absent)
  qed (use Cons in auto)
qed simp

text \<open>The pass of \<open>moveClip\<close> over the tracks is an edit of the source and of the target.\<close>

lemma move_between:
  "fromId \<noteq> toId \<Longrightarrow>
   map (move_in_track fromId toId clipId moved) ts =
     map_where track_id toId (\<lambda>t. t\<lparr>clips := clips t @ [moved]\<rparr>)
       (map_where track_id fromId (\<lambda>t. t\<lparr>clips := filter_out clip_id clipId (clips t)\<rparr>) ts)"
  by (induction ts) (auto simp: move_in_track_def)

lemma move_within:
  "map (move_in_track k k clipId moved) ts =
     map_where track_id k (\<lambda>t. t\<lparr>clips := map_where clip_id clipId (\<lambda>_. moved) (clips t)\<rparr>) ts"
  by (induction ts) (auto simp: move_in_track_def)

lemma keeps_clips [simp, intro]: "keeps track_id (\<lambda>t. t\<lparr>clips := g t\<rparr>)"
  by (simp add: keeps_def)

lemma ids_edit_clips [simp]:
  "map track_id (map_where track_id k (\<lambda>t. t\<lparr>clips := g t\<rparr>) ts) = map track_id ts"
  by (rule track_store.ids_upd) simp

lemma ids_move [simp]: "map track_id (map (move_in_track f k c m) ts) = map track_id ts"
  by (induction ts) (auto simp: move_in_track_def)

text \<open>With its source clip and its target track in place, a move replaces one clip by the moved one.\<close>

lemma mset_move:
  assumes wf: "wf_tracks ts"
    and src: "find_by track_id fromId ts = Some t" and clip: "find_by clip_id clipId (clips t) = Some c"
    and dst: "find_by track_id toId ts = Some u"
  shows "mset (all_clips (map (move_in_track fromId toId clipId m) ts)) + {#c#} = mset (all_clips ts) + {#m#}"
proof -
  have dt: "distinct (map track_id ts)" using wf by (rule wf_tracksD)
  have "t \<in> set ts" using find_by_SomeD [OF src] by simp
  then have dc: "distinct (map clip_id (clips t))"
    using distinct_clips_of_track [OF wf_tracksD(2) [OF wf]] by blast
  show ?thesis
  proof (cases "fromId = toId")
    case True
    let ?f = "\<lambda>t. t\<lparr>clips := map_where clip_id clipId (\<lambda>_. m) (clips t)\<rparr>"
    have "mset (all_clips (map_where track_id toId ?f ts)) + mset (clips t) + {#c#}
            = mset (all_clips ts) + (mset (map_where clip_id clipId (\<lambda>_. m) (clips t)) + {#c#})"
      using mset_edit_track [OF dt, of toId t ?f] src True by simp
    also have "\<dots> = mset (all_clips ts) + (mset (clips t) + {#m#})"
      by (simp only: mset_map_where_unique [OF dc clip])
    finally show ?thesis using True by (simp add: move_within)
  next
    case False
    let ?f = "\<lambda>t. t\<lparr>clips := filter_out clip_id clipId (clips t)\<rparr>"
    let ?g = "\<lambda>t. t\<lparr>clips := clips t @ [m]\<rparr>"
    let ?ts = "map_where track_id fromId ?f ts"
    have u: "find_by track_id toId ?ts = Some u"
      using dst False by (simp add: track_store.get_upd_other)
    have "mset (all_clips (map_where track_id toId ?g ?ts)) = mset (all_clips ?ts) + {#m#}"
      using mset_edit_track [OF _ u, of ?g] dt by simp
    moreover have "mset (all_clips ?ts) + {#c#} = mset (all_clips ts)"
    proof -
      have "mset (all_clips ?ts) + mset (clips t) + {#c#}
              = mset (all_clips ts) + (mset (filter_out clip_id clipId (clips t)) + {#c#})"
        using mset_edit_track [OF dt src, of ?f] by simp
      then show ?thesis by (simp only: mset_filter_out_unique [OF dc clip]) simp
    qed
    ultimately show ?thesis using False by (simp add: move_between)
  qed
qed

subsection \<open>The invariant of the store\<close>

text \<open>
  Track ids and clip ids are unique over the whole timeline, the zoom stays within its
  bounds and the scroll offset is not negative.
\<close>

definition store_inv :: "studio_state \<Rightarrow> bool" where
  "store_inv s \<longleftrightarrow>
     wf_tracks (tracks (timeline s)) \<and> 10 \<le> pixels_per_second s \<and> pixels_per_second s \<le> 500 \<and>
     0 \<le> scroll_left s"

text \<open>
  What the callers provide: the UUIDs of new tracks and clips are fresh, and an update of a clip does not change its
  id.  A timeline that is set may be anything.  A run is admissible when, besides, the timelines that it sets have
  unique ids.
\<close>

fun fresh_action :: "studio_state \<Rightarrow> studio_action \<Rightarrow> bool" where
  "fresh_action s (AddTrack u k n) = (next_track_id u \<notin> track_id ` set (tracks (timeline s)))"
| "fresh_action s (AddClip t c) = (clip_id c \<notin> clip_id ` set (all_clips (tracks (timeline s))))"
| "fresh_action s (UpdateClip t c u) = (upd_id u = None \<or> upd_id u = Some c)"
| "fresh_action s _ = True"

fun admissible :: "studio_state \<Rightarrow> studio_action \<Rightarrow> bool" where
  "admissible s (SetTimeline d) = wf_tracks (tracks d)"
| "admissible s a = fresh_action s a"

fun run_ok :: "(studio_state \<Rightarrow> studio_action \<Rightarrow> bool) \<Rightarrow> studio_action list \<Rightarrow> studio_state \<Rightarrow> bool" where
  "run_ok P [] s = True"
| "run_ok P (a # as) s = (P s a \<and> run_ok P as (studio_step a s))"

text \<open>The timeline that a run set last, or else the one that it began with.\<close>

fun last_set :: "timeline_data \<Rightarrow> studio_action list \<Rightarrow> timeline_data" where
  "last_set d [] = d"
| "last_set d (SetTimeline d' # as) = last_set d' as"
| "last_set d (_ # as) = last_set d as"

inductive studio_reachable :: "studio_state \<Rightarrow> bool" where
  start: "studio_reachable initial_state"
| step: "studio_reachable s \<Longrightarrow> admissible s a \<Longrightarrow> studio_reachable (studio_step a s)"

lemma clip_ids_edit_shrinks:
  assumes "\<And>t. clip_id ` set (clips (f t)) \<subseteq> clip_id ` set (clips t)"
  shows "clip_id ` set (all_clips (map_where track_id k f ts)) \<subseteq> clip_id ` set (all_clips ts)"
  using assms by (induction ts) (auto; blast)+

lemma wf_edit_shrinks:
  assumes wf: "wf_tracks ts" and keep: "\<And>t. track_id (f t) = track_id t"
    and sub: "\<And>t. clip_id ` set (clips (f t)) \<subseteq> clip_id ` set (clips t)"
    and dist: "\<And>t. distinct (map clip_id (clips t)) \<Longrightarrow> distinct (map clip_id (clips (f t)))"
  shows "wf_tracks (map_where track_id k f ts)"
proof -
  have "distinct (map clip_id (all_clips ts)) \<Longrightarrow>
        distinct (map clip_id (all_clips (map_where track_id k f ts)))" for ts
  proof (induction ts)
    case (Cons t ts)
    have "clip_id ` set (all_clips (map_where track_id k f ts)) \<subseteq> clip_id ` set (all_clips ts)"
      by (rule clip_ids_edit_shrinks) (rule sub)
    moreover have "distinct (map clip_id (clips (f t)))"
      using Cons.prems by (intro dist) simp
    moreover have "distinct (map clip_id (all_clips (map_where track_id k f ts)))"
      using Cons.prems by (intro Cons.IH) simp
    moreover have "clip_id ` set (clips t) \<inter> clip_id ` set (all_clips ts) = {}"
      using Cons.prems by simp
    ultimately show ?case using sub [of t] Cons.prems by (simp del: disjoint_iff) blast
  qed simp
  then show ?thesis
    using wf keep by (simp add: wf_tracks_def keys_map_where)
qed

lemma wf_drop_clip:
  assumes "wf_tracks ts"
  shows "wf_tracks (map_where track_id k (\<lambda>t. t\<lparr>clips := filter_out clip_id c (clips t)\<rparr>) ts)"
proof (rule wf_edit_shrinks [OF assms])
  fix t :: timeline_track
  assume "distinct (map clip_id (clips t))"
  then show "distinct (map clip_id (clips (t\<lparr>clips := filter_out clip_id c (clips t)\<rparr>)))"
    by (simp add: clip_store.del_distinct)
qed auto

lemma wf_remove_track: "wf_tracks ts \<Longrightarrow> wf_tracks (filter_out track_id k ts)"
proof -
  have sub: "clip_id ` set (all_clips (filter_out track_id k us)) \<subseteq> clip_id ` set (all_clips us)" for us
    by (auto simp: set_all_clips)
  have "distinct (map clip_id (all_clips us)) \<Longrightarrow>
             distinct (map clip_id (all_clips (filter_out track_id k us)))" for us
  proof (induction us)
    case (Cons u us)
    then show ?case using sub [of us] by (auto simp: disjoint_iff)
  qed simp
  then show "wf_tracks ts \<Longrightarrow> wf_tracks (filter_out track_id k ts)"
    by (simp add: wf_tracks_def track_store.del_distinct)
qed

lemma wf_add_clip:
  assumes wf: "wf_tracks ts" and fresh: "clip_id c \<notin> clip_id ` set (all_clips ts)"
  shows "wf_tracks (map_where track_id k (\<lambda>t. t\<lparr>clips := clips t @ [c]\<rparr>) ts)"
proof (cases "find_by track_id k ts")
  case None
  then show ?thesis using wf by (simp add: find_by_None_iff map_where_absent)
next
  case (Some t)
  let ?ts = "map_where track_id k (\<lambda>t. t\<lparr>clips := clips t @ [c]\<rparr>) ts"
  have "mset (all_clips ?ts) = mset (c # all_clips ts)"
    using mset_edit_track [OF wf_tracksD(1) [OF wf] Some, of "\<lambda>t. t\<lparr>clips := clips t @ [c]\<rparr>"] by simp
  then have "mset (map clip_id (all_clips ?ts)) = mset (map clip_id (c # all_clips ts))"
    by (simp only: mset_map)
  then have "distinct (map clip_id (all_clips ?ts)) = distinct (map clip_id (c # all_clips ts))"
    by (rule mset_eq_imp_distinct_iff)
  then show ?thesis
    using wf fresh by (simp add: wf_tracks_def)
qed

lemma wf_move:
  assumes wf: "wf_tracks ts"
    and src: "find_by track_id fromId ts = Some t" and c: "find_by clip_id clipId (clips t) = Some c"
    and m: "clip_id m = clip_id c"
  shows "wf_tracks (map (move_in_track fromId toId clipId m) ts)"
proof (cases "find_by track_id toId ts")
  case (Some u)
  let ?ts = "map (move_in_track fromId toId clipId m) ts"
  have "mset (map clip_id (all_clips ?ts)) + {#clip_id c#} = mset (map clip_id (all_clips ts)) + {#clip_id c#}"
    using arg_cong [OF mset_move [OF wf src c Some, of m], of "image_mset clip_id"] m by simp
  then have "mset (map clip_id (all_clips ?ts)) = mset (map clip_id (all_clips ts))"
    by simp
  then have "distinct (map clip_id (all_clips ?ts)) = distinct (map clip_id (all_clips ts))"
    by (rule mset_eq_imp_distinct_iff)
  then show ?thesis using wf by (simp only: wf_tracks_def ids_move)
next
  case None
  then have "fromId \<noteq> toId" using src by auto
  moreover have "find_by track_id toId (map_where track_id fromId
      (\<lambda>t. t\<lparr>clips := filter_out clip_id clipId (clips t)\<rparr>) ts) = None"
    using None by (cases "fromId = toId") (simp_all add: track_store.get_upd_other track_store.get_upd_same)
  ultimately have "map (move_in_track fromId toId clipId m) ts =
      map_where track_id fromId (\<lambda>t. t\<lparr>clips := filter_out clip_id clipId (clips t)\<rparr>) ts"
    by (simp only: move_between map_where_absent find_by_None_iff not_False_eq_True)
  then show ?thesis using wf_drop_clip [OF wf] by simp
qed

lemma clip_id_spread: "upd_id u = None \<or> upd_id u = Some (clip_id c) \<Longrightarrow> clip_id (spread_clip c u) = clip_id c"
  by (auto simp: spread_clip_def)

lemma wf_update_clip:
  assumes "wf_tracks ts" and "upd_id u = None \<or> upd_id u = Some k"
  shows "wf_tracks (map_where track_id t (\<lambda>t. t\<lparr>clips := map_where clip_id k (\<lambda>c. spread_clip c u) (clips t)\<rparr>) ts)"
proof -
  have ids: "map clip_id (map_where clip_id k (\<lambda>c. spread_clip c u) cs) = map clip_id cs" for cs
    using assms(2) by (induction cs) (auto simp: clip_id_spread)
  then have "clip_id ` set (map_where clip_id k (\<lambda>c. spread_clip c u) cs) = clip_id ` set cs" for cs
    by (metis list.set_map)
  with ids show ?thesis
    using assms(1) by (intro wf_edit_shrinks) simp_all
qed

lemma clamp_zoom_bounds: "10 \<le> clamp_zoom x" "clamp_zoom x \<le> 500"
  by (simp_all add: clamp_zoom_def)

lemma studio_step_inv:
  assumes inv: "store_inv s" and ok: "admissible s a"
  shows "store_inv (studio_step a s)"
proof -
  note wfs = wf_remove_track wf_add_clip wf_update_clip wf_move wf_edit_shrinks
  show ?thesis
  proof (cases a)
    case (AddTrack u k n)
    then show ?thesis using inv ok by (auto simp: store_inv_def studio_defs wf_tracks_def)
  next
    case (RemoveClip t c)
    then show ?thesis using inv by (simp add: store_inv_def studio_defs wf_drop_clip)
  next
    case (MoveClip f t c x)
    then show ?thesis
      using inv by (auto simp: store_inv_def move_clip_def edit_tracks_def bind_eq_Some_conv
          split: option.split intro!: wf_move)
  qed (use inv ok wfs in \<open>auto simp: store_inv_def studio_defs clamp_zoom_bounds Let_def\<close>)
qed

definition view_bounds :: "studio_state \<Rightarrow> bool" where
  "view_bounds s \<longleftrightarrow> 10 \<le> pixels_per_second s \<and> pixels_per_second s \<le> 500 \<and> 0 \<le> scroll_left s"

lemma store_inv_parts: "store_inv s \<longleftrightarrow> wf_tracks (tracks (timeline s)) \<and> view_bounds s"
  by (simp add: store_inv_def view_bounds_def)

lemma view_bounds_step: "view_bounds s \<Longrightarrow> view_bounds (studio_step a s)"
  by (cases a) (auto simp: view_bounds_def studio_defs clamp_zoom_bounds Let_def move_clip_def split: option.split)

lemma view_bounds_run: "view_bounds s \<Longrightarrow> view_bounds (fold studio_step as s)"
  by (induction as arbitrary: s) (simp_all add: view_bounds_step)

lemma wf_step:
  assumes "wf_tracks (tracks (timeline s))" and "admissible s a"
  shows "wf_tracks (tracks (timeline (studio_step a s)))"
proof -
  let ?s = "s\<lparr>pixels_per_second := 10, scroll_left := 0\<rparr>"
  have "store_inv ?s" using assms(1) by (simp add: store_inv_def)
  moreover have "admissible ?s a" using assms(2) by (cases a) simp_all
  ultimately have "wf_tracks (tracks (timeline (studio_step a ?s)))"
    using studio_step_inv by (auto simp: store_inv_def)
  moreover have "tracks (timeline (studio_step a ?s)) = tracks (timeline (studio_step a s))"
    by (cases a) (auto simp: studio_defs Let_def move_clip_def split: option.split)
  ultimately show ?thesis by simp
qed

lemma wf_run:
  "run_ok fresh_action as s \<Longrightarrow> (wf_tracks (tracks d) \<Longrightarrow> wf_tracks (tracks (timeline s))) \<Longrightarrow>
   wf_tracks (tracks (last_set d as)) \<Longrightarrow> wf_tracks (tracks (timeline (fold studio_step as s)))"
proof (induction as arbitrary: s d)
  case (Cons a as)
  show ?case
  proof (cases "\<exists>d'. a = SetTimeline d'")
    case True
    then obtain d' where a: "a = SetTimeline d'" by blast
    show ?thesis
      using Cons.IH [of "studio_step a s" d'] Cons.prems by (simp add: a set_timeline_def)
  next
    case False
    then have last: "last_set d (a # as) = last_set d as" by (cases a) simp_all
    have "admissible s a" using False Cons.prems(1) by (cases a) simp_all
    then have "wf_tracks (tracks d) \<Longrightarrow> wf_tracks (tracks (timeline (studio_step a s)))"
      using Cons.prems(2) wf_step by blast
    then show ?thesis using Cons.IH [of "studio_step a s" d] Cons.prems last by simp
  qed
qed simp

subsection \<open>Selection\<close>

abbreviation clip_ids :: "studio_state \<Rightarrow> string set" where
  "clip_ids s \<equiv> clip_id ` set (all_clips (tracks (timeline s)))"

abbreviation track_ids :: "studio_state \<Rightarrow> string set" where
  "track_ids s \<equiv> track_id ` set (tracks (timeline s))"

text \<open>The selected clip and the selected track are in the timeline.\<close>

definition selection_ok :: "studio_state \<Rightarrow> bool" where
  "selection_ok s \<longleftrightarrow>
     set_option (selected_clip_id s) \<subseteq> clip_ids s \<and> set_option (selected_track_id s) \<subseteq> track_ids s"

text \<open>
  The actions that can leave a dangling selection: loading another timeline, selecting an
  unknown id, and moving a clip to a track that does not exist.
\<close>

fun keeps_selection :: "studio_state \<Rightarrow> studio_action \<Rightarrow> bool" where
  "keeps_selection s (SetTimeline d) = selection_ok (s\<lparr>timeline := d\<rparr>)"
| "keeps_selection s (SelectClip c t) = selection_ok (s\<lparr>selected_clip_id := c, selected_track_id := t\<rparr>)"
| "keeps_selection s (MoveClip f t c x) = (t \<in> track_ids s)"
| "keeps_selection s _ = True"

lemma track_ids_edit [simp]:
  "track_id ` set (map_where track_id k (\<lambda>t. t\<lparr>clips := g t\<rparr>) ts) = track_id ` set ts"
  by (induction ts) auto

lemma clips_after_remove_track:
  assumes "distinct (map track_id ts)" and "c \<in> set (all_clips ts)"
    and "\<And>t. find_by track_id k ts = Some t \<Longrightarrow> c \<notin> set (clips t)"
  shows "c \<in> set (all_clips (filter_out track_id k ts))"
  using assms
proof (induction ts)
  case (Cons t ts)
  show ?case
  proof (cases "track_id t = k")
    case True
    with Cons.prems have "k \<notin> track_id ` set ts" and "c \<in> set (all_clips ts)" by auto
    with True show ?thesis by (simp add: filter_out_absent)
  next
    case False
    then show ?thesis using Cons by auto
  qed
qed simp

lemma clips_after_edit:
  assumes "c \<in> set (all_clips ts)" and "\<And>t d. d \<in> set (clips t) \<Longrightarrow> P d \<Longrightarrow> clip_id d \<in> clip_id ` set (clips (f t))"
    and "P c"
  shows "clip_id c \<in> clip_id ` set (all_clips (map_where track_id k f ts))"
  using assms(1)
proof (induction ts)
  case (Cons t ts)
  show ?case
  proof (cases "c \<in> set (clips t)")
    case True
    then have "clip_id c \<in> clip_id ` set (clips (if track_id t = k then f t else t))"
      using assms(2) [of c t] assms(3) by auto
    then show ?thesis by (auto simp: image_Un)
  next
    case False
    then show ?thesis using Cons by (auto simp: image_Un)
  qed
qed simp

lemma selection_remove_track:
  assumes wf: "wf_tracks (tracks (timeline s))" and ok: "selection_ok s"
  shows "selection_ok (remove_track k s)"
proof -
  have "clip_id c \<in> clip_id ` set (all_clips (filter_out track_id k (tracks (timeline s))))"
    if "selected_clip_id s = Some (clip_id c)" "c \<in> set (all_clips (tracks (timeline s)))"
      "\<not> (case find_by track_id k (tracks (timeline s)) of None \<Rightarrow> False
           | Some t \<Rightarrow> list_ex (\<lambda>c. Some (clip_id c) = selected_clip_id s) (clips t))" for c
    using that wf by (intro imageI clips_after_remove_track)
      (auto simp: wf_tracks_def list_ex_iff split: option.splits)
  then show ?thesis
    using ok by (auto simp: selection_ok_def remove_track_def edit_tracks_def)
qed

lemma selection_remove_clip:
  assumes ok: "selection_ok s"
  shows "selection_ok (remove_clip t k s)"
proof -
  have "clip_id c \<in> clip_id ` set (all_clips (map_where track_id t
          (\<lambda>t. t\<lparr>clips := filter_out clip_id k (clips t)\<rparr>) (tracks (timeline s))))"
    if "c \<in> set (all_clips (tracks (timeline s)))" "clip_id c \<noteq> k" for c
    using that by (intro clips_after_edit [where P = "\<lambda>c. clip_id c \<noteq> k"]) auto
  then show ?thesis
    using ok by (auto simp: selection_ok_def remove_clip_def edit_tracks_def subset_iff)
qed

lemma selection_add_clip: "selection_ok s \<Longrightarrow> selection_ok (add_clip t c s)"
proof -
  have "clip_id d \<in> clip_id ` set (all_clips (map_where track_id t (\<lambda>t. t\<lparr>clips := clips t @ [c]\<rparr>) ts))"
    if "d \<in> set (all_clips ts)" for d ts
    using that by (intro clips_after_edit [where P = "\<lambda>_. True"]) auto
  then show "selection_ok s \<Longrightarrow> selection_ok (add_clip t c s)"
    by (auto simp: selection_ok_def add_clip_def edit_tracks_def subset_iff)
qed

lemma selection_update_clip:
  assumes "upd_id u = None \<or> upd_id u = Some k" and "selection_ok s"
  shows "selection_ok (update_clip t k u s)"
proof -
  have "clip_id ` set (map_where clip_id k (\<lambda>c. spread_clip c u) cs) = clip_id ` set cs" for cs
    using assms(1) by (induction cs) (auto simp: clip_id_spread)
  then have "clip_id d \<in> clip_id ` set (all_clips (map_where track_id t
      (\<lambda>t. t\<lparr>clips := map_where clip_id k (\<lambda>c. spread_clip c u) (clips t)\<rparr>) ts))"
    if "d \<in> set (all_clips ts)" for d ts
    using that by (intro clips_after_edit [where P = "\<lambda>_. True"]) auto
  then show ?thesis
    using assms(2) by (auto simp: selection_ok_def update_clip_def edit_tracks_def subset_iff)
qed

lemma selection_move_clip:
  assumes wf: "wf_tracks (tracks (timeline s))" and ok: "selection_ok s" and dst: "toId \<in> track_ids s"
  shows "selection_ok (move_clip fromId toId k x s)"
proof (cases "Option.bind (find_by track_id fromId (tracks (timeline s))) (\<lambda>t. find_by clip_id k (clips t))")
  case None
  then show ?thesis using ok by (simp add: move_clip_def)
next
  case (Some c)
  let ?ts = "tracks (timeline s)" and ?m = "c\<lparr>start_time := max 0 x\<rparr>"
  obtain t where t: "find_by track_id fromId ?ts = Some t" "find_by clip_id k (clips t) = Some c"
    using Some by (auto simp: bind_eq_Some_conv)
  obtain u where u: "find_by track_id toId ?ts = Some u"
    using dst find_by_None_iff [of track_id toId ?ts] by (cases "find_by track_id toId ?ts") auto
  have "image_mset clip_id (mset (all_clips (map (move_in_track fromId toId k ?m) ?ts)))
          = image_mset clip_id (mset (all_clips ?ts))"
    using arg_cong [OF mset_move [OF wf t u, of ?m], of "image_mset clip_id"] by simp
  from arg_cong [OF this, of set_mset]
  have "clip_id ` set (all_clips (map (move_in_track fromId toId k ?m) ?ts)) = clip_id ` set (all_clips ?ts)"
    by simp
  moreover have "track_id ` set (map (move_in_track fromId toId k ?m) ?ts) = track_id ` set ?ts"
    by (metis ids_move list.set_map)
  ultimately show ?thesis
    using ok Some by (simp add: selection_ok_def move_clip_def edit_tracks_def)
qed

lemma selection_step:
  assumes inv: "store_inv s" and sel: "selection_ok s" and ok: "admissible s a" and keep: "keeps_selection s a"
  shows "selection_ok (studio_step a s)"
proof -
  note sels = selection_remove_track selection_remove_clip selection_add_clip selection_update_clip
    selection_move_clip
  show ?thesis
    using inv sel ok keep sels
    by (cases a) (auto simp: store_inv_def studio_defs selection_ok_def Let_def)
qed

lemma find_clip_in_tracks_Some:
  "find_clip_in_tracks k ts = Some (t, c) \<Longrightarrow> t \<in> set ts \<and> c \<in> set (clips t) \<and> clip_id c = k"
  by (induction ts) (auto split: option.splits dest: find_by_SomeD)

lemma find_clip_in_tracks_None:
  "find_clip_in_tracks k ts = None \<longleftrightarrow> k \<notin> clip_id ` set (all_clips ts)"
  by (induction ts) (auto split: option.splits simp: find_by_None_iff dest: find_by_SomeD)

lemma find_by_unique:
  "distinct (map key xs) \<Longrightarrow> x \<in> set xs \<Longrightarrow> find_by key (key x) xs = Some x"
  by (induction xs) auto

lemma find_clip_in_tracks_unique:
  assumes "wf_tracks ts" and "t \<in> set ts" and "c \<in> set (clips t)"
  shows "find_clip_in_tracks (clip_id c) ts = Some (t, c)"
proof -
  have "distinct (map clip_id (all_clips ts)) \<Longrightarrow> find_clip_in_tracks (clip_id c) ts = Some (t, c)"
    using assms(2,3)
  proof (induction ts)
    case (Cons u us)
    show ?case
    proof (cases "clip_id c \<in> clip_id ` set (clips u)")
      case True
      then have "clip_id c \<notin> clip_id ` set (all_clips us)"
        using Cons.prems(1) by auto
      then have "t = u" using Cons.prems by (auto simp: set_all_clips)
      then show ?thesis using Cons.prems find_by_unique [of clip_id "clips u" c] by simp
    next
      case False
      then have "t \<noteq> u" and "find_by clip_id (clip_id c) (clips u) = None"
        using Cons.prems by (auto simp: find_by_None_iff)
      then show ?thesis using Cons by simp
    qed
  qed simp
  then show ?thesis using assms(1) by (simp add: wf_tracks_def)
qed

subsection \<open>Zoom to fit\<close>

lemma max_end_clips_ge: "m \<le> max_end_clips m cs" "c \<in> set cs \<Longrightarrow> clip_end c \<le> max_end_clips m cs"
proof (induction cs arbitrary: m)
  case (Cons d cs)
  { case 1 show ?case using Cons.IH(1) [of "max m (clip_end d)"] by simp }
  { case 2 then show ?case using Cons.IH(1) [of "max m (clip_end d)"] Cons.IH(2) by auto }
qed simp_all

lemma max_end_clips_mem: "max_end_clips m cs \<in> insert m (clip_end ` set cs)"
proof (induction cs arbitrary: m)
  case (Cons d cs)
  then show ?case using Cons.IH [of "max m (clip_end d)"] by (auto simp: max_def)
qed simp

lemma max_end_tracks_ge:
  "m \<le> max_end_tracks m ts" "c \<in> set (all_clips ts) \<Longrightarrow> clip_end c \<le> max_end_tracks m ts"
proof (induction ts arbitrary: m)
  case (Cons t ts)
  { case 1 show ?case
      using Cons.IH(1) [of "max_end_clips m (clips t)"] max_end_clips_ge(1) [of m "clips t"] by simp }
  { case 2 then show ?case
      using Cons.IH(1) [of "max_end_clips m (clips t)"] Cons.IH(2) max_end_clips_ge(2) [of c "clips t" m]
      by fastforce }
qed simp_all

lemma max_end_tracks_mem: "max_end_tracks m ts \<in> insert m (clip_end ` set (all_clips ts))"
proof (induction ts arbitrary: m)
  case (Cons t ts)
  have "max_end_clips m (clips t) \<in> insert m (clip_end ` set (clips t))"
    by (rule max_end_clips_mem)
  with Cons.IH [of "max_end_clips m (clips t)"] show ?case
    by (simp add: image_Un) metis
qed simp

lemma max_end_tracks_Max: "max_end_tracks m ts = Max (insert m (clip_end ` set (all_clips ts)))"
proof (rule Max_eqI [symmetric])
  show "y \<le> max_end_tracks m ts" if "y \<in> insert m (clip_end ` set (all_clips ts))" for y
    using that max_end_tracks_ge(1) [of m ts] max_end_tracks_ge(2) by auto
qed (simp_all add: max_end_tracks_mem del: insert_iff)

lemma reachable_store_inv: "studio_reachable s \<Longrightarrow> store_inv s"
proof (induction rule: studio_reachable.induct)
  case start
  show ?case by (simp add: store_inv_def initial_state_def default_timeline_def wf_tracks_def)
next
  case (step s a)
  then show ?case by (blast intro: studio_step_inv)
qed

subsection \<open>Properties\<close>

text \<open>C7: after any run of the store's actions from the initial state in which the ids of new tracks and
  clips are fresh and updates leave the id of a clip alone, the zoom is between 10 and 500 pixels per second and the
  scroll offset is not negative, whatever timelines were set in between; and track ids and clip ids are unique over
  the whole timeline, unless the timeline that was set last had duplicates itself.\<close>

theorem studio_reachable_inv:
  assumes "run_ok fresh_action as initial_state"
  shows "let s = fold studio_step as initial_state in
    10 \<le> pixels_per_second s \<and> pixels_per_second s \<le> 500 \<and> 0 \<le> scroll_left s \<and>
    (wf_tracks (tracks (last_set (timeline initial_state) as)) \<longrightarrow>
      distinct (map track_id (tracks (timeline s))) \<and> distinct (map clip_id (all_clips (tracks (timeline s)))))"
proof -
  have "view_bounds initial_state" by (simp add: view_bounds_def initial_state_def)
  then have "view_bounds (fold studio_step as initial_state)" by (rule view_bounds_run)
  then show ?thesis
    using wf_run [OF assms, of "timeline initial_state"] by (auto simp: Let_def view_bounds_def wf_tracks_def)
qed

text \<open>A loaded timeline with the same track twice keeps it; after the next one the ids are unique again.\<close>

lemma studio_reachable_inv_witness:
  "let d = timeline (add_track ''1'' Video None initial_state);
       s = fold studio_step [SetTimeline (d\<lparr>tracks := tracks d @ tracks d\<rparr>), SetTimeline d, AddTrack ''2'' Audio None]
         initial_state in
   distinct (map track_id (tracks (timeline s)))"
proof -
  let ?d = "timeline (add_track ''1'' Video None initial_state)"
  let ?as = "[SetTimeline (?d\<lparr>tracks := tracks ?d @ tracks ?d\<rparr>), SetTimeline ?d, AddTrack ''2'' Audio None]"
  note defs = initial_state_def default_timeline_def add_track_def edit_tracks_def next_track_id_def set_timeline_def
  have "run_ok fresh_action ?as initial_state" by (simp add: defs)
  moreover have "wf_tracks (tracks (last_set (timeline initial_state) ?as))" by (simp add: defs wf_tracks_def)
  ultimately show ?thesis using studio_reachable_inv [of ?as] by (simp add: Let_def)
qed

text \<open>In a reachable state whose selection is in the timeline, every admissible action
  leaves the selection in the timeline, except loading another timeline, selecting an unknown
  id and moving a clip to a missing track.  In particular removing the selected clip, or the
  track that holds it, clears the selection.\<close>

theorem studio_selection_never_dangles:
  assumes "studio_reachable s" and "selection_ok s" and "admissible s a" and "keeps_selection s a"
  shows "selection_ok (studio_step a s)"
  using reachable_store_inv [OF assms(1)] assms(2-4) by (rule selection_step)

text \<open>A small studio state for the witnesses: one clip on the first of two tracks.\<close>

definition sample_clip :: timeline_clip where
  "sample_clip =
     \<lparr>clip_id = ''clip-a'', clip_kind = Video, media_asset_id = Some ''m'', start_time = 2,
      clip_duration = 3, trim_start = None, trim_end = None,
      properties =
        \<lparr>opacity = None, volume = None, position = None, scale = None, text_content = None,
         font_family = None, font_size = None, text_color = None, link_url = None, link_label = None,
         subtitle_text = None, subtitle_style_of = None, background_opacity = None\<rparr>\<rparr>"

definition sample_state :: studio_state where
  "sample_state =
     select_clip (Some ''clip-a'') (Some ''track-1'')
       (add_clip ''track-1'' sample_clip
         (add_track ''2'' Audio (Some ''Music'') (add_track ''1'' Video None initial_state)))"

lemmas sample_defs =
  sample_state_def sample_clip_def initial_state_def default_timeline_def select_clip_def
  add_clip_def add_track_def edit_tracks_def next_track_id_def

lemma sample_reachable: "studio_reachable sample_state"
proof -
  let ?s1 = "studio_step (AddTrack ''1'' Video None) initial_state"
  let ?s2 = "studio_step (AddTrack ''2'' Audio (Some ''Music'')) ?s1"
  let ?s3 = "studio_step (AddClip ''track-1'' sample_clip) ?s2"
  have "studio_reachable ?s1"
    by (rule studio_reachable.step [OF studio_reachable.start])
      (simp add: initial_state_def default_timeline_def)
  then have "studio_reachable ?s2"
    by (rule studio_reachable.step) (simp add: sample_defs)
  then have "studio_reachable ?s3"
    by (rule studio_reachable.step) (simp add: sample_defs)
  then have "studio_reachable (studio_step (SelectClip (Some ''clip-a'') (Some ''track-1'')) ?s3)"
    by (rule studio_reachable.step) simp
  then show ?thesis by (simp add: sample_state_def)
qed

lemma sample_selection: "selection_ok sample_state"
  by (simp add: sample_defs selection_ok_def)

lemma studio_selection_never_dangles_witness:
  "selection_ok (studio_step (RemoveTrack ''track-1'') sample_state) \<and>
   selected_clip_id (studio_step (RemoveTrack ''track-1'') sample_state) = None"
  using studio_selection_never_dangles [OF sample_reachable sample_selection, of "RemoveTrack ''track-1''"]
  by (simp add: selection_ok_def sample_defs remove_track_def)

text \<open>With its source clip and its target track in place, moving a clip keeps every other clip
  of the timeline as it was and replaces the moved one by itself at the new start time (at least 0);
  afterwards the target track holds it, and the project is dirty.\<close>

theorem move_clip_correct:
  assumes "studio_reachable s"
    and "find_by track_id fromId (tracks (timeline s)) = Some t"
    and "find_by clip_id k (clips t) = Some c"
    and "find_by track_id toId (tracks (timeline s)) = Some u"
  shows "let m = c\<lparr>start_time := max 0 x\<rparr>; s' = move_clip fromId toId k x s in
    mset (all_clips (tracks (timeline s'))) + {#c#} = mset (all_clips (tracks (timeline s))) + {#m#} \<and>
    (\<exists>u'. find_by track_id toId (tracks (timeline s')) = Some u' \<and> m \<in> set (clips u')) \<and>
    is_dirty s'"
proof -
  let ?ts = "tracks (timeline s)" and ?m = "c\<lparr>start_time := max 0 x\<rparr>"
  have wf: "wf_tracks ?ts"
    using reachable_store_inv [OF assms(1)] by (simp add: store_inv_def)
  have s': "move_clip fromId toId k x s = edit_tracks (map (move_in_track fromId toId k ?m)) s"
    using assms(2,3) by (simp add: move_clip_def)
  have "find_by track_id toId (map (move_in_track fromId toId k ?m) ts) =
          map_option (move_in_track fromId toId k ?m) (find_by track_id toId ts)" for ts
    by (induction ts) (auto simp: move_in_track_def)
  moreover have "?m \<in> set (clips (move_in_track fromId toId k ?m u))"
  proof (cases "fromId = toId")
    case True
    then have "c \<in> set (clips u) \<and> clip_id c = k" and "track_id u = toId"
      using assms(2-4) find_by_SomeD by fastforce+
    then show ?thesis using True by (force simp: move_in_track_def map_where_def)
  next
    case False
    then show ?thesis using find_by_SomeD [OF assms(4)] by (simp add: move_in_track_def)
  qed
  ultimately show ?thesis
    using assms(4) mset_move [OF wf assms(2-4), of ?m] by (simp add: s' edit_tracks_def)
qed

lemma move_clip_correct_witness:
  "tracks (timeline (move_clip ''track-1'' ''track-2'' ''clip-a'' (-4) sample_state)) \<noteq> [] \<and>
   mset (all_clips (tracks (timeline (move_clip ''track-1'' ''track-2'' ''clip-a'' (-4) sample_state)))) =
     {#sample_clip\<lparr>start_time := 0\<rparr>#}"
proof -
  obtain t u where "find_by track_id ''track-1'' (tracks (timeline sample_state)) = Some t"
    and "find_by clip_id ''clip-a'' (clips t) = Some sample_clip"
    and "find_by track_id ''track-2'' (tracks (timeline sample_state)) = Some u"
    by (simp add: sample_defs)
  from move_clip_correct [OF sample_reachable this, of "-4"]
  show ?thesis by (auto simp: Let_def sample_defs)
qed

text \<open>a clip that is moved to a track that does not exist is lost: it is in no track of the
  resulting timeline.\<close>

theorem move_clip_to_missing_track_loses_clip:
  assumes "studio_reachable s"
    and "find_by track_id fromId (tracks (timeline s)) = Some t"
    and "find_by clip_id k (clips t) = Some c"
    and "find_by track_id toId (tracks (timeline s)) = None"
  shows "k \<notin> clip_ids (move_clip fromId toId k x s)"
proof -
  let ?ts = "tracks (timeline s)" and ?m = "c\<lparr>start_time := max 0 x\<rparr>"
  let ?f = "\<lambda>t. t\<lparr>clips := filter_out clip_id k (clips t)\<rparr>"
  have wf: "wf_tracks ?ts"
    using reachable_store_inv [OF assms(1)] by (simp add: store_inv_def)
  have ne: "fromId \<noteq> toId" using assms(2,4) by auto
  then have "find_by track_id toId (map_where track_id fromId ?f ?ts) = None"
    using assms(4) by (simp add: track_store.get_upd_other)
  then have tracks': "tracks (timeline (move_clip fromId toId k x s)) = map_where track_id fromId ?f ?ts"
    using assms(2,3) ne
    by (simp add: move_clip_def edit_tracks_def move_between map_where_absent find_by_None_iff)
  have "t \<in> set ?ts" and "c \<in> set (clips t)" and c: "clip_id c = k"
    using assms(2,3) by (auto dest: find_by_SomeD)
  have "d \<notin> set (all_clips (map_where track_id fromId ?f ?ts))" if d: "clip_id d = k" for d
  proof
    assume "d \<in> set (all_clips (map_where track_id fromId ?f ?ts))"
    then obtain v where v: "v \<in> set ?ts" "track_id v \<noteq> fromId" "d \<in> set (clips v)"
      using d by (auto simp: set_all_clips map_where_def split: if_splits)
    from find_clip_in_tracks_unique [OF wf v(1,3)]
      find_clip_in_tracks_unique [OF wf \<open>t \<in> set ?ts\<close> \<open>c \<in> set (clips t)\<close>]
    have "v = t" using c d by simp
    with v(2) assms(2) show False by (auto dest: find_by_SomeD)
  qed
  then show ?thesis by (auto simp: tracks')
qed

lemma move_clip_to_missing_track_loses_clip_witness:
  "''clip-a'' \<in> clip_ids sample_state \<and>
   ''clip-a'' \<notin> clip_ids (move_clip ''track-1'' ''gone'' ''clip-a'' 1 sample_state)"
proof -
  obtain t where "find_by track_id ''track-1'' (tracks (timeline sample_state)) = Some t"
    and "find_by clip_id ''clip-a'' (clips t) = Some sample_clip"
    and "find_by track_id ''gone'' (tracks (timeline sample_state)) = None"
    by (simp add: sample_defs)
  from move_clip_to_missing_track_loses_clip [OF sample_reachable this, of 1]
  show ?thesis by (simp add: sample_defs)
qed

text \<open>after \<open>fitToWindow\<close> the whole timeline fits: when the container is wide enough for the
  minimum zoom, every clip ends within 95 percent of the container's width; the scroll offset is 0
  and the zoom stays within its bounds.\<close>

theorem fit_to_window_fits:
  assumes "10 * Max (insert 10 (clip_end ` set (all_clips (tracks (timeline s))))) \<le> w * 0.95"
  shows "(\<forall>c. c \<in> set (all_clips (tracks (timeline s))) \<longrightarrow>
            clip_end c * pixels_per_second (fit_to_window w s) \<le> w * 0.95) \<and>
         scroll_left (fit_to_window w s) = 0 \<and>
         10 \<le> pixels_per_second (fit_to_window w s) \<and> pixels_per_second (fit_to_window w s) \<le> 500"
proof -
  define M where "M = max_end_tracks 10 (tracks (timeline s))"
  have M10: "10 \<le> M" unfolding M_def by (rule max_end_tracks_ge)
  have wide: "10 * M \<le> w * 0.95" using assms by (simp add: M_def max_end_tracks_Max)
  have "clamp_zoom (w * 0.95 / M) \<le> w * 0.95 / M"
  proof -
    have "10 \<le> w * 0.95 / M" using wide M10 by (simp add: field_simps)
    then show ?thesis by (simp add: clamp_zoom_def)
  qed
  moreover have "clip_end c \<le> M" if "c \<in> set (all_clips (tracks (timeline s)))" for c
    unfolding M_def using that by (rule max_end_tracks_ge)
  ultimately have "clip_end c * clamp_zoom (w * 0.95 / M) \<le> M * (w * 0.95 / M)"
    if "c \<in> set (all_clips (tracks (timeline s)))" for c
    using that M10 clamp_zoom_bounds(1) [of "w * 0.95 / M"] by (intro mult_mono) auto
  then show ?thesis
    using M10 by (simp add: fit_to_window_def Let_def M_def [symmetric] clamp_zoom_bounds)
qed

lemma fit_to_window_fits_witness:
  "clip_end sample_clip * pixels_per_second (fit_to_window 1000 sample_state) \<le> 1000 * 0.95"
proof -
  have ts: "set (all_clips (tracks (timeline sample_state))) = {sample_clip}"
    by (simp add: sample_defs)
  have "clip_end sample_clip = 5" by (simp add: clip_end_def sample_clip_def)
  then show ?thesis
    using fit_to_window_fits [of sample_state 1000] by (simp add: ts)
qed

text \<open>\<open>getSelectedClip\<close> returns a track and a clip exactly when the selected id is not empty and
  the track is in the timeline, the clip is in the track and the clip has the selected id.\<close>

theorem get_selected_clip_correct:
  assumes "studio_reachable s"
  shows "get_selected_clip s = Some (t, c) \<longleftrightarrow>
    t \<in> set (tracks (timeline s)) \<and> c \<in> set (clips t) \<and>
    selected_clip_id s = Some (clip_id c) \<and> clip_id c \<noteq> []"
proof -
  have wf: "wf_tracks (tracks (timeline s))"
    using reachable_store_inv [OF assms] by (simp add: store_inv_def)
  show ?thesis
  proof
    assume "get_selected_clip s = Some (t, c)"
    then show "t \<in> set (tracks (timeline s)) \<and> c \<in> set (clips t) \<and>
        selected_clip_id s = Some (clip_id c) \<and> clip_id c \<noteq> []"
      using find_clip_in_tracks_Some
      by (auto simp: get_selected_clip_def truthy_string_def split: if_splits)
  next
    assume "t \<in> set (tracks (timeline s)) \<and> c \<in> set (clips t) \<and>
        selected_clip_id s = Some (clip_id c) \<and> clip_id c \<noteq> []"
    then show "get_selected_clip s = Some (t, c)"
      using find_clip_in_tracks_unique [OF wf] by (simp add: get_selected_clip_def truthy_string_def)
  qed
qed

lemma get_selected_clip_correct_witness:
  "\<exists>t. get_selected_clip sample_state = Some (t, sample_clip) \<and> track_id t = ''track-1''"
proof -
  obtain t where "find_by track_id ''track-1'' (tracks (timeline sample_state)) = Some t"
    and "t \<in> set (tracks (timeline sample_state))" and "sample_clip \<in> set (clips t)"
    by (simp add: sample_defs)
  moreover have "selected_clip_id sample_state = Some (clip_id sample_clip)" "clip_id sample_clip \<noteq> []"
    by (simp_all add: sample_defs)
  ultimately show ?thesis
    using get_selected_clip_correct [OF sample_reachable, of t sample_clip]
    by (auto dest: find_by_SomeD)
qed

end
