(* ===== verification/Playback_Engine.thy ===== *)
theory Playback_Engine
  imports Studio_Store "HOL-Library.AList"
begin

section \<open>The playback engine\<close>

text \<open>
  \<^verbatim>\<open>apps/chat/components/studio/playback-engine.ts\<close>: the class that plays a timeline with
  DOM elements and animation frames.  The engine's fields are a record; the DOM is the part
  of it the code writes: the elements it made (each with an identity), the children of the
  container, the pending animation frames, the media fetches in flight and the object URLs
  made and revoked.  \<open>performance.now()\<close> is an argument, in milliseconds.  The two JavaScript
  maps are association lists in insertion order (\<open>AList.update\<close> is \<open>Map.set\<close>).
\<close>

subsection \<open>Elements\<close>

datatype element_kind = VideoElement | AudioElement | ImageElement | DivElement

datatype css_value = CssText string | CssPx real | CssPercent real | CssNumber real | CssBlack real

record inner_span =
  span_text :: string
  span_style :: "(string \<times> css_value) list"

record element =
  el_uid :: nat
  el_kind :: element_kind
  el_style :: "(string \<times> css_value) list"
  el_text :: string
  el_span :: "inner_span option"
  el_muted :: bool
  el_volume :: "real option"
  el_src :: "string option"
  el_shown :: bool
  el_playing :: bool
  el_time :: real
  el_clip :: string

definition blank_element :: "nat \<Rightarrow> element_kind \<Rightarrow> element" where
  "blank_element uid k =
     \<lparr>el_uid = uid, el_kind = k, el_style = [], el_text = [], el_span = None, el_muted = False,
      el_volume = None, el_src = None, el_shown = True, el_playing = False, el_time = 0, el_clip = []\<rparr>"

text \<open>\<open>el instanceof HTMLVideoElement || el instanceof HTMLAudioElement\<close>\<close>

definition is_media :: "element \<Rightarrow> bool" where
  "is_media el \<longleftrightarrow> el_kind el = VideoElement \<or> el_kind el = AudioElement"

definition percent :: "real \<Rightarrow> css_value" where
  "percent x = CssPercent (x * 100)"

text \<open>
  \<open>createElementForClip\<close>: the element, or none for a clip with nothing to show.  A media
  clip also starts a fetch of its asset, which \<open>rebuild_elements\<close> below records.
\<close>

definition create_element :: "nat \<Rightarrow> timeline_clip \<Rightarrow> timeline_track \<Rightarrow> element option" where
  "create_element uid c track =
     (let props = properties c in
      case clip_kind c of
        Video \<Rightarrow>
          (if truthy_string (media_asset_id c)
           then Some ((blank_element uid VideoElement)
             \<lparr>el_muted := muted track, el_volume := volume props,
              el_style := [(''width'', CssText ''100%''), (''height'', CssText ''100%''),
                (''objectFit'', CssText ''contain''), (''opacity'', CssNumber (nullish (opacity props) 1))]\<rparr>)
           else None)
      | Audio \<Rightarrow>
          (if truthy_string (media_asset_id c)
           then Some ((blank_element uid AudioElement)\<lparr>el_muted := muted track, el_volume := volume props\<rparr>)
           else None)
      | Text \<Rightarrow>
          (let pos = nullish (position props) \<lparr>vx = 0.5, vy = 0.5\<rparr> in
           Some ((blank_element uid DivElement)
             \<lparr>el_text := or_string (text_content props) [],
              el_style := [(''fontFamily'', CssText (or_string (font_family props) ''Inter, sans-serif'')),
                (''fontSize'', CssPx (or_number (font_size props) 48)),
                (''color'', CssText (or_string (text_color props) ''#FFFFFF'')),
                (''textAlign'', CssText ''center''), (''whiteSpace'', CssText ''pre-wrap''),
                (''pointerEvents'', CssText ''none''),
                (''textShadow'', CssText ''0 2px 4px rgba(0,0,0,0.5)''),
                (''left'', percent (vx pos)), (''top'', percent (vy pos)),
                (''transform'', CssText ''translate(-50%, -50%)'')]\<rparr>))
      | Image \<Rightarrow>
          (if truthy_string (media_asset_id c)
           then
             (let pos = nullish (position props) \<lparr>vx = 0, vy = 0\<rparr> in
              Some ((blank_element uid ImageElement)
                \<lparr>el_style := [(''objectFit'', CssText ''contain''),
                   (''opacity'', CssNumber (nullish (opacity props) 1)),
                   (''left'', percent (vx pos)), (''top'', percent (vy pos)),
                   (''maxWidth'', CssText ''100%''), (''maxHeight'', CssText ''100%'')]\<rparr>))
           else None)
      | Subtitle \<Rightarrow>
          (let base = [(''width'', CssText ''100%''), (''display'', CssText ''flex''),
                 (''justifyContent'', CssText ''center''), (''pointerEvents'', CssText ''none'')];
               pos = nullish (position props) \<lparr>vx = 0.5, vy = 0.9\<rparr>;
               placed =
                 (case nullish (subtitle_style_of props) BottomCenter of
                    BottomCenter \<Rightarrow> base @ [(''bottom'', CssText ''8%''), (''left'', CssText ''0'')]
                  | TopCenter \<Rightarrow> base @ [(''top'', CssText ''8%''), (''left'', CssText ''0'')]
                  | CustomStyle \<Rightarrow>
                      AList.update ''width'' (CssText ''auto'') base @
                      [(''left'', percent (vx pos)), (''top'', percent (vy pos)),
                       (''transform'', CssText ''translate(-50%, -50%)'')])
           in Some ((blank_element uid DivElement)
             \<lparr>el_style := placed,
              el_span := Some
                \<lparr>span_text = or_string (subtitle_text props) [],
                 span_style = [(''fontFamily'', CssText (or_string (font_family props) ''Inter, sans-serif'')),
                   (''fontSize'', CssPx (or_number (font_size props) 24)),
                   (''color'', CssText (or_string (text_color props) ''#FFFFFF'')),
                   (''padding'', CssText ''4px 12px''), (''borderRadius'', CssText ''4px''),
                   (''backgroundColor'', CssBlack (nullish (background_opacity props) 0.5))]\<rparr>\<rparr>)))"

text \<open>The asset the element of a clip loads: video, audio and image clips fetch, text does not.\<close>

definition wanted_asset :: "timeline_clip \<Rightarrow> string option" where
  "wanted_asset c =
     (if clip_kind c \<in> {Video, Audio, Image} \<and> truthy_string (media_asset_id c)
      then media_asset_id c else None)"

subsection \<open>The engine\<close>

record engine =
  shown_timeline :: "timeline_data option"
  playing :: bool
  playhead :: real
  start_wall :: real
  raf_id :: "nat option"
  elements :: "(string \<times> element) list"
  blob_urls :: "(string \<times> string) list"
  container :: "nat list"
  pending_frames :: "nat list"
  next_handle :: nat
  next_uid :: nat
  fetches :: "(string \<times> nat) list"
  created_urls :: "string list"
  revoked_urls :: "string list"
  notified :: "real list"

definition new_engine :: engine where
  "new_engine =
     \<lparr>shown_timeline = None, playing = False, playhead = 0, start_wall = 0, raf_id = None,
      elements = [], blob_urls = [], container = [], pending_frames = [], next_handle = 1,
      next_uid = 0, fetches = [], created_urls = [], revoked_urls = [], notified = []\<rparr>"

definition get_current_time :: "engine \<Rightarrow> real" where
  "get_current_time e = playhead e"

definition on_time_update :: "engine \<Rightarrow> engine" where
  "on_time_update e = e\<lparr>notified := playhead e # notified e\<rparr>"

definition compute_duration :: "engine \<Rightarrow> real" where
  "compute_duration e =
     (case shown_timeline e of None \<Rightarrow> 0 | Some d \<Rightarrow> max_end_tracks 0 (tracks d))"

text \<open>\<open>fetchMediaBlobUrl(id).then((url) => el.src = url)\<close>: a cached URL is set at once.\<close>

definition load_media :: "string \<Rightarrow> element \<Rightarrow> engine \<Rightarrow> element \<times> engine" where
  "load_media asset el e =
     (case map_of (blob_urls e) asset of
        Some url \<Rightarrow>
          if url \<noteq> [] then (el\<lparr>el_src := Some url\<rparr>, e)
          else (el, e\<lparr>fetches := fetches e @ [(asset, el_uid el)]\<rparr>)
      | None \<Rightarrow> (el, e\<lparr>fetches := fetches e @ [(asset, el_uid el)]\<rparr>))"

text \<open>The body of the loop of \<open>rebuildElements\<close>.\<close>

definition add_element :: "timeline_track \<Rightarrow> timeline_clip \<Rightarrow> engine \<Rightarrow> engine" where
  "add_element track c e =
     (case create_element (next_uid e) c track of
        None \<Rightarrow> e
      | Some el0 \<Rightarrow>
          (let (el1, e1) = (case wanted_asset c of
                 None \<Rightarrow> (el0, e) | Some a \<Rightarrow> load_media a el0 e);
               el2 = el1\<lparr>el_style := el_style el1 @ [(''position'', CssText ''absolute'')],
                         el_shown := False, el_clip := clip_id c\<rparr>
           in e1\<lparr>next_uid := Suc (next_uid e1),
                 container := container e1 @ [el_uid el2],
                 elements := AList.update (clip_id c) el2 (elements e1)\<rparr>))"

definition add_track_elements :: "timeline_track \<Rightarrow> engine \<Rightarrow> engine" where
  "add_track_elements track e = (if visible track then fold (add_element track) (clips track) e else e)"

definition drop_elements :: "engine \<Rightarrow> engine" where
  "drop_elements e =
     e\<lparr>container := filter (\<lambda>u. u \<notin> el_uid ` snd ` set (elements e)) (container e), elements := []\<rparr>"

definition rebuild_elements :: "engine \<Rightarrow> engine" where
  "rebuild_elements e =
     (let e1 = drop_elements e in
      case shown_timeline e1 of
        None \<Rightarrow> e1
      | Some d \<Rightarrow> fold add_track_elements (tracks d) e1)"

definition is_active :: "real \<Rightarrow> timeline_clip \<Rightarrow> bool" where
  "is_active t c \<longleftrightarrow> start_time c \<le> t \<and> t < clip_end c"

definition set_display ::
  "real \<Rightarrow> timeline_clip \<Rightarrow> (string \<times> element) list \<Rightarrow> (string \<times> element) list" where
  "set_display t c els =
     (case map_of els (clip_id c) of
        None \<Rightarrow> els
      | Some el \<Rightarrow> AList.update (clip_id c) (el\<lparr>el_shown := is_active t c\<rparr>) els)"

definition render_frame :: "engine \<Rightarrow> engine" where
  "render_frame e =
     (case shown_timeline e of
        None \<Rightarrow> e
      | Some d \<Rightarrow>
          e\<lparr>elements := fold (\<lambda>track els.
               if visible track then fold (set_display (playhead e)) (clips track) els else els)
             (tracks d) (elements e)\<rparr>)"

definition sync_clip ::
  "real \<Rightarrow> timeline_clip \<Rightarrow> (string \<times> element) list \<Rightarrow> (string \<times> element) list" where
  "sync_clip t c els =
     (case map_of els (clip_id c) of
        None \<Rightarrow> els
      | Some el \<Rightarrow>
          if is_media el
          then AList.update (clip_id c)
                 (el\<lparr>el_time := max 0 (or_number (trim_start c) 0 + (t - start_time c))\<rparr>) els
          else els)"

definition sync_media_elements :: "engine \<Rightarrow> engine" where
  "sync_media_elements e =
     (case shown_timeline e of
        None \<Rightarrow> e
      | Some d \<Rightarrow>
          e\<lparr>elements := fold (\<lambda>track els. fold (sync_clip (playhead e)) (clips track) els)
             (tracks d) (elements e)\<rparr>)"

definition set_engine_timeline :: "timeline_data \<Rightarrow> engine \<Rightarrow> engine" where
  "set_engine_timeline d e = render_frame (rebuild_elements (e\<lparr>shown_timeline := Some d\<rparr>))"

definition request_frame :: "engine \<Rightarrow> engine" where
  "request_frame e =
     e\<lparr>raf_id := Some (next_handle e), pending_frames := pending_frames e @ [next_handle e],
       next_handle := Suc (next_handle e)\<rparr>"

definition tick :: "real \<Rightarrow> engine \<Rightarrow> engine" where
  "tick now e =
     (if \<not> playing e then e
      else
        (let e1 = e\<lparr>playhead := (now - start_wall e) / 1000\<rparr>;
             total = compute_duration e1
         in if total \<le> playhead e1
            then render_frame (on_time_update (e1\<lparr>playhead := total, playing := False\<rparr>))
            else request_frame (on_time_update (render_frame e1))))"

definition set_media_playing :: "bool \<Rightarrow> engine \<Rightarrow> engine" where
  "set_media_playing p e =
     e\<lparr>elements := map (\<lambda>(k, el). (k, if is_media el then el\<lparr>el_playing := p\<rparr> else el)) (elements e)\<rparr>"

definition play :: "real \<Rightarrow> real \<Rightarrow> engine \<Rightarrow> engine" where
  "play now now' e =
     (if playing e then e
      else set_media_playing True
             (tick now' (e\<lparr>playing := True, start_wall := now - playhead e * 1000\<rparr>)))"

definition pause :: "engine \<Rightarrow> engine" where
  "pause e =
     (let e1 = e\<lparr>playing := False\<rparr>;
          e2 = (case raf_id e1 of
                  None \<Rightarrow> e1
                | Some h \<Rightarrow> e1\<lparr>pending_frames := removeAll h (pending_frames e1), raf_id := None\<rparr>)
      in set_media_playing False e2)"

definition seek :: "real \<Rightarrow> real \<Rightarrow> engine \<Rightarrow> engine" where
  "seek time now e =
     (let e1 = e\<lparr>playhead := max 0 time\<rparr>;
          e2 = e1\<lparr>start_wall := now - playhead e1 * 1000\<rparr>
      in on_time_update (render_frame (sync_media_elements e2)))"

definition destroy :: "engine \<Rightarrow> engine" where
  "destroy e =
     (let e1 = drop_elements (pause e)
      in e1\<lparr>revoked_urls := revoked_urls e1 @ map snd (blob_urls e1), blob_urls := []\<rparr>)"

text \<open>A frame fires, a fetch ends: what the browser does between the calls.\<close>

definition frame_fires :: "real \<Rightarrow> engine \<Rightarrow> engine" where
  "frame_fires now e =
     (case pending_frames e of
        [] \<Rightarrow> e
      | h # hs \<Rightarrow> tick now (e\<lparr>pending_frames := hs\<rparr>))"

definition fetch_succeeds :: "nat \<Rightarrow> string \<Rightarrow> engine \<Rightarrow> engine" where
  "fetch_succeeds i url e =
     (if i < length (fetches e) then
        (let (asset, uid) = fetches e ! i
         in e\<lparr>fetches := take i (fetches e) @ drop (Suc i) (fetches e),
              created_urls := created_urls e @ [url],
              blob_urls := AList.update asset url (blob_urls e),
              elements := map (\<lambda>(k, el). (k, if el_uid el = uid then el\<lparr>el_src := Some url\<rparr> else el))
                (elements e)\<rparr>)
      else e)"

definition fetch_fails :: "nat \<Rightarrow> engine \<Rightarrow> engine" where
  "fetch_fails i e = e\<lparr>fetches := take i (fetches e) @ drop (Suc i) (fetches e)\<rparr>"

datatype engine_event =
    EvSetTimeline timeline_data
  | EvPlay real real
  | EvPause
  | EvSeek real real
  | EvFrame real
  | EvFetched nat string
  | EvFetchFailed nat
  | EvDestroy

fun engine_step :: "engine_event \<Rightarrow> engine \<Rightarrow> engine" where
  "engine_step (EvSetTimeline d) e = set_engine_timeline d e"
| "engine_step (EvPlay now now') e = play now now' e"
| "engine_step EvPause e = pause e"
| "engine_step (EvSeek t now) e = seek t now e"
| "engine_step (EvFrame now) e = frame_fires now e"
| "engine_step (EvFetched i url) e = fetch_succeeds i url e"
| "engine_step (EvFetchFailed i) e = fetch_fails i e"
| "engine_step EvDestroy e = destroy e"

subsection \<open>What the passes over the elements leave alone\<close>

text \<open>The part of the engine that drives the animation loop.\<close>

definition loop_state :: "engine \<Rightarrow> timeline_data option \<times> bool \<times> real \<times> real \<times> nat option \<times> nat list" where
  "loop_state e =
     (shown_timeline e, playing e, playhead e, start_wall e, raf_id e, pending_frames e)"

named_theorems loop_simps \<open>operations that do not touch the loop\<close>

lemma loop_render [loop_simps]: "loop_state (render_frame e) = loop_state e"
  by (simp add: render_frame_def loop_state_def split: option.split)

lemma loop_sync [loop_simps]: "loop_state (sync_media_elements e) = loop_state e"
  by (simp add: sync_media_elements_def loop_state_def split: option.split)

lemma loop_notify [loop_simps]: "loop_state (on_time_update e) = loop_state e"
  by (simp add: on_time_update_def loop_state_def)

lemma loop_media [loop_simps]: "loop_state (set_media_playing p e) = loop_state e"
  by (simp add: set_media_playing_def loop_state_def)

lemma loop_drop [loop_simps]: "loop_state (drop_elements e) = loop_state e"
  by (simp add: drop_elements_def loop_state_def)

lemma loop_load: "loop_state (snd (load_media a el e)) = loop_state e"
  by (simp add: load_media_def loop_state_def split: option.split)

lemma loop_add [loop_simps]: "loop_state (add_element t c e) = loop_state e"
  using loop_load [of "the (wanted_asset c)" _ e]
  by (auto simp: add_element_def loop_state_def Let_def split: option.split prod.split) (metis snd_conv)+

lemma loop_add_clips [loop_simps]: "loop_state (fold (add_element t) cs e) = loop_state e"
  by (induction cs arbitrary: e) (simp_all add: loop_simps)

lemma loop_add_tracks [loop_simps]: "loop_state (fold add_track_elements ts e) = loop_state e"
  by (induction ts arbitrary: e) (simp_all add: loop_simps add_track_elements_def)

lemma loop_rebuild [loop_simps]: "loop_state (rebuild_elements e) = loop_state e"
  by (simp add: rebuild_elements_def loop_simps Let_def split: option.split)

lemma loop_fetched [loop_simps]: "loop_state (fetch_succeeds i u e) = loop_state e"
  by (simp add: fetch_succeeds_def loop_state_def split: prod.split)

lemma loop_fetch_failed [loop_simps]: "loop_state (fetch_fails i e) = loop_state e"
  by (simp add: fetch_fails_def loop_state_def)

lemma loop_stateD:
  assumes "loop_state e = loop_state e'"
  shows "shown_timeline e = shown_timeline e'" "playing e = playing e'" "playhead e = playhead e'"
    "start_wall e = start_wall e'" "raf_id e = raf_id e'" "pending_frames e = pending_frames e'"
    "compute_duration e = compute_duration e'"
  using assms by (simp_all add: loop_state_def compute_duration_def)

lemmas loop_fields [simp] =
  loop_stateD [OF loop_render] loop_stateD [OF loop_sync] loop_stateD [OF loop_notify]
  loop_stateD [OF loop_media] loop_stateD [OF loop_drop] loop_stateD [OF loop_rebuild]
  loop_stateD [OF loop_fetched] loop_stateD [OF loop_fetch_failed]

lemma compute_duration_nonneg: "0 \<le> compute_duration e"
  by (simp add: compute_duration_def max_end_tracks_ge split: option.split)

subsection \<open>One animation loop\<close>

text \<open>
  A frame is pending exactly while the engine plays, and it is the one whose handle the
  engine holds; the playhead is never negative and never ahead of the wall clock.
\<close>

definition loop_inv :: "real \<Rightarrow> engine \<Rightarrow> bool" where
  "loop_inv clock e \<longleftrightarrow>
     (if playing e then \<exists>h. raf_id e = Some h \<and> pending_frames e = [h] else pending_frames e = []) \<and>
     0 \<le> playhead e \<and> (playing e \<longrightarrow> start_wall e + 1000 * playhead e \<le> clock)"

lemma loop_inv_cong: "loop_state e = loop_state e' \<Longrightarrow> loop_inv clock e = loop_inv clock e'"
  by (simp add: loop_inv_def loop_state_def)

lemma loop_inv_later: "loop_inv clock e \<Longrightarrow> clock \<le> now \<Longrightarrow> loop_inv now e"
  by (auto simp: loop_inv_def)

text \<open>A tick runs while no frame is pending: its own one has just fired.\<close>

lemma loop_inv_tick:
  assumes "playing e" and "pending_frames e = []" and "0 \<le> playhead e"
    and "start_wall e + 1000 * playhead e \<le> now"
  shows "loop_inv now (tick now e)"
proof -
  have "0 \<le> (now - start_wall e) / 1000" using assms(3,4) by simp
  moreover have "start_wall e + 1000 * ((now - start_wall e) / 1000) \<le> now" by (simp add: field_simps)
  ultimately show ?thesis
    using assms(1,2) compute_duration_nonneg [of "e\<lparr>playhead := (now - start_wall e) / 1000\<rparr>"]
    by (simp add: loop_inv_def tick_def Let_def request_frame_def)
qed

lemma loop_inv_play:
  assumes "loop_inv clock e" and "clock \<le> now" and "now \<le> now'"
  shows "loop_inv now' (play now now' e)"
proof (cases "playing e")
  case True
  then show ?thesis using assms loop_inv_later by (auto simp: play_def)
next
  case False
  let ?e = "e\<lparr>playing := True, start_wall := now - playhead e * 1000\<rparr>"
  have "loop_inv now' (tick now' ?e)"
    using assms False by (intro loop_inv_tick) (simp_all add: loop_inv_def)
  then show ?thesis
    using False loop_inv_cong [OF loop_media] by (simp add: play_def)
qed

lemma loop_inv_pause: "loop_inv clock e \<Longrightarrow> loop_inv clock (pause e)"
  by (auto simp: loop_inv_def pause_def Let_def split: option.splits if_splits)

lemma loop_inv_seek:
  assumes "loop_inv clock e" and "clock \<le> now"
  shows "loop_inv now (seek t now e)"
  using assms by (auto simp: loop_inv_def seek_def Let_def)

lemma loop_inv_frame:
  assumes "loop_inv clock e" and "clock \<le> now"
  shows "loop_inv now (frame_fires now e)"
proof (cases "playing e")
  case True
  then obtain h where "pending_frames e = [h]" using assms(1) by (auto simp: loop_inv_def)
  then show ?thesis
    using assms True by (auto simp: frame_fires_def loop_inv_def [of clock] intro!: loop_inv_tick)
next
  case False
  then show ?thesis
    using assms loop_inv_later [OF assms] by (simp add: frame_fires_def loop_inv_def [of clock])
qed

lemma loop_inv_destroy: "loop_inv clock e \<Longrightarrow> loop_inv clock (destroy e)"
proof -
  assume "loop_inv clock e"
  then have "loop_inv clock (pause e)" by (rule loop_inv_pause)
  moreover have "loop_state (destroy e) = loop_state (pause e)"
    by (simp add: destroy_def Let_def loop_state_def)
  ultimately show ?thesis using loop_inv_cong by blast
qed

subsection \<open>Reachable engines\<close>

fun event_clock :: "real \<Rightarrow> engine_event \<Rightarrow> real" where
  "event_clock clock (EvPlay now now') = now'"
| "event_clock clock (EvSeek t now) = now"
| "event_clock clock (EvFrame now) = now"
| "event_clock clock _ = clock"

text \<open>The clock does not run backwards, and a timeline that is set has unique ids.\<close>

fun event_ok :: "real \<Rightarrow> engine_event \<Rightarrow> bool" where
  "event_ok clock (EvSetTimeline d) = wf_tracks (tracks d)"
| "event_ok clock (EvPlay now now') = (clock \<le> now \<and> now \<le> now')"
| "event_ok clock (EvSeek t now) = (clock \<le> now)"
| "event_ok clock (EvFrame now) = (clock \<le> now)"
| "event_ok clock _ = True"

inductive engine_reachable :: "real \<Rightarrow> engine \<Rightarrow> bool" where
  start: "engine_reachable clock new_engine"
| step: "engine_reachable clock e \<Longrightarrow> event_ok clock ev \<Longrightarrow>
    engine_reachable (event_clock clock ev) (engine_step ev e)"

lemma loop_inv_step:
  assumes "loop_inv clock e" and "event_ok clock ev"
  shows "loop_inv (event_clock clock ev) (engine_step ev e)"
proof (cases ev)
  case (EvSetTimeline d)
  have "loop_inv clock (e\<lparr>shown_timeline := Some d\<rparr>)"
    using assms by (simp add: loop_inv_def)
  then have "loop_inv clock (set_engine_timeline d e)"
    using loop_inv_cong [OF loop_render] loop_inv_cong [OF loop_rebuild]
    by (simp add: set_engine_timeline_def)
  then show ?thesis using EvSetTimeline by simp
next
  case (EvFetched i u)
  then show ?thesis using assms loop_inv_cong [OF loop_fetched] by simp
next
  case (EvFetchFailed i)
  then show ?thesis using assms loop_inv_cong [OF loop_fetch_failed] by simp
qed (use assms loop_inv_play loop_inv_pause loop_inv_seek loop_inv_frame loop_inv_destroy in auto)

lemma reachable_loop_inv: "engine_reachable clock e \<Longrightarrow> loop_inv clock e"
proof (induction rule: engine_reachable.induct)
  case start
  show ?case by (simp add: loop_inv_def new_engine_def)
next
  case (step clock e ev)
  then show ?case by (blast intro: loop_inv_step)
qed

subsection \<open>The elements on screen\<close>

definition visible_clips :: "timeline_data \<Rightarrow> timeline_clip list" where
  "visible_clips d = all_clips (filter visible (tracks d))"

definition display_ok :: "engine \<Rightarrow> bool" where
  "display_ok e \<longleftrightarrow>
     (case shown_timeline e of
        None \<Rightarrow> elements e = []
      | Some d \<Rightarrow> wf_tracks (tracks d) \<and>
          (\<forall>c el. c \<in> set (visible_clips d) \<and> map_of (elements e) (clip_id c) = Some el \<longrightarrow>
             el_shown el = is_active (playhead e) c))"

lemma visible_clips_distinct:
  assumes "wf_tracks (tracks d)"
  shows "distinct (map clip_id (visible_clips d))"
proof -
  have sub: "clip_id ` set (all_clips (filter visible ts)) \<subseteq> clip_id ` set (all_clips ts)" for ts
    by (auto simp: set_all_clips)
  have "distinct (map clip_id (all_clips ts)) \<Longrightarrow> distinct (map clip_id (all_clips (filter visible ts)))" for ts
  proof (induction ts)
    case (Cons t ts)
    then show ?case using sub [of ts] by (auto simp: disjoint_iff)
  qed simp
  then show ?thesis using assms by (simp add: visible_clips_def wf_tracks_def)
qed

lemma fold_visible:
  "fold (\<lambda>track acc. if visible track then fold f (clips track) acc else acc) ts acc
     = fold f (all_clips (filter visible ts)) acc"
  by (induction ts arbitrary: acc) simp_all

lemma map_of_set_display:
  "map_of (set_display t c els) k =
     (if k = clip_id c then map_option (\<lambda>el. el\<lparr>el_shown := is_active t c\<rparr>) (map_of els k)
      else map_of els k)"
  by (auto simp: set_display_def update_conv' split: option.split)

text \<open>A pass that updates the element of each clip once: what it leaves at an id.\<close>

lemma map_of_pass:
  assumes "\<And>c els k. map_of (f c els) k =
     (if k = clip_id c then map_option (g c) (map_of els k) else map_of els k)"
  shows "distinct (map clip_id cs) \<Longrightarrow>
   map_of (fold f cs els) k =
     (case find_by clip_id k cs of None \<Rightarrow> map_of els k | Some c \<Rightarrow> map_option (g c) (map_of els k))"
proof (induction cs arbitrary: els)
  case (Cons c cs)
  then have "k = clip_id c \<Longrightarrow> find_by clip_id k cs = None"
    by (simp add: find_by_None_iff)
  then show ?case using Cons by (auto simp: assms split: option.split)
qed simp

lemmas map_of_display_pass = map_of_pass [OF map_of_set_display]

lemma map_of_render:
  assumes "shown_timeline e = Some d" and "wf_tracks (tracks d)"
  shows "map_of (elements (render_frame e)) k =
     (case find_by clip_id k (visible_clips d) of
        None \<Rightarrow> map_of (elements e) k
      | Some c \<Rightarrow> map_option (\<lambda>el. el\<lparr>el_shown := is_active (playhead e) c\<rparr>) (map_of (elements e) k))"
  using assms map_of_display_pass [OF visible_clips_distinct [OF assms(2)]]
  by (simp add: render_frame_def fold_visible visible_clips_def)

definition timeline_ok :: "engine \<Rightarrow> bool" where
  "timeline_ok e \<longleftrightarrow>
     (shown_timeline e = None \<longrightarrow> elements e = []) \<and>
     (\<forall>d. shown_timeline e = Some d \<longrightarrow> wf_tracks (tracks d))"

lemma display_render:
  assumes "timeline_ok e"
  shows "display_ok (render_frame e)"
proof (cases "shown_timeline e")
  case None
  then show ?thesis using assms by (simp add: display_ok_def render_frame_def timeline_ok_def)
next
  case (Some d)
  then have wf: "wf_tracks (tracks d)" using assms by (simp add: timeline_ok_def)
  have "el_shown el = is_active (playhead e) c"
    if "c \<in> set (visible_clips d)" and "map_of (elements (render_frame e)) (clip_id c) = Some el" for c el
    using that find_by_unique [OF visible_clips_distinct [OF wf] that(1)]
    by (auto simp: map_of_render [OF Some wf])
  then show ?thesis using Some wf by (auto simp: display_ok_def)
qed

lemma map_of_map_snd: "map_of (map (\<lambda>(k, v). (k, f v)) xs) k = map_option f (map_of xs k)"
  by (induction xs) auto

text \<open>Updating every element without touching what is shown keeps the display.\<close>

lemma display_ok_map:
  assumes "display_ok e" and "shown_timeline e' = shown_timeline e" and "playhead e' = playhead e"
    and "elements e' = map (\<lambda>(k, el). (k, f el)) (elements e)" and "\<And>el. el_shown (f el) = el_shown el"
  shows "display_ok e'"
  using assms by (auto simp: display_ok_def map_of_map_snd split: option.splits)

lemma display_ok_same:
  assumes "display_ok e" and "shown_timeline e' = shown_timeline e" and "playhead e' = playhead e"
    and "elements e' = elements e"
  shows "display_ok e'"
  using assms by (cases "shown_timeline e") (simp_all add: display_ok_def)

lemma display_ok_timeline: "display_ok e \<Longrightarrow> timeline_ok e"
  by (auto simp: display_ok_def timeline_ok_def split: option.splits)

lemma timeline_ok_cong:
  "timeline_ok e \<Longrightarrow> shown_timeline e' = shown_timeline e \<Longrightarrow> elements e' = elements e \<Longrightarrow> timeline_ok e'"
  by (simp add: timeline_ok_def)

lemma elements_on_time_update [simp]: "elements (on_time_update e) = elements e"
  by (simp add: on_time_update_def)

lemma display_on_time_update [simp]: "display_ok (on_time_update e) = display_ok e"
  by (cases "shown_timeline e") (simp_all add: display_ok_def)

lemma display_request_frame [simp]: "display_ok (request_frame e) = display_ok e"
  by (cases "shown_timeline e") (simp_all add: display_ok_def request_frame_def)

lemma display_media: "display_ok e \<Longrightarrow> display_ok (set_media_playing p e)"
  by (rule display_ok_map [where f = "\<lambda>el. if is_media el then el\<lparr>el_playing := p\<rparr> else el"])
    (auto simp: set_media_playing_def)

lemma display_drop: "display_ok e \<Longrightarrow> display_ok (drop_elements e)"
  by (auto simp: display_ok_def drop_elements_def split: option.splits)

lemma display_tick: "display_ok e \<Longrightarrow> display_ok (tick now e)"
proof -
  assume ok: "display_ok e"
  have "timeline_ok e'" if "shown_timeline e' = shown_timeline e" "elements e' = elements e" for e'
    using display_ok_timeline [OF ok] that by (rule timeline_ok_cong)
  then have "display_ok (render_frame e')"
    if "shown_timeline e' = shown_timeline e" "elements e' = elements e" for e'
    using that by (intro display_render) simp
  then show ?thesis using ok by (simp add: tick_def Let_def)
qed

lemma display_play: "display_ok e \<Longrightarrow> display_ok (play now now' e)"
proof -
  assume "display_ok e"
  then have "display_ok (e\<lparr>playing := True, start_wall := x\<rparr>)" for x
    by (rule display_ok_same) simp_all
  then show ?thesis
    using \<open>display_ok e\<close> by (simp add: play_def display_media display_tick)
qed

lemma display_pause: "display_ok e \<Longrightarrow> display_ok (pause e)"
  unfolding pause_def Let_def
  by (rule display_media, erule display_ok_same) (auto split: option.split)

lemma timeline_ok_sync: "timeline_ok e \<Longrightarrow> timeline_ok (sync_media_elements e)"
  by (auto simp: timeline_ok_def sync_media_elements_def split: option.splits)

lemma display_seek: "display_ok e \<Longrightarrow> display_ok (seek t now e)"
proof -
  assume "display_ok e"
  then have "timeline_ok (e\<lparr>playhead := x, start_wall := y\<rparr>)" for x y
    by (rule timeline_ok_cong [OF display_ok_timeline]) simp_all
  then show ?thesis by (simp add: seek_def Let_def display_render timeline_ok_sync)
qed

lemma display_set_timeline: "wf_tracks (tracks d) \<Longrightarrow> display_ok (set_engine_timeline d e)"
  unfolding set_engine_timeline_def by (rule display_render) (simp add: timeline_ok_def)

lemma display_fetch: "display_ok e \<Longrightarrow> display_ok (fetch_succeeds i u e)"
proof (cases "i < length (fetches e)")
  case True
  assume "display_ok e"
  then show ?thesis
    using True
    by (intro display_ok_map [of e "fetch_succeeds i u e"
          "\<lambda>el. if el_uid el = snd (fetches e ! i) then el\<lparr>el_src := Some u\<rparr> else el"])
      (auto simp: fetch_succeeds_def split: prod.split)
qed (simp add: fetch_succeeds_def)

lemma display_step: "display_ok e \<Longrightarrow> event_ok clock ev \<Longrightarrow> display_ok (engine_step ev e)"
proof (cases ev)
  case (EvFrame now)
  assume ok: "display_ok e"
  have "display_ok (e\<lparr>pending_frames := fs\<rparr>)" for fs
    using ok by (rule display_ok_same) simp_all
  then show ?thesis using ok EvFrame by (simp add: frame_fires_def display_tick split: list.split)
next
  case (EvFetchFailed i)
  assume "display_ok e"
  then show ?thesis using EvFetchFailed by (auto simp: fetch_fails_def elim: display_ok_same)
next
  case EvDestroy
  assume "display_ok e"
  then have "display_ok (drop_elements (pause e))" by (intro display_drop display_pause)
  then show ?thesis using EvDestroy by (auto simp: destroy_def Let_def elim: display_ok_same)
qed (auto intro: display_play display_pause display_seek display_set_timeline display_fetch)

lemma reachable_display_ok: "engine_reachable clock e \<Longrightarrow> display_ok e"
proof (induction rule: engine_reachable.induct)
  case start
  show ?case by (simp add: display_ok_def new_engine_def)
next
  case (step clock e ev)
  then show ?case by (blast intro: display_step)
qed

subsection \<open>The elements of a timeline\<close>

text \<open>A clip has something to show: text and subtitles always, media with an asset.\<close>

definition has_element :: "timeline_clip \<Rightarrow> bool" where
  "has_element c \<longleftrightarrow> clip_kind c \<in> {Text, Subtitle} \<or> truthy_string (media_asset_id c)"

lemma create_element_None: "create_element uid c t = None \<longleftrightarrow> \<not> has_element c"
  by (cases "clip_kind c") (auto simp: create_element_def has_element_def Let_def)

lemma elements_load_media [simp]: "elements (snd (load_media a el e)) = elements e"
  by (simp add: load_media_def split: option.split)

lemma dom_add_element:
  "fst ` set (elements (add_element t c e)) =
     fst ` set (elements e) \<union> (if has_element c then {clip_id c} else {})"
proof (cases "create_element (next_uid e) c t")
  case None
  then show ?thesis using create_element_None [of "next_uid e" c t] by (simp add: add_element_def)
next
  case (Some el)
  then have "has_element c" using create_element_None [of "next_uid e" c t] by simp
  moreover have "elements e1 = elements e"
    if "load_media a el e = (el1, e1)" for a el1 e1
    using elements_load_media [of a el e] that by simp
  ultimately show ?thesis
    using Some by (auto simp: add_element_def Let_def dom_update split: prod.split option.split)
qed

lemma dom_add_clips:
  "fst ` set (elements (fold (add_element t) cs e)) =
     fst ` set (elements e) \<union> clip_id ` {c \<in> set cs. has_element c}"
  by (induction cs arbitrary: e) (auto simp: dom_add_element)

lemma dom_add_tracks:
  "fst ` set (elements (fold add_track_elements ts e)) =
     fst ` set (elements e) \<union> clip_id ` {c \<in> set (all_clips (filter visible ts)). has_element c}"
  by (induction ts arbitrary: e) (auto simp: add_track_elements_def dom_add_clips)

lemma dom_set_display: "fst ` set (set_display t c els) = fst ` set els"
proof (cases "map_of els (clip_id c)")
  case (Some el)
  then have "clip_id c \<in> fst ` set els" using image_eqI [OF _ map_of_SomeD [OF Some], of _ fst] by simp
  then have "insert (clip_id c) (fst ` set els) = fst ` set els" by (rule insert_absorb)
  moreover have "fst ` set (AList.update (clip_id c) v els) = insert (clip_id c) (fst ` set els)" for v
    using dom_update [of "clip_id c" v els] by simp
  ultimately show ?thesis using Some unfolding set_display_def by (simp only: option.case)
qed (simp add: set_display_def)

lemma dom_render: "fst ` set (elements (render_frame e)) = fst ` set (elements e)"
proof -
  have "fst ` set (fold (set_display t) cs els) = fst ` set els" for t cs els
    by (induction cs arbitrary: els) (simp_all add: dom_set_display)
  then show ?thesis by (simp add: render_frame_def fold_visible split: option.split)
qed

subsection \<open>Playing through frames\<close>

definition frames :: "real list \<Rightarrow> engine \<Rightarrow> engine" where
  "frames ts e = fold frame_fires ts e"

lemma tick_fields:
  assumes "playing e"
  shows "playhead (tick now e) = min ((now - start_wall e) / 1000) (compute_duration e)"
    and "playing (tick now e) \<longleftrightarrow> (now - start_wall e) / 1000 < compute_duration e"
    and "start_wall (tick now e) = start_wall e"
    and "compute_duration (tick now e) = compute_duration e"
  using assms by (auto simp: tick_def Let_def request_frame_def compute_duration_def min_def)

text \<open>
  With no pause or seek in between, the playhead after a frame at time \<open>now\<close> depends on the
  wall clock alone: it is the time since \<open>start_wall\<close>, cut off at the end of the timeline.
\<close>

definition on_schedule :: "real \<Rightarrow> real \<Rightarrow> engine \<Rightarrow> bool" where
  "on_schedule start now e \<longleftrightarrow>
     playhead e = min ((now - start) / 1000) (compute_duration e) \<and>
     (playing e \<longleftrightarrow> (now - start) / 1000 < compute_duration e) \<and>
     (playing e \<longrightarrow> start_wall e = start) \<and>
     (if playing e then \<exists>h. pending_frames e = [h] else pending_frames e = [])"

lemma on_schedule_tick:
  assumes "playing e" and "pending_frames e = []" and "start_wall e = start"
  shows "on_schedule start now (tick now e)"
  using tick_fields [OF assms(1), of now] assms
  by (auto simp: on_schedule_def tick_def Let_def request_frame_def)

lemma on_schedule_frame:
  assumes "on_schedule start now e" and "now \<le> now'"
  shows "on_schedule start now' (frame_fires now' e)"
proof (cases "playing e")
  case True
  then obtain h where h: "pending_frames e = [h]" using assms(1) by (auto simp: on_schedule_def)
  let ?e = "e\<lparr>pending_frames := []\<rparr>"
  have "on_schedule start now' (tick now' ?e)"
    using True assms(1) by (intro on_schedule_tick) (simp_all add: on_schedule_def)
  then show ?thesis using h by (simp add: frame_fires_def)
next
  case False
  then have "compute_duration e \<le> (now - start) / 1000" and "pending_frames e = []"
    using assms(1) by (auto simp: on_schedule_def not_less)
  moreover have "(now - start) / 1000 \<le> (now' - start) / 1000"
    using assms(2) by (simp add: divide_right_mono)
  ultimately show ?thesis
    using False assms(1) by (simp add: frame_fires_def on_schedule_def min_def)
qed

lemma on_schedule_frames:
  "on_schedule start now e \<Longrightarrow> sorted (now # ts) \<Longrightarrow> on_schedule start (last (now # ts)) (frames ts e)"
proof (induction ts arbitrary: now e)
  case (Cons t ts)
  then have "on_schedule start t (frame_fires t e)" by (auto intro: on_schedule_frame)
  then have "on_schedule start (last (t # ts)) (frames ts (frame_fires t e))"
    using Cons.prems(2) by (intro Cons.IH) auto
  then show ?case by (simp add: frames_def)
qed (simp add: frames_def)

lemma on_schedule_media: "on_schedule start now e \<Longrightarrow> on_schedule start now (set_media_playing p e)"
  by (simp add: on_schedule_def)

subsection \<open>Properties\<close>

text \<open>C8: the engine never runs two animation loops: in every reachable state exactly one frame is
  pending while it plays, the one \<open>pause\<close> would cancel, and none while it does not; the playhead is
  never negative.\<close>

theorem engine_single_loop:
  "engine_reachable clock e \<Longrightarrow>
   (if playing e then \<exists>h. raf_id e = Some h \<and> pending_frames e = [h] else pending_frames e = []) \<and>
   0 \<le> playhead e"
  using reachable_loop_inv [of clock e] by (simp add: loop_inv_def)

text \<open>In every reachable state the elements on screen are the ones of the clips under the
  playhead: the element of a clip on a visible track is displayed exactly when the playhead is within
  the clip's half-open interval.\<close>

theorem engine_display_matches_playhead:
  assumes "engine_reachable clock e" and "shown_timeline e = Some d"
    and "t \<in> set (tracks d)" and "visible t" and "c \<in> set (clips t)"
    and "map_of (elements e) (clip_id c) = Some el"
  shows "el_shown el \<longleftrightarrow> start_time c \<le> playhead e \<and> playhead e < start_time c + clip_duration c"
proof -
  have "c \<in> set (visible_clips d)"
    using assms(3-5) by (auto simp: visible_clips_def set_all_clips)
  then show ?thesis
    using reachable_display_ok [OF assms(1)] assms(2,6)
    by (auto simp: display_ok_def is_active_def clip_end_def)
qed

text \<open>Setting a timeline makes an element for exactly the clips of visible tracks that have
  something to show, whatever the engine showed before.\<close>

theorem set_timeline_elements:
  "fst ` set (elements (set_engine_timeline d e)) =
     {clip_id c | c t. t \<in> set (tracks d) \<and> visible t \<and> c \<in> set (clips t) \<and>
        (clip_kind c \<in> {Text, Subtitle} \<or> truthy_string (media_asset_id c))}"
  by (auto simp: set_engine_timeline_def dom_render rebuild_elements_def Let_def drop_elements_def
      dom_add_tracks has_element_def set_all_clips image_iff)

text \<open>After \<open>play\<close> and any frames at later times, the playhead has advanced by the wall-clock time
  since \<open>play\<close> (from wherever it was, so pausing and resuming loses no position), stops at the end of the
  timeline, and the engine plays exactly until the end is reached.\<close>

theorem play_advances_with_wall_clock:
  assumes "engine_reachable clock e" and "\<not> playing e" and "clock \<le> now" and "sorted (now # now' # ts)"
  shows "playhead (frames ts (play now now' e)) =
           min (playhead e + (last (now' # ts) - now) / 1000) (compute_duration e) \<and>
         (playing (frames ts (play now now' e)) \<longleftrightarrow>
           playhead e + (last (now' # ts) - now) / 1000 < compute_duration e)"
proof -
  let ?start = "now - playhead e * 1000"
  let ?e = "e\<lparr>playing := True, start_wall := ?start\<rparr>"
  have dur: "compute_duration (frames ts e') = compute_duration e'" for ts e'
  proof (induction ts arbitrary: e')
    case (Cons t ts)
    have "compute_duration (tick t e1) = compute_duration e1" for e1
      by (cases "playing e1") (simp_all add: tick_fields(4), simp add: tick_def)
    then have "compute_duration (frame_fires t e') = compute_duration e'"
      by (auto simp: frame_fires_def compute_duration_def split: list.split)
    then show ?case using Cons.IH [of "frame_fires t e'"] by (simp add: frames_def)
  qed (simp add: frames_def)
  have "on_schedule ?start now' (tick now' ?e)"
    using reachable_loop_inv [OF assms(1)] assms(2)
    by (intro on_schedule_tick) (simp_all add: loop_inv_def)
  then have "on_schedule ?start now' (play now now' e)"
    using assms(2) by (simp add: play_def on_schedule_media)
  then have "on_schedule ?start (last (now' # ts)) (frames ts (play now now' e))"
    using assms(4) by (intro on_schedule_frames) auto
  moreover have "compute_duration (play now now' e) = compute_duration e"
    using assms(2) tick_fields(4) [of ?e now'] by (simp add: play_def) (simp add: compute_duration_def)
  moreover have "(last (now' # ts) - ?start) / 1000 = playhead e + (last (now' # ts) - now) / 1000"
    by (simp add: field_simps)
  ultimately show ?thesis unfolding on_schedule_def dur by metis
qed

text \<open>Pressing play at the end of the timeline leaves the engine stopped, yet every video and audio
  element is told to play.\<close>

theorem play_at_end_starts_media:
  assumes "\<not> playing e" and "compute_duration e \<le> playhead e" and "now \<le> now'"
    and "map_of (elements (play now now' e)) k = Some el" and "is_media el"
  shows "\<not> playing (play now now' e) \<and> el_playing el"
proof -
  let ?e = "e\<lparr>playing := True, start_wall := now - playhead e * 1000\<rparr>"
  have dur: "compute_duration ?e = compute_duration e" by (simp add: compute_duration_def)
  have "playhead e \<le> (now' - (now - playhead e * 1000)) / 1000"
    using assms(3) by (simp add: field_simps)
  then have "\<not> playing (tick now' ?e)"
    using assms(2) by (simp add: tick_fields(2) dur not_less)
  then have "\<not> playing (play now now' e)" using assms(1) by (simp add: play_def)
  moreover obtain z where "el = (if is_media z then z\<lparr>el_playing := True\<rparr> else z)"
    using assms(1,4) by (auto simp: play_def set_media_playing_def map_of_map_snd)
  then have "el_playing el" using assms(5) by (cases "is_media z") simp_all
  ultimately show ?thesis by blast
qed


text \<open>An engine that shows the small timeline of the store's witnesses, for the witnesses here.\<close>

definition sample_engine :: engine where
  "sample_engine = set_engine_timeline (timeline sample_state) new_engine"

lemmas sample_engine_defs =
  sample_engine_def sample_defs set_engine_timeline_def rebuild_elements_def drop_elements_def
  new_engine_def add_track_elements_def add_element_def create_element_def blank_element_def
  wanted_asset_def truthy_string_def load_media_def render_frame_def set_display_def

lemma sample_engine_reachable: "engine_reachable 0 sample_engine"
proof -
  have "wf_tracks (tracks (timeline sample_state))"
    using reachable_store_inv [OF sample_reachable] by (simp add: store_inv_def)
  then have "engine_reachable (event_clock 0 (EvSetTimeline (timeline sample_state)))
      (engine_step (EvSetTimeline (timeline sample_state)) new_engine)"
    by (intro engine_reachable.intros) simp
  then show ?thesis by (simp add: sample_engine_def)
qed

lemma sample_engine_fields [simp]:
  "shown_timeline sample_engine = Some (timeline sample_state)" "\<not> playing sample_engine"
  "playhead sample_engine = 0"
  by (simp_all add: sample_engine_def set_engine_timeline_def new_engine_def)

lemma sample_engine_duration: "compute_duration sample_engine = 5"
  by (simp add: compute_duration_def) (simp add: sample_defs clip_end_def)


lemma engine_single_loop_witness:
  "\<exists>h. raf_id (engine_step (EvPlay 0 0) sample_engine) = Some h \<and>
       pending_frames (engine_step (EvPlay 0 0) sample_engine) = [h]"
proof -
  have "engine_reachable (event_clock 0 (EvPlay 0 0)) (engine_step (EvPlay 0 0) sample_engine)"
    by (rule engine_reachable.step [OF sample_engine_reachable]) simp
  moreover have "playing (engine_step (EvPlay 0 0) sample_engine)"
    using sample_engine_duration
    by (simp add: play_def tick_def Let_def request_frame_def compute_duration_def)
  ultimately show ?thesis using engine_single_loop by auto
qed

lemma sample_element:
  obtains el where "map_of (elements sample_engine) ''clip-a'' = Some el" "is_media el"
proof -
  have "elements sample_engine \<noteq> [] \<and>
      (\<forall>x \<in> set (elements sample_engine). fst x = ''clip-a'' \<and> is_media (snd x))"
    by (simp add: sample_engine_defs is_media_def Let_def)
  then show ?thesis using that by (cases "elements sample_engine") auto
qed

lemma sample_clip_fields [simp]:
  "clip_id sample_clip = ''clip-a''" "start_time sample_clip = 2" "trim_start sample_clip = None"
  by (simp_all add: sample_clip_def)

lemma engine_display_matches_playhead_witness:
  "map_option el_shown (map_of (elements sample_engine) ''clip-a'') = Some False"
proof -
  define t where "t = hd (tracks (timeline sample_state))"
  have t: "t \<in> set (tracks (timeline sample_state))" "visible t" "sample_clip \<in> set (clips t)"
    unfolding t_def by (simp_all add: sample_defs)
  obtain el where "map_of (elements sample_engine) ''clip-a'' = Some el"
    by (rule sample_element)
  then show ?thesis
    using engine_display_matches_playhead [OF sample_engine_reachable sample_engine_fields(1) t, of el]
    by simp
qed

lemma play_advances_with_wall_clock_witness:
  "playhead (frames [1000, 2500] (play 0 0 sample_engine)) = 2.5"
  using play_advances_with_wall_clock [OF sample_engine_reachable, of 0 0 "[1000, 2500]"]
  by (simp add: sample_engine_duration)

definition media_at :: "real \<Rightarrow> timeline_clip \<Rightarrow> element \<Rightarrow> element" where
  "media_at x c el =
     (if is_media el then el\<lparr>el_time := max 0 (or_number (trim_start c) 0 + (x - start_time c))\<rparr> else el)"

text \<open>A seek puts every video and audio element of the timeline at the point of its media that
  belongs to the new playhead: the trimmed start plus the time since the clip began, never before the
  start of the media.\<close>

theorem seek_positions_media:
  assumes "engine_reachable clock e" and "shown_timeline e = Some d"
    and "c \<in> set (all_clips (tracks d))" and "map_of (elements e) (clip_id c) = Some el" and "is_media el"
  shows "map_option el_time (map_of (elements (seek time now e)) (clip_id c)) =
           Some (max 0 (or_number (trim_start c) 0 + (max 0 time - start_time c)))"
proof -
  have wf: "wf_tracks (tracks d)" using reachable_display_ok [OF assms(1)] assms(2)
    by (simp add: display_ok_def)
  have sync: "map_of (sync_clip x c' els) k =
      (if k = clip_id c' then map_option (media_at x c') (map_of els k) else map_of els k)" for x c' els k
    by (auto simp: sync_clip_def media_at_def update_conv' split: option.split)
  have "fold (\<lambda>track els. fold (sync_clip x) (clips track) els) ts els = fold (sync_clip x) (all_clips ts) els"
    for x ts els by (induction ts arbitrary: els) simp_all
  then have "map_of (elements (sync_media_elements e')) (clip_id c) =
      map_option (media_at (playhead e') c) (map_of (elements e') (clip_id c))"
    if "shown_timeline e' = Some d" for e'
    using map_of_pass [where f = "sync_clip (playhead e')", OF sync] that wf
      find_by_unique [OF _ assms(3), of clip_id]
    by (simp add: sync_media_elements_def wf_tracks_def)
  then have "map_of (elements (seek time now e)) (clip_id c) =
      map_option (\<lambda>el. (case find_by clip_id (clip_id c) (visible_clips d) of
          None \<Rightarrow> el | Some c' \<Rightarrow> el\<lparr>el_shown := is_active (max 0 time) c'\<rparr>))
        (Some (media_at (max 0 time) c el))"
    using assms(2,4) by (simp add: seek_def Let_def map_of_render [OF _ wf] split: option.split)
  then show ?thesis using assms(5) by (auto simp: media_at_def split: option.split)
qed

lemma seek_positions_media_witness:
  "map_option el_time (map_of (elements (seek 3 0 sample_engine)) ''clip-a'') = Some 1"
proof -
  have "sample_clip \<in> set (all_clips (tracks (timeline sample_state)))" by (simp add: sample_defs)
  moreover obtain el where "map_of (elements sample_engine) ''clip-a'' = Some el" "is_media el"
    by (rule sample_element)
  ultimately show ?thesis
    using seek_positions_media [OF sample_engine_reachable sample_engine_fields(1), of sample_clip el 3 0]
    by (simp add: or_number_def)
qed

lemma play_at_end_starts_media_witness:
  "\<exists>el. map_of (elements (play 0 0 (sample_engine\<lparr>playhead := 5\<rparr>))) ''clip-a'' = Some el \<and> el_playing el"
proof -
  have "elements (play 0 0 (sample_engine\<lparr>playhead := 5\<rparr>)) \<noteq> [] \<and>
      (\<forall>x \<in> set (elements (play 0 0 (sample_engine\<lparr>playhead := 5\<rparr>))). fst x = ''clip-a'' \<and> is_media (snd x))"
    by (simp add: sample_engine_defs is_media_def Let_def play_def tick_def set_media_playing_def
        request_frame_def on_time_update_def compute_duration_def clip_end_def)
  then obtain el where el: "map_of (elements (play 0 0 (sample_engine\<lparr>playhead := 5\<rparr>))) ''clip-a'' = Some el"
      "is_media el"
    by (cases "elements (play 0 0 (sample_engine\<lparr>playhead := 5\<rparr>))") auto
  have "compute_duration (sample_engine\<lparr>playhead := 5\<rparr>) = compute_duration sample_engine"
    by (simp add: compute_duration_def)
  then show ?thesis
    using play_at_end_starts_media [OF _ _ _ el, of] sample_engine_duration el by simp
qed

lemma update_twice: "AList.update k v (AList.update k u bs) = AList.update k v bs"
  by (induction bs) auto

lemma snd_update: "snd ` set (AList.update k v bs) \<subseteq> insert v (snd ` set bs)"
  by (induction bs) auto

text \<open>when two clips use the same asset and both find the cache empty, both fetch it; the URL of the
  fetch that ends first is then overwritten in the cache, and \<open>destroy\<close> does not revoke it.\<close>

theorem duplicate_fetch_leaks_url:
  assumes "fetches e = [(a, i), (a, j)]" and "u \<noteq> v"
    and "u \<notin> set (revoked_urls e)" and "u \<notin> snd ` set (blob_urls e)"
  shows "u \<in> set (created_urls (destroy (fetch_succeeds 0 v (fetch_succeeds 0 u e)))) \<and>
    u \<notin> set (revoked_urls (destroy (fetch_succeeds 0 v (fetch_succeeds 0 u e))))"
proof -
  have "created_urls (destroy e') = created_urls e' \<and>
      revoked_urls (destroy e') = revoked_urls e' @ map snd (blob_urls e')" for e'
    by (simp add: destroy_def drop_elements_def pause_def set_media_playing_def Let_def split: option.split)
  then show ?thesis
    using assms snd_update [of a v "blob_urls e"] by (auto simp: fetch_succeeds_def update_twice)
qed


lemma duplicate_fetch_leaks_url_witness:
  "let d = timeline (add_clip ''track-2'' (sample_clip\<lparr>clip_id := ''clip-b''\<rparr>) sample_state);
       e = destroy (fetch_succeeds 0 ''blob:2'' (fetch_succeeds 0 ''blob:1'' (set_engine_timeline d new_engine)))
   in ''blob:1'' \<in> set (created_urls e) \<and> ''blob:1'' \<notin> set (revoked_urls e)"
  unfolding Let_def
  by (rule duplicate_fetch_leaks_url [of _ "''m''" 0 1]) (simp_all add: sample_engine_defs Let_def)

end
