(* ===== verification/Ui_Builder.thy ===== *)
theory Ui_Builder
  imports Base
begin

section \<open>The page builder\<close>

text \<open>
  \<^verbatim>\<open>apps/chat/components/workspace/ui-builder/use-ui-builder-state.ts\<close>: the tree of component
  instances that a user arranges, the operations of the hook, and the HTML it stands for.
  The state of the hook is its tree, its selection and its id counter; the component map is
  an argument.  An event handler that throws leaves the state it has reached.
\<close>

subsection \<open>Data\<close>

datatype builder_node =
  BuilderNode (node_id: string) (component_id: string) (component_name: string)
    (node_props: "(string \<times> json) list") (children: "builder_node list")

record ui_component =
  comp_id :: string
  comp_name :: string
  html_template :: string
  props_schema :: "json option"

record builder_state =
  tree :: "builder_node list"
  selected_node_id :: "string option"
  id_ref :: nat

definition initial_builder :: builder_state where
  "initial_builder = \<lparr>tree = [], selected_node_id = None, id_ref = 1\<rparr>"

definition with_children :: "builder_node list \<Rightarrow> builder_node \<Rightarrow> builder_node" where
  "with_children cs n = BuilderNode (node_id n) (component_id n) (component_name n) (node_props n) cs"

definition with_props :: "(string \<times> json) list \<Rightarrow> builder_node \<Rightarrow> builder_node" where
  "with_props ps n = BuilderNode (node_id n) (component_id n) (component_name n) ps (children n)"

subsection \<open>Operations on trees\<close>

fun find_node :: "builder_node list \<Rightarrow> string \<Rightarrow> builder_node option" where
  "find_node [] k = None"
| "find_node (BuilderNode i ci cn ps cs # ns) k =
     (if i = k then Some (BuilderNode i ci cn ps cs)
      else case find_node cs k of
        Some found \<Rightarrow> Some found
      | None \<Rightarrow> find_node ns k)"

fun remove_node_from_tree :: "builder_node list \<Rightarrow> string \<Rightarrow> builder_node list" where
  "remove_node_from_tree [] k = []"
| "remove_node_from_tree (BuilderNode i ci cn ps cs # ns) k =
     (if i = k then remove_node_from_tree ns k
      else BuilderNode i ci cn ps (remove_node_from_tree cs k) # remove_node_from_tree ns k)"

text \<open>
  \<open>xs.splice(index, 0, x)\<close>: a negative index counts from the end, one beyond either end is
  clamped to it.  \<open>None\<close> is the index \<open>Infinity\<close>.
\<close>

definition splice_at :: "int option \<Rightarrow> 'a \<Rightarrow> 'a list \<Rightarrow> 'a list" where
  "splice_at index x xs =
     (let k = (case index of
            None \<Rightarrow> length xs
          | Some i \<Rightarrow> if i < 0 then nat (max 0 (int (length xs) + i)) else min (nat i) (length xs))
      in take k xs @ x # drop k xs)"

fun insert_below :: "builder_node list \<Rightarrow> string \<Rightarrow> builder_node \<Rightarrow> int option \<Rightarrow> builder_node list" where
  "insert_below [] p x index = []"
| "insert_below (BuilderNode i ci cn ps cs # ns) p x index =
     (if i = p then BuilderNode i ci cn ps (splice_at index x cs)
      else BuilderNode i ci cn ps (insert_below cs p x index)) # insert_below ns p x index"

definition insert_node ::
  "builder_node list \<Rightarrow> string option \<Rightarrow> builder_node \<Rightarrow> int option \<Rightarrow> builder_node list" where
  "insert_node ns parent x index =
     (case parent of
        None \<Rightarrow> splice_at index x ns
      | Some p \<Rightarrow> insert_below ns p x index)"

text \<open>The inner function \<open>update\<close> of \<open>updateNodeProps\<close>, for any change of the props.\<close>

fun update_props_in ::
  "string \<Rightarrow> ((string \<times> json) list \<Rightarrow> (string \<times> json) list) \<Rightarrow> builder_node list \<Rightarrow> builder_node list" where
  "update_props_in k f [] = []"
| "update_props_in k f (BuilderNode i ci cn ps cs # ns) =
     (if i = k then BuilderNode i ci cn (f ps) cs
      else BuilderNode i ci cn ps (update_props_in k f cs)) # update_props_in k f ns"

subsection \<open>HTML\<close>

text \<open>\<open>String(v)\<close>; how the host prints a number is the argument \<open>num\<close>.\<close>

fun js_string :: "(real \<Rightarrow> string) \<Rightarrow> json \<Rightarrow> string" where
  "js_string num JNull = ''null''"
| "js_string num (JBool b) = show_bool b"
| "js_string num (JNum x) = num x"
| "js_string num (JStr s) = s"
| "js_string num (JArr xs) = join '','' (map (\<lambda>x. if x = JNull then [] else js_string num x) xs)"
| "js_string num (JObj kvs) = ''[object Object]''"

definition is_word_char :: "char \<Rightarrow> bool" where
  "is_word_char c \<longleftrightarrow> c = CHR ''_'' \<or>
     (let n = of_char c :: nat in (48 \<le> n \<and> n \<le> 57) \<or> (65 \<le> n \<and> n \<le> 90) \<or> (97 \<le> n \<and> n \<le> 122))"

text \<open>A match of the pattern \<^verbatim>\<open>{{word}}\<close> at the front of a string: the word and the rest.\<close>

definition match_hole :: "string \<Rightarrow> (string \<times> string) option" where
  "match_hole s =
     (if starts_with s ''{{'' then
        (let w = takeWhile is_word_char (drop 2 s); r = dropWhile is_word_char (drop 2 s)
         in if w \<noteq> [] \<and> starts_with r ''}}'' then Some (w, drop 2 r) else None)
      else None)"

definition hole_value :: "(real \<Rightarrow> string) \<Rightarrow> (string \<times> json) list \<Rightarrow> string \<Rightarrow> string" where
  "hole_value num props key =
     (case map_of props key of
        None \<Rightarrow> []
      | Some v \<Rightarrow> if v = JNull then [] else js_string num v)"

lemma match_hole_shorter: "match_hole s = Some (w, r) \<Longrightarrow> length r < length s"
proof -
  assume m: "match_hole s = Some (w, r)"
  then have "r = drop 2 (dropWhile is_word_char (drop 2 s))" and "starts_with s ''{{''"
    by (auto simp: match_hole_def Let_def split: if_splits)
  moreover have "2 \<le> length s"
    using \<open>starts_with s ''{{''\<close> by (cases s; cases "tl s") (auto simp: starts_with_def)
  moreover have "length (dropWhile is_word_char (drop 2 s)) \<le> length (drop 2 s)"
    by (rule length_dropWhile_le)
  ultimately show ?thesis by simp
qed

function resolve_template :: "(real \<Rightarrow> string) \<Rightarrow> string \<Rightarrow> (string \<times> json) list \<Rightarrow> string" where
  "resolve_template num template props =
     (case match_hole template of
        Some (key, rest) \<Rightarrow> hole_value num props key @ resolve_template num rest props
      | None \<Rightarrow>
          (case template of
             [] \<Rightarrow> []
           | c # cs \<Rightarrow> c # resolve_template num cs props))"
  by pat_completeness auto
termination
  by (relation "measure (\<lambda>(num, template, props). length template)") (auto dest: match_hole_shorter)

declare resolve_template.simps [simp del]

fun node_to_html ::
  "(real \<Rightarrow> string) \<Rightarrow> (string \<times> ui_component) list \<Rightarrow> builder_node \<Rightarrow> string" where
  "node_to_html num components (BuilderNode i ci cn ps cs) =
     (case map_of components ci of
        None \<Rightarrow> ''<!-- unknown component '' @ cn @ '' -->''
      | Some ui \<Rightarrow>
          (let child_html = join [newline] (map (node_to_html num components) cs)
           in resolve_template num (html_template ui) (spread ps [(''children'', JStr child_html)])))"

subsection \<open>The hook\<close>

text \<open>\<open>Object.entries(v)\<close>: it throws for \<open>null\<close>, and a boolean or a number has no entries.\<close>

fun object_entries :: "json \<Rightarrow> (string \<times> json) list option" where
  "object_entries JNull = None"
| "object_entries (JObj kvs) = Some kvs"
| "object_entries (JArr xs) = Some (zip (map show_nat [0..<length xs]) xs)"
| "object_entries (JStr s) = Some (zip (map show_nat [0..<length s]) (map (\<lambda>c. JStr [c]) s))"
| "object_entries v = Some []"

text \<open>\<open>def.default\<close>: it throws for \<open>null\<close>; the inner option is \<open>undefined\<close>.\<close>

fun default_of :: "json \<Rightarrow> json option option" where
  "default_of JNull = None"
| "default_of (JObj kvs) = Some (map_of kvs ''default'')"
| "default_of v = Some None"

fun collect_defaults :: "(string \<times> json) list \<Rightarrow> (string \<times> json) list \<Rightarrow> (string \<times> json) list option" where
  "collect_defaults [] acc = Some acc"
| "collect_defaults ((k, d) # kvs) acc =
     (case default_of d of
        None \<Rightarrow> None
      | Some None \<Rightarrow> collect_defaults kvs acc
      | Some (Some v) \<Rightarrow> collect_defaults kvs (AList.update k v acc))"

definition default_props :: "ui_component \<Rightarrow> (string \<times> json) list option" where
  "default_props component =
     (case props_schema component of
        Some (JObj schema) \<Rightarrow>
          (case map_of schema ''properties'' of
             None \<Rightarrow> Some []
           | Some props \<Rightarrow>
               (case object_entries props of
                  None \<Rightarrow> None
                | Some entries \<Rightarrow> collect_defaults entries []))
      | _ \<Rightarrow> Some [])"

definition node_key :: "nat \<Rightarrow> string" where
  "node_key n = ''node-'' @ show_nat n"

definition generate_id :: "builder_state \<Rightarrow> string \<times> builder_state" where
  "generate_id s = (node_key (id_ref s), s\<lparr>id_ref := id_ref s + 1\<rparr>)"

text \<open>\<open>addNode\<close>: the id it returns, or none when reading the schema throws.\<close>

definition add_node :: "ui_component \<Rightarrow> string option \<Rightarrow> builder_state \<Rightarrow> string option \<times> builder_state" where
  "add_node component parent s =
     (let (k, s1) = generate_id s
      in case default_props component of
           None \<Rightarrow> (None, s1)
         | Some ps \<Rightarrow>
             (let node = BuilderNode k (comp_id component) (comp_name component) ps []
              in (Some k, s1\<lparr>
                   tree := (if truthy_string parent then insert_node (tree s1) parent node None
                            else tree s1 @ [node]),
                   selected_node_id := Some k\<rparr>)))"

definition select_node :: "string option \<Rightarrow> builder_state \<Rightarrow> builder_state" where
  "select_node k s = s\<lparr>selected_node_id := k\<rparr>"

definition remove_node :: "string \<Rightarrow> builder_state \<Rightarrow> builder_state" where
  "remove_node k s =
     s\<lparr>tree := remove_node_from_tree (tree s) k,
       selected_node_id := (if selected_node_id s = Some k then None else selected_node_id s)\<rparr>"

definition move_node :: "string \<Rightarrow> string option \<Rightarrow> int \<Rightarrow> builder_state \<Rightarrow> builder_state" where
  "move_node k parent index s =
     (case find_node (tree s) k of
        None \<Rightarrow> s
      | Some node \<Rightarrow>
          s\<lparr>tree := insert_node (remove_node_from_tree (tree s) k) parent node (Some index)\<rparr>)"

definition update_node_props :: "string \<Rightarrow> (string \<times> json) list \<Rightarrow> builder_state \<Rightarrow> builder_state" where
  "update_node_props k ps s = s\<lparr>tree := update_props_in k (\<lambda>old. spread old ps) (tree s)\<rparr>"

definition get_node :: "string \<Rightarrow> builder_state \<Rightarrow> builder_node option" where
  "get_node k s = find_node (tree s) k"

definition clear_tree :: "builder_state \<Rightarrow> builder_state" where
  "clear_tree s = s\<lparr>tree := [], selected_node_id := None\<rparr>"

definition component_map :: "ui_component list \<Rightarrow> (string \<times> ui_component) list" where
  "component_map available = fold (\<lambda>c m. AList.update (comp_id c) c m) available []"

definition generate_html :: "(real \<Rightarrow> string) \<Rightarrow> (string \<times> ui_component) list \<Rightarrow> builder_state \<Rightarrow> string" where
  "generate_html num components s = join [newline] (map (node_to_html num components) (tree s))"

datatype preview_message = PreviewClear | PreviewSetHtml string

definition sync_to_preview ::
  "(real \<Rightarrow> string) \<Rightarrow> (string \<times> ui_component) list \<Rightarrow> builder_state \<Rightarrow> preview_message" where
  "sync_to_preview num components s =
     (if tree s = [] then PreviewClear else PreviewSetHtml (generate_html num components s))"

datatype builder_action =
    AddNode ui_component "string option"
  | SelectNode "string option"
  | RemoveNode string
  | MoveNode string "string option" int
  | UpdateNodeProps string "(string \<times> json) list"
  | ClearTree

fun builder_step :: "builder_action \<Rightarrow> builder_state \<Rightarrow> builder_state" where
  "builder_step (AddNode c p) s = snd (add_node c p s)"
| "builder_step (SelectNode k) s = select_node k s"
| "builder_step (RemoveNode k) s = remove_node k s"
| "builder_step (MoveNode k p i) s = move_node k p i s"
| "builder_step (UpdateNodeProps k ps) s = update_node_props k ps s"
| "builder_step ClearTree s = clear_tree s"

subsection \<open>The nodes of a tree\<close>

text \<open>All nodes of a forest in document order, each without its children.\<close>

fun flat :: "builder_node list \<Rightarrow> builder_node list" where
  "flat [] = []"
| "flat (BuilderNode i ci cn ps cs # ns) = BuilderNode i ci cn ps [] # flat cs @ flat ns"

abbreviation ids_in :: "builder_node list \<Rightarrow> string list" where
  "ids_in ns \<equiv> map node_id (flat ns)"

lemma flat_Cons: "flat (n # ns) = flat [n] @ flat ns"
  by (cases n) simp

lemma flat_append [simp]: "flat (xs @ ys) = flat xs @ flat ys"
  by (induction xs rule: flat.induct) simp_all

lemma find_node_None: "find_node ns k = None \<longleftrightarrow> k \<notin> set (ids_in ns)"
  by (induction ns k rule: find_node.induct) (auto split: option.split)

lemma find_node_Some:
  "find_node ns k = Some n \<Longrightarrow> node_id n = k \<and> set (flat [n]) \<subseteq> set (flat ns)"
proof (induction ns k rule: find_node.induct)
  case (2 i ci cn ps cs ns k)
  then show ?case
    by (cases "i = k"; cases "find_node cs k") auto
qed simp

lemma remove_absent: "k \<notin> set (ids_in ns) \<Longrightarrow> remove_node_from_tree ns k = ns"
  by (induction ns k rule: remove_node_from_tree.induct) auto

lemma removed_absent: "k \<notin> set (ids_in (remove_node_from_tree ns k))"
  by (induction ns k rule: remove_node_from_tree.induct) auto

lemma removed_flat:
  assumes "distinct (ids_in ns)" and "find_node ns k = Some n"
  shows "mset (flat (remove_node_from_tree ns k)) + mset (flat [n]) = mset (flat ns)"
  using assms
proof (induction ns k rule: find_node.induct)
  case (2 i ci cn ps cs ns k)
  then have d: "distinct (ids_in cs)" "distinct (ids_in ns)"
    "set (ids_in cs) \<inter> set (ids_in ns) = {}" "i \<notin> set (ids_in cs)" "i \<notin> set (ids_in ns)"
    by auto
  show ?case
  proof (cases "i = k")
    case True
    then show ?thesis using 2 d(5) by (auto simp: remove_absent)
  next
    case False
    show ?thesis
    proof (cases "find_node cs k")
      case None
      then have "k \<notin> set (ids_in cs)" using find_node_None by blast
      then show ?thesis using 2 False None d by (simp add: remove_absent)
    next
      case (Some m)
      then have "k \<in> set (ids_in cs)" using find_node_None [of cs k] by auto
      then have "k \<notin> set (ids_in ns)" using d(3) by blast
      then have "remove_node_from_tree ns k = ns" by (rule remove_absent)
      then show ?thesis using 2 False Some d by (simp add: union_assoc union_commute)
    qed
  qed
qed simp

lemma flat_splice: "mset (flat (splice_at index x ns)) = mset (flat ns) + mset (flat [x])"
proof -
  have "mset (flat (take k ns)) + mset (flat (drop k ns)) = mset (flat (take k ns @ drop k ns))" for k
    by (simp only: flat_append mset_append)
  then have "mset (flat (take k ns)) + mset (flat (drop k ns)) = mset (flat ns)" for k by simp
  then show ?thesis
    by (simp add: splice_at_def Let_def flat_Cons [of x "drop _ ns"])
qed

lemma insert_below_absent: "p \<notin> set (ids_in ns) \<Longrightarrow> insert_below ns p x index = ns"
  by (induction ns p x index rule: insert_below.induct) auto

lemma flat_insert_below:
  assumes "distinct (ids_in ns)" and "p \<in> set (ids_in ns)"
  shows "mset (flat (insert_below ns p x index)) = mset (flat ns) + mset (flat [x])"
  using assms
proof (induction ns p x index rule: insert_below.induct)
  case (2 i ci cn ps cs ns p x index)
  then have d: "distinct (ids_in cs)" "distinct (ids_in ns)"
    "set (ids_in cs) \<inter> set (ids_in ns) = {}" "i \<notin> set (ids_in cs)" "i \<notin> set (ids_in ns)"
    by auto
  consider "i = p" | "i \<noteq> p" "p \<in> set (ids_in cs)" | "i \<noteq> p" "p \<in> set (ids_in ns)"
    using 2 by auto
  then show ?case
  proof cases
    case 1
    then show ?thesis using d by (simp add: insert_below_absent flat_splice union_ac)
  next
    case 2
    then have "p \<notin> set (ids_in ns)" using d(3) by blast
    then show ?thesis using 2 "2.IH"(1) d by (simp add: insert_below_absent union_ac)
  next
    case 3
    then have "p \<notin> set (ids_in cs)" using d(3) by blast
    then show ?thesis using 3 "2.IH"(2) d by (simp add: insert_below_absent union_ac)
  qed
qed simp

lemma find_node_append:
  "find_node (xs @ ys) k = (case find_node xs k of None \<Rightarrow> find_node ys k | Some n \<Rightarrow> Some n)"
  by (induction xs k rule: find_node.induct) (auto split: option.split)

lemma find_spliced:
  assumes "node_id x \<notin> set (ids_in ns)"
  shows "find_node (splice_at index x ns) (node_id x) = Some x"
proof -
  have "find_node (take k ns) (node_id x) = None" for k
  proof -
    have "set (flat (take k ns)) \<subseteq> set (flat ns)"
      by (metis append_take_drop_id flat_append set_append sup_ge1)
    then show ?thesis using assms by (auto simp: find_node_None)
  qed
  then show ?thesis by (cases x) (simp add: splice_at_def Let_def find_node_append)
qed

lemma find_inserted:
  assumes "p \<in> set (ids_in ns)" and "node_id x \<notin> set (ids_in ns)"
  shows "find_node (insert_below ns p x index) (node_id x) = Some x"
  using assms
proof (induction ns p x index rule: insert_below.induct)
  case (2 i ci cn ps cs ns p x index)
  have "find_node cs (node_id x) = None" "find_node ns (node_id x) = None"
    using 2 by (auto simp: find_node_None)
  moreover have "p \<noteq> node_id x" using 2(3,4) by auto
  ultimately show ?case
    using 2 insert_below_absent [of p cs x index]
    by (cases "p \<in> set (ids_in cs)") (auto simp: find_spliced split: option.split)
qed simp

lemma mset_flat_insert_node:
  assumes "distinct (ids_in ns)" and "\<And>p. parent = Some p \<Longrightarrow> p \<in> set (ids_in ns)"
  shows "mset (flat (insert_node ns parent x index)) = mset (flat ns) + mset (flat [x])"
  using assms by (cases parent) (simp_all add: insert_node_def flat_splice flat_insert_below)

lemma find_insert_node:
  assumes "node_id x \<notin> set (ids_in ns)" and "\<And>p. parent = Some p \<Longrightarrow> p \<in> set (ids_in ns)"
  shows "find_node (insert_node ns parent x index) (node_id x) = Some x"
  using assms by (cases parent) (simp_all add: insert_node_def find_spliced find_inserted)

lemma insert_node_absent: "p \<notin> set (ids_in ns) \<Longrightarrow> insert_node ns (Some p) x index = ns"
  by (simp add: insert_node_def insert_below_absent)

subsection \<open>Props as a keyed store\<close>

lemma ids_update_props [simp]: "ids_in (update_props_in k f ns) = ids_in ns"
  by (induction k f ns rule: update_props_in.induct) simp_all

interpretation props_store: keyed_store
  "\<lambda>k ns. map_option node_props (find_node ns k)" update_props_in ids_in "\<lambda>f. True"
proof
  fix f :: "(string \<times> json) list \<Rightarrow> (string \<times> json) list" and k j :: string and ns
  show "map_option node_props (find_node (update_props_in k f ns) k) =
      map_option f (map_option node_props (find_node ns k))"
    by (induction k f ns rule: update_props_in.induct) (auto split: option.split)
  show "map_option node_props (find_node (update_props_in k f ns) j) =
      map_option node_props (find_node ns j)" if "j \<noteq> k"
    using that by (induction k f ns rule: update_props_in.induct) (auto split: option.split)
  show "map_option node_props (find_node ns k) = None \<longleftrightarrow> k \<notin> set (ids_in ns)"
    by (simp add: find_node_None)
qed simp

subsection \<open>Unique ids\<close>

definition builder_inv :: "builder_state \<Rightarrow> bool" where
  "builder_inv s \<longleftrightarrow> distinct (ids_in (tree s)) \<and>
     (\<forall>i \<in> set (ids_in (tree s)). \<exists>n < id_ref s. i = node_key n)"

inductive builder_reachable :: "builder_state \<Rightarrow> bool" where
  start: "builder_reachable initial_builder"
| step: "builder_reachable s \<Longrightarrow> builder_reachable (builder_step a s)"

lemma distinct_sub_mset:
  assumes "mset xs \<subseteq># mset ys" and "distinct ys"
  shows "distinct xs"
proof -
  obtain r where "mset ys = mset xs + mset r"
    using assms(1) by (metis ex_mset mset_subset_eq_exists_conv)
  then have "mset ys = mset (xs @ r)" by simp
  then show ?thesis using assms(2) mset_eq_imp_distinct_iff [of ys "xs @ r"] by simp
qed

lemma mset_map_sub: "mset xs \<subseteq># mset ys \<Longrightarrow> mset (map f xs) \<subseteq># mset (map f ys)"
  by (simp add: image_mset_subseteq_mono)

lemma mset_map_union: "mset xs + mset ys = mset zs \<Longrightarrow> mset (map f xs @ map f ys) = mset (map f zs)"
  by (metis image_mset_union mset_append mset_map)

lemma builder_inv_smaller:
  assumes "builder_inv s" and "id_ref s \<le> id_ref s'"
    and "mset (flat (tree s')) \<subseteq># mset (flat (tree s))"
  shows "builder_inv s'"
proof -
  have sub: "mset (ids_in (tree s')) \<subseteq># mset (ids_in (tree s))" using assms(3) by (rule mset_map_sub)
  have "distinct (ids_in (tree s'))"
    by (rule distinct_sub_mset [OF sub]) (use assms(1) in \<open>simp only: builder_inv_def\<close>)
  moreover have "set (ids_in (tree s')) \<subseteq> set (ids_in (tree s))"
    using set_mset_mono [OF sub] by simp
  ultimately show ?thesis
    using assms(1,2) unfolding builder_inv_def by (meson less_le_trans subsetD)
qed

lemma node_key_inject [simp]: "node_key m = node_key n \<longleftrightarrow> m = n"
  by (simp add: node_key_def)

lemma add_node_tree:
  assumes "default_props c = Some ps"
  shows "add_node c parent s =
    (Some (node_key (id_ref s)),
     s\<lparr>id_ref := Suc (id_ref s),
       tree := insert_node (tree s) (if truthy_string parent then parent else None)
         (BuilderNode (node_key (id_ref s)) (comp_id c) (comp_name c) ps []) None,
       selected_node_id := Some (node_key (id_ref s))\<rparr>)"
  using assms by (simp add: add_node_def generate_id_def insert_node_def splice_at_def Let_def)

lemma fresh_id:
  assumes "builder_inv s"
  shows "node_key (id_ref s) \<notin> set (ids_in (tree s))"
  using assms by (fastforce simp: builder_inv_def)

lemma builder_inv_add:
  assumes "builder_inv s"
  shows "builder_inv (snd (add_node c parent s))"
proof (cases "default_props c")
  case None
  then show ?thesis
    by (intro builder_inv_smaller [OF assms]) (simp_all add: add_node_def generate_id_def)
next
  case (Some ps)
  let ?k = "node_key (id_ref s)"
  let ?node = "BuilderNode ?k (comp_id c) (comp_name c) ps []"
  let ?t = "tree (snd (add_node c parent s))"
  have new: "?t = insert_node (tree s) (if truthy_string parent then parent else None) ?node None"
    by (simp add: add_node_tree [OF Some])
  have d: "distinct (ids_in (tree s))" using assms by (simp add: builder_inv_def)
  have ref: "id_ref (snd (add_node c parent s)) = Suc (id_ref s)"
    by (simp add: add_node_tree [OF Some])
  have "mset (flat ?t) = mset (flat (tree s)) \<or> mset (flat ?t) = mset (flat (tree s)) + {#?node#}"
    using mset_flat_insert_node [OF d, of "if truthy_string parent then parent else None" ?node None]
      insert_node_absent [of _ "tree s" ?node None]
    unfolding new by (cases "if truthy_string parent then parent else None") (fastforce, fastforce)
  then consider "mset (flat ?t) = mset (flat (tree s))" | "mset (flat ?t) = mset (?node # flat (tree s))"
    by auto
  then show ?thesis
  proof cases
    case 1
    then show ?thesis using assms ref by (intro builder_inv_smaller [OF assms]) simp_all
  next
    case 2
    then have "mset (ids_in ?t) = mset (?k # ids_in (tree s))" by simp
    then have "distinct (ids_in ?t)" and "set (ids_in ?t) = insert ?k (set (ids_in (tree s)))"
      using fresh_id [OF assms] d mset_eq_imp_distinct_iff [of "ids_in ?t" "?k # ids_in (tree s)"]
        mset_eq_setD [of "ids_in ?t" "?k # ids_in (tree s)"] by simp_all
    then show ?thesis
      using assms unfolding builder_inv_def ref by (metis insert_iff less_Suc_eq)
  qed
qed

lemma mset_flat_remove_subset: "mset (flat (remove_node_from_tree ns k)) \<subseteq># mset (flat ns)"
proof (induction ns k rule: remove_node_from_tree.induct)
  case (2 i ci cn ps cs ns k)
  then show ?case
    using subset_mset.order_trans [OF "2.IH"(1) mset_subset_eq_add_right [of "mset (flat ns)" "mset (flat (BuilderNode i ci cn ps cs # []))"]]
    by (cases "i = k") (auto intro!: subset_mset.add_mono)
qed simp

lemma subtree_ids:
  assumes "distinct (ids_in ns)" and "find_node ns k = Some n"
  shows "p \<in> set (ids_in ns) \<longleftrightarrow> p \<in> set (ids_in (remove_node_from_tree ns k)) \<or> p \<in> set (ids_in [n])"
    and "p \<in> set (ids_in (remove_node_from_tree ns k)) \<Longrightarrow> p \<notin> set (ids_in [n])"
proof -
  have eq: "mset (ids_in ns) = mset (ids_in (remove_node_from_tree ns k) @ ids_in [n])"
    using mset_map_union [OF removed_flat [OF assms]] by (rule sym)
  show "p \<in> set (ids_in ns) \<longleftrightarrow> p \<in> set (ids_in (remove_node_from_tree ns k)) \<or> p \<in> set (ids_in [n])"
    using mset_eq_setD [OF eq] by auto
  show "p \<in> set (ids_in (remove_node_from_tree ns k)) \<Longrightarrow> p \<notin> set (ids_in [n])"
    using assms(1) mset_eq_imp_distinct_iff [OF eq] by auto
qed

text \<open>The two outcomes of a move, on trees with unique ids.\<close>

lemma moved_flat:
  assumes "distinct (ids_in ns)" and "find_node ns k = Some n"
    and "\<And>p. parent = Some p \<Longrightarrow> p \<in> set (ids_in ns) \<and> p \<notin> set (ids_in [n])"
  shows "mset (flat (insert_node (remove_node_from_tree ns k) parent n index)) = mset (flat ns)"
    and "find_node (insert_node (remove_node_from_tree ns k) parent n index) k = Some n"
proof -
  let ?r = "remove_node_from_tree ns k"
  have p: "p \<in> set (ids_in ?r)" if "parent = Some p" for p
    using assms(3) [OF that] subtree_ids(1) [OF assms(1,2)] by blast
  have "distinct (ids_in ?r)"
    using mset_eq_imp_distinct_iff [OF mset_map_union [OF removed_flat [OF assms(1,2)]]] assms(1)
    by auto
  then show "mset (flat (insert_node ?r parent n index)) = mset (flat ns)"
    using mset_flat_insert_node [of ?r parent n index] p removed_flat [OF assms(1,2)] by simp
  have "node_id n = k" using find_node_Some [OF assms(2)] by simp
  then show "find_node (insert_node ?r parent n index) k = Some n"
    using find_insert_node [of n ?r parent index] removed_absent [of k ns] p by simp
qed

lemma moved_into_itself:
  assumes "distinct (ids_in ns)" and "find_node ns k = Some n" and "p \<in> set (ids_in [n])"
  shows "insert_node (remove_node_from_tree ns k) (Some p) n index = remove_node_from_tree ns k"
  using subtree_ids(2) [OF assms(1,2)] assms(3) by (blast intro: insert_node_absent)

lemma builder_inv_move:
  assumes "builder_inv s"
  shows "builder_inv (move_node k parent index s)"
proof (cases "find_node (tree s) k")
  case (Some n)
  have d: "distinct (ids_in (tree s))" using assms by (simp add: builder_inv_def)
  have "mset (flat (insert_node (remove_node_from_tree (tree s) k) parent n (Some index)))
      \<subseteq># mset (flat (tree s))"
  proof (cases "\<exists>p. parent = Some p \<and> (p \<notin> set (ids_in (tree s)) \<or> p \<in> set (ids_in [n]))")
    case True
    then obtain p where "parent = Some p" "p \<notin> set (ids_in (tree s)) \<or> p \<in> set (ids_in [n])" by blast
    then have "insert_node (remove_node_from_tree (tree s) k) parent n (Some index) =
        remove_node_from_tree (tree s) k"
      using subtree_ids [OF d Some] insert_node_absent by blast
    then show ?thesis by (simp add: mset_flat_remove_subset)
  next
    case False
    then show ?thesis using moved_flat(1) [OF d Some, of parent "Some index"] by auto
  qed
  then show ?thesis using Some by (intro builder_inv_smaller [OF assms]) (simp_all add: move_node_def)
qed (simp add: move_node_def assms)

lemma builder_inv_step: "builder_inv s \<Longrightarrow> builder_inv (builder_step a s)"
proof (cases a)
  case (RemoveNode k)
  assume "builder_inv s"
  then show ?thesis using RemoveNode
    by (auto simp: remove_node_def mset_flat_remove_subset intro!: builder_inv_smaller [of s])
qed (auto simp: builder_inv_add builder_inv_move, auto simp: builder_inv_def update_node_props_def
    select_node_def clear_tree_def)

lemma reachable_builder_inv: "builder_reachable s \<Longrightarrow> builder_inv s"
proof (induction rule: builder_reachable.induct)
  case start
  show ?case by (simp add: builder_inv_def initial_builder_def)
qed (rule builder_inv_step)

subsection \<open>Templates\<close>

lemma resolve_no_hole:
  "match_hole (c # cs) = None \<Longrightarrow>
   resolve_template num (c # cs) props = c # resolve_template num cs props"
  by (simp add: resolve_template.simps [of num "c # cs"])

lemma resolve_Nil [simp]: "resolve_template num [] props = []"
  by (simp add: resolve_template.simps [of num "[]"] match_hole_def starts_with_def)

lemma resolve_literal:
  "CHR ''{'' \<notin> set pre \<Longrightarrow> resolve_template num (pre @ rest) props = pre @ resolve_template num rest props"
proof (induction pre)
  case (Cons c cs)
  then have "match_hole (c # cs @ rest) = None" by (auto simp: match_hole_def starts_with_def)
  then show ?case using Cons by (simp add: resolve_no_hole)
qed simp

lemma match_hole_front:
  assumes "w \<noteq> []" and "\<forall>c \<in> set w. is_word_char c"
  shows "match_hole (''{{'' @ w @ ''}}'' @ rest) = Some (w, rest)"
proof -
  have "\<not> is_word_char CHR ''}''" by (simp add: is_word_char_def)
  then have "takeWhile is_word_char (w @ ''}}'' @ rest) = w"
    and "dropWhile is_word_char (w @ ''}}'' @ rest) = ''}}'' @ rest"
    using assms(2) by (simp_all add: takeWhile_append2 dropWhile_append2)
  then show ?thesis using assms(1) by (simp add: match_hole_def starts_with_def)
qed

lemma resolve_hole:
  assumes "w \<noteq> []" and "\<forall>c \<in> set w. is_word_char c"
  shows "resolve_template num (''{{'' @ w @ ''}}'' @ rest) props =
    hole_value num props w @ resolve_template num rest props"
  by (subst resolve_template.simps) (simp only: match_hole_front [OF assms] option.case prod.case)

subsection \<open>Properties\<close>

text \<open>C22: whatever a user does in the page builder, the ids of the nodes in the tree are distinct, and the
  id of the next node is not among them.\<close>

theorem builder_ids_unique:
  assumes "builder_reachable s"
  shows "distinct (ids_in (tree s)) \<and> fst (generate_id s) \<notin> set (ids_in (tree s))"
  using reachable_builder_inv [OF assms] fresh_id [of s] by (simp add: builder_inv_def generate_id_def)

text \<open>a node added at the root or below an existing node is in the tree under the returned id, with the
  schema's default props and no children, it is selected, and every other node is kept; below an unknown
  parent nothing is added, although the new id is returned and selected.\<close>

theorem add_node_correct:
  assumes "builder_reachable s" and "default_props c = Some ps"
  shows "let (k, s') = add_node c parent s;
             node = BuilderNode (the k) (comp_id c) (comp_name c) ps [];
             added = (\<not> truthy_string parent \<or> the parent \<in> set (ids_in (tree s)))
         in selected_node_id s' = k \<and>
            get_node (the k) s' = (if added then Some node else None) \<and>
            mset (flat (tree s')) = mset (flat (tree s)) + (if added then {#node#} else {#})"
proof -
  let ?k = "node_key (id_ref s)"
  let ?node = "BuilderNode ?k (comp_id c) (comp_name c) ps []"
  let ?p = "if truthy_string parent then parent else None"
  have inv: "builder_inv s" by (rule reachable_builder_inv [OF assms(1)])
  then have d: "distinct (ids_in (tree s))" by (simp add: builder_inv_def)
  have p: "truthy_string parent \<Longrightarrow> parent = Some (the parent)" by (simp add: truthy_string_def)
  show ?thesis
  proof (cases "\<not> truthy_string parent \<or> the parent \<in> set (ids_in (tree s))")
    case True
    then have "\<And>q. ?p = Some q \<Longrightarrow> q \<in> set (ids_in (tree s))" using p by (auto split: if_splits)
    then show ?thesis
      using True mset_flat_insert_node [OF d, of ?p ?node None]
        find_insert_node [of ?node "tree s" ?p None] fresh_id [OF inv]
      by (simp add: add_node_tree [OF assms(2)] get_node_def)
  next
    case False
    then have "insert_node (tree s) ?p ?node None = tree s"
      using p insert_node_absent [of "the parent" "tree s" ?node None] by simp
    then show ?thesis
      using False fresh_id [OF inv] find_node_None [of "tree s" ?k]
      by (simp add: add_node_tree [OF assms(2)] get_node_def)
  qed
qed

text \<open>Removing a node removes exactly its subtree.  The selection is cleared when the node itself is
  selected, and left dangling when one of its descendants is.\<close>

theorem remove_node_exact:
  assumes "builder_reachable s" and "get_node k s = Some n"
  shows "let s' = remove_node k s in
    mset (flat (tree s')) + mset (flat [n]) = mset (flat (tree s)) \<and>
    (\<forall>i. selected_node_id s = Some i \<longrightarrow> get_node i s \<noteq> None \<longrightarrow>
       selected_node_id s' = (if i = k then None else Some i) \<and>
       (get_node i s' = None \<longleftrightarrow> i \<in> set (ids_in [n])))"
proof -
  have d: "distinct (ids_in (tree s))"
    using reachable_builder_inv [OF assms(1)] by (simp add: builder_inv_def)
  have n: "find_node (tree s) k = Some n" using assms(2) by (simp add: get_node_def)
  have "find_node (remove_node_from_tree (tree s) k) i = None \<longleftrightarrow> i \<in> set (ids_in [n])"
    if "find_node (tree s) i \<noteq> None" for i
    using that subtree_ids [OF d n, of i] find_node_None [of "tree s" i]
      find_node_None [of "remove_node_from_tree (tree s) k" i] by auto
  then show ?thesis using removed_flat [OF d n] by (auto simp: remove_node_def get_node_def Let_def)
qed

text \<open>C9: a move to the root, or below a node that is not in the moved subtree, keeps every node of the
  tree, and the whole moved subtree as it was.\<close>

theorem move_node_conserves:
  assumes "builder_reachable s" and "get_node k s = Some n"
    and "parent = None \<or> (\<exists>p. parent = Some p \<and> get_node p s \<noteq> None \<and> p \<notin> set (ids_in [n]))"
  shows "mset (flat (tree (move_node k parent index s))) = mset (flat (tree s)) \<and>
    get_node k (move_node k parent index s) = Some n"
proof -
  have d: "distinct (ids_in (tree s))"
    using reachable_builder_inv [OF assms(1)] by (simp add: builder_inv_def)
  have n: "find_node (tree s) k = Some n" using assms(2) by (simp add: get_node_def)
  have "p \<in> set (ids_in (tree s)) \<and> p \<notin> set (ids_in [n])" if "parent = Some p" for p
    using assms(3) that find_node_None [of "tree s" p] by (auto simp: get_node_def)
  then show ?thesis
    using moved_flat [OF d n, of parent "Some index"] n by (simp add: move_node_def get_node_def)
qed

text \<open>moving a node below itself or one of its own descendants deletes it, with its whole subtree,
  instead of leaving the tree alone.\<close>

theorem move_into_descendant_loses_subtree:
  assumes "builder_reachable s" and "get_node k s = Some n" and "p \<in> set (ids_in [n])"
  shows "mset (flat (tree (move_node k (Some p) index s))) + mset (flat [n]) = mset (flat (tree s)) \<and>
    get_node k (move_node k (Some p) index s) = None"
proof -
  have d: "distinct (ids_in (tree s))"
    using reachable_builder_inv [OF assms(1)] by (simp add: builder_inv_def)
  have n: "find_node (tree s) k = Some n" using assms(2) by (simp add: get_node_def)
  have "find_node (remove_node_from_tree (tree s) k) k = None"
    using removed_absent by (simp only: find_node_None) blast
  then show ?thesis
    using moved_into_itself [OF d n assms(3), of "Some index"] removed_flat [OF d n] n
    by (simp add: move_node_def get_node_def)
qed

text \<open>A hole of a template is replaced by the string of its prop, or by nothing for a missing or
  null prop; the text before it is copied, and neither the copied text nor the inserted value is
  scanned again.\<close>

theorem template_hole_replaced:
  assumes "CHR ''{'' \<notin> set pre" and "w \<noteq> []" and "\<forall>c \<in> set w. is_word_char c"
  shows "resolve_template num (pre @ ''{{'' @ w @ ''}}'' @ rest) props =
    pre @ (case map_of props w of None \<Rightarrow> [] | Some JNull \<Rightarrow> [] | Some v \<Rightarrow> js_string num v)
      @ resolve_template num rest props"
  unfolding resolve_literal [OF assms(1)] resolve_hole [OF assms(2,3)] hole_value_def
  by (simp split: option.split json.split)

text \<open>A page with a container, a heading inside it, and a second container, for the witnesses.\<close>

definition sample_component :: ui_component where
  "sample_component =
     \<lparr>comp_id = ''box'', comp_name = ''Box'', html_template = ''<div>{{children}}</div>'',
      props_schema = Some (JObj [(''properties'', JObj [(''gap'', JObj [(''default'', JStr ''md'')])])])\<rparr>"

definition sample_page :: builder_state where
  "sample_page =
     builder_step (AddNode sample_component None)
       (builder_step (AddNode sample_component (Some ''node-1''))
         (builder_step (AddNode sample_component None) initial_builder))"

lemma sample_page_reachable: "builder_reachable sample_page"
  unfolding sample_page_def by (intro builder_reachable.intros)

lemma node_key_samples [simp]:
  "node_key (Suc 0) = ''node-1''" "node_key (Suc (Suc 0)) = ''node-2''" "node_key 2 = ''node-2''"
  "node_key (Suc (Suc (Suc 0))) = ''node-3''" "node_key (Suc 2) = ''node-3''" "node_key 3 = ''node-3''" "node_key 4 = ''node-4''"
  by code_simp+

lemma sample_component_fields [simp]: "comp_id sample_component = ''box''" "comp_name sample_component = ''Box''"
  by (simp_all add: sample_component_def)

lemma sample_component_defaults: "default_props sample_component = Some [(''gap'', JStr ''md'')]"
  by (simp add: default_props_def sample_component_def)

lemma sample_page_tree:
  "sample_page =
     \<lparr>tree =
        [BuilderNode ''node-1'' ''box'' ''Box'' [(''gap'', JStr ''md'')]
           [BuilderNode ''node-2'' ''box'' ''Box'' [(''gap'', JStr ''md'')] []],
         BuilderNode ''node-3'' ''box'' ''Box'' [(''gap'', JStr ''md'')] []],
      selected_node_id = Some ''node-3'', id_ref = 4\<rparr>"
  by (simp add: sample_page_def initial_builder_def add_node_def sample_component_defaults generate_id_def
      truthy_string_def insert_node_def splice_at_def Let_def eval_nat_numeral)

lemma builder_ids_unique_witness: "distinct (ids_in (tree sample_page))"
  using builder_ids_unique [OF sample_page_reachable] by (rule conjunct1)

lemma add_node_correct_witness:
  "get_node ''node-4'' (snd (add_node sample_component (Some ''node-2'') sample_page)) =
     Some (BuilderNode ''node-4'' ''box'' ''Box'' [(''gap'', JStr ''md'')] [])"
  using add_node_correct [OF sample_page_reachable sample_component_defaults, of "Some ''node-2''"]
    add_node_tree [OF sample_component_defaults, of "Some ''node-2''" sample_page]
  by (simp add: sample_page_tree Let_def)

lemma remove_node_exact_witness:
  "get_node ''node-2'' (remove_node ''node-1'' (select_node (Some ''node-2'') sample_page)) = None \<and>
   selected_node_id (remove_node ''node-1'' (select_node (Some ''node-2'') sample_page)) = Some ''node-2''"
proof -
  have "builder_reachable (builder_step (SelectNode (Some ''node-2'')) sample_page)"
    by (intro builder_reachable.step sample_page_reachable)
  then show ?thesis
    using remove_node_exact [of "select_node (Some ''node-2'') sample_page" "''node-1''"]
    by (simp add: sample_page_tree get_node_def select_node_def Let_def)
qed

lemma move_node_conserves_witness:
  "mset (flat (tree (move_node ''node-1'' (Some ''node-3'') 0 sample_page))) = mset (flat (tree sample_page))"
  using move_node_conserves [OF sample_page_reachable, of "''node-1''" _ "Some ''node-3''" 0]
  by (simp add: sample_page_tree get_node_def)

lemma move_into_descendant_loses_subtree_witness:
  "tree (move_node ''node-1'' (Some ''node-2'') 0 sample_page) = [] \<or>
   get_node ''node-1'' (move_node ''node-1'' (Some ''node-2'') 0 sample_page) = None"
  using move_into_descendant_loses_subtree [OF sample_page_reachable, of "''node-1''" _ "''node-2''" 0]
  by (simp add: sample_page_tree get_node_def)

lemma template_hole_replaced_witness:
  "resolve_template (\<lambda>x. []) ''<b>{{name}}</b>'' [(''name'', JStr ''{{x}}'')] = ''<b>{{x}}</b>''"
  using template_hole_replaced [of "''<b>''" "''name''" "\<lambda>x. []" "''</b>''" "[(''name'', JStr ''{{x}}'')]"]
    resolve_literal [of "''</b>''" "\<lambda>x. []" "[]"]
  by (simp add: is_word_char_def)

end
