(* ===== verification/Http_Client.thy ===== *)
theory Http_Client
  imports Base
begin

section \<open>The HTTP client\<close>

text \<open>
  \<^verbatim>\<open>packages/api/client.ts\<close>, lines 187-498: \<open>ApiError\<close>, the fields of \<open>WorkstationClient\<close>, the
  two transports \<open>request\<close> and \<open>rawFetch\<close>, and the generic methods built on \<open>request\<close>.

  The server is not part of the program: it is an argument, a function from the number of
  requests already sent and the request to an exchange, which says how long the server takes
  and what it answers.  Time is in milliseconds.  The state of a call is the client's fields
  with the browser's: the page's path (none outside a browser), the clock, the requests sent,
  the \<open>api-error\<close> events dispatched and the pages navigated to.  A timer that is due at the very
  moment at which a response arrives fires first.
\<close>

subsection \<open>Requests, responses, errors\<close>

text \<open>
  A body is the text \<open>JSON.stringify\<close> makes of a value, kept as the value, or a form.
\<close>

datatype form_value = FormText string | FormFile string string

datatype payload = JsonBody json | FormBody "(string \<times> form_value) list"

record http_request =
  req_url :: string
  req_method :: string
  req_headers :: "(string \<times> string) list"
  req_body :: "payload option"
  req_credentials :: string

text \<open>The body of a response as text and as JSON; none where reading or parsing it fails.\<close>

record response =
  status :: nat
  status_text :: string
  retry_after_header :: "string option"
  body_text :: "string option"
  body_json :: "json option"

datatype fetch_outcome = Reply response | NoReply string

record exchange =
  latency :: nat
  outcome :: fetch_outcome
  body_latency :: nat

type_synonym server = "nat \<Rightarrow> http_request \<Rightarrow> exchange"

text \<open>\<open>parseInt(raw, 10)\<close> gives none for \<open>NaN\<close>.  \<open>retryAfter\<close> is absent, \<open>NaN\<close> or a number.\<close>

datatype retry_after = NoRetryAfter | RetryAfterNaN | RetryAfter int

datatype js_error =
    ApiErr nat string "string option" retry_after
  | AbortErr
  | NetworkErr string
  | SyntaxErr
  | UndefinedErr

record api_event =
  event_message :: string
  event_status :: nat
  event_retry_after :: retry_after

record http =
  base_url :: string
  token :: "string option"
  max_retries :: nat
  retry_base_delay_ms :: nat
  request_timeout_ms :: nat
  pathname :: "string option"
  clock :: nat
  sent :: "http_request list"
  api_events :: "api_event list"
  hrefs :: "string list"

text \<open>The constructor, with its default arguments; \<open>env\<close> is the build's \<open>NEXT_PUBLIC_API_URL\<close>.\<close>

definition new_client ::
  "string option \<Rightarrow> string option \<Rightarrow> nat option \<Rightarrow> nat option \<Rightarrow> nat option \<Rightarrow> string option \<Rightarrow> http" where
  "new_client env baseUrl retries delay timeout page =
     \<lparr>base_url = nullish baseUrl (nullish env []), token = None, max_retries = nullish retries 2,
      retry_base_delay_ms = nullish delay 500, request_timeout_ms = nullish timeout 30000,
      pathname = page, clock = 0, sent = [], api_events = [], hrefs = []\<rparr>"

definition set_token :: "string option \<Rightarrow> http \<Rightarrow> http" where
  "set_token t s = s\<lparr>token := t\<rparr>"

definition get_token :: "http \<Rightarrow> string option" where
  "get_token s = token s"

text \<open>What a caller passes: \<open>RequestInit\<close>, the moment it aborts its signal, and the overrides.\<close>

record call =
  call_path :: string
  call_method :: "string option"
  call_headers :: "(string \<times> string) list"
  call_body :: "payload option"
  call_abort :: "nat option"
  call_timeout :: "nat option"
  call_retries :: "nat option"

subsection \<open>Shared steps\<close>

definition js_space :: "char \<Rightarrow> bool" where
  "js_space c \<longleftrightarrow> of_char c \<in> {9, 10, 11, 12, 13, 32, 160 :: nat}"

definition is_digit :: "char \<Rightarrow> bool" where
  "is_digit c \<longleftrightarrow> (48::nat) \<le> of_char c \<and> of_char c \<le> (57::nat)"

definition parse_int :: "string \<Rightarrow> int option" where
  "parse_int raw =
     (let t = dropWhile js_space raw;
          neg = starts_with t ''-'';
          u = (if neg \<or> starts_with t ''+'' then drop 1 t else t);
          ds = takeWhile is_digit u
      in if ds = [] then None else Some (if neg then - int (read_nat ds) else int (read_nat ds)))"

definition retry_after_sec :: "response \<Rightarrow> retry_after" where
  "retry_after_sec r =
     (if truthy_string (retry_after_header r)
      then (case parse_int (the (retry_after_header r)) of
              None \<Rightarrow> RetryAfterNaN | Some i \<Rightarrow> RetryAfter i)
      else RetryAfter 5)"

text \<open>A timer with a negative delay fires at once.\<close>

definition retry_after_ms :: "response \<Rightarrow> nat" where
  "retry_after_ms r =
     nat ((case retry_after_sec r of RetryAfter i \<Rightarrow> i | _ \<Rightarrow> 5) * 1000)"

definition wait_ms :: "nat \<Rightarrow> http \<Rightarrow> http" where
  "wait_ms ms s = s\<lparr>clock := clock s + ms\<rparr>"

definition delay :: "nat \<Rightarrow> http \<Rightarrow> http" where
  "delay attempt s = wait_ms (retry_base_delay_ms s * 2 ^ attempt) s"

definition dispatch_api_error :: "string \<Rightarrow> nat \<Rightarrow> retry_after \<Rightarrow> http \<Rightarrow> http" where
  "dispatch_api_error message st ra s =
     (if pathname s = None then s
      else s\<lparr>api_events := api_events s @
        [\<lparr>event_message = message, event_status = st, event_retry_after = ra\<rparr>]\<rparr>)"

text \<open>The handling of a 401: the token goes, and the page does unless it is the login page.\<close>

definition unauthorized :: "string \<Rightarrow> http \<Rightarrow> http" where
  "unauthorized path s =
     (let s1 = s\<lparr>token := None\<rparr>
      in case pathname s1 of
           None \<Rightarrow> s1
         | Some page \<Rightarrow>
             if \<not> ends_with path ''/auth/login'' \<and> \<not> starts_with page ''/login''
             then s1\<lparr>hrefs := hrefs s1 @ [''/login'']\<rparr> else s1)"

text \<open>
  When the controller's signal aborts: by the timer, or with the caller's signal, whose
  listener is registered at the start of the call and never hears of an earlier abort.
\<close>

definition deadline :: "nat \<Rightarrow> nat option \<Rightarrow> http \<Rightarrow> nat" where
  "deadline timeout abort_time s =
     (case abort_time of
        Some a \<Rightarrow> if clock s < a then min a (clock s + timeout) else clock s + timeout
      | None \<Rightarrow> clock s + timeout)"

datatype fetch_end = Responds exchange response | Rejects js_error

definition do_fetch :: "server \<Rightarrow> http_request \<Rightarrow> nat \<Rightarrow> http \<Rightarrow> fetch_end \<times> http" where
  "do_fetch server req due s =
     (if due \<le> clock s then (Rejects AbortErr, s)
      else
        (let x = server (length (sent s)) req; s1 = s\<lparr>sent := sent s @ [req]\<rparr>
         in if due \<le> clock s + latency x then (Rejects AbortErr, s1\<lparr>clock := due\<rparr>)
            else
              (case outcome x of
                 Reply r \<Rightarrow> (Responds x r, wait_ms (latency x) s1)
               | NoReply m \<Rightarrow> (Rejects (NetworkErr m), wait_ms (latency x) s1))))"

text \<open>\<open>response.text().catch(() => undefined)\<close>, which the signal may cut short.\<close>

definition read_text :: "nat \<Rightarrow> exchange \<Rightarrow> response \<Rightarrow> http \<Rightarrow> string option \<times> http" where
  "read_text due x r s =
     (if due \<le> clock s + body_latency x then (None, s\<lparr>clock := max (clock s) due\<rparr>)
      else (body_text r, wait_ms (body_latency x) s))"

text \<open>
  \<open>return response.json()\<close>: the promise is returned without being awaited, so the timer is
  cleared before the body arrives; only the caller's signal can still interrupt it.
\<close>

definition read_json :: "nat option \<Rightarrow> exchange \<Rightarrow> response \<Rightarrow> http \<Rightarrow> (js_error + json option) \<times> http" where
  "read_json abort_time x r s =
     (case abort_time of
        Some a \<Rightarrow>
          if clock s < a \<and> a \<le> clock s + body_latency x then (Inl AbortErr, s\<lparr>clock := a\<rparr>)
          else (case body_json r of None \<Rightarrow> Inl SyntaxErr | Some j \<Rightarrow> Inr (Some j), wait_ms (body_latency x) s)
      | None \<Rightarrow>
          (case body_json r of None \<Rightarrow> Inl SyntaxErr | Some j \<Rightarrow> Inr (Some j), wait_ms (body_latency x) s))"

definition is_ok :: "response \<Rightarrow> bool" where
  "is_ok r \<longleftrightarrow> 200 \<le> status r \<and> status r \<le> 299"

definition with_token :: "http \<Rightarrow> (string \<times> string) list \<Rightarrow> (string \<times> string) list" where
  "with_token s headers =
     (if truthy_string (token s)
      then AList.update ''Authorization'' (''Bearer '' @ the (token s)) headers else headers)"

text \<open>What no step of a call changes: the configuration of the client and the page.\<close>

definition config :: "http \<Rightarrow> string \<times> nat \<times> nat \<times> nat \<times> string option" where
  "config s = (base_url s, max_retries s, retry_base_delay_ms s, request_timeout_ms s, pathname s)"

lemma config_fields:
  "config s' = config s \<Longrightarrow>
   base_url s' = base_url s \<and> max_retries s' = max_retries s \<and>
   retry_base_delay_ms s' = retry_base_delay_ms s \<and> request_timeout_ms s' = request_timeout_ms s \<and>
   pathname s' = pathname s"
  by (simp add: config_def)

lemma wait_ms_config [simp]: "config (wait_ms ms s) = config s"
  by (simp add: wait_ms_def config_def)

lemma delay_config [simp]: "config (delay attempt s) = config s"
  by (simp add: delay_def)

lemma dispatch_config [simp]: "config (dispatch_api_error m st ra s) = config s"
  by (simp add: dispatch_api_error_def config_def)

lemma unauthorized_config [simp]: "config (unauthorized path s) = config s"
  by (simp add: unauthorized_def Let_def config_def split: option.split)

lemma clock_config [simp]: "config (s\<lparr>clock := n\<rparr>) = config s" "config (s\<lparr>sent := q\<rparr>) = config s"
  by (simp_all add: config_def)

lemmas config_simps [simp] =
  config_fields [OF wait_ms_config] config_fields [OF delay_config]
  config_fields [OF dispatch_config] config_fields [OF unauthorized_config]

lemma do_fetch_config: "do_fetch server req due s = (e, s') \<Longrightarrow> config s' = config s"
  by (auto simp: do_fetch_def Let_def split: if_splits fetch_outcome.splits)

lemma read_text_config: "read_text due x r s = (b, s') \<Longrightarrow> config s' = config s"
  by (auto simp: read_text_def split: if_splits)

lemma read_json_config: "read_json a x r s = (b, s') \<Longrightarrow> config s' = config s"
  by (auto simp: read_json_def split: if_splits option.splits)

subsection \<open>\<open>request\<close>\<close>

definition request_of :: "call \<Rightarrow> http \<Rightarrow> http_request" where
  "request_of c s =
     \<lparr>req_url = base_url s @ call_path c, req_method = nullish (call_method c) ''GET'',
      req_headers = with_token s (spread [(''Content-Type'', ''application/json'')] (call_headers c)),
      req_body = call_body c, req_credentials = ''include''\<rparr>"

text \<open>How the \<open>try\<close> block of one attempt ends.\<close>

datatype try_end =
    Returns "js_error + json option"
  | Continues js_error
  | Throws js_error

definition bad_response ::
  "string \<Rightarrow> nat \<Rightarrow> nat \<Rightarrow> response \<Rightarrow> string option \<Rightarrow> http \<Rightarrow> try_end \<times> http" where
  "bad_response path retries attempt r body s =
     (if status r = 401 then (Throws (ApiErr 401 (status_text r) body NoRetryAfter), unauthorized path s)
      else if status r = 429 then
        (let ra = retry_after_sec r;
             s1 = dispatch_api_error ''Rate limited. Retrying shortly...'' 429 ra s;
             e = ApiErr 429 ''Too Many Requests'' body ra
         in if attempt < retries then (Continues e, wait_ms (retry_after_ms r) s1) else (Throws e, s1))
      else
        (let s1 = (if 400 \<le> status r
                   then dispatch_api_error (show_nat (status r) @ '': '' @ status_text r) (status r) NoRetryAfter s
                   else s);
             e = ApiErr (status r) (status_text r) body NoRetryAfter
         in if 500 \<le> status r \<and> attempt < retries then (Continues e, delay attempt s1) else (Throws e, s1)))"

definition try_attempt ::
  "server \<Rightarrow> call \<Rightarrow> http_request \<Rightarrow> nat \<Rightarrow> nat \<Rightarrow> nat \<Rightarrow> http \<Rightarrow> try_end \<times> http" where
  "try_attempt server c req due retries attempt s =
     (case do_fetch server req due s of
        (Rejects e, s1) \<Rightarrow> (Throws e, s1)
      | (Responds x r, s1) \<Rightarrow>
          if \<not> is_ok r then
            (let (body, s2) = read_text due x r s1 in bad_response (call_path c) retries attempt r body s2)
          else if status r = 204 then (Returns (Inr None), s1)
          else (let (res, s2) = read_json (call_abort c) x r s1 in (Returns res, s2)))"

definition timed_out :: js_error where
  "timed_out = ApiErr 0 ''Request timed out'' None NoRetryAfter"

text \<open>The \<open>catch\<close> clause: the error to throw at once, if any.\<close>

definition rethrown :: "js_error \<Rightarrow> js_error option" where
  "rethrown e =
     (case e of
        AbortErr \<Rightarrow> Some timed_out
      | ApiErr st _ _ _ \<Rightarrow> if 0 < st \<and> st < 500 then Some e else None
      | _ \<Rightarrow> None)"

function request_loop ::
  "server \<Rightarrow> call \<Rightarrow> http_request \<Rightarrow> nat \<Rightarrow> nat \<Rightarrow> nat \<Rightarrow> js_error \<Rightarrow> http \<Rightarrow> (js_error + json option) \<times> http" where
  "request_loop server c req due retries attempt last_error s =
     (if retries < attempt then (Inl last_error, s)
      else
        (case try_attempt server c req due retries attempt s of
           (Returns res, s1) \<Rightarrow> (res, s1)
         | (Continues e, s1) \<Rightarrow> request_loop server c req due retries (Suc attempt) e s1
         | (Throws e, s1) \<Rightarrow>
             (case rethrown e of
                Some e' \<Rightarrow> (Inl e', s1)
              | None \<Rightarrow>
                  request_loop server c req due retries (Suc attempt) e
                    (if attempt < retries then delay attempt s1 else s1))))"
  by pat_completeness auto
termination
  by (relation "measure (\<lambda>(_, _, _, _, retries, attempt, _). Suc retries - attempt)") auto

declare request_loop.simps [simp del]

definition request :: "server \<Rightarrow> call \<Rightarrow> http \<Rightarrow> (js_error + json option) \<times> http" where
  "request server c s =
     request_loop server c (request_of c s)
       (deadline (nullish (call_timeout c) (request_timeout_ms s)) (call_abort c) s)
       (nullish (call_retries c) (max_retries s)) 0 UndefinedErr s"

subsection \<open>\<open>rawFetch\<close>\<close>

definition raw_request_of :: "call \<Rightarrow> http \<Rightarrow> http_request" where
  "raw_request_of c s =
     \<lparr>req_url = base_url s @ call_path c, req_method = nullish (call_method c) ''GET'',
      req_headers = with_token s (call_headers c), req_body = call_body c, req_credentials = ''include''\<rparr>"

function raw_loop ::
  "server \<Rightarrow> call \<Rightarrow> http_request \<Rightarrow> nat \<Rightarrow> nat \<Rightarrow> http \<Rightarrow> (js_error + response) \<times> http" where
  "raw_loop server c req due attempt s =
     (if max_retries s < attempt then (Inl (ApiErr 0 ''Max retries exceeded'' None NoRetryAfter), s)
      else
        (case do_fetch server req due s of
           (Rejects e, s1) \<Rightarrow> (Inl (if e = AbortErr then timed_out else e), s1)
         | (Responds x r, s1) \<Rightarrow>
             if is_ok r then (Inr r, s1)
             else
               (let s2 = (if status r = 401 then unauthorized (call_path c) s1 else s1)
                in if status r = 429 \<and> attempt < max_retries s
                   then raw_loop server c req due (Suc attempt) (wait_ms (retry_after_ms r) s2)
                   else if 500 \<le> status r \<and> attempt < max_retries s
                   then raw_loop server c req due (Suc attempt) (delay attempt s2)
                   else
                     (let (body, s3) = read_text due x r s2
                      in (Inl (ApiErr (status r) (status_text r) body NoRetryAfter), s3)))))"
  by pat_completeness auto

termination
  by (relation "measure (\<lambda>(_, _, _, _, attempt, s). Suc (max_retries s) - attempt)")
    (auto dest!: sym [of "(_, _)" "do_fetch _ _ _ _"] dest!: do_fetch_config config_fields)

declare raw_loop.simps [simp del]

definition raw_fetch :: "server \<Rightarrow> call \<Rightarrow> http \<Rightarrow> (js_error + response) \<times> http" where
  "raw_fetch server c s =
     raw_loop server c (raw_request_of c s)
       (deadline (request_timeout_ms s * 2) (call_abort c) s) 0 s"

subsection \<open>The generic methods\<close>

text \<open>A call with nothing but a path; \<open>{ data }\<close> is the result of \<open>request\<close> itself.\<close>

definition plain_call :: "string \<Rightarrow> call" where
  "plain_call path =
     \<lparr>call_path = path, call_method = None, call_headers = [], call_body = None,
      call_abort = None, call_timeout = None, call_retries = None\<rparr>"

definition get_call :: "server \<Rightarrow> string \<Rightarrow> http \<Rightarrow> (js_error + json option) \<times> http" where
  "get_call server path = request server (plain_call path)"

definition post_call ::
  "server \<Rightarrow> string \<Rightarrow> json option \<Rightarrow> http \<Rightarrow> (js_error + json option) \<times> http" where
  "post_call server path body = request server ((plain_call path)
     \<lparr>call_method := Some ''POST'', call_body := map_option JsonBody body\<rparr>)"

definition put_call ::
  "server \<Rightarrow> string \<Rightarrow> json option \<Rightarrow> http \<Rightarrow> (js_error + json option) \<times> http" where
  "put_call server path body = request server ((plain_call path)
     \<lparr>call_method := Some ''PUT'', call_body := map_option JsonBody body\<rparr>)"

definition delete_call :: "server \<Rightarrow> string \<Rightarrow> http \<Rightarrow> (js_error + json option) \<times> http" where
  "delete_call server path = request server ((plain_call path)\<lparr>call_method := Some ''DELETE''\<rparr>)"

subsection \<open>What a call does to the client and the browser\<close>

text \<open>
  From \<open>s\<close> to \<open>s'\<close> only the request \<open>req\<close> was sent, \<open>n\<close> times; time went forward and the
  configuration stayed.
\<close>

definition progress :: "http_request \<Rightarrow> nat \<Rightarrow> http \<Rightarrow> http \<Rightarrow> bool" where
  "progress req n s s' \<longleftrightarrow>
     config s' = config s \<and> clock s \<le> clock s' \<and> sent s' = sent s @ replicate n req"

lemma progress_refl [simp]: "progress req 0 s s"
  by (simp add: progress_def)

lemma progress_trans: "progress req m s s' \<Longrightarrow> progress req n s' s'' \<Longrightarrow> progress req (m + n) s s''"
  by (auto simp: progress_def replicate_add)

lemma progress_quiet:
  "config s' = config s \<Longrightarrow> clock s \<le> clock s' \<Longrightarrow> sent s' = sent s \<Longrightarrow> progress req 0 s s'"
  by (simp add: progress_def)

lemma wait_fields [simp]:
  "clock (wait_ms ms s) = clock s + ms" "sent (wait_ms ms s) = sent s" "token (wait_ms ms s) = token s"
  "api_events (wait_ms ms s) = api_events s" "hrefs (wait_ms ms s) = hrefs s"
  by (simp_all add: wait_ms_def)

lemma delay_fields [simp]:
  "clock (delay a s) = clock s + retry_base_delay_ms s * 2 ^ a" "sent (delay a s) = sent s"
  "token (delay a s) = token s" "api_events (delay a s) = api_events s" "hrefs (delay a s) = hrefs s"
  by (simp_all add: delay_def)

lemma dispatch_fields [simp]:
  "clock (dispatch_api_error m st ra s) = clock s" "sent (dispatch_api_error m st ra s) = sent s"
  "token (dispatch_api_error m st ra s) = token s" "hrefs (dispatch_api_error m st ra s) = hrefs s"
  by (simp_all add: dispatch_api_error_def)

lemma unauthorized_fields [simp]:
  "clock (unauthorized p s) = clock s" "sent (unauthorized p s) = sent s" "token (unauthorized p s) = None"
  "api_events (unauthorized p s) = api_events s"
  by (simp_all add: unauthorized_def Let_def split: option.split)

lemma do_fetch_progress:
  assumes "do_fetch server req due s = (e, s')"
  shows "progress req (if due \<le> clock s then 0 else 1) s s'" and "token s' = token s"
    and "api_events s' = api_events s" and "hrefs s' = hrefs s"
  using assms do_fetch_config [OF assms]
  by (auto simp: do_fetch_def Let_def progress_def split: if_splits fetch_outcome.splits)

lemma do_fetch_error:
  "do_fetch server req due s = (Rejects e, s') \<Longrightarrow> e = AbortErr \<or> (\<exists>m. e = NetworkErr m)"
  by (auto simp: do_fetch_def Let_def split: if_splits fetch_outcome.splits)

lemma read_text_progress:
  assumes "read_text due x r s = (b, s')"
  shows "progress req 0 s s'" and "token s' = token s" and "api_events s' = api_events s" and "hrefs s' = hrefs s"
  using assms read_text_config [OF assms] by (auto simp: read_text_def progress_def split: if_splits)

lemma read_json_progress:
  assumes "read_json a x r s = (b, s')"
  shows "progress req 0 s s'" and "token s' = token s"
  using assms read_json_config [OF assms]
  by (auto simp: read_json_def progress_def split: if_splits option.splits)

text \<open>A call loses the token exactly when it ends with a 401.\<close>

fun is_unauthorized :: "js_error \<Rightarrow> bool" where
  "is_unauthorized (ApiErr st _ _ _) \<longleftrightarrow> st = 401"
| "is_unauthorized _ \<longleftrightarrow> False"

definition token_after :: "http \<Rightarrow> (js_error + 'r) \<Rightarrow> string option" where
  "token_after s res =
     (case res of Inl e \<Rightarrow> if is_unauthorized e then None else token s | Inr _ \<Rightarrow> token s)"

fun end_result :: "try_end \<Rightarrow> js_error + json option" where
  "end_result (Returns res) = res"
| "end_result (Continues e) = Inl e"
| "end_result (Throws e) = Inl e"

lemma read_json_error: "read_json a x r s = (Inl e, s') \<Longrightarrow> \<not> is_unauthorized e"
  by (auto simp: read_json_def split: if_splits option.splits)

lemma bad_response_progress:
  assumes "bad_response path retries attempt r body s = (e, s')"
  shows "progress req 0 s s'" and "token s' = token_after s (end_result e)"
    and "\<And>err. e = Continues err \<Longrightarrow> \<not> is_unauthorized err" and "\<And>res. e \<noteq> Returns res"
proof -
  have "config s' = config s \<and> clock s \<le> clock s' \<and> sent s' = sent s"
    using assms by (auto simp: bad_response_def Let_def split: if_splits)
  then show "progress req 0 s s'" by (simp add: progress_def)
  show "token s' = token_after s (end_result e)"
    "\<And>err. e = Continues err \<Longrightarrow> \<not> is_unauthorized err" "\<And>res. e \<noteq> Returns res"
    using assms by (auto simp: bad_response_def Let_def token_after_def split: if_splits)
qed

lemma try_attempt_progress:
  assumes "try_attempt server c req due retries attempt s = (e, s')"
  shows "\<exists>n \<le> 1. progress req n s s'" and "token s' = token_after s (end_result e)"
    and "\<And>err. e = Continues err \<Longrightarrow> \<not> is_unauthorized err"
    and "\<And>err. e = Returns (Inl err) \<Longrightarrow> \<not> is_unauthorized err"
proof -
  obtain f s1 where f: "do_fetch server req due s = (f, s1)" by (cases "do_fetch server req due s")
  let ?n = "if due \<le> clock s then 0 else 1"
  have all: "progress req ?n s s' \<and> token s' = token_after s (end_result e) \<and>
      (\<forall>err. e = Continues err \<longrightarrow> \<not> is_unauthorized err) \<and>
      (\<forall>err. e = Returns (Inl err) \<longrightarrow> \<not> is_unauthorized err)"
  proof (cases f)
    case (Rejects err)
    then show ?thesis
      using assms f do_fetch_progress [OF f] do_fetch_error [of server req due s err s1]
      by (auto simp: try_attempt_def token_after_def)
  next
    case (Responds x r)
    have p: "progress req 0 s1 s2 \<Longrightarrow> progress req ?n s s2" for s2
      using progress_trans [OF do_fetch_progress(1) [OF f]] by fastforce
    consider "\<not> is_ok r" | "is_ok r" "status r = 204" | "is_ok r" "status r \<noteq> 204" by blast
    then show ?thesis
    proof cases
      case 1
      obtain b s2 where b: "read_text due x r s1 = (b, s2)" by (cases "read_text due x r s1")
      then have bad: "bad_response (call_path c) retries attempt r b s2 = (e, s')"
        using assms f Responds 1 by (simp add: try_attempt_def)
      have "progress req 0 s1 s'"
        using progress_trans [OF read_text_progress(1) [OF b] bad_response_progress(1) [OF bad]] by simp
      moreover have "token s' = token_after s (end_result e)"
        using bad_response_progress(2) [OF bad] read_text_progress(2) [OF b] do_fetch_progress(2) [OF f]
        by (simp add: token_after_def split: sum.split)
      ultimately show ?thesis using p bad_response_progress(3,4) [OF bad] by blast
    next
      case 2
      then show ?thesis
        using assms f Responds do_fetch_progress [OF f] by (auto simp: try_attempt_def token_after_def)
    next
      case 3
      obtain j s2 where j: "read_json (call_abort c) x r s1 = (j, s2)"
        by (cases "read_json (call_abort c) x r s1")
      then have e: "e = Returns j" "s' = s2" using assms f Responds 3 by (auto simp: try_attempt_def)
      have "\<And>err. j = Inl err \<Longrightarrow> \<not> is_unauthorized err" using read_json_error j by blast
      then show ?thesis
        using p [OF read_json_progress(1) [OF j]] read_json_progress(2) [OF j] do_fetch_progress(2) [OF f] e
        by (auto simp: token_after_def split: sum.split)
    qed
  qed
  then show "token s' = token_after s (end_result e)"
    "\<And>err. e = Continues err \<Longrightarrow> \<not> is_unauthorized err"
    "\<And>err. e = Returns (Inl err) \<Longrightarrow> \<not> is_unauthorized err" by blast+
  show "\<exists>n \<le> 1. progress req n s s'" using all by (intro exI [of _ ?n]) simp
qed

lemma rethrown_unauthorized: "is_unauthorized e \<Longrightarrow> rethrown e = Some e"
  by (cases e) (simp_all add: rethrown_def)

lemma rethrown_Some: "rethrown e = Some e' \<Longrightarrow> is_unauthorized e' \<longleftrightarrow> is_unauthorized e"
  by (cases e) (auto simp: rethrown_def timed_out_def split: if_splits)

lemma request_loop_progress:
  assumes "\<not> is_unauthorized last_error"
    and "request_loop server c req due retries attempt last_error s = (res, s')"
  shows "(\<exists>n \<le> Suc retries - attempt. progress req n s s') \<and> token s' = token_after s res"
  using assms
proof (induction server c req due retries attempt last_error s rule: request_loop.induct)
  case (1 server c req due retries attempt last_error s)
  note loop = request_loop.simps [of server c req due retries attempt last_error s]
  show ?case
  proof (cases "retries < attempt")
    case True
    then show ?thesis using 1(3,4) by (auto simp: loop token_after_def)
  next
    case False
    obtain e s1 where e: "try_attempt server c req due retries attempt s = (e, s1)"
      by (cases "try_attempt server c req due retries attempt s")
    obtain n where n: "n \<le> 1" "progress req n s s1" using try_attempt_progress(1) [OF e] by blast
    have more: "(\<exists>n \<le> Suc retries - attempt. progress req n s s') \<and> token s' = token_after s res"
      if quiet: "progress req 0 s1 s2" "token s2 = token s"
        and rest: "(\<exists>n \<le> Suc retries - Suc attempt. progress req n s2 s') \<and> token s' = token_after s2 res" for s2
    proof -
      obtain m where "m \<le> Suc retries - Suc attempt" "progress req m s2 s'" using rest by blast
      then have "progress req (n + 0 + m) s s'" using progress_trans n(2) quiet(1) by blast
      moreover have "n + 0 + m \<le> Suc retries - attempt"
        using n(1) \<open>m \<le> Suc retries - Suc attempt\<close> False by simp
      ultimately show ?thesis using quiet(2) rest by (auto simp: token_after_def split: sum.split)
    qed
    show ?thesis
    proof (cases e)
      case (Returns r)
      then show ?thesis
        using 1(4) False e n try_attempt_progress [OF e] by (auto simp: loop intro!: exI [of _ n])
    next
      case (Continues err)
      have "token s1 = token s"
        using try_attempt_progress(2,3) [OF e] Continues by (simp add: token_after_def)
      then show ?thesis
        using 1(1) [OF False e [symmetric]] Continues 1(4) False e try_attempt_progress(3) [OF e]
        by (intro more [of s1]) (auto simp: loop)
    next
      case (Throws err)
      show ?thesis
      proof (cases "rethrown err")
        case (Some e')
        then show ?thesis
          using Throws 1(4) False e n try_attempt_progress(2) [OF e] rethrown_Some [OF Some]
          by (auto simp: loop token_after_def intro!: exI [of _ n])
      next
        case None
        then have na: "\<not> is_unauthorized err" using rethrown_unauthorized by fastforce
        then have "token s1 = token s"
          using try_attempt_progress(2) [OF e] Throws by (simp add: token_after_def)
        then show ?thesis
          using 1(2) [OF False e [symmetric] Throws None na] None Throws 1(4) False e
          by (intro more [of "if attempt < retries then delay attempt s1 else s1"])
            (auto simp: loop progress_def)
      qed
    qed
  qed
qed

lemma raw_loop_progress:
  "raw_loop server c req due attempt s = (res, s') \<Longrightarrow>
   (\<exists>n \<le> Suc (max_retries s) - attempt. progress req n s s') \<and> token s' = token_after s res"
proof (induction server c req due attempt s arbitrary: res s' rule: raw_loop.induct)
  case (1 server c req due attempt s)
  note loop = raw_loop.simps [of server c req due attempt s]
  show ?case
  proof (cases "max_retries s < attempt")
    case True
    then show ?thesis using 1(3) by (auto simp: loop token_after_def)
  next
    case False
    obtain f s1 where f: "do_fetch server req due s = (f, s1)" by (cases "do_fetch server req due s")
    let ?n = "if due \<le> clock s then 0 else 1 :: nat"
    have n: "progress req ?n s s1" "token s1 = token s" using do_fetch_progress [OF f] by simp_all
    have le: "?n \<le> Suc (max_retries s) - attempt" using False by (simp add: Suc_diff_le)
    have more: ?thesis
      if quiet: "progress req 0 s1 s2" "token s2 = token s"
        and rest: "(\<exists>n \<le> Suc (max_retries s2) - Suc attempt. progress req n s2 s') \<and>
          token s' = token_after s2 res" for s2
    proof -
      have "progress req (?n + 0) s s2" by (rule progress_trans [OF n(1) quiet(1)])
      then have "max_retries s2 = max_retries s" by (auto simp: progress_def dest: config_fields)
      then obtain m where m: "m \<le> Suc (max_retries s) - Suc attempt" "progress req m s2 s'"
        using rest by auto
      then have "progress req (?n + 0 + m) s s'"
        using progress_trans \<open>progress req (?n + 0) s s2\<close> by blast
      moreover have "?n + 0 + m \<le> Suc (max_retries s) - attempt" using m(1) False by auto
      ultimately show ?thesis using quiet(2) rest by (auto simp: token_after_def split: sum.split)
    qed
    show ?thesis
    proof (cases f)
      case (Rejects e)
      then have "res = Inl (if e = AbortErr then timed_out else e)" "s' = s1"
        using 1(3) f False by (auto simp: loop)
      then show ?thesis
        using n le do_fetch_error [of server req due s e s1] f Rejects
        by (auto simp: token_after_def timed_out_def intro!: exI [of _ ?n])
    next
      case (Responds x r)
      show ?thesis
      proof (cases "is_ok r")
        case True
        then show ?thesis
          using 1(3) f Responds False n le by (auto simp: loop token_after_def intro!: exI [of _ ?n])
      next
        case bad: False
        let ?s2 = "if status r = 401 then unauthorized (call_path c) s1 else s1"
        consider (limited) "status r = 429" "attempt < max_retries s"
          | (down) "status r \<noteq> 429" "500 \<le> status r" "attempt < max_retries s"
          | (stop) "\<not> (status r = 429 \<and> attempt < max_retries s)" "\<not> (500 \<le> status r \<and> attempt < max_retries s)"
          by blast
        then show ?thesis
        proof cases
          case limited
          then show ?thesis
            using 1(1) [OF False f [symmetric] Responds bad refl conjI [OF limited]] 1(3) f Responds False bad n(2)
            by (intro more [of "wait_ms (retry_after_ms r) s1"])
              (auto simp: loop Let_def intro!: progress_quiet)
        next
          case down
          then show ?thesis
            using 1(2) [OF False f [symmetric] Responds bad refl _ conjI [OF down(2,3)]] 1(3) f Responds False bad n(2)
            by (intro more [of "delay attempt s1"])
              (auto simp: loop Let_def intro!: progress_quiet)
        next
          case stop
          obtain b s3 where b: "read_text due x r ?s2 = (b, s3)" by (cases "read_text due x r ?s2")
          then have e: "res = Inl (ApiErr (status r) (status_text r) b NoRetryAfter)" "s' = s3"
            using 1(3) f Responds False bad stop by (auto simp: loop Let_def)
          have "progress req (?n + (0 + 0)) s s3"
            by (intro progress_trans [OF n(1)] progress_trans [OF _ read_text_progress(1) [OF b]])
              (simp add: progress_quiet)
          then show ?thesis
            using e le n(2) read_text_progress(2) [OF b]
            by (auto simp: token_after_def split: if_splits intro!: exI [of _ ?n])
        qed
      qed
    qed
  qed
qed

subsection \<open>The transport interface\<close>

text \<open>
  What the methods of the client rely on, whichever transport they use: a call sends one and the
  same request a bounded number of times, and it loses the token exactly when it ends with a 401.
\<close>

locale transport =
  fixes send :: "server \<Rightarrow> call \<Rightarrow> http \<Rightarrow> (js_error + 'r) \<times> http"
    and to_request :: "call \<Rightarrow> http \<Rightarrow> http_request"
    and budget :: "call \<Rightarrow> http \<Rightarrow> nat"
  assumes send_progress:
      "send server c s = (res, s') \<Longrightarrow> \<exists>n \<le> budget c s. progress (to_request c s) n s s'"
    and send_token: "send server c s = (res, s') \<Longrightarrow> token s' = token_after s res"
    and request_auth:
      "map_of (call_headers c) ''Authorization'' = None \<Longrightarrow>
       map_of (req_headers (to_request c s)) ''Authorization'' =
         (if truthy_string (token s) then Some (''Bearer '' @ the (token s)) else None)"
begin

fun send_all :: "server \<Rightarrow> call list \<Rightarrow> http \<Rightarrow> http" where
  "send_all server [] s = s"
| "send_all server (c # cs) s = send_all server cs (snd (send server c s))"

lemma send_snd:
  "\<exists>n \<le> budget c s. progress (to_request c s) n s (snd (send server c s))"
  using send_progress [of server c s "fst (send server c s)" "snd (send server c s)"] by simp

lemma send_config: "config (snd (send server c s)) = config s"
  using send_snd [of c s server] by (auto simp: progress_def)

lemma token_none: "token s = None \<Longrightarrow> token (snd (send server c s)) = None"
  using send_token [of server c s "fst (send server c s)" "snd (send server c s)"]
  by (auto simp: token_after_def split: sum.splits if_splits)

lemma send_prefix: "\<exists>r. sent (send_all server cs s) = sent s @ r"
proof (induction cs arbitrary: s)
  case (Cons c cs)
  let ?s = "snd (send server c s)"
  obtain n where "sent ?s = sent s @ replicate n (to_request c s)"
    using send_snd [of c s server] by (auto simp: progress_def)
  moreover obtain r where "sent (send_all server cs ?s) = sent ?s @ r" using Cons by blast
  ultimately show ?case by simp
qed simp

text \<open>The requests of a sequence of calls add up to at most the sum of their budgets.\<close>

lemma send_all_bounded:
  assumes "\<And>c s'. c \<in> set cs \<Longrightarrow> config s' = config s \<Longrightarrow> budget c s' \<le> b"
  shows "length (sent (send_all server cs s)) \<le> length (sent s) + length cs * b"
  using assms
proof (induction cs arbitrary: s)
  case (Cons c cs)
  let ?s = "snd (send server c s)"
  have "length (sent (send_all server cs ?s)) \<le> length (sent ?s) + length cs * b"
    using Cons.prems send_config by (intro Cons.IH) auto
  moreover have "length (sent ?s) \<le> length (sent s) + b"
    using send_snd [of c s server] Cons.prems [of c s] by (auto simp: progress_def)
  ultimately show ?case by simp
qed simp

text \<open>Once the token is gone, no request carries it any more.\<close>

lemma signed_out_requests:
  assumes "token s = None" and "\<And>c. c \<in> set cs \<Longrightarrow> map_of (call_headers c) ''Authorization'' = None"
  shows "\<forall>q \<in> set (drop (length (sent s)) (sent (send_all server cs s))).
    map_of (req_headers q) ''Authorization'' = None"
  using assms
proof (induction cs arbitrary: s)
  case (Cons c cs)
  let ?s = "snd (send server c s)"
  obtain n where n: "sent ?s = sent s @ replicate n (to_request c s)"
    using send_snd [of c s server] by (auto simp: progress_def)
  have q: "map_of (req_headers (to_request c s)) ''Authorization'' = None"
    using request_auth [of c s] Cons.prems by (simp add: truthy_string_def)
  have IH: "\<forall>q \<in> set (drop (length (sent ?s)) (sent (send_all server cs ?s))).
      map_of (req_headers q) ''Authorization'' = None"
    using Cons.prems token_none by (intro Cons.IH) auto
  obtain r where "sent (send_all server cs ?s) = sent ?s @ r" using send_prefix by blast
  then show ?case using IH n q by auto
qed simp

end

lemma with_token_auth:
  "map_of hs ''Authorization'' = None \<Longrightarrow>
   map_of (with_token s hs) ''Authorization'' =
     (if truthy_string (token s) then Some (''Bearer '' @ the (token s)) else None)"
  by (simp add: with_token_def update_conv')

lemma spread_absent:
  "map_of (spread a b) k = None \<longleftrightarrow> map_of a k = None \<and> map_of b k = None"
proof (induction b arbitrary: a)
  case (Cons kv b)
  then show ?case by (cases kv) (auto simp: spread_def update_conv')
qed (simp add: spread_def)

interpretation json_transport: transport request request_of "\<lambda>c s. Suc (nullish (call_retries c) (max_retries s))"
proof
  fix server and c :: call and s :: http and res :: "js_error + json option" and s'
  assume r: "request server c s = (res, s')"
  have "\<not> is_unauthorized UndefinedErr" by simp
  from request_loop_progress [OF this r [unfolded request_def]] show "\<exists>n \<le> Suc (nullish (call_retries c) (max_retries s)). progress (request_of c s) n s s'"
    and "token s' = token_after s res"
    by simp_all
next
  fix c :: call and s :: http assume "map_of (call_headers c) ''Authorization'' = None"
  then show "map_of (req_headers (request_of c s)) ''Authorization'' =
      (if truthy_string (token s) then Some (''Bearer '' @ the (token s)) else None)"
    using spread_absent [of _ "call_headers c"] by (simp add: request_of_def with_token_auth)
qed

interpretation raw_transport: transport raw_fetch raw_request_of "\<lambda>c s. Suc (max_retries s)"
proof
  fix server and c :: call and s :: http and res :: "js_error + response" and s'
  assume r: "raw_fetch server c s = (res, s')"
  from raw_loop_progress [OF r [unfolded raw_fetch_def]] show "\<exists>n \<le> Suc (max_retries s). progress (raw_request_of c s) n s s'"
    and "token s' = token_after s res"
    by simp_all
next
  fix c :: call and s :: http assume "map_of (call_headers c) ''Authorization'' = None"
  then show "map_of (req_headers (raw_request_of c s)) ''Authorization'' =
      (if truthy_string (token s) then Some (''Bearer '' @ the (token s)) else None)"
    by (simp add: raw_request_of_def with_token_auth)
qed

subsection \<open>Retries\<close>

text \<open>What an attempt that is worth retrying looks like, and the time it takes without its delay.\<close>

fun transient :: "fetch_outcome \<Rightarrow> bool" where
  "transient (Reply r) \<longleftrightarrow> 500 \<le> status r"
| "transient (NoReply m) \<longleftrightarrow> True"

definition spent :: "exchange \<Rightarrow> nat" where
  "spent x = latency x + (case outcome x of Reply r \<Rightarrow> body_latency x | NoReply m \<Rightarrow> 0)"

text \<open>The error a transient exchange leaves behind when its body arrives in time.\<close>

definition transient_error :: "exchange \<Rightarrow> js_error" where
  "transient_error x =
     (case outcome x of
        Reply r \<Rightarrow> ApiErr (status r) (status_text r) (body_text r) NoRetryAfter
      | NoReply m \<Rightarrow> NetworkErr m)"

lemma do_fetch_in_time:
  assumes "x = server (length (sent s)) req" and "clock s + latency x < due"
  shows "do_fetch server req due s =
    ((case outcome x of Reply r \<Rightarrow> Responds x r | NoReply m \<Rightarrow> Rejects (NetworkErr m)),
     s\<lparr>sent := sent s @ [req], clock := clock s + latency x\<rparr>)"
  using assms by (auto simp: do_fetch_def Let_def wait_ms_def split: fetch_outcome.split)

text \<open>One transient attempt: the loop goes on, after the delay if there is a next one.\<close>

lemma transient_attempt:
  assumes "x = server (length (sent s)) req" and "transient (outcome x)"
    and "clock s + spent x < due" and "attempt \<le> retries"
  obtains s1 where
    "request_loop server c req due retries attempt last_error s =
       request_loop server c req due retries (Suc attempt) (transient_error x) s1"
    "clock s1 = clock s + spent x + (if attempt < retries then retry_base_delay_ms s * 2 ^ attempt else 0)"
    "sent s1 = sent s @ [req]" "config s1 = config s" "token s1 = token s"
proof -
  let ?s = "s\<lparr>sent := sent s @ [req], clock := clock s + latency x\<rparr>"
  let ?wait = "\<lambda>t. if attempt < retries then delay attempt t else t"
  have f: "do_fetch server req due s =
      ((case outcome x of Reply r \<Rightarrow> Responds x r | NoReply m \<Rightarrow> Rejects (NetworkErr m)), ?s)"
    by (rule do_fetch_in_time [of x server s req due])
      (use assms in \<open>auto simp: spent_def split: fetch_outcome.splits\<close>)
  note loop = request_loop.simps [of server c req due retries attempt last_error s]
  show ?thesis
  proof (cases "outcome x")
    case (NoReply m)
    then have "try_attempt server c req due retries attempt s = (Throws (NetworkErr m), ?s)"
      using f by (simp add: try_attempt_def)
    then have "request_loop server c req due retries attempt last_error s =
        request_loop server c req due retries (Suc attempt) (transient_error x) (?wait ?s)"
      using assms(4) NoReply by (simp add: loop rethrown_def transient_error_def)
    then show ?thesis
      by (rule that) (use NoReply in \<open>auto simp: spent_def config_def\<close>)
  next
    case (Reply r)
    let ?e = "ApiErr (status r) (status_text r) (body_text r) NoRetryAfter"
    let ?d = "dispatch_api_error (show_nat (status r) @ '': '' @ status_text r) (status r) NoRetryAfter
        (wait_ms (body_latency x) ?s)"
    have st: "500 \<le> status r" using assms(2) Reply by simp
    then have bad: "\<not> is_ok r" by (simp add: is_ok_def)
    have b: "read_text due x r ?s = (body_text r, wait_ms (body_latency x) ?s)"
      using assms(3) Reply by (simp add: read_text_def spent_def)
    have t: "try_attempt server c req due retries attempt s =
        (if attempt < retries then (Continues ?e, delay attempt ?d) else (Throws ?e, ?d))"
      using st bad Reply by (simp add: try_attempt_def f b bad_response_def Let_def)
    have "request_loop server c req due retries attempt last_error s =
        request_loop server c req due retries (Suc attempt) (transient_error x) (?wait ?d)"
      using assms(4) st Reply by (simp add: loop t rethrown_def transient_error_def)
    then show ?thesis
      by (rule that) (use Reply in \<open>auto simp: spent_def config_def dispatch_api_error_def wait_ms_def delay_def\<close>)
  qed
qed

text \<open>
  A run of transient attempts, each with a next one: the loop is where it would be had it
  started later, with the time of the attempts and their delays gone by.
\<close>

definition all_transient :: "server \<Rightarrow> http_request \<Rightarrow> nat \<Rightarrow> nat \<Rightarrow> bool" where
  "all_transient server req n k \<longleftrightarrow> (\<forall>i < k. transient (outcome (server (n + i) req)))"

definition total_spent :: "server \<Rightarrow> http_request \<Rightarrow> nat \<Rightarrow> nat \<Rightarrow> nat" where
  "total_spent server req n k = (\<Sum>i < k. spent (server (n + i) req))"

lemma transient_run:
  assumes "all_transient server req (length (sent s)) k" and "attempt + k \<le> retries"
    and "clock s + total_spent server req (length (sent s)) k
       + retry_base_delay_ms s * (2 ^ (attempt + k) - 2 ^ attempt) < due"
  shows "\<exists>s1 e. request_loop server c req due retries attempt last_error s =
       request_loop server c req due retries (attempt + k) e s1 \<and>
     clock s1 = clock s + total_spent server req (length (sent s)) k
       + retry_base_delay_ms s * (2 ^ (attempt + k) - 2 ^ attempt) \<and>
     sent s1 = sent s @ replicate k req \<and> config s1 = config s \<and> token s1 = token s"
  using assms
proof (induction k arbitrary: attempt s last_error)
  case 0
  then show ?case by (auto simp: total_spent_def)
next
  case (Suc k)
  let ?x = "server (length (sent s)) req" and ?b = "retry_base_delay_ms s"
  have split: "total_spent server req (length (sent s)) (Suc k) =
      spent ?x + total_spent server req (Suc (length (sent s))) k"
    by (simp add: total_spent_def sum.lessThan_Suc_shift del: sum.lessThan_Suc)
  have pow: "(2::nat) ^ (attempt + Suc k) - 2 ^ attempt =
      2 ^ attempt + (2 ^ (Suc attempt + k) - 2 ^ Suc attempt)"
  proof -
    have "(2::nat) ^ Suc attempt \<le> 2 ^ (Suc attempt + k)" by (rule power_increasing) simp_all
    then show ?thesis by simp
  qed
  have t: "transient (outcome ?x)" using Suc.prems(1) by (auto simp: all_transient_def)
  have "clock s + spent ?x < due" using Suc.prems(3) split by simp
  then obtain s1 where s1:
      "request_loop server c req due retries attempt last_error s =
         request_loop server c req due retries (Suc attempt) (transient_error ?x) s1"
      "clock s1 = clock s + spent ?x + ?b * 2 ^ attempt"
      "sent s1 = sent s @ [req]" "config s1 = config s" "token s1 = token s"
    using transient_attempt [of ?x server s req due attempt retries c last_error, OF refl t] Suc.prems(2) by auto
  have b: "retry_base_delay_ms s1 = ?b" using config_fields [OF s1(4)] by simp
  have n: "length (sent s1) = Suc (length (sent s))" by (simp add: s1(3))
  have time: "clock s1 + total_spent server req (length (sent s1)) k
      + retry_base_delay_ms s1 * (2 ^ (Suc attempt + k) - 2 ^ Suc attempt) =
     clock s + total_spent server req (length (sent s)) (Suc k)
      + ?b * (2 ^ (attempt + Suc k) - 2 ^ attempt)"
    unfolding split pow n b s1(2) by (simp only: add_mult_distrib2 ac_simps)
  have "all_transient server req (length (sent s1)) k"
    using Suc.prems(1) unfolding all_transient_def n by (metis Suc_less_eq add_Suc add_Suc_right)
  from Suc.IH [OF this, of "Suc attempt" "transient_error ?x"] Suc.prems(2,3)
  obtain s2 e where "request_loop server c req due retries (Suc attempt) (transient_error ?x) s1 =
       request_loop server c req due retries (Suc attempt + k) e s2"
      "clock s2 = clock s1 + total_spent server req (length (sent s1)) k
        + retry_base_delay_ms s1 * (2 ^ (Suc attempt + k) - 2 ^ Suc attempt)"
      "sent s2 = sent s1 @ replicate k req" "config s2 = config s1" "token s2 = token s1"
    unfolding time by (metis add_Suc add_Suc_right)
  then show ?case using s1 time by (intro exI [of _ s2] exI [of _ e]) simp
qed

lemma deadline_alone [simp]: "deadline t None s = clock s + t"
  by (simp add: deadline_def)

lemma request_loop_step:
  assumes "attempt \<le> retries"
  shows "request_loop server c req due retries attempt last_error s =
     (case try_attempt server c req due retries attempt s of
        (Returns res, s1) \<Rightarrow> (res, s1)
      | (Continues e, s1) \<Rightarrow> request_loop server c req due retries (Suc attempt) e s1
      | (Throws e, s1) \<Rightarrow>
          (case rethrown e of
             Some e' \<Rightarrow> (Inl e', s1)
           | None \<Rightarrow>
               request_loop server c req due retries (Suc attempt) e
                 (if attempt < retries then delay attempt s1 else s1)))"
  using assms by (simp add: request_loop.simps [of server c req due retries attempt last_error s])

lemma request_loop_over:
  "retries < attempt \<Longrightarrow> request_loop server c req due retries attempt e s = (Inl e, s)"
  by (simp add: request_loop.simps [of server c req due retries attempt e s])

lemma request_loop_aborted:
  assumes "due \<le> clock s" and "attempt \<le> retries"
  shows "request_loop server c req due retries attempt e s = (Inl timed_out, s)"
  using assms by (simp add: request_loop_step try_attempt_def do_fetch_def rethrown_def)

subsection \<open>Properties\<close>

text \<open>C1: one call of \<open>request\<close> sends the same request at most once more than it may retry, lets the
  clock only go forward and leaves the client's configuration alone; the token is cleared exactly when
  the call ends with a 401.\<close>

theorem request_sends_bounded:
  "let (res, s') = request server c s in
     (\<exists>n \<le> Suc (nullish (call_retries c) (max_retries s)). sent s' = sent s @ replicate n (request_of c s)) \<and>
     clock s \<le> clock s' \<and> config s' = config s \<and>
     token s' = (case res of Inl e \<Rightarrow> if is_unauthorized e then None else token s | Inr j \<Rightarrow> token s)"
proof -
  obtain res s' where r: "request server c s = (res, s')" by (cases "request server c s")
  then show ?thesis
    using json_transport.send_progress [OF r] json_transport.send_token [OF r]
    by (auto simp: progress_def token_after_def)
qed

text \<open>C4: once a call has ended with a 401, no request of any later call carries an Authorization
  header (unless its caller sets one), until a token is set again.\<close>

theorem no_credentials_after_401:
  assumes "request server c s = (Inl (ApiErr 401 m b ra), s')"
    and "\<And>d. d \<in> set cs \<Longrightarrow> map_of (call_headers d) ''Authorization'' = None"
  shows "\<forall>q \<in> set (drop (length (sent s')) (sent (json_transport.send_all server cs s'))).
    map_of (req_headers q) ''Authorization'' = None"
proof (rule json_transport.signed_out_requests)
  show "token s' = None" using json_transport.send_token [OF assms(1)] by (simp add: token_after_def)
qed (rule assms(2))

text \<open>a client error other than 401 and 429 that arrives in time is reported after exactly one
  request, with the status, the body (if it too arrives in time) and one \<open>api-error\<close> event in a browser.\<close>

theorem client_error_not_retried:
  assumes "x = server (length (sent s)) (request_of c s)" and "outcome x = Reply r"
    and "400 \<le> status r" and "status r < 500" and "status r \<noteq> 401" and "status r \<noteq> 429"
    and "call_abort c = None" and "latency x < nullish (call_timeout c) (request_timeout_ms s)"
  shows "let (res, s') = request server c s in
    res = Inl (ApiErr (status r) (status_text r)
      (if spent x < nullish (call_timeout c) (request_timeout_ms s) then body_text r else None) NoRetryAfter) \<and>
    sent s' = sent s @ [request_of c s] \<and> token s' = token s \<and>
    map event_status (api_events s') =
      map event_status (api_events s) @ (if pathname s = None then [] else [status r])"
proof -
  let ?t = "nullish (call_timeout c) (request_timeout_ms s)" and ?q = "request_of c s"
  let ?s = "s\<lparr>sent := sent s @ [?q], clock := clock s + latency x\<rparr>"
  obtain b s2 where b: "read_text (clock s + ?t) x r ?s = (b, s2)"
    by (cases "read_text (clock s + ?t) x r ?s")
  have body: "b = (if spent x < ?t then body_text r else None)"
    using b assms(2) by (auto simp: read_text_def spent_def split: if_splits)
  have s2: "sent s2 = sent ?s" "token s2 = token s" "api_events s2 = api_events s" "pathname s2 = pathname s"
    using b by (auto simp: read_text_def wait_ms_def split: if_splits)
  have bad: "\<not> is_ok r" using assms(3) by (simp add: is_ok_def)
  let ?e = "ApiErr (status r) (status_text r) b NoRetryAfter"
  let ?d = "dispatch_api_error (show_nat (status r) @ '': '' @ status_text r) (status r) NoRetryAfter s2"
  have "do_fetch server ?q (clock s + ?t) s = (Responds x r, ?s)"
    using do_fetch_in_time [of x server s ?q "clock s + ?t"] assms(1,2,8) by simp
  then have "try_attempt server c ?q (clock s + ?t) (nullish (call_retries c) (max_retries s)) 0 s = (Throws ?e, ?d)"
    using bad b assms(3-6) by (simp add: try_attempt_def bad_response_def Let_def)
  then have "request server c s = (Inl ?e, ?d)"
    using assms(3,4,7) by (simp add: request_def request_loop_step rethrown_def)
  then show ?thesis using body s2 by (simp add: dispatch_api_error_def)
qed

text \<open>C2: when the first attempts all fail transiently (a 5xx or a network error), the next one brings
  JSON, there are enough retries, and all of it with the exponential back-off between the attempts fits in
  the timeout, then the call returns that JSON and the requests sent are exactly those attempts.\<close>

theorem request_recovers:
  assumes "all_transient server (request_of c s) (length (sent s)) k"
    and "k \<le> nullish (call_retries c) (max_retries s)" and "call_abort c = None"
    and "x = server (length (sent s) + k) (request_of c s)" and "outcome x = Reply r"
    and "is_ok r" and "status r \<noteq> 204" and "body_json r = Some j"
    and "total_spent server (request_of c s) (length (sent s)) k + retry_base_delay_ms s * (2 ^ k - 1) + latency x
      < nullish (call_timeout c) (request_timeout_ms s)"
  shows "let (res, s') = request server c s in
    res = Inr (Some j) \<and> sent s' = sent s @ replicate (Suc k) (request_of c s) \<and>
    clock s' = clock s + total_spent server (request_of c s) (length (sent s)) k
      + retry_base_delay_ms s * (2 ^ k - 1) + latency x + body_latency x"
proof -
  let ?q = "request_of c s" and ?t = "nullish (call_timeout c) (request_timeout_ms s)"
  let ?m = "nullish (call_retries c) (max_retries s)"
  let ?n = "length (sent s)"
  have "clock s + total_spent server ?q ?n k + retry_base_delay_ms s * (2 ^ (0 + k) - 2 ^ 0) < clock s + ?t"
    using assms(9) by simp
  from transient_run [OF assms(1) _ this, of ?m c UndefinedErr] assms(2)
  obtain s1 e where s1: "request_loop server c ?q (clock s + ?t) ?m 0 UndefinedErr s =
       request_loop server c ?q (clock s + ?t) ?m k e s1"
      "clock s1 = clock s + total_spent server ?q ?n k + retry_base_delay_ms s * (2 ^ k - 1)"
      "sent s1 = sent s @ replicate k ?q"
    by auto
  have "x = server (length (sent s1)) ?q" using assms(4) s1(3) by simp
  moreover have "clock s1 + latency x < clock s + ?t" using assms(9) s1(2) by simp
  ultimately have "do_fetch server ?q (clock s + ?t) s1 =
      (Responds x r, s1\<lparr>sent := sent s1 @ [?q], clock := clock s1 + latency x\<rparr>)"
    using do_fetch_in_time [of x server s1 ?q] assms(5) by simp
  then show ?thesis
    using assms s1 by (simp add: request_def request_loop_step try_attempt_def read_json_def replicate_append_same)
qed

text \<open>C3: when every allowed attempt fails transiently and all of it fits in the timeout, the call
  fails with the error of the last attempt, after one request more than there are retries.\<close>

theorem request_gives_up:
  assumes "k = nullish (call_retries c) (max_retries s)" and "call_abort c = None"
    and "all_transient server (request_of c s) (length (sent s)) (Suc k)"
    and "total_spent server (request_of c s) (length (sent s)) (Suc k) + retry_base_delay_ms s * (2 ^ k - 1)
      < nullish (call_timeout c) (request_timeout_ms s)"
  shows "let (res, s') = request server c s in
    res = Inl (transient_error (server (length (sent s) + k) (request_of c s))) \<and>
    sent s' = sent s @ replicate (Suc k) (request_of c s)"
proof -
  let ?q = "request_of c s" and ?t = "nullish (call_timeout c) (request_timeout_ms s)"
  let ?n = "length (sent s)"
  let ?x = "server (?n + k) ?q"
  have last: "total_spent server ?q ?n (Suc k) = total_spent server ?q ?n k + spent ?x"
    by (simp add: total_spent_def)
  have "all_transient server ?q ?n k" and t: "transient (outcome ?x)"
    using assms(3) by (auto simp: all_transient_def)
  moreover have "clock s + total_spent server ?q ?n k + retry_base_delay_ms s * (2 ^ (0 + k) - 2 ^ 0) < clock s + ?t"
    using assms(4) last by simp
  ultimately obtain s1 e where s1: "request_loop server c ?q (clock s + ?t) k 0 UndefinedErr s =
       request_loop server c ?q (clock s + ?t) k k e s1"
      "clock s1 = clock s + total_spent server ?q ?n k + retry_base_delay_ms s * (2 ^ k - 1)"
      "sent s1 = sent s @ replicate k ?q"
    using transient_run [of server ?q s k 0 k "clock s + ?t" c UndefinedErr] by auto
  have "?x = server (length (sent s1)) ?q" using s1(3) by simp
  moreover have "clock s1 + spent ?x < clock s + ?t" using assms(4) s1(2) last by simp
  ultimately obtain s2 where "request_loop server c ?q (clock s + ?t) k k e s1 =
       request_loop server c ?q (clock s + ?t) k (Suc k) (transient_error ?x) s2" "sent s2 = sent s1 @ [?q]"
    using transient_attempt [of ?x server s1 ?q "clock s + ?t" k k c e] t by (metis le_refl)
  then show ?thesis
    using assms(1,2) s1
    by (simp add: request_def request_loop_over replicate_append_same)
qed

text \<open>the wait that a 429 asks for is not cut short by the timeout: when it would end after the
  timeout, the call still waits it out, sends nothing more, and reports a timeout.\<close>

theorem rate_limit_outlives_timeout:
  assumes "x = server (length (sent s)) (request_of c s)" and "outcome x = Reply r" and "status r = 429"
    and "call_abort c = None" and "0 < nullish (call_retries c) (max_retries s)"
    and "spent x < nullish (call_timeout c) (request_timeout_ms s)"
    and "nullish (call_timeout c) (request_timeout_ms s) \<le> spent x + retry_after_ms r"
  shows "let (res, s') = request server c s in
    res = Inl timed_out \<and> sent s' = sent s @ [request_of c s] \<and>
    clock s' = clock s + spent x + retry_after_ms r"
proof -
  let ?t = "nullish (call_timeout c) (request_timeout_ms s)" and ?q = "request_of c s"
  let ?m = "nullish (call_retries c) (max_retries s)"
  let ?s = "s\<lparr>sent := sent s @ [?q], clock := clock s + latency x\<rparr>"
  let ?d = "wait_ms (retry_after_ms r) (dispatch_api_error ''Rate limited. Retrying shortly...'' 429
      (retry_after_sec r) (wait_ms (body_latency x) ?s))"
  let ?e = "ApiErr 429 ''Too Many Requests'' (body_text r) (retry_after_sec r)"
  have "do_fetch server ?q (clock s + ?t) s = (Responds x r, ?s)"
    using do_fetch_in_time [of x server s ?q "clock s + ?t"] assms(1,2,6) by (simp add: spent_def)
  moreover have "read_text (clock s + ?t) x r ?s = (body_text r, wait_ms (body_latency x) ?s)"
    using assms(2,6) by (simp add: read_text_def spent_def)
  ultimately have "try_attempt server c ?q (clock s + ?t) ?m 0 s = (Continues ?e, ?d)"
    using assms(3,5) by (simp add: try_attempt_def is_ok_def bad_response_def Let_def)
  then have "request server c s = request_loop server c ?q (clock s + ?t) ?m 1 ?e ?d"
    using assms(4) by (simp add: request_def request_loop_step)
  also have "\<dots> = (Inl timed_out, ?d)"
    using assms(2,5,7) by (intro request_loop_aborted) (simp_all add: spent_def)
  finally show ?thesis using assms(2) by (simp add: spent_def)
qed

text \<open>a request that its caller cancels while it waits for the first response is reported as a
  timeout, although nothing has timed out.\<close>

theorem cancel_reported_as_timeout:
  assumes "x = server (length (sent s)) (request_of c s)" and "call_abort c = Some a"
    and "clock s < a" and "a \<le> clock s + latency x"
    and "a < clock s + nullish (call_timeout c) (request_timeout_ms s)"
  shows "fst (request server c s) = Inl timed_out \<and> clock (snd (request server c s)) = a"
proof -
  have "deadline (nullish (call_timeout c) (request_timeout_ms s)) (call_abort c) s = a"
    using assms(2,3,5) by (simp add: deadline_def)
  then show ?thesis
    using assms(1,3,4)
    by (simp add: request_def request_loop_step try_attempt_def do_fetch_def Let_def rethrown_def)
qed

lemma read_json_early: "a \<le> clock s \<Longrightarrow> read_json (Some a) x r s = read_json None x r s"
  by (simp add: read_json_def)

lemma try_attempt_early:
  assumes "a \<le> clock s" and "call_abort c = Some a"
  shows "try_attempt server c req due retries attempt s =
    try_attempt server (c\<lparr>call_abort := None\<rparr>) req due retries attempt s"
proof -
  obtain f s1 where f: "do_fetch server req due s = (f, s1)" by (cases "do_fetch server req due s")
  have "clock s \<le> clock s1" using do_fetch_progress(1) [OF f] by (simp add: progress_def)
  then have "read_json (Some a) x r s1 = read_json None x r s1" for x r
    using assms(1) by (intro read_json_early) simp
  then show ?thesis using assms(2) by (simp add: try_attempt_def f split: fetch_end.split)
qed

lemma request_loop_early:
  assumes "a \<le> clock s" and "call_abort c = Some a"
  shows "request_loop server c req due retries attempt e s =
    request_loop server (c\<lparr>call_abort := None\<rparr>) req due retries attempt e s"
  using assms
proof (induction server c req due retries attempt e s rule: request_loop.induct)
  case (1 server c req due retries attempt e s)
  show ?case
  proof (cases "retries < attempt")
    case True
    then show ?thesis by (simp add: request_loop_over)
  next
    case False
    obtain t s1 where t: "try_attempt server c req due retries attempt s = (t, s1)"
      by (cases "try_attempt server c req due retries attempt s")
    then have t': "try_attempt server (c\<lparr>call_abort := None\<rparr>) req due retries attempt s = (t, s1)"
      using try_attempt_early [of a s c] 1(3,4) by simp
    have late: "a \<le> clock s1"
      using try_attempt_progress(1) [OF t] 1(3) by (auto simp: progress_def)
    show ?thesis
    proof (cases t)
      case (Returns res)
      then show ?thesis using False t t' by (simp add: request_loop_step)
    next
      case (Continues err)
      then show ?thesis
        using False t t' 1(1) [OF False t [symmetric] Continues late 1(4)] by (simp add: request_loop_step)
    next
      case (Throws err)
      have "a \<le> clock (if attempt < retries then delay attempt s1 else s1)" using late by simp
      then show ?thesis
        using False t t' Throws 1(2) [OF False t [symmetric] Throws _ _ 1(4)]
        by (cases "rethrown err") (simp_all add: request_loop_step)
    qed
  qed
qed

text \<open>A signal that is already aborted when the call is made is ignored: the call behaves as one
  without a signal.\<close>

theorem aborted_signal_ignored:
  assumes "call_abort c = Some a" and "a \<le> clock s"
  shows "request server c s = request server (c\<lparr>call_abort := None\<rparr>) s"
proof -
  have "request_of (c\<lparr>call_abort := None\<rparr>) s = request_of c s" by (simp add: request_of_def)
  then show ?thesis
    using assms request_loop_early [OF assms(2,1)] by (simp add: request_def deadline_def)
qed

text \<open>\<open>rawFetch\<close> reports a network error of its first attempt at once, where \<open>request\<close> retries.\<close>

theorem raw_fetch_no_network_retry:
  assumes "x = server (length (sent s)) (raw_request_of c s)" and "outcome x = NoReply m"
    and "call_abort c = None" and "latency x < request_timeout_ms s * 2"
  shows "fst (raw_fetch server c s) = Inl (NetworkErr m) \<and>
    sent (snd (raw_fetch server c s)) = sent s @ [raw_request_of c s]"
  using assms do_fetch_in_time [of x server s "raw_request_of c s" "clock s + request_timeout_ms s * 2"]
  by (simp add: raw_fetch_def raw_loop.simps [of _ _ _ _ 0])

subsection \<open>Witnesses\<close>

text \<open>
  A client with the default settings on the chat page, signed in; and servers that answer after
  10 ms with given responses, one per request.
\<close>

definition sample_client :: http where
  "sample_client = set_token (Some ''abc'') (new_client None (Some ''http://api'') None None None (Some ''/chat''))"

definition reply :: "nat \<Rightarrow> string \<Rightarrow> string option \<Rightarrow> json option \<Rightarrow> response" where
  "reply st text after body =
     \<lparr>status = st, status_text = text, retry_after_header = after, body_text = Some text, body_json = body\<rparr>"

definition scripted :: "fetch_outcome list \<Rightarrow> server" where
  "scripted script n q = \<lparr>latency = 10, outcome = script ! n, body_latency = 5\<rparr>"

lemma sample_client_fields [simp]:
  "sent sample_client = []" "clock sample_client = 0" "max_retries sample_client = 2"
  "request_timeout_ms sample_client = 30000" "retry_base_delay_ms sample_client = 500"
  "pathname sample_client = Some ''/chat''" "api_events sample_client = []" "token sample_client = Some ''abc''"
  by (simp_all add: sample_client_def set_token_def new_client_def)

lemma plain_call_fields [simp]:
  "call_headers (plain_call p) = []" "call_body (plain_call p) = None" "call_abort (plain_call p) = None"
  "call_timeout (plain_call p) = None" "call_retries (plain_call p) = None" "call_path (plain_call p) = p"
  "call_method (plain_call p) = None"
  by (simp_all add: plain_call_def)

lemma reply_fields [simp]:
  "status (reply st t a j) = st" "status_text (reply st t a j) = t" "retry_after_header (reply st t a j) = a"
  "body_text (reply st t a j) = Some t" "body_json (reply st t a j) = j"
  by (simp_all add: reply_def)

lemma scripted_fields [simp]:
  "latency (scripted sc n q) = 10" "outcome (scripted sc n q) = sc ! n" "body_latency (scripted sc n q) = 5"
  by (simp_all add: scripted_def)

definition failing_script :: "fetch_outcome list" where
  "failing_script = [Reply (reply 503 ''Busy'' None None), NoReply ''reset'', Reply (reply 500 ''Oops'' None None)]"

definition recovering_script :: "fetch_outcome list" where
  "recovering_script = [Reply (reply 503 ''Busy'' None None), NoReply ''reset'', Reply (reply 200 ''OK'' None (Some JNull))]"

lemma request_sends_bounded_witness:
  "length (sent (snd (request (scripted failing_script) (plain_call ''/x'') sample_client))) \<le> 3"
  using request_sends_bounded [of "scripted failing_script" "plain_call ''/x''" sample_client]
  by (auto split: prod.splits)

lemma no_credentials_after_401_witness:
  "let server = scripted [Reply (reply 401 ''Unauthorized'' None None), NoReply ''reset''];
       s = snd (request server (plain_call ''/x'') sample_client)
   in fst (request server (plain_call ''/x'') sample_client) =
        Inl (ApiErr 401 ''Unauthorized'' (Some ''Unauthorized'') NoRetryAfter) \<and>
      (\<forall>q \<in> set (drop (length (sent s)) (sent (json_transport.send_all server [plain_call ''/y''] s))).
        map_of (req_headers q) ''Authorization'' = None)"
proof -
  let ?server = "scripted [Reply (reply 401 ''Unauthorized'' None None), NoReply ''reset'']"
  obtain res s where r: "request ?server (plain_call ''/x'') sample_client = (res, s)"
    by (cases "request ?server (plain_call ''/x'') sample_client")
  then have res: "res = Inl (ApiErr 401 ''Unauthorized'' (Some ''Unauthorized'') NoRetryAfter)"
    by (simp add: request_def request_loop_step try_attempt_def do_fetch_def read_text_def is_ok_def
        bad_response_def rethrown_def Let_def)
  show ?thesis
    using no_credentials_after_401 [OF r [unfolded res], of "[plain_call ''/y'']"] r res by (simp add: Let_def)
qed

lemma client_error_not_retried_witness:
  "map event_status (api_events (snd (request (scripted [Reply (reply 404 ''Not Found'' None None)])
     (plain_call ''/x'') sample_client))) = [404]"
  using client_error_not_retried
    [of _ "scripted [Reply (reply 404 ''Not Found'' None None)]" sample_client "plain_call ''/x''", OF refl]
  by (auto simp: Let_def split: prod.splits)

lemma request_recovers_witness:
  "fst (request (scripted recovering_script) (plain_call ''/x'') sample_client) = Inr (Some JNull)"
proof -
  have "all_transient (scripted recovering_script) (request_of (plain_call ''/x'') sample_client)
      (length (sent sample_client)) 2"
    by (auto simp: all_transient_def recovering_script_def less_2_cases_iff)
  moreover have "total_spent (scripted recovering_script) (request_of (plain_call ''/x'') sample_client)
      (length (sent sample_client)) 2 = 25"
    by (simp add: total_spent_def recovering_script_def spent_def eval_nat_numeral)
  ultimately show ?thesis
    using request_recovers [of "scripted recovering_script" "plain_call ''/x''" sample_client 2
        "scripted recovering_script 2 (request_of (plain_call ''/x'') sample_client)"
        "reply 200 ''OK'' None (Some JNull)" JNull]
    by (auto simp: recovering_script_def is_ok_def split: prod.splits)
qed

lemma request_gives_up_witness:
  "fst (request (scripted failing_script) (plain_call ''/x'') sample_client) =
     Inl (ApiErr 500 ''Oops'' (Some ''Oops'') NoRetryAfter)"
proof -
  have "all_transient (scripted failing_script) (request_of (plain_call ''/x'') sample_client)
      (length (sent sample_client)) (Suc 2)"
    by (auto simp: all_transient_def failing_script_def less_Suc_eq eval_nat_numeral)
  moreover have "total_spent (scripted failing_script) (request_of (plain_call ''/x'') sample_client)
      (length (sent sample_client)) (Suc 2) = 40"
    by (simp add: total_spent_def failing_script_def spent_def eval_nat_numeral)
  ultimately show ?thesis
    using request_gives_up [of 2 "plain_call ''/x''" sample_client "scripted failing_script"]
    by (auto simp: failing_script_def transient_error_def split: prod.splits)
qed

lemma rate_limit_outlives_timeout_witness:
  "clock (snd (request (scripted [Reply (reply 429 ''Slow'' (Some ''3600'') None)])
     (plain_call ''/x'') sample_client)) = 3600015"
proof -
  have "parse_int ''3600'' = Some 3600" by code_simp
  then show ?thesis
    using rate_limit_outlives_timeout
      [of _ "scripted [Reply (reply 429 ''Slow'' (Some ''3600'') None)]" sample_client "plain_call ''/x''", OF refl]
    by (auto simp: retry_after_ms_def retry_after_sec_def truthy_string_def spent_def split: prod.splits)
qed

lemma cancel_reported_as_timeout_witness:
  "fst (request (scripted [NoReply ''reset'']) ((plain_call ''/x'')\<lparr>call_abort := Some 4\<rparr>) sample_client) =
     Inl timed_out"
  using cancel_reported_as_timeout
    [of _ "scripted [NoReply ''reset'']" sample_client "(plain_call ''/x'')\<lparr>call_abort := Some 4\<rparr>" 4, OF refl]
  by simp

lemma aborted_signal_ignored_witness:
  "request (scripted recovering_script) ((plain_call ''/x'')\<lparr>call_abort := Some 0\<rparr>) sample_client =
   request (scripted recovering_script) (plain_call ''/x'') sample_client"
  using aborted_signal_ignored [of "(plain_call ''/x'')\<lparr>call_abort := Some 0\<rparr>" 0 sample_client]
  by (simp add: plain_call_def)

lemma raw_fetch_no_network_retry_witness:
  "fst (raw_fetch (scripted [NoReply ''reset'']) (plain_call ''/x'') sample_client) = Inl (NetworkErr ''reset'')"
  using raw_fetch_no_network_retry
    [of _ "scripted [NoReply ''reset'']" sample_client "plain_call ''/x''" "''reset''", OF refl]
  by simp

end
