(* ===== verification/Sse_Stream.thy ===== *)
theory Sse_Stream
  imports Http_Client
begin

section \<open>Server-sent events\<close>

text \<open>
  \<^verbatim>\<open>packages/api/client.ts\<close>, \<open>pullOllamaModel\<close> (lines 907-984) and \<open>streamMessage\<close>
  (lines 1220-1366): the two methods that read a response as it arrives.  The response to the
  first fetch and the results of the reads are arguments, in the order they happen; a read gives
  the text that the incremental UTF-8 decoder makes of the bytes.  What a method does is the
  list of the callbacks it makes.  \<open>parse\<close> is \<open>JSON.parse\<close>, none where it throws; nothing here
  depends on which strings it accepts.  The callbacks do not throw.
\<close>

subsection \<open>Members of a parsed value\<close>

text \<open>\<open>v.k\<close>, none for \<open>undefined\<close>; reading a member of \<open>null\<close> throws and is kept apart.\<close>

fun member :: "json \<Rightarrow> string \<Rightarrow> json option" where
  "member (JObj kvs) k = map_of kvs k"
| "member v k = None"

fun truthy :: "json option \<Rightarrow> bool" where
  "truthy None \<longleftrightarrow> False"
| "truthy (Some JNull) \<longleftrightarrow> False"
| "truthy (Some (JBool b)) \<longleftrightarrow> b"
| "truthy (Some (JNum x)) \<longleftrightarrow> x \<noteq> 0"
| "truthy (Some (JStr s)) \<longleftrightarrow> s \<noteq> []"
| "truthy (Some v) \<longleftrightarrow> True"

text \<open>\<open>x ?? d\<close>, where \<open>null\<close> counts as absent too.\<close>

definition json_nullish :: "json option \<Rightarrow> json \<Rightarrow> json" where
  "json_nullish x d = (case x of None \<Rightarrow> d | Some JNull \<Rightarrow> d | Some v \<Rightarrow> v)"

subsection \<open>Reading lines\<close>

datatype read_result =
    Chunk string
  | EndOfStream
  | ReadError "string option"
  | ReadAborted

datatype read_end =
    StillOpen
  | Finished
  | Stopped
  | Broken "string option"
  | Cancelled

text \<open>The lines of a chunk, each to a handler that says what it calls and whether to stop.\<close>

fun run_lines :: "(string \<Rightarrow> 'c list \<times> bool) \<Rightarrow> string list \<Rightarrow> 'c list \<times> bool" where
  "run_lines on_line [] = ([], False)"
| "run_lines on_line (l # ls) =
     (let (cs, stop) = on_line l
      in if stop then (cs, True)
         else (let (ds, stop') = run_lines on_line ls in (cs @ ds, stop')))"

definition feed :: "string \<Rightarrow> string \<Rightarrow> string list \<times> string" where
  "feed buffer chunk =
     (let lines = split_on newline (buffer @ chunk) in (butlast lines, last lines))"

text \<open>The reading loop: the callbacks, how it ends, and whether a chunk has arrived.\<close>

fun read_loop ::
  "(string \<Rightarrow> 'c list \<times> bool) \<Rightarrow> string \<Rightarrow> bool \<Rightarrow> read_result list \<Rightarrow> 'c list \<times> read_end \<times> bool" where
  "read_loop on_line buffer started [] = ([], StillOpen, started)"
| "read_loop on_line buffer started (EndOfStream # rs) = ([], Finished, started)"
| "read_loop on_line buffer started (ReadError m # rs) = ([], Broken m, started)"
| "read_loop on_line buffer started (ReadAborted # rs) = ([], Cancelled, started)"
| "read_loop on_line buffer started (Chunk chunk # rs) =
     (let (lines, buffer') = feed buffer chunk; (cs, stop) = run_lines on_line lines
      in if stop then (cs, Stopped, True)
         else (let (ds, e) = read_loop on_line buffer' True rs in (cs @ ds, e)))"

text \<open>The event of a line: lines without the prefix, and malformed ones, have none.\<close>

definition line_event :: "(string \<Rightarrow> json option) \<Rightarrow> string \<Rightarrow> json option" where
  "line_event parse line = (if starts_with line ''data: '' then parse (drop 6 line) else None)"

subsection \<open>\<open>pullOllamaModel\<close>\<close>

datatype pull_callback = OnProgress json | PullDone | PullError json

definition pull_event :: "json \<Rightarrow> pull_callback list \<times> bool" where
  "pull_event p =
     (if p = JNull then ([], False)
      else if member p ''status'' = Some (JStr ''error'')
      then ([PullError (json_nullish (member p ''message'') (JStr ''Pull failed''))], True)
      else if member p ''status'' = Some (JStr ''success'') then ([PullDone], True)
      else ([OnProgress p], False))"

definition pull_line :: "(string \<Rightarrow> json option) \<Rightarrow> string \<Rightarrow> pull_callback list \<times> bool" where
  "pull_line parse line =
     (case line_event parse line of None \<Rightarrow> ([], False) | Some v \<Rightarrow> pull_event v)"

text \<open>The response to the first fetch: status, status text, whether it has a body.\<close>

datatype stream_reply =
    StreamReply nat string bool
  | StreamError "string option"
  | StreamAborted

definition http_error :: "nat \<Rightarrow> string \<Rightarrow> json" where
  "http_error st text = JStr (''HTTP '' @ show_nat st @ '': '' @ text)"

definition stream_ok :: "nat \<Rightarrow> bool \<Rightarrow> bool" where
  "stream_ok st has_body \<longleftrightarrow> 200 \<le> st \<and> st \<le> 299 \<and> has_body"

definition pull_request :: "string \<Rightarrow> http \<Rightarrow> http_request" where
  "pull_request model s =
     \<lparr>req_url = base_url s @ ''/api/models/pull'', req_method = ''POST'',
      req_headers = with_token s [(''Content-Type'', ''application/json'')],
      req_body = Some (JsonBody (JObj [(''model_name'', JStr model)])), req_credentials = ''include''\<rparr>"

definition pull_ollama_model ::
  "(string \<Rightarrow> json option) \<Rightarrow> string \<Rightarrow> stream_reply \<Rightarrow> read_result list \<Rightarrow> http \<Rightarrow>
   pull_callback list \<times> http" where
  "pull_ollama_model parse model first reads s =
     (let s1 = s\<lparr>sent := sent s @ [pull_request model s]\<rparr>
      in case first of
           StreamAborted \<Rightarrow> ([], s1)
         | StreamError m \<Rightarrow> ([PullError (JStr (nullish m ''Pull connection failed''))], s1)
         | StreamReply st text has_body \<Rightarrow>
             if \<not> stream_ok st has_body then
               (case pathname s1 of
                  Some page \<Rightarrow>
                    if st = 401 \<and> \<not> starts_with page ''/login''
                    then ([], s1\<lparr>token := None, hrefs := hrefs s1 @ [''/login'']\<rparr>)
                    else ([PullError (http_error st text)], s1)
                | None \<Rightarrow> ([PullError (http_error st text)], s1))
             else
               (let (cs, e, started) = read_loop (pull_line parse) [] False reads
                in (case e of
                      Finished \<Rightarrow> cs @ [PullDone]
                    | Broken m \<Rightarrow> cs @ [PullError (JStr (nullish m ''Pull connection failed''))]
                    | _ \<Rightarrow> cs, s1)))"

subsection \<open>\<open>streamMessage\<close>\<close>

datatype stream_callback =
    OnToken "json option"
  | OnDone "(string \<times> json option) list"
  | OnError "json option"
  | OnToolCall json
  | OnToolResult json
  | OnToolApprovalRequired json

text \<open>Which of the three optional callbacks the caller passes.\<close>

record tool_handlers =
  has_tool_call :: bool
  has_tool_result :: bool
  has_tool_approval :: bool

definition done_fields :: "string list" where
  "done_fields =
     [''message_id'', ''model'', ''created_at'', ''token_count'', ''max_tokens'', ''usage_ratio'', ''chat_title'']"

definition stream_event :: "tool_handlers \<Rightarrow> json \<Rightarrow> stream_callback list" where
  "stream_event h event =
     (let ty = member event ''type''
      in if ty = Some (JStr ''token'') then [OnToken (member event ''content'')]
         else if ty = Some (JStr ''done'') then [OnDone (map (\<lambda>k. (k, member event k)) done_fields)]
         else if ty = Some (JStr ''error'') then [OnError (member event ''message'')]
         else if ty = Some (JStr ''tool_call'') \<and> has_tool_call h then [OnToolCall event]
         else if ty = Some (JStr ''tool_result'') \<and> has_tool_result h then [OnToolResult event]
         else if ty = Some (JStr ''tool_approval_required'') \<and> has_tool_approval h
         then [OnToolApprovalRequired event]
         else [])"

definition stream_line :: "(string \<Rightarrow> json option) \<Rightarrow> tool_handlers \<Rightarrow> string \<Rightarrow> stream_callback list \<times> bool" where
  "stream_line parse h line =
     (case line_event parse line of None \<Rightarrow> ([], False) | Some v \<Rightarrow> (stream_event h v, False))"

definition message_body :: "string \<Rightarrow> string option \<Rightarrow> string option \<Rightarrow> payload" where
  "message_body content model mode =
     JsonBody (js_object
       [(''content'', Some (JStr content)),
        (''model'', if truthy_string model then map_option JStr model else None),
        (''chat_mode'', if truthy_string mode then map_option JStr mode else None)])"

definition messages_path :: "string \<Rightarrow> string" where
  "messages_path chat = ''/api/context/conversations/'' @ chat @ ''/messages''"

definition stream_request :: "string \<Rightarrow> payload \<Rightarrow> http \<Rightarrow> http_request" where
  "stream_request chat body s =
     \<lparr>req_url = base_url s @ messages_path chat @ ''/stream'', req_method = ''POST'',
      req_headers = with_token s [(''Content-Type'', ''application/json''), (''Accept'', ''text/event-stream'')],
      req_body = Some body, req_credentials = ''include''\<rparr>"

text \<open>\<open>tryNonStreamingFallback\<close>: none when it returns false, else the callbacks it has made.\<close>

definition fallback_call :: "string \<Rightarrow> payload \<Rightarrow> call" where
  "fallback_call chat body =
     (plain_call (messages_path chat))
       \<lparr>call_method := Some ''POST'', call_body := Some body, call_retries := Some 0\<rparr>"

definition fallback_callbacks :: "json \<Rightarrow> stream_callback list" where
  "fallback_callbacks v =
     (if truthy (member v ''content'') then [OnToken (member v ''content'')] else []) @
     [OnDone
       [(''message_id'', if truthy (member v ''assistant_message_id'')
            then member v ''assistant_message_id'' else member v ''message_id''),
        (''model'', member v ''model''), (''created_at'', member v ''created_at'')]]"

definition try_non_streaming_fallback ::
  "server \<Rightarrow> string \<Rightarrow> payload \<Rightarrow> bool \<Rightarrow> http \<Rightarrow> stream_callback list option \<times> http" where
  "try_non_streaming_fallback server chat body stream_started s =
     (if stream_started then (None, s)
      else
        (case request server (fallback_call chat body) s of
           (Inr (Some v), s1) \<Rightarrow>
             (if v = JNull then None else Some (fallback_callbacks v), s1)
         | (_, s1) \<Rightarrow> (None, s1)))"

definition connection_error :: "string option \<Rightarrow> stream_callback" where
  "connection_error m = OnError (Some (JStr (nullish m ''Stream connection failed'')))"

definition stream_message ::
  "(string \<Rightarrow> json option) \<Rightarrow> server \<Rightarrow> tool_handlers \<Rightarrow> string \<Rightarrow> payload \<Rightarrow> stream_reply \<Rightarrow>
   read_result list \<Rightarrow> http \<Rightarrow> stream_callback list \<times> http" where
  "stream_message parse server h chat body first reads s =
     (let s1 = s\<lparr>sent := sent s @ [stream_request chat body s]\<rparr>;
          catch = (\<lambda>m started s.
            (case try_non_streaming_fallback server chat body started s of
               (Some cs, s') \<Rightarrow> (cs, s')
             | (None, s') \<Rightarrow> ([connection_error m], s')))
      in case first of
           StreamAborted \<Rightarrow> ([], s1)
         | StreamError m \<Rightarrow> catch m False s1
         | StreamReply st text has_body \<Rightarrow>
             if \<not> stream_ok st has_body then
               if st = 401 \<and> pathname s1 \<noteq> None
               then ([], s1\<lparr>token := None, hrefs := hrefs s1 @ [''/login'']\<rparr>)
               else if 500 \<le> st then
                 (case try_non_streaming_fallback server chat body False s1 of
                    (Some cs, s2) \<Rightarrow> (cs, s2)
                  | (None, s2) \<Rightarrow> ([OnError (Some (http_error st text))], s2))
               else ([OnError (Some (http_error st text))], s1)
             else
               (let (cs, e, started) = read_loop (stream_line parse h) [] False reads
                in case e of
                     Broken m \<Rightarrow> (let (ds, s2) = catch m started s1 in (cs @ ds, s2))
                   | _ \<Rightarrow> (cs, s1)))"

subsection \<open>Chunk boundaries\<close>

lemma run_lines_append:
  "run_lines f (xs @ ys) =
     (let (cs, stop) = run_lines f xs
      in if stop then (cs, True) else (let (ds, stop') = run_lines f ys in (cs @ ds, stop')))"
  by (induction xs) (auto simp: Let_def split: prod.splits)

text \<open>The lines of a text after what is left in the buffer, and what is left after it.\<close>

lemma feed_feed:
  assumes "feed buffer c = (ls, buffer')" and "feed buffer' d = (ls', buffer'')"
  shows "feed buffer (c @ d) = (ls @ ls', buffer'')"
proof -
  have "last (split_on newline (buffer @ c)) = buffer'" using assms(1) by (simp add: feed_def Let_def)
  moreover have "split_on newline (last (split_on newline (buffer @ c)) @ d) =
      (last (split_on newline (buffer @ c)) @ hd (split_on newline d)) # tl (split_on newline d)"
  proof -
    have "last (split_on newline (buffer @ c)) \<in> set (split_on newline (buffer @ c))"
      by (rule last_in_set) simp
    then have "newline \<notin> set (last (split_on newline (buffer @ c)))" by (rule split_on_no_sep_parts)
    then have "split_on newline (last (split_on newline (buffer @ c))) = [last (split_on newline (buffer @ c))]"
      by (rule split_on_no_sep)
    then show ?thesis by (simp add: split_on_append [of _ "last _"])
  qed
  ultimately have "split_on newline (buffer @ c @ d) =
      butlast (split_on newline (buffer @ c)) @ split_on newline (buffer' @ d)"
    using split_on_append [of newline "buffer @ c" d] by simp
  then show ?thesis using assms by (simp add: feed_def Let_def butlast_append)
qed

lemma feed_newline_free: "newline \<notin> set b \<Longrightarrow> feed b [] = ([], b)"
  by (simp add: feed_def split_on_no_sep)

lemma feed_rest: "feed b c = (ls, b') \<Longrightarrow> newline \<notin> set b'"
  using split_on_no_sep_parts [OF last_in_set [OF split_on_not_Nil], of newline "b @ c"]
  by (auto simp: feed_def Let_def)

text \<open>What a stream of chunks calls depends on the text alone.\<close>

lemma read_loop_chunks:
  assumes "newline \<notin> set b"
  shows "read_loop f b started (map Chunk cs @ rs) =
     (let (lines, b') = feed b (concat cs); (calls, stop) = run_lines f lines
      in if stop then (calls, Stopped, True)
         else (let (calls', e) = read_loop f b' (started \<or> cs \<noteq> []) rs in (calls @ calls', e)))"
  using assms
proof (induction cs arbitrary: b started)
  case Nil
  then show ?case by (simp add: feed_newline_free)
next
  case (Cons c cs)
  obtain ls b1 where f1: "feed b c = (ls, b1)" by (cases "feed b c")
  obtain ls' b2 where f2: "feed b1 (concat cs) = (ls', b2)" by (cases "feed b1 (concat cs)")
  have "feed b (c @ concat cs) = (ls @ ls', b2)" by (rule feed_feed [OF f1 f2])
  then show ?case
    using Cons.IH [OF feed_rest [OF f1], of True] f1 f2
    by (auto simp: run_lines_append Let_def split: prod.splits)
qed

lemma read_loop_text:
  assumes "concat cs = concat ds" and "cs = [] \<longleftrightarrow> ds = []"
  shows "read_loop f [] False (map Chunk cs @ rs) = read_loop f [] False (map Chunk ds @ rs)"
proof -
  have nl: "newline \<notin> set []" by simp
  show ?thesis unfolding read_loop_chunks [OF nl] assms by (rule refl)
qed

text \<open>A server that frames each value as one \<open>data:\<close> line and a blank line.\<close>

definition data_line :: "string \<Rightarrow> string" where
  "data_line j = ''data: '' @ j"

definition frame :: "string \<Rightarrow> string" where
  "frame j = data_line j @ [newline, newline]"

lemma feed_frames:
  assumes "\<forall>j \<in> set js. newline \<notin> set j"
  shows "feed [] (concat (map frame js)) = (concat (map (\<lambda>j. [data_line j, []]) js), [])"
  using assms
proof (induction js)
  case (Cons j js)
  have "newline \<notin> set (data_line j)" using Cons.prems by (simp add: data_line_def)
  then have "split_on newline (frame j @ rest) = data_line j # [] # split_on newline rest" for rest
    using split_on_Cons_sep [of newline "data_line j" "newline # rest"] split_on_no_sep
    by (simp add: frame_def)
  then show ?case using Cons by (simp add: feed_def Let_def)
qed (simp add: feed_def)

lemma run_frames:
  assumes "\<forall>j \<in> set js. f (data_line j) = (g j, False)" and "f [] = ([], False)"
  shows "run_lines f (concat (map (\<lambda>j. [data_line j, []]) js)) = (concat (map g js), False)"
  using assms by (induction js) simp_all

lemma read_frames:
  assumes "\<forall>j \<in> set js. newline \<notin> set j" and "\<forall>j \<in> set js. f (data_line j) = (g j, False)"
    and "f [] = ([], False)" and "concat cs = concat (map frame js)"
  shows "read_loop f [] False (map Chunk cs @ rs) =
    (let (calls, e) = read_loop f [] (cs \<noteq> []) rs in (concat (map g js) @ calls, e))"
proof -
  have nl: "newline \<notin> set []" by simp
  show ?thesis
    unfolding read_loop_chunks [OF nl] assms(4) feed_frames [OF assms(1)]
    by (simp add: run_frames [OF assms(2,3)])
qed

lemma line_event_data [simp]: "line_event parse (data_line j) = parse j"
  by (simp add: line_event_def starts_with_def data_line_def)

lemma line_event_blank [simp]: "line_event parse [] = None"
  by (simp add: line_event_def starts_with_def)

subsection \<open>Properties\<close>

text \<open>C5: how the network cuts a stream into chunks does not matter: two streams with the same text make
  the same callbacks and leave the client in the same state, for both streaming methods.\<close>

theorem stream_chunking_irrelevant:
  assumes "concat cs = concat ds" and "cs = [] \<longleftrightarrow> ds = []"
  shows "stream_message parse server h chat body first (map Chunk cs @ rs) s =
      stream_message parse server h chat body first (map Chunk ds @ rs) s \<and>
    pull_ollama_model parse model first (map Chunk cs @ rs) s =
      pull_ollama_model parse model first (map Chunk ds @ rs) s"
  unfolding stream_message_def pull_ollama_model_def read_loop_text [OF assms] by simp

text \<open>When the server frames its events as \<open>data:\<close> lines with a blank line between and then
  closes the stream, exactly the callbacks of those events are made, in order, wherever the chunks end.
  In particular, when none of the events is a \<open>done\<close> or an \<open>error\<close>, the caller hears
  neither \<open>onDone\<close> nor \<open>onError\<close>.\<close>

theorem stream_events_delivered:
  assumes "\<forall>j \<in> set js. newline \<notin> set j \<and> parse j = Some (value j)"
    and "concat cs = concat (map frame js)" and "200 \<le> st" and "st \<le> 299"
  shows "fst (stream_message parse server h chat body (StreamReply st text True) (map Chunk cs @ [EndOfStream]) s) =
      concat (map (\<lambda>j. stream_event h (value j)) js) \<and>
    ((\<forall>j \<in> set js. member (value j) ''type'' \<notin> {Some (JStr ''done''), Some (JStr ''error'')}) \<longrightarrow>
      (\<forall>c \<in> set (concat (map (\<lambda>j. stream_event h (value j)) js)). (\<forall>d. c \<noteq> OnDone d) \<and> (\<forall>m. c \<noteq> OnError m)))"
proof
  have "read_loop (stream_line parse h) [] False (map Chunk cs @ [EndOfStream]) =
      (concat (map (\<lambda>j. stream_event h (value j)) js), Finished, cs \<noteq> [])"
    using read_frames [of js "stream_line parse h" "\<lambda>j. stream_event h (value j)" cs "[EndOfStream]"] assms(1,2)
    by (simp add: stream_line_def)
  then show "fst (stream_message parse server h chat body (StreamReply st text True)
      (map Chunk cs @ [EndOfStream]) s) = concat (map (\<lambda>j. stream_event h (value j)) js)"
    using assms(3,4) by (simp add: stream_message_def stream_ok_def)
qed (auto simp: stream_event_def Let_def split: if_splits)

fun is_terminal :: "pull_callback \<Rightarrow> bool" where
  "is_terminal (OnProgress p) \<longleftrightarrow> False"
| "is_terminal _ \<longleftrightarrow> True"

lemma run_pull_lines:
  "run_lines (pull_line parse) ls = (cs, stop) \<Longrightarrow>
   (if stop then \<exists>ps t. cs = ps @ [t] \<and> is_terminal t \<and> (\<forall>p \<in> set ps. \<not> is_terminal p)
    else \<forall>p \<in> set cs. \<not> is_terminal p)"
proof (induction ls arbitrary: cs stop)
  case (Cons l ls)
  obtain as st where l: "pull_line parse l = (as, st)" by (cases "pull_line parse l")
  obtain bs st' where ls: "run_lines (pull_line parse) ls = (bs, st')" by (cases "run_lines (pull_line parse) ls")
  have "(st \<and> (\<exists>t. as = [t] \<and> is_terminal t)) \<or> (\<not> st \<and> (\<forall>p \<in> set as. \<not> is_terminal p))"
    using l by (auto simp: pull_line_def pull_event_def split: option.splits if_splits)
  then show ?case
  proof
    assume "st \<and> (\<exists>t. as = [t] \<and> is_terminal t)"
    then show ?thesis using Cons.prems l by auto
  next
    assume a: "\<not> st \<and> (\<forall>p \<in> set as. \<not> is_terminal p)"
    then have "cs = as @ bs" "stop = st'" using Cons.prems l ls by auto
    then show ?thesis using Cons.IH [OF ls] a by (auto simp: append_assoc [symmetric] simp del: append_assoc)
  qed
qed simp

lemma read_pull:
  "read_loop (pull_line parse) b started rs = (cs, e, st) \<Longrightarrow>
   (if e = Stopped then \<exists>ps t. cs = ps @ [t] \<and> is_terminal t \<and> (\<forall>p \<in> set ps. \<not> is_terminal p)
    else \<forall>p \<in> set cs. \<not> is_terminal p)"
proof (induction "pull_line parse" b started rs arbitrary: cs e st rule: read_loop.induct)
  case (5 b started chunk rs)
  obtain ls b' where f: "feed b chunk = (ls, b')" by (cases "feed b chunk")
  obtain as stop where r: "run_lines (pull_line parse) ls = (as, stop)" by (cases "run_lines (pull_line parse) ls")
  show ?case
  proof (cases stop)
    case True
    then show ?thesis using "5.prems" f r run_pull_lines [OF r] by auto
  next
    case False
    obtain bs e' st' where l: "read_loop (pull_line parse) b' True rs = (bs, e', st')"
      by (cases "read_loop (pull_line parse) b' True rs")
    then have "cs = as @ bs" "e = e'" using "5.prems" f r False by auto
    moreover have "\<forall>p \<in> set as. \<not> is_terminal p" using run_pull_lines [OF r] False by simp
    ultimately show ?thesis
      using "5.hyps" [OF f [symmetric] refl r [symmetric] refl False l]
      by (auto simp: append_assoc [symmetric] simp del: append_assoc)
  qed
qed auto

text \<open>A model pull reports at most one outcome, and nothing after it: every callback but the
  last is a progress report.  A pull whose stream ends, properly or by an error, reports exactly one.\<close>

theorem pull_reports_one_outcome:
  "let cs = fst (pull_ollama_model parse model first reads s) in
     (\<forall>c \<in> set (butlast cs). \<not> is_terminal c) \<and>
     (first = StreamReply 200 text True \<longrightarrow> fst (snd (read_loop (pull_line parse) [] False reads)) \<notin> {StillOpen, Cancelled} \<longrightarrow>
       cs \<noteq> [] \<and> is_terminal (last cs))"
proof -
  obtain cs e st where r: "read_loop (pull_line parse) [] False reads = (cs, e, st)"
    by (cases "read_loop (pull_line parse) [] False reads")
  have "(\<forall>p \<in> set (butlast cs). \<not> is_terminal p) \<and> (e \<noteq> Stopped \<longrightarrow> (\<forall>p \<in> set cs. \<not> is_terminal p)) \<and>
      (e = Stopped \<longrightarrow> cs \<noteq> [] \<and> is_terminal (last cs))"
    using read_pull [OF r] by (auto split: if_splits dest: in_set_butlastD)
  then show ?thesis
    using r by (cases e; cases first) (auto simp: pull_ollama_model_def stream_ok_def Let_def split: option.split)
qed

lemma read_loop_started: "read_loop f b True rs = (cs, e, st) \<Longrightarrow> st"
  by (induction f b True rs arbitrary: cs e st rule: read_loop.induct)
    (auto simp: Let_def split: prod.splits if_splits)

lemma broken_before_first_chunk:
  "read_loop f b False rs = (cs, Broken m, False) \<Longrightarrow> cs = [] \<and> (\<exists>rs'. rs = ReadError m # rs')"
proof (cases rs)
  case (Cons r rs')
  assume "read_loop f b False rs = (cs, Broken m, False)"
  then show ?thesis
    using Cons read_loop_started by (cases r) (fastforce simp: Let_def split: prod.splits if_splits)+
qed simp

lemma fallback_sends:
  assumes "try_non_streaming_fallback server chat body started s = (r, s')"
  shows "\<exists>n \<le> (if started then 0 else 1). sent s' = sent s @ replicate n (request_of (fallback_call chat body) s)"
proof (cases started)
  case True
  then show ?thesis using assms by (simp add: try_non_streaming_fallback_def)
next
  case False
  let ?c = "fallback_call chat body"
  have "\<exists>n \<le> 1. progress (request_of ?c s) n s (snd (request server ?c s))"
    using json_transport.send_snd [of ?c s server] by (simp add: fallback_call_def)
  moreover have "s' = snd (request server ?c s)"
    using assms False
    by (auto simp: try_non_streaming_fallback_def split: prod.splits sum.splits option.splits if_splits)
  ultimately show ?thesis using False by (auto simp: progress_def)
qed

definition may_fall_back :: "stream_reply \<Rightarrow> read_result list \<Rightarrow> bool" where
  "may_fall_back first reads =
     (case first of
        StreamAborted \<Rightarrow> False
      | StreamError m \<Rightarrow> True
      | StreamReply st text has_body \<Rightarrow>
          if stream_ok st has_body then (\<exists>m rs. reads = ReadError m # rs) else 500 \<le> st)"

text \<open>a message is posted a second time, without streaming, at most once, and only when the first
  attempt brought no data: on a network error, a server error or a stream that breaks before its first
  chunk, never after a cancellation or once text has arrived.\<close>

theorem stream_fallback_at_most_once:
  "\<exists>n. sent (snd (stream_message parse server h chat body first reads s)) =
      sent s @ stream_request chat body s # replicate n (request_of (fallback_call chat body) s) \<and>
    n \<le> (if may_fall_back first reads then 1 else 0)"
proof -
  let ?s = "s\<lparr>sent := sent s @ [stream_request chat body s]\<rparr>"
  have same: "request_of c ?s = request_of c s" for c by (simp add: request_of_def with_token_def)
  have fb: "\<exists>n \<le> (if started then 0 else 1). sent s' =
      sent s @ stream_request chat body s # replicate n (request_of (fallback_call chat body) s)"
    if "try_non_streaming_fallback server chat body started ?s = (r, s')" for started r s'
    using fallback_sends [OF that] by (simp add: same)
  obtain r1 t1 where t1: "try_non_streaming_fallback server chat body False ?s = (r1, t1)"
    by (cases "try_non_streaming_fallback server chat body False ?s")
  obtain r2 t2 where t2: "try_non_streaming_fallback server chat body True ?s = (r2, t2)"
    by (cases "try_non_streaming_fallback server chat body True ?s")
  show ?thesis
  proof (cases first)
    case (StreamReply st msg has_body)
    show ?thesis
    proof (cases "stream_ok st has_body")
      case False
      then show ?thesis
        using StreamReply fb [OF t1]
        by (auto simp: stream_message_def may_fall_back_def t1 Let_def split: option.split)
    next
      case True
      obtain cs e started where r: "read_loop (stream_line parse h) [] False reads = (cs, e, started)"
        by (cases "read_loop (stream_line parse h) [] False reads")
      show ?thesis
      proof (cases "\<exists>m. e = Broken m \<and> \<not> started")
        case True
        then have "\<exists>m rs. reads = ReadError m # rs" using broken_before_first_chunk r by fastforce
        then show ?thesis
          using \<open>stream_ok st has_body\<close> StreamReply fb [OF t1] True
          by (auto simp: stream_message_def may_fall_back_def r t1 Let_def split: option.split)
      next
        case False
        then show ?thesis
          using \<open>stream_ok st has_body\<close> StreamReply fb [OF t2]
          by (cases e; cases started)
            (auto simp: stream_message_def r t2 Let_def split: option.split intro!: exI [of _ 0])
      qed
    qed
  next
    case (StreamError m)
    then show ?thesis
      using fb [OF t1] by (auto simp: stream_message_def may_fall_back_def t1 Let_def split: option.split)
  next
    case StreamAborted
    then show ?thesis by (simp add: stream_message_def may_fall_back_def)
  qed
qed

subsection \<open>Witnesses\<close>

definition sample_parse :: "string \<Rightarrow> json option" where
  "sample_parse j =
     (if j = ''t'' then Some (JObj [(''type'', JStr ''token''), (''content'', JStr ''Hi'')])
      else if j = ''d'' then Some (JObj [(''type'', JStr ''done''), (''message_id'', JStr ''m1'')])
      else None)"

definition all_handlers :: tool_handlers where
  "all_handlers = \<lparr>has_tool_call = True, has_tool_result = True, has_tool_approval = True\<rparr>"

definition never :: server where
  "never n q = \<lparr>latency = 10, outcome = NoReply ''down'', body_latency = 0\<rparr>"

lemma stream_chunking_irrelevant_witness:
  "stream_message sample_parse never all_handlers ''c1'' (message_body ''Hello'' None None)
     (StreamReply 200 ''OK'' True) [Chunk ''da'', Chunk (''ta: t'' @ [newline])] sample_client =
   stream_message sample_parse never all_handlers ''c1'' (message_body ''Hello'' None None)
     (StreamReply 200 ''OK'' True) [Chunk (''data: t'' @ [newline])] sample_client"
  using stream_chunking_irrelevant [of "[''da'', ''ta: t'' @ [newline]]" "[''data: t'' @ [newline]]" _ _ _ _ _ _ "[]"]
  by simp

lemma stream_events_delivered_witness:
  "fst (stream_message sample_parse never all_handlers ''c1'' (message_body ''Hello'' None None)
     (StreamReply 200 ''OK'' True) [Chunk (frame ''t''), EndOfStream] sample_client) =
   [OnToken (Some (JStr ''Hi''))]"
  using stream_events_delivered [of "[''t'']" sample_parse "\<lambda>j. the (sample_parse j)" "[frame ''t'']" 200 never
      all_handlers "''c1''" "message_body ''Hello'' None None" "''OK''" sample_client]
  by (simp add: sample_parse_def stream_event_def)

lemma pull_reports_one_outcome_witness:
  "is_terminal (last (fst (pull_ollama_model sample_parse ''llama3'' (StreamReply 200 ''OK'' True)
     [EndOfStream] sample_client)))"
  using pull_reports_one_outcome [of sample_parse "''llama3''" "StreamReply 200 ''OK'' True" "[EndOfStream]"
      sample_client "''OK''"]
  by (simp add: Let_def)

lemma stream_fallback_at_most_once_witness:
  "length (sent (snd (stream_message sample_parse never all_handlers ''c1'' (message_body ''Hello'' None None)
     StreamAborted [] sample_client))) = 1"
  using stream_fallback_at_most_once [of sample_parse never all_handlers "''c1''" "message_body ''Hello'' None None"
      StreamAborted "[]" sample_client]
  by (auto simp: may_fall_back_def)

end
