(* ===== verification/Conversation.thy ===== *)
theory Conversation
  imports Base
begin

section \<open>The conversation hook\<close>

text \<open>
  \<^verbatim>\<open>packages/api/hooks/use-conversation.ts\<close> and \<^verbatim>\<open>use-token-usage.ts\<close>: the state and the
  refs of \<open>useConversation\<close> are one record, each callback, timer and answer of the server is one
  definition from state to state, and \<open>conv_step\<close> runs one of them.  A \<open>setState\<close> updater is
  applied at once, and a ref that mirrors a state variable is that variable.  Clocks and ids that the
  code asks the host for are arguments; requests are what happens when they are answered.
  Streams are numbered in the order they are started.  An aborted stream makes no more callbacks, unless the client
  had fallen back to the plain request for its message, which the abort does not cancel.
\<close>

subsection \<open>Data\<close>

record message =
  msg_id :: string
  msg_role :: string
  msg_content :: string
  msg_model :: "string option"
  is_pinned :: bool
  is_excluded :: bool
  created_at :: "string option"

record conversation_data =
  conv_chat_id :: string
  conv_project_id :: string
  conv_title :: string
  messages :: "message list"
  compactions :: "json list"
  current_token_count :: nat

datatype tool_status = Calling | Executing | Success | Failure | PendingApproval | Denied | TimedOut

record tool_call =
  call_id :: string
  tool_name :: string
  tool_arguments :: json
  tool_status_of :: tool_status
  result_preview :: "string option"
  duration_ms :: "real option"

record tool_event =
  ev_call_id :: string
  ev_tool_name :: string
  ev_arguments :: json

record tool_result_event =
  res_call_id :: string
  res_success :: bool
  res_status :: "string option"
  res_preview :: "string option"
  res_duration :: "real option"

record token_usage =
  current_tokens :: real
  max_tokens :: real
  usage_ratio :: real

record done_data =
  done_message_id :: string
  done_model :: string
  done_created_at :: "string option"
  done_token_count :: "real option"
  done_max_tokens :: "real option"
  done_usage_ratio :: "real option"
  done_chat_title :: "string option"

record draft_options =
  draft_project_id :: "string option"
  has_on_chat_created :: bool

text \<open>What the callbacks of a stream have captured: the placeholder's id and the draft options.\<close>

record stream =
  temp_id :: string
  stream_opts :: "draft_options option"

record chat =
  chat_prop :: "string option"
  conversation :: "conversation_data option"
  loading :: bool
  processing :: bool
  progress_shown :: int
  error :: "string option"
  progress_timer :: "real option"
  finish_timer :: bool
  abort_ref :: "nat option"
  chat_id_ref :: "string option"
  creating_chat :: bool
  pending_tokens :: string
  raf_scheduled :: bool
  streaming_id :: "string option"
  streaming_content :: string
  active_tool_calls :: "tool_call list"
  pending_approval :: "tool_event option"
  usage :: "token_usage option"
  streams :: "stream list"
  aborted :: "nat list"
  fallbacks :: "nat list"
  refreshes :: "string list"
  notices :: "(string option \<times> string option) list"

definition new_chat :: "string option \<Rightarrow> chat" where
  "new_chat prop =
     \<lparr>chat_prop = prop, conversation = None, loading = False, processing = False, progress_shown = 0,
      error = None, progress_timer = None, finish_timer = False, abort_ref = None, chat_id_ref = prop,
      creating_chat = False, pending_tokens = [], raf_scheduled = False, streaming_id = None,
      streaming_content = [], active_tool_calls = [], pending_approval = None, usage = None,
      streams = [], aborted = [], fallbacks = [], refreshes = [], notices = []\<rparr>"

subsection \<open>Arrays of messages and tool calls\<close>

text \<open>\<open>findIndex\<close> and an assignment: the first element with the key is replaced.\<close>

fun update_first :: "('a \<Rightarrow> 'k) \<Rightarrow> 'k \<Rightarrow> ('a \<Rightarrow> 'a) \<Rightarrow> 'a list \<Rightarrow> 'a list" where
  "update_first key k f [] = []"
| "update_first key k f (x # xs) = (if key x = k then f x # xs else x # update_first key k f xs)"

definition edit_messages :: "(message list \<Rightarrow> message list) \<Rightarrow> chat \<Rightarrow> chat" where
  "edit_messages f s =
     s\<lparr>conversation := map_option (\<lambda>c. c\<lparr>messages := f (messages c)\<rparr>) (conversation s)\<rparr>"

subsection \<open>Progress\<close>

definition js_round :: "real \<Rightarrow> int" where
  "js_round x = \<lfloor>x + 1 / 2\<rfloor>"

definition clear_progress :: "chat \<Rightarrow> chat" where
  "clear_progress s = s\<lparr>progress_timer := None\<rparr>"

definition start_progress :: "chat \<Rightarrow> chat" where
  "start_progress s =
     (clear_progress s)\<lparr>progress_shown := 0, processing := True, progress_timer := Some 0\<rparr>"

definition progress_tick :: "chat \<Rightarrow> chat" where
  "progress_tick s =
     (case progress_timer s of
        None \<Rightarrow> s
      | Some current \<Rightarrow>
          (let remaining = 95 - current;
               step = max (1 / 2) (remaining * (8 / 100));
               current' = min 95 (current + step)
           in s\<lparr>progress_timer := Some current', progress_shown := js_round current'\<rparr>))"

definition finish_progress :: "chat \<Rightarrow> chat" where
  "finish_progress s = (clear_progress s)\<lparr>progress_shown := 100, finish_timer := True\<rparr>"

definition finish_timer_fires :: "chat \<Rightarrow> chat" where
  "finish_timer_fires s =
     (if finish_timer s then s\<lparr>processing := False, progress_shown := 0, finish_timer := False\<rparr> else s)"

subsection \<open>Loading a chat\<close>

definition begin_refresh :: "chat \<Rightarrow> chat" where
  "begin_refresh s =
     (if truthy_string (chat_prop s)
      then s\<lparr>loading := True, error := None, refreshes := refreshes s @ [the (chat_prop s)]\<rparr> else s)"

definition refresh_answered :: "nat \<Rightarrow> (string + conversation_data) \<Rightarrow> chat \<Rightarrow> chat" where
  "refresh_answered i answer s =
     (if i < length (refreshes s) then
        (let s1 = s\<lparr>refreshes := take i (refreshes s) @ drop (Suc i) (refreshes s), loading := False\<rparr>
         in case answer of
              Inl msg \<Rightarrow> s1\<lparr>error := Some msg\<rparr>
            | Inr c \<Rightarrow> s1\<lparr>conversation := Some c\<rparr>)
      else s)"

text \<open>The cleanup of the effect on \<open>chatId\<close>, and the change of the prop with its effects.\<close>

definition abort_current :: "chat \<Rightarrow> chat" where
  "abort_current s = (case abort_ref s of None \<Rightarrow> s | Some n \<Rightarrow> s\<lparr>aborted := n # aborted s\<rparr>)"

definition cleanup :: "chat \<Rightarrow> chat" where
  "cleanup s =
     (abort_current ((clear_progress s)
       \<lparr>processing := False, progress_shown := 0, finish_timer := False, raf_scheduled := False,
        pending_tokens := [], streaming_id := None\<rparr>))\<lparr>abort_ref := None\<rparr>"

definition change_chat :: "string option \<Rightarrow> chat \<Rightarrow> chat" where
  "change_chat prop s =
     (let s1 = (cleanup s)\<lparr>chat_prop := prop, chat_id_ref := prop\<rparr>
      in if truthy_string prop then begin_refresh s1 else s1\<lparr>conversation := None\<rparr>)"

definition cancel_stream :: "chat \<Rightarrow> chat" where
  "cancel_stream s =
     (if abort_ref s = None then s
      else (clear_progress ((abort_current s)
        \<lparr>abort_ref := None, raf_scheduled := False, pending_tokens := [], streaming_id := None\<rparr>))
        \<lparr>processing := False, progress_shown := 0\<rparr>)"

subsection \<open>Sending a message\<close>

definition plain_message :: "string \<Rightarrow> string \<Rightarrow> string \<Rightarrow> string \<Rightarrow> message" where
  "plain_message k role content stamp =
     \<lparr>msg_id = k, msg_role = role, msg_content = content, msg_model = None, is_pinned = False,
      is_excluded = False, created_at = Some stamp\<rparr>"

definition user_temp_id :: "nat \<Rightarrow> string" where
  "user_temp_id ms = ''temp-'' @ show_nat ms"

definition assistant_temp_id :: "nat \<Rightarrow> string" where
  "assistant_temp_id ms = ''temp-assistant-'' @ show_nat ms"

definition start_stream ::
  "draft_options option \<Rightarrow> string \<Rightarrow> string \<Rightarrow> nat \<Rightarrow> string \<Rightarrow> chat \<Rightarrow> chat" where
  "start_stream opts content role ms stamp s =
     (let s1 = (abort_current s)\<lparr>error := None\<rparr>;
          s2 = edit_messages (\<lambda>msgs. msgs @
            [plain_message (user_temp_id ms) role content stamp,
             plain_message (assistant_temp_id ms) ''assistant'' [] stamp]) s1;
          s3 = start_progress s2
      in s3\<lparr>streaming_id := Some (assistant_temp_id ms), streaming_content := [], pending_tokens := [],
            streams := streams s3 @ [\<lparr>temp_id = assistant_temp_id ms, stream_opts = opts\<rparr>],
            abort_ref := Some (length (streams s3))\<rparr>)"

datatype send_outcome = Refused | CreatingChat string | Sending

definition draft_project :: "draft_options option \<Rightarrow> string option" where
  "draft_project opts = (case opts of None \<Rightarrow> None | Some d \<Rightarrow> draft_project_id d)"

definition send_message ::
  "draft_options option \<Rightarrow> string \<Rightarrow> string \<Rightarrow> nat \<Rightarrow> string \<Rightarrow> chat \<Rightarrow> send_outcome \<times> chat" where
  "send_message opts content role ms stamp s =
     (if \<not> truthy_string (chat_id_ref s) \<and> truthy_string (draft_project opts) then
        (if creating_chat s then (Refused, s)
         else (CreatingChat (the (draft_project opts)), s\<lparr>creating_chat := True\<rparr>))
      else if \<not> truthy_string (chat_id_ref s) \<or> (opts = None \<and> conversation s = None) then (Refused, s)
      else (Sending, start_stream opts content role ms stamp s))"

text \<open>The two ways the creation of a chat ends, with the rest of \<open>sendMessage\<close>.\<close>

definition notify_created :: "draft_options option \<Rightarrow> string option \<Rightarrow> string option \<Rightarrow> chat \<Rightarrow> chat" where
  "notify_created opts k title s =
     (case opts of
        Some d \<Rightarrow> if has_on_chat_created d then s\<lparr>notices := notices s @ [(k, title)]\<rparr> else s
      | None \<Rightarrow> s)"

definition chat_created ::
  "draft_options option \<Rightarrow> string \<Rightarrow> string \<Rightarrow> string \<Rightarrow> string \<Rightarrow> nat \<Rightarrow> string \<Rightarrow> chat \<Rightarrow> chat" where
  "chat_created opts project k content role ms stamp s =
     (let s1 = s\<lparr>chat_id_ref := Some k,
            conversation := Some
              \<lparr>conv_chat_id = k, conv_project_id = project, conv_title = ''New Chat'', messages = [],
               compactions = [], current_token_count = 0\<rparr>\<rparr>;
          s2 = notify_created opts (Some k) None s1
      in if k = [] then s2 else start_stream opts content role ms stamp s2)"

definition chat_create_failed :: "string \<Rightarrow> chat \<Rightarrow> chat" where
  "chat_create_failed msg s = s\<lparr>creating_chat := False, error := Some msg\<rparr>"

subsection \<open>The callbacks of a stream\<close>

definition on_token :: "string \<Rightarrow> chat \<Rightarrow> chat" where
  "on_token t s = s\<lparr>pending_tokens := pending_tokens s @ t, raf_scheduled := True\<rparr>"

definition flush_tokens :: "chat \<Rightarrow> chat" where
  "flush_tokens s =
     (let s1 = s\<lparr>raf_scheduled := False\<rparr>
      in if pending_tokens s1 = [] then s1
         else
           (let full = streaming_content s1 @ pending_tokens s1;
                s2 = s1\<lparr>pending_tokens := [], streaming_content := full\<rparr>
            in case streaming_id s2 of
                 None \<Rightarrow> s2
               | Some k \<Rightarrow> edit_messages (update_first msg_id k (\<lambda>m. m\<lparr>msg_content := full\<rparr>)) s2))"

definition animation_frame :: "chat \<Rightarrow> chat" where
  "animation_frame s = (if raf_scheduled s then flush_tokens s else s)"

definition set_from_stream :: "done_data \<Rightarrow> chat \<Rightarrow> chat" where
  "set_from_stream d s =
     (case (done_token_count d, done_max_tokens d, done_usage_ratio d) of
        (Some c, Some m, Some r) \<Rightarrow>
          s\<lparr>usage := Some \<lparr>current_tokens = c, max_tokens = m, usage_ratio = r\<rparr>\<rparr>
      | _ \<Rightarrow> s)"

definition finalize_message :: "done_data \<Rightarrow> string \<Rightarrow> message \<Rightarrow> message" where
  "finalize_message d content m =
     m\<lparr>msg_id := done_message_id d, msg_content := content, msg_model := Some (done_model d),
       created_at := (case done_created_at d of None \<Rightarrow> created_at m | Some t \<Rightarrow> Some t)\<rparr>"

definition on_done :: "stream \<Rightarrow> done_data \<Rightarrow> chat \<Rightarrow> chat" where
  "on_done st d s =
     (let final = streaming_content s @ pending_tokens s;
          s1 = s\<lparr>raf_scheduled := False, streaming_content := final, pending_tokens := [],
                 streaming_id := None\<rparr>;
          s2 = edit_messages (update_first msg_id (temp_id st) (finalize_message d final)) s1;
          s3 = finish_progress (set_from_stream d s2);
          s4 = s3\<lparr>abort_ref := None, active_tool_calls := [], pending_approval := None\<rparr>
      in if truthy_string (done_chat_title d)
         then notify_created (stream_opts st) (chat_id_ref s4) (done_chat_title d) s4
         else s4)"

definition on_error :: "stream \<Rightarrow> string \<Rightarrow> chat \<Rightarrow> chat" where
  "on_error st msg s =
     (finish_progress ((edit_messages
        (filter (\<lambda>m. msg_id m \<noteq> temp_id st \<or> msg_content m \<noteq> [])) s)\<lparr>error := Some msg\<rparr>))
      \<lparr>abort_ref := None\<rparr>"

definition on_tool_call :: "tool_event \<Rightarrow> chat \<Rightarrow> chat" where
  "on_tool_call ev s =
     s\<lparr>active_tool_calls := active_tool_calls s @
       [\<lparr>call_id = ev_call_id ev, tool_name = ev_tool_name ev, tool_arguments = ev_arguments ev,
         tool_status_of = Calling, result_preview = None, duration_ms = None\<rparr>]\<rparr>"

definition edit_tool_call :: "string \<Rightarrow> (tool_call \<Rightarrow> tool_call) \<Rightarrow> chat \<Rightarrow> chat" where
  "edit_tool_call k f s = s\<lparr>active_tool_calls := map_where call_id k f (active_tool_calls s)\<rparr>"

definition valid_statuses :: "(string \<times> tool_status) list" where
  "valid_statuses =
     [(''calling'', Calling), (''executing'', Executing), (''success'', Success), (''error'', Failure),
      (''pending_approval'', PendingApproval), (''denied'', Denied), (''timed_out'', TimedOut)]"

definition resolved_status :: "tool_result_event \<Rightarrow> tool_status" where
  "resolved_status ev =
     (if res_success ev then Success
      else case res_status ev of
        None \<Rightarrow> Failure
      | Some st \<Rightarrow> nullish (map_of valid_statuses st) Failure)"

definition on_tool_result :: "tool_result_event \<Rightarrow> chat \<Rightarrow> chat" where
  "on_tool_result ev =
     edit_tool_call (res_call_id ev) (\<lambda>tc. tc\<lparr>tool_status_of := resolved_status ev,
       result_preview := res_preview ev, duration_ms := res_duration ev\<rparr>)"

definition on_tool_approval_required :: "tool_event \<Rightarrow> chat \<Rightarrow> chat" where
  "on_tool_approval_required ev s =
     edit_tool_call (ev_call_id ev) (\<lambda>tc. tc\<lparr>tool_status_of := PendingApproval\<rparr>)
       (s\<lparr>pending_approval := Some ev\<rparr>)"

subsection \<open>Approvals and messages\<close>

text \<open>\<open>approveToolCall\<close> and \<open>denyToolCall\<close> when the server has answered; \<open>ok\<close> is whether it took it.\<close>

definition approve_tool_call :: "string \<Rightarrow> bool \<Rightarrow> chat \<Rightarrow> chat" where
  "approve_tool_call k ok s =
     (if ok then edit_tool_call k (\<lambda>tc. tc\<lparr>tool_status_of := Executing\<rparr>) (s\<lparr>pending_approval := None\<rparr>)
      else s\<lparr>error := Some ''Failed to submit tool approval''\<rparr>)"

definition deny_tool_call :: "string \<Rightarrow> bool \<Rightarrow> chat \<Rightarrow> chat" where
  "deny_tool_call k ok s =
     (if ok then edit_tool_call k (\<lambda>tc. tc\<lparr>tool_status_of := Denied\<rparr>) (s\<lparr>pending_approval := None\<rparr>)
      else s\<lparr>error := Some ''Failed to submit tool denial''\<rparr>)"

text \<open>
  \<open>updateMessage\<close> and \<open>deleteMessage\<close>: whether a request is made, and what its answer does.
\<close>

definition begin_edit :: "chat \<Rightarrow> bool \<times> chat" where
  "begin_edit s = (if truthy_string (chat_id_ref s) then (True, s\<lparr>error := None\<rparr>) else (False, s))"

record message_update =
  upd_content :: string
  upd_is_pinned :: bool
  upd_is_excluded :: bool

definition update_answered :: "string \<Rightarrow> (string + message_update) \<Rightarrow> chat \<Rightarrow> chat" where
  "update_answered k answer s =
     (case answer of
        Inl msg \<Rightarrow> s\<lparr>error := Some msg\<rparr>
      | Inr u \<Rightarrow> edit_messages (map_where msg_id k (\<lambda>m. m\<lparr>msg_content := upd_content u,
          is_pinned := upd_is_pinned u, is_excluded := upd_is_excluded u\<rparr>)) s)"

definition delete_answered :: "string \<Rightarrow> string option \<Rightarrow> chat \<Rightarrow> chat" where
  "delete_answered k failure s =
     (case failure of
        Some msg \<Rightarrow> s\<lparr>error := Some msg\<rparr>
      | None \<Rightarrow> edit_messages (filter_out msg_id k) s)"

subsection \<open>Steps\<close>

datatype stream_event =
    Token string
  | StreamDone done_data
  | StreamFailed string
  | ToolCall tool_event
  | ToolResult tool_result_event
  | ToolApproval tool_event

fun stream_step :: "stream \<Rightarrow> stream_event \<Rightarrow> chat \<Rightarrow> chat" where
  "stream_step st (Token t) s = on_token t s"
| "stream_step st (StreamDone d) s = on_done st d s"
| "stream_step st (StreamFailed m) s = on_error st m s"
| "stream_step st (ToolCall e) s = on_tool_call e s"
| "stream_step st (ToolResult e) s = on_tool_result e s"
| "stream_step st (ToolApproval e) s = on_tool_approval_required e s"

datatype conv_event =
    FromStream nat stream_event
  | AnimationFrame
  | ProgressTick
  | FinishTimer
  | SendMessage "draft_options option" string string nat string
  | ChatCreated "draft_options option" string string string string nat string
  | ChatCreateFailed string
  | CancelStream
  | ChangeChat "string option"
  | Refresh
  | RefreshAnswered nat "string + conversation_data"
  | ApproveToolCall string bool
  | DenyToolCall string bool
  | BeginEdit
  | UpdateAnswered string "string + message_update"
  | DeleteAnswered string "string option"
  | FallsBack nat

text \<open>The client falls back when a stream fails before its first chunk; it does not after an abort.\<close>

definition falls_back :: "nat \<Rightarrow> chat \<Rightarrow> chat" where
  "falls_back n s = (if n < length (streams s) \<and> n \<notin> set (aborted s) then s\<lparr>fallbacks := n # fallbacks s\<rparr> else s)"

fun conv_step :: "conv_event \<Rightarrow> chat \<Rightarrow> chat" where
  "conv_step (FromStream n e) s =
     (if n < length (streams s) \<and> (n \<notin> set (aborted s) \<or> n \<in> set (fallbacks s)) then stream_step (streams s ! n) e s else s)"
| "conv_step AnimationFrame s = animation_frame s"
| "conv_step ProgressTick s = progress_tick s"
| "conv_step FinishTimer s = finish_timer_fires s"
| "conv_step (SendMessage opts content role ms stamp) s = snd (send_message opts content role ms stamp s)"
| "conv_step (ChatCreated opts project k content role ms stamp) s =
     chat_created opts project k content role ms stamp s"
| "conv_step (ChatCreateFailed msg) s = chat_create_failed msg s"
| "conv_step CancelStream s = cancel_stream s"
| "conv_step (ChangeChat prop) s = change_chat prop s"
| "conv_step Refresh s = begin_refresh s"
| "conv_step (RefreshAnswered i answer) s = refresh_answered i answer s"
| "conv_step (ApproveToolCall k ok) s = approve_tool_call k ok s"
| "conv_step (DenyToolCall k ok) s = deny_tool_call k ok s"
| "conv_step BeginEdit s = snd (begin_edit s)"
| "conv_step (UpdateAnswered k answer) s = update_answered k answer s"
| "conv_step (DeleteAnswered k failure) s = delete_answered k failure s"
| "conv_step (FallsBack n) s = falls_back n s"

subsection \<open>Messages and tool calls as keyed collections\<close>

interpretation message_store: keyed_collection
  "find_by msg_id" "map_where msg_id" "map msg_id" "keeps msg_id" "filter_out (msg_id :: message \<Rightarrow> string)"
  by (rule array_keyed_collection)

interpretation tool_call_store: keyed_collection
  "find_by call_id" "map_where call_id" "map call_id" "keeps call_id" "filter_out (call_id :: tool_call \<Rightarrow> string)"
  by (rule array_keyed_collection)


text \<open>The status of a tool call after its result: the call with that id has it, no other changes.\<close>

lemma tool_result_status:
  "find_by call_id j (active_tool_calls (on_tool_result ev s)) =
     (if j = res_call_id ev
      then map_option (\<lambda>tc. tc\<lparr>tool_status_of := resolved_status ev, result_preview := res_preview ev,
             duration_ms := res_duration ev\<rparr>) (find_by call_id j (active_tool_calls s))
      else find_by call_id j (active_tool_calls s))"
  by (simp add: on_tool_result_def edit_tool_call_def tool_call_store.get_upd keepsI)

subsection \<open>Stream numbers\<close>


lemmas chat_defs =
  edit_messages_def clear_progress_def start_progress_def progress_tick_def finish_progress_def
  finish_timer_fires_def begin_refresh_def refresh_answered_def abort_current_def cleanup_def
  change_chat_def cancel_stream_def start_stream_def send_message_def notify_created_def
  chat_created_def chat_create_failed_def on_token_def flush_tokens_def animation_frame_def
  set_from_stream_def on_done_def on_error_def on_tool_call_def edit_tool_call_def on_tool_result_def
  on_tool_approval_required_def approve_tool_call_def deny_tool_call_def begin_edit_def
  update_answered_def delete_answered_def falls_back_def






subsection \<open>A reply in progress\<close>













lemma temp_ids_differ: "user_temp_id ms \<noteq> assistant_temp_id ms'"
proof
  assume "user_temp_id ms = assistant_temp_id ms'"
  then have "CHR ''a'' \<in> set (show_nat ms)"
    by (auto simp: user_temp_id_def assistant_temp_id_def)
  then show False using show_nat_digits by fastforce
qed


lemma finish_fields [simp]:
  "conversation (finish_progress s) = conversation s" "conversation (set_from_stream d s) = conversation s"
  "conversation (notify_created opts k t s) = conversation s" "error (finish_progress s) = error s"
  by (simp_all add: finish_progress_def clear_progress_def set_from_stream_def notify_created_def
      split: option.split)

subsection \<open>Properties\<close>


text \<open>the timer that ends the progress display 400 ms after a reply is not cancelled when the next
  message is sent: when it fires, the hook reports that nothing is being processed although the new
  stream is running.\<close>

theorem finish_timer_hides_new_stream:
  assumes "finish_timer s" and "send_message opts content role ms stamp s = (Sending, s1)"
  shows "processing s1 \<and> abort_ref s1 = Some (length (streams s)) \<and>
    (let s2 = conv_step FinishTimer s1 in
       \<not> processing s2 \<and> progress_shown s2 = 0 \<and> abort_ref s2 = Some (length (streams s)))"
proof -
  have "s1 = start_stream opts content role ms stamp s"
    using assms(2) by (auto simp: send_message_def split: if_splits)
  then show ?thesis
    using assms(1) by (simp add: start_stream_def Let_def edit_messages_def start_progress_def
        clear_progress_def abort_current_def finish_timer_fires_def split: option.split)
qed

text \<open>When a stream fails before the next animation frame, the tokens received since the last one
  are lost together with an empty placeholder, also after the frame has run: no message of the
  conversation holds them.\<close>

theorem error_drops_unflushed_tokens:
  assumes "conversation s = Some c" and "assistant_temp_id ms \<notin> msg_id ` set (messages c)"
    and "send_message opts content role ms stamp s = (Sending, s1)"
    and "st = streams s1 ! length (streams s)"
  shows "conversation (animation_frame (on_error st msg (fold on_token ts s1))) =
    Some (c\<lparr>messages := messages c @ [plain_message (user_temp_id ms) role content stamp]\<rparr>)"
proof -
  let ?k = "assistant_temp_id ms" and ?u = "plain_message (user_temp_id ms) role content stamp"
  have s1: "s1 = start_stream opts content role ms stamp s"
    using assms(3) by (auto simp: send_message_def split: if_splits)
  have tok: "conversation (fold on_token ts x) = conversation x \<and> streaming_id (fold on_token ts x) = streaming_id x"
    for x by (induction ts arbitrary: x) (simp_all add: on_token_def)
  have conv: "conversation s1 = Some (c\<lparr>messages := messages c @ [?u, plain_message ?k ''assistant'' [] stamp]\<rparr>)"
    and sid: "streaming_id s1 = Some ?k" and st: "temp_id st = ?k"
    using assms(1,4) unfolding s1
    by (simp_all add: start_stream_def Let_def edit_messages_def start_progress_def clear_progress_def
        abort_current_def split: option.split)
  have keep: "filter (\<lambda>m. msg_id m \<noteq> ?k \<or> msg_content m \<noteq> []) (messages c) = messages c"
    using assms(2) by (intro filter_True) (metis image_eqI)
  let ?c = "c\<lparr>messages := messages c @ [?u]\<rparr>"
  let ?e = "on_error st msg (fold on_token ts s1)"
  have e: "conversation ?e = Some ?c" "streaming_id ?e = Some ?k"
    using tok [of s1] conv sid keep temp_ids_differ [of ms ms]
    by (simp_all add: on_error_def edit_messages_def st finish_progress_def clear_progress_def plain_message_def)
  have absent: "update_first msg_id ?k f (messages c @ [?u]) = messages c @ [?u]" for f
  proof -
    have "?k \<notin> msg_id ` set xs \<Longrightarrow> update_first msg_id ?k f xs = xs" for xs by (induction xs) auto
    then show ?thesis using assms(2) temp_ids_differ [of ms ms] by (simp add: plain_message_def)
  qed
  show ?thesis
    using e absent by (simp add: animation_frame_def flush_tokens_def Let_def edit_messages_def)
qed

lemma creating_chat_kept:
  "creating_chat s \<Longrightarrow> (\<And>msg. e \<noteq> ChatCreateFailed msg) \<Longrightarrow> creating_chat (conv_step e s)"
proof (cases e)
  case (FromStream n ev)
  assume "creating_chat s"
  then show ?thesis using FromStream by (cases ev) (auto simp: chat_defs Let_def split: option.split)
next
  case (ChatCreated opts project k content role ms stamp)
  assume "creating_chat s"
  then show ?thesis using ChatCreated
    by (auto simp: chat_created_def start_stream_def notify_created_def abort_current_def
        start_progress_def clear_progress_def edit_messages_def Let_def split: option.split)
next
  case (SendMessage opts content role ms stamp)
  assume "creating_chat s"
  then show ?thesis using SendMessage
    by (auto simp: send_message_def start_stream_def abort_current_def start_progress_def
        clear_progress_def edit_messages_def Let_def split: option.split)
qed (auto simp: chat_defs Let_def split: option.splits sum.splits)

text \<open>A draft can be turned into a chat only once in the life of the hook: after a creation has
  started, and whatever follows short of a failed creation (success and a return to the empty draft
  included), sending a message in a draft is refused.\<close>

theorem second_draft_refused:
  assumes "send_message opts content role ms stamp s = (CreatingChat p, s1)"
    and "\<forall>e \<in> set es. \<forall>msg. e \<noteq> ChatCreateFailed msg"
    and "s2 = change_chat None (fold conv_step es s1)"
    and "truthy_string (draft_project opts')"
  shows "send_message opts' content' role' ms' stamp' s2 = (Refused, s2)"
proof -
  have "creating_chat s1" using assms(1) by (auto simp: send_message_def split: if_splits)
  then have "creating_chat (fold conv_step es s1)"
    using assms(2)
  proof (induction es arbitrary: s1)
    case (Cons e es)
    then show ?case using creating_chat_kept [of s1 e] by simp
  qed simp
  then have "creating_chat s2 \<and> chat_id_ref s2 = None"
    by (simp add: assms(3) change_chat_def cleanup_def abort_current_def clear_progress_def truthy_string_def
        Let_def split: option.split)
  then show ?thesis using assms(4) by (simp add: send_message_def truthy_string_def)
qed

text \<open>An answer to the loading of the previous chat that arrives after a switch is shown: the hook
  then displays the conversation of a chat that is not the one selected.\<close>

theorem stale_answer_shown:
  assumes "refreshes s = []" and "truthy_string (Some a)" and "truthy_string (Some b)" and "a \<noteq> b"
    and "conv_chat_id c = a"
  shows "let s' = conv_step (RefreshAnswered 0 (Inr c)) (change_chat (Some b) (change_chat (Some a) s)) in
    chat_prop s' = Some b \<and> conversation s' = Some c \<and> refreshes s' = [b] \<and> \<not> loading s'"
  using assms
  by (simp add: change_chat_def cleanup_def abort_current_def clear_progress_def begin_refresh_def
      refresh_answered_def Let_def split: option.split)

subsection \<open>Witnesses\<close>

definition sample_conversation :: conversation_data where
  "sample_conversation =
     \<lparr>conv_chat_id = ''c1'', conv_project_id = ''p1'', conv_title = ''Chat'', messages = [],
      compactions = [], current_token_count = 0\<rparr>"

definition sample_chat :: chat where
  "sample_chat = conv_step (RefreshAnswered 0 (Inr sample_conversation)) (conv_step Refresh (new_chat (Some ''c1'')))"


lemma sample_chat_fields [simp]:
  "conversation sample_chat = Some sample_conversation" "streams sample_chat = []"
  "chat_id_ref sample_chat = Some ''c1''" "messages sample_conversation = []" "finish_timer sample_chat = False"
  by (simp_all add: sample_chat_def new_chat_def begin_refresh_def refresh_answered_def truthy_string_def
      sample_conversation_def)

lemma sample_send:
  "send_message opts content role ms stamp sample_chat = (Sending, start_stream opts content role ms stamp sample_chat)"
  by (simp add: send_message_def truthy_string_def)



text \<open>The plain request of a chat that was left is answered when the next chat waits for its reply: the old answer is
  shown as the beginning of the new one.\<close>

lemma late_fallback_written_into_next_reply:
  "let s = fold conv_step [SendMessage None ''Hi'' ''user'' 5 ''t'', FallsBack 0, ChangeChat (Some ''c2''),
       RefreshAnswered 0 (Inr (sample_conversation\<lparr>conv_chat_id := ''c2''\<rparr>)), SendMessage None ''Ho'' ''user'' 9 ''t'',
       FromStream 0 (Token ''old''), AnimationFrame] sample_chat
   in map_option (map msg_content \<circ> messages) (conversation s) = Some [''Ho'', ''old'']"
  using temp_ids_differ
  by (simp add: sample_chat_def new_chat_def sample_conversation_def chat_defs Let_def truthy_string_def plain_message_def)

lemma finish_timer_hides_new_stream_witness:
  "\<not> processing (conv_step FinishTimer (start_stream None ''Hi'' ''user'' 5 ''t'' (sample_chat\<lparr>finish_timer := True\<rparr>)))"
  using finish_timer_hides_new_stream [of "sample_chat\<lparr>finish_timer := True\<rparr>" None "''Hi''" "''user''" 5 "''t''"]
  by (simp add: send_message_def truthy_string_def Let_def)

lemma error_drops_unflushed_tokens_witness:
  "conversation (animation_frame (on_error (streams (start_stream None ''Hi'' ''user'' 5 ''t'' sample_chat) ! 0) ''lost''
     (fold on_token [''Hello''] (start_stream None ''Hi'' ''user'' 5 ''t'' sample_chat)))) =
   Some (sample_conversation\<lparr>messages := [plain_message (user_temp_id 5) ''user'' ''Hi'' ''t'']\<rparr>)"
  using error_drops_unflushed_tokens [OF sample_chat_fields(1) _ sample_send [of None "''Hi''" "''user''" 5 "''t''"] refl,
      of "''lost''" "[''Hello'']"]
  by simp

lemma second_draft_refused_witness:
  "let opts = Some \<lparr>draft_project_id = Some ''p1'', has_on_chat_created = True\<rparr>;
       s1 = snd (send_message opts ''Hi'' ''user'' 5 ''t'' (new_chat None));
       s2 = change_chat None (fold conv_step [ChatCreated opts ''p1'' ''c1'' ''Hi'' ''user'' 5 ''t''] s1)
   in fst (send_message opts ''Again'' ''user'' 9 ''t'' s2) = Refused"
proof -
  let ?o = "Some \<lparr>draft_project_id = Some ''p1'', has_on_chat_created = True\<rparr>"
  have "send_message ?o ''Hi'' ''user'' 5 ''t'' (new_chat None) =
      (CreatingChat ''p1'', (new_chat None)\<lparr>creating_chat := True\<rparr>)"
    by (simp add: send_message_def new_chat_def draft_project_def truthy_string_def)
  from second_draft_refused [OF this _ refl, of "[ChatCreated ?o ''p1'' ''c1'' ''Hi'' ''user'' 5 ''t'']" ?o] this
  show ?thesis by (simp add: draft_project_def truthy_string_def Let_def)
qed

lemma stale_answer_shown_witness:
  "conversation (conv_step (RefreshAnswered 0 (Inr sample_conversation))
     (change_chat (Some ''c2'') (change_chat (Some ''c1'') (new_chat None)))) = Some sample_conversation"
  using stale_answer_shown [of "new_chat None" "''c1''" "''c2''" sample_conversation]
  by (simp add: new_chat_def truthy_string_def sample_conversation_def Let_def)

end
