(* ===== verification/Web_Socket.thy ===== *)
theory Web_Socket
  imports Sse_Stream
begin

section \<open>The event socket\<close>

text \<open>
  \<^verbatim>\<open>packages/api/hooks/use-websocket.ts\<close>: the hook that keeps a WebSocket to the event bus open.
  The sockets it has made are a list of ready states, the refs are indices into it; a timer is its
  number and its delay.  The close event of a socket arrives some time after the socket was closed,
  and finds the hook in whatever state it is in by then.  The interface \<open>bounded_reconnect\<close> says what
  this hook and the terminal's share: a bounded number of attempts, then an end.
\<close>

subsection \<open>Bounded reconnection\<close>

text \<open>
  \<open>round\<close> is a refused connection: the current socket closes without having opened, and the timer
  that this starts, if any, fires.
\<close>

locale bounded_reconnect =
  fixes refused :: "'s \<Rightarrow> 's"
    and waiting :: "'s \<Rightarrow> bool"
    and attempts :: "'s \<Rightarrow> nat"
    and made :: "'s \<Rightarrow> nat"
    and given_up :: "'s \<Rightarrow> bool"
    and limit :: nat
  assumes retry: "waiting s \<Longrightarrow> attempts s < limit \<Longrightarrow>
      waiting (refused s) \<and> attempts (refused s) = Suc (attempts s) \<and> made (refused s) = Suc (made s)"
    and give_up: "waiting s \<Longrightarrow> limit \<le> attempts s \<Longrightarrow>
      given_up (refused s) \<and> made (refused s) = made s"
begin

lemma retries:
  "waiting s \<Longrightarrow> attempts s + k \<le> limit \<Longrightarrow>
   waiting ((refused ^^ k) s) \<and> attempts ((refused ^^ k) s) = attempts s + k \<and>
   made ((refused ^^ k) s) = made s + k"
  by (induction k) (simp_all add: retry)

text \<open>A server that refuses every connection is asked once more than there are attempts left.\<close>

lemma gives_up:
  assumes "waiting s" and "attempts s \<le> limit"
  shows "given_up ((refused ^^ Suc (limit - attempts s)) s) \<and>
    made ((refused ^^ Suc (limit - attempts s)) s) = made s + (limit - attempts s)"
  using retries [OF assms(1), of "limit - attempts s"] assms(2)
    give_up [of "(refused ^^ (limit - attempts s)) s"] by simp

lemma not_before:
  "waiting s \<Longrightarrow> k \<le> limit - attempts s \<Longrightarrow> attempts s \<le> limit \<Longrightarrow> waiting ((refused ^^ k) s)"
  using retries [of s k] by simp

end

subsection \<open>Tokens\<close>

text \<open>
  \<open>isJwtExpired\<close>; \<open>decode\<close> is \<open>JSON.parse(atob(s))\<close>, none where one of them throws.  \<open>exp\<close> is a
  number where it is there, as RFC 7519 has it.
\<close>

definition unurl :: "string \<Rightarrow> string" where
  "unurl = map (\<lambda>c. if c = CHR ''-'' then CHR ''+'' else if c = CHR ''_'' then CHR ''/'' else c)"

definition is_jwt_expired :: "(string \<Rightarrow> json option) \<Rightarrow> real \<Rightarrow> string \<Rightarrow> bool" where
  "is_jwt_expired decode now jwt =
     (let parts = split_on CHR ''.'' jwt
      in if length parts \<noteq> 3 then True
         else
           (case decode (unurl (parts ! 1)) of
              None \<Rightarrow> True
            | Some JNull \<Rightarrow> True
            | Some payload \<Rightarrow>
                if \<not> truthy (member payload ''exp'') then False
                else (case member payload ''exp'' of Some (JNum x) \<Rightarrow> x * 1000 \<le> now | _ \<Rightarrow> False)))"

subsection \<open>State\<close>

datatype ready_state = SocketConnecting | SocketOpen | SocketClosing | SocketClosed

datatype connection_status = Connecting | Connected | Disconnected | ConnectionError | Exhausted

datatype socket_notice = AuthTokenExpired | ReconnectExhausted

record ws_options =
  opt_token :: "string option"
  opt_base_url :: "string option"
  opt_interval :: nat
  opt_max_attempts :: nat

record ws_state =
  ws_status :: connection_status
  ws_ref :: "nat option"
  sockets :: "ready_state list"
  socket_urls :: "string list"
  reconnect_count :: nat
  timer_ref :: "nat option"
  timers :: "(nat \<times> nat) list"
  next_timer :: nat
  socket_notices :: "socket_notice list"
  sent_frames :: "(nat \<times> json) list"
  subscribers :: "(string \<times> nat list) list"
  last_message :: "json option"
  delivered :: "(nat \<times> json) list"

definition initial_ws :: ws_state where
  "initial_ws =
     \<lparr>ws_status = Disconnected, ws_ref = None, sockets = [], socket_urls = [], reconnect_count = 0,
      timer_ref = None, timers = [], next_timer = 0, socket_notices = [], sent_frames = [],
      subscribers = [], last_message = None, delivered = []\<rparr>"

text \<open>What the hook asks its surroundings: the time, the network, the page and the build.\<close>

record ws_env =
  env_decode :: "string \<Rightarrow> json option"
  env_now :: real
  env_online :: bool
  env_ws_url :: "string option"
  env_secure :: bool
  env_host :: string

definition expired :: "ws_env \<Rightarrow> string \<Rightarrow> bool" where
  "expired env = is_jwt_expired (env_decode env) (env_now env)"

definition get_ws_url :: "ws_options \<Rightarrow> ws_env \<Rightarrow> string" where
  "get_ws_url opts env =
     (let path = ''/api/ws/events?token='' @ nullish (opt_token opts) ''null''
      in if truthy_string (opt_base_url opts) then the (opt_base_url opts) @ path
         else if truthy_string (env_ws_url env) then the (env_ws_url env) @ path
         else (if env_secure env then ''wss:'' else ''ws:'') @ ''//'' @ env_host env @ path)"

subsection \<open>Connecting and disconnecting\<close>

definition is_open :: "ws_state \<Rightarrow> bool" where
  "is_open s \<longleftrightarrow> (\<exists>i. ws_ref s = Some i \<and> sockets s ! i = SocketOpen)"

definition notify :: "socket_notice \<Rightarrow> ws_state \<Rightarrow> ws_state" where
  "notify n s = s\<lparr>socket_notices := socket_notices s @ [n]\<rparr>"

definition ws_connect :: "ws_options \<Rightarrow> ws_env \<Rightarrow> ws_state \<Rightarrow> ws_state" where
  "ws_connect opts env s =
     (if \<not> truthy_string (opt_token opts) \<or> is_open s then s
      else if \<not> env_online env then s\<lparr>ws_status := Disconnected\<rparr>
      else if expired env (the (opt_token opts)) then
        notify AuthTokenExpired (s\<lparr>reconnect_count := opt_max_attempts opts, ws_status := Exhausted\<rparr>)
      else
        s\<lparr>ws_status := Connecting, sockets := sockets s @ [SocketConnecting],
          socket_urls := socket_urls s @ [get_ws_url opts env], ws_ref := Some (length (sockets s))\<rparr>)"

definition on_open :: "nat \<Rightarrow> ws_state \<Rightarrow> ws_state" where
  "on_open i s =
     (if i < length (sockets s) \<and> sockets s ! i = SocketConnecting
      then s\<lparr>sockets := (sockets s)[i := SocketOpen], ws_status := Connected, reconnect_count := 0\<rparr>
      else s)"

definition backoff_ms :: "ws_options \<Rightarrow> nat \<Rightarrow> nat" where
  "backoff_ms opts n = min (opt_interval opts * 2 ^ n) 30000"

definition start_timer :: "nat \<Rightarrow> ws_state \<Rightarrow> ws_state" where
  "start_timer ms s =
     s\<lparr>timers := timers s @ [(next_timer s, ms)], timer_ref := Some (next_timer s),
       next_timer := Suc (next_timer s)\<rparr>"

definition on_close :: "ws_options \<Rightarrow> ws_env \<Rightarrow> nat \<Rightarrow> nat \<Rightarrow> ws_state \<Rightarrow> ws_state" where
  "on_close opts env i code s =
     (if i < length (sockets s) \<and> sockets s ! i \<noteq> SocketClosed then
        (let s1 = s\<lparr>sockets := (sockets s)[i := SocketClosed], ws_ref := None\<rparr>
         in if code = 1008 then notify AuthTokenExpired (s1\<lparr>ws_status := Exhausted\<rparr>)
            else if \<not> truthy_string (opt_token opts) \<or> expired env (the (opt_token opts))
            then notify AuthTokenExpired (s1\<lparr>ws_status := Exhausted\<rparr>)
            else if reconnect_count s1 < opt_max_attempts opts
            then start_timer (backoff_ms opts (reconnect_count s1)) (s1\<lparr>ws_status := Disconnected\<rparr>)
            else notify ReconnectExhausted (s1\<lparr>ws_status := Exhausted\<rparr>))
      else s)"

definition on_socket_error :: "ws_state \<Rightarrow> ws_state" where
  "on_socket_error s = s\<lparr>ws_status := ConnectionError\<rparr>"

definition timer_fires :: "ws_options \<Rightarrow> ws_env \<Rightarrow> nat \<Rightarrow> ws_state \<Rightarrow> ws_state" where
  "timer_fires opts env k s =
     (if k \<in> fst ` set (timers s)
      then ws_connect opts env
        (s\<lparr>timers := filter (\<lambda>t. fst t \<noteq> k) (timers s), reconnect_count := Suc (reconnect_count s)\<rparr>)
      else s)"

definition close_socket :: "nat \<Rightarrow> ready_state list \<Rightarrow> ready_state list" where
  "close_socket i ss = (if ss ! i = SocketClosed then ss else ss[i := SocketClosing])"

definition ws_disconnect :: "ws_options \<Rightarrow> ws_state \<Rightarrow> ws_state" where
  "ws_disconnect opts s =
     (let s1 = (case timer_ref s of
             None \<Rightarrow> s
           | Some k \<Rightarrow> s\<lparr>timers := filter (\<lambda>t. fst t \<noteq> k) (timers s), timer_ref := None\<rparr>)
      in s1\<lparr>reconnect_count := opt_max_attempts opts,
            sockets := (case ws_ref s1 of None \<Rightarrow> sockets s1 | Some i \<Rightarrow> close_socket i (sockets s1)),
            ws_ref := None, ws_status := Disconnected\<rparr>)"

definition reset_reconnect :: "ws_options \<Rightarrow> ws_env \<Rightarrow> ws_state \<Rightarrow> ws_state" where
  "reset_reconnect opts env s = ws_connect opts env (s\<lparr>reconnect_count := 0\<rparr>)"

subsection \<open>Messages\<close>

text \<open>Subscribers of an event type are a set kept in insertion order; a handler is its number.\<close>

definition subscribe :: "string \<Rightarrow> nat \<Rightarrow> ws_state \<Rightarrow> ws_state" where
  "subscribe ty h s =
     (let hs = (case map_of (subscribers s) ty of None \<Rightarrow> [] | Some hs \<Rightarrow> hs)
      in s\<lparr>subscribers := AList.update ty (if h \<in> set hs then hs else hs @ [h]) (subscribers s)\<rparr>)"

definition unsubscribe :: "string \<Rightarrow> nat \<Rightarrow> ws_state \<Rightarrow> ws_state" where
  "unsubscribe ty h s =
     (case map_of (subscribers s) ty of
        None \<Rightarrow> s
      | Some hs \<Rightarrow> s\<lparr>subscribers := AList.update ty (removeAll h hs) (subscribers s)\<rparr>)"

definition handlers_for :: "json option \<Rightarrow> ws_state \<Rightarrow> nat list" where
  "handlers_for ty s =
     (case ty of
        Some (JStr k) \<Rightarrow> (case map_of (subscribers s) k of None \<Rightarrow> [] | Some hs \<Rightarrow> hs)
      | _ \<Rightarrow> [])"

text \<open>
  The message is none where \<open>JSON.parse\<close> throws; for \<open>null\<close> the handler fails after the message is kept.
\<close>

definition on_message :: "json option \<Rightarrow> ws_state \<Rightarrow> ws_state" where
  "on_message parsed s =
     (case parsed of
        None \<Rightarrow> s
      | Some JNull \<Rightarrow> s\<lparr>last_message := Some JNull\<rparr>
      | Some m \<Rightarrow>
          s\<lparr>last_message := Some m,
            delivered := delivered s
              @ map (\<lambda>h. (h, m)) (handlers_for (member m ''type'') s @ handlers_for (Some (JStr ''*'')) s)\<rparr>)"

definition ws_send :: "json \<Rightarrow> ws_state \<Rightarrow> ws_state" where
  "ws_send v s =
     (if is_open s then s\<lparr>sent_frames := sent_frames s @ [(the (ws_ref s), v)]\<rparr> else s)"

subsection \<open>Giving up\<close>

text \<open>A refused connection: the current socket closes, then the timer it starts fires.\<close>

definition ws_refused :: "ws_options \<Rightarrow> ws_env \<Rightarrow> ws_state \<Rightarrow> ws_state" where
  "ws_refused opts env s =
     (case ws_ref s of
        None \<Rightarrow> s
      | Some i \<Rightarrow>
          (let s1 = on_close opts env i 1006 s
           in case timers s1 of [] \<Rightarrow> s1 | t # ts \<Rightarrow> timer_fires opts env (fst t) s1))"

definition ws_waiting :: "ws_options \<Rightarrow> ws_env \<Rightarrow> ws_state \<Rightarrow> bool" where
  "ws_waiting opts env s \<longleftrightarrow>
     truthy_string (opt_token opts) \<and> \<not> expired env (the (opt_token opts)) \<and> env_online env \<and>
     timers s = [] \<and> (\<exists>i. ws_ref s = Some i \<and> i < length (sockets s) \<and> sockets s ! i = SocketConnecting)"

definition ws_given_up :: "ws_state \<Rightarrow> bool" where
  "ws_given_up s \<longleftrightarrow> ws_status s = Exhausted \<and> timers s = [] \<and> ReconnectExhausted \<in> set (socket_notices s)"

interpretation event_socket: bounded_reconnect
  "ws_refused opts env" "ws_waiting opts env" reconnect_count "\<lambda>s. length (sockets s)" ws_given_up
  "opt_max_attempts opts" for opts env
proof
  fix s
  assume w: "ws_waiting opts env s"
  then obtain i where i: "ws_ref s = Some i" "i < length (sockets s)" "sockets s ! i = SocketConnecting"
    by (auto simp: ws_waiting_def)
  note defs = ws_refused_def on_close_def start_timer_def timer_fires_def ws_connect_def is_open_def notify_def
    ws_waiting_def ws_given_up_def
  show "ws_waiting opts env (ws_refused opts env s) \<and>
      reconnect_count (ws_refused opts env s) = Suc (reconnect_count s) \<and>
      length (sockets (ws_refused opts env s)) = Suc (length (sockets s))"
    if "reconnect_count s < opt_max_attempts opts"
    using w that i by (simp add: defs Let_def nth_append)
  show "ws_given_up (ws_refused opts env s) \<and> length (sockets (ws_refused opts env s)) = length (sockets s)"
    if "opt_max_attempts opts \<le> reconnect_count s"
    using w that i by (simp add: defs Let_def)
qed

subsection \<open>Properties\<close>

lemma backoff_bounded: "backoff_ms opts n \<le> 30000"
  by (simp add: backoff_ms_def)

text \<open>C11: from a connection attempt with the count at zero, a server that refuses every connection makes the
  hook open exactly \<open>maxReconnectAttempts\<close> more sockets, one after each refusal, and then stop: it is
  exhausted, says so, and has no timer left.\<close>

theorem event_socket_gives_up:
  assumes "ws_waiting opts env s" and "reconnect_count s = 0"
  shows "let n = opt_max_attempts opts; s' = (ws_refused opts env ^^ Suc n) s in
    ws_given_up s' \<and> length (sockets s') = length (sockets s) + n \<and>
    (\<forall>k \<le> n. ws_waiting opts env ((ws_refused opts env ^^ k) s))"
  using event_socket.gives_up [OF assms(1)] event_socket.not_before [OF assms(1)] assms(2) by simp

text \<open>The close event of a socket that the user has disconnected arrives after the call: the hook, which
  has just reported a deliberate disconnection, then reports that reconnection is exhausted.\<close>

theorem disconnect_ends_exhausted:
  assumes "ws_ref s = Some i" and "i < length (sockets s)" and "sockets s ! i = SocketOpen"
    and "truthy_string (opt_token opts)" and "\<not> expired env (the (opt_token opts))" and "code \<noteq> 1008"
  shows "ws_status (ws_disconnect opts s) = Disconnected \<and>
    ws_status (on_close opts env i code (ws_disconnect opts s)) = Exhausted \<and>
    ReconnectExhausted \<in> set (socket_notices (on_close opts env i code (ws_disconnect opts s)))"
  using assms
  by (auto simp: ws_disconnect_def on_close_def notify_def close_socket_def Let_def split: option.split)

text \<open>when the user disconnects and reconnects, the late close event of the old socket takes the new,
  open one away from the hook: it reports a disconnection, drops what is sent, and starts a timer that
  will open yet another socket, while the second one stays open.\<close>

theorem late_close_drops_new_socket:
  assumes "ws_ref s = Some i" and "i < length (sockets s)" and "sockets s ! i = SocketOpen"
    and "truthy_string (opt_token opts)" and "\<not> expired env (the (opt_token opts))" and "env_online env"
    and "code \<noteq> 1008" and "0 < opt_max_attempts opts"
  shows "let j = length (sockets s);
      s2 = on_open j (reset_reconnect opts env (ws_disconnect opts s));
      s3 = on_close opts env i code s2
    in ws_status s2 = Connected \<and> is_open s2 \<and>
       sockets s3 ! j = SocketOpen \<and> \<not> is_open s3 \<and> ws_status s3 = Disconnected \<and>
       timers s3 \<noteq> [] \<and> ws_send v s3 = s3"
proof -
  let ?j = "length (sockets s)"
  let ?s1 = "ws_disconnect opts s"
  have s1: "ws_ref ?s1 = None" "sockets ?s1 = (sockets s)[i := SocketClosing]"
    using assms(1,3) by (auto simp: ws_disconnect_def close_socket_def Let_def split: option.split)
  let ?s2 = "on_open ?j (reset_reconnect opts env ?s1)"
  have s2: "ws_status ?s2 = Connected" "ws_ref ?s2 = Some ?j" "reconnect_count ?s2 = 0"
      "sockets ?s2 = (sockets s)[i := SocketClosing] @ [SocketOpen]"
    using assms(4-6) s1
    by (simp_all add: reset_reconnect_def ws_connect_def is_open_def on_open_def nth_append list_update_append)
  have o2: "is_open ?s2" using s2(2,4) by (simp add: is_open_def nth_append)
  have i2: "i < length (sockets ?s2)" "sockets ?s2 ! i = SocketClosing"
    using s2(4) assms(2) by (simp_all add: nth_append)
  let ?s3 = "on_close opts env i code ?s2"
  have s3: "sockets ?s3 ! ?j = SocketOpen" "\<not> is_open ?s3" "ws_status ?s3 = Disconnected" "timers ?s3 \<noteq> []"
    using i2 s2 assms(2,4,5,7,8)
    by (simp_all add: on_close_def start_timer_def is_open_def Let_def nth_append)
  then show ?thesis using s2(1) o2 by (simp add: Let_def ws_send_def)
qed

subsection \<open>Witnesses\<close>

definition sample_opts :: ws_options where
  "sample_opts =
     \<lparr>opt_token = Some ''a.b.c'', opt_base_url = None, opt_interval = 5000, opt_max_attempts = 6\<rparr>"

definition sample_env :: ws_env where
  "sample_env =
     \<lparr>env_decode = (\<lambda>p. Some (JObj [])), env_now = 0, env_online = True, env_ws_url = None,
      env_secure = True, env_host = ''host''\<rparr>"

lemma sample_token [simp]:
  "opt_token sample_opts = Some ''a.b.c''" "\<not> expired sample_env ''a.b.c''" "env_online sample_env"
  "opt_max_attempts sample_opts = 6"
  by (simp_all add: sample_opts_def sample_env_def expired_def is_jwt_expired_def)

definition connecting_ws :: ws_state where
  "connecting_ws = ws_connect sample_opts sample_env initial_ws"

lemma connecting_fields [simp]:
  "ws_ref connecting_ws = Some 0" "sockets connecting_ws = [SocketConnecting]"
  "reconnect_count connecting_ws = 0" "timers connecting_ws = []"
  by (simp_all add: connecting_ws_def ws_connect_def initial_ws_def truthy_string_def is_open_def)

lemma event_socket_gives_up_witness:
  "ws_given_up ((ws_refused sample_opts sample_env ^^ 7) connecting_ws)"
proof -
  have "ws_waiting sample_opts sample_env connecting_ws" by (simp add: ws_waiting_def truthy_string_def)
  from event_socket_gives_up [OF this] show ?thesis by (simp add: Let_def numeral_eq_Suc)
qed

lemma disconnect_ends_exhausted_witness:
  "ws_status (on_close sample_opts sample_env 0 1005
     (ws_disconnect sample_opts (on_open 0 connecting_ws))) = Exhausted"
  using disconnect_ends_exhausted [of "on_open 0 connecting_ws" 0 sample_opts sample_env 1005]
  by (simp add: on_open_def truthy_string_def)

lemma late_close_drops_new_socket_witness:
  "\<not> is_open (on_close sample_opts sample_env 0 1005 (on_open 1
     (reset_reconnect sample_opts sample_env (ws_disconnect sample_opts (on_open 0 connecting_ws)))))"
  using late_close_drops_new_socket [of "on_open 0 connecting_ws" 0 sample_opts sample_env 1005 JNull]
  by (simp add: on_open_def truthy_string_def Let_def)

end
