(* ===== verification/Url_Codec.thy ===== *)
theory Url_Codec
  imports Base
begin

section \<open>URLs\<close>

text \<open>
  What the client makes URLs with: \<open>encodeURIComponent\<close> for path segments, and \<open>URLSearchParams\<close>
  for query strings (the uses in \<^verbatim>\<open>packages/api/client.ts\<close>).  Both work on the UTF-8 bytes of a
  string, which is what a string is here.  The interface \<open>text_codec\<close> is what a client of either
  relies on: encoded text decodes to itself and stays within a set of harmless characters, so that
  separators outside that set can be put between encoded parts and found again.
\<close>

subsection \<open>Percent encoding\<close>

definition alphanumeric :: "char \<Rightarrow> bool" where
  "alphanumeric c \<longleftrightarrow>
     (let n = of_char c :: nat in (48 \<le> n \<and> n \<le> 57) \<or> (65 \<le> n \<and> n \<le> 90) \<or> (97 \<le> n \<and> n \<le> 122))"

definition hex_digit :: "nat \<Rightarrow> char" where
  "hex_digit d = (if d < 10 then char_of (48 + d) else char_of (55 + d))"

definition hex_value :: "char \<Rightarrow> nat" where
  "hex_value c = (let n = of_char c in if n < 58 then n - 48 else if n < 97 then n - 55 else n - 87)"

definition percent_encode :: "char \<Rightarrow> string" where
  "percent_encode c = [CHR ''%'', hex_digit (of_char c div 16), hex_digit (of_char c mod 16)]"

definition component_safe :: "char \<Rightarrow> bool" where
  "component_safe c \<longleftrightarrow> alphanumeric c \<or> c \<in> set ''-_.!~*()'' \<or> of_char c = (39::nat)"

definition encode_uri_component :: "string \<Rightarrow> string" where
  "encode_uri_component s = concat (map (\<lambda>c. if component_safe c then [c] else percent_encode c) s)"

definition form_safe :: "char \<Rightarrow> bool" where
  "form_safe c \<longleftrightarrow> alphanumeric c \<or> c \<in> set ''*-._''"

definition encode_form :: "string \<Rightarrow> string" where
  "encode_form s =
     concat (map (\<lambda>c. if form_safe c then [c] else if c = CHR '' '' then ''+'' else percent_encode c) s)"

fun percent_decode :: "string \<Rightarrow> string" where
  "percent_decode (p # a # b # s) =
     (if p = CHR ''%'' then char_of (16 * hex_value a + hex_value b) # percent_decode s
      else p # percent_decode (a # b # s))"
| "percent_decode s = s"

definition decode_form :: "string \<Rightarrow> string" where
  "decode_form s = percent_decode (map (\<lambda>c. if c = CHR ''+'' then CHR '' '' else c) s)"

subsection \<open>The codec interface\<close>

locale text_codec =
  fixes encode :: "string \<Rightarrow> string"
    and decode :: "string \<Rightarrow> string"
    and harmless :: "char \<Rightarrow> bool"
  assumes decode_encode: "decode (encode s) = s"
    and encode_harmless: "c \<in> set (encode s) \<Longrightarrow> harmless c"
begin

lemma encode_inject: "encode s = encode t \<longleftrightarrow> s = t"
  using decode_encode by metis

lemma split_joined:
  assumes "\<not> harmless sep" and "xs \<noteq> []"
  shows "map decode (split_on sep (join [sep] (map encode xs))) = xs"
  using assms(2)
proof (induction xs rule: list_nonempty_induct)
  case (single x)
  have "sep \<notin> set (encode x)" using assms(1) encode_harmless by blast
  then show ?case by (simp add: split_on_no_sep decode_encode)
next
  case (cons x xs)
  have "sep \<notin> set (encode x)" using assms(1) encode_harmless by blast
  moreover obtain y ys where "xs = y # ys" using cons.hyps by (cases xs) auto
  ultimately show ?case using cons.IH by (simp add: split_on_no_sep decode_encode)
qed

text \<open>An encoded part adds no separator to the text around it.\<close>

lemma count_separators:
  "\<not> harmless sep \<Longrightarrow> count_list (pre @ encode s @ post) sep = count_list (pre @ post) sep"
proof -
  assume "\<not> harmless sep"
  then have "sep \<notin> set (encode s)" using encode_harmless by blast
  then show ?thesis by simp
qed

end

subsection \<open>Both encodings are codecs\<close>

lemma hex_round_trip: "char_of (16 * hex_value (hex_digit (of_char c div 16)) + hex_value (hex_digit (of_char c mod 16))) = c"
proof -
  have h: "hex_value (hex_digit d) = d" if "d < 16" for d
    using that by (simp add: hex_digit_def hex_value_def Let_def)
  have "(of_char c :: nat) < 256" by simp
  then have "(of_char c :: nat) div 16 < 16" by (simp add: less_mult_imp_div_less)
  then show ?thesis using h by simp
qed

lemma hex_alphanumeric: "d < 16 \<Longrightarrow> alphanumeric (hex_digit d)"
  by (auto simp: alphanumeric_def hex_digit_def Let_def)

lemma percent_not_alphanumeric: "\<not> alphanumeric CHR ''%'' \<and> \<not> alphanumeric CHR ''+'' \<and> \<not> alphanumeric CHR '' ''"
  by (simp add: alphanumeric_def)

lemma percent_chars:
  "d \<in> set (percent_encode c) \<Longrightarrow> d = CHR ''%'' \<or> alphanumeric d"
proof -
  assume "d \<in> set (percent_encode c)"
  moreover have "(of_char c :: nat) div 16 < 16" by (simp add: less_mult_imp_div_less)
  ultimately show ?thesis using hex_alphanumeric by (auto simp: percent_encode_def)
qed

lemma percent_decode_plain: "c \<noteq> CHR ''%'' \<Longrightarrow> percent_decode (c # s) = c # percent_decode s"
  by (cases s; cases "tl s") auto

lemma percent_decode_encoded: "percent_decode (percent_encode c @ s) = c # percent_decode s"
  by (simp add: percent_encode_def hex_round_trip)

lemma decode_component: "percent_decode (encode_uri_component s) = s"
proof (induction s)
  case (Cons c s)
  have "component_safe c \<Longrightarrow> c \<noteq> CHR ''%''"
    using percent_not_alphanumeric by (auto simp: component_safe_def)
  then show ?case
    using Cons percent_decode_plain percent_decode_encoded by (simp add: encode_uri_component_def)
qed (simp add: encode_uri_component_def)

lemma decode_form_encode: "decode_form (encode_form s) = s"
proof (induction s)
  case (Cons c s)
  let ?space = "\<lambda>c. if c = CHR ''+'' then CHR '' '' else c"
  have safe: "form_safe c \<Longrightarrow> c \<noteq> CHR ''%'' \<and> c \<noteq> CHR ''+''"
    using percent_not_alphanumeric by (auto simp: form_safe_def)
  have "map ?space (percent_encode c) = percent_encode c"
    using percent_chars [of _ c] percent_not_alphanumeric by (intro map_idI) auto
  then show ?case
    using Cons safe percent_decode_plain percent_decode_encoded by (auto simp: encode_form_def decode_form_def)
qed (simp add: encode_form_def decode_form_def)

definition component_harmless :: "char \<Rightarrow> bool" where
  "component_harmless c \<longleftrightarrow> component_safe c \<or> c = CHR ''%''"

definition form_harmless :: "char \<Rightarrow> bool" where
  "form_harmless c \<longleftrightarrow> form_safe c \<or> c = CHR ''%'' \<or> c = CHR ''+''"

interpretation uri_component: text_codec encode_uri_component percent_decode component_harmless
proof
  show "percent_decode (encode_uri_component s) = s" for s by (rule decode_component)
  show "component_harmless c" if "c \<in> set (encode_uri_component s)" for c s
    using that percent_chars by (auto simp: encode_uri_component_def component_harmless_def component_safe_def
        split: if_splits)
qed

interpretation form: text_codec encode_form decode_form form_harmless
proof
  show "decode_form (encode_form s) = s" for s by (rule decode_form_encode)
  show "form_harmless c" if "c \<in> set (encode_form s)" for c s
    using that percent_chars by (auto simp: encode_form_def form_harmless_def form_safe_def split: if_splits)
qed

subsection \<open>Query strings\<close>

text \<open>\<open>params.set(k, v)\<close>, \<open>params.append(k, v)\<close>, and the string of the parameters.\<close>

fun params_set :: "string \<Rightarrow> string \<Rightarrow> (string \<times> string) list \<Rightarrow> (string \<times> string) list" where
  "params_set k v [] = [(k, v)]"
| "params_set k v ((k', v') # ps) =
     (if k' = k then (k, v) # filter (\<lambda>p. fst p \<noteq> k) ps else (k', v') # params_set k v ps)"

definition params_append :: "string \<Rightarrow> string \<Rightarrow> (string \<times> string) list \<Rightarrow> (string \<times> string) list" where
  "params_append k v ps = ps @ [(k, v)]"

definition query_string :: "(string \<times> string) list \<Rightarrow> string" where
  "query_string ps = join ''&'' (map (\<lambda>(k, v). encode_form k @ ''='' @ encode_form v) ps)"

text \<open>How the receiver reads a query string that this makes.\<close>

definition parse_pair :: "string \<Rightarrow> string \<times> string" where
  "parse_pair p =
     (case split_on CHR ''='' p of
        [k] \<Rightarrow> (decode_form k, [])
      | k # v # _ \<Rightarrow> (decode_form k, decode_form v)
      | [] \<Rightarrow> ([], []))"

definition parse_query :: "string \<Rightarrow> (string \<times> string) list" where
  "parse_query q = (if q = [] then [] else map parse_pair (split_on CHR ''&'' q))"

lemma form_separators: "\<not> form_harmless CHR ''&'' \<and> \<not> form_harmless CHR ''=''"
  by (simp add: form_harmless_def form_safe_def alphanumeric_def)

lemma parse_pair_encoded: "parse_pair (encode_form k @ ''='' @ encode_form v) = (k, v)"
proof -
  have "CHR ''='' \<notin> set (encode_form s)" for s using form.encode_harmless form_separators by blast
  then show ?thesis
    by (simp add: parse_pair_def split_on_no_sep form.decode_encode)
qed

lemma parse_query_string: "parse_query (query_string ps) = ps"
proof (cases "ps = []")
  case False
  then have "split_on CHR ''&'' (query_string ps) = map (\<lambda>(k, v). encode_form k @ ''='' @ encode_form v) ps"
  proof (induction ps rule: list_nonempty_induct)
    case (single p)
    have "CHR ''&'' \<notin> set (encode_form s)" for s using form.encode_harmless form_separators by blast
    then show ?case by (cases p) (simp add: query_string_def split_on_no_sep)
  next
    case (cons p ps)
    obtain k v where p: "p = (k, v)" by (cases p)
    have "CHR ''&'' \<notin> set (encode_form s)" for s using form.encode_harmless form_separators by blast
    then have "split_on CHR ''&'' (encode_form k @ ''='' @ encode_form v) = [encode_form k @ ''='' @ encode_form v]"
      by (intro split_on_no_sep) auto
    moreover obtain q qs where "ps = q # qs" using cons.hyps by (cases ps) auto
    ultimately show ?case
      using cons.IH split_on_Cons_sep [of "CHR ''&''" "encode_form k @ ''='' @ encode_form v" "query_string ps"]
      by (simp add: query_string_def p split: prod.splits)
  qed
  moreover have "query_string ps \<noteq> []"
    using False by (cases ps rule: list.exhaust; cases "tl ps") (auto simp: query_string_def)
  moreover have "parse_pair (encode_form k @ CHR ''='' # encode_form v) = (k, v)" for k v
    using parse_pair_encoded [of k v] by simp
  ultimately show ?thesis
    by (simp add: parse_query_def comp_def case_prod_beta map_idI)
qed (simp add: parse_query_def query_string_def)

end
