(* ===== verification/Terminal_Socket.thy ===== *)
theory Terminal_Socket
  imports Web_Socket Url_Codec
begin

section \<open>The terminal socket\<close>

text \<open>
  \<^verbatim>\<open>packages/api/hooks/use-terminal-websocket.ts\<close>: the socket of the sandbox terminal.  Unlike the
  event socket, it detaches the handlers of a socket before it closes it; a detached socket's events
  do nothing.
\<close>

subsection \<open>State\<close>

definition max_reconnect_attempts :: nat where
  "max_reconnect_attempts = 3"

definition reconnect_delay_ms :: nat where
  "reconnect_delay_ms = 2000"

record term_socket =
  ts_ready :: ready_state
  ts_attached :: bool
  ts_url :: string

datatype term_output =
    Output string string
  | Exit real
  | TermError string
  | ContainerConnected string

record term_state =
  t_status :: connection_status
  t_ref :: "nat option"
  t_sockets :: "term_socket list"
  t_attempts :: nat
  t_timer :: "nat option"
  t_commands :: "(nat \<times> json) list"
  t_calls :: "term_output list"

definition initial_term :: term_state where
  "initial_term =
     \<lparr>t_status = Disconnected, t_ref = None, t_sockets = [], t_attempts = 0, t_timer = None,
      t_commands = [], t_calls = []\<rparr>"

record term_options =
  to_project :: string
  to_token :: "string option"
  to_api_url :: "string option"
  to_page :: "(bool \<times> string) option"

text \<open>\<open>getWsBaseUrl\<close>; \<open>to_page\<close> is whether the page is on https and its host, none outside a browser.\<close>

definition get_ws_base_url :: "term_options \<Rightarrow> string" where
  "get_ws_base_url opts =
     (let api = nullish (to_api_url opts) []
      in if api \<noteq> [] then (if starts_with api ''http'' then ''ws'' @ drop 4 api else api)
         else (case to_page opts of
                 Some (secure, host) \<Rightarrow> (if secure then ''wss:'' else ''ws:'') @ ''//'' @ host
               | None \<Rightarrow> []))"

definition terminal_url :: "term_options \<Rightarrow> string" where
  "terminal_url opts =
     get_ws_base_url opts @ ''/api/ws/sandbox/'' @ to_project opts @ ''/terminal?token='' @
     encode_uri_component (the (to_token opts))"

subsection \<open>Operations\<close>

definition term_cleanup :: "term_state \<Rightarrow> term_state" where
  "term_cleanup s =
     (let s1 = s\<lparr>t_timer := None\<rparr>
      in case t_ref s1 of
           None \<Rightarrow> s1
         | Some i \<Rightarrow>
             s1\<lparr>t_sockets := (t_sockets s1)[i := (t_sockets s1 ! i)
                 \<lparr>ts_attached := False,
                  ts_ready := (if ts_ready (t_sockets s1 ! i) = SocketClosed then SocketClosed else SocketClosing)\<rparr>],
               t_ref := None\<rparr>)"

definition term_connect :: "term_options \<Rightarrow> term_state \<Rightarrow> term_state" where
  "term_connect opts s =
     (if \<not> truthy_string (to_token opts) \<or> to_project opts = [] then s
      else
        (let s1 = (term_cleanup s)\<lparr>t_status := Connecting\<rparr>
         in s1\<lparr>t_sockets := t_sockets s1 @
                 [\<lparr>ts_ready = SocketConnecting, ts_attached = True, ts_url = terminal_url opts\<rparr>],
               t_ref := Some (length (t_sockets s1))\<rparr>))"

definition term_on_open :: "nat \<Rightarrow> term_state \<Rightarrow> term_state" where
  "term_on_open i s =
     (if i < length (t_sockets s) \<and> ts_ready (t_sockets s ! i) = SocketConnecting
      then s\<lparr>t_sockets := (t_sockets s)[i := (t_sockets s ! i)\<lparr>ts_ready := SocketOpen\<rparr>], t_attempts := 0\<rparr>
      else s)"

text \<open>
  A message: none where \<open>JSON.parse\<close> throws; reading a member of a missing \<open>data\<close> throws as well,
  and both are ignored.
\<close>

definition term_data :: "json \<Rightarrow> json option" where
  "term_data m = (case member m ''data'' of Some JNull \<Rightarrow> None | d \<Rightarrow> d)"

text \<open>The payload fields have the types that \<open>TerminalMessage\<close> gives them.\<close>

fun as_string :: "json option \<Rightarrow> string option" where
  "as_string (Some (JStr s)) = Some s"
| "as_string _ = None"

fun as_number :: "json option \<Rightarrow> real option" where
  "as_number (Some (JNum x)) = Some x"
| "as_number _ = None"

definition term_call :: "term_output \<Rightarrow> term_state \<Rightarrow> term_state" where
  "term_call c s = s\<lparr>t_calls := t_calls s @ [c]\<rparr>"

definition term_connected :: "json option \<Rightarrow> term_state \<Rightarrow> term_state" where
  "term_connected data s =
     (let s1 = s\<lparr>t_status := Connected\<rparr>
      in case data of
           None \<Rightarrow> s1
         | Some d \<Rightarrow>
             if truthy_string (as_string (member d ''container_id''))
             then term_call (ContainerConnected (the (as_string (member d ''container_id'')))) s1 else s1)"

definition term_output_of :: "json \<Rightarrow> json \<Rightarrow> term_output option" where
  "term_output_of m d =
     (if member m ''type'' = Some (JStr ''output'') then
        (if truthy_string (as_string (member d ''stream'')) then
           map_option (Output (the (as_string (member d ''stream'')))) (as_string (member d ''content''))
         else None)
      else if member m ''type'' = Some (JStr ''exit'') then map_option Exit (as_number (member d ''code''))
      else if member m ''type'' = Some (JStr ''error'')
      then Some (TermError (nullish (as_string (member d ''message'')) ''Unknown error''))
      else None)"

definition term_message :: "json \<Rightarrow> term_state \<Rightarrow> term_state" where
  "term_message m s =
     (if member m ''type'' = Some (JStr ''connected'') then term_connected (term_data m) s
      else
        (case term_data m of
           None \<Rightarrow> s
         | Some d \<Rightarrow> (case term_output_of m d of None \<Rightarrow> s | Some c \<Rightarrow> term_call c s)))"

definition term_on_message :: "nat \<Rightarrow> json option \<Rightarrow> term_state \<Rightarrow> term_state" where
  "term_on_message i parsed s =
     (if i < length (t_sockets s) \<and> ts_attached (t_sockets s ! i) \<and> ts_ready (t_sockets s ! i) = SocketOpen
      then (case parsed of None \<Rightarrow> s | Some JNull \<Rightarrow> s | Some m \<Rightarrow> term_message m s) else s)"

definition term_on_close :: "nat \<Rightarrow> term_state \<Rightarrow> term_state" where
  "term_on_close i s =
     (if i < length (t_sockets s) \<and> ts_ready (t_sockets s ! i) \<noteq> SocketClosed then
        (let s1 = s\<lparr>t_sockets := (t_sockets s)[i := (t_sockets s ! i)\<lparr>ts_ready := SocketClosed\<rparr>]\<rparr>
         in if \<not> ts_attached (t_sockets s ! i) then s1
            else
              (let s2 = s1\<lparr>t_ref := None\<rparr>
               in if t_attempts s2 < max_reconnect_attempts then
                    (let n = Suc (t_attempts s2)
                     in s2\<lparr>t_status := Disconnected, t_attempts := n, t_timer := Some (reconnect_delay_ms * n)\<rparr>)
                  else s2\<lparr>t_status := Exhausted\<rparr>))
      else s)"

definition term_timer_fires :: "term_options \<Rightarrow> term_state \<Rightarrow> term_state" where
  "term_timer_fires opts s = (if t_timer s = None then s else term_connect opts (s\<lparr>t_timer := None\<rparr>))"

definition term_disconnect :: "term_state \<Rightarrow> term_state" where
  "term_disconnect s =
     (term_cleanup (s\<lparr>t_attempts := max_reconnect_attempts\<rparr>))\<lparr>t_status := Disconnected\<rparr>"

definition send_command :: "string \<Rightarrow> term_state \<Rightarrow> term_state" where
  "send_command command s =
     (case t_ref s of
        Some i \<Rightarrow>
          if ts_ready (t_sockets s ! i) = SocketOpen
          then s\<lparr>t_commands := t_commands s @
            [(i, JObj [(''type'', JStr ''command''), (''data'', JObj [(''command'', JStr command)])])]\<rparr>
          else s
      | None \<Rightarrow> s)"

text \<open>The effect that connects on mount.\<close>

definition term_mount :: "term_options \<Rightarrow> term_state \<Rightarrow> term_state" where
  "term_mount opts s =
     (if truthy_string (to_token opts) \<and> to_project opts \<noteq> []
      then term_connect opts (s\<lparr>t_attempts := 0\<rparr>) else term_disconnect s)"

datatype term_event =
    TermOpen nat
  | TermMessage nat "json option"
  | TermClose nat
  | TermTimer
  | TermSend string

fun term_step :: "term_options \<Rightarrow> term_event \<Rightarrow> term_state \<Rightarrow> term_state" where
  "term_step opts (TermOpen i) s = term_on_open i s"
| "term_step opts (TermMessage i m) s = term_on_message i m s"
| "term_step opts (TermClose i) s = term_on_close i s"
| "term_step opts TermTimer s = term_timer_fires opts s"
| "term_step opts (TermSend c) s = send_command c s"

subsection \<open>Giving up\<close>

definition term_refused :: "term_options \<Rightarrow> term_state \<Rightarrow> term_state" where
  "term_refused opts s =
     (case t_ref s of None \<Rightarrow> s | Some i \<Rightarrow> term_timer_fires opts (term_on_close i s))"

definition term_waiting :: "term_options \<Rightarrow> term_state \<Rightarrow> bool" where
  "term_waiting opts s \<longleftrightarrow>
     truthy_string (to_token opts) \<and> to_project opts \<noteq> [] \<and> t_timer s = None \<and>
     (\<exists>i. t_ref s = Some i \<and> i < length (t_sockets s) \<and> ts_ready (t_sockets s ! i) = SocketConnecting \<and>
        ts_attached (t_sockets s ! i))"

definition term_given_up :: "term_state \<Rightarrow> bool" where
  "term_given_up s \<longleftrightarrow> t_status s = Exhausted \<and> t_timer s = None"

interpretation terminal_socket: bounded_reconnect
  "term_refused opts" "term_waiting opts" t_attempts "\<lambda>s. length (t_sockets s)" term_given_up
  max_reconnect_attempts for opts
proof
  fix s
  assume w: "term_waiting opts s"
  then obtain i where i: "t_ref s = Some i" "i < length (t_sockets s)"
      "ts_ready (t_sockets s ! i) = SocketConnecting" "ts_attached (t_sockets s ! i)"
    by (auto simp: term_waiting_def)
  note defs = term_refused_def term_on_close_def term_timer_fires_def term_connect_def term_cleanup_def
    term_waiting_def term_given_up_def
  show "term_waiting opts (term_refused opts s) \<and>
      t_attempts (term_refused opts s) = Suc (t_attempts s) \<and>
      length (t_sockets (term_refused opts s)) = Suc (length (t_sockets s))"
    if "t_attempts s < max_reconnect_attempts"
    using w that i by (simp add: defs Let_def nth_append)
  show "term_given_up (term_refused opts s) \<and> length (t_sockets (term_refused opts s)) = length (t_sockets s)"
    if "max_reconnect_attempts \<le> t_attempts s"
    using w that i by (simp add: defs Let_def)
qed

subsection \<open>A deliberate disconnection\<close>

text \<open>The sockets whose events reach the hook: attached and not yet closed.\<close>

definition live :: "term_state \<Rightarrow> nat set" where
  "live s = {i. i < length (t_sockets s) \<and> ts_attached (t_sockets s ! i) \<and> ts_ready (t_sockets s ! i) \<noteq> SocketClosed}"

definition term_inv :: "term_state \<Rightarrow> bool" where
  "term_inv s \<longleftrightarrow> live s \<subseteq> set_option (t_ref s)"

inductive term_reachable :: "term_state \<Rightarrow> bool" where
  start: "term_reachable initial_term"
| mount: "term_reachable s \<Longrightarrow> term_reachable (term_mount opts s)"
| connect: "term_reachable s \<Longrightarrow> term_reachable (term_connect opts s)"
| disconnect: "term_reachable s \<Longrightarrow> term_reachable (term_disconnect s)"
| event: "term_reachable s \<Longrightarrow> term_reachable (term_step opts e s)"

text \<open>Nothing is attached, nothing is scheduled.\<close>

definition quiet :: "term_state \<Rightarrow> bool" where
  "quiet s \<longleftrightarrow> t_timer s = None \<and> t_ref s = None \<and> live s = {}"

lemma live_same: "t_sockets s' = t_sockets s \<Longrightarrow> live s' = live s"
  by (simp add: live_def)

lemma live_detach:
  assumes "t_sockets s' = (t_sockets s)[i := x]" and "\<not> ts_attached x \<or> ts_ready x = SocketClosed"
  shows "live s' = live s - {i}"
proof (rule set_eqI)
  fix j
  show "j \<in> live s' \<longleftrightarrow> j \<in> live s - {i}"
    unfolding live_def assms(1) using assms(2) by (cases "i = j") auto
qed

lemma cleanup_fields: "t_timer (term_cleanup s) = None" "t_ref (term_cleanup s) = None"
  by (simp_all add: term_cleanup_def Let_def split: option.split)

lemma live_cleanup: "live (term_cleanup s) = live s - set_option (t_ref s)"
proof (cases "t_ref s")
  case None
  then show ?thesis using live_same [of "term_cleanup s" s] by (simp add: term_cleanup_def)
next
  case (Some i)
  let ?x = "(t_sockets s ! i)\<lparr>ts_attached := False,
    ts_ready := (if ts_ready (t_sockets s ! i) = SocketClosed then SocketClosed else SocketClosing)\<rparr>"
  have "t_sockets (term_cleanup s) = (t_sockets s)[i := ?x]" using Some by (simp add: term_cleanup_def Let_def)
  then have "live (term_cleanup s) = live s - {i}" by (rule live_detach) simp
  then show ?thesis using Some by simp
qed

lemma quiet_cleanup: "term_inv s \<Longrightarrow> quiet (term_cleanup s)"
  by (auto simp: quiet_def cleanup_fields live_cleanup term_inv_def)

lemma quiet_inv: "quiet s \<Longrightarrow> term_inv s"
  by (simp add: quiet_def term_inv_def)

lemma inv_same: "term_inv s \<Longrightarrow> t_sockets s' = t_sockets s \<Longrightarrow> t_ref s' = t_ref s \<Longrightarrow> term_inv s'"
  using live_same [of s' s] by (simp add: term_inv_def)

lemma inv_connect: "term_inv s \<Longrightarrow> term_inv (term_connect opts s)"
proof (cases "truthy_string (to_token opts) \<and> to_project opts \<noteq> []")
  case True
  assume "term_inv s"
  then have "live (term_cleanup s) = {}" using quiet_cleanup by (simp add: quiet_def)
  then have "live (term_connect opts s) \<subseteq> {length (t_sockets (term_cleanup s))}"
    using True by (auto simp: term_connect_def live_def Let_def nth_append split: if_splits)
  then show ?thesis using True by (simp add: term_inv_def) (simp add: term_connect_def Let_def)
qed (auto simp: term_connect_def)

lemma quiet_disconnect: "term_inv s \<Longrightarrow> quiet (term_disconnect s)"
proof -
  assume "term_inv s"
  then have "quiet (term_cleanup (s\<lparr>t_attempts := max_reconnect_attempts\<rparr>))"
    by (intro quiet_cleanup, elim inv_same) simp_all
  then show ?thesis by (simp add: term_disconnect_def quiet_def live_def)
qed

lemma message_fields:
  "t_sockets (term_on_message i m s) = t_sockets s" "t_ref (term_on_message i m s) = t_ref s"
  by (simp_all add: term_on_message_def term_message_def term_connected_def term_call_def Let_def
      split: option.split json.split)

lemma open_fields:
  "live (term_on_open i s) = live s" "t_ref (term_on_open i s) = t_ref s" "t_timer (term_on_open i s) = t_timer s"
  by (auto simp: term_on_open_def live_def nth_list_update)

lemma live_close: "live (term_on_close i s) = live s - {i}"
proof (cases "i < length (t_sockets s) \<and> ts_ready (t_sockets s ! i) \<noteq> SocketClosed")
  case True
  let ?x = "(t_sockets s ! i)\<lparr>ts_ready := SocketClosed\<rparr>"
  have "t_sockets (term_on_close i s) = (t_sockets s)[i := ?x]"
    using True by (simp add: term_on_close_def Let_def)
  then show ?thesis by (rule live_detach) simp
next
  case False
  then show ?thesis by (auto simp: term_on_close_def live_def)
qed

lemma ref_close: "t_ref (term_on_close i s) = (if i \<in> live s then None else t_ref s)"
  by (auto simp: term_on_close_def live_def Let_def)

lemma send_fields: "t_sockets (send_command c s) = t_sockets s" "t_ref (send_command c s) = t_ref s"
  by (simp_all add: send_command_def split: option.split)

lemma inv_step: "term_inv s \<Longrightarrow> term_inv (term_step opts e s)"
proof (cases e)
  case (TermOpen i)
  assume "term_inv s"
  then show ?thesis using TermOpen by (simp add: term_inv_def open_fields)
next
  case (TermMessage i m)
  assume "term_inv s"
  then show ?thesis using TermMessage inv_same [of s] by (simp add: message_fields)
next
  case (TermClose i)
  assume "term_inv s"
  then have "live (term_on_close i s) \<subseteq> set_option (t_ref (term_on_close i s))"
    by (cases "t_ref s") (auto simp: term_inv_def live_close ref_close)
  then show ?thesis using TermClose by (simp add: term_inv_def)
next
  case TermTimer
  assume "term_inv s"
  then show ?thesis using TermTimer inv_connect inv_same [of s "s\<lparr>t_timer := None\<rparr>"]
    by (simp add: term_timer_fires_def)
next
  case (TermSend c)
  assume "term_inv s"
  then show ?thesis using TermSend inv_same [of s] by (simp add: send_fields)
qed

lemma reachable_term_inv: "term_reachable s \<Longrightarrow> term_inv s"
proof (induction rule: term_reachable.induct)
  case start
  show ?case by (simp add: term_inv_def initial_term_def live_def)
next
  case (mount s opts)
  then show ?case
    using inv_connect inv_same [of s "s\<lparr>t_attempts := 0\<rparr>"] quiet_inv [OF quiet_disconnect]
    by (simp add: term_mount_def)
next
  case (connect s opts)
  then show ?case by (intro inv_connect)
next
  case (disconnect s)
  show ?case by (rule quiet_inv [OF quiet_disconnect [OF disconnect.IH]])
next
  case (event s opts e)
  then show ?case by (intro inv_step)
qed

definition visible_state :: "term_state \<Rightarrow> connection_status \<times> nat \<times> (nat \<times> json) list \<times> term_output list" where
  "visible_state s = (t_status s, length (t_sockets s), t_commands s, t_calls s)"

lemma quiet_step: "quiet s \<Longrightarrow> quiet (term_step opts e s) \<and> visible_state (term_step opts e s) = visible_state s"
proof (cases e)
  case (TermOpen i)
  assume "quiet s"
  then show ?thesis using TermOpen
    by (simp add: quiet_def open_fields) (simp add: term_on_open_def visible_state_def)
next
  case (TermMessage i m)
  assume "quiet s"
  then have "i \<notin> live s" by (simp add: quiet_def)
  then have "term_on_message i m s = s" by (auto simp: term_on_message_def live_def)
  then show ?thesis using TermMessage \<open>quiet s\<close> by simp
next
  case (TermClose i)
  assume q: "quiet s"
  then have "i \<notin> live s" by (simp add: quiet_def)
  then have "t_timer (term_on_close i s) = t_timer s" "visible_state (term_on_close i s) = visible_state s"
    by (auto simp: term_on_close_def live_def visible_state_def Let_def)
  then show ?thesis using TermClose q by (simp add: quiet_def live_close ref_close)
next
  case TermTimer
  assume "quiet s"
  then show ?thesis using TermTimer by (simp add: term_timer_fires_def quiet_def)
next
  case (TermSend c)
  assume "quiet s"
  then show ?thesis using TermSend by (simp add: send_command_def quiet_def)
qed

subsection \<open>Properties\<close>

text \<open>After the terminal is disconnected, whatever its old sockets, their late events and its
  timers still do, it stays disconnected: no socket is opened, no command sent, no callback made.\<close>

theorem terminal_disconnect_final:
  assumes "term_reachable s"
  shows "let s1 = term_disconnect s; s2 = fold (term_step opts) es s1 in
    t_status s2 = Disconnected \<and> length (t_sockets s2) = length (t_sockets s1) \<and>
    t_commands s2 = t_commands s1 \<and> t_calls s2 = t_calls s1"
proof -
  have "quiet s1 \<Longrightarrow> visible_state (fold (term_step opts) es s1) = visible_state s1" for s1
  proof (induction es arbitrary: s1)
    case (Cons e es)
    then show ?case using quiet_step [of s1 opts e] by simp
  qed simp
  then have "visible_state (fold (term_step opts) es (term_disconnect s)) = visible_state (term_disconnect s)"
    using quiet_disconnect [OF reachable_term_inv [OF assms]] by blast
  moreover have "t_status (term_disconnect s) = Disconnected" by (simp add: term_disconnect_def)
  ultimately show ?thesis by (simp add: visible_state_def Let_def)
qed

text \<open>A terminal whose server refuses every connection opens three more sockets and is then exhausted.\<close>

theorem terminal_socket_gives_up:
  assumes "term_waiting opts s" and "t_attempts s = 0"
  shows "let s' = (term_refused opts ^^ 4) s in
    term_given_up s' \<and> length (t_sockets s') = length (t_sockets s) + 3"
  using terminal_socket.gives_up [OF assms(1)] assms(2)
  by (simp add: max_reconnect_attempts_def numeral_eq_Suc)

lemma terminal_disconnect_final_witness:
  "t_status (fold (term_step \<lparr>to_project = ''p'', to_token = Some ''t'', to_api_url = None, to_page = None\<rparr>)
     [TermClose 0, TermTimer] (term_disconnect (term_mount
       \<lparr>to_project = ''p'', to_token = Some ''t'', to_api_url = None, to_page = None\<rparr> initial_term))) = Disconnected"
  using terminal_disconnect_final [OF term_reachable.mount [OF term_reachable.start]]
  by (simp only: Let_def)

lemma terminal_socket_gives_up_witness:
  "let opts = \<lparr>to_project = ''p'', to_token = Some ''t'', to_api_url = None, to_page = None\<rparr>
   in term_given_up ((term_refused opts ^^ 4) (term_mount opts initial_term))"
proof -
  let ?o = "\<lparr>to_project = ''p'', to_token = Some ''t'', to_api_url = None, to_page = None\<rparr>"
  have "term_waiting ?o (term_mount ?o initial_term)" "t_attempts (term_mount ?o initial_term) = 0"
    by (simp_all add: term_waiting_def term_mount_def term_connect_def term_cleanup_def initial_term_def
        truthy_string_def Let_def)
  from terminal_socket_gives_up [OF this] show ?thesis by (simp add: Let_def)
qed

end
