(* ===== verification/Polling.thy ===== *)
theory Polling
  imports Base
begin

section \<open>Polling\<close>

text \<open>
  \<^verbatim>\<open>packages/api/hooks/use-polling.ts\<close>: a hook that calls a fetcher at once and then at every tick of
  an interval, until a predicate, a number of attempts, a timeout or the caller ends it.  A fetch is
  an entry of \<open>in_flight\<close> until it is answered; the ref \<open>cancelled\<close> is one for all of them.
\<close>

subsection \<open>State\<close>

record 'd polling_options =
  max_attempts :: nat
  has_timeout :: bool
  should_stop :: "('d \<Rightarrow> bool) option"

datatype fetch_kind = PollFetch | RefreshFetch

record ('d, 'e) polling =
  poll_data :: "'d option"
  is_polling :: bool
  poll_error :: "'e option"
  is_timed_out :: bool
  cancelled :: bool
  attempt :: nat
  interval_on :: bool
  timeout_on :: bool
  in_flight :: "fetch_kind list"
  fetched :: nat
  error_calls :: "'e list"
  timeout_calls :: nat

definition idle_polling :: "('d, 'e) polling" where
  "idle_polling =
     \<lparr>poll_data = None, is_polling = False, poll_error = None, is_timed_out = False, cancelled = False,
      attempt = 0, interval_on = False, timeout_on = False, in_flight = [], fetched = 0,
      error_calls = [], timeout_calls = 0\<rparr>"

subsection \<open>Operations\<close>

definition poll_cleanup :: "('d, 'e) polling \<Rightarrow> ('d, 'e) polling" where
  "poll_cleanup s = s\<lparr>cancelled := True, interval_on := False, timeout_on := False, is_polling := False\<rparr>"

definition begin_fetch :: "fetch_kind \<Rightarrow> ('d, 'e) polling \<Rightarrow> ('d, 'e) polling" where
  "begin_fetch k s = s\<lparr>in_flight := in_flight s @ [k], fetched := Suc (fetched s)\<rparr>"

text \<open>\<open>poll\<close> up to its \<open>await\<close>.\<close>

definition poll :: "('d, 'e) polling \<Rightarrow> ('d, 'e) polling" where
  "poll s = (if cancelled s then s else begin_fetch PollFetch (s\<lparr>attempt := Suc (attempt s)\<rparr>))"

text \<open>The effect for an enabled hook; the one for a disabled hook, and unmounting, is \<open>poll_cleanup\<close>.\<close>

definition start_polling :: "'d polling_options \<Rightarrow> ('d, 'e) polling \<Rightarrow> ('d, 'e) polling" where
  "start_polling opts s =
     (poll (s\<lparr>cancelled := False, attempt := 0, is_polling := True, is_timed_out := False, poll_error := None\<rparr>))
       \<lparr>interval_on := True, timeout_on := has_timeout opts\<rparr>"

definition interval_tick :: "('d, 'e) polling \<Rightarrow> ('d, 'e) polling" where
  "interval_tick s = (if interval_on s then poll s else s)"

definition timeout_fires :: "('d, 'e) polling \<Rightarrow> ('d, 'e) polling" where
  "timeout_fires s =
     (if timeout_on s
      then poll_cleanup (s\<lparr>is_timed_out := True, timeout_calls := Suc (timeout_calls s), timeout_on := False\<rparr>)
      else s)"

definition note_answer :: "'e + 'd \<Rightarrow> ('d, 'e) polling \<Rightarrow> ('d, 'e) polling" where
  "note_answer answer s =
     (case answer of
        Inr d \<Rightarrow> s\<lparr>poll_data := Some d, poll_error := None\<rparr>
      | Inl e \<Rightarrow> s\<lparr>poll_error := Some e, error_calls := error_calls s @ [e]\<rparr>)"

definition stops :: "'d polling_options \<Rightarrow> 'e + 'd \<Rightarrow> bool" where
  "stops opts answer \<longleftrightarrow>
     (case (should_stop opts, answer) of (Some p, Inr d) \<Rightarrow> p d | _ \<Rightarrow> False)"

definition check_attempts :: "'d polling_options \<Rightarrow> ('d, 'e) polling \<Rightarrow> ('d, 'e) polling" where
  "check_attempts opts s =
     (if 0 < max_attempts opts \<and> max_attempts opts \<le> attempt s then poll_cleanup s else s)"

text \<open>The \<open>i\<close>-th fetch in flight is answered: the rest of \<open>poll\<close>, or of \<open>refresh\<close>.\<close>

definition fetch_answered ::
  "'d polling_options \<Rightarrow> nat \<Rightarrow> 'e + 'd \<Rightarrow> ('d, 'e) polling \<Rightarrow> ('d, 'e) polling" where
  "fetch_answered opts i answer s =
     (if i < length (in_flight s) then
        (let s1 = s\<lparr>in_flight := take i (in_flight s) @ drop (Suc i) (in_flight s)\<rparr>
         in if cancelled s1 then s1
            else if in_flight s ! i = RefreshFetch then note_answer answer s1
            else if stops opts answer then poll_cleanup (note_answer answer s1)
            else check_attempts opts (note_answer answer s1))
      else s)"

definition cancel_polling :: "('d, 'e) polling \<Rightarrow> ('d, 'e) polling" where
  "cancel_polling s = poll_cleanup s"

definition refresh_poll :: "('d, 'e) polling \<Rightarrow> ('d, 'e) polling" where
  "refresh_poll s = (if cancelled s then s else begin_fetch RefreshFetch s)"

datatype ('d, 'e) poll_event =
    Tick
  | Timeout
  | Answer nat "'e + 'd"
  | Cancel
  | RefreshNow

fun poll_step :: "'d polling_options \<Rightarrow> ('d, 'e) poll_event \<Rightarrow> ('d, 'e) polling \<Rightarrow> ('d, 'e) polling" where
  "poll_step opts Tick s = interval_tick s"
| "poll_step opts Timeout s = timeout_fires s"
| "poll_step opts (Answer i a) s = fetch_answered opts i a s"
| "poll_step opts Cancel s = cancel_polling s"
| "poll_step opts RefreshNow s = refresh_poll s"

subsection \<open>Attempts\<close>

text \<open>A tick does not overlap when the last poll has been answered by then.\<close>

fun no_overlap :: "('d, 'e) polling \<Rightarrow> ('d, 'e) poll_event \<Rightarrow> bool" where
  "no_overlap s Tick \<longleftrightarrow> PollFetch \<notin> set (in_flight s)"
| "no_overlap s e \<longleftrightarrow> True"

fun steps :: "'d polling_options \<Rightarrow> ('d, 'e) poll_event list \<Rightarrow> ('d, 'e) polling \<Rightarrow> ('d, 'e) polling" where
  "steps opts [] s = s"
| "steps opts (e # es) s = steps opts es (poll_step opts e s)"

fun all_no_overlap :: "'d polling_options \<Rightarrow> ('d, 'e) poll_event list \<Rightarrow> ('d, 'e) polling \<Rightarrow> bool" where
  "all_no_overlap opts [] s \<longleftrightarrow> True"
| "all_no_overlap opts (e # es) s \<longleftrightarrow> no_overlap s e \<and> all_no_overlap opts es (poll_step opts e s)"

definition attempts_inv :: "'d polling_options \<Rightarrow> ('d, 'e) polling \<Rightarrow> bool" where
  "attempts_inv opts s \<longleftrightarrow> 0 < max_attempts opts \<and>
     attempt s \<le> max_attempts opts \<and> count_list (in_flight s) PollFetch \<le> 1 \<and>
     (cancelled s \<or> PollFetch \<in> set (in_flight s) \<or> attempt s < max_attempts opts)"

lemma attempts_inv_start:
  assumes "0 < max_attempts opts" and "in_flight s = []"
  shows "attempts_inv opts (start_polling opts s)"
  using assms by (simp add: attempts_inv_def start_polling_def poll_def begin_fetch_def)

lemma note_answer_fields [simp]:
  "attempt (note_answer a s) = attempt s" "in_flight (note_answer a s) = in_flight s"
  "cancelled (note_answer a s) = cancelled s" "fetched (note_answer a s) = fetched s"
  by (simp_all add: note_answer_def split: sum.split)

lemma count_remove_nth:
  "i < length xs \<Longrightarrow> count_list xs x = (if xs ! i = x then 1 else 0) + count_list (take i xs @ drop (Suc i) xs) x"
  by (subst id_take_nth_drop [of i xs]) (simp_all)

lemma attempts_inv_step:
  assumes "attempts_inv opts s" and "no_overlap s e"
  shows "attempts_inv opts (poll_step opts e s)"
proof (cases e)
  case Tick
  then show ?thesis
    using assms by (auto simp: attempts_inv_def interval_tick_def poll_def begin_fetch_def count_list_0_iff)
next
  case (Answer i a)
  show ?thesis
  proof (cases "i < length (in_flight s)")
    case True
    let ?rest = "take i (in_flight s) @ drop (Suc i) (in_flight s)"
    have c: "count_list (in_flight s) PollFetch =
        (if in_flight s ! i = PollFetch then 1 else 0) + count_list ?rest PollFetch"
      by (rule count_remove_nth [OF True])
    have m: "PollFetch \<in> set xs \<longleftrightarrow> 0 < count_list xs PollFetch" for xs
      by (metis count_list_0_iff not_gr_zero)
    show ?thesis
      using assms(1) True c unfolding attempts_inv_def m
      by (cases "in_flight s ! i")
        (auto simp: Answer fetch_answered_def check_attempts_def poll_cleanup_def Let_def)
  qed (use assms Answer in \<open>simp add: fetch_answered_def\<close>)
qed (use assms in \<open>auto simp: attempts_inv_def timeout_fires_def poll_cleanup_def cancel_polling_def
  refresh_poll_def begin_fetch_def\<close>)

lemma attempts_inv_steps:
  "attempts_inv opts s \<Longrightarrow> all_no_overlap opts es s \<Longrightarrow> attempts_inv opts (steps opts es s)"
  by (induction es arbitrary: s) (simp_all add: attempts_inv_step)

subsection \<open>Properties\<close>

text \<open>As long as every poll is answered before the next tick of the interval, whatever else happens,
  the hook makes at most \<open>maxAttempts\<close> polls.\<close>

theorem polling_respects_max_attempts:
  assumes "0 < max_attempts opts" and "in_flight s = []"
    and "all_no_overlap opts es (start_polling opts s)"
  shows "attempt (steps opts es (start_polling opts s)) \<le> max_attempts opts"
  using attempts_inv_steps [OF attempts_inv_start [OF assms(1,2)] assms(3)] by (simp add: attempts_inv_def)

text \<open>When the answers take longer than the interval, the limit is not observed: \<open>k\<close> ticks before the
  first answer make \<open>k\<close> more polls, however small \<open>maxAttempts\<close> is, and the hook goes on polling.\<close>

theorem slow_polls_exceed_max_attempts:
  fixes s :: "('d, 'e) polling"
  shows "let s' = steps opts (replicate k Tick) (start_polling opts s) in
    attempt s' = Suc k \<and> fetched s' = fetched s + Suc k \<and> is_polling s'"
proof -
  have tick: "interval_on t \<and> \<not> cancelled t \<and> is_polling t \<Longrightarrow>
      attempt (steps opts (replicate k Tick) t) = attempt t + k \<and>
      fetched (steps opts (replicate k Tick) t) = fetched t + k \<and>
      is_polling (steps opts (replicate k Tick) t)" for t :: "('d, 'e) polling"
    by (induction k arbitrary: t) (simp_all add: interval_tick_def poll_def begin_fetch_def)
  show ?thesis
    using tick [of "start_polling opts s"] by (simp add: start_polling_def poll_def begin_fetch_def Let_def)
qed

lemma polling_respects_max_attempts_witness:
  "attempt (steps \<lparr>max_attempts = 1, has_timeout = False, should_stop = None\<rparr> [Answer 0 (Inl ()), Tick]
     (start_polling \<lparr>max_attempts = 1, has_timeout = False, should_stop = None\<rparr> (idle_polling :: (nat, unit) polling))) \<le> 1"
  using polling_respects_max_attempts [of "\<lparr>max_attempts = 1, has_timeout = False, should_stop = None\<rparr>"
      "idle_polling :: (nat, unit) polling" "[Answer 0 (Inl ()), Tick]"]
  by (simp add: idle_polling_def start_polling_def poll_def begin_fetch_def fetch_answered_def
      stops_def check_attempts_def note_answer_def poll_cleanup_def Let_def)

end
