(* ===== verification/Technologies.thy ===== *)
theory Technologies
  imports Base
begin

section \<open>Choosing technologies for a project\<close>

text \<open>
  \<^verbatim>\<open>apps/chat/app/projects/page.tsx\<close>, lines 65-113: the worklist that adds everything the selected
  technologies require, and the table of conflicts.  A JavaScript set is a list without duplicates, in
  insertion order.
\<close>

record technology =
  tech_id :: string
  tech_name :: string
  requires_technologies :: "string list"
  conflicts_with :: "string list"

type_synonym tech_map = "(string \<times> technology) list"

text \<open>\<open>new Map(allTechs.map((t) => [t.id, t]))\<close>: of two with the same id the later one counts.\<close>

definition tech_map_of :: "technology list \<Rightarrow> tech_map" where
  "tech_map_of techs = rev (map (\<lambda>t. (tech_id t, t)) techs)"

definition set_add :: "'a \<Rightarrow> 'a list \<Rightarrow> 'a list" where
  "set_add x xs = (if x \<in> set xs then xs else xs @ [x])"

lemma set_add_set [simp]: "set (set_add x xs) = insert x (set xs)"
  by (auto simp: set_add_def)

text \<open>The body of the inner loop, on the final set, the added ones and the queue.\<close>

definition add_dependency ::
  "string list \<Rightarrow> string \<Rightarrow> string list \<times> string list \<times> string list \<Rightarrow>
   string list \<times> string list \<times> string list" where
  "add_dependency visited dep acc =
     (let (final, auto, queue) = acc;
          (final', auto') = (if dep \<in> set final then (final, auto) else (set_add dep final, set_add dep auto))
      in (final', auto', if dep \<in> set visited then queue else queue @ [dep]))"

function resolve_loop ::
  "tech_map \<Rightarrow> string list \<Rightarrow> string list \<Rightarrow> string list \<Rightarrow> string list \<Rightarrow> string list \<times> string list" where
  "resolve_loop m final auto visited [] = (final, auto)"
| "resolve_loop m final auto visited (x # queue) =
     (if x \<in> set visited then resolve_loop m final auto visited queue
      else
        (case map_of m x of
           None \<Rightarrow> resolve_loop m final auto (set_add x visited) queue
         | Some tech \<Rightarrow>
             (let (final', auto', queue') =
                fold (add_dependency (set_add x visited)) (requires_technologies tech) (final, auto, queue)
              in resolve_loop m final' auto' (set_add x visited) queue')))"
  by pat_completeness auto

text \<open>
  Each round either visits a known technology for the first time, or leaves the unvisited known ones
  as they are and shortens the queue.
\<close>

termination
proof (relation "measures [\<lambda>(m, final, auto, visited, queue). card (fst ` set m - set visited),
    \<lambda>(m, final, auto, visited, queue). length queue]", goal_cases)
  case (3 m final auto visited x queue)
  have "fst ` set m - set (set_add x visited) = fst ` set m - set visited"
    using 3(2) by (auto simp: set_add_def map_of_eq_None_iff)
  then show ?case by simp
next
  case (4 m final auto visited x queue tech p final' q auto' queue')
  have "x \<in> fst ` set m - set visited"
    using 4(1,2) by (metis Diff_iff map_of_eq_None_iff option.distinct(1))
  moreover have "fst ` set m - set (set_add x visited) = (fst ` set m - set visited) - {x}" by auto
  ultimately have "card (fst ` set m - set (set_add x visited)) < card (fst ` set m - set visited)"
    using card_Diff1_less [of "fst ` set m - set visited" x] by simp
  then show ?case by simp
qed simp_all

definition resolve_selected_technologies ::
  "string list \<Rightarrow> technology list \<Rightarrow> string list \<times> string list" where
  "resolve_selected_technologies selected techs =
     resolve_loop (tech_map_of techs) selected [] [] selected"

text \<open>\<open>getConflicts\<close>: a later conflict with the same technology replaces the message.\<close>

definition technology_conflicts ::
  "string list \<Rightarrow> technology \<Rightarrow> (string \<times> string) list \<Rightarrow> (string \<times> string) list" where
  "technology_conflicts selected tech acc =
     fold (\<lambda>k acc. if k \<in> set selected then acc else AList.update k (''Conflicts with '' @ tech_name tech) acc)
       (conflicts_with tech) acc"

definition get_conflicts :: "string list \<Rightarrow> technology list \<Rightarrow> (string \<times> string) list" where
  "get_conflicts selected techs =
     fold (\<lambda>x acc. case map_of (tech_map_of techs) x of
         None \<Rightarrow> acc | Some tech \<Rightarrow> technology_conflicts selected tech acc) selected []"

subsection \<open>The least closed set\<close>

inductive_set needed :: "tech_map \<Rightarrow> string set \<Rightarrow> string set" for m :: tech_map and S :: "string set" where
  selected: "x \<in> S \<Longrightarrow> x \<in> needed m S"
| required: "x \<in> needed m S \<Longrightarrow> map_of m x = Some t \<Longrightarrow> d \<in> set (requires_technologies t) \<Longrightarrow> d \<in> needed m S"

definition worklist_inv ::
  "tech_map \<Rightarrow> string list \<Rightarrow> string list \<Rightarrow> string list \<Rightarrow> string list \<Rightarrow> string list \<Rightarrow> bool" where
  "worklist_inv m selected final auto visited queue \<longleftrightarrow>
     final = selected @ auto \<and> distinct final \<and> set final \<subseteq> needed m (set selected) \<and>
     set queue \<subseteq> set final \<and> set visited \<subseteq> set final \<and> set final \<subseteq> set visited \<union> set queue \<and>
     (\<forall>x t. x \<in> set visited \<longrightarrow> map_of m x = Some t \<longrightarrow> set (requires_technologies t) \<subseteq> set final)"

lemma add_dependencies:
  assumes "final = selected @ auto" and "distinct final" and "set queue \<subseteq> set final"
    and "fold (add_dependency visited) deps (final, auto, queue) = (final', auto', queue')"
  shows "final' = selected @ auto' \<and> distinct final' \<and> set final' = set final \<union> set deps \<and>
    set queue' = set queue \<union> (set deps - set visited)"
  using assms
proof (induction deps arbitrary: final auto queue)
  case (Cons d deps)
  let ?final = "if d \<in> set final then final else final @ [d]"
  let ?auto = "if d \<in> set final then auto else auto @ [d]"
  let ?queue = "if d \<in> set visited then queue else queue @ [d]"
  have add: "add_dependency visited d (final, auto, queue) = (?final, ?auto, ?queue)"
    using Cons.prems(1) by (auto simp: add_dependency_def set_add_def)
  have f: "set ?final = insert d (set final)" "set ?queue = set queue \<union> ({d} - set visited)" by auto
  have g: "?final = selected @ ?auto" "distinct ?final" using Cons.prems(1,2) by auto
  have h: "set ?queue \<subseteq> set ?final" using Cons.prems(3) by auto
  have k: "fold (add_dependency visited) deps (?final, ?auto, ?queue) = (final', auto', queue')"
    using Cons.prems(4) by (simp only: fold_simps add)
  show ?case using Cons.IH [OF g h k] unfolding f by auto
qed auto

text \<open>Visiting an id that is unknown, or visited already, only shortens the queue.\<close>

lemma worklist_skip:
  assumes "worklist_inv m selected final auto visited (x # queue)"
    and "x \<in> set visited \<or> map_of m x = None" and "set visited' = insert x (set visited)"
  shows "worklist_inv m selected final auto visited' queue"
proof -
  have "final = selected @ auto" "distinct final" "set final \<subseteq> needed m (set selected)"
      "set queue \<subseteq> set final" "x \<in> set final" "set visited \<subseteq> set final"
      "set final \<subseteq> set visited \<union> insert x (set queue)"
    and closed: "\<And>y t. y \<in> set visited \<Longrightarrow> map_of m y = Some t \<Longrightarrow> set (requires_technologies t) \<subseteq> set final"
    using assms(1) [unfolded worklist_inv_def list.set] by blast+
  moreover have "set (requires_technologies t) \<subseteq> set final"
    if "y \<in> insert x (set visited)" "map_of m y = Some t" for y t
    using that assms(2) closed by (cases "y \<in> set visited") auto
  ultimately show ?thesis unfolding worklist_inv_def assms(3) by blast
qed

lemma worklist_done:
  "worklist_inv m selected final auto visited queue \<Longrightarrow>
   resolve_loop m final auto visited queue = (final', auto') \<Longrightarrow>
   final' = selected @ auto' \<and> distinct final' \<and> set final' = needed m (set selected)"
proof (induction m final auto visited queue rule: resolve_loop.induct)
  case (1 m final auto visited)
  then have f: "final' = final" "auto' = auto" by simp_all
  have "x \<in> set final" if "x \<in> needed m (set selected)" for x
    using that
  proof induction
    case (selected x)
    then show ?case using 1(1) by (simp add: worklist_inv_def)
  next
    case (required x t d)
    then have "x \<in> set visited" using 1(1) by (auto simp: worklist_inv_def)
    then have "set (requires_technologies t) \<subseteq> set final"
      using 1(1) required(2) unfolding worklist_inv_def by blast
    then show ?case using required(3) f by blast
  qed
  then show ?case using 1(1) f by (auto simp: worklist_inv_def)
next
  case (2 m final auto visited x queue)
  show ?case
  proof (cases "x \<in> set visited")
    case True
    have "worklist_inv m selected final auto visited queue"
      using worklist_skip [OF 2(4)] True by (simp add: insert_absorb)
    moreover have "resolve_loop m final auto visited queue = (final', auto')" using 2(5) True by simp
    ultimately show ?thesis using 2(1) [OF True] by blast
  next
    case fresh: False
    show ?thesis
    proof (cases "map_of m x")
      case None
      have "worklist_inv m selected final auto (set_add x visited) queue"
        using worklist_skip [OF 2(4)] None by simp
      moreover have "resolve_loop m final auto (set_add x visited) queue = (final', auto')"
        using 2(5) fresh None by simp
      ultimately show ?thesis using 2(2) [OF fresh None] by blast
    next
      case (Some tech)
      obtain f a q where fold: "fold (add_dependency (set_add x visited)) (requires_technologies tech)
          (final, auto, queue) = (f, a, q)"
        by (cases "fold (add_dependency (set_add x visited)) (requires_technologies tech) (final, auto, queue)")
      have inv: "worklist_inv m selected final auto visited (x # queue)" by (rule 2(4))
      then have i: "final = selected @ auto" "distinct final" "set queue \<subseteq> set final"
          "set final \<subseteq> needed m (set selected)" "x \<in> set final" "set visited \<subseteq> set final"
          "set final \<subseteq> set visited \<union> insert x (set queue)"
        and closed: "\<And>y t. y \<in> set visited \<Longrightarrow> map_of m y = Some t \<Longrightarrow> set (requires_technologies t) \<subseteq> set final"
        unfolding worklist_inv_def list.set by blast+
      have d: "f = selected @ a" "distinct f" "set f = set final \<union> set (requires_technologies tech)"
          "set q = set queue \<union> (set (requires_technologies tech) - insert x (set visited))"
        using add_dependencies [OF i(1-3) fold] unfolding set_add_set by blast+
      have "set (requires_technologies tech) \<subseteq> needed m (set selected)"
        using i(4,5) Some needed.required [of x m "set selected" tech] by blast
      then have sub: "set f \<subseteq> needed m (set selected)" using i(4) d(3) by simp
      have new: "set (requires_technologies t) \<subseteq> set f"
        if "y \<in> insert x (set visited)" "map_of m y = Some t" for y t
        using that Some closed d(3) by (cases "y = x") auto
      have q: "set q \<subseteq> set f" using i(3) d(3,4) by blast
      have v: "insert x (set visited) \<subseteq> set f" using i(5,6) d(3) by blast
      have c: "set f \<subseteq> insert x (set visited) \<union> set q" using i(7) d(3,4) by blast
      have "worklist_inv m selected f a (set_add x visited) q"
        unfolding worklist_inv_def set_add_set
        by (intro conjI allI impI) (fact d(1) d(2) sub q v c new)+
      moreover have "resolve_loop m f a (set_add x visited) q = (final', auto')"
        using 2(5) fresh Some fold by simp
      ultimately show ?thesis using 2(3) [OF fresh Some fold [symmetric] refl] by blast
    qed
  qed
qed

subsection \<open>Properties\<close>

text \<open>C10: resolving a selection terminates for any table of technologies, cyclic ones included, and gives the
  least set that contains the selection and all that its known members require; the technologies reported
  as added automatically are exactly those of it that were not selected, each once.\<close>

theorem resolve_least_closed:
  assumes "distinct selected" and "resolve_selected_technologies selected techs = (final, auto)"
  shows "set final = needed (tech_map_of techs) (set selected) \<and> final = selected @ auto \<and> distinct final"
proof -
  have "worklist_inv (tech_map_of techs) selected selected [] [] selected"
    using assms(1) by (auto simp: worklist_inv_def intro: needed.selected)
  from worklist_done [OF this] assms(2) show ?thesis
    unfolding resolve_selected_technologies_def by blast
qed

lemma conflicts_not_selected:
  "fst ` set (get_conflicts selected techs) \<inter> set selected = {}"
proof -
  have inner: "fst ` set acc \<inter> set selected = {} \<Longrightarrow>
      fst ` set (technology_conflicts selected tech acc) \<inter> set selected = {}" for tech acc
  proof -
    have "fst ` set acc \<inter> set selected = {} \<Longrightarrow>
        fst ` set (fold (\<lambda>k acc. if k \<in> set selected then acc
          else AList.update k (''Conflicts with '' @ tech_name tech) acc) ks acc) \<inter> set selected = {}" for ks
      by (induction ks arbitrary: acc) (auto simp: dom_update)
    then show "fst ` set acc \<inter> set selected = {} \<Longrightarrow> ?thesis" by (simp add: technology_conflicts_def)
  qed
  have "fst ` set acc \<inter> set selected = {} \<Longrightarrow>
      fst ` set (fold (\<lambda>x acc. case map_of (tech_map_of techs) x of
         None \<Rightarrow> acc | Some tech \<Rightarrow> technology_conflicts selected tech acc) xs acc) \<inter> set selected = {}" for xs acc
    by (induction xs arbitrary: acc) (auto simp: inner split: option.split)
  then show ?thesis by (simp add: get_conflicts_def)
qed

definition sample_technologies :: "technology list" where
  "sample_technologies =
     [\<lparr>tech_id = ''drupal'', tech_name = ''Drupal'', requires_technologies = [''php'', ''mysql''], conflicts_with = []\<rparr>,
      \<lparr>tech_id = ''php'', tech_name = ''PHP'', requires_technologies = [''composer''], conflicts_with = []\<rparr>,
      \<lparr>tech_id = ''composer'', tech_name = ''Composer'', requires_technologies = [''php''], conflicts_with = []\<rparr>,
      \<lparr>tech_id = ''postgres'', tech_name = ''PostgreSQL'', requires_technologies = [], conflicts_with = [''mysql'']\<rparr>]"

text \<open>The automatically added \<open>mysql\<close> conflicts with the selected \<open>postgres\<close>, and is not reported.\<close>

lemma resolve_least_closed_witness:
  "resolve_selected_technologies [''drupal'', ''postgres''] sample_technologies =
     ([''drupal'', ''postgres'', ''php'', ''mysql'', ''composer''], [''php'', ''mysql'', ''composer'']) \<and>
   ''composer'' \<in> needed (tech_map_of sample_technologies) {''drupal'', ''postgres''} \<and>
   get_conflicts [''drupal'', ''postgres'', ''php'', ''mysql'', ''composer''] sample_technologies = []"
proof -
  have r: "resolve_selected_technologies [''drupal'', ''postgres''] sample_technologies =
     ([''drupal'', ''postgres'', ''php'', ''mysql'', ''composer''], [''php'', ''mysql'', ''composer''])"
    by code_simp
  have "get_conflicts [''drupal'', ''postgres'', ''php'', ''mysql'', ''composer''] sample_technologies = []"
    by code_simp
  moreover have "distinct [''drupal'', ''postgres'']" by simp
  from resolve_least_closed [OF this r]
  have "needed (tech_map_of sample_technologies) (set [''drupal'', ''postgres'']) =
      set [''drupal'', ''postgres'', ''php'', ''mysql'', ''composer'']" by (rule conjE) (rule sym)
  then have "''composer'' \<in> needed (tech_map_of sample_technologies) {''drupal'', ''postgres''}" by simp
  ultimately show ?thesis using r by blast
qed

end
