(* ===== verification/Filenames.thy ===== *)
theory Filenames
  imports Base
begin

section \<open>File names and form values\<close>

text \<open>
  \<^verbatim>\<open>packages/api/utils/validation.ts\<close>: the validators of form values and of file names, and
  \<open>sanitizeFilename\<close>.  The regular expressions of the file are written out as functions on the
  characters of an ASCII string; \<open>toFixed(1)\<close> of the host is the argument \<open>fixed1\<close>.
\<close>

subsection \<open>Trimming and patterns\<close>

definition white :: "char \<Rightarrow> bool" where
  "white c \<longleftrightarrow> of_char c \<in> {9, 10, 11, 12, 13, 32 :: nat}"

definition trim_end_by :: "(char \<Rightarrow> bool) \<Rightarrow> string \<Rightarrow> string" where
  "trim_end_by p s = rev (dropWhile p (rev s))"

definition trim :: "string \<Rightarrow> string" where
  "trim s = trim_end_by white (dropWhile white s)"

definition dangerous :: "char \<Rightarrow> bool" where
  "dangerous c \<longleftrightarrow> of_char c < (32::nat) \<or> of_char c \<in> {34, 42, 47, 58, 60, 62, 63, 92, 124 :: nat}"

text \<open>\<^verbatim>\<open>s.replace(/\.[^.]+$/, "")\<close>: the last dot goes with what follows it, if something does.\<close>

definition strip_extension :: "string \<Rightarrow> string" where
  "strip_extension s =
     (let ext = takeWhile (\<lambda>c. c \<noteq> CHR ''.'') (rev s); rest = dropWhile (\<lambda>c. c \<noteq> CHR ''.'') (rev s)
      in if ext \<noteq> [] \<and> rest \<noteq> [] then rev (drop 1 rest) else s)"

definition reserved_names :: "string list" where
  "reserved_names =
     [''CON'', ''PRN'', ''AUX'', ''NUL'',
      ''COM1'', ''COM2'', ''COM3'', ''COM4'', ''COM5'', ''COM6'', ''COM7'', ''COM8'', ''COM9'',
      ''LPT1'', ''LPT2'', ''LPT3'', ''LPT4'', ''LPT5'', ''LPT6'', ''LPT7'', ''LPT8'', ''LPT9'']"

definition base_name :: "string \<Rightarrow> string" where
  "base_name s = to_upper (strip_extension s)"

subsection \<open>Validators: none, or the message\<close>

definition validate_required :: "string \<Rightarrow> string option" where
  "validate_required v = (if trim v = [] then Some ''This field is required'' else None)"

definition validate_min_length :: "string \<Rightarrow> nat \<Rightarrow> string option" where
  "validate_min_length v n =
     (if length v < n then Some (''Must be at least '' @ show_nat n @ '' characters'') else None)"

definition validate_max_length :: "string \<Rightarrow> nat \<Rightarrow> string option" where
  "validate_max_length v n =
     (if n < length v then Some (''Must be at most '' @ show_nat n @ '' characters'') else None)"

definition validate_pattern :: "string \<Rightarrow> (string \<Rightarrow> bool) \<Rightarrow> string \<Rightarrow> string option" where
  "validate_pattern v pattern msg = (if pattern v then None else Some msg)"

definition validate_filename :: "string \<Rightarrow> string option" where
  "validate_filename name =
     (let trimmed = trim name; base = base_name trimmed
      in if name = [] \<or> trimmed = [] then Some ''Filename cannot be empty''
         else if trimmed = ''.'' then Some ''Filename cannot be just a dot''
         else if trimmed = ''..'' then Some (''Filename cannot be '' @ [char_of (39::nat)] @ ''..'' @ [char_of (39::nat)])
         else if 255 < length trimmed then Some ''Filename is too long (max 255 characters)''
         else if \<exists>c \<in> set trimmed. dangerous c then Some ''Filename contains invalid characters''
         else if base \<in> set reserved_names
         then Some ([char_of (34::nat)] @ base @ [char_of (34::nat)] @ '' is a reserved name'')
         else if ends_with name '' '' \<or> ends_with name ''.''
         then Some ''Filename cannot end with a space or period''
         else None)"

definition validate_file_size :: "(real \<Rightarrow> string) \<Rightarrow> real \<Rightarrow> real \<Rightarrow> (real \<Rightarrow> string) \<Rightarrow> string option" where
  "validate_file_size fixed1 bytes max_mb num =
     (if max_mb * 1024 * 1024 < bytes
      then Some (''File is '' @ fixed1 (bytes / (1024 * 1024)) @ '' MB (max '' @ num max_mb @ '' MB)'')
      else None)"

definition replace_dangerous :: "string \<Rightarrow> string" where
  "replace_dangerous = map (\<lambda>c. if dangerous c then CHR ''_'' else c)"

definition dot_or_space :: "char \<Rightarrow> bool" where
  "dot_or_space c \<longleftrightarrow> c = CHR ''.'' \<or> c = CHR '' ''"

definition sanitize_filename :: "string \<Rightarrow> string" where
  "sanitize_filename name =
     (let s1 = replace_dangerous (trim name);
          s2 = (if base_name s1 \<in> set reserved_names then ''_'' @ s1 else s1);
          s3 = trim_end_by dot_or_space s2;
          s4 = (if s3 = [] then ''untitled'' else s3)
      in take 255 s4)"

subsection \<open>Lemmas\<close>

lemma trim_end_same: "s = [] \<or> \<not> p (last s) \<Longrightarrow> trim_end_by p s = s"
  by (cases s rule: rev_cases) (simp_all add: trim_end_by_def)

lemma trim_same:
  assumes "s = [] \<or> (\<not> white (hd s) \<and> \<not> white (last s))"
  shows "trim s = s"
  using assms trim_end_same [of s white] by (cases s) (auto simp: trim_def)

lemma trim_end_last: "trim_end_by p s = [] \<or> \<not> p (last (trim_end_by p s))"
  by (induction s rule: rev_induct) (auto simp: trim_end_by_def)

lemma trim_ends: "trim s = [] \<or> (\<not> white (hd (trim s)) \<and> \<not> white (last (trim s)))"
proof -
  have hd_kept: "t \<noteq> [] \<Longrightarrow> \<not> p (hd t) \<Longrightarrow> trim_end_by p t \<noteq> [] \<and> hd (trim_end_by p t) = hd t"
    for p and t :: string
    by (induction t rule: rev_induct) (auto simp: trim_end_by_def hd_append)
  show ?thesis
  proof (cases "dropWhile white s")
    case Nil
    show ?thesis unfolding trim_def Nil by (simp add: trim_end_by_def)
  next
    case (Cons c cs)
    then have "\<not> white c" using hd_dropWhile [of white s] by simp
    then show ?thesis
      using hd_kept [of "c # cs" white] trim_end_last [of white "c # cs"] by (simp add: trim_def Cons)
  qed
qed

lemma trim_idem: "trim (trim s) = trim s"
  using trim_ends [of s] by (intro trim_same) simp

text \<open>The parts of a list that was joined with a comma and a blank, as the forms show their tags.\<close>

lemma trim_blank_front: "trim (CHR '' '' # s) = trim s"
  by (simp add: trim_def white_def)

lemma split_joined_tags:
  "\<forall>t \<in> set ts. CHR '','' \<notin> set t \<Longrightarrow> ts \<noteq> [] \<Longrightarrow>
   split_on CHR '','' (join '', '' ts) = hd ts # map (Cons CHR '' '') (tl ts)"
proof (induction ts rule: induct_list012)
  case (2 t)
  then show ?case by (simp add: split_on_no_sep)
next
  case (3 t u ts)
  have "split_on CHR '','' (CHR '' '' # join '', '' (u # ts)) = (CHR '' '' # u) # map (Cons CHR '' '') ts"
    using 3 by simp
  then show ?case using 3(3) by (simp add: split_on_no_sep)
qed simp

lemma tags_of_joined:
  assumes "\<forall>t \<in> set ts. trim t = t \<and> t \<noteq> [] \<and> CHR '','' \<notin> set t"
  shows "filter (\<lambda>t. t \<noteq> []) (map trim (split_on CHR '','' (join '', '' ts))) = ts"
proof (cases ts)
  case Nil
  then show ?thesis by (simp add: trim_def trim_end_by_def)
next
  case (Cons t us)
  then have "split_on CHR '','' (join '', '' ts) = t # map (Cons CHR '' '') us"
    using assms split_joined_tags [of ts] by simp
  moreover have "map trim (map (Cons CHR '' '') us) = us"
    using assms Cons by (simp add: trim_blank_front map_idI)
  moreover have "filter (\<lambda>t. t \<noteq> []) (t # us) = t # us" using assms Cons by (auto simp: filter_id_conv)
  ultimately show ?thesis using assms Cons by (simp del: filter.simps)
qed

lemma strip_underscore: "strip_extension (CHR ''_'' # s) = CHR ''_'' # strip_extension s"
proof (cases "CHR ''.'' \<in> set s")
  case True
  then have "dropWhile (\<lambda>c. c \<noteq> CHR ''.'') (rev s) \<noteq> []"
    and "takeWhile (\<lambda>c. c \<noteq> CHR ''.'') (rev s @ [CHR ''_'']) = takeWhile (\<lambda>c. c \<noteq> CHR ''.'') (rev s)"
    and "dropWhile (\<lambda>c. c \<noteq> CHR ''.'') (rev s @ [CHR ''_'']) = dropWhile (\<lambda>c. c \<noteq> CHR ''.'') (rev s) @ [CHR ''_'']"
    by (auto simp: dropWhile_append1 takeWhile_append1 dropWhile_eq_Nil_conv)
  then show ?thesis
    by (cases "dropWhile (\<lambda>c. c \<noteq> CHR ''.'') (rev s)") (auto simp: strip_extension_def Let_def)
next
  case False
  then have "dropWhile (\<lambda>c. c \<noteq> CHR ''.'') (rev s) = []"
    and "dropWhile (\<lambda>c. c \<noteq> CHR ''.'') (rev s @ [CHR ''_'']) = []"
    by (auto simp: dropWhile_eq_Nil_conv)
  then show ?thesis by (simp add: strip_extension_def Let_def)
qed

lemma base_underscore: "base_name (CHR ''_'' # s) = CHR ''_'' # base_name s"
  by (simp add: base_name_def strip_underscore to_upper_def to_upper_char_def)

lemma reserved_start: "r \<in> set reserved_names \<Longrightarrow> r \<noteq> [] \<and> hd r \<noteq> CHR ''_''"
  by (auto simp: reserved_names_def)

lemma safe_replacement: "\<not> dangerous CHR ''_'' \<and> \<not> white CHR ''_'' \<and> \<not> dot_or_space CHR ''_''"
  by (simp add: dangerous_def white_def dot_or_space_def)

lemma replaced_safe: "c \<in> set (replace_dangerous s) \<Longrightarrow> \<not> dangerous c"
  using safe_replacement by (auto simp: replace_dangerous_def)

lemma replaced_char: "\<not> white c \<Longrightarrow> \<not> white (if dangerous c then CHR ''_'' else c)"
  using safe_replacement by simp

subsection \<open>Properties\<close>

text \<open>A sanitized file name is accepted by the validator, provided the trimmed input has at most 254
  characters and does not end with a period.\<close>

theorem sanitized_name_valid:
  assumes "length (trim name) \<le> 254" and "\<not> ends_with (trim name) ''.''"
  shows "validate_filename (sanitize_filename name) = None"
proof -
  let ?d = "replace_dangerous (trim name)"
  let ?e = "if base_name ?d \<in> set reserved_names then ''_'' @ ?d else ?d"
  have ends: "s \<noteq> [] \<Longrightarrow> ends_with s [c] \<longleftrightarrow> last s = c" for s :: string and c
    by (cases s rule: rev_cases) (auto simp: ends_with_def)
  show ?thesis
  proof (cases "trim name = []")
    case True
    have "sanitize_filename name = ''untitled''"
      using True by (simp add: sanitize_filename_def replace_dangerous_def base_name_def strip_extension_def
          to_upper_def reserved_names_def trim_end_by_def)
    moreover have "validate_filename ''untitled'' = None" by code_simp
    ultimately show ?thesis by simp
  next
    case False
    have d: "?d \<noteq> []" "length ?d \<le> 254" using False assms(1) by (simp_all add: replace_dangerous_def)
    have hd: "\<not> white (hd ?d)" and last: "\<not> white (last ?d)"
      using trim_ends [of name] False replaced_char by (simp_all add: replace_dangerous_def hd_map last_map)
    have dot: "last ?d \<noteq> CHR ''.''"
      using assms(2) False ends [of "trim name"] safe_replacement
      by (auto simp: replace_dangerous_def last_map dot_or_space_def)
    have e: "?e \<noteq> []" "last ?e = last ?d" "length ?e \<le> 255" "\<not> white (hd ?e)"
      using d hd safe_replacement by simp_all
    have end_ok: "\<not> dot_or_space (last ?e)"
      using dot last e(2) by (auto simp: dot_or_space_def white_def)
    then have "sanitize_filename name = ?e"
      using e trim_end_same [of ?e dot_or_space] by (simp add: sanitize_filename_def Let_def)
    moreover have "trim ?e = ?e" using e(2,4) last by (intro trim_same) simp
    moreover have "CHR ''_'' # x \<notin> set reserved_names" for x
      using reserved_start [of "CHR ''_'' # x"] by auto
    then have "base_name ?e \<notin> set reserved_names" using base_underscore [of ?d] by simp
    moreover have "\<forall>c \<in> set ?e. \<not> dangerous c" using replaced_safe safe_replacement by auto
    moreover have "?e \<noteq> ''.''" "?e \<noteq> ''..''" using end_ok by (auto simp: dot_or_space_def split: if_splits)
    ultimately show ?thesis
      using e end_ok ends [of ?e] by (auto simp: validate_filename_def Let_def dot_or_space_def)
  qed
qed

lemma reserved_facts:
  "r \<in> set reserved_names \<Longrightarrow> r \<noteq> [] \<and> length r \<le> 4 \<and> to_upper r = r \<and>
     (\<forall>c \<in> set r. \<not> white c \<and> \<not> dangerous c \<and> \<not> dot_or_space c)"
proof -
  have "\<forall>r \<in> set reserved_names. r \<noteq> [] \<and> length r \<le> 4 \<and> to_upper r = r \<and>
      (\<forall>c \<in> set r. \<not> white c \<and> \<not> dangerous c \<and> \<not> dot_or_space c)"
    by code_simp
  then show "r \<in> set reserved_names \<Longrightarrow> ?thesis" by blast
qed

text \<open>A reserved device name followed by periods or spaces comes out of \<open>sanitizeFilename\<close> as the
  reserved name itself, which \<open>validateFilename\<close> rejects.\<close>

theorem sanitize_yields_reserved_name:
  assumes "r \<in> set reserved_names"
  shows "sanitize_filename (r @ ''.'') = r \<and> validate_filename r \<noteq> None"
proof
  have r: "r \<noteq> []" "length r \<le> 4" "to_upper r = r" "\<And>c. c \<in> set r \<Longrightarrow> \<not> white c \<and> \<not> dangerous c \<and> \<not> dot_or_space c"
    using reserved_facts [OF assms] by auto
  have dot: "\<not> white CHR ''.''" "\<not> dangerous CHR ''.''" "to_upper_char CHR ''.'' = CHR ''.''"
    by (simp_all add: white_def dangerous_def to_upper_char_def)
  have hd: "\<not> white (hd r)" and last: "\<not> white (last r)" using r(1,4) by simp_all
  have trim: "trim (r @ ''.'') = r @ ''.''" "trim r = r"
    using r(1) hd last dot by (auto intro!: trim_same)
  have safe: "replace_dangerous (r @ ''.'') = r @ ''.''"
    unfolding replace_dangerous_def using r(4) dot by (intro map_idI) auto
  have "CHR ''.'' \<notin> set r" using r(4) by (auto simp: dot_or_space_def)
  moreover have "base_name (r @ ''.'') = to_upper r @ ''.''"
    using dot by (simp add: base_name_def strip_extension_def to_upper_def)
  ultimately have "base_name (r @ ''.'') \<notin> set reserved_names"
    using reserved_facts [of "to_upper r @ ''.''"] by (auto simp: dot_or_space_def)
  moreover have "trim_end_by dot_or_space (r @ ''.'') = trim_end_by dot_or_space r"
    by (simp add: trim_end_by_def dot_or_space_def)
  moreover have "trim_end_by dot_or_space r = r"
    using r(1,4) by (intro trim_end_same) simp
  ultimately show "sanitize_filename (r @ ''.'') = r"
    using r(1,2) by (simp only: sanitize_filename_def trim safe Let_def if_False) simp
  have "dropWhile (\<lambda>c. c \<noteq> CHR ''.'') (rev r) = []"
    using r(4) by (auto simp: dropWhile_eq_Nil_conv dot_or_space_def)
  then have "base_name r = r" using r(3) by (simp add: base_name_def strip_extension_def)
  then show "validate_filename r \<noteq> None"
    using assms trim(2) by (simp add: validate_filename_def Let_def)
qed

lemma sanitized_name_valid_witness: "validate_filename (sanitize_filename ''con.txt'') = None"
proof -
  have "length (trim ''con.txt'') \<le> 254 \<and> \<not> ends_with (trim ''con.txt'') ''.''" by code_simp
  then show ?thesis using sanitized_name_valid by blast
qed

lemma sanitize_yields_reserved_name_witness: "sanitize_filename ''CON.'' = ''CON''"
  using sanitize_yields_reserved_name [of "''CON''"] by (simp add: reserved_names_def)

end
