(* ===== verification/Api_Core.thy ===== *)
theory Api_Core
  imports Http_Client Url_Codec Filenames
begin

section \<open>What the endpoint methods are made of\<close>

text \<open>
  \<^verbatim>\<open>packages/api/client.ts\<close>, lines 500-2812, is some 250 methods that each build a path, a query
  string and a body, and hand them to \<open>request\<close> or \<open>rawFetch\<close>.  This theory has their vocabulary:
  template literals with encoded and plain holes, the parameters of a query that are set when they
  are given, the options of \<open>RequestInit\<close>, the reading of a raw response, and how the browser and
  the server read the URL that results.  The methods themselves are in the theories \<open>Api_Kernel\<close> to
  \<open>Api_Notes\<close>, under their names in the source.  A number in a query is taken to be an integer.
\<close>

type_synonym 'r api = "http \<Rightarrow> (js_error + 'r) \<times> http"

subsection \<open>Paths\<close>

text \<open>
  A template literal: \<open>Raw x\<close> is the hole \<open>${x}\<close> and \<open>Enc x\<close> the hole \<open>${encodeURIComponent(x)}\<close>.
\<close>

datatype piece = Lit string | Raw string | Enc string

fun piece_text :: "piece \<Rightarrow> string" where
  "piece_text (Lit s) = s"
| "piece_text (Raw s) = s"
| "piece_text (Enc s) = encode_uri_component s"

definition route :: "piece list \<Rightarrow> string" where
  "route ps = concat (map piece_text ps)"

lemma route_simps [simp]:
  "route [] = []" "route (Lit s # ps) = s @ route ps" "route (Raw s # ps) = s @ route ps"
  "route (Enc s # ps) = encode_uri_component s @ route ps"
  by (simp_all add: route_def)

subsection \<open>Query strings\<close>

text \<open>
  \<open>if (x !== undefined) params.set(k, String(x))\<close> and \<open>if (x) params.set(k, x)\<close>, and the parameters that
  a list of such statements leaves.
\<close>

type_synonym params = "(string \<times> string) list"

definition set_defined :: "string \<Rightarrow> string option \<Rightarrow> params \<Rightarrow> params" where
  "set_defined k x ps = (case x of None \<Rightarrow> ps | Some v \<Rightarrow> params_set k v ps)"

definition set_truthy :: "string \<Rightarrow> string option \<Rightarrow> params \<Rightarrow> params" where
  "set_truthy k x ps = (if truthy_string x then params_set k (the x) ps else ps)"

definition search_params :: "(params \<Rightarrow> params) list \<Rightarrow> params" where
  "search_params fs = fold (\<lambda>f ps. f ps) fs []"

text \<open>\<open>`?${params}`\<close>, and \<open>query ? `?${query}` : ""\<close>.\<close>

definition query :: "params \<Rightarrow> string" where
  "query ps = ''?'' @ query_string ps"

definition query_if_any :: "params \<Rightarrow> string" where
  "query_if_any ps = (let q = query_string ps in if q = [] then [] else ''?'' @ q)"

text \<open>A member of an optional object, \<open>params?.member\<close>.\<close>

abbreviation member_of :: "'p option \<Rightarrow> ('p \<Rightarrow> 'a option) \<Rightarrow> 'a option" where
  "member_of p f \<equiv> Option.bind p f"

subsection \<open>Options of a call\<close>

definition with_method :: "string \<Rightarrow> call \<Rightarrow> call" where
  "with_method m c = c\<lparr>call_method := Some m\<rparr>"

definition with_json :: "json \<Rightarrow> call \<Rightarrow> call" where
  "with_json j c = c\<lparr>call_body := Some (JsonBody j)\<rparr>"

definition with_form :: "(string \<times> form_value) list \<Rightarrow> call \<Rightarrow> call" where
  "with_form fs c = c\<lparr>call_body := Some (FormBody fs)\<rparr>"

definition with_timeout :: "nat \<Rightarrow> call \<Rightarrow> call" where
  "with_timeout t c = c\<lparr>call_timeout := Some t\<rparr>"

definition with_retries :: "nat \<Rightarrow> call \<Rightarrow> call" where
  "with_retries n c = c\<lparr>call_retries := Some n\<rparr>"

abbreviation get :: "string \<Rightarrow> call" where "get \<equiv> plain_call"
abbreviation post :: "string \<Rightarrow> call" where "post path \<equiv> with_method ''POST'' (plain_call path)"
abbreviation put :: "string \<Rightarrow> call" where "put path \<equiv> with_method ''PUT'' (plain_call path)"
abbreviation patch :: "string \<Rightarrow> call" where "patch path \<equiv> with_method ''PATCH'' (plain_call path)"
abbreviation delete :: "string \<Rightarrow> call" where "delete path \<equiv> with_method ''DELETE'' (plain_call path)"

text \<open>\<open>formData.append\<close> of an optional value.\<close>

definition form_defined :: "string \<Rightarrow> string option \<Rightarrow> (string \<times> form_value) list" where
  "form_defined k x = (case x of None \<Rightarrow> [] | Some v \<Rightarrow> [(k, FormText v)])"

definition form_truthy :: "string \<Rightarrow> string option \<Rightarrow> (string \<times> form_value) list" where
  "form_truthy k x = (if truthy_string x then [(k, FormText (the x))] else [])"

text \<open>\<open>await this.request(...)\<close> with the result dropped.\<close>

definition ignore_result :: "json option api \<Rightarrow> json option api" where
  "ignore_result m s = (case m s of (Inl e, s1) \<Rightarrow> (Inl e, s1) | (Inr _, s1) \<Rightarrow> (Inr None, s1))"

text \<open>
  \<open>response.blob()\<close> and \<open>response.json()\<close> of a raw response; a blob is its bytes.  The time the body
  takes is not modelled, nor is the text of the error when reading it fails.
\<close>

definition read_blob :: "response api \<Rightarrow> string api" where
  "read_blob m s =
     (case m s of
        (Inl e, s1) \<Rightarrow> (Inl e, s1)
      | (Inr r, s1) \<Rightarrow> (case body_text r of None \<Rightarrow> Inl (NetworkErr []) | Some b \<Rightarrow> Inr b, s1))"

definition parse_body :: "response api \<Rightarrow> json api" where
  "parse_body m s =
     (case m s of
        (Inl e, s1) \<Rightarrow> (Inl e, s1)
      | (Inr r, s1) \<Rightarrow> (case body_json r of None \<Rightarrow> Inl SyntaxErr | Some j \<Rightarrow> Inr j, s1))"

definition api_error :: "nat \<Rightarrow> string \<Rightarrow> js_error" where
  "api_error st msg = ApiErr st msg None NoRetryAfter"

text \<open>A member that is spread in only when the string is truthy.\<close>

definition truthy_member :: "string option \<Rightarrow> json option" where
  "truthy_member x = (if truthy_string x then map_option JStr x else None)"

subsection \<open>How a URL is read\<close>

text \<open>
  What the browser asks the server for when it is given a path: the fragment is dropped, the query starts
  at the first question mark, a backslash counts as a slash, and the segments \<open>.\<close> and \<open>..\<close>, also in
  their percent-encoded forms, are resolved before anything is sent.
\<close>

definition before_any :: "char set \<Rightarrow> string \<Rightarrow> string" where
  "before_any seps u = takeWhile (\<lambda>c. c \<notin> seps) u"

definition after_first :: "char \<Rightarrow> string \<Rightarrow> string" where
  "after_first sep u = drop 1 (dropWhile (\<lambda>c. c \<noteq> sep) u)"

abbreviation backslash :: char where "backslash \<equiv> CHR 0x5C"

definition dot_segment :: "string \<Rightarrow> bool" where
  "dot_segment s \<longleftrightarrow> s \<in> {''.'', ''%2e'', ''%2E''}"

definition dot_dot_segment :: "string \<Rightarrow> bool" where
  "dot_dot_segment s \<longleftrightarrow> s \<in> {''..'', ''.%2e'', ''.%2E'', ''%2e.'', ''%2E.'',
     ''%2e%2e'', ''%2e%2E'', ''%2E%2e'', ''%2E%2E''}"

fun resolve_dots :: "string list \<Rightarrow> string list \<Rightarrow> string list" where
  "resolve_dots done [] = rev done"
| "resolve_dots done [s] =
     (if dot_dot_segment s then rev ([] # tl done)
      else if dot_segment s then rev ([] # done) else rev (s # done))"
| "resolve_dots done (s # t # ss) =
     (if dot_dot_segment s then resolve_dots (tl done) (t # ss)
      else if dot_segment s then resolve_dots done (t # ss) else resolve_dots (s # done) (t # ss))"

definition requested_segments :: "string \<Rightarrow> string list" where
  "requested_segments u =
     resolve_dots [] (tl (split_on CHR ''/''
       (map (\<lambda>c. if c = backslash then CHR ''/'' else c) (before_any {CHR ''?'', CHR ''#''} u))))"

definition requested_query :: "string \<Rightarrow> (string \<times> string) list" where
  "requested_query u = parse_query (after_first CHR ''?'' (before_any {CHR ''#''} u))"

text \<open>A segment that none of this touches.\<close>

definition plain_segment :: "string \<Rightarrow> bool" where
  "plain_segment s \<longleftrightarrow>
     set s \<inter> {CHR ''/'', backslash, CHR ''?'', CHR ''#''} = {} \<and> \<not> dot_segment s \<and> \<not> dot_dot_segment s"

definition path_text :: "string list \<Rightarrow> string" where
  "path_text ss = concat (map (\<lambda>s. CHR ''/'' # s) ss)"

lemma path_text_simps [simp]: "path_text [] = []" "path_text (s # ss) = CHR ''/'' # s @ path_text ss"
  by (simp_all add: path_text_def)

lemma split_path_text:
  "list_all plain_segment ss \<Longrightarrow> ss \<noteq> [] \<Longrightarrow> split_on CHR ''/'' (path_text ss) = [] # ss"
proof (induction ss)
  case (Cons s ss)
  have s: "CHR ''/'' \<notin> set s" using Cons.prems by (auto simp: plain_segment_def)
  show ?case
  proof (cases ss)
    case (Cons t ts)
    then have "split_on CHR ''/'' (path_text ss) = [] # ss" using Cons.IH Cons.prems by simp
    then show ?thesis using s Cons split_on_Cons_sep [of "CHR ''/''" s "t @ path_text ts"]
      by (simp add: split_on_no_sep)
  qed (simp add: s split_on_no_sep)
qed simp

lemma resolve_plain: "list_all plain_segment ss \<Longrightarrow> resolve_dots done ss = rev done @ ss"
proof (induction ss arbitrary: "done")
  case (Cons s ss)
  then show ?case by (cases ss) (auto simp: plain_segment_def)
qed simp

lemma before_any_absent: "set s \<inter> seps = {} \<Longrightarrow> before_any seps (s @ u) = s @ before_any seps u"
  unfolding before_any_def by (rule takeWhile_append2) auto

lemma path_text_chars:
  "list_all plain_segment ss \<Longrightarrow>
   set (path_text ss) \<inter> {CHR ''?'', CHR ''#''} = {} \<and> backslash \<notin> set (path_text ss)"
  by (induction ss) (auto simp: plain_segment_def)

lemma requested_path_text:
  assumes "list_all plain_segment ss" and "ss \<noteq> []" and "q = [] \<or> (\<exists>r. q = CHR ''?'' # r)"
  shows "requested_segments (path_text ss @ q) = ss"
proof -
  note path_text_chars [OF assms(1)]
  moreover have "before_any {CHR ''?'', CHR ''#''} q = []" using assms(3) by (auto simp: before_any_def)
  ultimately have "map (\<lambda>c. if c = backslash then CHR ''/'' else c) (before_any {CHR ''?'', CHR ''#''} (path_text ss @ q))
      = path_text ss"
    by (auto simp: before_any_absent intro: map_idI)
  then show ?thesis
    using split_path_text [OF assms(1,2)] resolve_plain [OF assms(1)] by (simp add: requested_segments_def)
qed

lemma component_separators:
  "\<not> component_harmless CHR ''/'' \<and> \<not> component_harmless backslash \<and> \<not> component_harmless CHR ''?'' \<and>
   \<not> component_harmless CHR ''#''"
  by (simp add: component_harmless_def component_safe_def alphanumeric_def)

lemma dot_char: "char_of (46 :: nat) = CHR ''.''"
  by code_simp

text \<open>Encoded text is a plain segment unless it is one of the two names that no encoding protects.\<close>

lemma encoded_segment:
  assumes "s \<noteq> ''.''" and "s \<noteq> ''..''"
  shows "plain_segment (encode_uri_component s)"
proof -
  let ?e = "encode_uri_component s"
  have d: "percent_decode ?e = s" by (rule uri_component.decode_encode)
  have c: "set ?e \<inter> {CHR ''/'', backslash, CHR ''?'', CHR ''#''} = {}"
    using uri_component.encode_harmless component_separators by blast
  have "\<not> dot_segment ?e"
  proof
    assume "dot_segment ?e"
    then have "s = ''.''" using d by (auto simp: dot_segment_def hex_value_def dot_char)
    then show False using assms(1) by simp
  qed
  moreover have "\<not> dot_dot_segment ?e"
  proof
    assume "dot_dot_segment ?e"
    then have "s = ''..''" using d by (auto simp: dot_dot_segment_def hex_value_def dot_char)
    then show False using assms(2) by simp
  qed
  ultimately show ?thesis using c by (simp add: plain_segment_def)
qed

lemma encode_dots: "encode_uri_component ''..'' = ''..''" "encode_uri_component ''.'' = ''.''"
  by code_simp+

subsection \<open>What a method sends\<close>

definition requests_of :: "'r api \<Rightarrow> http \<Rightarrow> http_request list" where
  "requests_of m s = drop (length (sent s)) (sent (snd (m s)))"

lemma requests_of_request: "q \<in> set (requests_of (request server c) s) \<Longrightarrow> q = request_of c s"
  using json_transport.send_snd [of c s server] by (auto simp: requests_of_def progress_def)

lemma try_attempt_sends:
  assumes "try_attempt server c req due retries attempt s = (e, s')" and "clock s < due"
  shows "progress req 1 s s'"
proof -
  obtain f s1 where f: "do_fetch server req due s = (f, s1)" by (cases "do_fetch server req due s")
  then have p: "progress req 1 s s1" using do_fetch_progress(1) [OF f] assms(2) by simp
  have quiet: "progress req 0 s1 s2 \<Longrightarrow> progress req 1 s s2" for s2
    using progress_trans [OF p, of 0 s2] by simp
  show ?thesis
  proof (cases f)
    case (Responds x r)
    obtain b s2 where b: "read_text due x r s1 = (b, s2)" by (cases "read_text due x r s1")
    obtain j s3 where j: "read_json (call_abort c) x r s1 = (j, s3)" by (cases "read_json (call_abort c) x r s1")
    obtain e4 s4 where bad: "bad_response (call_path c) retries attempt r b s2 = (e4, s4)"
      by (cases "bad_response (call_path c) retries attempt r b s2")
    have "progress req 0 s1 s4"
      using progress_trans [OF read_text_progress(1) [OF b] bad_response_progress(1) [OF bad]] by simp
    then show ?thesis
      using assms(1) f Responds b j bad p quiet read_json_progress(1) [OF j, of req]
      by (auto simp: try_attempt_def split: if_splits)
  qed (use assms(1) f p in \<open>simp add: try_attempt_def\<close>)
qed

text \<open>With time left, a call sends its request.\<close>

lemma request_sends:
  assumes "call_abort c = None" and "0 < nullish (call_timeout c) (request_timeout_ms s)"
  shows "request_of c s \<in> set (requests_of (request server c) s)"
proof -
  let ?due = "deadline (nullish (call_timeout c) (request_timeout_ms s)) (call_abort c) s"
  let ?retries = "nullish (call_retries c) (max_retries s)"
  obtain e s1 where e: "try_attempt server c (request_of c s) ?due ?retries 0 s = (e, s1)"
    by (cases "try_attempt server c (request_of c s) ?due ?retries 0 s")
  have p: "progress (request_of c s) 1 s s1"
    using try_attempt_sends [OF e] assms by (simp add: deadline_def)
  have rest: "\<exists>n. progress (request_of c s) n s2 (snd (request_loop server c (request_of c s) ?due ?retries 1 err s2))"
    if "\<not> is_unauthorized err" for err s2
    using request_loop_progress [OF that prod.collapse [symmetric]] by blast
  obtain n where "progress (request_of c s) n s1 (snd (request server c s))"
  proof (cases e)
    case (Returns res)
    then have "progress (request_of c s) 0 s1 (snd (request server c s))"
      using e by (simp add: request_def request_loop.simps)
    then show ?thesis using that by blast
  next
    case (Continues err)
    then show ?thesis
      using e rest [of err s1] try_attempt_progress(3) [OF e] that
      by (auto simp: request_def request_loop.simps [of _ _ _ _ _ 0])
  next
    case (Throws err)
    show ?thesis
    proof (cases "rethrown err")
      case None
      then have "\<not> is_unauthorized err" using rethrown_unauthorized by fastforce
      from rest [OF this, of "if 0 < ?retries then delay 0 s1 else s1"]
      obtain n where "progress (request_of c s) n (if 0 < ?retries then delay 0 s1 else s1) (snd (request server c s))"
        using e None Throws by (auto simp: request_def request_loop.simps [of _ _ _ _ _ 0])
      then have "progress (request_of c s) n s1 (snd (request server c s))"
        by (auto simp: progress_def split: if_splits)
      then show ?thesis using that by blast
    next
      case (Some e')
      then have "progress (request_of c s) 0 s1 (snd (request server c s))"
        using e Throws by (simp add: request_def request_loop.simps)
      then show ?thesis using that by blast
    qed
  qed
  from progress_trans [OF p this] show ?thesis by (auto simp: requests_of_def progress_def)
qed

lemma call_fields [simp]:
  "call_path (with_method m c) = call_path c" "call_path (with_json j c) = call_path c"
  "call_method (with_method m c) = Some m" "call_method (with_json j c) = call_method c"
  "call_body (with_method m c) = call_body c" "call_body (with_json j c) = Some (JsonBody j)"
  "call_abort (with_method m c) = call_abort c" "call_abort (with_json j c) = call_abort c"
  "call_timeout (with_method m c) = call_timeout c" "call_timeout (with_json j c) = call_timeout c"
  "call_path (plain_call p) = p" "call_method (plain_call p) = None" "call_body (plain_call p) = None"
  "call_abort (plain_call p) = None" "call_timeout (plain_call p) = None"
  by (simp_all add: with_method_def with_json_def plain_call_def)

lemma request_of_fields [simp]:
  "req_url (request_of c s) = base_url s @ call_path c"
  "req_method (request_of c s) = nullish (call_method c) ''GET''"
  "req_body (request_of c s) = call_body c"
  by (simp_all add: request_of_def)

text \<open>All that a call sends, at least once, goes to a path of the base URL.\<close>

definition sends :: "'r api \<Rightarrow> http \<Rightarrow> string \<Rightarrow> string \<Rightarrow> payload option \<Rightarrow> bool" where
  "sends m s meth path body \<longleftrightarrow>
     requests_of m s \<noteq> [] \<and>
     (\<forall>q \<in> set (requests_of m s). req_method q = meth \<and> req_url q = base_url s @ path \<and> req_body q = body)"

lemma request_sends_call:
  assumes "call_abort c = None" and "0 < nullish (call_timeout c) (request_timeout_ms s)"
  shows "sends (request server c) s (nullish (call_method c) ''GET'') (call_path c) (call_body c)"
  using request_sends [OF assms, of server] requests_of_request [of _ server c s]
  by (force simp: sends_def)

subsection \<open>Parameters\<close>

lemma map_of_params_set: "map_of (params_set k v ps) = (map_of ps)(k \<mapsto> v)"
proof (induction ps)
  case (Cons p ps)
  have "map_of (filter (\<lambda>p. fst p \<noteq> k) ps) = (map_of ps) |` (- {k})"
    by (induction ps) (auto simp: restrict_map_def fun_eq_iff)
  then show ?case using Cons by (cases p) (auto simp: restrict_map_def)
qed simp

lemma map_of_set_defined:
  "map_of (set_defined k x ps) = (case x of None \<Rightarrow> map_of ps | Some v \<Rightarrow> (map_of ps)(k \<mapsto> v))"
  by (simp add: set_defined_def map_of_params_set split: option.split)

lemma map_of_set_truthy:
  "map_of (set_truthy k x ps) = (if truthy_string x then (map_of ps)(k := x) else map_of ps)"
  by (auto simp: set_truthy_def map_of_params_set truthy_string_def)

lemmas map_of_params = map_of_params_set map_of_set_defined map_of_set_truthy

lemma query_string_separators: "c \<in> set (query_string ps) \<Longrightarrow> form_harmless c \<or> c \<in> {CHR ''='', CHR ''&''}"
proof -
  have j: "c \<in> set (join sep xs) \<Longrightarrow> c \<in> set sep \<or> (\<exists>x \<in> set xs. c \<in> set x)" for sep xs
    by (induction sep xs rule: join.induct) auto
  assume "c \<in> set (query_string ps)"
  from j [OF this [unfolded query_string_def]] show ?thesis
    using form.encode_harmless by auto
qed

lemma requested_query_of:
  assumes "set path \<inter> {CHR ''?'', CHR ''#''} = {}"
  shows "requested_query (path @ query_if_any ps) = ps" and "requested_query (path @ query ps) = ps"
proof -
  have "\<not> form_harmless CHR ''#''" by (simp add: form_harmless_def form_safe_def alphanumeric_def)
  then have hash: "CHR ''#'' \<notin> set (query_string ps)" using query_string_separators by blast
  have b: "before_any {CHR ''#''} u = u" if "CHR ''#'' \<notin> set u" for u
    using that by (auto simp: before_any_def takeWhile_eq_all_conv)
  have p: "CHR ''#'' \<notin> set path" "CHR ''?'' \<notin> set path" using assms by auto
  have a: "after_first CHR ''?'' (path @ CHR ''?'' # u) = u" for u
    using p(2) by (induction path) (auto simp: after_first_def)
  have n: "after_first CHR ''?'' path = []" using p(2) by (induction path) (auto simp: after_first_def)
  have e: "query_string ps = [] \<Longrightarrow> ps = []" using parse_query_string [of ps] by (auto simp: parse_query_def)
  show "requested_query (path @ query ps) = ps"
    using p hash by (simp add: requested_query_def query_def b a parse_query_string)
  show "requested_query (path @ query_if_any ps) = ps"
  proof (cases "query_string ps = []")
    case True
    then show ?thesis using e p by (simp add: requested_query_def query_if_any_def b n parse_query_def)
  next
    case False
    then show ?thesis using p hash by (simp add: requested_query_def query_if_any_def b a parse_query_string)
  qed
qed

text \<open>
  The parameters that a list of settings with different names leaves are those that were given, in order;
  \<open>given\<close> is what an \<open>if (x)\<close> lets through.
\<close>

definition given :: "string option \<Rightarrow> string option" where
  "given x = (if truthy_string x then x else None)"

definition present :: "(string \<times> string option) list \<Rightarrow> params" where
  "present kxs = List.map_filter (\<lambda>(k, x). map_option (Pair k) x) kxs"

lemma present_simps [simp]:
  "present [] = []" "present ((k, None) # kxs) = present kxs"
  "present ((k, Some v) # kxs) = (k, v) # present kxs"
  by (simp_all add: present_def map_filter_simps)

lemma set_truthy_given: "set_truthy k x = set_defined k (given x)"
  by (cases x) (auto simp: set_truthy_def set_defined_def given_def truthy_string_def fun_eq_iff)

lemma params_set_new: "k \<notin> fst ` set ps \<Longrightarrow> params_set k v ps = ps @ [(k, v)]"
  by (induction ps) auto

lemma set_defined_all:
  assumes "distinct (map fst kxs)" and "fst ` set ps \<inter> fst ` set kxs = {}"
  shows "fold (\<lambda>f ps. f ps) (map (\<lambda>(k, x). set_defined k x) kxs) ps = ps @ present kxs"
  using assms
proof (induction kxs arbitrary: ps)
  case (Cons kx kxs)
  obtain k x where kx: "kx = (k, x)" by (cases kx)
  have k: "k \<notin> fst ` set ps" "k \<notin> fst ` set kxs" using Cons.prems kx by auto
  show ?case
  proof (cases x)
    case None
    then show ?thesis using Cons kx by (simp add: set_defined_def)
  next
    case (Some v)
    have "fst ` set (ps @ [(k, v)]) \<inter> fst ` set kxs = {}" using Cons.prems(2) kx k by auto
    then show ?thesis using Cons.IH [of "ps @ [(k, v)]"] Cons.prems(1) kx Some k
      by (simp add: set_defined_def params_set_new)
  qed
qed simp

lemma search_params_present:
  "distinct (map fst kxs) \<Longrightarrow> search_params (map (\<lambda>(k, x). set_defined k x) kxs) = present kxs"
  using set_defined_all [of kxs "[]"] by (simp add: search_params_def)

lemma requests_of_read [simp]:
  "requests_of (read_blob m) s = requests_of m s" "requests_of (parse_body m) s = requests_of m s"
  "requests_of (ignore_result n) s = requests_of n s"
  by (simp_all add: requests_of_def read_blob_def parse_body_def ignore_result_def split: prod.split sum.split)

lemma raw_fetch_sends:
  assumes "call_abort c = None" and "0 < request_timeout_ms s"
  shows "sends (raw_fetch server c) s (nullish (call_method c) ''GET'') (call_path c) (call_body c)"
proof -
  let ?req = "raw_request_of c s"
  let ?due = "deadline (request_timeout_ms s * 2) (call_abort c) s"
  obtain f s1 where f: "do_fetch server ?req ?due s = (f, s1)" by (cases "do_fetch server ?req ?due s")
  have p: "progress ?req 1 s s1" using do_fetch_progress(1) [OF f] assms by (simp add: deadline_def)
  have rest: "\<exists>n. progress ?req n s2 (snd (raw_loop server c ?req ?due 1 s2))" for s2
    using raw_loop_progress [OF prod.collapse [symmetric]] by blast
  have quiet: "\<exists>n. progress ?req n s1 s3" if "progress ?req 0 s1 s2" "\<exists>n. progress ?req n s2 s3" for s2 s3
    using that progress_trans [OF that(1)] by blast
  have max: "\<not> max_retries s < 0" by simp
  obtain n where "progress ?req n s1 (snd (raw_fetch server c s))"
  proof (cases f)
    case (Rejects e)
    then have "snd (raw_fetch server c s) = s1"
      using f by (simp add: raw_fetch_def raw_loop.simps [of _ _ _ _ 0])
    then show ?thesis using that progress_refl by metis
  next
    case (Responds x r)
    let ?s2 = "if status r = 401 then unauthorized (call_path c) s1 else s1"
    have q0: "progress ?req 0 s1 ?s2" by (simp add: progress_def)
    obtain b s3 where b: "read_text ?due x r ?s2 = (b, s3)" by (cases "read_text ?due x r ?s2")
    have q3: "progress ?req 0 s1 s3" using progress_trans [OF q0 read_text_progress(1) [OF b]] by simp
    have qw: "progress ?req 0 s1 (wait_ms ms ?s2)" "progress ?req 0 s1 (delay a ?s2)" for ms a
      using q0 by (auto simp: progress_def split: if_splits)
    consider "is_ok r"
      | "\<not> is_ok r" "status r = 429 \<and> 0 < max_retries s"
      | "\<not> is_ok r" "\<not> (status r = 429 \<and> 0 < max_retries s)" "500 \<le> status r \<and> 0 < max_retries s"
      | "\<not> is_ok r" "\<not> (status r = 429 \<and> 0 < max_retries s)" "\<not> (500 \<le> status r \<and> 0 < max_retries s)"
      by blast
    then have "\<exists>n. progress ?req n s1 (snd (raw_fetch server c s))"
    proof cases
      case 1
      then have "snd (raw_fetch server c s) = s1"
        using f Responds by (simp add: raw_fetch_def raw_loop.simps [of _ _ _ _ 0])
      then show ?thesis using progress_refl by metis
    next
      case 2
      have "raw_fetch server c s = raw_loop server c ?req ?due 1 (wait_ms (retry_after_ms r) ?s2)"
        using f Responds 2 by (simp add: raw_fetch_def raw_loop.simps [of _ _ _ _ 0] Let_def)
      then show ?thesis using quiet [OF qw(1) rest] by metis
    next
      case 3
      have "raw_fetch server c s = raw_loop server c ?req ?due 1 (delay 0 ?s2)"
        using f Responds 3 by (simp add: raw_fetch_def raw_loop.simps [of _ _ _ _ 0] Let_def)
      then show ?thesis using quiet [OF qw(2) rest] by metis
    next
      case 4
      have "snd (raw_fetch server c s) = s3"
        using f Responds 4 b by (auto simp: raw_fetch_def raw_loop.simps [of _ _ _ _ 0] Let_def)
      then show ?thesis using q3 by metis
    qed
    then show ?thesis using that by blast
  qed
  from progress_trans [OF p this]
  show ?thesis by (auto simp: sends_def requests_of_def progress_def raw_request_of_def)
qed

lemma read_blob_sends: "sends (read_blob m) s meth path body \<longleftrightarrow> sends m s meth path body"
  by (simp add: sends_def)

end
