(* ===== verification/Api_Kernel.thy ===== *)
theory Api_Kernel
  imports Api_Core
begin

section \<open>Health, sign-in, resources, operations, events and tools\<close>

text \<open>
  The methods of \<open>WorkstationClient\<close> in \<^verbatim>\<open>packages/api/client.ts\<close> for health, sign-in and account, resources, operations, events and tools,
  each under its own name.
\<close>

subsection \<open>Health\<close>

definition health :: "server \<Rightarrow> json option api" where
  "health server =
     request server (get ''/health'')"

definition kernelHealth :: "server \<Rightarrow> json option api" where
  "kernelHealth server =
     request server (get ''/api/kernel/health'')"

definition kernelStatus :: "server \<Rightarrow> json option api" where
  "kernelStatus server =
     request server (with_retries 0 (get ''/api/kernel/status''))"

subsection \<open>Auth\<close>

definition login :: "server \<Rightarrow> string \<Rightarrow> string \<Rightarrow> json option api" where
  "login server identifier password =
     request server (with_json (js_object [(''identifier'', Some (JStr identifier)), (''password'', Some (JStr
       password))]) (post ''/api/auth/login''))"

definition logout :: "server \<Rightarrow> json option api" where
  "logout server s =
     (case request server (post ''/api/auth/logout'') s of
        (Inl e, s1) \<Rightarrow> (Inl e, s1)
      | (Inr result, s1) \<Rightarrow> (Inr result, set_token None s1))"

definition createUser :: "server \<Rightarrow> json \<Rightarrow> json option api" where
  "createUser server data =
     request server (with_json data (post ''/api/auth/users''))"

definition getCurrentUser :: "server \<Rightarrow> json option api" where
  "getCurrentUser server =
     request server (get ''/api/auth/me'')"

definition updateUser :: "server \<Rightarrow> string \<Rightarrow> json \<Rightarrow> json option api" where
  "updateUser server userId data =
     request server (with_json data (put (route [Lit ''/api/users/'', Raw userId])))"

definition changePassword :: "server \<Rightarrow> string \<Rightarrow> string \<Rightarrow> json option api"
       where
  "changePassword server currentPassword newPassword =
     request server (with_json (js_object [(''current_password'', Some (JStr currentPassword)),
       (''new_password'', Some (JStr newPassword))]) (post ''/api/auth/change-password''))"

subsection \<open>Resources\<close>

definition getVRAMStats :: "server \<Rightarrow> json option api" where
  "getVRAMStats server =
     request server (get ''/api/resources/vram'')"

definition getPerGpuVramStats :: "server \<Rightarrow> json option api" where
  "getPerGpuVramStats server =
     request server (get ''/api/resources/vram/gpus'')"

definition getResourceStatus :: "server \<Rightarrow> json option api" where
  "getResourceStatus server =
     request server (with_retries 0 (get ''/api/resources/status''))"

definition checkPreemption :: "server \<Rightarrow> json \<Rightarrow> json option api" where
  "checkPreemption server data =
     request server (with_json data (post ''/api/resources/check-preemption''))"

definition submitOffloadDecision :: "server \<Rightarrow> json \<Rightarrow> json option api" where
  "submitOffloadDecision server data =
     request server (with_json data (post ''/api/resources/offload''))"

definition reloadResource :: "server \<Rightarrow> json \<Rightarrow> json option api" where
  "reloadResource server data =
     request server (with_json data (post ''/api/resources/reload''))"

definition setPreference :: "server \<Rightarrow> json \<Rightarrow> json option api" where
  "setPreference server data =
     request server (with_json data (post ''/api/resources/preference''))"

definition getPreference :: "server \<Rightarrow> string \<Rightarrow> json option api" where
  "getPreference server userId =
     request server (get (route [Lit ''/api/resources/preference/'', Raw userId]))"

subsection \<open>Operations\<close>

definition saveOperationState :: "server \<Rightarrow> json \<Rightarrow> json option api" where
  "saveOperationState server data =
     request server (with_json data (post ''/api/operations/state''))"

definition getOperationState :: "server \<Rightarrow> string \<Rightarrow> json option api" where
  "getOperationState server operationId =
     request server (get (route [Lit ''/api/operations/state/'', Raw operationId]))"

definition listOperations :: "server \<Rightarrow> int option \<Rightarrow> int option \<Rightarrow> json
       option api" where
  "listOperations server maximum offset =
     request server (get (''/api/operations'' @ query (search_params [
       set_defined ''limit'' (map_option show_int maximum),
       set_defined ''offset'' (map_option show_int offset)])))"

subsection \<open>Events\<close>

definition createEvent :: "server \<Rightarrow> json \<Rightarrow> json option api" where
  "createEvent server data =
     request server (with_json data (post ''/api/events''))"

text \<open>The entries of \<open>params\<close>, in the order of the caller's object; a value is a string or a
       number.\<close>

datatype query_value = QueryStr string | QueryNum int

fun query_value_text :: "query_value \<Rightarrow> string" where
  "query_value_text (QueryStr v) = v"
| "query_value_text (QueryNum v) = show_int v"

definition getEvents :: "server \<Rightarrow> (string \<times> query_value option) list option \<Rightarrow>
       json option api" where
  "getEvents server entries =
     request server (get (''/api/events'' @ query (search_params
       (map (\<lambda>(key, v). set_defined key (map_option query_value_text v)) (nullish entries [])))))"

definition getEvent :: "server \<Rightarrow> string \<Rightarrow> json option api" where
  "getEvent server eventId =
     request server (get (route [Lit ''/api/events/'', Raw eventId]))"

definition getEventTypes :: "server \<Rightarrow> json option api" where
  "getEventTypes server =
     request server (get ''/api/events/types/list'')"

definition getEventStats :: "server \<Rightarrow> json option api" where
  "getEventStats server =
     request server (get ''/api/events/stats/summary'')"

definition createEventBroadcast :: "server \<Rightarrow> json \<Rightarrow> json option api" where
  "createEventBroadcast server data =
     request server (with_json data (post ''/api/events''))"

subsection \<open>Tools\<close>

definition listTools :: "server \<Rightarrow> json option api" where
  "listTools server =
     request server (get ''/api/tools'')"

definition getTool :: "server \<Rightarrow> string \<Rightarrow> json option api" where
  "getTool server toolName =
     request server (get (route [Lit ''/api/tools/'', Raw toolName]))"

definition executeTool :: "server \<Rightarrow> json \<Rightarrow> json option api" where
  "executeTool server data =
     request server (with_json data (post ''/api/tools/execute''))"

definition clearCache :: "server \<Rightarrow> json \<Rightarrow> json option api" where
  "clearCache server data =
     request server (with_json data (post ''/api/tools/cache/clear''))"

subsection \<open>Signing out\<close>

text \<open>signing out keeps the token unless the server takes the request: after \<open>logout\<close> the client has no
  token when the call succeeded or was refused with a 401, and has the token it had before when it ended
  with any other error, so that a user who signs out while the server is unreachable stays signed in.\<close>

theorem logout_needs_server:
  "token (snd (logout server s)) =
     (case fst (logout server s) of
        Inr v \<Rightarrow> None | Inl e \<Rightarrow> if is_unauthorized e then None else token s)"
proof -
  obtain res s1 where r: "request server (post ''/api/auth/logout'') s = (res, s1)"
    by (cases "request server (post ''/api/auth/logout'') s")
  show ?thesis
    using json_transport.send_token [OF r]
    by (cases res) (simp_all add: logout_def r token_after_def set_token_def)
qed

end
