(* ===== verification/Api_Context.thy ===== *)
theory Api_Context
  imports Api_Core
begin

section \<open>Conversations, projects, models, prompts, snippets and palettes\<close>

text \<open>
  The methods of \<open>WorkstationClient\<close> in \<^verbatim>\<open>packages/api/client.ts\<close> for conversations, projects, models, token counts, system prompts, snippets, palettes and message actions,
  each under its own name.
\<close>

subsection \<open>Context\<close>

definition getConversationState :: "server \<Rightarrow> string \<Rightarrow> json option api" where
  "getConversationState server chatId =
     request server (get (route [Lit ''/api/context/conversations/'', Raw chatId]))"

definition updateConversationState :: "server \<Rightarrow> string \<Rightarrow> json \<Rightarrow> json option
       api" where
  "updateConversationState server chatId updates =
     request server (with_json (js_object [(''updates'', Some updates)]) (patch (route [Lit
       ''/api/context/conversations/'', Raw chatId])))"

definition getProjectContext :: "server \<Rightarrow> string \<Rightarrow> json option api" where
  "getProjectContext server projectId =
     request server (get (route [Lit ''/api/context/projects/'', Raw projectId]))"

definition getProjectChats :: "server \<Rightarrow> string \<Rightarrow> json option api" where
  "getProjectChats server projectId =
     request server (get (route [Lit ''/api/context/project/'', Raw projectId, Lit ''/chats'']))"

definition createChat :: "server \<Rightarrow> string \<Rightarrow> string \<Rightarrow> json option api" where
  "createChat server projectId title =
     request server (with_json (js_object [(''project_id'', Some (JStr projectId)), (''title'', Some (JStr
       title))]) (post ''/api/context/chats''))"

definition updateChat :: "server \<Rightarrow> string \<Rightarrow> json \<Rightarrow> json option api" where
  "updateChat server chatId updates =
     request server (with_json updates (put (route [Lit ''/api/context/chats/'', Raw chatId])))"

definition updateChatMode :: "server \<Rightarrow> string \<Rightarrow> string \<Rightarrow> json option api"
       where
  "updateChatMode server chatId mode =
     updateChat server chatId (js_object [(''chat_mode'', Some (JStr mode))])"

definition deleteChat :: "server \<Rightarrow> string \<Rightarrow> json option api" where
  "deleteChat server chatId =
     request server (delete (route [Lit ''/api/context/chats/'', Raw chatId]))"

definition getOrCreateProjectChat :: "server \<Rightarrow> string \<Rightarrow> json option api" where
  "getOrCreateProjectChat server projectId =
     request server (post (route [Lit ''/api/context/project/'', Raw projectId, Lit ''/default-chat'']))"

subsection \<open>Projects\<close>

definition listProjects :: "server \<Rightarrow> json option api" where
  "listProjects server =
     request server (get ''/api/projects'')"

definition createProject :: "server \<Rightarrow> json \<Rightarrow> json option api" where
  "createProject server data =
     request server (with_json data (post ''/api/projects''))"

definition updateProject :: "server \<Rightarrow> string \<Rightarrow> json \<Rightarrow> json option api" where
  "updateProject server projectId data =
     request server (with_json data (put (route [Lit ''/api/projects/'', Raw projectId])))"

definition deleteProject :: "server \<Rightarrow> string \<Rightarrow> json option api" where
  "deleteProject server projectId =
     request server (delete (route [Lit ''/api/projects/'', Raw projectId]))"

definition getUserPreferences :: "server \<Rightarrow> string \<Rightarrow> json option api" where
  "getUserPreferences server userId =
     request server (get (route [Lit ''/api/context/user/'', Raw userId, Lit ''/preferences'']))"

definition updateUserPreferences :: "server \<Rightarrow> string \<Rightarrow> json \<Rightarrow> json option
       api" where
  "updateUserPreferences server userId data =
     request server (with_json data (put (route [Lit ''/api/context/user/'', Raw userId, Lit
       ''/preferences''])))"

definition listModels :: "server \<Rightarrow> json option api" where
  "listModels server =
     request server (get ''/api/context/models'')"

subsection \<open>Ollama Model Management\<close>

definition listOllamaModels :: "server \<Rightarrow> json option api" where
  "listOllamaModels server =
     request server (get ''/api/models'')"

definition loadOllamaModel :: "server \<Rightarrow> string \<Rightarrow> string option \<Rightarrow> json
       option api" where
  "loadOllamaModel server modelName keepAlive =
     request server (with_timeout 120000 (with_json (js_object [(''model_name'', Some (JStr modelName)),
       (''keep_alive'', map_option JStr keepAlive)]) (post ''/api/models/load'')))"

definition unloadOllamaModel :: "server \<Rightarrow> string \<Rightarrow> json option api" where
  "unloadOllamaModel server modelName =
     request server (with_timeout 120000 (with_json (js_object [(''model_name'', Some (JStr modelName))]) (post
       ''/api/models/unload'')))"

definition deleteOllamaModel :: "server \<Rightarrow> string \<Rightarrow> json option api" where
  "deleteOllamaModel server modelName =
     request server (delete (route [Lit ''/api/models/'', Enc modelName]))"

definition trackTokenUsage :: "server \<Rightarrow> string \<Rightarrow> json \<Rightarrow> json option api"
       where
  "trackTokenUsage server chatId data =
     request server (with_json data (post (route [Lit ''/api/context/conversations/'', Raw chatId, Lit
       ''/tokens''])))"

definition getTokenUsage :: "server \<Rightarrow> string \<Rightarrow> json option api" where
  "getTokenUsage server chatId =
     request server (get (route [Lit ''/api/context/conversations/'', Raw chatId, Lit ''/tokens'']))"

definition tokenizeText :: "server \<Rightarrow> string \<Rightarrow> json option api" where
  "tokenizeText server plain =
     request server (with_json (js_object [(''text'', Some (JStr plain))]) (post ''/api/context/tokenize''))"

subsection \<open>System Prompts\<close>

definition listSystemPrompts :: "server \<Rightarrow> json option api" where
  "listSystemPrompts server =
     request server (get ''/api/context/system-prompts'')"

definition createSystemPrompt :: "server \<Rightarrow> json \<Rightarrow> json option api" where
  "createSystemPrompt server data =
     request server (with_json data (post ''/api/context/system-prompts''))"

definition getSystemPrompt :: "server \<Rightarrow> string \<Rightarrow> json option api" where
  "getSystemPrompt server promptId =
     request server (get (route [Lit ''/api/context/system-prompts/'', Enc promptId]))"

definition updateSystemPrompt :: "server \<Rightarrow> string \<Rightarrow> json \<Rightarrow> json option api"
       where
  "updateSystemPrompt server promptId data =
     request server (with_json data (put (route [Lit ''/api/context/system-prompts/'', Enc promptId])))"

definition deleteSystemPrompt :: "server \<Rightarrow> string \<Rightarrow> json option api" where
  "deleteSystemPrompt server promptId =
     request server (delete (route [Lit ''/api/context/system-prompts/'', Enc promptId]))"

subsection \<open>Context Snippets\<close>

definition listSnippets :: "server \<Rightarrow> json option api" where
  "listSnippets server =
     request server (get ''/api/context/snippets'')"

definition createSnippet :: "server \<Rightarrow> json \<Rightarrow> json option api" where
  "createSnippet server data =
     request server (with_json data (post ''/api/context/snippets''))"

definition getSnippet :: "server \<Rightarrow> string \<Rightarrow> json option api" where
  "getSnippet server snippetId =
     request server (get (route [Lit ''/api/context/snippets/'', Enc snippetId]))"

definition updateSnippet :: "server \<Rightarrow> string \<Rightarrow> json \<Rightarrow> json option api" where
  "updateSnippet server snippetId data =
     request server (with_json data (put (route [Lit ''/api/context/snippets/'', Enc snippetId])))"

definition deleteSnippet :: "server \<Rightarrow> string \<Rightarrow> json option api" where
  "deleteSnippet server snippetId =
     request server (delete (route [Lit ''/api/context/snippets/'', Enc snippetId]))"

subsection \<open>Palettes\<close>

definition listPalettes :: "server \<Rightarrow> json option api" where
  "listPalettes server =
     request server (get ''/api/palettes'')"

definition createPalette :: "server \<Rightarrow> json \<Rightarrow> json option api" where
  "createPalette server data =
     request server (with_json data (post ''/api/palettes''))"

definition updatePalette :: "server \<Rightarrow> string \<Rightarrow> json \<Rightarrow> json option api" where
  "updatePalette server paletteId data =
     request server (with_json data (put (route [Lit ''/api/palettes/'', Enc paletteId])))"

definition deletePalette :: "server \<Rightarrow> string \<Rightarrow> json option api" where
  "deletePalette server paletteId =
     request server (delete (route [Lit ''/api/palettes/'', Enc paletteId]))"

subsection \<open>Compaction Status\<close>

definition getCompactionStatus :: "server \<Rightarrow> string \<Rightarrow> string \<Rightarrow> json option
       api" where
  "getCompactionStatus server chatId compactionId =
     request server (get (route [Lit ''/api/context/conversations/'', Raw chatId, Lit ''/compactions/'', Enc
       compactionId, Lit ''/status'']))"

subsection \<open>Message Actions\<close>

definition updateMessage :: "server \<Rightarrow> string \<Rightarrow> string \<Rightarrow> json \<Rightarrow>
       json option api" where
  "updateMessage server chatId messageId data =
     request server (with_json data (patch (route [Lit ''/api/context/conversations/'', Raw chatId, Lit
       ''/messages/'', Raw messageId])))"

definition deleteMessage :: "server \<Rightarrow> string \<Rightarrow> string \<Rightarrow> json option api"
       where
  "deleteMessage server chatId messageId =
     request server (delete (route [Lit ''/api/context/conversations/'', Raw chatId, Lit ''/messages/'', Raw
       messageId]))"

definition triggerCompaction :: "server \<Rightarrow> string \<Rightarrow> json option api" where
  "triggerCompaction server chatId =
     request server (post (route [Lit ''/api/context/conversations/'', Raw chatId, Lit ''/compact'']))"

definition getTokenBreakdown :: "server \<Rightarrow> string \<Rightarrow> string option \<Rightarrow> json
       option api" where
  "getTokenBreakdown server chatId model =
     request server (get (route [Lit ''/api/context/conversations/'', Raw chatId, Lit ''/token-breakdown''] @
       query_if_any (search_params [
       set_truthy ''model'' model])))"

definition getAssembledContext :: "server \<Rightarrow> string \<Rightarrow> string option \<Rightarrow> json
       option api" where
  "getAssembledContext server chatId model =
     request server (get (route [Lit ''/api/context/conversations/'', Raw chatId, Lit ''/assembled-context''] @
       query_if_any (search_params [
       set_truthy ''model'' model])))"

definition updateCompactionSummary :: "server \<Rightarrow> string \<Rightarrow> string \<Rightarrow> string
       \<Rightarrow> json option api" where
  "updateCompactionSummary server chatId compactionId summary =
     request server (with_json (js_object [(''summary'', Some (JStr summary))]) (patch (route [Lit
       ''/api/context/conversations/'', Raw chatId, Lit ''/compactions/'', Raw compactionId])))"

definition updateChatInstructions :: "server \<Rightarrow> string \<Rightarrow> string \<Rightarrow> json
       option api" where
  "updateChatInstructions server chatId instructions =
     request server (with_json (js_object [(''chat_instructions'', Some (JStr instructions))]) (patch (route
       [Lit ''/api/context/conversations/'', Raw chatId, Lit ''/chat-instructions''])))"


end
