(* ===== verification/Api_Sandbox.thy ===== *)
theory Api_Sandbox
  imports Api_Core
begin

section \<open>Sandbox files, automation and autonomous edits\<close>

text \<open>
  The methods of \<open>WorkstationClient\<close> in \<^verbatim>\<open>packages/api/client.ts\<close> for tool approvals, sandbox files, automation actions and the autonomous edits,
  each under its own name.
\<close>

subsection \<open>Tool approval\<close>

definition submitToolApproval :: "server \<Rightarrow> string \<Rightarrow> bool \<Rightarrow> json option
       \<Rightarrow> json option api" where
  "submitToolApproval server callId approved modifiedArguments =
     request server (with_json (js_object [(''call_id'', Some (JStr callId)), (''approved'', Some (JBool
       approved)), (''modified_arguments'', modifiedArguments)]) (post ''/api/tool-approvals''))"

subsection \<open>Sandbox file operations\<close>

definition getFileTree :: "server \<Rightarrow> string \<Rightarrow> json option api" where
  "getFileTree server projectId =
     request server (get (route [Lit ''/api/sandbox/'', Raw projectId, Lit ''/files'']))"

definition getFileContent :: "server \<Rightarrow> string \<Rightarrow> string \<Rightarrow> json option api"
       where
  "getFileContent server projectId filePath =
     request server (get (route [Lit ''/api/sandbox/'', Raw projectId, Lit ''/files/content''] @ query
       (search_params [
       params_set ''path'' filePath])))"

definition createFile ::
  "server \<Rightarrow> string \<Rightarrow> string \<Rightarrow> string option \<Rightarrow> json option api"
       where
  "createFile server projectId filePath content s =
     (if filePath = [] \<or> trim filePath = [] then (Inl (api_error 400 ''File path cannot be empty''), s)
      else request server (with_json
        (js_object [(''path'', Some (JStr (trim filePath))), (''content'', Some (JStr (nullish content [])))])
        (post (route [Lit ''/api/sandbox/'', Raw projectId, Lit ''/files'']))) s)"

definition createDirectory :: "server \<Rightarrow> string \<Rightarrow> string \<Rightarrow> json option api"
       where
  "createDirectory server projectId filePath =
     request server (with_json (js_object [(''path'', Some (JStr filePath))]) (post (route [Lit
       ''/api/sandbox/'', Raw projectId, Lit ''/directories''])))"

definition updateFile :: "server \<Rightarrow> string \<Rightarrow> string \<Rightarrow> string \<Rightarrow>
       json option api" where
  "updateFile server projectId filePath content =
     request server (with_json (js_object [(''path'', Some (JStr filePath)), (''content'', Some (JStr
       content))]) (put (route [Lit ''/api/sandbox/'', Raw projectId, Lit ''/files''])))"

definition renameFile ::
  "server \<Rightarrow> string \<Rightarrow> string \<Rightarrow> string \<Rightarrow> json option api" where
  "renameFile server projectId oldPath newPath s =
     (if newPath = [] \<or> trim newPath = [] then (Inl (api_error 400 ''New file path cannot be empty''), s)
      else request server (with_json
        (js_object [(''old_path'', Some (JStr oldPath)), (''new_path'', Some (JStr (trim newPath)))])
        (put (route [Lit ''/api/sandbox/'', Raw projectId, Lit ''/files/rename'']))) s)"

definition deleteFile :: "server \<Rightarrow> string \<Rightarrow> string \<Rightarrow> json option api" where
  "deleteFile server projectId filePath =
     request server (delete (route [Lit ''/api/sandbox/'', Raw projectId, Lit ''/files''] @ query
       (search_params [
       params_set ''path'' filePath])))"

definition stopSandbox :: "server \<Rightarrow> string \<Rightarrow> json option api" where
  "stopSandbox server projectId =
     request server (post (route [Lit ''/api/sandbox/'', Raw projectId, Lit ''/stop'']))"

subsection \<open>Automation Actions\<close>

definition createAutomationAction :: "server \<Rightarrow> string \<Rightarrow> string \<Rightarrow> json
       option \<Rightarrow> json option api" where
  "createAutomationAction server projectId actionType actionData =
     request server (with_json (js_object [(''project_id'', Some (JStr projectId)), (''action_type'', Some
       (JStr actionType)), (''action_data'', actionData)]) (post ''/api/automation/actions''))"

record list_automation_actions_params =
  automation_approved :: "bool option"
  automation_executed :: "bool option"

definition listAutomationActions :: "server \<Rightarrow> string \<Rightarrow> list_automation_actions_params
       option \<Rightarrow> json option api" where
  "listAutomationActions server projectId filters =
     request server (get (route [Lit ''/api/automation/actions/'', Raw projectId] @ query (search_params [
       set_defined ''approved'' (map_option show_bool (member_of filters automation_approved)),
       set_defined ''executed'' (map_option show_bool (member_of filters automation_executed))])))"

definition approveAutomationAction ::
  "server \<Rightarrow> string \<Rightarrow> json option \<Rightarrow> json option api" where
  "approveAutomationAction server actionId modifiedData =
     request server (with_json
       (js_object (if modifiedData \<noteq> None then [(''action_data'', modifiedData)] else []))
       (put (route [Lit ''/api/automation/actions/'', Raw actionId, Lit ''/approve''])))"

definition executeAutomationAction :: "server \<Rightarrow> string \<Rightarrow> json option api" where
  "executeAutomationAction server actionId =
     request server (post (route [Lit ''/api/automation/actions/'', Raw actionId, Lit ''/execute'']))"

definition deleteAutomationAction :: "server \<Rightarrow> string \<Rightarrow> json option api" where
  "deleteAutomationAction server actionId =
     request server (delete (route [Lit ''/api/automation/actions/'', Raw actionId]))"

subsection \<open>YOLO Edits\<close>

record list_yolo_edits_params =
  yolo_limit :: "int option"
  yolo_offset :: "int option"
  yolo_undo_performed :: "bool option"

definition listYoloEdits :: "server \<Rightarrow> string \<Rightarrow> list_yolo_edits_params option
       \<Rightarrow> json option api" where
  "listYoloEdits server projectId filters =
     request server (get (route [Lit ''/api/yolo/edits/'', Raw projectId] @ query (search_params [
       set_defined ''limit'' (map_option show_int (member_of filters yolo_limit)),
       set_defined ''offset'' (map_option show_int (member_of filters yolo_offset)),
       set_defined ''undo_performed'' (map_option show_bool (member_of filters yolo_undo_performed))])))"

definition getYoloEditDetail :: "server \<Rightarrow> string \<Rightarrow> json option api" where
  "getYoloEditDetail server editId =
     request server (get (route [Lit ''/api/yolo/edits/'', Raw editId, Lit ''/detail'']))"

definition undoYoloEdit :: "server \<Rightarrow> string \<Rightarrow> json option api" where
  "undoYoloEdit server editId =
     request server (post (route [Lit ''/api/yolo/edits/'', Raw editId, Lit ''/undo'']))"


end
