(* ===== verification/Api_Image.thy ===== *)
theory Api_Image
  imports Api_Core
begin

section \<open>Image generation\<close>

text \<open>
  The methods of \<open>WorkstationClient\<close> in \<^verbatim>\<open>packages/api/client.ts\<close> for image generation,
  each under its own name.
\<close>

subsection \<open>Image Generation\<close>

record lora_config =
  lora_name :: string
  strength_model :: real
  strength_clip :: real

definition lora_json :: "lora_config \<Rightarrow> json" where
  "lora_json l = js_object [(''name'', Some (JStr (lora_name l))),
     (''strength_model'', Some (JNum (strength_model l))), (''strength_clip'', Some (JNum (strength_clip l)))]"

record image_generation_request =
  ig_project_id :: "string option"
  ig_workflow_type :: string
  ig_system_context :: "string option"
  ig_prompt :: string
  ig_negative_prompt :: "string option"
  ig_width :: real
  ig_height :: real
  ig_steps :: real
  ig_cfg_scale :: real
  ig_input_image :: "string option"
  ig_mask_image :: "string option"
  ig_target_image :: "string option"
  ig_denoise :: "real option"
  ig_morph_strength :: "real option"
  ig_seed :: "real option"
  ig_sampler_name :: "string option"
  ig_scheduler :: "string option"
  ig_batch_size :: "real option"
  ig_model_name :: "string option"
  ig_loras :: "lora_config list option"
  ig_reference_image :: "string option"
  ig_reference_weight :: "real option"
  ig_reference_noise :: "real option"
  ig_controlnet_image :: "string option"
  ig_controlnet_type :: "string option"
  ig_controlnet_strength :: "real option"
  ig_upscale_model :: "string option"
  ig_source_generation_id :: "string option"

text \<open>
  The payload names the members it copies; one that is spread in only under a condition is absent
  otherwise, and the text that is sent has no member that is \<open>undefined\<close>.
\<close>

definition generation_payload :: "image_generation_request \<Rightarrow> json" where
  "generation_payload data = js_object [
     (''project_id'', map_option JStr (ig_project_id data)),
     (''workflow_type'', Some (JStr (ig_workflow_type data))),
     (''system_context'', truthy_member (ig_system_context data)),
     (''prompt'', Some (JStr (ig_prompt data))),
     (''negative_prompt'', map_option JStr (ig_negative_prompt data)),
     (''width'', Some (JNum (ig_width data))),
     (''height'', Some (JNum (ig_height data))),
     (''steps'', Some (JNum (ig_steps data))),
     (''cfg_scale'', Some (JNum (ig_cfg_scale data))),
     (''input_image'', truthy_member (ig_input_image data)),
     (''mask_image'', truthy_member (ig_mask_image data)),
     (''target_image'', truthy_member (ig_target_image data)),
     (''denoise'', map_option JNum (ig_denoise data)),
     (''morph_strength'', map_option JNum (ig_morph_strength data)),
     (''seed'', map_option JNum (ig_seed data)),
     (''sampler_name'', truthy_member (ig_sampler_name data)),
     (''scheduler'', truthy_member (ig_scheduler data)),
     (''batch_size'', map_option JNum (ig_batch_size data)),
     (''model_name'', truthy_member (ig_model_name data)),
     (''loras'', if nullish (ig_loras data) [] \<noteq> [] then map_option (\<lambda>ls. JArr (map lora_json
       ls)) (ig_loras data) else None)]"

definition generateImage :: "server \<Rightarrow> image_generation_request \<Rightarrow> json option api" where
  "generateImage server data =
     request server (with_json (generation_payload data) (post ''/api/image/generate''))"

definition getImageGenerationOptions :: "server \<Rightarrow> json option api" where
  "getImageGenerationOptions server =
     request server (get ''/api/image/options'')"

definition getGenerationStatus :: "server \<Rightarrow> string \<Rightarrow> json option api" where
  "getGenerationStatus server jobId =
     request server (get (route [Lit ''/api/image/status/'', Enc jobId]))"

definition getGenerationResult :: "server \<Rightarrow> string \<Rightarrow> json option api" where
  "getGenerationResult server jobId =
     request server (get (route [Lit ''/api/image/result/'', Enc jobId]))"

definition listGenerations :: "server \<Rightarrow> string option \<Rightarrow> int option \<Rightarrow> int
       option \<Rightarrow> string option \<Rightarrow> json option api" where
  "listGenerations server projectId skip maximum st =
     request server (get (''/api/image/generations'' @ query_if_any (search_params [
       set_truthy ''project_id'' projectId,
       set_defined ''skip'' (map_option show_int skip),
       set_defined ''limit'' (map_option show_int maximum),
       set_truthy ''status'' st])))"

definition downloadImage :: "server \<Rightarrow> string \<Rightarrow> string \<Rightarrow> string api" where
  "downloadImage server jobId filename =
     read_blob (raw_fetch server (get (route [Lit ''/api/image/download/'', Enc jobId, Lit ''/'', Enc
       filename])))"

definition deleteGeneration :: "server \<Rightarrow> string \<Rightarrow> json option api" where
  "deleteGeneration server jobId =
     request server (delete (route [Lit ''/api/image/generations/'', Enc jobId]))"

definition startComfyUI :: "server \<Rightarrow> json option api" where
  "startComfyUI server =
     request server (post ''/api/image/comfyui/start'')"

subsection \<open>Image Generation Extras\<close>

definition toggleFavorite :: "server \<Rightarrow> string \<Rightarrow> json option api" where
  "toggleFavorite server jobId =
     request server (patch (route [Lit ''/api/image/generations/'', Enc jobId, Lit ''/favorite'']))"

definition upscaleImage :: "server \<Rightarrow> string \<Rightarrow> string option \<Rightarrow> json option
       api" where
  "upscaleImage server jobId upscaleModel =
     request server (with_json (js_object [(''upscale_model'', map_option JStr upscaleModel)]) (post (route
       [Lit ''/api/image/upscale/'', Enc jobId])))"

subsection \<open>Guided generation\<close>

text \<open>The members of a request for a reference image and for ControlNet.\<close>

definition without_guidance :: "image_generation_request \<Rightarrow> image_generation_request" where
  "without_guidance data =
     data\<lparr>ig_reference_image := None, ig_reference_weight := None, ig_reference_noise := None,
       ig_controlnet_image := None, ig_controlnet_type := None, ig_controlnet_strength := None\<rparr>"

text \<open>the reference image and the ControlNet image that a generation request may carry never leave the
  browser: with or without them the client makes the same requests and gets the same answer, although the
  request it sends is otherwise a copy of the one it was given.\<close>

theorem generate_image_drops_guidance:
  "generateImage server data s = generateImage server (without_guidance data) s \<and>
   (\<forall>q \<in> set (requests_of (generateImage server data) s). \<exists>body.
      req_body q = Some (JsonBody (JObj body)) \<and>
      map_of body ''prompt'' = Some (JStr (ig_prompt data)) \<and>
      map_of body ''seed'' = map_option JNum (ig_seed data) \<and>
      map_of body ''reference_image'' = None \<and> map_of body ''controlnet_image'' = None)"
proof -
  have "\<exists>kvs. generation_payload data = js_object kvs \<and> distinct (map fst kvs) \<and>
      map_of kvs ''prompt'' = Some (Some (JStr (ig_prompt data))) \<and>
      map_of kvs ''seed'' = Some (map_option JNum (ig_seed data)) \<and>
      map_of kvs ''reference_image'' = None \<and> map_of kvs ''controlnet_image'' = None"
    unfolding generation_payload_def by (rule exI, intro conjI, rule refl) simp_all
  then obtain kvs where kvs: "generation_payload data = js_object kvs" "distinct (map fst kvs)"
      "map_of kvs ''prompt'' = Some (Some (JStr (ig_prompt data)))"
      "map_of kvs ''seed'' = Some (map_option JNum (ig_seed data))"
      "map_of kvs ''reference_image'' = None" "map_of kvs ''controlnet_image'' = None" by blast
  have same: "generation_payload (without_guidance data) = generation_payload data"
    by (simp add: generation_payload_def without_guidance_def)
  have "req_body q = Some (JsonBody (JObj (drop_undefined kvs)))"
    if "q \<in> set (requests_of (generateImage server data) s)" for q
    using requests_of_request [OF that [unfolded generateImage_def]] kvs(1) by (simp add: js_object_def)
  then show ?thesis
    using map_of_drop_undefined [OF kvs(2)] kvs(3-6) same by (fastforce simp: generateImage_def)
qed

definition sample_generation :: image_generation_request where
  "sample_generation =
     \<lparr>ig_project_id = None, ig_workflow_type = ''text-to-image'', ig_system_context = None, ig_prompt = ''a cat'',
      ig_negative_prompt = None, ig_width = 512, ig_height = 512, ig_steps = 20, ig_cfg_scale = 7,
      ig_input_image = None, ig_mask_image = None, ig_target_image = None, ig_denoise = None,
      ig_morph_strength = None, ig_seed = Some 0, ig_sampler_name = None, ig_scheduler = None,
      ig_batch_size = None, ig_model_name = None, ig_loras = Some [], ig_reference_image = Some ''data:png'',
      ig_reference_weight = Some 1, ig_reference_noise = None, ig_controlnet_image = Some ''data:png'',
      ig_controlnet_type = Some ''canny'', ig_controlnet_strength = Some 1, ig_upscale_model = None,
      ig_source_generation_id = None\<rparr>"

lemma generate_image_drops_guidance_witness:
  "generateImage (scripted [Reply (reply 200 ''OK'' None (Some JNull))]) sample_generation sample_client =
     generateImage (scripted [Reply (reply 200 ''OK'' None (Some JNull))])
       (without_guidance sample_generation) sample_client \<and>
   sample_generation \<noteq> without_guidance sample_generation"
proof
  show "generateImage (scripted [Reply (reply 200 ''OK'' None (Some JNull))]) sample_generation sample_client =
     generateImage (scripted [Reply (reply 200 ''OK'' None (Some JNull))])
       (without_guidance sample_generation) sample_client"
    using generate_image_drops_guidance by blast
  show "sample_generation \<noteq> without_guidance sample_generation"
    by (simp add: sample_generation_def without_guidance_def)
qed

end
