(* ===== verification/Api_Projects.thy ===== *)
theory Api_Projects
  imports Api_Core
begin

section \<open>Templates, components, import, export and snapshots\<close>

text \<open>
  The methods of \<open>WorkstationClient\<close> in \<^verbatim>\<open>packages/api/client.ts\<close> for templates, technologies, UI components, Docker export, project import and export, and snapshots,
  each under its own name.
\<close>

subsection \<open>Templates\<close>

definition getTemplates :: "server \<Rightarrow> string option \<Rightarrow> json option api" where
  "getTemplates server category =
     request server (get (''/api/templates'' @ query_if_any (search_params [
       set_truthy ''category'' category])))"

definition getTemplate :: "server \<Rightarrow> string \<Rightarrow> json option api" where
  "getTemplate server templateId =
     request server (get (route [Lit ''/api/templates/'', Enc templateId]))"

subsection \<open>Technologies\<close>

definition getTechnologies :: "server \<Rightarrow> string option \<Rightarrow> json option api" where
  "getTechnologies server category =
     request server (get (''/api/templates/technologies'' @ query_if_any (search_params [
       set_truthy ''category'' category])))"

definition getTechnology :: "server \<Rightarrow> string \<Rightarrow> json option api" where
  "getTechnology server techId =
     request server (get (route [Lit ''/api/templates/technologies/'', Enc techId]))"

subsection \<open>UI Components\<close>

record list_ui_components_params =
  components_category :: "string option"
  components_framework :: "string option"
  components_tags :: "string list option"

definition listUIComponents :: "server \<Rightarrow> list_ui_components_params option \<Rightarrow> json option
       api" where
  "listUIComponents server params =
     request server (get (''/api/ui-components'' @ query_if_any (search_params [
       set_truthy ''category'' (member_of params components_category),
       set_truthy ''framework'' (member_of params components_framework),
       set_defined ''tags'' (map_option (join '','') (member_of params components_tags))])))"

definition getUIComponent :: "server \<Rightarrow> string \<Rightarrow> json option api" where
  "getUIComponent server componentId =
     request server (get (route [Lit ''/api/ui-components/'', Enc componentId]))"

definition createUIComponent :: "server \<Rightarrow> json \<Rightarrow> json option api" where
  "createUIComponent server data =
     request server (with_json data (post ''/api/ui-components''))"

definition updateUIComponent :: "server \<Rightarrow> string \<Rightarrow> json \<Rightarrow> json option api"
       where
  "updateUIComponent server componentId data =
     request server (with_json data (put (route [Lit ''/api/ui-components/'', Enc componentId])))"

definition deleteUIComponent :: "server \<Rightarrow> string \<Rightarrow> json option api" where
  "deleteUIComponent server componentId =
     request server (delete (route [Lit ''/api/ui-components/'', Enc componentId]))"

subsection \<open>Docker Export\<close>

definition exportAsDocker :: "server \<Rightarrow> string \<Rightarrow> json \<Rightarrow> json option api"
       where
  "exportAsDocker server projectId data =
     request server (with_json data (post (route [Lit ''/api/projects/'', Enc projectId, Lit
       ''/export-docker''])))"

definition downloadDockerTar :: "server \<Rightarrow> string \<Rightarrow> string \<Rightarrow> string api"
       where
  "downloadDockerTar server projectId imageId =
     read_blob (raw_fetch server (get (route [Lit ''/api/projects/'', Enc projectId, Lit ''/export-docker/'',
       Enc imageId, Lit ''/download''])))"

subsection \<open>Project Import, Export, Snapshots\<close>

definition importFromGit :: "server \<Rightarrow> json \<Rightarrow> json option api" where
  "importFromGit server data =
     request server (with_json data (post ''/api/projects/import/git''))"

definition importFromWebsite :: "server \<Rightarrow> json \<Rightarrow> json option api" where
  "importFromWebsite server data =
     request server (with_json data (post ''/api/projects/import/website''))"

definition importFromArchive ::
  "server \<Rightarrow> string \<Rightarrow> string \<times> string \<Rightarrow> bool option \<Rightarrow>
       string option \<Rightarrow> json api" where
  "importFromArchive server nm file installDeps filePath =
     parse_body (raw_fetch server (with_form
       ([(''name'', FormText nm), (''file'', FormFile (fst file) (snd file))] @
        form_defined ''install_deps'' (map_option show_bool installDeps) @ form_truthy ''path'' filePath)
       (post ''/api/projects/import/upload'')))"

definition getImportStatus :: "server \<Rightarrow> string \<Rightarrow> json option api" where
  "getImportStatus server importId =
     request server (get (route [Lit ''/api/projects/import/'', Enc importId, Lit ''/status'']))"

definition detectProjectType :: "server \<Rightarrow> string \<Rightarrow> json option api" where
  "detectProjectType server projectId =
     request server (post (route [Lit ''/api/projects/'', Enc projectId, Lit ''/detect-type'']))"

definition exportProject :: "server \<Rightarrow> string \<Rightarrow> string api" where
  "exportProject server projectId =
     read_blob (raw_fetch server (post (route [Lit ''/api/projects/'', Enc projectId, Lit ''/export''])))"

definition cloneProject :: "server \<Rightarrow> string \<Rightarrow> json \<Rightarrow> json option api" where
  "cloneProject server projectId data =
     request server (with_json data (post (route [Lit ''/api/projects/'', Enc projectId, Lit ''/clone''])))"

definition createSnapshot :: "server \<Rightarrow> string \<Rightarrow> json \<Rightarrow> json option api"
       where
  "createSnapshot server projectId data =
     request server (with_json data (post (route [Lit ''/api/projects/'', Enc projectId, Lit ''/snapshots''])))"

definition listSnapshots :: "server \<Rightarrow> string \<Rightarrow> json option api" where
  "listSnapshots server projectId =
     request server (get (route [Lit ''/api/projects/'', Enc projectId, Lit ''/snapshots'']))"

definition restoreSnapshot :: "server \<Rightarrow> string \<Rightarrow> string \<Rightarrow> json option api"
       where
  "restoreSnapshot server projectId nm =
     request server (post (route [Lit ''/api/projects/'', Enc projectId, Lit ''/snapshots/'', Enc nm, Lit
       ''/restore'']))"

definition deleteSnapshot :: "server \<Rightarrow> string \<Rightarrow> string \<Rightarrow> json option api"
       where
  "deleteSnapshot server projectId nm =
     request server (delete (route [Lit ''/api/projects/'', Enc projectId, Lit ''/snapshots/'', Enc nm]))"

subsection \<open>Names in paths\<close>

lemma snapshot_route:
  "route [Lit ''/api/projects/'', Enc projectId, Lit ''/snapshots/'', Enc nm] =
     path_text [''api'', ''projects'', encode_uri_component projectId, ''snapshots'', encode_uri_component nm]"
  by simp

lemma snapshot_segments:
  "plain_segment ''api'' \<and> plain_segment ''projects'' \<and> plain_segment ''snapshots''"
  by (simp add: plain_segment_def dot_segment_def dot_dot_segment_def)

text \<open>Deleting a snapshot of a project sends only \<open>DELETE\<close> requests, and whatever characters
  the project's id and the snapshot's name are made of, the path the browser asks for splits and decodes
  into exactly the resource of that snapshot; the only names left out are the two dot segments.\<close>

theorem delete_snapshot_names_resource:
  assumes "projectId \<notin> {''.'', ''..''}" and "nm \<notin> {''.'', ''..''}" and "0 < request_timeout_ms s"
  shows "\<exists>path. sends (deleteSnapshot server projectId nm) s ''DELETE'' path None \<and>
    map percent_decode (requested_segments path) = [''api'', ''projects'', projectId, ''snapshots'', nm] \<and>
    requested_query path = []"
proof -
  let ?ss = "[''api'', ''projects'', encode_uri_component projectId, ''snapshots'', encode_uri_component nm]"
  have plain: "list_all plain_segment ?ss"
    using assms(1,2) snapshot_segments encoded_segment by simp
  have q: "requested_query (path_text ?ss) = []"
    using requested_query_of(1) [OF conjunct1 [OF path_text_chars [OF plain]], of "[]"]
    by (simp add: query_if_any_def query_string_def)
  have seg: "requested_segments (path_text ?ss) = ?ss"
    using requested_path_text [OF plain, of "[]"] by simp
  have plain_decode: "percent_decode ''api'' = ''api'' \<and> percent_decode ''projects'' = ''projects'' \<and>
      percent_decode ''snapshots'' = ''snapshots''" by simp
  have sent: "sends (deleteSnapshot server projectId nm) s ''DELETE'' (path_text ?ss) None"
    using request_sends_call [of "delete (path_text ?ss)" s server] assms(3)
    unfolding deleteSnapshot_def snapshot_route by simp
  have decoded: "map percent_decode (requested_segments (path_text ?ss)) =
      [''api'', ''projects'', projectId, ''snapshots'', nm]"
    unfolding seg using plain_decode by (simp add: uri_component.decode_encode)
  show ?thesis by (rule exI [of _ "path_text ?ss"]) (intro conjI sent decoded q)
qed

lemma delete_snapshot_names_resource_witness:
  "\<exists>path. sends (deleteSnapshot (scripted [Reply (reply 204 ''No Content'' None None)]) ''p/1'' ''a?b#c'') sample_client ''DELETE'' path None \<and>
    map percent_decode (requested_segments path) = [''api'', ''projects'', ''p/1'', ''snapshots'', ''a?b#c''] \<and>
    requested_query path = []"
  by (rule delete_snapshot_names_resource) simp_all

text \<open>\<open>encodeURIComponent\<close> does not protect a path from dot segments: asked to delete the snapshot \<open>..\<close> of
  a project, the client sends \<open>DELETE\<close> for the path of the project itself, with a slash at its end.\<close>

theorem dot_dot_snapshot_targets_project:
  assumes "projectId \<notin> {''.'', ''..''}" and "0 < request_timeout_ms s"
  shows "\<exists>path. sends (deleteSnapshot server projectId ''..'') s ''DELETE'' path None \<and>
    map percent_decode (requested_segments path) = [''api'', ''projects'', projectId, []]"
proof -
  let ?ss = "[''api'', ''projects'', encode_uri_component projectId, ''snapshots'']"
  have plain: "list_all plain_segment ?ss" using assms(1) snapshot_segments encoded_segment by simp
  have path: "route [Lit ''/api/projects/'', Enc projectId, Lit ''/snapshots/'', Enc ''..''] = path_text ?ss @ ''/..''"
    by (simp add: encode_dots)
  have chars: "set (path_text ?ss) \<inter> {CHR ''?'', CHR ''#''} = {}" "backslash \<notin> set (path_text ?ss)"
    using path_text_chars [OF plain] by blast+
  have same: "map (\<lambda>c. if c = backslash then CHR ''/'' else c)
      (before_any {CHR ''?'', CHR ''#''} (path_text ?ss @ ''/..'')) = path_text ?ss @ ''/..''"
    unfolding before_any_absent [OF chars(1)] using chars(2)
    by (auto simp: before_any_def simp del: path_text_simps intro: map_idI)
  have split: "split_on CHR ''/'' (path_text ?ss @ CHR ''/'' # ''..'') = ([] # ?ss) @ [''..'']"
    unfolding split_on_Cons_sep using split_path_text [OF plain] by simp
  have no_dots: "\<not> dot_dot_segment x \<and> \<not> dot_segment x" if "plain_segment x" for x
    using that by (simp add: plain_segment_def)
  have "dot_dot_segment ''..''" by (simp add: dot_dot_segment_def)
  then have seg: "requested_segments (path_text ?ss @ ''/..'') = [''api'', ''projects'', encode_uri_component projectId, []]"
    unfolding requested_segments_def same split
    using plain no_dots by simp
  have sent: "sends (deleteSnapshot server projectId ''..'') s ''DELETE'' (path_text ?ss @ ''/..'') None"
    using request_sends_call [of "delete (path_text ?ss @ ''/..'')" s server] assms(2)
    unfolding deleteSnapshot_def path by simp
  have "map percent_decode (requested_segments (path_text ?ss @ ''/..'')) = [''api'', ''projects'', projectId, []]"
    unfolding seg by (simp add: uri_component.decode_encode)
  then show ?thesis using sent by (intro exI [of _ "path_text ?ss @ ''/..''"] conjI)
qed

lemma dot_dot_snapshot_targets_project_witness:
  "\<exists>path. sends (deleteSnapshot (scripted [Reply (reply 204 ''No Content'' None None)]) ''p1'' ''..'') sample_client ''DELETE'' path None \<and>
    map percent_decode (requested_segments path) = [''api'', ''projects'', ''p1'', []]"
  by (rule dot_dot_snapshot_targets_project) simp_all

end
