(* ===== verification/Api_Drupal.thy ===== *)
theory Api_Drupal
  imports Api_Core
begin

section \<open>Drupal sites\<close>

text \<open>
  The methods of \<open>WorkstationClient\<close> in \<^verbatim>\<open>packages/api/client.ts\<close> for Drupal sites, their staging, modules, themes, composer and content, and the local Drupal,
  each under its own name.
\<close>

subsection \<open>Drupal MCP\<close>

definition connectDrupalSite :: "server \<Rightarrow> string \<Rightarrow> json \<Rightarrow> json option api"
       where
  "connectDrupalSite server projectId data =
     request server (with_json data (post (route [Lit ''/api/drupal/'', Enc projectId, Lit ''/connect''])))"

definition getDrupalSite :: "server \<Rightarrow> string \<Rightarrow> json option api" where
  "getDrupalSite server projectId =
     request server (get (route [Lit ''/api/drupal/'', Enc projectId, Lit ''/site'']))"

definition disconnectDrupalSite :: "server \<Rightarrow> string \<Rightarrow> json option api" where
  "disconnectDrupalSite server projectId =
     request server (delete (route [Lit ''/api/drupal/'', Enc projectId, Lit ''/site'']))"

definition getDrupalConfig :: "server \<Rightarrow> string \<Rightarrow> json option api" where
  "getDrupalConfig server projectId =
     request server (get (route [Lit ''/api/drupal/'', Enc projectId, Lit ''/config'']))"

definition runDrush :: "server \<Rightarrow> string \<Rightarrow> string \<Rightarrow> json option api" where
  "runDrush server projectId cmd =
     request server (with_json (js_object [(''command'', Some (JStr cmd))]) (post (route [Lit ''/api/drupal/'',
       Enc projectId, Lit ''/drush''])))"

definition pullDrupalSite :: "server \<Rightarrow> string \<Rightarrow> json option api" where
  "pullDrupalSite server projectId =
     request server (post (route [Lit ''/api/drupal/'', Enc projectId, Lit ''/pull'']))"

definition pushDrupalConfig :: "server \<Rightarrow> string \<Rightarrow> json option api" where
  "pushDrupalConfig server projectId =
     request server (post (route [Lit ''/api/drupal/'', Enc projectId, Lit ''/push'']))"

definition getDrupalSyncStatus :: "server \<Rightarrow> string \<Rightarrow> json option api" where
  "getDrupalSyncStatus server projectId =
     request server (get (route [Lit ''/api/drupal/'', Enc projectId, Lit ''/sync-status'']))"

subsection \<open>Drupal Staging (SSH-based clone/push)\<close>

definition getDrupalStagingStatus :: "server \<Rightarrow> string \<Rightarrow> json option api" where
  "getDrupalStagingStatus server projectId =
     request server (get (route [Lit ''/api/drupal/'', Enc projectId, Lit ''/staging-status'']))"

definition cloneDrupalProduction :: "server \<Rightarrow> string \<Rightarrow> json option \<Rightarrow> json
       option api" where
  "cloneDrupalProduction server projectId data =
     request server (with_json (nullish data (js_object []))
       (post (route [Lit ''/api/drupal/'', Enc projectId, Lit ''/clone''])))"

definition pushDrupalToProduction :: "server \<Rightarrow> string \<Rightarrow> json \<Rightarrow> json option
       api" where
  "pushDrupalToProduction server projectId data =
     request server (with_json data (post (route [Lit ''/api/drupal/'', Enc projectId, Lit
       ''/staging/push''])))"

definition startDrupalStaging :: "server \<Rightarrow> string \<Rightarrow> json option api" where
  "startDrupalStaging server projectId =
     request server (post (route [Lit ''/api/drupal/'', Enc projectId, Lit ''/staging/start'']))"

definition stopDrupalStaging :: "server \<Rightarrow> string \<Rightarrow> json option api" where
  "stopDrupalStaging server projectId =
     request server (post (route [Lit ''/api/drupal/'', Enc projectId, Lit ''/staging/stop'']))"

definition getDrupalContentTypes :: "server \<Rightarrow> string \<Rightarrow> json option api" where
  "getDrupalContentTypes server projectId =
     request server (get (route [Lit ''/api/drupal/'', Enc projectId, Lit ''/content-types'']))"

definition listDrupalContent :: "server \<Rightarrow> string \<Rightarrow> string \<Rightarrow> json option
       api" where
  "listDrupalContent server projectId bundle =
     request server (get (route [Lit ''/api/drupal/'', Enc projectId, Lit ''/content/'', Enc bundle]))"

definition createDrupalNode :: "server \<Rightarrow> string \<Rightarrow> string \<Rightarrow> json
       \<Rightarrow> json option api" where
  "createDrupalNode server projectId bundle data =
     request server (with_json data (post (route [Lit ''/api/drupal/'', Enc projectId, Lit ''/content/'', Enc
       bundle])))"

definition updateDrupalNode :: "server \<Rightarrow> string \<Rightarrow> string \<Rightarrow> string
       \<Rightarrow> json \<Rightarrow> json option api" where
  "updateDrupalNode server projectId bundle nodeUuid data =
     request server (with_json data (patch (route [Lit ''/api/drupal/'', Enc projectId, Lit ''/content/'', Enc
       bundle, Lit ''/'', Enc nodeUuid])))"

subsection \<open>Drupal Module/Theme Management\<close>

definition listDrupalModules :: "server \<Rightarrow> string \<Rightarrow> string option \<Rightarrow> json
       option api" where
  "listDrupalModules server projectId statusFilter =
     request server (get (route
       ([Lit ''/api/drupal/'', Enc projectId, Lit ''/modules''] @
        (if truthy_string statusFilter then [Lit ''?status_filter='', Enc (the statusFilter)] else []))))"

definition listDrupalThemes :: "server \<Rightarrow> string \<Rightarrow> string option \<Rightarrow> json
       option api" where
  "listDrupalThemes server projectId statusFilter =
     request server (get (route
       ([Lit ''/api/drupal/'', Enc projectId, Lit ''/themes''] @
        (if truthy_string statusFilter then [Lit ''?status_filter='', Enc (the statusFilter)] else []))))"

definition enableDrupalModules :: "server \<Rightarrow> string \<Rightarrow> json \<Rightarrow> json option
       api" where
  "enableDrupalModules server projectId data =
     request server (with_json data (post (route [Lit ''/api/drupal/'', Enc projectId, Lit
       ''/modules/enable''])))"

definition disableDrupalModules :: "server \<Rightarrow> string \<Rightarrow> json \<Rightarrow> json option
       api" where
  "disableDrupalModules server projectId data =
     request server (with_json data (post (route [Lit ''/api/drupal/'', Enc projectId, Lit
       ''/modules/disable''])))"

definition enableDrupalTheme :: "server \<Rightarrow> string \<Rightarrow> json \<Rightarrow> json option api"
       where
  "enableDrupalTheme server projectId data =
     request server (with_json data (post (route [Lit ''/api/drupal/'', Enc projectId, Lit
       ''/themes/enable''])))"

definition disableDrupalTheme :: "server \<Rightarrow> string \<Rightarrow> json \<Rightarrow> json option api"
       where
  "disableDrupalTheme server projectId data =
     request server (with_json data (post (route [Lit ''/api/drupal/'', Enc projectId, Lit
       ''/themes/disable''])))"

subsection \<open>Drupal Composer Operations\<close>

definition composerRequire :: "server \<Rightarrow> string \<Rightarrow> json \<Rightarrow> json option api"
       where
  "composerRequire server projectId data =
     request server (with_json data (post (route [Lit ''/api/drupal/'', Enc projectId, Lit
       ''/composer/require''])))"

definition composerRemove :: "server \<Rightarrow> string \<Rightarrow> json \<Rightarrow> json option api"
       where
  "composerRemove server projectId data =
     request server (with_json data (post (route [Lit ''/api/drupal/'', Enc projectId, Lit
       ''/composer/remove''])))"

definition composerUpdate :: "server \<Rightarrow> string \<Rightarrow> json \<Rightarrow> json option api"
       where
  "composerUpdate server projectId data =
     request server (with_json data (post (route [Lit ''/api/drupal/'', Enc projectId, Lit
       ''/composer/update''])))"

subsection \<open>Drupal Content Type & Block Content Management\<close>

definition createDrupalContentType :: "server \<Rightarrow> string \<Rightarrow> json \<Rightarrow> json option
       api" where
  "createDrupalContentType server projectId data =
     request server (with_json data (post (route [Lit ''/api/drupal/'', Enc projectId, Lit
       ''/content-types/create''])))"

definition listDrupalBlocks :: "server \<Rightarrow> string \<Rightarrow> string \<Rightarrow> json option api"
       where
  "listDrupalBlocks server projectId bundle =
     request server (get (route [Lit ''/api/drupal/'', Enc projectId, Lit ''/blocks/'', Enc bundle]))"

definition createDrupalBlock :: "server \<Rightarrow> string \<Rightarrow> string \<Rightarrow> json
       \<Rightarrow> json option api" where
  "createDrupalBlock server projectId bundle data =
     request server (with_json data (post (route [Lit ''/api/drupal/'', Enc projectId, Lit ''/blocks/'', Enc
       bundle])))"

definition updateDrupalBlock :: "server \<Rightarrow> string \<Rightarrow> string \<Rightarrow> string
       \<Rightarrow> json \<Rightarrow> json option api" where
  "updateDrupalBlock server projectId bundle blockUuid data =
     request server (with_json data (patch (route [Lit ''/api/drupal/'', Enc projectId, Lit ''/blocks/'', Enc
       bundle, Lit ''/'', Enc blockUuid])))"

definition scaffoldDrupalTheme :: "server \<Rightarrow> string \<Rightarrow> json \<Rightarrow> json option
       api" where
  "scaffoldDrupalTheme server projectId data =
     request server (with_json data (post (route [Lit ''/api/drupal/'', Enc projectId, Lit
       ''/themes/scaffold''])))"

subsection \<open>Drupal Local Development\<close>

definition getDrupalLocalFiles :: "server \<Rightarrow> string option \<Rightarrow> json option api" where
  "getDrupalLocalFiles server filePath =
     request server (get (''/api/drupal-local/files'' @ query_if_any (search_params [
       set_truthy ''path'' filePath])))"

definition getDrupalLocalFileContent :: "server \<Rightarrow> string \<Rightarrow> json option api" where
  "getDrupalLocalFileContent server filePath =
     request server (get (''/api/drupal-local/files/content'' @ query (search_params [
       params_set ''path'' filePath])))"

definition updateDrupalLocalFile :: "server \<Rightarrow> string \<Rightarrow> string \<Rightarrow> json option
       api" where
  "updateDrupalLocalFile server filePath content =
     request server (with_json (js_object [(''path'', Some (JStr filePath)), (''content'', Some (JStr
       content))]) (put ''/api/drupal-local/files/content''))"

definition createDrupalLocalFile :: "server \<Rightarrow> string \<Rightarrow> string option \<Rightarrow> json
       option api" where
  "createDrupalLocalFile server filePath content =
     request server (with_json (js_object [(''path'', Some (JStr filePath)), (''content'', Some (JStr (nullish
       content [])))]) (post ''/api/drupal-local/files''))"

definition createDrupalLocalDirectory :: "server \<Rightarrow> string \<Rightarrow> json option api" where
  "createDrupalLocalDirectory server filePath =
     request server (with_json (js_object [(''path'', Some (JStr filePath))]) (post
       ''/api/drupal-local/files/directory''))"

definition deleteDrupalLocalFile :: "server \<Rightarrow> string \<Rightarrow> json option api" where
  "deleteDrupalLocalFile server filePath =
     request server (delete (''/api/drupal-local/files'' @ query (search_params [
       params_set ''path'' filePath])))"

definition renameDrupalLocalFile :: "server \<Rightarrow> string \<Rightarrow> string \<Rightarrow> json option
       api" where
  "renameDrupalLocalFile server oldPath newPath =
     request server (with_json (js_object [(''old_path'', Some (JStr oldPath)), (''new_path'', Some (JStr
       newPath))]) (post ''/api/drupal-local/files/rename''))"

definition runDrupalLocalDrush :: "server \<Rightarrow> string \<Rightarrow> json option api" where
  "runDrupalLocalDrush server cmd =
     request server (with_json (js_object [(''command'', Some (JStr cmd))]) (post ''/api/drupal-local/drush''))"

definition getDrupalLocalModules :: "server \<Rightarrow> json option api" where
  "getDrupalLocalModules server =
     request server (get ''/api/drupal-local/modules'')"

definition getDrupalLocalThemes :: "server \<Rightarrow> json option api" where
  "getDrupalLocalThemes server =
     request server (get ''/api/drupal-local/themes'')"

definition scaffoldDrupalLocalModule :: "server \<Rightarrow> json \<Rightarrow> json option api" where
  "scaffoldDrupalLocalModule server data =
     request server (with_json data (post ''/api/drupal-local/scaffold/module''))"

definition getDrupalLocalStatus :: "server \<Rightarrow> json option api" where
  "getDrupalLocalStatus server =
     request server (get ''/api/drupal-local/status'')"

definition getDrupalLocalConfigStatus :: "server \<Rightarrow> json option api" where
  "getDrupalLocalConfigStatus server =
     request server (get ''/api/drupal-local/config/status'')"

definition exportDrupalLocalConfig :: "server \<Rightarrow> json option api" where
  "exportDrupalLocalConfig server =
     request server (post ''/api/drupal-local/config/export'')"

definition importDrupalLocalConfig :: "server \<Rightarrow> json option api" where
  "importDrupalLocalConfig server =
     request server (post ''/api/drupal-local/config/import'')"

definition generatePalette :: "server \<Rightarrow> json \<Rightarrow> json option api" where
  "generatePalette server data =
     request server (with_json data (post ''/api/drupal-local/palette/generate''))"

definition validatePalette :: "server \<Rightarrow> string list \<Rightarrow> json option api" where
  "validatePalette server colors =
     request server (with_json (js_object [(''colors'', Some (JArr (map JStr colors)))]) (post
       ''/api/drupal-local/palette/validate''))"

definition adjustPalette :: "server \<Rightarrow> string list \<Rightarrow> json option api" where
  "adjustPalette server colors =
     request server (with_json (js_object [(''colors'', Some (JArr (map JStr colors)))]) (post
       ''/api/drupal-local/palette/adjust''))"


end
