(* ===== verification/Api_Knowledge.thy ===== *)
theory Api_Knowledge
  imports Api_Core
begin

section \<open>The knowledge base\<close>

text \<open>
  The methods of \<open>WorkstationClient\<close> in \<^verbatim>\<open>packages/api/client.ts\<close> for the knowledge base and its builder,
  each under its own name.
\<close>

subsection \<open>Knowledge Base\<close>

definition getKBChunks :: "server \<Rightarrow> string \<Rightarrow> int option \<Rightarrow> int option
       \<Rightarrow> json option api" where
  "getKBChunks server sourceId skip maximum =
     request server (get (route [Lit ''/api/kb/chunks/'', Enc sourceId] @ query_if_any (search_params [
       set_defined ''skip'' (map_option show_int skip),
       set_defined ''limit'' (map_option show_int maximum)])))"

definition listKBSources :: "server \<Rightarrow> string \<Rightarrow> json option api" where
  "listKBSources server projectId =
     request server (get (route [Lit ''/api/kb/sources/'', Enc projectId]))"

definition uploadKBSource :: "server \<Rightarrow> string \<Rightarrow> string \<times> string \<Rightarrow>
       json api" where
  "uploadKBSource server projectId file =
     parse_body (raw_fetch server (with_form
       [(''project_id'', FormText projectId), (''file'', FormFile (fst file) (snd file))]
       (post ''/api/kb/sources'')))"

definition deleteKBSource :: "server \<Rightarrow> string \<Rightarrow> json option api" where
  "deleteKBSource server sourceId =
     request server (delete (route [Lit ''/api/kb/sources/'', Enc sourceId]))"

definition searchKB :: "server \<Rightarrow> json \<Rightarrow> json option api" where
  "searchKB server data =
     request server (with_json data (post ''/api/kb/search''))"

subsection \<open>KB Builder Wizard\<close>

definition bulkUploadKB :: "server \<Rightarrow> (string \<times> string) list \<Rightarrow> json api" where
  "bulkUploadKB server files =
     parse_body (raw_fetch server (with_form
       (map (\<lambda>(nm, bytes). (''files'', FormFile nm bytes)) files) (post ''/api/kb/bulk-upload'')))"

datatype extract_method = Ocr | Vision

fun extract_method_text :: "extract_method \<Rightarrow> string" where
  "extract_method_text Ocr = ''ocr''"
| "extract_method_text Vision = ''vision''"

definition extractPreviewKB ::
  "server \<Rightarrow> string \<times> string \<Rightarrow> extract_method option \<Rightarrow> json api" where
  "extractPreviewKB server file meth =
     parse_body (raw_fetch server (with_form [(''file'', FormFile (fst file) (snd file))]
       (post (''/api/kb/extract-preview'' @
         (case meth of None \<Rightarrow> [] | Some m \<Rightarrow> ''?method='' @ extract_method_text m)))))"

definition chunkPreviewKB :: "server \<Rightarrow> json \<Rightarrow> json option api" where
  "chunkPreviewKB server data =
     request server (with_json data (post ''/api/kb/chunk-preview''))"

definition listEmbeddingModels :: "server \<Rightarrow> json option api" where
  "listEmbeddingModels server =
     request server (get ''/api/kb/embedding-models'')"

definition bulkIngestKB :: "server \<Rightarrow> json \<Rightarrow> json option api" where
  "bulkIngestKB server data =
     request server (with_json data (post ''/api/kb/bulk-ingest''))"

definition getBulkStatus :: "server \<Rightarrow> string \<Rightarrow> json option api" where
  "getBulkStatus server batchId =
     request server (get (route [Lit ''/api/kb/bulk-status/'', Enc batchId]))"


end
