(* ===== verification/Api_Admin.thy ===== *)
theory Api_Admin
  imports Api_Core
begin

section \<open>Administration and help\<close>

text \<open>
  The methods of \<open>WorkstationClient\<close> in \<^verbatim>\<open>packages/api/client.ts\<close> for administration, audit logs and help topics,
  each under its own name.
\<close>

subsection \<open>Admin\<close>

definition getKernelDebug :: "server \<Rightarrow> json option api" where
  "getKernelDebug server =
     request server (get ''/api/admin/kernel/debug'')"

definition getKernelMetrics :: "server \<Rightarrow> json option api" where
  "getKernelMetrics server =
     request server (get ''/api/admin/kernel/metrics'')"

definition getServiceDebug :: "server \<Rightarrow> string \<Rightarrow> json option api" where
  "getServiceDebug server serviceName =
     request server (get (route [Lit ''/api/admin/kernel/services/'', Enc serviceName]))"

subsection \<open>Admin User Management\<close>

record admin_user_list_params =
  users_search :: "string option"
  users_role :: "string option"
  users_is_active :: "bool option"
  users_sort_by :: "string option"
  users_sort_order :: "string option"
  users_page :: "int option"
  users_page_size :: "int option"

definition listUsers :: "server \<Rightarrow> admin_user_list_params option \<Rightarrow> json option api" where
  "listUsers server params =
     request server (get (''/api/admin/users'' @ query_if_any (search_params [
       set_truthy ''search'' (member_of params users_search),
       set_truthy ''role'' (member_of params users_role),
       set_defined ''is_active'' (map_option show_bool (member_of params users_is_active)),
       set_truthy ''sort_by'' (member_of params users_sort_by),
       set_truthy ''sort_order'' (member_of params users_sort_order),
       set_defined ''page'' (map_option show_int (member_of params users_page)),
       set_defined ''page_size'' (map_option show_int (member_of params users_page_size))])))"

definition getUserDetails :: "server \<Rightarrow> string \<Rightarrow> json option api" where
  "getUserDetails server userId =
     request server (get (route [Lit ''/api/admin/users/'', Enc userId]))"

definition updateUserAsAdmin :: "server \<Rightarrow> string \<Rightarrow> json \<Rightarrow> json option api"
       where
  "updateUserAsAdmin server userId data =
     request server (with_json data (put (route [Lit ''/api/admin/users/'', Enc userId])))"

definition unlockUser :: "server \<Rightarrow> string \<Rightarrow> json option api" where
  "unlockUser server userId =
     request server (post (route [Lit ''/api/admin/users/'', Enc userId, Lit ''/unlock'']))"

subsection \<open>Admin Audit Logs\<close>

record audit_log_filters =
  audit_user_id :: "string option"
  audit_action :: "string option"
  audit_status :: "string option"
  audit_start_date :: "string option"
  audit_end_date :: "string option"
  audit_ip_address :: "string option"
  audit_search :: "string option"
  audit_sort_by :: "string option"
  audit_order :: "string option"
  audit_page :: "int option"
  audit_page_size :: "int option"

definition getAuditLogs :: "server \<Rightarrow> audit_log_filters option \<Rightarrow> json option api" where
  "getAuditLogs server params =
     request server (get (''/api/admin/users/audit-logs'' @ query_if_any (search_params [
       set_truthy ''user_id'' (member_of params audit_user_id),
       set_truthy ''action'' (member_of params audit_action),
       set_truthy ''status'' (member_of params audit_status),
       set_truthy ''start_date'' (member_of params audit_start_date),
       set_truthy ''end_date'' (member_of params audit_end_date),
       set_truthy ''ip_address'' (member_of params audit_ip_address),
       set_truthy ''search'' (member_of params audit_search),
       set_truthy ''sort_by'' (member_of params audit_sort_by),
       set_truthy ''order'' (member_of params audit_order),
       set_defined ''page'' (map_option show_int (member_of params audit_page)),
       set_defined ''page_size'' (map_option show_int (member_of params audit_page_size))])))"

definition exportAuditLogs ::
  "server \<Rightarrow> audit_log_filters option \<Rightarrow> string option \<Rightarrow> string api" where
  "exportAuditLogs server params format =
     read_blob (raw_fetch server (get (''/api/admin/users/audit-logs/export'' @
       query (search_params [params_set ''format'' (nullish format ''csv''),
         set_truthy ''user_id'' (member_of params audit_user_id),
         set_truthy ''action'' (member_of params audit_action),
         set_truthy ''status'' (member_of params audit_status),
         set_truthy ''start_date'' (member_of params audit_start_date),
         set_truthy ''end_date'' (member_of params audit_end_date),
         set_truthy ''ip_address'' (member_of params audit_ip_address),
         set_truthy ''search'' (member_of params audit_search),
         set_truthy ''sort_by'' (member_of params audit_sort_by),
         set_truthy ''order'' (member_of params audit_order)]))))"

subsection \<open>Help Topics\<close>

definition listHelpTopics :: "server \<Rightarrow> json option api" where
  "listHelpTopics server =
     request server (get ''/api/help'')"

definition searchHelpTopics :: "server \<Rightarrow> string \<Rightarrow> real option \<Rightarrow> json option
       api" where
  "searchHelpTopics server text_query topK =
     request server (with_json
       (js_object [(''query'', Some (JStr text_query)), (''top_k'', Some (JNum (nullish topK 10)))])
       (post ''/api/help/search''))"

definition createHelpTopic :: "server \<Rightarrow> json \<Rightarrow> json option api" where
  "createHelpTopic server data =
     request server (with_json data (post ''/api/help''))"

definition updateHelpTopic :: "server \<Rightarrow> string \<Rightarrow> json \<Rightarrow> json option api"
       where
  "updateHelpTopic server topicId data =
     request server (with_json data (put (route [Lit ''/api/help/'', Enc topicId])))"

definition deleteHelpTopic :: "server \<Rightarrow> string \<Rightarrow> json option api" where
  "deleteHelpTopic server topicId =
     ignore_result (request server (delete (route [Lit ''/api/help/'', Enc topicId])))"

definition submitHelpFeedback :: "server \<Rightarrow> string \<Rightarrow> json \<Rightarrow> json option api"
       where
  "submitHelpFeedback server topicId data =
     request server (with_json data (post (route [Lit ''/api/help/'', Enc topicId, Lit ''/feedback''])))"

definition getHelpFeedbackSummary :: "server \<Rightarrow> string \<Rightarrow> json option api" where
  "getHelpFeedbackSummary server topicId =
     request server (get (route [Lit ''/api/help/'', Enc topicId, Lit ''/feedback'']))"

record list_help_feedback_summaries_params =
  feedback_section_id :: "string option"
  feedback_limit :: "int option"
  feedback_offset :: "int option"

definition listHelpFeedbackSummaries :: "server \<Rightarrow> list_help_feedback_summaries_params option
       \<Rightarrow> json option api" where
  "listHelpFeedbackSummaries server params =
     request server (get (''/api/help/feedback/summary'' @ query_if_any (search_params [
       set_truthy ''section_id'' (member_of params feedback_section_id),
       set_defined ''limit'' (map_option show_int (member_of params feedback_limit)),
       set_defined ''offset'' (map_option show_int (member_of params feedback_offset))])))"

subsection \<open>Filters\<close>

definition user_filters :: "admin_user_list_params option \<Rightarrow> (string \<times> string option) list" where
  "user_filters params =
     [(''search'', given (member_of params users_search)), (''role'', given (member_of params users_role)),
      (''is_active'', map_option show_bool (member_of params users_is_active)),
      (''sort_by'', given (member_of params users_sort_by)),
      (''sort_order'', given (member_of params users_sort_order)),
      (''page'', map_option show_int (member_of params users_page)),
      (''page_size'', map_option show_int (member_of params users_page_size))]"

definition audit_filters :: "audit_log_filters option \<Rightarrow> (string \<times> string option) list" where
  "audit_filters params =
     [(''user_id'', given (member_of params audit_user_id)), (''action'', given (member_of params audit_action)),
      (''status'', given (member_of params audit_status)),
      (''start_date'', given (member_of params audit_start_date)),
      (''end_date'', given (member_of params audit_end_date)),
      (''ip_address'', given (member_of params audit_ip_address)),
      (''search'', given (member_of params audit_search)), (''sort_by'', given (member_of params audit_sort_by)),
      (''order'', given (member_of params audit_order))]"

definition audit_paging :: "audit_log_filters option \<Rightarrow> (string \<times> string option) list" where
  "audit_paging params =
     [(''page'', map_option show_int (member_of params audit_page)),
      (''page_size'', map_option show_int (member_of params audit_page_size))]"

lemma admin_paths:
  "list_all plain_segment [''api'', ''admin'', ''users'', ''audit-logs'', ''export'']"
  "set ''/api/admin/users'' \<inter> {CHR ''?'', CHR ''#''} = {}"
  "set ''/api/admin/users/audit-logs'' \<inter> {CHR ''?'', CHR ''#''} = {}"
  "set ''/api/admin/users/audit-logs/export'' \<inter> {CHR ''?'', CHR ''#''} = {}"
  by (simp_all add: plain_segment_def dot_segment_def dot_dot_segment_def)

lemma query_if_any_shape: "query_if_any ps = [] \<or> (\<exists>r. query_if_any ps = CHR ''?'' # r)"
  by (simp add: query_if_any_def Let_def)

lemma listUsers_call:
  "listUsers server params = request server (get (''/api/admin/users'' @ query_if_any (present (user_filters params))))"
  using search_params_present [of "user_filters params"]
  by (simp add: listUsers_def user_filters_def set_truthy_given)

lemma getAuditLogs_call:
  "getAuditLogs server params = request server (get (''/api/admin/users/audit-logs'' @
     query_if_any (present (audit_filters params @ audit_paging params))))"
  using search_params_present [of "audit_filters params @ audit_paging params"]
  by (simp add: getAuditLogs_def audit_filters_def audit_paging_def set_truthy_given)

lemma exportAuditLogs_call:
  "exportAuditLogs server params format = read_blob (raw_fetch server (get
     (''/api/admin/users/audit-logs/export'' @
      query ((''format'', nullish format ''csv'') # present (audit_filters params)))))"
proof -
  have "params_set k v = set_defined k (Some v)" for k v by (simp add: set_defined_def fun_eq_iff)
  then show ?thesis
    using search_params_present [of "(''format'', Some (nullish format ''csv'')) # audit_filters params"]
    by (simp add: exportAuditLogs_def audit_filters_def set_truthy_given)
qed

text \<open>the list of users is asked for with the filters the caller gave and nothing else: the path the
  browser requests is that of the user list, and the server decodes from the query each filter that is set,
  once and with its exact text, whatever characters it has; an empty text counts as not given.\<close>

theorem list_users_query_exact:
  assumes "0 < request_timeout_ms s"
  shows "\<exists>path. sends (listUsers server params) s ''GET'' path None \<and>
    requested_segments path = [''api'', ''admin'', ''users''] \<and>
    requested_query path = present (user_filters params)"
proof -
  let ?q = "query_if_any (present (user_filters params))"
  let ?path = "''/api/admin/users'' @ ?q"
  have sent: "sends (listUsers server params) s ''GET'' ?path None"
    using request_sends_call [of "get ?path" s server] assms unfolding listUsers_call by simp
  have "requested_segments (path_text [''api'', ''admin'', ''users''] @ ?q) = [''api'', ''admin'', ''users'']"
    using admin_paths(1) query_if_any_shape by (intro requested_path_text) simp_all
  then have seg: "requested_segments ?path = [''api'', ''admin'', ''users'']" by simp
  show ?thesis
    by (rule exI [of _ ?path]) (intro conjI sent seg requested_query_of(1) [OF admin_paths(2)])
qed

text \<open>The export of the audit log and the listing of it select the same entries: the query of the export
  is the format, \<open>csv\<close> unless another is asked for, and the query of the listing without its paging.\<close>

theorem audit_export_matches_listing:
  assumes "0 < request_timeout_ms s"
  shows "\<exists>p1 p2. sends (getAuditLogs server params) s ''GET'' p1 None \<and>
    sends (exportAuditLogs server params format) s ''GET'' p2 None \<and>
    requested_query p2 = (''format'', nullish format ''csv'') #
      filter (\<lambda>(k, v). k \<notin> {''page'', ''page_size''}) (requested_query p1)"
proof -
  let ?p1 = "''/api/admin/users/audit-logs'' @ query_if_any (present (audit_filters params @ audit_paging params))"
  let ?p2 = "''/api/admin/users/audit-logs/export'' @
    query ((''format'', nullish format ''csv'') # present (audit_filters params))"
  have s1: "sends (getAuditLogs server params) s ''GET'' ?p1 None"
    using request_sends_call [of "get ?p1" s server] assms unfolding getAuditLogs_call by simp
  have s2: "sends (exportAuditLogs server params format) s ''GET'' ?p2 None"
    using raw_fetch_sends [of "get ?p2" s server] assms unfolding exportAuditLogs_call read_blob_sends by simp
  have split: "present (a @ b) = present a @ present b" for a b
    by (simp add: present_def map_filter_def)
  have keys: "fst ` set (present kxs) \<subseteq> fst ` set kxs" for kxs
    by (force simp: present_def map_filter_def)
  have "filter (\<lambda>(k, v). k \<notin> {''page'', ''page_size''}) (present (audit_filters params)) = present (audit_filters params)"
    using keys [of "audit_filters params"] by (intro filter_True) (auto simp: audit_filters_def)
  moreover have "filter (\<lambda>(k, v). k \<notin> {''page'', ''page_size''}) (present (audit_paging params)) = []"
    using keys [of "audit_paging params"] by (intro filter_False) (auto simp: audit_paging_def)
  ultimately have same: "filter (\<lambda>(k, v). k \<notin> {''page'', ''page_size''}) (requested_query ?p1) = present (audit_filters params)"
    unfolding requested_query_of(1) [OF admin_paths(3)] split filter_append by simp
  have "requested_query ?p2 = (''format'', nullish format ''csv'') # present (audit_filters params)"
    by (rule requested_query_of(2) [OF admin_paths(4)])
  then show ?thesis using s1 s2 unfolding same [symmetric] by (intro exI conjI)
qed

definition sample_filters :: audit_log_filters where
  "sample_filters = \<lparr>audit_user_id = None, audit_action = Some ''login & logout'', audit_status = Some '''',
     audit_start_date = None, audit_end_date = None, audit_ip_address = None, audit_search = None,
     audit_sort_by = None, audit_order = Some ''desc'', audit_page = Some 2, audit_page_size = Some 50\<rparr>"

definition sample_user_list :: admin_user_list_params where
  "sample_user_list = \<lparr>users_search = Some ''a=b&c d'', users_role = Some '''', users_is_active = Some False,
     users_sort_by = None, users_sort_order = None, users_page = Some 3, users_page_size = None\<rparr>"

lemma list_users_query_exact_witness:
  "\<exists>path. sends (listUsers (scripted [Reply (reply 200 ''OK'' None (Some JNull))]) (Some sample_user_list))
      sample_client ''GET'' path None \<and>
    requested_segments path = [''api'', ''admin'', ''users''] \<and>
    requested_query path = [(''search'', ''a=b&c d''), (''is_active'', ''false''), (''page'', ''3'')]"
proof -
  have "0 < request_timeout_ms sample_client" by simp
  moreover have "present (user_filters (Some sample_user_list)) =
      [(''search'', ''a=b&c d''), (''is_active'', ''false''), (''page'', ''3'')]" by code_simp
  ultimately show ?thesis
    using list_users_query_exact [of sample_client "scripted [Reply (reply 200 ''OK'' None (Some JNull))]"
        "Some sample_user_list"] by simp
qed

lemma audit_export_matches_listing_witness:
  "\<exists>p1 p2. sends (getAuditLogs (scripted [Reply (reply 200 ''OK'' None (Some JNull))]) (Some sample_filters))
      sample_client ''GET'' p1 None \<and>
    sends (exportAuditLogs (scripted [Reply (reply 200 ''OK'' None (Some JNull))]) (Some sample_filters) None)
      sample_client ''GET'' p2 None \<and>
    requested_query p2 = (''format'', nullish None ''csv'') #
      filter (\<lambda>(k, v). k \<notin> {''page'', ''page_size''}) (requested_query p1)"
  by (rule audit_export_matches_listing) simp

end
