(* ===== verification/Api_Notes.thy ===== *)
theory Api_Notes
  imports Api_Core
begin

section \<open>Presets, notes and issues\<close>

text \<open>
  The methods of \<open>WorkstationClient\<close> in \<^verbatim>\<open>packages/api/client.ts\<close> for prompt presets, notes, categories, issues and messages,
  each under its own name.
\<close>

subsection \<open>Prompt Presets\<close>

record list_prompt_presets_params =
  presets_category :: "string option"
  presets_search :: "string option"
  presets_mine_only :: "bool option"
  presets_skip :: "int option"
  presets_limit :: "int option"

definition listPromptPresets :: "server \<Rightarrow> list_prompt_presets_params option \<Rightarrow> json
       option api" where
  "listPromptPresets server params =
     request server (get (''/api/prompt-presets'' @ query_if_any (search_params [
       set_truthy ''category'' (member_of params presets_category),
       set_truthy ''search'' (member_of params presets_search),
       (if member_of params presets_mine_only = Some True then params_set ''mine_only'' ''true'' else id),
       set_defined ''skip'' (map_option show_int (member_of params presets_skip)),
       set_defined ''limit'' (map_option show_int (member_of params presets_limit))])))"

definition getPromptPreset :: "server \<Rightarrow> string \<Rightarrow> json option api" where
  "getPromptPreset server presetId =
     request server (get (route [Lit ''/api/prompt-presets/'', Enc presetId]))"

definition createPromptPreset :: "server \<Rightarrow> json \<Rightarrow> json option api" where
  "createPromptPreset server data =
     request server (with_json data (post ''/api/prompt-presets''))"

definition updatePromptPreset :: "server \<Rightarrow> string \<Rightarrow> json \<Rightarrow> json option api"
       where
  "updatePromptPreset server presetId data =
     request server (with_json data (put (route [Lit ''/api/prompt-presets/'', Enc presetId])))"

definition deletePromptPreset :: "server \<Rightarrow> string \<Rightarrow> json option api" where
  "deletePromptPreset server presetId =
     request server (delete (route [Lit ''/api/prompt-presets/'', Enc presetId]))"

subsection \<open>Notes\<close>

record list_notes_params =
  notes_project_id :: "string option"
  notes_category_id :: "string option"
  notes_status :: "string option"
  notes_pinned :: "bool option"
  notes_limit :: "int option"
  notes_offset :: "int option"

definition listNotes :: "server \<Rightarrow> list_notes_params option \<Rightarrow> json option api" where
  "listNotes server params =
     request server (get (''/api/notes'' @ query_if_any (search_params [
       set_truthy ''project_id'' (member_of params notes_project_id),
       set_truthy ''category_id'' (member_of params notes_category_id),
       set_truthy ''status'' (member_of params notes_status),
       set_defined ''pinned'' (map_option show_bool (member_of params notes_pinned)),
       set_defined ''limit'' (map_option show_int (member_of params notes_limit)),
       set_defined ''offset'' (map_option show_int (member_of params notes_offset))])))"

definition createNote :: "server \<Rightarrow> json \<Rightarrow> json option api" where
  "createNote server data =
     request server (with_json data (post ''/api/notes''))"

definition getNote :: "server \<Rightarrow> string \<Rightarrow> json option api" where
  "getNote server noteId =
     request server (get (route [Lit ''/api/notes/'', Enc noteId]))"

definition updateNote :: "server \<Rightarrow> string \<Rightarrow> json \<Rightarrow> json option api" where
  "updateNote server noteId data =
     request server (with_json data (put (route [Lit ''/api/notes/'', Enc noteId])))"

definition deleteNote :: "server \<Rightarrow> string \<Rightarrow> json option api" where
  "deleteNote server noteId =
     request server (delete (route [Lit ''/api/notes/'', Enc noteId]))"

definition adminDeleteNote :: "server \<Rightarrow> string \<Rightarrow> json option api" where
  "adminDeleteNote server noteId =
     request server (delete (route [Lit ''/api/admin/notes/'', Enc noteId]))"

definition completeNote :: "server \<Rightarrow> string \<Rightarrow> json option api" where
  "completeNote server noteId =
     request server (post (route [Lit ''/api/notes/'', Enc noteId, Lit ''/complete'']))"

definition archiveNote :: "server \<Rightarrow> string \<Rightarrow> json option api" where
  "archiveNote server noteId =
     request server (post (route [Lit ''/api/notes/'', Enc noteId, Lit ''/archive'']))"

definition exportAppBugs :: "server \<Rightarrow> json option api" where
  "exportAppBugs server =
     request server (get ''/api/notes/export/app-bugs'')"

subsection \<open>Issue/Bug Export\<close>

definition exportBugs :: "server \<Rightarrow> string option \<Rightarrow> json option api" where
  "exportBugs server projectId =
     request server (get (''/api/issues/export'' @ query_if_any (search_params [
       set_truthy ''project_id'' projectId])))"

subsection \<open>Note Categories\<close>

definition listNoteCategories :: "server \<Rightarrow> json option api" where
  "listNoteCategories server =
     request server (get ''/api/note-categories'')"

definition createNoteCategory :: "server \<Rightarrow> json \<Rightarrow> json option api" where
  "createNoteCategory server data =
     request server (with_json data (post ''/api/note-categories''))"

definition updateNoteCategory :: "server \<Rightarrow> string \<Rightarrow> json \<Rightarrow> json option api"
       where
  "updateNoteCategory server categoryId data =
     request server (with_json data (put (route [Lit ''/api/note-categories/'', Enc categoryId])))"

definition deleteNoteCategory :: "server \<Rightarrow> string \<Rightarrow> json option api" where
  "deleteNoteCategory server categoryId =
     request server (delete (route [Lit ''/api/note-categories/'', Enc categoryId]))"

subsection \<open>Issues\<close>

record list_issues_params =
  issues_project_id :: "string option"
  issues_is_app_issue :: "bool option"
  issues_status :: "string option"
  issues_severity :: "string option"
  issues_limit :: "int option"
  issues_offset :: "int option"

definition listIssues :: "server \<Rightarrow> list_issues_params option \<Rightarrow> json option api" where
  "listIssues server params =
     request server (get (''/api/issues'' @ query_if_any (search_params [
       set_truthy ''project_id'' (member_of params issues_project_id),
       set_defined ''is_app_issue'' (map_option show_bool (member_of params issues_is_app_issue)),
       set_truthy ''status'' (member_of params issues_status),
       set_truthy ''severity'' (member_of params issues_severity),
       set_defined ''limit'' (map_option show_int (member_of params issues_limit)),
       set_defined ''offset'' (map_option show_int (member_of params issues_offset))])))"

definition createIssue :: "server \<Rightarrow> json \<Rightarrow> json option api" where
  "createIssue server data =
     request server (with_json data (post ''/api/issues''))"

definition getIssue :: "server \<Rightarrow> string \<Rightarrow> json option api" where
  "getIssue server issueId =
     request server (get (route [Lit ''/api/issues/'', Enc issueId]))"

definition updateIssue :: "server \<Rightarrow> string \<Rightarrow> json \<Rightarrow> json option api" where
  "updateIssue server issueId data =
     request server (with_json data (put (route [Lit ''/api/issues/'', Enc issueId])))"

definition deleteIssue :: "server \<Rightarrow> string \<Rightarrow> json option api" where
  "deleteIssue server issueId =
     request server (delete (route [Lit ''/api/issues/'', Enc issueId]))"

definition startIssueFix :: "server \<Rightarrow> string \<Rightarrow> json option api" where
  "startIssueFix server issueId =
     request server (post (route [Lit ''/api/issues/'', Enc issueId, Lit ''/start-fix'']))"

definition getIssueReviewStatus :: "server \<Rightarrow> string \<Rightarrow> json option api" where
  "getIssueReviewStatus server issueId =
     request server (get (route [Lit ''/api/issues/'', Enc issueId, Lit ''/review-status'']))"

definition scanProjectIssues :: "server \<Rightarrow> string \<Rightarrow> json option api" where
  "scanProjectIssues server projectId =
     request server (get (route [Lit ''/api/projects/'', Enc projectId, Lit ''/issues/scan'']))"

definition promoteNoteToIssue :: "server \<Rightarrow> string \<Rightarrow> json option api" where
  "promoteNoteToIssue server noteId =
     request server (post (route [Lit ''/api/notes/'', Enc noteId, Lit ''/promote-to-issue'']))"

subsection \<open>Admin Notes\<close>

record admin_list_notes_params =
  admin_notes_status :: "string option"
  admin_notes_limit :: "int option"
  admin_notes_offset :: "int option"

definition adminListNotes :: "server \<Rightarrow> admin_list_notes_params option \<Rightarrow> json option
       api" where
  "adminListNotes server params =
     request server (get (''/api/admin/notes'' @ query_if_any (search_params [
       set_truthy ''status'' (member_of params admin_notes_status),
       set_defined ''limit'' (map_option show_int (member_of params admin_notes_limit)),
       set_defined ''offset'' (map_option show_int (member_of params admin_notes_offset))])))"

subsection \<open>Claude Code Messages\<close>

definition listClaudeCodeMessages :: "server \<Rightarrow> string option \<Rightarrow> json option api" where
  "listClaudeCodeMessages server sinceId =
     request server (get (''/api/claude-code'' @ query_if_any (search_params [
       set_truthy ''since_id'' sinceId])))"

definition sendClaudeCodeMessage :: "server \<Rightarrow> json \<Rightarrow> json option api" where
  "sendClaudeCodeMessage server data =
     request server (with_json data (post ''/api/claude-code''))"

definition clearClaudeCodeMessages :: "server \<Rightarrow> json option api" where
  "clearClaudeCodeMessages server = ignore_result (request server (delete ''/api/claude-code''))"


end
