(* ===== verification/Hook_Monad.thy ===== *)
theory Hook_Monad
  imports Sse_Stream Api_Core
begin

section \<open>The language of the data hooks\<close>

text \<open>
  The hooks of \<^verbatim>\<open>packages/api/hooks\<close> that hold what the server sent share one shape: React state
  variables, and asynchronous callbacks that raise a flag, call the client, store members of the
  answer, and turn an exception into a message.  This theory has their state and the statements
  that they are written with.  The state variables are kept by name: boolean flags, messages, and
  data as the JSON value that was stored, none for \<open>undefined\<close>.  A callback runs from its call to
  its end; the hooks whose callbacks are modelled as interleaved with others have theories of their
  own.  An action ends with an exception or a value, and with the state of the hook and of the
  client: it composes with the endpoint methods and, through them, with the transport.
\<close>

subsection \<open>State and actions\<close>

record hook =
  flags :: "string \<Rightarrow> bool"
  messages_of :: "string \<Rightarrow> string option"
  vars :: "string \<Rightarrow> json option"

text \<open>An exception of the client, or the one of reading a member of \<open>undefined\<close> or \<open>null\<close>.\<close>

datatype thrown = Thrown js_error | NoObject

type_synonym 'a action = "hook \<times> http \<Rightarrow> (thrown + 'a) \<times> hook \<times> http"

text \<open>The server, and the texts of the errors that the host, not the program, words.\<close>

record env =
  srv :: server
  host_text :: "thrown \<Rightarrow> string"

definition finish_with :: "'a \<Rightarrow> 'a action" where
  "finish_with x w = (Inr x, w)"

definition throw :: "thrown \<Rightarrow> 'a action" where
  "throw e w = (Inl e, w)"

definition bind :: "'a action \<Rightarrow> ('a \<Rightarrow> 'b action) \<Rightarrow> 'b action" where
  "bind m f w = (case m w of (Inl e, w1) \<Rightarrow> (Inl e, w1) | (Inr x, w1) \<Rightarrow> f x w1)"

definition andthen :: "'a action \<Rightarrow> 'b action \<Rightarrow> 'b action" where
  "andthen m n = bind m (\<lambda>_. n)"

definition try_catch :: "'a action \<Rightarrow> (thrown \<Rightarrow> 'a action) \<Rightarrow> 'a action" where
  "try_catch m h w = (case m w of (Inl e, w1) \<Rightarrow> h e w1 | (Inr x, w1) \<Rightarrow> (Inr x, w1))"

definition try_finally :: "'a action \<Rightarrow> unit action \<Rightarrow> 'a action" where
  "try_finally m fin w =
     (case m w of (r, w1) \<Rightarrow> (case fin w1 of (Inl e, w2) \<Rightarrow> (Inl e, w2) | (Inr _, w2) \<Rightarrow> (r, w2)))"

definition do_if :: "bool \<Rightarrow> unit action \<Rightarrow> unit action" where
  "do_if b m = (if b then m else finish_with ())"

definition update_hook :: "(hook \<Rightarrow> hook) \<Rightarrow> unit action" where
  "update_hook f w = (Inr (), f (fst w), snd w)"

definition set_flag :: "string \<Rightarrow> bool \<Rightarrow> unit action" where
  "set_flag k b = update_hook (\<lambda>h. h\<lparr>flags := (flags h)(k := b)\<rparr>)"

definition set_message :: "string \<Rightarrow> string option \<Rightarrow> unit action" where
  "set_message k e = update_hook (\<lambda>h. h\<lparr>messages_of := (messages_of h)(k := e)\<rparr>)"

definition set_data :: "string \<Rightarrow> json option \<Rightarrow> unit action" where
  "set_data k v = update_hook (\<lambda>h. h\<lparr>vars := (vars h)(k := v)\<rparr>)"

definition modify_data :: "string \<Rightarrow> (json option \<Rightarrow> json option) \<Rightarrow> unit action" where
  "modify_data k f = update_hook (\<lambda>h. h\<lparr>vars := (vars h)(k := f (vars h k))\<rparr>)"

text \<open>A call of the client, with its state.\<close>

definition call_api :: "'r api \<Rightarrow> 'r action" where
  "call_api m w =
     (case m (snd w) of (Inl e, s1) \<Rightarrow> (Inl (Thrown e), fst w, s1) | (Inr v, s1) \<Rightarrow> (Inr v, fst w, s1))"

text \<open>\<open>v.k\<close>, which throws on \<open>undefined\<close> and \<open>null\<close>.\<close>

definition property :: "json option \<Rightarrow> string \<Rightarrow> json option action" where
  "property v k =
     (case v of None \<Rightarrow> throw NoObject | Some JNull \<Rightarrow> throw NoObject | Some j \<Rightarrow> finish_with (member j k))"

text \<open>\<open>setX(res.k); setY(res.l); ...\<close>, for the pairs of a state variable and a member.\<close>

fun store_members :: "(string \<times> string) list \<Rightarrow> json option \<Rightarrow> unit action" where
  "store_members [] v = finish_with ()"
| "store_members ((x, k) # xs) v = bind (property v k) (\<lambda>p. andthen (set_data x p) (store_members xs v))"

subsection \<open>Messages of errors\<close>

text \<open>\<^verbatim>\<open>utils/error.ts\<close>: all that the client throws is an \<open>Error\<close>, except the \<open>undefined\<close> of a loop
  that was never entered.\<close>

fun message_of :: "env \<Rightarrow> thrown \<Rightarrow> string option" where
  "message_of env (Thrown (ApiErr st t _ _)) = Some (''API Error '' @ show_nat st @ '': '' @ t)"
| "message_of env (Thrown (NetworkErr m)) = Some m"
| "message_of env (Thrown UndefinedErr) = None"
| "message_of env e = Some (host_text env e)"

definition extract_error_message :: "env \<Rightarrow> thrown \<Rightarrow> string \<Rightarrow> string" where
  "extract_error_message env e fallback = nullish (message_of env e) fallback"

definition report :: "env \<Rightarrow> string \<Rightarrow> string \<Rightarrow> thrown \<Rightarrow> unit action" where
  "report env k fallback e = set_message k (Some (extract_error_message env e fallback))"

subsection \<open>Arrays and objects in state variables\<close>

text \<open>
  \<open>prev.map((x) => x.id === k ? f(x) : x)\<close>, \<open>prev.filter((x) => x.id !== k)\<close> and \<open>{ ...x, k: v }\<close>.
  A state variable that these are applied to is an array; on anything else the page would crash.
\<close>

definition has_id :: "string \<Rightarrow> json \<Rightarrow> bool" where
  "has_id k v \<longleftrightarrow> member v ''id'' = Some (JStr k)"

fun on_array :: "(json list \<Rightarrow> json list) \<Rightarrow> json option \<Rightarrow> json option" where
  "on_array f (Some (JArr xs)) = Some (JArr (f xs))"
| "on_array f v = v"

definition replace_with_id :: "string \<Rightarrow> (json \<Rightarrow> json) \<Rightarrow> json list \<Rightarrow> json list" where
  "replace_with_id k f = map (\<lambda>x. if has_id k x then f x else x)"

definition remove_with_id :: "string \<Rightarrow> json list \<Rightarrow> json list" where
  "remove_with_id k = filter (\<lambda>x. \<not> has_id k x)"

fun with_member :: "string \<Rightarrow> json option \<Rightarrow> json \<Rightarrow> json" where
  "with_member k (Some v) (JObj kvs) = JObj (AList.update k v kvs)"
| "with_member k None (JObj kvs) = JObj (AList.delete k kvs)"
| "with_member k _ v = v"

fun elements :: "json option \<Rightarrow> json list" where
  "elements (Some (JArr xs)) = xs"
| "elements v = []"

subsection \<open>The two shapes of a callback\<close>

text \<open>
  \<open>fetch_into\<close>: raise a flag, clear the message, call, store, report an error, lower the flag.
  \<open>mutate\<close>: clear the message, call, reload, return the answer, report an error and rethrow it.
\<close>

definition fetch_into ::
  "env \<Rightarrow> string \<Rightarrow> string \<Rightarrow> string \<Rightarrow> json option api \<Rightarrow> (json option \<Rightarrow> unit action) \<Rightarrow> unit action" where
  "fetch_into env flag msg fallback m store =
     try_finally
       (try_catch
         (andthen (set_flag flag True) (andthen (set_message msg None) (bind (call_api m) store)))
         (report env msg fallback))
       (set_flag flag False)"

definition mutate ::
  "env \<Rightarrow> string \<Rightarrow> string \<Rightarrow> json option api \<Rightarrow> (json option \<Rightarrow> unit action) \<Rightarrow> json option action" where
  "mutate env msg fallback m reload =
     try_catch
       (andthen (set_message msg None)
         (bind (call_api m) (\<lambda>res. andthen (reload res) (finish_with res))))
       (\<lambda>e. andthen (report env msg fallback e) (throw e))"

text \<open>What the caller gets of a mutation that does not rethrow: null or the answer, or whether it worked.\<close>

definition or_null :: "json option action \<Rightarrow> json option option action" where
  "or_null m w = (case m w of (Inl e, w1) \<Rightarrow> (Inr None, w1) | (Inr v, w1) \<Rightarrow> (Inr (Some v), w1))"

definition worked :: "'a action \<Rightarrow> bool action" where
  "worked m w = (case m w of (Inl e, w1) \<Rightarrow> (Inr False, w1) | (Inr v, w1) \<Rightarrow> (Inr True, w1))"

definition no_result :: "'a action \<Rightarrow> unit action" where
  "no_result m w = (case m w of (Inl e, w1) \<Rightarrow> (Inl e, w1) | (Inr v, w1) \<Rightarrow> (Inr (), w1))"

definition new_hook :: "string list \<Rightarrow> (string \<times> json) list \<Rightarrow> hook" where
  "new_hook raised vs = \<lparr>flags = (\<lambda>k. k \<in> set raised), messages_of = (\<lambda>_. None), vars = map_of vs\<rparr>"

end
