(* ===== verification/Hooks_Content.thy ===== *)
theory Hooks_Content
  imports Hook_Monad Api_Context Api_Notes
begin

section \<open>Hooks for snippets, prompts, presets, palettes, chats, projects, notes and issues\<close>

text \<open>
  The callbacks of \<open>useSnippets\<close>, \<open>useSystemPrompts\<close>, \<open>usePromptPresets\<close>, \<open>usePalettes\<close>, \<open>useChats\<close>,
  \<open>useProjects\<close>, \<open>useProject\<close>, \<open>useNotes\<close> and \<open>useIssues\<close> of \<^verbatim>\<open>packages/api/hooks\<close>, named after the
  hook and the callback.
\<close>

abbreviation reload :: "unit action \<Rightarrow> json option \<Rightarrow> unit action" where
  "reload m \<equiv> \<lambda>_. m"

definition optional_member :: "json option \<Rightarrow> string \<Rightarrow> json option" where
  "optional_member v k = (case v of None \<Rightarrow> None | Some j \<Rightarrow> member j k)"

subsection \<open>Snippets\<close>

definition useSnippets_init :: hook where
  "useSnippets_init = new_hook [] [(''snippets'', JArr [])]"

definition useSnippets_refresh :: "env \<Rightarrow> unit action" where
  "useSnippets_refresh env =
     fetch_into env ''loading'' ''error'' ''Failed to fetch snippets''
       (listSnippets (srv env)) (store_members [(''snippets'', ''snippets'')])"

definition useSnippets_createSnippet :: "env \<Rightarrow> json \<Rightarrow> json option option action" where
  "useSnippets_createSnippet env data =
     or_null (mutate env ''error'' ''Failed to create snippet'' (createSnippet (srv env) data)
       (reload (useSnippets_refresh env)))"

definition useSnippets_updateSnippet :: "env \<Rightarrow> string \<Rightarrow> json \<Rightarrow> json option option action" where
  "useSnippets_updateSnippet env k data =
     or_null (mutate env ''error'' ''Failed to update snippet'' (updateSnippet (srv env) k data)
       (reload (useSnippets_refresh env)))"

definition useSnippets_deleteSnippet :: "env \<Rightarrow> string \<Rightarrow> bool action" where
  "useSnippets_deleteSnippet env k =
     worked (mutate env ''error'' ''Failed to delete snippet'' (deleteSnippet (srv env) k)
       (reload (useSnippets_refresh env)))"

subsection \<open>System prompts\<close>

definition useSystemPrompts_init :: hook where
  "useSystemPrompts_init = new_hook [] [(''prompts'', JArr [])]"

definition useSystemPrompts_refresh :: "env \<Rightarrow> unit action" where
  "useSystemPrompts_refresh env =
     fetch_into env ''loading'' ''error'' ''Failed to fetch prompts''
       (listSystemPrompts (srv env)) (store_members [(''prompts'', ''prompts'')])"

definition useSystemPrompts_createPrompt :: "env \<Rightarrow> json \<Rightarrow> json option option action" where
  "useSystemPrompts_createPrompt env data =
     or_null (mutate env ''error'' ''Failed to create prompt'' (createSystemPrompt (srv env) data)
       (reload (useSystemPrompts_refresh env)))"

definition useSystemPrompts_updatePrompt :: "env \<Rightarrow> string \<Rightarrow> json \<Rightarrow> json option option action" where
  "useSystemPrompts_updatePrompt env k data =
     or_null (mutate env ''error'' ''Failed to update prompt'' (updateSystemPrompt (srv env) k data)
       (reload (useSystemPrompts_refresh env)))"

definition useSystemPrompts_deletePrompt :: "env \<Rightarrow> string \<Rightarrow> bool action" where
  "useSystemPrompts_deletePrompt env k =
     worked (mutate env ''error'' ''Failed to delete prompt'' (deleteSystemPrompt (srv env) k)
       (reload (useSystemPrompts_refresh env)))"

definition useSystemPrompts_setDefault :: "env \<Rightarrow> string \<Rightarrow> bool action" where
  "useSystemPrompts_setDefault env k =
     worked (mutate env ''error'' ''Failed to set default''
       (updateSystemPrompt (srv env) k (js_object [(''is_default'', Some (JBool True))]))
       (reload (useSystemPrompts_refresh env)))"

subsection \<open>Prompt presets\<close>

record preset_filter =
  pf_category :: "string option"
  pf_search :: "string option"
  pf_mine_only :: "bool option"

definition usePromptPresets_init :: hook where
  "usePromptPresets_init = new_hook [] [(''presets'', JArr []), (''totalCount'', JNum 0)]"

definition usePromptPresets_refresh :: "env \<Rightarrow> preset_filter option \<Rightarrow> unit action" where
  "usePromptPresets_refresh env params =
     fetch_into env ''loading'' ''error'' ''Failed to load presets''
       (listPromptPresets (srv env) (Some
         \<lparr>presets_category = member_of params pf_category, presets_search = member_of params pf_search,
          presets_mine_only = member_of params pf_mine_only, presets_skip = None, presets_limit = None\<rparr>))
       (store_members [(''presets'', ''presets''), (''totalCount'', ''count'')])"

definition usePromptPresets_createPreset ::
  "env \<Rightarrow> preset_filter option \<Rightarrow> json \<Rightarrow> json option option action" where
  "usePromptPresets_createPreset env params data =
     or_null (mutate env ''error'' ''Failed to create preset'' (createPromptPreset (srv env) data)
       (reload (usePromptPresets_refresh env params)))"

definition usePromptPresets_updatePreset ::
  "env \<Rightarrow> preset_filter option \<Rightarrow> string \<Rightarrow> json \<Rightarrow> json option option action" where
  "usePromptPresets_updatePreset env params k data =
     or_null (mutate env ''error'' ''Failed to update preset'' (updatePromptPreset (srv env) k data)
       (reload (usePromptPresets_refresh env params)))"

definition usePromptPresets_deletePreset :: "env \<Rightarrow> preset_filter option \<Rightarrow> string \<Rightarrow> unit action" where
  "usePromptPresets_deletePreset env params k =
     no_result (worked (mutate env ''error'' ''Failed to delete preset'' (deletePromptPreset (srv env) k)
       (reload (usePromptPresets_refresh env params))))"

subsection \<open>Palettes\<close>

definition usePalettes_init :: hook where
  "usePalettes_init = new_hook [''loading''] [(''palettes'', JArr [])]"

definition usePalettes_refresh :: "env \<Rightarrow> unit action" where
  "usePalettes_refresh env =
     fetch_into env ''loading'' ''error'' ''Failed to load palettes''
       (listPalettes (srv env)) (store_members [(''palettes'', ''palettes'')])"

definition usePalettes_createPalette :: "env \<Rightarrow> json \<Rightarrow> json option option action" where
  "usePalettes_createPalette env data =
     or_null (mutate env ''error'' ''Failed to create palette'' (createPalette (srv env) data)
       (reload (usePalettes_refresh env)))"

definition usePalettes_updatePalette :: "env \<Rightarrow> string \<Rightarrow> json \<Rightarrow> json option option action" where
  "usePalettes_updatePalette env k data =
     or_null (mutate env ''error'' ''Failed to update palette'' (updatePalette (srv env) k data)
       (reload (usePalettes_refresh env)))"

definition usePalettes_deletePalette :: "env \<Rightarrow> string \<Rightarrow> bool action" where
  "usePalettes_deletePalette env k =
     worked (mutate env ''error'' ''Failed to delete palette'' (deletePalette (srv env) k)
       (reload (usePalettes_refresh env)))"

subsection \<open>Chats of a project\<close>

definition useChats_init :: hook where
  "useChats_init = new_hook [] [(''chats'', JArr [])]"

definition useChats_refresh :: "env \<Rightarrow> string option \<Rightarrow> unit action" where
  "useChats_refresh env projectId =
     do_if (truthy_string projectId)
       (fetch_into env ''loading'' ''error'' ''Failed to fetch chats''
         (getProjectChats (srv env) (the projectId)) (store_members [(''chats'', ''chats'')]))"

definition useChats_projectChanged :: "env \<Rightarrow> string option \<Rightarrow> unit action" where
  "useChats_projectChanged env projectId =
     (if truthy_string projectId then useChats_refresh env projectId
      else set_data ''chats'' (Some (JArr [])))"

definition useChats_createChat :: "env \<Rightarrow> string option \<Rightarrow> string \<Rightarrow> json option option action" where
  "useChats_createChat env projectId title =
     (if \<not> truthy_string projectId then finish_with None
      else or_null (try_catch
        (andthen (set_message ''error'' None)
          (bind (call_api (createChat (srv env) (the projectId) title))
            (\<lambda>res. andthen (useChats_refresh env projectId) (property res ''id''))))
        (\<lambda>e. andthen (report env ''error'' ''Failed to create chat'' e) (throw e))))"

definition apply_chat_update :: "json option \<Rightarrow> json \<Rightarrow> json" where
  "apply_chat_update updated c =
     fold (\<lambda>k. with_member k (optional_member updated k))
       [''title'', ''is_pinned'', ''is_archived'', ''updated_at''] c"

definition useChats_updateChat :: "env \<Rightarrow> string \<Rightarrow> json \<Rightarrow> bool action" where
  "useChats_updateChat env chatId updates =
     worked (mutate env ''error'' ''Failed to update chat'' (updateChat (srv env) chatId updates)
       (\<lambda>updated. modify_data ''chats'' (on_array (replace_with_id chatId (apply_chat_update updated)))))"

definition useChats_deleteChat :: "env \<Rightarrow> string \<Rightarrow> bool action" where
  "useChats_deleteChat env chatId =
     worked (mutate env ''error'' ''Failed to delete chat'' (deleteChat (srv env) chatId)
       (reload (modify_data ''chats'' (on_array (remove_with_id chatId)))))"

subsection \<open>Projects\<close>

definition useProjects_init :: hook where
  "useProjects_init = new_hook [''loading''] [(''projects'', JArr [])]"

definition useProjects_refresh :: "env \<Rightarrow> unit action" where
  "useProjects_refresh env =
     fetch_into env ''loading'' ''error'' ''Failed to load projects''
       (listProjects (srv env)) (store_members [(''projects'', ''projects'')])"

definition useProjects_createProject :: "env \<Rightarrow> json \<Rightarrow> json option action" where
  "useProjects_createProject env data =
     mutate env ''error'' ''Failed to create project'' (createProject (srv env) data)
       (reload (useProjects_refresh env))"

definition useProjects_updateProject :: "env \<Rightarrow> string \<Rightarrow> json \<Rightarrow> json option action" where
  "useProjects_updateProject env k data =
     mutate env ''error'' ''Failed to update project'' (updateProject (srv env) k data)
       (reload (useProjects_refresh env))"

definition useProjects_deleteProject :: "env \<Rightarrow> string \<Rightarrow> unit action" where
  "useProjects_deleteProject env k =
     no_result (mutate env ''error'' ''Failed to delete project'' (deleteProject (srv env) k)
       (reload (useProjects_refresh env)))"

definition useProject_init :: hook where
  "useProject_init = new_hook [] [(''project'', JNull)]"

definition useProject_refresh :: "env \<Rightarrow> string option \<Rightarrow> unit action" where
  "useProject_refresh env projectId =
     do_if (truthy_string projectId)
       (fetch_into env ''loading'' ''error'' ''Failed to fetch project''
         (getProjectContext (srv env) (the projectId)) (set_data ''project''))"

definition useProject_projectChanged :: "env \<Rightarrow> string option \<Rightarrow> unit action" where
  "useProject_projectChanged env projectId =
     (if truthy_string projectId then useProject_refresh env projectId
      else set_data ''project'' (Some JNull))"

definition useProject_updateProject :: "env \<Rightarrow> string option \<Rightarrow> json \<Rightarrow> bool action" where
  "useProject_updateProject env projectId data =
     (if \<not> truthy_string projectId then finish_with False
      else worked (mutate env ''error'' ''Failed to update project''
        (updateProject (srv env) (the projectId) data) (reload (useProject_refresh env projectId))))"

subsection \<open>Notes\<close>

definition useNotes_init :: hook where
  "useNotes_init = new_hook [''loading''] [(''notes'', JArr []), (''categories'', JArr [])]"

definition useNotes_refresh :: "env \<Rightarrow> list_notes_params option \<Rightarrow> unit action" where
  "useNotes_refresh env filters =
     fetch_into env ''loading'' ''error'' ''Failed to load notes''
       (listNotes (srv env) filters) (store_members [(''notes'', ''notes'')])"

definition useNotes_refreshCategories :: "env \<Rightarrow> unit action" where
  "useNotes_refreshCategories env =
     try_catch (bind (call_api (listNoteCategories (srv env))) (store_members [(''categories'', ''categories'')]))
       (\<lambda>_. finish_with ())"

definition useNotes_createNote :: "env \<Rightarrow> list_notes_params option \<Rightarrow> json \<Rightarrow> json option action" where
  "useNotes_createNote env filters data =
     mutate env ''error'' ''Failed to create note'' (createNote (srv env) data)
       (reload (useNotes_refresh env filters))"

definition useNotes_updateNote ::
  "env \<Rightarrow> list_notes_params option \<Rightarrow> string \<Rightarrow> json \<Rightarrow> json option action" where
  "useNotes_updateNote env filters k data =
     mutate env ''error'' ''Failed to update note'' (updateNote (srv env) k data)
       (reload (useNotes_refresh env filters))"

definition useNotes_deleteNote :: "env \<Rightarrow> list_notes_params option \<Rightarrow> string \<Rightarrow> unit action" where
  "useNotes_deleteNote env filters k =
     no_result (mutate env ''error'' ''Failed to delete note'' (deleteNote (srv env) k)
       (reload (useNotes_refresh env filters)))"

definition useNotes_completeNote :: "env \<Rightarrow> list_notes_params option \<Rightarrow> string \<Rightarrow> json option action" where
  "useNotes_completeNote env filters k =
     mutate env ''error'' ''Failed to complete note'' (completeNote (srv env) k)
       (reload (useNotes_refresh env filters))"

definition useNotes_archiveNote :: "env \<Rightarrow> list_notes_params option \<Rightarrow> string \<Rightarrow> json option action" where
  "useNotes_archiveNote env filters k =
     mutate env ''error'' ''Failed to archive note'' (archiveNote (srv env) k)
       (reload (useNotes_refresh env filters))"

definition useNotes_createCategory :: "env \<Rightarrow> json \<Rightarrow> json option action" where
  "useNotes_createCategory env data =
     mutate env ''error'' ''Failed to create category'' (createNoteCategory (srv env) data)
       (reload (useNotes_refreshCategories env))"

definition useNotes_updateCategory :: "env \<Rightarrow> string \<Rightarrow> json \<Rightarrow> json option action" where
  "useNotes_updateCategory env k data =
     mutate env ''error'' ''Failed to update category'' (updateNoteCategory (srv env) k data)
       (reload (useNotes_refreshCategories env))"

definition useNotes_deleteCategory :: "env \<Rightarrow> string \<Rightarrow> unit action" where
  "useNotes_deleteCategory env k =
     no_result (mutate env ''error'' ''Failed to delete category'' (deleteNoteCategory (srv env) k)
       (reload (useNotes_refreshCategories env)))"

subsection \<open>Issues\<close>

definition useIssues_init :: hook where
  "useIssues_init = new_hook [''loading''] [(''issues'', JArr []), (''count'', JNum 0)]"

definition useIssues_refresh :: "env \<Rightarrow> list_issues_params option \<Rightarrow> unit action" where
  "useIssues_refresh env filters =
     fetch_into env ''loading'' ''error'' ''Failed to load bugs''
       (listIssues (srv env) filters) (store_members [(''issues'', ''issues''), (''count'', ''count'')])"

definition useIssues_createIssue :: "env \<Rightarrow> list_issues_params option \<Rightarrow> json \<Rightarrow> json option action" where
  "useIssues_createIssue env filters data =
     mutate env ''error'' ''Failed to create bug'' (createIssue (srv env) data)
       (reload (useIssues_refresh env filters))"

definition useIssues_updateIssue ::
  "env \<Rightarrow> list_issues_params option \<Rightarrow> string \<Rightarrow> json \<Rightarrow> json option action" where
  "useIssues_updateIssue env filters k data =
     mutate env ''error'' ''Failed to update bug'' (updateIssue (srv env) k data)
       (reload (useIssues_refresh env filters))"

definition useIssues_deleteIssue :: "env \<Rightarrow> list_issues_params option \<Rightarrow> string \<Rightarrow> unit action" where
  "useIssues_deleteIssue env filters k =
     no_result (mutate env ''error'' ''Failed to delete bug'' (deleteIssue (srv env) k)
       (reload (useIssues_refresh env filters)))"

definition useIssues_startFix :: "env \<Rightarrow> list_issues_params option \<Rightarrow> string \<Rightarrow> json option action" where
  "useIssues_startFix env filters k =
     mutate env ''error'' ''Failed to start fix'' (startIssueFix (srv env) k)
       (reload (useIssues_refresh env filters))"

definition useIssues_getReviewStatus :: "env \<Rightarrow> string \<Rightarrow> json option action" where
  "useIssues_getReviewStatus env k = call_api (getIssueReviewStatus (srv env) k)"

definition useIssues_scanProjectIssues :: "env \<Rightarrow> string \<Rightarrow> json option action" where
  "useIssues_scanProjectIssues env projectId = call_api (scanProjectIssues (srv env) projectId)"

end
