(* ===== verification/Hooks_Catalog.thy ===== *)
theory Hooks_Catalog
  imports Hook_Monad Api_Kernel Api_Sandbox Api_Projects Api_Knowledge Api_Admin
begin

section \<open>Hooks for tools, templates, edits, actions, help, events and the knowledge base\<close>

text \<open>
  The callbacks of \<open>useTools\<close>, \<open>useTemplates\<close>, \<open>useTechnologies\<close>, \<open>useUIComponents\<close>, \<open>useYoloEdits\<close>,
  \<open>useAutomationActions\<close>, \<open>useHelpTopics\<close>, \<open>useHelpAdmin\<close>, \<open>useEvents\<close>, \<open>useEventTypes\<close>, \<open>useCreateEvent\<close>,
  \<open>useEventStats\<close>, \<open>useKBSources\<close>, \<open>useKnowledgeBase\<close> and \<open>useFileExplorer\<close> of
  \<^verbatim>\<open>packages/api/hooks\<close>, named after the hook and the callback.
\<close>

subsection \<open>Tools, templates, technologies, components\<close>

definition useTools_init :: hook where
  "useTools_init = new_hook [''loading''] [(''tools'', JArr [])]"

definition useTools_refresh :: "env \<Rightarrow> unit action" where
  "useTools_refresh env =
     fetch_into env ''loading'' ''error'' ''Failed to fetch tools''
       (listTools (srv env)) (store_members [(''tools'', ''tools'')])"

definition useTools_executeTool :: "env \<Rightarrow> json \<Rightarrow> json option action" where
  "useTools_executeTool env req = call_api (executeTool (srv env) req)"

definition useTechnologies_init :: hook where
  "useTechnologies_init = new_hook [''loading''] [(''groups'', JArr []), (''categories'', JArr [])]"

definition useTechnologies_refresh :: "env \<Rightarrow> string option \<Rightarrow> unit action" where
  "useTechnologies_refresh env category =
     fetch_into env ''loading'' ''error'' ''Failed to load technologies''
       (getTechnologies (srv env) category)
       (store_members [(''groups'', ''groups''), (''categories'', ''categories'')])"

definition useTemplates_init :: hook where
  "useTemplates_init = new_hook [''loading''] [(''templates'', JArr []), (''categories'', JArr [])]"

definition useTemplates_refresh :: "env \<Rightarrow> string option \<Rightarrow> unit action" where
  "useTemplates_refresh env category =
     fetch_into env ''loading'' ''error'' ''Failed to load templates''
       (getTemplates (srv env) category)
       (store_members [(''templates'', ''templates''), (''categories'', ''categories'')])"

definition useUIComponents_init :: hook where
  "useUIComponents_init = new_hook [''loading''] [(''components'', JArr []), (''categories'', JArr [])]"

definition useUIComponents_refresh :: "env \<Rightarrow> list_ui_components_params option \<Rightarrow> unit action" where
  "useUIComponents_refresh env params =
     fetch_into env ''loading'' ''error'' ''Failed to load UI components''
       (listUIComponents (srv env) (Some
         \<lparr>components_category = member_of params components_category,
          components_framework = member_of params components_framework,
          components_tags = member_of params components_tags\<rparr>))
       (store_members [(''components'', ''components''), (''categories'', ''categories'')])"

subsection \<open>Edits and actions\<close>

definition useYoloEdits_init :: hook where
  "useYoloEdits_init = new_hook [''loading''] [(''edits'', JArr [])]"

definition useYoloEdits_refresh :: "env \<Rightarrow> string \<Rightarrow> unit action" where
  "useYoloEdits_refresh env projectId =
     fetch_into env ''loading'' ''error'' ''Failed to load edits''
       (listYoloEdits (srv env) projectId
         (Some \<lparr>yolo_limit = Some 50, yolo_offset = None, yolo_undo_performed = None\<rparr>))
       (store_members [(''edits'', ''edits'')])"

definition useYoloEdits_undo :: "env \<Rightarrow> string \<Rightarrow> string \<Rightarrow> json option action" where
  "useYoloEdits_undo env projectId editId =
     mutate env ''error'' ''Failed to undo edit'' (undoYoloEdit (srv env) editId)
       (\<lambda>_. useYoloEdits_refresh env projectId)"

definition useYoloEdits_undoableCount :: "hook \<Rightarrow> nat" where
  "useYoloEdits_undoableCount h =
     length (filter (\<lambda>e. \<not> truthy (member e ''undo_performed'')) (elements (vars h ''edits'')))"

definition useAutomationActions_init :: hook where
  "useAutomationActions_init = new_hook [''loading''] [(''actions'', JArr [])]"

definition useAutomationActions_refresh :: "env \<Rightarrow> string \<Rightarrow> unit action" where
  "useAutomationActions_refresh env projectId =
     fetch_into env ''loading'' ''error'' ''Failed to load actions''
       (listAutomationActions (srv env) projectId None) (store_members [(''actions'', ''actions'')])"

text \<open>Unlike \<open>mutate\<close>, these do not clear the message of an earlier error before the call.\<close>

definition act_and_refresh :: "env \<Rightarrow> string \<Rightarrow> string \<Rightarrow> json option api \<Rightarrow> json option action" where
  "act_and_refresh env projectId fallback m =
     try_catch
       (bind (call_api m) (\<lambda>res. andthen (useAutomationActions_refresh env projectId) (finish_with res)))
       (\<lambda>e. andthen (report env ''error'' fallback e) (throw e))"

definition useAutomationActions_approve ::
  "env \<Rightarrow> string \<Rightarrow> string \<Rightarrow> json option \<Rightarrow> unit action" where
  "useAutomationActions_approve env projectId actionId modifiedData =
     no_result (act_and_refresh env projectId ''Failed to approve action''
       (approveAutomationAction (srv env) actionId modifiedData))"

definition useAutomationActions_execute :: "env \<Rightarrow> string \<Rightarrow> string \<Rightarrow> json option action" where
  "useAutomationActions_execute env projectId actionId =
     act_and_refresh env projectId ''Failed to execute action'' (executeAutomationAction (srv env) actionId)"

definition useAutomationActions_reject :: "env \<Rightarrow> string \<Rightarrow> string \<Rightarrow> unit action" where
  "useAutomationActions_reject env projectId actionId =
     no_result (act_and_refresh env projectId ''Failed to reject action''
       (deleteAutomationAction (srv env) actionId))"

definition useAutomationActions_pendingCount :: "hook \<Rightarrow> nat" where
  "useAutomationActions_pendingCount h =
     length (filter (\<lambda>a. \<not> truthy (member a ''user_approved'') \<and> \<not> truthy (member a ''executed_at''))
       (elements (vars h ''actions'')))"

subsection \<open>Help topics\<close>

definition useHelpTopics_init :: hook where
  "useHelpTopics_init = new_hook [] [(''topics'', JArr [])]"

definition useHelpTopics_fetchTopics :: "env \<Rightarrow> unit action" where
  "useHelpTopics_fetchTopics env =
     try_finally
       (try_catch
         (andthen (set_flag ''loading'' True) (andthen (set_message ''error'' None)
           (bind (call_api (listHelpTopics (srv env))) (store_members [(''topics'', ''topics'')]))))
         (\<lambda>_. set_message ''error'' (Some ''Unable to load help topics'')))
       (set_flag ''loading'' False)"

definition useHelpTopics_search :: "env \<Rightarrow> string \<Rightarrow> json option action" where
  "useHelpTopics_search env text_query =
     bind (call_api (searchHelpTopics (srv env) text_query None)) (\<lambda>res. property res ''results'')"

definition apply_feedback :: "json option \<Rightarrow> json \<Rightarrow> json" where
  "apply_feedback feedback topic =
     fold (\<lambda>k. with_member k (case feedback of None \<Rightarrow> None | Some j \<Rightarrow> member j k))
       [''helpful_count'', ''unhelpful_count'', ''total_feedback_count'', ''helpful_ratio''] topic"

definition useHelpTopics_submitFeedback ::
  "env \<Rightarrow> string \<Rightarrow> bool \<Rightarrow> string option \<Rightarrow> string option \<Rightarrow> json option action" where
  "useHelpTopics_submitFeedback env topicId helpful contextSlug text_query =
     bind (call_api (submitHelpFeedback (srv env) topicId (js_object
         [(''helpful'', Some (JBool helpful)), (''context_slug'', map_option JStr contextSlug),
          (''query'', map_option JStr text_query), (''source'', Some (JStr ''help-modal''))])))
       (\<lambda>feedback. andthen
         (modify_data ''topics'' (on_array (replace_with_id topicId (apply_feedback feedback))))
         (finish_with feedback))"

definition useHelpAdmin_init :: hook where
  "useHelpAdmin_init = new_hook [] [(''topics'', JArr [])]"

definition useHelpAdmin_fetchTopics :: "env \<Rightarrow> unit action" where
  "useHelpAdmin_fetchTopics env =
     fetch_into env ''loading'' ''error'' ''Failed to load help topics''
       (listHelpTopics (srv env)) (store_members [(''topics'', ''topics'')])"

definition saving_change ::
  "env \<Rightarrow> string \<Rightarrow> json option api \<Rightarrow> (json option \<Rightarrow> json list \<Rightarrow> json list) \<Rightarrow> json option action" where
  "saving_change env fallback m change =
     try_finally
       (andthen (set_flag ''saving'' True)
         (mutate env ''error'' fallback m (\<lambda>res. modify_data ''topics'' (on_array (change res)))))
       (set_flag ''saving'' False)"

text \<open>The answer that is stored in the array; \<open>null\<close> stands in for \<open>undefined\<close>.\<close>

definition stored :: "json option \<Rightarrow> json" where
  "stored v = nullish v JNull"

definition useHelpAdmin_createTopic :: "env \<Rightarrow> json \<Rightarrow> json option action" where
  "useHelpAdmin_createTopic env data =
     saving_change env ''Failed to create help topic'' (createHelpTopic (srv env) data)
       (\<lambda>topic ts. ts @ [stored topic])"

definition useHelpAdmin_updateTopic :: "env \<Rightarrow> string \<Rightarrow> json \<Rightarrow> json option action" where
  "useHelpAdmin_updateTopic env k data =
     saving_change env ''Failed to update help topic'' (updateHelpTopic (srv env) k data)
       (\<lambda>updated. replace_with_id k (\<lambda>_. stored updated))"

definition useHelpAdmin_deleteTopic :: "env \<Rightarrow> string \<Rightarrow> unit action" where
  "useHelpAdmin_deleteTopic env k =
     no_result (saving_change env ''Failed to delete help topic'' (deleteHelpTopic (srv env) k)
       (\<lambda>_. remove_with_id k))"

subsection \<open>Events\<close>

definition useEvents_init :: hook where
  "useEvents_init = new_hook [''loading''] [(''events'', JArr []), (''total'', JNum 0)]"

record event_filter =
  ef_type :: "string option"
  ef_severity :: "string option"
  ef_source :: "string option"
  ef_limit :: "int option"
  ef_offset :: "int option"

definition useEvents_stableParams :: "event_filter option \<Rightarrow> (string \<times> query_value option) list" where
  "useEvents_stableParams params =
     [(''event_type'', map_option QueryStr (member_of params ef_type)),
      (''severity'', map_option QueryStr (member_of params ef_severity)),
      (''source'', map_option QueryStr (member_of params ef_source)),
      (''limit'', map_option QueryNum (member_of params ef_limit)),
      (''offset'', map_option QueryNum (member_of params ef_offset))]"

definition useEvents_refresh :: "env \<Rightarrow> event_filter option \<Rightarrow> unit action" where
  "useEvents_refresh env params =
     fetch_into env ''loading'' ''error'' ''Failed to fetch events''
       (getEvents (srv env) (Some (useEvents_stableParams params)))
       (store_members [(''events'', ''events''), (''total'', ''total'')])"

text \<open>The cache is the list of types with the time at which it was fetched.\<close>

type_synonym type_cache = "(json option \<times> nat) option"

definition fresh_cache :: "type_cache \<Rightarrow> nat \<Rightarrow> bool" where
  "fresh_cache cache now = (case cache of None \<Rightarrow> False | Some (types, fetchedAt) \<Rightarrow> now - fetchedAt < 60000)"

definition useEventTypes_refresh :: "env \<Rightarrow> type_cache \<Rightarrow> type_cache action" where
  "useEventTypes_refresh env cache w =
     (if fresh_cache cache (clock (snd w))
      then andthen (set_data ''eventTypes'' (fst (the cache)))
             (andthen (set_flag ''loading'' False) (finish_with cache)) w
      else try_finally
        (try_catch
          (andthen (set_flag ''loading'' True) (andthen (set_message ''error'' None)
            (bind (call_api (getEventTypes (srv env))) (\<lambda>types w1.
              andthen (set_data ''eventTypes'' types) (finish_with (Some (types, clock (snd w1)))) w1))))
          (\<lambda>e. andthen (report env ''error'' ''Failed to fetch event types'' e) (finish_with cache)))
        (set_flag ''loading'' False) w)"

definition useCreateEvent_createEvent :: "env \<Rightarrow> json \<Rightarrow> json option action" where
  "useCreateEvent_createEvent env ev =
     try_finally
       (andthen (set_flag ''creating'' True)
         (mutate env ''error'' ''Failed to create event'' (createEventBroadcast (srv env) ev)
           (set_data ''lastResult'')))
       (set_flag ''creating'' False)"

definition useCreateEvent_clearError :: "unit action" where
  "useCreateEvent_clearError = set_message ''error'' None"

text \<open>\<open>cancelled\<close>: whether the component is unmounted before the request ends.\<close>

definition useEventStats_refresh :: "env \<Rightarrow> bool \<Rightarrow> unit action" where
  "useEventStats_refresh env cancelled =
     try_finally
       (try_catch
         (andthen (set_flag ''loading'' True) (andthen (set_message ''error'' None)
           (bind (call_api (getEventStats (srv env))) (\<lambda>res. do_if (\<not> cancelled) (set_data ''stats'' res)))))
         (\<lambda>e. do_if (\<not> cancelled) (report env ''error'' ''Failed to fetch event stats'' e)))
       (do_if (\<not> cancelled) (set_flag ''loading'' False))"

subsection \<open>The knowledge base\<close>

definition allowed_extensions :: "string list" where
  "allowed_extensions = [''.pdf'', ''.txt'', ''.md'']"

definition max_kb_file_size :: nat where
  "max_kb_file_size = 50 * 1024 * 1024"

definition get_file_extension :: "string \<Rightarrow> string" where
  "get_file_extension filename =
     (if CHR ''.'' \<in> set filename
      then CHR ''.'' # to_lower (rev (takeWhile (\<lambda>c. c \<noteq> CHR ''.'') (rev filename))) else [])"

definition useKBSources_init :: hook where
  "useKBSources_init = new_hook [] [(''sources'', JArr []), (''searchResults'', JArr [])]"

definition useKBSources_loadSources :: "env \<Rightarrow> string \<Rightarrow> unit action" where
  "useKBSources_loadSources env projectId =
     try_finally
       (try_catch
         (andthen (set_flag ''sourcesLoading'' True) (andthen (set_message ''sourcesError'' None)
           (bind (call_api (listKBSources (srv env) projectId)) (store_members [(''sources'', ''sources'')]))))
         (\<lambda>e. andthen (report env ''sourcesError'' ''Failed to load sources'' e)
           (set_data ''sources'' (Some (JArr [])))))
       (set_flag ''sourcesLoading'' False)"

text \<open>A file is its name and its bytes; \<open>fixed1\<close> is the host's \<open>toFixed(1)\<close>.\<close>

definition useKBSources_uploadSource ::
  "env \<Rightarrow> (real \<Rightarrow> string) \<Rightarrow> string \<Rightarrow> string \<times> string \<Rightarrow> json option action" where
  "useKBSources_uploadSource env fixed1 projectId file =
     (let ext = get_file_extension (fst file)
      in if ext \<notin> set allowed_extensions then
           andthen (set_message ''sourcesError'' (Some (''Unsupported file type '' @ [char_of (39::nat)] @ ext @
             [char_of (39::nat)] @ ''. Allowed: .pdf, .txt, .md''))) (finish_with None)
         else if max_kb_file_size < length (snd file) then
           andthen (set_message ''sourcesError'' (Some (''File too large ('' @
             fixed1 (real (length (snd file)) / (1024 * 1024)) @ '' MB). Maximum is 50 MB.''))) (finish_with None)
         else
           try_finally
             (try_catch
               (andthen (set_flag ''uploading'' True) (andthen (set_message ''sourcesError'' None)
                 (bind (call_api (uploadKBSource (srv env) projectId file)) (\<lambda>source.
                   andthen (modify_data ''sources'' (on_array (\<lambda>prev. source # prev)))
                     (finish_with (Some source))))))
               (\<lambda>e. andthen (report env ''sourcesError'' ''Failed to upload'' e) (finish_with None)))
             (set_flag ''uploading'' False))"

definition useKBSources_deleteSource :: "env \<Rightarrow> string \<Rightarrow> unit action" where
  "useKBSources_deleteSource env sourceId =
     fetch_into env ''deleting'' ''sourcesError'' ''Failed to delete''
       (deleteKBSource (srv env) sourceId)
       (\<lambda>_. modify_data ''sources'' (on_array (remove_with_id sourceId)))"

definition useKBSources_search :: "env \<Rightarrow> string \<Rightarrow> string \<Rightarrow> real option \<Rightarrow> unit action" where
  "useKBSources_search env projectId text_query topK =
     try_finally
       (try_catch
         (andthen (set_flag ''searchLoading'' True) (andthen (set_message ''searchError'' None)
           (bind (call_api (searchKB (srv env) (js_object
               [(''project_id'', Some (JStr projectId)), (''query'', Some (JStr text_query)),
                (''top_k'', Some (JNum (nullish topK 5)))])))
             (store_members [(''searchResults'', ''results'')]))))
         (\<lambda>e. andthen (report env ''searchError'' ''Search failed'' e)
           (set_data ''searchResults'' (Some (JArr [])))))
       (set_flag ''searchLoading'' False)"

definition useKBSources_clearSearch :: "unit action" where
  "useKBSources_clearSearch =
     andthen (set_data ''searchResults'' (Some (JArr []))) (set_message ''searchError'' None)"

text \<open>The estimate of the number of chunks; \<open>skip\<close> and \<open>limit\<close> are the defaults unless given.\<close>

definition total_estimate :: "json \<Rightarrow> int \<Rightarrow> int \<Rightarrow> int" where
  "total_estimate result skip maximum =
     (case result of
        JArr xs \<Rightarrow> if int (length xs) < maximum then skip + int (length xs) else skip + maximum + 1
      | JStr s \<Rightarrow> if int (length s) < maximum then skip + int (length s) else skip + maximum + 1
      | _ \<Rightarrow> skip + maximum + 1)"

definition useKnowledgeBase_getChunks ::
  "env \<Rightarrow> string \<Rightarrow> int option \<Rightarrow> int option \<Rightarrow> unit action" where
  "useKnowledgeBase_getChunks env sourceId skip maximum =
     (let sk = nullish skip 0; m = nullish maximum 50
      in try_finally
        (try_catch
          (andthen (set_flag ''chunksLoading'' True) (andthen (set_message ''chunksError'' None)
            (bind (call_api (getKBChunks (srv env) sourceId (Some sk) (Some m))) (\<lambda>res.
              andthen (set_data ''chunks'' res)
                (case res of None \<Rightarrow> throw NoObject | Some JNull \<Rightarrow> throw NoObject
                 | Some j \<Rightarrow> set_data ''totalChunks'' (Some (JNum (real_of_int (total_estimate j sk m)))))))))
          (\<lambda>e. andthen (report env ''chunksError'' ''Failed to load chunks'' e)
            (andthen (set_data ''chunks'' (Some (JArr []))) (set_data ''totalChunks'' (Some (JNum 0))))))
        (set_flag ''chunksLoading'' False))"

subsection \<open>The file explorer\<close>

definition useFileExplorer_init :: hook where
  "useFileExplorer_init = new_hook [] [(''fileTree'', JNull)]"

definition useFileExplorer_refreshTree :: "env \<Rightarrow> string option \<Rightarrow> unit action" where
  "useFileExplorer_refreshTree env projectId =
     do_if (truthy_string projectId)
       (fetch_into env ''loading'' ''error'' ''Failed to load file tree''
         (getFileTree (srv env) (the projectId)) (store_members [(''fileTree'', ''files'')]))"

definition pause_ms :: "nat \<Rightarrow> unit action" where
  "pause_ms ms w = (Inr (), fst w, wait_ms ms (snd w))"

definition file_operation ::
  "env \<Rightarrow> string option \<Rightarrow> string \<Rightarrow> json option api \<Rightarrow> nat \<Rightarrow> unit action" where
  "file_operation env projectId fallback m ms =
     do_if (truthy_string projectId)
       (try_catch
         (bind (call_api m) (\<lambda>_. andthen (pause_ms ms) (useFileExplorer_refreshTree env projectId)))
         (report env ''error'' fallback))"

definition useFileExplorer_createFile ::
  "env \<Rightarrow> string option \<Rightarrow> string \<Rightarrow> string option \<Rightarrow> unit action" where
  "useFileExplorer_createFile env projectId filePath content =
     file_operation env projectId ''Failed to create file''
       (createFile (srv env) (the projectId) filePath content) 150"

definition useFileExplorer_createDirectory :: "env \<Rightarrow> string option \<Rightarrow> string \<Rightarrow> unit action" where
  "useFileExplorer_createDirectory env projectId filePath =
     file_operation env projectId ''Failed to create directory''
       (createDirectory (srv env) (the projectId) filePath) 150"

definition useFileExplorer_deleteFile :: "env \<Rightarrow> string option \<Rightarrow> string \<Rightarrow> unit action" where
  "useFileExplorer_deleteFile env projectId filePath =
     file_operation env projectId ''Failed to delete'' (deleteFile (srv env) (the projectId) filePath) 0"

definition useFileExplorer_renameFile :: "env \<Rightarrow> string option \<Rightarrow> string \<Rightarrow> string \<Rightarrow> unit action" where
  "useFileExplorer_renameFile env projectId oldPath newPath =
     file_operation env projectId ''Failed to rename''
       (renameFile (srv env) (the projectId) oldPath newPath) 0"

end
