(* ===== verification/Hook_Laws.thy ===== *)
theory Hook_Laws
  imports Hooks_Content Hooks_Catalog
begin

section \<open>What the callbacks of the data hooks keep\<close>

text \<open>
  The laws of the callbacks of \<^verbatim>\<open>packages/api/hooks\<close>: how they end, what they do to their flag,
  message and data, and which requests they make.  \<open>settling\<close> is the interface between a mutation
  and the refresh that it awaits: because a refresh never throws, the outcome of the mutation is the
  outcome of its own request.
\<close>

subsection \<open>Running the statements\<close>

named_theorems run_simps

lemmas run_statements [run_simps] =
  finish_with_def throw_def bind_def andthen_def try_catch_def try_finally_def do_if_def update_hook_def
  set_flag_def set_message_def set_data_def modify_data_def report_def

lemma call_api_outcome: "fst (call_api m w) = map_sum Thrown id (fst (m (snd w)))"
  by (simp add: call_api_def split: prod.splits sum.splits)

lemma call_api_hook: "fst (snd (call_api m w)) = fst w"
  by (simp add: call_api_def split: prod.splits sum.splits)

lemma call_api_client: "snd (snd (call_api m w)) = snd (m (snd w))"
  by (simp add: call_api_def split: prod.splits sum.splits)

lemma call_api_cases:
  obtains (fails) e s1 where "m (snd w) = (Inl e, s1)" "call_api m w = (Inl (Thrown e), fst w, s1)"
  | (answers) v s1 where "m (snd w) = (Inr v, s1)" "call_api m w = (Inr v, fst w, s1)"
  by (cases "m (snd w)"; cases "fst (m (snd w))") (auto simp: call_api_def)

lemma store_members_client: "snd (snd (store_members xs v w)) = snd w"
proof (induction xs arbitrary: w)
  case (Cons x xs)
  then show ?case by (cases x) (auto simp: run_simps property_def split: option.splits json.splits)
qed (simp add: run_simps)

lemma store_members_flags: "flags (fst (snd (store_members xs v w))) = flags (fst w)"
proof (induction xs arbitrary: w)
  case (Cons x xs)
  then show ?case by (cases x) (auto simp: run_simps property_def split: option.splits json.splits)
qed (simp add: run_simps)

subsection \<open>The interface of a refresh\<close>

locale settling =
  fixes run :: "unit action" and flag :: string
  assumes ends: "fst (run w) = Inr ()"
    and settles: "\<not> flags (fst w) flag \<Longrightarrow> \<not> flags (fst (snd (run w))) flag"
begin

lemma ends_in: "\<exists>w1. run w = (Inr (), w1)"
  using ends by (metis prod.collapse)

lemma repeated_settles:
  "\<not> flags (fst w) flag \<Longrightarrow> \<not> flags (fst (((\<lambda>w. snd (run w)) ^^ n) w)) flag"
  by (induction n) (simp_all add: settles)

text \<open>What a mutation that awaits the refresh returns or throws is decided by its own request.\<close>

lemma mutate_outcome:
  "fst (mutate env msg fallback m (\<lambda>_. run) w) = map_sum Thrown id (fst (m (snd w)))"
proof -
  obtain h s where w: "w = (h, s)" by (cases w)
  obtain r s1 where m: "m s = (r, s1)" by (cases "m s")
  show ?thesis
  proof (cases r)
    case (Inl e)
    then show ?thesis by (simp add: w m mutate_def run_simps call_api_def)
  next
    case (Inr v)
    define h1 where "h1 = h\<lparr>messages_of := (messages_of h)(msg := None)\<rparr>"
    obtain w2 where "run (h1, s1) = (Inr (), w2)" using ends_in by blast
    then show ?thesis using Inr by (simp add: w m h1_def mutate_def run_simps call_api_def)
  qed
qed

text \<open>A mutation whose request fails leaves everything but its message as it was.\<close>

lemma mutate_failure:
  assumes "m s = (Inl e, s1)"
  shows "mutate env msg fallback m (\<lambda>_. run) (h, s) =
    (Inl (Thrown e),
     h\<lparr>messages_of := (messages_of h)(msg := Some (extract_error_message env (Thrown e) fallback))\<rparr>, s1)"
  using assms by (simp add: mutate_def run_simps call_api_def)

end

locale fetching = settling +
  assumes lowers: "\<not> flags (fst (snd (run w))) flag"

subsection \<open>The refreshes fulfil it\<close>

lemma fetch_into_fails:
  assumes "m s = (Inl e, s1)"
  shows "fetch_into env flag msg fallback m store (h, s) =
    (Inr (), h\<lparr>flags := (flags h)(flag := False),
       messages_of := (messages_of h)(msg := Some (extract_error_message env (Thrown e) fallback))\<rparr>, s1)"
  using assms by (simp add: fetch_into_def run_simps call_api_def)

lemma fetch_into_ends: "fst (fetch_into env flag msg fallback m store w) = Inr ()"
  by (auto simp: fetch_into_def run_simps split: prod.splits sum.splits)

lemma fetch_into_lowers: "\<not> flags (fst (snd (fetch_into env flag msg fallback m store w))) flag"
  by (auto simp: fetch_into_def run_simps split: prod.splits sum.splits)

text \<open>A successful answer: the members are stored, the message is cleared, the flag lowered.\<close>

fun stored_members :: "(string \<times> string) list \<Rightarrow> json \<Rightarrow> (string \<Rightarrow> json option) \<Rightarrow> string \<Rightarrow> json option" where
  "stored_members [] j d = d"
| "stored_members ((x, k) # xs) j d = stored_members xs j (d(x := member j k))"

lemma store_members_object:
  "store_members xs (Some (JObj kvs)) (h, s) =
     (Inr (), h\<lparr>vars := stored_members xs (JObj kvs) (vars h)\<rparr>, s)"
  by (induction xs arbitrary: h) (auto simp: run_simps property_def)

lemma fetch_into_stores:
  assumes "m s = (Inr (Some (JObj kvs)), s1)"
  shows "fetch_into env flag msg fallback m (store_members xs) (h, s) =
    (Inr (), h\<lparr>flags := (flags h)(flag := False), messages_of := (messages_of h)(msg := None),
       vars := stored_members xs (JObj kvs) (vars h)\<rparr>, s1)"
  using assms by (simp add: fetch_into_def run_simps call_api_def store_members_object)

interpretation snippets: fetching "useSnippets_refresh env" "''loading''" for env
  by unfold_locales (simp_all add: useSnippets_refresh_def fetch_into_ends fetch_into_lowers)

interpretation prompts: fetching "useSystemPrompts_refresh env" "''loading''" for env
  by unfold_locales (simp_all add: useSystemPrompts_refresh_def fetch_into_ends fetch_into_lowers)

interpretation presets: fetching "usePromptPresets_refresh env params" "''loading''" for env params
  by unfold_locales (simp_all add: usePromptPresets_refresh_def fetch_into_ends fetch_into_lowers)

interpretation palettes: fetching "usePalettes_refresh env" "''loading''" for env
  by unfold_locales (simp_all add: usePalettes_refresh_def fetch_into_ends fetch_into_lowers)

interpretation projects: fetching "useProjects_refresh env" "''loading''" for env
  by unfold_locales (simp_all add: useProjects_refresh_def fetch_into_ends fetch_into_lowers)

interpretation note_list: fetching "useNotes_refresh env filters" "''loading''" for env filters
  by unfold_locales (simp_all add: useNotes_refresh_def fetch_into_ends fetch_into_lowers)

interpretation issues: fetching "useIssues_refresh env filters" "''loading''" for env filters
  by unfold_locales (simp_all add: useIssues_refresh_def fetch_into_ends fetch_into_lowers)

interpretation tools: fetching "useTools_refresh env" "''loading''" for env
  by unfold_locales (simp_all add: useTools_refresh_def fetch_into_ends fetch_into_lowers)

interpretation technologies: fetching "useTechnologies_refresh env category" "''loading''" for env category
  by unfold_locales (simp_all add: useTechnologies_refresh_def fetch_into_ends fetch_into_lowers)

interpretation templates: fetching "useTemplates_refresh env category" "''loading''" for env category
  by unfold_locales (simp_all add: useTemplates_refresh_def fetch_into_ends fetch_into_lowers)

interpretation edits: fetching "useYoloEdits_refresh env projectId" "''loading''" for env projectId
  by unfold_locales (simp_all add: useYoloEdits_refresh_def fetch_into_ends fetch_into_lowers)

interpretation actions: fetching "useAutomationActions_refresh env projectId" "''loading''" for env projectId
  by unfold_locales (simp_all add: useAutomationActions_refresh_def fetch_into_ends fetch_into_lowers)

interpretation help_admin: fetching "useHelpAdmin_fetchTopics env" "''loading''" for env
  by unfold_locales (simp_all add: useHelpAdmin_fetchTopics_def fetch_into_ends fetch_into_lowers)

interpretation events: fetching "useEvents_refresh env params" "''loading''" for env params
  by unfold_locales (simp_all add: useEvents_refresh_def fetch_into_ends fetch_into_lowers)

text \<open>The refreshes that do nothing without a project settle, but do not lower a flag raised before.\<close>

interpretation chats: settling "useChats_refresh env projectId" "''loading''" for env projectId
  by unfold_locales (simp_all add: useChats_refresh_def do_if_def finish_with_def fetch_into_ends fetch_into_lowers)

interpretation project: settling "useProject_refresh env projectId" "''loading''" for env projectId
  by unfold_locales (simp_all add: useProject_refresh_def do_if_def finish_with_def fetch_into_ends fetch_into_lowers)

interpretation files: settling "useFileExplorer_refreshTree env projectId" "''loading''" for env projectId
  by unfold_locales (simp_all add: useFileExplorer_refreshTree_def do_if_def finish_with_def fetch_into_ends fetch_into_lowers)

lemma quiet_fetch_flags:
  "flags (fst (snd (try_catch (bind (call_api m) (store_members xs)) (\<lambda>_. finish_with ()) w))) = flags (fst w)"
proof (cases rule: call_api_cases [of m w])
  case (answers v s1)
  then show ?thesis
    using store_members_flags [of xs v "(fst w, s1)"]
    by (auto simp: run_simps split: prod.splits sum.splits)
qed (simp add: run_simps)

lemma quiet_fetch_ends:
  "fst (try_catch (bind (call_api m) (store_members xs)) (\<lambda>_. finish_with ()) w) = Inr ()"
  by (simp add: try_catch_def finish_with_def split: prod.splits sum.splits)

interpretation categories: settling "useNotes_refreshCategories env" "''loading''" for env
  by unfold_locales (simp_all only: useNotes_refreshCategories_def quiet_fetch_flags quiet_fetch_ends not_False_eq_True)

subsection \<open>Mutations\<close>

lemma or_null_outcome: "fst (or_null m w) = Inr (case fst (m w) of Inl _ \<Rightarrow> None | Inr v \<Rightarrow> Some v)"
  by (simp add: or_null_def split: prod.splits sum.splits)

lemma worked_outcome: "fst (worked m w) = Inr (\<not> isl (fst (m w)))"
  by (simp add: worked_def split: prod.splits sum.splits)

lemma rethrown_null [simp]:
  "(case map_sum f id r of Inl _ \<Rightarrow> None | Inr v \<Rightarrow> Some v) = (case r of Inl _ \<Rightarrow> None | Inr v \<Rightarrow> Some v)"
  by (cases r) simp_all

lemma isl_rethrown [simp]: "isl (map_sum f id r) = isl r"
  by (cases r) simp_all

lemma no_result_outcome: "fst (no_result m w) = map_sum id (\<lambda>_. ()) (fst (m w))"
  by (simp add: no_result_def split: prod.splits sum.splits)

lemma unit_rethrown [simp]: "map_sum id (\<lambda>_. ()) (map_sum f id r) = map_sum f (\<lambda>_. ()) r"
  by (cases r) simp_all

text \<open>A mutation that only edits the data of the hook afterwards: that never throws.\<close>

lemma mutate_modify_outcome:
  "fst (mutate env msg fallback m (\<lambda>_. modify_data x f) w) = map_sum Thrown id (fst (m (snd w)))"
proof -
  obtain h s where w: "w = (h, s)" by (cases w)
  obtain r s1 where m: "m s = (r, s1)" by (cases "m s")
  show ?thesis by (cases r) (simp_all add: w m mutate_def run_simps call_api_def)
qed

text \<open>
  What the caller gets of a request \<open>m\<close> that a callback makes: null or the answer, whether it worked, the answer or
  the exception of the client, or only the exception.
\<close>

definition reports_null :: "json option option action \<Rightarrow> json option api \<Rightarrow> hook \<times> http \<Rightarrow> bool" where
  "reports_null callback m w \<longleftrightarrow>
     fst (callback w) = Inr (case fst (m (snd w)) of Inl _ \<Rightarrow> None | Inr v \<Rightarrow> Some v)"

definition reports_success :: "bool action \<Rightarrow> json option api \<Rightarrow> hook \<times> http \<Rightarrow> bool" where
  "reports_success callback m w \<longleftrightarrow> fst (callback w) = Inr (\<not> isl (fst (m (snd w))))"

definition rethrows :: "json option action \<Rightarrow> json option api \<Rightarrow> hook \<times> http \<Rightarrow> bool" where
  "rethrows callback m w \<longleftrightarrow> fst (callback w) = map_sum Thrown id (fst (m (snd w)))"

definition rethrows_only :: "unit action \<Rightarrow> json option api \<Rightarrow> hook \<times> http \<Rightarrow> bool" where
  "rethrows_only callback m w \<longleftrightarrow> fst (callback w) = map_sum Thrown (\<lambda>_. ()) (fst (m (snd w)))"

text \<open>C24: The callbacks that change snippets, system prompts, prompt presets, palettes, projects, notes, categories of
  notes and issues, the fix of an issue, the deletion of a chat in the list and the undoing of an edit report the outcome of their own
  request, and that alone: when it succeeds the caller gets its answer (or that it worked) although the reload that
  follows may fail, and when it fails the caller gets null, false or the client's own error, whatever the reload
  would have done.  The deletion of a preset is the one that reports nothing: it ends the same way after a success
  and after a failure.\<close>
theorem mutations_report_their_request:
  "reports_null (useSnippets_createSnippet env data) (createSnippet (srv env) data) w \<and>
   reports_null (useSnippets_updateSnippet env k data) (updateSnippet (srv env) k data) w \<and>
   reports_success (useSnippets_deleteSnippet env k) (deleteSnippet (srv env) k) w \<and>
   reports_null (useSystemPrompts_createPrompt env data) (createSystemPrompt (srv env) data) w \<and>
   reports_null (useSystemPrompts_updatePrompt env k data) (updateSystemPrompt (srv env) k data) w \<and>
   reports_success (useSystemPrompts_deletePrompt env k) (deleteSystemPrompt (srv env) k) w \<and>
   reports_success (useSystemPrompts_setDefault env k) (updateSystemPrompt (srv env) k (js_object [(''is_default'', Some (JBool True))])) w \<and>
   reports_null (usePromptPresets_createPreset env presets data) (createPromptPreset (srv env) data) w \<and>
   reports_null (usePromptPresets_updatePreset env presets k data) (updatePromptPreset (srv env) k data) w \<and>
   reports_null (usePalettes_createPalette env data) (createPalette (srv env) data) w \<and>
   reports_null (usePalettes_updatePalette env k data) (updatePalette (srv env) k data) w \<and>
   reports_success (usePalettes_deletePalette env k) (deletePalette (srv env) k) w \<and>
   reports_success (useChats_deleteChat env k) (deleteChat (srv env) k) w \<and>
   rethrows (useProjects_createProject env data) (createProject (srv env) data) w \<and>
   rethrows (useProjects_updateProject env k data) (updateProject (srv env) k data) w \<and>
   rethrows_only (useProjects_deleteProject env k) (deleteProject (srv env) k) w \<and>
   rethrows (useNotes_createNote env filters data) (createNote (srv env) data) w \<and>
   rethrows (useNotes_updateNote env filters k data) (updateNote (srv env) k data) w \<and>
   rethrows_only (useNotes_deleteNote env filters k) (deleteNote (srv env) k) w \<and>
   rethrows (useNotes_completeNote env filters k) (completeNote (srv env) k) w \<and>
   rethrows (useNotes_archiveNote env filters k) (archiveNote (srv env) k) w \<and>
   rethrows (useNotes_createCategory env data) (createNoteCategory (srv env) data) w \<and>
   rethrows (useNotes_updateCategory env k data) (updateNoteCategory (srv env) k data) w \<and>
   rethrows_only (useNotes_deleteCategory env k) (deleteNoteCategory (srv env) k) w \<and>
   rethrows (useIssues_createIssue env issue_filters data) (createIssue (srv env) data) w \<and>
   rethrows (useIssues_updateIssue env issue_filters k data) (updateIssue (srv env) k data) w \<and>
   rethrows_only (useIssues_deleteIssue env issue_filters k) (deleteIssue (srv env) k) w \<and>
   rethrows (useIssues_startFix env issue_filters k) (startIssueFix (srv env) k) w \<and>
   rethrows (useYoloEdits_undo env projectId k) (undoYoloEdit (srv env) k) w \<and>
   fst (usePromptPresets_deletePreset env presets k w) = Inr ()"
  by (simp only: reports_null_def reports_success_def rethrows_def rethrows_only_def
      useSnippets_createSnippet_def useSnippets_updateSnippet_def useSnippets_deleteSnippet_def
      useSystemPrompts_createPrompt_def useSystemPrompts_updatePrompt_def useSystemPrompts_deletePrompt_def
      useSystemPrompts_setDefault_def usePromptPresets_createPreset_def usePromptPresets_updatePreset_def
      usePalettes_createPalette_def usePalettes_updatePalette_def usePalettes_deletePalette_def
      useChats_deleteChat_def useProjects_createProject_def useProjects_updateProject_def
      useProjects_deleteProject_def useNotes_createNote_def useNotes_updateNote_def useNotes_deleteNote_def
      useNotes_completeNote_def useNotes_archiveNote_def useNotes_createCategory_def useNotes_updateCategory_def
      useNotes_deleteCategory_def useIssues_createIssue_def useIssues_updateIssue_def useIssues_deleteIssue_def
      useIssues_startFix_def useYoloEdits_undo_def usePromptPresets_deletePreset_def
      or_null_outcome worked_outcome no_result_outcome rethrown_null isl_rethrown unit_rethrown map_sum.simps
      snippets.mutate_outcome prompts.mutate_outcome presets.mutate_outcome palettes.mutate_outcome
      projects.mutate_outcome note_list.mutate_outcome categories.mutate_outcome issues.mutate_outcome
      edits.mutate_outcome mutate_modify_outcome simp_thms)

subsection \<open>Refreshes\<close>

text \<open>
  What a list hook promises: what is shown after an answer is the hook's old state with the flag
  lowered and either the client's error beside the old data, or the members sent and no error.
\<close>

definition after_answer ::
  "env \<Rightarrow> (string \<times> string) list \<Rightarrow> string \<Rightarrow> hook \<Rightarrow> js_error + json option \<Rightarrow> hook" where
  "after_answer env xs fallback h r =
     (let failed = (\<lambda>e. h\<lparr>flags := (flags h)(''loading'' := False), messages_of := (messages_of h)(''error'' :=
            Some (extract_error_message env e fallback))\<rparr>)
      in case r of
        Inl e \<Rightarrow> failed (Thrown e)
      | Inr None \<Rightarrow> failed NoObject
      | Inr (Some JNull) \<Rightarrow> failed NoObject
      | Inr (Some j) \<Rightarrow> h\<lparr>flags := (flags h)(''loading'' := False), messages_of := (messages_of h)(''error'' := None),
          vars := stored_members xs j (vars h)\<rparr>)"

lemma store_members_some:
  "j \<noteq> JNull \<Longrightarrow> store_members xs (Some j) (h, s) = (Inr (), h\<lparr>vars := stored_members xs j (vars h)\<rparr>, s)"
  by (induction xs arbitrary: h) (auto simp: run_simps property_def split: json.splits)

lemma store_members_nothing:
  "xs \<noteq> [] \<Longrightarrow> v = None \<or> v = Some JNull \<Longrightarrow> store_members xs v w = (Inl NoObject, w)"
  by (cases xs) (auto simp: run_simps property_def)

lemma fetch_into_after_answer:
  assumes xs: "xs \<noteq> []"
  shows "fetch_into env ''loading'' ''error'' fallback m (store_members xs) (h, s) =
    (Inr (), after_answer env xs fallback h (fst (m s)), snd (m s))"
proof -
  obtain r s1 where m: "m s = (r, s1)" by (cases "m s")
  consider (fails) e where "r = Inl e" | (null) v where "r = Inr v" "v = None \<or> v = Some JNull"
    | (answer) j where "r = Inr (Some j)" "j \<noteq> JNull"
    by (metis not_None_eq sum.exhaust)
  then show ?thesis
  proof cases
    case fails
    then show ?thesis by (simp add: m fetch_into_fails [of m s e s1] after_answer_def Let_def)
  next
    case null
    then show ?thesis
      using store_members_nothing [OF xs null(2)]
      by (auto simp: m fetch_into_def run_simps call_api_def after_answer_def Let_def)
  next
    case answer
    then show ?thesis
      by (cases j) (simp_all add: m fetch_into_def run_simps call_api_def store_members_some after_answer_def Let_def)
  qed
qed

text \<open>The list hooks: the refresh, its request, the members it stores and the message without one.\<close>

definition list_hooks ::
  "env \<Rightarrow> (unit action \<times> json option api \<times> (string \<times> string) list \<times> string) list" where
  "list_hooks env =
     [(useSnippets_refresh env, listSnippets (srv env), [(''snippets'', ''snippets'')], ''Failed to fetch snippets''),
      (useSystemPrompts_refresh env, listSystemPrompts (srv env), [(''prompts'', ''prompts'')],
         ''Failed to fetch prompts''),
      (usePalettes_refresh env, listPalettes (srv env), [(''palettes'', ''palettes'')], ''Failed to load palettes''),
      (useProjects_refresh env, listProjects (srv env), [(''projects'', ''projects'')], ''Failed to load projects''),
      (useNotes_refresh env None, listNotes (srv env) None, [(''notes'', ''notes'')], ''Failed to load notes''),
      (useIssues_refresh env None, listIssues (srv env) None, [(''issues'', ''issues''), (''count'', ''count'')],
         ''Failed to load bugs''),
      (useTools_refresh env, listTools (srv env), [(''tools'', ''tools'')], ''Failed to fetch tools''),
      (useTemplates_refresh env None, getTemplates (srv env) None,
         [(''templates'', ''templates''), (''categories'', ''categories'')], ''Failed to load templates''),
      (useTechnologies_refresh env None, getTechnologies (srv env) None,
         [(''groups'', ''groups''), (''categories'', ''categories'')], ''Failed to load technologies''),
      (useHelpAdmin_fetchTopics env, listHelpTopics (srv env), [(''topics'', ''topics'')],
         ''Failed to load help topics'')]"

lemmas list_hook_defs = useSnippets_refresh_def useSystemPrompts_refresh_def usePalettes_refresh_def
  useProjects_refresh_def useNotes_refresh_def useIssues_refresh_def useTools_refresh_def
  useTemplates_refresh_def useTechnologies_refresh_def useHelpAdmin_fetchTopics_def

text \<open>C20: A list hook refines its promise: whatever the server does, a refresh of any of them ends without
  an exception, makes the client do exactly its one request, and leaves the loading flag lowered with
  either the client's error beside the list that was there, or the list the server sent and no error.
\<close>
theorem list_hooks_refine:
  "list_all (\<lambda>(run, m, xs, fallback).
     run (h, s) = (Inr (), after_answer env xs fallback h (fst (m s)), snd (m s))) (list_hooks env)"
  by (simp only: list_hooks_def list_hook_defs list.pred_inject prod.case fetch_into_after_answer
      list.distinct not_False_eq_True simp_thms)

subsection \<open>Uploads\<close>

text \<open>A file goes to the server exactly when its extension is one of the allowed ones, in whatever case
  it is written, and its size is at most 50 MB: any other upload makes no request at all and answers
  null; an accepted one answers the new source, or null when the request fails, and only a success
  puts the source in front of the list.
\<close>
theorem upload_exactly_allowed_files:
  "\<exists>h'. useKBSources_uploadSource env fixed1 projectId file (h, s) =
     (let ok = get_file_extension (fst file) \<in> set allowed_extensions \<and> length (snd file) \<le> max_kb_file_size;
          (r, s1) = uploadKBSource (srv env) projectId file s
      in (Inr (if ok then (case r of Inl _ \<Rightarrow> None | Inr v \<Rightarrow> Some v) else None), h', if ok then s1 else s)) \<and>
     (let ok = get_file_extension (fst file) \<in> set allowed_extensions \<and> length (snd file) \<le> max_kb_file_size
      in vars h' ''sources'' =
        (case fst (uploadKBSource (srv env) projectId file s) of
           Inr source \<Rightarrow> if ok then on_array (\<lambda>prev. source # prev) (vars h ''sources'') else vars h ''sources''
         | Inl _ \<Rightarrow> vars h ''sources''))"
proof -
  obtain r s1 where m: "uploadKBSource (srv env) projectId file s = (r, s1)"
    by (cases "uploadKBSource (srv env) projectId file s")
  show ?thesis
    by (cases r) (simp_all add: m useKBSources_uploadSource_def run_simps call_api_def Let_def not_less)
qed

lemma extension_examples:
  "get_file_extension ''Report.v2.PDF'' = ''.pdf''"
  "get_file_extension ''README'' = []"
  "get_file_extension ''.md'' = ''.md''"
  by code_simp+

subsection \<open>Pages of chunks\<close>

text \<open>The total that the chunk list shows when the server sends the page \<open>m\<close> of a source from
  \<open>k\<close> on: it is exact when the page is the short last one, never less than the number of chunks up to
  the end of the page, and beyond a full page it is one more than those, also when that page was the
  last: then the list announces a chunk that does not exist.
\<close>
theorem chunk_total_estimate:
  assumes "k \<le> length cs"
  shows "total_estimate (JArr (take m (drop k cs))) (int k) (int m) =
    (if length cs < k + m then int (length cs) else int (k + m) + 1)"
  using assms by (auto simp: total_estimate_def min_def)

lemma chunk_total_estimate_witness:
  "total_estimate (JArr (take 2 (drop 2 [JNull, JNull, JNull, JNull]))) (int 2) (int 2) = 5"
  using chunk_total_estimate [of 2 "[JNull, JNull, JNull, JNull]" 2] by simp

subsection \<open>The cache of event types\<close>

lemma fresh_types_not_fetched:
  assumes "clock s < t + 60000"
  shows "useEventTypes_refresh env (Some (types, t)) (h, s) =
    (Inr (Some (types, t)), h\<lparr>vars := (vars h)(''eventTypes'' := types), flags := (flags h)(''loading'' := False)\<rparr>, s)"
  using assms by (auto simp: useEventTypes_refresh_def fresh_cache_def run_simps)

end
