(* ===== verification/Jwt.thy ===== *)
theory Jwt
  imports Web_Socket Url_Codec
begin

section \<open>Reading tokens\<close>

text \<open>
  \<open>parseJwt\<close> of \<^verbatim>\<open>packages/api/hooks/use-auth.ts\<close>, with the standard functions that it is made of:
  \<open>atob\<close>, the percent encoding of bytes, \<open>decodeURIComponent\<close>.  \<open>parse\<close> is \<open>JSON.parse\<close>, none where it
  throws.  Strings are their UTF-8 bytes; the binary string that \<open>atob\<close> makes is a list of bytes.
\<close>

subsection \<open>\<open>atob\<close>\<close>

definition sextet :: "char \<Rightarrow> nat option" where
  "sextet c =
     (let n = of_char c
      in if 65 \<le> n \<and> n \<le> 90 then Some (n - 65)
         else if 97 \<le> n \<and> n \<le> 122 then Some (n - 71)
         else if 48 \<le> n \<and> n \<le> 57 then Some (n + 4)
         else if n = 43 then Some 62 else if n = 47 then Some 63 else None)"

fun octets :: "nat list \<Rightarrow> string" where
  "octets (a # b # c # d # xs) =
     char_of (a * 4 + b div 16) # char_of (b mod 16 * 16 + c div 4) # char_of (c mod 4 * 64 + d) # octets xs"
| "octets [a, b, c] = [char_of (a * 4 + b div 16), char_of (b mod 16 * 16 + c div 4)]"
| "octets [a, b] = [char_of (a * 4 + b div 16)]"
| "octets _ = []"

definition ascii_space :: "char \<Rightarrow> bool" where
  "ascii_space c \<longleftrightarrow> (of_char c :: nat) \<in> {9, 10, 12, 13, 32}"

definition drop_padding :: "string \<Rightarrow> string" where
  "drop_padding s =
     (if length s mod 4 \<noteq> 0 then s
      else if ends_with s ''=='' then take (length s - 2) s
      else if ends_with s ''='' then take (length s - 1) s
      else s)"

definition atob :: "string \<Rightarrow> string option" where
  "atob s =
     (let t = drop_padding (filter (\<lambda>c. \<not> ascii_space c) s)
      in if length t mod 4 = 1 \<or> None \<in> set (map sextet t) then None
         else Some (octets (map (the \<circ> sextet) t)))"

subsection \<open>\<open>decodeURIComponent\<close>\<close>

text \<open>The validity of a sequence of bytes as UTF-8, as \<open>decodeURIComponent\<close> asks for it.\<close>

definition continuation :: "nat \<Rightarrow> bool" where
  "continuation b \<longleftrightarrow> 128 \<le> b \<and> b < 192"

fun utf8_valid :: "nat list \<Rightarrow> bool" where
  "utf8_valid [] = True"
| "utf8_valid (a # xs) =
     (if a < 128 then utf8_valid xs
      else if 194 \<le> a \<and> a \<le> 223 then
        (case xs of b # ys \<Rightarrow> continuation b \<and> utf8_valid ys | _ \<Rightarrow> False)
      else if 224 \<le> a \<and> a \<le> 239 then
        (case xs of b # c # ys \<Rightarrow> continuation b \<and> continuation c \<and> (a = 224 \<longrightarrow> 160 \<le> b) \<and> (a = 237 \<longrightarrow> b < 160) \<and>
           utf8_valid ys | _ \<Rightarrow> False)
      else if 240 \<le> a \<and> a \<le> 244 then
        (case xs of b # c # d # ys \<Rightarrow> continuation b \<and> continuation c \<and> continuation d \<and> (a = 240 \<longrightarrow> 144 \<le> b) \<and>
           (a = 244 \<longrightarrow> b < 144) \<and> utf8_valid ys | _ \<Rightarrow> False)
      else False)"

definition is_hex :: "char \<Rightarrow> bool" where
  "is_hex c \<longleftrightarrow>
     (let n = of_char c :: nat in (48 \<le> n \<and> n \<le> 57) \<or> (65 \<le> n \<and> n \<le> 70) \<or> (97 \<le> n \<and> n \<le> 102))"

fun unescape :: "string \<Rightarrow> string option" where
  "unescape [] = Some []"
| "unescape (p # s) =
     (if p \<noteq> CHR ''%'' then map_option (Cons p) (unescape s)
      else
        (case s of
           a # b # r \<Rightarrow>
             if is_hex a \<and> is_hex b
             then map_option (Cons (char_of (16 * hex_value a + hex_value b))) (unescape r) else None
         | _ \<Rightarrow> None))"

text \<open>Exact on text whose bytes beyond ASCII are all escaped, which is how it is used here.\<close>

definition decode_uri_component :: "string \<Rightarrow> string option" where
  "decode_uri_component s =
     (case unescape s of
        None \<Rightarrow> None
      | Some t \<Rightarrow> if utf8_valid (map of_char t) then Some t else None)"

subsection \<open>\<open>parseJwt\<close>\<close>

definition lower_hex_digit :: "nat \<Rightarrow> char" where
  "lower_hex_digit d = (if d < 10 then char_of (48 + d) else char_of (87 + d))"

text \<open>\<open>c.charCodeAt(0).toString(16)\<close> of a byte, and \<open>"%" + ("00" + ...).slice(-2)\<close>.\<close>

definition byte_to_hex :: "nat \<Rightarrow> string" where
  "byte_to_hex n = (if n < 16 then [lower_hex_digit n] else [lower_hex_digit (n div 16), lower_hex_digit (n mod 16)])"

definition slice_last :: "nat \<Rightarrow> string \<Rightarrow> string" where
  "slice_last k s = drop (length s - k) s"

definition escape_byte :: "char \<Rightarrow> string" where
  "escape_byte c = ''%'' @ slice_last 2 (''00'' @ byte_to_hex (of_char c))"

definition parse_jwt :: "(string \<Rightarrow> json option) \<Rightarrow> string \<Rightarrow> json option" where
  "parse_jwt parse jwt =
     (let parts = split_on CHR ''.'' jwt
      in if length parts \<noteq> 3 then None
         else
           (case atob (unurl (parts ! 1)) of
              None \<Rightarrow> None
            | Some bytes \<Rightarrow>
                (case decode_uri_component (concat (map escape_byte bytes)) of
                   None \<Rightarrow> None
                 | Some payload \<Rightarrow> parse payload)))"

subsection \<open>What the issuer writes\<close>

text \<open>The base64url encoding without padding of RFC 7515, in which a token carries its payload.\<close>

definition url_digit :: "nat \<Rightarrow> char" where
  "url_digit n =
     (if n < 26 then char_of (65 + n) else if n < 52 then char_of (71 + n)
      else if n < 62 then char_of (n - 4) else if n = 62 then CHR ''-'' else CHR ''_'')"

fun sextets :: "nat list \<Rightarrow> nat list" where
  "sextets (a # b # c # xs) =
     (a div 4) # (a mod 4 * 16 + b div 16) # (b mod 16 * 4 + c div 64) # (c mod 64) # sextets xs"
| "sextets [a, b] = [a div 4, a mod 4 * 16 + b div 16, b mod 16 * 4]"
| "sextets [a] = [a div 4, a mod 4 * 16]"
| "sextets [] = []"

definition base64url :: "string \<Rightarrow> string" where
  "base64url s = map url_digit (sextets (map of_char s))"

lemma packed_small:
  "r < 16 \<Longrightarrow> a mod 4 * 16 + r < 64" "r < 4 \<Longrightarrow> a mod 16 * 4 + r < 64" for a r :: nat
  by presburger+

lemma sextets_small: "(\<And>n. n \<in> set ns \<Longrightarrow> n < 256) \<Longrightarrow> \<forall>m \<in> set (sextets ns). m < 64"
proof (induction ns rule: sextets.induct)
  case (1 a b c xs)
  have "a < 256" "b < 256" "c < 256" using 1(2) by simp_all
  then have "a div 4 < 64" "b div 16 < 16" "c div 64 < 4" by (simp_all add: less_mult_imp_div_less)
  then show ?case using 1 by (simp add: packed_small)
next
  case (2 a b)
  have "a < 256" "b < 256" using 2 by simp_all
  then have "a div 4 < 64" "b div 16 < 16" by (simp_all add: less_mult_imp_div_less)
  then show ?case using packed_small(2) [of 0 b] by (simp add: packed_small)
next
  case (3 a)
  have "a div 4 < 64" using 3 by (simp add: less_mult_imp_div_less)
  then show ?case using packed_small(1) [of 0 a] by simp
qed simp

lemma packed: "r < k \<Longrightarrow> (q * k + r) div k = q" "r < k \<Longrightarrow> (q * k + r) mod k = r" for q r k :: nat
  by simp_all

lemma octets_sextets_bytes:
  "(\<And>n. n \<in> set ns \<Longrightarrow> n < 256) \<Longrightarrow> map of_char (octets (sextets ns)) = ns"
proof (induction ns rule: sextets.induct)
  case (1 a b c xs)
  have l: "a < 256" "b < 256" "c < 256" using 1(2) by simp_all
  then have "b div 16 < 16" "c div 64 < 4" by (simp_all add: less_mult_imp_div_less)
  then show ?case using 1 l by (simp add: packed)
next
  case (2 a b)
  have l: "a < 256" "b < 256" using 2 by simp_all
  then have "b div 16 < 16" by (simp add: less_mult_imp_div_less)
  then show ?case using l by (simp add: packed)
qed simp_all

lemma octets_sextets: "octets (sextets (map of_char s)) = s"
proof -
  have "map of_char (octets (sextets (map of_char s))) = (map of_char s :: nat list)"
    by (rule octets_sextets_bytes) auto
  then have "map char_of (map of_char (octets (sextets (map of_char s))) :: nat list) =
      (map char_of (map of_char s :: nat list) :: string)" by simp
  then show ?thesis by (simp add: comp_def)
qed

lemma sextets_length: "length (sextets ns) mod 4 \<noteq> 1"
  by (induction ns rule: sextets.induct) simp_all

definition base64_digit :: "nat \<Rightarrow> char" where
  "base64_digit n = hd (unurl [url_digit n])"

lemma unurl_base64url: "unurl (base64url s) = map base64_digit (sextets (map of_char s))"
  by (simp add: unurl_def base64url_def base64_digit_def)

lemma char_code: "c = d \<longleftrightarrow> (of_char c :: nat) = of_char d"
  by simp

lemma char_of_is: "n < 256 \<Longrightarrow> char_of n = c \<longleftrightarrow> n = of_char c" for n :: nat
  by (auto simp: of_char_of)

lemma base64_digit_code:
  assumes "n < 64"
  shows "(of_char (base64_digit n) :: nat) =
     (if n < 26 then 65 + n else if n < 52 then 71 + n else if n < 62 then n - 4 else if n = 62 then 43 else 47)"
proof -
  consider "n < 26" | "26 \<le> n" "n < 52" | "52 \<le> n" "n < 62" | "n = 62" | "n = 63" using assms by linarith
  then show ?thesis
    by cases (auto simp: base64_digit_def unurl_def url_digit_def char_of_is of_char_of)
qed

lemma digit:
  assumes "n < 64"
  shows "sextet (base64_digit n) = Some n" "\<not> ascii_space (base64_digit n)" "base64_digit n \<noteq> CHR ''=''"
    "url_digit n \<noteq> CHR ''.''"
proof -
  consider "n < 26" | "26 \<le> n" "n < 52" | "52 \<le> n" "n < 62" | "n = 62" | "n = 63" using assms by linarith
  then show "sextet (base64_digit n) = Some n"
    by cases (auto simp: sextet_def base64_digit_code Let_def)
  show "\<not> ascii_space (base64_digit n)"
    using assms by (auto simp: ascii_space_def base64_digit_code)
  show "base64_digit n \<noteq> CHR ''=''"
    using assms by (auto simp: char_code base64_digit_code simp del: of_char_eq_iff split: if_splits)
  show "url_digit n \<noteq> CHR ''.''"
    using assms by (auto simp: url_digit_def char_of_is)
qed

lemma no_padding:
  assumes "CHR ''='' \<notin> set t"
  shows "drop_padding t = t"
proof -
  have "\<not> ends_with t (p @ ''='')" for p
  proof
    assume "ends_with t (p @ ''='')"
    then have "CHR ''='' \<in> set (drop (length t - length (p @ ''='')) t)" by (simp add: ends_with_def)
    then show False using assms by (metis in_set_dropD)
  qed
  from this [of "''=''"] this [of "[]"] show ?thesis by (simp add: drop_padding_def)
qed

lemma atob_base64url: "atob (unurl (base64url s)) = Some s"
proof -
  let ?ns = "sextets (map of_char s :: nat list)"
  have small: "m < 64" if "m \<in> set ?ns" for m using sextets_small [of "map of_char s"] that by fastforce
  have spaces: "filter (\<lambda>c. \<not> ascii_space c) (map base64_digit ?ns) = map base64_digit ?ns"
    using small digit(2) by (auto simp: filter_id_conv)
  have padding: "drop_padding (map base64_digit ?ns) = map base64_digit ?ns"
    using small digit(3) by (intro no_padding) force
  have digits: "map sextet (map base64_digit ?ns) = map Some ?ns"
    using small digit(1) by auto
  then have "map (the \<circ> sextet) (map base64_digit ?ns) = ?ns"
    by (metis (no_types, lifting) comp_apply map_eq_conv map_map option.sel map_idI)
  then show ?thesis
    using sextets_length [of "map of_char s"]
    unfolding atob_def unurl_base64url spaces padding digits Let_def by (simp add: octets_sextets)
qed

subsection \<open>UTF-8\<close>

lemma hex_digits:
  assumes "n < 16"
  shows "is_hex (lower_hex_digit n)" "hex_value (lower_hex_digit n) = n"
proof -
  consider "n < 10" | "10 \<le> n" "n < 16" using assms by linarith
  then show "is_hex (lower_hex_digit n)" by cases (auto simp: is_hex_def lower_hex_digit_def of_char_of Let_def)
  show "hex_value (lower_hex_digit n) = n"
    using assms by (auto simp: hex_value_def lower_hex_digit_def of_char_of Let_def)
qed

lemma escape_byte_digits:
  "escape_byte c = [CHR ''%'', lower_hex_digit (of_char c div 16), lower_hex_digit (of_char c mod 16)]"
proof -
  have "lower_hex_digit 0 = CHR ''0''" by (simp add: lower_hex_digit_def char_of_is)
  then show ?thesis by (simp add: escape_byte_def slice_last_def byte_to_hex_def)
qed

lemma unescape_escaped: "unescape (concat (map escape_byte s)) = Some s"
proof (induction s)
  case (Cons c s)
  have "(of_char c :: nat) div 16 < 16" by (simp add: less_mult_imp_div_less)
  then show ?case using Cons by (simp add: escape_byte_digits hex_digits)
qed simp

lemma decode_escaped:
  "decode_uri_component (concat (map escape_byte s)) = (if utf8_valid (map of_char s) then Some s else None)"
  by (simp add: decode_uri_component_def unescape_escaped)

lemma parse_jwt_encoded:
  assumes "CHR ''.'' \<notin> set header" and "CHR ''.'' \<notin> set signature"
  shows "parse_jwt parse (header @ ''.'' @ base64url payload @ ''.'' @ signature) =
    (if utf8_valid (map of_char payload) then parse payload else None)"
proof -
  have "CHR ''.'' \<notin> set (base64url payload)"
    using sextets_small [of "map of_char payload"] digit(4) by (fastforce simp: base64url_def)
  then have "split_on CHR ''.'' (header @ ''.'' @ base64url payload @ ''.'' @ signature) =
      [header, base64url payload, signature]"
    using assms by (simp add: split_on_no_sep)
  then show ?thesis by (simp add: parse_jwt_def atob_base64url decode_escaped)
qed

text \<open>C14: a token made of a header, the base64url encoding of a payload and a signature, the first and the last
  without a dot, is read as what \<open>JSON.parse\<close> makes of the payload when its bytes are UTF-8, and is refused when they
  are not; a token that does not have three parts between its dots is refused.\<close>
theorem parse_jwt_round_trip:
  assumes "CHR ''.'' \<notin> set header" and "CHR ''.'' \<notin> set signature"
  shows "parse_jwt parse (header @ ''.'' @ base64url payload @ ''.'' @ signature) =
      (if utf8_valid (map of_char payload) then parse payload else None) \<and>
    (\<forall>jwt. length (split_on CHR ''.'' jwt) \<noteq> 3 \<longrightarrow> parse_jwt parse jwt = None)"
  using parse_jwt_encoded [OF assms] by (simp add: parse_jwt_def)

lemma parse_jwt_round_trip_witness:
  "parse_jwt (\<lambda>s. Some (JStr s)) (''h'' @ ''.'' @ base64url ''{}'' @ ''.'' @ ''s'') = Some (JStr ''{}'') \<and>
   parse_jwt (\<lambda>s. Some (JStr s)) ''h.s'' = None"
proof -
  have "split_on CHR ''.'' ''h.s'' = [''h'', ''s'']" by code_simp
  then show ?thesis using parse_jwt_round_trip [of "''h''" "''s''" "\<lambda>s. Some (JStr s)" "''{}''"] by simp
qed

text \<open>On ASCII, which is UTF-8, the decoding of the percent-encoded bytes changes nothing.\<close>

lemma ascii_utf8: "(\<And>b. b \<in> set bs \<Longrightarrow> b < 128) \<Longrightarrow> utf8_valid bs"
  by (induction bs) auto

lemma parse_jwt_ascii:
  assumes "length (split_on CHR ''.'' jwt) = 3"
    and "\<And>bytes c. atob (unurl (split_on CHR ''.'' jwt ! 1)) = Some bytes \<Longrightarrow> c \<in> set bytes \<Longrightarrow> (of_char c :: nat) < 128"
  shows "parse_jwt parse jwt = Option.bind (atob (unurl (split_on CHR ''.'' jwt ! 1))) parse"
proof (cases "atob (unurl (split_on CHR ''.'' jwt ! 1))")
  case None
  then show ?thesis using assms(1) by (simp add: parse_jwt_def)
next
  case (Some bytes)
  have "utf8_valid (map of_char bytes)" using assms(2) [OF Some] by (intro ascii_utf8) auto
  then show ?thesis using assms(1) Some by (simp add: parse_jwt_def decode_escaped)
qed

end
