(* ===== verification/Auth_Session.thy ===== *)
theory Auth_Session
  imports Jwt Api_Kernel
begin

section \<open>The signed-in user\<close>

text \<open>
  \<open>AuthProvider\<close> of \<^verbatim>\<open>packages/api/hooks/use-auth.ts\<close>: who is signed in, and the token of the API
  client.  Its requests (the restoring of the session, a login, a logout) are answered later, in any
  order among the other events; an event is a whole callback or the continuation after an await.  The
  outcome of a request is a parameter of its answer; what a request does to the client's token is that
  a 401 clears it, which \<open>request_token\<close> shows of the transport.
\<close>

subsection \<open>State\<close>

record auth_state =
  auth_token :: "string option"
  user_id :: "json option"
  user_role :: "json option"
  user_name :: "json option"
  screen_name :: "json option"
  is_authenticated :: bool
  is_loading :: bool

definition empty_state :: auth_state where
  "empty_state =
     \<lparr>auth_token = None, user_id = Some JNull, user_role = Some JNull, user_name = Some JNull,
      screen_name = Some JNull, is_authenticated = False, is_loading = True\<rparr>"

definition signed_out :: auth_state where
  "signed_out = empty_state\<lparr>is_loading := False\<rparr>"

text \<open>\<open>payload.k || null\<close>, and \<open>a ?? b\<close>.\<close>

definition or_null_member :: "json \<Rightarrow> string \<Rightarrow> json option" where
  "or_null_member payload k = (if truthy (member payload k) then member payload k else Some JNull)"

definition coalesce :: "json option \<Rightarrow> json option \<Rightarrow> json option" where
  "coalesce a b = (if a = None \<or> a = Some JNull then b else a)"

definition state_from_payload :: "string option \<Rightarrow> json \<Rightarrow> auth_state" where
  "state_from_payload tok payload =
     \<lparr>auth_token = tok, user_id = or_null_member payload ''user_id'', user_role = or_null_member payload ''role'',
      user_name = or_null_member payload ''username'', screen_name = or_null_member payload ''screen_name'',
      is_authenticated = True, is_loading = False\<rparr>"

definition state_from_user :: "json \<Rightarrow> auth_state" where
  "state_from_user user =
     \<lparr>auth_token = None, user_id = member user ''id'', user_role = member user ''role'',
      user_name = member user ''username'',
      screen_name = coalesce (member user ''screen_name'') (member user ''username''),
      is_authenticated = True, is_loading = False\<rparr>"

definition state_from_response :: "string option \<Rightarrow> json \<Rightarrow> auth_state" where
  "state_from_response tok response =
     \<lparr>auth_token = tok, user_id = member response ''user_id'', user_role = member response ''role'',
      user_name = member response ''username'', screen_name = member response ''screen_name'',
      is_authenticated = True, is_loading = False\<rparr>"

text \<open>A request in flight; the effect's clean-up cancels the restoring of the session.\<close>

datatype auth_call = RestoreCall | CancelledRestore | CredentialsCall | LogoutCall

record session =
  auth :: auth_state
  client_token :: "string option"
  calls :: "auth_call list"
  page :: string
  redirects :: "string list"
  mounted :: bool

definition new_session :: "string \<Rightarrow> session" where
  "new_session path =
     \<lparr>auth = empty_state, client_token = None, calls = [], page = path, redirects = [], mounted = False\<rparr>"

definition on_login_page :: "session \<Rightarrow> bool" where
  "on_login_page s = starts_with (page s) ''/login''"

subsection \<open>The provider\<close>

definition mount_provider :: "session \<Rightarrow> session" where
  "mount_provider s =
     (if on_login_page s then s\<lparr>auth := signed_out, mounted := True\<rparr>
      else s\<lparr>calls := RestoreCall # calls s, mounted := True\<rparr>)"

definition unmount_provider :: "session \<Rightarrow> session" where
  "unmount_provider s =
     s\<lparr>calls := map (\<lambda>c. if c = RestoreCall then CancelledRestore else c) (calls s), mounted := False\<rparr>"

definition handle_token_expired :: "session \<Rightarrow> session" where
  "handle_token_expired s =
     (if \<not> mounted s then s
      else s\<lparr>client_token := None, auth := signed_out,
             redirects := redirects s @ (if on_login_page s then [] else [''/login''])\<rparr>)"

text \<open>\<open>login\<close>: \<open>now\<close> is \<open>Date.now()\<close>; \<open>exp\<close> is a number where it is there, as RFC 7519 has it.\<close>

definition payload_expired :: "real \<Rightarrow> json \<Rightarrow> bool" where
  "payload_expired now payload \<longleftrightarrow>
     truthy (member payload ''exp'') \<and> (case member payload ''exp'' of Some (JNum x) \<Rightarrow> x * 1000 \<le> now | _ \<Rightarrow> False)"

definition login_accepts :: "(string \<Rightarrow> json option) \<Rightarrow> real \<Rightarrow> string \<Rightarrow> bool" where
  "login_accepts parse now jwt =
     (let payload = parse_jwt parse jwt
      in truthy payload \<and> \<not> payload_expired now (the payload))"

definition login_token :: "(string \<Rightarrow> json option) \<Rightarrow> real \<Rightarrow> string \<Rightarrow> session \<Rightarrow> bool \<times> session" where
  "login_token parse now jwt s =
     (if login_accepts parse now jwt
      then (True, s\<lparr>client_token := Some jwt, auth := state_from_payload (Some jwt) (the (parse_jwt parse jwt))\<rparr>)
      else (False, s))"

text \<open>The answers.  \<open>access_token\<close> is a string where it is there.\<close>

definition restore_answered :: "js_error + json option \<Rightarrow> session \<Rightarrow> session" where
  "restore_answered r s =
     (case r of
        Inr (Some user) \<Rightarrow> s\<lparr>auth := (if user = JNull then signed_out else state_from_user user)\<rparr>
      | _ \<Rightarrow> s\<lparr>auth := signed_out\<rparr>)"

definition credentials_answered ::
  "(string \<Rightarrow> json option) \<Rightarrow> js_error + json option \<Rightarrow> session \<Rightarrow> bool \<times> session" where
  "credentials_answered parse r s =
     (case r of
        Inr (Some response) \<Rightarrow>
          if response = JNull then (False, s)
          else
            (let tok = as_string (member response ''access_token'');
                 payload = Option.bind tok (parse_jwt parse)
             in (True, s\<lparr>client_token := tok,
                  auth := (if truthy payload then state_from_payload tok (the payload)
                           else state_from_response tok response)\<rparr>))
      | _ \<Rightarrow> (False, s))"

definition start_logout :: "session \<Rightarrow> session" where
  "start_logout s = s\<lparr>calls := LogoutCall # calls s, auth := signed_out\<rparr>"

text \<open>What the transport does with an answer before the caller sees it.\<close>

definition received :: "auth_call \<Rightarrow> js_error + json option \<Rightarrow> session \<Rightarrow> session" where
  "received c r s =
     (case r of
        Inl e \<Rightarrow>
          if is_unauthorized e
          then s\<lparr>client_token := None,
                 redirects := redirects s @
                   (if c \<noteq> CredentialsCall \<and> \<not> on_login_page s then [''/login''] else [])\<rparr>
          else s
      | Inr _ \<Rightarrow> s)"

definition answered ::
  "(string \<Rightarrow> json option) \<Rightarrow> auth_call \<Rightarrow> js_error + json option \<Rightarrow> session \<Rightarrow> session" where
  "answered parse c r s =
     (if c \<notin> set (calls s) then s
      else
        (let s1 = received c r (s\<lparr>calls := remove1 c (calls s)\<rparr>)
         in case c of
              RestoreCall \<Rightarrow> restore_answered r s1
            | CancelledRestore \<Rightarrow> s1
            | CredentialsCall \<Rightarrow> snd (credentials_answered parse r s1)
            | LogoutCall \<Rightarrow> s1\<lparr>client_token := None\<rparr>))"

datatype auth_event = Mounts | Unmounts | TokenExpires | Login real string | StartCredentials | StartLogout
  | Answered auth_call "js_error + json option"

fun auth_step :: "(string \<Rightarrow> json option) \<Rightarrow> auth_event \<Rightarrow> session \<Rightarrow> session" where
  "auth_step parse Mounts s = (if mounted s then s else mount_provider s)"
| "auth_step parse Unmounts s = unmount_provider s"
| "auth_step parse TokenExpires s = handle_token_expired s"
| "auth_step parse (Login now jwt) s = snd (login_token parse now jwt s)"
| "auth_step parse StartCredentials s = s\<lparr>calls := CredentialsCall # calls s\<rparr>"
| "auth_step parse StartLogout s = start_logout s"
| "auth_step parse (Answered c r) s = answered parse c r s"

definition auth_run :: "(string \<Rightarrow> json option) \<Rightarrow> auth_event list \<Rightarrow> session \<Rightarrow> session" where
  "auth_run parse es s = fold (auth_step parse) es s"

subsection \<open>The transport's effect on the token\<close>

lemma request_token: "token (snd (request server c s)) = token_after s (fst (request server c s))"
  using json_transport.send_token [of server c s] by (metis prod.collapse)

text \<open>\<open>received\<close> is that effect.\<close>

lemma received_token:
  "client_token (received c r s) =
     (case r of Inl e \<Rightarrow> if is_unauthorized e then None else client_token s | Inr _ \<Rightarrow> client_token s)"
  by (simp add: received_def split: sum.split)

lemma received_frame [simp]:
  "auth (received c r s) = auth s" "calls (received c r s) = calls s" "page (received c r s) = page s"
  "mounted (received c r s) = mounted s"
  by (simp_all add: received_def split: sum.split)

subsection \<open>The shapes of the state\<close>

lemma signed_out_simps [simp]:
  "is_authenticated signed_out = False" "is_loading signed_out = False" "auth_token signed_out = None"
  "is_authenticated empty_state = False" "is_loading empty_state = True"
  by (simp_all add: signed_out_def empty_state_def)

lemma signed_in_simps [simp]:
  "is_authenticated (state_from_payload t p)" "\<not> is_loading (state_from_payload t p)"
  "is_authenticated (state_from_user u)" "\<not> is_loading (state_from_user u)"
  "is_authenticated (state_from_response t u)" "\<not> is_loading (state_from_response t u)"
  by (simp_all add: state_from_payload_def state_from_user_def state_from_response_def)

definition auth_inv :: "session \<Rightarrow> bool" where
  "auth_inv s \<longleftrightarrow>
     auth s = signed_out \<or> (is_authenticated (auth s) \<and> \<not> is_loading (auth s)) \<or>
     (auth s = empty_state \<and> (mounted s \<longrightarrow> RestoreCall \<in> set (calls s)))"

lemma new_session_inv: "auth_inv (new_session path)"
  by (simp add: auth_inv_def new_session_def)

lemma credentials_answered_shape:
  "auth (snd (credentials_answered parse r s)) = auth s \<or>
   is_authenticated (auth (snd (credentials_answered parse r s))) \<and>
   \<not> is_loading (auth (snd (credentials_answered parse r s)))"
  by (auto simp: credentials_answered_def Let_def split: sum.splits option.splits)

lemma credentials_answered_frame [simp]:
  "calls (snd (credentials_answered parse r s)) = calls s" "mounted (snd (credentials_answered parse r s)) = mounted s"
  by (auto simp: credentials_answered_def Let_def split: sum.splits option.splits)

lemma restore_answered_shape:
  "auth (restore_answered r s) = signed_out \<or>
   is_authenticated (auth (restore_answered r s)) \<and> \<not> is_loading (auth (restore_answered r s))"
  by (auto simp: restore_answered_def split: sum.splits option.splits)

lemma other_call_stays: "c \<noteq> d \<Longrightarrow> d \<in> set (remove1 c cs) \<longleftrightarrow> d \<in> set cs"
  by (simp add: in_set_remove1)

lemma answered_inv: "auth_inv s \<Longrightarrow> auth_inv (answered parse c r s)"
proof (cases "c \<in> set (calls s)")
  case True
  assume inv: "auth_inv s"
  define s1 where "s1 = received c r (s\<lparr>calls := remove1 c (calls s)\<rparr>)"
  have s1: "auth s1 = auth s" "calls s1 = remove1 c (calls s)" "mounted s1 = mounted s" by (simp_all add: s1_def)
  show ?thesis
  proof (cases c)
    case RestoreCall
    then have "answered parse c r s = restore_answered r s1" using True by (simp add: answered_def s1_def)
    then show ?thesis using restore_answered_shape [of r s1] by (auto simp: auth_inv_def)
  next
    case CredentialsCall
    then have "answered parse c r s = snd (credentials_answered parse r s1)" using True by (simp add: answered_def s1_def)
    then show ?thesis
      using credentials_answered_shape [of parse r s1] inv CredentialsCall
      by (auto simp: auth_inv_def s1 other_call_stays)
  qed (use inv True s1 in \<open>auto simp: answered_def s1_def auth_inv_def other_call_stays\<close>)
qed (simp add: answered_def)

lemma auth_step_inv: "auth_inv s \<Longrightarrow> auth_inv (auth_step parse e s)"
proof (cases e)
  case Mounts
  assume "auth_inv s"
  then show ?thesis by (auto simp: Mounts mount_provider_def auth_inv_def)
next
  case TokenExpires
  assume "auth_inv s"
  then show ?thesis by (auto simp: TokenExpires handle_token_expired_def auth_inv_def)
next
  case (Login now jwt)
  assume "auth_inv s"
  then show ?thesis by (auto simp: Login login_token_def auth_inv_def)
next
  case (Answered c r)
  assume "auth_inv s"
  then show ?thesis by (simp add: Answered answered_inv)
qed (auto simp: auth_inv_def unmount_provider_def start_logout_def)

text \<open>C23: whatever happens in whatever order, what the provider shows is one of three things: somebody
  signed in and nothing loading; nobody, with every field of the user empty; or the loading state it
  starts with, and then, as long as it is mounted, the request that will end the loading is in flight.\<close>
theorem auth_shows_three_states:
  "let s = auth_run parse es (new_session path)
   in auth s = signed_out \<or> (is_authenticated (auth s) \<and> \<not> is_loading (auth s)) \<or>
      (auth s = empty_state \<and> (mounted s \<longrightarrow> RestoreCall \<in> set (calls s)))"
proof -
  have "auth_inv (auth_run parse es s)" if "auth_inv s" for s
    using that by (induction es arbitrary: s) (simp_all add: auth_run_def auth_step_inv)
  from this [OF new_session_inv] show ?thesis by (simp add: auth_inv_def Let_def)
qed

lemma auth_shows_three_states_witness:
  "RestoreCall \<in> set (calls (auth_run (\<lambda>_. None) [Mounts] (new_session ''/chat'')))"
proof -
  have "auth (auth_run (\<lambda>_. None) [Mounts] (new_session ''/chat'')) = empty_state \<and>
      mounted (auth_run (\<lambda>_. None) [Mounts] (new_session ''/chat''))"
    by (simp add: auth_run_def new_session_def mount_provider_def on_login_page_def starts_with_def)
  then show ?thesis
    using auth_shows_three_states [of "\<lambda>_. None" "[Mounts]" "''/chat''"]
    by (auto simp: Let_def signed_out_def empty_state_def)
qed

subsection \<open>Logging out\<close>

fun signs_in :: "auth_event \<Rightarrow> bool" where
  "signs_in Mounts = True"
| "signs_in (Login _ _) = True"
| "signs_in StartCredentials = True"
| "signs_in _ = False"

definition staying_out :: "session \<Rightarrow> bool" where
  "staying_out s \<longleftrightarrow>
     auth s = signed_out \<and> RestoreCall \<notin> set (calls s) \<and> CredentialsCall \<notin> set (calls s) \<and>
     (client_token s = None \<or> LogoutCall \<in> set (calls s))"

lemma staying_out_step:
  assumes "staying_out s" and "\<not> signs_in e"
  shows "staying_out (auth_step parse e s)"
proof (cases e)
  case (Answered c r)
  then show ?thesis
    using assms(1)
    by (cases c) (auto simp: staying_out_def answered_def Let_def received_token other_call_stays in_set_remove1
        dest: notin_set_remove1 split: sum.splits)
next
  case Unmounts
  then show ?thesis using assms(1) by (auto simp: staying_out_def unmount_provider_def image_iff)
qed (use assms in \<open>auto simp: staying_out_def handle_token_expired_def start_logout_def\<close>)

text \<open>C12: a logout holds.  Once it is asked for while no restoring and no login is in flight, nothing but
  a new login or a new mount signs anybody in, in whatever order the answers come, and as soon as the
  logout is answered, with success or failure, the client has no token.\<close>
theorem logout_holds:
  assumes "RestoreCall \<notin> set (calls s)" and "CredentialsCall \<notin> set (calls s)"
    and "\<And>e. e \<in> set es \<Longrightarrow> \<not> signs_in e"
  shows "let s' = auth_run parse es (start_logout s)
    in auth s' = signed_out \<and> (client_token s' = None \<or> LogoutCall \<in> set (calls s'))"
proof -
  have "staying_out (auth_run parse es t)" if "staying_out t" "\<And>e. e \<in> set es \<Longrightarrow> \<not> signs_in e" for t
    using that by (induction es arbitrary: t) (simp_all add: auth_run_def staying_out_step)
  moreover have "staying_out (start_logout s)" using assms(1,2) by (simp add: staying_out_def start_logout_def)
  ultimately show ?thesis using assms(3) by (simp add: staying_out_def Let_def)
qed

lemma logout_holds_witness:
  "let s' = auth_run (\<lambda>_. None) [Answered LogoutCall (Inl AbortErr), TokenExpires]
       (start_logout (new_session ''/chat''))
   in auth s' = signed_out \<and> (client_token s' = None \<or> LogoutCall \<in> set (calls s'))"
  by (rule logout_holds) (auto simp: new_session_def)

text \<open>A login made while an earlier logout is still waiting for its answer loses its token: when the
  answer comes, success or failure, the page goes on showing the new user while the client sends no
  token any more.\<close>
theorem late_logout_drops_new_token:
  assumes "login_accepts parse now jwt"
  shows "let s1 = snd (login_token parse now jwt (start_logout s)); s2 = answered parse LogoutCall r s1
    in client_token s1 = Some jwt \<and> auth s2 = state_from_payload (Some jwt) (the (parse_jwt parse jwt)) \<and>
       is_authenticated (auth s2) \<and> client_token s2 = None"
  using assms by (simp add: login_token_def start_logout_def answered_def)

text \<open>The restoring of the session, answered after a logout or a login, overrides either.\<close>

lemma late_restore_signs_back_in:
  assumes "RestoreCall \<in> set (calls s)" and "user \<noteq> JNull"
  shows "auth (answered parse RestoreCall (Inr (Some user)) (start_logout s)) = state_from_user user"
  using assms by (simp add: answered_def start_logout_def restore_answered_def received_def)

lemma late_restore_hides_login:
  assumes "RestoreCall \<in> set (calls s)" and "login_accepts parse now jwt" and "\<not> is_unauthorized e"
  shows "let s' = answered parse RestoreCall (Inl e) (snd (login_token parse now jwt s))
    in auth s' = signed_out \<and> client_token s' = Some jwt"
  using assms by (simp add: login_token_def answered_def restore_answered_def received_def)

subsection \<open>The two readers of a token\<close>

definition socket_decode :: "(string \<Rightarrow> json option) \<Rightarrow> string \<Rightarrow> json option" where
  "socket_decode parse s = Option.bind (atob s) parse"

text \<open>A token whose payload is ASCII and, where it can be parsed, an object or null.\<close>

definition plain_token :: "(string \<Rightarrow> json option) \<Rightarrow> string \<Rightarrow> bool" where
  "plain_token parse jwt \<longleftrightarrow>
     (case atob (unurl (split_on CHR ''.'' jwt ! 1)) of
        None \<Rightarrow> True
      | Some bytes \<Rightarrow> list_all (\<lambda>c. (of_char c :: nat) < 128) bytes \<and>
          (case parse bytes of None \<Rightarrow> True | Some p \<Rightarrow> p = JNull \<or> truthy (Some p)))"

lemma readers_agree:
  assumes "plain_token parse jwt"
  shows "login_accepts parse now jwt \<longleftrightarrow> \<not> is_jwt_expired (socket_decode parse) now jwt"
proof (cases "length (split_on CHR ''.'' jwt) = 3")
  case True
  let ?d = "atob (unurl (split_on CHR ''.'' jwt ! 1))"
  have p: "parse_jwt parse jwt = socket_decode parse (unurl (split_on CHR ''.'' jwt ! 1))"
    unfolding socket_decode_def
    by (rule parse_jwt_ascii [OF True]) (use assms in \<open>auto simp: plain_token_def list_all_iff split: option.splits\<close>)
  show ?thesis
  proof (cases "socket_decode parse (unurl (split_on CHR ''.'' jwt ! 1))")
    case None
    then show ?thesis using True p by (simp add: login_accepts_def is_jwt_expired_def)
  next
    case (Some j)
    then have "j = JNull \<or> truthy (Some j)"
      using assms by (auto simp: socket_decode_def plain_token_def bind_eq_Some_conv)
    then show ?thesis
      using True p Some
      by (cases j) (auto simp: login_accepts_def is_jwt_expired_def payload_expired_def split: option.splits json.splits)
  qed
next
  case False
  then show ?thesis by (simp add: login_accepts_def is_jwt_expired_def parse_jwt_def)
qed

text \<open>C13: the login and the event socket agree on a token whose payload is ASCII and stands for an object or null
  (or for no JSON at all): the login accepts it exactly when \<open>isJwtExpired\<close> does not call it expired at the same
  time.  So while the browser is online and the hook's socket is not open, a connect with a token that the login
  accepts at that time opens one new socket and waits for it; with a token that the login refuses it makes no socket,
  reports the expired token and has used up its attempts.\<close>
theorem login_agrees_with_socket:
  assumes "plain_token parse jwt" and "jwt \<noteq> []"
    and "env_decode env = socket_decode parse" and "opt_token opts = Some jwt"
    and "env_online env" and "\<not> is_open w"
  shows "(login_accepts parse (env_now env) jwt \<longleftrightarrow> \<not> is_jwt_expired (env_decode env) (env_now env) jwt) \<and>
    (let w' = ws_connect opts env w in
      if login_accepts parse (env_now env) jwt
      then ws_status w' = Connecting \<and> sockets w' = sockets w @ [SocketConnecting] \<and> ws_ref w' = Some (length (sockets w)) \<and>
        socket_notices w' = socket_notices w
      else ws_status w' = Exhausted \<and> sockets w' = sockets w \<and> reconnect_count w' = opt_max_attempts opts \<and>
        socket_notices w' = socket_notices w @ [AuthTokenExpired])"
  using assms readers_agree [OF assms(1), of "env_now env"]
  by (simp add: ws_connect_def truthy_string_def expired_def notify_def Let_def)

text \<open>A sample token, whose payload expires at the tenth second.\<close>

definition sample_token :: string where
  "sample_token = ''a'' @ ''.'' @ base64url ''{}'' @ ''.'' @ ''b''"

definition sample_parse :: "string \<Rightarrow> json option" where
  "sample_parse s = Some (JObj [(''exp'', JNum 10)])"

lemma sample_token_parsed: "parse_jwt sample_parse sample_token = Some (JObj [(''exp'', JNum 10)])"
  unfolding sample_token_def by (subst parse_jwt_encoded) (simp_all add: sample_parse_def)

lemma sample_token_accepted: "login_accepts sample_parse 9999 sample_token"
  by (simp add: login_accepts_def sample_token_parsed payload_expired_def)

lemma late_logout_drops_new_token_witness:
  "let s1 = snd (login_token sample_parse 9999 sample_token (start_logout (new_session ''/'')));
       s2 = answered sample_parse LogoutCall (Inr None) s1
    in client_token s1 = Some sample_token \<and>
       auth s2 = state_from_payload (Some sample_token) (the (parse_jwt sample_parse sample_token)) \<and>
       is_authenticated (auth s2) \<and> client_token s2 = None"
  by (rule late_logout_drops_new_token [OF sample_token_accepted])

text \<open>The options and the surroundings of a socket, online at a time, with that token.\<close>

definition sample_options :: ws_options where
  "sample_options = \<lparr>opt_token = Some sample_token, opt_base_url = None, opt_interval = 1000, opt_max_attempts = 5\<rparr>"

definition sample_env :: "real \<Rightarrow> ws_env" where
  "sample_env now = \<lparr>env_decode = socket_decode sample_parse, env_now = now, env_online = True, env_ws_url = None,
     env_secure = True, env_host = ''h''\<rparr>"

lemma login_agrees_with_socket_witness:
  "ws_status (ws_connect sample_options (sample_env 9999) initial_ws) = Connecting \<and>
   ws_status (ws_connect sample_options (sample_env 10000) initial_ws) = Exhausted"
proof -
  have split: "split_on CHR ''.'' sample_token = [''a'', base64url ''{}'', ''b'']" by code_simp
  then have "plain_token sample_parse sample_token"
    by (simp add: plain_token_def atob_base64url sample_parse_def)
  moreover have "sample_token \<noteq> []" by (simp add: sample_token_def)
  moreover have "env_decode (sample_env now) = socket_decode sample_parse" and "opt_token sample_options = Some sample_token"
    and "env_online (sample_env now)" and "env_now (sample_env now) = now" and "\<not> is_open initial_ws" for now
    by (simp_all add: sample_env_def sample_options_def is_open_def initial_ws_def)
  moreover have "\<not> login_accepts sample_parse 10000 sample_token"
    by (simp add: login_accepts_def sample_token_parsed payload_expired_def)
  ultimately show ?thesis
    using login_agrees_with_socket [of sample_parse sample_token "sample_env now" sample_options initial_ws for now]
      sample_token_accepted by (metis (no_types, lifting))
qed

end
