(* ===== verification/Image_Jobs.thy ===== *)
theory Image_Jobs
  imports Hook_Monad Api_Image
begin

section \<open>Image generation jobs\<close>

text \<open>
  \<open>useImageGeneration\<close> of \<^verbatim>\<open>packages/api/hooks/use-image-generation.ts\<close>: the list of generations, the
  job in progress, and the two polling loops, one for the list and one for the status of the job, each
  a chain of timers and requests.  An event is a call of the page, a timer that fires, a message of the
  event socket or the answer to a request in flight; what follows an await is part of the event of the
  answer.  The effect that looks at the list runs with the event that changed it.
\<close>

subsection \<open>State\<close>

text \<open>What is done after a refresh: nothing more, or the polling of a job that was just created.\<close>

datatype after_refresh = Done | ThenPoll string

text \<open>
  The requests in flight with what they were made with; a deletion has the ids still to be deleted,
  the first of them in flight, and the id of the current job as the callback captured it.
\<close>

datatype job_call =
    Refreshing int "string option" after_refresh
  | ListPolling int "string option"
  | StatusPolling string
  | Creating image_generation_request
  | Upscaling string
  | Deleting "string list" "string option" string
  | Downloading string string
  | Favoriting string

datatype timer_kind = ListTimer | StatusTimer string

record image_jobs =
  generations :: "json option"
  current_generation :: "json option"
  generating :: bool
  jobs_loading :: bool
  jobs_error :: "string option"
  total_count :: "json option"
  current_page :: int
  filter_status :: string
  job_progress :: "json option"
  list_ref :: "nat option"
  status_ref :: "nat option"
  list_delay :: real
  status_delay :: real
  list_active :: bool
  current_id :: "string option"
  timers :: "(nat \<times> timer_kind \<times> real) list"
  next_timer :: nat
  in_flight :: "job_call list"
  downloads :: "string list"

definition poll_initial_ms :: real where "poll_initial_ms = 2000"

definition poll_max_ms :: real where "poll_max_ms = 15000"

definition poll_backoff_factor :: real where "poll_backoff_factor = 3 / 2"

definition page_size :: int where "page_size = 20"

definition initial_jobs :: image_jobs where
  "initial_jobs =
     \<lparr>generations = Some (JArr []), current_generation = Some JNull, generating = False, jobs_loading = False,
      jobs_error = None, total_count = Some (JNum 0), current_page = 1, filter_status = ''all'',
      job_progress = Some JNull, list_ref = None, status_ref = None, list_delay = poll_initial_ms,
      status_delay = poll_initial_ms, list_active = False, current_id = None, timers = [], next_timer = 0,
      in_flight = [], downloads = []\<rparr>"

text \<open>\<open>error_text\<close> is \<open>extractErrorMessage\<close>, with the texts of the host.\<close>

type_synonym error_text = "thrown \<Rightarrow> string \<Rightarrow> string"

subsection \<open>Timers\<close>

definition clear_timer :: "nat option \<Rightarrow> image_jobs \<Rightarrow> image_jobs" where
  "clear_timer ref s = s\<lparr>timers := filter (\<lambda>t. Some (fst t) \<noteq> ref) (timers s)\<rparr>"

definition stop_status_polling :: "image_jobs \<Rightarrow> image_jobs" where
  "stop_status_polling s = (clear_timer (status_ref s) s)\<lparr>status_ref := None, status_delay := poll_initial_ms\<rparr>"

definition stop_list_polling :: "image_jobs \<Rightarrow> image_jobs" where
  "stop_list_polling s =
     (clear_timer (list_ref s) s)\<lparr>list_ref := None, list_delay := poll_initial_ms, list_active := False\<rparr>"

definition unmount_jobs :: "image_jobs \<Rightarrow> image_jobs" where
  "unmount_jobs s = stop_status_polling (stop_list_polling s)"

definition arm_list :: "image_jobs \<Rightarrow> image_jobs" where
  "arm_list s =
     s\<lparr>timers := timers s @ [(next_timer s, ListTimer, list_delay s)], list_ref := Some (next_timer s),
       next_timer := Suc (next_timer s)\<rparr>"

definition arm_status :: "string \<Rightarrow> image_jobs \<Rightarrow> image_jobs" where
  "arm_status job s =
     s\<lparr>timers := timers s @ [(next_timer s, StatusTimer job, status_delay s)], status_ref := Some (next_timer s),
       next_timer := Suc (next_timer s)\<rparr>"

definition backed_off :: "real \<Rightarrow> real" where
  "backed_off d = min (d * poll_backoff_factor) poll_max_ms"

subsection \<open>The list\<close>

definition send_call :: "job_call \<Rightarrow> image_jobs \<Rightarrow> image_jobs" where
  "send_call c s = s\<lparr>in_flight := in_flight s @ [c]\<rparr>"

definition list_skip :: "image_jobs \<Rightarrow> int" where
  "list_skip s = (current_page s - 1) * page_size"

definition list_status :: "image_jobs \<Rightarrow> string option" where
  "list_status s = (if filter_status s = ''all'' then None else Some (filter_status s))"

definition unfinished :: "json \<Rightarrow> bool" where
  "unfinished g \<longleftrightarrow> member g ''status'' \<in> {Some (JStr ''pending''), Some (JStr ''processing'')}"

definition has_pending :: "json option \<Rightarrow> bool" where
  "has_pending v = list_ex unfinished (elements v)"

definition start_list_polling :: "string option \<Rightarrow> image_jobs \<Rightarrow> image_jobs" where
  "start_list_polling projectId s =
     (if list_active s \<or> \<not> truthy_string projectId then s
      else arm_list (s\<lparr>list_active := True, list_delay := poll_initial_ms\<rparr>))"

definition show_generations :: "string option \<Rightarrow> json option \<Rightarrow> image_jobs \<Rightarrow> image_jobs" where
  "show_generations projectId v s =
     (let s1 = s\<lparr>generations := v\<rparr> in if has_pending v then start_list_polling projectId s1 else s1)"

definition poll_generation_status :: "string \<Rightarrow> image_jobs \<Rightarrow> image_jobs" where
  "poll_generation_status job s = arm_status job ((stop_status_polling s)\<lparr>status_delay := poll_initial_ms\<rparr>)"

fun continue_after :: "string option \<Rightarrow> after_refresh \<Rightarrow> image_jobs \<Rightarrow> image_jobs" where
  "continue_after projectId Done s = s"
| "continue_after projectId (ThenPoll job) s = start_list_polling projectId (poll_generation_status job s)"

definition start_refresh :: "string option \<Rightarrow> after_refresh \<Rightarrow> image_jobs \<Rightarrow> image_jobs" where
  "start_refresh projectId next s =
     (if \<not> truthy_string projectId then continue_after projectId next s
      else send_call (Refreshing (list_skip s) (list_status s) next) (s\<lparr>jobs_loading := True, jobs_error := None\<rparr>))"

definition refresh_answered ::
  "error_text \<Rightarrow> string option \<Rightarrow> after_refresh \<Rightarrow> js_error + json option \<Rightarrow> image_jobs \<Rightarrow> image_jobs" where
  "refresh_answered error_text projectId next r s =
     (let failed = (\<lambda>e. s\<lparr>jobs_error := Some (error_text e ''Failed to load generations''), jobs_loading := False\<rparr>);
          s1 = (case r of
             Inl e \<Rightarrow> failed (Thrown e)
           | Inr None \<Rightarrow> failed NoObject
           | Inr (Some v) \<Rightarrow>
               if v = JNull then failed NoObject
               else show_generations projectId (member v ''generations'')
                 (s\<lparr>total_count := member v ''count'', jobs_loading := False\<rparr>))
      in continue_after projectId next s1)"

definition list_poll_answered :: "string option \<Rightarrow> js_error + json option \<Rightarrow> image_jobs \<Rightarrow> image_jobs" where
  "list_poll_answered projectId r s =
     (case r of
        Inr (Some v) \<Rightarrow>
          if v = JNull then s\<lparr>list_active := False\<rparr>
          else
            (let shown = s\<lparr>generations := member v ''generations'', total_count := member v ''count''\<rparr>
             in case member v ''generations'' of
                  Some (JArr gs) \<Rightarrow>
                    if \<not> list_ex unfinished gs \<or> \<not> list_active s then shown\<lparr>list_active := False\<rparr>
                    else arm_list (shown\<lparr>list_delay := backed_off (list_delay s)\<rparr>)
                | _ \<Rightarrow> shown\<lparr>list_active := False\<rparr>)
      | _ \<Rightarrow> s\<lparr>list_active := False\<rparr>)"

subsection \<open>The job in progress\<close>

definition status_is :: "json \<Rightarrow> string \<Rightarrow> bool" where
  "status_is v t \<longleftrightarrow> member v ''status'' = Some (JStr t)"

definition status_failed :: "error_text \<Rightarrow> thrown \<Rightarrow> image_jobs \<Rightarrow> image_jobs" where
  "status_failed error_text e s =
     stop_status_polling (s\<lparr>generating := False,
       jobs_error := Some (error_text e ''Failed to poll generation status'')\<rparr>)"

text \<open>\<open>error_message\<close> is a string, null or absent.\<close>

definition status_answered ::
  "error_text \<Rightarrow> string option \<Rightarrow> string \<Rightarrow> js_error + json option \<Rightarrow> image_jobs \<Rightarrow> image_jobs" where
  "status_answered error_text projectId job r s =
     (case r of
        Inl e \<Rightarrow> status_failed error_text (Thrown e) s
      | Inr v \<Rightarrow>
          (let s1 = s\<lparr>current_generation := v\<rparr>
           in if v = None \<or> v = Some JNull then status_failed error_text NoObject s1
              else if status_is (the v) ''completed'' then
                start_refresh projectId Done (stop_status_polling (s1\<lparr>generating := False\<rparr>))
              else if status_is (the v) ''failed'' then
                start_refresh projectId Done (stop_status_polling (s1\<lparr>generating := False,
                  jobs_error := Some (nullish (as_string (member (the v) ''error_message'')) ''Image generation failed'')\<rparr>))
              else arm_status job (s1\<lparr>status_delay := backed_off (status_delay s1)\<rparr>)))"

definition generate_job :: "string option \<Rightarrow> image_generation_request \<Rightarrow> image_jobs \<Rightarrow> image_jobs" where
  "generate_job projectId params s =
     (if \<not> truthy_string projectId then s
      else send_call (Creating (params\<lparr>ig_project_id := Some (nullish (ig_project_id params) (the projectId))\<rparr>))
        (s\<lparr>generating := True, jobs_error := None\<rparr>))"

definition upscale_job :: "string \<Rightarrow> image_jobs \<Rightarrow> image_jobs" where
  "upscale_job job s = send_call (Upscaling job) (s\<lparr>jobs_error := None\<rparr>)"

text \<open>The id of a created job; \<open>undefined\<close> where the answer has none.\<close>

definition job_id :: "json \<Rightarrow> string" where
  "job_id v = nullish (as_string (member v ''id'')) ''undefined''"

definition creating_answered ::
  "error_text \<Rightarrow> string option \<Rightarrow> js_error + json option \<Rightarrow> image_jobs \<Rightarrow> image_jobs" where
  "creating_answered error_text projectId r s =
     (let failed = (\<lambda>e s. s\<lparr>generating := False, jobs_error := Some (error_text e ''Failed to start generation'')\<rparr>)
      in case r of
        Inl e \<Rightarrow> failed (Thrown e) s
      | Inr v \<Rightarrow>
          if v = None \<or> v = Some JNull then failed NoObject (s\<lparr>current_generation := v\<rparr>)
          else start_refresh projectId (ThenPoll (job_id (the v)))
            (s\<lparr>current_generation := v, current_id := as_string (member (the v) ''id''), job_progress := Some JNull\<rparr>))"

definition upscaling_answered ::
  "error_text \<Rightarrow> string option \<Rightarrow> js_error + json option \<Rightarrow> image_jobs \<Rightarrow> image_jobs" where
  "upscaling_answered error_text projectId r s =
     (let failed = (\<lambda>e s. s\<lparr>jobs_error := Some (error_text e ''Failed to start upscale'')\<rparr>)
      in case r of
        Inl e \<Rightarrow> failed (Thrown e) s
      | Inr v \<Rightarrow>
          if v = None \<or> v = Some JNull then failed NoObject (s\<lparr>current_generation := v\<rparr>)
          else start_refresh projectId (ThenPoll (job_id (the v)))
            (s\<lparr>current_generation := v, current_id := as_string (member (the v) ''id''), generating := True,
               job_progress := Some JNull\<rparr>))"

definition cancel_generation :: "image_jobs \<Rightarrow> image_jobs" where
  "cancel_generation s = stop_status_polling (s\<lparr>generating := False\<rparr>)"

subsection \<open>Deleting, downloading, favorites, pages\<close>

text \<open>\<open>currentGeneration?.id\<close>, as a callback captures it.\<close>

definition captured_id :: "image_jobs \<Rightarrow> string option" where
  "captured_id s = Option.bind (current_generation s) (\<lambda>v. as_string (member v ''id''))"

definition delete_job :: "string \<Rightarrow> image_jobs \<Rightarrow> image_jobs" where
  "delete_job job s =
     send_call (Deleting [job] (captured_id s) ''Failed to delete generation'') (s\<lparr>jobs_error := None\<rparr>)"

definition bulk_delete :: "string option \<Rightarrow> string list \<Rightarrow> image_jobs \<Rightarrow> image_jobs" where
  "bulk_delete projectId jobs s =
     (if jobs = [] then start_refresh projectId Done (s\<lparr>jobs_error := None\<rparr>)
      else send_call (Deleting jobs (captured_id s) ''Failed to delete some generations'') (s\<lparr>jobs_error := None\<rparr>))"

definition deleting_answered ::
  "error_text \<Rightarrow> string option \<Rightarrow> string list \<Rightarrow> string option \<Rightarrow> string \<Rightarrow> js_error + json option \<Rightarrow>
     image_jobs \<Rightarrow> image_jobs" where
  "deleting_answered error_text projectId jobs captured fallback r s =
     (case r of
        Inl e \<Rightarrow> s\<lparr>jobs_error := Some (error_text (Thrown e) fallback)\<rparr>
      | Inr _ \<Rightarrow>
          (let s1 = (if captured = Some (hd jobs)
                then stop_status_polling (s\<lparr>current_generation := Some JNull, generating := False\<rparr>) else s)
           in if tl jobs = [] then start_refresh projectId Done s1
              else send_call (Deleting (tl jobs) captured fallback) s1))"

definition download_image :: "string \<Rightarrow> string \<Rightarrow> image_jobs \<Rightarrow> image_jobs" where
  "download_image job filename s = send_call (Downloading job filename) (s\<lparr>jobs_error := None\<rparr>)"

definition download_answered :: "error_text \<Rightarrow> string \<Rightarrow> js_error + json option \<Rightarrow> image_jobs \<Rightarrow> image_jobs" where
  "download_answered error_text filename r s =
     (case r of
        Inl e \<Rightarrow> s\<lparr>jobs_error := Some (error_text (Thrown e) ''Failed to download image'')\<rparr>
      | Inr _ \<Rightarrow> s\<lparr>downloads := downloads s @ [filename]\<rparr>)"

definition set_page :: "string option \<Rightarrow> int \<Rightarrow> image_jobs \<Rightarrow> image_jobs" where
  "set_page projectId n s = start_refresh projectId Done (s\<lparr>current_page := max 1 n\<rparr>)"

definition set_filter :: "string option \<Rightarrow> string \<Rightarrow> image_jobs \<Rightarrow> image_jobs" where
  "set_filter projectId st s = start_refresh projectId Done (s\<lparr>filter_status := st, current_page := 1\<rparr>)"

definition toggle_favorite :: "string \<Rightarrow> image_jobs \<Rightarrow> image_jobs" where
  "toggle_favorite job s = send_call (Favoriting job) (s\<lparr>jobs_error := None\<rparr>)"

definition favorite_answered ::
  "error_text \<Rightarrow> string option \<Rightarrow> string \<Rightarrow> js_error + json option \<Rightarrow> image_jobs \<Rightarrow> image_jobs" where
  "favorite_answered error_text projectId job r s =
     (case r of
        Inl e \<Rightarrow> s\<lparr>jobs_error := Some (error_text (Thrown e) ''Failed to toggle favorite'')\<rparr>
      | Inr v \<Rightarrow>
          show_generations projectId (on_array (replace_with_id job
            (with_member ''is_favorite'' (Option.bind v (\<lambda>u. member u ''is_favorite'')))) (generations s)) s)"

subsection \<open>Messages of the event socket\<close>

definition message_job :: "json \<Rightarrow> string option" where
  "message_job v = as_string (member v ''generation_id'')"

text \<open>A message of another job than the current one; without a current one, none is.\<close>

definition foreign_message :: "json \<Rightarrow> image_jobs \<Rightarrow> bool" where
  "foreign_message v s \<longleftrightarrow> truthy_string (current_id s) \<and> message_job v \<noteq> current_id s"

definition on_started :: "json \<Rightarrow> image_jobs \<Rightarrow> image_jobs" where
  "on_started v s = (if foreign_message v s then s else s\<lparr>job_progress := Some JNull\<rparr>)"

definition number_or_zero :: "json \<Rightarrow> string \<Rightarrow> json option" where
  "number_or_zero v k = (case member v k of None \<Rightarrow> Some (JNum 0) | Some JNull \<Rightarrow> Some (JNum 0) | x \<Rightarrow> x)"

definition on_progress :: "json \<Rightarrow> image_jobs \<Rightarrow> image_jobs" where
  "on_progress v s =
     (if foreign_message v s then s
      else s\<lparr>job_progress := Some (js_object
        [(''generation_id'', member v ''generation_id''), (''queue_running'', number_or_zero v ''queue_running''),
         (''queue_pending'', number_or_zero v ''queue_pending''),
         (''elapsed_seconds'', number_or_zero v ''elapsed_seconds''),
         (''poll_attempt'', number_or_zero v ''poll_attempt'')])\<rparr>)"

definition on_completed :: "string option \<Rightarrow> json \<Rightarrow> image_jobs \<Rightarrow> image_jobs" where
  "on_completed projectId v s =
     (if foreign_message v s then s
      else start_refresh projectId Done (stop_status_polling (s\<lparr>generating := False, job_progress := Some JNull\<rparr>)))"

definition on_failed :: "string option \<Rightarrow> json \<Rightarrow> image_jobs \<Rightarrow> image_jobs" where
  "on_failed projectId v s =
     (if foreign_message v s then s
      else start_refresh projectId Done (stop_status_polling (s\<lparr>generating := False, job_progress := Some JNull,
        jobs_error := Some (nullish (as_string (member v ''error'')) ''Image generation failed'')\<rparr>)))"

subsection \<open>Steps\<close>

definition timer_fires :: "string option \<Rightarrow> nat \<Rightarrow> image_jobs \<Rightarrow> image_jobs" where
  "timer_fires projectId k s =
     (case map_of (timers s) k of
        None \<Rightarrow> s
      | Some (kind, _) \<Rightarrow>
          (let s1 = s\<lparr>timers := filter (\<lambda>t. fst t \<noteq> k) (timers s)\<rparr>
           in case kind of
                ListTimer \<Rightarrow>
                  if \<not> list_active s \<or> \<not> truthy_string projectId then s1
                  else send_call (ListPolling (list_skip s) (list_status s)) s1
              | StatusTimer job \<Rightarrow> send_call (StatusPolling job) s1))"

definition job_answered ::
  "error_text \<Rightarrow> string option \<Rightarrow> job_call \<Rightarrow> js_error + json option \<Rightarrow> image_jobs \<Rightarrow> image_jobs" where
  "job_answered error_text projectId c r s =
     (if c \<notin> set (in_flight s) then s
      else
        (let s1 = s\<lparr>in_flight := remove1 c (in_flight s)\<rparr>
         in case c of
              Refreshing _ _ next \<Rightarrow> refresh_answered error_text projectId next r s1
            | ListPolling _ _ \<Rightarrow> list_poll_answered projectId r s1
            | StatusPolling job \<Rightarrow> status_answered error_text projectId job r s1
            | Creating _ \<Rightarrow> creating_answered error_text projectId r s1
            | Upscaling _ \<Rightarrow> upscaling_answered error_text projectId r s1
            | Deleting jobs captured fallback \<Rightarrow> deleting_answered error_text projectId jobs captured fallback r s1
            | Downloading _ filename \<Rightarrow> download_answered error_text filename r s1
            | Favoriting job \<Rightarrow> favorite_answered error_text projectId job r s1))"

datatype job_event = Refresh | Generate image_generation_request | Upscale string | Cancel | Delete string
  | BulkDelete "string list" | Download string string | SetPage int | SetFilter string | ToggleFavorite string
  | WsStarted json | WsProgress json | WsCompleted json | WsFailed json
  | TimerFires nat | JobAnswered job_call "js_error + json option"

fun job_step :: "error_text \<Rightarrow> string option \<Rightarrow> job_event \<Rightarrow> image_jobs \<Rightarrow> image_jobs" where
  "job_step error_text projectId Refresh s = start_refresh projectId Done s"
| "job_step error_text projectId (Generate params) s = generate_job projectId params s"
| "job_step error_text projectId (Upscale job) s = upscale_job job s"
| "job_step error_text projectId Cancel s = cancel_generation s"
| "job_step error_text projectId (Delete job) s = delete_job job s"
| "job_step error_text projectId (BulkDelete jobs) s = bulk_delete projectId jobs s"
| "job_step error_text projectId (Download job filename) s = download_image job filename s"
| "job_step error_text projectId (SetPage n) s = set_page projectId n s"
| "job_step error_text projectId (SetFilter st) s = set_filter projectId st s"
| "job_step error_text projectId (ToggleFavorite job) s = toggle_favorite job s"
| "job_step error_text projectId (WsStarted v) s = on_started v s"
| "job_step error_text projectId (WsProgress v) s = on_progress v s"
| "job_step error_text projectId (WsCompleted v) s = on_completed projectId v s"
| "job_step error_text projectId (WsFailed v) s = on_failed projectId v s"
| "job_step error_text projectId (TimerFires k) s = timer_fires projectId k s"
| "job_step error_text projectId (JobAnswered c r) s = job_answered error_text projectId c r s"

inductive jobs_reachable :: "error_text \<Rightarrow> string option \<Rightarrow> image_jobs \<Rightarrow> bool" for error_text projectId where
  jobs_start: "jobs_reachable error_text projectId initial_jobs"
| jobs_step: "jobs_reachable error_text projectId s \<Longrightarrow>
    jobs_reachable error_text projectId (job_step error_text projectId e s)"

text \<open>The request that each call makes of the client.\<close>

fun job_request :: "server \<Rightarrow> string option \<Rightarrow> job_call \<Rightarrow> json option api" where
  "job_request server projectId (Refreshing skip st _) = listGenerations server projectId (Some skip) (Some page_size) st"
| "job_request server projectId (ListPolling skip st) = listGenerations server projectId (Some skip) (Some page_size) st"
| "job_request server projectId (StatusPolling job) = getGenerationStatus server job"
| "job_request server projectId (Creating params) = generateImage server params"
| "job_request server projectId (Upscaling job) = upscaleImage server job None"
| "job_request server projectId (Deleting jobs _ _) = deleteGeneration server (hd jobs)"
| "job_request server projectId (Downloading job filename) =
     (\<lambda>s. case downloadImage server job filename s of (Inl e, s1) \<Rightarrow> (Inl e, s1) | (Inr b, s1) \<Rightarrow> (Inr None, s1))"
| "job_request server projectId (Favoriting job) = toggleFavorite server job"

subsection \<open>The polling loops\<close>

fun is_list_poll :: "job_call \<Rightarrow> bool" where
  "is_list_poll (ListPolling _ _) = True"
| "is_list_poll _ = False"

definition is_list_timer :: "nat \<times> timer_kind \<times> real \<Rightarrow> bool" where
  "is_list_timer t \<longleftrightarrow> fst (snd t) = ListTimer"

definition list_chain :: "image_jobs \<Rightarrow> nat" where
  "list_chain s = length (filter is_list_timer (timers s)) + length (filter is_list_poll (in_flight s))"

definition delay_ok :: "real \<Rightarrow> bool" where
  "delay_ok d \<longleftrightarrow> 2000 \<le> d \<and> d \<le> 15000"

definition timers_ok :: "image_jobs \<Rightarrow> bool" where
  "timers_ok s \<longleftrightarrow>
     distinct (map fst (timers s)) \<and> list_all (\<lambda>t. fst t < next_timer s \<and> delay_ok (snd (snd t))) (timers s) \<and>
     list_all (\<lambda>t. is_list_timer t \<longrightarrow> Some (fst t) \<noteq> status_ref s) (timers s) \<and>
     (\<forall>k. status_ref s = Some k \<longrightarrow> k < next_timer s)"

definition jobs_inv :: "image_jobs \<Rightarrow> bool" where
  "jobs_inv s \<longleftrightarrow>
     list_chain s = (if list_active s then 1 else 0) \<and> 1 \<le> current_page s \<and>
     delay_ok (list_delay s) \<and> delay_ok (status_delay s) \<and> timers_ok s"

lemmas jobs_inv_defs = jobs_inv_def list_chain_def timers_ok_def is_list_timer_def

lemma delay_ok_simps [simp]: "delay_ok poll_initial_ms" "delay_ok d \<Longrightarrow> delay_ok (backed_off d)"
  by (simp_all add: delay_ok_def poll_initial_ms_def backed_off_def poll_backoff_factor_def poll_max_ms_def)

lemma initial_jobs_inv: "jobs_inv initial_jobs"
  by (simp add: jobs_inv_defs initial_jobs_def)

text \<open>What is shown plays no part in the loops.\<close>

lemma shown_inv [simp]:
  "jobs_inv (s\<lparr>generations := a\<rparr>) = jobs_inv s" "jobs_inv (s\<lparr>current_generation := a\<rparr>) = jobs_inv s"
  "jobs_inv (s\<lparr>generating := b\<rparr>) = jobs_inv s" "jobs_inv (s\<lparr>jobs_loading := b\<rparr>) = jobs_inv s"
  "jobs_inv (s\<lparr>jobs_error := e\<rparr>) = jobs_inv s" "jobs_inv (s\<lparr>total_count := a\<rparr>) = jobs_inv s"
  "jobs_inv (s\<lparr>filter_status := f\<rparr>) = jobs_inv s" "jobs_inv (s\<lparr>job_progress := a\<rparr>) = jobs_inv s"
  "jobs_inv (s\<lparr>current_id := i\<rparr>) = jobs_inv s" "jobs_inv (s\<lparr>downloads := ds\<rparr>) = jobs_inv s"
  by (simp_all add: jobs_inv_defs)

lemma send_call_inv [simp]: "\<not> is_list_poll c \<Longrightarrow> jobs_inv (send_call c s) = jobs_inv s"
  by (simp add: jobs_inv_defs send_call_def)

lemma set_page_inv: "jobs_inv s \<Longrightarrow> 1 \<le> n \<Longrightarrow> jobs_inv (s\<lparr>current_page := n\<rparr>)"
  by (simp add: jobs_inv_defs)

lemma status_delay_inv: "jobs_inv s \<Longrightarrow> delay_ok d \<Longrightarrow> jobs_inv (s\<lparr>status_delay := d\<rparr>)"
  by (simp add: jobs_inv_defs)

lemma stop_status_inv:
  assumes "jobs_inv s"
  shows "jobs_inv (stop_status_polling s)"
proof -
  have "filter is_list_timer (filter (\<lambda>t. Some (fst t) \<noteq> status_ref s) (timers s)) = filter is_list_timer (timers s)"
    using assms by (induction "timers s") (auto simp: jobs_inv_def timers_ok_def list_all_iff filter_id_conv intro!: filter_cong)
  then show ?thesis
    using assms by (auto simp: jobs_inv_def list_chain_def timers_ok_def stop_status_polling_def clear_timer_def
        list_all_iff distinct_map_filter)
qed

lemma arm_status_inv: "jobs_inv s \<Longrightarrow> jobs_inv (arm_status job s)"
  by (fastforce simp: jobs_inv_defs arm_status_def list_all_iff split: option.splits)

lemma timers_ok_arm_list:
  assumes "timers_ok s" and "delay_ok (list_delay s)"
  shows "timers_ok (arm_list s)"
proof -
  have "\<And>t. t \<in> set (timers s) \<Longrightarrow> fst t < next_timer s" "\<And>k. status_ref s = Some k \<Longrightarrow> k < next_timer s"
    using assms(1) by (auto simp: timers_ok_def list_all_iff)
  then have "next_timer s \<notin> fst ` set (timers s)" "status_ref s \<noteq> Some (next_timer s)" by fastforce+
  then show ?thesis
    using assms by (auto simp: timers_ok_def arm_list_def list_all_iff less_Suc_eq)
qed

lemma timers_ok_list_delay [simp]: "timers_ok (s\<lparr>list_delay := d\<rparr>) = timers_ok s"
  "timers_ok (s\<lparr>list_active := b\<rparr>) = timers_ok s" "timers_ok (s\<lparr>in_flight := c\<rparr>) = timers_ok s"
  by (simp_all add: timers_ok_def)

lemma arm_list_inv:
  assumes "list_chain s = 0" and "list_active s" and "1 \<le> current_page s" and "delay_ok (list_delay s)"
    and "delay_ok (status_delay s)" and "timers_ok s"
  shows "jobs_inv (arm_list s)"
  using assms timers_ok_arm_list [OF assms(6,4)]
  by (simp add: jobs_inv_def list_chain_def arm_list_def is_list_timer_def)

lemma start_list_inv: "jobs_inv s \<Longrightarrow> jobs_inv (start_list_polling projectId s)"
proof (cases "list_active s \<or> \<not> truthy_string projectId")
  case False
  assume "jobs_inv s"
  then have "jobs_inv (arm_list (s\<lparr>list_active := True, list_delay := poll_initial_ms\<rparr>))"
    using False by (intro arm_list_inv) (simp_all add: jobs_inv_def list_chain_def)
  then show ?thesis using False by (simp add: start_list_polling_def)
qed (simp add: start_list_polling_def)

lemma show_generations_inv: "jobs_inv s \<Longrightarrow> jobs_inv (show_generations projectId v s)"
  by (simp add: show_generations_def Let_def start_list_inv)

lemma poll_status_inv: "jobs_inv s \<Longrightarrow> jobs_inv (poll_generation_status job s)"
  by (simp add: poll_generation_status_def arm_status_inv status_delay_inv stop_status_inv)

lemma continue_after_inv: "jobs_inv s \<Longrightarrow> jobs_inv (continue_after projectId next s)"
  by (cases "next") (simp_all add: start_list_inv poll_status_inv)

lemma start_refresh_inv: "jobs_inv s \<Longrightarrow> jobs_inv (start_refresh projectId next s)"
  by (simp add: start_refresh_def continue_after_inv)

lemma refresh_answered_inv: "jobs_inv s \<Longrightarrow> jobs_inv (refresh_answered error_text projectId next r s)"
  by (auto simp: refresh_answered_def Let_def continue_after_inv show_generations_inv split: sum.splits option.splits)

lemma status_answered_inv: "jobs_inv s \<Longrightarrow> jobs_inv (status_answered error_text projectId job r s)"
proof -
  assume inv: "jobs_inv s"
  then have "delay_ok (status_delay s)" by (simp add: jobs_inv_def)
  with inv show ?thesis
    by (auto simp: status_answered_def status_failed_def Let_def start_refresh_inv stop_status_inv arm_status_inv
        status_delay_inv split: sum.splits)
qed

lemma other_answers_inv:
  assumes "jobs_inv s"
  shows "jobs_inv (creating_answered error_text projectId r s)"
    "jobs_inv (upscaling_answered error_text projectId r s)"
    "jobs_inv (deleting_answered error_text projectId jobs captured fallback r s)"
    "jobs_inv (download_answered error_text filename r s)"
    "jobs_inv (favorite_answered error_text projectId job r s)"
  using assms
  by (simp_all add: creating_answered_def upscaling_answered_def deleting_answered_def download_answered_def
      favorite_answered_def Let_def start_refresh_inv stop_status_inv show_generations_inv split: sum.split)

lemma timers_ok_removed: "timers_ok s \<Longrightarrow> timers_ok (s\<lparr>timers := filter P (timers s)\<rparr>)"
  by (auto simp: timers_ok_def list_all_iff distinct_map_filter)

lemma list_timer_counted: "map_of ts k = Some (ListTimer, d) \<Longrightarrow> 0 < length (filter is_list_timer ts)"
proof -
  assume "map_of ts k = Some (ListTimer, d)"
  then have "(k, ListTimer, d) \<in> set (filter is_list_timer ts)" by (simp add: is_list_timer_def map_of_SomeD)
  then show ?thesis by (rule length_pos_if_in_set)
qed

lemma fired_list_timer:
  assumes "distinct (map fst ts)" and "map_of ts k = Some (kind, d)"
  shows "length (filter is_list_timer (filter (\<lambda>t. fst t \<noteq> k) ts)) =
    length (filter is_list_timer ts) - (if kind = ListTimer then 1 else 0)"
  using assms
proof (induction ts)
  case (Cons t ts)
  show ?case
  proof (cases "fst t = k")
    case True
    then have "k \<notin> fst ` set ts" using Cons.prems(1) by auto
    then have "filter (\<lambda>t. fst t \<noteq> k) ts = ts" by (auto simp: filter_id_conv image_iff)
    moreover have "snd t = (kind, d)" using Cons.prems(2) True by (cases t) simp
    ultimately show ?thesis using True by (simp add: is_list_timer_def)
  next
    case False
    then have "map_of ts k = Some (kind, d)" using Cons.prems(2) by (cases t) (simp split: if_splits)
    moreover from this have "kind = ListTimer \<Longrightarrow> 0 < length (filter is_list_timer ts)"
      using list_timer_counted by blast
    ultimately show ?thesis using Cons False by auto
  qed
qed simp

lemma one_of_two: "m + n = (if b then 1 else 0) \<Longrightarrow> 0 < m \<Longrightarrow> b \<and> m = 1 \<and> n = 0" for m n :: nat
  by (cases b) auto

lemma chain_count:
  "jobs_inv s \<Longrightarrow> length (filter is_list_timer (timers s)) + length (filter is_list_poll (in_flight s)) =
    (if list_active s then 1 else 0)"
  by (simp add: jobs_inv_def list_chain_def)

lemma timer_fires_inv:
  assumes "jobs_inv s" and "truthy_string projectId"
  shows "jobs_inv (timer_fires projectId k s)"
proof (cases "map_of (timers s) k")
  case None
  then show ?thesis using assms by (simp add: timer_fires_def)
next
  case (Some kd)
  then obtain kind d where kd: "map_of (timers s) k = Some (kind, d)" by (cases kd) auto
  let ?s = "s\<lparr>timers := filter (\<lambda>t. fst t \<noteq> k) (timers s)\<rparr>"
  have n: "length (filter is_list_timer (timers ?s)) = length (filter is_list_timer (timers s)) -
      (if kind = ListTimer then 1 else 0)"
    using assms fired_list_timer [OF _ kd] by (simp add: jobs_inv_def timers_ok_def)
  have ok: "timers_ok ?s" using assms by (simp add: jobs_inv_def timers_ok_removed)
  show ?thesis
  proof (cases kind)
    case ListTimer
    then have "0 < length (filter is_list_timer (timers s))" using kd list_timer_counted by blast
    then have "list_active s" "length (filter is_list_timer (timers s)) = 1" "filter is_list_poll (in_flight s) = []"
      using one_of_two [OF chain_count [OF assms(1)]] by simp_all
    then show ?thesis
      using assms n ok ListTimer
      by (simp add: timer_fires_def kd jobs_inv_def list_chain_def send_call_def Let_def)
  next
    case (StatusTimer job)
    then show ?thesis
      using assms n ok by (simp add: timer_fires_def kd jobs_inv_def list_chain_def send_call_def Let_def)
  qed
qed

lemma count_removed:
  "c \<in> set cs \<Longrightarrow> length (filter P (remove1 c cs)) = length (filter P cs) - (if P c then 1 else 0)"
  by (simp add: filter_remove1 length_remove1)

lemma list_poll_answered_inv:
  assumes "jobs_inv s" and "c \<in> set (in_flight s)" and "is_list_poll c"
  shows "jobs_inv (list_poll_answered projectId r (s\<lparr>in_flight := remove1 c (in_flight s)\<rparr>))"
proof -
  let ?s = "s\<lparr>in_flight := remove1 c (in_flight s)\<rparr>"
  have "0 < length (filter is_list_poll (in_flight s))"
    using assms(2,3) by (intro length_pos_if_in_set [of c]) simp
  then have "list_active s \<and> length (filter is_list_poll (in_flight s)) = 1 \<and> length (filter is_list_timer (timers s)) = 0"
    using chain_count [OF assms(1)] by (intro one_of_two) (simp_all only: add.commute)
  then have active: "list_active s" and none: "list_chain ?s = 0"
    using assms(3) count_removed [OF assms(2), of is_list_poll] by (simp_all add: list_chain_def)
  have ok: "1 \<le> current_page s" "delay_ok (list_delay s)" "delay_ok (status_delay s)" "timers_ok s"
    using assms(1) by (simp_all add: jobs_inv_def)
  have stopped: "jobs_inv (?s\<lparr>list_active := False\<rparr>)" using none ok by (simp add: jobs_inv_def list_chain_def)
  have frame: "jobs_inv (?s\<lparr>generations := a, total_count := n, list_active := False\<rparr>)" for a n
    using stopped by (simp add: jobs_inv_def list_chain_def timers_ok_def)
  have going: "jobs_inv (arm_list (?s\<lparr>generations := a, total_count := n, list_delay := backed_off (list_delay s)\<rparr>))" for a n
    using none ok active by (intro arm_list_inv) (simp_all add: list_chain_def timers_ok_def)
  show ?thesis
    using stopped frame going by (simp add: list_poll_answered_def Let_def split: sum.split option.split json.split)
qed

lemma job_answered_inv:
  assumes "jobs_inv s"
  shows "jobs_inv (job_answered error_text projectId c r s)"
proof (cases "c \<in> set (in_flight s)")
  case True
  have other: "jobs_inv (s\<lparr>in_flight := remove1 c (in_flight s)\<rparr>)" if "\<not> is_list_poll c"
    using assms that count_removed [OF True, of is_list_poll] by (simp add: jobs_inv_def list_chain_def)
  show ?thesis
  proof (cases "is_list_poll c")
    case list: True
    then show ?thesis
      using list_poll_answered_inv [OF assms True] True by (cases c) (simp_all add: job_answered_def)
  next
    case False
    then show ?thesis
      using other True
      by (cases c) (simp_all add: job_answered_def refresh_answered_inv status_answered_inv other_answers_inv)
  qed
qed (simp add: job_answered_def assms)

lemma job_step_inv:
  assumes "jobs_inv s" and "truthy_string projectId"
  shows "jobs_inv (job_step error_text projectId e s)"
proof (cases e)
  case (TimerFires k)
  then show ?thesis using assms by (simp add: timer_fires_inv)
next
  case (JobAnswered c r)
  then show ?thesis using assms by (simp add: job_answered_inv)
qed (use assms in \<open>simp_all add: start_refresh_inv generate_job_def upscale_job_def cancel_generation_def
    delete_job_def bulk_delete_def download_image_def set_page_def set_filter_def toggle_favorite_def on_started_def
    on_progress_def on_completed_def on_failed_def stop_status_inv set_page_inv\<close>)

text \<open>C15: the polling of the list is one loop: at any time at most one timer or request of it exists, and
  exactly one while it is active, whatever starts it in whatever order; every poll, of the list or of a
  job, waits between two and fifteen seconds; and the page that is shown is never before the first.\<close>
theorem one_list_loop:
  assumes "jobs_reachable error_text projectId s" and "truthy_string projectId"
  shows "length (filter is_list_timer (timers s)) + length (filter is_list_poll (in_flight s)) =
      (if list_active s then 1 else 0) \<and>
    (\<forall>(k, kind, d) \<in> set (timers s). 2000 \<le> d \<and> d \<le> 15000) \<and> 0 \<le> list_skip s"
proof -
  have "jobs_inv s" using assms(1) by induction (simp_all add: initial_jobs_inv job_step_inv assms(2))
  then show ?thesis
    by (auto simp: jobs_inv_def list_chain_def timers_ok_def list_all_iff delay_ok_def list_skip_def page_size_def)
qed

subsection \<open>Polling a job\<close>

definition still_working :: "json option \<Rightarrow> bool" where
  "still_working v \<longleftrightarrow>
     v \<noteq> None \<and> v \<noteq> Some JNull \<and> \<not> status_is (the v) ''completed'' \<and> \<not> status_is (the v) ''failed''"

text \<open>The status poll armed, sent and answered \<open>n\<close> times with answers that leave the job unfinished.\<close>

definition poll_round :: "error_text \<Rightarrow> string option \<Rightarrow> string \<Rightarrow> json option \<Rightarrow> image_jobs \<Rightarrow> image_jobs" where
  "poll_round error_text projectId job v s =
     job_answered error_text projectId (StatusPolling job) (Inr v)
       (case status_ref s of None \<Rightarrow> s | Some k \<Rightarrow> timer_fires projectId k s)"

lemma still_working_rearms:
  assumes "still_working v"
  shows "status_answered error_text projectId job (Inr v) s =
    arm_status job (s\<lparr>current_generation := v, status_delay := backed_off (status_delay s)\<rparr>)"
  using assms by (cases v) (simp_all add: status_answered_def still_working_def Let_def)

definition waiting_for :: "string \<Rightarrow> real \<Rightarrow> image_jobs \<Rightarrow> bool" where
  "waiting_for job d s \<longleftrightarrow>
     (\<exists>k. status_ref s = Some k \<and> map_of (timers s) k = Some (StatusTimer job, d)) \<and> status_delay s = d \<and> jobs_inv s"

lemma arm_status_waits:
  assumes "jobs_inv s"
  shows "waiting_for job (status_delay s) (arm_status job s)"
proof -
  have "next_timer s \<notin> fst ` set (timers s)"
    using assms by (fastforce simp: jobs_inv_def timers_ok_def list_all_iff)
  then have "map_of (timers s @ [(next_timer s, StatusTimer job, status_delay s)]) (next_timer s) =
      Some (StatusTimer job, status_delay s)"
    by (simp add: map_add_def map_of_eq_None_iff [THEN iffD2])
  then show ?thesis using arm_status_inv [OF assms, of job] by (simp add: waiting_for_def arm_status_def)
qed

lemma poll_round_waits:
  assumes "waiting_for job d s" and "still_working v" and "truthy_string projectId"
  shows "waiting_for job (backed_off d) (poll_round error_text projectId job v s)"
proof -
  obtain k where k: "status_ref s = Some k" "map_of (timers s) k = Some (StatusTimer job, d)" "status_delay s = d"
    and inv: "jobs_inv s"
    using assms(1) by (auto simp: waiting_for_def)
  define s1 where "s1 = timer_fires projectId k s"
  have s1: "s1 = send_call (StatusPolling job) (s\<lparr>timers := filter (\<lambda>t. fst t \<noteq> k) (timers s)\<rparr>)"
    using k by (simp add: s1_def timer_fires_def Let_def)
  define s2 where "s2 = s1\<lparr>in_flight := remove1 (StatusPolling job) (in_flight s1), current_generation := v,
      status_delay := backed_off d\<rparr>"
  have "poll_round error_text projectId job v s = arm_status job s2"
    using k assms(2) by (simp add: poll_round_def s1_def [symmetric] job_answered_def s2_def
        still_working_rearms [OF assms(2)]) (simp add: s1 send_call_def k)
  moreover have "jobs_inv s2"
  proof -
    have "jobs_inv s1" using inv assms(3) by (simp add: s1_def timer_fires_inv)
    then show ?thesis
      using inv k by (simp add: s2_def s1 jobs_inv_defs send_call_def count_removed)
  qed
  ultimately show ?thesis using arm_status_waits [of s2 job] by (simp add: s2_def)
qed

lemma backed_off_power:
  "backed_off (min 15000 (2000 * (3 / 2) ^ n)) = min 15000 (2000 * (3 / 2) ^ Suc n)"
  by (simp add: backed_off_def poll_backoff_factor_def poll_max_ms_def min_def)

text \<open>The waits between the polls of a job grow by half from two seconds to fifteen and stay there:
  after \<open>n\<close> answers that leave the job unfinished, exactly one timer of it is known to the hook, with the
  delay \<open>min 15000 (2000 * 1.5 ^ n)\<close>.\<close>
theorem status_backoff:
  assumes "jobs_inv s" and "truthy_string projectId" and "\<And>v. v \<in> set vs \<Longrightarrow> still_working v"
  shows "waiting_for job (min 15000 (2000 * (3 / 2) ^ length vs))
    (fold (poll_round error_text projectId job) vs (poll_generation_status job s))"
  using assms(3)
proof (induction vs rule: rev_induct)
  case Nil
  have "jobs_inv ((stop_status_polling s)\<lparr>status_delay := poll_initial_ms\<rparr>)"
    using assms(1) by (simp add: status_delay_inv stop_status_inv)
  from arm_status_waits [OF this, of job] show ?case
    by (simp add: poll_generation_status_def poll_initial_ms_def)
next
  case (snoc v vs)
  then have "waiting_for job (min 15000 (2000 * (3 / 2) ^ length vs))
      (fold (poll_round error_text projectId job) vs (poll_generation_status job s))" by simp
  from poll_round_waits [OF this _ assms(2)] snoc.prems show ?case by (simp only: backed_off_power) simp
qed

definition sample_project :: "string option" where "sample_project = Some ''p1''"

lemma status_backoff_witness:
  "waiting_for ''j'' (min 15000 (2000 * (3 / 2) ^ length [Some (JObj []), Some (JObj [])]))
    (fold (poll_round (\<lambda>_ t. t) sample_project ''j'') [Some (JObj []), Some (JObj [])]
      (poll_generation_status ''j'' initial_jobs))"
  by (rule status_backoff)
    (auto simp: initial_jobs_inv sample_project_def truthy_string_def still_working_def status_is_def)

lemma one_list_loop_witness:
  "length (filter is_list_timer (timers (start_list_polling sample_project initial_jobs))) = 1 \<and>
   0 \<le> list_skip (job_step (\<lambda>_ t. t) sample_project (SetPage (- 3)) initial_jobs)"
proof -
  have r: "jobs_reachable (\<lambda>_ t. t) sample_project (job_step (\<lambda>_ t. t) sample_project (SetPage (- 3)) initial_jobs)"
    by (intro jobs_step jobs_start)
  have p: "truthy_string sample_project" by (simp add: sample_project_def truthy_string_def)
  then show ?thesis
    using one_list_loop [OF r p]
    by (simp add: start_list_polling_def initial_jobs_def arm_list_def is_list_timer_def)
qed

subsection \<open>The end of a job\<close>

lemma completed_ends:
  assumes "status_is v ''completed''" and "v \<noteq> JNull" and "truthy_string projectId"
  shows "let s' = status_answered error_text projectId job (Inr (Some v)) s
    in \<not> generating s' \<and> current_generation s' = Some v \<and> status_ref s' = None \<and>
       in_flight s' = in_flight s @ [Refreshing (list_skip s) (list_status s) Done]"
  using assms
  by (simp add: status_answered_def Let_def start_refresh_def send_call_def stop_status_polling_def clear_timer_def
      list_skip_def list_status_def)

text \<open>The message of a failed job is never seen: whether the failure is reported by the status poll
  or by the event socket, the refresh that is started at once, in the same step, clears the message that
  was just set.\<close>
theorem failed_job_shows_no_error:
  assumes "truthy_string projectId" and "status_is v ''failed''" and "v \<noteq> JNull" and "\<not> foreign_message m s"
  shows "jobs_error (status_answered error_text projectId job (Inr (Some v)) s) = None \<and>
    jobs_error (on_failed projectId m s) = None"
proof -
  have "\<not> status_is v ''completed''" using assms(2) by (simp add: status_is_def)
  then show ?thesis
    using assms by (simp add: status_answered_def on_failed_def Let_def start_refresh_def send_call_def)
qed

lemma failed_job_shows_no_error_witness:
  "jobs_error (status_answered (\<lambda>_ t. t) sample_project ''j''
      (Inr (Some (JObj [(''status'', JStr ''failed''), (''error_message'', JStr ''out of memory'')]))) initial_jobs) = None \<and>
   jobs_error (on_failed sample_project (JObj [(''error'', JStr ''out of memory'')]) initial_jobs) = None"
  by (rule failed_job_shows_no_error)
    (simp_all add: sample_project_def truthy_string_def status_is_def foreign_message_def initial_jobs_def)

text \<open>cancelling while a poll of the job is in flight does not stop the polling: when the answer
  leaves the job unfinished the next timer is armed, although the page shows no generation any more.\<close>
theorem cancel_leaves_poll_running:
  assumes "StatusPolling job \<in> set (in_flight s)" and "still_working v"
  shows "let s' = job_answered error_text projectId (StatusPolling job) (Inr v) (cancel_generation s)
    in \<not> generating s' \<and> current_generation s' = v \<and> (\<exists>k. status_ref s' = Some k \<and>
       (k, StatusTimer job, backed_off poll_initial_ms) \<in> set (timers s'))"
  using assms
  by (simp add: cancel_generation_def stop_status_polling_def clear_timer_def job_answered_def
      still_working_rearms arm_status_def)

lemma cancel_leaves_poll_running_witness:
  "let s = send_call (StatusPolling ''j'') initial_jobs;
       s' = job_answered (\<lambda>_ t. t) sample_project (StatusPolling ''j'') (Inr (Some (JObj []))) (cancel_generation s)
    in \<not> generating s' \<and> current_generation s' = Some (JObj []) \<and> (\<exists>k. status_ref s' = Some k \<and>
       (k, StatusTimer ''j'', backed_off poll_initial_ms) \<in> set (timers s'))"
  unfolding Let_def [of "send_call (StatusPolling ''j'') initial_jobs"]
  by (rule cancel_leaves_poll_running) (simp_all add: send_call_def still_working_def status_is_def)

end
