(* ===== verification/Workspace_Conversation.thy ===== *)
theory Workspace_Conversation
  imports Conversation
begin

section \<open>The conversation of a workspace\<close>

text \<open>
  \<open>useWorkspaceConversation\<close> of \<^verbatim>\<open>packages/api/hooks/use-workspace-conversation.ts\<close>: which chat is
  shown for the project and the chat that the page names, and the sending of messages that carry the
  state of the sandbox.  An event is a change of the hook's arguments, a message sent, a callback of a
  stream, a timer, or the answer of the request that loads the chat; each effect run has a number, and
  its answer is ignored once a later run has cancelled it.  Of the token usage the model has the reset
  when the chat is left and the update at the end of a stream.
\<close>

subsection \<open>The context of a message\<close>

datatype file_node = File string | Directory string "file_node list option"

record sandbox_context =
  selected_file :: "string option"
  file_tree :: "file_node list option"
  terminal_history :: "string list"

text \<open>\<open>walk\<close> with its counters and the names that it collects.\<close>

fun walk :: "file_node list \<Rightarrow> nat \<times> nat \<times> string list \<Rightarrow> nat \<times> nat \<times> string list" where
  "walk [] acc = acc"
| "walk (Directory p None # items) (files, dirs, names) = walk items (files, Suc dirs, names)"
| "walk (Directory p (Some ch) # items) (files, dirs, names) = walk items (walk ch (files, Suc dirs, names))"
| "walk (File p # items) (files, dirs, names) =
     walk items (Suc files, dirs, if length names < 15 then names @ [p] else names)"

definition summarize_file_tree :: "file_node list \<Rightarrow> string" where
  "summarize_file_tree nodes =
     (let (files, dirs, names) = walk nodes (0, 0, [])
      in ''Files: '' @ join '', '' names @
         (if 15 < files then '', ... ('' @ show_nat files @ '' files total)'' else []) @
         (if 0 < dirs then '' | '' @ show_nat dirs @ '' directories'' else []))"

definition context_parts :: "sandbox_context \<Rightarrow> string list" where
  "context_parts ctx =
     (if truthy_string (selected_file ctx) then [''[Current file: '' @ the (selected_file ctx) @ '']''] else []) @
     (case file_tree ctx of
        None \<Rightarrow> []
      | Some tree \<Rightarrow> if tree \<noteq> [] then [''[Project files: '' @ summarize_file_tree tree @ '']''] else []) @
     (if terminal_history ctx \<noteq> []
      then [''[Recent terminal commands: '' @
              join ''; '' (drop (length (terminal_history ctx) - 10) (terminal_history ctx)) @ '']'']
      else [])"

definition enrich :: "sandbox_context \<Rightarrow> string \<Rightarrow> string" where
  "enrich ctx content =
     (if context_parts ctx \<noteq> [] then join [newline] (context_parts ctx) @ [newline, newline] @ content else content)"

subsection \<open>State\<close>

record ws_stream =
  placeholder :: string
  ws_ended :: bool
  ws_fallback :: bool

record workspace =
  ws_project :: string
  external_chat :: "string option"
  ws_chat_id :: "string option"
  ws_conversation :: "conversation_data option"
  ws_loading :: bool
  ws_processing :: bool
  ws_progress :: int
  ws_error :: "string option"
  ws_progress_timer :: "real option"
  ws_finish_timers :: nat
  ws_abort_ref :: "nat option"
  ws_streams :: "ws_stream list"
  ws_aborted :: "nat list"
  ws_epoch :: nat
  ws_usage :: "token_usage option"
  ws_sent :: "(string \<times> string) list"

definition new_workspace :: workspace where
  "new_workspace =
     \<lparr>ws_project = [], external_chat = None, ws_chat_id = None, ws_conversation = None, ws_loading = False,
      ws_processing = False, ws_progress = 0, ws_error = None, ws_progress_timer = None, ws_finish_timers = 0,
      ws_abort_ref = None, ws_streams = [], ws_aborted = [], ws_epoch = 0, ws_usage = None, ws_sent = []\<rparr>"

definition ws_clear_progress :: "workspace \<Rightarrow> workspace" where
  "ws_clear_progress s = s\<lparr>ws_progress_timer := None\<rparr>"

definition ws_abort :: "workspace \<Rightarrow> workspace" where
  "ws_abort s = (case ws_abort_ref s of None \<Rightarrow> s | Some i \<Rightarrow> s\<lparr>ws_aborted := i # ws_aborted s\<rparr>)"

definition ws_unmount :: "workspace \<Rightarrow> workspace" where
  "ws_unmount s = (ws_abort (ws_clear_progress s))\<lparr>ws_abort_ref := None, ws_epoch := Suc (ws_epoch s)\<rparr>"

definition edit_ws_messages :: "(message list \<Rightarrow> message list) \<Rightarrow> workspace \<Rightarrow> workspace" where
  "edit_ws_messages f s =
     s\<lparr>ws_conversation := map_option (\<lambda>c. c\<lparr>messages := f (messages c)\<rparr>) (ws_conversation s)\<rparr>"

subsection \<open>Loading the chat\<close>

definition hex_char :: "char \<Rightarrow> bool" where
  "hex_char c \<longleftrightarrow>
     (let n = of_char c :: nat in (48 \<le> n \<and> n \<le> 57) \<or> (65 \<le> n \<and> n \<le> 70) \<or> (97 \<le> n \<and> n \<le> 102))"

definition is_uuid :: "string \<Rightarrow> bool" where
  "is_uuid s \<longleftrightarrow>
     map length (split_on CHR ''-'' s) = [8, 4, 4, 4, 12] \<and> list_all (list_all hex_char) (split_on CHR ''-'' s)"

datatype ws_load = NoLoad | LoadChat string | LoadDefault string

text \<open>The effect, run when the project or the chat that the page names has changed.\<close>

definition change_chat_props :: "string \<Rightarrow> string option \<Rightarrow> workspace \<Rightarrow> ws_load \<times> workspace" where
  "change_chat_props projectId externalChatId s =
     (let s0 = s\<lparr>ws_project := projectId, external_chat := externalChatId, ws_epoch := Suc (ws_epoch s)\<rparr>
      in if projectId = [] then (NoLoad, s0)
         else
           (let s1 = (ws_clear_progress (ws_abort s0))\<lparr>ws_abort_ref := None, ws_chat_id := None,
                  ws_conversation := None, ws_loading := True, ws_error := None, ws_usage := None\<rparr>
            in if truthy_string externalChatId then
                 (if \<not> is_uuid (the externalChatId)
                  then (NoLoad, s1\<lparr>ws_error := Some ''Invalid chat ID format'', ws_loading := False\<rparr>)
                  else (LoadChat (the externalChatId), s1))
               else (LoadDefault projectId, s1)))"

text \<open>The answers, for the run of the effect that asked; an error is its message, if it is an \<open>Error\<close>.\<close>

definition chat_loaded ::
  "nat \<Rightarrow> string \<Rightarrow> string \<Rightarrow> string option + conversation_data \<Rightarrow> workspace \<Rightarrow> workspace" where
  "chat_loaded epoch projectId chatId r s =
     (if epoch \<noteq> ws_epoch s then s
      else
        (case r of
           Inl m \<Rightarrow> s\<lparr>ws_error := Some (nullish m ''Failed to load chat''), ws_loading := False\<rparr>
         | Inr conv \<Rightarrow>
             if conv_project_id conv \<noteq> projectId
             then s\<lparr>ws_error := Some ''Chat does not belong to this project'', ws_loading := False\<rparr>
             else s\<lparr>ws_chat_id := Some chatId, ws_conversation := Some conv, ws_loading := False\<rparr>))"

definition default_loaded ::
  "nat \<Rightarrow> string option + string \<times> conversation_data \<Rightarrow> workspace \<Rightarrow> workspace" where
  "default_loaded epoch r s =
     (if epoch \<noteq> ws_epoch s then s
      else
        (case r of
           Inl m \<Rightarrow> s\<lparr>ws_error := Some (nullish m ''Failed to initialize chat''), ws_loading := False\<rparr>
         | Inr (chatId, conv) \<Rightarrow> s\<lparr>ws_chat_id := Some chatId, ws_conversation := Some conv, ws_loading := False\<rparr>))"

subsection \<open>Progress\<close>

definition ws_start_progress :: "workspace \<Rightarrow> workspace" where
  "ws_start_progress s =
     (ws_clear_progress s)\<lparr>ws_progress := 0, ws_processing := True, ws_progress_timer := Some 0\<rparr>"

definition ws_tick :: "workspace \<Rightarrow> workspace" where
  "ws_tick s =
     (case ws_progress_timer s of
        None \<Rightarrow> s
      | Some current \<Rightarrow>
          (let remaining = 95 - current;
               step = max (1 / 2) (remaining * (8 / 100));
               current' = min 95 (current + step)
           in s\<lparr>ws_progress_timer := Some current', ws_progress := js_round current'\<rparr>))"

definition ws_finish_progress :: "workspace \<Rightarrow> workspace" where
  "ws_finish_progress s =
     (ws_clear_progress s)\<lparr>ws_progress := 100, ws_finish_timers := Suc (ws_finish_timers s)\<rparr>"

definition ws_finish_fires :: "workspace \<Rightarrow> workspace" where
  "ws_finish_fires s =
     (if ws_finish_timers s = 0 then s
      else s\<lparr>ws_processing := False, ws_progress := 0, ws_finish_timers := ws_finish_timers s - 1\<rparr>)"

subsection \<open>Sending\<close>

definition user_placeholder :: "string \<Rightarrow> string" where
  "user_placeholder uuid = ''temp-user-'' @ uuid"

definition assistant_placeholder :: "string \<Rightarrow> string" where
  "assistant_placeholder uuid = ''temp-assistant-'' @ uuid"

definition ws_send :: "sandbox_context \<Rightarrow> string \<Rightarrow> string \<Rightarrow> string \<Rightarrow> workspace \<Rightarrow> bool \<times> workspace" where
  "ws_send ctx content uuid stamp s =
     (if \<not> truthy_string (ws_chat_id s) then (False, s)
      else
        (let s1 = ws_abort (s\<lparr>ws_error := None\<rparr>);
             s2 = edit_ws_messages (\<lambda>ms. ms @ [plain_message (user_placeholder uuid) ''user'' content stamp,
                    plain_message (assistant_placeholder uuid) ''assistant'' [] stamp]) s1;
             s3 = ws_start_progress s2
         in (True, s3\<lparr>ws_streams := ws_streams s3 @ [\<lparr>placeholder = assistant_placeholder uuid, ws_ended = False, ws_fallback = False\<rparr>],
               ws_sent := ws_sent s3 @ [(the (ws_chat_id s), enrich ctx content)],
               ws_abort_ref := Some (length (ws_streams s3))\<rparr>)))"

text \<open>
  An abort ends the request of a stream, but not the plain request that the client falls back to when the stream
  fails before its first chunk: the callbacks of that one come all the same.  A stream is taken to send nothing after
  its end, or its error.
\<close>

definition running :: "nat \<Rightarrow> workspace \<Rightarrow> bool" where
  "running i s \<longleftrightarrow> i < length (ws_streams s) \<and> i \<notin> set (ws_aborted s) \<and> \<not> ws_ended (ws_streams s ! i)"

definition live :: "nat \<Rightarrow> workspace \<Rightarrow> bool" where
  "live i s \<longleftrightarrow> i < length (ws_streams s) \<and> (i \<notin> set (ws_aborted s) \<or> ws_fallback (ws_streams s ! i)) \<and>
     \<not> ws_ended (ws_streams s ! i)"

definition fall_back :: "nat \<Rightarrow> workspace \<Rightarrow> workspace" where
  "fall_back i s =
     (if running i s then s\<lparr>ws_streams := (ws_streams s)[i := (ws_streams s ! i)\<lparr>ws_fallback := True\<rparr>]\<rparr> else s)"

definition ws_on_token :: "string \<Rightarrow> string \<Rightarrow> workspace \<Rightarrow> workspace" where
  "ws_on_token temp tok =
     edit_ws_messages (map (\<lambda>m. if msg_id m = temp then m\<lparr>msg_content := msg_content m @ tok\<rparr> else m))"

definition usage_from_stream :: "done_data \<Rightarrow> token_usage option \<Rightarrow> token_usage option" where
  "usage_from_stream d u =
     (case (done_token_count d, done_max_tokens d, done_usage_ratio d) of
        (Some c, Some m, Some r) \<Rightarrow> Some \<lparr>current_tokens = c, max_tokens = m, usage_ratio = r\<rparr>
      | _ \<Rightarrow> u)"

definition ws_on_done :: "string \<Rightarrow> done_data \<Rightarrow> workspace \<Rightarrow> workspace" where
  "ws_on_done temp d s =
     (let s1 = edit_ws_messages (map (\<lambda>m. if msg_id m = temp
             then m\<lparr>msg_id := done_message_id d, msg_model := Some (done_model d),
                    created_at := (case done_created_at d of None \<Rightarrow> created_at m | Some t \<Rightarrow> Some t)\<rparr>
             else m)) s
      in (ws_finish_progress (s1\<lparr>ws_usage := usage_from_stream d (ws_usage s1)\<rparr>))\<lparr>ws_abort_ref := None\<rparr>)"

definition ws_on_error :: "string \<Rightarrow> string \<Rightarrow> workspace \<Rightarrow> workspace" where
  "ws_on_error temp msg s =
     (ws_finish_progress ((edit_ws_messages (filter (\<lambda>m. msg_id m \<noteq> temp \<or> msg_content m \<noteq> [])) s)
        \<lparr>ws_error := Some msg\<rparr>))\<lparr>ws_abort_ref := None\<rparr>"

datatype ws_callback = Token string | DoneWith done_data | FailedWith string

definition ws_stream_calls :: "nat \<Rightarrow> ws_callback \<Rightarrow> workspace \<Rightarrow> workspace" where
  "ws_stream_calls i c s =
     (if \<not> live i s then s
      else
        (let temp = placeholder (ws_streams s ! i);
             ended = s\<lparr>ws_streams := (ws_streams s)[i := (ws_streams s ! i)\<lparr>ws_ended := True\<rparr>]\<rparr>
         in case c of
              Token tok \<Rightarrow> ws_on_token temp tok s
            | DoneWith d \<Rightarrow> ws_on_done temp d ended
            | FailedWith msg \<Rightarrow> ws_on_error temp msg ended))"

datatype ws_event =
    PropsChange string "string option"
  | ChatLoaded nat string string "string option + conversation_data"
  | DefaultLoaded nat "string option + string \<times> conversation_data"
  | Tick
  | FinishFires
  | Send sandbox_context string string string
  | StreamCalls nat ws_callback
  | FallsBack nat

fun ws_step :: "ws_event \<Rightarrow> workspace \<Rightarrow> workspace" where
  "ws_step (PropsChange projectId externalChatId) s = snd (change_chat_props projectId externalChatId s)"
| "ws_step (ChatLoaded epoch projectId chatId r) s = chat_loaded epoch projectId chatId r s"
| "ws_step (DefaultLoaded epoch r) s = default_loaded epoch r s"
| "ws_step Tick s = ws_tick s"
| "ws_step FinishFires s = ws_finish_fires s"
| "ws_step (Send ctx content uuid stamp) s = snd (ws_send ctx content uuid stamp s)"
| "ws_step (StreamCalls i c) s = ws_stream_calls i c s"
| "ws_step (FallsBack i) s = fall_back i s"

text \<open>Not the callback of a request that a stream fell back to before it was aborted.\<close>

fun calm :: "workspace \<Rightarrow> ws_event \<Rightarrow> bool" where
  "calm s (StreamCalls i c) = (i \<notin> set (ws_aborted s))"
| "calm s _ = True"

subsection \<open>The summary of the files\<close>

fun tree_files :: "file_node list \<Rightarrow> string list" where
  "tree_files [] = []"
| "tree_files (Directory p None # items) = tree_files items"
| "tree_files (Directory p (Some ch) # items) = tree_files ch @ tree_files items"
| "tree_files (File p # items) = p # tree_files items"

fun tree_dirs :: "file_node list \<Rightarrow> nat" where
  "tree_dirs [] = 0"
| "tree_dirs (Directory p None # items) = Suc (tree_dirs items)"
| "tree_dirs (Directory p (Some ch) # items) = Suc (tree_dirs ch + tree_dirs items)"
| "tree_dirs (File p # items) = tree_dirs items"

lemma walk_exact:
  "walk nodes (f, d, ns) =
     (f + length (tree_files nodes), d + tree_dirs nodes, ns @ take (15 - length ns) (tree_files nodes))"
proof (induction nodes arbitrary: f d ns rule: tree_files.induct)
  case (4 p items)
  show ?case
  proof (cases "length ns < 15")
    case True
    then have "15 - length ns = Suc (14 - length ns)" by simp
    then show ?thesis using True by (simp add: 4)
  qed (simp add: 4)
qed (auto simp: min_def)

lemma summarize_file_tree_exact:
  "summarize_file_tree nodes =
     ''Files: '' @ join '', '' (take 15 (tree_files nodes)) @
     (if 15 < length (tree_files nodes) then '', ... ('' @ show_nat (length (tree_files nodes)) @ '' files total)'' else []) @
     (if 0 < tree_dirs nodes then '' | '' @ show_nat (tree_dirs nodes) @ '' directories'' else [])"
  by (simp add: summarize_file_tree_def walk_exact)

subsection \<open>Streams\<close>

definition ws_inv :: "workspace \<Rightarrow> bool" where
  "ws_inv s \<longleftrightarrow>
     (\<forall>i \<in> set (ws_aborted s). i < length (ws_streams s)) \<and>
     (\<forall>i. ws_abort_ref s = Some i \<longrightarrow> i < length (ws_streams s)) \<and>
     (\<forall>i. running i s \<longrightarrow> ws_abort_ref s = Some i)"

inductive ws_reachable :: "workspace \<Rightarrow> bool" where
  ws_start: "ws_reachable new_workspace"
| ws_next: "ws_reachable s \<Longrightarrow> calm s e \<Longrightarrow> ws_reachable (ws_step e s)"

lemma running_frame [simp]:
  "running i (s\<lparr>ws_conversation := a\<rparr>) = running i s" "running i (s\<lparr>ws_chat_id := c\<rparr>) = running i s"
  "running i (s\<lparr>ws_loading := b\<rparr>) = running i s" "running i (s\<lparr>ws_processing := b\<rparr>) = running i s"
  "running i (s\<lparr>ws_progress := n\<rparr>) = running i s" "running i (s\<lparr>ws_error := e\<rparr>) = running i s"
  "running i (s\<lparr>ws_progress_timer := t\<rparr>) = running i s" "running i (s\<lparr>ws_finish_timers := m\<rparr>) = running i s"
  "running i (s\<lparr>ws_usage := u\<rparr>) = running i s" "running i (s\<lparr>ws_abort_ref := r\<rparr>) = running i s"
  "running i (s\<lparr>ws_epoch := m\<rparr>) = running i s" "running i (s\<lparr>ws_project := p\<rparr>) = running i s"
  "running i (s\<lparr>external_chat := c\<rparr>) = running i s"
  by (simp_all add: running_def)

lemma ws_inv_frame [simp]:
  "ws_inv (s\<lparr>ws_conversation := a\<rparr>) = ws_inv s" "ws_inv (s\<lparr>ws_chat_id := c\<rparr>) = ws_inv s"
  "ws_inv (s\<lparr>ws_loading := b\<rparr>) = ws_inv s" "ws_inv (s\<lparr>ws_processing := b\<rparr>) = ws_inv s"
  "ws_inv (s\<lparr>ws_progress := n\<rparr>) = ws_inv s" "ws_inv (s\<lparr>ws_error := e\<rparr>) = ws_inv s"
  "ws_inv (s\<lparr>ws_progress_timer := t\<rparr>) = ws_inv s" "ws_inv (s\<lparr>ws_finish_timers := m\<rparr>) = ws_inv s"
  "ws_inv (s\<lparr>ws_usage := u\<rparr>) = ws_inv s" "ws_inv (s\<lparr>ws_epoch := m\<rparr>) = ws_inv s"
  "ws_inv (s\<lparr>ws_project := p\<rparr>) = ws_inv s" "ws_inv (s\<lparr>external_chat := c\<rparr>) = ws_inv s"
  by (simp_all add: ws_inv_def)

text \<open>What an abort leaves: nothing running.\<close>

lemma abort_frame [simp]:
  "ws_streams (ws_abort s) = ws_streams s" "ws_conversation (ws_abort s) = ws_conversation s"
  "ws_abort_ref (ws_abort s) = ws_abort_ref s" "ws_processing (ws_abort s) = ws_processing s"
  "ws_finish_timers (ws_abort s) = ws_finish_timers s" "ws_chat_id (ws_abort s) = ws_chat_id s"
  "ws_sent (ws_abort s) = ws_sent s" "ws_epoch (ws_abort s) = ws_epoch s"
  by (simp_all add: ws_abort_def split: option.split)

text \<open>Nothing running.\<close>

definition settled :: "workspace \<Rightarrow> bool" where
  "settled s \<longleftrightarrow> (\<forall>i \<in> set (ws_aborted s). i < length (ws_streams s)) \<and> (\<forall>i. \<not> running i s)"

lemma settled_frame [simp]:
  "settled (s\<lparr>ws_conversation := a\<rparr>) = settled s" "settled (s\<lparr>ws_chat_id := c\<rparr>) = settled s"
  "settled (s\<lparr>ws_loading := b\<rparr>) = settled s" "settled (s\<lparr>ws_processing := b\<rparr>) = settled s"
  "settled (s\<lparr>ws_progress := n\<rparr>) = settled s" "settled (s\<lparr>ws_error := e\<rparr>) = settled s"
  "settled (s\<lparr>ws_progress_timer := t\<rparr>) = settled s" "settled (s\<lparr>ws_finish_timers := m\<rparr>) = settled s"
  "settled (s\<lparr>ws_usage := u\<rparr>) = settled s" "settled (s\<lparr>ws_abort_ref := r\<rparr>) = settled s"
  "settled (s\<lparr>ws_epoch := m\<rparr>) = settled s" "settled (s\<lparr>ws_project := p\<rparr>) = settled s"
  "settled (s\<lparr>external_chat := c\<rparr>) = settled s"
  by (simp_all add: settled_def)

lemma settled_inv: "settled s \<Longrightarrow> ws_abort_ref s = None \<Longrightarrow> ws_inv s"
  by (simp add: settled_def ws_inv_def)

lemma abort_settled:
  assumes "ws_inv s"
  shows "settled (ws_abort s)"
proof -
  have "\<not> running i (ws_abort s)" for i
  proof (cases "ws_abort_ref s")
    case None
    then show ?thesis using assms by (simp add: ws_abort_def ws_inv_def)
  next
    case (Some j)
    then show ?thesis using assms by (cases "i = j") (auto simp: ws_abort_def ws_inv_def running_def)
  qed
  moreover have "\<forall>i \<in> set (ws_aborted (ws_abort s)). i < length (ws_streams s)"
    using assms by (auto simp: ws_abort_def ws_inv_def split: option.split)
  ultimately show ?thesis by (simp add: settled_def)
qed

lemma change_props_settled:
  assumes "ws_inv s" and "p \<noteq> []"
  shows "settled (snd (change_chat_props p e s))" "ws_abort_ref (snd (change_chat_props p e s)) = None"
proof -
  have "settled (ws_abort (s\<lparr>ws_project := p, external_chat := e, ws_epoch := Suc (ws_epoch s)\<rparr>))"
    by (rule abort_settled) (simp add: assms)
  then show "settled (snd (change_chat_props p e s))" "ws_abort_ref (snd (change_chat_props p e s)) = None"
    using assms(2) by (simp_all add: change_chat_props_def Let_def ws_clear_progress_def)
qed

lemma change_props_inv: "ws_inv s \<Longrightarrow> ws_inv (snd (change_chat_props p e s))"
  using settled_inv [OF change_props_settled] by (cases "p = []") (simp_all add: change_chat_props_def)

lemma new_stream_inv:
  assumes "settled s"
  shows "ws_inv (s\<lparr>ws_streams := ws_streams s @ [st], ws_sent := q, ws_abort_ref := Some (length (ws_streams s))\<rparr>)"
proof -
  let ?s = "s\<lparr>ws_streams := ws_streams s @ [st], ws_sent := q, ws_abort_ref := Some (length (ws_streams s))\<rparr>"
  have "i = length (ws_streams s)" if "running i ?s" for i
  proof (rule ccontr)
    assume "i \<noteq> length (ws_streams s)"
    then have "running i s" using that by (auto simp: running_def nth_append less_Suc_eq)
    then show False using assms by (simp add: settled_def)
  qed
  then show ?thesis using assms by (auto simp: ws_inv_def settled_def)
qed

lemma send_inv: "ws_inv s \<Longrightarrow> ws_inv (snd (ws_send ctx content uuid stamp s))"
proof -
  assume "ws_inv s"
  define t where "t = ws_start_progress (edit_ws_messages (\<lambda>ms. ms @
      [plain_message (user_placeholder uuid) ''user'' content stamp,
       plain_message (assistant_placeholder uuid) ''assistant'' [] stamp]) (ws_abort (s\<lparr>ws_error := None\<rparr>)))"
  have "settled (ws_abort (s\<lparr>ws_error := None\<rparr>))" using \<open>ws_inv s\<close> by (intro abort_settled) simp
  then have "settled t" by (simp add: t_def ws_start_progress_def ws_clear_progress_def edit_ws_messages_def)
  then show ?thesis
    using \<open>ws_inv s\<close> by (simp add: ws_send_def Let_def t_def [symmetric] new_stream_inv)
qed

lemma ended_settled:
  assumes "ws_inv s" and "running i s"
  shows "settled (s\<lparr>ws_streams := (ws_streams s)[i := (ws_streams s ! i)\<lparr>ws_ended := True\<rparr>]\<rparr>)"
proof -
  have "j = i" if "running j s" for j using assms that unfolding ws_inv_def by (metis option.inject)
  then have "\<not> running j (s\<lparr>ws_streams := (ws_streams s)[i := (ws_streams s ! i)\<lparr>ws_ended := True\<rparr>]\<rparr>)" for j
    by (cases "j = i") (auto simp: running_def)
  then show ?thesis using assms(1) by (simp add: settled_def ws_inv_def)
qed

lemma stream_calls_inv: "ws_inv s \<Longrightarrow> i \<notin> set (ws_aborted s) \<Longrightarrow> ws_inv (ws_stream_calls i c s)"
proof (cases "running i s")
  case True
  assume inv: "ws_inv s"
  show ?thesis
    using ended_settled [OF inv True] inv True
    by (cases c) (simp_all add: ws_stream_calls_def Let_def ws_on_token_def ws_on_done_def ws_on_error_def
        edit_ws_messages_def ws_finish_progress_def ws_clear_progress_def settled_inv)
next
  case False
  assume "ws_inv s" and "i \<notin> set (ws_aborted s)"
  then show ?thesis using False by (simp add: ws_stream_calls_def live_def running_def)
qed

lemma fall_back_running [simp]: "running j (fall_back i s) = running j s"
  by (cases "j = i") (auto simp: fall_back_def running_def)

lemma fall_back_inv: "ws_inv s \<Longrightarrow> ws_inv (fall_back i s)"
proof -
  have "length (ws_streams (fall_back i s)) = length (ws_streams s)" "ws_aborted (fall_back i s) = ws_aborted s"
    "ws_abort_ref (fall_back i s) = ws_abort_ref s"
    by (simp_all add: fall_back_def)
  then show "ws_inv s \<Longrightarrow> ws_inv (fall_back i s)" by (simp add: ws_inv_def)
qed

lemma ws_step_inv: "ws_inv s \<Longrightarrow> calm s e \<Longrightarrow> ws_inv (ws_step e s)"
proof (cases e)
  case (PropsChange p x)
  assume "ws_inv s"
  then show ?thesis by (simp add: PropsChange change_props_inv)
next
  case (Send ctx content uuid stamp)
  assume "ws_inv s"
  then show ?thesis by (simp add: Send send_inv)
next
  case (StreamCalls i c)
  assume "ws_inv s" and "calm s e"
  then show ?thesis by (simp add: StreamCalls stream_calls_inv)
next
  case (FallsBack i)
  assume "ws_inv s"
  then show ?thesis by (simp add: FallsBack fall_back_inv)
qed (simp_all add: chat_loaded_def default_loaded_def ws_tick_def ws_finish_fires_def Let_def
    split: sum.split option.split prod.split)

lemma reachable_ws_inv: "ws_reachable s \<Longrightarrow> ws_inv s"
  by (induction rule: ws_reachable.induct) (simp_all add: ws_step_inv, simp add: ws_inv_def new_workspace_def running_def)

subsection \<open>Leaving a chat\<close>

text \<open>A stream that touches the hook no more: it is over, or it was aborted without having fallen back.\<close>

definition dead :: "nat \<Rightarrow> workspace \<Rightarrow> bool" where
  "dead i s \<longleftrightarrow> i < length (ws_streams s) \<and>
     (ws_ended (ws_streams s ! i) \<or> (i \<in> set (ws_aborted s) \<and> \<not> ws_fallback (ws_streams s ! i)))"

lemma dead_frame [simp]:
  "dead i (s\<lparr>ws_conversation := a\<rparr>) = dead i s" "dead i (s\<lparr>ws_chat_id := c\<rparr>) = dead i s"
  "dead i (s\<lparr>ws_loading := b\<rparr>) = dead i s" "dead i (s\<lparr>ws_processing := b\<rparr>) = dead i s"
  "dead i (s\<lparr>ws_progress := n\<rparr>) = dead i s" "dead i (s\<lparr>ws_error := e\<rparr>) = dead i s"
  "dead i (s\<lparr>ws_progress_timer := t\<rparr>) = dead i s" "dead i (s\<lparr>ws_finish_timers := m\<rparr>) = dead i s"
  by (simp_all add: dead_def)

lemma dead_not_live: "dead i s \<Longrightarrow> \<not> live i s \<and> \<not> running i s"
  by (auto simp: dead_def live_def running_def)

lemma streams_only:
  assumes "length (ws_streams s) \<le> length (ws_streams s')" and "set (ws_aborted s) \<subseteq> set (ws_aborted s')"
    and "ws_streams s' ! i = ws_streams s ! i" and "dead i s"
  shows "dead i s'"
  using assms by (auto simp: dead_def)

lemma dead_step:
  assumes "dead i s"
  shows "dead i (ws_step e s)"
proof (cases e)
  case (StreamCalls j c)
  show ?thesis
  proof (cases "live j s")
    case True
    then have "j \<noteq> i" using dead_not_live [OF assms] by blast
    then show ?thesis using True assms
      by (cases c) (auto simp: StreamCalls ws_stream_calls_def Let_def dead_def ws_on_token_def ws_on_done_def ws_on_error_def
          edit_ws_messages_def ws_finish_progress_def ws_clear_progress_def)
  qed (use assms in \<open>simp add: StreamCalls ws_stream_calls_def\<close>)
next
  case (FallsBack j)
  show ?thesis
  proof (cases "running j s")
    case True
    then have "j \<noteq> i" using dead_not_live [OF assms] by blast
    then show ?thesis using assms by (auto simp: FallsBack fall_back_def dead_def)
  qed (use assms in \<open>simp add: FallsBack fall_back_def\<close>)
next
  case (Send ctx content uuid stamp)
  have "length (ws_streams s) \<le> length (ws_streams (snd (ws_send ctx content uuid stamp s)))"
    and "set (ws_aborted s) \<subseteq> set (ws_aborted (snd (ws_send ctx content uuid stamp s)))"
    by (auto simp: ws_send_def Let_def ws_start_progress_def ws_clear_progress_def edit_ws_messages_def ws_abort_def
        split: option.split)
  moreover have "ws_streams (snd (ws_send ctx content uuid stamp s)) ! i = ws_streams s ! i"
    using assms by (auto simp: ws_send_def Let_def ws_start_progress_def ws_clear_progress_def edit_ws_messages_def
        nth_append dead_def)
  ultimately show ?thesis unfolding Send ws_step.simps using assms by (rule streams_only)
next
  case (PropsChange p x)
  show ?thesis unfolding PropsChange ws_step.simps
    by (rule streams_only [OF _ _ _ assms])
      (auto simp: change_chat_props_def Let_def ws_clear_progress_def ws_abort_def split: option.split)
qed (use assms in \<open>auto simp: dead_def chat_loaded_def default_loaded_def ws_tick_def ws_finish_fires_def Let_def
    split: sum.split option.split prod.split\<close>)



definition left_with :: "workspace \<Rightarrow> workspace \<Rightarrow> bool" where
  "left_with s s' \<longleftrightarrow> ws_epoch s < ws_epoch s' \<and> (\<forall>i < length (ws_streams s). \<not> running i s') \<and>
     (\<forall>i < length (ws_streams s). \<not> ws_fallback (ws_streams s ! i) \<longrightarrow> dead i s')"





lemma change_leaves:
  assumes "ws_inv s" and "p \<noteq> []"
  shows "left_with s (snd (change_chat_props p x s))" "length (ws_streams (snd (change_chat_props p x s))) = length (ws_streams s)"
proof -
  let ?s = "snd (change_chat_props p x s)"
  have st: "ws_streams ?s = ws_streams s" "ws_epoch ?s = Suc (ws_epoch s)" "set (ws_aborted s) \<subseteq> set (ws_aborted ?s)"
    by (auto simp: change_chat_props_def Let_def ws_clear_progress_def ws_abort_def split: option.split)
  have stop: "\<not> running i ?s" for i using change_props_settled(1) [OF assms(1,2)] by (simp add: settled_def)
  have "dead i ?s" if "i < length (ws_streams s)" "\<not> ws_fallback (ws_streams s ! i)" for i
    using stop [of i] that st(1) by (auto simp: dead_def running_def)
  then show "left_with s ?s" "length (ws_streams ?s) = length (ws_streams s)"
    using stop st by (simp_all add: left_with_def)
qed



definition stuck :: "workspace \<Rightarrow> bool" where
  "stuck s \<longleftrightarrow> ws_inv s \<and> (\<forall>i < length (ws_streams s). dead i s) \<and> ws_processing s \<and> ws_finish_timers s = 0 \<and>
     ws_progress_timer s = None"

fun is_send :: "ws_event \<Rightarrow> bool" where
  "is_send (Send _ _ _ _) = True"
| "is_send _ = False"

lemma stuck_step:
  assumes "stuck s" and "\<not> is_send e"
  shows "stuck (ws_step e s)"
proof -
  have still: "\<not> live i s" "\<not> running i s" for i
    using assms(1) dead_not_live by (auto simp: stuck_def live_def running_def)
  have dead: "\<forall>i < length (ws_streams s). dead i (ws_step e s)" using assms(1) dead_step by (simp add: stuck_def)
  show ?thesis
  proof (cases e)
    case (PropsChange p x)
    have inv: "ws_inv s" and rest: "ws_processing s" "ws_finish_timers s = 0" "ws_progress_timer s = None"
      using assms(1) by (simp_all add: stuck_def)
    have "ws_processing (snd (change_chat_props p x s)) \<and> ws_finish_timers (snd (change_chat_props p x s)) = 0 \<and>
        ws_progress_timer (snd (change_chat_props p x s)) = None \<and>
        ws_streams (snd (change_chat_props p x s)) = ws_streams s"
      using rest by (simp add: change_chat_props_def Let_def ws_clear_progress_def)
    then show ?thesis using change_props_inv [OF inv] dead by (simp add: PropsChange stuck_def)
  next
    case (StreamCalls i c)
    then show ?thesis using assms(1) still by (simp add: ws_stream_calls_def)
  next
    case (FallsBack i)
    then show ?thesis using assms(1) still by (simp add: fall_back_def)
  qed (use assms dead in \<open>simp_all add: stuck_def chat_loaded_def default_loaded_def ws_tick_def ws_finish_fires_def
      split: sum.splits prod.splits\<close>)
qed

text \<open>Switching the chat while a reply is streaming leaves the hook processing for good: the stream is
  aborted and the progress timer cleared, but nothing lowers the flag, and whatever happens afterwards,
  short of sending a message in the new chat, it stays raised with no timer left to change it.  (No stream has
  fallen back to the plain request.)\<close>
theorem switch_mid_stream_sticks:
  assumes "ws_reachable s" and "ws_processing s" and "ws_finish_timers s = 0" and "projectId \<noteq> []"
    and "\<And>st. st \<in> set (ws_streams s) \<Longrightarrow> \<not> ws_fallback st" and "\<And>e. e \<in> set es \<Longrightarrow> \<not> is_send e"
  shows "let s' = fold ws_step es (ws_step (PropsChange projectId externalChatId) s)
    in ws_processing s' \<and> ws_progress_timer s' = None \<and> ws_finish_timers s' = 0"
proof -
  let ?s = "snd (change_chat_props projectId externalChatId s)"
  have inv: "ws_inv s" by (rule reachable_ws_inv [OF assms(1)])
  have left: "left_with s ?s" "length (ws_streams ?s) = length (ws_streams s)"
    by (rule change_leaves [OF inv assms(4)])+
  then have "\<forall>i < length (ws_streams ?s). dead i ?s" using assms(5) by (simp add: left_with_def)
  then have "stuck ?s"
    using change_props_inv [OF inv] assms(2-4)
    by (simp add: stuck_def) (simp add: change_chat_props_def Let_def ws_clear_progress_def)
  moreover have "stuck (fold ws_step es t)" if "stuck t" "\<And>e. e \<in> set es \<Longrightarrow> \<not> is_send e" for t
    using that by (induction es arbitrary: t) (simp_all add: stuck_step)
  ultimately have "stuck (fold ws_step es ?s)" using assms(6) by blast
  then show ?thesis by (simp add: stuck_def Let_def)
qed

subsection \<open>A reply\<close>

text \<open>What may happen while the reply of a stream comes in: its tokens, and the timers of the progress bar.\<close>

fun reply_event :: "nat \<Rightarrow> ws_event \<Rightarrow> bool" where
  "reply_event i Tick = True"
| "reply_event i FinishFires = True"
| "reply_event i (StreamCalls j (Token t)) = (j = i)"
| "reply_event i _ = False"

fun token_text :: "ws_event \<Rightarrow> string" where
  "token_text (StreamCalls j (Token t)) = t"
| "token_text _ = []"

definition streaming :: "nat \<Rightarrow> string \<Rightarrow> message list \<Rightarrow> message \<Rightarrow> workspace \<Rightarrow> bool" where
  "streaming i temp ms m s \<longleftrightarrow>
     live i s \<and> placeholder (ws_streams s ! i) = temp \<and> msg_id m = temp \<and> temp \<notin> msg_id ` set ms \<and>
     (\<exists>c. ws_conversation s = Some c \<and> messages c = ms @ [m])"

lemma map_on_placeholder:
  "temp \<notin> msg_id ` set ms \<Longrightarrow> map (\<lambda>x. if msg_id x = temp then f x else x) ms = ms"
  by (induction ms) auto

lemma streaming_step:
  assumes "streaming i temp ms m s" and "reply_event i e"
  shows "streaming i temp ms (m\<lparr>msg_content := msg_content m @ token_text e\<rparr>) (ws_step e s)"
proof (cases e)
  case (StreamCalls j c)
  then obtain t where c: "c = Token t" "j = i" using assms(2) by (cases c) auto
  have "live i s" "placeholder (ws_streams s ! i) = temp" using assms(1) by (simp_all add: streaming_def)
  then have "ws_step e s = ws_on_token temp t s" by (simp add: StreamCalls c ws_stream_calls_def)
  then show ?thesis
    using assms(1) by (auto simp: StreamCalls c ws_on_token_def edit_ws_messages_def streaming_def live_def
        map_on_placeholder)
qed (use assms in \<open>auto simp: streaming_def ws_tick_def ws_finish_fires_def live_def Let_def split: option.split\<close>)

lemma streaming_run:
  assumes "streaming i temp ms m s" and "\<And>e. e \<in> set es \<Longrightarrow> reply_event i e"
  shows "streaming i temp ms (m\<lparr>msg_content := msg_content m @ concat (map token_text es)\<rparr>) (fold ws_step es s)"
  using assms
proof (induction es arbitrary: m s)
  case (Cons e es)
  have "streaming i temp ms (m\<lparr>msg_content := msg_content m @ token_text e\<rparr>) (ws_step e s)"
    using Cons.prems by (intro streaming_step) auto
  from Cons.IH [OF this] show ?case using Cons.prems(2) by simp
qed simp

lemma finished_message:
  assumes "streaming i temp ms m s"
  shows "\<exists>c. ws_conversation (ws_step (StreamCalls i (DoneWith d)) s) = Some c \<and>
    messages c = ms @ [m\<lparr>msg_id := done_message_id d, msg_model := Some (done_model d),
      created_at := (case done_created_at d of None \<Rightarrow> created_at m | Some t \<Rightarrow> Some t)\<rparr>]"
  using assms
  by (auto simp: streaming_def ws_stream_calls_def ws_on_done_def edit_ws_messages_def ws_finish_progress_def
      ws_clear_progress_def Let_def map_on_placeholder)

text \<open>A message that is sent in a workspace goes to the server behind the context of the sandbox, and
  is shown without it; when its reply has come, in any number of tokens, with the timers of this and of
  earlier messages firing in between, the conversation is the old one, then the message as it was typed,
  then the reply with exactly the tokens in their order, under the id that the server gave it.\<close>
theorem workspace_reply_complete:
  assumes "ws_reachable s" and "ws_chat_id s = Some chatId" and "chatId \<noteq> []" and "ws_conversation s = Some conv"
    and "user_placeholder uuid \<notin> msg_id ` set (messages conv)"
    and "assistant_placeholder uuid \<notin> msg_id ` set (messages conv)"
    and "\<And>e. e \<in> set es \<Longrightarrow> reply_event (length (ws_streams s)) e"
  shows "ws_sent (ws_step (Send ctx content uuid stamp) s) = ws_sent s @ [(chatId, enrich ctx content)] \<and>
    (\<exists>c. ws_conversation (ws_step (StreamCalls (length (ws_streams s)) (DoneWith d))
        (fold ws_step es (ws_step (Send ctx content uuid stamp) s))) = Some c \<and>
      messages c = messages conv @
        [plain_message (user_placeholder uuid) ''user'' content stamp,
         (plain_message (done_message_id d) ''assistant'' (concat (map token_text es)) stamp)
           \<lparr>msg_model := Some (done_model d),
            created_at := (case done_created_at d of None \<Rightarrow> Some stamp | Some t \<Rightarrow> Some t)\<rparr>])"
proof -
  let ?i = "length (ws_streams s)" and ?temp = "assistant_placeholder uuid"
  let ?user = "plain_message (user_placeholder uuid) ''user'' content stamp"
  let ?m = "plain_message ?temp ''assistant'' [] stamp"
  let ?s = "ws_step (Send ctx content uuid stamp) s"
  have "settled (ws_abort (s\<lparr>ws_error := None\<rparr>))"
    using reachable_ws_inv [OF assms(1)] by (intro abort_settled) simp
  then have "?i \<notin> set (ws_aborted (ws_abort (s\<lparr>ws_error := None\<rparr>)))" by (fastforce simp: settled_def)
  moreover have "user_placeholder uuid \<noteq> ?temp" by (simp add: user_placeholder_def assistant_placeholder_def)
  ultimately have "streaming ?i ?temp (messages conv @ [?user]) ?m ?s"
    using assms(2-6)
    by (auto simp: streaming_def ws_send_def Let_def live_def truthy_string_def plain_message_def
        ws_start_progress_def ws_clear_progress_def edit_ws_messages_def)
  from finished_message [OF streaming_run [OF this assms(7)], where d = d] obtain c where
    c: "ws_conversation (ws_step (StreamCalls ?i (DoneWith d)) (fold ws_step es ?s)) = Some c"
      "messages c = (messages conv @ [?user]) @ [?m\<lparr>msg_content := msg_content ?m @ concat (map token_text es),
        msg_id := done_message_id d, msg_model := Some (done_model d),
        created_at := (case done_created_at d of None \<Rightarrow> created_at (?m\<lparr>msg_content := msg_content ?m @
          concat (map token_text es)\<rparr>) | Some t \<Rightarrow> Some t)\<rparr>]"
    by blast
  have sent: "ws_sent ?s = ws_sent s @ [(chatId, enrich ctx content)]"
    using assms(2,3)
    by (simp add: ws_send_def Let_def truthy_string_def ws_start_progress_def ws_clear_progress_def edit_ws_messages_def)
  show ?thesis
    by (intro conjI exI [of _ c], rule sent, rule c(1)) (simp add: c(2) plain_message_def split: option.split)
qed

subsection \<open>Examples\<close>

definition sample_uuid :: string where
  "sample_uuid = ''0f8fad5b-d9cb-469f-a165-70867728950E''"

lemma sample_uuid_ok: "is_uuid sample_uuid"
  by code_simp

lemma not_a_uuid: "\<not> is_uuid ''0f8fad5b-d9cb-469f-a165-70867728950''"
  by code_simp

definition empty_conv :: conversation_data where
  "empty_conv = \<lparr>conv_chat_id = ''c1'', conv_project_id = ''p1'', conv_title = [], messages = [],
     compactions = [], current_token_count = 0\<rparr>"

definition open_workspace :: workspace where
  "open_workspace = ws_step (DefaultLoaded 1 (Inr (''c1'', empty_conv))) (ws_step (PropsChange ''p1'' None) new_workspace)"

lemma open_workspace_reachable: "ws_reachable open_workspace"
  unfolding open_workspace_def by (intro ws_next ws_start) simp_all

lemma open_workspace_simps:
  "ws_chat_id open_workspace = Some ''c1''" "ws_conversation open_workspace = Some empty_conv"
  "ws_streams open_workspace = []" "ws_finish_timers open_workspace = 0"
  by (simp_all add: open_workspace_def change_chat_props_def new_workspace_def ws_clear_progress_def ws_abort_def
      default_loaded_def Let_def truthy_string_def)

definition plain_context :: sandbox_context where
  "plain_context = \<lparr>selected_file = Some ''a.ts'', file_tree = Some [Directory ''src'' (Some [File ''src/a.ts''])],
     terminal_history = [''ls'']\<rparr>"

definition sample_end :: done_data where
  "sample_end = \<lparr>done_message_id = ''m1'', done_model = ''llama'', done_created_at = None, done_token_count = None,
     done_max_tokens = None, done_usage_ratio = None, done_chat_title = None\<rparr>"

lemma workspace_reply_complete_witness:
  "\<exists>c. ws_conversation (ws_step (StreamCalls 0 (DoneWith sample_end))
      (fold ws_step [StreamCalls 0 (Token ''Hel''), Tick, StreamCalls 0 (Token ''lo'')]
        (ws_step (Send plain_context ''Hi'' ''1'' ''t'') open_workspace))) = Some c \<and>
    map msg_content (messages c) = [''Hi'', ''Hello'']"
proof -
  let ?es = "[StreamCalls 0 (Token ''Hel''), Tick, StreamCalls 0 (Token ''lo'')]"
  have events: "reply_event (length (ws_streams open_workspace)) e" if "e \<in> set ?es" for e
    using that by (auto simp: open_workspace_simps)
  have fresh: "user_placeholder ''1'' \<notin> msg_id ` set (messages empty_conv)"
    "assistant_placeholder ''1'' \<notin> msg_id ` set (messages empty_conv)" by (simp_all add: empty_conv_def)
  obtain c where "ws_conversation (ws_step (StreamCalls (length (ws_streams open_workspace)) (DoneWith sample_end))
        (fold ws_step ?es (ws_step (Send plain_context ''Hi'' ''1'' ''t'') open_workspace))) = Some c"
    and "messages c = messages empty_conv @ [plain_message (user_placeholder ''1'') ''user'' ''Hi'' ''t'',
      (plain_message (done_message_id sample_end) ''assistant'' (concat (map token_text ?es)) ''t'')
        \<lparr>msg_model := Some (done_model sample_end),
         created_at := (case done_created_at sample_end of None \<Rightarrow> Some ''t'' | Some t \<Rightarrow> Some t)\<rparr>]"
    using workspace_reply_complete [OF open_workspace_reachable open_workspace_simps(1) _ open_workspace_simps(2)
        fresh events, where d = sample_end and content = "''Hi''" and stamp = "''t''" and ctx = plain_context]
    by blast
  then show ?thesis
    by (intro exI [of _ c]) (simp only: open_workspace_simps list.size, simp add: empty_conv_def plain_message_def)
qed

lemma switch_mid_stream_sticks_witness:
  "let s' = fold ws_step [Tick, FinishFires]
      (ws_step (PropsChange ''p2'' None) (ws_step (Send plain_context ''Hi'' ''1'' ''t'') open_workspace))
   in ws_processing s' \<and> ws_progress_timer s' = None \<and> ws_finish_timers s' = 0"
proof (rule switch_mid_stream_sticks)
  show "ws_reachable (ws_step (Send plain_context ''Hi'' ''1'' ''t'') open_workspace)"
    by (intro ws_next open_workspace_reachable) simp
qed (auto simp: ws_send_def open_workspace_simps truthy_string_def Let_def ws_start_progress_def
    ws_clear_progress_def edit_ws_messages_def)

text \<open>The answer to the plain request of a chat that was left, when a message is being answered in the next one: the
  progress goes to its end, and the stream that runs can no longer be aborted.\<close>

lemma late_fallback_forgets_stream:
  "let s = fold ws_step [Send plain_context ''Hi'' ''1'' ''t'', FallsBack 0, PropsChange ''p2'' None,
       DefaultLoaded 2 (Inr (''c2'', empty_conv\<lparr>conv_chat_id := ''c2''\<rparr>)), Send plain_context ''Ho'' ''2'' ''t'',
       StreamCalls 0 (DoneWith sample_end)] open_workspace
   in running 1 s \<and> ws_abort_ref s = None \<and> ws_progress s = 100 \<and> ws_progress_timer s = None"
  by (simp add: open_workspace_def change_chat_props_def new_workspace_def ws_clear_progress_def ws_abort_def
      default_loaded_def ws_send_def ws_start_progress_def edit_ws_messages_def fall_back_def running_def live_def
      ws_stream_calls_def ws_on_done_def ws_finish_progress_def truthy_string_def empty_conv_def sample_end_def Let_def)

lemma sample_context_sent:
  "enrich plain_context ''Hi'' =
     ''[Current file: a.ts]'' @ [newline] @ ''[Project files: Files: src/a.ts | 1 directories]'' @ [newline] @
     ''[Recent terminal commands: ls]'' @ [newline, newline] @ ''Hi''"
  by code_simp

end
