(* ===== verification/Model_Switcher.thy ===== *)
theory Model_Switcher
  imports Hook_Monad Api_Context
begin

section \<open>Switching models\<close>

text \<open>
  \<open>useModelSwitcher\<close> of \<^verbatim>\<open>packages/api/hooks/use-model-switcher.ts\<close>: the lists of models, the active
  one with its copy in the browser's storage, the actions on a model, and the pulls, each a promise
  that its caller awaits.  An event is a call of the page, the answer to a request in flight, or a
  callback of a pull; pulls are numbered in the order they are started.
\<close>

subsection \<open>State\<close>

datatype model_action = LoadModel | UnloadModel | DeleteModel

text \<open>A request in flight; a refresh that belongs to an action lowers its flag when it is over.\<close>

datatype model_call = ActionCall model_action string | RefreshCall bool

record pull =
  pull_name :: string
  pull_result :: "bool option"
  pull_over :: bool

record switcher =
  local_models :: "json option"
  running_models :: "json option"
  remote_models :: "json option"
  active_model :: "string option"
  stored_model :: "string option"
  announced_models :: "string list"
  models_loading :: bool
  action_loading :: "string option"
  pull_progress :: "(string \<times> real \<times> json option) option"
  models_error :: "string option"
  pull_abort :: "nat option"
  pull_resolver :: "nat option"
  pulls :: "pull list"
  model_calls :: "model_call list"
  action_results :: "(model_action \<times> string \<times> bool) list"

text \<open>The initial state, with what the storage holds.\<close>

definition new_switcher :: "string option \<Rightarrow> switcher" where
  "new_switcher stored =
     \<lparr>local_models = Some (JArr []), running_models = Some (JArr []), remote_models = Some (JArr []),
      active_model = stored, stored_model = stored, announced_models = [], models_loading = False,
      action_loading = None, pull_progress = None, models_error = None, pull_abort = None, pull_resolver = None,
      pulls = [], model_calls = [], action_results = []\<rparr>"

subsection \<open>The lists and the active model\<close>

definition begin_models_refresh :: "bool \<Rightarrow> switcher \<Rightarrow> switcher" where
  "begin_models_refresh of_action s =
     s\<lparr>models_loading := True, models_error := None, model_calls := model_calls s @ [RefreshCall of_action]\<rparr>"

definition models_refreshed ::
  "(thrown \<Rightarrow> string \<Rightarrow> string) \<Rightarrow> bool \<Rightarrow> js_error + json option \<Rightarrow> switcher \<Rightarrow> switcher" where
  "models_refreshed error_text of_action r s =
     (let failed = (\<lambda>e. s\<lparr>models_error := Some (error_text e ''Failed to fetch models''), models_loading := False\<rparr>);
          s1 = (case r of
             Inl e \<Rightarrow> failed (Thrown e)
           | Inr None \<Rightarrow> failed NoObject
           | Inr (Some v) \<Rightarrow>
               if v = JNull then failed NoObject
               else s\<lparr>local_models := member v ''local'', running_models := member v ''running'',
                      remote_models := member v ''remote'', models_loading := False\<rparr>)
      in if of_action then s1\<lparr>action_loading := None\<rparr> else s1)"

text \<open>\<open>storable\<close>: whether the storage takes the value.\<close>

definition set_active_model :: "bool \<Rightarrow> string \<Rightarrow> switcher \<Rightarrow> switcher" where
  "set_active_model storable nm s =
     s\<lparr>active_model := Some nm, stored_model := (if storable then Some nm else stored_model s),
       announced_models := announced_models s @ [nm]\<rparr>"

subsection \<open>Actions\<close>

definition start_action :: "model_action \<Rightarrow> string \<Rightarrow> switcher \<Rightarrow> switcher" where
  "start_action a nm s =
     s\<lparr>action_loading := Some nm, models_error := None, model_calls := model_calls s @ [ActionCall a nm]\<rparr>"

fun action_fallback :: "model_action \<Rightarrow> string" where
  "action_fallback LoadModel = ''Failed to load model''"
| "action_fallback UnloadModel = ''Failed to unload model''"
| "action_fallback DeleteModel = ''Failed to delete model''"

definition action_answered ::
  "(thrown \<Rightarrow> string \<Rightarrow> string) \<Rightarrow> model_action \<Rightarrow> string \<Rightarrow> js_error + json option \<Rightarrow> switcher \<Rightarrow> switcher" where
  "action_answered error_text a nm r s =
     (case r of
        Inl e \<Rightarrow> s\<lparr>models_error := Some (error_text (Thrown e) (action_fallback a)), action_loading := None,
                   action_results := action_results s @ [(a, nm, False)]\<rparr>
      | Inr _ \<Rightarrow>
          (let s1 = (if a = DeleteModel \<and> active_model s = Some nm
                then s\<lparr>active_model := None, stored_model := None\<rparr> else s)
           in (begin_models_refresh True s1)\<lparr>action_results := action_results s @ [(a, nm, True)]\<rparr>))"

subsection \<open>Pulls\<close>

definition resolve_pull :: "bool \<Rightarrow> switcher \<Rightarrow> switcher" where
  "resolve_pull ok s =
     (case pull_resolver s of
        None \<Rightarrow> s
      | Some i \<Rightarrow> s\<lparr>pulls := (pulls s)[i := (pulls s ! i)
            \<lparr>pull_result := (case pull_result (pulls s ! i) of None \<Rightarrow> Some ok | Some b \<Rightarrow> Some b)\<rparr>]\<rparr>)"

definition abort_pull :: "switcher \<Rightarrow> switcher" where
  "abort_pull s =
     (case pull_abort s of
        None \<Rightarrow> s
      | Some i \<Rightarrow> s\<lparr>pulls := (pulls s)[i := (pulls s ! i)\<lparr>pull_over := True\<rparr>]\<rparr>)"

definition start_pull :: "string \<Rightarrow> switcher \<Rightarrow> switcher" where
  "start_pull nm s =
     (let s1 = resolve_pull False (abort_pull s); i = length (pulls s1)
      in s1\<lparr>pulls := pulls s1 @ [\<lparr>pull_name = nm, pull_result = None, pull_over = False\<rparr>],
            pull_resolver := Some i, models_error := None, pull_progress := Some (nm, 0, Some (JStr ''starting'')),
            pull_abort := Some i\<rparr>)"

definition finish_pull :: "bool \<Rightarrow> switcher \<Rightarrow> switcher" where
  "finish_pull ok s = (resolve_pull ok s)\<lparr>pull_resolver := None\<rparr>"

definition unmount_switcher :: "switcher \<Rightarrow> switcher" where
  "unmount_switcher s = finish_pull False (abort_pull s)"

text \<open>The callbacks of a pull; a 401 ends one without a callback.\<close>

datatype pull_call = PullProgresses json | PullSucceeds | PullFails string | PullSilent

definition percent_of :: "json \<Rightarrow> real" where
  "percent_of v = (case member v ''percent'' of Some (JNum x) \<Rightarrow> x | _ \<Rightarrow> 0)"

definition pull_calls :: "nat \<Rightarrow> pull_call \<Rightarrow> switcher \<Rightarrow> switcher" where
  "pull_calls i c s =
     (if \<not> (i < length (pulls s) \<and> \<not> pull_over (pulls s ! i)) then s
      else
        (let ended = s\<lparr>pulls := (pulls s)[i := (pulls s ! i)\<lparr>pull_over := True\<rparr>]\<rparr>
         in case c of
              PullProgresses v \<Rightarrow>
                s\<lparr>pull_progress := Some (pull_name (pulls s ! i), percent_of v, member v ''status'')\<rparr>
            | PullSucceeds \<Rightarrow>
                begin_models_refresh False ((finish_pull True ended)\<lparr>pull_progress := None, pull_abort := None\<rparr>)
            | PullFails msg \<Rightarrow>
                (finish_pull False ended)\<lparr>pull_progress := None, models_error := Some msg, pull_abort := None\<rparr>
            | PullSilent \<Rightarrow> ended))"

subsection \<open>What is asked of the lists\<close>

definition named :: "string \<Rightarrow> json \<Rightarrow> bool" where
  "named nm v \<longleftrightarrow> member v ''name'' = Some (JStr nm)"

definition is_model_running :: "string \<Rightarrow> switcher \<Rightarrow> bool" where
  "is_model_running nm s = list_ex (named nm) (elements (running_models s))"

definition get_model_vram_mb :: "string \<Rightarrow> switcher \<Rightarrow> int option" where
  "get_model_vram_mb nm s =
     (case find (named nm) (elements (running_models s)) of
        None \<Rightarrow> None
      | Some m \<Rightarrow>
          (case member m ''size_vram'' of
             Some (JNum x) \<Rightarrow> if x = 0 then None else Some \<lfloor>x / (1024 * 1024) + 1 / 2\<rfloor>
           | _ \<Rightarrow> None))"

subsection \<open>Steps\<close>

datatype model_event = RefreshModels | SetActive bool string | StartAction model_action string
  | ModelAnswered model_call "js_error + json option" | StartPull string | PullCalls nat pull_call

fun model_step :: "(thrown \<Rightarrow> string \<Rightarrow> string) \<Rightarrow> model_event \<Rightarrow> switcher \<Rightarrow> switcher" where
  "model_step error_text RefreshModels s = begin_models_refresh False s"
| "model_step error_text (SetActive storable nm) s = set_active_model storable nm s"
| "model_step error_text (StartAction a nm) s = start_action a nm s"
| "model_step error_text (ModelAnswered c r) s =
     (if c \<notin> set (model_calls s) then s
      else
        (let s1 = s\<lparr>model_calls := remove1 c (model_calls s)\<rparr>
         in case c of
              ActionCall a nm \<Rightarrow> action_answered error_text a nm r s1
            | RefreshCall of_action \<Rightarrow> models_refreshed error_text of_action r s1))"
| "model_step error_text (StartPull nm) s = start_pull nm s"
| "model_step error_text (PullCalls i c) s = pull_calls i c s"

inductive models_reachable :: "(thrown \<Rightarrow> string \<Rightarrow> string) \<Rightarrow> switcher \<Rightarrow> bool" for error_text where
  models_start: "models_reachable error_text (new_switcher stored)"
| models_step: "models_reachable error_text s \<Longrightarrow> models_reachable error_text (model_step error_text e s)"

subsection \<open>Promises\<close>

text \<open>
  A pull that is under way is the one that the hook can abort and whose promise it can resolve, and
  every other promise is resolved.
\<close>

definition settled_pull :: "pull \<Rightarrow> bool" where
  "settled_pull p \<longleftrightarrow> pull_over p \<and> pull_result p \<noteq> None"

definition pulls_inv :: "switcher \<Rightarrow> bool" where
  "pulls_inv s \<longleftrightarrow>
     (\<forall>i. pull_resolver s = Some i \<longrightarrow>
        Suc i = length (pulls s) \<and> pull_abort s = Some i \<and> pull_result (pulls s ! i) = None) \<and>
     (\<forall>i. pull_abort s = Some i \<longrightarrow> i < length (pulls s)) \<and>
     (\<forall>i < length (pulls s). pull_resolver s \<noteq> Some i \<longrightarrow> settled_pull (pulls s ! i))"

lemma pulls_inv_frame [simp]:
  "pulls_inv (s\<lparr>local_models := a\<rparr>) = pulls_inv s" "pulls_inv (s\<lparr>running_models := a\<rparr>) = pulls_inv s"
  "pulls_inv (s\<lparr>remote_models := a\<rparr>) = pulls_inv s" "pulls_inv (s\<lparr>active_model := m\<rparr>) = pulls_inv s"
  "pulls_inv (s\<lparr>stored_model := m\<rparr>) = pulls_inv s" "pulls_inv (s\<lparr>announced_models := ms\<rparr>) = pulls_inv s"
  "pulls_inv (s\<lparr>models_loading := b\<rparr>) = pulls_inv s" "pulls_inv (s\<lparr>action_loading := m\<rparr>) = pulls_inv s"
  "pulls_inv (s\<lparr>pull_progress := p\<rparr>) = pulls_inv s" "pulls_inv (s\<lparr>models_error := m\<rparr>) = pulls_inv s"
  "pulls_inv (s\<lparr>model_calls := cs\<rparr>) = pulls_inv s" "pulls_inv (s\<lparr>action_results := rs\<rparr>) = pulls_inv s"
  by (simp_all add: pulls_inv_def)

lemma pulls_inv_abort_frame [simp]:
  "pulls_inv (s\<lparr>pull_progress := p, pull_abort := a\<rparr>) = pulls_inv (s\<lparr>pull_abort := a\<rparr>)"
  "pulls_inv (s\<lparr>pull_progress := p, models_error := m, pull_abort := a\<rparr>) = pulls_inv (s\<lparr>pull_abort := a\<rparr>)"
  by (simp_all add: pulls_inv_def)

lemma live_pull:
  assumes "pulls_inv s" and "i < length (pulls s)" and "\<not> pull_over (pulls s ! i)"
  shows "pull_resolver s = Some i"
  using assms by (auto simp: pulls_inv_def settled_pull_def)

lemma over_again: "pull_over p \<Longrightarrow> p\<lparr>pull_over := True\<rparr> = p"
  by (cases p) simp

text \<open>What the hook does to the pulls when it lets go of the one it holds.\<close>

definition let_go :: "bool \<Rightarrow> switcher \<Rightarrow> pull list" where
  "let_go ok s = (case pull_resolver s of None \<Rightarrow> pulls s
     | Some k \<Rightarrow> (pulls s)[k := (pulls s ! k)\<lparr>pull_over := True, pull_result := Some ok\<rparr>])"

lemma finish_abort_pulls:
  assumes "pulls_inv s"
  shows "pulls (finish_pull ok (abort_pull s)) = let_go ok s"
proof (cases "pull_resolver s")
  case None
  have "pulls (abort_pull s) = pulls s"
  proof (cases "pull_abort s")
    case (Some i)
    then have "pull_over (pulls s ! i)" using assms None by (simp add: pulls_inv_def settled_pull_def)
    then show ?thesis using Some by (simp add: abort_pull_def over_again)
  qed (simp add: abort_pull_def)
  moreover have "pull_resolver (abort_pull s) = None" using None by (simp add: abort_pull_def split: option.split)
  ultimately show ?thesis using None by (simp add: finish_pull_def resolve_pull_def let_go_def)
next
  case (Some k)
  then have "k < length (pulls s)" "pull_abort s = Some k" "pull_result (pulls s ! k) = None"
    using assms by (simp_all add: pulls_inv_def)
  then show ?thesis using Some by (simp add: abort_pull_def finish_pull_def resolve_pull_def let_go_def)
qed

lemma let_go_settles:
  assumes "pulls_inv s"
  shows "length (let_go ok s) = length (pulls s)" "\<forall>j < length (pulls s). settled_pull (let_go ok s ! j)"
proof -
  show "length (let_go ok s) = length (pulls s)" by (simp add: let_go_def split: option.split)
  show "\<forall>j < length (pulls s). settled_pull (let_go ok s ! j)"
  proof (cases "pull_resolver s")
    case None
    then show ?thesis using assms by (simp add: let_go_def pulls_inv_def)
  next
    case (Some k)
    then show ?thesis using assms by (simp add: let_go_def pulls_inv_def nth_list_update settled_pull_def)
  qed
qed

lemma start_pull_pulls:
  assumes "pulls_inv s"
  shows "pulls (start_pull nm s) = let_go False s @ [\<lparr>pull_name = nm, pull_result = None, pull_over = False\<rparr>]"
    "pull_resolver (start_pull nm s) = Some (length (pulls s))" "pull_abort (start_pull nm s) = Some (length (pulls s))"
proof -
  have p: "pulls (resolve_pull False (abort_pull s)) = let_go False s"
    using finish_abort_pulls [OF assms, of False] by (simp add: finish_pull_def)
  then have "length (pulls (resolve_pull False (abort_pull s))) = length (pulls s)"
    using let_go_settles(1) [OF assms] by simp
  then show "pulls (start_pull nm s) = let_go False s @ [\<lparr>pull_name = nm, pull_result = None, pull_over = False\<rparr>]"
    "pull_resolver (start_pull nm s) = Some (length (pulls s))" "pull_abort (start_pull nm s) = Some (length (pulls s))"
    using p by (simp_all add: start_pull_def Let_def)
qed

lemma start_pull_inv: "pulls_inv s \<Longrightarrow> pulls_inv (start_pull nm s)"
  using let_go_settles [of s False] start_pull_pulls [of s nm]
  by (simp add: pulls_inv_def nth_append less_Suc_eq)

lemma finish_live_pull:
  assumes "pulls_inv s" and "i < length (pulls s)" and "\<not> pull_over (pulls s ! i)"
  shows "pulls (finish_pull ok (s\<lparr>pulls := (pulls s)[i := (pulls s ! i)\<lparr>pull_over := True\<rparr>]\<rparr>)) = let_go ok s"
    "pull_resolver (finish_pull ok (s\<lparr>pulls := (pulls s)[i := (pulls s ! i)\<lparr>pull_over := True\<rparr>]\<rparr>)) = None"
  using live_pull [OF assms] assms by (simp_all add: finish_pull_def resolve_pull_def let_go_def pulls_inv_def)

lemma ended_pull_inv:
  assumes "pulls_inv s" and "i < length (pulls s)" and "\<not> pull_over (pulls s ! i)"
  shows "pulls_inv ((finish_pull ok (s\<lparr>pulls := (pulls s)[i := (pulls s ! i)\<lparr>pull_over := True\<rparr>]\<rparr>))\<lparr>pull_abort := None\<rparr>)"
  using finish_live_pull [OF assms, of ok] let_go_settles [OF assms(1), of ok]
  by (simp add: pulls_inv_def)

lemma silent_pull_inv:
  assumes "pulls_inv s" and "i < length (pulls s)" and "\<not> pull_over (pulls s ! i)"
  shows "pulls_inv (s\<lparr>pulls := (pulls s)[i := (pulls s ! i)\<lparr>pull_over := True\<rparr>]\<rparr>)"
  using live_pull [OF assms] assms by (simp add: pulls_inv_def nth_list_update)

lemma pull_calls_inv: "pulls_inv s \<Longrightarrow> pulls_inv (pull_calls i c s)"
proof (cases "i < length (pulls s) \<and> \<not> pull_over (pulls s ! i)")
  case True
  assume inv: "pulls_inv s"
  show ?thesis
    using True inv ended_pull_inv [OF inv, of i True] ended_pull_inv [OF inv, of i False] silent_pull_inv [OF inv, of i]
    by (cases c) (simp_all add: pull_calls_def begin_models_refresh_def Let_def)
qed (simp add: pull_calls_def)

lemma model_step_inv: "pulls_inv s \<Longrightarrow> pulls_inv (model_step error_text e s)"
proof (cases e)
  case (ModelAnswered c r)
  assume "pulls_inv s"
  then show ?thesis
    by (cases c) (simp_all add: ModelAnswered action_answered_def models_refreshed_def begin_models_refresh_def Let_def
        split: sum.split option.split)
qed (simp_all add: begin_models_refresh_def set_active_model_def start_action_def start_pull_inv pull_calls_inv)

lemma reachable_pulls_inv: "models_reachable error_text s \<Longrightarrow> pulls_inv s"
proof (induction rule: models_reachable.induct)
  case (models_start stored)
  show ?case by (simp add: pulls_inv_def new_switcher_def)
qed (rule model_step_inv)

text \<open>The answer that each promise has once the hook lets go of them.\<close>

definition settled_with :: "bool \<Rightarrow> pull list \<Rightarrow> bool list" where
  "settled_with ok ps = map (\<lambda>p. case pull_result p of None \<Rightarrow> ok | Some b \<Rightarrow> b) ps"

lemma let_go_results:
  assumes "pulls_inv s"
  shows "map pull_result (let_go ok s) = map Some (settled_with ok (pulls s))"
proof (rule nth_equalityI)
  show "length (map pull_result (let_go ok s)) = length (map Some (settled_with ok (pulls s)))"
    using let_go_settles(1) [OF assms] by (simp add: settled_with_def)
  fix j
  assume "j < length (map pull_result (let_go ok s))"
  then have j: "j < length (pulls s)" using let_go_settles(1) [OF assms] by simp
  show "map pull_result (let_go ok s) ! j = map Some (settled_with ok (pulls s)) ! j"
  proof (cases "pull_resolver s = Some j")
    case True
    then have "pull_result (pulls s ! j) = None" using assms by (simp add: pulls_inv_def)
    then show ?thesis using True j by (simp add: let_go_def settled_with_def)
  next
    case False
    then have "pull_result (pulls s ! j) \<noteq> None" using assms j by (simp add: pulls_inv_def settled_pull_def)
    moreover have "let_go ok s ! j = pulls s ! j" using False by (auto simp: let_go_def split: option.split)
    ultimately show ?thesis using j let_go_settles(1) [OF assms, of ok] by (auto simp: settled_with_def)
  qed
qed

text \<open>What an event does to the promises: they are kept, or those that are open are settled, or one is new.\<close>

lemma other_events_keep_pulls:
  "\<forall>nm. e \<noteq> StartPull nm \<Longrightarrow> \<forall>i c. e \<noteq> PullCalls i c \<Longrightarrow> pulls (model_step error_text e s) = pulls s"
proof (induction error_text e s rule: model_step.induct)
  case (4 error_text c r s)
  show ?case
    by (cases c) (simp_all add: action_answered_def models_refreshed_def begin_models_refresh_def Let_def
        split: sum.split option.split)
qed (simp_all add: begin_models_refresh_def set_active_model_def start_action_def)

lemma step_results:
  assumes inv: "pulls_inv s"
  shows "map pull_result (pulls (model_step error_text e s)) = map pull_result (pulls s) \<or>
    (\<exists>ok xs. map pull_result (pulls (model_step error_text e s)) = map Some (settled_with ok (pulls s)) @ xs)"
proof (cases e)
  case (StartPull nm)
  then show ?thesis using start_pull_pulls [OF inv, of nm] let_go_results [OF inv, of False] by simp blast
next
  case (PullCalls i c)
  show ?thesis
  proof (cases "i < length (pulls s) \<and> \<not> pull_over (pulls s ! i)")
    case True
    have "\<exists>ok' xs. map pull_result (let_go ok s) = map Some (settled_with ok' (pulls s)) @ xs" for ok
      by (rule exI [of _ ok]) (simp add: let_go_results [OF inv])
    then show ?thesis
      using True finish_live_pull [OF inv, of i]
      by (cases c) (simp_all add: PullCalls pull_calls_def Let_def begin_models_refresh_def map_update list_update_same_conv)
  qed (simp add: PullCalls pull_calls_def)
qed (use other_events_keep_pulls [of e error_text s] in auto)

lemma settled_keeps:
  assumes "map pull_result ps' = map pull_result ps \<or> (\<exists>ok xs. map pull_result ps' = map Some (settled_with ok ps) @ xs)"
    and j: "j < length ps" and b: "pull_result (ps ! j) = Some b"
  shows "pull_result (ps' ! j) = Some b"
  using assms(1)
proof (elim disjE exE)
  assume same: "map pull_result ps' = map pull_result ps"
  then have "length ps' = length ps" by (metis length_map)
  then show ?thesis using same j b by (metis nth_map)
next
  fix ok xs
  assume more: "map pull_result ps' = map Some (settled_with ok ps) @ xs"
  have "length (map pull_result ps') = length ps + length xs" unfolding more by (simp add: settled_with_def)
  then have "j < length ps'" using j by simp
  then have "pull_result (ps' ! j) = map pull_result ps' ! j" by simp
  also have "\<dots> = Some b" unfolding more using j b by (simp add: nth_append settled_with_def)
  finally show ?thesis .
qed

lemma silently_over:
  assumes inv: "pulls_inv s" and j: "j < length (pulls s)" "\<not> pull_over (pulls s ! j)"
    and gone: "pull_over (pulls (model_step error_text e s) ! j)" "pull_result (pulls (model_step error_text e s) ! j) = None"
  shows "e = PullCalls j PullSilent"
proof (cases e)
  case (StartPull nm)
  have "settled_pull (let_go False s ! j)" using let_go_settles(2) [OF inv] j(1) by blast
  then show ?thesis
    using StartPull gone(2) start_pull_pulls(1) [OF inv, of nm] let_go_settles(1) [OF inv, of False] j(1)
    by (simp add: nth_append settled_pull_def)
next
  case (PullCalls i c)
  have settled: "pull_result (let_go ok s ! j) \<noteq> None" for ok
    using let_go_settles(2) [OF inv, of ok] j(1) by (simp add: settled_pull_def)
  have "i = j"
  proof (rule ccontr)
    assume "i \<noteq> j"
    then have "\<not> (i < length (pulls s) \<and> \<not> pull_over (pulls s ! i))" using live_pull [OF inv j] live_pull [OF inv, of i] by auto
    then show False using gone(1) j(2) by (simp add: PullCalls pull_calls_def)
  qed
  then show ?thesis
    using gone settled j finish_live_pull [OF inv j]
    by (cases c) (simp_all add: PullCalls pull_calls_def Let_def begin_models_refresh_def)
qed (use gone(1) j(2) other_events_keep_pulls [of e error_text s] in auto)

lemma live_answers:
  assumes inv: "pulls_inv s" and i: "i < length (pulls s)" "\<not> pull_over (pulls s ! i)"
  shows "map pull_result (pulls (pull_calls i PullSucceeds s)) = (map pull_result (pulls s))[i := Some True]"
    and "map pull_result (pulls (pull_calls i (PullFails msg) s)) = (map pull_result (pulls s))[i := Some False]"
proof -
  have gone: "map pull_result (let_go ok s) = (map pull_result (pulls s))[i := Some ok]" for ok
    by (simp add: let_go_def live_pull [OF inv i] map_update)
  show "map pull_result (pulls (pull_calls i PullSucceeds s)) = (map pull_result (pulls s))[i := Some True]"
    and "map pull_result (pulls (pull_calls i (PullFails msg) s)) = (map pull_result (pulls s))[i := Some False]"
    using i finish_live_pull [OF inv i] gone by (simp_all add: pull_calls_def Let_def begin_models_refresh_def)
qed

text \<open>C21: A promise of a pull that has an answer keeps it whatever happens, and at any time at most that of the pull
  that was started last is open.  The pull that is under way, the last one, answers its promise with true when it
  succeeds (or its stream just ends) and with false when it fails; callbacks of a pull that is over do nothing.
  Starting another pull answers all open promises with false before its own is made, and so does unmounting, after
  which none is open.  A pull that ends leaves its promise open in one case only: a 401 that sends the page to the
  login ends it without a callback; then the promise stays open until the next pull or the unmounting.\<close>
theorem pull_promises_settle:
  assumes "models_reachable error_text s"
  shows "(\<forall>e j b. j < length (pulls s) \<longrightarrow> pull_result (pulls s ! j) = Some b \<longrightarrow>
      pull_result (pulls (model_step error_text e s) ! j) = Some b) \<and>
    (\<forall>j. Suc j < length (pulls s) \<longrightarrow> pull_result (pulls s ! j) \<noteq> None) \<and>
    (\<forall>i. i < length (pulls s) \<longrightarrow> \<not> pull_over (pulls s ! i) \<longrightarrow> Suc i = length (pulls s) \<and>
      map pull_result (pulls (model_step error_text (PullCalls i PullSucceeds) s)) =
        (map pull_result (pulls s))[i := Some True] \<and>
      (\<forall>msg. map pull_result (pulls (model_step error_text (PullCalls i (PullFails msg)) s)) =
        (map pull_result (pulls s))[i := Some False])) \<and>
    (\<forall>i c. i < length (pulls s) \<longrightarrow> pull_over (pulls s ! i) \<longrightarrow> model_step error_text (PullCalls i c) s = s) \<and>
    (\<forall>nm. map pull_result (pulls (model_step error_text (StartPull nm) s)) =
      map Some (settled_with False (pulls s)) @ [None]) \<and>
    map pull_result (pulls (unmount_switcher s)) = map Some (settled_with False (pulls s)) \<and>
    (\<forall>e j. j < length (pulls s) \<longrightarrow> \<not> pull_over (pulls s ! j) \<longrightarrow> pull_over (pulls (model_step error_text e s) ! j) \<longrightarrow>
      pull_result (pulls (model_step error_text e s) ! j) = None \<longrightarrow> e = PullCalls j PullSilent)"
  (is "?keep \<and> ?last \<and> ?live \<and> ?over \<and> ?start \<and> ?unmount \<and> ?silent")
proof (intro conjI)
  have inv: "pulls_inv s" by (rule reachable_pulls_inv [OF assms])
  note go = let_go_results [OF inv]
  show ?keep using settled_keeps [OF step_results [OF inv]] by blast
  show ?last
  proof (intro allI impI)
    fix j
    assume j: "Suc j < length (pulls s)"
    then have "pull_resolver s \<noteq> Some j" using inv unfolding pulls_inv_def by fastforce
    then show "pull_result (pulls s ! j) \<noteq> None" using inv j by (simp add: pulls_inv_def settled_pull_def)
  qed
  have last: "Suc i = length (pulls s)" if "i < length (pulls s)" "\<not> pull_over (pulls s ! i)" for i
    using live_pull [OF inv that] inv unfolding pulls_inv_def by blast
  show ?live unfolding model_step.simps using last live_answers [OF inv] by blast
  show ?over by (simp add: pull_calls_def)
  show ?start using start_pull_pulls [OF inv] go by simp
  show ?unmount using finish_abort_pulls [OF inv, of False] go by (simp add: unmount_switcher_def)
  show ?silent using silently_over [OF inv] by blast
qed

definition no_text :: "thrown \<Rightarrow> string \<Rightarrow> string" where
  "no_text e fallback = fallback"

lemma pull_promises_settle_witness:
  "let s = model_step no_text (StartPull ''b'') (model_step no_text (StartPull ''a'') (new_switcher None))
   in map pull_result (pulls (model_step no_text (PullCalls 1 PullSucceeds) s)) = [Some False, Some True]"
proof -
  let ?s = "model_step no_text (StartPull ''b'') (model_step no_text (StartPull ''a'') (new_switcher None))"
  have r: "models_reachable no_text ?s" by (intro models_step models_start)
  have p: "pulls ?s = [\<lparr>pull_name = ''a'', pull_result = Some False, pull_over = True\<rparr>,
      \<lparr>pull_name = ''b'', pull_result = None, pull_over = False\<rparr>]"
    by (simp add: start_pull_def abort_pull_def resolve_pull_def new_switcher_def Let_def)
  then have "1 < length (pulls ?s)" "\<not> pull_over (pulls ?s ! 1)" by simp_all
  then have "map pull_result (pulls (model_step no_text (PullCalls 1 PullSucceeds) ?s)) =
      (map pull_result (pulls ?s))[1 := Some True]"
    using pull_promises_settle [OF r] by blast
  then show ?thesis using p by simp
qed

subsection \<open>The active model\<close>

text \<open>deleting the active model clears the selection of the hook and of the storage, but announces
  nothing: what the other components of the page last heard is still the deleted model.\<close>
theorem deleted_model_stays_announced:
  "let s1 = set_active_model True nm s; s2 = action_answered error_text DeleteModel nm (Inr v) s1
    in active_model s2 = None \<and> stored_model s2 = None \<and> last (announced_models s2) = nm \<and>
       announced_models s2 = announced_models s1"
  by (simp add: set_active_model_def action_answered_def begin_models_refresh_def)

end
