(* ===== verification/Page_State.thy ===== *)
theory Page_State
  imports Base
begin

section \<open>Small state of the pages\<close>

text \<open>
  The hooks and modules of \<^verbatim>\<open>apps/chat\<close> that keep a little state of a page: the open panels
  (\<^verbatim>\<open>hooks/use-panel-manager.ts\<close>), the tools panel (\<^verbatim>\<open>hooks/use-tools-state.ts\<close>), the captured
  console (\<^verbatim>\<open>components/claude-code/console-capture.ts\<close>), the persisted form
  (\<^verbatim>\<open>hooks/use-form-persistence.ts\<close>), the uploaded images (\<^verbatim>\<open>hooks/use-image-upload.ts\<close>), the settings
  form (\<^verbatim>\<open>hooks/use-settings-form.ts\<close>) and the helpers of \<^verbatim>\<open>components/context/context-utils.ts\<close>.
  The two histories, of tool results and of console messages, are one interface, \<open>capped_history\<close>.
\<close>

subsection \<open>Capped histories\<close>

text \<open>\<open>view\<close> is the history with the newest entry first.\<close>

locale capped_history =
  fixes push :: "'a \<Rightarrow> 'h \<Rightarrow> 'h"
    and view :: "'h \<Rightarrow> 'a list"
    and cap :: nat
  assumes view_push: "view (push x h) = take cap (x # view h)"
begin

lemma view_pushes: "length (view h) \<le> cap \<Longrightarrow> view (fold push xs h) = take cap (rev xs @ view h)"
proof (induction xs arbitrary: h)
  case (Cons x xs)
  have "view (fold push (x # xs) h) = take cap (rev xs @ view (push x h))"
    using Cons.IH [of "push x h"] by (simp add: view_push)
  also have "\<dots> = take cap (rev xs @ x # view h)"
    by (simp add: view_push take_append)
  finally show ?case by simp
qed simp

lemma view_bounded: "length (view (push x h)) \<le> cap"
  by (simp add: view_push)

end

subsection \<open>Panels\<close>

datatype panel_name = ChatPanel | Automations | History | ImageGen | ToolsPanel | EventsPanel | Resources | DrupalPanel
  | KbPanel | SnapshotsPanel | ContextPanel | UiBuilderPanel | Planning | KbBuilder

datatype panel_action = TogglePanel panel_name | OpenPanel panel_name | ClosePanel panel_name | CloseAll

fun panel_reducer :: "panel_name set \<Rightarrow> panel_action \<Rightarrow> panel_name set" where
  "panel_reducer st (TogglePanel p) = (if p \<in> st then st - {p} else insert p st)"
| "panel_reducer st (OpenPanel p) = (if p \<in> st then st else insert p st)"
| "panel_reducer st (ClosePanel p) = (if p \<notin> st then st else st - {p})"
| "panel_reducer st CloseAll = (if st = {} then st else {})"

fun panel_to_mobile_tab :: "panel_name \<Rightarrow> string option" where
  "panel_to_mobile_tab ChatPanel = Some ''chat''"
| "panel_to_mobile_tab ImageGen = Some ''image-gen''"
| "panel_to_mobile_tab ToolsPanel = Some ''tools''"
| "panel_to_mobile_tab EventsPanel = Some ''events''"
| "panel_to_mobile_tab Resources = Some ''resources''"
| "panel_to_mobile_tab DrupalPanel = Some ''drupal''"
| "panel_to_mobile_tab KbPanel = Some ''kb''"
| "panel_to_mobile_tab SnapshotsPanel = Some ''snapshots''"
| "panel_to_mobile_tab ContextPanel = Some ''context''"
| "panel_to_mobile_tab UiBuilderPanel = Some ''ui-builder''"
| "panel_to_mobile_tab Planning = Some ''planning''"
| "panel_to_mobile_tab KbBuilder = Some ''kb''"
| "panel_to_mobile_tab Automations = None"
| "panel_to_mobile_tab History = None"

text \<open>The open panels and the tab that the mobile page shows.\<close>

type_synonym panels = "panel_name set \<times> string option"

definition on_desktop_or ::
  "bool \<Rightarrow> panel_name \<Rightarrow> (panel_name set \<Rightarrow> panel_name set) \<Rightarrow> panels \<Rightarrow> panels" where
  "on_desktop_or isMobile p f s =
     (case (isMobile, panel_to_mobile_tab p) of
        (True, Some tab) \<Rightarrow> (fst s, Some tab)
      | _ \<Rightarrow> (f (fst s), snd s))"

definition panel_toggle :: "bool \<Rightarrow> panel_name \<Rightarrow> panels \<Rightarrow> panels" where
  "panel_toggle isMobile p = on_desktop_or isMobile p (\<lambda>st. panel_reducer st (TogglePanel p))"

definition panel_open :: "bool \<Rightarrow> panel_name \<Rightarrow> panels \<Rightarrow> panels" where
  "panel_open isMobile p = on_desktop_or isMobile p (\<lambda>st. panel_reducer st (OpenPanel p))"

definition panel_close :: "panel_name \<Rightarrow> panels \<Rightarrow> panels" where
  "panel_close p s = (panel_reducer (fst s) (ClosePanel p), snd s)"

definition panel_close_all :: "panels \<Rightarrow> panels" where
  "panel_close_all s = (panel_reducer (fst s) CloseAll, snd s)"

definition panel_is_open :: "panels \<Rightarrow> panel_name \<Rightarrow> bool" where
  "panel_is_open s p \<longleftrightarrow> p \<in> fst s"

lemma toggle_toggle: "panel_reducer (panel_reducer st (TogglePanel p)) (TogglePanel p) = st"
  by auto

lemma toggle_agrees:
  "p \<in> panel_reducer st (TogglePanel p) \<longleftrightarrow> p \<notin> st"
  "q \<noteq> p \<Longrightarrow> q \<in> panel_reducer st (TogglePanel p) \<longleftrightarrow> q \<in> st"
  by auto

subsection \<open>The tools panel\<close>

record execution =
  exec_tool :: string
  exec_success :: bool
  exec_timestamp :: nat
  exec_params :: "(string \<times> json) list"

record rerun =
  rerun_tool :: string
  rerun_params :: "(string \<times> json) list"
  rerun_timestamp :: nat

record tools_state =
  prefill_file :: "string option"
  filter_for_file :: bool
  initial_tool :: "string option"
  last_execution :: "execution option"
  rerun_execution :: "rerun option"
  results_for_chat :: "(bool \<times> json) list"
  stored_execution :: "(string \<times> bool \<times> nat) option"

definition initial_tools :: tools_state where
  "initial_tools =
     \<lparr>prefill_file = None, filter_for_file = False, initial_tool = None, last_execution = None,
      rerun_execution = None, results_for_chat = [], stored_execution = None\<rparr>"

text \<open>A result is its success and the rest of it; \<open>storable\<close>: whether the storage takes the value.\<close>

definition add_result :: "bool \<times> json \<Rightarrow> (bool \<times> json) list \<Rightarrow> (bool \<times> json) list" where
  "add_result r prev = r # take 9 prev"

definition handle_tool_executed ::
  "bool \<Rightarrow> nat \<Rightarrow> bool \<times> json \<Rightarrow> string \<Rightarrow> (string \<times> json) list \<Rightarrow> tools_state \<Rightarrow> tools_state" where
  "handle_tool_executed storable now result toolName params s =
     s\<lparr>last_execution := Some \<lparr>exec_tool = toolName, exec_success = fst result, exec_timestamp = now, exec_params = params\<rparr>,
       results_for_chat := add_result result (results_for_chat s),
       stored_execution := (if storable then Some (toolName, fst result, now) else stored_execution s)\<rparr>"

definition handle_rerun_last_tool :: "nat \<Rightarrow> tools_state \<Rightarrow> rerun option \<times> tools_state" where
  "handle_rerun_last_tool now s =
     (case last_execution s of
        None \<Rightarrow> (None, s)
      | Some e \<Rightarrow>
          (let r = \<lparr>rerun_tool = exec_tool e, rerun_params = exec_params e, rerun_timestamp = now\<rparr>
           in (Some r, s\<lparr>rerun_execution := Some r\<rparr>)))"

definition reset_tools_open :: "tools_state \<Rightarrow> tools_state" where
  "reset_tools_open s = s\<lparr>prefill_file := None, filter_for_file := False, initial_tool := None\<rparr>"

definition prepare_run_tool_on_file :: "string \<Rightarrow> tools_state \<Rightarrow> tools_state" where
  "prepare_run_tool_on_file filePath s = s\<lparr>prefill_file := Some filePath, filter_for_file := True, initial_tool := None\<rparr>"

definition prepare_quick_execute :: "string \<Rightarrow> tools_state \<Rightarrow> tools_state" where
  "prepare_quick_execute toolName s = s\<lparr>prefill_file := None, filter_for_file := False, initial_tool := Some toolName\<rparr>"

interpretation results: capped_history add_result "\<lambda>h. h" 10
  by unfold_locales (simp add: add_result_def take_Cons')

subsection \<open>The console\<close>

datatype log_level = LogError | LogWarn

record captured_log =
  log_level_of :: log_level
  log_message :: string
  log_timestamp :: nat

text \<open>Searching: a literal anywhere, one in either case, and two with anything but a line end between.\<close>

fun occurs :: "string \<Rightarrow> string \<Rightarrow> bool" where
  "occurs p [] \<longleftrightarrow> p = []"
| "occurs p (c # s) \<longleftrightarrow> starts_with (c # s) p \<or> occurs p s"

definition occurs_ci :: "string \<Rightarrow> string \<Rightarrow> bool" where
  "occurs_ci p s = occurs (to_lower p) (to_lower s)"

definition line_end :: "char \<Rightarrow> bool" where
  "line_end c \<longleftrightarrow> (of_char c :: nat) \<in> {10, 13}"

fun after_gap :: "(string \<Rightarrow> bool) \<Rightarrow> string \<Rightarrow> bool" where
  "after_gap q [] \<longleftrightarrow> q []"
| "after_gap q (c # s) \<longleftrightarrow> q (c # s) \<or> \<not> line_end c \<and> after_gap q s"

fun then_somewhere :: "string \<Rightarrow> (string \<Rightarrow> bool) \<Rightarrow> string \<Rightarrow> bool" where
  "then_somewhere p q [] \<longleftrightarrow> p = [] \<and> q []"
| "then_somewhere p q (c # s) \<longleftrightarrow>
     (starts_with (c # s) p \<and> q (drop (length p) (c # s))) \<or> then_somewhere p q s"

definition is_digit :: "char \<Rightarrow> bool" where
  "is_digit c \<longleftrightarrow> (let n = of_char c :: nat in 48 \<le> n \<and> n \<le> 57)"

definition digits_then :: "string \<Rightarrow> string \<Rightarrow> bool" where
  "digits_then p s \<longleftrightarrow> takeWhile is_digit s \<noteq> [] \<and> starts_with (dropWhile is_digit s) p"

definition noise_patterns :: "(string \<Rightarrow> bool) list" where
  "noise_patterns =
     [then_somewhere ''Warning: '' (after_gap (\<lambda>s. starts_with s '' did not match'')),
      occurs (''Warning: Each child in a list should have a unique '' @ [char_of (34::nat)] @ ''key'' @
        [char_of (34::nat)] @ '' prop''),
      occurs (''Warning: Can'' @ [char_of (39::nat)] @ ''t perform a React state update on an unmounted component''),
      occurs ''Warning: componentWillMount has been renamed'',
      occurs ''Warning: componentWillReceiveProps has been renamed'',
      occurs ''Warning: findDOMNode is deprecated'',
      occurs_ci ''Fast Refresh'', occurs ''[HMR]'', occurs_ci ''[next]'', occurs_ci ''hydration'',
      occurs ''chrome-extension://'', occurs ''moz-extension://'', occurs ''extension://'',
      occurs ''ResizeObserver loop'', occurs ''Non-Error promise rejection captured'',
      then_somewhere ''Loading chunk '' (digits_then '' failed''),
      occurs ''DevTools failed to load source map'', occurs ''Could not load content for'',
      then_somewhere ''Access to '' (after_gap (\<lambda>s. starts_with s '' has been blocked by CORS policy'' \<and>
        after_gap (\<lambda>t. starts_with t ''preflight'') (drop (length '' has been blocked by CORS policy'') s))),
      occurs ''favicon.ico'', occurs ''[webpack-dev-server]'']"

definition is_noise :: "string \<Rightarrow> bool" where
  "is_noise message = list_ex (\<lambda>pattern. pattern message) noise_patterns"

text \<open>An argument of the console: a string, an \<open>Error\<close>, or anything else with the text that it is given.\<close>

datatype log_arg = TextArg string | ErrorArg string string | OtherArg string

fun format_arg :: "log_arg \<Rightarrow> string" where
  "format_arg (TextArg s) = s"
| "format_arg (ErrorArg nm message) = nm @ '': '' @ message"
| "format_arg (OtherArg s) = s"

definition format_args :: "log_arg list \<Rightarrow> string" where
  "format_args args = join '' '' (map format_arg args)"

definition max_logs :: nat where "max_logs = 200"

definition push_log :: "captured_log \<Rightarrow> captured_log list \<Rightarrow> captured_log list" where
  "push_log entry logs =
     (let ls = logs @ [entry] in if max_logs < length ls then drop (length ls - max_logs) ls else ls)"

text \<open>What the page does: writes to the console, or ends in an error or rejection nobody handles.\<close>

datatype console_event =
    ConsoleError "log_arg list" nat
  | ConsoleWarn "log_arg list" nat
  | UnhandledError string string nat nat nat
  | UnhandledRejection log_arg nat

fun entry_of :: "console_event \<Rightarrow> captured_log" where
  "entry_of (ConsoleError args now) =
     \<lparr>log_level_of = LogError, log_message = format_args args, log_timestamp = now\<rparr>"
| "entry_of (ConsoleWarn args now) =
     \<lparr>log_level_of = LogWarn, log_message = format_args args, log_timestamp = now\<rparr>"
| "entry_of (UnhandledError message filename lineno colno now) =
     \<lparr>log_level_of = LogError, log_message = ''Unhandled Error: '' @ message @ '' at '' @ filename @ '':'' @
        show_nat lineno @ '':'' @ show_nat colno, log_timestamp = now\<rparr>"
| "entry_of (UnhandledRejection reason now) =
     \<lparr>log_level_of = LogError, log_message = ''Unhandled Promise Rejection: '' @ format_arg reason, log_timestamp = now\<rparr>"

fun printed_args :: "console_event \<Rightarrow> log_arg list list" where
  "printed_args (ConsoleError args _) = [args]"
| "printed_args (ConsoleWarn args _) = [args]"
| "printed_args _ = []"

record console =
  installed :: bool
  logs :: "captured_log list"
  printed :: "log_arg list list"

definition install_console_capture :: "console \<Rightarrow> console" where
  "install_console_capture s = (if installed s then s else s\<lparr>installed := True\<rparr>)"

definition uninstall_console_capture :: "console \<Rightarrow> console" where
  "uninstall_console_capture s = (if \<not> installed s then s else s\<lparr>installed := False\<rparr>)"

definition clear_captured_logs :: "console \<Rightarrow> console" where
  "clear_captured_logs s = s\<lparr>logs := []\<rparr>"

text \<open>The original functions print in any case.\<close>

definition console_step :: "console_event \<Rightarrow> console \<Rightarrow> console" where
  "console_step e s =
     (let entry = entry_of e;
          s1 = (if installed s \<and> \<not> is_noise (log_message entry) then s\<lparr>logs := push_log entry (logs s)\<rparr> else s)
      in s1\<lparr>printed := printed s1 @ printed_args e\<rparr>)"

definition format_logs_for_clipboard :: "(nat \<Rightarrow> string) \<Rightarrow> captured_log list \<Rightarrow> string" where
  "format_logs_for_clipboard local_time entries =
     (if entries = [] then ''(no console errors or warnings captured)''
      else join [newline] (map (\<lambda>entry. ''['' @ local_time (log_timestamp entry) @ ''] ['' @
        (case log_level_of entry of LogError \<Rightarrow> ''ERROR'' | LogWarn \<Rightarrow> ''WARN'') @ ''] '' @ log_message entry) entries))"

interpretation console_log: capped_history push_log rev max_logs
proof
  fix x :: captured_log and h
  show "rev (push_log x h) = take max_logs (x # rev h)"
    by (simp add: push_log_def Let_def take_Cons' take_rev max_logs_def)
qed

text \<open>After any run of the page the captured console is the last two hundred of the messages that are
  not noise, in their order, and what the console printed is everything that was written to it.\<close>
theorem console_keeps_last_messages:
  assumes "installed s" and "length (logs s) \<le> max_logs"
  shows "let s' = fold console_step es s; kept = filter (\<lambda>e. \<not> is_noise (log_message e)) (map entry_of es)
    in logs s' = drop (length (logs s @ kept) - max_logs) (logs s @ kept) \<and>
       printed s' = printed s @ concat (map printed_args es)"
proof -
  let ?kept = "\<lambda>es. filter (\<lambda>e. \<not> is_noise (log_message e)) (map entry_of es)"
  have step: "installed (fold console_step es s) \<and> logs (fold console_step es s) = fold push_log (?kept es) (logs s) \<and>
      printed (fold console_step es s) = printed s @ concat (map printed_args es)"
    using assms(1) by (induction es arbitrary: s) (simp_all add: console_step_def Let_def)
  have "rev (fold push_log (?kept es) (logs s)) = take max_logs (rev (logs s @ ?kept es))"
    using console_log.view_pushes [of "logs s" "?kept es"] assms(2) by simp
  then have "fold push_log (?kept es) (logs s) = drop (length (logs s @ ?kept es) - max_logs) (logs s @ ?kept es)"
    by (metis rev_rev_ident take_rev)
  then show ?thesis using step by (simp add: Let_def)
qed

lemma console_keeps_last_messages_witness:
  "let s = \<lparr>installed = True, logs = [], printed = []\<rparr>;
       es = [ConsoleError [TextArg ''[HMR] connected''] 1, ConsoleWarn [TextArg ''a'', ErrorArg ''E'' ''b''] 2]
   in map log_message (logs (fold console_step es s)) = [''a E: b''] \<and>
      printed (fold console_step es s) = [[TextArg ''[HMR] connected''], [TextArg ''a'', ErrorArg ''E'' ''b'']]"
proof -
  let ?s = "\<lparr>installed = True, logs = [], printed = []\<rparr>"
  let ?es = "[ConsoleError [TextArg ''[HMR] connected''] 1, ConsoleWarn [TextArg ''a'', ErrorArg ''E'' ''b''] 2]"
  have "is_noise ''[HMR] connected''" "\<not> is_noise ''a E: b''" by code_simp+
  moreover have "format_args [TextArg ''[HMR] connected''] = ''[HMR] connected''"
    "format_args [TextArg ''a'', ErrorArg ''E'' ''b''] = ''a E: b''" by code_simp+
  ultimately show ?thesis
    using console_keeps_last_messages [of ?s ?es] by (simp add: Let_def max_logs_def)
qed

subsection \<open>The persisted form\<close>

text \<open>
  A form is a map of its fields; the storage holds forms, that is, the text of one is taken to be
  parsed to itself.  When the project changes both effects run on the form that is still there: one
  merges what is stored for the new project into it, the other stores it under the new key; the merged
  form is stored when it is shown.
\<close>

type_synonym form = "string \<Rightarrow> json option"

record form_host =
  shown_form :: form
  form_key :: string
  session_storage :: "string \<Rightarrow> form option"

definition storage_key :: "string \<Rightarrow> string" where
  "storage_key projectId = ''image-gen-form:'' @ projectId"

definition persist_form :: "form_host \<Rightarrow> form_host" where
  "persist_form s = s\<lparr>session_storage := (session_storage s)(form_key s := Some (shown_form s))\<rparr>"

definition load_form :: "form \<Rightarrow> form_host \<Rightarrow> form" where
  "load_form defaults s =
     (case session_storage s (form_key s) of
        Some parsed \<Rightarrow> shown_form s ++ parsed
      | None \<Rightarrow> if defaults = Map.empty then shown_form s else shown_form s ++ defaults)"

definition change_form_project :: "form \<Rightarrow> string \<Rightarrow> form_host \<Rightarrow> form_host" where
  "change_form_project defaults projectId s =
     (let s1 = s\<lparr>form_key := storage_key projectId\<rparr>;
          merged = load_form defaults s1;
          s2 = persist_form s1
      in persist_form (s2\<lparr>shown_form := merged\<rparr>))"

definition edit_form :: "form \<Rightarrow> form_host \<Rightarrow> form_host" where
  "edit_form f s = persist_form (s\<lparr>shown_form := f\<rparr>)"

definition clear_form :: "form_host \<Rightarrow> form_host" where
  "clear_form s = s\<lparr>session_storage := (session_storage s)(form_key s := None)\<rparr>"

lemma storage_key_inject [simp]: "storage_key p = storage_key q \<longleftrightarrow> p = q"
  by (simp add: storage_key_def)

text \<open>a form survives a visit to another project: what was stored for a project, and has every field
  that the forms have, is shown and stored again, exactly, when the page comes back to it, whatever was
  edited elsewhere in between; and no other project's form is touched by the change.\<close>
theorem form_survives_visit:
  assumes "session_storage s (storage_key projectId) = Some saved"
    and "dom (shown_form s) \<subseteq> dom saved"
  shows "let s' = change_form_project defaults projectId s
    in shown_form s' = saved \<and> session_storage s' = session_storage s"
proof -
  have "shown_form s ++ saved = saved"
    using assms(2) by (auto simp: fun_eq_iff map_add_def split: option.splits)
  then show ?thesis
    using assms(1) by (simp add: change_form_project_def load_form_def persist_form_def Let_def fun_upd_idem)
qed

lemma form_survives_visit_witness:
  "let s = \<lparr>shown_form = [''prompt'' \<mapsto> JStr ''dog''], form_key = storage_key ''b'',
             session_storage = [storage_key ''a'' \<mapsto> [''prompt'' \<mapsto> JStr ''cat'']]\<rparr>;
       s' = change_form_project Map.empty ''a'' s
   in shown_form s' = [''prompt'' \<mapsto> JStr ''cat''] \<and> session_storage s' = session_storage s"
  using form_survives_visit [of "\<lparr>shown_form = [''prompt'' \<mapsto> JStr ''dog''], form_key = storage_key ''b'',
      session_storage = [storage_key ''a'' \<mapsto> [''prompt'' \<mapsto> JStr ''cat'']]\<rparr>" "''a''"
      "[''prompt'' \<mapsto> JStr ''cat'']" Map.empty]
  by simp

text \<open>A project that has no form yet gets, and stores, the fields of the project that was left.\<close>

lemma form_leaks_to_new_project:
  assumes "session_storage s (storage_key projectId) = None" and "k \<notin> dom defaults"
  shows "let s' = change_form_project defaults projectId s
    in shown_form s' k = shown_form s k \<and>
       Option.bind (session_storage s' (storage_key projectId)) (\<lambda>f. f k) = shown_form s k"
  using assms by (auto simp: change_form_project_def load_form_def persist_form_def map_add_def Let_def split: option.split)

subsection \<open>Uploaded images\<close>

datatype upload_field = InputImage | MaskImage | TargetImage | ReferenceImage | ControlnetImage

record upload_file =
  file_name :: string
  file_type :: string
  file_size :: nat

record uploads =
  previews :: "upload_field \<Rightarrow> string option"
  upload_names :: "upload_field \<Rightarrow> string option"
  upload_error :: "string option"

definition initial_uploads :: uploads where
  "initial_uploads = \<lparr>previews = (\<lambda>_. None), upload_names = (\<lambda>_. None), upload_error = None\<rparr>"

definition max_upload_mb :: nat where "max_upload_mb = 10"

definition accepted_types :: "string list" where
  "accepted_types = [''image/png'', ''image/jpeg'', ''image/webp'']"

text \<open>\<open>processFile\<close>: what is shown at once, and whether the file is read.\<close>

definition process_file :: "upload_file \<Rightarrow> uploads \<Rightarrow> bool \<times> uploads" where
  "process_file file s =
     (let s1 = s\<lparr>upload_error := None\<rparr>
      in if max_upload_mb * 1024 * 1024 < file_size file
         then (False, s1\<lparr>upload_error := Some (''Image exceeds '' @ show_nat max_upload_mb @ ''MB limit.'')\<rparr>)
         else if file_type file \<notin> set accepted_types
         then (False, s1\<lparr>upload_error := Some ''Only PNG, JPEG, and WEBP are allowed.''\<rparr>)
         else (True, s1))"

definition file_read :: "upload_file \<Rightarrow> upload_field \<Rightarrow> string \<Rightarrow> uploads \<Rightarrow> uploads" where
  "file_read file field base64 s =
     (if field = InputImage
      then s\<lparr>previews := (previews s)(InputImage := Some base64, MaskImage := None),
             upload_names := (upload_names s)(InputImage := Some (file_name file), MaskImage := None)\<rparr>
      else s\<lparr>previews := (previews s)(field := Some base64),
             upload_names := (upload_names s)(field := Some (file_name file))\<rparr>)"

definition file_unreadable :: "upload_field \<Rightarrow> uploads \<Rightarrow> uploads" where
  "file_unreadable field s =
     s\<lparr>previews := (previews s)(field := None), upload_names := (upload_names s)(field := None),
       upload_error := Some ''Failed to read image file. Please try again.''\<rparr>"

definition clear_field :: "upload_field \<Rightarrow> uploads \<Rightarrow> uploads" where
  "clear_field field s = s\<lparr>previews := (previews s)(field := None), upload_names := (upload_names s)(field := None)\<rparr>"

definition reset_all :: "uploads \<Rightarrow> uploads" where
  "reset_all s = initial_uploads"

definition uploads_consistent :: "uploads \<Rightarrow> bool" where
  "uploads_consistent s \<longleftrightarrow> (\<forall>f. previews s f = None \<longleftrightarrow> upload_names s f = None)"

lemma uploads_stay_consistent:
  assumes "uploads_consistent s"
  shows "uploads_consistent (snd (process_file file s))" "uploads_consistent (file_read file field base64 s)"
    "uploads_consistent (file_unreadable field s)" "uploads_consistent (clear_field field s)"
    "uploads_consistent (reset_all s)"
  using assms
  by (simp_all add: uploads_consistent_def process_file_def Let_def file_read_def file_unreadable_def clear_field_def
      reset_all_def initial_uploads_def)

subsection \<open>The settings form\<close>

datatype save_end = Saved | Refused "string option" | SaveThrew

record settings_form =
  form_values :: form
  form_saving :: bool
  form_status :: "(string \<times> bool) option"

definition set_form_field :: "string \<Rightarrow> json \<Rightarrow> settings_form \<Rightarrow> settings_form" where
  "set_form_field k v s = s\<lparr>form_values := (form_values s)(k \<mapsto> v)\<rparr>"

definition begin_save :: "settings_form \<Rightarrow> settings_form" where
  "begin_save s = s\<lparr>form_status := None, form_saving := True\<rparr>"

definition save_ended :: "string \<Rightarrow> save_end \<Rightarrow> settings_form \<Rightarrow> settings_form" where
  "save_ended successMessage r s =
     s\<lparr>form_status := Some (case r of
          Saved \<Rightarrow> (successMessage, True)
        | Refused e \<Rightarrow> (nullish e ''Failed to save'', False)
        | SaveThrew \<Rightarrow> (''An unexpected error occurred'', False)), form_saving := False\<rparr>"

definition clear_status :: "settings_form \<Rightarrow> settings_form" where
  "clear_status s = s\<lparr>form_status := None\<rparr>"

subsection \<open>The context editor\<close>

text \<open>\<open>Math.ceil(text.length / 4)\<close>.\<close>

definition estimate_tokens :: "string \<Rightarrow> nat" where
  "estimate_tokens s = (if s = [] then 0 else nat \<lceil>real (length s) / 4\<rceil>)"

definition get_layer_label :: "string \<Rightarrow> string" where
  "get_layer_label nm =
     (case map_of [(''system_prompt'', ''System Prompt''), (''project_context'', ''Project Context''),
        (''chat_instructions'', ''Chat Instructions''), (''kb_results'', ''Knowledge Base''),
        (''conversation'', ''Conversation'')] nm of
        Some label \<Rightarrow> label
      | None \<Rightarrow> if starts_with nm ''compaction_summary'' then ''Compaction Summary'' else nm)"

definition get_layer_color :: "string \<Rightarrow> string" where
  "get_layer_color nm =
     (case map_of [(''system_prompt'', ''bg-blue-500/10 text-blue-600''),
        (''project_context'', ''bg-purple-500/10 text-purple-600''),
        (''chat_instructions'', ''bg-cyan-500/10 text-cyan-600''),
        (''kb_results'', ''bg-amber-500/10 text-amber-600''),
        (''conversation'', ''bg-green-500/10 text-green-600'')] nm of
        Some color \<Rightarrow> color
      | None \<Rightarrow> if starts_with nm ''compaction_summary'' then ''bg-orange-500/10 text-orange-600'' else [])"

definition token_colors :: "string list" where
  "token_colors =
     map (\<lambda>c. ''bg-'' @ c @ ''-200/60 dark:bg-'' @ c @ ''-800/40'')
       [''blue'', ''green'', ''amber'', ''pink'', ''cyan'', ''purple'', ''orange'', ''rose'']"

definition get_token_color :: "int \<Rightarrow> string" where
  "get_token_color index = token_colors ! (nat \<bar>index\<bar> mod length token_colors)"

lemma get_token_color_defined: "get_token_color index \<in> set token_colors"
  unfolding get_token_color_def by (rule nth_mem) (simp add: token_colors_def)

lemma get_token_color_alternates: "0 \<le> index \<Longrightarrow> get_token_color (index + 8) = get_token_color index"
  by (simp add: get_token_color_def token_colors_def nat_add_distrib)

lemma estimate_tokens_bounds:
  "4 * estimate_tokens s < length s + 4" "length s \<le> 4 * estimate_tokens s"
  unfolding estimate_tokens_def by (auto; linarith)+

end
