(* ===== verification/Service_Status.thy ===== *)
theory Service_Status
  imports Sse_Stream
begin

section \<open>The health of the services\<close>

text \<open>
  \<open>useServiceStatus\<close> of \<^verbatim>\<open>packages/api/hooks/use-service-status.ts\<close>: the poll of the kernel's status,
  its schedule, and what the page shows of it.  An event is the answer to a poll, a timer, or the end
  of the component.  The ref that mirrors \<open>criticalReady\<close> has the value of the last rendering, which
  comes after the step that set it; the schedule of that step reads the older one.
\<close>

subsection \<open>State\<close>

definition critical_services :: "string list" where
  "critical_services = [''ollama_client'']"

definition tracked_services :: "string list" where
  "tracked_services = [''ollama_client'', ''comfyui_client'', ''embedding_service'', ''resource_manager'']"

definition service_labels :: "(string \<times> string) list" where
  "service_labels = [(''ollama_client'', ''Ollama''), (''comfyui_client'', ''ComfyUI''),
     (''embedding_service'', ''Embeddings''), (''resource_manager'', ''GPU Manager'')]"

definition poll_fast_ms :: nat where "poll_fast_ms = 4000"

definition poll_slow_ms :: nat where "poll_slow_ms = 30000"

record service_status =
  backend_reachable :: bool
  kernel_status :: "json option"
  unreachable_since :: "real option"
  unreachable_duration :: int
  critical_ready :: bool
  all_ready :: bool
  reachable_ref :: bool
  critical_ref :: bool
  status_mounted :: bool
  schedule_timer :: "nat option"
  scheduled_polls :: nat
  manual_polls :: nat

text \<open>Mounted, with the initial poll under way.\<close>

definition initial_status :: service_status where
  "initial_status =
     \<lparr>backend_reachable = True, kernel_status = Some JNull, unreachable_since = None, unreachable_duration = 0,
      critical_ready = False, all_ready = False, reachable_ref = True, critical_ref = False, status_mounted = True,
      schedule_timer = None, scheduled_polls = 1, manual_polls = 0\<rparr>"

subsection \<open>Operations\<close>

definition service_healthy :: "json \<Rightarrow> string \<Rightarrow> bool" where
  "service_healthy details nm \<longleftrightarrow>
     (case member details nm of None \<Rightarrow> False | Some svc \<Rightarrow> member svc ''healthy'' = Some (JBool True))"

definition poll_failed :: "real \<Rightarrow> service_status \<Rightarrow> service_status" where
  "poll_failed now s =
     s\<lparr>backend_reachable := False, reachable_ref := False, critical_ready := False, all_ready := False,
       unreachable_since := Some (nullish (unreachable_since s) now)\<rparr>"

text \<open>An answer without details makes the test of the services throw, after the status was stored.\<close>

definition poll_answered :: "real \<Rightarrow> js_error + json option \<Rightarrow> service_status \<Rightarrow> service_status" where
  "poll_answered now r s =
     (if \<not> status_mounted s then s
      else
        (case r of
           Inl e \<Rightarrow> poll_failed now s
         | Inr v \<Rightarrow>
             (let s1 = s\<lparr>backend_reachable := True, reachable_ref := True, unreachable_since := None,
                    unreachable_duration := 0, kernel_status := v\<rparr>;
                  details = Option.bind v (\<lambda>j. member j ''service_details'')
              in if details = None \<or> details = Some JNull then poll_failed now s1
                 else s1\<lparr>critical_ready := list_all (service_healthy (the details)) critical_services,
                         all_ready := list_all (service_healthy (the details)) tracked_services\<rparr>)))"

definition schedule_ms :: "service_status \<Rightarrow> nat" where
  "schedule_ms s =
     (if \<not> reachable_ref s then poll_slow_ms else if critical_ref s then poll_slow_ms else poll_fast_ms)"

definition schedule :: "service_status \<Rightarrow> service_status" where
  "schedule s = s\<lparr>schedule_timer := Some (schedule_ms s)\<rparr>"

definition rendered :: "service_status \<Rightarrow> service_status" where
  "rendered s = s\<lparr>critical_ref := critical_ready s\<rparr>"

datatype status_event =
    ScheduledPollAnswered real "js_error + json option"
  | ManualPollAnswered real "js_error + json option"
  | ScheduleFires
  | RefreshStatus
  | DurationTick real
  | UnmountStatus

fun status_step :: "status_event \<Rightarrow> service_status \<Rightarrow> service_status" where
  "status_step (ScheduledPollAnswered now r) s =
     (if scheduled_polls s = 0 then s
      else
        (let s1 = poll_answered now r (s\<lparr>scheduled_polls := scheduled_polls s - 1\<rparr>)
         in rendered (if status_mounted s1 then schedule s1 else s1)))"
| "status_step (ManualPollAnswered now r) s =
     (if manual_polls s = 0 then s
      else rendered (poll_answered now r (s\<lparr>manual_polls := manual_polls s - 1\<rparr>)))"
| "status_step ScheduleFires s =
     (if schedule_timer s = None then s
      else s\<lparr>schedule_timer := None, scheduled_polls := Suc (scheduled_polls s)\<rparr>)"
| "status_step RefreshStatus s = s\<lparr>manual_polls := Suc (manual_polls s)\<rparr>"
| "status_step (DurationTick now) s =
     (case unreachable_since s of
        None \<Rightarrow> s
      | Some since \<Rightarrow> s\<lparr>unreachable_duration := \<lfloor>(now - since) / 1000\<rfloor>\<rparr>)"
| "status_step UnmountStatus s = s\<lparr>status_mounted := False, schedule_timer := None\<rparr>"

definition shown_services :: "service_status \<Rightarrow> (string \<times> string \<times> json) list" where
  "shown_services s =
     map (\<lambda>nm. (nm, the (map_of service_labels nm),
       json_nullish (Option.bind (Option.bind (kernel_status s) (\<lambda>j. member j ''service_details''))
         (\<lambda>d. member d nm)) JNull)) tracked_services"

inductive status_reachable :: "service_status \<Rightarrow> bool" where
  status_start: "status_reachable initial_status"
| status_next: "status_reachable s \<Longrightarrow> status_reachable (status_step e s)"

subsection \<open>What the flags say\<close>

definition status_healthy :: "json option \<Rightarrow> string list \<Rightarrow> bool" where
  "status_healthy v names \<longleftrightarrow>
     (\<exists>j details. v = Some j \<and> member j ''service_details'' = Some details \<and> list_all (service_healthy details) names)"

definition flags_inv :: "service_status \<Rightarrow> bool" where
  "flags_inv s \<longleftrightarrow>
     (critical_ready s \<longrightarrow> backend_reachable s \<and> status_healthy (kernel_status s) critical_services) \<and>
     (all_ready s \<longrightarrow> critical_ready s \<and> status_healthy (kernel_status s) tracked_services) \<and>
     (backend_reachable s \<longleftrightarrow> unreachable_since s = None)"

definition loop_inv :: "service_status \<Rightarrow> bool" where
  "loop_inv s \<longleftrightarrow>
     (status_mounted s \<longrightarrow> scheduled_polls s + (case schedule_timer s of None \<Rightarrow> 0 | Some _ \<Rightarrow> 1) = 1)"

lemma tracked_critical: "list_all P tracked_services \<Longrightarrow> list_all P critical_services"
  by (simp add: tracked_services_def critical_services_def)

lemma poll_failed_flags: "flags_inv (poll_failed now s)"
  by (simp add: poll_failed_def flags_inv_def)

lemma poll_answered_flags:
  assumes "flags_inv s"
  shows "flags_inv (poll_answered now r s)"
proof (cases "status_mounted s")
  case True
  show ?thesis
  proof (cases r)
    case (Inl e)
    then show ?thesis using True by (simp add: poll_answered_def poll_failed_flags)
  next
    case (Inr v)
    show ?thesis
    proof (cases "Option.bind v (\<lambda>j. member j ''service_details'')")
      case None
      then show ?thesis using True Inr by (simp add: poll_answered_def poll_failed_flags Let_def)
    next
      case (Some d)
      then obtain j where "v = Some j" "member j ''service_details'' = Some d" by (auto simp: bind_eq_Some_conv)
      then show ?thesis
        using True Inr poll_failed_flags
        by (auto simp: poll_answered_def Let_def flags_inv_def status_healthy_def dest: tracked_critical)
    qed
  qed
qed (simp add: poll_answered_def assms)

lemma poll_answered_frame [simp]:
  "status_mounted (poll_answered now r s) = status_mounted s"
  "schedule_timer (poll_answered now r s) = schedule_timer s"
  "scheduled_polls (poll_answered now r s) = scheduled_polls s"
  by (simp_all add: poll_answered_def poll_failed_def Let_def split: sum.split)

lemma flags_frame [simp]:
  "flags_inv (s\<lparr>scheduled_polls := n\<rparr>) = flags_inv s" "flags_inv (s\<lparr>manual_polls := n\<rparr>) = flags_inv s"
  "flags_inv (s\<lparr>schedule_timer := t\<rparr>) = flags_inv s" "flags_inv (s\<lparr>critical_ref := b\<rparr>) = flags_inv s"
  "flags_inv (s\<lparr>unreachable_duration := d\<rparr>) = flags_inv s" "flags_inv (s\<lparr>status_mounted := b\<rparr>) = flags_inv s"
  by (simp_all add: flags_inv_def)

lemma status_step_flags: "flags_inv s \<Longrightarrow> flags_inv (status_step e s)"
  by (cases e) (simp_all add: rendered_def schedule_def Let_def poll_answered_flags split: option.split)

lemma status_step_loop: "loop_inv s \<Longrightarrow> loop_inv (status_step e s)"
  by (cases e) (auto simp: loop_inv_def rendered_def schedule_def Let_def split: option.splits)

lemma reachable_status: "status_reachable s \<Longrightarrow> flags_inv s \<and> loop_inv s"
  by (induction rule: status_reachable.induct)
    (simp_all add: status_step_flags status_step_loop, simp add: flags_inv_def loop_inv_def initial_status_def)

text \<open>The flags that the page trusts tell the truth about the status that it shows: the critical
  services are called ready only while the backend is reachable and each of them is reported healthy, all
  services only when every tracked one is, the time of the outage is kept exactly while there is one, and
  while the component is mounted exactly one scheduled poll is waiting or under way.\<close>
theorem status_flags_truthful:
  assumes "status_reachable s"
  shows "(critical_ready s \<longrightarrow> backend_reachable s \<and> status_healthy (kernel_status s) critical_services) \<and>
    (all_ready s \<longrightarrow> critical_ready s \<and> status_healthy (kernel_status s) tracked_services) \<and>
    (backend_reachable s \<longleftrightarrow> unreachable_since s = None) \<and>
    (status_mounted s \<longrightarrow> scheduled_polls s + (case schedule_timer s of None \<Rightarrow> 0 | Some _ \<Rightarrow> 1) = 1)"
  using reachable_status [OF assms] by (auto simp: flags_inv_def loop_inv_def)

definition healthy_answer :: json where
  "healthy_answer = JObj [(''service_details'', JObj (map (\<lambda>nm. (nm, JObj [(''healthy'', JBool True)])) tracked_services))]"

lemma status_flags_truthful_witness:
  "let s = status_step (ScheduledPollAnswered 0 (Inr (Some healthy_answer))) initial_status
   in all_ready s \<and> critical_ready s \<and> status_healthy (kernel_status s) tracked_services"
proof -
  let ?s = "status_step (ScheduledPollAnswered 0 (Inr (Some healthy_answer))) initial_status"
  have "status_reachable ?s" by (intro status_next status_start)
  moreover have "all_ready ?s"
    by (simp add: initial_status_def poll_answered_def healthy_answer_def tracked_services_def service_healthy_def
        schedule_def rendered_def Let_def)
  ultimately show ?thesis using status_flags_truthful [of ?s] by (simp only: Let_def simp_thms)
qed

text \<open>While the backend cannot be reached the polls are slow, though no service is ready.\<close>

lemma unreachable_polls_slowly:
  assumes "status_mounted s" and "0 < scheduled_polls s"
  shows "let s' = status_step (ScheduledPollAnswered now (Inl e)) s
    in \<not> critical_ready s' \<and> schedule_timer s' = Some poll_slow_ms"
  using assms by (simp add: poll_answered_def poll_failed_def schedule_def schedule_ms_def rendered_def Let_def)

end
