(* ===== verification/Coroutine.thy ===== *)
theory Coroutine
  imports Hook_Monad
begin

section \<open>Callbacks that are interrupted\<close>

text \<open>
  \<open>Hook_Monad\<close> runs a callback from its call to its end.  Between its awaits other callbacks run, and
  the component may be given other properties; some hooks guard themselves against that, with a counter
  that they compare after each await.  This theory has the statements of those hooks: a callback is a
  \<^emph>\<open>coroutine\<close>, which runs on the state of the hook until it ends or waits for answers of the client.
  The scheduler has the state and the callbacks under way; an answer resumes one of them in the state
  that the others have left meanwhile.  What follows the end of an awaited callback runs in the step of
  the answer that ended it.
\<close>

subsection \<open>Coroutines\<close>

type_synonym answer = "js_error + json option"

text \<open>What a coroutine is after a step; a waiting one is resumed with the number of the request, among
  those that it waits for, and its answer.\<close>

datatype ('s, 'a) run =
    Finished 'a
  | Failed thrown
  | Waiting "json option api list" "nat \<Rightarrow> answer \<Rightarrow> 's \<Rightarrow> ('s, 'a) run \<times> 's"

type_synonym ('s, 'a) co = "'s \<Rightarrow> ('s, 'a) run \<times> 's"

definition co_return :: "'a \<Rightarrow> ('s, 'a) co" where
  "co_return a s = (Finished a, s)"

definition co_raise :: "thrown \<Rightarrow> ('s, 'a) co" where
  "co_raise e s = (Failed e, s)"

definition co_do :: "('s \<Rightarrow> 's) \<Rightarrow> ('s, unit) co" where
  "co_do f s = (Finished (), f s)"

definition co_read :: "('s \<Rightarrow> 'a) \<Rightarrow> ('s, 'a) co" where
  "co_read f s = (Finished (f s), s)"

definition co_await :: "json option api \<Rightarrow> ('s, json option) co" where
  "co_await q s =
     (Waiting [q] (\<lambda>_ r s1. case r of Inl e \<Rightarrow> (Failed (Thrown e), s1) | Inr v \<Rightarrow> (Finished v, s1)), s)"

primrec run_bind :: "('s, 'a) run \<Rightarrow> ('a \<Rightarrow> ('s, 'b) co) \<Rightarrow> ('s, 'b) co" where
  "run_bind (Finished a) f = f a"
| "run_bind (Failed e) f = co_raise e"
| "run_bind (Waiting qs k) f =
     (\<lambda>s. (Waiting qs (\<lambda>j r s1. case map_prod (\<lambda>m. run_bind m f) id (k j r s1) of (g, s2) \<Rightarrow> g s2), s))"

definition co_bind :: "('s, 'a) co \<Rightarrow> ('a \<Rightarrow> ('s, 'b) co) \<Rightarrow> ('s, 'b) co" where
  "co_bind c f s = (case c s of (m, s1) \<Rightarrow> run_bind m f s1)"

definition co_then :: "('s, 'a) co \<Rightarrow> ('s, 'b) co \<Rightarrow> ('s, 'b) co" where
  "co_then c d = co_bind c (\<lambda>_. d)"

definition co_if :: "bool \<Rightarrow> ('s, unit) co \<Rightarrow> ('s, unit) co" where
  "co_if b c = (if b then c else co_return ())"

primrec run_catch :: "('s, 'a) run \<Rightarrow> (thrown \<Rightarrow> ('s, 'a) co) \<Rightarrow> ('s, 'a) co" where
  "run_catch (Finished a) h = co_return a"
| "run_catch (Failed e) h = h e"
| "run_catch (Waiting qs k) h =
     (\<lambda>s. (Waiting qs (\<lambda>j r s1. case map_prod (\<lambda>m. run_catch m h) id (k j r s1) of (g, s2) \<Rightarrow> g s2), s))"

definition co_catch :: "('s, 'a) co \<Rightarrow> (thrown \<Rightarrow> ('s, 'a) co) \<Rightarrow> ('s, 'a) co" where
  "co_catch c h s = (case c s of (m, s1) \<Rightarrow> run_catch m h s1)"

text \<open>The blocks of \<open>finally\<close> only change the state.\<close>

primrec run_finally :: "('s, 'a) run \<Rightarrow> ('s \<Rightarrow> 's) \<Rightarrow> ('s, 'a) co" where
  "run_finally (Finished a) fin = (\<lambda>s. (Finished a, fin s))"
| "run_finally (Failed e) fin = (\<lambda>s. (Failed e, fin s))"
| "run_finally (Waiting qs k) fin =
     (\<lambda>s. (Waiting qs (\<lambda>j r s1. case map_prod (\<lambda>m. run_finally m fin) id (k j r s1) of (g, s2) \<Rightarrow> g s2), s))"

definition co_finally :: "('s, 'a) co \<Rightarrow> ('s \<Rightarrow> 's) \<Rightarrow> ('s, 'a) co" where
  "co_finally c fin s = (case c s of (m, s1) \<Rightarrow> run_finally m fin s1)"

definition co_void :: "('s, 'a) co \<Rightarrow> ('s, unit) co" where
  "co_void c = co_bind c (\<lambda>_. co_return ())"

text \<open>\<open>Promise.all\<close> of two callbacks that make one request each, do not throw and return nothing.\<close>

record 's single_call =
  on_start :: "'s \<Rightarrow> 's"
  asked :: "json option api"
  on_answer :: "answer \<Rightarrow> 's \<Rightarrow> 's"

definition co_single :: "'s single_call \<Rightarrow> ('s, unit) co" where
  "co_single l s = (Waiting [asked l] (\<lambda>_ r s1. (Finished (), on_answer l r s1)), on_start l s)"

definition co_both :: "'s single_call \<Rightarrow> 's single_call \<Rightarrow> ('s, unit) co" where
  "co_both a b s =
     (Waiting [asked a, asked b]
        (\<lambda>j r s1. if j = 0
          then (Waiting [asked b] (\<lambda>_ r2 s2. (Finished (), on_answer b r2 s2)), on_answer a r s1)
          else (Waiting [asked a] (\<lambda>_ r2 s2. (Finished (), on_answer a r2 s2)), on_answer b r s1)),
      on_start b (on_start a s))"

lemmas co_defs = co_return_def co_raise_def co_do_def co_read_def co_await_def co_bind_def co_then_def
  co_if_def co_catch_def co_finally_def co_void_def co_single_def co_both_def

subsection \<open>The state of a hook\<close>

definition put_flag :: "string \<Rightarrow> bool \<Rightarrow> 'z hook_scheme \<Rightarrow> 'z hook_scheme" where
  "put_flag k b h = h\<lparr>flags := (flags h)(k := b)\<rparr>"

definition put_message :: "string \<Rightarrow> string option \<Rightarrow> 'z hook_scheme \<Rightarrow> 'z hook_scheme" where
  "put_message k e h = h\<lparr>messages_of := (messages_of h)(k := e)\<rparr>"

definition put_data :: "string \<Rightarrow> json option \<Rightarrow> 'z hook_scheme \<Rightarrow> 'z hook_scheme" where
  "put_data k v h = h\<lparr>vars := (vars h)(k := v)\<rparr>"

definition co_property :: "json option \<Rightarrow> string \<Rightarrow> ('s, json option) co" where
  "co_property v k =
     (case v of None \<Rightarrow> co_raise NoObject | Some JNull \<Rightarrow> co_raise NoObject | Some j \<Rightarrow> co_return (member j k))"

definition co_report :: "env \<Rightarrow> string \<Rightarrow> string \<Rightarrow> thrown \<Rightarrow> ('z hook_scheme, unit) co" where
  "co_report env k fallback e = co_do (put_message k (Some (extract_error_message env e fallback)))"

text \<open>A server that answers everything with \<open>null\<close>.\<close>

definition sample_host_env :: env where
  "sample_host_env =
     \<lparr>srv = (\<lambda>n q. \<lparr>latency = 10, outcome = Reply (reply 200 ''OK'' None (Some JNull)), body_latency = 5\<rparr>),
      host_text = (\<lambda>_. ''error'')\<rparr>"

text \<open>An answer that is no JSON value, as one.\<close>

definition answer_as :: "('a \<Rightarrow> json) \<Rightarrow> 'a api \<Rightarrow> json option api" where
  "answer_as f q s = map_prod (map_sum id (\<lambda>x. Some (f x))) id (q s)"

lemma put_selectors [simp]:
  "flags (put_flag k b h) = (flags h)(k := b)" "messages_of (put_flag k b h) = messages_of h"
  "vars (put_flag k b h) = vars h"
  "flags (put_message k e h) = flags h" "messages_of (put_message k e h) = (messages_of h)(k := e)"
  "vars (put_message k e h) = vars h"
  "flags (put_data k v h) = flags h" "messages_of (put_data k v h) = messages_of h"
  "vars (put_data k v h) = (vars h)(k := v)"
  "hook.more (put_flag k b h) = hook.more h" "hook.more (put_message k e h) = hook.more h"
  "hook.more (put_data k v h) = hook.more h"
  by (simp_all add: put_flag_def put_message_def put_data_def)

subsection \<open>The scheduler\<close>

type_synonym 's schedule = "'s \<times> ('s, unit) run list"

text \<open>A callback is called, a request of one that waits is answered, or the state is changed otherwise.\<close>

datatype 's happening =
    Called "('s, unit) co"
  | Answered nat nat answer
  | Changed "'s \<Rightarrow> 's"

fun resumed :: "('s, 'a) run \<Rightarrow> nat \<Rightarrow> answer \<Rightarrow> 's \<Rightarrow> ('s, 'a) run \<times> 's" where
  "resumed (Waiting qs k) j r s = (if j < length qs then k j r s else (Waiting qs k, s))"
| "resumed m j r s = (m, s)"

fun happens :: "'s happening \<Rightarrow> 's schedule \<Rightarrow> 's schedule" where
  "happens (Called c) (s, ms) = (case c s of (m, s1) \<Rightarrow> (s1, ms @ [m]))"
| "happens (Answered i j r) (s, ms) =
     (if i < length ms then (case resumed (ms ! i) j r s of (m, s1) \<Rightarrow> (s1, ms[i := m])) else (s, ms))"
| "happens (Changed f) (s, ms) = (f s, ms)"

definition happened :: "'s happening list \<Rightarrow> 's \<Rightarrow> 's schedule" where
  "happened es s = fold happens es (s, [])"

subsection \<open>What callbacks keep\<close>

text \<open>
  \<open>steady I m\<close>: whenever \<open>m\<close> is resumed in a state with \<open>I\<close> it leaves one with \<open>I\<close>, whatever the
  answers.  \<open>silent P m\<close>: whenever \<open>m\<close> is resumed in a state with \<open>P\<close> it changes nothing.
\<close>

inductive steady :: "('s \<Rightarrow> bool) \<Rightarrow> ('s, 'a) run \<Rightarrow> bool" for I where
  steady_finished: "steady I (Finished a)"
| steady_failed: "steady I (Failed e)"
| steady_waiting:
    "(\<And>j r s. I s \<Longrightarrow> I (snd (k j r s))) \<Longrightarrow> (\<And>j r s. I s \<Longrightarrow> steady I (fst (k j r s))) \<Longrightarrow>
     steady I (Waiting qs k)"

inductive silent :: "('s \<Rightarrow> bool) \<Rightarrow> ('s, 'a) run \<Rightarrow> bool" for P where
  silent_finished: "silent P (Finished a)"
| silent_failed: "silent P (Failed e)"
| silent_waiting:
    "(\<And>j r s. P s \<Longrightarrow> snd (k j r s) = s) \<Longrightarrow> (\<And>j r s. silent P (fst (k j r s))) \<Longrightarrow>
     silent P (Waiting qs k)"

inductive_cases steady_waitingE [elim!]: "steady I (Waiting qs k)"
inductive_cases silent_waitingE [elim!]: "silent P (Waiting qs k)"

declare steady_finished [simp, intro] steady_failed [simp, intro]
declare silent_finished [simp, intro] silent_failed [simp, intro]

definition keeps :: "('s \<Rightarrow> bool) \<Rightarrow> ('s, 'a) co \<Rightarrow> bool" where
  "keeps I c \<longleftrightarrow> (\<forall>s. I s \<longrightarrow> I (snd (c s)) \<and> steady I (fst (c s)))"

lemma co_keepsI: "(\<And>s. I s \<Longrightarrow> I (snd (c s))) \<Longrightarrow> (\<And>s. I s \<Longrightarrow> steady I (fst (c s))) \<Longrightarrow> keeps I c"
  by (simp add: keeps_def)

lemma keepsD: "keeps I c \<Longrightarrow> I s \<Longrightarrow> I (snd (c s))" "keeps I c \<Longrightarrow> I s \<Longrightarrow> steady I (fst (c s))"
  by (simp_all add: keeps_def)

named_theorems keeps_intros

lemma keeps_return [keeps_intros]: "keeps I (co_return a)"
  by (simp add: keeps_def co_return_def)

lemma keeps_raise [keeps_intros]: "keeps I (co_raise e)"
  by (simp add: keeps_def co_raise_def)

lemma keeps_read [keeps_intros]: "keeps I (co_read f)"
  by (simp add: keeps_def co_read_def)

lemma keeps_do [keeps_intros]: "(\<And>s. I s \<Longrightarrow> I (f s)) \<Longrightarrow> keeps I (co_do f)"
  by (simp add: keeps_def co_do_def)

lemma keeps_await [keeps_intros]: "keeps I (co_await q)"
  by (auto simp: keeps_def co_await_def intro!: steady_waiting split: sum.splits)

lemma keeps_if [keeps_intros]: "(b \<Longrightarrow> keeps I c) \<Longrightarrow> keeps I (co_if b c)"
  by (simp add: keeps_def co_if_def co_return_def)

text \<open>The next step of a waiting coroutine, without the product.\<close>

lemma run_waiting [simp]:
  "run_bind (Waiting qs k) f s =
     (Waiting qs (\<lambda>j r s1. run_bind (fst (k j r s1)) f (snd (k j r s1))), s)"
  "run_catch (Waiting qs k) h s =
     (Waiting qs (\<lambda>j r s1. run_catch (fst (k j r s1)) h (snd (k j r s1))), s)"
  "run_finally (Waiting qs k) fin s =
     (Waiting qs (\<lambda>j r s1. run_finally (fst (k j r s1)) fin (snd (k j r s1))), s)"
  by (simp_all add: case_prod_unfold)

declare run_bind.simps(3) [simp del] run_catch.simps(3) [simp del] run_finally.simps(3) [simp del]

lemma keeps_ite [keeps_intros]:
  "(b \<Longrightarrow> keeps I c) \<Longrightarrow> (\<not> b \<Longrightarrow> keeps I d) \<Longrightarrow> keeps I (if b then c else d)"
  by simp

lemma run_bind_keeps:
  assumes f: "\<And>a. keeps I (f a)"
  shows "steady I m \<Longrightarrow> I s \<Longrightarrow> I (snd (run_bind m f s)) \<and> steady I (fst (run_bind m f s))"
proof (induction m arbitrary: s rule: steady.induct)
  case (steady_waiting k qs)
  then show ?case by (simp add: steady.steady_waiting)
qed (use f in \<open>simp_all add: keeps_def co_raise_def\<close>)

lemma run_catch_keeps:
  assumes f: "\<And>e. keeps I (h e)"
  shows "steady I m \<Longrightarrow> I s \<Longrightarrow> I (snd (run_catch m h s)) \<and> steady I (fst (run_catch m h s))"
proof (induction m arbitrary: s rule: steady.induct)
  case (steady_waiting k qs)
  then show ?case by (simp add: steady.steady_waiting)
qed (use f in \<open>simp_all add: keeps_def co_return_def\<close>)

lemma run_finally_keeps:
  assumes f: "\<And>s. I s \<Longrightarrow> I (fin s)"
  shows "steady I m \<Longrightarrow> I s \<Longrightarrow> I (snd (run_finally m fin s)) \<and> steady I (fst (run_finally m fin s))"
proof (induction m arbitrary: s rule: steady.induct)
  case (steady_waiting k qs)
  then show ?case by (simp add: steady.steady_waiting)
qed (use f in simp_all)

lemma keeps_bind [keeps_intros]: "keeps I c \<Longrightarrow> (\<And>a. keeps I (f a)) \<Longrightarrow> keeps I (co_bind c f)"
  using run_bind_keeps [of I f] by (simp add: keeps_def co_bind_def case_prod_unfold)

lemma keeps_then [keeps_intros]: "keeps I c \<Longrightarrow> keeps I d \<Longrightarrow> keeps I (co_then c d)"
  by (simp add: co_then_def keeps_bind)

lemma keeps_catch [keeps_intros]: "keeps I c \<Longrightarrow> (\<And>e. keeps I (h e)) \<Longrightarrow> keeps I (co_catch c h)"
  using run_catch_keeps [of I h] by (simp add: keeps_def co_catch_def case_prod_unfold)

lemma keeps_finally [keeps_intros]: "keeps I c \<Longrightarrow> (\<And>s. I s \<Longrightarrow> I (fin s)) \<Longrightarrow> keeps I (co_finally c fin)"
proof (rule co_keepsI)
  fix s
  assume c: "keeps I c" and fin: "\<And>s. I s \<Longrightarrow> I (fin s)" and s: "I s"
  show "I (snd (co_finally c fin s))" and "steady I (fst (co_finally c fin s))"
    using run_finally_keeps [OF fin keepsD(2) [OF c s] keepsD(1) [OF c s]]
    by (simp_all add: co_finally_def case_prod_unfold)
qed

lemma keeps_void [keeps_intros]: "keeps I c \<Longrightarrow> keeps I (co_void c)"
  by (simp add: co_void_def keeps_bind keeps_return)

lemma keeps_single [keeps_intros]:
  "(\<And>s. I s \<Longrightarrow> I (on_start a s)) \<Longrightarrow> (\<And>r s. I s \<Longrightarrow> I (on_answer a r s)) \<Longrightarrow> keeps I (co_single a)"
  by (simp add: keeps_def co_single_def steady_waiting)

lemma keeps_both [keeps_intros]:
  "(\<And>s. I s \<Longrightarrow> I (on_start a s)) \<Longrightarrow> (\<And>r s. I s \<Longrightarrow> I (on_answer a r s)) \<Longrightarrow>
   (\<And>s. I s \<Longrightarrow> I (on_start b s)) \<Longrightarrow> (\<And>r s. I s \<Longrightarrow> I (on_answer b r s)) \<Longrightarrow> keeps I (co_both a b)"
  by (auto simp: keeps_def co_both_def intro!: steady_waiting)

lemma keeps_report [keeps_intros]:
  "(\<And>s. I s \<Longrightarrow> I (put_message k (Some (extract_error_message env e fallback)) s)) \<Longrightarrow> keeps I (co_report env k fallback e)"
  by (simp add: co_report_def keeps_do)

lemma keeps_property [keeps_intros]: "keeps I (co_property v k)"
  by (simp add: co_property_def keeps_return keeps_raise split: option.split json.split)

text \<open>Every schedule of callbacks that keep \<open>I\<close> keeps it: nothing is required of the order of calls and
  answers.\<close>

definition allowed :: "('s \<Rightarrow> bool) \<Rightarrow> 's happening \<Rightarrow> bool" where
  "allowed I e =
     (case e of Called c \<Rightarrow> keeps I c | Answered i j r \<Rightarrow> True | Changed f \<Rightarrow> (\<forall>s. I s \<longrightarrow> I (f s)))"

lemma resumed_steady:
  "steady I m \<Longrightarrow> I s \<Longrightarrow> I (snd (resumed m j r s)) \<and> steady I (fst (resumed m j r s))"
  by (cases m) (auto intro: steady_waiting)

lemma happens_steady:
  assumes "allowed I e" and "I (fst w)" and "list_all (steady I) (snd w)"
  shows "I (fst (happens e w)) \<and> list_all (steady I) (snd (happens e w))"
proof -
  obtain s ms where w: "w = (s, ms)" by (cases w)
  show ?thesis
  proof (cases e)
    case (Called c)
    then show ?thesis using assms by (simp add: w allowed_def keeps_def case_prod_unfold)
  next
    case (Answered i j r)
    have "steady I (ms ! i)" if "i < length ms" using assms that by (simp add: w list_all_length)
    then show ?thesis
      using assms resumed_steady [of I "ms ! i" s j r] Answered
      by (auto simp: w list_all_iff case_prod_unfold dest!: set_update_subset_insert [THEN subsetD])
  next
    case (Changed f)
    then show ?thesis using assms by (simp add: w allowed_def)
  qed
qed

lemma happened_steady:
  assumes "list_all (allowed I) es" and "I s"
  shows "I (fst (happened es s)) \<and> list_all (steady I) (snd (happened es s))"
proof -
  have "I (fst w) \<Longrightarrow> list_all (steady I) (snd w) \<Longrightarrow>
      I (fst (fold happens es w)) \<and> list_all (steady I) (snd (fold happens es w))" for w
    using assms(1)
  proof (induction es arbitrary: w)
    case (Cons e es)
    then show ?case using happens_steady [of I e w] by simp
  qed simp
  then show ?thesis using assms(2) by (simp add: happened_def)
qed

subsection \<open>Callbacks that have become stale\<close>

text \<open>\<open>quiet P c\<close>: called in a state with \<open>P\<close> it changes nothing, and it is silent afterwards.\<close>

definition quiet :: "('s \<Rightarrow> bool) \<Rightarrow> ('s, 'a) co \<Rightarrow> bool" where
  "quiet P c \<longleftrightarrow> (\<forall>s. (P s \<longrightarrow> snd (c s) = s) \<and> silent P (fst (c s)))"

lemma quietD: "quiet P c \<Longrightarrow> P s \<Longrightarrow> snd (c s) = s" "quiet P c \<Longrightarrow> silent P (fst (c s))"
  by (simp_all add: quiet_def)

lemma quiet_return: "quiet P (co_return a)"
  by (simp add: quiet_def co_return_def)

lemma quiet_await: "quiet P (co_await q)"
  by (auto simp: quiet_def co_await_def intro!: silent_waiting split: sum.splits)

lemma run_bind_quiet:
  assumes f: "\<And>a. quiet P (f a)"
  shows "silent P m \<Longrightarrow> (P s \<longrightarrow> snd (run_bind m f s) = s) \<and> silent P (fst (run_bind m f s))"
proof (induction m arbitrary: s rule: silent.induct)
  case (silent_waiting k qs)
  then show ?case by (simp add: silent.silent_waiting)
qed (use f in \<open>simp_all add: quiet_def co_raise_def\<close>)

lemma run_catch_quiet:
  assumes f: "\<And>e. quiet P (h e)"
  shows "silent P m \<Longrightarrow> (P s \<longrightarrow> snd (run_catch m h s) = s) \<and> silent P (fst (run_catch m h s))"
proof (induction m arbitrary: s rule: silent.induct)
  case (silent_waiting k qs)
  then show ?case by (simp add: silent.silent_waiting)
qed (use f in \<open>simp_all add: quiet_def co_return_def\<close>)

lemma run_finally_quiet:
  assumes f: "\<And>s. P s \<Longrightarrow> fin s = s"
  shows "silent P m \<Longrightarrow> (P s \<longrightarrow> snd (run_finally m fin s) = s) \<and> silent P (fst (run_finally m fin s))"
proof (induction m arbitrary: s rule: silent.induct)
  case (silent_waiting k qs)
  then show ?case by (simp add: silent.silent_waiting)
qed (use f in simp_all)

lemma quiet_bind: "quiet P c \<Longrightarrow> (\<And>a. quiet P (f a)) \<Longrightarrow> quiet P (co_bind c f)"
  using run_bind_quiet [of P f] by (simp add: quiet_def co_bind_def case_prod_unfold)

lemma quiet_catch: "quiet P c \<Longrightarrow> (\<And>e. quiet P (h e)) \<Longrightarrow> quiet P (co_catch c h)"
  using run_catch_quiet [of P h] by (simp add: quiet_def co_catch_def case_prod_unfold)

lemma quiet_finally: "quiet P c \<Longrightarrow> (\<And>s. P s \<Longrightarrow> fin s = s) \<Longrightarrow> quiet P (co_finally c fin)"
proof -
  assume c: "quiet P c" and fin: "\<And>s. P s \<Longrightarrow> fin s = s"
  show ?thesis
    unfolding quiet_def
    using run_finally_quiet [OF fin quietD(2) [OF c]] quietD(1) [OF c]
    by (simp add: co_finally_def case_prod_unfold)
qed

lemma silent_bind:
  "silent P (fst (c s)) \<Longrightarrow> (\<And>a. quiet P (f a)) \<Longrightarrow> silent P (fst (co_bind c f s))"
  using run_bind_quiet [of P f "fst (c s)"] by (simp add: co_bind_def case_prod_unfold)

lemma try_after_do:
  "co_finally (co_catch (co_then (co_do f) c) h) fin s = co_finally (co_catch c h) fin (f s)"
  by (simp add: co_defs)

text \<open>Whatever happens to it, and to the state beside it, a silent callback leaves the state to the
  others.\<close>

definition change_of :: "'s happening \<Rightarrow> 's \<Rightarrow> 's" where
  "change_of e = (case e of Changed f \<Rightarrow> f | Called c \<Rightarrow> id | Answered i j r \<Rightarrow> id)"

definition only_changes :: "('s \<Rightarrow> bool) \<Rightarrow> 's happening \<Rightarrow> bool" where
  "only_changes P e =
     (case e of Called c \<Rightarrow> False | Answered i j r \<Rightarrow> True | Changed f \<Rightarrow> (\<forall>s. P s \<longrightarrow> P (f s)))"

lemma resumed_silent:
  "silent P m \<Longrightarrow> silent P (fst (resumed m j r s)) \<and> (P s \<longrightarrow> snd (resumed m j r s) = s)"
  by (cases m) (auto intro: silent_waiting)

lemma silent_without_effect:
  assumes "silent P m" and "P s" and "list_all (only_changes P) es"
  shows "fst (fold happens es (s, [m])) = fold change_of es s"
  using assms
proof (induction es arbitrary: s m)
  case (Cons e es)
  show ?case
  proof (cases e)
    case (Called c)
    then show ?thesis using Cons.prems by (simp add: only_changes_def)
  next
    case (Answered i j r)
    then show ?thesis
      using Cons.prems Cons.IH [of "fst (resumed m j r s)" s] Cons.IH [of m s] resumed_silent [of P m j r s]
      by (cases "i = 0") (simp_all add: change_of_def case_prod_unfold)
  next
    case (Changed f)
    then show ?thesis using Cons by (simp add: only_changes_def change_of_def)
  qed
qed simp

subsection \<open>Loads of which the latest counts\<close>

text \<open>
  A load that takes a ticket when it starts and drops its answer when the ticket is not the latest any
  more: of several under way at once the last one called decides, in whatever order they are answered.
\<close>

locale latest_call =
  fixes ticket :: "'s \<Rightarrow> nat" and call :: "'p \<Rightarrow> nat \<Rightarrow> 's single_call"
  assumes takes_ticket: "ticket (on_start (call p n) s) = Suc (ticket s)"
    and drops: "ticket s \<noteq> n \<Longrightarrow> on_answer (call p n) r s = s"
    and keeps_ticket: "ticket (on_answer (call p n) r s) = ticket s"
begin

lemma starts:
  "fold happens (map (\<lambda>p. Called (\<lambda>s. co_single (call p (Suc (ticket s))) s)) ps) (s, ms) =
     (fold (\<lambda>p s. on_start (call p (Suc (ticket s))) s) ps s,
      ms @ map (\<lambda>i. fst (co_single (call (ps ! i) (ticket s + Suc i)) s)) [0..<length ps])"
proof (induction ps arbitrary: s ms)
  case (Cons p ps)
  have "map (\<lambda>i. fst (co_single (call ((p # ps) ! i) (ticket s + Suc i)) s)) [0..<length (p # ps)] =
      fst (co_single (call p (Suc (ticket s))) s) #
      map (\<lambda>i. fst (co_single (call (ps ! i) (ticket s + Suc (Suc i))) s)) [0..<length ps]"
    by (simp add: upt_conv_Cons del: upt_Suc) (simp add: map_Suc_upt [symmetric] comp_def co_single_def del: upt_Suc)
  then show ?case
    using Cons [of "on_start (call p (Suc (ticket s))) s"]
    by (simp add: takes_ticket co_single_def)
qed simp

lemma tickets_taken:
  "ticket (fold (\<lambda>p s. on_start (call p (Suc (ticket s))) s) ps s) = ticket s + length ps"
  by (induction ps arbitrary: s) (simp_all add: takes_ticket)

lemma answers:
  assumes "\<And>i. i \<in> set (map fst as) \<Longrightarrow>
      i < length ms \<and> ms ! i = fst (co_single (call (ps ! i) (t + Suc i)) z)"
    and "distinct (map fst as)" and "ticket s = t + length ps" and "ps \<noteq> []"
  shows "fst (fold happens (map (\<lambda>(i, r). Answered i 0 r) as) (s, ms)) =
    (case map_of as (length ps - 1) of
       None \<Rightarrow> s | Some r \<Rightarrow> on_answer (call (last ps) (t + length ps)) r s)"
  using assms
proof (induction as arbitrary: s ms)
  case (Cons a as)
  obtain i r where a: "a = (i, r)" by (cases a)
  have i: "i < length ms" "ms ! i = fst (co_single (call (ps ! i) (t + Suc i)) z)"
    using Cons.prems(1) [of i] by (simp_all add: a)
  define s1 where "s1 = on_answer (call (ps ! i) (t + Suc i)) r s"
  have ticket: "ticket s1 = t + length ps" using Cons.prems by (simp add: s1_def keeps_ticket)
  have fresh: "i \<notin> fst ` set as" using Cons.prems(2) by (simp add: a)
  have "fst (fold happens (map (\<lambda>(i, r). Answered i 0 r) (a # as)) (s, ms)) =
      fst (fold happens (map (\<lambda>(i, r). Answered i 0 r) as) (s1, ms[i := Finished ()]))"
    using i by (simp add: a co_single_def s1_def)
  also have "\<dots> = (case map_of as (length ps - 1) of
      None \<Rightarrow> s1 | Some r \<Rightarrow> on_answer (call (last ps) (t + length ps)) r s1)"
  proof (rule Cons.IH [OF _ _ ticket Cons.prems(4)])
    fix j
    assume "j \<in> set (map fst as)"
    moreover then have "j \<noteq> i" using fresh by auto
    ultimately show "j < length (ms[i := Finished ()]) \<and>
        ms[i := Finished ()] ! j = fst (co_single (call (ps ! j) (t + Suc j)) z)"
      using Cons.prems(1) [of j] by simp
  qed (use Cons.prems in \<open>simp add: a\<close>)
  also have "\<dots> = (case map_of (a # as) (length ps - 1) of
      None \<Rightarrow> s | Some r \<Rightarrow> on_answer (call (last ps) (t + length ps)) r s)"
  proof (cases "i = length ps - 1")
    case True
    then have "map_of as (length ps - 1) = None" using fresh by (simp add: map_of_eq_None_iff)
    moreover have "ps ! i = last ps" "t + Suc i = t + length ps"
      using True Cons.prems(4) by (simp_all add: last_conv_nth)
    ultimately show ?thesis using True by (simp add: a s1_def)
  next
    case False
    then have "t + Suc i \<noteq> ticket s" using Cons.prems(3,4) by (cases ps) auto
    then have "s1 = s" by (simp add: s1_def drops)
    then show ?thesis using False by (simp add: a split: option.split)
  qed
  finally show ?case .
qed simp

lemma latest_wins:
  assumes "ps \<noteq> []" and "distinct (map fst as)" and "\<forall>i \<in> set (map fst as). i < length ps"
    and "map_of as (length ps - 1) = Some r"
  shows "fst (happened (map (\<lambda>p. Called (\<lambda>s. co_single (call p (Suc (ticket s))) s)) ps @
      map (\<lambda>(i, r). Answered i 0 r) as) s) =
    on_answer (call (last ps) (ticket s + length ps)) r (fold (\<lambda>p s. on_start (call p (Suc (ticket s))) s) ps s)"
proof -
  define s1 where "s1 = fold (\<lambda>p s. on_start (call p (Suc (ticket s))) s) ps s"
  have "fst (fold happens (map (\<lambda>(i, r). Answered i 0 r) as)
      (s1, map (\<lambda>i. fst (co_single (call (ps ! i) (ticket s + Suc i)) s)) [0..<length ps])) =
    on_answer (call (last ps) (ticket s + length ps)) r s1"
    by (subst answers [where ps = ps and t = "ticket s" and z = s])
      (use assms in \<open>auto simp: s1_def tickets_taken\<close>)
  then show ?thesis by (simp add: happened_def starts s1_def)
qed

end

subsection \<open>Callbacks end\<close>

text \<open>After at most \<open>n\<close> answers, whichever they are and whatever happens between them, it has ended.\<close>

fun ends_within :: "nat \<Rightarrow> ('s, 'a) run \<Rightarrow> bool" where
  "ends_within n (Finished a) = True"
| "ends_within n (Failed e) = True"
| "ends_within 0 (Waiting qs k) = False"
| "ends_within (Suc n) (Waiting qs k) = (qs \<noteq> [] \<and> (\<forall>j r s. ends_within n (fst (k j r s))))"

definition ends :: "nat \<Rightarrow> ('s, 'a) co \<Rightarrow> bool" where
  "ends n c \<longleftrightarrow> (\<forall>s. ends_within n (fst (c s)))"

lemma ends_within_mono: "ends_within n m \<Longrightarrow> n \<le> n' \<Longrightarrow> ends_within n' m"
proof (induction n m arbitrary: n' rule: ends_within.induct)
  case (4 n qs k)
  then show ?case by (cases n') auto
qed auto

lemma ends_mono: "ends n c \<Longrightarrow> n \<le> n' \<Longrightarrow> ends n' c"
  unfolding ends_def using ends_within_mono by blast

lemma run_bind_ends:
  assumes "\<And>a. ends n' (f a)"
  shows "ends_within n m \<Longrightarrow> ends_within (n + n') (fst (run_bind m f s))"
proof (induction n m arbitrary: s rule: ends_within.induct)
  case (1 n a)
  show ?case using assms [of a] ends_within_mono [of n' "fst (f a s)" "n + n'"] by (simp add: ends_def)
qed (simp_all add: co_raise_def)

lemma run_catch_ends:
  assumes "\<And>e. ends n' (h e)"
  shows "ends_within n m \<Longrightarrow> ends_within (n + n') (fst (run_catch m h s))"
proof (induction n m arbitrary: s rule: ends_within.induct)
  case (2 n e)
  show ?case using assms [of e] ends_within_mono [of n' "fst (h e s)" "n + n'"] by (simp add: ends_def)
qed (simp_all add: co_return_def)

lemma run_finally_ends: "ends_within n m \<Longrightarrow> ends_within n (fst (run_finally m fin s))"
  by (induction n m arbitrary: s rule: ends_within.induct) simp_all

named_theorems ends_intros

lemma ends_statements [ends_intros]:
  "ends n (co_return a)" "ends n (co_raise e)" "ends n (co_do f)" "ends n (co_read g)"
  by (simp_all add: ends_def co_defs)

lemma ends_await: "ends 1 (co_await q)"
  by (simp add: ends_def co_await_def split: sum.split)

lemma ends_bind: "ends n c \<Longrightarrow> (\<And>a. ends n' (f a)) \<Longrightarrow> ends (n + n') (co_bind c f)"
  using run_bind_ends [of n' f n] by (simp add: ends_def co_bind_def case_prod_unfold)

lemma ends_catch: "ends n c \<Longrightarrow> (\<And>e. ends n' (h e)) \<Longrightarrow> ends (n + n') (co_catch c h)"
  using run_catch_ends [of n' h n] by (simp add: ends_def co_catch_def case_prod_unfold)

lemma ends_finally [ends_intros]: "ends n c \<Longrightarrow> ends n (co_finally c fin)"
  by (simp add: ends_def co_finally_def case_prod_unfold run_finally_ends)

text \<open>The statements that wait for nothing, before and after others.\<close>

lemma ends_quick [ends_intros]:
  "(\<And>a. ends n (f a)) \<Longrightarrow> ends n (co_bind (co_read g) f)"
  "ends n d \<Longrightarrow> ends n (co_then (co_do h) d)"
  "(\<And>a. ends n (f' a)) \<Longrightarrow> ends (Suc n) (co_bind (co_await q) f')"
  "ends n c \<Longrightarrow> (\<And>e. ends 0 (handler e)) \<Longrightarrow> ends n (co_catch c handler)"
  "ends n c' \<Longrightarrow> ends n (co_then c' (co_return x))"
  "ends n c'' \<Longrightarrow> ends n (co_void c'')"
  using ends_bind [of 0 "co_read g" n f] ends_bind [of 0 "co_do h" n "\<lambda>_. d"] ends_bind [OF ends_await, of n f']
    ends_catch [of n c 0 handler] ends_bind [of n c' 0 "\<lambda>_. co_return x"] ends_bind [of n c'' 0 "\<lambda>_. co_return ()"]
  by (simp_all add: ends_statements co_then_def co_void_def)

lemma ends_calls [simp]:
  "ends_within (Suc n) (fst (co_single l s))" "ends_within (Suc (Suc n)) (fst (co_both a b s))"
  by (simp_all add: co_single_def co_both_def)

lemma ends_report [ends_intros]: "ends n (co_report env k fallback e)"
  by (simp add: co_report_def ends_statements)

lemma ends_after_report [ends_intros]: "ends n d \<Longrightarrow> ends n (co_then (co_report env k fallback e) d)"
  by (simp add: co_report_def ends_quick)

lemma ends_property [ends_intros]: "ends n (co_property v k)"
  by (simp add: co_property_def ends_statements split: option.split json.split)

lemma ends_after_property [ends_intros]: "(\<And>a. ends n (f a)) \<Longrightarrow> ends n (co_bind (co_property v k) f)"
  using ends_bind [of 0 "co_property v k" n f] by (simp add: ends_property)

text \<open>Resumed with one of the answers that it waits for, in any state.\<close>

definition waiting_for :: "('s, 'a) run \<Rightarrow> nat" where
  "waiting_for m = (case m of Waiting qs k \<Rightarrow> length qs | Finished a \<Rightarrow> 0 | Failed e \<Rightarrow> 0)"

definition resume_one :: "nat \<times> answer \<times> 's \<Rightarrow> ('s, 'a) run \<Rightarrow> ('s, 'a) run" where
  "resume_one x m = (case x of (j, r, s) \<Rightarrow> fst (resumed m (j mod waiting_for m) r s))"

lemma ended_after: "ends_within (length xs) m \<Longrightarrow> waiting_for (fold resume_one xs m) = 0"
proof (induction xs arbitrary: m)
  case Nil
  then show ?case by (cases m) (simp_all add: waiting_for_def)
next
  case (Cons x xs)
  have "ends_within (length xs) (resume_one x m)"
    using Cons.prems by (cases m; cases x) (simp_all add: resume_one_def waiting_for_def)
  then show ?case using Cons.IH by simp
qed

subsection \<open>Callbacks that are not interrupted\<close>

text \<open>
  Run against the client from its call to its end, the first of several requests first, a coroutine on
  the state of a data hook is the action of \<open>Hook_Monad\<close> with the same statements.
\<close>

primrec run_through :: "(hook, 'a) run \<Rightarrow> 'a action" where
  "run_through (Finished a) = finish_with a"
| "run_through (Failed e) = throw e"
| "run_through (Waiting qs k) =
     (\<lambda>w. case hd qs (snd w) of (r, h1) \<Rightarrow>
        (case map_prod run_through id (k 0 r (fst w)) of (g, s1) \<Rightarrow> g (s1, h1)))"

definition through :: "(hook, 'a) co \<Rightarrow> 'a action" where
  "through c w = (case c (fst w) of (m, s1) \<Rightarrow> run_through m (s1, snd w))"

lemma run_through_waiting [simp]:
  "run_through (Waiting qs k) (s, h) =
     run_through (fst (k 0 (fst (hd qs h)) s)) (snd (k 0 (fst (hd qs h)) s), snd (hd qs h))"
  by (simp add: case_prod_unfold)

declare run_through.simps(3) [simp del]

lemma run_through_bind:
  "run_through (fst (run_bind m f s)) (snd (run_bind m f s), h) =
     bind (run_through m) (\<lambda>a. through (f a)) (s, h)"
proof (induction m arbitrary: s h)
  case (Waiting qs k)
  have "run_through (fst (run_bind (fst p) f s1)) (snd (run_bind (fst p) f s1), h1) =
      bind (run_through (fst p)) (\<lambda>a. through (f a)) (s1, h1)" if "p = k 0 r s" for p r s1 h1
    using Waiting [of "k 0" "k 0 r" "k 0 r s" "fst p" s1 h1] that by (auto intro: fsts.intros)
  then show ?case by (simp add: bind_def)
qed (simp_all add: bind_def finish_with_def throw_def co_raise_def through_def case_prod_unfold)

lemma run_through_catch:
  "run_through (fst (run_catch m g s)) (snd (run_catch m g s), h) =
     try_catch (run_through m) (\<lambda>e. through (g e)) (s, h)"
proof (induction m arbitrary: s h)
  case (Waiting qs k)
  have "run_through (fst (run_catch (fst p) g s1)) (snd (run_catch (fst p) g s1), h1) =
      try_catch (run_through (fst p)) (\<lambda>e. through (g e)) (s1, h1)" if "p = k 0 r s" for p r s1 h1
    using Waiting [of "k 0" "k 0 r" "k 0 r s" "fst p" s1 h1] that by (auto intro: fsts.intros)
  then show ?case by (simp add: try_catch_def)
qed (simp_all add: try_catch_def finish_with_def throw_def co_return_def through_def case_prod_unfold)

lemma run_through_finally:
  "run_through (fst (run_finally m fin s)) (snd (run_finally m fin s), h) =
     try_finally (run_through m) (update_hook fin) (s, h)"
proof (induction m arbitrary: s h)
  case (Waiting qs k)
  have "run_through (fst (run_finally (fst p) fin s1)) (snd (run_finally (fst p) fin s1), h1) =
      try_finally (run_through (fst p)) (update_hook fin) (s1, h1)" if "p = k 0 r s" for p r s1 h1
    using Waiting [of "k 0" "k 0 r" "k 0 r s" "fst p" s1 h1] that by (auto intro: fsts.intros)
  then show ?case by (simp add: try_finally_def)
qed (simp_all add: try_finally_def finish_with_def throw_def update_hook_def)

lemma through_bind: "through (co_bind c f) = bind (through c) (\<lambda>a. through (f a))"
proof
  fix w :: "hook \<times> http"
  show "through (co_bind c f) w = bind (through c) (\<lambda>a. through (f a)) w"
    using run_through_bind [of "fst (c (fst w))" f "snd (c (fst w))" "snd w"]
    by (simp add: through_def co_bind_def bind_def case_prod_unfold)
qed

lemma through_statements:
  "through (co_return a) = finish_with a"
  "through (co_raise e) = throw e"
  "through (co_do upd) = update_hook upd"
  "through (co_await q) = call_api q"
  "through (co_then c d) = andthen (through c) (through d)"
  "through (co_catch c g) = try_catch (through c) (\<lambda>e. through (g e))"
  "through (co_finally c upd) = try_finally (through c) (update_hook upd)"
proof -
  show "through (co_then c d) = andthen (through c) (through d)"
    by (simp add: co_then_def andthen_def through_bind)
  show "through (co_catch c g) = try_catch (through c) (\<lambda>e. through (g e))"
  proof
    fix w :: "hook \<times> http"
    show "through (co_catch c g) w = try_catch (through c) (\<lambda>e. through (g e)) w"
      using run_through_catch [of "fst (c (fst w))" g "snd (c (fst w))" "snd w"]
      by (simp add: through_def co_catch_def try_catch_def case_prod_unfold)
  qed
  show "through (co_finally c upd) = try_finally (through c) (update_hook upd)"
  proof
    fix w :: "hook \<times> http"
    show "through (co_finally c upd) w = try_finally (through c) (update_hook upd) w"
      using run_through_finally [of "fst (c (fst w))" upd "snd (c (fst w))" "snd w"]
      by (simp add: through_def co_finally_def try_finally_def case_prod_unfold)
  qed
qed (auto simp: fun_eq_iff through_def co_return_def co_raise_def co_do_def co_await_def finish_with_def throw_def
    update_hook_def call_api_def split: prod.splits sum.splits)

end
