(* ===== verification/Drupal_Hook.thy ===== *)
theory Drupal_Hook
  imports Coroutine Api_Drupal
begin

section \<open>The Drupal site of a project\<close>

text \<open>
  \<open>useDrupal\<close> of \<^verbatim>\<open>packages/api/hooks/use-drupal.ts\<close>, as coroutines: the hook guards itself against
  answers that come after the project has changed, with one counter for the project and one for each of
  three loads.  A callback has the project of the rendering that it was made in as an argument.
\<close>

subsection \<open>State\<close>

text \<open>The refs, and whether the last rendering had a site, on which effects depend.\<close>

record drupal = hook +
  request_id :: nat
  site_request :: nat
  sync_request :: nat
  staging_request :: nat
  modules_filter :: "string option"
  themes_filter :: "string option"
  site_connected :: bool

definition initial_drupal :: drupal where
  "initial_drupal =
     \<lparr>flags = (\<lambda>k. k = ''siteLoading''), messages_of = (\<lambda>_. None),
      vars = map_of [(''site'', JNull), (''config'', JNull), (''drushOutput'', JNull), (''syncStatus'', JNull),
        (''contentTypes'', JArr []), (''nodes'', JArr []), (''selectedBundle'', JNull), (''stagingStatus'', JNull),
        (''modules'', JArr []), (''themes'', JArr []), (''blocks'', JArr [])],
      request_id = 0, site_request = 0, sync_request = 0, staging_request = 0,
      modules_filter = None, themes_filter = None, site_connected = False\<rparr>"

type_synonym 'a drupal_co = "(drupal, 'a) co"

definition put_error :: "string option \<Rightarrow> drupal \<Rightarrow> drupal" where
  "put_error = put_message ''error''"

subsection \<open>The guarded loads\<close>

definition site_call :: "env \<Rightarrow> string \<Rightarrow> nat \<Rightarrow> drupal single_call" where
  "site_call env projectId n =
     \<lparr>on_start = (\<lambda>s. put_error None (put_flag ''siteLoading'' True (s\<lparr>site_request := Suc (site_request s)\<rparr>))),
      asked = getDrupalSite (srv env) projectId,
      on_answer = (\<lambda>r s. if site_request s \<noteq> n then s
        else put_flag ''siteLoading'' False
          (put_data ''site'' (case r of Inl e \<Rightarrow> Some JNull | Inr v \<Rightarrow> v) s))\<rparr>"

definition fetchSite :: "env \<Rightarrow> string \<Rightarrow> unit drupal_co" where
  "fetchSite env projectId s =
     (if projectId = [] then co_return () s
      else co_single (site_call env projectId (Suc (site_request s))) s)"

definition sync_call :: "env \<Rightarrow> string \<Rightarrow> nat \<Rightarrow> drupal single_call" where
  "sync_call env projectId n =
     \<lparr>on_start = (\<lambda>s. put_flag ''syncLoading'' True (s\<lparr>sync_request := Suc (sync_request s)\<rparr>)),
      asked = getDrupalSyncStatus (srv env) projectId,
      on_answer = (\<lambda>r s. if sync_request s \<noteq> n then s
        else put_flag ''syncLoading'' False
          (case r of Inl e \<Rightarrow> s | Inr v \<Rightarrow> put_data ''syncStatus'' v s))\<rparr>"

definition fetchSyncStatus :: "env \<Rightarrow> string \<Rightarrow> unit drupal_co" where
  "fetchSyncStatus env projectId s =
     (if projectId = [] then co_return () s
      else co_single (sync_call env projectId (Suc (sync_request s))) s)"

definition staging_call :: "env \<Rightarrow> string \<Rightarrow> nat \<Rightarrow> drupal single_call" where
  "staging_call env projectId n =
     \<lparr>on_start = (\<lambda>s. put_flag ''stagingLoading'' True (s\<lparr>staging_request := Suc (staging_request s)\<rparr>)),
      asked = getDrupalStagingStatus (srv env) projectId,
      on_answer = (\<lambda>r s. if staging_request s \<noteq> n then s
        else put_flag ''stagingLoading'' False
          (case r of Inl e \<Rightarrow> s | Inr v \<Rightarrow> put_data ''stagingStatus'' v s))\<rparr>"

definition fetchStagingStatus :: "env \<Rightarrow> string \<Rightarrow> unit drupal_co" where
  "fetchStagingStatus env projectId s =
     (if projectId = [] then co_return () s
      else co_single (staging_call env projectId (Suc (staging_request s))) s)"

definition refreshStaging :: "env \<Rightarrow> string \<Rightarrow> unit drupal_co" where
  "refreshStaging = fetchStagingStatus"

definition refreshSite :: "env \<Rightarrow> string \<Rightarrow> unit drupal_co" where
  "refreshSite = fetchSite"

text \<open>\<open>Promise.all([fetchSyncStatus(), fetchStagingStatus()])\<close>.\<close>

definition sync_and_staging :: "env \<Rightarrow> string \<Rightarrow> unit drupal_co" where
  "sync_and_staging env projectId s =
     (if projectId = [] then co_return () s
      else co_both (sync_call env projectId (Suc (sync_request s)))
             (staging_call env projectId (Suc (staging_request s))) s)"

subsection \<open>Callbacks that are guarded by the project\<close>

text \<open>
  \<open>guarded_load\<close> and \<open>guarded_operation\<close> are the two shapes: after the await and in the handlers
  nothing is done when the counter is no longer the one that was read at the call.
\<close>

definition if_current :: "nat \<Rightarrow> 'a drupal_co \<Rightarrow> 'a \<Rightarrow> 'a drupal_co" where
  "if_current rid c x s = (if request_id s = rid then c s else co_return x s)"

definition guarded_load ::
  "env \<Rightarrow> string \<Rightarrow> string \<Rightarrow> json option api \<Rightarrow> (json option \<Rightarrow> unit drupal_co) \<Rightarrow> unit drupal_co" where
  "guarded_load env flag fallback q store =
     co_bind (co_read request_id) (\<lambda>rid.
       co_finally
         (co_catch
           (co_then (co_do (put_flag flag True)) (co_then (co_do (put_error None))
             (co_bind (co_await q) (\<lambda>data. if_current rid (store data) ()))))
           (\<lambda>e. if_current rid (co_report env ''error'' fallback e) ()))
         (\<lambda>s. if request_id s = rid then put_flag flag False s else s))"

definition guarded_operation ::
  "env \<Rightarrow> string \<Rightarrow> string \<Rightarrow> json option api \<Rightarrow> unit drupal_co \<Rightarrow> json option option drupal_co" where
  "guarded_operation env flag fallback q reload =
     co_bind (co_read request_id) (\<lambda>rid.
       co_finally
         (co_catch
           (co_then (co_do (put_flag flag True)) (co_then (co_do (put_error None))
             (co_bind (co_await q) (\<lambda>result.
               if_current rid (co_then reload (co_return (Some result))) None))))
           (\<lambda>e. if_current rid (co_then (co_report env ''error'' fallback e) (co_return None)) None))
         (\<lambda>s. if request_id s = rid then put_flag flag False s else s))"

definition fetchContentTypes :: "env \<Rightarrow> string \<Rightarrow> unit drupal_co" where
  "fetchContentTypes env projectId =
     guarded_load env ''contentTypesLoading'' ''Failed to load content types''
       (getDrupalContentTypes (srv env) projectId) (\<lambda>data. co_do (put_data ''contentTypes'' data))"

definition store_member :: "string \<Rightarrow> string \<Rightarrow> json option \<Rightarrow> unit drupal_co" where
  "store_member x k data = co_bind (co_property data k) (\<lambda>v. co_do (put_data x v))"

definition fetchNodes :: "env \<Rightarrow> string \<Rightarrow> string \<Rightarrow> unit drupal_co" where
  "fetchNodes env projectId bundle =
     guarded_load env ''nodesLoading'' ''Failed to load content''
       (listDrupalContent (srv env) projectId bundle) (store_member ''nodes'' ''nodes'')"

definition fetchModules :: "env \<Rightarrow> string \<Rightarrow> string option \<Rightarrow> unit drupal_co" where
  "fetchModules env projectId statusFilter =
     co_then (co_do (\<lambda>s. if statusFilter \<noteq> None then s\<lparr>modules_filter := statusFilter\<rparr> else s))
       (co_bind (co_read (\<lambda>s. if statusFilter \<noteq> None then statusFilter else modules_filter s)) (\<lambda>flt.
         guarded_load env ''modulesLoading'' ''Failed to load modules''
           (listDrupalModules (srv env) projectId flt) (store_member ''modules'' ''items'')))"

definition fetchThemes :: "env \<Rightarrow> string \<Rightarrow> string option \<Rightarrow> unit drupal_co" where
  "fetchThemes env projectId statusFilter =
     co_then (co_do (\<lambda>s. if statusFilter \<noteq> None then s\<lparr>themes_filter := statusFilter\<rparr> else s))
       (co_bind (co_read (\<lambda>s. if statusFilter \<noteq> None then statusFilter else themes_filter s)) (\<lambda>flt.
         guarded_load env ''themesLoading'' ''Failed to load themes''
           (listDrupalThemes (srv env) projectId flt) (store_member ''themes'' ''items'')))"

definition fetchBlocks :: "env \<Rightarrow> string \<Rightarrow> string \<Rightarrow> unit drupal_co" where
  "fetchBlocks env projectId bundle =
     guarded_load env ''blocksLoading'' ''Failed to load blocks''
       (listDrupalBlocks (srv env) projectId bundle) (store_member ''blocks'' ''blocks'')"

definition enableModules :: "env \<Rightarrow> string \<Rightarrow> json \<Rightarrow> json option option drupal_co" where
  "enableModules env projectId data =
     guarded_operation env ''modulesOperating'' ''Failed to enable modules''
       (enableDrupalModules (srv env) projectId data) (fetchModules env projectId None)"

definition disableModules :: "env \<Rightarrow> string \<Rightarrow> json \<Rightarrow> json option option drupal_co" where
  "disableModules env projectId data =
     guarded_operation env ''modulesOperating'' ''Failed to disable modules''
       (disableDrupalModules (srv env) projectId data) (fetchModules env projectId None)"

definition enableTheme :: "env \<Rightarrow> string \<Rightarrow> json \<Rightarrow> json option option drupal_co" where
  "enableTheme env projectId data =
     guarded_operation env ''themesOperating'' ''Failed to enable theme''
       (enableDrupalTheme (srv env) projectId data) (fetchThemes env projectId None)"

definition disableTheme :: "env \<Rightarrow> string \<Rightarrow> json \<Rightarrow> json option option drupal_co" where
  "disableTheme env projectId data =
     guarded_operation env ''themesOperating'' ''Failed to disable theme''
       (disableDrupalTheme (srv env) projectId data) (fetchThemes env projectId None)"

definition useDrupal_composerRequire :: "env \<Rightarrow> string \<Rightarrow> json \<Rightarrow> json option option drupal_co" where
  "useDrupal_composerRequire env projectId data =
     guarded_operation env ''composerOperating'' ''Composer require failed''
       (composerRequire (srv env) projectId data) (fetchModules env projectId None)"

definition useDrupal_composerRemove :: "env \<Rightarrow> string \<Rightarrow> json \<Rightarrow> json option option drupal_co" where
  "useDrupal_composerRemove env projectId data =
     guarded_operation env ''composerOperating'' ''Composer remove failed''
       (composerRemove (srv env) projectId data) (fetchModules env projectId None)"

definition useDrupal_composerUpdate :: "env \<Rightarrow> string \<Rightarrow> json \<Rightarrow> json option option drupal_co" where
  "useDrupal_composerUpdate env projectId data =
     guarded_operation env ''composerOperating'' ''Composer update failed''
       (composerUpdate (srv env) projectId data) (fetchModules env projectId None)"

definition createContentType :: "env \<Rightarrow> string \<Rightarrow> json \<Rightarrow> json option option drupal_co" where
  "createContentType env projectId data =
     guarded_operation env ''creatingContentType'' ''Failed to create content type''
       (createDrupalContentType (srv env) projectId data) (fetchContentTypes env projectId)"

definition createBlock :: "env \<Rightarrow> string \<Rightarrow> string \<Rightarrow> json \<Rightarrow> json option option drupal_co" where
  "createBlock env projectId bundle data =
     guarded_operation env ''blocksOperating'' ''Failed to create block''
       (createDrupalBlock (srv env) projectId bundle data) (fetchBlocks env projectId bundle)"

definition updateBlock :: "env \<Rightarrow> string \<Rightarrow> string \<Rightarrow> string \<Rightarrow> json \<Rightarrow> json option option drupal_co" where
  "updateBlock env projectId bundle blockUuid data =
     guarded_operation env ''blocksOperating'' ''Failed to update block''
       (updateDrupalBlock (srv env) projectId bundle blockUuid data) (fetchBlocks env projectId bundle)"

definition scaffoldTheme :: "env \<Rightarrow> string \<Rightarrow> json \<Rightarrow> json option option drupal_co" where
  "scaffoldTheme env projectId data =
     guarded_operation env ''scaffoldingTheme'' ''Failed to scaffold theme''
       (scaffoldDrupalTheme (srv env) projectId data) (fetchThemes env projectId None)"

subsection \<open>Callbacks without a guard\<close>

text \<open>Raise a flag, clear the message, do, report an error, lower the flag.\<close>

definition flagged :: "env \<Rightarrow> string \<Rightarrow> string \<Rightarrow> 'a drupal_co \<Rightarrow> (thrown \<Rightarrow> 'a drupal_co) \<Rightarrow> 'a drupal_co" where
  "flagged env flag fallback body after =
     co_finally
       (co_catch (co_then (co_do (put_flag flag True)) (co_then (co_do (put_error None)) body))
         (\<lambda>e. co_then (co_report env ''error'' fallback e) (after e)))
       (put_flag flag False)"

definition connect :: "env \<Rightarrow> string \<Rightarrow> json \<Rightarrow> unit drupal_co" where
  "connect env projectId data =
     flagged env ''connecting'' ''Connection failed''
       (co_bind (co_await (connectDrupalSite (srv env) projectId data)) (\<lambda>_. refreshSite env projectId))
       co_raise"

definition disconnect :: "env \<Rightarrow> string \<Rightarrow> unit drupal_co" where
  "disconnect env projectId =
     flagged env ''disconnecting'' ''Disconnect failed''
       (co_bind (co_await (disconnectDrupalSite (srv env) projectId)) (\<lambda>_. co_do (\<lambda>s.
          put_data ''selectedBundle'' (Some JNull) (put_data ''nodes'' (Some (JArr []))
            (put_data ''contentTypes'' (Some (JArr [])) (put_data ''syncStatus'' (Some JNull)
              (put_data ''config'' (Some JNull) (put_data ''site'' (Some JNull) s))))))))
       (\<lambda>_. co_return ())"

definition fetchConfig :: "env \<Rightarrow> string \<Rightarrow> unit drupal_co" where
  "fetchConfig env projectId =
     flagged env ''configLoading'' ''Failed to load config''
       (co_bind (co_await (getDrupalConfig (srv env) projectId)) (\<lambda>data. co_do (put_data ''config'' data)))
       (\<lambda>_. co_return ())"

definition useDrupal_runDrush :: "env \<Rightarrow> string \<Rightarrow> string \<Rightarrow> unit drupal_co" where
  "useDrupal_runDrush env projectId cmd =
     flagged env ''drushRunning'' ''Drush command failed''
       (co_bind (co_await (runDrush (srv env) projectId cmd)) (\<lambda>result. co_do (put_data ''drushOutput'' result)))
       (\<lambda>_. co_return ())"

definition pull :: "env \<Rightarrow> string \<Rightarrow> unit drupal_co" where
  "pull env projectId =
     flagged env ''pulling'' ''Pull failed''
       (co_bind (co_await (pullDrupalSite (srv env) projectId)) (\<lambda>_. fetchSyncStatus env projectId))
       (\<lambda>_. co_return ())"

definition push :: "env \<Rightarrow> string \<Rightarrow> unit drupal_co" where
  "push env projectId =
     flagged env ''pushing'' ''Push failed''
       (co_bind (co_await (pushDrupalConfig (srv env) projectId)) (\<lambda>_. fetchSyncStatus env projectId))
       (\<lambda>_. co_return ())"

text \<open>Without a flag: clear the message, call, load the list again, report and rethrow an error.\<close>

definition changing_nodes :: "env \<Rightarrow> string \<Rightarrow> string \<Rightarrow> string \<Rightarrow> json option api \<Rightarrow> json option drupal_co" where
  "changing_nodes env projectId bundle fallback q =
     co_then (co_do (put_error None))
       (co_catch
         (co_bind (co_await q) (\<lambda>node. co_then (fetchNodes env projectId bundle) (co_return node)))
         (\<lambda>e. co_then (co_report env ''error'' fallback e) (co_raise e)))"

definition createNode :: "env \<Rightarrow> string \<Rightarrow> string \<Rightarrow> json \<Rightarrow> json option drupal_co" where
  "createNode env projectId bundle data =
     changing_nodes env projectId bundle ''Failed to create node'' (createDrupalNode (srv env) projectId bundle data)"

definition updateNode :: "env \<Rightarrow> string \<Rightarrow> string \<Rightarrow> string \<Rightarrow> json \<Rightarrow> json option drupal_co" where
  "updateNode env projectId bundle nodeUuid data =
     changing_nodes env projectId bundle ''Failed to update node''
       (updateDrupalNode (srv env) projectId bundle nodeUuid data)"

definition cloneProduction :: "env \<Rightarrow> string \<Rightarrow> json option \<Rightarrow> json option option drupal_co" where
  "cloneProduction env projectId opts =
     flagged env ''cloning'' ''Clone failed''
       (co_bind (co_await (cloneDrupalProduction (srv env) projectId opts))
         (\<lambda>result. co_then (fetchStagingStatus env projectId) (co_return (Some result))))
       (\<lambda>_. co_return None)"

definition pushToProduction :: "env \<Rightarrow> string \<Rightarrow> json \<Rightarrow> json option option drupal_co" where
  "pushToProduction env projectId opts =
     flagged env ''pushing'' ''Push failed''
       (co_bind (co_await (pushDrupalToProduction (srv env) projectId opts))
         (\<lambda>result. co_then (sync_and_staging env projectId) (co_return (Some result))))
       (\<lambda>_. co_return None)"

definition startStaging :: "env \<Rightarrow> string \<Rightarrow> unit drupal_co" where
  "startStaging env projectId =
     flagged env ''stagingStarting'' ''Failed to start staging''
       (co_bind (co_await (startDrupalStaging (srv env) projectId)) (\<lambda>_. fetchStagingStatus env projectId))
       (\<lambda>_. co_return ())"

definition stopStaging :: "env \<Rightarrow> string \<Rightarrow> unit drupal_co" where
  "stopStaging env projectId =
     flagged env ''stagingStopping'' ''Failed to stop staging''
       (co_bind (co_await (stopDrupalStaging (srv env) projectId)) (\<lambda>_. fetchStagingStatus env projectId))
       (\<lambda>_. co_return ())"

subsection \<open>Effects\<close>

definition reset_drupal :: "drupal \<Rightarrow> drupal" where
  "reset_drupal s = s\<lparr>
     vars := (vars s)(''site'' := Some JNull, ''config'' := Some JNull, ''syncStatus'' := Some JNull,
       ''drushOutput'' := Some JNull, ''contentTypes'' := Some (JArr []), ''nodes'' := Some (JArr []),
       ''selectedBundle'' := Some JNull, ''modules'' := Some (JArr []), ''themes'' := Some (JArr []),
       ''blocks'' := Some (JArr []), ''stagingStatus'' := Some JNull),
     flags := (flags s)(''contentTypesLoading'' := False, ''nodesLoading'' := False, ''modulesLoading'' := False,
       ''modulesOperating'' := False, ''themesLoading'' := False, ''themesOperating'' := False,
       ''blocksLoading'' := False, ''blocksOperating'' := False, ''composerOperating'' := False,
       ''creatingContentType'' := False, ''scaffoldingTheme'' := False),
     messages_of := (messages_of s)(''error'' := None),
     modules_filter := None, themes_filter := None\<rparr>"

definition setSelectedBundle :: "string option \<Rightarrow> drupal \<Rightarrow> drupal" where
  "setSelectedBundle b = put_data ''selectedBundle'' (Some (case b of None \<Rightarrow> JNull | Some x \<Rightarrow> JStr x))"

definition connected_calls :: "env \<Rightarrow> string \<Rightarrow> drupal happening list" where
  "connected_calls env projectId =
     [Called (fetchConfig env projectId), Called (fetchSyncStatus env projectId),
      Called (fetchContentTypes env projectId), Called (fetchStagingStatus env projectId)]"

text \<open>The effects of a rendering with a new project, also the first one, and of one in which a site has
  appeared or gone.\<close>

definition project_changed :: "env \<Rightarrow> string \<Rightarrow> drupal schedule \<Rightarrow> drupal schedule" where
  "project_changed env projectId w =
     fold happens
       ([Changed (\<lambda>s. s\<lparr>request_id := Suc (request_id s)\<rparr>), Changed reset_drupal, Called (refreshSite env projectId)] @
        (if site_connected (fst w) then connected_calls env projectId else [])) w"

definition site_rendered :: "env \<Rightarrow> string \<Rightarrow> drupal schedule \<Rightarrow> drupal schedule" where
  "site_rendered env projectId w =
     (let now = truthy (vars (fst w) ''site'')
      in if now = site_connected (fst w) then w
         else fold happens
           (Changed (\<lambda>s. s\<lparr>site_connected := now\<rparr>) # (if now then connected_calls env projectId else [])) w)"

subsection \<open>The latest load counts\<close>

lemma drupal_puts [simp]:
  "request_id (put_flag k b s) = request_id s" "request_id (put_message k e s) = request_id s"
  "request_id (put_data k v s) = request_id s"
  "site_request (put_flag k b s) = site_request s" "site_request (put_message k e s) = site_request s"
  "site_request (put_data k v s) = site_request s"
  "sync_request (put_flag k b s) = sync_request s" "sync_request (put_message k e s) = sync_request s"
  "sync_request (put_data k v s) = sync_request s"
  "staging_request (put_flag k b s) = staging_request s" "staging_request (put_message k e s) = staging_request s"
  "staging_request (put_data k v s) = staging_request s"
  "site_connected (put_flag k b s) = site_connected s" "site_connected (put_message k e s) = site_connected s"
  "site_connected (put_data k v s) = site_connected s"
  by (simp_all add: put_flag_def put_message_def put_data_def)

interpretation site: latest_call site_request "site_call env" for env
  by unfold_locales (simp_all add: site_call_def put_error_def)

interpretation sync: latest_call sync_request "sync_call env" for env
  by unfold_locales (simp_all add: sync_call_def split: sum.split)

interpretation staging: latest_call staging_request "staging_call env" for env
  by unfold_locales (simp_all add: staging_call_def split: sum.split)

lemma map_fetchSite:
  "[] \<notin> set ps \<Longrightarrow> map (\<lambda>p. Called (fetchSite env p)) ps =
     map (\<lambda>p. Called (\<lambda>s. co_single (site_call env p (Suc (site_request s))) s)) ps"
  by (auto simp: fetchSite_def fun_eq_iff)

text \<open>C17: of any number of loads of the site that are under way at once, for the same or for different
  projects, the one called last decides what is shown, in whatever order the answers come: once it is
  answered the site is its answer, none when it failed, and the loading flag is lowered.\<close>
theorem latest_site_wins:
  assumes "ps \<noteq> []" and "[] \<notin> set ps" and "distinct (map fst as)" and "\<forall>i \<in> set (map fst as). i < length ps"
    and "map_of as (length ps - 1) = Some r"
  shows "let s' = fst (happened (map (\<lambda>p. Called (fetchSite env p)) ps @ map (\<lambda>(i, r). Answered i 0 r) as) s)
    in vars s' ''site'' = (case r of Inl e \<Rightarrow> Some JNull | Inr v \<Rightarrow> v) \<and> \<not> flags s' ''siteLoading''"
proof -
  have "site_request (fold (\<lambda>p s. on_start (site_call env p (Suc (site_request s))) s) ps s) = site_request s + length ps"
    by (rule site.tickets_taken)
  then show ?thesis
    unfolding map_fetchSite [OF assms(2)] site.latest_wins [OF assms(1,3,4,5)]
    by (simp add: site_call_def Let_def)
qed

lemma latest_site_wins_witness:
  "let s' = fst (happened [Called (fetchSite sample_host_env ''p''), Called (fetchSite sample_host_env ''q''),
       Answered 1 0 (Inr (Some (JStr ''site of q''))), Answered 0 0 (Inr (Some (JStr ''site of p'')))] initial_drupal)
   in vars s' ''site'' = Some (JStr ''site of q'') \<and> \<not> flags s' ''siteLoading''"
  using latest_site_wins [of "[''p'', ''q'']" "[(1, Inr (Some (JStr ''site of q''))), (0, Inr (Some (JStr ''site of p'')))]"
    "Inr (Some (JStr ''site of q''))" sample_host_env initial_drupal]
  by simp

subsection \<open>Answers for a project that was left\<close>

abbreviation stale :: "nat \<Rightarrow> drupal \<Rightarrow> bool" where
  "stale n s \<equiv> request_id s \<noteq> n"

definition instant :: "'a drupal_co \<Rightarrow> bool" where
  "instant c \<longleftrightarrow> (\<forall>s. (\<exists>a. fst (c s) = Finished a) \<or> (\<exists>e. fst (c s) = Failed e))"

lemma instant_silent: "instant c \<Longrightarrow> silent P (fst (c s))"
  unfolding instant_def by (metis silent_failed silent_finished)

lemma instant_store: "instant (co_do f)" "instant (store_member x k data)"
  by (simp_all add: instant_def store_member_def co_property_def co_defs split: option.split json.split)

lemma quiet_if_current:
  "(\<And>s. request_id s = n \<Longrightarrow> silent (stale n) (fst (c s))) \<Longrightarrow> quiet (stale n) (if_current n c x)"
  by (simp add: quiet_def if_current_def co_return_def)

lemma quiet_report: "quiet (stale n) (if_current n (co_report env k fallback e) x)"
  by (rule quiet_if_current) (simp add: co_report_def co_do_def)

lemma quiet_report_null: "quiet (stale n) (if_current n (co_then (co_report env k fallback e) (co_return a)) x)"
  by (rule quiet_if_current) (simp add: co_report_def co_defs)

lemma quiet_lower: "stale n s \<Longrightarrow> (if request_id s = n then put_flag flag False s else s) = s"
  by simp

lemma guarded_start:
  "co_bind (co_read request_id) (\<lambda>rid. co_finally (co_catch (co_then (co_do f)
      (co_then (co_do g) (c rid))) (h rid)) (fin rid)) s =
   co_finally (co_catch (c (request_id s)) (h (request_id s))) (fin (request_id s)) (g (f s))"
  by (simp add: co_bind_def [of "co_read _"] co_read_def try_after_do)

lemma guarded_load_silent:
  assumes "\<And>data. instant (store data)"
  shows "silent (stale (request_id s)) (fst (guarded_load env flag fallback q store s))"
  unfolding guarded_load_def guarded_start
  by (intro quietD(2) quiet_finally quiet_catch quiet_bind quiet_await quiet_if_current instant_silent assms
      quiet_report quiet_lower)

lemma guarded_operation_silent:
  assumes "\<And>s1. request_id s1 = request_id s \<Longrightarrow> silent (stale (request_id s)) (fst (reload s1))"
  shows "silent (stale (request_id s)) (fst (guarded_operation env flag fallback q reload s))"
  unfolding guarded_operation_def guarded_start
  by (intro quietD(2) quiet_finally quiet_catch quiet_bind quiet_await quiet_report_null quiet_lower)
    (intro quiet_if_current, simp add: co_then_def, intro silent_bind assms quiet_return)

lemma fetchModules_silent: "silent (stale (request_id s)) (fst (fetchModules env projectId flt s))"
proof -
  define s1 where "s1 = (if flt \<noteq> None then s\<lparr>modules_filter := flt\<rparr> else s)"
  have "request_id s1 = request_id s" by (simp add: s1_def)
  moreover have "silent (stale (request_id s1)) (fst (guarded_load env f t q (store_member x k) s1))" for f t q x k
    by (intro guarded_load_silent instant_store)
  moreover have "\<exists>q. fetchModules env projectId flt s =
      guarded_load env ''modulesLoading'' ''Failed to load modules'' q (store_member ''modules'' ''items'') s1"
    unfolding fetchModules_def s1_def
    by (auto simp: co_then_def co_bind_def [of "co_do _"] co_bind_def [of "co_read _"] co_do_def co_read_def)
  ultimately show ?thesis by metis
qed

lemma fetchThemes_silent: "silent (stale (request_id s)) (fst (fetchThemes env projectId flt s))"
proof -
  define s1 where "s1 = (if flt \<noteq> None then s\<lparr>themes_filter := flt\<rparr> else s)"
  have "request_id s1 = request_id s" by (simp add: s1_def)
  moreover have "silent (stale (request_id s1)) (fst (guarded_load env f t q (store_member x k) s1))" for f t q x k
    by (intro guarded_load_silent instant_store)
  moreover have "\<exists>q. fetchThemes env projectId flt s =
      guarded_load env ''themesLoading'' ''Failed to load themes'' q (store_member ''themes'' ''items'') s1"
    unfolding fetchThemes_def s1_def
    by (auto simp: co_then_def co_bind_def [of "co_do _"] co_bind_def [of "co_read _"] co_do_def co_read_def)
  ultimately show ?thesis by metis
qed

lemma void_silent: "silent P (fst (c s)) \<Longrightarrow> silent P (fst (co_void c s))"
  unfolding co_void_def by (intro silent_bind quiet_return)

text \<open>The callbacks that guard themselves, with any arguments.\<close>

definition guarded_calls ::
  "env \<Rightarrow> string \<Rightarrow> string \<Rightarrow> string \<Rightarrow> json \<Rightarrow> string option \<Rightarrow> unit drupal_co list" where
  "guarded_calls env p bundle uuid data flt =
     [fetchContentTypes env p, fetchNodes env p bundle, fetchModules env p flt, fetchThemes env p flt,
      fetchBlocks env p bundle, co_void (enableModules env p data), co_void (disableModules env p data),
      co_void (enableTheme env p data), co_void (disableTheme env p data),
      co_void (useDrupal_composerRequire env p data), co_void (useDrupal_composerRemove env p data),
      co_void (useDrupal_composerUpdate env p data), co_void (createContentType env p data),
      co_void (createBlock env p bundle data), co_void (updateBlock env p bundle uuid data),
      co_void (scaffoldTheme env p data)]"

lemmas guarded_defs = fetchContentTypes_def fetchNodes_def fetchBlocks_def enableModules_def disableModules_def
  enableTheme_def disableTheme_def useDrupal_composerRequire_def useDrupal_composerRemove_def
  useDrupal_composerUpdate_def createContentType_def createBlock_def updateBlock_def scaffoldTheme_def

lemma guarded_silent:
  "list_all (\<lambda>c. silent (stale (request_id s)) (fst (c s))) (guarded_calls env p bundle uuid data flt)"
proof -
  have modules: "silent (stale (request_id s)) (fst (fetchModules env p None s1))"
    and themes: "silent (stale (request_id s)) (fst (fetchThemes env p None s1))"
    if "request_id s1 = request_id s" for s1
    using fetchModules_silent [of s1 env p None] fetchThemes_silent [of s1 env p None] that by simp_all
  have loads: "silent (stale (request_id s)) (fst (guarded_load env flag fallback q store s1))"
    if "request_id s1 = request_id s" "\<And>data. instant (store data)" for flag fallback q store s1
    using guarded_load_silent [of store s1 env flag fallback q, OF that(2)] that(1) by simp
  show ?thesis
    unfolding guarded_calls_def list.pred_inject(2) guarded_defs
    by (intro conjI list.pred_inject(1) void_silent guarded_operation_silent modules themes loads fetchModules_silent
        fetchThemes_silent instant_store refl)
qed

text \<open>C18: once the project has changed, a guarded callback of the earlier project is without effect: however
  its requests are answered, and whatever the other callbacks do meanwhile, the state of the hook is what
  those others make of it.\<close>
theorem stale_callbacks_silent:
  assumes "c \<in> set (guarded_calls env p bundle uuid data flt)"
    and "request_id s \<noteq> request_id s0"
    and "list_all (only_changes (\<lambda>s. request_id s \<noteq> request_id s0)) es"
  shows "fst (fold happens es (s, [fst (c s0)])) = fold change_of es s"
  using assms guarded_silent [of s0 env p "bundle" uuid data flt]
  by (intro silent_without_effect) (auto simp: list_all_iff)

lemma stale_callbacks_silent_witness:
  "let m = fst (co_void (enableModules sample_host_env ''p'' JNull) initial_drupal);
       s = fst (project_changed sample_host_env ''q'' (initial_drupal, []))
   in fst (fold happens [Answered 0 0 (Inr None), Changed (put_flag ''pulling'' True), Answered 0 0 (Inl SyntaxErr)] (s, [m])) =
      put_flag ''pulling'' True s"
  using stale_callbacks_silent [of "co_void (enableModules sample_host_env ''p'' JNull)" sample_host_env "''p''" "[]" "[]" JNull None
      "fst (project_changed sample_host_env ''q'' (initial_drupal, []))" initial_drupal
      "[Answered 0 0 (Inr None), Changed (put_flag ''pulling'' True), Answered 0 0 (Inl SyntaxErr)]"]
  by (simp add: guarded_calls_def only_changes_def change_of_def project_changed_def initial_drupal_def refreshSite_def
      fetchSite_def co_single_def site_call_def put_error_def reset_drupal_def)

subsection \<open>Every callback ends\<close>

lemma ends_if_current [ends_intros]: "ends n c \<Longrightarrow> ends n (if_current rid c x)"
  by (simp add: if_current_def ends_def co_return_def)

lemma ends_drupal_loads [ends_intros]:
  "ends (Suc n) (fetchSite env p)" "ends (Suc n) (refreshSite env p)" "ends (Suc n) (fetchSyncStatus env p)"
  "ends (Suc n) (fetchStagingStatus env p)" "ends (Suc (Suc n)) (sync_and_staging env p)"
  by (simp_all add: ends_def refreshSite_def fetchSite_def fetchSyncStatus_def fetchStagingStatus_def
      sync_and_staging_def co_return_def)

lemma ends_guarded_load [ends_intros]:
  "(\<And>data. ends n (store data)) \<Longrightarrow> ends (Suc n) (guarded_load env flag fallback q store)"
  unfolding guarded_load_def by (intro ends_intros)

lemma ends_guarded_operation [ends_intros]:
  "ends n reload \<Longrightarrow> ends (Suc n) (guarded_operation env flag fallback q reload)"
  unfolding guarded_operation_def by (intro ends_intros)

lemma ends_flagged [ends_intros]:
  "ends n c \<Longrightarrow> (\<And>e. ends 0 (after e)) \<Longrightarrow> ends n (flagged env flag fallback c after)"
  unfolding flagged_def by (intro ends_intros)

lemma ends_store_member [ends_intros]: "ends n (store_member x k data)"
  unfolding store_member_def by (intro ends_intros)

lemma ends_lists [ends_intros]:
  "ends (Suc n) (fetchContentTypes env p)" "ends (Suc n) (fetchNodes env p b)" "ends (Suc n) (fetchBlocks env p b)"
  "ends (Suc n) (fetchModules env p flt)" "ends (Suc n) (fetchThemes env p flt)"
  unfolding fetchContentTypes_def fetchNodes_def fetchBlocks_def fetchModules_def fetchThemes_def
  by (intro ends_intros)+

definition unguarded_calls :: "env \<Rightarrow> string \<Rightarrow> string \<Rightarrow> string \<Rightarrow> json \<Rightarrow> string \<Rightarrow> unit drupal_co list" where
  "unguarded_calls env p bundle uuid data cmd =
     [refreshSite env p, refreshStaging env p, connect env p data, disconnect env p, fetchConfig env p,
      useDrupal_runDrush env p cmd, pull env p, push env p, co_void (createNode env p bundle data),
      co_void (updateNode env p bundle uuid data), co_void (cloneProduction env p (Some data)),
      co_void (pushToProduction env p data), startStaging env p, stopStaging env p]"

lemmas unguarded_defs = connect_def disconnect_def fetchConfig_def useDrupal_runDrush_def pull_def push_def
  createNode_def updateNode_def cloneProduction_def pushToProduction_def startStaging_def stopStaging_def
  changing_nodes_def refreshStaging_def

lemma unguarded_end: "list_all (ends (Suc (Suc (Suc n)))) (unguarded_calls env p bundle uuid data cmd)"
  unfolding unguarded_calls_def list.pred_inject(2) unguarded_defs
  by (intro conjI list.pred_inject(1) ends_intros)

lemma guarded_end: "list_all (ends (Suc (Suc (Suc n)))) (guarded_calls env p bundle uuid data flt)"
  unfolding guarded_calls_def list.pred_inject(2) guarded_defs
  by (intro conjI list.pred_inject(1) ends_intros)

text \<open>C19: no callback of the hook hangs: once started, with any arguments and in any state, it has ended, with a
  result or an exception, after three of its requests have been answered at the latest, whatever the answers
  are, in which order they come and what the other callbacks have made of the state meanwhile.\<close>
theorem drupal_callbacks_end:
  assumes "c \<in> set (guarded_calls env p bundle uuid data flt @ unguarded_calls env p bundle uuid data cmd)"
    and "length xs = 3"
  shows "waiting_for (fold resume_one xs (fst (c s))) = 0"
proof -
  have "ends (length xs) c"
    using assms guarded_end [of 0 env p "bundle" uuid data flt] unguarded_end [of 0 env p "bundle" uuid data cmd]
    by (auto simp: list_all_iff numeral_3_eq_3)
  then show ?thesis by (intro ended_after) (simp add: ends_def)
qed

lemma drupal_callbacks_end_witness:
  "waiting_for (fold resume_one
     [(0, Inr None, initial_drupal), (1, Inl SyntaxErr, initial_drupal), (0, Inr None, initial_drupal)]
     (fst (co_void (pushToProduction sample_host_env ''p'' JNull) initial_drupal))) = 0"
  using drupal_callbacks_end [of "co_void (pushToProduction sample_host_env ''p'' JNull)" sample_host_env "''p''" "[]" "[]" JNull None "[]"
      "[(0, Inr None, initial_drupal), (1, Inl SyntaxErr, initial_drupal), (0, Inr None, initial_drupal)]" initial_drupal]
  by (simp add: unguarded_calls_def)

subsection \<open>Where the guards are missing\<close>

lemmas run_drupal = project_changed_def initial_drupal_def refreshSite_def fetchSite_def site_call_def put_error_def
  reset_drupal_def flagged_def co_defs co_report_def

text \<open>A connection made to \<open>p\<close> that is answered after the change to \<open>q\<close> loads the site of \<open>p\<close> again, with
  the newest ticket: the answer for \<open>q\<close> is dropped and the page of \<open>q\<close> shows the site of \<open>p\<close>.\<close>

lemma late_connect_shows_old_project:
  assumes "p \<noteq> []" and "q \<noteq> []"
  shows "let w = project_changed env q (happens (Called (connect env p data)) (project_changed env p (initial_drupal, [])));
      s = fst (fold happens [Answered 1 0 (Inr v), Answered 2 0 (Inr site_of_q), Answered 1 0 (Inr site_of_p)] w)
    in vars s ''site'' = site_of_p \<and> \<not> flags s ''siteLoading''"
  using assms by (simp add: run_drupal connect_def)

text \<open>A disconnection of \<open>p\<close> that is answered after the change to \<open>q\<close> takes the site of \<open>q\<close> off the page.\<close>

lemma late_disconnect_clears_new_site:
  assumes "p \<noteq> []" and "q \<noteq> []"
  shows "let w = project_changed env q (happens (Called (disconnect env p)) (project_changed env p (initial_drupal, [])));
      s1 = fst (fold happens [Answered 2 0 (Inr site_of_q)] w);
      s2 = fst (fold happens [Answered 2 0 (Inr site_of_q), Answered 1 0 (Inr v)] w)
    in vars s1 ''site'' = site_of_q \<and> vars s2 ''site'' = Some JNull"
  using assms by (simp add: run_drupal disconnect_def)

text \<open>The configuration of \<open>p\<close> that comes after the change to \<open>q\<close> is shown for \<open>q\<close>, and so is the state
  of the synchronisation, as long as none was asked for \<open>q\<close>.\<close>

lemma late_config_shown:
  assumes "q \<noteq> []"
  shows "let w = project_changed env q (happens (Called (fetchConfig env p)) (initial_drupal, []))
    in vars (fst (fold happens [Answered 0 0 (Inr config_of_p)] w)) ''config'' = config_of_p"
  using assms by (simp add: run_drupal fetchConfig_def)

lemma late_sync_shown:
  assumes "p \<noteq> []" and "q \<noteq> []"
  shows "let w = project_changed env q (happens (Called (fetchSyncStatus env p)) (initial_drupal, []))
    in vars (fst (fold happens [Answered 0 0 (Inr sync_of_p)] w)) ''syncStatus'' = sync_of_p"
  using assms by (simp add: run_drupal fetchSyncStatus_def sync_call_def)

end
