(* ===== verification/Hooks_Services.thy ===== *)
theory Hooks_Services
  imports Hook_Laws Api_Drupal
begin

section \<open>Hooks for plans, Brevo and the local Drupal\<close>

text \<open>
  The callbacks of \<open>usePlanning\<close>, \<open>useBrevo\<close> and \<open>useDrupalLocal\<close> of \<^verbatim>\<open>packages/api/hooks\<close>, named after the
  hook and the callback.  The first two go through the generic methods of the client with paths of their
  own; the last part shows where their requests end.
\<close>

subsection \<open>Planning\<close>

definition usePlanning_init :: hook where
  "usePlanning_init = new_hook [] [(''sessions'', JArr []), (''selectedSession'', JNull), (''progress'', JNull)]"

definition usePlanning_loadSessions :: "env \<Rightarrow> string \<Rightarrow> unit action" where
  "usePlanning_loadSessions env projectId =
     fetch_into env ''loading'' ''error'' ''Failed to load planning sessions''
       (get_call (srv env) (route [Lit ''/planning/sessions?project_id='', Raw projectId])) (set_data ''sessions'')"

definition usePlanning_loadSession :: "env \<Rightarrow> string \<Rightarrow> unit action" where
  "usePlanning_loadSession env sessionId =
     fetch_into env ''loading'' ''error'' ''Failed to load session''
       (get_call (srv env) (route [Lit ''/planning/sessions/'', Raw sessionId]))
       (\<lambda>res. andthen (set_data ''selectedSession'' res)
         (bind (call_api (get_call (srv env) (route [Lit ''/planning/sessions/'', Raw sessionId, Lit ''/progress''])))
           (set_data ''progress'')))"

definition usePlanning_createSession :: "env \<Rightarrow> string \<Rightarrow> json \<Rightarrow> json option option action" where
  "usePlanning_createSession env projectId data =
     or_null (mutate env ''error'' ''Failed to create session''
       (post_call (srv env) ''/planning/sessions'' (Some data))
       (\<lambda>session. andthen (usePlanning_loadSessions env projectId) (set_data ''selectedSession'' session)))"

text \<open>The callbacks that report an error and return nothing.\<close>

definition reporting :: "env \<Rightarrow> string \<Rightarrow> json option api \<Rightarrow> (json option \<Rightarrow> unit action) \<Rightarrow> unit action" where
  "reporting env fallback m store = no_result (worked (mutate env ''error'' fallback m store))"

definition usePlanning_updateSession :: "env \<Rightarrow> string \<Rightarrow> string \<Rightarrow> json \<Rightarrow> unit action" where
  "usePlanning_updateSession env projectId sessionId data =
     reporting env ''Failed to update session''
       (put_call (srv env) (route [Lit ''/planning/sessions/'', Raw sessionId]) (Some data))
       (\<lambda>res. andthen (set_data ''selectedSession'' res) (usePlanning_loadSessions env projectId))"

definition usePlanning_archiveSession :: "env \<Rightarrow> string \<Rightarrow> string \<Rightarrow> unit action" where
  "usePlanning_archiveSession env projectId sessionId =
     reporting env ''Failed to archive session''
       (delete_call (srv env) (route [Lit ''/planning/sessions/'', Raw sessionId]))
       (\<lambda>_. andthen (set_data ''selectedSession'' (Some JNull)) (usePlanning_loadSessions env projectId))"

definition usePlanning_startSession :: "env \<Rightarrow> string \<Rightarrow> string \<Rightarrow> unit action" where
  "usePlanning_startSession env projectId sessionId =
     reporting env ''Failed to start session''
       (post_call (srv env) (route [Lit ''/planning/sessions/'', Raw sessionId, Lit ''/start'']) None)
       (\<lambda>res. andthen (set_data ''selectedSession'' res) (usePlanning_loadSessions env projectId))"

definition usePlanning_nextPhase :: "env \<Rightarrow> string \<Rightarrow> string \<Rightarrow> unit action" where
  "usePlanning_nextPhase env projectId sessionId =
     reporting env ''Failed to advance to next phase''
       (post_call (srv env) (route [Lit ''/planning/sessions/'', Raw sessionId, Lit ''/next-phase'']) None)
       (\<lambda>res. andthen (set_data ''selectedSession'' res) (usePlanning_loadSessions env projectId))"

definition usePlanning_createPhase :: "env \<Rightarrow> string \<Rightarrow> json \<Rightarrow> unit action" where
  "usePlanning_createPhase env sessionId data =
     reporting env ''Failed to create phase''
       (post_call (srv env) (route [Lit ''/planning/sessions/'', Raw sessionId, Lit ''/phases'']) (Some data))
       (\<lambda>_. usePlanning_loadSession env sessionId)"

text \<open>\<open>if (selectedSession) await loadSession(selectedSession.id)\<close>: the id of the session selected in the
  rendering, if there is one.\<close>

definition reload_selected :: "env \<Rightarrow> string option \<Rightarrow> unit action" where
  "reload_selected env selected =
     (case selected of None \<Rightarrow> finish_with () | Some k \<Rightarrow> usePlanning_loadSession env k)"

definition usePlanning_updatePhase :: "env \<Rightarrow> string option \<Rightarrow> string \<Rightarrow> json \<Rightarrow> unit action" where
  "usePlanning_updatePhase env selected phaseId data =
     reporting env ''Failed to update phase''
       (put_call (srv env) (route [Lit ''/planning/phases/'', Raw phaseId]) (Some data))
       (\<lambda>_. reload_selected env selected)"

definition usePlanning_approvePhase :: "env \<Rightarrow> string option \<Rightarrow> string \<Rightarrow> unit action" where
  "usePlanning_approvePhase env selected phaseId =
     reporting env ''Failed to approve phase''
       (post_call (srv env) (route [Lit ''/planning/phases/'', Raw phaseId, Lit ''/approve'']) None)
       (\<lambda>_. reload_selected env selected)"

definition usePlanning_verifyPhase :: "env \<Rightarrow> string option \<Rightarrow> string \<Rightarrow> unit action" where
  "usePlanning_verifyPhase env selected phaseId =
     reporting env ''Failed to verify phase''
       (post_call (srv env) (route [Lit ''/planning/phases/'', Raw phaseId, Lit ''/verify'']) None)
       (\<lambda>_. reload_selected env selected)"

definition usePlanning_deletePhase :: "env \<Rightarrow> string option \<Rightarrow> string \<Rightarrow> unit action" where
  "usePlanning_deletePhase env selected phaseId =
     reporting env ''Failed to delete phase''
       (delete_call (srv env) (route [Lit ''/planning/phases/'', Raw phaseId]))
       (\<lambda>_. reload_selected env selected)"

definition usePlanning_createTask :: "env \<Rightarrow> string option \<Rightarrow> string \<Rightarrow> json \<Rightarrow> unit action" where
  "usePlanning_createTask env selected phaseId data =
     reporting env ''Failed to create task''
       (post_call (srv env) (route [Lit ''/planning/phases/'', Raw phaseId, Lit ''/tasks'']) (Some data))
       (\<lambda>_. reload_selected env selected)"

definition usePlanning_updateTask :: "env \<Rightarrow> string option \<Rightarrow> string \<Rightarrow> json \<Rightarrow> unit action" where
  "usePlanning_updateTask env selected taskId data =
     reporting env ''Failed to update task''
       (put_call (srv env) (route [Lit ''/planning/tasks/'', Raw taskId]) (Some data))
       (\<lambda>_. reload_selected env selected)"

definition usePlanning_executeTask :: "env \<Rightarrow> string option \<Rightarrow> string \<Rightarrow> unit action" where
  "usePlanning_executeTask env selected taskId =
     reporting env ''Failed to execute task''
       (post_call (srv env) (route [Lit ''/planning/tasks/'', Raw taskId, Lit ''/execute'']) None)
       (\<lambda>_. reload_selected env selected)"

definition usePlanning_deleteTask :: "env \<Rightarrow> string option \<Rightarrow> string \<Rightarrow> unit action" where
  "usePlanning_deleteTask env selected taskId =
     reporting env ''Failed to delete task''
       (delete_call (srv env) (route [Lit ''/planning/tasks/'', Raw taskId]))
       (\<lambda>_. reload_selected env selected)"

definition usePlanning_exportToUIBuilder :: "env \<Rightarrow> string \<Rightarrow> json option option action" where
  "usePlanning_exportToUIBuilder env sessionId =
     or_null (try_catch
       (andthen (set_message ''error'' None)
         (bind (call_api (post_call (srv env)
             (route [Lit ''/planning/sessions/'', Raw sessionId, Lit ''/export-to-ui-builder'']) None))
           (\<lambda>res. property res ''ui_tree'')))
       (\<lambda>e. andthen (report env ''error'' ''Failed to export to UI builder'' e) (throw e)))"

definition usePlanning_importFromUIBuilder :: "env \<Rightarrow> string \<Rightarrow> json \<Rightarrow> unit action" where
  "usePlanning_importFromUIBuilder env sessionId uiTree =
     reporting env ''Failed to import from UI builder''
       (post_call (srv env) (route [Lit ''/planning/sessions/'', Raw sessionId, Lit ''/import-from-ui-builder''])
         (Some (js_object [(''ui_tree'', Some uiTree)])))
       (\<lambda>_. usePlanning_loadSession env sessionId)"

subsection \<open>Brevo\<close>

definition useBrevo_init :: hook where
  "useBrevo_init = new_hook [] [(''account'', JNull), (''contacts'', JArr []), (''contactsCount'', JNum 0),
     (''templates'', JArr []), (''campaigns'', JArr []), (''campaignsCount'', JNum 0)]"

definition useBrevo_fetchAccount :: "env \<Rightarrow> unit action" where
  "useBrevo_fetchAccount env =
     fetch_into env ''accountLoading'' ''error'' ''Failed to fetch account''
       (get_call (srv env) ''/brevo/account'') (set_data ''account'')"

definition useBrevo_fetchContacts :: "env \<Rightarrow> int option \<Rightarrow> int option \<Rightarrow> unit action" where
  "useBrevo_fetchContacts env limit offset =
     fetch_into env ''contactsLoading'' ''error'' ''Failed to fetch contacts''
       (get_call (srv env) (route [Lit ''/brevo/contacts?limit='', Raw (show_int (nullish limit 50)),
          Lit ''&offset='', Raw (show_int (nullish offset 0))]))
       (store_members [(''contacts'', ''contacts''), (''contactsCount'', ''count'')])"

text \<open>With a flag beside the message, an answer for the caller, and what is done before it gets it.\<close>

definition flagged_mutation ::
  "env \<Rightarrow> string \<Rightarrow> string \<Rightarrow> json option api \<Rightarrow> (json option \<Rightarrow> unit action) \<Rightarrow> json option action" where
  "flagged_mutation env flag fallback m store =
     try_finally (andthen (set_flag flag True) (mutate env ''error'' fallback m store)) (set_flag flag False)"

definition useBrevo_createContact :: "env \<Rightarrow> json \<Rightarrow> json option action" where
  "useBrevo_createContact env req =
     flagged_mutation env ''creatingContact'' ''Failed to create contact''
       (post_call (srv env) ''/brevo/contacts'' (Some req)) (\<lambda>_. useBrevo_fetchContacts env None None)"

definition useBrevo_sendEmail :: "env \<Rightarrow> json \<Rightarrow> json option action" where
  "useBrevo_sendEmail env req =
     flagged_mutation env ''sendingEmail'' ''Failed to send email''
       (post_call (srv env) ''/brevo/email/send'' (Some req)) (\<lambda>_. finish_with ())"

definition useBrevo_fetchTemplates :: "env \<Rightarrow> unit action" where
  "useBrevo_fetchTemplates env =
     fetch_into env ''templatesLoading'' ''error'' ''Failed to fetch templates''
       (get_call (srv env) ''/brevo/templates'') (store_members [(''templates'', ''templates'')])"

definition useBrevo_sendSMS :: "env \<Rightarrow> json \<Rightarrow> json option action" where
  "useBrevo_sendSMS env req =
     flagged_mutation env ''sendingSMS'' ''Failed to send SMS''
       (post_call (srv env) ''/brevo/sms/send'' (Some req)) (\<lambda>_. finish_with ())"

definition useBrevo_fetchCampaigns :: "env \<Rightarrow> string option \<Rightarrow> string option \<Rightarrow> unit action" where
  "useBrevo_fetchCampaigns env kind campaign_status =
     fetch_into env ''campaignsLoading'' ''error'' ''Failed to fetch campaigns''
       (get_call (srv env) (route ([Lit ''/brevo/campaigns?campaign_type='', Raw (nullish kind ''email'')] @
          (if truthy_string campaign_status then [Lit ''&status='', Raw (the campaign_status)] else []))))
       (store_members [(''campaigns'', ''campaigns''), (''campaignsCount'', ''count'')])"

subsection \<open>The local Drupal\<close>

definition useDrupalLocal_init :: hook where
  "useDrupalLocal_init = new_hook [] [(''files'', JArr []), (''activeFile'', JNull), (''drushHistory'', JArr []),
     (''modules'', JArr []), (''themes'', JArr []), (''siteStatus'', JNull), (''configStatus'', JNull),
     (''palette'', JNull)]"

definition useDrupalLocal_loadFileTree :: "env \<Rightarrow> string option \<Rightarrow> unit action" where
  "useDrupalLocal_loadFileTree env path =
     fetch_into env ''fileTreeLoading'' ''error'' ''Failed to load files''
       (getDrupalLocalFiles (srv env) path) (store_members [(''files'', ''files'')])"

definition useDrupalLocal_openFile :: "env \<Rightarrow> string \<Rightarrow> unit action" where
  "useDrupalLocal_openFile env path =
     fetch_into env ''fileLoading'' ''error'' ''Failed to open file''
       (getDrupalLocalFileContent (srv env) path) (set_data ''activeFile'')"

text \<open>\<open>setActiveFile((prev) => prev && prev.path === path ? f(prev) : prev)\<close>.\<close>

definition on_active :: "string \<Rightarrow> (json \<Rightarrow> json) \<Rightarrow> json option \<Rightarrow> json option" where
  "on_active path f prev =
     (case prev of None \<Rightarrow> None | Some v \<Rightarrow> Some (if member v ''path'' = Some (JStr path) then f v else v))"

definition useDrupalLocal_saveFile :: "env \<Rightarrow> string \<Rightarrow> string \<Rightarrow> unit action" where
  "useDrupalLocal_saveFile env path content =
     no_result (mutate env ''error'' ''Failed to save file'' (updateDrupalLocalFile (srv env) path content)
       (\<lambda>_. modify_data ''activeFile'' (on_active path (with_member ''content'' (Some (JStr content))))))"

definition useDrupalLocal_createFile :: "env \<Rightarrow> string \<Rightarrow> string option \<Rightarrow> unit action" where
  "useDrupalLocal_createFile env path content =
     no_result (mutate env ''error'' ''Failed to create file''
       (createDrupalLocalFile (srv env) path content) (\<lambda>_. finish_with ()))"

definition useDrupalLocal_createDirectory :: "env \<Rightarrow> string \<Rightarrow> unit action" where
  "useDrupalLocal_createDirectory env path =
     no_result (mutate env ''error'' ''Failed to create directory''
       (createDrupalLocalDirectory (srv env) path) (\<lambda>_. finish_with ()))"

definition useDrupalLocal_deleteFile :: "env \<Rightarrow> string \<Rightarrow> unit action" where
  "useDrupalLocal_deleteFile env path =
     no_result (mutate env ''error'' ''Failed to delete'' (deleteDrupalLocalFile (srv env) path)
       (\<lambda>_. modify_data ''activeFile'' (on_active path (\<lambda>_. JNull))))"

definition useDrupalLocal_renameFile :: "env \<Rightarrow> string \<Rightarrow> string \<Rightarrow> unit action" where
  "useDrupalLocal_renameFile env oldPath newPath =
     no_result (mutate env ''error'' ''Failed to rename''
       (renameDrupalLocalFile (srv env) oldPath newPath) (\<lambda>_. finish_with ()))"

definition useDrupalLocal_runDrush :: "env \<Rightarrow> string \<Rightarrow> json option action" where
  "useDrupalLocal_runDrush env cmd =
     flagged_mutation env ''drushLoading'' ''Drush command failed'' (runDrupalLocalDrush (srv env) cmd)
       (\<lambda>res. modify_data ''drushHistory'' (on_array (\<lambda>prev. prev @ [nullish res JNull])))"

definition useDrupalLocal_loadModules :: "env \<Rightarrow> unit action" where
  "useDrupalLocal_loadModules env =
     fetch_into env ''modulesLoading'' ''error'' ''Failed to load modules''
       (getDrupalLocalModules (srv env)) (store_members [(''modules'', ''modules'')])"

definition useDrupalLocal_loadThemes :: "env \<Rightarrow> unit action" where
  "useDrupalLocal_loadThemes env =
     fetch_into env ''themesLoading'' ''error'' ''Failed to load themes''
       (getDrupalLocalThemes (srv env)) (store_members [(''themes'', ''themes'')])"

definition useDrupalLocal_scaffoldModule :: "env \<Rightarrow> json \<Rightarrow> json option action" where
  "useDrupalLocal_scaffoldModule env data =
     mutate env ''error'' ''Failed to scaffold module''
       (scaffoldDrupalLocalModule (srv env) data) (\<lambda>_. finish_with ())"

definition useDrupalLocal_loadStatus :: "env \<Rightarrow> unit action" where
  "useDrupalLocal_loadStatus env =
     fetch_into env ''statusLoading'' ''error'' ''Failed to load status''
       (getDrupalLocalStatus (srv env)) (set_data ''siteStatus'')"

definition useDrupalLocal_loadConfigStatus :: "env \<Rightarrow> unit action" where
  "useDrupalLocal_loadConfigStatus env =
     fetch_into env ''statusLoading'' ''error'' ''Failed to load config status''
       (getDrupalLocalConfigStatus (srv env)) (set_data ''configStatus'')"

definition useDrupalLocal_exportConfig :: "env \<Rightarrow> json option action" where
  "useDrupalLocal_exportConfig env =
     mutate env ''error'' ''Config export failed'' (exportDrupalLocalConfig (srv env)) (\<lambda>_. finish_with ())"

definition useDrupalLocal_importConfig :: "env \<Rightarrow> json option action" where
  "useDrupalLocal_importConfig env =
     mutate env ''error'' ''Config import failed'' (importDrupalLocalConfig (srv env)) (\<lambda>_. finish_with ())"

definition useDrupalLocal_generatePalette :: "env \<Rightarrow> json \<Rightarrow> json option action" where
  "useDrupalLocal_generatePalette env data =
     flagged_mutation env ''paletteLoading'' ''Palette generation failed''
       (generatePalette (srv env) data) (set_data ''palette'')"

definition useDrupalLocal_validatePalette :: "env \<Rightarrow> string list \<Rightarrow> json option action" where
  "useDrupalLocal_validatePalette env colors =
     flagged_mutation env ''paletteLoading'' ''Palette validation failed''
       (validatePalette (srv env) colors) (set_data ''palette'')"

definition useDrupalLocal_adjustPalette :: "env \<Rightarrow> string list \<Rightarrow> json option action" where
  "useDrupalLocal_adjustPalette env colors =
     flagged_mutation env ''paletteLoading'' ''Palette adjustment failed''
       (adjustPalette (srv env) colors) (set_data ''palette'')"

subsection \<open>Where the requests of an action go\<close>

text \<open>Every request of the action is for a path with \<open>U\<close>, at the base URL of the client.\<close>

definition sent_within :: "(string \<Rightarrow> bool) \<Rightarrow> http \<Rightarrow> http \<Rightarrow> bool" where
  "sent_within U s s' \<longleftrightarrow> config s' = config s \<and>
     (\<exists>rs. sent s' = sent s @ rs \<and> (\<forall>r \<in> set rs. \<exists>path. U path \<and> req_url r = base_url s @ path))"

definition requests_within :: "(string \<Rightarrow> bool) \<Rightarrow> 'a action \<Rightarrow> bool" where
  "requests_within U m \<longleftrightarrow> (\<forall>w. sent_within U (snd w) (snd (snd (m w))))"

lemma sent_within_refl [simp]: "sent_within U s s"
  by (simp add: sent_within_def)

lemma sent_within_trans: "sent_within U s s1 \<Longrightarrow> sent_within U s1 s2 \<Longrightarrow> sent_within U s s2"
  unfolding sent_within_def config_def by (elim conjE exE) (simp, blast)

lemma withinD: "requests_within U m \<Longrightarrow> m w = (r, h, s) \<Longrightarrow> sent_within U (snd w) s"
  unfolding requests_within_def by (metis snd_conv)

lemma sent_within_request: "U (call_path c) \<Longrightarrow> sent_within U s (snd (request server c s))"
  using json_transport.send_snd [of c s server] by (auto simp: sent_within_def progress_def request_of_def)

named_theorems within_intros

lemma within_quiet: "(\<And>w. snd (snd (m w)) = snd w) \<Longrightarrow> requests_within U m"
  by (simp add: requests_within_def)

lemma within_basic [within_intros]:
  "requests_within U (finish_with x)" "requests_within U (throw e)" "requests_within U (update_hook f)"
  "requests_within U (set_flag k b)" "requests_within U (set_message k msg)" "requests_within U (set_data k v)"
  "requests_within U (modify_data k g)" "requests_within U (report env k fallback e)"
  "requests_within U (store_members xs v)"
  by (rule within_quiet, simp add: run_simps store_members_client)+

lemma within_property [within_intros]: "requests_within U (property v k)"
  by (rule within_quiet) (auto simp: property_def run_simps split: option.split json.split)

lemma within_call [within_intros]: "U (call_path c) \<Longrightarrow> requests_within U (call_api (request server c))"
  by (simp add: requests_within_def call_api_client sent_within_request)

lemma within_bind [within_intros]:
  "requests_within U m \<Longrightarrow> (\<And>x. requests_within U (f x)) \<Longrightarrow> requests_within U (bind m f)"
  unfolding requests_within_def
  by (auto simp: bind_def split: prod.split sum.split) (metis sent_within_trans snd_conv)+

lemma within_andthen [within_intros]:
  "requests_within U m \<Longrightarrow> requests_within U n \<Longrightarrow> requests_within U (andthen m n)"
  by (simp add: andthen_def within_bind)

lemma within_catch [within_intros]:
  "requests_within U m \<Longrightarrow> (\<And>e. requests_within U (f e)) \<Longrightarrow> requests_within U (try_catch m f)"
  unfolding requests_within_def
  by (auto simp: try_catch_def split: prod.split sum.split) (metis sent_within_trans snd_conv)+

lemma within_finally [within_intros]:
  "requests_within U m \<Longrightarrow> requests_within U f \<Longrightarrow> requests_within U (try_finally m f)"
  unfolding requests_within_def
  by (auto simp: try_finally_def split: prod.split sum.split) (metis sent_within_trans snd_conv)+

lemma within_results [within_intros]:
  "requests_within U m \<Longrightarrow> requests_within U (or_null m)"
  "requests_within U a \<Longrightarrow> requests_within U (worked a)"
  "requests_within U a \<Longrightarrow> requests_within U (no_result a)"
  by (auto simp: requests_within_def or_null_def worked_def no_result_def split: prod.split sum.split) (metis snd_conv)+

text \<open>The callbacks of the three hooks, with any arguments; the values that some return are left out.\<close>

definition planning_callbacks ::
  "env \<Rightarrow> string \<Rightarrow> string \<Rightarrow> json \<Rightarrow> string option \<Rightarrow> unit action list" where
  "planning_callbacks env projectId k data selected =
     [usePlanning_loadSessions env projectId, usePlanning_loadSession env k,
      no_result (usePlanning_createSession env projectId data), usePlanning_updateSession env projectId k data,
      usePlanning_archiveSession env projectId k, usePlanning_startSession env projectId k,
      usePlanning_nextPhase env projectId k, usePlanning_createPhase env k data,
      usePlanning_updatePhase env selected k data, usePlanning_approvePhase env selected k,
      usePlanning_verifyPhase env selected k, usePlanning_deletePhase env selected k,
      usePlanning_createTask env selected k data, usePlanning_updateTask env selected k data,
      usePlanning_executeTask env selected k, usePlanning_deleteTask env selected k,
      no_result (usePlanning_exportToUIBuilder env k), usePlanning_importFromUIBuilder env k data]"

definition brevo_callbacks ::
  "env \<Rightarrow> json \<Rightarrow> int option \<Rightarrow> int option \<Rightarrow> string option \<Rightarrow> string option \<Rightarrow> unit action list" where
  "brevo_callbacks env req limit offset kind st =
     [useBrevo_fetchAccount env, useBrevo_fetchContacts env limit offset, no_result (useBrevo_createContact env req),
      no_result (useBrevo_sendEmail env req), useBrevo_fetchTemplates env, no_result (useBrevo_sendSMS env req),
      useBrevo_fetchCampaigns env kind st]"

definition local_callbacks ::
  "env \<Rightarrow> string option \<Rightarrow> string \<Rightarrow> string \<Rightarrow> json \<Rightarrow> string list \<Rightarrow> unit action list" where
  "local_callbacks env dir path content data colors =
     [useDrupalLocal_loadFileTree env dir, useDrupalLocal_openFile env path, useDrupalLocal_saveFile env path content,
      useDrupalLocal_createFile env path dir, useDrupalLocal_createDirectory env path,
      useDrupalLocal_deleteFile env path, useDrupalLocal_renameFile env path content,
      no_result (useDrupalLocal_runDrush env content), useDrupalLocal_loadModules env, useDrupalLocal_loadThemes env,
      no_result (useDrupalLocal_scaffoldModule env data), useDrupalLocal_loadStatus env,
      useDrupalLocal_loadConfigStatus env, no_result (useDrupalLocal_exportConfig env),
      no_result (useDrupalLocal_importConfig env), no_result (useDrupalLocal_generatePalette env data),
      no_result (useDrupalLocal_validatePalette env colors), no_result (useDrupalLocal_adjustPalette env colors)]"

definition under :: "string \<Rightarrow> string \<Rightarrow> bool" where
  "under base path \<longleftrightarrow> take (length base) path = base"

lemma within_shapes [within_intros]:
  "requests_within U (call_api m) \<Longrightarrow> (\<And>v. requests_within U (store v)) \<Longrightarrow>
     requests_within U (fetch_into env flag msg fallback m store)"
  "requests_within U (call_api m) \<Longrightarrow> (\<And>v. requests_within U (store v)) \<Longrightarrow>
     requests_within U (mutate env msg fallback m store)"
  "requests_within U (call_api m) \<Longrightarrow> (\<And>v. requests_within U (store v)) \<Longrightarrow>
     requests_within U (flagged_mutation env flag fallback m store)"
  "requests_within U (call_api m) \<Longrightarrow> (\<And>v. requests_within U (store v)) \<Longrightarrow>
     requests_within U (reporting env fallback m store)"
  by (simp_all add: fetch_into_def mutate_def flagged_mutation_def reporting_def within_intros)

lemma within_reload [within_intros]:
  "(\<And>k. requests_within U (usePlanning_loadSession env k)) \<Longrightarrow> requests_within U (reload_selected env selected)"
  by (simp add: reload_selected_def within_intros split: option.split)

lemmas generic_calls = get_call_def post_call_def put_call_def delete_call_def

lemma planning_loads [within_intros]:
  "requests_within (under ''/planning/'') (usePlanning_loadSessions env p)"
  "requests_within (under ''/planning/'') (usePlanning_loadSession env k)"
  by (simp_all add: usePlanning_loadSessions_def usePlanning_loadSession_def generic_calls within_intros
      plain_call_def under_def)

lemmas planning_defs = usePlanning_createSession_def usePlanning_updateSession_def usePlanning_archiveSession_def
  usePlanning_startSession_def usePlanning_nextPhase_def usePlanning_createPhase_def usePlanning_updatePhase_def
  usePlanning_approvePhase_def usePlanning_verifyPhase_def usePlanning_deletePhase_def usePlanning_createTask_def
  usePlanning_updateTask_def usePlanning_executeTask_def usePlanning_deleteTask_def
  usePlanning_exportToUIBuilder_def usePlanning_importFromUIBuilder_def

lemma planning_within:
  "list_all (requests_within (under ''/planning/'')) (planning_callbacks env projectId k data selected)"
  by (simp add: planning_callbacks_def planning_defs generic_calls within_intros plain_call_def under_def)

lemmas brevo_defs = useBrevo_fetchAccount_def useBrevo_fetchContacts_def useBrevo_createContact_def
  useBrevo_sendEmail_def useBrevo_fetchTemplates_def useBrevo_sendSMS_def useBrevo_fetchCampaigns_def

lemma brevo_within:
  "list_all (requests_within (under ''/brevo/'')) (brevo_callbacks env req limit offset kind st)"
  by (simp add: brevo_callbacks_def brevo_defs generic_calls within_intros plain_call_def under_def)

lemmas local_defs = useDrupalLocal_loadFileTree_def useDrupalLocal_openFile_def useDrupalLocal_saveFile_def
  useDrupalLocal_createFile_def useDrupalLocal_createDirectory_def useDrupalLocal_deleteFile_def
  useDrupalLocal_renameFile_def useDrupalLocal_runDrush_def useDrupalLocal_loadModules_def
  useDrupalLocal_loadThemes_def useDrupalLocal_scaffoldModule_def useDrupalLocal_loadStatus_def
  useDrupalLocal_loadConfigStatus_def useDrupalLocal_exportConfig_def useDrupalLocal_importConfig_def
  useDrupalLocal_generatePalette_def useDrupalLocal_validatePalette_def useDrupalLocal_adjustPalette_def

lemmas local_endpoints = getDrupalLocalFiles_def getDrupalLocalFileContent_def updateDrupalLocalFile_def
  createDrupalLocalFile_def createDrupalLocalDirectory_def deleteDrupalLocalFile_def renameDrupalLocalFile_def
  runDrupalLocalDrush_def getDrupalLocalModules_def getDrupalLocalThemes_def scaffoldDrupalLocalModule_def
  getDrupalLocalStatus_def getDrupalLocalConfigStatus_def exportDrupalLocalConfig_def importDrupalLocalConfig_def
  generatePalette_def validatePalette_def adjustPalette_def

lemma local_within:
  "list_all (requests_within (under ''/api/'')) (local_callbacks env dir path content data colors)"
  by (simp add: local_callbacks_def local_defs local_endpoints within_intros plain_call_def under_def
      with_json_def with_method_def)

text \<open>Where the requests of the hooks go: all that the hook of the local Drupal sends is for paths under
  \<open>/api/\<close>, which is where the server has its routes, whereas all that the planning hook sends is for paths
  under \<open>/planning/\<close> and all that the Brevo hook sends for paths under \<open>/brevo/\<close>, whatever the arguments,
  the state and the answers are: without a base URL that adds it, none of their requests is for a path
  under \<open>/api/\<close>.\<close>
theorem requests_go_where:
  "list_all (requests_within (under ''/api/'')) (local_callbacks env dir path content data colors) \<and>
   list_all (requests_within (\<lambda>p. under ''/planning/'' p \<and> \<not> under ''/api/'' p))
     (planning_callbacks env projectId k data selected) \<and>
   list_all (requests_within (\<lambda>p. under ''/brevo/'' p \<and> \<not> under ''/api/'' p))
     (brevo_callbacks env req limit offset kind st)"
proof (intro conjI local_within)
  have "\<not> under ''/api/'' p" if "under ''/planning/'' p \<or> under ''/brevo/'' p" for p
    using that by (cases p; cases "tl p") (auto simp: under_def)
  then have "under ''/planning/'' = (\<lambda>p. under ''/planning/'' p \<and> \<not> under ''/api/'' p)"
    and "under ''/brevo/'' = (\<lambda>p. under ''/brevo/'' p \<and> \<not> under ''/api/'' p)"
    by (auto simp: fun_eq_iff)
  then show "list_all (requests_within (\<lambda>p. under ''/planning/'' p \<and> \<not> under ''/api/'' p))
      (planning_callbacks env projectId k data selected)"
    and "list_all (requests_within (\<lambda>p. under ''/brevo/'' p \<and> \<not> under ''/api/'' p))
      (brevo_callbacks env req limit offset kind st)"
    using planning_within brevo_within by simp_all
qed

end
