(* ===== verification/Hooks_Account.thy ===== *)
theory Hooks_Account
  imports Hooks_Services Api_Kernel Api_Context Api_Admin
begin

section \<open>Hooks for accounts, administration and the graphics memory\<close>

text \<open>
  The callbacks of \<open>useSettings\<close>, \<open>useUserManagement\<close>, \<open>useAdmin\<close>, \<open>useAuditLogs\<close> and \<open>useVramManagement\<close> of
  \<^verbatim>\<open>packages/api/hooks\<close>, named after the hook and the callback.
\<close>

subsection \<open>Settings\<close>

definition useSettings_init :: "string option \<Rightarrow> hook" where
  "useSettings_init userId =
     new_hook (if truthy_string userId then [''userLoading'', ''preferencesLoading'', ''modelsLoading''] else [])
       [(''user'', JNull), (''preferences'', JNull), (''models'', JArr [])]"

text \<open>A flag around a request whose failure is ignored.\<close>

definition quiet_load :: "string \<Rightarrow> json option api \<Rightarrow> (json option \<Rightarrow> unit action) \<Rightarrow> unit action" where
  "quiet_load flag m store =
     andthen (set_flag flag True)
       (try_finally (try_catch (bind (call_api m) store) (\<lambda>_. finish_with ())) (set_flag flag False))"

definition useSettings_refreshUser :: "env \<Rightarrow> string option \<Rightarrow> unit action" where
  "useSettings_refreshUser env userId =
     do_if (truthy_string userId) (quiet_load ''userLoading'' (getCurrentUser (srv env)) (set_data ''user''))"

definition useSettings_refreshPreferences :: "env \<Rightarrow> string option \<Rightarrow> unit action" where
  "useSettings_refreshPreferences env userId =
     do_if (truthy_string userId)
       (quiet_load ''preferencesLoading'' (getUserPreferences (srv env) (the userId)) (set_data ''preferences''))"

definition useSettings_refreshModels :: "env \<Rightarrow> unit action" where
  "useSettings_refreshModels env =
     quiet_load ''modelsLoading'' (listModels (srv env)) (store_members [(''models'', ''models'')])"

definition useSettings_userChanged :: "env \<Rightarrow> string option \<Rightarrow> unit action" where
  "useSettings_userChanged env userId =
     do_if (truthy_string userId)
       (andthen (useSettings_refreshUser env userId)
         (andthen (useSettings_refreshPreferences env userId) (useSettings_refreshModels env)))"

text \<open>\<open>{ success, error?, data? }\<close>: the error, or what came with the success.\<close>

definition saving ::
  "env \<Rightarrow> string \<Rightarrow> string \<Rightarrow> json option api \<Rightarrow> (json option \<Rightarrow> unit action) \<Rightarrow> (string + json option) action" where
  "saving env flag fallback m store =
     andthen (set_flag flag True)
       (try_finally
         (try_catch
           (bind (call_api m) (\<lambda>res. andthen (store res) (finish_with (Inr res))))
           (\<lambda>e. finish_with (Inl (extract_error_message env e fallback))))
         (set_flag flag False))"

definition useSettings_updateProfile :: "env \<Rightarrow> string option \<Rightarrow> json \<Rightarrow> (string + json option) action" where
  "useSettings_updateProfile env userId data =
     (if \<not> truthy_string userId then finish_with (Inl ''Not authenticated'')
      else saving env ''profileSaving'' ''Failed to update profile''
        (updateUser (srv env) (the userId) data) (set_data ''user''))"

definition useSettings_changePassword :: "env \<Rightarrow> string \<Rightarrow> string \<Rightarrow> (string + json option) action" where
  "useSettings_changePassword env old_password newPwd =
     saving env ''passwordSaving'' ''Failed to change password''
       (changePassword (srv env) old_password newPwd) (\<lambda>_. finish_with ())"

definition useSettings_updatePreferences :: "env \<Rightarrow> string option \<Rightarrow> json \<Rightarrow> (string + json option) action" where
  "useSettings_updatePreferences env userId data =
     (if \<not> truthy_string userId then finish_with (Inl ''Not authenticated'')
      else saving env ''preferencesSaving'' ''Failed to update preferences''
        (updateUserPreferences (srv env) (the userId) data) (set_data ''preferences''))"

subsection \<open>Users\<close>

definition useUserManagement_init :: hook where
  "useUserManagement_init = new_hook [] [(''users'', JArr []), (''total'', JNum 0), (''page'', JNum 1),
     (''pageSize'', JNum 20), (''selectedUser'', JNull)]"

definition initial_user_params :: admin_user_list_params where
  "initial_user_params = \<lparr>users_search = None, users_role = None, users_is_active = None,
     users_sort_by = Some ''created_at'', users_sort_order = Some ''desc'', users_page = Some 1,
     users_page_size = Some 20\<rparr>"

text \<open>\<open>{ ...prev, ...newParams }\<close>, where spreading the argument is an update of the record.\<close>

definition useUserManagement_setParams ::
  "(admin_user_list_params \<Rightarrow> admin_user_list_params) \<Rightarrow> admin_user_list_params \<Rightarrow> admin_user_list_params" where
  "useUserManagement_setParams newParams prev = newParams prev"

definition useUserManagement_refreshUsers :: "env \<Rightarrow> admin_user_list_params \<Rightarrow> unit action" where
  "useUserManagement_refreshUsers env params =
     fetch_into env ''loading'' ''error'' ''Failed to load users'' (listUsers (srv env) (Some params))
       (store_members [(''users'', ''users''), (''total'', ''total''), (''page'', ''page''), (''pageSize'', ''page_size'')])"

definition useUserManagement_getUserDetails :: "env \<Rightarrow> string \<Rightarrow> json option action" where
  "useUserManagement_getUserDetails env userId = call_api (getUserDetails (srv env) userId)"

definition useUserManagement_updateUser :: "env \<Rightarrow> admin_user_list_params \<Rightarrow> string \<Rightarrow> json \<Rightarrow> json option action" where
  "useUserManagement_updateUser env params userId data =
     bind (call_api (updateUserAsAdmin (srv env) userId data))
       (\<lambda>result. andthen (useUserManagement_refreshUsers env params) (finish_with result))"

definition useUserManagement_unlockUser :: "env \<Rightarrow> admin_user_list_params \<Rightarrow> string \<Rightarrow> json option action" where
  "useUserManagement_unlockUser env params userId =
     bind (call_api (unlockUser (srv env) userId))
       (\<lambda>result. andthen (useUserManagement_refreshUsers env params) (finish_with result))"

definition useUserManagement_selectAndLoadUser :: "env \<Rightarrow> string \<Rightarrow> unit action" where
  "useUserManagement_selectAndLoadUser env userId =
     fetch_into env ''detailLoading'' ''detailError'' ''Failed to load user details''
       (getUserDetails (srv env) userId) (set_data ''selectedUser'')"

definition useUserManagement_setSelectedUser :: "json option \<Rightarrow> unit action" where
  "useUserManagement_setSelectedUser user = set_data ''selectedUser'' (Some (nullish user JNull))"

subsection \<open>Administration\<close>

definition useAdmin_init :: hook where
  "useAdmin_init = new_hook [] [(''metrics'', JNull), (''debugInfo'', JNull), (''lastUpdated'', JNull)]"

text \<open>\<open>setLastUpdated(new Date())\<close>, with the clock of the client.\<close>

definition stamp :: "unit action" where
  "stamp w = set_data ''lastUpdated'' (Some (JNum (real (clock (snd w))))) w"

definition useAdmin_refreshMetrics :: "env \<Rightarrow> unit action" where
  "useAdmin_refreshMetrics env =
     fetch_into env ''metricsLoading'' ''metricsError'' ''Failed to load metrics''
       (getKernelMetrics (srv env)) (\<lambda>data. andthen (set_data ''metrics'' data) stamp)"

definition useAdmin_refreshDebugInfo :: "env \<Rightarrow> unit action" where
  "useAdmin_refreshDebugInfo env =
     fetch_into env ''debugLoading'' ''debugError'' ''Failed to load debug info''
       (getKernelDebug (srv env)) (\<lambda>data. andthen (set_data ''debugInfo'' data) stamp)"

definition useAdmin_getServiceDebug :: "env \<Rightarrow> string \<Rightarrow> json option action" where
  "useAdmin_getServiceDebug env serviceName = call_api (getServiceDebug (srv env) serviceName)"

definition useAdmin_mounted :: "env \<Rightarrow> bool \<Rightarrow> unit action" where
  "useAdmin_mounted env enabled =
     do_if enabled (andthen (useAdmin_refreshMetrics env) (useAdmin_refreshDebugInfo env))"

text \<open>The period of the timer that the effect leaves armed, whatever was armed before.\<close>

definition useAdmin_interval :: "bool \<Rightarrow> bool \<Rightarrow> nat \<Rightarrow> nat option" where
  "useAdmin_interval enabled autoRefreshEnabled autoRefreshInterval =
     (if enabled \<and> autoRefreshEnabled then Some autoRefreshInterval else None)"

definition useAdmin_loading :: "hook \<Rightarrow> bool" where
  "useAdmin_loading h \<longleftrightarrow> flags h ''metricsLoading'' \<or> flags h ''debugLoading''"

definition useAdmin_error :: "hook \<Rightarrow> string option" where
  "useAdmin_error h =
     (if truthy_string (messages_of h ''metricsError'') then messages_of h ''metricsError''
      else messages_of h ''debugError'')"

subsection \<open>The audit log\<close>

definition default_page_size :: int where "default_page_size = 50"

definition default_filters :: audit_log_filters where
  "default_filters = \<lparr>audit_user_id = None, audit_action = None, audit_status = None, audit_start_date = None,
     audit_end_date = None, audit_ip_address = None, audit_search = None, audit_sort_by = Some ''created_at'',
     audit_order = Some ''desc'', audit_page = Some 1, audit_page_size = Some default_page_size\<rparr>"

definition useAuditLogs_init :: hook where
  "useAuditLogs_init = new_hook [] [(''logs'', JArr []), (''total'', JNum 0)]"

text \<open>The filters and the page, which are not among the stored answers.\<close>

type_synonym audit_view = "audit_log_filters \<times> int"

definition initial_audit_view :: audit_view where
  "initial_audit_view = (default_filters, 1)"

definition useAuditLogs_setPage :: "int \<Rightarrow> audit_view \<Rightarrow> audit_view" where
  "useAuditLogs_setPage p v = (fst v, max 1 p)"

definition useAuditLogs_setFilters :: "(audit_log_filters \<Rightarrow> audit_log_filters) \<Rightarrow> audit_view \<Rightarrow> audit_view" where
  "useAuditLogs_setFilters partial v = (partial (fst v), 1)"

definition useAuditLogs_resetFilters :: "audit_view \<Rightarrow> audit_view" where
  "useAuditLogs_resetFilters v = (default_filters, 1)"

definition useAuditLogs_refresh :: "env \<Rightarrow> audit_view \<Rightarrow> unit action" where
  "useAuditLogs_refresh env v =
     fetch_into env ''loading'' ''error'' ''Failed to load audit logs''
       (getAuditLogs (srv env) (Some ((fst v)\<lparr>audit_page := Some (snd v), audit_page_size := Some default_page_size\<rparr>)))
       (store_members [(''logs'', ''logs''), (''total'', ''total'')])"

text \<open>A download is the name of the file and its bytes; none after a failure.\<close>

definition useAuditLogs_exportLogs :: "env \<Rightarrow> audit_view \<Rightarrow> string \<Rightarrow> (string \<times> string) option action" where
  "useAuditLogs_exportLogs env v format =
     andthen (set_flag ''exporting'' True) (andthen (set_message ''error'' None)
       (try_finally
         (try_catch
           (bind (call_api (exportAuditLogs (srv env) (Some (fst v)) (Some format)))
             (\<lambda>blob. finish_with (Some (''audit_logs.'' @ format, blob))))
           (\<lambda>e. andthen (report env ''error'' ''Failed to export audit logs'' e) (finish_with None)))
         (set_flag ''exporting'' False)))"

subsection \<open>The graphics memory\<close>

text \<open>
  \<open>useVramManagement\<close> combines the model switcher and two polls: their lists, messages and refreshes
  are arguments; \<open>mounted\<close> is the ref that its own unmounting lowers.
\<close>

definition vram_localModels :: "json list \<Rightarrow> json list \<Rightarrow> json list" where
  "vram_localModels models runningModels =
     filter (\<lambda>m. \<not> list_ex (\<lambda>r. member r ''name'' = member m ''name'') runningModels) models"

definition vram_per_gpu :: "json option \<Rightarrow> json list" where
  "vram_per_gpu vramData = elements (Option.bind vramData (\<lambda>j. member j ''per_gpu''))"

definition vram_offloaded :: "json option \<Rightarrow> json list" where
  "vram_offloaded resourceStatus = elements (Option.bind resourceStatus (\<lambda>j. member j ''offloaded_resources''))"

definition vram_systemStats :: "json option \<Rightarrow> json" where
  "vram_systemStats resourceStatus = json_nullish (Option.bind resourceStatus (\<lambda>j. member j ''system_stats'')) JNull"

text \<open>\<open>Promise.all\<close> of the three refreshes, run one after the other.\<close>

definition refresh_all :: "unit action \<Rightarrow> unit action \<Rightarrow> unit action \<Rightarrow> unit action" where
  "refresh_all refreshModels refreshVram refreshResourceStatus =
     andthen refreshModels (andthen refreshVram refreshResourceStatus)"

text \<open>The resource that is acted on is a message without the absence of one.\<close>

definition vram_action ::
  "env \<Rightarrow> unit action \<Rightarrow> bool \<Rightarrow> string \<Rightarrow> string \<Rightarrow> json option api \<Rightarrow> json option action" where
  "vram_action env refreshes mounted resourceId fallback m =
     try_finally
       (try_catch
         (andthen (set_message ''localActionLoading'' (Some resourceId)) (andthen (set_message ''localError'' None)
           (bind (call_api m) (\<lambda>result. andthen refreshes (finish_with result)))))
         (\<lambda>e. andthen (do_if mounted (report env ''localError'' fallback e)) (throw e)))
       (do_if mounted (set_message ''localActionLoading'' None))"

definition useVramManagement_offloadToRam ::
  "env \<Rightarrow> unit action \<Rightarrow> bool \<Rightarrow> string \<Rightarrow> string option \<Rightarrow> json option action" where
  "useVramManagement_offloadToRam env refreshes mounted resourceId userId =
     vram_action env refreshes mounted resourceId ''Failed to offload resource''
       (submitOffloadDecision (srv env) (js_object [(''resource_id'', Some (JStr resourceId)),
         (''user_id'', map_option JStr userId), (''decision'', Some (JStr ''offload'')), (''remember'', Some (JBool False))]))"

definition useVramManagement_reloadFromRam ::
  "env \<Rightarrow> unit action \<Rightarrow> bool \<Rightarrow> string \<Rightarrow> real \<Rightarrow> string option \<Rightarrow> json option action" where
  "useVramManagement_reloadFromRam env refreshes mounted resourceId estimatedVramMb userId =
     vram_action env refreshes mounted resourceId ''Failed to reload resource''
       (reloadResource (srv env) (js_object [(''resource_id'', Some (JStr resourceId)),
         (''estimated_vram_mb'', Some (JNum estimatedVramMb)), (''user_id'', map_option JStr userId)]))"

definition vram_actionLoading :: "string option \<Rightarrow> hook \<Rightarrow> string option" where
  "vram_actionLoading modelActionLoading h =
     (case modelActionLoading of Some k \<Rightarrow> Some k | None \<Rightarrow> messages_of h ''localActionLoading'')"

definition vram_loading :: "bool \<Rightarrow> json option \<Rightarrow> thrown option \<Rightarrow> bool" where
  "vram_loading modelLoading vramData vramPollError \<longleftrightarrow> modelLoading \<or> (vramData = None \<and> vramPollError = None)"

definition vram_error :: "env \<Rightarrow> string option \<Rightarrow> thrown option \<Rightarrow> thrown option \<Rightarrow> hook \<Rightarrow> string option" where
  "vram_error env modelError vramPollError resourcePollError h =
     (let vram = map_option (\<lambda>e. extract_error_message env e ''Failed to fetch VRAM stats'') vramPollError;
          resource = map_option (\<lambda>e. extract_error_message env e ''Failed to fetch resource status'') resourcePollError
      in case messages_of h ''localError'' of Some m \<Rightarrow> Some m
         | None \<Rightarrow> (case modelError of Some m \<Rightarrow> Some m
             | None \<Rightarrow> (case vram of Some m \<Rightarrow> Some m | None \<Rightarrow> resource)))"

subsection \<open>What they keep\<close>

interpretation users: fetching "useUserManagement_refreshUsers env params" "''loading''" for env params
  by unfold_locales (simp_all add: useUserManagement_refreshUsers_def fetch_into_ends fetch_into_lowers)

interpretation audit: fetching "useAuditLogs_refresh env v" "''loading''" for env v
  by unfold_locales (simp_all add: useAuditLogs_refresh_def fetch_into_ends fetch_into_lowers)

text \<open>A mutation of the administration that waits for the reload ends as its own request does.\<close>

lemma admin_outcome:
  "fst (useUserManagement_unlockUser env params k w) = map_sum Thrown id (fst (unlockUser (srv env) k (snd w)))"
  "fst (useUserManagement_updateUser env params k data w) =
     map_sum Thrown id (fst (updateUserAsAdmin (srv env) k data (snd w)))"
proof -
  have "fst (bind (call_api m) (\<lambda>r. andthen (useUserManagement_refreshUsers env params) (finish_with r)) w) =
      map_sum Thrown id (fst (m (snd w)))" for m
  proof (cases rule: call_api_cases [of m w])
    case (answers v s1)
    obtain w2 where "useUserManagement_refreshUsers env params (fst w, s1) = (Inr (), w2)"
      using users.ends_in by blast
    then show ?thesis using answers by (simp add: run_simps)
  qed (simp add: run_simps)
  then show "fst (useUserManagement_unlockUser env params k w) = map_sum Thrown id (fst (unlockUser (srv env) k (snd w)))"
    and "fst (useUserManagement_updateUser env params k data w) =
      map_sum Thrown id (fst (updateUserAsAdmin (srv env) k data (snd w)))"
    by (simp_all add: useUserManagement_unlockUser_def useUserManagement_updateUser_def)
qed

text \<open>The saves of the settings never throw: they answer the error or the saved value, lower their flag, and
  a failure leaves everything else as it was.\<close>

lemma saving_outcome:
  "\<exists>h' s'. useSettings_updateProfile env (Some userId) data (h, s) =
     (Inr (case fst (updateUser (srv env) userId data s) of
        Inl e \<Rightarrow> Inl (extract_error_message env (Thrown e) ''Failed to update profile'') | Inr v \<Rightarrow> Inr v), h', s') \<and>
     \<not> flags h' ''profileSaving'' \<and>
     vars h' ''user'' = (case fst (updateUser (srv env) userId data s) of Inl e \<Rightarrow> vars h ''user'' | Inr v \<Rightarrow> v)"
  if "userId \<noteq> []"
proof -
  obtain r s1 where "updateUser (srv env) userId data s = (r, s1)" by (cases "updateUser (srv env) userId data s")
  then show ?thesis
    using that
    by (cases r) (simp_all add: useSettings_updateProfile_def saving_def run_simps call_api_def truthy_string_def)
qed

text \<open>The pages of the audit log: always at least the first, and the first again after a change of the filters.\<close>

lemma audit_page_positive:
  "snd (useAuditLogs_setPage p v) = max 1 p" "snd (useAuditLogs_setFilters f v) = 1"
  "snd (useAuditLogs_resetFilters v) = snd initial_audit_view"
  by (simp_all add: useAuditLogs_setPage_def useAuditLogs_setFilters_def useAuditLogs_resetFilters_def
      initial_audit_view_def)

text \<open>A model is listed as local exactly when it is none of the running ones.\<close>

lemma local_models_partition:
  "set (vram_localModels models runningModels) =
     {m \<in> set models. member m ''name'' \<notin> (\<lambda>r. member r ''name'') ` set runningModels}"
  unfolding vram_localModels_def set_filter list_ex_iff image_iff by (intro Collect_cong) metis

end
