(* ===== verification/Resources.thy ===== *)
theory Resources
  imports Hook_Laws Api_Kernel Coroutine
begin

section \<open>Resources\<close>

text \<open>
  \<open>useResources\<close> of \<^verbatim>\<open>packages/api/hooks/use-resources.ts\<close>: the sorted and filtered view of the resources,
  the poll with its backoff, and the actions with their optimistic updates.  The comparison of two texts,
  \<open>localeCompare\<close>, and the reading of a date are the host's and are parameters.
\<close>

subsection \<open>The view\<close>

datatype sort_field = ByResourceId | ByStatus | ByVram | ByPriority | ByLastUsed

datatype sort_order = Ascending | Descending

text \<open>\<open>localeCompare\<close> and \<open>new Date(t).getTime()\<close>.\<close>

record locale_host =
  compare_text :: "string \<Rightarrow> string \<Rightarrow> int"
  date_ms :: "string \<Rightarrow> real"

record resource =
  resource_id :: string
  resource_status :: string
  vram_mb :: "real option"
  resource_priority :: real
  last_used_at :: "string option"

definition compare_by :: "locale_host \<Rightarrow> sort_field \<Rightarrow> resource \<Rightarrow> resource \<Rightarrow> real" where
  "compare_by lh field a b =
     (case field of
        ByResourceId \<Rightarrow> real_of_int (compare_text lh (resource_id a) (resource_id b))
      | ByStatus \<Rightarrow> real_of_int (compare_text lh (resource_status a) (resource_status b))
      | ByVram \<Rightarrow> nullish (vram_mb a) 0 - nullish (vram_mb b) 0
      | ByPriority \<Rightarrow> resource_priority a - resource_priority b
      | ByLastUsed \<Rightarrow>
          (let ta = (if truthy_string (last_used_at a) then date_ms lh (the (last_used_at a)) else 0);
               tb = (if truthy_string (last_used_at b) then date_ms lh (the (last_used_at b)) else 0)
           in ta - tb))"

definition resource_order :: "locale_host \<Rightarrow> sort_field \<Rightarrow> sort_order \<Rightarrow> resource \<Rightarrow> resource \<Rightarrow> real" where
  "resource_order lh field order a b =
     (let cmp = compare_by lh field a b in if order = Ascending then cmp else - cmp)"

text \<open>
  \<open>Array.prototype.sort\<close> is stable: a list sorted by a consistent comparison is determined by it.  This
  is the insertion that computes it.
\<close>

fun insert_after :: "('a \<Rightarrow> 'a \<Rightarrow> real) \<Rightarrow> 'a \<Rightarrow> 'a list \<Rightarrow> 'a list" where
  "insert_after cmp x [] = [x]"
| "insert_after cmp x (y # ys) = (if cmp x y \<le> 0 then x # y # ys else y # insert_after cmp x ys)"

definition js_sort :: "('a \<Rightarrow> 'a \<Rightarrow> real) \<Rightarrow> 'a list \<Rightarrow> 'a list" where
  "js_sort cmp xs = foldr (insert_after cmp) xs []"

definition sort_resources :: "locale_host \<Rightarrow> resource list \<Rightarrow> sort_field \<Rightarrow> sort_order \<Rightarrow> string \<Rightarrow> resource list" where
  "sort_resources lh resources field order statusFilter =
     (let filtered = (if statusFilter \<noteq> [] then filter (\<lambda>r. resource_status r = statusFilter) resources else resources)
      in js_sort (resource_order lh field order) filtered)"

subsection \<open>The view shows what it should, in order\<close>

text \<open>What a comparison has to be for a sort to make sense; the specification asks the same.\<close>

definition consistent :: "('a \<Rightarrow> 'a \<Rightarrow> real) \<Rightarrow> bool" where
  "consistent cmp \<longleftrightarrow>
     (\<forall>x y. (0 < cmp x y) = (cmp y x < 0)) \<and> (\<forall>x y z. cmp x y \<le> 0 \<longrightarrow> cmp y z \<le> 0 \<longrightarrow> cmp x z \<le> 0)"

lemma consistent_flip: "consistent cmp \<Longrightarrow> \<not> cmp x y \<le> 0 \<Longrightarrow> cmp y x \<le> 0"
  unfolding consistent_def by (meson less_imp_le not_le)

lemma mset_insert_after: "mset (insert_after cmp x xs) = add_mset x (mset xs)"
  by (induction xs) simp_all

lemma set_insert_after [simp]: "set (insert_after cmp x xs) = insert x (set xs)"
  by (induction xs) auto

lemma mset_js_sort: "mset (js_sort cmp xs) = mset xs"
  by (induction xs) (simp_all add: js_sort_def mset_insert_after)

lemma sorted_insert_after:
  assumes "consistent cmp"
  shows "sorted_wrt (\<lambda>x y. cmp x y \<le> 0) xs \<Longrightarrow> sorted_wrt (\<lambda>x y. cmp x y \<le> 0) (insert_after cmp x xs)"
proof (induction xs)
  case (Cons y ys)
  have trans: "cmp x y \<le> 0 \<Longrightarrow> cmp y z \<le> 0 \<Longrightarrow> cmp x z \<le> 0" for z
    using assms unfolding consistent_def by blast
  show ?case using Cons trans consistent_flip [OF assms, of x y] by auto
qed simp

lemma sorted_js_sort:
  assumes "consistent cmp"
  shows "sorted_wrt (\<lambda>x y. cmp x y \<le> 0) (js_sort cmp xs)"
  by (induction xs) (simp_all add: js_sort_def sorted_insert_after [OF assms])

text \<open>Stability: what compares as equal keeps the order it had.\<close>

lemma stable_insert_after:
  assumes "consistent cmp" and "\<And>y. P y \<Longrightarrow> cmp x y \<le> 0"
  shows "filter P (insert_after cmp x xs) = (if P x then x # filter P xs else filter P xs)"
  using assms(2) by (induction xs) auto

lemma stable_js_sort:
  assumes "consistent cmp" and "\<And>x y. P x \<Longrightarrow> P y \<Longrightarrow> cmp x y \<le> 0"
  shows "filter P (js_sort cmp xs) = filter P xs"
proof (induction xs)
  case (Cons x xs)
  have step: "js_sort cmp (x # xs) = insert_after cmp x (js_sort cmp xs)" by (simp add: js_sort_def)
  have other: "\<not> P x \<Longrightarrow> filter P (insert_after cmp x ys) = filter P ys" for ys
    by (induction ys) auto
  have "P x \<Longrightarrow> filter P (insert_after cmp x ys) = x # filter P ys" for ys
    using stable_insert_after [OF assms(1), of P x ys] assms(2) by simp
  then show ?case using Cons step other by simp
qed (simp add: js_sort_def)

lemma consistent_difference: "consistent (\<lambda>a b. f a - f b)" for f :: "'a \<Rightarrow> real"
  by (auto simp: consistent_def)

lemma consistent_reverse: "consistent cmp \<Longrightarrow> consistent (\<lambda>a b. - cmp a b)"
  unfolding consistent_def by (smt (verit))

definition consistent_text :: "locale_host \<Rightarrow> bool" where
  "consistent_text lh \<longleftrightarrow> consistent (\<lambda>a b. real_of_int (compare_text lh a b))"

lemma consistent_resource_order:
  assumes "consistent_text lh"
  shows "consistent (resource_order lh field order)"
proof -
  have "consistent (compare_by lh field)"
  proof (cases field)
    case ByResourceId
    then show ?thesis using assms by (simp add: consistent_text_def consistent_def compare_by_def)
  next
    case ByStatus
    then show ?thesis using assms by (simp add: consistent_text_def consistent_def compare_by_def)
  next
    case ByVram
    then show ?thesis using consistent_difference [of "\<lambda>a. nullish (vram_mb a) 0"] by (simp add: compare_by_def [abs_def])
  next
    case ByPriority
    then show ?thesis using consistent_difference [of resource_priority] by (simp add: compare_by_def [abs_def])
  next
    case ByLastUsed
    then show ?thesis
      using consistent_difference [of "\<lambda>a. if truthy_string (last_used_at a) then date_ms lh (the (last_used_at a)) else 0"]
      by (simp add: compare_by_def [abs_def] Let_def)
  qed
  then show ?thesis
    using consistent_reverse [of "compare_by lh field"] by (cases order) (simp_all add: resource_order_def [abs_def] Let_def)
qed

text \<open>The resources that are shown are those with the chosen status, all of them when none is chosen, each as
  often as the server sent it; they are ordered by the chosen field in the chosen direction, and those that
  compare as equal keep the order that the server sent them in, in both directions.\<close>
theorem shown_resources_sorted:
  assumes "consistent_text lh"
  shows "mset (sort_resources lh rs field order flt) = mset (filter (\<lambda>r. flt = [] \<or> resource_status r = flt) rs) \<and>
    sorted_wrt (\<lambda>a b. resource_order lh field order a b \<le> 0) (sort_resources lh rs field order flt) \<and>
    filter (\<lambda>r. resource_order lh field order r x = 0) (sort_resources lh rs field order flt) =
      filter (\<lambda>r. resource_order lh field order r x = 0 \<and> (flt = [] \<or> resource_status r = flt)) rs"
proof -
  let ?cmp = "resource_order lh field order"
  let ?flt = "filter (\<lambda>r. flt = [] \<or> resource_status r = flt) rs"
  have c: "consistent ?cmp" by (rule consistent_resource_order [OF assms])
  have s: "sort_resources lh rs field order flt = js_sort ?cmp ?flt" by (auto simp: sort_resources_def Let_def)
  have "?cmp a b \<le> 0" if "?cmp a x = 0" "?cmp b x = 0" for a b
  proof -
    have "?cmp a x \<le> 0" "?cmp x b \<le> 0" using that c unfolding consistent_def by (auto simp: not_less [symmetric])
    then show ?thesis using c unfolding consistent_def by blast
  qed
  then have "filter (\<lambda>r. ?cmp r x = 0) (js_sort ?cmp ?flt) = filter (\<lambda>r. ?cmp r x = 0) ?flt"
    by (intro stable_js_sort c)
  then show ?thesis using sorted_js_sort [OF c, of ?flt] by (simp add: s mset_js_sort conj_commute)
qed

definition sample_host :: locale_host where
  "sample_host = \<lparr>compare_text = (\<lambda>a b. int (length a) - int (length b)), date_ms = (\<lambda>_. 0)\<rparr>"

definition sample_resources :: "resource list" where
  "sample_resources = map (\<lambda>(k, st, p). \<lparr>resource_id = k, resource_status = st, vram_mb = None,
     resource_priority = p, last_used_at = None\<rparr>)
     [(''a'', ''loaded'', 1), (''b'', ''error'', 3), (''c'', ''loaded'', 2), (''d'', ''loaded'', 1)]"

lemma shown_resources_sorted_witness:
  "map resource_id (sort_resources sample_host sample_resources ByPriority Descending ''loaded'') = [''c'', ''a'', ''d''] \<and>
   mset (sort_resources sample_host sample_resources ByPriority Descending ''loaded'') =
     mset (filter (\<lambda>r. ''loaded'' = [] \<or> resource_status r = ''loaded'') sample_resources)"
proof -
  have "consistent_text sample_host"
    using consistent_difference [of "\<lambda>a :: string. real (length a)"]
    by (simp add: consistent_text_def sample_host_def)
  from shown_resources_sorted [OF this] show ?thesis
    by (simp add: sort_resources_def sample_resources_def js_sort_def resource_order_def compare_by_def)
qed

subsection \<open>Loading and acting\<close>

text \<open>The refs: the failures in a row, and of the poll's effect the instance that is not cancelled and the delay
  of its armed timer.\<close>

record resources_state = hook +
  refresh_failures :: nat
  poll_instance :: nat
  poll_timer :: "int option"

definition initial_resources :: resources_state where
  "initial_resources =
     \<lparr>flags = (\<lambda>k. k = ''loading''), messages_of = (\<lambda>_. None),
      vars = map_of [(''vramStats'', JNull), (''systemStats'', JNull), (''resources'', JArr []), (''fullStatus'', JNull),
        (''preference'', JStr ''ask_each_time'')],
      refresh_failures = 0, poll_instance = 0, poll_timer = None\<rparr>"

definition refresh_resources :: "env \<Rightarrow> (resources_state, unit) co" where
  "refresh_resources env =
     co_finally
       (co_catch
         (co_then (co_do (put_message ''error'' None))
           (co_bind (co_await (getResourceStatus (srv env))) (\<lambda>status.
             co_then (co_do (\<lambda>s. put_data ''fullStatus'' status (s\<lparr>refresh_failures := 0\<rparr>)))
               (co_bind (co_property status ''vram_stats'') (\<lambda>v. co_then (co_do (put_data ''vramStats'' v))
                 (co_bind (co_property status ''system_stats'') (\<lambda>v. co_then (co_do (put_data ''systemStats'' v))
                   (co_bind (co_property status ''loaded_resources'') (\<lambda>v. co_do (put_data ''resources'' v))))))))))
         (\<lambda>e. co_then (co_do (\<lambda>s. s\<lparr>refresh_failures := Suc (refresh_failures s)\<rparr>))
           (co_report env ''error'' ''Failed to fetch resources'' e)))
       (put_flag ''loading'' False)"

definition next_poll_ms :: "int \<Rightarrow> nat \<Rightarrow> int" where
  "next_poll_ms autoRefreshMs failures = min (autoRefreshMs * min (2 ^ failures) 12) 60000"

definition poll_resources :: "env \<Rightarrow> int option \<Rightarrow> nat \<Rightarrow> (resources_state, unit) co" where
  "poll_resources env autoRefreshMs i =
     co_then (refresh_resources env) (co_do (\<lambda>s.
       case autoRefreshMs of None \<Rightarrow> s
       | Some ms \<Rightarrow> if poll_instance s \<noteq> i \<or> ms \<le> 0 then s
           else s\<lparr>poll_timer := Some (next_poll_ms ms (refresh_failures s))\<rparr>))"

definition poll_effect :: "env \<Rightarrow> int option \<Rightarrow> (resources_state, unit) co" where
  "poll_effect env autoRefreshMs =
     co_then (co_do (\<lambda>s. s\<lparr>poll_instance := Suc (poll_instance s), poll_timer := None\<rparr>))
       (co_bind (co_read poll_instance) (\<lambda>i. poll_resources env autoRefreshMs i))"

definition poll_timer_fires :: "env \<Rightarrow> int option \<Rightarrow> (resources_state, unit) co" where
  "poll_timer_fires env autoRefreshMs =
     co_bind (co_read poll_timer) (\<lambda>t. co_if (t \<noteq> None)
       (co_then (co_do (\<lambda>s. s\<lparr>poll_timer := None\<rparr>))
         (co_bind (co_read poll_instance) (\<lambda>i. poll_resources env autoRefreshMs i))))"

definition poll_cleanup :: "resources_state \<Rightarrow> resources_state" where
  "poll_cleanup s = s\<lparr>poll_instance := Suc (poll_instance s), poll_timer := None\<rparr>"

definition with_status :: "string \<Rightarrow> string \<Rightarrow> json list \<Rightarrow> json list" where
  "with_status k st = map (\<lambda>r. if member r ''resource_id'' = Some (JStr k) then with_member ''status'' (Some (JStr st)) r else r)"

definition acting_on ::
  "env \<Rightarrow> string \<Rightarrow> string \<Rightarrow> string \<Rightarrow> json option api \<Rightarrow> (resources_state, json option) co" where
  "acting_on env k st fallback q =
     co_then (co_do (put_flag ''actionLoading'' True)) (co_then (co_do (put_message ''error'' None))
       (co_finally
         (co_catch
           (co_bind (co_await q) (\<lambda>result. co_bind (co_property result ''success'') (\<lambda>ok.
             co_then (co_if (truthy ok) (co_do (\<lambda>s. put_data ''resources'' (on_array (with_status k st) (vars s ''resources'')) s)))
               (co_then (refresh_resources env) (co_return result)))))
           (\<lambda>e. co_then (co_report env ''error'' fallback e) (co_raise e)))
         (put_flag ''actionLoading'' False)))"

definition offloadResource :: "env \<Rightarrow> string \<Rightarrow> json \<Rightarrow> (resources_state, json option) co" where
  "offloadResource env k data = acting_on env k ''cpu_offloaded'' ''Offload failed'' (submitOffloadDecision (srv env) data)"

definition useResources_reloadResource :: "env \<Rightarrow> string \<Rightarrow> json \<Rightarrow> (resources_state, json option) co" where
  "useResources_reloadResource env k data = acting_on env k ''loading'' ''Reload failed'' (reloadResource (srv env) data)"

definition useResources_checkPreemption :: "env \<Rightarrow> real \<Rightarrow> (resources_state, json option) co" where
  "useResources_checkPreemption env requiredVramMb =
     co_then (co_do (put_message ''error'' None))
       (co_catch (co_await (checkPreemption (srv env) (js_object [(''required_vram_mb'', Some (JNum requiredVramMb))])))
         (\<lambda>e. co_then (co_report env ''error'' ''Preemption check failed'' e) (co_raise e)))"

definition fetchPreference :: "env \<Rightarrow> string \<Rightarrow> (resources_state, unit) co" where
  "fetchPreference env userId =
     co_then (co_do (put_flag ''preferenceLoading'' True))
       (co_finally
         (co_catch
           (co_bind (co_await (getPreference (srv env) userId)) (\<lambda>resp.
             co_bind (co_property resp ''preference'') (\<lambda>v. co_do (put_data ''preference'' v))))
           (\<lambda>_. co_do (put_data ''preference'' (Some (JStr ''ask_each_time'')))))
         (put_flag ''preferenceLoading'' False))"

definition useResources_setPreference :: "env \<Rightarrow> string \<Rightarrow> string \<Rightarrow> bool \<Rightarrow> (resources_state, unit) co" where
  "useResources_setPreference env userId pref remember =
     co_then (co_do (\<lambda>s. put_data ''preference'' (Some (JStr pref))
         (put_message ''error'' None (put_flag ''preferenceLoading'' True s))))
       (co_finally
         (co_catch
           (co_void (co_await (setPreference (srv env) (js_object [(''user_id'', Some (JStr userId)),
              (''preference'', Some (JStr pref)), (''remember'', Some (JBool remember))]))))
           (\<lambda>e. co_then (co_do (put_data ''preference'' (Some (JStr ''ask_each_time''))))
             (co_then (co_report env ''error'' ''Failed to save preference'' e) (co_raise e))))
         (put_flag ''preferenceLoading'' False))"

subsection \<open>The poll backs off\<close>

lemma next_poll_bounds:
  assumes "0 < ms"
  shows "min ms 60000 \<le> next_poll_ms ms n" and "next_poll_ms ms n \<le> 60000" and "next_poll_ms ms n \<le> 12 * ms"
proof -
  have "1 \<le> (2 :: int) ^ n" by simp
  then have m: "1 \<le> min (2 ^ n) (12 :: int)" by simp
  have "ms * 1 \<le> ms * min (2 ^ n) 12" using m assms by (intro mult_left_mono) auto
  then show "min ms 60000 \<le> next_poll_ms ms n" by (simp add: next_poll_ms_def)
  show "next_poll_ms ms n \<le> 60000" by (simp add: next_poll_ms_def)
  have "ms * min (2 ^ n) 12 \<le> ms * 12" using assms by (intro mult_left_mono) auto
  then show "next_poll_ms ms n \<le> 12 * ms" by (simp add: next_poll_ms_def)
qed

lemma resources_puts [simp]:
  "poll_timer (put_flag k b s) = poll_timer s" "poll_timer (put_message k e s) = poll_timer s"
  "poll_timer (put_data k v s) = poll_timer s"
  "poll_instance (put_flag k b s) = poll_instance s" "poll_instance (put_message k e s) = poll_instance s"
  "poll_instance (put_data k v s) = poll_instance s"
  "refresh_failures (put_flag k b s) = refresh_failures s" "refresh_failures (put_message k e s) = refresh_failures s"
  "refresh_failures (put_data k v s) = refresh_failures s"
  by (simp_all add: put_flag_def put_message_def put_data_def)

text \<open>What the timer is armed with, as an invariant of every schedule.\<close>

definition timer_ok :: "int \<Rightarrow> resources_state \<Rightarrow> bool" where
  "timer_ok ms s \<longleftrightarrow> (\<forall>t. poll_timer s = Some t \<longrightarrow> min ms 60000 \<le> t \<and> t \<le> 60000 \<and> t \<le> 12 * ms)"

lemma timer_ok_puts [simp]:
  "timer_ok ms (put_flag k b s) = timer_ok ms s" "timer_ok ms (put_message k e s) = timer_ok ms s"
  "timer_ok ms (put_data k v s) = timer_ok ms s" "timer_ok ms (s\<lparr>refresh_failures := n\<rparr>) = timer_ok ms s"
  "timer_ok ms (s\<lparr>poll_timer := None\<rparr>)" "timer_ok ms (s\<lparr>poll_instance := n, poll_timer := None\<rparr>)"
  by (simp_all add: timer_ok_def)

lemma refresh_keeps_timer: "keeps (timer_ok ms) (refresh_resources env)"
  unfolding refresh_resources_def by (intro keeps_intros; simp)

lemma poll_keeps_timer:
  assumes "0 < ms"
  shows "keeps (timer_ok ms) (poll_resources env (Some ms) i)"
  unfolding poll_resources_def
  by (intro keeps_then refresh_keeps_timer keeps_do)
    (use next_poll_bounds [OF assms] in \<open>simp add: timer_ok_def\<close>)

definition resource_calls :: "env \<Rightarrow> int \<Rightarrow> string \<Rightarrow> json \<Rightarrow> (resources_state, unit) co list" where
  "resource_calls env ms k data =
     [poll_effect env (Some ms), poll_timer_fires env (Some ms), refresh_resources env,
      co_void (offloadResource env k data), co_void (useResources_reloadResource env k data),
      fetchPreference env k, useResources_setPreference env k k True, useResources_setPreference env k k False]"

lemma calls_keep_timer:
  assumes "0 < ms" and "c \<in> set (resource_calls env ms k data)"
  shows "keeps (timer_ok ms) c"
proof -
  have act: "keeps (timer_ok ms) (acting_on env k st fallback q)" for st fallback q
    unfolding acting_on_def by (intro keeps_intros refresh_keeps_timer; simp)
  have effect: "keeps (timer_ok ms) (poll_effect env (Some ms))" "keeps (timer_ok ms) (poll_timer_fires env (Some ms))"
    unfolding poll_effect_def poll_timer_fires_def by (intro keeps_intros poll_keeps_timer assms(1); simp)+
  have pref: "keeps (timer_ok ms) (fetchPreference env k)" "keeps (timer_ok ms) (useResources_setPreference env k k b)" for b
    unfolding fetchPreference_def useResources_setPreference_def by (intro keeps_intros; simp)+
  show ?thesis
    using assms(2) act effect pref refresh_keeps_timer
    by (auto simp: resource_calls_def offloadResource_def useResources_reloadResource_def intro!: keeps_void)
qed

text \<open>The poll of the resources backs off within bounds: in every order of loads, actions and answers, with any
  number of failures, an armed timer waits at least the period that was asked for, or a minute when that is
  longer, at most twelve times the period, and never more than a minute.\<close>
theorem resource_poll_bounded:
  assumes "0 < ms"
    and "\<forall>e \<in> set es. (case e of Called c \<Rightarrow> c \<in> set (resource_calls env ms k data)
        | Answered i j r \<Rightarrow> True | Changed f \<Rightarrow> f = poll_cleanup)"
    and "poll_timer (fst (happened es initial_resources)) = Some t"
  shows "min ms 60000 \<le> t \<and> t \<le> 60000 \<and> t \<le> 12 * ms"
proof -
  have "allowed (timer_ok ms) e" if "e \<in> set es" for e
    using assms(2) that calls_keep_timer [OF assms(1)]
    by (cases e) (auto simp: allowed_def poll_cleanup_def)
  then have "timer_ok ms (fst (happened es initial_resources))"
    using happened_steady [of "timer_ok ms" es initial_resources]
    by (simp add: list_all_iff timer_ok_def initial_resources_def)
  then show ?thesis using assms(3) by (simp add: timer_ok_def)
qed

lemma resource_poll_bounded_witness:
  "poll_timer (fst (happened [Called (poll_effect sample_host_env (Some 5000)), Answered 0 0 (Inl SyntaxErr),
      Called (poll_timer_fires sample_host_env (Some 5000)), Answered 1 0 (Inl SyntaxErr)] initial_resources)) = Some 20000 \<and>
   (20000 :: int) \<le> 60000"
proof -
  let ?es = "[Called (poll_effect sample_host_env (Some 5000)), Answered 0 0 (Inl SyntaxErr),
      Called (poll_timer_fires sample_host_env (Some 5000)), Answered 1 0 (Inl SyntaxErr)]"
  have "poll_timer (fst (happened ?es initial_resources)) = Some 20000"
    by (simp add: happened_def poll_effect_def poll_timer_fires_def poll_resources_def refresh_resources_def
        co_defs co_report_def initial_resources_def next_poll_ms_def)
  then show ?thesis
    using resource_poll_bounded [of 5000 ?es sample_host_env "[]" JNull 20000] by (simp add: resource_calls_def)
qed

text \<open>A preference that could not be saved is not taken back to the one before, but to the default.\<close>

lemma failed_preference_forgets:
  "vars (fst (happened [Called (useResources_setPreference env u pref b), Answered 0 0 (Inl e)] s)) ''preference'' =
     Some (JStr ''ask_each_time'')"
  by (simp add: happened_def useResources_setPreference_def co_defs co_report_def)

end
