(* ===== verification/Interval_Polls.thy ===== *)
theory Interval_Polls
  imports Coroutine
begin

section \<open>Polls by an interval\<close>

text \<open>
  Several hooks poll by \<open>setInterval\<close> and keep the interval in a ref, which they clear and set to null to
  stop.  The intervals that the browser has are a list of their own: one that no ref holds any more goes
  on firing.
\<close>

record polling_hook = hook +
  armed :: "(nat \<times> string) list"
  interval_ref :: "nat option"
  next_interval :: nat

text \<open>\<open>ref.current = setInterval(...)\<close>, with what the callback closes over.\<close>

definition set_interval :: "string \<Rightarrow> 'z polling_hook_scheme \<Rightarrow> 'z polling_hook_scheme" where
  "set_interval arg s =
     s\<lparr>armed := armed s @ [(next_interval s, arg)], interval_ref := Some (next_interval s),
       next_interval := Suc (next_interval s)\<rparr>"

definition clear_interval :: "nat \<Rightarrow> 'z polling_hook_scheme \<Rightarrow> 'z polling_hook_scheme" where
  "clear_interval i s = s\<lparr>armed := filter (\<lambda>(j, _). j \<noteq> i) (armed s)\<rparr>"

text \<open>\<open>if (ref.current) { clearInterval(ref.current); ref.current = null; }\<close>\<close>

definition stop_interval :: "'z polling_hook_scheme \<Rightarrow> 'z polling_hook_scheme" where
  "stop_interval s =
     (case interval_ref s of None \<Rightarrow> s | Some i \<Rightarrow> (clear_interval i s)\<lparr>interval_ref := None\<rparr>)"

definition interval_fires ::
  "(string \<Rightarrow> ('z polling_hook_scheme, unit) co) \<Rightarrow> nat \<Rightarrow> ('z polling_hook_scheme, unit) co" where
  "interval_fires poll i =
     co_bind (co_read (\<lambda>s. map_of (armed s) i)) (\<lambda>a. case a of None \<Rightarrow> co_return () | Some arg \<Rightarrow> poll arg)"

subsection \<open>At most one interval, the one that the ref holds\<close>

definition one_interval :: "'z polling_hook_scheme \<Rightarrow> bool" where
  "one_interval s \<longleftrightarrow> map fst (armed s) = (case interval_ref s of None \<Rightarrow> [] | Some i \<Rightarrow> [i])"

lemma polling_puts [simp]:
  "armed (put_flag k b s) = armed s" "armed (put_message k e s) = armed s" "armed (put_data k v s) = armed s"
  "interval_ref (put_flag k b s) = interval_ref s" "interval_ref (put_message k e s) = interval_ref s"
  "interval_ref (put_data k v s) = interval_ref s"
  by (simp_all add: put_flag_def put_message_def put_data_def)

lemma one_interval_puts [simp]:
  "one_interval (put_flag k b s) = one_interval s" "one_interval (put_message k e s) = one_interval s"
  "one_interval (put_data k v s) = one_interval s"
  by (simp_all add: one_interval_def)

lemma one_interval_stopped: "one_interval s \<Longrightarrow> armed (stop_interval s) = [] \<and> interval_ref (stop_interval s) = None"
  by (cases "interval_ref s"; cases "armed s")
    (auto simp: one_interval_def stop_interval_def clear_interval_def)

lemma one_interval_stop [simp]: "one_interval s \<Longrightarrow> one_interval (stop_interval s)"
  using one_interval_stopped [of s] by (simp add: one_interval_def)

lemma one_interval_restart [simp]: "one_interval s \<Longrightarrow> one_interval (set_interval arg (stop_interval s))"
  using one_interval_stopped [of s] by (simp add: one_interval_def set_interval_def)

text \<open>A callback that keeps it when it is fired by any interval.\<close>

lemma interval_fires_keeps [keeps_intros]: "(\<And>arg. keeps I (poll arg)) \<Longrightarrow> keeps I (interval_fires poll i)"
  unfolding interval_fires_def by (intro keeps_intros) (simp add: keeps_return split: option.split)

subsection \<open>The interface of a poll that is restarted\<close>

text \<open>
  What a hook has to offer: a way to start that stops first, a callback of the interval that starts
  nothing, and an end.  Then no order of starts, firings and answers leaves a second interval.
\<close>

definition polling_event ::
  "('z polling_hook_scheme, unit) co set \<Rightarrow> (string \<Rightarrow> ('z polling_hook_scheme, unit) co) \<Rightarrow>
   'z polling_hook_scheme happening \<Rightarrow> bool" where
  "polling_event start poll e \<longleftrightarrow>
     (case e of Called c \<Rightarrow> c \<in> start \<or> (\<exists>i. c = interval_fires poll i) | Answered i j r \<Rightarrow> True
      | Changed f \<Rightarrow> f = stop_interval)"

locale restarting =
  fixes start :: "('z polling_hook_scheme, unit) co set" and poll :: "string \<Rightarrow> ('z polling_hook_scheme, unit) co"
  assumes starts: "c \<in> start \<Longrightarrow> keeps one_interval c"
    and polls: "keeps one_interval (poll arg)"
begin

lemma one_interval_always:
  assumes "one_interval s" and "list_all (polling_event start poll) es"
  shows "one_interval (fst (happened es s))"
proof -
  have "allowed one_interval e" if "polling_event start poll e" for e
    using that starts polls
    by (cases e) (auto simp: polling_event_def allowed_def intro!: interval_fires_keeps)
  then have "list_all (allowed one_interval) es" using assms(2) by (auto simp: list_all_iff)
  then show ?thesis using happened_steady [of one_interval es s] assms(1) by simp
qed

lemma stopped_means_silent:
  assumes "one_interval s" and "list_all (polling_event start poll) es"
  shows "armed (fst (happened (es @ [Changed stop_interval]) s)) = []"
proof -
  have "fst (happened (es @ [Changed stop_interval]) s) = stop_interval (fst (happened es s))"
    by (cases "happened es s") (simp add: happened_def)
  then show ?thesis using one_interval_stopped [OF one_interval_always [OF assms]] by simp
qed

end

end
