(* ===== verification/Studio_Server.thy ===== *)
theory Studio_Server
  imports Interval_Polls Hook_Laws
begin

section \<open>The server side of the studio\<close>

text \<open>
  \<^verbatim>\<open>packages/api/hooks/use-studio.ts\<close>: \<open>useStudioProjects\<close> and \<open>useStudioProject\<close> as data hooks, whose callbacks
  run from their call to their end; \<open>useStudioMedia\<close> with the object URLs that it makes, and \<open>useStudioExport\<close>
  with its poll, as coroutines.
\<close>

subsection \<open>Requests past the client\<close>

text \<open>
  Uploads and downloads use \<open>fetch\<close> itself: no timeout, no retries, no token in a header, and the same base
  URL as the client's default.  An \<open>Error\<close> with a message is kept as the message.
\<close>

definition bare_request :: "string \<Rightarrow> string \<Rightarrow> payload option \<Rightarrow> http \<Rightarrow> http_request" where
  "bare_request path method body s =
     \<lparr>req_url = base_url s @ path, req_method = method, req_headers = [], req_body = body,
      req_credentials = ''include''\<rparr>"

definition bare_fetch :: "server \<Rightarrow> http_request \<Rightarrow> http \<Rightarrow> fetch_end \<times> http" where
  "bare_fetch server req s =
     (let x = server (length (sent s)) req; s1 = wait_ms (latency x) (s\<lparr>sent := sent s @ [req]\<rparr>)
      in case outcome x of Reply r \<Rightarrow> (Responds x r, s1) | NoReply m \<Rightarrow> (Rejects (NetworkErr m), s1))"

text \<open>\<open>if (!response.ok) { ... throw new Error(`What (status): text`) }\<close>, with the way to the login page.\<close>

definition leave_for_login :: "response \<Rightarrow> http \<Rightarrow> http" where
  "leave_for_login r s = (if status r = 401 \<and> pathname s \<noteq> None then s\<lparr>hrefs := hrefs s @ [''/login'']\<rparr> else s)"

definition failed_text :: "string \<Rightarrow> response \<Rightarrow> string" where
  "failed_text what r = what @ '' ('' @ show_nat (status r) @ ''): '' @ nullish (body_text r) (status_text r)"

definition upload_form_data :: "server \<Rightarrow> string \<Rightarrow> (string \<times> form_value) list \<Rightarrow> json option api" where
  "upload_form_data server path form s =
     (case bare_fetch server (bare_request path ''POST'' (Some (FormBody form)) s) s of
        (Rejects e, s1) \<Rightarrow> (Inl e, s1)
      | (Responds x r, s1) \<Rightarrow>
          if \<not> is_ok r then (Inl (NetworkErr (failed_text ''Upload failed'' r)), wait_ms (body_latency x) (leave_for_login r s1))
          else (case body_json r of None \<Rightarrow> Inl SyntaxErr | Some j \<Rightarrow> Inr (Some j), wait_ms (body_latency x) s1))"

text \<open>A blob is its bytes.\<close>

definition blob_of :: "exchange \<Rightarrow> response \<Rightarrow> json option api" where
  "blob_of x r s =
     (case body_text r of None \<Rightarrow> Inl (NetworkErr []) | Some b \<Rightarrow> Inr (Some (JStr b)), wait_ms (body_latency x) s)"

definition fetch_media :: "server \<Rightarrow> string \<Rightarrow> json option api" where
  "fetch_media server mediaId s =
     (case bare_fetch server (bare_request (route [Lit ''/api/studio/media/'', Enc mediaId, Lit ''/file'']) ''GET'' None s) s of
        (Rejects e, s1) \<Rightarrow> (Inl e, s1)
      | (Responds x r, s1) \<Rightarrow>
          if \<not> is_ok r then
            (Inl (NetworkErr (''Failed to fetch media file ('' @ show_nat (status r) @ ''): '' @ status_text r)), s1)
          else blob_of x r s1)"

definition fetch_export :: "server \<Rightarrow> string \<Rightarrow> json option api" where
  "fetch_export server exportId s =
     (case bare_fetch server (bare_request (route [Lit ''/api/studio/exports/'', Enc exportId, Lit ''/download'']) ''GET'' None s) s of
        (Rejects e, s1) \<Rightarrow> (Inl e, s1)
      | (Responds x r, s1) \<Rightarrow>
          if \<not> is_ok r then (Inl (NetworkErr (failed_text ''Download failed'' r)), wait_ms (body_latency x) (leave_for_login r s1))
          else blob_of x r s1)"

subsection \<open>Projects\<close>

definition useStudioProjects_init :: hook where
  "useStudioProjects_init = new_hook [''loading''] [(''projects'', JArr [])]"

text \<open>\<open>data.k ?? data\<close>.\<close>

definition member_or_all :: "json option \<Rightarrow> json option \<Rightarrow> json option" where
  "member_or_all data v = (case v of None \<Rightarrow> data | Some JNull \<Rightarrow> data | Some j \<Rightarrow> Some j)"

definition useStudioProjects_refresh :: "env \<Rightarrow> unit action" where
  "useStudioProjects_refresh env =
     fetch_into env ''loading'' ''error'' ''Failed to load studio projects''
       (get_call (srv env) ''/api/studio/projects'')
       (\<lambda>data. bind (property data ''projects'') (\<lambda>v. set_data ''projects'' (member_or_all data v)))"

definition useStudioProjects_createProject :: "env \<Rightarrow> json \<Rightarrow> json option action" where
  "useStudioProjects_createProject env data =
     mutate env ''error'' ''Failed to create studio project''
       (post_call (srv env) ''/api/studio/projects'' (Some data)) (\<lambda>_. useStudioProjects_refresh env)"

definition useStudioProjects_deleteProject :: "env \<Rightarrow> string \<Rightarrow> unit action" where
  "useStudioProjects_deleteProject env projectId =
     no_result (mutate env ''error'' ''Failed to delete studio project''
       (delete_call (srv env) (route [Lit ''/api/studio/projects/'', Enc projectId]))
       (\<lambda>_. modify_data ''projects'' (on_array (remove_with_id projectId))))"

definition useStudioProject_init :: hook where
  "useStudioProject_init = new_hook [''loading''] [(''project'', JNull)]"

definition useStudioProject_refresh :: "env \<Rightarrow> string \<Rightarrow> unit action" where
  "useStudioProject_refresh env projectId =
     do_if (projectId \<noteq> [])
       (fetch_into env ''loading'' ''error'' ''Failed to load studio project''
         (get_call (srv env) (route [Lit ''/api/studio/projects/'', Enc projectId])) (set_data ''project''))"

definition useStudioProject_updateProject :: "env \<Rightarrow> string \<Rightarrow> json \<Rightarrow> json option action" where
  "useStudioProject_updateProject env projectId updates =
     mutate env ''error'' ''Failed to update studio project''
       (put_call (srv env) (route [Lit ''/api/studio/projects/'', Enc projectId]) (Some updates)) (set_data ''project'')"

definition useStudioProject_saveTimeline :: "env \<Rightarrow> string \<Rightarrow> json \<Rightarrow> json option action" where
  "useStudioProject_saveTimeline env projectId timelineData =
     useStudioProject_updateProject env projectId (js_object [(''timeline_data'', Some timelineData)])"

interpretation studio_projects: fetching "useStudioProjects_refresh env" "''loading''" for env
  by unfold_locales (simp_all add: useStudioProjects_refresh_def fetch_into_ends fetch_into_lowers)

interpretation studio_project: settling "useStudioProject_refresh env projectId" "''loading''" for env projectId
  by unfold_locales (simp_all add: useStudioProject_refresh_def do_if_def finish_with_def fetch_into_ends fetch_into_lowers)

text \<open>Without a project there is nothing to load, and the flag that the hook starts with stays raised.\<close>

lemma no_project_loads_forever:
  "flags (fst (snd (useStudioProject_refresh env [] (useStudioProject_init, s)))) ''loading''"
  by (simp add: useStudioProject_refresh_def useStudioProject_init_def new_hook_def do_if_def finish_with_def)

subsection \<open>Media\<close>

text \<open>
  The object URLs that the browser keeps alive, by number, and those that the hook tracks; a recording
  is its bytes with the name of the file when it is one.
\<close>

record media_state = hook +
  live_urls :: "nat list"
  next_url :: nat
  created_urls :: "nat list"
  media_mounted :: bool

definition initial_media :: media_state where
  "initial_media =
     \<lparr>flags = (\<lambda>k. k = ''loading''), messages_of = (\<lambda>_. None),
      vars = map_of [(''assets'', JArr []), (''uploadProgress'', JNum 0)],
      live_urls = [], next_url = 0, created_urls = [], media_mounted = True\<rparr>"

definition refresh_media :: "env \<Rightarrow> string \<Rightarrow> (media_state, unit) co" where
  "refresh_media env projectId =
     co_if (projectId \<noteq> [])
       (co_finally
         (co_catch
           (co_then (co_do (put_flag ''loading'' True)) (co_then (co_do (put_message ''error'' None))
             (co_bind (co_await (get_call (srv env) (route [Lit ''/api/studio/projects/'', Enc projectId, Lit ''/media''])))
               (\<lambda>data. co_bind (co_property data ''assets'')
                 (\<lambda>v. co_do (put_data ''assets'' (member_or_all data v)))))))
           (co_report env ''error'' ''Failed to load project media''))
         (put_flag ''loading'' False))"

definition uploading_to ::
  "env \<Rightarrow> string \<Rightarrow> string \<Rightarrow> (string \<times> form_value) list \<Rightarrow> (media_state, json option) co" where
  "uploading_to env path fallback form =
     co_finally
       (co_catch
         (co_then (co_do (\<lambda>s. put_data ''uploadProgress'' (Some (JNum 0)) (put_flag ''uploading'' True (put_message ''error'' None s))))
           (co_bind (co_await (upload_form_data (srv env) path form)) (\<lambda>asset.
             co_then (co_do (\<lambda>s. put_data ''assets'' (on_array (\<lambda>prev. prev @ [nullish asset JNull]) (vars s ''assets''))
                 (put_data ''uploadProgress'' (Some (JNum 100)) s)))
               (co_return asset))))
         (\<lambda>e. co_then (co_report env ''error'' fallback e) (co_raise e)))
       (\<lambda>s. put_data ''uploadProgress'' (Some (JNum 0)) (put_flag ''uploading'' False s))"

definition uploadMedia :: "env \<Rightarrow> string \<Rightarrow> string \<times> string \<Rightarrow> string option \<Rightarrow> (media_state, json option) co" where
  "uploadMedia env projectId file mediaType =
     uploading_to env (route [Lit ''/api/studio/projects/'', Enc projectId, Lit ''/media'']) ''Failed to upload media''
       ((''file'', FormFile (fst file) (snd file)) # form_truthy ''media_type'' mediaType)"

definition uploadRecording ::
  "env \<Rightarrow> string \<Rightarrow> string option \<times> string \<Rightarrow> string option \<Rightarrow> (media_state, json option) co" where
  "uploadRecording env projectId recording filename =
     uploading_to env (route [Lit ''/api/studio/projects/'', Enc projectId, Lit ''/recordings'']) ''Failed to upload recording''
       [(''file'', FormFile (nullish (fst recording) (nullish filename ''recording.webm'')) (snd recording))]"

definition deleteAsset :: "env \<Rightarrow> string \<Rightarrow> (media_state, unit) co" where
  "deleteAsset env mediaId =
     co_catch
       (co_then (co_do (put_message ''error'' None))
         (co_bind (co_await (delete_call (srv env) (route [Lit ''/api/studio/media/'', Enc mediaId])))
           (\<lambda>_. co_do (\<lambda>s. put_data ''assets'' (on_array (remove_with_id mediaId) (vars s ''assets'')) s))))
       (\<lambda>e. co_then (co_report env ''error'' ''Failed to delete media asset'' e) (co_raise e))"

definition create_object_url :: "media_state \<Rightarrow> media_state" where
  "create_object_url s = s\<lparr>live_urls := live_urls s @ [next_url s], next_url := Suc (next_url s)\<rparr>"

definition revoke_object_url :: "nat \<Rightarrow> media_state \<Rightarrow> media_state" where
  "revoke_object_url u s = s\<lparr>live_urls := removeAll u (live_urls s)\<rparr>"

definition getMediaFileUrl :: "env \<Rightarrow> string \<Rightarrow> (media_state, nat) co" where
  "getMediaFileUrl env mediaId =
     co_bind (co_await (fetch_media (srv env) mediaId)) (\<lambda>blob.
       co_bind (co_read next_url) (\<lambda>u.
         co_then (co_do create_object_url)
           (co_bind (co_read media_mounted) (\<lambda>mounted.
             if \<not> mounted
             then co_then (co_do (revoke_object_url u))
                    (co_raise (Thrown (NetworkErr ''Component unmounted during media fetch'')))
             else co_then (co_do (\<lambda>s. s\<lparr>created_urls := created_urls s @ [u]\<rparr>)) (co_return u)))))"

definition revokeMediaUrl :: "nat \<Rightarrow> media_state \<Rightarrow> media_state" where
  "revokeMediaUrl u s = (let s1 = revoke_object_url u s in s1\<lparr>created_urls := removeAll u (created_urls s1)\<rparr>)"

definition unmount_media :: "media_state \<Rightarrow> media_state" where
  "unmount_media s =
     (fold revoke_object_url (created_urls s) (s\<lparr>media_mounted := False\<rparr>))\<lparr>created_urls := []\<rparr>"

subsection \<open>No object URL is lost\<close>

definition urls_tracked :: "media_state \<Rightarrow> bool" where
  "urls_tracked s \<longleftrightarrow> live_urls s = created_urls s \<and> (\<not> media_mounted s \<longrightarrow> live_urls s = []) \<and>
     (\<forall>u \<in> set (live_urls s). u < next_url s)"

lemma media_puts [simp]:
  "live_urls (put_flag k b s) = live_urls s" "live_urls (put_message k e s) = live_urls s"
  "live_urls (put_data k v s) = live_urls s"
  "created_urls (put_flag k b s) = created_urls s" "created_urls (put_message k e s) = created_urls s"
  "created_urls (put_data k v s) = created_urls s"
  "next_url (put_flag k b s) = next_url s" "next_url (put_message k e s) = next_url s"
  "next_url (put_data k v s) = next_url s"
  "media_mounted (put_flag k b s) = media_mounted s" "media_mounted (put_message k e s) = media_mounted s"
  "media_mounted (put_data k v s) = media_mounted s"
  by (simp_all add: put_flag_def put_message_def put_data_def)

lemma urls_tracked_puts [simp]:
  "urls_tracked (put_flag k b s) = urls_tracked s" "urls_tracked (put_message k e s) = urls_tracked s"
  "urls_tracked (put_data k v s) = urls_tracked s"
  by (simp_all add: urls_tracked_def)

lemma revoke_urls_fields [simp]:
  "live_urls (fold revoke_object_url us s) = filter (\<lambda>u. u \<notin> set us) (live_urls s)"
  "created_urls (fold revoke_object_url us s) = created_urls s"
  "next_url (fold revoke_object_url us s) = next_url s"
  "media_mounted (fold revoke_object_url us s) = media_mounted s"
  by (induction us arbitrary: s) (auto simp: revoke_object_url_def removeAll_filter_not_eq intro: filter_cong)

lemma urls_tracked_revoke: "urls_tracked s \<Longrightarrow> urls_tracked (revokeMediaUrl u s)"
  by (auto simp: urls_tracked_def revokeMediaUrl_def revoke_object_url_def Let_def)

lemma urls_tracked_unmount: "urls_tracked s \<Longrightarrow> urls_tracked (unmount_media s)"
  by (simp add: urls_tracked_def unmount_media_def)

lemma keeps_get_url: "keeps urls_tracked (getMediaFileUrl env mediaId)"
proof -
  have "urls_tracked s \<Longrightarrow> removeAll (next_url s) (live_urls s) = live_urls s" for s
    by (auto simp: urls_tracked_def intro!: removeAll_id)
  then have "keeps urls_tracked (co_bind (co_read next_url) (\<lambda>u. co_then (co_do create_object_url)
      (co_bind (co_read media_mounted) (\<lambda>mounted. if \<not> mounted
        then co_then (co_do (revoke_object_url u)) (co_raise e)
        else co_then (co_do (\<lambda>s. s\<lparr>created_urls := created_urls s @ [u]\<rparr>)) (co_return u)))))" for e
    by (auto simp: keeps_def co_defs urls_tracked_def create_object_url_def revoke_object_url_def less_Suc_eq)
  then show ?thesis unfolding getMediaFileUrl_def by (rule keeps_bind [OF keeps_await])
qed

definition media_calls :: "env \<Rightarrow> string \<Rightarrow> string \<Rightarrow> string \<times> string \<Rightarrow> string option \<Rightarrow> (media_state, unit) co list" where
  "media_calls env projectId mediaId file kind =
     [refresh_media env projectId, co_void (uploadMedia env projectId file kind),
      co_void (uploadRecording env projectId (kind, snd file) (Some (fst file))), deleteAsset env mediaId,
      co_void (getMediaFileUrl env mediaId)]"

lemma keeps_uploading: "keeps urls_tracked (uploading_to env path fallback form)"
  unfolding uploading_to_def by (intro keeps_intros; simp)

lemma media_calls_keep: "c \<in> set (media_calls env projectId mediaId file kind) \<Longrightarrow> keeps urls_tracked c"
proof -
  have "keeps urls_tracked (refresh_media env projectId)" "keeps urls_tracked (deleteAsset env mediaId)"
    unfolding refresh_media_def deleteAsset_def by (intro keeps_intros; simp)+
  then show "c \<in> set (media_calls env projectId mediaId file kind) \<Longrightarrow> ?thesis"
    using keeps_uploading keeps_get_url
    by (auto simp: media_calls_def uploadMedia_def uploadRecording_def intro!: keeps_void)
qed

text \<open>C25: no object URL of the media hook is lost: in every order of its callbacks, the answers, releases by the
  page and the unmounting, the URLs that the browser keeps alive are those that the hook tracks, and once it
  is unmounted there are none, also when a file arrives later.\<close>
theorem media_urls_never_leak:
  assumes "\<forall>e \<in> set es. (case e of Called c \<Rightarrow> \<exists>p m f k. c \<in> set (media_calls env p m f k)
      | Answered i j r \<Rightarrow> True | Changed f \<Rightarrow> f = unmount_media \<or> (\<exists>u. f = revokeMediaUrl u))"
  shows "let s = fst (happened es initial_media)
    in live_urls s = created_urls s \<and> (\<not> media_mounted s \<longrightarrow> live_urls s = [])"
proof -
  have "allowed urls_tracked e" if "e \<in> set es" for e
    using bspec [OF assms that] media_calls_keep
    by (cases e) (auto simp: allowed_def urls_tracked_unmount urls_tracked_revoke)
  moreover have "urls_tracked initial_media" by (simp add: urls_tracked_def initial_media_def)
  ultimately have "urls_tracked (fst (happened es initial_media))"
    using happened_steady [of urls_tracked es initial_media] by (simp add: list_all_iff)
  then show ?thesis by (auto simp: urls_tracked_def Let_def)
qed

definition sample_media_run :: "media_state happening list" where
  "sample_media_run =
     [Called (co_void (getMediaFileUrl sample_host_env ''a'')), Called (co_void (getMediaFileUrl sample_host_env ''b'')),
      Answered 0 0 (Inr (Some (JStr ''bytes''))), Changed unmount_media, Answered 1 0 (Inr (Some (JStr ''more'')))]"

lemma media_urls_never_leak_witness:
  "\<not> media_mounted (fst (happened sample_media_run initial_media)) \<and>
   live_urls (fst (happened sample_media_run initial_media)) = [] \<and> created_urls (fst (happened sample_media_run initial_media)) = []"
proof -
  have "\<not> media_mounted (fst (happened sample_media_run initial_media))"
    by (simp add: happened_def sample_media_run_def getMediaFileUrl_def co_defs initial_media_def unmount_media_def
        create_object_url_def revoke_object_url_def)
  moreover have "\<exists>p m f k. co_void (getMediaFileUrl sample_host_env n) \<in> set (media_calls sample_host_env p m f k)" for n
    by (intro exI [of _ n] exI) (simp add: media_calls_def)
  then have "\<forall>e \<in> set sample_media_run. (case e of Called c \<Rightarrow> \<exists>p m f k. c \<in> set (media_calls sample_host_env p m f k)
      | Answered i j r \<Rightarrow> True | Changed f \<Rightarrow> f = unmount_media \<or> (\<exists>u. f = revokeMediaUrl u))"
    by (simp add: sample_media_run_def)
  note media_urls_never_leak [OF this]
  ultimately show ?thesis unfolding Let_def by metis
qed

subsection \<open>Exports\<close>

record export_state = polling_hook +
  download_urls :: "nat list"
  export_live_urls :: "nat list"
  export_next_url :: nat
  export_mounted :: bool

definition initial_export :: export_state where
  "initial_export =
     \<lparr>flags = (\<lambda>_. False), messages_of = (\<lambda>_. None), vars = map_of [(''exportStatus'', JNull)],
      armed = [], interval_ref = None, next_interval = 0, download_urls = [], export_live_urls = [],
      export_next_url = 0, export_mounted = True\<rparr>"

definition export_poll_ms :: nat where "export_poll_ms = 2000"

definition terminal_status :: "json option \<Rightarrow> bool" where
  "terminal_status st \<longleftrightarrow> st \<in> Some ` JStr ` {''completed'', ''failed'', ''cancelled''}"

definition export_poll :: "env \<Rightarrow> string \<Rightarrow> (export_state, unit) co" where
  "export_poll env exportId =
     co_catch
       (co_bind (co_await (get_call (srv env) (route [Lit ''/api/studio/exports/'', Enc exportId]))) (\<lambda>data.
         co_then (co_do (put_data ''exportStatus'' data))
           (co_bind (co_property data ''status'') (\<lambda>st. co_if (terminal_status st)
             (co_then (co_do stop_interval)
               (co_if (st = Some (JStr ''failed''))
                 (co_do (put_message ''error'' (Some (nullish
                   (as_string (Option.bind data (\<lambda>j. member j ''error_message''))) ''Export failed''))))))))))
       (\<lambda>e. co_then (co_do stop_interval) (co_report env ''error'' ''Failed to poll export status'' e))"

definition pollExportStatus :: "string \<Rightarrow> export_state \<Rightarrow> export_state" where
  "pollExportStatus exportId s = set_interval exportId (stop_interval s)"

definition fetchExportStatus :: "env \<Rightarrow> string \<Rightarrow> (export_state, json option) co" where
  "fetchExportStatus env exportId =
     co_catch
       (co_then (co_do (put_message ''error'' None))
         (co_bind (co_await (get_call (srv env) (route [Lit ''/api/studio/exports/'', Enc exportId])))
           (\<lambda>data. co_then (co_do (put_data ''exportStatus'' data)) (co_return data))))
       (\<lambda>e. co_then (co_report env ''error'' ''Failed to fetch export status'' e) (co_raise e))"

definition startExport :: "env \<Rightarrow> string \<Rightarrow> json option \<Rightarrow> (export_state, json option) co" where
  "startExport env projectId options =
     co_finally
       (co_catch
         (co_then (co_do (\<lambda>s. stop_interval (put_data ''exportStatus'' (Some JNull)
             (put_flag ''loading'' True (put_message ''error'' None s)))))
           (co_bind (co_await (post_call (srv env) (route [Lit ''/api/studio/projects/'', Enc projectId, Lit ''/export''])
               (Some (nullish options (js_object [])))))
             (\<lambda>data. co_then (co_do (put_data ''exportStatus'' data))
               (co_bind (co_property data ''status'') (\<lambda>st.
                 co_then (co_if (\<not> terminal_status st) (co_do (pollExportStatus
                     (nullish (as_string (Option.bind data (\<lambda>j. member j ''id''))) ''undefined''))))
                   (co_return data))))))
         (\<lambda>e. co_then (co_report env ''error'' ''Failed to start export'' e) (co_raise e)))
       (put_flag ''loading'' False)"

definition cancelPolling :: "export_state \<Rightarrow> export_state" where
  "cancelPolling = stop_interval"

definition downloadExport :: "env \<Rightarrow> string \<Rightarrow> (export_state, nat) co" where
  "downloadExport env exportId =
     co_finally
       (co_catch
         (co_then (co_do (\<lambda>s. put_flag ''downloading'' True (put_message ''error'' None s)))
           (co_bind (co_await (fetch_export (srv env) exportId)) (\<lambda>blob.
             co_bind (co_read export_next_url) (\<lambda>u.
               co_then (co_do (\<lambda>s. s\<lparr>export_live_urls := export_live_urls s @ [u], export_next_url := Suc u\<rparr>))
                 (co_bind (co_read export_mounted) (\<lambda>mounted.
                   if \<not> mounted
                   then co_then (co_do (\<lambda>s. s\<lparr>export_live_urls := removeAll u (export_live_urls s)\<rparr>))
                          (co_raise (Thrown (NetworkErr ''Component unmounted during download'')))
                   else co_then (co_do (\<lambda>s. s\<lparr>download_urls := download_urls s @ [u]\<rparr>)) (co_return u)))))))
         (\<lambda>e. co_bind (co_read export_mounted) (\<lambda>mounted.
           co_then (co_if mounted (co_report env ''error'' ''Failed to download export'' e)) (co_raise e))))
       (\<lambda>s. if export_mounted s then put_flag ''downloading'' False s else s)"

definition revokeDownloadUrl :: "nat \<Rightarrow> export_state \<Rightarrow> export_state" where
  "revokeDownloadUrl u s = s\<lparr>export_live_urls := removeAll u (export_live_urls s),
     download_urls := removeAll u (download_urls s)\<rparr>"

definition unmount_export :: "export_state \<Rightarrow> export_state" where
  "unmount_export s =
     (let s1 = stop_interval (s\<lparr>export_mounted := False\<rparr>)
      in s1\<lparr>export_live_urls := filter (\<lambda>u. u \<notin> set (download_urls s1)) (export_live_urls s1), download_urls := []\<rparr>)"

subsection \<open>One export is polled\<close>

lemma one_interval_extended [simp]:
  "one_interval (s\<lparr>export_live_urls := us, export_next_url := n\<rparr>) = one_interval s"
  "one_interval (s\<lparr>export_live_urls := us\<rparr>) = one_interval s" "one_interval (s\<lparr>download_urls := us\<rparr>) = one_interval s"
  "one_interval (s\<lparr>export_mounted := b\<rparr>) = one_interval s"
  by (simp_all add: one_interval_def)

definition export_calls :: "env \<Rightarrow> (export_state, unit) co set" where
  "export_calls env =
     range (\<lambda>(p, opts). co_void (startExport env p opts)) \<union> range (\<lambda>k. co_void (fetchExportStatus env k)) \<union>
     range (\<lambda>k. co_void (downloadExport env k))"

lemma keeps_download: "keeps one_interval (downloadExport env k)"
  unfolding downloadExport_def by (intro keeps_intros; simp)

interpretation export: restarting "export_calls env" "export_poll env" for env
proof
  fix c :: "(export_state, unit) co"
  have "keeps one_interval (startExport env p opts)" "keeps one_interval (fetchExportStatus env k)" for p opts k
    unfolding startExport_def fetchExportStatus_def by (intro keeps_intros; simp add: pollExportStatus_def)+
  then show "c \<in> export_calls env \<Longrightarrow> keeps one_interval c"
    by (auto simp: export_calls_def intro!: keeps_void keeps_download)
next
  show "keeps one_interval (export_poll env arg)" for arg
    unfolding export_poll_def by (intro keeps_intros; simp)
qed

text \<open>At most one export is polled: in every order of starts, downloads, status requests, firings of intervals,
  answers and cancellations, the browser has no other interval than the one in the hook's ref, so that
  cancelling leaves none.\<close>
theorem export_polls_one:
  assumes "list_all (polling_event (export_calls env) (export_poll env)) es"
  shows "let s = fst (happened es initial_export)
    in map fst (armed s) = (case interval_ref s of None \<Rightarrow> [] | Some i \<Rightarrow> [i]) \<and> armed (cancelPolling s) = []"
proof -
  have "one_interval (fst (happened es initial_export))"
    by (rule export.one_interval_always [OF _ assms]) (simp add: one_interval_def initial_export_def)
  then show ?thesis using one_interval_stopped by (auto simp: one_interval_def cancelPolling_def Let_def)
qed

definition export_answer :: "string \<Rightarrow> string \<Rightarrow> answer" where
  "export_answer k st = Inr (Some (JObj [(''id'', JStr k), (''status'', JStr st)]))"

lemma export_polls_one_witness:
  "let s = fst (happened [Called (co_void (startExport sample_host_env ''p'' None)), Answered 0 0 (export_answer ''a'' ''pending''),
       Called (co_void (startExport sample_host_env ''p'' None)), Answered 1 0 (export_answer ''b'' ''pending'')] initial_export)
   in map fst (armed s) = [1] \<and> armed (cancelPolling s) = []"
proof -
  let ?es = "[Called (co_void (startExport sample_host_env ''p'' None)), Answered 0 0 (export_answer ''a'' ''pending''),
       Called (co_void (startExport sample_host_env ''p'' None)), Answered 1 0 (export_answer ''b'' ''pending'')]"
  have "co_void (startExport sample_host_env ''p'' None) \<in> export_calls sample_host_env" by (auto simp: export_calls_def)
  then have "list_all (polling_event (export_calls sample_host_env) (export_poll sample_host_env)) ?es" by (simp add: polling_event_def)
  from export_polls_one [OF this]
  show ?thesis
    by (simp add: happened_def startExport_def co_defs co_property_def terminal_status_def export_answer_def
        pollExportStatus_def initial_export_def set_interval_def stop_interval_def clear_interval_def put_data_def
        put_flag_def put_message_def)
qed

text \<open>Where the guards are missing.  An export whose start is answered after the unmounting is polled for
  good: the interval is armed and nobody stops it.\<close>

lemmas run_export = happened_def startExport_def co_defs co_property_def terminal_status_def export_answer_def
  pollExportStatus_def initial_export_def set_interval_def stop_interval_def clear_interval_def put_data_def
  put_flag_def put_message_def

lemma late_start_polls_unmounted:
  "let s = fst (happened [Called (co_void (startExport env p None)), Changed unmount_export,
       Answered 0 0 (export_answer ''a'' ''pending'')] initial_export)
   in \<not> export_mounted s \<and> armed s = [(0, ''a'')]"
  by (simp add: run_export unmount_export_def)

text \<open>The answer to a poll of the export before stops the poll of the next one and is shown as its status.\<close>

lemma old_answer_stops_new_poll:
  "let s = fst (happened [Called (co_void (startExport env p None)), Answered 0 0 (export_answer ''a'' ''pending''),
       Called (interval_fires (export_poll env) 0),
       Called (co_void (startExport env p None)), Answered 2 0 (export_answer ''b'' ''pending''),
       Answered 1 0 (export_answer ''a'' ''completed'')] initial_export)
   in armed s = [] \<and> vars s ''exportStatus'' = Some (JObj [(''id'', JStr ''a''), (''status'', JStr ''completed'')])"
  by (simp add: run_export interval_fires_def export_poll_def)

end
