(* ===== verification/Project_Import.thy ===== *)
theory Project_Import
  imports Interval_Polls Api_Projects
begin

section \<open>Importing, exporting and snapshots of projects\<close>

text \<open>
  \<^verbatim>\<open>packages/api/hooks/use-project-import.ts\<close>.  An import is started by a request and polled by an
  interval; the first poll is made at once and nobody awaits it, here it follows its callback.  A
  download is the name of the file and its bytes.
\<close>

subsection \<open>State\<close>

record import_state = polling_hook +
  saved_files :: "(string \<times> string) list"

definition initial_import :: import_state where
  "initial_import =
     \<lparr>flags = (\<lambda>_. False), messages_of = (\<lambda>_. None),
      vars = map_of [(''importStatus'', JNull), (''snapshots'', JArr [])],
      armed = [], interval_ref = None, next_interval = 0, saved_files = []\<rparr>"

subsection \<open>The poll\<close>

definition import_over :: "json option \<Rightarrow> bool" where
  "import_over st \<longleftrightarrow> st = Some (JStr ''completed'') \<or> st = Some (JStr ''failed'')"

definition import_poll :: "env \<Rightarrow> string \<Rightarrow> (import_state, unit) co" where
  "import_poll env importId =
     co_catch
       (co_bind (co_await (getImportStatus (srv env) importId)) (\<lambda>status.
         co_then (co_do (put_data ''importStatus'' status))
           (co_bind (co_property status ''status'') (\<lambda>st. co_if (import_over st) (co_do stop_interval)))))
       (\<lambda>_. co_do stop_interval)"

text \<open>\<open>pollImportStatus\<close>: stop, poll, arm.  The first poll changes nothing before its request.\<close>

definition arm_import_poll :: "string \<Rightarrow> import_state \<Rightarrow> import_state" where
  "arm_import_poll importId s = set_interval importId (stop_interval s)"

definition pollImportStatus :: "env \<Rightarrow> string \<Rightarrow> (import_state, unit) co" where
  "pollImportStatus env importId = co_then (co_do (arm_import_poll importId)) (import_poll env importId)"

subsection \<open>The callbacks\<close>

text \<open>All of them raise the flag, clear the message, call, report an error and lower the flag; all but
  \<open>loadSnapshots\<close> throw the error again.\<close>

definition importing ::
  "env \<Rightarrow> string \<Rightarrow> json option api \<Rightarrow> (json option \<Rightarrow> (import_state, json option) co) \<Rightarrow>
   (thrown \<Rightarrow> (import_state, json option) co) \<Rightarrow> (import_state, json option) co" where
  "importing env fallback q store after =
     co_finally
       (co_catch
         (co_then (co_do (\<lambda>s. put_message ''error'' None (put_flag ''loading'' True s)))
           (co_bind (co_await q) store))
         (\<lambda>e. co_then (co_report env ''error'' fallback e) (after e)))
       (put_flag ''loading'' False)"

definition import_id_of :: "json option \<Rightarrow> string" where
  "import_id_of res = nullish (as_string (Option.bind res (\<lambda>j. member j ''import_id''))) ''undefined''"

definition started_import :: "string \<Rightarrow> json option \<Rightarrow> (import_state, json option) co" where
  "started_import kind res =
     co_bind (co_property res ''import_id'') (\<lambda>i. co_bind (co_property res ''project_id'') (\<lambda>p.
       co_bind (co_property res ''status'') (\<lambda>st. co_bind (co_property res ''message'') (\<lambda>m.
         co_then (co_do (\<lambda>s. arm_import_poll (import_id_of res) (put_data ''importStatus'' (Some (js_object
             [(''import_id'', i), (''project_id'', p), (''import_type'', Some (JStr kind)), (''status'', st),
              (''progress_message'', m), (''import_options'', Some (JObj []))])) s)))
           (co_return res)))))"

definition import_from :: "env \<Rightarrow> string \<Rightarrow> string \<Rightarrow> json option api \<Rightarrow> (import_state, json option) co" where
  "import_from env kind fallback q =
     co_bind (importing env fallback q (started_import kind) co_raise)
       (\<lambda>res. co_then (import_poll env (import_id_of res)) (co_return res))"

definition useProjectImport_importFromGit :: "env \<Rightarrow> json \<Rightarrow> (import_state, json option) co" where
  "useProjectImport_importFromGit env data =
     import_from env ''git'' ''Git import failed'' (importFromGit (srv env) data)"

definition useProjectImport_importFromArchive ::
  "env \<Rightarrow> string \<Rightarrow> string \<times> string \<Rightarrow> bool option \<Rightarrow> string option \<Rightarrow> (import_state, json option) co" where
  "useProjectImport_importFromArchive env nm file installDeps path =
     import_from env ''upload'' ''Archive import failed''
       (answer_as id (importFromArchive (srv env) nm file installDeps path))"

definition useProjectImport_importFromWebsite :: "env \<Rightarrow> json \<Rightarrow> (import_state, json option) co" where
  "useProjectImport_importFromWebsite env data =
     import_from env ''website'' ''Website import failed'' (importFromWebsite (srv env) data)"

definition useProjectImport_exportProject :: "env \<Rightarrow> string \<Rightarrow> (import_state, json option) co" where
  "useProjectImport_exportProject env projectId =
     importing env ''Export failed'' (answer_as JStr (exportProject (srv env) projectId))
       (\<lambda>blob. co_then (co_do (\<lambda>s. s\<lparr>saved_files := saved_files s @
           [(''project-'' @ take 8 projectId @ ''.tar'', nullish (as_string blob) [])]\<rparr>))
         (co_return None)) co_raise"

definition useProjectImport_cloneProject :: "env \<Rightarrow> string \<Rightarrow> json \<Rightarrow> (import_state, json option) co" where
  "useProjectImport_cloneProject env projectId data =
     importing env ''Clone failed'' (cloneProject (srv env) projectId data) co_return co_raise"

definition loadSnapshots :: "env \<Rightarrow> string \<Rightarrow> (import_state, json option) co" where
  "loadSnapshots env projectId =
     importing env ''Failed to load snapshots'' (listSnapshots (srv env) projectId)
       (\<lambda>res. co_bind (co_property res ''snapshots'') (\<lambda>v.
         co_then (co_do (put_data ''snapshots'' v)) (co_return None)))
       (\<lambda>_. co_return None)"

definition change_snapshots :: "(json list \<Rightarrow> json list) \<Rightarrow> import_state \<Rightarrow> import_state" where
  "change_snapshots f s = put_data ''snapshots'' (on_array f (vars s ''snapshots'')) s"

definition useProjectImport_createSnapshot :: "env \<Rightarrow> string \<Rightarrow> string \<Rightarrow> (import_state, json option) co" where
  "useProjectImport_createSnapshot env projectId nm =
     importing env ''Failed to create snapshot''
       (createSnapshot (srv env) projectId (js_object [(''name'', Some (JStr nm))]))
       (\<lambda>res. co_then (co_do (change_snapshots (\<lambda>prev. prev @ [nullish res JNull]))) (co_return res)) co_raise"

definition useProjectImport_restoreSnapshot :: "env \<Rightarrow> string \<Rightarrow> string \<Rightarrow> (import_state, json option) co" where
  "useProjectImport_restoreSnapshot env projectId nm =
     importing env ''Failed to restore snapshot'' (restoreSnapshot (srv env) projectId nm)
       (\<lambda>_. co_return None) co_raise"

definition named :: "string \<Rightarrow> json \<Rightarrow> bool" where
  "named nm v \<longleftrightarrow> member v ''name'' = Some (JStr nm)"

definition useProjectImport_deleteSnapshot :: "env \<Rightarrow> string \<Rightarrow> string \<Rightarrow> (import_state, json option) co" where
  "useProjectImport_deleteSnapshot env projectId nm =
     importing env ''Failed to delete snapshot'' (deleteSnapshot (srv env) projectId nm)
       (\<lambda>_. co_then (co_do (change_snapshots (filter (\<lambda>x. \<not> named nm x)))) (co_return None)) co_raise"

definition detectType :: "env \<Rightarrow> string \<Rightarrow> (import_state, json option) co" where
  "detectType env projectId =
     importing env ''Detection failed'' (detectProjectType (srv env) projectId) co_return co_raise"

subsection \<open>One import is polled\<close>

lemma one_interval_import [simp]:
  "one_interval (s\<lparr>saved_files := fs\<rparr>) = one_interval s"
  "one_interval (change_snapshots f s) = one_interval s"
  by (simp_all add: one_interval_def change_snapshots_def put_data_def)

lemma keeps_importing [keeps_intros]:
  "(\<And>v. keeps one_interval (store v)) \<Longrightarrow> (\<And>e. keeps one_interval (after e)) \<Longrightarrow>
   keeps one_interval (importing env fallback q store after)"
  unfolding importing_def by (intro keeps_intros; simp)

lemma keeps_import_poll [keeps_intros]: "keeps one_interval (import_poll env k)"
  unfolding import_poll_def by (intro keeps_intros; simp)

lemma keeps_import_from: "keeps one_interval (import_from env kind fallback q)"
  unfolding import_from_def started_import_def by (intro keeps_intros; simp add: arm_import_poll_def)

definition import_calls :: "env \<Rightarrow> (import_state, unit) co set" where
  "import_calls env =
     {co_void c | c. \<exists>p nm data file deps dir. c \<in> set
        [useProjectImport_importFromGit env data, useProjectImport_importFromWebsite env data,
         useProjectImport_importFromArchive env nm file deps dir, useProjectImport_exportProject env p,
         useProjectImport_cloneProject env p data, loadSnapshots env p, useProjectImport_createSnapshot env p nm,
         useProjectImport_restoreSnapshot env p nm, useProjectImport_deleteSnapshot env p nm, detectType env p]} \<union>
     range (pollImportStatus env)"

lemmas import_callbacks = useProjectImport_importFromGit_def useProjectImport_importFromWebsite_def
  useProjectImport_importFromArchive_def useProjectImport_exportProject_def useProjectImport_cloneProject_def
  loadSnapshots_def useProjectImport_createSnapshot_def useProjectImport_restoreSnapshot_def
  useProjectImport_deleteSnapshot_def detectType_def

lemma import_callbacks_keep:
  "keeps one_interval (useProjectImport_importFromGit env data)"
  "keeps one_interval (useProjectImport_importFromWebsite env data)"
  "keeps one_interval (useProjectImport_importFromArchive env nm file deps dir)"
  "keeps one_interval (useProjectImport_exportProject env p)"
  "keeps one_interval (useProjectImport_cloneProject env p data)"
  "keeps one_interval (loadSnapshots env p)"
  "keeps one_interval (useProjectImport_createSnapshot env p nm)"
  "keeps one_interval (useProjectImport_restoreSnapshot env p nm)"
  "keeps one_interval (useProjectImport_deleteSnapshot env p nm)"
  "keeps one_interval (detectType env p)"
  unfolding import_callbacks by (rule keeps_import_from | intro keeps_intros; simp)+

interpretation project_import: restarting "import_calls env" "import_poll env" for env
proof
  fix c :: "(import_state, unit) co"
  assume "c \<in> import_calls env"
  moreover have "keeps one_interval (pollImportStatus env k)" for k
    unfolding pollImportStatus_def by (intro keeps_intros) (simp add: arm_import_poll_def)
  ultimately show "keeps one_interval c"
    using import_callbacks_keep by (auto simp: import_calls_def intro!: keeps_void)
qed (rule keeps_import_poll)

text \<open>In every order of its callbacks, firings and answers the hook has the interval of its ref and no other,
  so that stopping leaves none.\<close>

lemma import_polls_one:
  assumes "list_all (polling_event (import_calls env) (import_poll env)) es"
  shows "one_interval (fst (happened es initial_import))"
  by (rule project_import.one_interval_always [OF _ assms]) (simp add: one_interval_def initial_import_def)

subsection \<open>Where the poll goes wrong\<close>

lemmas run_import = happened_def import_callbacks import_from_def importing_def started_import_def import_poll_def
  import_id_of_def import_over_def arm_import_poll_def set_interval_def stop_interval_def clear_interval_def
  initial_import_def co_defs co_property_def co_report_def put_data_def put_flag_def put_message_def
  interval_fires_def

definition import_answer :: "string \<Rightarrow> string \<Rightarrow> answer" where
  "import_answer k st = Inr (Some (JObj [(''import_id'', JStr k), (''status'', JStr st)]))"

text \<open>An import that is answered after the unmounting is polled for good.\<close>

lemma late_import_polls_unmounted:
  "armed (fst (happened [Called (co_void (useProjectImport_importFromGit env data)), Changed stop_interval,
     Answered 0 0 (import_answer ''a'' ''pending'')] initial_import)) = [(0, ''a'')]"
  by (simp add: run_import import_answer_def)

text \<open>A poll that fails once ends the polling without a message: the page goes on showing the import as it
  was then.\<close>

lemma one_failure_freezes_import:
  "let s = fst (happened [Called (co_void (useProjectImport_importFromGit env data)),
       Answered 0 0 (import_answer ''a'' ''pending''), Answered 0 0 (Inl e)] initial_import)
   in armed s = [] \<and> messages_of s ''error'' = None \<and>
     Option.bind (vars s ''importStatus'') (\<lambda>j. member j ''status'') = Some (JStr ''pending'')"
  by (simp add: run_import import_answer_def js_object_def)

text \<open>Polls overlap: the answer of an earlier one that comes after the last takes the page back to a running
  import, and nothing asks again.\<close>

lemma late_poll_hides_completion:
  "let s = fst (happened [Called (co_void (useProjectImport_importFromGit env data)),
       Answered 0 0 (import_answer ''a'' ''pending''), Called (interval_fires (import_poll env) 0),
       Answered 1 0 (import_answer ''a'' ''completed''), Answered 0 0 (import_answer ''a'' ''running'')] initial_import)
   in armed s = [] \<and> Option.bind (vars s ''importStatus'') (\<lambda>j. member j ''status'') = Some (JStr ''running'')"
  by (simp add: run_import import_answer_def js_object_def)

end
