(* ===== verification/Kb_Builder.thy ===== *)
theory Kb_Builder
  imports Interval_Polls Api_Knowledge
begin

section \<open>Building a knowledge base\<close>

text \<open>
  \<^verbatim>\<open>packages/api/hooks/use-kb-builder.ts\<close>: the steps of the wizard, from the upload of files to the build
  on the server, whose state is polled.  The files as they were chosen are kept in a ref by the number
  that the server gave them; a file is its name and its bytes.
\<close>

subsection \<open>State\<close>

record builder_state = polling_hook +
  raw_files :: "string \<rightharpoonup> string \<times> string"
  batch_id :: "string option"
  poll_failures :: nat

definition default_chunks :: json where
  "default_chunks = JObj [(''chunk_size'', JNum 500), (''chunk_overlap'', JNum 50)]"

definition fresh_vars :: "(string \<times> json) list" where
  "fresh_vars =
     [(''files'', JArr []), (''extractions'', JObj []), (''imageProcessing'', JObj []),
      (''chunkSettings'', default_chunks), (''chunkPreviewResult'', JNull), (''embeddingModels'', JArr []),
      (''selectedModel'', JStr ''nomic-embed-text''), (''scope'', JStr ''project''), (''batchStatus'', JNull)]"

definition initial_builder :: builder_state where
  "initial_builder =
     \<lparr>flags = (\<lambda>_. False), messages_of = (\<lambda>_. None), vars = map_of fresh_vars,
      armed = [], interval_ref = None, next_interval = 0, raw_files = Map.empty, batch_id = None, poll_failures = 0\<rparr>"

definition put_all :: "(string \<times> json) list \<Rightarrow> builder_state \<Rightarrow> builder_state" where
  "put_all kvs s = s\<lparr>vars := vars s ++ map_of kvs\<rparr>"

definition change_var :: "string \<Rightarrow> (json \<Rightarrow> json) \<Rightarrow> builder_state \<Rightarrow> builder_state" where
  "change_var k f s = put_data k (map_option f (vars s k)) s"

text \<open>All steps raise their flag, clear the message, and report an error, which they do not throw again.\<close>

definition started :: "string \<Rightarrow> builder_state \<Rightarrow> builder_state" where
  "started flag s = put_message ''error'' None (put_flag flag True s)"

definition builder_step ::
  "env \<Rightarrow> string \<Rightarrow> string \<Rightarrow> (builder_state, unit) co \<Rightarrow> (builder_state, unit) co" where
  "builder_step env flag fallback c =
     co_then (co_do (started flag))
       (co_finally (co_catch c (co_report env ''error'' fallback)) (put_flag flag False))"

subsection \<open>Files\<close>

text \<open>An array of the answer; the code iterates over it or asks for its length, which throws on anything
  that is none.\<close>

definition co_array :: "json option \<Rightarrow> ('s, json list) co" where
  "co_array v = (case v of Some (JArr xs) \<Rightarrow> co_return xs | _ \<Rightarrow> co_raise NoObject)"

definition file_id :: "json \<Rightarrow> string" where
  "file_id info = nullish (as_string (member info ''file_id'')) ''undefined''"

text \<open>The answers are matched with the files by their order.\<close>

definition remember_files :: "json list \<Rightarrow> (string \<times> string) list \<Rightarrow> builder_state \<Rightarrow> builder_state" where
  "remember_files infos newFiles s =
     s\<lparr>raw_files := fold (\<lambda>(info, f) m. m(file_id info \<mapsto> f)) (zip infos newFiles) (raw_files s)\<rparr>"

fun append_to :: "json list \<Rightarrow> json \<Rightarrow> json" where
  "append_to ys (JArr xs) = JArr (xs @ ys)"
| "append_to ys v = v"

definition addFiles :: "env \<Rightarrow> (string \<times> string) list \<Rightarrow> (builder_state, unit) co" where
  "addFiles env newFiles =
     builder_step env ''uploading'' ''Upload failed''
       (co_bind (co_await (answer_as id (bulkUploadKB (srv env) newFiles))) (\<lambda>result.
         co_bind (co_property result ''files'') (\<lambda>v. co_bind (co_array v) (\<lambda>infos.
           co_do (\<lambda>s. change_var ''files'' (append_to infos) (remember_files infos newFiles s))))))"

fun drop_file :: "string \<Rightarrow> json \<Rightarrow> json" where
  "drop_file k (JArr xs) = JArr (filter (\<lambda>x. member x ''file_id'' \<noteq> Some (JStr k)) xs)"
| "drop_file k v = v"

definition removeFile :: "string \<Rightarrow> builder_state \<Rightarrow> builder_state" where
  "removeFile fileId s =
     change_var ''extractions'' (with_member fileId None)
       ((change_var ''files'' (drop_file fileId) s)\<lparr>raw_files := (raw_files s)(fileId := None)\<rparr>)"

text \<open>\<open>"ocr" | "vision" | "skip"\<close>, the last one none for the request.\<close>

datatype image_method = Extract extract_method | Skip

fun image_method_text :: "image_method \<Rightarrow> string" where
  "image_method_text Skip = ''skip''"
| "image_method_text (Extract m) = extract_method_text m"

fun requested_method :: "image_method option \<Rightarrow> extract_method option" where
  "requested_method (Some (Extract m)) = Some m"
| "requested_method _ = None"

definition useKBBuilder_extractPreview :: "env \<Rightarrow> string \<Rightarrow> image_method option \<Rightarrow> (builder_state, unit) co" where
  "useKBBuilder_extractPreview env fileId meth =
     builder_step env ''extracting'' ''Extraction failed''
       (co_bind (co_read (\<lambda>s. raw_files s fileId)) (\<lambda>rawFile. case rawFile of
          None \<Rightarrow> co_raise (Thrown (NetworkErr ''Original file not found for extraction''))
        | Some f \<Rightarrow> co_bind (co_await (answer_as id (extractPreviewKB (srv env) f (requested_method meth))))
            (\<lambda>result. co_do (change_var ''extractions'' (with_member fileId result)))))"

definition setImageProcessing :: "string \<Rightarrow> image_method \<Rightarrow> builder_state \<Rightarrow> builder_state" where
  "setImageProcessing fileId meth =
     change_var ''imageProcessing'' (with_member fileId (Some (JStr (image_method_text meth))))"

subsection \<open>Chunks and models\<close>

text \<open>The settings are those of the rendering in which the callback is called.\<close>

definition setting :: "builder_state \<Rightarrow> string \<Rightarrow> json option" where
  "setting s k = Option.bind (vars s ''chunkSettings'') (\<lambda>j. member j k)"

definition useKBBuilder_chunkPreview :: "env \<Rightarrow> string \<Rightarrow> (builder_state, unit) co" where
  "useKBBuilder_chunkPreview env plain =
     builder_step env ''chunking'' ''Chunk preview failed''
       (co_bind (co_read (\<lambda>s. js_object
           [(''text'', Some (JStr plain)), (''chunk_size'', setting s ''chunk_size''),
            (''chunk_overlap'', setting s ''chunk_overlap''), (''separators'', setting s ''separators'')]))
         (\<lambda>data. co_bind (co_await (chunkPreviewKB (srv env) data)) (\<lambda>result.
           co_do (put_data ''chunkPreviewResult'' result))))"

definition loadModels :: "env \<Rightarrow> (builder_state, unit) co" where
  "loadModels env =
     builder_step env ''loadingModels'' ''Failed to load models''
       (co_bind (co_read (\<lambda>s. vars s ''selectedModel'')) (\<lambda>selectedModel.
         co_bind (co_await (listEmbeddingModels (srv env))) (\<lambda>result.
           co_bind (co_property result ''models'') (\<lambda>v.
             co_then (co_do (put_data ''embeddingModels'' v))
               (co_bind (co_array v) (\<lambda>models.
                 co_if (models \<noteq> [] \<and> \<not> list_ex (\<lambda>m. member m ''name'' = selectedModel) models)
                   (co_do (put_data ''selectedModel'' (member (hd models) ''name'')))))))))"

subsection \<open>The build\<close>

definition max_poll_failures :: nat where "max_poll_failures = 5"

definition build_over :: "json option \<Rightarrow> bool" where
  "build_over st \<longleftrightarrow> st \<in> Some ` JStr ` {''completed'', ''completed_with_errors'', ''failed''}"

definition lost_connection :: string where
  "lost_connection =
     ''Lost connection to build status after '' @ show_nat max_poll_failures @ '' consecutive failures''"

definition poll_failed :: "builder_state \<Rightarrow> builder_state" where
  "poll_failed s =
     (let s1 = s\<lparr>poll_failures := Suc (poll_failures s)\<rparr>
      in if max_poll_failures \<le> poll_failures s1
         then stop_interval (put_message ''error'' (Some lost_connection) (put_flag ''building'' False s1))
         else s1)"

definition pollStatus :: "env \<Rightarrow> (builder_state, unit) co" where
  "pollStatus env =
     co_bind (co_read batch_id) (\<lambda>b. co_if (truthy_string b)
       (co_catch
         (co_bind (co_await (getBulkStatus (srv env) (the b))) (\<lambda>result.
           co_then (co_do (\<lambda>s. put_data ''batchStatus'' result (s\<lparr>poll_failures := 0\<rparr>)))
             (co_bind (co_property result ''status'') (\<lambda>st. co_if (build_over st)
               (co_do (\<lambda>s. stop_interval (put_flag ''building'' False s)))))))
         (\<lambda>_. co_do poll_failed)))"

text \<open>The body of the request, from the rendering in which it is started.\<close>

definition build_request :: "string option \<Rightarrow> builder_state \<Rightarrow> json" where
  "build_request projectId s =
     js_object
       [(''project_id'', if vars s ''scope'' = Some (JStr ''project'') then map_option JStr projectId else Some JNull),
        (''file_ids'', Some (JArr (map (\<lambda>f. nullish (member f ''file_id'') JNull) (elements (vars s ''files''))))),
        (''chunk_size'', setting s ''chunk_size''), (''chunk_overlap'', setting s ''chunk_overlap''),
        (''embedding_model'', vars s ''selectedModel''),
        (''image_processing'', if vars s ''imageProcessing'' = Some (JObj []) then None else vars s ''imageProcessing''),
        (''scope'', vars s ''scope'')]"

definition build_started :: "json option \<Rightarrow> json option \<Rightarrow> json option \<Rightarrow> builder_state \<Rightarrow> builder_state" where
  "build_started b st filecount s =
     set_interval [] (put_data ''batchStatus'' (Some (js_object
         [(''batch_id'', b), (''status'', st), (''total_files'', filecount), (''files_completed'', Some (JNum 0)),
          (''files_failed'', Some (JNum 0)), (''total_chunks'', Some (JNum 0)), (''chunks_embedded'', Some (JNum 0)),
          (''file_statuses'', Some (JArr []))]))
       (s\<lparr>batch_id := as_string b\<rparr>))"

definition startBuild :: "env \<Rightarrow> string option \<Rightarrow> (builder_state, unit) co" where
  "startBuild env projectId =
     co_then (co_do (started ''building''))
       (co_catch
         (co_bind (co_read (build_request projectId)) (\<lambda>data.
           co_bind (co_await (bulkIngestKB (srv env) data)) (\<lambda>result.
             co_bind (co_property result ''batch_id'') (\<lambda>b. co_bind (co_property result ''status'') (\<lambda>st.
               co_bind (co_property result ''total_files'') (\<lambda>filecount. co_do (build_started b st filecount)))))))
         (\<lambda>e. co_then (co_do (put_flag ''building'' False)) (co_report env ''error'' ''Build failed to start'' e)))"

definition unmount_builder :: "builder_state \<Rightarrow> builder_state" where
  "unmount_builder s = (case interval_ref s of None \<Rightarrow> s | Some i \<Rightarrow> clear_interval i s)"

definition reset_builder :: "builder_state \<Rightarrow> builder_state" where
  "reset_builder s =
     stop_interval (put_message ''error'' None (put_flag ''building'' False
       (put_all fresh_vars (s\<lparr>raw_files := Map.empty, batch_id := None\<rparr>))))"


subsection \<open>Rounds of the poll\<close>

lemma builder_puts [simp]:
  "raw_files (put_flag k b s) = raw_files s" "raw_files (put_message k e s) = raw_files s"
  "raw_files (put_data k v s) = raw_files s"
  "batch_id (put_flag k b s) = batch_id s" "batch_id (put_message k e s) = batch_id s" "batch_id (put_data k v s) = batch_id s"
  "poll_failures (put_flag k b s) = poll_failures s" "poll_failures (put_message k e s) = poll_failures s"
  "poll_failures (put_data k v s) = poll_failures s"
  by (simp_all add: put_flag_def put_message_def put_data_def)

lemma stop_interval_fields [simp]:
  "flags (stop_interval s) = flags s" "messages_of (stop_interval s) = messages_of s" "vars (stop_interval s) = vars s"
  by (simp_all add: stop_interval_def clear_interval_def split: option.split)

lemma stop_interval_builder [simp]:
  "batch_id (stop_interval s) = batch_id s" "poll_failures (stop_interval s) = poll_failures s"
  by (simp_all add: stop_interval_def clear_interval_def split: option.split)

text \<open>A firing of the interval whose request is answered before anything else happens.\<close>

definition poll_round :: "env \<Rightarrow> answer \<Rightarrow> builder_state \<Rightarrow> builder_state" where
  "poll_round env r s = fst (happened [Called (interval_fires (\<lambda>_. pollStatus env) (the (interval_ref s))), Answered 0 0 r] s)"

definition polled_build :: "builder_state \<Rightarrow> bool" where
  "polled_build s \<longleftrightarrow> one_interval s \<and> interval_ref s \<noteq> None \<and> truthy_string (batch_id s)"

lemma armed_of_one: "one_interval s \<Longrightarrow> interval_ref s = Some i \<Longrightarrow> \<exists>a. map_of (armed s) i = Some a"
  by (auto simp: one_interval_def map_eq_Cons_conv)

lemma poll_round_failed: "polled_build s \<Longrightarrow> poll_round env (Inl e) s = poll_failed s"
  using armed_of_one [of s]
  by (auto simp: polled_build_def poll_round_def interval_fires_def happened_def pollStatus_def co_defs)

lemma poll_round_answered:
  assumes "polled_build s" and "\<not> build_over (member (JObj kvs) ''status'')"
  shows "poll_round env (Inr (Some (JObj kvs))) s = put_data ''batchStatus'' (Some (JObj kvs)) (s\<lparr>poll_failures := 0\<rparr>)"
  using armed_of_one [of s] assms
  by (auto simp: polled_build_def poll_round_def interval_fires_def happened_def pollStatus_def co_defs co_property_def)

lemma poll_failed_early:
  "Suc (poll_failures s) < max_poll_failures \<Longrightarrow> poll_failed s = s\<lparr>poll_failures := Suc (poll_failures s)\<rparr>"
  by (simp add: poll_failed_def)

lemma one_interval_failures [simp]: "one_interval (s\<lparr>poll_failures := n\<rparr>) = one_interval s"
  by (simp add: one_interval_def)

lemma polled_build_frame [simp]:
  "polled_build (s\<lparr>poll_failures := n\<rparr>) = polled_build s" "polled_build (put_data k v s) = polled_build s"
  by (simp_all add: polled_build_def one_interval_def)

lemma few_failures:
  assumes "polled_build s" and "poll_failures s + length errors < max_poll_failures"
  shows "fold (\<lambda>e. poll_round env (Inl e)) errors s = s\<lparr>poll_failures := poll_failures s + length errors\<rparr>"
  using assms
proof (induction errors arbitrary: s)
  case (Cons e errors)
  then have "poll_round env (Inl e) s = s\<lparr>poll_failures := Suc (poll_failures s)\<rparr>"
    by (simp add: poll_round_failed poll_failed_early)
  then show ?case using Cons.prems by (simp add: Cons.IH)
qed simp

text \<open>A build is given up exactly when five polls in a row have failed: after an answer that says that it is
  under way, with any four failures the hook goes on building, with its interval armed and no message; the
  fifth stops the interval, lowers the flag and says that the connection was lost.\<close>
theorem build_given_up_at_five:
  assumes "polled_build s" and "\<not> build_over (member (JObj kvs) ''status'')" and "messages_of s ''error'' = None"
    and "flags s ''building''" and "length errors = 4"
  shows "let s4 = fold (\<lambda>e. poll_round env (Inl e)) errors (poll_round env (Inr (Some (JObj kvs))) s);
      s5 = poll_round env (Inl e) s4
    in flags s4 ''building'' \<and> armed s4 = armed s \<and> messages_of s4 ''error'' = None \<and>
       \<not> flags s5 ''building'' \<and> armed s5 = [] \<and>
       messages_of s5 ''error'' = Some ''Lost connection to build status after 5 consecutive failures''"
proof -
  let ?s = "put_data ''batchStatus'' (Some (JObj kvs)) (s\<lparr>poll_failures := 0\<rparr>)"
  have s4: "fold (\<lambda>e. poll_round env (Inl e)) errors (poll_round env (Inr (Some (JObj kvs))) s) =
      ?s\<lparr>poll_failures := 4\<rparr>" (is "_ = ?s4")
    using few_failures [of ?s errors env] assms by (simp add: poll_round_answered max_poll_failures_def)
  have one: "one_interval (put_message ''error'' (Some lost_connection) (put_flag ''building'' False (?s4\<lparr>poll_failures := 5\<rparr>)))"
    using assms(1) by (simp add: polled_build_def)
  have s5: "poll_round env (Inl e) ?s4 =
      stop_interval (put_message ''error'' (Some lost_connection) (put_flag ''building'' False (?s4\<lparr>poll_failures := 5\<rparr>)))"
    using assms(1) by (simp add: poll_round_failed poll_failed_def max_poll_failures_def)
  have "armed (poll_round env (Inl e) ?s4) = []"
    unfolding s5 using one_interval_stopped [OF one] by simp
  moreover have "lost_connection = ''Lost connection to build status after 5 consecutive failures''"
    by code_simp
  ultimately show ?thesis using assms(3,4) unfolding s4 Let_def by (simp add: s5)
qed


definition sample_build :: builder_state where
  "sample_build =
     put_flag ''building'' True (set_interval [] (initial_builder\<lparr>batch_id := Some ''b''\<rparr>))"

lemma build_given_up_at_five_witness:
  "let s5 = fold (\<lambda>e. poll_round sample_host_env (Inl e)) (replicate 5 SyntaxErr)
      (poll_round sample_host_env (Inr (Some (JObj [(''status'', JStr ''running'')]))) sample_build)
   in armed s5 = [] \<and> messages_of s5 ''error'' = Some ''Lost connection to build status after 5 consecutive failures''"
proof -
  have "polled_build sample_build"
    by (simp add: polled_build_def sample_build_def initial_builder_def one_interval_def set_interval_def put_flag_def
        truthy_string_def)
  moreover have "messages_of sample_build ''error'' = None" "flags sample_build ''building''"
    by (simp_all add: sample_build_def initial_builder_def set_interval_def put_flag_def)
  ultimately show ?thesis
    using build_given_up_at_five [of sample_build "[(''status'', JStr ''running'')]" "replicate 4 SyntaxErr" sample_host_env SyntaxErr]
    by (simp add: build_over_def image_iff numeral_eq_Suc Let_def)
qed

subsection \<open>Where the build goes wrong\<close>

lemmas run_builder = happened_def startBuild_def started_def build_started_def interval_fires_def pollStatus_def
  co_defs co_property_def co_report_def initial_builder_def set_interval_def stop_interval_def clear_interval_def
  put_data_def put_flag_def put_message_def truthy_string_def

definition build_answer :: "string \<Rightarrow> string \<Rightarrow> answer" where
  "build_answer k st = Inr (Some (JObj [(''batch_id'', JStr k), (''status'', JStr st)]))"

text \<open>A start does not stop the interval of the one before: it goes on firing after the build is over, and
  after the unmounting.\<close>

lemma second_build_leaks_interval:
  "map fst (armed (unmount_builder (fst (happened
     [Called (startBuild env None), Answered 0 0 (build_answer ''a'' ''pending''),
      Called (startBuild env None), Answered 1 0 (build_answer ''b'' ''pending''),
      Called (interval_fires (\<lambda>_. pollStatus env) 1), Answered 2 0 (build_answer ''b'' ''completed'')] initial_builder)))) = [0]"
  by (simp add: run_builder build_answer_def build_over_def unmount_builder_def)

text \<open>A start that is answered after a reset arms the interval of the wizard that was emptied.\<close>

lemma reset_does_not_stop_start:
  "let s = fst (happened [Called (startBuild env None), Changed reset_builder,
       Answered 0 0 (build_answer ''a'' ''pending'')] initial_builder)
   in batch_id s = Some ''a'' \<and> map fst (armed s) = [0] \<and> \<not> flags s ''building''"
  by (simp add: run_builder build_answer_def reset_builder_def put_all_def)

text \<open>The number of failures is not reset by a start: after a build that was given up the next one is given
  up at its first failure.\<close>

lemma next_build_has_no_patience:
  assumes "5 \<le> poll_failures s" and "polled_build s"
  shows "armed (poll_round env (Inl e) s) = []"
proof -
  have "one_interval (put_message ''error'' (Some lost_connection) (put_flag ''building'' False
      (s\<lparr>poll_failures := Suc (poll_failures s)\<rparr>)))"
    using assms(2) by (simp add: polled_build_def)
  from one_interval_stopped [OF this] show ?thesis
    using assms by (simp add: poll_round_failed poll_failed_def max_poll_failures_def)
qed

lemma start_keeps_failures:
  "poll_failures (build_started b st n s) = poll_failures s" "poll_failures (reset_builder s) = poll_failures s"
  by (simp_all add: build_started_def set_interval_def reset_builder_def put_all_def)

end
