(* ===== verification/Context_Hooks.thy ===== *)
theory Context_Hooks
  imports Interval_Polls Api_Context Page_State Filenames
begin

section \<open>The context of a chat\<close>

text \<open>
  Small hooks of \<^verbatim>\<open>packages/api/hooks\<close> about one chat: its mode (\<^verbatim>\<open>use-chat-mode.ts\<close>), the breakdown and
  compaction of its context (\<^verbatim>\<open>use-context-dashboard.ts\<close>), the editor of the context with its search
  (\<^verbatim>\<open>use-context-editor.ts\<close>) and the use of tokens (\<^verbatim>\<open>use-token-usage.ts\<close>); and \<^verbatim>\<open>use-async-action.ts\<close>,
  \<^verbatim>\<open>use-online-status.ts\<close> and the project of the application (\<^verbatim>\<open>app/hooks/use-project-id.ts\<close>).
\<close>

subsection \<open>Reading the state\<close>

lemma keeps_bind_read:
  assumes "\<And>a. Q a \<Longrightarrow> keeps I (f a)" and "\<And>s. I s \<Longrightarrow> Q (g s)"
  shows "keeps I (co_bind (co_read g) f)"
  using assms by (simp add: keeps_def co_bind_def co_read_def)

subsection \<open>The mode of a chat\<close>

definition chat_mode_keys :: "string list" where
  "chat_mode_keys = [''agent'', ''suggest'', ''plan'', ''ask'', ''chat'']"

definition is_chat_mode :: "string \<Rightarrow> bool" where
  "is_chat_mode m \<longleftrightarrow> m \<in> set chat_mode_keys"

text \<open>The state is the mode.\<close>

definition initial_mode :: "string option \<Rightarrow> string" where
  "initial_mode initialMode =
     (case initialMode of None \<Rightarrow> ''agent'' | Some m \<Rightarrow> if is_chat_mode m then m else ''agent'')"

definition syncFromServer :: "string \<Rightarrow> string \<Rightarrow> string" where
  "syncFromServer m s = (if is_chat_mode m then m else s)"

definition initial_mode_changed :: "string option \<Rightarrow> string \<Rightarrow> string" where
  "initial_mode_changed initialMode s = (case initialMode of None \<Rightarrow> s | Some m \<Rightarrow> syncFromServer m s)"

definition setChatMode :: "env \<Rightarrow> string option \<Rightarrow> string \<Rightarrow> (string, unit) co" where
  "setChatMode env chatId m =
     co_if (is_chat_mode m)
       (co_bind (co_read id) (\<lambda>prev.
         co_then (co_do (\<lambda>_. m))
           (co_if (truthy_string chatId)
             (co_catch (co_void (co_await (updateChatMode (srv env) (the chatId) m))) (\<lambda>_. co_do (\<lambda>_. prev))))))"

definition mode_event :: "env \<Rightarrow> string happening \<Rightarrow> bool" where
  "mode_event env e =
     (case e of Called c \<Rightarrow> (\<exists>chat m. c = setChatMode env chat m) | Answered i j r \<Rightarrow> True
      | Changed f \<Rightarrow> (\<exists>m. f = syncFromServer m) \<or> (\<exists>im. f = initial_mode_changed im))"

lemma mode_assigned:
  "is_chat_mode s \<Longrightarrow> is_chat_mode (syncFromServer m s)"
  "is_chat_mode s \<Longrightarrow> is_chat_mode (initial_mode_changed im s)"
  by (simp_all add: syncFromServer_def initial_mode_changed_def split: option.split)

lemma mode_always_valid:
  assumes "list_all (mode_event env) es"
  shows "is_chat_mode (fst (happened es (initial_mode im)))"
proof -
  have "keeps is_chat_mode (setChatMode env chat m)" for chat m
    unfolding setChatMode_def by (intro keeps_intros keeps_bind_read [of is_chat_mode]; simp)
  then have "allowed is_chat_mode e" if "mode_event env e" for e
    using that mode_assigned
    by (cases e) (simp_all add: mode_event_def allowed_def, blast+)
  then have "list_all (allowed is_chat_mode) es" using assms by (auto simp: list_all_iff)
  moreover have "is_chat_mode (initial_mode im)"
    by (simp add: initial_mode_def is_chat_mode_def chat_mode_keys_def split: option.split)
  ultimately show ?thesis using happened_steady [of is_chat_mode es "initial_mode im"] by simp
qed

text \<open>Of two choices the failure of the first, when it comes last, takes back the second, which the server has.\<close>

lemma late_failure_reverts_choice:
  "fst (happened [Called (setChatMode env (Some ''c'') ''plan''), Called (setChatMode env (Some ''c'') ''ask''),
     Answered 1 0 (Inr None), Answered 0 0 (Inl e)] ''agent'') = ''agent''"
  by (simp add: happened_def setChatMode_def co_defs is_chat_mode_def chat_mode_keys_def truthy_string_def)

subsection \<open>Compaction\<close>

definition initial_dashboard :: "polling_hook" where
  "initial_dashboard =
     \<lparr>flags = (\<lambda>_. False), messages_of = (\<lambda>_. None),
      vars = map_of [(''breakdown'', JNull), (''compactionId'', JNull), (''compactionStatus'', JNull)],
      armed = [], interval_ref = None, next_interval = 0\<rparr>"

definition fetchBreakdown :: "env \<Rightarrow> string option \<Rightarrow> (polling_hook, unit) co" where
  "fetchBreakdown env chatId =
     co_if (truthy_string chatId)
       (co_finally
         (co_catch
           (co_then (co_do (\<lambda>s. put_message ''error'' None (put_flag ''loading'' True s)))
             (co_bind (co_await (getTokenBreakdown (srv env) (the chatId) None)) (\<lambda>data. co_do (put_data ''breakdown'' data))))
           (co_report env ''error'' ''Failed to fetch token breakdown''))
         (put_flag ''loading'' False))"

definition stop_compacting :: "polling_hook \<Rightarrow> polling_hook" where
  "stop_compacting s = put_flag ''compacting'' False (stop_interval s)"

definition compaction_poll :: "env \<Rightarrow> string option \<Rightarrow> string \<Rightarrow> (polling_hook, unit) co" where
  "compaction_poll env chatId compactionId =
     co_catch
       (co_bind (co_await (getCompactionStatus (srv env) (the chatId) compactionId)) (\<lambda>status.
         co_then (co_do (put_data ''compactionStatus'' status))
           (co_bind (co_property status ''status'') (\<lambda>st.
             co_if (st = Some (JStr ''completed'') \<or> st = Some (JStr ''failed''))
               (co_then (co_do stop_compacting)
                 (co_if (st = Some (JStr ''completed'')) (fetchBreakdown env chatId)))))))
       (\<lambda>_. co_do stop_compacting)"

definition compaction_id :: "polling_hook \<Rightarrow> string option" where
  "compaction_id s = as_string (vars s ''compactionId'')"

text \<open>The effect on the chat and the compaction: the cleanup of the run before, the interval, and the first
  poll at once.\<close>

definition compaction_effect :: "env \<Rightarrow> string option \<Rightarrow> (polling_hook, unit) co" where
  "compaction_effect env chatId =
     co_then (co_do stop_interval)
       (co_bind (co_read compaction_id) (\<lambda>cid.
         co_if (truthy_string chatId \<and> truthy_string cid)
           (co_then (co_do (set_interval (the cid))) (compaction_poll env chatId (the cid)))))"

text \<open>\<open>triggerCompaction\<close>; the rendering that follows a new compaction runs the effect.\<close>

definition triggered :: "json option \<Rightarrow> polling_hook \<Rightarrow> polling_hook" where
  "triggered cid s =
     put_data ''compactionId'' cid (put_data ''compactionStatus'' (Some (js_object
       [(''id'', cid), (''status'', Some (JStr ''pending'')), (''original_message_count'', Some (JNum 0)),
        (''compacted_message_count'', Some (JNum 0))])) s)"

definition useContextDashboard_triggerCompaction :: "env \<Rightarrow> string option \<Rightarrow> (polling_hook, json option) co" where
  "useContextDashboard_triggerCompaction env chatId =
     (if \<not> truthy_string chatId then co_return (Some JNull)
      else co_catch
        (co_then (co_do (\<lambda>s. put_message ''error'' None (put_flag ''compacting'' True s)))
          (co_bind (co_await (triggerCompaction (srv env) (the chatId))) (\<lambda>result.
            co_bind (co_property result ''compaction_id'') (\<lambda>cid. co_bind (co_read compaction_id) (\<lambda>old.
              co_then (co_if (truthy_string (as_string cid)) (co_then (co_do (triggered cid))
                  (co_if (as_string cid \<noteq> old) (compaction_effect env chatId))))
                (co_return result))))))
        (\<lambda>e. co_then (co_report env ''error'' ''Failed to trigger compaction'' e) (co_return (Some JNull))))"

lemma one_interval_triggered [simp]:
  "one_interval (triggered cid s) = one_interval s" "one_interval (stop_compacting s) = one_interval (stop_interval s)"
  by (simp_all add: triggered_def stop_compacting_def)

lemma keeps_breakdown: "keeps one_interval (fetchBreakdown env chatId)"
  unfolding fetchBreakdown_def by (intro keeps_intros; simp)

lemma keeps_compaction_poll: "keeps one_interval (compaction_poll env chatId cid)"
  unfolding compaction_poll_def by (intro keeps_intros keeps_breakdown; simp)

lemma keeps_compaction_effect: "keeps one_interval (compaction_effect env chatId)"
proof -
  have "keeps one_interval (co_then (co_do (\<lambda>s. set_interval k (stop_interval s))) (compaction_poll env chatId k))" for k
    by (intro keeps_intros keeps_compaction_poll) simp
  then show ?thesis
    by (auto simp: keeps_def compaction_effect_def co_defs)
qed

text \<open>A compaction that could not be started, and one that the server does not number, is shown as going on for
  good: the flag is lowered by a poll only, and there is none.\<close>

lemma compaction_that_never_ends:
  assumes "chatId \<noteq> []"
  shows "flags (fst (happened [Called (co_void (useContextDashboard_triggerCompaction env (Some chatId))), Answered 0 0 (Inl e)]
      initial_dashboard)) ''compacting''"
    "flags (fst (happened [Called (co_void (useContextDashboard_triggerCompaction env (Some chatId))), Answered 0 0 (Inr (Some (JObj [])))]
      initial_dashboard)) ''compacting''"
  using assms
  by (simp_all add: happened_def useContextDashboard_triggerCompaction_def co_defs co_property_def co_report_def
      truthy_string_def initial_dashboard_def compaction_id_def)

subsection \<open>The editor of the context\<close>

record context_editor = hook +
  model_ref :: "string option"

definition initial_editor :: context_editor where
  "initial_editor =
     \<lparr>flags = (\<lambda>_. False), messages_of = (\<lambda>_. None), vars = map_of [(''assembledContext'', JNull)], model_ref = None\<rparr>"

definition fetchContext :: "env \<Rightarrow> string \<Rightarrow> string option \<Rightarrow> (context_editor, unit) co" where
  "fetchContext env chatId model =
     co_if (chatId \<noteq> [])
       (co_then (co_do (\<lambda>s. put_message ''error'' None (put_flag ''loading'' True s)))
         (co_then (co_if (truthy_string model) (co_do (\<lambda>s. s\<lparr>model_ref := model\<rparr>)))
           (co_finally
             (co_catch
               (co_bind (co_read model_ref) (\<lambda>ref.
                 co_bind (co_await (getAssembledContext (srv env) chatId (case model of None \<Rightarrow> ref | Some m \<Rightarrow> Some m)))
                   (\<lambda>ctx. co_do (put_data ''assembledContext'' ctx))))
               (co_report env ''error'' ''Failed to fetch context''))
             (put_flag ''loading'' False))))"

definition saving_context :: "env \<Rightarrow> string \<Rightarrow> string \<Rightarrow> json option api \<Rightarrow> (context_editor, unit) co" where
  "saving_context env chatId fallback q =
     co_if (chatId \<noteq> [])
       (co_then (co_do (\<lambda>s. put_message ''error'' None (put_flag ''saving'' True s)))
         (co_finally
           (co_catch (co_bind (co_await q) (\<lambda>_. fetchContext env chatId None)) (co_report env ''error'' fallback))
           (put_flag ''saving'' False)))"

definition updateCompaction :: "env \<Rightarrow> string \<Rightarrow> string \<Rightarrow> string \<Rightarrow> (context_editor, unit) co" where
  "updateCompaction env chatId compactionId summary =
     saving_context env chatId ''Failed to update compaction''
       (updateCompactionSummary (srv env) chatId compactionId summary)"

definition updateInstructions :: "env \<Rightarrow> string \<Rightarrow> string \<Rightarrow> (context_editor, unit) co" where
  "updateInstructions env chatId instructions =
     saving_context env chatId ''Failed to update instructions'' (updateChatInstructions (srv env) chatId instructions)"

text \<open>The search, over the layers of the context that is loaded, each its name and its content.\<close>

record search_result =
  layer_index :: nat
  layer_name :: string
  line_number :: nat
  line_text :: string

definition matching_line :: "string \<Rightarrow> string \<Rightarrow> bool" where
  "matching_line needle line \<longleftrightarrow> occurs (to_lower needle) (to_lower line)"

definition search_layer :: "string \<Rightarrow> nat \<times> string \<times> string \<Rightarrow> search_result list" where
  "search_layer needle = (\<lambda>(layerIndex, name, content).
     concat (map (\<lambda>(lineIdx, line).
         if matching_line needle line
         then [\<lparr>layer_index = layerIndex, layer_name = name, line_number = Suc lineIdx, line_text = trim line\<rparr>] else [])
       (enumerate 0 (split_on (char_of (10::nat)) content))))"

definition search_context :: "string \<Rightarrow> (string \<times> string) list option \<Rightarrow> search_result list" where
  "search_context needle layers =
     (case layers of None \<Rightarrow> []
      | Some ls \<Rightarrow> if trim needle = [] then [] else concat (map (search_layer needle) (enumerate 0 ls)))"

text \<open>The place of a result.\<close>

definition place :: "search_result \<Rightarrow> nat \<times> nat" where
  "place r = (layer_index r, line_number r)"

definition before_place :: "search_result \<Rightarrow> search_result \<Rightarrow> bool" where
  "before_place r q \<longleftrightarrow>
     layer_index r < layer_index q \<or> layer_index r = layer_index q \<and> line_number r < line_number q"

lemma bex_enumerate: "(\<exists>x \<in> set (enumerate 0 xs). P x) \<longleftrightarrow> (\<exists>i < length xs. P (i, xs ! i))"
proof
  show "\<exists>i < length xs. P (i, xs ! i) \<Longrightarrow> \<exists>x \<in> set (enumerate 0 xs). P x"
    by (auto simp: in_set_enumerate_eq intro: bexI [of _ "(i, xs ! i)" for i])
qed (auto simp: in_set_enumerate_eq)

lemma set_search_layer:
  "set (search_layer needle x) =
     {\<lparr>layer_index = fst x, layer_name = fst (snd x), line_number = Suc j,
        line_text = trim (split_on (char_of (10::nat)) (snd (snd x)) ! j)\<rparr> |
        j. j < length (split_on (char_of (10::nat)) (snd (snd x))) \<and>
           matching_line needle (split_on (char_of (10::nat)) (snd (snd x)) ! j)}"
  by (cases x) (auto simp: search_layer_def bex_enumerate in_set_enumerate_eq split: if_splits)

lemma sorted_concat:
  assumes "\<And>x. x \<in> set xs \<Longrightarrow> sorted_wrt R (f x)"
    and "sorted_wrt (\<lambda>x y. \<forall>a \<in> set (f x). \<forall>b \<in> set (f y). R a b) xs"
  shows "sorted_wrt R (concat (map f xs))"
  using assms by (induction xs) (auto simp: sorted_wrt_append)

lemma sorted_enumerate:
  "(\<And>i j x y. i < j \<Longrightarrow> P (i, x) (j, y)) \<Longrightarrow> sorted_wrt P (enumerate n xs)"
proof (induction xs arbitrary: n)
  case (Cons x xs)
  then show ?case by (auto simp: in_set_enumerate_eq)
qed simp

lemma sorted_search_layer: "sorted_wrt before_place (search_layer needle x)"
proof (cases x)
  case (fields i name content)
  show ?thesis
    unfolding fields search_layer_def case_prod_conv
    by (rule sorted_concat) (auto simp: before_place_def intro!: sorted_enumerate)
qed

lemma sorted_search: "sorted_wrt before_place (concat (map (search_layer needle) (enumerate 0 ls)))"
proof (rule sorted_concat)
  have "layer_index r = fst x" if "r \<in> set (search_layer needle x)" for r x
    using that by (cases x) (auto simp: set_search_layer)
  then show "sorted_wrt (\<lambda>x y. \<forall>a\<in>set (search_layer needle x). \<forall>b\<in>set (search_layer needle y). before_place a b) (enumerate 0 ls)"
    by (intro sorted_enumerate) (auto simp: before_place_def)
qed (rule sorted_search_layer)

text \<open>C26: the search of the context editor finds exactly the lines that contain the query in either case: a result
  is a layer and the number of such a line from one, with the name of the layer and the line trimmed; every
  such line is found once, in the order of the layers and of their lines, and a blank query finds none.\<close>
theorem search_finds_the_lines:
  "set (search_context needle (Some ls)) =
     (if trim needle = [] then {}
      else {\<lparr>layer_index = i, layer_name = fst (ls ! i), line_number = Suc j, line_text = trim line\<rparr> | i j line.
        i < length ls \<and> j < length (split_on (char_of (10::nat)) (snd (ls ! i))) \<and>
        line = split_on (char_of (10::nat)) (snd (ls ! i)) ! j \<and> occurs (to_lower needle) (to_lower line)}) \<and>
   sorted_wrt before_place (search_context needle (Some ls))"
proof -
  have "(\<Union>x \<in> set (enumerate 0 ls). set (search_layer needle x)) =
      {\<lparr>layer_index = i, layer_name = fst (ls ! i), line_number = Suc j, line_text = trim line\<rparr> | i j line.
        i < length ls \<and> j < length (split_on (char_of (10::nat)) (snd (ls ! i))) \<and>
        line = split_on (char_of (10::nat)) (snd (ls ! i)) ! j \<and> occurs (to_lower needle) (to_lower line)}"
    by (auto simp: bex_enumerate in_set_enumerate_eq set_search_layer matching_line_def)
  then show ?thesis using sorted_search by (simp add: search_context_def)
qed


definition sample_layers :: "(string \<times> string) list" where
  "sample_layers = [(''system'', ''You help.''), (''user'', ''one'' @ [char_of (10::nat)] @ ''  Two HELP  '')]"

lemma sample_search:
  "search_context ''help'' (Some sample_layers) =
     [\<lparr>layer_index = 0, layer_name = ''system'', line_number = 1, line_text = ''You help.''\<rparr>,
      \<lparr>layer_index = 1, layer_name = ''user'', line_number = 2, line_text = ''Two HELP''\<rparr>]"
  by code_simp

text \<open>The state variables that the search sets; \<open>clearSearch\<close> empties both.\<close>

definition search_lines :: "string \<Rightarrow> (string \<times> string) list option \<Rightarrow> string \<times> search_result list" where
  "search_lines needle layers = (needle, search_context needle layers)"

definition clearSearch :: "string \<times> search_result list" where
  "clearSearch = ([], [])"

subsection \<open>The use of tokens\<close>

definition initial_usage :: "polling_hook" where
  "initial_usage =
     \<lparr>flags = (\<lambda>_. False), messages_of = (\<lambda>_. None), vars = map_of [(''tokenUsage'', JNull)],
      armed = [], interval_ref = None, next_interval = 0\<rparr>"

definition refresh_usage :: "env \<Rightarrow> string option \<Rightarrow> (polling_hook, unit) co" where
  "refresh_usage env chatId =
     co_if (truthy_string chatId)
       (co_finally
         (co_catch
           (co_then (co_do (put_flag ''loading'' True))
             (co_bind (co_await (getTokenUsage (srv env) (the chatId))) (\<lambda>data.
               co_bind (co_property data ''current_tokens'') (\<lambda>current. co_bind (co_property data ''max_tokens'') (\<lambda>most.
                 co_bind (co_property data ''usage_ratio'') (\<lambda>ratio.
                   co_do (put_data ''tokenUsage'' (Some (js_object
                     [(''current_tokens'', current), (''max_tokens'', most), (''usage_ratio'', ratio)])))))))))
           (\<lambda>_. co_return ()))
         (put_flag ''loading'' False))"

text \<open>The two effects, on a change of the chat or of the period: load or clear; stop, and arm when there is a
  period.\<close>

definition usage_effect :: "env \<Rightarrow> string option \<Rightarrow> (polling_hook, unit) co" where
  "usage_effect env chatId =
     (if truthy_string chatId then refresh_usage env chatId else co_do (put_data ''tokenUsage'' (Some JNull)))"

definition usage_poll_effect :: "string option \<Rightarrow> int \<Rightarrow> polling_hook \<Rightarrow> polling_hook" where
  "usage_poll_effect chatId ms s =
     (let s1 = stop_interval s
      in if truthy_string chatId \<and> 0 < ms then set_interval (the chatId) s1 else s1)"

text \<open>The answer for the chat that was left is shown for the one that was opened, when it comes after that
  one's.\<close>

lemma late_usage_shown:
  assumes "p \<noteq> []" and "q \<noteq> []"
  shows "vars (fst (happened [Called (usage_effect env (Some p)), Called (usage_effect env (Some q)),
      Answered 1 0 (Inr (Some (JObj usage_of_q))), Answered 0 0 (Inr (Some (JObj [(''current_tokens'', JNum 7)])))]
      initial_usage)) ''tokenUsage'' = Some (JObj [(''current_tokens'', JNum 7)])"
  using assms
  by (simp add: happened_def usage_effect_def refresh_usage_def co_defs co_property_def truthy_string_def js_object_def)

lemma usage_polls_one: "one_interval s \<Longrightarrow> one_interval (usage_poll_effect chatId ms s)"
  by (simp add: usage_poll_effect_def Let_def)

subsection \<open>An action with a flag and a message\<close>

text \<open>\<open>useAsyncAction\<close>: the action, what follows its success, and what follows a failure with its message.\<close>

definition execute_action ::
  "env \<Rightarrow> string option \<Rightarrow> ('z hook_scheme, unit) co \<Rightarrow> ('z hook_scheme, unit) co option \<Rightarrow>
   (string \<Rightarrow> ('z hook_scheme, unit) co) option \<Rightarrow> ('z hook_scheme, unit) co" where
  "execute_action env fallbackError action onSuccess onError =
     co_then (co_do (\<lambda>s. put_message ''error'' None (put_flag ''loading'' True s)))
       (co_finally
         (co_catch (co_then action (case onSuccess of None \<Rightarrow> co_return () | Some f \<Rightarrow> f))
           (\<lambda>e. let message = extract_error_message env e (nullish fallbackError ''An unexpected error occurred'')
              in co_then (co_do (put_message ''error'' (Some message)))
                   (case onError of None \<Rightarrow> co_return () | Some f \<Rightarrow> f message)))
         (put_flag ''loading'' False))"

lemma run_finally_lowers:
  "fst (run_finally m fin s) = Finished a \<or> fst (run_finally m fin s) = Failed e \<Longrightarrow>
   snd (run_finally m fin s) = fin s"
  by (cases m) auto

text \<open>An action that does not wait leaves the flag lowered, however it ends.\<close>

lemma executed_lowers:
  assumes "waiting_for (fst (execute_action env fb action ok bad s)) = 0"
    and "\<And>c qs k. fst (execute_action env fb action ok bad s) = Waiting qs k \<Longrightarrow> qs \<noteq> []"
  shows "\<not> flags (snd (execute_action env fb action ok bad s)) ''loading''"
proof (cases "fst (execute_action env fb action ok bad s)")
  case (Waiting qs k)
  then show ?thesis using assms by (simp add: waiting_for_def)
qed (auto simp: execute_action_def co_then_def co_bind_def co_do_def co_finally_def case_prod_unfold
    dest!: run_finally_lowers [OF disjI1] run_finally_lowers [OF disjI2])

subsection \<open>The connection of the browser\<close>

datatype connection_event = WentOnline | WentOffline

definition initially_online :: "bool option \<Rightarrow> bool" where
  "initially_online navigator = nullish navigator True"

fun connection_changed :: "connection_event \<Rightarrow> bool \<Rightarrow> bool" where
  "connection_changed WentOnline s = True"
| "connection_changed WentOffline s = False"

subsection \<open>The project of the application\<close>

text \<open>
  The browser's storage may be missing: then reading throws and so does writing, and both are ignored.  A
  run of the effect is cancelled by the next one and by the unmounting.
\<close>

record project_state =
  shown_project :: "string option"
  stored_project :: "string option"
  storage_works :: bool
  effect_run :: nat

definition keep_project :: "string \<Rightarrow> project_state \<Rightarrow> project_state" where
  "keep_project pid s =
     (let s1 = s\<lparr>shown_project := Some pid\<rparr>
      in if storage_works s then s1\<lparr>stored_project := Some pid\<rparr> else s1)"

definition candidate_project :: "string option \<Rightarrow> project_state \<Rightarrow> string option" where
  "candidate_project envId s =
     (let storedId = (if storage_works s then stored_project s else None)
      in if truthy_string storedId then storedId else if truthy_string envId then envId else None)"

definition default_project :: json where
  "default_project = js_object [(''name'', Some (JStr ''Default Project'')), (''path'', Some (JStr ''default''))]"

definition find_project :: "env \<Rightarrow> nat \<Rightarrow> (project_state, unit) co" where
  "find_project env n =
     co_catch
       (co_bind (co_await (listProjects (srv env))) (\<lambda>res. co_bind (co_property res ''projects'') (\<lambda>v.
         co_bind
           (case elements v of
              p # _ \<Rightarrow> co_property (Some p) ''id''
            | [] \<Rightarrow> co_bind (co_await (createProject (srv env) default_project)) (\<lambda>created. co_property created ''id''))
           (\<lambda>pid. co_do (\<lambda>s. if truthy_string (as_string pid) \<and> effect_run s = n
              then keep_project (the (as_string pid)) s else s)))))
       (\<lambda>_. co_return ())"

definition project_effect :: "env \<Rightarrow> string option \<Rightarrow> bool \<Rightarrow> (project_state, unit) co" where
  "project_effect env envId isAuthenticated =
     co_then (co_do (\<lambda>s. s\<lparr>effect_run := Suc (effect_run s)\<rparr>))
       (co_bind (co_read (candidate_project envId)) (\<lambda>candidate. case candidate of
          Some pid \<Rightarrow> co_do (keep_project pid)
        | None \<Rightarrow> co_bind (co_read effect_run) (\<lambda>n. co_if isAuthenticated (find_project env n))))"

definition unmount_project :: "project_state \<Rightarrow> project_state" where
  "unmount_project s = s\<lparr>effect_run := Suc (effect_run s)\<rparr>"

text \<open>While the storage works, a project that is shown is the stored one.\<close>

definition project_kept :: "project_state \<Rightarrow> bool" where
  "project_kept s \<longleftrightarrow> (shown_project s \<noteq> None \<longrightarrow> storage_works s \<longrightarrow> stored_project s = shown_project s)"

lemma project_kept_keep [simp]: "project_kept (keep_project pid s)"
  by (simp add: project_kept_def keep_project_def Let_def)

lemma project_kept_run [simp]: "project_kept (s\<lparr>effect_run := n\<rparr>) = project_kept s"
  by (simp add: project_kept_def)

lemma project_stays_stored:
  assumes "list_all (\<lambda>e. (\<exists>envId a. e = Called (project_effect env envId a)) \<or> (\<exists>i j r. e = Answered i j r) \<or>
      e = Changed unmount_project) es"
    and "project_kept s"
  shows "project_kept (fst (happened es s))"
proof -
  have find: "keeps project_kept (find_project env n)" for n
    unfolding find_project_def
    by (intro keeps_intros) (auto split: list.split intro!: keeps_property keeps_bind keeps_await)
  have "keeps project_kept (project_effect env envId a)" for envId a
    unfolding project_effect_def
    by (intro keeps_intros) (auto split: option.split intro!: keeps_intros find)
  then have "list_all (allowed project_kept) es"
    using assms(1) by (auto simp: list_all_iff allowed_def unmount_project_def)
  then show ?thesis using happened_steady [of project_kept es s] assms(2) by simp
qed

text \<open>A run that was cancelled before the list came still creates the default project: two runs create two.\<close>

lemma cancelled_run_creates_project:
  "let w = happened [Called (project_effect env None True), Called (project_effect env None True),
       Answered 0 0 (Inr (Some (JObj [(''projects'', JArr [])]))), Answered 1 0 (Inr (Some (JObj [(''projects'', JArr [])])))]
       \<lparr>shown_project = None, stored_project = None, storage_works = True, effect_run = 0\<rparr>
   in \<exists>k1 k2. snd w = [Waiting [createProject (srv env) default_project] k1, Waiting [createProject (srv env) default_project] k2]"
  by (simp add: happened_def project_effect_def find_project_def candidate_project_def co_defs co_property_def
      truthy_string_def)

end
