(* ===== verification/Message_Text.thy ===== *)
theory Message_Text
  imports Ui_Builder Filenames Page_State "HOL-Library.Word"
begin

section \<open>Texts of messages and of the context editor\<close>

text \<open>
  The parts of a message with code blocks (\<^verbatim>\<open>components/message-bubble.tsx\<close>) with the state of its editing,
  and of \<^verbatim>\<open>components/context/markdown-editor.tsx\<close> the lines, their selection, the cache of the tokens with
  its 32-bit hash, and the rendering of a line.  The regular expressions are scanners: a lazy
  \<open>[\s\S]*?\<close> ends at the first place where what follows it matches.
\<close>

subsection \<open>Up to a delimiter\<close>

fun until :: "string \<Rightarrow> string \<Rightarrow> (string \<times> string) option" where
  "until d [] = None"
| "until d (c # s) =
     (if starts_with (c # s) d then Some ([], drop (length d) (c # s)) else map_option (apfst (Cons c)) (until d s))"

lemma starts_withD: "starts_with s p \<Longrightarrow> s = p @ drop (length p) s"
  by (metis append_take_drop_id starts_with_def)

lemma starts_with_append [simp]: "starts_with (p @ s) p"
  by (simp add: starts_with_def)

lemma until_Some: "until d s = Some (a, b) \<Longrightarrow> s = a @ d @ b"
proof (induction d s arbitrary: a rule: until.induct)
  case (2 d c s)
  then show ?case by (auto split: if_splits dest: starts_withD)
qed simp

lemma until_shorter: "until d s = Some (a, b) \<Longrightarrow> length b \<le> length s"
  by (drule until_Some) simp

lemma until_none: "x \<notin> set s \<Longrightarrow> until (x # d) s = None"
  by (induction s) (auto simp: starts_with_def)

subsection \<open>Code blocks\<close>

definition backtick :: char where "backtick = char_of (96::nat)"
definition line_feed :: char where "line_feed = char_of (10::nat)"

definition code_fence :: string where "code_fence = [backtick, backtick, backtick]"

text \<open>\<open>```(\w+)?\n([\s\S]*?)```\<close> at the front: the language, the body, and what follows.\<close>

definition block_at_front :: "string \<Rightarrow> (string \<times> string \<times> string) option" where
  "block_at_front s =
     (if \<not> starts_with s code_fence then None
      else let t = drop 3 s
        in case dropWhile is_word_char t of
             [] \<Rightarrow> None
           | c # v \<Rightarrow> if c \<noteq> line_feed then None
               else map_option (Pair (takeWhile is_word_char t)) (until code_fence v))"

text \<open>The next match, with the text before it.\<close>

fun next_block :: "string \<Rightarrow> (string \<times> string \<times> string \<times> string) option" where
  "next_block [] = None"
| "next_block (c # s) =
     (case block_at_front (c # s) of
        Some m \<Rightarrow> Some ([], m)
      | None \<Rightarrow> map_option (apfst (Cons c)) (next_block s))"

datatype message_part = TextPart string | CodePart string string

definition unparse_part :: "message_part \<Rightarrow> string" where
  "unparse_part p =
     (case p of TextPart t \<Rightarrow> t | CodePart lang body \<Rightarrow> code_fence @ lang @ [line_feed] @ body @ code_fence)"

lemma unparse_text [simp]: "unparse_part (TextPart t) = t"
  by (simp add: unparse_part_def)

lemma length_code_fence [simp]: "length code_fence = 3"
  by (simp add: code_fence_def)

lemma block_at_frontD:
  assumes "block_at_front s = Some (lang, body, rest)"
  shows "s = unparse_part (CodePart lang body) @ rest" and "list_all is_word_char lang"
proof -
  have fence: "starts_with s code_fence" using assms by (auto simp: block_at_front_def split: if_splits)
  let ?t = "drop 3 s"
  obtain v where v: "dropWhile is_word_char ?t = line_feed # v" "until code_fence v = Some (body, rest)"
    and lang: "lang = takeWhile is_word_char ?t"
    using assms fence by (auto simp: block_at_front_def Let_def split: list.splits if_splits)
  have "?t = lang @ line_feed # v" using v(1) lang by (metis takeWhile_dropWhile_id)
  moreover have "s = code_fence @ ?t" using starts_withD [OF fence] by (simp add: code_fence_def numeral_3_eq_3)
  ultimately show "s = unparse_part (CodePart lang body) @ rest"
    using until_Some [OF v(2)] by (simp add: unparse_part_def)
  show "list_all is_word_char lang" using lang set_takeWhileD by (fastforce simp: list_all_iff)
qed

lemma next_blockD:
  "next_block s = Some (before, lang, body, rest) \<Longrightarrow>
   s = before @ unparse_part (CodePart lang body) @ rest \<and> list_all is_word_char lang"
proof (induction s arbitrary: before rule: next_block.induct)
  case (2 c s)
  show ?case
  proof (cases "block_at_front (c # s)")
    case None
    then show ?thesis using 2 by auto
  next
    case (Some m)
    then show ?thesis using 2 block_at_frontD [of "c # s" lang body rest] by auto
  qed
qed simp

text \<open>The loop over the matches, with the parts as they stand in the source.\<close>

function raw_parts :: "string \<Rightarrow> message_part list" where
  "raw_parts s =
     (case next_block s of
        None \<Rightarrow> if s = [] then [] else [TextPart s]
      | Some (before, lang, body, rest) \<Rightarrow>
          (if before = [] then [] else [TextPart before]) @ CodePart lang body # raw_parts rest)"
  by pat_completeness auto

termination
proof (relation "measure length")
  fix s x before y lang z body rest
  assume "next_block s = Some x" and "(before, y) = x" and "(lang, z) = y" and "(body, rest) = z"
  then have "s = before @ unparse_part (CodePart lang body) @ rest" using next_blockD by blast
  then show "(rest, s) \<in> measure length" by (simp add: unparse_part_def)
qed simp

declare raw_parts.simps [simp del]

definition shown_part :: "message_part \<Rightarrow> message_part" where
  "shown_part p =
     (case p of TextPart t \<Rightarrow> TextPart t
      | CodePart lang body \<Rightarrow> CodePart (or_string (Some lang) ''plaintext'') (trim body))"

definition parseCodeBlocks :: "string \<Rightarrow> message_part list" where
  "parseCodeBlocks content =
     (let parts = map shown_part (raw_parts content) in if parts \<noteq> [] then parts else [TextPart content])"

lemma raw_parts_step:
  "next_block s = Some (before, lang, body, rest) \<Longrightarrow>
   raw_parts s = (if before = [] then [] else [TextPart before]) @ CodePart lang body # raw_parts rest"
  by (subst raw_parts.simps) simp

lemma raw_parts_end: "next_block s = None \<Longrightarrow> raw_parts s = (if s = [] then [] else [TextPart s])"
  by (subst raw_parts.simps) simp

lemma raw_parts_concat: "concat (map unparse_part (raw_parts s)) = s"
proof (induction s rule: raw_parts.induct)
  case (1 s)
  show ?case
  proof (cases "next_block s")
    case None
    then show ?thesis by (simp add: raw_parts_end unparse_part_def)
  next
    case (Some m)
    obtain before lang body rest where m: "m = (before, lang, body, rest)" by (cases m)
    have "s = before @ unparse_part (CodePart lang body) @ rest" using next_blockD Some m by blast
    moreover have "concat (map unparse_part (raw_parts rest)) = rest" using 1 Some m by simp
    moreover have "concat (map unparse_part (if before = [] then [] else [TextPart before])) = before"
      by (simp add: unparse_part_def)
    ultimately show ?thesis using raw_parts_step [of s before lang body rest] Some m by simp
  qed
qed

text \<open>
  A text without a fence of its own: three backticks are nowhere in it, and it does not end in one, which would join
  the fence that follows it.  Messages of such texts and blocks, no two texts side by side.
\<close>

definition fence_free :: "string \<Rightarrow> bool" where
  "fence_free t \<longleftrightarrow> until code_fence t = None \<and> (t = [] \<or> last t \<noteq> backtick)"

fun parts_ok :: "message_part list \<Rightarrow> bool" where
  "parts_ok [] = True"
| "parts_ok (TextPart t # ps) =
     (t \<noteq> [] \<and> fence_free t \<and> parts_ok ps \<and> (case ps of TextPart _ # _ \<Rightarrow> False | _ \<Rightarrow> True))"
| "parts_ok (CodePart lang body # ps) = (list_all is_word_char lang \<and> fence_free body \<and> parts_ok ps)"

lemma fence_free_Nil [simp]: "fence_free []"
  by (simp add: fence_free_def)

lemma fence_free_Cons:
  assumes "fence_free (c # s)"
  shows "fence_free s" and "\<not> starts_with ((c # s) @ code_fence @ b) code_fence" and "\<not> starts_with (c # s) code_fence"
proof -
  show none: "\<not> starts_with (c # s) code_fence" using assms by (auto simp: fence_free_def)
  then show "fence_free s" using assms by (auto simp: fence_free_def split: if_splits)
  show "\<not> starts_with ((c # s) @ code_fence @ b) code_fence"
  proof (cases s)
    case Nil
    then show ?thesis using assms by (auto simp: fence_free_def starts_with_def code_fence_def)
  next
    case s: (Cons d u)
    show ?thesis
    proof (cases u)
      case Nil
      then show ?thesis using assms s by (auto simp: fence_free_def starts_with_def code_fence_def)
    next
      case (Cons e w)
      then show ?thesis using none s by (auto simp: starts_with_def code_fence_def)
    qed
  qed
qed

lemma until_fence: "fence_free a \<Longrightarrow> until code_fence (a @ code_fence @ b) = Some (a, b)"
proof (induction a)
  case Nil
  then show ?case by (simp add: code_fence_def starts_with_def)
next
  case (Cons c a)
  have "until code_fence (a @ code_fence @ b) = Some (a, b)"
    using Cons.IH fence_free_Cons(1) [OF Cons.prems] by blast
  moreover have "\<not> starts_with (c # a @ code_fence @ b) code_fence"
    using fence_free_Cons(2) [OF Cons.prems, of b] by simp
  ultimately show ?case by simp
qed

lemma no_word: "\<not> is_word_char backtick" "\<not> is_word_char line_feed" "backtick \<noteq> line_feed"
  by code_simp+

lemma block_at_front_unparse:
  assumes "list_all is_word_char lang" and "fence_free body"
  shows "block_at_front (unparse_part (CodePart lang body) @ rest) = Some (lang, body, rest)"
proof -
  let ?v = "body @ code_fence @ rest"
  have "takeWhile is_word_char (lang @ line_feed # ?v) = lang" "dropWhile is_word_char (lang @ line_feed # ?v) = line_feed # ?v"
    using assms(1) no_word by (simp_all add: list_all_iff takeWhile_append2 dropWhile_append2)
  moreover have "until code_fence ?v = Some (body, rest)"
    by (rule until_fence [OF assms(2)])
  ultimately show ?thesis by (simp add: block_at_front_def unparse_part_def Let_def)
qed

lemma block_at_front_other: "\<not> starts_with s code_fence \<Longrightarrow> block_at_front s = None"
  by (simp add: block_at_front_def)

lemma next_block_after:
  assumes "list_all is_word_char lang" and "fence_free body"
  shows "fence_free t \<Longrightarrow>
    next_block (t @ unparse_part (CodePart lang body) @ rest) = Some (t, lang, body, rest)"
proof (induction t)
  case Nil
  then obtain c s where cs: "unparse_part (CodePart lang body) @ rest = c # s"
    by (cases "unparse_part (CodePart lang body) @ rest") (auto simp: unparse_part_def code_fence_def)
  then show ?case using block_at_front_unparse [OF assms, of rest] by simp
next
  case (Cons c t)
  have "unparse_part (CodePart lang body) @ rest = code_fence @ lang @ line_feed # body @ code_fence @ rest"
    by (simp add: unparse_part_def)
  then have "block_at_front (c # t @ unparse_part (CodePart lang body) @ rest) = None"
    using fence_free_Cons(2) [OF Cons.prems] by (intro block_at_front_other) simp
  then show ?case using Cons.IH fence_free_Cons(1) [OF Cons.prems] by simp
qed

lemma next_block_none: "fence_free t \<Longrightarrow> next_block t = None"
proof (induction t)
  case (Cons c t)
  then show ?case using fence_free_Cons [OF Cons.prems] by (simp add: block_at_front_other)
qed simp

lemma raw_parts_unparse: "parts_ok ps \<Longrightarrow> raw_parts (concat (map unparse_part ps)) = ps"
proof (induction ps rule: parts_ok.induct)
  case 1
  show ?case by (simp add: raw_parts_end)
next
  case (2 t ps)
  show ?case
  proof (cases ps)
    case Nil
    then show ?thesis using 2 by (simp add: raw_parts_end next_block_none unparse_part_def)
  next
    case (Cons p qs)
    then obtain lang body where p: "p = CodePart lang body" using 2 by (cases p) auto
    have "raw_parts (unparse_part (CodePart lang body) @ concat (map unparse_part qs)) =
        CodePart lang body # raw_parts (concat (map unparse_part qs))"
      using raw_parts_step [OF next_block_after [of lang body "[]"]] 2 by (simp add: Cons p)
    then have qs: "raw_parts (concat (map unparse_part qs)) = qs" using 2 by (simp add: Cons p)
    have "next_block (t @ unparse_part (CodePart lang body) @ concat (map unparse_part qs)) =
        Some (t, lang, body, concat (map unparse_part qs))"
      using 2 by (intro next_block_after) (simp_all add: Cons p)
    from raw_parts_step [OF this] show ?thesis using 2 qs by (simp add: Cons p)
  qed
next
  case (3 lang body ps)
  then show ?case using raw_parts_step [OF next_block_after [of lang body "[]" "concat (map unparse_part ps)"]] by simp
qed

text \<open>C27: a message that is written as texts and code blocks is shown as them: its blocks become the code parts, with
  their language, which is plain text when none is named, and their code trimmed, and its texts stay between them as
  they are.  The message has at least one part; no two texts are side by side and none is empty; no text and no code
  has three backticks in a row in it or ends in a backtick (single backticks, as in inline code, are allowed); a
  language is made of letters, digits and underscores.\<close>
theorem code_blocks_round_trip:
  assumes "parts_ok ps" and "ps \<noteq> []"
  shows "parseCodeBlocks (concat (map unparse_part ps)) = map shown_part ps"
  using assms raw_parts_unparse by (simp add: parseCodeBlocks_def Let_def)

lemma code_blocks_round_trip_witness:
  "parseCodeBlocks (''Use '' @ [backtick] @ ''f'' @ [backtick] @ '': '' @ code_fence @ ''ml'' @ [line_feed] @ '' f x '' @
      code_fence @ '' there'') =
     [TextPart (''Use '' @ [backtick] @ ''f'' @ [backtick] @ '': ''), CodePart ''ml'' ''f x'', TextPart '' there'']"
proof -
  let ?ps = "[TextPart (''Use '' @ [backtick] @ ''f'' @ [backtick] @ '': ''), CodePart ''ml'' '' f x '', TextPart '' there'']"
  have "parts_ok ?ps" by code_simp
  from code_blocks_round_trip [OF this] show ?thesis
    by (simp add: unparse_part_def shown_part_def or_string_def trim_def trim_end_by_def white_def)
qed

text \<open>A block that is not closed, as while a message streams, stays text.\<close>

lemma open_block_is_text:
  "parseCodeBlocks (code_fence @ ''ml'' @ [line_feed] @ ''f x'') = [TextPart (code_fence @ ''ml'' @ [line_feed] @ ''f x'')]"
  by code_simp

subsection \<open>Editing a message\<close>

record bubble =
  bubble_editing :: bool
  edit_content :: string

text \<open>What is handed to \<open>onEdit\<close>, and the state afterwards.\<close>

definition handleSaveEdit :: "string \<Rightarrow> bubble \<Rightarrow> string option \<times> bubble" where
  "handleSaveEdit content s =
     (let trimmed = trim (edit_content s)
      in (if trimmed \<noteq> [] \<and> trimmed \<noteq> content then Some trimmed else None, s\<lparr>bubble_editing := False\<rparr>))"

definition handleCancelEdit :: "string \<Rightarrow> bubble \<Rightarrow> bubble" where
  "handleCancelEdit content s = s\<lparr>edit_content := content, bubble_editing := False\<rparr>"

definition edit_key :: "string \<Rightarrow> bool \<Rightarrow> string \<Rightarrow> bubble \<Rightarrow> string option \<times> bubble" where
  "edit_key key withModifier content s =
     (if key = ''Escape'' then (None, handleCancelEdit content s)
      else if key = ''Enter'' \<and> withModifier then handleSaveEdit content s else (None, s))"

lemma saved_edit_is_trimmed:
  "fst (handleSaveEdit content s) = Some t \<Longrightarrow> t \<noteq> [] \<and> t \<noteq> content \<and> trim t = t"
  using trim_ends [of "edit_content s"] trim_same [of "trim (edit_content s)"]
  by (auto simp: handleSaveEdit_def Let_def split: if_splits)


subsection \<open>The lines of the editor\<close>

definition editor_lines :: "string \<Rightarrow> string list" where
  "editor_lines content = split_on line_feed content"

definition join_lines :: "string list \<Rightarrow> string" where
  "join_lines ls = join [line_feed] ls"

definition toggleLine :: "nat \<Rightarrow> nat set \<Rightarrow> nat set" where
  "toggleLine i sel = (if i \<in> sel then sel - {i} else insert i sel)"

definition kept_lines :: "nat set \<Rightarrow> string list \<Rightarrow> string list" where
  "kept_lines sel ls = map snd (filter (\<lambda>(i, _). i \<notin> sel) (enumerate 0 ls))"

text \<open>The text that is handed to \<open>onChange\<close>, and the selection afterwards.\<close>

definition deleteSelectedLines :: "nat set \<Rightarrow> string \<Rightarrow> string \<times> nat set" where
  "deleteSelectedLines sel content = (join_lines (kept_lines sel (editor_lines content)), {})"

definition highlighted :: "string \<Rightarrow> string \<Rightarrow> bool" where
  "highlighted searchQuery line \<longleftrightarrow> to_lower searchQuery \<noteq> [] \<and> occurs (to_lower searchQuery) (to_lower line)"

lemma kept_nths: "kept_lines sel ls = nths ls (- sel)"
proof -
  have "map snd (filter (\<lambda>(i, _). i \<notin> sel) (enumerate n ls)) = nths ls {i. i + n \<notin> sel}" for n
  proof (induction ls arbitrary: n)
    case (Cons l ls)
    then show ?case by (simp add: nths_Cons)
  qed simp
  from this [of 0] show ?thesis by (simp add: kept_lines_def Compl_eq)
qed

lemma split_on_free: "l \<in> set (split_on c s) \<Longrightarrow> c \<notin> set l"
  using split_on_no_sep_parts by (auto simp: list_all_iff)

lemma split_join:
  "ls \<noteq> [] \<Longrightarrow> \<forall>l \<in> set ls. line_feed \<notin> set l \<Longrightarrow> editor_lines (join_lines ls) = ls"
proof (induction ls)
  case (Cons l ls)
  then show ?case
    by (cases ls) (simp_all add: editor_lines_def join_lines_def split_on_no_sep)
qed simp

text \<open>Deleting keeps the lines that are not selected, in their order; with all of them selected one empty line
  is left.\<close>

lemma deleted_lines:
  "editor_lines (fst (deleteSelectedLines sel content)) =
     (if nths (editor_lines content) (- sel) = [] then [[]] else nths (editor_lines content) (- sel))"
proof (cases "nths (editor_lines content) (- sel) = []")
  case True
  then show ?thesis
    by (simp add: deleteSelectedLines_def kept_nths join_lines_def editor_lines_def)
next
  case False
  have "\<forall>l \<in> set (nths (editor_lines content) (- sel)). line_feed \<notin> set l"
    using notin_set_nthsI split_on_free by (fastforce simp: editor_lines_def)
  then show ?thesis using False split_join by (simp add: deleteSelectedLines_def kept_nths)
qed

text \<open>The selection is by number and outlives a change of the text: after a line was put in front, deleting
  takes another line than the one that was ticked.\<close>

lemma selection_slips:
  "fst (deleteSelectedLines {1} (join_lines [''new'', ''keep'', ''drop''])) = join_lines [''new'', ''drop'']"
  by code_simp

subsection \<open>The cache of the tokens\<close>

text \<open>\<open>h = ((h << 5) - h + code) | 0\<close> at 32 bits; the text of the number is as good as the number.\<close>

definition hash_step :: "char \<Rightarrow> 32 word \<Rightarrow> 32 word" where
  "hash_step c h = push_bit 5 h - h + of_nat (of_char c)"

definition content_hash :: "string \<Rightarrow> 32 word" where
  "content_hash s = fold hash_step s 0"

record token_view =
  token_highlight :: bool
  token_data :: "json option"
  token_cache :: "(32 word \<times> json option) option"
  token_loading :: bool

text \<open>\<open>fetchTokenization\<close> up to its request, whether it makes one, and the answer.\<close>

definition start_tokens :: "string \<Rightarrow> token_view \<Rightarrow> bool \<times> token_view" where
  "start_tokens content s =
     (if content = [] then (False, s)
      else case token_cache s of
        Some (h, d) \<Rightarrow> if h = content_hash content then (False, s\<lparr>token_data := d\<rparr>) else (True, s\<lparr>token_loading := True\<rparr>)
      | None \<Rightarrow> (True, s\<lparr>token_loading := True\<rparr>))"

definition tokens_answered :: "string \<Rightarrow> 'e + json option \<Rightarrow> token_view \<Rightarrow> token_view" where
  "tokens_answered content r s =
     (case r of
        Inl e \<Rightarrow> s\<lparr>token_data := Some JNull, token_loading := False\<rparr>
      | Inr d \<Rightarrow> s\<lparr>token_cache := Some (content_hash content, d), token_data := d, token_loading := False\<rparr>)"

definition handleToggleTokenize :: "string \<Rightarrow> token_view \<Rightarrow> bool \<times> token_view" where
  "handleToggleTokenize content s =
     (if token_highlight s then (False, s\<lparr>token_highlight := False\<rparr>)
      else start_tokens content (s\<lparr>token_highlight := True\<rparr>))"

text \<open>What a text that cannot be edited is shown as: its tokens when there are some, else its lines (which are
  rendered, see below).\<close>

definition token_text :: "json \<Rightarrow> string" where
  "token_text t = (case t of JObj f \<Rightarrow> (case map_of f ''text'' of Some (JStr x) \<Rightarrow> x | _ \<Rightarrow> []) | _ \<Rightarrow> [])"

definition token_texts :: "json \<Rightarrow> string list" where
  "token_texts d =
     (case d of JObj f \<Rightarrow> (case map_of f ''tokens'' of Some (JArr ts) \<Rightarrow> map token_text ts | _ \<Rightarrow> []) | _ \<Rightarrow> [])"

definition read_only_text :: "string \<Rightarrow> token_view \<Rightarrow> string" where
  "read_only_text content s =
     (case token_data s of
        None \<Rightarrow> content
      | Some d \<Rightarrow> if token_highlight s \<and> d \<noteq> JNull then concat (token_texts d) else content)"

text \<open>The tokens are asked for when they are switched on, not when the text changes: those of one text stay for the
  next.\<close>

lemma tokens_stay_for_other_text:
  assumes "token_highlight s" and "d \<noteq> JNull"
  shows "read_only_text other (tokens_answered content (Inr (Some d)) s) =
    read_only_text content (tokens_answered content (Inr (Some d)) s)"
  using assms by (simp add: read_only_text_def tokens_answered_def)

lemma tokens_of_first_text_shown:
  "let s = tokens_answered ''one'' (Inr (Some (JObj [(''tokens'', JArr [JObj [(''text'', JStr ''one'')]])])))
         (snd (handleToggleTokenize ''one''
           \<lparr>token_highlight = False, token_data = Some JNull, token_cache = None, token_loading = False\<rparr>))
   in read_only_text ''two'' s = ''one''"
  by code_simp

text \<open>The hash is the polynomial at 31, modulo \<open>2\<^sup>3\<^sup>2\<close>.\<close>

fun hash_value :: "string \<Rightarrow> nat" where
  "hash_value [] = 0"
| "hash_value (c # s) = of_char c * 31 ^ length s + hash_value s"

lemma content_hash_value: "content_hash s = of_nat (hash_value s)"
proof -
  have step: "hash_step c h = 31 * h + of_nat (of_char c)" for c h
    by (simp add: hash_step_def push_bit_eq_mult)
  have "fold hash_step s h = 31 ^ length s * h + of_nat (hash_value s)" for h
    by (induction s arbitrary: h) (simp_all add: step algebra_simps)
  from this [of 0] show ?thesis by (simp add: content_hash_def)
qed

text \<open>Two texts have one hash exactly when their polynomials agree modulo \<open>2\<^sup>3\<^sup>2\<close>: never two different texts of
  one character, but the tokens of \<open>Aa\<close> are shown for \<open>BB\<close> without asking the server.\<close>

lemma same_hash_iff: "content_hash s = content_hash t \<longleftrightarrow> hash_value s mod 2 ^ 32 = hash_value t mod 2 ^ 32"
  unfolding content_hash_value by (simp add: unsigned_of_nat word_of_nat_eq_iff take_bit_eq_mod)

lemma tokens_of_another_text:
  assumes "token_highlight s"
  shows "start_tokens ''BB'' (tokens_answered ''Aa'' (Inr d) s) =
    (False, (tokens_answered ''Aa'' (Inr d) s)\<lparr>token_data := d\<rparr>)"
proof -
  have "content_hash ''Aa'' = content_hash ''BB''" by (simp add: same_hash_iff)
  then show ?thesis by (simp add: start_tokens_def tokens_answered_def)
qed

subsection \<open>The rendering of a line\<close>

definition stars :: string where "stars = ''**''"

text \<open>\<open>line.split(/(\*\*.*?\*\*)/)\<close>: texts and matches in turn.\<close>

fun bold_at_front :: "string \<Rightarrow> (string \<times> string) option" where
  "bold_at_front s =
     (if \<not> starts_with s stars then None
      else map_option (\<lambda>(a, b). (stars @ a @ stars, b)) (until stars (drop 2 s)))"

fun next_bold :: "string \<Rightarrow> (string \<times> string \<times> string) option" where
  "next_bold [] = None"
| "next_bold (c # s) =
     (case bold_at_front (c # s) of
        Some m \<Rightarrow> Some ([], m)
      | None \<Rightarrow> map_option (apfst (Cons c)) (next_bold s))"

declare bold_at_front.simps [simp del]

lemma bold_at_frontD:
  assumes "bold_at_front s = Some (m, rest)"
  shows "s = m @ rest" and "m \<noteq> []"
proof -
  have "starts_with s stars" using assms by (auto simp: bold_at_front.simps split: if_splits)
  from starts_withD [OF this] have "s = stars @ drop 2 s" by (simp add: stars_def numeral_2_eq_2)
  then show "s = m @ rest" "m \<noteq> []"
    using assms until_Some [of stars "drop 2 s"] by (auto simp: bold_at_front.simps stars_def split: if_splits)
qed

lemma next_boldD: "next_bold s = Some (before, m, rest) \<Longrightarrow> s = before @ m @ rest \<and> m \<noteq> []"
proof (induction s arbitrary: before)
  case (Cons c s)
  then show ?case using bold_at_frontD [of "c # s" m rest] by (auto split: option.splits)
qed simp

function split_bold :: "string \<Rightarrow> string list" where
  "split_bold s =
     (case next_bold s of None \<Rightarrow> [s] | Some (before, m, rest) \<Rightarrow> before # m # split_bold rest)"
  by pat_completeness auto

termination
proof (relation "measure length")
  fix s x before y m rest
  assume "next_bold s = Some x" and "(before, y) = x" and "(m, rest) = y"
  then have "s = before @ m @ rest \<and> m \<noteq> []" using next_boldD by blast
  then show "(rest, s) \<in> measure length" by simp
qed simp

declare split_bold.simps [simp del]

datatype line_span = Heading nat string | Item string | Bold string | Plain string

definition shown_span :: "string \<Rightarrow> line_span" where
  "shown_span part =
     (if starts_with part stars \<and> ends_with part stars then Bold (take (length part - 4) (drop 2 part)) else Plain part)"

definition renderMarkdownLine :: "string \<Rightarrow> line_span list" where
  "renderMarkdownLine line =
     (if starts_with line ''### '' then [Heading 3 line]
      else if starts_with line ''## '' then [Heading 2 line]
      else if starts_with line ''# '' then [Heading 1 line]
      else if starts_with line ''- '' \<or> starts_with line ''* '' then [Item line]
      else if next_bold line \<noteq> None then map shown_span (split_bold line)
      else [Plain line])"

lemma split_bold_concat: "concat (split_bold s) = s"
proof (induction s rule: split_bold.induct)
  case (1 s)
  show ?case
  proof (cases "next_bold s")
    case (Some x)
    then show ?thesis using 1 next_boldD [of s] by (subst split_bold.simps) (auto split: prod.split)
  qed (subst split_bold.simps, simp)
qed

text \<open>The parts of a line are the line; but a stray pair of stars after a bold span is taken for one without
  text and is not shown.\<close>

lemma stray_stars_vanish:
  "renderMarkdownLine ''**a** b **'' = [Plain [], Bold ''a'', Plain '' b **'']"
  "renderMarkdownLine ''**a****'' = [Plain [], Bold ''a'', Bold []]"
  by code_simp+

end
