(* ===== verification/Generation_Form.thy ===== *)
theory Generation_Form
  imports Hook_Monad Api_Image Page_State Filenames
begin

section \<open>The form of an image generation\<close>

text \<open>
  \<^verbatim>\<open>components/workspace/image-gen/generation-form.tsx\<close>: the fields, their defaults from the preferences of
  the user and from presets, the checks with the tab that they open, and the request that is sent.  The
  images are kept twice, as the field that is sent and as the preview that is shown (\<open>uploads\<close> of
  \<open>Page_State\<close>).  \<open>Number(text)\<close> of the seed is a parameter.
\<close>

subsection \<open>Fields\<close>

record form_state =
  gf_workflow_type :: string
  gf_prompt :: string
  gf_negative_prompt :: string
  gf_width :: real
  gf_height :: real
  gf_steps :: real
  gf_cfg_scale :: real
  gf_input_image :: string
  gf_mask_image :: string
  gf_target_image :: string
  gf_denoise :: real
  gf_morph_strength :: real
  gf_seed :: string
  gf_sampler_name :: string
  gf_scheduler :: string
  gf_batch_size :: real
  gf_model_name :: string
  gf_loras :: "lora_config list"
  gf_reference_image :: string
  gf_reference_weight :: real
  gf_reference_noise :: real
  gf_controlnet_image :: string
  gf_controlnet_type :: string
  gf_controlnet_strength :: real

definition DEFAULT_FORM :: form_state where
  "DEFAULT_FORM =
     \<lparr>gf_workflow_type = ''text-to-image'', gf_prompt = [], gf_negative_prompt = [], gf_width = 512, gf_height = 512,
      gf_steps = 20, gf_cfg_scale = 7, gf_input_image = [], gf_mask_image = [], gf_target_image = [],
      gf_denoise = 3 / 4, gf_morph_strength = 1 / 2, gf_seed = [], gf_sampler_name = ''euler'',
      gf_scheduler = ''normal'', gf_batch_size = 1, gf_model_name = [], gf_loras = [], gf_reference_image = [],
      gf_reference_weight = 7 / 10, gf_reference_noise = 0, gf_controlnet_image = [], gf_controlnet_type = [],
      gf_controlnet_strength = 1\<rparr>"

text \<open>A member of the preferences or of a preset is taken when it is truthy; those are texts and numbers.\<close>

fun truthy_number :: "json option \<Rightarrow> real option" where
  "truthy_number (Some (JNum x)) = (if x = 0 then None else Some x)"
| "truthy_number _ = None"

fun truthy_text :: "json option \<Rightarrow> string option" where
  "truthy_text (Some (JStr t)) = (if t = [] then None else Some t)"
| "truthy_text _ = None"

definition take_number :: "json \<Rightarrow> string \<Rightarrow> (real \<Rightarrow> form_state \<Rightarrow> form_state) \<Rightarrow> form_state \<Rightarrow> form_state" where
  "take_number j k assign f = (case truthy_number (member j k) of None \<Rightarrow> f | Some x \<Rightarrow> assign x f)"

definition take_text :: "json \<Rightarrow> string \<Rightarrow> (string \<Rightarrow> form_state \<Rightarrow> form_state) \<Rightarrow> form_state \<Rightarrow> form_state" where
  "take_text j k assign f = (case truthy_text (member j k) of None \<Rightarrow> f | Some t \<Rightarrow> assign t f)"

text \<open>\<open>{ ...form, ...prefsDefaults }\<close>; without preferences the form.\<close>

definition with_preferences :: "json option \<Rightarrow> form_state \<Rightarrow> form_state" where
  "with_preferences prefs f =
     (case prefs of None \<Rightarrow> f
      | Some j \<Rightarrow>
          (take_text j ''imggen_default_workflow'' (\<lambda>t f. f\<lparr>gf_workflow_type := t\<rparr>)
          \<circ> take_number j ''imggen_default_width'' (\<lambda>x f. f\<lparr>gf_width := x\<rparr>)
          \<circ> take_number j ''imggen_default_height'' (\<lambda>x f. f\<lparr>gf_height := x\<rparr>)
          \<circ> take_number j ''imggen_default_steps'' (\<lambda>x f. f\<lparr>gf_steps := x\<rparr>)
          \<circ> take_number j ''imggen_default_cfg_scale'' (\<lambda>x f. f\<lparr>gf_cfg_scale := x\<rparr>)
          \<circ> take_text j ''imggen_default_prompt'' (\<lambda>t f. f\<lparr>gf_prompt := t\<rparr>)
          \<circ> take_text j ''imggen_default_negative_prompt'' (\<lambda>t f. f\<lparr>gf_negative_prompt := t\<rparr>)) f)"

definition handlePresetSelect :: "string \<Rightarrow> string option \<Rightarrow> json option \<Rightarrow> form_state \<Rightarrow> form_state" where
  "handlePresetSelect prompt_text negative_prompt_text workflow_settings f =
     (let f1 = f\<lparr>gf_prompt := prompt_text, gf_negative_prompt := or_string negative_prompt_text []\<rparr>
      in case workflow_settings of None \<Rightarrow> f1
      | Some j \<Rightarrow>
          (take_number j ''width'' (\<lambda>x f. f\<lparr>gf_width := x\<rparr>)
          \<circ> take_number j ''height'' (\<lambda>x f. f\<lparr>gf_height := x\<rparr>)
          \<circ> take_number j ''steps'' (\<lambda>x f. f\<lparr>gf_steps := x\<rparr>)
          \<circ> take_number j ''cfg_scale'' (\<lambda>x f. f\<lparr>gf_cfg_scale := x\<rparr>)
          \<circ> take_text j ''sampler_name'' (\<lambda>t f. f\<lparr>gf_sampler_name := t\<rparr>)
          \<circ> take_text j ''model_name'' (\<lambda>t f. f\<lparr>gf_model_name := t\<rparr>)) f1)"

text \<open>The effect on the options of the server: the first of each where nothing is chosen.\<close>

definition first_of :: "string list \<Rightarrow> string \<Rightarrow> string" where
  "first_of options chosen = (if chosen = [] \<and> options \<noteq> [] then hd options else chosen)"

definition choose_options :: "string list \<Rightarrow> string list \<Rightarrow> string list \<Rightarrow> form_state \<Rightarrow> form_state" where
  "choose_options models samplers schedulers f =
     f\<lparr>gf_model_name := first_of models (gf_model_name f), gf_sampler_name := first_of samplers (gf_sampler_name f),
       gf_scheduler := first_of schedulers (gf_scheduler f)\<rparr>"

text \<open>The kind of the model by its name, and the LoRAs that are offered for it: file name and kind of each.\<close>

definition selectedModelType :: "form_state \<Rightarrow> string" where
  "selectedModelType f = (if occurs ''xl'' (to_lower (gf_model_name f)) then ''sdxl'' else ''sd15'')"

definition loraOptions :: "string list \<Rightarrow> (string \<times> string) list \<Rightarrow> form_state \<Rightarrow> string list" where
  "loraOptions loras details f =
     (if details = [] then loras
      else map fst (filter (\<lambda>(_, kind). kind = ''both'' \<or> kind = selectedModelType f) details))"

definition defaultLora :: "string list \<Rightarrow> lora_config" where
  "defaultLora loras = \<lparr>lora_name = (case loras of [] \<Rightarrow> [] | l # _ \<Rightarrow> l), strength_model = 1, strength_clip = 1\<rparr>"

definition onLoraAdd :: "string list \<Rightarrow> form_state \<Rightarrow> form_state" where
  "onLoraAdd options f = f\<lparr>gf_loras := gf_loras f @ [defaultLora options]\<rparr>"

definition onLoraUpdate :: "nat \<Rightarrow> (lora_config \<Rightarrow> lora_config) \<Rightarrow> form_state \<Rightarrow> form_state" where
  "onLoraUpdate i change f = f\<lparr>gf_loras := (gf_loras f)[i := change (gf_loras f ! i)]\<rparr>"

definition onLoraRemove :: "nat \<Rightarrow> form_state \<Rightarrow> form_state" where
  "onLoraRemove i f = f\<lparr>gf_loras := take i (gf_loras f) @ drop (Suc i) (gf_loras f)\<rparr>"

subsection \<open>Checks\<close>

definition error_if :: "bool \<Rightarrow> string \<Rightarrow> string \<Rightarrow> (string \<times> string) list" where
  "error_if b k e = (if b then [(k, e)] else [])"

definition form_errors :: "form_state \<Rightarrow> (string \<times> string) list" where
  "form_errors f =
     (let prompt = trim (gf_prompt f); negative = trim (gf_negative_prompt f) in
      error_if (prompt = []) ''prompt'' ''Prompt is required.'' @
      error_if (2000 < length prompt) ''prompt'' ''Prompt must be <= 2000 chars.'' @
      error_if (2000 < length negative) ''negative_prompt'' ''Negative prompt must be <= 2000 chars.'' @
      error_if (gf_width f < 64 \<or> 2048 < gf_width f) ''width'' ''Width must be between 64 and 2048.'' @
      error_if (gf_height f < 64 \<or> 2048 < gf_height f) ''height'' ''Height must be between 64 and 2048.'' @
      error_if (gf_steps f < 1 \<or> 150 < gf_steps f) ''steps'' ''Steps must be between 1 and 150.'' @
      error_if (gf_cfg_scale f < 1 \<or> 30 < gf_cfg_scale f) ''cfg_scale'' ''CFG scale must be between 1 and 30.'' @
      error_if (gf_denoise f < 0 \<or> 1 < gf_denoise f) ''denoise'' ''Denoise must be between 0 and 1.'' @
      error_if (gf_morph_strength f < 0 \<or> 1 < gf_morph_strength f) ''morph_strength'' ''Morph strength must be between 0 and 1.'' @
      error_if (gf_batch_size f < 1 \<or> 8 < gf_batch_size f) ''batch_size'' ''Batch size must be between 1 and 8.'' @
      error_if (gf_workflow_type f \<noteq> ''text-to-image'' \<and> trim (gf_input_image f) = []) ''input_image'' ''Input image is required.'' @
      error_if (gf_workflow_type f = ''inpainting'' \<and> trim (gf_mask_image f) = []) ''mask_image'' ''Mask image is required for inpainting.'' @
      error_if (gf_workflow_type f = ''face-morph'' \<and> trim (gf_target_image f) = []) ''target_image'' ''Target image is required for face morph.'' @
      error_if (list_ex (\<lambda>l. trim (lora_name l) = []) (gf_loras f)) ''loras'' ''Each LoRA entry needs a valid name.'')"

datatype form_tab = PromptTab | ModelTab | SettingsTab | ImagesTab

definition ERROR_TAB_MAP :: "(string \<times> form_tab) list" where
  "ERROR_TAB_MAP =
     [(''prompt'', PromptTab), (''negative_prompt'', PromptTab), (''width'', SettingsTab), (''height'', SettingsTab),
      (''steps'', SettingsTab), (''cfg_scale'', SettingsTab), (''batch_size'', SettingsTab), (''input_image'', ImagesTab),
      (''mask_image'', ImagesTab), (''target_image'', ImagesTab), (''denoise'', ImagesTab), (''morph_strength'', ImagesTab),
      (''loras'', ModelTab)]"

definition tabsWithErrors :: "(string \<times> string) list \<Rightarrow> form_tab list" where
  "tabsWithErrors errors = List.map_filter (\<lambda>(k, _). map_of ERROR_TAB_MAP k) errors"

definition firstTabWithError :: "(string \<times> string) list \<Rightarrow> form_tab option" where
  "firstTabWithError errors =
     find (\<lambda>t. t \<in> set (tabsWithErrors errors)) [PromptTab, ModelTab, SettingsTab, ImagesTab]"

subsection \<open>The request\<close>

definition undefined_if_empty :: "string \<Rightarrow> string option" where
  "undefined_if_empty t = (if t = [] then None else Some t)"

definition spread_if :: "bool \<Rightarrow> 'a \<Rightarrow> 'a option" where
  "spread_if b x = (if b then Some x else None)"

definition form_request :: "(string \<Rightarrow> real) \<Rightarrow> string \<Rightarrow> form_state \<Rightarrow> image_generation_request" where
  "form_request number projectId f =
     (let reference = trim (gf_reference_image f) \<noteq> [];
          control = trim (gf_controlnet_image f) \<noteq> [] \<and> gf_controlnet_type f \<noteq> []
      in \<lparr>ig_project_id = Some projectId, ig_workflow_type = gf_workflow_type f, ig_system_context = None,
          ig_prompt = trim (gf_prompt f), ig_negative_prompt = undefined_if_empty (trim (gf_negative_prompt f)),
          ig_width = gf_width f, ig_height = gf_height f, ig_steps = gf_steps f, ig_cfg_scale = gf_cfg_scale f,
          ig_input_image = spread_if (gf_workflow_type f \<noteq> ''text-to-image'') (trim (gf_input_image f)),
          ig_mask_image = spread_if (gf_workflow_type f = ''inpainting'') (trim (gf_mask_image f)),
          ig_target_image = spread_if (gf_workflow_type f = ''face-morph'') (trim (gf_target_image f)),
          ig_denoise = Some (gf_denoise f), ig_morph_strength = Some (gf_morph_strength f),
          ig_seed = spread_if (trim (gf_seed f) \<noteq> []) (number (gf_seed f)),
          ig_sampler_name = Some (gf_sampler_name f), ig_scheduler = Some (gf_scheduler f),
          ig_batch_size = Some (gf_batch_size f), ig_model_name = undefined_if_empty (gf_model_name f),
          ig_loras = Some (gf_loras f),
          ig_reference_image = spread_if reference (trim (gf_reference_image f)),
          ig_reference_weight = spread_if reference (gf_reference_weight f),
          ig_reference_noise = spread_if reference (gf_reference_noise f),
          ig_controlnet_image = spread_if control (trim (gf_controlnet_image f)),
          ig_controlnet_type = spread_if control (gf_controlnet_type f),
          ig_controlnet_strength = spread_if control (gf_controlnet_strength f),
          ig_upscale_model = None, ig_source_generation_id = None\<rparr>)"

subsection \<open>The page\<close>

record generation_page =
  form :: form_state
  errors :: "(string \<times> string) list"
  form_tab :: form_tab
  form_uploads :: uploads
  show_reference :: bool
  show_controlnet :: bool

definition initial_page :: "json option \<Rightarrow> generation_page" where
  "initial_page prefs =
     (let f = with_preferences prefs DEFAULT_FORM
      in \<lparr>form = f, errors = [], form_tab = PromptTab, form_uploads = initial_uploads,
          show_reference = gf_reference_image f \<noteq> [], show_controlnet = gf_controlnet_image f \<noteq> []\<rparr>)"

definition edit :: "(form_state \<Rightarrow> form_state) \<Rightarrow> generation_page \<Rightarrow> generation_page" where
  "edit change s = s\<lparr>form := change (form s)\<rparr>"

definition validate :: "generation_page \<Rightarrow> bool \<times> generation_page" where
  "validate s =
     (let errs = form_errors (form s); s1 = s\<lparr>errors := errs\<rparr>
      in if errs \<noteq> []
         then (False, case firstTabWithError errs of None \<Rightarrow> s1 | Some t \<Rightarrow> s1\<lparr>form_tab := t\<rparr>)
         else (True, s1))"

text \<open>The request that is handed to \<open>generate\<close>, if any.\<close>

definition onSubmit ::
  "(string \<Rightarrow> real) \<Rightarrow> string \<Rightarrow> generation_page \<Rightarrow> image_generation_request option \<times> generation_page" where
  "onSubmit number projectId s =
     (case validate s of (ok, s1) \<Rightarrow> (if ok then Some (form_request number projectId (form s1)) else None, s1))"

definition onReset :: "json option \<Rightarrow> string list \<Rightarrow> generation_page \<Rightarrow> generation_page" where
  "onReset prefs models s =
     s\<lparr>form := (with_preferences prefs DEFAULT_FORM)\<lparr>gf_model_name := (case models of [] \<Rightarrow> [] | m # _ \<Rightarrow> m)\<rparr>,
       errors := [], form_uploads := reset_all (form_uploads s)\<rparr>"

definition onUseDefaults :: "json option \<Rightarrow> generation_page \<Rightarrow> generation_page" where
  "onUseDefaults prefs s =
     s\<lparr>form := (with_preferences prefs DEFAULT_FORM)\<lparr>gf_prompt := gf_prompt (form s), gf_model_name := gf_model_name (form s)\<rparr>\<rparr>"

definition onSaveCurrentAsDefault :: "form_state \<Rightarrow> json" where
  "onSaveCurrentAsDefault f =
     js_object
       [(''imggen_default_workflow'', Some (JStr (gf_workflow_type f))), (''imggen_default_width'', Some (JNum (gf_width f))),
        (''imggen_default_height'', Some (JNum (gf_height f))), (''imggen_default_steps'', Some (JNum (gf_steps f))),
        (''imggen_default_cfg_scale'', Some (JNum (gf_cfg_scale f))),
        (''imggen_default_negative_prompt'', map_option JStr (undefined_if_empty (gf_negative_prompt f)))]"


subsection \<open>Images\<close>

fun form_image :: "upload_field \<Rightarrow> form_state \<Rightarrow> string" where
  "form_image InputImage f = gf_input_image f"
| "form_image MaskImage f = gf_mask_image f"
| "form_image TargetImage f = gf_target_image f"
| "form_image ReferenceImage f = gf_reference_image f"
| "form_image ControlnetImage f = gf_controlnet_image f"

fun set_form_image :: "upload_field \<Rightarrow> string \<Rightarrow> form_state \<Rightarrow> form_state" where
  "set_form_image InputImage b f = f\<lparr>gf_input_image := b\<rparr>"
| "set_form_image MaskImage b f = f\<lparr>gf_mask_image := b\<rparr>"
| "set_form_image TargetImage b f = f\<lparr>gf_target_image := b\<rparr>"
| "set_form_image ReferenceImage b f = f\<lparr>gf_reference_image := b\<rparr>"
| "set_form_image ControlnetImage b f = f\<lparr>gf_controlnet_image := b\<rparr>"

definition handleFormUpload :: "upload_field \<Rightarrow> string \<Rightarrow> form_state \<Rightarrow> form_state" where
  "handleFormUpload field base64 f =
     (if field = InputImage then f\<lparr>gf_input_image := base64, gf_mask_image := []\<rparr> else set_form_image field base64 f)"

text \<open>A file that was accepted and read: the uploads and, by the callback, the form.\<close>

definition uploaded :: "upload_file \<Rightarrow> upload_field \<Rightarrow> string \<Rightarrow> generation_page \<Rightarrow> generation_page" where
  "uploaded file field base64 s =
     s\<lparr>form_uploads := file_read file field base64 (form_uploads s), form := handleFormUpload field base64 (form s)\<rparr>"

definition put_preview :: "upload_field \<Rightarrow> string option \<Rightarrow> string option \<Rightarrow> generation_page \<Rightarrow> generation_page" where
  "put_preview field b nm s =
     s\<lparr>form_uploads := (form_uploads s)\<lparr>previews := (previews (form_uploads s))(field := b),
        upload_names := (upload_names (form_uploads s))(field := nm)\<rparr>\<rparr>"

definition handleGallerySelect :: "upload_field \<Rightarrow> string \<Rightarrow> string \<Rightarrow> generation_page \<Rightarrow> generation_page" where
  "handleGallerySelect field base64 filename s =
     put_preview field (Some base64) (Some filename) (edit (handleFormUpload field base64) s)"

definition onMaskChange :: "string \<Rightarrow> generation_page \<Rightarrow> generation_page" where
  "onMaskChange dataUrl s =
     (put_preview MaskImage (Some dataUrl) (Some ''editor-mask.png'') (edit (set_form_image MaskImage dataUrl) s))
       \<lparr>errors := AList.delete ''mask_image'' (errors s)\<rparr>"

definition onMaskClear :: "generation_page \<Rightarrow> generation_page" where
  "onMaskClear s = put_preview MaskImage None None (edit (set_form_image MaskImage []) s)"

definition onReferenceClear :: "generation_page \<Rightarrow> generation_page" where
  "onReferenceClear s =
     (edit (set_form_image ReferenceImage []) s)\<lparr>form_uploads := clear_field ReferenceImage (form_uploads s)\<rparr>"

definition onControlnetClear :: "generation_page \<Rightarrow> generation_page" where
  "onControlnetClear s =
     (edit (\<lambda>f. f\<lparr>gf_controlnet_image := [], gf_controlnet_type := []\<rparr>) s)
       \<lparr>form_uploads := clear_field ControlnetImage (form_uploads s)\<rparr>"

subsection \<open>What is sent is within the limits\<close>

lemma error_if_Nil [simp]: "error_if b k e = [] \<longleftrightarrow> \<not> b"
  by (simp add: error_if_def)

lemma onSubmit_request:
  "fst (onSubmit number projectId s) = Some r \<longleftrightarrow>
     form_errors (form s) = [] \<and> r = form_request number projectId (form s)"
  by (auto simp: onSubmit_def validate_def Let_def)

text \<open>A request that the form sends is within the limits: the sizes, steps, scale, strengths and the batch
  are in their ranges, the prompt is neither blank nor longer than two thousand characters and has no blanks
  around it, it has an input image exactly when the workflow is not from text, a mask exactly for inpainting, a
  target exactly for morphing, none of them blank, and no LoRA without a name.\<close>
theorem sent_request_within_limits:
  assumes "fst (onSubmit number projectId s) = Some r"
  shows "ig_width r \<in> {64..2048} \<and> ig_height r \<in> {64..2048} \<and> ig_steps r \<in> {1..150} \<and> ig_cfg_scale r \<in> {1..30} \<and>
    the (ig_denoise r) \<in> {0..1} \<and> the (ig_morph_strength r) \<in> {0..1} \<and> the (ig_batch_size r) \<in> {1..8} \<and>
    ig_prompt r \<noteq> [] \<and> length (ig_prompt r) \<le> 2000 \<and> trim (ig_prompt r) = ig_prompt r \<and>
    (ig_input_image r = None \<longleftrightarrow> ig_workflow_type r = ''text-to-image'') \<and> ig_input_image r \<noteq> Some [] \<and>
    (ig_mask_image r = None \<longleftrightarrow> ig_workflow_type r \<noteq> ''inpainting'') \<and> ig_mask_image r \<noteq> Some [] \<and>
    (ig_target_image r = None \<longleftrightarrow> ig_workflow_type r \<noteq> ''face-morph'') \<and> ig_target_image r \<noteq> Some [] \<and>
    (\<forall>l \<in> set (the (ig_loras r)). trim (lora_name l) \<noteq> [])"
proof -
  have ok: "form_errors (form s) = []" and r: "r = form_request number projectId (form s)"
    using assms by (simp_all add: onSubmit_request)
  show ?thesis
    using ok unfolding r
    by (simp add: form_errors_def form_request_def Let_def trim_idem spread_if_def list_ex_iff not_less) auto
qed

definition sample_page :: generation_page where
  "sample_page = edit (\<lambda>f. f\<lparr>gf_prompt := '' a cat ''\<rparr>) (initial_page None)"

lemma sample_page_request:
  "fst (onSubmit (\<lambda>_. 0) ''p'' sample_page) = Some (form_request (\<lambda>_. 0) ''p'' (form sample_page))"
  by (simp add: onSubmit_request form_errors_def sample_page_def edit_def initial_page_def with_preferences_def DEFAULT_FORM_def
      trim_def trim_end_by_def white_def Let_def)

lemma sent_request_within_limits_witness:
  "length (ig_prompt (form_request (\<lambda>_. 0) ''p'' (form sample_page))) \<le> 2000 \<and>
   ig_input_image (form_request (\<lambda>_. 0) ''p'' (form sample_page)) = None"
  using sent_request_within_limits [OF sample_page_request]
  by (simp add: form_request_def spread_if_def sample_page_def edit_def initial_page_def with_preferences_def DEFAULT_FORM_def Let_def)

text \<open>A form that is refused opens a tab on which one of its errors is shown: every check belongs to a tab.\<close>

lemma error_keys: "fst ` set (form_errors f) \<subseteq> dom (map_of ERROR_TAB_MAP)"
  by (auto simp: form_errors_def error_if_def ERROR_TAB_MAP_def Let_def split: if_splits)

lemma first_tab_found:
  assumes "(k, e) \<in> set errs" and "map_of ERROR_TAB_MAP k = Some t"
  shows "\<exists>t' k' e'. firstTabWithError errs = Some t' \<and> (k', e') \<in> set errs \<and> map_of ERROR_TAB_MAP k' = Some t'"
proof -
  have "t \<in> set (tabsWithErrors errs)"
    using assms by (force simp: tabsWithErrors_def List.map_filter_def)
  moreover have "t \<in> set [PromptTab, ModelTab, SettingsTab, ImagesTab]" by (cases t) simp_all
  ultimately have "firstTabWithError errs \<noteq> None"
    unfolding firstTabWithError_def by (auto simp: find_None_iff)
  then obtain t' where t': "firstTabWithError errs = Some t'" by blast
  then have "t' \<in> set (tabsWithErrors errs)" unfolding firstTabWithError_def find_Some_iff by blast
  then show ?thesis using t' by (auto simp: tabsWithErrors_def List.map_filter_def split: option.splits if_splits)
qed

lemma refused_form_shows_error:
  assumes "onSubmit number projectId s = (None, s')"
  shows "\<exists>k e. (k, e) \<in> set (errors s') \<and> map_of ERROR_TAB_MAP k = Some (form_tab s')"
proof -
  let ?errs = "form_errors (form s)"
  have "?errs \<noteq> []" using assms by (auto simp: onSubmit_def validate_def Let_def split: if_splits)
  then obtain k e where "(k, e) \<in> set ?errs" by (metis list.set_intros(1) neq_Nil_conv surj_pair)
  then obtain t where "(k, e) \<in> set ?errs" "map_of ERROR_TAB_MAP k = Some t" using error_keys [of "form s"] by force
  from first_tab_found [OF this] obtain t' k' e' where
    "firstTabWithError ?errs = Some t'" "(k', e') \<in> set ?errs" "map_of ERROR_TAB_MAP k' = Some t'" by blast
  moreover from this have "s' = s\<lparr>errors := ?errs, form_tab := t'\<rparr>"
    using assms by (auto simp: onSubmit_def validate_def Let_def split: if_splits)
  ultimately show ?thesis by (intro exI [of _ k'] exI [of _ e']) simp
qed

subsection \<open>What is shown is sent\<close>

text \<open>An image is previewed exactly when the form has one, as long as no image was emptied by its text.\<close>

definition shown_is_sent :: "generation_page \<Rightarrow> bool" where
  "shown_is_sent s \<longleftrightarrow> (\<forall>field. (form_image field (form s) = [] \<longleftrightarrow> previews (form_uploads s) field = None))"

declare set_form_image.simps [simp del]

lemma form_image_set:
  "form_image field (set_form_image field' b f) = (if field = field' then b else form_image field f)"
  by (cases field; cases field') (simp_all add: set_form_image.simps)

lemma form_image_upload:
  "form_image field (handleFormUpload field' b f) =
     (if field = field' then b else if field' = InputImage \<and> field = MaskImage then [] else form_image field f)"
  by (cases field; cases field') (simp_all add: handleFormUpload_def set_form_image.simps)

lemma form_image_controlnet:
  "form_image field (f\<lparr>gf_controlnet_image := [], gf_controlnet_type := []\<rparr>) =
     (if field = ControlnetImage then [] else form_image field f)"
  by (cases field) simp_all

text \<open>Uploads, the mask editor, the buttons that clear, and the reset keep it.\<close>

lemma shown_is_sent_kept:
  assumes "shown_is_sent s" and "b \<noteq> []"
  shows "shown_is_sent (uploaded file field b s)" "shown_is_sent (onMaskChange b s)" "shown_is_sent (onMaskClear s)"
    "shown_is_sent (onReferenceClear s)" "shown_is_sent (onControlnetClear s)"
  using assms
  by (simp_all add: shown_is_sent_def uploaded_def file_read_def form_image_upload onMaskChange_def onMaskClear_def
      put_preview_def edit_def form_image_set onReferenceClear_def onControlnetClear_def clear_field_def form_image_controlnet)

lemma shown_after_reset: "shown_is_sent (onReset prefs models s)"
proof -
  have "form_image field (with_preferences prefs f) = form_image field f" for field f
    by (cases field) (simp_all add: with_preferences_def take_text_def take_number_def split: option.split)
  moreover have "form_image field (f\<lparr>gf_model_name := m\<rparr>) = form_image field f" for field f m
    by (cases field) simp_all
  moreover have "form_image field DEFAULT_FORM = []" for field by (cases field) (simp_all add: DEFAULT_FORM_def)
  ultimately show ?thesis by (simp add: shown_is_sent_def onReset_def reset_all_def initial_uploads_def)
qed

text \<open>Picking the input image from the gallery drops the mask from the form and goes on showing it; the defaults
  drop every image and go on showing them all.\<close>

lemma gallery_pick_keeps_mask_preview:
  assumes "previews (form_uploads s) MaskImage = Some m"
  shows "let s' = handleGallerySelect InputImage b name s
    in gf_mask_image (form s') = [] \<and> previews (form_uploads s') MaskImage = Some m"
  using assms by (simp add: handleGallerySelect_def put_preview_def edit_def handleFormUpload_def)

lemma defaults_keep_previews:
  assumes "previews (form_uploads s) InputImage = Some b"
  shows "let s' = onUseDefaults None s
    in gf_input_image (form s') = [] \<and> previews (form_uploads s') InputImage = Some b"
  using assms by (simp add: onUseDefaults_def with_preferences_def DEFAULT_FORM_def)

end
