(* ===== verification/Page_Texts.thy ===== *)
theory Page_Texts
  imports Hook_Monad Hooks_Content Page_State Filenames
begin

section \<open>Texts that the pages derive\<close>

text \<open>
  The details of an audit entry as the table of the audit log shows them (\<open>sanitizeDetails\<close> of \<^verbatim>\<open>components/admin/audit-log-table.tsx\<close>),
  colours and style variables of the palette page (\<^verbatim>\<open>app/palettes/page.tsx\<close>), machine names of Drupal modules
  (\<^verbatim>\<open>components/drupal/module-scaffold-dialog.tsx\<close>), and the settings of the chunking step
  (\<^verbatim>\<open>components/workspace/kb-builder/step-chunking.tsx\<close>).
\<close>

subsection \<open>Details of an audit entry\<close>

definition SENSITIVE_KEYS :: "string list" where
  "SENSITIVE_KEYS =
     [''token'', ''password'', ''secret'', ''ssn'', ''email'', ''ip'', ''cookie'', ''access_token'', ''refresh_token'',
      ''authorization'', ''auth_token'', ''auth_key'', ''api_key'', ''private_key'', ''credit_card'']"

definition isSensitiveKey :: "string \<Rightarrow> bool" where
  "isSensitiveKey key =
     (let lower = to_lower key
      in lower \<in> set SENSITIVE_KEYS \<or> starts_with lower ''auth'' \<or> ends_with lower ''_token'' \<or>
         ends_with lower ''_secret'' \<or> ends_with lower ''_key'')"

definition redacted :: json where "redacted = JStr ''[REDACTED]''"

definition shorten :: "string \<Rightarrow> string" where
  "shorten s = (if 500 < length s then take 500 s @ ''...[truncated]'' else s)"

text \<open>A member named \<open>__proto__\<close> is outside: the code assigns to it.\<close>

fun sanitizeDetails :: "json \<Rightarrow> json" where
  "sanitizeDetails JNull = JNull"
| "sanitizeDetails (JArr xs) = JArr (map sanitizeDetails xs)"
| "sanitizeDetails (JObj kvs) =
     JObj (map (\<lambda>kv. (fst kv, if isSensitiveKey (fst kv) then redacted else sanitizeDetails (snd kv))) kvs)"
| "sanitizeDetails (JStr s) = JStr (shorten s)"
| "sanitizeDetails v = v"

text \<open>Two values that differ only below sensitive keys.\<close>

inductive publicly_same :: "json \<Rightarrow> json \<Rightarrow> bool" where
  same_leaf: "publicly_same v v"
| same_array: "list_all2 publicly_same xs ys \<Longrightarrow> publicly_same (JArr xs) (JArr ys)"
| same_object:
    "list_all2 (\<lambda>a b. fst a = fst b \<and> (isSensitiveKey (fst a) \<or> publicly_same (snd a) (snd b))) kvs kvs' \<Longrightarrow>
     publicly_same (JObj kvs) (JObj kvs')"

lemma publicly_same_shown: "publicly_same v v' \<Longrightarrow> sanitizeDetails v = sanitizeDetails v'"
proof (induction rule: publicly_same.induct)
  case (same_array xs ys)
  then show ?case by (induction rule: list_all2_induct) simp_all
next
  case (same_object kvs kvs')
  then show ?case by (induction rule: list_all2_induct) auto
qed simp

text \<open>The members of the objects in a value, at any depth.\<close>

fun members_within :: "json \<Rightarrow> (string \<times> json) set" where
  "members_within (JArr xs) = (\<Union>x \<in> set xs. members_within x)"
| "members_within (JObj kvs) = set kvs \<union> (\<Union>kv \<in> set kvs. members_within (snd kv))"
| "members_within v = {}"

lemma members_redacted:
  "(k, v) \<in> members_within (sanitizeDetails j) \<Longrightarrow> isSensitiveKey k \<Longrightarrow> v = redacted"
proof (induction j rule: sanitizeDetails.induct)
  case (3 kvs)
  then show ?case by (fastforce simp: redacted_def split: if_splits)
qed auto

text \<open>C28: the table of the audit log, which prints the details of an entry as \<open>sanitizeDetails\<close> leaves them, gives
  nothing away: of two details that differ only below sensitive keys, at any depth, it prints the same, and every
  member with a sensitive key as redacted.  (The dialog of an entry prints its details as they are.)\<close>
theorem details_reveal_nothing:
  "(publicly_same j j' \<longrightarrow> sanitizeDetails j = sanitizeDetails j') \<and>
   (\<forall>(k, v) \<in> members_within (sanitizeDetails j). isSensitiveKey k \<longrightarrow> v = redacted)"
  using publicly_same_shown members_redacted by auto

definition sample_details :: "string \<Rightarrow> json" where
  "sample_details pw = JObj [(''user'', JStr ''ann''), (''changes'', JArr [JObj [(''Password'', JStr pw)]])]"

lemma details_reveal_nothing_witness:
  "sanitizeDetails (sample_details ''one'') = sanitizeDetails (sample_details ''two'') \<and>
   (''Password'', redacted) \<in> members_within (sanitizeDetails (sample_details ''one''))"
proof -
  have keys: "isSensitiveKey ''Password''" "\<not> isSensitiveKey ''changes''" by code_simp+
  then have "publicly_same (sample_details ''one'') (sample_details ''two'')"
    by (simp add: sample_details_def same_leaf publicly_same.intros)
  then show ?thesis
    using details_reveal_nothing [of "sample_details ''one''" "sample_details ''two''"] keys
    by (simp add: sample_details_def)
qed

text \<open>Showing what is shown changes nothing more.\<close>

lemma shorten_idem: "shorten (shorten s) = shorten s"
  by (simp add: shorten_def)

lemma sanitize_idem: "sanitizeDetails (sanitizeDetails j) = sanitizeDetails j"
proof (induction j rule: sanitizeDetails.induct)
  case (3 kvs)
  then show ?case by (auto simp: redacted_def shorten_def)
qed (simp_all add: shorten_idem)

text \<open>A key that holds a secret under a longer name is shown.\<close>

lemma unredacted_keys:
  "\<not> isSensitiveKey ''new_password''" "\<not> isSensitiveKey ''password_hash''" "\<not> isSensitiveKey ''ip_address''"
  "\<not> isSensitiveKey ''user_email''" "\<not> isSensitiveKey ''session_cookie''"
  by code_simp+

subsection \<open>Colours\<close>

definition hex_char :: "char \<Rightarrow> bool" where
  "hex_char c \<longleftrightarrow> c \<in> set ''0123456789abcdefABCDEF''"

definition normalizeHex :: "string \<Rightarrow> string" where
  "normalizeHex value =
     (let v = trim value; hexOnly = (if starts_with v ''#'' then tl v else v)
      in if v = [] then ''#000000''
         else if \<not> (list_all hex_char hexOnly \<and> length hexOnly \<in> {3, 6}) then ''#000000''
         else if length hexOnly = 3 then to_lower (''#'' @ concat (map (\<lambda>ch. [ch, ch]) hexOnly))
         else ''#'' @ to_lower hexOnly)"

definition css_color :: "string \<Rightarrow> bool" where
  "css_color s \<longleftrightarrow> length s = 7 \<and> hd s = CHR ''#'' \<and> list_all (\<lambda>c. c \<in> set ''0123456789abcdef'') (tl s)"

lemma hex_lower: "hex_char c \<Longrightarrow> to_lower_char c \<in> set ''0123456789abcdef''"
proof -
  have "list_all (\<lambda>c. to_lower_char c \<in> set ''0123456789abcdef'') ''0123456789abcdefABCDEF''" by code_simp
  then show "hex_char c \<Longrightarrow> ?thesis" unfolding hex_char_def list_all_iff by blast
qed

lemma to_lower_append [simp]: "to_lower (s @ t) = to_lower s @ to_lower t"
  by (simp add: to_lower_def)

lemma normalizeHex_color: "css_color (normalizeHex v)"
proof -
  have black: "css_color ''#000000''" by code_simp
  have "to_lower_char CHR ''#'' = CHR ''#''" by code_simp
  then have hash: "to_lower (CHR ''#'' # t) = CHR ''#'' # to_lower t" for t by (simp add: to_lower_def)
  have "css_color (''#'' @ to_lower h)" if "list_all hex_char h" "length h = 6" for h
    using that hex_lower by (simp add: css_color_def list_all_iff to_lower_def)
  moreover have "css_color (''#'' @ to_lower (concat (map (\<lambda>ch. [ch, ch]) h)))" if "list_all hex_char h" "length h = 3" for h
  proof -
    have "length (concat (map (\<lambda>ch. [ch, ch]) h)) = 6"
      using that(2) by (auto simp: numeral_3_eq_3 length_Suc_conv)
    then show ?thesis using that(1) hex_lower by (auto simp: css_color_def list_all_iff to_lower_def)
  qed
  ultimately show ?thesis using black hash by (simp add: normalizeHex_def Let_def)
qed


text \<open>\<open>replace(/[^...]+/g, r)\<close>: every run of characters that are not allowed becomes one \<open>r\<close>.\<close>

fun replace_runs :: "(char \<Rightarrow> bool) \<Rightarrow> char \<Rightarrow> bool \<Rightarrow> string \<Rightarrow> string" where
  "replace_runs ok r inside [] = []"
| "replace_runs ok r inside (c # s) =
     (if ok c then c # replace_runs ok r False s
      else if inside then replace_runs ok r True s else r # replace_runs ok r True s)"

lemma replace_runs_ok: "c \<in> set (replace_runs ok r inside s) \<Longrightarrow> ok c \<or> c = r"
  by (induction ok r inside s rule: replace_runs.induct) (auto split: if_splits)

lemma replace_runs_same: "list_all ok s \<Longrightarrow> replace_runs ok r inside s = s"
  by (induction s arbitrary: inside) simp_all

definition lower_or_digit :: "char \<Rightarrow> bool" where
  "lower_or_digit c \<longleftrightarrow> c \<in> set ''abcdefghijklmnopqrstuvwxyz0123456789''"

definition role_char :: "char \<Rightarrow> bool" where
  "role_char c \<longleftrightarrow> lower_or_digit c \<or> c = CHR ''-''"

record palette_color =
  hex :: string
  color_name :: "string option"
  color_role :: "string option"

definition css_role :: "nat \<Rightarrow> palette_color \<Rightarrow> string" where
  "css_role i c =
     replace_runs role_char CHR ''-'' False
       (to_lower (or_string (color_role c) (or_string (color_name c) (''color-'' @ show_nat (Suc i)))))"

definition css_line :: "nat \<Rightarrow> palette_color \<Rightarrow> string" where
  "css_line i c = ''  --'' @ css_role i c @ '': '' @ normalizeHex (hex c) @ '';''"

definition new_line :: char where "new_line = char_of (10::nat)"

definition toCssVariables :: "palette_color list \<Rightarrow> string" where
  "toCssVariables colors =
     join [new_line] ('':root {'' # map (\<lambda>(i, c). css_line i c) (enumerate 0 colors) @ [''}''])"

lemma role_chars: "list_all role_char (css_role i c)"
  using replace_runs_ok by (fastforce simp: css_role_def list_all_iff role_char_def)

lemma css_line_single: "new_line \<notin> set (css_line i c)"
proof -
  have "\<not> role_char new_line" "new_line \<notin> set ''0123456789abcdef''" by code_simp+
  then have "new_line \<notin> set (css_role i c)" "new_line \<notin> set (tl (normalizeHex (hex c)))"
    using role_chars [of i c] normalizeHex_color [of "hex c"] by (auto simp: list_all_iff css_color_def)
  moreover have "normalizeHex (hex c) = CHR ''#'' # tl (normalizeHex (hex c))"
    using normalizeHex_color [of "hex c"] by (cases "normalizeHex (hex c)") (auto simp: css_color_def)
  then have "set (normalizeHex (hex c)) = insert CHR ''#'' (set (tl (normalizeHex (hex c))))" by (metis list.simps(15))
  moreover have "new_line \<notin> set ''  --'' \<union> set '': '' \<union> set '';''" "new_line \<noteq> CHR ''#''" by code_simp+
  ultimately show ?thesis unfolding css_line_def set_append by blast
qed

lemma split_join_lines:
  "ls \<noteq> [] \<Longrightarrow> \<forall>l \<in> set ls. c \<notin> set l \<Longrightarrow> split_on c (join [c] ls) = ls"
proof (induction ls)
  case (Cons l ls)
  then show ?case by (cases ls) (simp_all add: split_on_no_sep)
qed simp

text \<open>Whatever is typed as the colours of a palette, the style sheet that is copied has one line per colour
  between its brackets, and a line is one variable with a colour: its name consists of letters, digits and
  dashes and its value is a number sign with six hexadecimal digits, so that no text of a user can end the
  declaration or the block.\<close>
theorem css_variables_well_formed:
  "split_on new_line (toCssVariables colors) =
     '':root {'' # map (\<lambda>(i, c). ''  --'' @ css_role i c @ '': '' @ normalizeHex (hex c) @ '';'') (enumerate 0 colors) @ [''}''] \<and>
   (\<forall>i. \<forall>c \<in> set colors. list_all role_char (css_role i c) \<and> css_color (normalizeHex (hex c)))"
proof -
  have "new_line \<notin> set '':root {''" "new_line \<notin> set ''}''" by code_simp+
  then show ?thesis
    unfolding toCssVariables_def
    using css_line_single role_chars normalizeHex_color
    by (subst split_join_lines) (auto simp: css_line_def)
qed

definition sample_color :: palette_color where
  "sample_color = \<lparr>hex = ''#ABC'', color_name = None, color_role = Some ''Brand } body {''\<rparr>"

lemma css_variables_well_formed_witness:
  "split_on new_line (toCssVariables [sample_color]) = ['':root {'', ''  --brand-body-: #aabbcc;'', ''}''] \<and>
   list_all role_char ''brand-body-'' \<and> css_color ''#aabbcc''"
proof -
  have shown: "css_role 0 sample_color = ''brand-body-''" "normalizeHex (hex sample_color) = ''#aabbcc''" by code_simp+
  have "sample_color \<in> set [sample_color]" by simp
  with css_variables_well_formed [of "[sample_color]"] have
    "list_all role_char (css_role 0 sample_color)" "css_color (normalizeHex (hex sample_color))"
    "split_on new_line (toCssVariables [sample_color]) =
      ['':root {'', ''  --'' @ css_role 0 sample_color @ '': '' @ normalizeHex (hex sample_color) @ '';'', ''}'']"
    by simp_all
  then show ?thesis unfolding shown by simp
qed

subsection \<open>The palette page\<close>

record palette_page =
  selected_palette :: "string option"
  pp_name :: string
  pp_description :: string
  pp_tags :: string
  pp_colors :: "palette_color list"
  pp_msg :: "string option"

definition plain_color :: "string \<Rightarrow> string \<Rightarrow> palette_color" where
  "plain_color h role = \<lparr>hex = h, color_name = None, color_role = Some role\<rparr>"

definition clearEditor :: palette_page where
  "clearEditor =
     \<lparr>selected_palette = None, pp_name = [], pp_description = [], pp_tags = [],
      pp_colors = [plain_color ''#0f172a'' ''text'', plain_color ''#f8fafc'' ''background'', plain_color ''#2563eb'' ''primary''],
      pp_msg = None\<rparr>"

text \<open>A saved palette: its number, name, description, tags and colours.\<close>

record saved_palette =
  sp_id :: string
  sp_name :: string
  sp_description :: "string option"
  sp_tags :: "string list"
  sp_colors :: "palette_color list"

definition loadPalette :: "saved_palette list \<Rightarrow> string \<Rightarrow> palette_page \<Rightarrow> palette_page" where
  "loadPalette palettes k s =
     (case find (\<lambda>p. sp_id p = k) palettes of None \<Rightarrow> s
      | Some p \<Rightarrow>
          \<lparr>selected_palette = Some (sp_id p), pp_name = sp_name p, pp_description = nullish (sp_description p) [],
           pp_tags = join '', '' (sp_tags p), pp_colors = map (\<lambda>c. c\<lparr>hex := normalizeHex (hex c)\<rparr>) (sp_colors p),
           pp_msg = None\<rparr>)"

definition tags_of :: "string \<Rightarrow> string list" where
  "tags_of tags = filter (\<lambda>t. t \<noteq> []) (map trim (split_on CHR '','' tags))"

definition trimmed_or_undefined :: "string option \<Rightarrow> string option" where
  "trimmed_or_undefined x = (case map_option trim x of None \<Rightarrow> None | Some t \<Rightarrow> if t = [] then None else Some t)"

definition color_payload :: "palette_color \<Rightarrow> json" where
  "color_payload c =
     js_object
       [(''hex'', Some (JStr (normalizeHex (hex c)))),
        (''name'', map_option JStr (trimmed_or_undefined (color_name c))),
        (''role'', map_option JStr (trimmed_or_undefined (color_role c)))]"

definition palette_payload :: "palette_page \<Rightarrow> json" where
  "palette_payload s =
     js_object
       [(''name'', Some (JStr (trim (pp_name s)))),
        (''description'', map_option JStr (trimmed_or_undefined (Some (pp_description s)))),
        (''tags'', Some (JArr (map JStr (tags_of (pp_tags s))))),
        (''colors'', Some (JArr (map color_payload (pp_colors s))))]"

text \<open>With the hook and the client behind it; the answer of \<open>updatePalette\<close> and \<open>createPalette\<close> is looked at as
  a truth value, an exception gives a message of its own.\<close>

definition answer_truthy :: "json option option \<Rightarrow> bool" where
  "answer_truthy v = (case v of Some (Some j) \<Rightarrow> j \<noteq> JNull | _ \<Rightarrow> False)"

definition savePalette :: "env \<Rightarrow> palette_page \<Rightarrow> hook \<times> http \<Rightarrow> palette_page \<times> hook \<times> http" where
  "savePalette env s w =
     (if trim (pp_name s) = [] \<or> pp_colors s = []
      then (s\<lparr>pp_msg := Some ''Name and at least one color are required.''\<rparr>, w)
      else case selected_palette s of
        Some k \<Rightarrow>
          (case usePalettes_updatePalette env k (palette_payload s) w of
             (Inl e, w1) \<Rightarrow> (s\<lparr>pp_msg := Some ''Failed to save palette.''\<rparr>, w1)
           | (Inr v, w1) \<Rightarrow>
               (s\<lparr>pp_msg := Some (if answer_truthy v then ''Palette updated.'' else ''Failed to update palette.'')\<rparr>, w1))
      | None \<Rightarrow>
          (case usePalettes_createPalette env (palette_payload s) w of
             (Inl e, w1) \<Rightarrow> (s\<lparr>pp_msg := Some ''Failed to save palette.''\<rparr>, w1)
           | (Inr v, w1) \<Rightarrow>
               (if answer_truthy v
                then s\<lparr>selected_palette := as_string (member (the (the v)) ''id''), pp_msg := Some ''Palette created.''\<rparr>
                else s\<lparr>pp_msg := Some ''Failed to create palette.''\<rparr>, w1)))"

definition removePalette :: "env \<Rightarrow> palette_page \<Rightarrow> hook \<times> http \<Rightarrow> palette_page \<times> hook \<times> http" where
  "removePalette env s w =
     (case selected_palette s of None \<Rightarrow> (s, w)
      | Some k \<Rightarrow>
          (case usePalettes_deletePalette env k w of
             (Inr True, w1) \<Rightarrow> (clearEditor\<lparr>pp_msg := Some ''Palette deleted.''\<rparr>, w1)
           | (_, w1) \<Rightarrow> (s\<lparr>pp_msg := Some ''Failed to delete palette.''\<rparr>, w1)))"

definition edit_color :: "nat \<Rightarrow> (palette_color \<Rightarrow> palette_color) \<Rightarrow> palette_page \<Rightarrow> palette_page" where
  "edit_color i change s = s\<lparr>pp_colors := (pp_colors s)[i := change (pp_colors s ! i)]\<rparr>"

definition add_color :: "palette_page \<Rightarrow> palette_page" where
  "add_color s = s\<lparr>pp_colors := pp_colors s @ [\<lparr>hex = ''#000000'', color_name = None, color_role = None\<rparr>]\<rparr>"

definition remove_color :: "nat \<Rightarrow> palette_page \<Rightarrow> palette_page" where
  "remove_color i s = s\<lparr>pp_colors := take i (pp_colors s) @ drop (Suc i) (pp_colors s)\<rparr>"

text \<open>Tags without commas and surrounding blanks survive the field that they are edited in.\<close>

lemma trim_blank [simp]: "trim (CHR '' '' # t) = trim t"
  by (simp add: trim_def white_def)

lemma split_tags:
  "\<forall>t \<in> set ts. CHR '','' \<notin> set t \<Longrightarrow> ts \<noteq> [] \<Longrightarrow>
   split_on CHR '','' (join '', '' ts) = hd ts # map ((#) CHR '' '') (tl ts)"
proof (induction ts)
  case (Cons t ts)
  show ?case
  proof (cases ts)
    case (Cons u us)
    then have "split_on CHR '','' (join '', '' (u # us)) = u # map ((#) CHR '' '') us"
      using Cons.IH Cons.prems by simp
    then have "split_on CHR '','' (CHR '' '' # join '', '' (u # us)) = (CHR '' '' # u) # map ((#) CHR '' '') us" by simp
    then show ?thesis using Cons Cons.prems by (simp add: split_on_no_sep)
  qed (use Cons.prems in \<open>simp add: split_on_no_sep\<close>)
qed simp

lemma tags_survive:
  assumes "\<forall>t \<in> set ts. t \<noteq> [] \<and> trim t = t \<and> CHR '','' \<notin> set t"
  shows "tags_of (join '', '' ts) = ts"
proof (cases ts)
  case Nil
  then show ?thesis by (simp add: tags_of_def trim_def trim_end_by_def)
next
  case (Cons t us)
  have "map trim us = us" "filter (\<lambda>t. t \<noteq> []) us = us"
    using assms by (auto simp: Cons map_idI filter_id_conv)
  then show ?thesis using assms split_tags [of ts] by (simp add: Cons tags_of_def comp_def)
qed


subsection \<open>Machine names\<close>

fun collapse :: "char \<Rightarrow> bool \<Rightarrow> string \<Rightarrow> string" where
  "collapse x inside [] = []"
| "collapse x inside (c # s) =
     (if c \<noteq> x then c # collapse x False s else if inside then collapse x True s else x # collapse x True s)"

definition digit_char :: "char \<Rightarrow> bool" where
  "digit_char c \<longleftrightarrow> c \<in> set ''0123456789''"

definition lower_letter :: "char \<Rightarrow> bool" where
  "lower_letter c \<longleftrightarrow> c \<in> set ''abcdefghijklmnopqrstuvwxyz''"

definition strip_char :: "char \<Rightarrow> string \<Rightarrow> string" where
  "strip_char x s = trim_end_by (\<lambda>c. c = x) (dropWhile (\<lambda>c. c = x) s)"

definition nameToMachine :: "string \<Rightarrow> string" where
  "nameToMachine name =
     dropWhile digit_char (collapse CHR ''_'' False (strip_char CHR ''_''
       (replace_runs lower_or_digit CHR ''_'' False (to_lower name))))"

text \<open>What is typed as a machine name.\<close>

definition typed_machine_name :: "string \<Rightarrow> string" where
  "typed_machine_name value =
     dropWhile (\<lambda>c. digit_char c \<or> c = CHR ''_'') (filter (\<lambda>c. lower_or_digit c \<or> c = CHR ''_'') value)"

text \<open>\<open>^[a-z][a-z0-9_]*$\<close>, which the input and the server ask for.\<close>

definition machine_name_ok :: "string \<Rightarrow> bool" where
  "machine_name_ok s \<longleftrightarrow> s \<noteq> [] \<and> lower_letter (hd s) \<and> list_all (\<lambda>c. lower_or_digit c \<or> c = CHR ''_'') s"

record scaffold_dialog =
  sd_machine_name :: string
  sd_name :: string
  sd_description :: string
  sd_package :: string
  sd_loading :: bool
  sd_error :: "string option"

definition handleNameChange :: "string \<Rightarrow> scaffold_dialog \<Rightarrow> scaffold_dialog" where
  "handleNameChange val s =
     (let s1 = s\<lparr>sd_name := val\<rparr>
      in if sd_machine_name s = [] \<or> sd_machine_name s = nameToMachine (sd_name s)
         then s1\<lparr>sd_machine_name := nameToMachine val\<rparr> else s1)"

text \<open>What is sent, if anything, and the dialog after the start and after the answer.\<close>

definition scaffold_request :: "scaffold_dialog \<Rightarrow> json option" where
  "scaffold_request s =
     (if trim (sd_machine_name s) = [] \<or> trim (sd_name s) = [] then None
      else Some (js_object
        [(''machine_name'', Some (JStr (trim (sd_machine_name s)))), (''name'', Some (JStr (trim (sd_name s)))),
         (''description'', map_option JStr (trimmed_or_undefined (Some (sd_description s)))),
         (''package'', map_option JStr (trimmed_or_undefined (Some (sd_package s))))]))"

definition scaffold_answered :: "string option + unit \<Rightarrow> scaffold_dialog \<Rightarrow> scaffold_dialog" where
  "scaffold_answered r s =
     (case r of
        Inl message \<Rightarrow> s\<lparr>sd_error := Some (or_string message ''Scaffold failed''), sd_loading := False\<rparr>
      | Inr _ \<Rightarrow> s\<lparr>sd_machine_name := [], sd_name := [], sd_description := [], sd_package := ''Custom'', sd_loading := False\<rparr>)"

lemma letters_and_digits: "lower_or_digit c \<longleftrightarrow> lower_letter c \<or> digit_char c"
  by (auto simp: lower_or_digit_def lower_letter_def digit_char_def)

lemma hd_dropWhile_not: "dropWhile P s \<noteq> [] \<Longrightarrow> \<not> P (hd (dropWhile P s))"
  by (induction s) auto

text \<open>A typed machine name is empty or one that the server takes; one that is derived from a name that starts
  with a number may not be.\<close>

lemma typed_machine_name_valid:
  "typed_machine_name v = [] \<or> machine_name_ok (typed_machine_name v)"
proof (cases "typed_machine_name v = []")
  case False
  let ?f = "filter (\<lambda>c. lower_or_digit c \<or> c = CHR ''_'') v"
  have "set (typed_machine_name v) \<subseteq> set ?f" unfolding typed_machine_name_def by (meson set_dropWhileD subsetI)
  then have all: "c \<in> set (typed_machine_name v) \<Longrightarrow> lower_or_digit c \<or> c = CHR ''_''" for c by auto
  have "hd (typed_machine_name v) \<in> set (typed_machine_name v)" using False by simp
  from all [OF this] have "lower_letter (hd (typed_machine_name v))"
    using hd_dropWhile_not [of "\<lambda>c. digit_char c \<or> c = CHR ''_''" ?f] False
    by (auto simp: typed_machine_name_def letters_and_digits)
  then show ?thesis using False all by (simp add: machine_name_ok_def list_all_iff)
qed simp

lemma derived_machine_name_refused:
  "nameToMachine ''2 Fast'' = ''_fast''" "\<not> machine_name_ok (nameToMachine ''2 Fast'')"
  by code_simp+

subsection \<open>Settings of the chunks\<close>

record chunk_settings =
  chunk_size :: int
  chunk_overlap :: int

definition CHUNK_PRESETS :: "(string \<times> int \<times> int) list" where
  "CHUNK_PRESETS =
     [(''book'', 500, 50), (''tech'', 300, 30), (''research'', 400, 40), (''faq'', 150, 15), (''custom'', 0, 0)]"

definition detectPreset :: "chunk_settings \<Rightarrow> string" where
  "detectPreset settings =
     (case find (\<lambda>(k, len, overlap). k \<noteq> ''custom'' \<and> len = chunk_size settings \<and> overlap = chunk_overlap settings) CHUNK_PRESETS of
        None \<Rightarrow> ''custom'' | Some (k, _) \<Rightarrow> k)"

definition handlePresetClick :: "string \<times> int \<times> int \<Rightarrow> chunk_settings \<Rightarrow> string \<times> chunk_settings" where
  "handlePresetClick preset s =
     (case preset of (k, len, overlap) \<Rightarrow>
        (k, if k \<noteq> ''custom'' then s\<lparr>chunk_size := len, chunk_overlap := overlap\<rparr> else s))"

definition handleSliderChange :: "int option \<Rightarrow> int option \<Rightarrow> chunk_settings \<Rightarrow> string \<times> chunk_settings" where
  "handleSliderChange newSize newOverlap s =
     (let merged = s\<lparr>chunk_size := nullish newSize (chunk_size s), chunk_overlap := nullish newOverlap (chunk_overlap s)\<rparr>;
          maxOverlap = chunk_size merged div 2
      in (''custom'', if maxOverlap < chunk_overlap merged then merged\<lparr>chunk_overlap := maxOverlap\<rparr> else merged))"

definition overlap_ok :: "chunk_settings \<Rightarrow> bool" where
  "overlap_ok s \<longleftrightarrow> 0 \<le> chunk_overlap s \<and> 2 * chunk_overlap s \<le> chunk_size s"

lemma chunk_changes_ok:
  assumes "overlap_ok s" and "0 \<le> nullish newSize (chunk_size s)" and "0 \<le> nullish newOverlap (chunk_overlap s)"
  shows "overlap_ok (snd (handleSliderChange newSize newOverlap s))"
    "p \<in> set CHUNK_PRESETS \<Longrightarrow> overlap_ok (snd (handlePresetClick p s))"
  using assms by (auto simp: overlap_ok_def handleSliderChange_def handlePresetClick_def CHUNK_PRESETS_def Let_def)

lemma detected_preset:
  "p \<in> set CHUNK_PRESETS \<Longrightarrow> fst p \<noteq> ''custom'' \<Longrightarrow> detectPreset (snd (handlePresetClick p s)) = fst p"
  by (auto simp: detectPreset_def handlePresetClick_def CHUNK_PRESETS_def)

text \<open>The text that is previewed: that of the chosen file, else of the first; none when it is empty.\<close>

definition preview_text :: "(string \<times> string) list \<Rightarrow> string \<Rightarrow> string option" where
  "preview_text extractions previewFileId =
     (let t = (case if previewFileId = [] then None else map_of extractions previewFileId of
          Some x \<Rightarrow> x
        | None \<Rightarrow> (case extractions of [] \<Rightarrow> [] | e # _ \<Rightarrow> snd e))
      in if t = [] then None else Some t)"

end
