(* ===== verification/Subtitles.thy ===== *)
theory Subtitles
  imports Studio_Store
begin

section \<open>Subtitles\<close>

text \<open>
  \<^verbatim>\<open>components/studio/subtitle-editor.tsx\<close>, on the actions of the studio store: adding a subtitle, the
  transcription of a media file, and the text of a time.  The callbacks see the tracks of the rendering
  that they were made in, and the state of the store when they run.
\<close>

subsection \<open>Clips and tracks\<close>

definition no_properties :: clip_properties where
  "no_properties =
     \<lparr>opacity = None, volume = None, position = None, scale = None, text_content = None, font_family = None,
      font_size = None, text_color = None, link_url = None, link_label = None, subtitle_text = None,
      subtitle_style_of = None, background_opacity = None\<rparr>"

definition subtitle_clip :: "string \<Rightarrow> real \<Rightarrow> real \<Rightarrow> string \<Rightarrow> timeline_clip" where
  "subtitle_clip k start len words =
     \<lparr>clip_id = k, clip_kind = Subtitle, media_asset_id = None, start_time = start, clip_duration = len,
      trim_start = None, trim_end = None,
      properties = no_properties\<lparr>subtitle_text := Some words, font_size := Some 24, text_color := Some ''#FFFFFF'',
        subtitle_style_of := Some BottomCenter, background_opacity := Some (1 / 2)\<rparr>\<rparr>"

definition is_subtitle_track :: "timeline_track \<Rightarrow> bool" where
  "is_subtitle_track t \<longleftrightarrow> track_kind t = Subtitle"

text \<open>The list of the editor: the clips of the subtitle tracks by their start; the sort is stable.\<close>

definition subtitle_clips :: "timeline_track list \<Rightarrow> timeline_clip list" where
  "subtitle_clips ts = concat (map clips (filter is_subtitle_track ts))"

definition allSubtitleClips :: "timeline_track list \<Rightarrow> timeline_clip list" where
  "allSubtitleClips ts = sort_key start_time (subtitle_clips ts)"

definition transcribableAssets :: "media_asset list \<Rightarrow> media_asset list" where
  "transcribableAssets = filter (\<lambda>a. media_type a = AssetVideo \<or> media_type a = AssetAudio)"

text \<open>\<open>ensureSubtitleTrack\<close>: the first subtitle track that was rendered, else a new one, and its number.\<close>

definition ensureSubtitleTrack :: "timeline_track list \<Rightarrow> string \<Rightarrow> studio_state \<Rightarrow> string \<times> studio_state" where
  "ensureSubtitleTrack seen uuid s =
     (case find is_subtitle_track seen of
        Some t \<Rightarrow> (track_id t, s)
      | None \<Rightarrow>
          let s1 = add_track uuid Subtitle (Some ''Subtitles'') s
          in (case find is_subtitle_track (tracks (timeline s1)) of None \<Rightarrow> [] | Some t \<Rightarrow> track_id t, s1))"

definition later :: "real \<Rightarrow> timeline_clip \<Rightarrow> real" where
  "later startTime c = (let e = start_time c + clip_duration c in if startTime < e then e else startTime)"

definition after_track :: "real \<Rightarrow> timeline_track \<Rightarrow> real" where
  "after_track startTime t = (if track_kind t \<noteq> Subtitle then startTime else foldl later startTime (clips t))"

definition end_of_subtitles :: "studio_state \<Rightarrow> real" where
  "end_of_subtitles s = foldl after_track 0 (tracks (timeline s))"

definition addSubtitleClip :: "timeline_track list \<Rightarrow> string \<Rightarrow> string \<Rightarrow> studio_state \<Rightarrow> studio_state" where
  "addSubtitleClip seen uuid1 uuid2 s =
     (case ensureSubtitleTrack seen uuid1 s of (trackId, s1) \<Rightarrow>
        if trackId = [] then s1
        else add_clip trackId (subtitle_clip (generate_clip_id uuid2) (end_of_subtitles s1) 3 ''New subtitle'') s1)"

text \<open>The inputs of a row of the list, which see the clip that was rendered, and its button.\<close>

datatype subtitle_edit = RowText string | RowStart "real option" | RowDuration "real option"

definition row_updates :: "timeline_clip \<Rightarrow> subtitle_edit \<Rightarrow> clip_updates" where
  "row_updates c e =
     (case e of
        RowText t \<Rightarrow> no_updates\<lparr>upd_properties := Some ((properties c)\<lparr>subtitle_text := Some t\<rparr>)\<rparr>
      | RowStart x \<Rightarrow> no_updates\<lparr>upd_start_time := Some (or_number x 0)\<rparr>
      | RowDuration x \<Rightarrow> no_updates\<lparr>upd_duration := Some (or_number x (1 / 10))\<rparr>)"

definition editSubtitle :: "string \<Rightarrow> timeline_clip \<Rightarrow> subtitle_edit \<Rightarrow> studio_state \<Rightarrow> studio_state" where
  "editSubtitle trackId c e s = update_clip trackId (clip_id c) (row_updates c e) s"

definition deleteSubtitle :: "string \<Rightarrow> timeline_clip \<Rightarrow> studio_state \<Rightarrow> studio_state" where
  "deleteSubtitle trackId c s = remove_clip trackId (clip_id c) s"

subsection \<open>Transcription\<close>

record segment =
  seg_start :: real
  seg_end :: real
  seg_text :: string

record subtitle_editor =
  transcribing :: bool
  selected_asset :: string
  editor_error :: "string option"

text \<open>The path that is fetched; the project and the asset are put into it as they are.\<close>

definition transcribe_path :: "string \<Rightarrow> string \<Rightarrow> string" where
  "transcribe_path projectId assetId =
     ''/api/studio/projects/'' @ projectId @ ''/transcribe?media_asset_id='' @ assetId"

definition start_transcription :: "subtitle_editor \<Rightarrow> bool \<times> subtitle_editor" where
  "start_transcription e =
     (if selected_asset e = [] then (False, e) else (True, e\<lparr>transcribing := True, editor_error := None\<rparr>))"

text \<open>The answer: the message of an exception, or the segments, with the numbers for the track and the clips.\<close>

definition transcription_answered ::
  "timeline_track list \<Rightarrow> string \<Rightarrow> (nat \<Rightarrow> string) \<Rightarrow> string option + segment list \<Rightarrow>
   subtitle_editor \<times> studio_state \<Rightarrow> subtitle_editor \<times> studio_state" where
  "transcription_answered seen uuid uuids r w =
     (case w of (e, s) \<Rightarrow>
        case r of
          Inl message \<Rightarrow> (e\<lparr>editor_error := Some (or_string message ''Transcription failed''), transcribing := False\<rparr>, s)
        | Inr segments \<Rightarrow>
            if segments = [] then (e\<lparr>editor_error := Some ''No speech detected in the audio'', transcribing := False\<rparr>, s)
            else (e\<lparr>transcribing := False\<rparr>,
              case ensureSubtitleTrack seen uuid s of (trackId, s1) \<Rightarrow>
                if trackId = [] then s1
                else fold (\<lambda>(i, seg). add_clip trackId
                    (subtitle_clip (generate_clip_id (uuids i)) (seg_start seg) (seg_end seg - seg_start seg) (seg_text seg)))
                  (enumerate 0 segments) s1))"

subsection \<open>A new subtitle comes after all others\<close>

lemma later_bounds: "x \<le> foldl later x cs \<and> (\<forall>c \<in> set cs. start_time c + clip_duration c \<le> foldl later x cs)"
proof (induction cs arbitrary: x)
  case (Cons c cs)
  have "x \<le> later x c" "start_time c + clip_duration c \<le> later x c" by (simp_all add: later_def Let_def)
  then show ?case using Cons [of "later x c"] by auto
qed simp

lemma end_of_subtitles_bounds:
  "0 \<le> end_of_subtitles s \<and>
   (\<forall>c \<in> set (subtitle_clips (tracks (timeline s))). start_time c + clip_duration c \<le> end_of_subtitles s)"
proof -
  have "x \<le> foldl after_track x ts \<and>
      (\<forall>c \<in> set (subtitle_clips ts). start_time c + clip_duration c \<le> foldl after_track x ts)" for x ts
  proof (induction ts arbitrary: x)
    case (Cons t ts)
    have "x \<le> after_track x t"
      and here: "is_subtitle_track t \<Longrightarrow> c \<in> set (clips t) \<Longrightarrow> start_time c + clip_duration c \<le> after_track x t" for c
      using later_bounds [of x "clips t"] by (auto simp: is_subtitle_track_def after_track_def)
    moreover have rest: "after_track x t \<le> foldl after_track (after_track x t) ts"
      "\<forall>c \<in> set (subtitle_clips ts). start_time c + clip_duration c \<le> foldl after_track (after_track x t) ts"
      using Cons [of "after_track x t"] by blast+
    moreover have "set (subtitle_clips (t # ts)) = (if is_subtitle_track t then set (clips t) else {}) \<union> set (subtitle_clips ts)"
      by (simp add: subtitle_clips_def)
    ultimately show ?case by (auto split: if_splits intro: order_trans)
  qed (simp add: subtitle_clips_def)
  then show ?thesis unfolding end_of_subtitles_def by blast
qed

lemma found: "find P xs = Some t \<Longrightarrow> t \<in> set xs \<and> P t"
  by (auto simp: find_Some_iff)

lemma subtitle_clips_append: "subtitle_clips (ts @ us) = subtitle_clips ts @ subtitle_clips us"
  by (simp add: subtitle_clips_def)

lemma subtitle_clips_add:
  assumes "distinct (map track_id ts)" and "t \<in> set ts" and "is_subtitle_track t"
  shows "set (subtitle_clips (map_where track_id (track_id t) (\<lambda>t. t\<lparr>clips := clips t @ [c]\<rparr>) ts)) =
    insert c (set (subtitle_clips ts))"
  using assms
proof (induction ts)
  case (Cons u us)
  show ?case
  proof (cases "u = t")
    case True
    then have "track_id t \<notin> track_id ` set us" using Cons.prems by simp
    then have "map_where track_id (track_id t) (\<lambda>t. t\<lparr>clips := clips t @ [c]\<rparr>) us = us"
      by (simp add: map_where_absent)
    then show ?thesis using True Cons.prems(3) by (auto simp: subtitle_clips_def is_subtitle_track_def map_where_simps)
  next
    case False
    then have "t \<in> set us" "track_id u \<noteq> track_id t" using Cons.prems by auto
    then show ?thesis using Cons by (auto simp: subtitle_clips_def map_where_simps)
  qed
qed simp

lemma ensured_track:
  assumes "ensureSubtitleTrack (tracks (timeline s)) uuid s = (k, s1)"
    and "distinct (map track_id (tracks (timeline s)))" and "next_track_id uuid \<notin> track_id ` set (tracks (timeline s))"
  shows "\<exists>t \<in> set (tracks (timeline s1)). track_id t = k \<and> is_subtitle_track t" "distinct (map track_id (tracks (timeline s1)))"
    "subtitle_clips (tracks (timeline s1)) = subtitle_clips (tracks (timeline s))"
proof -
  show "\<exists>t \<in> set (tracks (timeline s1)). track_id t = k \<and> is_subtitle_track t"
  proof (cases "find is_subtitle_track (tracks (timeline s))")
    case (Some t)
    then show ?thesis using assms(1) found [OF Some] by (auto simp: ensureSubtitleTrack_def)
  next
    case None
    let ?s1 = "add_track uuid Subtitle (Some ''Subtitles'') s"
    have "find is_subtitle_track (tracks (timeline ?s1)) \<noteq> None"
      by (simp add: add_track_def edit_tracks_def find_None_iff is_subtitle_track_def ex_disj_distrib conj_disj_distribR)
    then obtain t where "find is_subtitle_track (tracks (timeline ?s1)) = Some t" by blast
    moreover from found [OF this] have "t \<in> set (tracks (timeline ?s1))" "is_subtitle_track t" by blast+
    moreover have "k = track_id t \<and> s1 = ?s1" if "find is_subtitle_track (tracks (timeline ?s1)) = Some t" for t
      using assms(1) unfolding ensureSubtitleTrack_def Let_def None that option.case Pair_inject by blast
    ultimately show ?thesis by blast
  qed
  show "distinct (map track_id (tracks (timeline s1)))"
    using assms by (auto simp: ensureSubtitleTrack_def Let_def add_track_def edit_tracks_def split: option.splits)
  show "subtitle_clips (tracks (timeline s1)) = subtitle_clips (tracks (timeline s))"
    using assms by (auto simp: ensureSubtitleTrack_def Let_def add_track_def edit_tracks_def subtitle_clips_def split: option.splits)
qed

text \<open>A new subtitle lasts three seconds and starts where the last of the others ends, whichever track each of
  them is on, so that it overlaps none of them; it is on a subtitle track, which is made when there is none, and
  all the others are still there.\<close>
theorem new_subtitle_comes_last:
  assumes "distinct (map track_id (tracks (timeline s)))" and "next_track_id u \<notin> track_id ` set (tracks (timeline s))"
    and "\<forall>t \<in> set (tracks (timeline s)). track_id t \<noteq> []"
  shows "let old = set (subtitle_clips (tracks (timeline s)));
      new = subtitle_clip (generate_clip_id v) (end_of_subtitles s) 3 ''New subtitle''
    in set (subtitle_clips (tracks (timeline (addSubtitleClip (tracks (timeline s)) u v s)))) = insert new old \<and>
       0 \<le> start_time new \<and> (\<forall>c \<in> old. start_time c + clip_duration c \<le> start_time new)"
proof -
  obtain k s1 where ks: "ensureSubtitleTrack (tracks (timeline s)) u s = (k, s1)" by fastforce
  note track = ensured_track [OF ks assms(1,2)]
  then obtain t where t: "t \<in> set (tracks (timeline s1))" "track_id t = k" "is_subtitle_track t" by blast
  have "track_id ` set (tracks (timeline s1)) \<subseteq> insert (next_track_id u) (track_id ` set (tracks (timeline s)))"
    using ks by (auto simp: ensureSubtitleTrack_def Let_def add_track_def edit_tracks_def split: option.splits)
  then have "k \<noteq> []" using t assms(3) by (fastforce simp: next_track_id_def)
  moreover have ends: "end_of_subtitles s1 = end_of_subtitles s"
    using ks by (auto simp: ensureSubtitleTrack_def Let_def add_track_def edit_tracks_def end_of_subtitles_def after_track_def split: option.splits)
  ultimately show ?thesis
    using ks subtitle_clips_add [OF track(2) t(1,3)] t(2) track(3) end_of_subtitles_bounds [of s]
    by (simp add: addSubtitleClip_def add_clip_def edit_tracks_def subtitle_clip_def)
qed

definition sample_subtitles :: studio_state where
  "sample_subtitles = add_clip ''track-1'' (subtitle_clip ''c'' 2 5 ''Hello'') (add_track ''1'' Subtitle None initial_state)"

lemma sample_tracks:
  "tracks (timeline sample_subtitles) =
     [\<lparr>track_id = ''track-1'', track_kind = Subtitle, track_name = default_track_name Subtitle, track_order = 0,
       muted = False, locked = False, visible = True, clips = [subtitle_clip ''c'' 2 5 ''Hello'']\<rparr>]"
  by (simp add: sample_subtitles_def add_clip_def add_track_def edit_tracks_def initial_state_def default_timeline_def
      map_where_simps next_track_id_def or_string_def)

lemma new_subtitle_comes_last_witness:
  "set (subtitle_clips (tracks (timeline (addSubtitleClip (tracks (timeline sample_subtitles)) ''2'' ''3'' sample_subtitles)))) =
     {subtitle_clip (generate_clip_id ''3'') 7 3 ''New subtitle'', subtitle_clip ''c'' 2 5 ''Hello''}"
proof -
  have old: "subtitle_clips (tracks (timeline sample_subtitles)) = [subtitle_clip ''c'' 2 5 ''Hello'']"
    and ends: "end_of_subtitles sample_subtitles = 7"
    by (simp_all add: sample_tracks subtitle_clips_def is_subtitle_track_def end_of_subtitles_def after_track_def later_def
        subtitle_clip_def)
  have "distinct (map track_id (tracks (timeline sample_subtitles)))"
    and "next_track_id ''2'' \<notin> track_id ` set (tracks (timeline sample_subtitles))"
    and "\<forall>t \<in> set (tracks (timeline sample_subtitles)). track_id t \<noteq> []"
    by (simp_all add: sample_tracks next_track_id_def)
  from new_subtitle_comes_last [OF this, of "''3''", unfolded Let_def old ends] show ?thesis by (elim conjE) (simp only: list.set)
qed

subsection \<open>Where the tracks of an old rendering are used\<close>

text \<open>A transcription that was started before the subtitle track was removed puts its clips on the removed one:
  they are lost without a message.  One that was started before the track was made makes a second one.\<close>

lemma late_transcription_lost:
  assumes "find is_subtitle_track seen = Some t" and "track_id t \<notin> track_id ` set (tracks (timeline s))" and "segs \<noteq> []"
    and "track_id t \<noteq> []"
  shows "let w = transcription_answered seen u uuids (Inr segs) (e, s)
    in tracks (timeline (snd w)) = tracks (timeline s) \<and> editor_error (fst w) = editor_error e"
proof -
  have "tracks (timeline (fold (\<lambda>(i, seg). add_clip (track_id t) (f i seg)) xs s1)) = tracks (timeline s1)"
    if "track_id t \<notin> track_id ` set (tracks (timeline s1))" for xs s1 f
    using that
  proof (induction xs arbitrary: s1)
    case (Cons x xs)
    then show ?case by (cases x) (simp add: add_clip_def edit_tracks_def map_where_absent)
  qed simp
  then show ?thesis using assms by (simp add: transcription_answered_def ensureSubtitleTrack_def)
qed

lemma late_transcription_adds_track:
  assumes "find is_subtitle_track seen = None"
  shows "length (tracks (timeline (snd (ensureSubtitleTrack seen u s)))) = Suc (length (tracks (timeline s)))"
  using assms by (simp add: ensureSubtitleTrack_def Let_def add_track_def edit_tracks_def)

subsection \<open>The text of a time\<close>

definition pad2 :: "nat \<Rightarrow> string" where
  "pad2 n = (if n < 10 then ''0'' @ show_nat n else show_nat n)"

text \<open>For a time that is not negative.\<close>

definition formatTime :: "real \<Rightarrow> string" where
  "formatTime seconds =
     (let m = nat \<lfloor>seconds / 60\<rfloor>; sec = nat (\<lfloor>seconds\<rfloor> mod 60); ms = nat \<lfloor>frac seconds * 100 + 1 / 2\<rfloor>
      in show_nat m @ '':'' @ pad2 sec @ ''.'' @ pad2 ms)"

text \<open>The hundredths are rounded by themselves: shortly before a full second there are a hundred of them.\<close>

lemma hundred_hundredths: "formatTime (1 + 999 / 1000) = ''0:01.100''"
proof -
  have "\<lfloor>1999 / 1000 :: real\<rfloor> = 1" "\<lfloor>(1999 / 1000) / 60 :: real\<rfloor> = 0"
    and "\<lfloor>frac (1999 / 1000 :: real) * 100 + 1 / 2\<rfloor> = 100"
    by (simp_all add: floor_eq_iff frac_def)
  moreover have "show_nat 0 = ''0''" "pad2 1 = ''01''" "pad2 100 = ''100''" by code_simp+
  moreover have "1 + 999 / 1000 = (1999 / 1000 :: real)" by simp
  ultimately show ?thesis by (simp only: formatTime_def Let_def) simp
qed

end
