(* ===== verification/Studio_Editing.thy ===== *)
theory Studio_Editing
  imports Subtitles
begin

section \<open>Editing in the studio\<close>

text \<open>
  What the views of the studio do with its store: the timeline (\<^verbatim>\<open>components/studio/timeline/\<close>: drag and drop,
  trimming, the click that seeks, the headers of the tracks, the zoom, the ruler), \<^verbatim>\<open>playback-controls.tsx\<close>,
  \<^verbatim>\<open>properties-panel.tsx\<close>, \<^verbatim>\<open>media-bin.tsx\<close> and \<^verbatim>\<open>studio-editor.tsx\<close>.  A handler sees the tracks of the
  rendering that it was made in; where it reads the store itself, it sees its present state.
\<close>

subsection \<open>Drag and drop\<close>

fun kind_of_asset :: "asset_kind \<Rightarrow> media_kind" where
  "kind_of_asset AssetVideo = Video"
| "kind_of_asset AssetAudio = Audio"
| "kind_of_asset AssetImage = Image"

definition compatible :: "asset_kind \<Rightarrow> media_kind \<Rightarrow> bool" where
  "compatible a k \<longleftrightarrow> kind_of_asset a = k \<or> (a = AssetVideo \<and> k = Image)"

definition media_clip :: "string \<Rightarrow> media_asset \<Rightarrow> real option \<Rightarrow> timeline_clip" where
  "media_clip uuid a dropTime =
     \<lparr>clip_id = generate_clip_id uuid, clip_kind = kind_of_asset (media_type a), media_asset_id = Some (asset_id a),
      start_time = nullish dropTime 0, clip_duration = or_number (duration_seconds a) 5, trim_start = Some 0, trim_end = None,
      properties = no_properties\<lparr>opacity := Some 1, volume := Some 1, position := Some \<lparr>vx = 0, vy = 0\<rparr>,
        scale := Some \<lparr>vx = 1, vy = 1\<rparr>\<rparr>\<rparr>"

text \<open>What a track announces as the target of a drop: its number, and no time.\<close>

record drop_target =
  target_track :: string
  drop_time :: "real option"

definition track_target :: "timeline_track \<Rightarrow> drop_target" where
  "track_target t = \<lparr>target_track = track_id t, drop_time = None\<rparr>"

datatype dragged = DraggedMedia media_asset | DraggedClip string string

definition drop_media :: "timeline_track list \<Rightarrow> string \<Rightarrow> media_asset \<Rightarrow> drop_target \<Rightarrow> studio_state \<Rightarrow> studio_state" where
  "drop_media seen uuid a over s =
     (case find_by track_id (target_track over) seen of
        None \<Rightarrow> s
      | Some track \<Rightarrow>
          if \<not> compatible (media_type a) (track_kind track) then s
          else let c = media_clip uuid a (drop_time over)
            in select_clip (Some (clip_id c)) (Some (target_track over)) (add_clip (target_track over) c s))"

definition drop_clip ::
  "timeline_track list \<Rightarrow> real \<Rightarrow> string \<Rightarrow> string \<Rightarrow> drop_target \<Rightarrow> real \<Rightarrow> studio_state \<Rightarrow> studio_state" where
  "drop_clip seen pps clipId fromId over dx s =
     (case Option.bind (find_by track_id fromId seen) (\<lambda>t. find_by clip_id clipId (clips t)) of
        None \<Rightarrow> s
      | Some c \<Rightarrow> move_clip fromId (target_track over) clipId (max 0 (start_time c + dx / pps)) s)"

text \<open>\<open>dx\<close> is how far the pointer went; \<open>over\<close> is missing when the drop is on no track.\<close>

definition handleDragEnd ::
  "timeline_track list \<Rightarrow> real \<Rightarrow> string \<Rightarrow> dragged \<Rightarrow> drop_target option \<Rightarrow> real \<Rightarrow> studio_state \<Rightarrow> studio_state" where
  "handleDragEnd seen pps uuid active over dx s =
     (case over of
        None \<Rightarrow> s
      | Some target \<Rightarrow>
          (case active of
             DraggedMedia a \<Rightarrow> drop_media seen uuid a target s
           | DraggedClip clipId fromId \<Rightarrow> drop_clip seen pps clipId fromId target dx s))"

text \<open>A click beside the clips; the position of the element is that on the screen.\<close>

definition handleTimelineClick :: "real \<Rightarrow> real \<Rightarrow> studio_state \<Rightarrow> studio_state" where
  "handleTimelineClick clientX rectLeft s =
     set_current_time (max 0 ((clientX - rectLeft + scroll_left s) / pixels_per_second s)) s"

definition timeline_seconds :: "timeline_track list \<Rightarrow> real" where
  "timeline_seconds ts =
     fold (\<lambda>t m. fold (\<lambda>c m. max m (start_time c + clip_duration c + 5)) (clips t) m) ts 30"

definition timelineWidth :: "studio_state \<Rightarrow> real" where
  "timelineWidth s = timeline_seconds (tracks (timeline s)) * pixels_per_second s"

subsection \<open>Trimming\<close>

text \<open>A trim that is under way: the side, where it started, and the clip, the track and the zoom of the rendering.\<close>

record trim =
  left_side :: bool
  trim_x :: real
  trimmed :: timeline_clip
  trim_track :: string
  trim_zoom :: real

definition handleTrimStart :: "bool \<Rightarrow> real \<Rightarrow> timeline_clip \<Rightarrow> string \<Rightarrow> real \<Rightarrow> bool \<Rightarrow> trim option" where
  "handleTrimStart left x c trackId pps is_locked =
     (if is_locked then None
      else Some \<lparr>left_side = left, trim_x = x, trimmed = c, trim_track = trackId, trim_zoom = pps\<rparr>)"

definition trim_updates :: "trim \<Rightarrow> real \<Rightarrow> clip_updates option" where
  "trim_updates g x =
     (let c = trimmed g; delta = (x - trim_x g) / trim_zoom g in
      if left_side g then
        let newStart = max 0 (start_time c + delta); newDuration = clip_duration c - delta in
        if 1 / 10 < newDuration
        then Some (no_updates\<lparr>upd_start_time := Some newStart, upd_duration := Some newDuration,
          upd_trim_start := Some (Some (or_number (trim_start c) 0 + (newStart - start_time c)))\<rparr>)
        else None
      else Some (no_updates\<lparr>upd_duration := Some (max (1 / 10) (clip_duration c + delta))\<rparr>))"

definition trim_move :: "trim \<Rightarrow> real \<Rightarrow> studio_state \<Rightarrow> studio_state" where
  "trim_move g x s =
     (case trim_updates g x of None \<Rightarrow> s | Some u \<Rightarrow> update_clip (trim_track g) (clip_id (trimmed g)) u s)"

definition clip_left :: "real \<Rightarrow> timeline_clip \<Rightarrow> real" where
  "clip_left pps c = start_time c * pps"

definition clip_width :: "real \<Rightarrow> timeline_clip \<Rightarrow> real" where
  "clip_width pps c = max (clip_duration c * pps) 4"

definition clip_label :: "timeline_clip \<Rightarrow> string" where
  "clip_label c =
     (case clip_kind c of
        Text \<Rightarrow> or_string (map_option (take 20) (text_content (properties c))) ''Text''
      | Subtitle \<Rightarrow> or_string (map_option (take 25) (subtitle_text (properties c))) ''Subtitle''
      | k \<Rightarrow> kind_string k)"

subsection \<open>The headers of the tracks\<close>

definition change_track :: "string \<Rightarrow> (timeline_track \<Rightarrow> timeline_track) \<Rightarrow> studio_state \<Rightarrow> studio_state" where
  "change_track trackId f s =
     set_timeline ((timeline s)\<lparr>tracks := map_where track_id trackId f (tracks (timeline s))\<rparr>) s"

definition toggleMuted :: "string \<Rightarrow> studio_state \<Rightarrow> studio_state" where
  "toggleMuted trackId = change_track trackId (\<lambda>t. t\<lparr>muted := \<not> muted t\<rparr>)"

definition toggleVisible :: "string \<Rightarrow> studio_state \<Rightarrow> studio_state" where
  "toggleVisible trackId = change_track trackId (\<lambda>t. t\<lparr>visible := \<not> visible t\<rparr>)"

definition toggleLocked :: "string \<Rightarrow> studio_state \<Rightarrow> studio_state" where
  "toggleLocked trackId = change_track trackId (\<lambda>t. t\<lparr>locked := \<not> locked t\<rparr>)"

subsection \<open>Zoom and ruler\<close>

definition zoomIn :: "studio_state \<Rightarrow> studio_state" where
  "zoomIn s = set_pixels_per_second (pixels_per_second s * 13 / 10) s"

definition zoomOut :: "studio_state \<Rightarrow> studio_state" where
  "zoomOut s = set_pixels_per_second (pixels_per_second s / (13 / 10)) s"

definition fit :: "real \<Rightarrow> studio_state \<Rightarrow> studio_state" where
  "fit containerWidth s = (if containerWidth = 0 then s else fit_to_window containerWidth s)"

definition mark_interval :: "real \<Rightarrow> real" where
  "mark_interval pps = (if pps < 30 then 5 else if pps < 60 then 2 else if 200 < pps then 1 / 2 else 1)"

text \<open>The step of the marks with a text, and the marks as their time, position and weight.\<close>

definition major_step :: "real \<Rightarrow> int" where
  "major_step interval = (if interval * 5 < 1 then 1 else \<lceil>interval * 5\<rceil>)"

definition is_major :: "real \<Rightarrow> real \<Rightarrow> bool" where
  "is_major interval t \<longleftrightarrow> frac (t / of_int (major_step interval)) = 0"

definition ruler_marks :: "real \<Rightarrow> real \<Rightarrow> (real \<times> real \<times> bool) list" where
  "ruler_marks width pps =
     (let interval = mark_interval pps
      in map (\<lambda>i. let t = of_nat i * interval in (t, t * pps, is_major interval t))
           [0 ..< nat (\<lfloor>width / pps / interval\<rfloor> + 1)])"

definition ruler_time :: "real \<Rightarrow> string" where
  "ruler_time seconds =
     (let m = nat \<lfloor>seconds / 60\<rfloor>; sec = nat (\<lfloor>seconds\<rfloor> mod 60)
      in if seconds < 1 \<and> 0 < seconds then ''0.'' @ show_nat (nat \<lfloor>seconds * 10 + 1 / 2\<rfloor>) @ ''s''
         else if 0 < m then show_nat m @ '':'' @ pad2 sec else show_nat sec @ ''s'')"

subsection \<open>Playback controls\<close>

definition togglePlay :: "studio_state \<Rightarrow> studio_state" where
  "togglePlay s = set_is_playing (\<not> is_playing s) s"

definition skipBack :: "studio_state \<Rightarrow> studio_state" where
  "skipBack s = set_current_time (max 0 (current_time s - 5)) s"

definition skipForward :: "studio_state \<Rightarrow> studio_state" where
  "skipForward s = set_current_time (min (total_duration s) (current_time s + 5)) s"

definition goToStart :: "studio_state \<Rightarrow> studio_state" where
  "goToStart s = set_current_time 0 s"

text \<open>The slider goes from nought to \<open>duration || 1\<close>.\<close>

definition scrub_end :: "studio_state \<Rightarrow> real" where
  "scrub_end s = or_number (Some (total_duration s)) 1"

definition handleScrub :: "real \<Rightarrow> studio_state \<Rightarrow> studio_state" where
  "handleScrub x s = set_current_time x s"

definition playback_time :: "real \<Rightarrow> string" where
  "playback_time seconds =
     (let m = nat \<lfloor>seconds / 60\<rfloor>; sec = nat (\<lfloor>seconds\<rfloor> mod 60); ms = nat \<lfloor>frac seconds * 10\<rfloor>
      in show_nat m @ '':'' @ pad2 sec @ ''.'' @ show_nat ms)"

subsection \<open>The panel of properties\<close>

text \<open>The clip that is shown: the selected one in the selected track, else in the first track that has it.\<close>

definition panel_clip :: "studio_state \<Rightarrow> (timeline_track \<times> timeline_clip) option" where
  "panel_clip s =
     (case Option.bind (selected_track_id s) (\<lambda>k. find_by track_id k (tracks (timeline s))) of
        None \<Rightarrow> get_selected_clip s
      | Some t \<Rightarrow>
          (case Option.bind (selected_clip_id s) (\<lambda>k. find_by clip_id k (clips t)) of
             None \<Rightarrow> get_selected_clip s
           | Some c \<Rightarrow> Some (t, c)))"

text \<open>What the inputs of the panel hand on; a number that was typed is missing when the text is not one.\<close>

datatype panel_edit =
    EditStart "real option"
  | EditDuration "real option"
  | EditOpacity real
  | EditVolume real
  | EditPositionX "real option"
  | EditPositionY "real option"
  | EditText string
  | EditFontSize "real option"
  | EditColor string
  | EditFontFamily string
  | EditSubtitleText string
  | EditSubtitleStyle subtitle_style
  | EditBackground real
  | EditUrl string
  | EditLinkLabel string

definition position_of :: "clip_properties \<Rightarrow> vec2" where
  "position_of p = nullish (position p) \<lparr>vx = 0, vy = 0\<rparr>"

fun edit_property :: "media_kind \<Rightarrow> panel_edit \<Rightarrow> clip_properties \<Rightarrow> clip_properties" where
  "edit_property k (EditOpacity x) p = p\<lparr>opacity := Some x\<rparr>"
| "edit_property k (EditVolume x) p = p\<lparr>volume := Some x\<rparr>"
| "edit_property k (EditPositionX x) p = p\<lparr>position := Some \<lparr>vx = or_number x 0, vy = vy (position_of p)\<rparr>\<rparr>"
| "edit_property k (EditPositionY y) p = p\<lparr>position := Some \<lparr>vx = vx (position_of p), vy = or_number y 0\<rparr>\<rparr>"
| "edit_property k (EditText t) p = p\<lparr>text_content := Some t\<rparr>"
| "edit_property k (EditFontSize x) p = p\<lparr>font_size := Some (or_number x (if k = Text then 48 else 24))\<rparr>"
| "edit_property k (EditColor t) p = p\<lparr>text_color := Some t\<rparr>"
| "edit_property k (EditFontFamily t) p = p\<lparr>font_family := Some t\<rparr>"
| "edit_property k (EditSubtitleText t) p = p\<lparr>subtitle_text := Some t\<rparr>"
| "edit_property k (EditSubtitleStyle x) p = p\<lparr>subtitle_style_of := Some x\<rparr>"
| "edit_property k (EditBackground x) p = p\<lparr>background_opacity := Some x\<rparr>"
| "edit_property k (EditUrl t) p = p\<lparr>link_url := Some t\<rparr>"
| "edit_property k (EditLinkLabel t) p = p\<lparr>link_label := Some t\<rparr>"
| "edit_property k _ p = p"

text \<open>Which inputs there are for a clip of a kind.\<close>

fun offered :: "media_kind \<Rightarrow> panel_edit \<Rightarrow> bool" where
  "offered k (EditOpacity x) = (k \<in> {Video, Image})"
| "offered k (EditVolume x) = (k \<in> {Video, Audio})"
| "offered k (EditPositionX x) = (k \<in> {Video, Image, Text})"
| "offered k (EditPositionY x) = (k \<in> {Video, Image, Text})"
| "offered k (EditText t) = (k = Text)"
| "offered k (EditFontFamily t) = (k = Text)"
| "offered k (EditFontSize x) = (k \<in> {Text, Subtitle})"
| "offered k (EditColor t) = (k \<in> {Text, Subtitle})"
| "offered k (EditSubtitleText t) = (k = Subtitle)"
| "offered k (EditSubtitleStyle x) = (k = Subtitle)"
| "offered k (EditBackground x) = (k = Subtitle)"
| "offered k (EditUrl t) = (k \<noteq> Audio)"
| "offered k (EditLinkLabel t) = (k \<noteq> Audio)"
| "offered k _ = True"

definition panel_updates :: "timeline_clip \<Rightarrow> panel_edit \<Rightarrow> clip_updates" where
  "panel_updates c e =
     (case e of
        EditStart x \<Rightarrow> no_updates\<lparr>upd_start_time := Some (or_number x 0)\<rparr>
      | EditDuration x \<Rightarrow> no_updates\<lparr>upd_duration := Some (or_number x (1 / 10))\<rparr>
      | _ \<Rightarrow> no_updates\<lparr>upd_properties := Some (edit_property (clip_kind c) e (properties c))\<rparr>)"

definition handleUpdate :: "(timeline_track \<times> timeline_clip) option \<Rightarrow> panel_edit \<Rightarrow> studio_state \<Rightarrow> studio_state" where
  "handleUpdate selected e s =
     (case selected of None \<Rightarrow> s
      | Some (t, c) \<Rightarrow> update_clip (track_id t) (clip_id c) (panel_updates c e) s)"

text \<open>With unique ids it is the clip that the store itself takes for the selected one.\<close>

lemma panel_shows_selected:
  assumes "wf_tracks (tracks (timeline s))" and "selected_clip_id s \<noteq> Some []"
  shows "panel_clip s = get_selected_clip s"
proof (cases "Option.bind (selected_track_id s) (\<lambda>k. find_by track_id k (tracks (timeline s)))")
  case (Some t)
  then have t: "t \<in> set (tracks (timeline s))" by (auto simp: Option.bind_eq_Some_conv dest: find_by_SomeD)
  show ?thesis
  proof (cases "Option.bind (selected_clip_id s) (\<lambda>k. find_by clip_id k (clips t))")
    case found: (Some c)
    then obtain k where k: "selected_clip_id s = Some k" "find_by clip_id k (clips t) = Some c"
      by (auto simp: Option.bind_eq_Some_conv)
    then have "find_clip_in_tracks k (tracks (timeline s)) = Some (t, c)"
      using find_clip_in_tracks_unique [of "tracks (timeline s)" t c] t assms(1) find_by_SomeD [OF k(2)]
      by (simp add: wf_tracks_def)
    then show ?thesis using k assms(2) by (simp add: panel_clip_def Some found get_selected_clip_def truthy_string_def)
  qed (simp add: panel_clip_def Some)
qed (simp add: panel_clip_def)

subsection \<open>The media bin\<close>

record media_bin =
  bin_uploading :: bool
  show_recorder :: bool

text \<open>Each file is sent after the answer to the one before: an exception, a refusal, or the new asset.\<close>

definition file_uploaded :: "string + media_asset option \<Rightarrow> studio_state \<Rightarrow> studio_state" where
  "file_uploaded r s = (case r of Inr (Some a) \<Rightarrow> add_media_asset a s | _ \<Rightarrow> s)"

definition handleUpload ::
  "(string + media_asset option) list \<Rightarrow> media_bin \<times> studio_state \<Rightarrow> media_bin \<times> studio_state" where
  "handleUpload answers w =
     (if answers = [] then w else ((fst w)\<lparr>bin_uploading := False\<rparr>, fold file_uploaded answers (snd w)))"

text \<open>The answer to a deletion is an exception or a status, which is not looked at.\<close>

definition media_deleted :: "string \<Rightarrow> string + nat \<Rightarrow> studio_state \<Rightarrow> studio_state" where
  "media_deleted k r s = (case r of Inl e \<Rightarrow> s | Inr status \<Rightarrow> remove_media_asset k s)"

definition handleRecordingDone :: "media_asset \<Rightarrow> media_bin \<times> studio_state \<Rightarrow> media_bin \<times> studio_state" where
  "handleRecordingDone a w = ((fst w)\<lparr>show_recorder := False\<rparr>, add_media_asset a (snd w))"

subsection \<open>Loading and saving\<close>

text \<open>The answer to the request for the project (name and timeline), and whether the editor goes on to its media;
  the effect may have been cleaned up in the meantime.\<close>

definition project_loaded ::
  "string \<Rightarrow> bool \<Rightarrow> string + (string \<times> timeline_data option) option \<Rightarrow> studio_state \<Rightarrow> bool \<times> studio_state" where
  "project_loaded projectId cancelled r s =
     (case r of
        Inr (Some (name, data)) \<Rightarrow>
          if cancelled then (False, s)
          else (True, mark_clean
            ((case data of None \<Rightarrow> id | Some d \<Rightarrow> set_timeline d) (set_project_name name (set_project_id (Some projectId) s))))
      | _ \<Rightarrow> (False, s))"

text \<open>The answer to the request for the media, and whether the editor is shown.\<close>

definition media_loaded :: "string + media_asset list option \<Rightarrow> studio_state \<Rightarrow> bool \<times> studio_state" where
  "media_loaded r s =
     (case r of Inl e \<Rightarrow> (False, s) | Inr None \<Rightarrow> (True, s) | Inr (Some as) \<Rightarrow> (True, set_media_assets as s))"

text \<open>What a save sends, and its answer: an exception or a status.\<close>

definition save_body :: "studio_state \<Rightarrow> string \<times> timeline_data \<times> real" where
  "save_body s = (project_name s, timeline s, total_duration s)"

definition save_answered :: "string + nat \<Rightarrow> studio_state \<Rightarrow> studio_state" where
  "save_answered r s = (case r of Inl e \<Rightarrow> s | Inr status \<Rightarrow> mark_clean s)"

definition is_save_key :: "bool \<Rightarrow> string \<Rightarrow> bool" where
  "is_save_key withModifier key \<longleftrightarrow> withModifier \<and> key = ''s''"

subsection \<open>Every gesture is an action of the store\<close>

datatype gesture =
    DropMedia string media_asset string
  | DropClip string string string real
  | ClickTimeline real real
  | ScrollTo real
  | TrimTo trim real
  | ClickClip string string
  | ToggleMuted string
  | ToggleVisible string
  | ToggleLocked string
  | DeleteTrack string
  | NewTrack string media_kind "string option"
  | ZoomIn
  | ZoomOut
  | Fit real
  | TogglePlay
  | SkipBack
  | SkipForward
  | GoToStart
  | Scrub real
  | PanelEdit panel_edit
  | AddSubtitle string string
  | FileUploaded "string + media_asset option"
  | MediaDeleted string "string + nat"
  | SaveAnswered "string + nat"
  | RecordingDone media_asset
  | Renamed string
  | ProjectLoaded string bool "string + (string \<times> timeline_data option) option"
  | MediaLoaded "string + media_asset list option"
  | EditSubtitle string timeline_clip subtitle_edit
  | DeleteSubtitle string timeline_clip
  | Transcribed "timeline_track list" string "nat \<Rightarrow> string" "string option + segment list" subtitle_editor

text \<open>The name of the project is an input of the toolbar.\<close>

definition rename_project :: "string \<Rightarrow> studio_state \<Rightarrow> studio_state" where
  "rename_project t s = set_project_name t s"

text \<open>
  A gesture sees the tracks of the last rendering, which are those of the store; the answer to a transcription sees
  those of the rendering in which it was asked for, and a row of the subtitles the clip that it shows.
\<close>

fun gesture_step :: "gesture \<Rightarrow> studio_state \<Rightarrow> studio_state" where
  "gesture_step (DropMedia uuid a k) s =
     drop_media (tracks (timeline s)) uuid a \<lparr>target_track = k, drop_time = None\<rparr> s"
| "gesture_step (DropClip clipId fromId toId dx) s =
     drop_clip (tracks (timeline s)) (pixels_per_second s) clipId fromId \<lparr>target_track = toId, drop_time = None\<rparr> dx s"
| "gesture_step (ClickTimeline x left) s = handleTimelineClick x left s"
| "gesture_step (ScrollTo x) s = set_scroll_left x s"
| "gesture_step (TrimTo g x) s = trim_move g x s"
| "gesture_step (ClickClip c t) s = select_clip (Some c) (Some t) s"
| "gesture_step (ToggleMuted k) s = toggleMuted k s"
| "gesture_step (ToggleVisible k) s = toggleVisible k s"
| "gesture_step (ToggleLocked k) s = toggleLocked k s"
| "gesture_step (DeleteTrack k) s = remove_track k s"
| "gesture_step (NewTrack uuid k name) s = add_track uuid k name s"
| "gesture_step ZoomIn s = zoomIn s"
| "gesture_step ZoomOut s = zoomOut s"
| "gesture_step (Fit w) s = fit w s"
| "gesture_step TogglePlay s = togglePlay s"
| "gesture_step SkipBack s = skipBack s"
| "gesture_step SkipForward s = skipForward s"
| "gesture_step GoToStart s = goToStart s"
| "gesture_step (Scrub x) s = handleScrub x s"
| "gesture_step (PanelEdit e) s = handleUpdate (panel_clip s) e s"
| "gesture_step (AddSubtitle u v) s = addSubtitleClip (tracks (timeline s)) u v s"
| "gesture_step (FileUploaded r) s = file_uploaded r s"
| "gesture_step (MediaDeleted k r) s = media_deleted k r s"
| "gesture_step (SaveAnswered r) s = save_answered r s"
| "gesture_step (RecordingDone a) s = snd (handleRecordingDone a (\<lparr>bin_uploading = False, show_recorder = True\<rparr>, s))"
| "gesture_step (Renamed t) s = rename_project t s"
| "gesture_step (ProjectLoaded k cancelled r) s = snd (project_loaded k cancelled r s)"
| "gesture_step (MediaLoaded r) s = snd (media_loaded r s)"
| "gesture_step (EditSubtitle k c e) s = editSubtitle k c e s"
| "gesture_step (DeleteSubtitle k c) s = deleteSubtitle k c s"
| "gesture_step (Transcribed seen u us r e) s = snd (transcription_answered seen u us r (e, s))"

text \<open>The numbers of new tracks and clips are fresh.\<close>

definition fresh_track :: "string \<Rightarrow> studio_state \<Rightarrow> bool" where
  "fresh_track u s \<longleftrightarrow> next_track_id u \<notin> track_id ` set (tracks (timeline s))"

definition fresh_clip :: "string \<Rightarrow> studio_state \<Rightarrow> bool" where
  "fresh_clip u s \<longleftrightarrow> generate_clip_id u \<notin> clip_id ` set (all_clips (tracks (timeline s)))"

fun gesture_ok :: "studio_state \<Rightarrow> gesture \<Rightarrow> bool" where
  "gesture_ok s (DropMedia u a k) = fresh_clip u s"
| "gesture_ok s (NewTrack u k n) = fresh_track u s"
| "gesture_ok s (AddSubtitle u v) = (fresh_track u s \<and> fresh_clip v s)"
| "gesture_ok s (Transcribed seen u us r e) =
     (fresh_track u s \<and> (case r of Inl _ \<Rightarrow> True
        | Inr segments \<Rightarrow> list_all (\<lambda>i. fresh_clip (us i) s) [0 ..< length segments] \<and>
            distinct (map (\<lambda>i. generate_clip_id (us i)) [0 ..< length segments])))"
| "gesture_ok s _ = True"

text \<open>The timeline that an answer brings, if any, and the ids of a timeline in their places.\<close>

fun loaded_timeline :: "gesture \<Rightarrow> timeline_data option" where
  "loaded_timeline (ProjectLoaded k cancelled (Inr (Some (name, data)))) = (if cancelled then None else data)"
| "loaded_timeline _ = None"

definition ids_of :: "timeline_data \<Rightarrow> (string \<times> string list) list" where
  "ids_of d = map (\<lambda>t. (track_id t, map clip_id (clips t))) (tracks d)"

text \<open>The actions that a gesture may take: a timeline that is set is the loaded one or has the ids of the present one.\<close>

definition allowed :: "timeline_data option \<Rightarrow> studio_state \<Rightarrow> studio_action \<Rightarrow> bool" where
  "allowed l s a =
     (case a of
        SetTimeline d \<Rightarrow> l = Some d \<or> ids_of d = ids_of (timeline s)
      | _ \<Rightarrow> fresh_action s a)"

lemma allowed_simps [simp]:
  "allowed l s (SetTimeline d) = (l = Some d \<or> ids_of d = ids_of (timeline s))"
  "(\<And>d. a \<noteq> SetTimeline d) \<Longrightarrow> allowed l s a = fresh_action s a"
  by (simp_all add: allowed_def split: studio_action.split)

lemma wf_by_ids: "ids_of d = ids_of d' \<Longrightarrow> wf_tracks (tracks d) = wf_tracks (tracks d')"
proof -
  have "map track_id (tracks d) = map fst (ids_of d)" for d by (simp add: ids_of_def comp_def)
  moreover have "map clip_id (all_clips ts) = concat (map snd (map (\<lambda>t. (track_id t, map clip_id (clips t))) ts))" for ts
    by (induction ts) simp_all
  then have "map clip_id (all_clips (tracks d)) = concat (map snd (ids_of d))" for d by (simp only: ids_of_def)
  ultimately show "ids_of d = ids_of d' \<Longrightarrow> wf_tracks (tracks d) = wf_tracks (tracks d')"
    by (simp add: wf_tracks_def)
qed

lemma allowed_wf:
  assumes "run_ok (allowed l) as s" and "wf_tracks (tracks (timeline s))" and "\<And>d. l = Some d \<Longrightarrow> wf_tracks (tracks d)"
  shows "wf_tracks (tracks (timeline (fold studio_step as s)))"
  using assms(1,2)
proof (induction as arbitrary: s)
  case (Cons a as)
  have "admissible s a"
  proof (cases "\<exists>d. a = SetTimeline d")
    case True
    then obtain d where a: "a = SetTimeline d" by blast
    with Cons.prems(1) have "l = Some d \<or> ids_of d = ids_of (timeline s)" by simp
    then have "wf_tracks (tracks d)" using assms(3) [of d] wf_by_ids [of d "timeline s"] Cons.prems(2) by blast
    then show ?thesis by (simp add: a)
  next
    case False
    then show ?thesis using Cons.prems(1) by (cases a) simp_all
  qed
  then show ?case using Cons wf_step by simp
qed simp

definition performs :: "timeline_data option \<Rightarrow> studio_state \<Rightarrow> studio_state \<Rightarrow> bool" where
  "performs l s s' \<longleftrightarrow> (\<exists>as. run_ok (allowed l) as s \<and> s' = fold studio_step as s)"

lemma performs_none [intro, simp]: "performs l s s"
  unfolding performs_def by (rule exI [of _ "[]"]) simp

lemma performs_then: "performs l s s' \<Longrightarrow> allowed l s' a \<Longrightarrow> performs l s (studio_step a s')"
proof -
  have ok: "run_ok P (as @ [a]) s = (run_ok P as s \<and> P (fold studio_step as s) a)" for P as
    by (induction as arbitrary: s) auto
  assume "performs l s s'" and "allowed l s' a"
  then obtain as where "run_ok (allowed l) as s" "s' = fold studio_step as s" unfolding performs_def by blast
  with \<open>allowed l s' a\<close> show ?thesis unfolding performs_def by (intro exI [of _ "as @ [a]"]) (simp add: ok)
qed

lemma performs_one: "allowed l s a \<Longrightarrow> performs l s (studio_step a s)"
  using performs_then [OF performs_none] .

lemma performs_drop_media: "fresh_clip u s \<Longrightarrow> performs l s (drop_media seen u a over s)"
  using performs_then [OF performs_one [of l s "AddClip (target_track over) (media_clip u a (drop_time over))"],
      of "SelectClip (Some (clip_id (media_clip u a (drop_time over)))) (Some (target_track over))"]
  by (auto simp: drop_media_def Let_def fresh_clip_def media_clip_def split: option.splits)

lemma performs_drop_clip: "performs l s (drop_clip seen pps c f over dx s)"
  using performs_one [of l s "MoveClip f (target_track over) c x" for x]
  by (auto simp: drop_clip_def split: option.splits)

lemma trim_updates_id: "trim_updates g x = Some u \<Longrightarrow> upd_id u = None"
  by (auto simp: trim_updates_def Let_def no_updates_def split: if_splits)

lemma performs_trim: "performs l s (trim_move g x s)"
proof (cases "trim_updates g x")
  case (Some u)
  then show ?thesis
    using performs_one [of l s "UpdateClip (trim_track g) (clip_id (trimmed g)) u"] trim_updates_id [OF Some]
    by (simp add: trim_move_def)
qed (simp add: trim_move_def)

lemma panel_updates_id: "upd_id (panel_updates c e) = None"
  by (simp add: panel_updates_def no_updates_def split: panel_edit.split)

lemma performs_update: "performs l s (handleUpdate sel e s)"
  using performs_one [of l s "UpdateClip (track_id (fst (the sel))) (clip_id (snd (the sel))) (panel_updates (snd (the sel)) e)"]
  by (auto simp: handleUpdate_def panel_updates_id split: option.splits prod.splits)

lemma performs_row: "performs l s (editSubtitle k c e s)"
  using performs_one [of l s "UpdateClip k (clip_id c) (row_updates c e)"]
  by (simp add: editSubtitle_def row_updates_def no_updates_def split: subtitle_edit.split)

lemma performs_change_track:
  assumes "\<And>t. track_id (f t) = track_id t" and "\<And>t. clips (f t) = clips t"
  shows "performs l s (change_track k f s)"
proof -
  have "map (\<lambda>t. (track_id t, map clip_id (clips t))) (map_where track_id k f ts) =
      map (\<lambda>t. (track_id t, map clip_id (clips t))) ts" for ts
    using assms by (induction ts) simp_all
  then show ?thesis
    using performs_one [of l s "SetTimeline ((timeline s)\<lparr>tracks := map_where track_id k f (tracks (timeline s))\<rparr>)"]
    by (simp add: change_track_def ids_of_def)
qed

lemma performs_ensure:
  assumes "fresh_track u s" and "ensureSubtitleTrack seen u s = (k, s1)"
  shows "performs l s s1 \<and> all_clips (tracks (timeline s1)) = all_clips (tracks (timeline s))"
proof (cases "find is_subtitle_track seen")
  case None
  then have "s1 = studio_step (AddTrack u Subtitle (Some ''Subtitles'')) s"
    using assms(2) by (simp add: ensureSubtitleTrack_def Let_def)
  moreover have "performs l s (studio_step (AddTrack u Subtitle (Some ''Subtitles'')) s)"
    using assms(1) by (intro performs_one) (simp add: fresh_track_def)
  ultimately show ?thesis by (simp add: add_track_def edit_tracks_def)
next
  case (Some t)
  then have "s1 = s" using assms(2) by (simp add: ensureSubtitleTrack_def)
  then show ?thesis by blast
qed

lemma performs_subtitle:
  assumes "fresh_track u s" and "fresh_clip v s"
  shows "performs l s (addSubtitleClip seen u v s)"
proof -
  obtain k s1 where ks: "ensureSubtitleTrack seen u s = (k, s1)" by fastforce
  have s1: "performs l s s1" "fresh_clip v s1"
    using performs_ensure [OF assms(1) ks] assms(2) by (simp_all add: fresh_clip_def)
  have "performs l s (studio_step (AddClip k (subtitle_clip (generate_clip_id v) x 3 w)) s1)" for x w
    using s1 by (intro performs_then) (simp_all add: fresh_clip_def subtitle_clip_def)
  then show ?thesis using s1(1) by (simp add: addSubtitleClip_def ks)
qed

text \<open>The subtitles of a transcription are added one by one, each with a number of its own.\<close>

lemma added_ids: "clip_id ` set (all_clips (map_where track_id k (\<lambda>t. t\<lparr>clips := clips t @ [c]\<rparr>) ts)) \<subseteq>
    insert (clip_id c) (clip_id ` set (all_clips ts))"
  by (induction ts) auto

lemma performs_adds:
  assumes "performs l s s1" and "distinct (map (clip_id \<circ> f) xs)"
    and "clip_id ` f ` set xs \<inter> clip_id ` set (all_clips (tracks (timeline s1))) = {}"
  shows "performs l s (fold (\<lambda>x. add_clip k (f x)) xs s1)"
  using assms
proof (induction xs arbitrary: s1)
  case (Cons x xs)
  have "fresh_action s1 (AddClip k (f x))" using Cons.prems(3) by auto
  then have "performs l s (studio_step (AddClip k (f x)) s1)"
    by (intro performs_then [OF Cons.prems(1)]) simp
  then have one: "performs l s (add_clip k (f x) s1)" by simp
  have shrink: "A \<inter> C = {}" if "C \<subseteq> insert y B" "y \<notin> A" "A \<inter> B = {}" for A B C :: "string set" and y
    using that by blast
  have rest: "clip_id ` f ` set xs \<inter> clip_id ` set (all_clips (tracks (timeline (add_clip k (f x) s1)))) = {}"
  proof (rule shrink)
    show "clip_ids (add_clip k (f x) s1) \<subseteq> insert (clip_id (f x)) (clip_ids s1)"
      using added_ids [of k "f x" "tracks (timeline s1)"] by (simp add: add_clip_def edit_tracks_def)
    show "clip_id (f x) \<notin> clip_id ` f ` set xs" using Cons.prems(2) by (simp add: image_image comp_def)
    show "clip_id ` f ` set xs \<inter> clip_ids s1 = {}" using Cons.prems(3) by auto
  qed
  have "distinct (map (clip_id \<circ> f) xs)" using Cons.prems(2) by (simp only: list.map distinct.simps)
  from Cons.IH [OF one this rest] show ?case by (simp only: fold_simps)
qed simp

lemma performs_transcription:
  assumes "gesture_ok s (Transcribed seen u us r e)"
  shows "performs l s (snd (transcription_answered seen u us r (e, s)))"
proof (cases r)
  case (Inr segs)
  obtain k s1 where ks: "ensureSubtitleTrack seen u s = (k, s1)" by fastforce
  have s1: "performs l s s1" "all_clips (tracks (timeline s1)) = all_clips (tracks (timeline s))"
    using performs_ensure [OF _ ks] assms by simp_all
  let ?f = "\<lambda>(i, seg). subtitle_clip (generate_clip_id (us i)) (seg_start seg) (seg_end seg - seg_start seg) (seg_text seg)"
  have id: "clip_id (?f p) = generate_clip_id (us (fst p))" for p
    by (simp add: subtitle_clip_def split: prod.split)
  have "map (clip_id \<circ> ?f) (enumerate 0 segs) = map (\<lambda>i. generate_clip_id (us i)) (map fst (enumerate 0 segs))"
    by (simp only: id comp_def map_map)
  then have "distinct (map (clip_id \<circ> ?f) (enumerate 0 segs))" using assms Inr by simp
  moreover have "clip_id ` ?f ` set (enumerate 0 segs) \<inter> clip_id ` set (all_clips (tracks (timeline s1))) = {}"
  proof -
    have "fst p < length segs" if "p \<in> set (enumerate 0 segs)" for p
      using imageI [OF that, of fst] by (simp flip: set_map)
    then show ?thesis using assms Inr s1(2) by (auto simp: list_all_iff fresh_clip_def image_image id)
  qed
  ultimately have "performs l s (fold (\<lambda>x. add_clip k (?f x)) (enumerate 0 segs) s1)"
    by (rule performs_adds [OF s1(1)])
  then show ?thesis using s1(1) by (simp add: transcription_answered_def Inr ks split_def)
qed (simp add: transcription_answered_def)

lemma performs_project:
  "performs (loaded_timeline (ProjectLoaded k cancelled r)) s (snd (project_loaded k cancelled r s))"
proof (cases "\<exists>name data. r = Inr (Some (name, data)) \<and> \<not> cancelled")
  case True
  then obtain name data where r: "r = Inr (Some (name, data))" "\<not> cancelled" by blast
  have "performs data s (studio_step (SetProjectName name) (studio_step (SetProjectId (Some k)) s))" (is "performs _ _ ?s")
    by (intro performs_then performs_one) simp_all
  then have "performs data s (case data of None \<Rightarrow> ?s | Some d \<Rightarrow> studio_step (SetTimeline d) ?s)"
    using performs_then [of data s ?s "SetTimeline (the data)"] by (cases data) simp_all
  then have "performs data s (studio_step MarkClean (case data of None \<Rightarrow> ?s | Some d \<Rightarrow> studio_step (SetTimeline d) ?s))"
    by (intro performs_then) simp_all
  then show ?thesis using r by (cases data) (simp_all add: project_loaded_def)
next
  case False
  then show ?thesis by (auto simp: project_loaded_def split: sum.split option.split)
qed

lemma gesture_performs:
  assumes "gesture_ok s g"
  shows "performs (loaded_timeline g) s (gesture_step g s)"
proof -
  note one = performs_one [of "loaded_timeline g" s]
  show ?thesis
  proof (cases g)
    case (FileUploaded r)
    then show ?thesis using one [of "AddMediaAsset a" for a]
      by (auto simp: file_uploaded_def split: sum.split option.split)
  next
    case (MediaDeleted k r)
    then show ?thesis using one [of "RemoveMediaAsset k"] by (auto simp: media_deleted_def split: sum.split)
  next
    case (SaveAnswered r)
    then show ?thesis using one [of MarkClean] by (auto simp: save_answered_def split: sum.split)
  next
    case (MediaLoaded r)
    then show ?thesis using one [of "SetMediaAssets as" for as]
      by (auto simp: media_loaded_def split: sum.split option.split)
  next
    case (RecordingDone a)
    then show ?thesis using one [of "AddMediaAsset a"] by (simp add: handleRecordingDone_def)
  next
    case (Renamed t)
    then show ?thesis using one [of "SetProjectName t"] by (simp add: rename_project_def)
  next
    case (ProjectLoaded k c r)
    then show ?thesis using performs_project by simp
  next
    case (DeleteSubtitle k c)
    then show ?thesis using one [of "RemoveClip k (clip_id c)"] by (simp add: deleteSubtitle_def)
  next
    case (Transcribed seen u us r e)
    then show ?thesis using performs_transcription assms by (simp del: gesture_ok.simps)
  next
    case (Fit w)
    then show ?thesis using one [of "FitToWindow w"] by (auto simp: fit_def)
  next
    case (NewTrack u k n)
    then show ?thesis using one [of "AddTrack u k n"] assms by (simp add: fresh_track_def)
  qed (use assms one [of "SetCurrentTime x" for x] one [of "SetPixelsPerSecond x" for x] one [of "SetIsPlaying b" for b]
        one [of "SetScrollLeft x" for x] one [of "SelectClip x y" for x y] one [of "RemoveTrack k" for k]
        performs_drop_media performs_drop_clip performs_trim performs_update performs_row performs_subtitle
        performs_change_track
      in \<open>simp_all add: handleTimelineClick_def zoomIn_def zoomOut_def togglePlay_def skipBack_def skipForward_def
        goToStart_def handleScrub_def toggleMuted_def toggleVisible_def toggleLocked_def\<close>)
qed

text \<open>C29: what is done in the editor of the studio, drag and drop, trimming, clicks, scrolling and zoom, the buttons
  of the tracks, the controls of the playback, the panel of properties, the list of subtitles and the name of the
  project, and what the server answers there, a project, its media, an upload, a deletion, a recording, a
  transcription, a save, is a run of actions of the store: each added track and clip is fresh, no update changes an
  id, and a timeline that is set is the loaded one or has the ids of the present one.  So no gesture takes the zoom
  or the scroll offset out of their bounds, and none makes an id of a track or clip occur twice, unless it loads a
  project in which one does.  The UUIDs that a gesture draws are taken to be new and distinct.\<close>
theorem gestures_refine_store:
  assumes "gesture_ok s g"
  shows "(\<exists>as. run_ok (allowed (loaded_timeline g)) as s \<and> gesture_step g s = fold studio_step as s) \<and>
    (view_bounds s \<longrightarrow> view_bounds (gesture_step g s)) \<and>
    (wf_tracks (tracks (timeline s)) \<and> (\<forall>d. loaded_timeline g = Some d \<longrightarrow> wf_tracks (tracks d)) \<longrightarrow>
      wf_tracks (tracks (timeline (gesture_step g s))))"
proof -
  obtain as where as: "run_ok (allowed (loaded_timeline g)) as s" "gesture_step g s = fold studio_step as s"
    using gesture_performs [OF assms] by (auto simp: performs_def)
  then show ?thesis using view_bounds_run allowed_wf [OF as(1)] by auto
qed

lemma sample_wf: "wf_tracks (tracks (timeline sample_state))"
  using reachable_store_inv [OF sample_reachable] by (simp add: store_inv_def)

lemma gestures_refine_store_witness:
  "wf_tracks (tracks (timeline (gesture_step (Transcribed [] ''9'' (\<lambda>i. [CHR ''a'', if i = 0 then CHR ''x'' else CHR ''y''])
     (Inr [\<lparr>seg_start = 0, seg_end = 1, seg_text = ''Hello''\<rparr>, \<lparr>seg_start = 1, seg_end = 3, seg_text = ''you''\<rparr>])
     \<lparr>transcribing = True, selected_asset = ''m'', editor_error = None\<rparr>) sample_state)))"
proof -
  let ?us = "\<lambda>i::nat. [CHR ''a'', if i = 0 then CHR ''x'' else CHR ''y'']"
  let ?g = "Transcribed [] ''9'' ?us
     (Inr [\<lparr>seg_start = 0, seg_end = 1, seg_text = ''Hello''\<rparr>, \<lparr>seg_start = 1, seg_end = 3, seg_text = ''you''\<rparr>])
     \<lparr>transcribing = True, selected_asset = ''m'', editor_error = None\<rparr>"
  have "gesture_ok sample_state ?g"
    by (simp add: fresh_clip_def fresh_track_def sample_defs map_where_simps generate_clip_id_def next_clip_id_def upt_rec)
  then show ?thesis using gestures_refine_store [of sample_state ?g] sample_wf by (simp del: gesture_step.simps)
qed

subsection \<open>What a trim does\<close>

definition put_clip :: "string \<Rightarrow> timeline_clip \<Rightarrow> timeline_track list \<Rightarrow> timeline_track list" where
  "put_clip k c = map_where track_id k (\<lambda>t. t\<lparr>clips := map_where clip_id (clip_id c) (\<lambda>_. c) (clips t)\<rparr>)"

lemma map_where_same: "distinct (map key xs) \<Longrightarrow> find_by key k xs = Some x \<Longrightarrow> f x = x \<Longrightarrow> map_where key k f xs = xs"
proof (induction xs)
  case (Cons y ys)
  then show ?case using map_where_absent [of k key ys f] by (cases "key y = k") auto
qed simp

lemma put_clip_same:
  assumes "wf_tracks ts" and "find_by track_id k ts = Some t" and "find_by clip_id (clip_id c) (clips t) = Some c"
  shows "put_clip k c ts = ts"
proof -
  have t: "t \<in> set ts" using assms(2) find_by_SomeD by fastforce
  have "map_where clip_id (clip_id c) (\<lambda>_. c) (clips t) = clips t"
    using assms(1) t by (intro map_where_same [OF _ assms(3)]) (use distinct_clips_of_track in \<open>auto simp: wf_tracks_def\<close>)
  then show ?thesis
    unfolding put_clip_def using assms(1) by (intro map_where_same [OF _ assms(2)]) (simp_all add: wf_tracks_def)
qed

lemma put_clip_update:
  assumes "upd_id u = None"
  shows "map_where track_id k (\<lambda>t. t\<lparr>clips := map_where clip_id (clip_id c) (\<lambda>c. spread_clip c u) (clips t)\<rparr>) (put_clip k c ts) =
    put_clip k (spread_clip c u) ts"
proof -
  have "clip_id (spread_clip c u) = clip_id c" using assms by (simp add: spread_clip_def)
  moreover have "map_where clip_id (clip_id c) (\<lambda>c. spread_clip c u) (map_where clip_id (clip_id c) (\<lambda>_. c) cs) =
      map_where clip_id (clip_id c) (\<lambda>_. spread_clip c u) cs" for cs
    by (induction cs) auto
  ultimately show ?thesis by (induction ts) (auto simp: put_clip_def)
qed

text \<open>The clips that a trim may have made of the one that it started with.\<close>

definition trim_ok :: "trim \<Rightarrow> bool \<Rightarrow> timeline_clip \<Rightarrow> bool" where
  "trim_ok g inside c' \<longleftrightarrow>
     (let c = trimmed g in
      clip_id c' = clip_id c \<and> 1 / 10 \<le> clip_duration c' \<and> 0 \<le> start_time c' \<and>
      (if left_side g
       then inside \<longrightarrow> clip_end c' = clip_end c \<and>
         or_number (trim_start c') 0 - or_number (trim_start c) 0 = start_time c' - start_time c
       else start_time c' = start_time c \<and> trim_start c' = trim_start c))"

lemma or_number_zero: "or_number (Some x) 0 = x"
  by (simp add: or_number_def)

lemma trim_ok_step:
  assumes "trim_ok g inside c'" and "trim_updates g x = Some u"
    and "inside \<Longrightarrow> 0 \<le> start_time (trimmed g) + (x - trim_x g) / trim_zoom g"
  shows "trim_ok g inside (spread_clip c' u)"
proof (cases "left_side g")
  case True
  define d where "d = (x - trim_x g) / trim_zoom g"
  have u: "u = no_updates\<lparr>upd_start_time := Some (max 0 (start_time (trimmed g) + d)),
      upd_duration := Some (clip_duration (trimmed g) - d),
      upd_trim_start := Some (Some (or_number (trim_start (trimmed g)) 0 +
        (max 0 (start_time (trimmed g) + d) - start_time (trimmed g))))\<rparr>"
    and len: "1 / 10 < clip_duration (trimmed g) - d"
    using assms(2) True by (auto simp: trim_updates_def Let_def d_def split: if_splits)
  have "inside \<Longrightarrow> 0 \<le> start_time (trimmed g) + d" using assms(3) by (simp add: d_def)
  then show ?thesis
    using assms(1) len True
    by (auto simp: trim_ok_def Let_def u spread_clip_def no_updates_def clip_end_def or_number_zero)
next
  case False
  then show ?thesis
    using assms(1,2) by (auto simp: trim_ok_def trim_updates_def Let_def spread_clip_def no_updates_def max_def)
qed

lemma trim_moves:
  assumes "put_clip (trim_track g) c' ts = tracks (timeline s)" and "trim_ok g inside c'"
    and "inside \<Longrightarrow> \<forall>x \<in> set xs. 0 \<le> start_time (trimmed g) + (x - trim_x g) / trim_zoom g"
  shows "\<exists>c''. tracks (timeline (fold (trim_move g) xs s)) = put_clip (trim_track g) c'' ts \<and> trim_ok g inside c''"
  using assms
proof (induction xs arbitrary: s c')
  case (Cons x xs)
  show ?case
  proof (cases "trim_updates g x")
    case None
    then show ?thesis using Cons by (simp add: trim_move_def)
  next
    case (Some u)
    have "clip_id (trimmed g) = clip_id c'" using Cons.prems(2) by (simp add: trim_ok_def Let_def)
    then have "put_clip (trim_track g) (spread_clip c' u) ts = tracks (timeline (trim_move g x s))"
      using put_clip_update [OF trim_updates_id [OF Some], of "trim_track g" c' ts] Cons.prems(1)
      by (simp add: trim_move_def Some update_clip_def edit_tracks_def)
    moreover have "trim_ok g inside (spread_clip c' u)"
      using trim_ok_step [OF Cons.prems(2) Some] Cons.prems(3) by simp
    ultimately show ?thesis using Cons.IH Cons.prems(3) by simp
  qed
qed (metis fold_simps(1))

text \<open>However the pointer moves while a clip is trimmed, only that clip changes; it stays a tenth of a second
  long at least and does not start before the timeline.  A trim at the right leaves its start and its material
  alone; a trim at the left, as long as the pointer stays within the timeline, leaves its end where it is, and
  the material that is skipped is what was cut off.\<close>
theorem trim_stays_in_bounds:
  assumes "wf_tracks (tracks (timeline s))" and "find_by track_id (trim_track g) (tracks (timeline s)) = Some t"
    and "find_by clip_id (clip_id (trimmed g)) (clips t) = Some (trimmed g)"
    and "1 / 10 \<le> clip_duration (trimmed g)" and "0 \<le> start_time (trimmed g)"
  shows "\<exists>c. tracks (timeline (fold (trim_move g) xs s)) = put_clip (trim_track g) c (tracks (timeline s)) \<and>
    trim_ok g (\<forall>x \<in> set xs. 0 \<le> start_time (trimmed g) + (x - trim_x g) / trim_zoom g) c"
  using trim_moves [OF put_clip_same [OF assms(1-3)], of "\<forall>x \<in> set xs. 0 \<le> start_time (trimmed g) + (x - trim_x g) / trim_zoom g" xs]
    assms(4,5) by (simp add: trim_ok_def Let_def)

definition sample_trim :: trim where
  "sample_trim = \<lparr>left_side = True, trim_x = 300, trimmed = sample_clip, trim_track = ''track-1'', trim_zoom = 100\<rparr>"

lemma sample_tracks_of_store:
  "wf_tracks (tracks (timeline sample_state))"
  "\<exists>t. find_by track_id ''track-1'' (tracks (timeline sample_state)) = Some t \<and> clips t = [sample_clip]"
  using reachable_store_inv [OF sample_reachable]
  by (auto simp: store_inv_def sample_state_def initial_state_def default_timeline_def select_clip_def
      add_clip_def add_track_def edit_tracks_def next_track_id_def)

lemma trim_stays_in_bounds_witness:
  "\<exists>c. tracks (timeline (fold (trim_move sample_trim) [350, 400] sample_state)) =
      put_clip ''track-1'' c (tracks (timeline sample_state)) \<and> clip_end c = 5 \<and> 1 / 10 \<le> clip_duration c"
proof -
  obtain t where t: "find_by track_id (trim_track sample_trim) (tracks (timeline sample_state)) = Some t" "clips t = [sample_clip]"
    using sample_tracks_of_store(2) by (auto simp: sample_trim_def)
  have "find_by clip_id (clip_id (trimmed sample_trim)) (clips t) = Some (trimmed sample_trim)"
    using t(2) by (simp add: sample_trim_def)
  from trim_stays_in_bounds [OF sample_tracks_of_store(1) t(1) this, of "[350, 400]"]
  show ?thesis by (auto simp: sample_trim_def sample_clip_def trim_ok_def clip_end_def)
qed

subsection \<open>Where gestures do something else than they mean to\<close>

text \<open>A track gives no time with a drop: whatever is dropped starts at nought, on top of what is there.\<close>

lemma dropped_media_starts_at_zero:
  assumes "find_by track_id k (tracks (timeline s)) = Some t" and "compatible (media_type a) (track_kind t)"
  shows "drop_media (tracks (timeline s)) u a (track_target t) s =
    select_clip (Some (generate_clip_id u)) (Some k) (add_clip k (media_clip u a (Some 0)) s)"
  using assms find_by_SomeD [OF assms(1)] by (simp add: drop_media_def track_target_def media_clip_def Let_def)

text \<open>A clip can be moved to a track of another kind, and to a locked one.\<close>

lemma clip_moves_to_any_track:
  assumes "find_by track_id f (tracks (timeline s)) = Some t" and "find_by clip_id k (clips t) = Some c" and "f \<noteq> k'"
  shows "gesture_step (DropClip k f k' 0) s = move_clip f k' k (max 0 (start_time c)) s"
  using assms by (simp add: drop_clip_def)

text \<open>The position of the timeline on the screen has the scrolling in it already; adding it once more, a click at a
  point of the timeline goes beyond it by as much as it is scrolled.\<close>

lemma click_counts_scrolling_twice:
  assumes "0 < pixels_per_second s" and "0 \<le> scroll_left s" and "0 \<le> time"
    and "rectLeft = paneLeft - scroll_left s" and "clientX = rectLeft + time * pixels_per_second s"
  shows "current_time (handleTimelineClick clientX rectLeft s) = time + scroll_left s / pixels_per_second s"
  using assms by (simp add: handleTimelineClick_def set_current_time_def field_simps max_def)

text \<open>Nothing sets the duration of the store: it stays nought, so skipping forward goes to the start (or stays
  behind it), the slider covers one second, and a save sends nought.\<close>

lemma gestures_keep_duration: "total_duration (gesture_step g s) = total_duration s"
proof -
  have dur: "total_duration (edit_tracks f s) = total_duration s" for f s by (simp add: edit_tracks_def)
  have ensured: "total_duration (snd (ensureSubtitleTrack seen u s)) = total_duration s" for seen u s
    by (simp add: ensureSubtitleTrack_def Let_def add_track_def dur split: option.split)
  have subtitle: "total_duration (addSubtitleClip seen u v s) = total_duration s" for seen u v
    using ensured [of seen u s] by (cases "ensureSubtitleTrack seen u s") (simp add: addSubtitleClip_def add_clip_def dur)
  have trim: "total_duration (trim_move t x s) = total_duration s" for t x
    by (simp add: trim_move_def update_clip_def dur split: option.split)
  have drop: "total_duration (drop_media seen u a over s) = total_duration s" for seen u a over
    by (simp add: drop_media_def Let_def add_clip_def select_clip_def dur split: option.split)
  have move: "total_duration (drop_clip seen p c f over dx s) = total_duration s" for seen p c f over dx
    by (simp add: drop_clip_def move_clip_def dur split: option.split)
  have panel: "total_duration (handleUpdate sel e s) = total_duration s" for sel e
    by (simp add: handleUpdate_def update_clip_def dur split: option.split prod.split)
  have row: "total_duration (editSubtitle k c e s) = total_duration s" for k c e
    by (simp add: editSubtitle_def update_clip_def dur)
  have loaded: "total_duration (snd (project_loaded k b r s)) = total_duration s" for k b r
    by (simp add: project_loaded_def mark_clean_def set_timeline_def set_project_name_def set_project_id_def
        split: sum.split option.split)
  have adds: "total_duration (fold (\<lambda>x. add_clip k (f x)) xs s) = total_duration s" for k and f :: "nat \<times> segment \<Rightarrow> _" and xs s
    by (induction xs arbitrary: s) (simp_all add: add_clip_def dur)
  have transcribed: "total_duration (snd (transcription_answered seen u us r (e, s))) = total_duration s" for seen u us r e
    using ensured [of seen u s] by (cases "ensureSubtitleTrack seen u s")
      (simp add: transcription_answered_def split_def adds split: sum.split)
  show ?thesis
    by (cases g) (simp_all add: subtitle trim drop move panel row loaded transcribed handleRecordingDone_def rename_project_def
        media_loaded_def set_media_assets_def set_project_name_def deleteSubtitle_def remove_clip_def handleTimelineClick_def set_current_time_def set_scroll_left_def
        select_clip_def toggleMuted_def toggleVisible_def toggleLocked_def change_track_def set_timeline_def
        remove_track_def add_track_def dur zoomIn_def zoomOut_def set_pixels_per_second_def fit_def fit_to_window_def Let_def
        togglePlay_def set_is_playing_def skipBack_def skipForward_def goToStart_def handleScrub_def file_uploaded_def
        add_media_asset_def media_deleted_def remove_media_asset_def save_answered_def mark_clean_def
        split: sum.split option.split)
qed

lemma skip_forward_goes_to_start:
  assumes "total_duration s = 0" and "0 \<le> current_time s"
  shows "current_time (skipForward (fold gesture_step gs s)) \<le> 0"
proof -
  have "total_duration (fold gesture_step gs s) = 0"
    using assms(1) by (induction gs arbitrary: s) (simp_all add: gestures_keep_duration)
  then show ?thesis by (simp add: skipForward_def set_current_time_def)
qed

text \<open>The changes of a track's header do not mark the project as changed, so the button that saves stays disabled.\<close>

lemma header_changes_not_dirty:
  "is_dirty (toggleMuted k s) = is_dirty s" "is_dirty (toggleVisible k s) = is_dirty s" "is_dirty (toggleLocked k s) = is_dirty s"
  by (simp_all add: toggleMuted_def toggleVisible_def toggleLocked_def change_track_def set_timeline_def)

text \<open>Beyond the start of the timeline a trim at the left moves the end of the clip: it gets longer than its cut.\<close>

lemma trim_past_start_moves_end:
  assumes "left_side g" and "trim_zoom g = 1" and "start_time (trimmed g) + (x - trim_x g) < 0"
    and "0 \<le> start_time (trimmed g)" and "1 / 10 \<le> clip_duration (trimmed g)" and "trim_updates g x = Some u"
  shows "clip_end (trimmed g) < clip_end (spread_clip (trimmed g) u)"
  using assms by (auto simp: trim_updates_def Let_def spread_clip_def no_updates_def clip_end_def split: if_splits)

text \<open>Nor does a trim at the left stop where the material starts.\<close>

lemma trim_before_material:
  assumes "left_side g" and "trim_zoom g = 1" and "trim_start (trimmed g) = Some 0" and "start_time (trimmed g) = 5"
    and "1 \<le> clip_duration (trimmed g)"
  shows "\<exists>u. trim_updates g (trim_x g - 2) = Some u \<and> trim_start (spread_clip (trimmed g) u) = Some (- 2)"
  using assms by (simp add: trim_updates_def Let_def spread_clip_def no_updates_def or_number_def)

text \<open>A start and a duration that are typed are taken as they are, negative ones too.\<close>

lemma typed_times_unchecked:
  "start_time (spread_clip c (panel_updates c (EditStart (Some (- 3))))) = - 3"
  "clip_duration (spread_clip c (panel_updates c (EditDuration (Some (- 1))))) = - 1"
  by (simp_all add: panel_updates_def spread_clip_def no_updates_def or_number_def)

text \<open>A deletion that the server refuses hides the asset, and a save that it refuses counts as one.\<close>

lemma refused_deletion_hides_asset: "asset_id a = k \<Longrightarrow> a \<notin> set (media_assets (media_deleted k (Inr 500) s))"
  by (auto simp: media_deleted_def remove_media_asset_def)

lemma refused_save_counts: "\<not> is_dirty (save_answered (Inr 500) s)"
  by (simp add: save_answered_def mark_clean_def)

text \<open>What is edited while a save is under way is not in it, but marked as saved.\<close>

lemma edit_during_save_marked_clean:
  "save_body s \<noteq> save_body (update_clip t c u s) \<Longrightarrow>
   \<not> is_dirty (save_answered (Inr 200) (update_clip t c u s)) \<and>
   save_body (save_answered (Inr 200) (update_clip t c u s)) \<noteq> save_body s"
  by (auto simp: save_answered_def mark_clean_def save_body_def)

text \<open>A project without a timeline is opened with that of the project before, which a save then gives it.\<close>

lemma new_project_gets_last_timeline:
  "fst (save_body (snd (project_loaded k False (Inr (Some (name, None))) s))) = name \<and>
   fst (snd (save_body (snd (project_loaded k False (Inr (Some (name, None))) s)))) = timeline s"
  by (simp add: project_loaded_def mark_clean_def set_project_name_def set_project_id_def save_body_def)

text \<open>The media of a project that was left replace those of the one that was opened.\<close>

lemma media_of_left_project: "media_assets (snd (media_loaded (Inr (Some as)) s)) = as"
  by (simp add: media_loaded_def set_media_assets_def)

end
