(* ===== verification/Studio_Preview.thy ===== *)
theory Studio_Preview
  imports Playback_Engine Studio_Editing
begin

section \<open>The preview of the studio\<close>

text \<open>
  \<^verbatim>\<open>components/studio/preview-canvas.tsx\<close> ties the playback engine to the store: effects hand the timeline, the
  state of playing and the time on to the engine, and the engine reports its time to the store.  A state has
  the store, the engine, and the values that the effects have run for; \<open>commit\<close> is a rendering with its
  effects, which can come any time after a change of the store.
\<close>

record preview =
  store :: studio_state
  engine_of :: engine
  rendered :: "(timeline_data \<times> bool \<times> real) option"

text \<open>A call of the engine, and \<open>onTimeUpdate\<close> when it made it.\<close>

definition reported :: "engine \<Rightarrow> engine \<Rightarrow> studio_state \<Rightarrow> studio_state" where
  "reported before after s =
     (if length (notified before) < length (notified after) then set_current_time (hd (notified after)) s else s)"

definition with_engine :: "(engine \<Rightarrow> engine) \<Rightarrow> preview \<Rightarrow> preview" where
  "with_engine f p =
     p\<lparr>engine_of := f (engine_of p), store := reported (engine_of p) (f (engine_of p)) (store p)\<rparr>"

definition mounted :: "studio_state \<Rightarrow> preview" where
  "mounted s = \<lparr>store = s, engine_of = new_engine, rendered = None\<rparr>"

text \<open>The effects compare the timeline as an object, so they may run for an equal one (\<open>another\<close>); those of the
  time run for the values of the rendering, although the engine may report another one meanwhile.\<close>

definition commit :: "bool \<Rightarrow> real \<Rightarrow> real \<Rightarrow> preview \<Rightarrow> preview" where
  "commit another now now' p =
     (let tl = timeline (store p); pl = is_playing (store p); ct = current_time (store p);
          newTimeline = (another \<or> map_option fst (rendered p) \<noteq> Some tl);
          newPlaying = (map_option (fst \<circ> snd) (rendered p) \<noteq> Some pl);
          newTime = (map_option (snd \<circ> snd) (rendered p) \<noteq> Some ct);
          p1 = (if newTimeline then with_engine (set_engine_timeline tl) p else p);
          p2 = (if newPlaying then with_engine (if pl then play now now' else pause) p1 else p1);
          p3 = (if (newTime \<or> newPlaying) \<and> \<not> pl then with_engine (seek ct now') p2 else p2)
      in p3\<lparr>rendered := Some (tl, pl, ct)\<rparr>)"

definition unmounted :: "preview \<Rightarrow> preview" where
  "unmounted p = with_engine destroy p"

datatype preview_event =
    StoreAction studio_action
  | Commit bool real real
  | Frame real
  | Fetched nat string
  | FetchFailed nat

fun preview_step :: "preview_event \<Rightarrow> preview \<Rightarrow> preview" where
  "preview_step (StoreAction a) p = p\<lparr>store := studio_step a (store p)\<rparr>"
| "preview_step (Commit another now now') p = commit another now now' p"
| "preview_step (Frame now) p = with_engine (frame_fires now) p"
| "preview_step (Fetched i url) p = with_engine (fetch_succeeds i url) p"
| "preview_step (FetchFailed i) p = with_engine (fetch_fails i) p"

fun preview_clock :: "real \<Rightarrow> preview_event \<Rightarrow> real" where
  "preview_clock clock (Commit another now now') = now'"
| "preview_clock clock (Frame now) = now"
| "preview_clock clock _ = clock"

fun preview_ok :: "real \<Rightarrow> preview \<Rightarrow> preview_event \<Rightarrow> bool" where
  "preview_ok clock p (StoreAction a) = admissible (store p) a"
| "preview_ok clock p (Commit another now now') = (clock \<le> now \<and> now \<le> now')"
| "preview_ok clock p (Frame now) = (clock \<le> now)"
| "preview_ok clock p _ = True"

inductive preview_reachable :: "real \<Rightarrow> preview \<Rightarrow> bool" where
  preview_start: "studio_reachable s \<Longrightarrow> preview_reachable clock (mounted s)"
| preview_next: "preview_reachable clock p \<Longrightarrow> preview_ok clock p ev \<Longrightarrow>
    preview_reachable (preview_clock clock ev) (preview_step ev p)"

inductive_cases preview_reachableE: "preview_reachable clock p"

subsection \<open>What the calls of the engine keep\<close>

lemma shown_calls [simp]:
  "shown_timeline (set_engine_timeline d e) = Some d"
  "shown_timeline (tick now e) = shown_timeline e"
  "shown_timeline (play now now' e) = shown_timeline e"
  "shown_timeline (pause e) = shown_timeline e"
  "shown_timeline (seek t now e) = shown_timeline e"
  "shown_timeline (frame_fires now e) = shown_timeline e"
proof -
  show tick: "shown_timeline (tick now e) = shown_timeline e" for now e
    by (simp add: tick_def Let_def request_frame_def)
  show "shown_timeline (play now now' e) = shown_timeline e" by (simp add: play_def tick)
  show "shown_timeline (frame_fires now e) = shown_timeline e"
    by (simp add: frame_fires_def tick split: list.split)
  show "shown_timeline (pause e) = shown_timeline e"
    by (simp add: pause_def Let_def split: option.split)
qed (simp_all add: set_engine_timeline_def seek_def Let_def)

lemma paused_calls [simp]:
  "playing (set_engine_timeline d e) = playing e" "playhead (set_engine_timeline d e) = playhead e"
  "\<not> playing (pause e)" "playhead (pause e) = playhead e"
  "playing (seek t now e) = playing e" "playhead (seek t now e) = max 0 t"
  by (simp_all add: set_engine_timeline_def pause_def seek_def Let_def split: option.split)

lemma frame_when_paused: "\<not> playing e \<Longrightarrow> playing (frame_fires now e) = False \<and> playhead (frame_fires now e) = playhead e"
  by (simp add: frame_fires_def tick_def split: list.split)

text \<open>What a call reports is the new playhead; all of them but those that load the timeline or pause do.\<close>

lemma notified_keep [simp]:
  "notified (render_frame e) = notified e" "notified (set_media_playing b e) = notified e"
  "notified (sync_media_elements e) = notified e" "notified (drop_elements e) = notified e"
  by (simp_all add: render_frame_def set_media_playing_def sync_media_elements_def drop_elements_def split: option.split)

lemma notified_add [simp]: "notified (add_element t c e) = notified e"
proof -
  have "notified (snd (load_media a el e)) = notified e" for a el by (simp add: load_media_def split: option.split)
  then show ?thesis
    by (auto simp: add_element_def Let_def split: option.split prod.split) (metis snd_conv)+
qed

lemma notified_rebuild [simp]: "notified (rebuild_elements e) = notified e"
proof -
  have "notified (fold (add_element t) cs e) = notified e" for t cs e by (induction cs arbitrary: e) simp_all
  then have "notified (fold add_track_elements ts e) = notified e" for ts e
    by (induction ts arbitrary: e) (simp_all add: add_track_elements_def)
  then show ?thesis by (simp add: rebuild_elements_def Let_def split: option.split)
qed

lemma notified_calls [simp]:
  "notified (set_engine_timeline d e) = notified e"
  "notified (pause e) = notified e"
  "notified (seek t now e) = max 0 t # notified e"
  by (simp_all add: set_engine_timeline_def pause_def seek_def on_time_update_def Let_def split: option.split)

lemma notified_tick: "notified (tick now e) = (if playing e then playhead (tick now e) # notified e else notified e)"
  by (simp add: tick_def Let_def on_time_update_def request_frame_def)

lemma notified_play: "notified (play now now' e) = (if playing e then notified e else playhead (play now now' e) # notified e)"
  by (simp add: play_def notified_tick)

lemma notified_frame:
  "notified (frame_fires now e) =
     (if playing e \<and> pending_frames e \<noteq> [] then playhead (frame_fires now e) # notified e else notified e)"
  by (simp add: frame_fires_def notified_tick split: list.split)

lemma with_engine_simps [simp]:
  "engine_of (with_engine f p) = f (engine_of p)" "rendered (with_engine f p) = rendered p"
  "timeline (store (with_engine f p)) = timeline (store p)" "is_playing (store (with_engine f p)) = is_playing (store p)"
  by (simp_all add: with_engine_def reported_def set_current_time_def)

lemma with_engine_reachable: "studio_reachable (store p) \<Longrightarrow> studio_reachable (store (with_engine f p))"
  using studio_reachable.step [of "store p" "SetCurrentTime t" for t] by (simp add: with_engine_def reported_def)

subsection \<open>The invariant\<close>

definition preview_inv :: "real \<Rightarrow> preview \<Rightarrow> bool" where
  "preview_inv clock p \<longleftrightarrow>
     studio_reachable (store p) \<and> (\<exists>c \<le> clock. engine_reachable c (engine_of p)) \<and>
     (case rendered p of
        None \<Rightarrow> engine_of p = new_engine
      | Some (d, pl, ct) \<Rightarrow> shown_timeline (engine_of p) = Some d \<and>
          (\<not> pl \<longrightarrow> \<not> playing (engine_of p) \<and> playhead (engine_of p) = max 0 ct))"

text \<open>A call of the engine at a time that the clock has reached.\<close>

definition engine_by :: "real \<Rightarrow> engine \<Rightarrow> bool" where
  "engine_by clock e \<longleftrightarrow> (\<exists>c \<le> clock. engine_reachable c e)"

lemma engine_by_step:
  assumes "engine_by clock e" and "\<And>c. c \<le> clock \<Longrightarrow> event_ok c ev" and "\<And>c. c \<le> clock \<Longrightarrow> event_clock c ev \<le> clock'"
  shows "engine_by clock' (engine_step ev e)"
  using assms engine_reachable.step unfolding engine_by_def by blast

lemma engine_by_later: "engine_by clock e \<Longrightarrow> clock \<le> clock' \<Longrightarrow> engine_by clock' e"
  unfolding engine_by_def by (meson order_trans)

lemma engine_by_calls:
  assumes "engine_by clock e" and "clock \<le> now" and "now \<le> now'"
  shows "wf_tracks (tracks d) \<Longrightarrow> engine_by clock (set_engine_timeline d e)" "engine_by now' (play now now' e)"
    "engine_by clock (pause e)" "engine_by now' (seek t now' e)" "engine_by now (frame_fires now e)"
    "engine_by clock (fetch_succeeds i u e)" "engine_by clock (fetch_fails i e)"
proof -
  note step = engine_by_step [OF assms(1)]
  show "wf_tracks (tracks d) \<Longrightarrow> engine_by clock (set_engine_timeline d e)" using step [of "EvSetTimeline d" clock] by simp
  show "engine_by now' (play now now' e)" using step [of "EvPlay now now'" now'] assms(2,3) by simp
  show "engine_by clock (pause e)" using step [of EvPause clock] by simp
  show "engine_by now' (seek t now' e)" using step [of "EvSeek t now'" now'] assms(2,3) by simp
  show "engine_by now (frame_fires now e)" using step [of "EvFrame now" now] assms(2) by simp
  show "engine_by clock (fetch_succeeds i u e)" using step [of "EvFetched i u" clock] by simp
  show "engine_by clock (fetch_fails i e)" using step [of "EvFetchFailed i" clock] by simp
qed

lemma commit_rendered [simp]:
  "rendered (commit another now now' p) = Some (timeline (store p), is_playing (store p), current_time (store p))"
  by (simp add: commit_def Let_def)

lemma commit_store [simp]:
  "timeline (store (commit another now now' p)) = timeline (store p)"
  "is_playing (store (commit another now now' p)) = is_playing (store p)"
  by (simp_all add: commit_def Let_def)

lemma reachable_tracks: "studio_reachable s \<Longrightarrow> wf_tracks (tracks (timeline s))"
  using reachable_store_inv [of s] by (simp add: store_inv_def)

lemma commit_engine:
  assumes "preview_inv clock p" and "clock \<le> now" and "now \<le> now'"
  shows "engine_by now' (engine_of (commit another now now' p))"
proof -
  define e1 where "e1 = (if another \<or> map_option fst (rendered p) \<noteq> Some (timeline (store p))
    then set_engine_timeline (timeline (store p)) (engine_of p) else engine_of p)"
  define e2 where "e2 = (if map_option (fst \<circ> snd) (rendered p) \<noteq> Some (is_playing (store p))
    then (if is_playing (store p) then play now now' else pause) e1 else e1)"
  have "engine_by clock (engine_of p)" "wf_tracks (tracks (timeline (store p)))"
    using assms(1) reachable_tracks by (simp_all add: preview_inv_def engine_by_def)
  then have e1: "engine_by clock e1" using engine_by_calls(1) [of clock "engine_of p" clock clock] by (simp add: e1_def)
  then have "engine_by now' e2"
    using engine_by_calls(2,3) [OF e1 assms(2,3)] engine_by_later [of clock _ now'] assms(2,3) by (simp add: e2_def)
  then have "engine_by now' (if another' then seek t now' e2 else e2)" for another' t
    using engine_by_calls(4) [of now' e2 now' now'] by simp
  moreover have "engine_of (commit another now now' p) \<in> {e2, seek (current_time (store p)) now' e2}"
    by (simp add: commit_def Let_def e1_def e2_def)
  ultimately show ?thesis by (metis (full_types) insertE singletonD)
qed

lemma commit_shown:
  assumes "preview_inv clock p"
  shows "shown_timeline (engine_of (commit another now now' p)) = Some (timeline (store p))"
    "\<not> is_playing (store p) \<Longrightarrow> \<not> playing (engine_of (commit another now now' p)) \<and>
      playhead (engine_of (commit another now now' p)) = max 0 (current_time (store p))"
  using assms by (auto simp: commit_def Let_def preview_inv_def split: option.splits)

lemma commit_reachable: "studio_reachable (store p) \<Longrightarrow> studio_reachable (store (commit another now now' p))"
  by (simp add: commit_def Let_def with_engine_reachable)

lemma preview_inv_step:
  assumes "preview_inv clock p" and "preview_ok clock p ev"
  shows "preview_inv (preview_clock clock ev) (preview_step ev p)"
proof (cases ev)
  case (StoreAction a)
  then show ?thesis using assms by (cases "rendered p") (auto simp: preview_inv_def intro: studio_reachable.step)
next
  case (Commit another now now')
  then show ?thesis
    using assms commit_engine [of clock p now now' another] commit_shown [OF assms(1)] commit_reachable [of p]
    by (simp add: preview_inv_def engine_by_def)
next
  case (Frame now)
  have e: "engine_by clock (engine_of p)" using assms(1) by (simp add: preview_inv_def engine_by_def)
  have "engine_of p \<noteq> new_engine \<or> frame_fires now (engine_of p) = engine_of p"
    by (simp add: frame_fires_def new_engine_def)
  then show ?thesis
    using assms Frame engine_by_calls(5) [OF e, of now now] frame_when_paused [of "engine_of p" now]
    by (auto simp: preview_inv_def engine_by_def with_engine_reachable split: option.splits)
next
  case (Fetched i url)
  have e: "engine_by clock (engine_of p)" using assms(1) by (simp add: preview_inv_def engine_by_def)
  have "engine_of p \<noteq> new_engine \<or> fetch_succeeds i url (engine_of p) = engine_of p"
    by (simp add: fetch_succeeds_def new_engine_def)
  then show ?thesis
    using assms Fetched engine_by_calls(6) [OF e, of clock clock]
    by (auto simp: preview_inv_def engine_by_def with_engine_reachable split: option.splits)
next
  case (FetchFailed i)
  have e: "engine_by clock (engine_of p)" using assms(1) by (simp add: preview_inv_def engine_by_def)
  have "engine_of p \<noteq> new_engine \<or> fetch_fails i (engine_of p) = engine_of p"
    by (simp add: fetch_fails_def new_engine_def)
  then show ?thesis
    using assms FetchFailed engine_by_calls(7) [OF e, of clock clock]
    by (auto simp: preview_inv_def engine_by_def with_engine_reachable split: option.splits)
qed

lemma preview_reachable_inv: "preview_reachable clock p \<Longrightarrow> preview_inv clock p"
proof (induction rule: preview_reachable.induct)
  case (preview_start s clock)
  then show ?case using engine_reachable.start [of clock] by (auto simp: preview_inv_def mounted_def)
next
  case (preview_next clock p ev)
  then show ?case by (blast intro: preview_inv_step)
qed

subsection \<open>The preview shows the store\<close>

text \<open>The effects have run for the values that the store has.\<close>

definition settled :: "preview \<Rightarrow> bool" where
  "settled p \<longleftrightarrow> rendered p = Some (timeline (store p), is_playing (store p), current_time (store p))"

text \<open>C30: whatever happened before (a timeline that is set has distinct ids), when the effects have run and nothing is
  played, the preview shows the store: the engine has the timeline of the store, stands at its time (at the start for
  a negative one) and does not run, and an element of a visible track is shown exactly when the time is within its
  clip.\<close>
theorem preview_shows_store:
  assumes "preview_reachable clock p" and "settled p" and "\<not> is_playing (store p)"
  shows "shown_timeline (engine_of p) = Some (timeline (store p)) \<and> \<not> playing (engine_of p) \<and>
    pending_frames (engine_of p) = [] \<and> playhead (engine_of p) = max 0 (current_time (store p)) \<and>
    (\<forall>c el. c \<in> set (visible_clips (timeline (store p))) \<and> map_of (elements (engine_of p)) (clip_id c) = Some el \<longrightarrow>
       el_shown el = is_active (max 0 (current_time (store p))) c)"
proof -
  note inv = preview_reachable_inv [OF assms(1)]
  then obtain c where c: "engine_reachable c (engine_of p)" by (auto simp: preview_inv_def)
  have e: "shown_timeline (engine_of p) = Some (timeline (store p))" "\<not> playing (engine_of p)"
    "playhead (engine_of p) = max 0 (current_time (store p))"
    using inv assms(2,3) by (simp_all add: preview_inv_def settled_def)
  then show ?thesis
    using reachable_loop_inv [OF c] reachable_display_ok [OF c] by (simp add: loop_inv_def display_ok_def)
qed

text \<open>What is seen after a frame is where the engine stands, whatever the time of the store was set to.\<close>

definition sample_preview :: preview where
  "sample_preview = commit False 0 0 (mounted sample_state)"

lemma sample_preview_settled: "settled sample_preview" "\<not> is_playing (store sample_preview)"
  "timeline (store sample_preview) = timeline sample_state" "current_time (store sample_preview) = 0"
proof -
  have s: "\<not> is_playing sample_state" "current_time sample_state = 0"
    by (simp_all add: sample_state_def initial_state_def select_clip_def add_clip_def add_track_def edit_tracks_def)
  then have "current_time (store sample_preview) = 0"
    by (simp add: sample_preview_def commit_def mounted_def with_engine_def reported_def set_current_time_def Let_def)
  moreover show "timeline (store sample_preview) = timeline sample_state"
    by (simp add: sample_preview_def mounted_def)
  ultimately show "settled sample_preview" "\<not> is_playing (store sample_preview)" "current_time (store sample_preview) = 0"
    using s by (simp_all add: settled_def) (simp_all add: sample_preview_def mounted_def)
qed

lemma preview_shows_store_witness:
  "shown_timeline (engine_of sample_preview) = Some (timeline sample_state) \<and> playhead (engine_of sample_preview) = 0"
proof -
  have "preview_reachable 0 sample_preview"
    using preview_next [OF preview_start [OF sample_reachable, of 0], of "Commit False 0 0"] by (simp add: sample_preview_def)
  from preview_shows_store [OF this sample_preview_settled(1,2)] show ?thesis by (simp add: sample_preview_settled)
qed

subsection \<open>The effects come to rest\<close>

lemma reported_cases: "reported e e' s = s \<or> (\<exists>t. reported e e' s = set_current_time t s)"
  by (auto simp: reported_def)

lemma commit_paused_time:
  assumes "\<not> is_playing (store p)" and "rendered p \<noteq> Some (timeline (store p), False, current_time (store p))"
    and "map_option (snd \<circ> snd) (rendered p) \<noteq> Some (current_time (store p)) \<or>
      map_option (fst \<circ> snd) (rendered p) \<noteq> Some False"
  shows "current_time (store (commit another now now' p)) = max 0 (current_time (store p))"
  using assms by (auto simp: commit_def Let_def with_engine_def reported_def set_current_time_def)

lemma commit_same:
  assumes "rendered p = Some (d, is_playing (store p), current_time (store p))"
  shows "current_time (store (commit another now now' p)) = current_time (store p)"
  using assms by (simp add: commit_def Let_def with_engine_def reported_def set_current_time_def)

lemma commit_settles: "settled (commit another now now' p) \<longleftrightarrow>
    current_time (store (commit another now now' p)) = current_time (store p)"
  by (auto simp: settled_def)

text \<open>The effects do not set each other off for ever: what the engine reports to the store makes one more round
  of them at most, after which the store and the engine agree, whatever the state was, also when the time of
  the store is negative or the playing has just begun.\<close>
theorem effects_come_to_rest:
  "settled (commit another' soon soon' (commit another now now' p))"
proof -
  let ?q = "commit another now now' p"
  have q: "rendered ?q = Some (timeline (store ?q), is_playing (store ?q), current_time (store p))" by simp
  have "current_time (store (commit another' soon soon' ?q)) = current_time (store ?q)"
  proof (cases "is_playing (store p)")
    case True
    then show ?thesis
      using q by (simp add: commit_def [of another' soon soon' ?q] Let_def with_engine_def reported_def set_current_time_def)
  next
    case paused: False
    show ?thesis
    proof (cases "current_time (store ?q) = current_time (store p)")
      case True
      then show ?thesis using commit_same [of ?q "timeline (store ?q)"] by simp
    next
      case False
      then have "current_time (store ?q) = max 0 (current_time (store p))"
        using paused commit_paused_time [of p another now now'] commit_same [of p]
        by (cases "rendered p") (auto simp: commit_def Let_def with_engine_def reported_def set_current_time_def split: if_splits)
      moreover have "current_time (store (commit another' soon soon' ?q)) = max 0 (current_time (store ?q))"
        using False paused by (intro commit_paused_time) auto
      ultimately show ?thesis by simp
    qed
  qed
  then show ?thesis by (simp add: commit_settles)
qed

subsection \<open>Where the two come apart\<close>

text \<open>When the engine comes to the end it stops, but the store goes on playing: the button shows a pause, and the
  next click pauses what does not play.\<close>

lemma end_leaves_store_playing:
  assumes "playing (engine_of p)" and "pending_frames (engine_of p) \<noteq> []" and "is_playing (store p)"
    and "compute_duration (engine_of p) \<le> (now - start_wall (engine_of p)) / 1000"
  shows "\<not> playing (engine_of (preview_step (Frame now) p)) \<and> is_playing (store (preview_step (Frame now) p)) \<and>
    \<not> is_playing (togglePlay (store (preview_step (Frame now) p)))"
proof -
  obtain h hs where h: "pending_frames (engine_of p) = h # hs" using assms(2) by (cases "pending_frames (engine_of p)") auto
  have "compute_duration ((engine_of p)\<lparr>pending_frames := hs, playhead := x\<rparr>) = compute_duration (engine_of p)" for x
    by (simp add: compute_duration_def)
  then have "\<not> playing (frame_fires now (engine_of p))"
    using assms(1,4) h by (simp add: frame_fires_def tick_def Let_def)
  then show ?thesis using assms(3) by (simp add: togglePlay_def set_is_playing_def)
qed

text \<open>While the engine plays, a time that is set in the store (by skipping, by the slider or by a click on the
  timeline) is gone with the next frame.\<close>

lemma skip_while_playing_lost:
  assumes "playing (engine_of p)" and "pending_frames (engine_of p) \<noteq> []" and "is_playing (store p)"
    and "rendered p = Some (timeline (store p), True, current_time (store p))"
  shows "current_time (store (preview_step (Frame t) (preview_step (Commit False now now')
      (preview_step (StoreAction (SetCurrentTime x)) p)))) =
    current_time (store (preview_step (Frame t) p))"
proof -
  let ?p = "p\<lparr>store := set_current_time x (store p)\<rparr>"
  have "engine_of (commit False now now' ?p) = engine_of p"
    using assms(3,4) by (simp add: commit_def Let_def set_current_time_def)
  moreover have "length (notified (engine_of p)) < length (notified (frame_fires t (engine_of p)))"
    using assms(1,2) by (simp add: notified_frame)
  ultimately show ?thesis by (simp add: with_engine_def reported_def set_current_time_def)
qed

text \<open>A change of the timeline makes all elements anew, and the new ones do not play, although the engine does:
  the pictures and the sound stand still until the next start.\<close>

lemma edit_while_playing_stops_media:
  assumes "(k, el) \<in> set (elements (set_engine_timeline d e))"
  shows "\<not> el_playing el"
proof -
  define still where "still e \<longleftrightarrow> (\<forall>x \<in> set (elements e). \<not> el_playing (snd x))" for e :: engine
  have new: "\<not> el_playing el" if "create_element i c t = Some el" for i c t el
    using that by (auto simp: create_element_def blank_element_def Let_def split: media_kind.splits if_splits)
  have loaded: "el_playing (fst (load_media a el e)) = el_playing el" "elements (snd (load_media a el e)) = elements e" for a el e
    by (simp_all add: load_media_def split: option.split)
  have upd: "set (AList.update k v xs) \<subseteq> insert (k, v) (set xs)" for k xs and v :: element
    by (induction xs) auto
  have add: "still (add_element t c e)" if "still e" for t c and e :: engine
  proof (cases "create_element (next_uid e) c t")
    case (Some el)
    obtain el1 e1 where "(case wanted_asset c of None \<Rightarrow> (el, e) | Some a \<Rightarrow> load_media a el e) = (el1, e1)" by fastforce
    moreover have "\<not> el_playing el1" "elements e1 = elements e"
      using calculation new [OF Some] loaded by (auto split: option.splits) (metis fst_conv snd_conv elements_load_media)+
    ultimately show ?thesis
      using that Some upd by (fastforce simp: still_def add_element_def Let_def)
  qed (use that in \<open>simp add: add_element_def\<close>)
  have "still (fold (add_element t) cs e)" if "still e" for t cs e using that by (induction cs arbitrary: e) (simp_all add: add)
  then have "still (fold add_track_elements ts e)" if "still e" for ts e
    using that by (induction ts arbitrary: e) (simp_all add: add_track_elements_def)
  moreover have "still (drop_elements e)" for e by (simp add: drop_elements_def still_def)
  ultimately have rebuilt: "still (rebuild_elements e)" for e
    by (simp add: rebuild_elements_def Let_def split: option.split)
  have display: "\<forall>x \<in> set (set_display t c els). \<not> el_playing (snd x)"
    if "\<forall>x \<in> set els. \<not> el_playing (snd x)" for t c els
  proof (cases "map_of els (clip_id c)")
    case (Some el)
    then have "\<not> el_playing el" using that map_of_SomeD [OF Some] by auto
    then have "\<forall>x \<in> insert (clip_id c, el\<lparr>el_shown := is_active t c\<rparr>) (set els). \<not> el_playing (snd x)" using that by simp
    moreover have "set (set_display t c els) \<subseteq> insert (clip_id c, el\<lparr>el_shown := is_active t c\<rparr>) (set els)"
      using upd by (simp add: set_display_def Some)
    ultimately show ?thesis by blast
  qed (use that in \<open>simp add: set_display_def\<close>)
  have "\<forall>x \<in> set (fold (set_display t) cs els). \<not> el_playing (snd x)"
    if "\<forall>x \<in> set els. \<not> el_playing (snd x)" for t cs els
    using that
  proof (induction cs arbitrary: els)
    case (Cons c cs)
    then show ?case unfolding fold_simps by (intro Cons.IH display)
  qed simp
  then have "still (render_frame e)" if "still e" for e
    using that by (auto simp: render_frame_def still_def fold_visible split: option.splits)
  then show ?thesis using assms rebuilt unfolding set_engine_timeline_def still_def by fastforce
qed

end
