(* ===== verification/Studio_Dialogs.thy ===== *)
theory Studio_Dialogs
  imports Base
begin

section \<open>Dialogs of the studio\<close>

text \<open>
  The dialog of an export (\<^verbatim>\<open>components/studio/export-dialog.tsx\<close>) with its polls, and the screen recorder
  (\<^verbatim>\<open>components/studio/screen-recorder.tsx\<close>).  Requests in flight are lists, a live interval is its handle
  with the export that its callback asks for, and \<open>Commit\<close> runs the effect after a change.
\<close>

subsection \<open>Exports\<close>

datatype export_phase = ExIdle | Exporting | ExCompleted | ExFailed

record export_dialog =
  ex_format :: string
  ex_status :: export_phase
  ex_id :: "string option"
  ex_progress :: real
  ex_error :: "string option"
  ex_size :: "real option"
  poll_ref :: "nat option"
  live_polls :: "(nat \<times> string) list"
  next_poll :: nat
  starts :: "string list"
  polls :: "string list"
  effect_ran :: "(string option \<times> export_phase) option"
  effect_cleanup :: bool

definition opened :: export_dialog where
  "opened =
     \<lparr>ex_format = ''mp4'', ex_status = ExIdle, ex_id = None, ex_progress = 0, ex_error = None, ex_size = None,
      poll_ref = None, live_polls = [], next_poll = 0, starts = [], polls = [], effect_ran = None,
      effect_cleanup = False\<rparr>"

definition clear_poll :: "export_dialog \<Rightarrow> export_dialog" where
  "clear_poll s =
     (case poll_ref s of None \<Rightarrow> s | Some h \<Rightarrow> s\<lparr>live_polls := filter (\<lambda>p. fst p \<noteq> h) (live_polls s)\<rparr>)"

definition startExport :: "export_dialog \<Rightarrow> export_dialog" where
  "startExport s = s\<lparr>ex_status := Exporting, ex_progress := 0, ex_error := None, starts := starts s @ [ex_format s]\<rparr>"

text \<open>The answer to a start: the message of an exception, or the number of the export.\<close>

definition start_answered :: "nat \<Rightarrow> string option + string \<Rightarrow> export_dialog \<Rightarrow> export_dialog" where
  "start_answered i r s =
     (if i < length (starts s) then
        let s1 = s\<lparr>starts := take i (starts s) @ drop (Suc i) (starts s)\<rparr> in
        case r of
          Inl message \<Rightarrow> s1\<lparr>ex_status := ExFailed, ex_error := Some (or_string message ''Export failed'')\<rparr>
        | Inr k \<Rightarrow> s1\<lparr>ex_id := Some k\<rparr>
      else s)"

text \<open>The effect on the number and the state: its cleanup, then the first poll and the interval.\<close>

definition export_effect :: "export_dialog \<Rightarrow> export_dialog" where
  "export_effect s =
     (if effect_ran s = Some (ex_id s, ex_status s) then s
      else
        let s1 = (if effect_cleanup s then clear_poll s else s)\<lparr>effect_ran := Some (ex_id s, ex_status s)\<rparr> in
        if \<not> truthy_string (ex_id s) \<or> ex_status s \<noteq> Exporting then s1\<lparr>effect_cleanup := False\<rparr>
        else s1\<lparr>polls := polls s1 @ [the (ex_id s)], poll_ref := Some (next_poll s1),
          live_polls := live_polls s1 @ [(next_poll s1, the (ex_id s))], next_poll := Suc (next_poll s1),
          effect_cleanup := True\<rparr>)"

definition interval_fires :: "nat \<Rightarrow> export_dialog \<Rightarrow> export_dialog" where
  "interval_fires i s =
     (if i < length (live_polls s) then s\<lparr>polls := polls s @ [snd (live_polls s ! i)]\<rparr> else s)"

record export_report =
  rep_status :: string
  rep_progress :: real
  rep_error :: "string option"
  rep_size :: "real option"

text \<open>The answer to a poll; exceptions and refusals are ignored.\<close>

definition poll_answered :: "nat \<Rightarrow> export_report option \<Rightarrow> export_dialog \<Rightarrow> export_dialog" where
  "poll_answered i r s =
     (if i < length (polls s) then
        let s1 = s\<lparr>polls := take i (polls s) @ drop (Suc i) (polls s)\<rparr> in
        case r of None \<Rightarrow> s1
        | Some rep \<Rightarrow>
            let s2 = s1\<lparr>ex_progress := rep_progress rep\<rparr> in
            if rep_status rep = ''completed''
            then clear_poll (s2\<lparr>ex_status := ExCompleted, ex_size := rep_size rep\<rparr>)
            else if rep_status rep = ''failed''
            then clear_poll (s2\<lparr>ex_status := ExFailed, ex_error := Some (or_string (rep_error rep) ''Export failed'')\<rparr>)
            else s2
      else s)"

definition closed :: "export_dialog \<Rightarrow> export_dialog" where
  "closed s = (if effect_cleanup s then clear_poll s else s)\<lparr>effect_cleanup := False\<rparr>"

text \<open>The path and the name of the download.\<close>

definition download_path :: "string \<Rightarrow> string" where
  "download_path k = ''/api/studio/exports/'' @ k @ ''/download''"

definition download_name :: "string \<Rightarrow> string" where
  "download_name k = ''export-'' @ k @ ''.mp4''"

datatype export_event =
    ChooseFormat string
  | StartExport
  | StartAnswered nat "string option + string"
  | ExportCommit
  | IntervalFires nat
  | PollAnswered nat "export_report option"

fun export_step :: "export_event \<Rightarrow> export_dialog \<Rightarrow> export_dialog" where
  "export_step (ChooseFormat f) s = s\<lparr>ex_format := f\<rparr>"
| "export_step StartExport s = startExport s"
| "export_step (StartAnswered i r) s = start_answered i r s"
| "export_step ExportCommit s = export_effect s"
| "export_step (IntervalFires i) s = interval_fires i s"
| "export_step (PollAnswered i r) s = poll_answered i r s"

text \<open>There is one interval at most, the one that the ref holds; it is that of the last effect, and after the
  effect has run there is none unless an export is under way.\<close>

definition export_inv :: "export_dialog \<Rightarrow> bool" where
  "export_inv s \<longleftrightarrow>
     (live_polls s = [] \<or> (\<exists>h k. live_polls s = [(h, k)] \<and> poll_ref s = Some h \<and> h < next_poll s \<and>
        effect_cleanup s \<and> effect_ran s = Some (Some k, Exporting))) \<and>
     (ex_status s \<noteq> Exporting \<and> effect_ran s = Some (ex_id s, ex_status s) \<longrightarrow> live_polls s = []) \<and>
     (effect_cleanup s \<longrightarrow> (\<exists>k. effect_ran s = Some (Some k, Exporting)))"

lemma clear_poll_inv: "export_inv s \<Longrightarrow> live_polls (clear_poll s) = []"
  by (auto simp: export_inv_def clear_poll_def split: option.split)

lemma clear_poll_fields [simp]:
  "effect_ran (clear_poll s) = effect_ran s" "effect_cleanup (clear_poll s) = effect_cleanup s" "ex_id (clear_poll s) = ex_id s"
  "ex_status (clear_poll s) = ex_status s" "poll_ref (clear_poll s) = poll_ref s" "next_poll (clear_poll s) = next_poll s"
  "polls (clear_poll s) = polls s"
  by (simp_all add: clear_poll_def split: option.split)

lemma export_inv_step: "export_inv s \<Longrightarrow> export_inv (export_step ev s)"
proof (cases ev)
  case ExportCommit
  assume inv: "export_inv s"
  have "\<not> effect_cleanup s \<Longrightarrow> live_polls s = []" using inv by (auto simp: export_inv_def)
  then have "live_polls (if effect_cleanup s then clear_poll s else s) = []" using clear_poll_inv [OF inv] by simp
  then show ?thesis using inv ExportCommit
    by (cases "ex_id s") (auto simp: export_effect_def Let_def export_inv_def truthy_string_def)
next
  case (PollAnswered i r)
  assume inv: "export_inv s"
  have same: "export_inv (s\<lparr>polls := ps\<rparr>)" "export_inv (s\<lparr>polls := ps, ex_progress := x\<rparr>)" for ps x
    using inv by (simp_all add: export_inv_def)
  have "live_polls (clear_poll (s\<lparr>polls := ps, ex_progress := x, ex_status := p, ex_error := e\<rparr>)) = []"
    "live_polls (clear_poll (s\<lparr>polls := ps, ex_progress := x, ex_status := p, ex_size := z\<rparr>)) = []" for ps x p e z
    using clear_poll_inv [OF inv] by (simp_all add: clear_poll_def split: option.splits)
  then have "export_inv (clear_poll (s\<lparr>polls := ps, ex_progress := x, ex_status := p, ex_error := e\<rparr>))"
    "export_inv (clear_poll (s\<lparr>polls := ps, ex_progress := x, ex_status := p, ex_size := z\<rparr>))" for ps x p e z
    using inv by (auto simp: export_inv_def)
  then show ?thesis using same inv PollAnswered
    by (auto simp: poll_answered_def Let_def split: option.split)
qed (auto simp: export_inv_def startExport_def start_answered_def interval_fires_def Let_def split: sum.splits)

inductive export_reachable :: "export_dialog \<Rightarrow> bool" where
  export_opened: "export_reachable opened"
| export_next: "export_reachable s \<Longrightarrow> export_reachable (export_step ev s)"

lemma export_reachable_inv: "export_reachable s \<Longrightarrow> export_inv s"
proof (induction rule: export_reachable.induct)
  case export_opened
  show ?case by (simp add: export_inv_def opened_def)
qed (rule export_inv_step)

text \<open>An open export dialog never has more than one interval of polls; closing it, or the end of the export once
  the effect has run, leaves none, in whatever order starts, answers, polls and renderings come.\<close>
theorem export_dialog_one_poll:
  assumes "export_reachable s"
  shows "length (live_polls s) \<le> 1 \<and> live_polls (closed s) = [] \<and>
    (ex_status (export_effect s) \<noteq> Exporting \<longrightarrow> live_polls (export_effect s) = [])"
proof -
  note inv = export_reachable_inv [OF assms]
  have "export_inv (export_effect s)" using export_inv_step [OF inv, of ExportCommit] by simp
  moreover have "effect_ran (export_effect s) = Some (ex_id (export_effect s), ex_status (export_effect s))"
    by (simp add: export_effect_def Let_def)
  moreover have "\<not> effect_cleanup s \<Longrightarrow> live_polls s = []" using inv by (auto simp: export_inv_def)
  ultimately show ?thesis using inv clear_poll_inv [OF inv] by (auto simp: export_inv_def closed_def)
qed

definition sample_export :: export_dialog where
  "sample_export = fold export_step [StartExport, ExportCommit, StartAnswered 0 (Inr ''e''), ExportCommit, IntervalFires 0] opened"

lemma export_dialog_one_poll_witness:
  "live_polls sample_export = [(0, ''e'')] \<and> polls sample_export = [''e'', ''e''] \<and> live_polls (closed sample_export) = []"
proof -
  have "export_reachable sample_export"
    unfolding sample_export_def fold_simps comp_def by (intro export_next export_opened)
  then show ?thesis using export_dialog_one_poll [of sample_export]
    by (simp add: sample_export_def opened_def startExport_def start_answered_def export_effect_def interval_fires_def
        truthy_string_def Let_def)
qed

text \<open>Retrying an export that the server reported as failed asks for the failed one at once, whose answer ends the
  retry: the new export is started, but never polled, and the dialog goes on showing the failure.\<close>

lemma retry_polls_failed_export:
  assumes "ex_status s = ExFailed" and "ex_id s = Some k" and "k \<noteq> []" and "polls s = []" and "starts s = []"
    and "effect_ran s = Some (Some k, ExFailed)" and "\<not> effect_cleanup s" and "live_polls s = []"
    and "rep_status rep = ''failed''"
  shows "polls (fold export_step [StartExport, ExportCommit] s) = [k]"
    "ex_status (fold export_step
       [StartExport, ExportCommit, PollAnswered 0 (Some rep), ExportCommit, StartAnswered 0 (Inr k'), ExportCommit] s) = ExFailed"
    "live_polls (fold export_step
       [StartExport, ExportCommit, PollAnswered 0 (Some rep), ExportCommit, StartAnswered 0 (Inr k'), ExportCommit] s) = []"
  using assms
  by (simp_all add: startExport_def export_effect_def poll_answered_def start_answered_def clear_poll_def truthy_string_def Let_def)

text \<open>An interactive page is downloaded under the name of a video.\<close>

lemma page_named_as_video: "ends_with (download_name k) ''.mp4''"
  by (simp add: download_name_def ends_with_def)

text \<open>The size with one digit after the point: the half is rounded up.\<close>

definition one_digit :: "real \<Rightarrow> string" where
  "one_digit x =
     (let n = nat \<lfloor>x * 10 + 1 / 2\<rfloor> in show_nat (n div 10) @ ''.'' @ show_nat (n mod 10))"

definition formatSize :: "real option \<Rightarrow> string" where
  "formatSize bytes =
     (let b = or_number bytes 0 in
      if b = 0 then []
      else if b < 1024 * 1024 then one_digit (b / 1024) @ '' KB''
      else one_digit (b / (1024 * 1024)) @ '' MB'')"

subsection \<open>The screen recorder\<close>

datatype recorder_phase = RcIdle | RcRecording | RcUploading

text \<open>A recording with its recorder and its stream; the refs hold the number of the last one.  The chunks are in one
  list, whichever recorder they come from.\<close>

record recording =
  is_recording :: bool
  is_sharing :: bool

record recorder =
  rc_phase :: recorder_phase
  rc_seconds :: nat
  timer_ref :: "nat option"
  live_timers :: "nat list"
  recordings :: "recording list"
  recording_ref :: "nat option"
  chunks :: "string list"
  pickers :: nat
  stopping :: "nat list"
  uploads :: "string list"
  handed_on :: "string option list"

definition idle_recorder :: recorder where
  "idle_recorder =
     \<lparr>rc_phase = RcIdle, rc_seconds = 0, timer_ref = None, live_timers = [], recordings = [], recording_ref = None,
      chunks = [], pickers = 0, stopping = [], uploads = [], handed_on = []\<rparr>"

definition clear_timer :: "recorder \<Rightarrow> recorder" where
  "clear_timer s = (case timer_ref s of None \<Rightarrow> s | Some h \<Rightarrow> s\<lparr>live_timers := removeAll h (live_timers s)\<rparr>)"

text \<open>\<open>recorder.stop()\<close>, which the stop event follows; only a recorder that records is stopped.\<close>

definition stop_recorder :: "nat \<Rightarrow> recorder \<Rightarrow> recorder" where
  "stop_recorder n s =
     (if n < length (recordings s) \<and> is_recording (recordings s ! n)
      then s\<lparr>recordings := (recordings s)[n := (recordings s ! n)\<lparr>is_recording := False\<rparr>], stopping := stopping s @ [n]\<rparr>
      else s)"

definition stop_sharing :: "nat \<Rightarrow> recorder \<Rightarrow> recorder" where
  "stop_sharing n s =
     (if n < length (recordings s)
      then s\<lparr>recordings := (recordings s)[n := (recordings s ! n)\<lparr>is_sharing := False\<rparr>]\<rparr> else s)"

definition startRecording :: "recorder \<Rightarrow> recorder" where
  "startRecording s = s\<lparr>pickers := Suc (pickers s)\<rparr>"

text \<open>The user has chosen a screen, or refused; a refusal closes the dialog (\<open>onCancel\<close>, an asset that is missing).\<close>

definition picker_answered :: "bool \<Rightarrow> recorder \<Rightarrow> recorder" where
  "picker_answered granted s =
     (if pickers s = 0 then s
      else
        let s1 = s\<lparr>pickers := pickers s - 1\<rparr>; n = length (recordings s) in
        if \<not> granted then s1\<lparr>handed_on := handed_on s1 @ [None]\<rparr>
        else s1\<lparr>recordings := recordings s @ [\<lparr>is_recording = True, is_sharing = True\<rparr>], recording_ref := Some n,
          chunks := [], rc_phase := RcRecording, rc_seconds := 0, timer_ref := Some n, live_timers := live_timers s @ [n]\<rparr>)"

definition data_available :: "string \<Rightarrow> recorder \<Rightarrow> recorder" where
  "data_available chunk s = (if chunk = [] then s else s\<lparr>chunks := chunks s @ [chunk]\<rparr>)"

definition recorder_stopped :: "nat \<Rightarrow> recorder \<Rightarrow> recorder" where
  "recorder_stopped n s =
     (if n \<in> set (stopping s) then
        let s1 = clear_timer (stop_sharing n (s\<lparr>stopping := remove1 n (stopping s)\<rparr>))
        in s1\<lparr>rc_phase := RcUploading, uploads := uploads s1 @ [concat (chunks s1)]\<rparr>
      else s)"

definition stopRecording :: "recorder \<Rightarrow> recorder" where
  "stopRecording s = (case recording_ref s of None \<Rightarrow> s | Some n \<Rightarrow> stop_recorder n s)"

text \<open>The answer to an upload: the asset, or a refusal or an exception.\<close>

definition upload_answered :: "nat \<Rightarrow> string option \<Rightarrow> recorder \<Rightarrow> recorder" where
  "upload_answered i r s =
     (if i < length (uploads s)
      then s\<lparr>uploads := take i (uploads s) @ drop (Suc i) (uploads s), handed_on := handed_on s @ [r]\<rparr> else s)"

definition timer_ticks :: "nat \<Rightarrow> recorder \<Rightarrow> recorder" where
  "timer_ticks h s = (if h \<in> set (live_timers s) then s\<lparr>rc_seconds := Suc (rc_seconds s)\<rparr> else s)"

definition recorder_unmounted :: "recorder \<Rightarrow> recorder" where
  "recorder_unmounted s =
     (let s1 = clear_timer s in
      case recording_ref s1 of None \<Rightarrow> s1 | Some n \<Rightarrow> stop_sharing n (stop_recorder n s1))"

definition formatDuration :: "nat \<Rightarrow> string" where
  "formatDuration s =
     (show_nat (s div 60) @ '':'' @ (if s mod 60 < 10 then ''0'' @ show_nat (s mod 60) else show_nat (s mod 60)))"

lemma chunks_in_order:
  "chunks (fold data_available cs s) = chunks s @ filter (\<lambda>c. c \<noteq> []) cs"
  "recordings (fold data_available cs s) = recordings s" "stopping (fold data_available cs s) = stopping s"
  "recording_ref (fold data_available cs s) = recording_ref s" "uploads (fold data_available cs s) = uploads s"
  "timer_ref (fold data_available cs s) = timer_ref s" "live_timers (fold data_available cs s) = live_timers s"
  by (induction cs arbitrary: s) (simp_all add: data_available_def)

lemma concat_nonempty: "concat (filter (\<lambda>c. c \<noteq> []) cs) = concat cs"
  by (induction cs) auto

text \<open>What is uploaded is all that was recorded, in its order, the last chunk that comes after the stop too; then
  nothing is shared any more and no timer runs.\<close>

lemma recording_uploaded_whole:
  fixes cs c
  defines "s \<equiv> recorder_stopped 0 (data_available c (stopRecording (fold data_available cs
      (picker_answered True (startRecording idle_recorder)))))"
  shows "uploads s = [concat cs @ c]" "live_timers s = []" "\<not> is_sharing (recordings s ! 0)" "rc_phase s = RcUploading"
  unfolding s_def
  by (simp_all add: recorder_stopped_def clear_timer_def stop_sharing_def stopRecording_def stop_recorder_def
      picker_answered_def startRecording_def idle_recorder_def chunks_in_order data_available_def concat_nonempty Let_def)

text \<open>A screen that is chosen after the dialog was closed is recorded all the same, and nothing ends that; and closing
  the dialog while it records does not throw the recording away, but uploads it.\<close>

lemma recording_after_unmount:
  "let s = picker_answered True (recorder_unmounted (startRecording idle_recorder))
   in is_recording (recordings s ! 0) \<and> is_sharing (recordings s ! 0) \<and> live_timers s = [0]"
  by (simp add: picker_answered_def recorder_unmounted_def clear_timer_def startRecording_def idle_recorder_def Let_def)

lemma closed_recorder_uploads:
  "uploads (recorder_stopped 0 (recorder_unmounted (data_available (c # cs)
     (picker_answered True (startRecording idle_recorder))))) = [c # cs]"
  by (simp add: recorder_stopped_def clear_timer_def stop_sharing_def stop_recorder_def recorder_unmounted_def
      picker_answered_def startRecording_def idle_recorder_def data_available_def Let_def)

text \<open>Two choices of a screen: the first of the recordings is forgotten, is not stopped with the dialog, and its
  timer runs on.\<close>

lemma second_picker_forgets_first:
  "let s = recorder_unmounted (picker_answered True (picker_answered True (startRecording (startRecording idle_recorder))))
   in is_recording (recordings s ! 0) \<and> is_sharing (recordings s ! 0) \<and> live_timers s = [0]"
  by (simp add: picker_answered_def recorder_unmounted_def clear_timer_def stop_recorder_def stop_sharing_def
      startRecording_def idle_recorder_def Let_def)

end
