(* ===== verification/Panels.thy ===== *)
theory Panels
  imports Hooks_Content Filenames "HOL-Library.Multiset"
begin

section \<open>Issues, notes and help\<close>

text \<open>
  The panels over the page: \<^verbatim>\<open>components/issues/issues-modal.tsx\<close>, \<^verbatim>\<open>components/notes/\<close> (the panel, the form,
  an item, the board) and \<^verbatim>\<open>components/help/help-modal.tsx\<close>, on the hooks of issues and notes.  Pointer
  positions and the sizes of the window and of the panel are arguments.
\<close>

subsection \<open>Dragging a panel, keeping the focus\<close>

text \<open>The same code in the three panels: the offset of the pointer in the panel, then its new position.\<close>

record point =
  at_x :: real
  at_y :: real

definition drag_offset :: "point \<Rightarrow> point \<Rightarrow> point" where
  "drag_offset client corner = \<lparr>at_x = at_x client - at_x corner, at_y = at_y client - at_y corner\<rparr>"

definition clamp_to :: "real \<Rightarrow> real \<Rightarrow> real \<Rightarrow> real" where
  "clamp_to inner panel x = max 0 (min (max 0 (inner - panel)) x)"

definition dragged_to :: "point \<Rightarrow> point \<Rightarrow> point \<Rightarrow> point \<Rightarrow> point" where
  "dragged_to inner panel offset client =
     \<lparr>at_x = clamp_to (at_x inner) (at_x panel) (at_x client - at_x offset),
      at_y = clamp_to (at_y inner) (at_y panel) (at_y client - at_y offset)\<rparr>"

lemma clamp_to_bounds: "0 \<le> clamp_to inner panel x" "panel \<le> inner \<Longrightarrow> clamp_to inner panel x + panel \<le> inner"
  by (auto simp: clamp_to_def)

lemma panel_stays_in_window:
  "0 \<le> at_x (dragged_to inner panel offset client)" "0 \<le> at_y (dragged_to inner panel offset client)"
  "at_x panel \<le> at_x inner \<Longrightarrow> at_x (dragged_to inner panel offset client) + at_x panel \<le> at_x inner"
  "at_y panel \<le> at_y inner \<Longrightarrow> at_y (dragged_to inner panel offset client) + at_y panel \<le> at_y inner"
  by (simp_all add: dragged_to_def clamp_to_bounds)

text \<open>A tabulator at the last element that can have the focus goes to the first, and back; elsewhere the browser
  moves it.\<close>

definition focus_trap :: "nat list \<Rightarrow> bool \<Rightarrow> nat \<Rightarrow> nat option" where
  "focus_trap focusable shift active =
     (if focusable = [] then None
      else if shift then (if active = hd focusable then Some (last focusable) else None)
      else if active = last focusable then Some (hd focusable) else None)"

subsection \<open>The panel of issues\<close>

record issue =
  is_id :: string
  is_title :: string
  is_description :: "string option"
  is_severity :: string
  is_status :: string
  is_app_issue :: "bool option"
  is_steps :: "string option"

definition is_app :: "issue \<Rightarrow> bool" where
  "is_app i = nullish (is_app_issue i) False"

text \<open>The sort compares the two flags only, and is stable.\<close>

definition sortedIssues :: "issue list \<Rightarrow> issue list" where
  "sortedIssues issues = sort_key (\<lambda>i. if is_app i then 0 else 1 :: nat) issues"

record issue_filters =
  project_filter :: string
  status_filter :: string
  app_issue_filter :: bool

definition issue_query :: "issue_filters \<Rightarrow> list_issues_params" where
  "issue_query f =
     \<lparr>issues_project_id = (if app_issue_filter f then None else if project_filter f = ''all'' then None else Some (project_filter f)),
      issues_is_app_issue = (if app_issue_filter f then Some True else None),
      issues_status = (if status_filter f = ''all'' then None else Some (status_filter f)),
      issues_severity = None, issues_limit = None, issues_offset = None\<rparr>"

definition toggle_app_filter :: "issue_filters \<Rightarrow> issue_filters" where
  "toggle_app_filter f =
     (let f1 = (if \<not> app_issue_filter f then f\<lparr>project_filter := ''all''\<rparr> else f)
      in f1\<lparr>app_issue_filter := \<not> app_issue_filter f\<rparr>)"

record issue_panel =
  create_shown :: bool
  editing_id :: "string option"
  deleting_id :: "string option"
  export_done :: bool
  export_error :: bool
  export_timer :: "(nat \<times> bool) option"
  export_timers :: nat

definition initial_issue_panel :: issue_panel where
  "initial_issue_panel =
     \<lparr>create_shown = False, editing_id = None, deleting_id = None, export_done = False, export_error = False,
      export_timer = None, export_timers = 0\<rparr>"

text \<open>Escape closes what is open innermost; the panel itself last.\<close>

definition escape_pressed :: "issue_panel \<Rightarrow> bool \<times> issue_panel" where
  "escape_pressed s =
     (if truthy_string (editing_id s) then (False, s\<lparr>editing_id := None\<rparr>)
      else if truthy_string (deleting_id s) then (False, s\<lparr>deleting_id := None\<rparr>)
      else if create_shown s then (False, s\<lparr>create_shown := False\<rparr>)
      else (True, s))"

type_synonym 'a panel_action = "issue_panel \<Rightarrow> hook \<times> http \<Rightarrow> (thrown + 'a) \<times> issue_panel \<times> hook \<times> http"

text \<open>An action of the hook, and what the panel does when it returns.\<close>

definition then_panel :: "'a action \<Rightarrow> (issue_panel \<Rightarrow> issue_panel) \<Rightarrow> 'a panel_action" where
  "then_panel m f s w = (case m w of (Inl e, w1) \<Rightarrow> (Inl e, s, w1) | (Inr x, w1) \<Rightarrow> (Inr x, f s, w1))"

definition handleResolve :: "env \<Rightarrow> issue_filters \<Rightarrow> string \<Rightarrow> json option panel_action" where
  "handleResolve env f k =
     then_panel (useIssues_updateIssue env (Some (issue_query f)) k (js_object [(''status'', Some (JStr ''resolved''))])) id"

definition handleDelete :: "env \<Rightarrow> issue_filters \<Rightarrow> string \<Rightarrow> unit panel_action" where
  "handleDelete env f k =
     then_panel (useIssues_deleteIssue env (Some (issue_query f)) k) (\<lambda>s. s\<lparr>deleting_id := None\<rparr>)"

definition handleCreate :: "env \<Rightarrow> issue_filters \<Rightarrow> json \<Rightarrow> json option panel_action" where
  "handleCreate env f data =
     then_panel (useIssues_createIssue env (Some (issue_query f)) data) (\<lambda>s. s\<lparr>create_shown := False\<rparr>)"

text \<open>The edit card catches what is thrown and stays open then.\<close>

definition onSave :: "env \<Rightarrow> issue_filters \<Rightarrow> string \<Rightarrow> json \<Rightarrow> issue_panel \<Rightarrow> hook \<times> http \<Rightarrow> issue_panel \<times> hook \<times> http" where
  "onSave env f k data s w =
     (case useIssues_updateIssue env (Some (issue_query f)) k data w of
        (Inl e, w1) \<Rightarrow> (s, w1) | (Inr x, w1) \<Rightarrow> (s\<lparr>editing_id := None\<rparr>, w1))"

text \<open>The message that is put before the chat when a fix is started.\<close>

definition fix_message :: "issue \<Rightarrow> string \<Rightarrow> string" where
  "fix_message i branch =
     ''Fix issue: \"'' @ is_title i @ ''\"'' @ [newline, newline] @ ''Branch: '' @ branch @ [newline] @
     ''Severity: '' @ is_severity i @ [newline, newline] @ or_string (is_description i) ''No description''"

text \<open>The mark beside the export: it shows the end of one for a while, by one timer for both of its outcomes.\<close>

definition export_ended :: "bool \<Rightarrow> issue_panel \<Rightarrow> issue_panel" where
  "export_ended ok s =
     (if ok then s\<lparr>export_done := True\<rparr> else s\<lparr>export_error := True\<rparr>)
       \<lparr>export_timer := Some (export_timers s, ok), export_timers := Suc (export_timers s)\<rparr>"

definition export_timer_fires :: "issue_panel \<Rightarrow> issue_panel" where
  "export_timer_fires s =
     (case export_timer s of None \<Rightarrow> s
      | Some (h, ok) \<Rightarrow>
          (if ok then s\<lparr>export_done := False\<rparr> else s\<lparr>export_error := False\<rparr>)\<lparr>export_timer := None\<rparr>)"

text \<open>Which mark is shown: the failure goes first.\<close>

definition export_mark :: "issue_panel \<Rightarrow> string" where
  "export_mark s = (if export_error s then ''failed'' else if export_done s then ''done'' else ''export'')"

subsection \<open>Reporting and editing an issue\<close>

record issue_form =
  if_title :: string
  if_description :: string
  if_severity :: string
  if_project :: string
  if_app :: bool
  if_steps :: string
  if_submitting :: bool

definition new_issue_form :: "string list \<Rightarrow> issue_form" where
  "new_issue_form projects =
     \<lparr>if_title = [], if_description = [], if_severity = ''medium'', if_project = (case projects of [] \<Rightarrow> [] | p # _ \<Rightarrow> p),
      if_app = False, if_steps = [], if_submitting = False\<rparr>"

definition choose_app_scope :: "issue_form \<Rightarrow> issue_form" where
  "choose_app_scope f = f\<lparr>if_app := True, if_project := []\<rparr>"

definition choose_project_scope :: "issue_form \<Rightarrow> issue_form" where
  "choose_project_scope f = f\<lparr>if_app := False\<rparr>"

definition null_if_blank :: "string \<Rightarrow> json" where
  "null_if_blank t = (if trim t = [] then JNull else JStr (trim t))"

definition issue_request :: "issue_form \<Rightarrow> json" where
  "issue_request f =
     js_object
       [(''project_id'', if if_app f then None else Some (JStr (if_project f))),
        (''title'', Some (JStr (trim (if_title f)))),
        (''description'', Some (null_if_blank (if_description f))),
        (''severity'', Some (JStr (if_severity f))),
        (''reproduction_steps'', Some (null_if_blank (if_steps f))),
        (''is_app_issue'', if if_app f then Some (JBool True) else None)]"

text \<open>What is sent, if anything; the button is disabled while a report is under way, the key is not.\<close>

definition handleSubmit :: "issue_form \<Rightarrow> json option \<times> issue_form" where
  "handleSubmit f =
     (if trim (if_title f) = [] \<or> (\<not> if_app f \<and> if_project f = []) then (None, f)
      else (Some (issue_request f), f\<lparr>if_submitting := True\<rparr>))"

definition report_button :: "issue_form \<Rightarrow> json option \<times> issue_form" where
  "report_button f = (if if_submitting f then (None, f) else handleSubmit f)"

definition report_key :: "string \<Rightarrow> bool \<Rightarrow> issue_form \<Rightarrow> json option \<times> issue_form" where
  "report_key key shift f = (if key = ''Enter'' \<and> \<not> shift then handleSubmit f else (None, f))"

record issue_edit =
  ie_title :: string
  ie_description :: string
  ie_severity :: string
  ie_status :: string
  ie_app :: bool
  ie_steps :: string

definition edit_of :: "issue \<Rightarrow> issue_edit" where
  "edit_of i =
     \<lparr>ie_title = is_title i, ie_description = or_string (is_description i) [], ie_severity = is_severity i,
      ie_status = is_status i, ie_app = is_app i, ie_steps = or_string (is_steps i) []\<rparr>"

definition edit_request :: "issue_edit \<Rightarrow> json option" where
  "edit_request e =
     (if trim (ie_title e) = [] then None
      else Some (js_object
        [(''title'', Some (JStr (trim (ie_title e)))), (''description'', Some (null_if_blank (ie_description e))),
         (''severity'', Some (JStr (ie_severity e))), (''status'', Some (JStr (ie_status e))),
         (''reproduction_steps'', Some (null_if_blank (ie_steps e))), (''is_app_issue'', Some (JBool (ie_app e)))]))"

text \<open>The buttons of a card.\<close>

definition fix_offered :: "issue \<Rightarrow> bool" where
  "fix_offered i \<longleftrightarrow> is_status i = ''open''"

definition resolve_offered :: "issue \<Rightarrow> bool" where
  "resolve_offered i \<longleftrightarrow> is_status i = ''open'' \<or> is_status i = ''in_progress''"

text \<open>The link to the changes is opened when the parser of URLs (a parameter: the protocol) takes it for one of the web.\<close>

definition pr_link_opened :: "(string \<Rightarrow> string option) \<Rightarrow> string \<Rightarrow> bool" where
  "pr_link_opened protocol url \<longleftrightarrow> protocol url = Some ''http:'' \<or> protocol url = Some ''https:''"

text \<open>The list of issues has those of the application first, and each part in the order of the server.\<close>

lemma app_issues_first:
  "sortedIssues issues = filter is_app issues @ filter (\<lambda>i. \<not> is_app i) issues"
proof -
  let ?k = "\<lambda>i. if is_app i then 0 else 1 :: nat"
  have front: "insort_key ?k i ls = i # ls" if "is_app i" for i ls using that by (cases ls) simp_all
  have behind: "insort_key ?k i (as @ bs) = as @ i # bs"
    if "\<not> is_app i" "\<forall>a \<in> set as. is_app a" "\<forall>b \<in> set bs. \<not> is_app b" for i as bs
    using that by (induction as) (cases bs; simp)+
  show ?thesis unfolding sortedIssues_def
    by (induction issues) (simp_all add: front behind)
qed

text \<open>A report goes to the application or to a project, never to both or none, and has a title.\<close>

lemma report_addressed:
  assumes "fst (handleSubmit f) = Some j"
  shows "(member j ''is_app_issue'' = Some (JBool True)) \<longleftrightarrow> member j ''project_id'' = None"
    "\<exists>t. member j ''title'' = Some (JStr t) \<and> t \<noteq> [] \<and> trim t = t"
  using assms
  by (auto simp: handleSubmit_def issue_request_def js_object_def map_of_drop_undefined null_if_blank_def trim_idem split: if_splits)

text \<open>Pressing Enter again while a report is under way sends it a second time.\<close>

lemma enter_reports_twice:
  assumes "fst (report_key ''Enter'' False f) = Some j"
  shows "fst (report_key ''Enter'' False (snd (report_key ''Enter'' False f))) = Some j"
  using assms by (auto simp: report_key_def handleSubmit_def issue_request_def split: if_splits)

lemma button_reports_once: "fst (report_button f) = Some j \<Longrightarrow> fst (report_button (snd (report_button f))) = None"
  by (auto simp: report_button_def handleSubmit_def split: if_splits)

text \<open>An export that succeeds soon after one that failed cancels the timer that would have hidden the failure: the
  mark shows the failure for good.\<close>

lemma export_failure_stays:
  "export_mark (export_timer_fires (export_ended True (export_ended False s))) = ''failed''"
  by (simp add: export_mark_def export_timer_fires_def export_ended_def)

lemma export_mark_hidden:
  "\<not> export_error s \<Longrightarrow> \<not> export_done s \<Longrightarrow> export_mark (export_timer_fires (export_ended ok s)) = ''export''"
  by (simp add: export_mark_def export_timer_fires_def export_ended_def)

subsection \<open>Notes\<close>

record note_entry =
  nt_id :: string
  nt_title :: "string option"
  nt_body :: string
  nt_project :: "string option"
  nt_category :: "string option"
  nt_pinned :: bool

record note_form =
  nf_body :: string
  nf_category :: string
  nf_project :: string
  nf_generate :: bool
  nf_submitting :: bool

definition empty_note_form :: note_form where
  "empty_note_form = \<lparr>nf_body = [], nf_category = [], nf_project = [], nf_generate = False, nf_submitting = False\<rparr>"

definition null_if_empty :: "string \<Rightarrow> json" where
  "null_if_empty t = (if t = [] then JNull else JStr t)"

definition submit_note :: "note_form \<Rightarrow> json option \<times> note_form" where
  "submit_note f =
     (if nf_submitting f then (None, f)
      else if trim (nf_body f) = [] then (None, f)
      else (Some (js_object
        [(''body'', Some (JStr (trim (nf_body f)))), (''category_id'', Some (null_if_empty (nf_category f))),
         (''project_id'', Some (null_if_empty (nf_project f))), (''generate_title'', Some (JBool (nf_generate f)))]),
        f\<lparr>nf_submitting := True\<rparr>))"

text \<open>The submission has ended, and the form is still there or not.\<close>

definition note_submitted :: "bool \<Rightarrow> bool \<Rightarrow> note_form \<Rightarrow> note_form" where
  "note_submitted mounted ok f =
     (let f1 = (if ok \<and> mounted then f\<lparr>nf_body := [], nf_category := [], nf_project := [], nf_generate := False\<rparr> else f)
      in if mounted then f1\<lparr>nf_submitting := False\<rparr> else f1)"

definition note_query :: "string \<Rightarrow> string \<Rightarrow> list_notes_params" where
  "note_query statusFilter categoryFilter =
     \<lparr>notes_project_id = None, notes_category_id = (if categoryFilter = ''all'' then None else Some categoryFilter),
      notes_status = (if statusFilter = ''all'' then None else Some statusFilter), notes_pinned = None,
      notes_limit = None, notes_offset = None\<rparr>"

definition item_request :: "string \<Rightarrow> string \<Rightarrow> json" where
  "item_request editTitle editBody =
     js_object [(''title'', Some (null_if_blank editTitle)), (''body'', Some (JStr editBody))]"

text \<open>One note is sent at a time.\<close>

lemma note_sent_once: "fst (submit_note f) = Some j \<Longrightarrow> fst (submit_note (snd (submit_note f))) = None"
  by (auto simp: submit_note_def split: if_splits)

subsection \<open>The board of notes\<close>

text \<open>\<open>notesByProject\<close>: the buckets, by the project or none, in the order in which they come up.\<close>

fun add_note :: "note_entry \<Rightarrow> (string option \<times> note_entry list) list \<Rightarrow> (string option \<times> note_entry list) list" where
  "add_note n [] = [(nt_project n, [n])]"
| "add_note n ((k, ns) # bs) = (if k = nt_project n then (k, ns @ [n]) # bs else (k, ns) # add_note n bs)"

definition notesByProject :: "note_entry list \<Rightarrow> (string option \<times> note_entry list) list" where
  "notesByProject notes = fold add_note notes []"

definition bucket :: "note_entry list \<Rightarrow> string option \<Rightarrow> note_entry list" where
  "bucket notes k = nullish (map_of (notesByProject notes) k) []"

text \<open>The columns: the general one, and one for each project of the list.\<close>

definition columns :: "note_entry list \<Rightarrow> string list \<Rightarrow> (string option \<times> note_entry list) list" where
  "columns notes projects = (None, bucket notes None) # map (\<lambda>p. (Some p, bucket notes (Some p))) projects"

datatype board_change = CopyNote json | MoveNote string json

definition note_json :: "string option \<Rightarrow> json" where
  "note_json x = (case x of None \<Rightarrow> JNull | Some t \<Rightarrow> JStr t)"

text \<open>A note was dropped on a column: with the shift key a copy is made, else it is moved.\<close>

definition board_drop :: "note_entry list \<Rightarrow> bool \<Rightarrow> string \<Rightarrow> string option \<Rightarrow> board_change option" where
  "board_drop notes shiftHeld noteId target =
     (if noteId = [] then None
      else case find (\<lambda>n. nt_id n = noteId) notes of
        None \<Rightarrow> None
      | Some n \<Rightarrow>
          if nt_project n = target then None
          else if shiftHeld
          then Some (CopyNote (js_object
            [(''title'', map_option JStr (nt_title n)), (''body'', Some (JStr (nt_body n))),
             (''project_id'', Some (note_json target)), (''category_id'', map_option JStr (nt_category n)),
             (''pinned'', Some (JBool (nt_pinned n)))]))
          else Some (MoveNote noteId (js_object [(''project_id'', Some (note_json target))])))"

definition handleDragEnd ::
  "env \<Rightarrow> list_notes_params option \<Rightarrow> note_entry list \<Rightarrow> bool \<Rightarrow> string \<Rightarrow> string option \<Rightarrow> hook \<times> http \<Rightarrow> hook \<times> http" where
  "handleDragEnd env filters notes shiftHeld noteId target w =
     (case board_drop notes shiftHeld noteId target of
        None \<Rightarrow> w
      | Some (CopyNote data) \<Rightarrow> snd (useNotes_createNote env filters data w)
      | Some (MoveNote k data) \<Rightarrow> snd (useNotes_updateNote env filters k data w))"

lemma map_of_add_note:
  "map_of (add_note n bs) k = (if k = nt_project n then Some (nullish (map_of bs k) [] @ [n]) else map_of bs k)"
  by (induction n bs rule: add_note.induct) auto

lemma bucket_filter: "bucket notes k = filter (\<lambda>n. nt_project n = k) notes"
proof -
  have "nullish (map_of (fold add_note notes bs) k) [] = nullish (map_of bs k) [] @ filter (\<lambda>n. nt_project n = k) notes" for bs
    by (induction "notes" arbitrary: bs) (auto simp: map_of_add_note)
  then show ?thesis by (simp add: bucket_def notesByProject_def)
qed

text \<open>The columns of the board share out the notes: each note of a listed project, or of none, is in exactly one
  column, as often as it is in the list, every column has the notes of its project in the order of the list, and
  a note is hidden exactly when its project is not listed.\<close>
theorem board_shares_out_notes:
  assumes "distinct projects"
  shows "mset (concat (map snd (columns notes projects))) =
      mset (filter (\<lambda>n. case nt_project n of None \<Rightarrow> True | Some p \<Rightarrow> p \<in> set projects) notes) \<and>
    (\<forall>(k, ns) \<in> set (columns notes projects). ns = filter (\<lambda>n. nt_project n = k) notes)"
proof (rule conjI)
  have projects: "mset (concat (map (\<lambda>p. filter (\<lambda>n. nt_project n = Some p) notes) projects)) =
      mset (filter (\<lambda>n. \<exists>p \<in> set projects. nt_project n = Some p) notes)"
    using assms
  proof (induction projects)
    case (Cons p ps)
    have "filter_mset (\<lambda>n. nt_project n = Some p \<or> (\<exists>q \<in> set ps. nt_project n = Some q)) (mset notes) =
        filter_mset (\<lambda>n. nt_project n = Some p) (mset notes) + filter_mset (\<lambda>n. \<exists>q \<in> set ps. nt_project n = Some q) (mset notes)"
      using Cons.prems by (intro multiset_eqI) auto
    then show ?case using Cons by simp
  qed simp
  have "filter_mset (\<lambda>n. case nt_project n of None \<Rightarrow> True | Some p \<Rightarrow> p \<in> set projects) (mset notes) =
      filter_mset (\<lambda>n. nt_project n = None) (mset notes) + filter_mset (\<lambda>n. \<exists>p \<in> set projects. nt_project n = Some p) (mset notes)"
    by (intro multiset_eqI) (auto split: option.split)
  with projects show "mset (concat (map snd (columns notes projects))) =
      mset (filter (\<lambda>n. case nt_project n of None \<Rightarrow> True | Some p \<Rightarrow> p \<in> set projects) notes)"
    by (simp add: columns_def bucket_filter comp_def)
qed (auto simp: columns_def bucket_filter)

lemma board_shares_out_notes_witness:
  "mset (concat (map snd (columns
      [\<lparr>nt_id = ''a'', nt_title = None, nt_body = ''x'', nt_project = Some ''p'', nt_category = None, nt_pinned = False\<rparr>,
       \<lparr>nt_id = ''b'', nt_title = None, nt_body = ''y'', nt_project = Some ''q'', nt_category = None, nt_pinned = False\<rparr>]
      [''p'', ''r'']))) =
   {#\<lparr>nt_id = ''a'', nt_title = None, nt_body = ''x'', nt_project = Some ''p'', nt_category = None, nt_pinned = False\<rparr>#}"
  using board_shares_out_notes [of "[''p'', ''r'']"
      "[\<lparr>nt_id = ''a'', nt_title = None, nt_body = ''x'', nt_project = Some ''p'', nt_category = None, nt_pinned = False\<rparr>,
       \<lparr>nt_id = ''b'', nt_title = None, nt_body = ''y'', nt_project = Some ''q'', nt_category = None, nt_pinned = False\<rparr>]"]
  by simp

text \<open>A note that is moved is in the column that it was dropped on and in no other.\<close>

lemma moved_note_in_target:
  assumes "find (\<lambda>n. nt_id n = k) notes = Some n"
  shows "n\<lparr>nt_project := target\<rparr> \<in> set (bucket (map_where nt_id k (\<lambda>n. n\<lparr>nt_project := target\<rparr>) notes) target)"
    "target' \<noteq> target \<Longrightarrow>
     \<forall>n' \<in> set (bucket (map_where nt_id k (\<lambda>n. n\<lparr>nt_project := target\<rparr>) notes) target'). nt_id n' \<noteq> k"
proof -
  have "n \<in> set notes" "nt_id n = k" using assms by (auto simp: find_Some_iff)
  then show "n\<lparr>nt_project := target\<rparr> \<in> set (bucket (map_where nt_id k (\<lambda>n. n\<lparr>nt_project := target\<rparr>) notes) target)"
    by (auto simp: bucket_filter map_where_def image_iff intro!: bexI [of _ n])
  assume other: "target' \<noteq> target"
  show "\<forall>n' \<in> set (bucket (map_where nt_id k (\<lambda>n. n\<lparr>nt_project := target\<rparr>) notes) target'). nt_id n' \<noteq> k"
  proof (rule ballI)
    fix n'
    assume "n' \<in> set (bucket (map_where nt_id k (\<lambda>n. n\<lparr>nt_project := target\<rparr>) notes) target')"
    then obtain x where x: "n' = (if nt_id x = k then x\<lparr>nt_project := target\<rparr> else x)" and "nt_project n' = target'"
      unfolding bucket_filter map_where_def set_filter set_map by blast
    then show "nt_id n' \<noteq> k" using other by (cases "nt_id x = k") simp_all
  qed
qed

subsection \<open>Help\<close>

record help_panel =
  help_query :: string
  help_results :: "json list option"
  help_searching :: bool
  help_timer :: "string option"
  help_searches :: "string list"
  feedback_saving :: "string option"
  feedback_given :: "string \<rightharpoonup> bool"

definition closed_help :: "help_panel \<Rightarrow> help_panel" where
  "closed_help s = s\<lparr>help_query := [], help_results := None, feedback_saving := None, help_timer := None\<rparr>"

text \<open>Typing arms the timer anew; its search is that of the text that was typed.\<close>

definition handleSearch :: "string \<Rightarrow> help_panel \<Rightarrow> help_panel" where
  "handleSearch q s =
     (let s1 = s\<lparr>help_query := q, help_timer := None\<rparr>
      in if trim q = [] then s1\<lparr>help_results := None\<rparr> else s1\<lparr>help_timer := Some q\<rparr>)"

definition search_timer_fires :: "help_panel \<Rightarrow> help_panel" where
  "search_timer_fires s =
     (case help_timer s of None \<Rightarrow> s
      | Some q \<Rightarrow> s\<lparr>help_timer := None, help_searching := True, help_searches := help_searches s @ [q]\<rparr>)"

text \<open>The answer to a search that is under way, in any order; an exception empties the results.\<close>

definition search_answered :: "nat \<Rightarrow> json list option \<Rightarrow> help_panel \<Rightarrow> help_panel" where
  "search_answered i r s =
     (if i < length (help_searches s)
      then s\<lparr>help_searches := take i (help_searches s) @ drop (Suc i) (help_searches s), help_results := r, help_searching := False\<rparr>
      else s)"

definition start_feedback :: "string \<Rightarrow> help_panel \<Rightarrow> bool \<times> help_panel" where
  "start_feedback topic s =
     (if feedback_saving s = Some topic then (False, s) else (True, s\<lparr>feedback_saving := Some topic\<rparr>))"

definition feedback_answered :: "string \<Rightarrow> bool \<Rightarrow> bool \<Rightarrow> help_panel \<Rightarrow> help_panel" where
  "feedback_answered topic helpful ok s =
     (if ok then s\<lparr>feedback_given := (feedback_given s)(topic \<mapsto> helpful)\<rparr> else s)\<lparr>feedback_saving := None\<rparr>"

text \<open>The first sentence: up to the first full stop, exclamation or question mark that a blank follows.\<close>

fun sentence_end :: "string \<Rightarrow> nat option" where
  "sentence_end (c # d # s) =
     (if c \<in> set ''.!?'' \<and> white d then Some 0 else map_option Suc (sentence_end (d # s)))"
| "sentence_end _ = None"

definition getQuickAnswer :: "string \<Rightarrow> string" where
  "getQuickAnswer body =
     (let trimmed = trim body
      in if trimmed = [] then []
         else case sentence_end trimmed of
           None \<Rightarrow> trimmed
         | Some stop \<Rightarrow> if stop = 0 then trimmed else take (Suc stop) trimmed)"

lemma quick_answer_prefix: "\<exists>rest. trim body = getQuickAnswer body @ rest"
proof -
  have "\<exists>rest. t = take (Suc n) t @ rest" for n and t :: string using append_take_drop_id [of "Suc n" t] by metis
  then show ?thesis by (auto simp: getQuickAnswer_def Let_def split: option.split)
qed

text \<open>Only the text that was typed last is ever waiting to be searched for, and never a blank one.\<close>

lemma typed_last_is_searched:
  "help_timer (fold handleSearch (qs @ [q]) s) = (if trim q = [] then None else Some q)"
  by (simp add: handleSearch_def Let_def)

text \<open>Emptying the field, or closing the panel, does not stop a search that is under way: its results are shown over
  the topics; and of two searches the one that is answered last is shown, not the one that was typed last.\<close>

lemma late_results_shown:
  assumes "help_searches s = [q]"
  shows "help_results (search_answered 0 (Some rs) (handleSearch [] s)) = Some rs"
    "help_results (search_answered 0 (Some rs) (closed_help s)) = Some rs"
  using assms by (simp_all add: search_answered_def handleSearch_def closed_help_def Let_def trim_def trim_end_by_def)

lemma older_search_wins:
  assumes "help_searches s = [older, newer]"
  shows "help_results (search_answered 0 (Some old) (search_answered 1 (Some new) s)) = Some old"
  using assms by (simp add: search_answered_def)

end
