(* ===== verification/Project_Pages.thy ===== *)
theory Project_Pages
  imports Technologies Filenames Sse_Stream
begin

section \<open>The page of the projects\<close>

text \<open>
  \<^verbatim>\<open>apps/chat/app/projects/page.tsx\<close> with \<^verbatim>\<open>components/projects/\<close>.  The page holds one dialog each for creating,
  editing, deleting, importing (three ways), cloning and exporting a project.  A call of a hook is a value:
  what the page asks for, in flight until it is answered.  \<open>new URL\<close> is the browser's and a parameter.
\<close>

subsection \<open>URLs\<close>

record url_parts =
  url_protocol :: string
  url_hostname :: string
  url_pathname :: string

type_synonym url_parser = "string \<Rightarrow> url_parts option"

definition blocked_hosts :: "string list" where
  "blocked_hosts = [''localhost'', ''127.0.0.1'', ''[::1]'', ''0.0.0.0'']"

text \<open>The expression \<^verbatim>\<open>^(10|172\.(1[6-9]|2\d|3[01])|192\.168)\.\<close>, tested on a host: the text up to the dot that
  ends the group.\<close>

definition second_octet :: "char \<Rightarrow> char \<Rightarrow> bool" where
  "second_octet a b \<longleftrightarrow>
     (a = CHR ''1'' \<and> b \<in> set ''6789'') \<or> (a = CHR ''2'' \<and> b \<in> set ''0123456789'') \<or> (a = CHR ''3'' \<and> b \<in> set ''01'')"

definition private_prefix :: "string \<Rightarrow> bool" where
  "private_prefix h \<longleftrightarrow>
     take 3 h = ''10.'' \<or>
     take 4 h = ''172.'' \<and> (case drop 4 h of a # b # c # _ \<Rightarrow> second_octet a b \<and> c = CHR ''.'' | _ \<Rightarrow> False) \<or>
     take 8 h = ''192.168.''"

definition is_private_host :: "string \<Rightarrow> bool" where
  "is_private_host h \<longleftrightarrow> h \<in> set blocked_hosts \<or> private_prefix h"

definition has_space :: "string \<Rightarrow> bool" where
  "has_space s \<longleftrightarrow> (\<exists>c \<in> set s. white c)"

text \<open>The two checks: a message, or nothing.\<close>

definition git_url_error :: "url_parser \<Rightarrow> string \<Rightarrow> string option" where
  "git_url_error parse u =
     (case parse (trim u) of
        None \<Rightarrow> Some ''Enter a valid HTTPS Git repository URL.''
      | Some p \<Rightarrow>
          (let hasSpaces = has_space (url_hostname p) \<or> has_space (url_pathname p);
               hasRepoPath = 1 < length (trim (url_pathname p)) \<and> trim (url_pathname p) \<noteq> ''/''
           in if url_protocol p \<noteq> ''https:'' \<or> url_hostname p = [] \<or> \<not> hasRepoPath \<or> hasSpaces \<or>
                is_private_host (url_hostname p)
              then Some ''Enter a valid HTTPS Git repository URL with a repository path.'' else None))"

definition website_url_error :: "url_parser \<Rightarrow> string \<Rightarrow> string option" where
  "website_url_error parse u =
     (case parse (trim u) of
        None \<Rightarrow> Some ''Enter a valid HTTP or HTTPS URL.''
      | Some p \<Rightarrow>
          if url_protocol p \<noteq> ''http:'' \<and> url_protocol p \<noteq> ''https:''
          then Some ''Only HTTP and HTTPS URLs are supported.''
          else if url_hostname p = [] \<or> has_space (url_hostname p) \<or> is_private_host (url_hostname p)
          then Some ''Enter a valid public website URL (private/local hosts are blocked).'' else None)"

subsection \<open>The dialogs\<close>

record project =
  pr_id :: string
  pr_name :: string
  pr_path :: string

record template =
  tpl_id :: string
  tpl_category :: string

record create_dialog =
  create_open :: bool
  create_name :: string
  create_path :: string
  selected_template :: "template option"
  category_filter :: "string option"
  selected_techs :: "string list"
  submitting :: bool
  form_error :: "string option"

definition initial_create :: create_dialog where
  "initial_create =
     \<lparr>create_open = False, create_name = [], create_path = [], selected_template = None, category_filter = None,
      selected_techs = [], submitting = False, form_error = None\<rparr>"

record edit_dialog =
  edit_open :: bool
  edit_project :: "project option"
  edit_name :: string
  edit_path :: string
  edit_submitting :: bool
  edit_error :: "string option"

definition initial_edit :: edit_dialog where
  "initial_edit =
     \<lparr>edit_open = False, edit_project = None, edit_name = [], edit_path = [], edit_submitting = False, edit_error = None\<rparr>"

record delete_dialog =
  delete_open :: bool
  delete_target :: "project option"
  deleting :: bool
  delete_error :: "string option"

definition initial_delete :: delete_dialog where
  "initial_delete = \<lparr>delete_open = False, delete_target = None, deleting = False, delete_error = None\<rparr>"

record git_dialog =
  git_open :: bool
  git_url :: string
  git_branch :: string
  git_name :: string
  git_install_deps :: bool
  git_error :: "string option"

definition initial_git :: git_dialog where
  "initial_git =
     \<lparr>git_open = False, git_url = [], git_branch = [], git_name = [], git_install_deps = True, git_error = None\<rparr>"

text \<open>A chosen file is its name and its bytes.\<close>

record archive_dialog =
  archive_open :: bool
  archive_name :: string
  archive_file :: "(string \<times> string) option"
  archive_install_deps :: bool
  archive_error :: "string option"

definition initial_archive :: archive_dialog where
  "initial_archive =
     \<lparr>archive_open = False, archive_name = [], archive_file = None, archive_install_deps = True, archive_error = None\<rparr>"

record website_dialog =
  website_open :: bool
  website_name :: string
  website_url :: string
  website_depth :: real
  website_max_pages :: real
  website_include_assets :: bool
  website_same_domain_only :: bool
  website_install_deps :: bool
  website_error :: "string option"

definition initial_website :: website_dialog where
  "initial_website =
     \<lparr>website_open = False, website_name = [], website_url = [], website_depth = 2, website_max_pages = 30,
      website_include_assets = True, website_same_domain_only = True, website_install_deps = False,
      website_error = None\<rparr>"

record clone_dialog =
  clone_open :: bool
  clone_target :: "project option"
  clone_name :: string
  clone_path :: string
  clone_submitting :: bool
  clone_error :: "string option"

definition initial_clone :: clone_dialog where
  "initial_clone =
     \<lparr>clone_open = False, clone_target = None, clone_name = [], clone_path = [], clone_submitting = False,
      clone_error = None\<rparr>"

record docker_dialog =
  docker_open :: bool
  docker_target :: "project option"
  image_name :: string
  include_compose :: bool
  include_tar :: bool
  exporting :: bool
  docker_result :: "json option"
  docker_error :: "string option"

definition initial_docker :: docker_dialog where
  "initial_docker =
     \<lparr>docker_open = False, docker_target = None, image_name = [], include_compose = True, include_tar = False,
      exporting = False, docker_result = None, docker_error = None\<rparr>"

text \<open>Opening and closing through the dialog: Escape, the cross, a click beside it.  The Cancel buttons only lower
  \<open>open\<close>.\<close>

definition create_open_change :: "bool \<Rightarrow> create_dialog \<Rightarrow> create_dialog" where
  "create_open_change b d =
     (if b then d\<lparr>create_open := True\<rparr>
      else d\<lparr>create_open := False, form_error := None, create_name := [], create_path := [],
             selected_template := None, category_filter := None, selected_techs := []\<rparr>)"

definition edit_open_change :: "bool \<Rightarrow> edit_dialog \<Rightarrow> edit_dialog" where
  "edit_open_change b d = (if b then d\<lparr>edit_open := True\<rparr> else d\<lparr>edit_open := False, edit_error := None\<rparr>)"

definition delete_open_change :: "bool \<Rightarrow> delete_dialog \<Rightarrow> delete_dialog" where
  "delete_open_change b d =
     (if b then d\<lparr>delete_open := True\<rparr> else d\<lparr>delete_open := False, delete_error := None\<rparr>)"

definition git_open_change :: "bool \<Rightarrow> git_dialog \<Rightarrow> git_dialog" where
  "git_open_change b d = (if b then d\<lparr>git_open := True\<rparr> else initial_git)"

definition archive_open_change :: "bool \<Rightarrow> archive_dialog \<Rightarrow> archive_dialog" where
  "archive_open_change b d = (if b then d\<lparr>archive_open := True\<rparr> else initial_archive)"

definition website_open_change :: "bool \<Rightarrow> website_dialog \<Rightarrow> website_dialog" where
  "website_open_change b d = (if b then d\<lparr>website_open := True\<rparr> else initial_website)"

definition clone_open_change :: "bool \<Rightarrow> clone_dialog \<Rightarrow> clone_dialog" where
  "clone_open_change b d = (if b then d\<lparr>clone_open := True\<rparr> else d\<lparr>clone_open := False, clone_error := None\<rparr>)"

definition handleClose :: "bool \<Rightarrow> docker_dialog \<Rightarrow> docker_dialog" where
  "handleClose b d =
     (if b then d\<lparr>docker_open := True\<rparr> else d\<lparr>docker_open := False, docker_result := None, docker_error := None\<rparr>)"

subsection \<open>What the page asks for\<close>

record create_request =
  new_name :: string
  new_path :: string
  new_type :: "string option"
  new_template_id :: "string option"
  new_technologies :: "string list option"

record website_request =
  site_name :: string
  site_url :: string
  site_depth :: real
  site_assets :: bool
  site_same_domain :: bool
  site_install :: bool
  site_max_pages :: real
  site_strategy :: string

datatype page_call =
  CreateProject create_request
| UpdateProject string string string
| DeleteProject string
| ImportGit string string "string option" bool
| ImportArchive string "string \<times> string" bool
| ImportWebsite website_request
| ExportProject string
| CloneProject string string "string option"
| ExportDocker string "string option" bool bool
| DownloadTar string string

text \<open>The answer: the message of what is thrown, if it is an \<open>Error\<close>, or the result.\<close>

type_synonym page_answer = "string option + json option"

text \<open>An empty text is \<open>undefined\<close>.\<close>

definition or_undefined :: "string \<Rightarrow> string option" where
  "or_undefined v = (if v = [] then None else Some v)"

subsection \<open>Creating\<close>

text \<open>\<open>mergedPreview\<close>: what the resolved technologies bring, ports in order, services by first appearance.\<close>

record technology_info = technology +
  exposed_ports :: "nat list"
  sidecar_names :: "string list"

definition find_technology :: "technology_info list \<Rightarrow> string \<Rightarrow> technology_info option" where
  "find_technology techs k = find (\<lambda>t. tech_id t = k) techs"

definition mergedPreview :: "technology_info list \<Rightarrow> string list \<Rightarrow> nat list \<times> string list" where
  "mergedPreview techs resolved =
     (let found = List.map_filter (find_technology techs) resolved
      in (sort (fold set_add (concat (map exposed_ports found)) []), fold set_add (concat (map sidecar_names found)) []))"

definition plain_technologies :: "technology_info list \<Rightarrow> technology list" where
  "plain_technologies = map technology.truncate"

definition resolvedTechs :: "technology_info list \<Rightarrow> create_dialog \<Rightarrow> string list" where
  "resolvedTechs techs d = fst (resolve_selected_technologies (selected_techs d) (plain_technologies techs))"

definition autoSelected :: "technology_info list \<Rightarrow> create_dialog \<Rightarrow> string list" where
  "autoSelected techs d = snd (resolve_selected_technologies (selected_techs d) (plain_technologies techs))"

definition conflicts :: "technology_info list \<Rightarrow> create_dialog \<Rightarrow> (string \<times> string) list" where
  "conflicts techs d = get_conflicts (resolvedTechs techs d) (plain_technologies techs)"

definition handleToggleTech :: "string \<Rightarrow> create_dialog \<Rightarrow> create_dialog" where
  "handleToggleTech k d =
     d\<lparr>selected_techs := (if k \<in> set (selected_techs d) then removeAll k (selected_techs d) else selected_techs d @ [k])\<rparr>"

text \<open>The box of a technology is disabled by a conflict with the selection, and when another one requires it.\<close>

definition box_disabled :: "technology_info list \<Rightarrow> string \<Rightarrow> create_dialog \<Rightarrow> bool" where
  "box_disabled techs k d \<longleftrightarrow> truthy_string (map_of (conflicts techs d) k) \<or> k \<in> set (autoSelected techs d)"

definition toggle_box :: "technology_info list \<Rightarrow> string \<Rightarrow> create_dialog \<Rightarrow> create_dialog" where
  "toggle_box techs k d = (if box_disabled techs k d then d else handleToggleTech k d)"

definition filteredTemplates :: "template list \<Rightarrow> create_dialog \<Rightarrow> template list" where
  "filteredTemplates templates d =
     (if truthy_string (category_filter d) then filter (\<lambda>t. Some (tpl_category t) = category_filter d) templates
      else templates)"

definition start_create :: "technology_info list \<Rightarrow> create_dialog \<Rightarrow> create_dialog \<times> page_call option" where
  "start_create techs d =
     (if trim (create_name d) = [] \<or> trim (create_path d) = []
      then (d\<lparr>form_error := Some ''Name and path are required.''\<rparr>, None)
      else (d\<lparr>submitting := True, form_error := None\<rparr>,
        Some (CreateProject
          \<lparr>new_name = trim (create_name d), new_path = trim (create_path d),
           new_type = map_option tpl_category (selected_template d),
           new_template_id = map_option tpl_id (selected_template d),
           new_technologies = (if resolvedTechs techs d = [] then None else Some (resolvedTechs techs d))\<rparr>)))"

definition create_answered :: "page_answer \<Rightarrow> create_dialog \<Rightarrow> create_dialog" where
  "create_answered r d =
     (case r of
        Inl e \<Rightarrow> d\<lparr>form_error := Some (nullish e ''Failed to create project''), submitting := False\<rparr>
      | Inr _ \<Rightarrow> d\<lparr>create_open := False, create_name := [], create_path := [], selected_template := None,
          category_filter := None, selected_techs := [], submitting := False\<rparr>)"

subsection \<open>Editing, deleting, cloning\<close>

definition openEdit :: "project \<Rightarrow> edit_dialog \<Rightarrow> edit_dialog" where
  "openEdit p d =
     d\<lparr>edit_project := Some p, edit_name := pr_name p, edit_path := pr_path p, edit_error := None, edit_open := True\<rparr>"

definition start_edit :: "edit_dialog \<Rightarrow> edit_dialog \<times> page_call option" where
  "start_edit d =
     (case edit_project d of
        None \<Rightarrow> (d, None)
      | Some p \<Rightarrow>
          if trim (edit_name d) = [] \<or> trim (edit_path d) = []
          then (d\<lparr>edit_error := Some ''Name and path are required.''\<rparr>, None)
          else (d\<lparr>edit_submitting := True, edit_error := None\<rparr>,
                Some (UpdateProject (pr_id p) (trim (edit_name d)) (trim (edit_path d)))))"

definition edit_answered :: "page_answer \<Rightarrow> edit_dialog \<Rightarrow> edit_dialog" where
  "edit_answered r d =
     (case r of
        Inl e \<Rightarrow> d\<lparr>edit_error := Some (nullish e ''Failed to update project''), edit_submitting := False\<rparr>
      | Inr _ \<Rightarrow> d\<lparr>edit_open := False, edit_project := None, edit_submitting := False\<rparr>)"

definition openDelete :: "project \<Rightarrow> delete_dialog \<Rightarrow> delete_dialog" where
  "openDelete p d = d\<lparr>delete_target := Some p, delete_error := None, delete_open := True\<rparr>"

definition start_delete :: "delete_dialog \<Rightarrow> delete_dialog \<times> page_call option" where
  "start_delete d =
     (case delete_target d of
        None \<Rightarrow> (d, None)
      | Some p \<Rightarrow> (d\<lparr>deleting := True, delete_error := None\<rparr>, Some (DeleteProject (pr_id p))))"

definition delete_answered :: "page_answer \<Rightarrow> delete_dialog \<Rightarrow> delete_dialog" where
  "delete_answered r d =
     (case r of
        Inl e \<Rightarrow> d\<lparr>delete_error := Some (nullish e ''Failed to delete project''), deleting := False\<rparr>
      | Inr _ \<Rightarrow> d\<lparr>delete_open := False, delete_target := None, deleting := False\<rparr>)"

definition openClone :: "project \<Rightarrow> clone_dialog \<Rightarrow> clone_dialog" where
  "openClone p d =
     d\<lparr>clone_target := Some p, clone_name := pr_name p @ '' (Copy)'', clone_path := pr_path p @ ''-copy'',
       clone_error := None, clone_open := True\<rparr>"

definition start_clone :: "clone_dialog \<Rightarrow> clone_dialog \<times> page_call option" where
  "start_clone d =
     (case clone_target d of
        None \<Rightarrow> (d\<lparr>clone_error := Some ''Name is required.''\<rparr>, None)
      | Some p \<Rightarrow>
          if trim (clone_name d) = [] then (d\<lparr>clone_error := Some ''Name is required.''\<rparr>, None)
          else (d\<lparr>clone_submitting := True, clone_error := None\<rparr>,
                Some (CloneProject (pr_id p) (trim (clone_name d)) (or_undefined (trim (clone_path d))))))"

definition clone_answered :: "page_answer \<Rightarrow> clone_dialog \<Rightarrow> clone_dialog" where
  "clone_answered r d =
     (case r of
        Inl e \<Rightarrow> d\<lparr>clone_error := Some (nullish e ''Clone failed''), clone_submitting := False\<rparr>
      | Inr _ \<Rightarrow> d\<lparr>clone_open := False, clone_target := None, clone_submitting := False\<rparr>)"

subsection \<open>Importing\<close>

definition start_git :: "url_parser \<Rightarrow> git_dialog \<Rightarrow> git_dialog \<times> page_call option" where
  "start_git parse d =
     (if trim (git_url d) = [] \<or> trim (git_name d) = []
      then (d\<lparr>git_error := Some ''Name and Git URL are required.''\<rparr>, None)
      else (case git_url_error parse (git_url d) of
              Some m \<Rightarrow> (d\<lparr>git_error := Some m\<rparr>, None)
            | None \<Rightarrow> (d\<lparr>git_error := None\<rparr>,
                Some (ImportGit (trim (git_name d)) (trim (git_url d)) (or_undefined (trim (git_branch d)))
                  (git_install_deps d)))))"

definition git_answered :: "page_answer \<Rightarrow> git_dialog \<Rightarrow> git_dialog" where
  "git_answered r d =
     (case r of Inl e \<Rightarrow> d\<lparr>git_error := Some (nullish e ''Git import failed'')\<rparr> | Inr _ \<Rightarrow> d)"

definition start_archive :: "archive_dialog \<Rightarrow> archive_dialog \<times> page_call option" where
  "start_archive d =
     (case archive_file d of
        None \<Rightarrow> (d\<lparr>archive_error := Some ''Name and file are required.''\<rparr>, None)
      | Some f \<Rightarrow>
          if trim (archive_name d) = [] then (d\<lparr>archive_error := Some ''Name and file are required.''\<rparr>, None)
          else (d\<lparr>archive_error := None\<rparr>, Some (ImportArchive (trim (archive_name d)) f (archive_install_deps d))))"

definition archive_answered :: "page_answer \<Rightarrow> archive_dialog \<Rightarrow> archive_dialog" where
  "archive_answered r d =
     (case r of Inl e \<Rightarrow> d\<lparr>archive_error := Some (nullish e ''Archive import failed'')\<rparr> | Inr _ \<Rightarrow> d)"

text \<open>The fields of numbers: an empty one counts as the default.\<close>

definition type_depth :: "real option \<Rightarrow> website_dialog \<Rightarrow> website_dialog" where
  "type_depth v d = d\<lparr>website_depth := max 1 (min 5 (nullish v 2))\<rparr>"

definition type_max_pages :: "real option \<Rightarrow> website_dialog \<Rightarrow> website_dialog" where
  "type_max_pages v d = d\<lparr>website_max_pages := max 1 (min 200 (nullish v 30))\<rparr>"

definition start_website :: "url_parser \<Rightarrow> website_dialog \<Rightarrow> website_dialog \<times> page_call option" where
  "start_website parse d =
     (if trim (website_name d) = [] \<or> trim (website_url d) = []
      then (d\<lparr>website_error := Some ''Name and website URL are required.''\<rparr>, None)
      else (case website_url_error parse (website_url d) of
              Some m \<Rightarrow> (d\<lparr>website_error := Some m\<rparr>, None)
            | None \<Rightarrow> (d\<lparr>website_error := None\<rparr>,
                Some (ImportWebsite
                  \<lparr>site_name = trim (website_name d), site_url = trim (website_url d), site_depth = website_depth d,
                   site_assets = website_include_assets d, site_same_domain = website_same_domain_only d,
                   site_install = website_install_deps d, site_max_pages = website_max_pages d,
                   site_strategy = ''auto''\<rparr>))))"

definition website_answered :: "page_answer \<Rightarrow> website_dialog \<Rightarrow> website_dialog" where
  "website_answered r d =
     (case r of Inl e \<Rightarrow> d\<lparr>website_error := Some (nullish e ''Website import failed'')\<rparr> | Inr _ \<Rightarrow> d)"

text \<open>What the status of the hook allows.\<close>

definition isImporting :: "string option \<Rightarrow> bool" where
  "isImporting importStatus =
     (case importStatus of None \<Rightarrow> False | Some st \<Rightarrow> st \<notin> {''completed'', ''failed''})"

definition import_offered :: "string option \<Rightarrow> bool" where
  "import_offered importStatus \<longleftrightarrow> \<not> isImporting importStatus \<and> importStatus \<noteq> Some ''completed''"

text \<open>The words for a status; an unknown one is shown as it is.\<close>

definition import_status_labels :: "(string \<times> string) list" where
  "import_status_labels =
     [(''pending'', ''Queued''), (''cloning'', ''Cloning repository...''), (''crawling'', ''Mirroring website...''),
      (''extracting'', ''Extracting archive...''), (''detecting'', ''Detecting project type...''),
      (''installing'', ''Installing dependencies...''), (''completed'', ''Completed''), (''failed'', ''Failed'')]"

definition import_label :: "string \<Rightarrow> string" where
  "import_label st = or_string (map_of import_status_labels st) st"

subsection \<open>Exporting as an image\<close>

text \<open>The name of the image is what the dialog starts with when it is first shown.\<close>

definition image_char :: "char \<Rightarrow> char" where
  "image_char c = (let n = of_char c :: nat in if (97 \<le> n \<and> n \<le> 122) \<or> (48 \<le> n \<and> n \<le> 57) \<or> n = 45 then c else CHR ''-'')"

definition openDockerExport :: "project \<Rightarrow> docker_dialog \<Rightarrow> docker_dialog" where
  "openDockerExport p d =
     (let d1 = (if docker_target d = None then d\<lparr>image_name := map image_char (to_lower (pr_name p))\<rparr> else d)
      in d1\<lparr>docker_target := Some p, docker_open := True\<rparr>)"

definition start_docker :: "docker_dialog \<Rightarrow> docker_dialog \<times> page_call option" where
  "start_docker d =
     (case docker_target d of
        None \<Rightarrow> (d, None)
      | Some p \<Rightarrow> (d\<lparr>exporting := True, docker_error := None\<rparr>,
          Some (ExportDocker (pr_id p) (or_undefined (trim (image_name d))) (include_compose d) (include_tar d))))"

definition docker_answered :: "page_answer \<Rightarrow> docker_dialog \<Rightarrow> docker_dialog" where
  "docker_answered r d =
     (case r of
        Inl e \<Rightarrow> d\<lparr>docker_error := Some (nullish e ''Docker export failed''), exporting := False\<rparr>
      | Inr res \<Rightarrow> d\<lparr>docker_result := res, exporting := False\<rparr>)"

definition result_image :: "docker_dialog \<Rightarrow> string option" where
  "result_image d = as_string (Option.bind (docker_result d) (\<lambda>j. member j ''image_id''))"

definition start_tar :: "docker_dialog \<Rightarrow> docker_dialog \<times> page_call option" where
  "start_tar d =
     (case docker_target d of
        None \<Rightarrow> (d, None)
      | Some p \<Rightarrow>
          if truthy_string (result_image d) then (d, Some (DownloadTar (pr_id p) (the (result_image d)))) else (d, None))"

definition tar_name :: "docker_dialog \<Rightarrow> string" where
  "tar_name d = or_string (Some (image_name d)) ''project'' @ ''.tar''"

definition tar_answered :: "page_answer \<Rightarrow> docker_dialog \<Rightarrow> docker_dialog" where
  "tar_answered r d =
     (case r of Inl e \<Rightarrow> d\<lparr>docker_error := Some (nullish e ''Download failed'')\<rparr> | Inr _ \<Rightarrow> d)"

subsection \<open>The page\<close>

text \<open>The calls in flight with their numbers, all calls that were made, and what the page last saw of the import
  hook: whether it loads, and the status of the import.\<close>

record projects_page =
  creating :: create_dialog
  editing :: edit_dialog
  removing :: delete_dialog
  git :: git_dialog
  archive :: archive_dialog
  website :: website_dialog
  cloning :: clone_dialog
  docker :: docker_dialog
  in_flight :: "(nat \<times> page_call) list"
  sent_calls :: "page_call list"
  import_loading :: bool
  import_status :: "string option"
  polling_stops :: nat

definition initial_page :: projects_page where
  "initial_page =
     \<lparr>creating = initial_create, editing = initial_edit, removing = initial_delete, git = initial_git,
      archive = initial_archive, website = initial_website, cloning = initial_clone, docker = initial_docker,
      in_flight = [], sent_calls = [], import_loading = False, import_status = None, polling_stops = 0\<rparr>"

datatype dialog = Creating | Editing | Removing | Git | Archive | Website | Cloning | Docker

datatype text_field =
  Create_Name | Create_Path | Edit_Name | Edit_Path | Git_Url | Git_Branch | Git_Name | Archive_Name | Website_Name
| Website_Url | Clone_Name | Clone_Path | Image_Name

datatype tick_box =
  Git_Install | Archive_Install | Website_Assets | Same_Domain | Website_Install | Include_Compose | Include_Tar

datatype page_event =
  OpenChange dialog bool
| Cancel dialog
| Typed text_field string
| Ticked tick_box bool
| TypedDepth "real option"
| TypedPages "real option"
| ChoseTemplate "template option"
| ChoseCategory "string option"
| ClickedBox string
| ChoseFile "(string \<times> string) option"
| OpenEdit project
| OpenDelete project
| OpenClone project
| OpenDocker project
| ExportClicked project
| Submit dialog
| TarClicked
| Answered nat page_answer
| HookRenders bool "string option"

fun shown :: "dialog \<Rightarrow> projects_page \<Rightarrow> bool" where
  "shown Creating s = create_open (creating s)"
| "shown Editing s = edit_open (editing s)"
| "shown Removing s = delete_open (removing s)"
| "shown Git s = git_open (git s)"
| "shown Archive s = archive_open (archive s)"
| "shown Website s = website_open (website s)"
| "shown Cloning s = clone_open (cloning s)"
| "shown Docker s = (docker_open (docker s) \<and> docker_target (docker s) \<noteq> None)"

fun open_change :: "dialog \<Rightarrow> bool \<Rightarrow> projects_page \<Rightarrow> projects_page" where
  "open_change Creating b s = s\<lparr>creating := create_open_change b (creating s)\<rparr>"
| "open_change Editing b s = s\<lparr>editing := edit_open_change b (editing s)\<rparr>"
| "open_change Removing b s = s\<lparr>removing := delete_open_change b (removing s)\<rparr>"
| "open_change Git b s =
     s\<lparr>git := git_open_change b (git s), polling_stops := polling_stops s + (if b then 0 else 1)\<rparr>"
| "open_change Archive b s =
     s\<lparr>archive := archive_open_change b (archive s), polling_stops := polling_stops s + (if b then 0 else 1)\<rparr>"
| "open_change Website b s =
     s\<lparr>website := website_open_change b (website s), polling_stops := polling_stops s + (if b then 0 else 1)\<rparr>"
| "open_change Cloning b s = s\<lparr>cloning := clone_open_change b (cloning s)\<rparr>"
| "open_change Docker b s = s\<lparr>docker := handleClose b (docker s)\<rparr>"

fun cancel_dialog :: "dialog \<Rightarrow> projects_page \<Rightarrow> projects_page" where
  "cancel_dialog Creating s = s\<lparr>creating := (creating s)\<lparr>create_open := False\<rparr>\<rparr>"
| "cancel_dialog Editing s = s\<lparr>editing := (editing s)\<lparr>edit_open := False\<rparr>\<rparr>"
| "cancel_dialog Removing s = s\<lparr>removing := (removing s)\<lparr>delete_open := False\<rparr>\<rparr>"
| "cancel_dialog Git s = s\<lparr>git := (git s)\<lparr>git_open := False\<rparr>\<rparr>"
| "cancel_dialog Archive s = s\<lparr>archive := (archive s)\<lparr>archive_open := False\<rparr>\<rparr>"
| "cancel_dialog Website s = s\<lparr>website := (website s)\<lparr>website_open := False\<rparr>\<rparr>"
| "cancel_dialog Cloning s = s\<lparr>cloning := (cloning s)\<lparr>clone_open := False\<rparr>\<rparr>"
| "cancel_dialog Docker s = s\<lparr>docker := handleClose False (docker s)\<rparr>"

text \<open>The fields of the imports are disabled during an import, those of the image from the export on.\<close>

definition docker_editable :: "projects_page \<Rightarrow> bool" where
  "docker_editable s \<longleftrightarrow> shown Docker s \<and> \<not> exporting (docker s) \<and> docker_result (docker s) = None"

definition import_editable :: "dialog \<Rightarrow> projects_page \<Rightarrow> bool" where
  "import_editable d s \<longleftrightarrow> shown d s \<and> \<not> isImporting (import_status s)"

definition on_if :: "bool \<Rightarrow> 'a \<Rightarrow> 'a \<Rightarrow> 'a" where
  "on_if b x y = (if b then x else y)"

fun typed :: "text_field \<Rightarrow> string \<Rightarrow> projects_page \<Rightarrow> projects_page" where
  "typed Create_Name v s = on_if (shown Creating s) (s\<lparr>creating := (creating s)\<lparr>create_name := v\<rparr>\<rparr>) s"
| "typed Create_Path v s = on_if (shown Creating s) (s\<lparr>creating := (creating s)\<lparr>create_path := v\<rparr>\<rparr>) s"
| "typed Edit_Name v s = on_if (shown Editing s) (s\<lparr>editing := (editing s)\<lparr>edit_name := v\<rparr>\<rparr>) s"
| "typed Edit_Path v s = on_if (shown Editing s) (s\<lparr>editing := (editing s)\<lparr>edit_path := v\<rparr>\<rparr>) s"
| "typed Git_Url v s = on_if (import_editable Git s) (s\<lparr>git := (git s)\<lparr>git_url := v\<rparr>\<rparr>) s"
| "typed Git_Branch v s = on_if (import_editable Git s) (s\<lparr>git := (git s)\<lparr>git_branch := v\<rparr>\<rparr>) s"
| "typed Git_Name v s = on_if (import_editable Git s) (s\<lparr>git := (git s)\<lparr>git_name := v\<rparr>\<rparr>) s"
| "typed Archive_Name v s = on_if (import_editable Archive s) (s\<lparr>archive := (archive s)\<lparr>archive_name := v\<rparr>\<rparr>) s"
| "typed Website_Name v s = on_if (import_editable Website s) (s\<lparr>website := (website s)\<lparr>website_name := v\<rparr>\<rparr>) s"
| "typed Website_Url v s = on_if (import_editable Website s) (s\<lparr>website := (website s)\<lparr>website_url := v\<rparr>\<rparr>) s"
| "typed Clone_Name v s = on_if (shown Cloning s) (s\<lparr>cloning := (cloning s)\<lparr>clone_name := v\<rparr>\<rparr>) s"
| "typed Clone_Path v s = on_if (shown Cloning s) (s\<lparr>cloning := (cloning s)\<lparr>clone_path := v\<rparr>\<rparr>) s"
| "typed Image_Name v s = on_if (docker_editable s) (s\<lparr>docker := (docker s)\<lparr>image_name := v\<rparr>\<rparr>) s"

fun ticked :: "tick_box \<Rightarrow> bool \<Rightarrow> projects_page \<Rightarrow> projects_page" where
  "ticked Git_Install b s = on_if (import_editable Git s) (s\<lparr>git := (git s)\<lparr>git_install_deps := b\<rparr>\<rparr>) s"
| "ticked Archive_Install b s =
     on_if (import_editable Archive s) (s\<lparr>archive := (archive s)\<lparr>archive_install_deps := b\<rparr>\<rparr>) s"
| "ticked Website_Assets b s =
     on_if (import_editable Website s) (s\<lparr>website := (website s)\<lparr>website_include_assets := b\<rparr>\<rparr>) s"
| "ticked Same_Domain b s =
     on_if (import_editable Website s) (s\<lparr>website := (website s)\<lparr>website_same_domain_only := b\<rparr>\<rparr>) s"
| "ticked Website_Install b s =
     on_if (import_editable Website s) (s\<lparr>website := (website s)\<lparr>website_install_deps := b\<rparr>\<rparr>) s"
| "ticked Include_Compose b s = on_if (docker_editable s) (s\<lparr>docker := (docker s)\<lparr>include_compose := b\<rparr>\<rparr>) s"
| "ticked Include_Tar b s = on_if (docker_editable s) (s\<lparr>docker := (docker s)\<lparr>include_tar := b\<rparr>\<rparr>) s"

text \<open>A call gets the number of the calls before it.\<close>

definition send :: "page_call option \<Rightarrow> projects_page \<Rightarrow> projects_page" where
  "send c s =
     (case c of
        None \<Rightarrow> s
      | Some c \<Rightarrow> s\<lparr>in_flight := in_flight s @ [(length (sent_calls s), c)], sent_calls := sent_calls s @ [c]\<rparr>)"

definition may_import :: "dialog \<Rightarrow> projects_page \<Rightarrow> bool" where
  "may_import d s \<longleftrightarrow> shown d s \<and> import_offered (import_status s) \<and> \<not> import_loading s"

text \<open>The main button of a dialog, where it is shown and enabled.\<close>

fun submit :: "url_parser \<Rightarrow> technology_info list \<Rightarrow> dialog \<Rightarrow> projects_page \<Rightarrow> projects_page" where
  "submit parse techs Creating s =
     on_if (shown Creating s \<and> \<not> submitting (creating s))
       (let (d, c) = start_create techs (creating s) in send c (s\<lparr>creating := d\<rparr>)) s"
| "submit parse techs Editing s =
     on_if (shown Editing s \<and> \<not> edit_submitting (editing s))
       (let (d, c) = start_edit (editing s) in send c (s\<lparr>editing := d\<rparr>)) s"
| "submit parse techs Removing s =
     on_if (shown Removing s \<and> \<not> deleting (removing s))
       (let (d, c) = start_delete (removing s) in send c (s\<lparr>removing := d\<rparr>)) s"
| "submit parse techs Git s =
     on_if (may_import Git s) (let (d, c) = start_git parse (git s) in send c (s\<lparr>git := d\<rparr>)) s"
| "submit parse techs Archive s =
     on_if (may_import Archive s) (let (d, c) = start_archive (archive s) in send c (s\<lparr>archive := d\<rparr>)) s"
| "submit parse techs Website s =
     on_if (may_import Website s) (let (d, c) = start_website parse (website s) in send c (s\<lparr>website := d\<rparr>)) s"
| "submit parse techs Cloning s =
     on_if (shown Cloning s \<and> \<not> clone_submitting (cloning s))
       (let (d, c) = start_clone (cloning s) in send c (s\<lparr>cloning := d\<rparr>)) s"
| "submit parse techs Docker s =
     on_if (docker_editable s) (let (d, c) = start_docker (docker s) in send c (s\<lparr>docker := d\<rparr>)) s"

text \<open>An answer comes to the continuation of its call; the export of a project reports in its hook only.\<close>

fun continue_call :: "page_call \<Rightarrow> page_answer \<Rightarrow> projects_page \<Rightarrow> projects_page" where
  "continue_call (CreateProject q) r s = s\<lparr>creating := create_answered r (creating s)\<rparr>"
| "continue_call (UpdateProject k nm path) r s = s\<lparr>editing := edit_answered r (editing s)\<rparr>"
| "continue_call (DeleteProject k) r s = s\<lparr>removing := delete_answered r (removing s)\<rparr>"
| "continue_call (ImportGit nm u b i) r s = s\<lparr>git := git_answered r (git s)\<rparr>"
| "continue_call (ImportArchive nm f i) r s = s\<lparr>archive := archive_answered r (archive s)\<rparr>"
| "continue_call (ImportWebsite q) r s = s\<lparr>website := website_answered r (website s)\<rparr>"
| "continue_call (ExportProject k) r s = s"
| "continue_call (CloneProject k nm path) r s = s\<lparr>cloning := clone_answered r (cloning s)\<rparr>"
| "continue_call (ExportDocker k img co tar) r s = s\<lparr>docker := docker_answered r (docker s)\<rparr>"
| "continue_call (DownloadTar k img) r s = s\<lparr>docker := tar_answered r (docker s)\<rparr>"

fun page_step :: "url_parser \<Rightarrow> technology_info list \<Rightarrow> page_event \<Rightarrow> projects_page \<Rightarrow> projects_page" where
  "page_step parse techs (OpenChange d b) s = open_change d b s"
| "page_step parse techs (Cancel d) s = on_if (shown d s) (cancel_dialog d s) s"
| "page_step parse techs (Typed f v) s = typed f v s"
| "page_step parse techs (Ticked f b) s = ticked f b s"
| "page_step parse techs (TypedDepth v) s =
     on_if (import_editable Website s) (s\<lparr>website := type_depth v (website s)\<rparr>) s"
| "page_step parse techs (TypedPages v) s =
     on_if (import_editable Website s) (s\<lparr>website := type_max_pages v (website s)\<rparr>) s"
| "page_step parse techs (ChoseTemplate v) s =
     on_if (shown Creating s) (s\<lparr>creating := (creating s)\<lparr>selected_template := v\<rparr>\<rparr>) s"
| "page_step parse techs (ChoseCategory v) s =
     on_if (shown Creating s) (s\<lparr>creating := (creating s)\<lparr>category_filter := v\<rparr>\<rparr>) s"
| "page_step parse techs (ClickedBox k) s =
     on_if (shown Creating s) (s\<lparr>creating := toggle_box techs k (creating s)\<rparr>) s"
| "page_step parse techs (ChoseFile f) s =
     on_if (import_editable Archive s) (s\<lparr>archive := (archive s)\<lparr>archive_file := f\<rparr>\<rparr>) s"
| "page_step parse techs (OpenEdit p) s = s\<lparr>editing := openEdit p (editing s)\<rparr>"
| "page_step parse techs (OpenDelete p) s = s\<lparr>removing := openDelete p (removing s)\<rparr>"
| "page_step parse techs (OpenClone p) s = s\<lparr>cloning := openClone p (cloning s)\<rparr>"
| "page_step parse techs (OpenDocker p) s = s\<lparr>docker := openDockerExport p (docker s)\<rparr>"
| "page_step parse techs (ExportClicked p) s = send (Some (ExportProject (pr_id p))) s"
| "page_step parse techs (Submit d) s = submit parse techs d s"
| "page_step parse techs TarClicked s =
     on_if (shown Docker s) (let (d, c) = start_tar (docker s) in send c (s\<lparr>docker := d\<rparr>)) s"
| "page_step parse techs (Answered n r) s =
     (case map_of (in_flight s) n of
        None \<Rightarrow> s
      | Some c \<Rightarrow> continue_call c r (s\<lparr>in_flight := filter (\<lambda>(k, c). k \<noteq> n) (in_flight s)\<rparr>))"
| "page_step parse techs (HookRenders busy st) s = s\<lparr>import_loading := busy, import_status := st\<rparr>"

definition run_page :: "url_parser \<Rightarrow> technology_info list \<Rightarrow> page_event list \<Rightarrow> projects_page" where
  "run_page parse techs es = fold (page_step parse techs) es initial_page"

subsection \<open>Private addresses\<close>

definition dotted :: "nat \<Rightarrow> nat \<Rightarrow> nat \<Rightarrow> nat \<Rightarrow> string" where
  "dotted a b c d = show_nat a @ ''.'' @ show_nat b @ ''.'' @ show_nat c @ ''.'' @ show_nat d"

text \<open>The blocks of RFC 1918.\<close>

definition rfc1918 :: "nat \<Rightarrow> nat \<Rightarrow> bool" where
  "rfc1918 a b \<longleftrightarrow> a = 10 \<or> (a = 172 \<and> 16 \<le> b \<and> b \<le> 31) \<or> (a = 192 \<and> b = 168)"

lemma dot_not_digit: "CHR ''.'' \<notin> set (show_nat n)"
  using show_nat_digits [of "CHR ''.''" n] by force

lemma up_to_dot:
  "CHR ''.'' \<notin> set s \<Longrightarrow> CHR ''.'' \<notin> set t \<Longrightarrow> s @ CHR ''.'' # x = t @ CHR ''.'' # y \<longleftrightarrow> s = t \<and> x = y"
  by (induction s arbitrary: t) (force simp: Cons_eq_append_conv)+

lemma take_up_to_dot:
  assumes "CHR ''.'' \<notin> set s" and "CHR ''.'' \<notin> set t"
  shows "take (Suc (length t)) (s @ CHR ''.'' # x) = t @ ''.'' \<longleftrightarrow> s = t"
  using assms
proof (induction t arbitrary: s)
  case Nil
  then show ?case by (cases s) auto
next
  case (Cons a t)
  then show ?case by (cases s) auto
qed

lemma take_eq_append: "take (length s + n) z = s @ t \<longleftrightarrow> take (length s) z = s \<and> take n (drop (length s) z) = t"
proof
  assume e: "take (length s + n) z = s @ t"
  then have "take (length s) (take (length s + n) z) = s" by simp
  then have "take (length s) z = s" by simp
  then show "take (length s) z = s \<and> take n (drop (length s) z) = t" using e by (simp add: take_add)
qed (simp add: take_add)

lemma first_octets:
  "take 3 (show_nat a @ CHR ''.'' # x) = ''10.'' \<longleftrightarrow> a = 10"
  "take 4 (show_nat a @ CHR ''.'' # x) = ''172.'' \<longleftrightarrow> a = 172"
  "take 4 (show_nat a @ CHR ''.'' # x) = ''192.'' \<longleftrightarrow> a = 192"
  "take 4 (show_nat a @ CHR ''.'' # x) = ''168.'' \<longleftrightarrow> a = 168"
proof -
  have e: "show_nat 10 = ''10''" "show_nat 172 = ''172''" "show_nat 192 = ''192''" "show_nat 168 = ''168''"
    by code_simp+
  have t: "take (Suc (length (show_nat n))) (show_nat a @ CHR ''.'' # x) = show_nat n @ ''.'' \<longleftrightarrow> a = n" for n
    using take_up_to_dot [OF dot_not_digit [of a] dot_not_digit [of n]] by simp
  show "take 3 (show_nat a @ CHR ''.'' # x) = ''10.'' \<longleftrightarrow> a = 10"
    using t [of 10] unfolding e by (simp add: numeral_eq_Suc)
  show "take 4 (show_nat a @ CHR ''.'' # x) = ''172.'' \<longleftrightarrow> a = 172"
    using t [of 172] unfolding e by (simp add: numeral_eq_Suc)
  show "take 4 (show_nat a @ CHR ''.'' # x) = ''192.'' \<longleftrightarrow> a = 192"
    using t [of 192] unfolding e by (simp add: numeral_eq_Suc)
  show "take 4 (show_nat a @ CHR ''.'' # x) = ''168.'' \<longleftrightarrow> a = 168"
    using t [of 168] unfolding e by (simp add: numeral_eq_Suc)
qed

lemma second_octet_values:
  "second_octet a b \<longleftrightarrow> [a, b] \<in> set (map show_nat [16..<32])"
proof -
  have "map show_nat [16..<32] = [''16'', ''17'', ''18'', ''19'', ''20'', ''21'', ''22'', ''23'', ''24'', ''25'',
      ''26'', ''27'', ''28'', ''29'', ''30'', ''31'']" by code_simp
  then show ?thesis by (simp add: second_octet_def conj_disj_distribL disj_assoc)
qed

lemma second_octets:
  "(case show_nat b @ CHR ''.'' # x of p # q # r # _ \<Rightarrow> second_octet p q \<and> r = CHR ''.'' | _ \<Rightarrow> False)
    \<longleftrightarrow> 16 \<le> b \<and> b \<le> 31"
proof -
  have two: "length (show_nat n) = 2" if "n \<in> {16..<32}" for n
  proof -
    have "list_all (\<lambda>n. length (show_nat n) = 2) [16..<32]" by code_simp
    then show ?thesis using that unfolding list_all_iff set_upt by blast
  qed
  have m: "[p, q] \<in> set (map show_nat [16..<32]) \<longleftrightarrow> 16 \<le> b \<and> b \<le> 31" if "show_nat b = [p, q]" for p q
  proof
    assume "[p, q] \<in> set (map show_nat [16..<32])"
    then have "[p, q] \<in> show_nat ` {16..<32}" by (simp only: set_map set_upt)
    then have "show_nat b \<in> show_nat ` {16..<32}" unfolding that .
    then obtain n where "n \<in> {16..<32}" "show_nat n = show_nat b" by auto
    then show "16 \<le> b \<and> b \<le> 31" by simp
  next
    assume "16 \<le> b \<and> b \<le> 31"
    then have "show_nat b \<in> show_nat ` {16..<32}" by (intro imageI) simp
    then show "[p, q] \<in> set (map show_nat [16..<32])" unfolding that by (simp only: set_map set_upt)
  qed
  show ?thesis
  proof (cases "length (show_nat b) = 2")
    case True
    then obtain p q where s: "show_nat b = [p, q]" by (auto simp: length_Suc_conv numeral_eq_Suc)
    then show ?thesis using m [OF s] by (simp add: second_octet_values)
  next
    case False
    then have "\<not> (16 \<le> b \<and> b \<le> 31)" using two [of b] by auto
    moreover have "\<not> (case show_nat b @ CHR ''.'' # x of p # q # r # _ \<Rightarrow> second_octet p q \<and> r = CHR ''.'' | _ \<Rightarrow> False)"
      using False dot_not_digit [of b]
      by (auto split: list.splits simp: append_eq_Cons_conv Cons_eq_append_conv second_octet_def)
    ultimately show ?thesis by blast
  qed
qed

lemma private_prefix_exact: "private_prefix (dotted a b c d) \<longleftrightarrow> rfc1918 a b"
proof -
  define y where "y = show_nat c @ ''.'' @ show_nat d"
  have h: "dotted a b c d = show_nat a @ CHR ''.'' # show_nat b @ CHR ''.'' # y" by (simp add: dotted_def y_def)
  have len: "length (show_nat 172) = 3" "length (show_nat 192) = 3" by code_simp+
  have "take 8 (show_nat a @ CHR ''.'' # show_nat b @ CHR ''.'' # y) = ''192.168.'' \<longleftrightarrow> a = 192 \<and> b = 168"
  proof -
    have "take 8 z = ''192.168.'' \<longleftrightarrow> take 4 z = ''192.'' \<and> take 4 (drop 4 z) = ''168.''" for z :: string
      using take_eq_append [of "''192.''" 4 z "''168.''"] by (simp add: eval_nat_numeral)
    moreover have "drop 4 (show_nat 192 @ CHR ''.'' # show_nat b @ CHR ''.'' # y) = show_nat b @ CHR ''.'' # y"
      using len by simp
    ultimately show ?thesis using first_octets by metis
  qed
  moreover have "drop 4 (show_nat 172 @ CHR ''.'' # show_nat b @ CHR ''.'' # y) = show_nat b @ CHR ''.'' # y"
    using len by simp
  ultimately show ?thesis
    unfolding h private_prefix_def rfc1918_def using first_octets second_octets by metis
qed

lemma not_private_not_rfc1918: "\<not> is_private_host (dotted a b c d) \<Longrightarrow> \<not> rfc1918 a b"
  by (simp add: is_private_host_def private_prefix_exact)

subsection \<open>What leaves the page\<close>

text \<open>A host that is none of the literals that the checks compare with and no IPv4 address, written in decimals, of
  the ranges 10.0.0.0/8, 172.16.0.0/12 and 192.168.0.0/16.  It can still be this machine: see \<open>host_check_gaps\<close>.\<close>

definition outside_literals :: "string \<Rightarrow> bool" where
  "outside_literals h \<longleftrightarrow> h \<noteq> [] \<and> \<not> has_space h \<and> h \<notin> set blocked_hosts \<and> \<not> (\<exists>a b c d. h = dotted a b c d \<and> rfc1918 a b)"

lemma checked_host_public: "h \<noteq> [] \<Longrightarrow> \<not> has_space h \<Longrightarrow> \<not> is_private_host h \<Longrightarrow> outside_literals h"
  using not_private_not_rfc1918 by (auto simp: outside_literals_def is_private_host_def)

definition filled :: "string \<Rightarrow> bool" where
  "filled v \<longleftrightarrow> v \<noteq> [] \<and> trim v = v"

lemma filled_trim [simp]: "filled (trim v) \<longleftrightarrow> trim v \<noteq> []"
  by (simp add: filled_def trim_idem)

definition closed_under :: "technology_info list \<Rightarrow> string list \<Rightarrow> bool" where
  "closed_under techs ks \<longleftrightarrow>
     (\<forall>k \<in> set ks. case map_of (tech_map_of (plain_technologies techs)) k of
        None \<Rightarrow> True | Some t \<Rightarrow> set (requires_technologies t) \<subseteq> set ks)"

fun call_ok :: "url_parser \<Rightarrow> technology_info list \<Rightarrow> page_call \<Rightarrow> bool" where
  "call_ok parse techs (CreateProject q) =
     (filled (new_name q) \<and> filled (new_path q) \<and>
      (case new_technologies q of None \<Rightarrow> True | Some ks \<Rightarrow> ks \<noteq> [] \<and> distinct ks \<and> closed_under techs ks))"
| "call_ok parse techs (UpdateProject k nm path) = (filled nm \<and> filled path)"
| "call_ok parse techs (ImportGit nm u b i) =
     (filled nm \<and> filled u \<and> b \<noteq> Some [] \<and>
      (case parse u of
         None \<Rightarrow> False
       | Some p \<Rightarrow> url_protocol p = ''https:'' \<and> outside_literals (url_hostname p) \<and> 1 < length (url_pathname p) \<and>
           \<not> has_space (url_pathname p)))"
| "call_ok parse techs (ImportArchive nm f i) = filled nm"
| "call_ok parse techs (ImportWebsite q) =
     (filled (site_name q) \<and> filled (site_url q) \<and> 1 \<le> site_depth q \<and> site_depth q \<le> 5 \<and>
      1 \<le> site_max_pages q \<and> site_max_pages q \<le> 200 \<and>
      (case parse (site_url q) of
         None \<Rightarrow> False
       | Some p \<Rightarrow> url_protocol p \<in> {''http:'', ''https:''} \<and> outside_literals (url_hostname p)))"
| "call_ok parse techs (CloneProject k nm path) = (filled nm \<and> path \<noteq> Some [])"
| "call_ok parse techs (DownloadTar k img) = (img \<noteq> [])"
| "call_ok parse techs c = True"

lemma trim_length: "length (trim s) \<le> length s"
proof -
  have "length (trim s) \<le> length (dropWhile white s)"
    using length_dropWhile_le [of white "rev (dropWhile white s)"] by (simp add: trim_def trim_end_by_def)
  then show ?thesis using length_dropWhile_le [of white s] by linarith
qed

text \<open>The resolved technologies are closed, by the worklist's invariant.\<close>

lemma resolved_closed:
  assumes "distinct (selected_techs d)"
  shows "distinct (resolvedTechs techs d)" "closed_under techs (resolvedTechs techs d)"
proof -
  let ?m = "tech_map_of (plain_technologies techs)"
  obtain f a where fa: "resolve_selected_technologies (selected_techs d) (plain_technologies techs) = (f, a)"
    by (cases "resolve_selected_technologies (selected_techs d) (plain_technologies techs)")
  have "worklist_inv ?m (selected_techs d) (selected_techs d) [] [] (selected_techs d)"
    using assms by (auto simp: worklist_inv_def intro: needed.selected)
  from worklist_done [OF this fa [unfolded resolve_selected_technologies_def]]
  have f: "distinct f" "set f = needed ?m (set (selected_techs d))" by blast+
  then show "distinct (resolvedTechs techs d)" by (simp add: resolvedTechs_def fa)
  show "closed_under techs (resolvedTechs techs d)"
  proof -
    have "set (requires_technologies t) \<subseteq> set f" if "k \<in> set f" "map_of ?m k = Some t" for k t
    proof
      fix x assume "x \<in> set (requires_technologies t)"
      from needed.required [OF _ that(2) this] that(1) show "x \<in> set f" by (simp add: f(2))
    qed
    then show ?thesis unfolding closed_under_def resolvedTechs_def fa by (simp split: option.split)
  qed
qed

text \<open>What each button sends.\<close>

lemma sent_by_create:
  "start_create techs d = (d', Some c) \<Longrightarrow> distinct (selected_techs d) \<Longrightarrow> call_ok parse techs c"
  using resolved_closed [of d techs] by (auto simp: start_create_def split: if_splits)

lemma sent_by_edit: "start_edit d = (d', Some c) \<Longrightarrow> call_ok parse techs c"
  by (auto simp: start_edit_def split: if_splits option.splits)

lemma sent_by_delete: "start_delete d = (d', Some c) \<Longrightarrow> call_ok parse techs c"
  by (auto simp: start_delete_def split: option.splits)

lemma or_undefined_filled [simp]: "or_undefined v \<noteq> Some []"
  by (simp add: or_undefined_def)

lemma sent_by_clone: "start_clone d = (d', Some c) \<Longrightarrow> call_ok parse techs c"
  by (auto simp: start_clone_def split: if_splits option.splits)

lemma sent_by_archive: "start_archive d = (d', Some c) \<Longrightarrow> call_ok parse techs c"
  by (auto simp: start_archive_def split: if_splits option.splits)

lemma sent_by_docker: "start_docker d = (d', Some c) \<Longrightarrow> call_ok parse techs c"
  by (auto simp: start_docker_def split: option.splits)

lemma sent_by_tar: "start_tar d = (d', Some c) \<Longrightarrow> call_ok parse techs c"
  by (auto simp: start_tar_def truthy_string_def split: if_splits option.splits)

lemma git_url_checked:
  assumes "git_url_error parse u = None"
  obtains p where "parse (trim u) = Some p" "url_protocol p = ''https:''" "outside_literals (url_hostname p)"
    "1 < length (url_pathname p)" "\<not> has_space (url_pathname p)"
proof -
  obtain p where p: "parse (trim u) = Some p" "url_protocol p = ''https:''" "url_hostname p \<noteq> []"
      "1 < length (trim (url_pathname p))" "\<not> has_space (url_hostname p)" "\<not> has_space (url_pathname p)"
      "\<not> is_private_host (url_hostname p)"
    using assms unfolding git_url_error_def Let_def by (auto split: option.splits if_splits)
  then show thesis
    using that [of p] checked_host_public [of "url_hostname p"] trim_length [of "url_pathname p"] by simp
qed

lemma website_url_checked:
  assumes "website_url_error parse u = None"
  obtains p where "parse (trim u) = Some p" "url_protocol p \<in> {''http:'', ''https:''}" "outside_literals (url_hostname p)"
proof -
  obtain p where p: "parse (trim u) = Some p" "url_protocol p \<in> {''http:'', ''https:''}" "url_hostname p \<noteq> []"
      "\<not> has_space (url_hostname p)" "\<not> is_private_host (url_hostname p)"
    using assms unfolding website_url_error_def by (auto split: option.splits if_splits)
  then show thesis using that [of p] checked_host_public [of "url_hostname p"] by simp
qed

lemma sent_by_git: "start_git parse d = (d', Some c) \<Longrightarrow> call_ok parse techs c"
  by (auto simp: start_git_def split: if_splits option.splits elim!: git_url_checked)

definition website_limits :: "website_dialog \<Rightarrow> bool" where
  "website_limits d \<longleftrightarrow>
     1 \<le> website_depth d \<and> website_depth d \<le> 5 \<and> 1 \<le> website_max_pages d \<and> website_max_pages d \<le> 200"

lemma sent_by_website:
  "start_website parse d = (d', Some c) \<Longrightarrow> website_limits d \<Longrightarrow> call_ok parse techs c"
  by (auto simp: start_website_def website_limits_def split: if_splits option.splits elim!: website_url_checked)

text \<open>The invariant: the calls made, the numbers typed, the technologies selected.\<close>

definition page_ok :: "url_parser \<Rightarrow> technology_info list \<Rightarrow> projects_page \<Rightarrow> bool" where
  "page_ok parse techs s \<longleftrightarrow>
     (\<forall>c \<in> set (sent_calls s). call_ok parse techs c) \<and> distinct (selected_techs (creating s)) \<and> website_limits (website s)"

lemma page_ok_send:
  assumes "page_ok parse techs s" and "\<And>c. co = Some c \<Longrightarrow> call_ok parse techs c"
  shows "page_ok parse techs (send co s)"
  using assms by (cases co) (auto simp: page_ok_def send_def)

lemma page_ok_keeps:
  assumes "page_ok parse techs s" and "sent_calls s' = sent_calls s"
    and "selected_techs (creating s') = selected_techs (creating s)"
    and "website_limits (website s) \<Longrightarrow> website_limits (website s')"
  shows "page_ok parse techs s'"
  using assms by (simp add: page_ok_def)

lemma dialogs_keep_choice:
  "start_create techs d = (d', c) \<Longrightarrow> selected_techs d' = selected_techs d"
  "start_website parse w = (w', c) \<Longrightarrow> website_limits w \<Longrightarrow> website_limits w'"
  by (auto simp: start_create_def start_website_def website_limits_def split: if_splits option.splits)

lemma page_ok_submit:
  assumes "page_ok parse techs s"
  shows "page_ok parse techs (submit parse techs d s)"
proof (cases d)
  case Creating
  obtain d' c where c: "start_create techs (creating s) = (d', c)" by fastforce
  have "page_ok parse techs (s\<lparr>creating := d'\<rparr>)"
    using assms dialogs_keep_choice(1) [OF c] by (intro page_ok_keeps [OF assms]) simp_all
  moreover have "distinct (selected_techs (creating s))" using assms by (simp add: page_ok_def)
  ultimately show ?thesis using assms sent_by_create c Creating by (auto simp: on_if_def intro!: page_ok_send)
next
  case Editing
  obtain d' c where c: "start_edit (editing s) = (d', c)" by fastforce
  have "page_ok parse techs (s\<lparr>editing := d'\<rparr>)" by (intro page_ok_keeps [OF assms]) simp_all
  then show ?thesis using assms sent_by_edit c Editing by (auto simp: on_if_def intro!: page_ok_send)
next
  case Removing
  obtain d' c where c: "start_delete (removing s) = (d', c)" by fastforce
  have "page_ok parse techs (s\<lparr>removing := d'\<rparr>)" by (intro page_ok_keeps [OF assms]) simp_all
  then show ?thesis using assms sent_by_delete c Removing by (auto simp: on_if_def intro!: page_ok_send)
next
  case Git
  obtain d' c where c: "start_git parse (git s) = (d', c)" by fastforce
  have "page_ok parse techs (s\<lparr>git := d'\<rparr>)" by (intro page_ok_keeps [OF assms]) simp_all
  then show ?thesis using assms sent_by_git c Git by (auto simp: on_if_def intro!: page_ok_send)
next
  case Archive
  obtain d' c where c: "start_archive (archive s) = (d', c)" by fastforce
  have "page_ok parse techs (s\<lparr>archive := d'\<rparr>)" by (intro page_ok_keeps [OF assms]) simp_all
  then show ?thesis using assms sent_by_archive c Archive by (auto simp: on_if_def intro!: page_ok_send)
next
  case Website
  obtain d' c where c: "start_website parse (website s) = (d', c)" by fastforce
  have "page_ok parse techs (s\<lparr>website := d'\<rparr>)"
    using dialogs_keep_choice(2) [OF c] by (intro page_ok_keeps [OF assms]) simp_all
  moreover have "website_limits (website s)" using assms by (simp add: page_ok_def)
  ultimately show ?thesis using assms sent_by_website c Website by (auto simp: on_if_def intro!: page_ok_send)
next
  case Cloning
  obtain d' c where c: "start_clone (cloning s) = (d', c)" by fastforce
  have "page_ok parse techs (s\<lparr>cloning := d'\<rparr>)" by (intro page_ok_keeps [OF assms]) simp_all
  then show ?thesis using assms sent_by_clone c Cloning by (auto simp: on_if_def intro!: page_ok_send)
next
  case Docker
  obtain d' c where c: "start_docker (docker s) = (d', c)" by fastforce
  have "page_ok parse techs (s\<lparr>docker := d'\<rparr>)" by (intro page_ok_keeps [OF assms]) simp_all
  then show ?thesis using assms sent_by_docker c Docker by (auto simp: on_if_def intro!: page_ok_send)
qed

lemma typed_keeps:
  "sent_calls (typed f v s) = sent_calls s" "in_flight (typed f v s) = in_flight s"
  "selected_techs (creating (typed f v s)) = selected_techs (creating s)"
  "website_limits (website (typed f v s)) = website_limits (website s)"
  by (cases f; simp add: on_if_def website_limits_def)+

lemma ticked_keeps:
  "sent_calls (ticked f b s) = sent_calls s" "in_flight (ticked f b s) = in_flight s"
  "creating (ticked f b s) = creating s"
  "website_limits (website (ticked f b s)) = website_limits (website s)"
  by (cases f; simp add: on_if_def website_limits_def)+

lemma initial_limits [simp]: "website_limits initial_website"
  by (simp add: website_limits_def initial_website_def)

lemma page_ok_open: "page_ok parse techs s \<Longrightarrow> page_ok parse techs (open_change d b s)"
  by (cases d)
    (auto simp: page_ok_def create_open_change_def website_open_change_def website_limits_def initial_website_def)

lemma page_ok_cancel: "page_ok parse techs s \<Longrightarrow> page_ok parse techs (cancel_dialog d s)"
  by (cases d) (auto simp: page_ok_def website_limits_def)

lemma page_ok_continue: "page_ok parse techs s \<Longrightarrow> page_ok parse techs (continue_call c r s)"
  by (cases c) (auto simp: page_ok_def create_answered_def website_answered_def website_limits_def split: sum.splits)

lemma toggle_distinct: "distinct (selected_techs d) \<Longrightarrow> distinct (selected_techs (toggle_box techs k d))"
  by (auto simp: toggle_box_def handleToggleTech_def intro: distinct_removeAll)

lemma page_ok_step:
  assumes "page_ok parse techs s"
  shows "page_ok parse techs (page_step parse techs e s)"
proof (cases e)
  case (Typed f v)
  then show ?thesis using assms by (simp add: page_ok_def typed_keeps)
next
  case (Ticked f b)
  then show ?thesis using assms by (simp add: page_ok_def ticked_keeps)
next
  case (ClickedBox k)
  then show ?thesis using assms toggle_distinct by (simp add: page_ok_def on_if_def)
next
  case TarClicked
  obtain d' c where c: "start_tar (docker s) = (d', c)" by fastforce
  have "page_ok parse techs (s\<lparr>docker := d'\<rparr>)" by (intro page_ok_keeps [OF assms]) simp_all
  then show ?thesis using assms sent_by_tar c TarClicked by (auto simp: on_if_def intro!: page_ok_send)
next
  case (ExportClicked p)
  then show ?thesis using assms by (auto intro!: page_ok_send)
next
  case (Answered n r)
  have "page_ok parse techs (s\<lparr>in_flight := x\<rparr>)" for x by (intro page_ok_keeps [OF assms]) simp_all
  then show ?thesis using assms Answered by (simp add: page_ok_continue split: option.split)
next
  case (OpenChange d b)
  then show ?thesis using assms by (simp add: page_ok_open)
next
  case (Cancel d)
  then show ?thesis using assms by (simp add: on_if_def page_ok_cancel)
next
  case (Submit d)
  then show ?thesis using assms by (simp add: page_ok_submit)
qed (use assms in \<open>simp_all add: on_if_def page_ok_def website_limits_def type_depth_def type_max_pages_def\<close>)

lemma page_always_ok: "page_ok parse techs (run_page parse techs es)"
proof -
  have "page_ok parse techs (fold (page_step parse techs) es s)" if "page_ok parse techs s" for s
    using that by (induction es arbitrary: s) (simp_all add: page_ok_step)
  moreover have "page_ok parse techs initial_page" by (simp add: page_ok_def initial_page_def initial_create_def)
  ultimately show ?thesis by (simp add: run_page_def)
qed

text \<open>C31: Whatever a user does on the page of the projects and whenever the answers come: every request that has
  left it was checked.  A Git import names an HTTPS address with a path, a website import an HTTP or HTTPS address;
  the host of either is not empty, has no space, is none of \<open>localhost\<close>, \<open>127.0.0.1\<close>, \<open>[::1]\<close> and \<open>0.0.0.0\<close>, and is no
  address in 10.0.0.0/8, 172.16.0.0/12 or 192.168.0.0/16 written with four decimal numbers (other names of this
  machine pass the check).  A website import stays within depth 5 and 200 pages; a new project is sent with
  technologies that are closed under what they require; the name and the path of a creation or an edit and the name
  of an import or a clone are trimmed and not empty.
\<close>

theorem page_sends_checked_calls:
  "list_all (call_ok parse techs) (sent_calls (run_page parse techs es))"
  using page_always_ok [of parse techs es] by (simp add: page_ok_def list_all_iff)

subsection \<open>One submission at a time\<close>

fun call_kind :: "page_call \<Rightarrow> dialog option" where
  "call_kind (CreateProject q) = Some Creating"
| "call_kind (UpdateProject k nm path) = Some Editing"
| "call_kind (DeleteProject k) = Some Removing"
| "call_kind (ImportGit nm u b i) = Some Git"
| "call_kind (ImportArchive nm f i) = Some Archive"
| "call_kind (ImportWebsite q) = Some Website"
| "call_kind (CloneProject k nm path) = Some Cloning"
| "call_kind (ExportDocker k img co tar) = Some Docker"
| "call_kind c = None"

definition calls_of :: "dialog \<Rightarrow> projects_page \<Rightarrow> (nat \<times> page_call) list" where
  "calls_of d s = filter (\<lambda>(n, c). call_kind c = Some d) (in_flight s)"

text \<open>The flag that disables the button of a dialog; the imports have that of the hook.\<close>

fun busy :: "dialog \<Rightarrow> projects_page \<Rightarrow> bool" where
  "busy Creating s = submitting (creating s)"
| "busy Editing s = edit_submitting (editing s)"
| "busy Removing s = deleting (removing s)"
| "busy Cloning s = clone_submitting (cloning s)"
| "busy Docker s = exporting (docker s)"
| "busy Git s = import_loading s"
| "busy Archive s = import_loading s"
| "busy Website s = import_loading s"

definition flagged :: "dialog list" where
  "flagged = [Creating, Editing, Removing, Cloning, Docker]"

definition flights_ok :: "projects_page \<Rightarrow> bool" where
  "flights_ok s \<longleftrightarrow>
     distinct (map fst (in_flight s)) \<and> (\<forall>n \<in> fst ` set (in_flight s). n < length (sent_calls s)) \<and>
     (\<forall>d \<in> set flagged. length (calls_of d s) = of_bool (busy d s))"

definition same_flights :: "projects_page \<Rightarrow> projects_page \<Rightarrow> bool" where
  "same_flights s s' \<longleftrightarrow>
     in_flight s' = in_flight s \<and> sent_calls s' = sent_calls s \<and> (\<forall>d \<in> set flagged. busy d s' = busy d s)"

lemma flights_kept: "flights_ok s \<Longrightarrow> same_flights s s' \<Longrightarrow> flights_ok s'"
  by (simp add: flights_ok_def same_flights_def calls_of_def)

lemma flights_send:
  assumes ok: "flights_ok s" and rest: "\<And>d. d \<in> set flagged \<Longrightarrow> call_kind c \<noteq> Some d \<Longrightarrow> busy d s' = busy d s"
    and own: "\<And>d. d \<in> set flagged \<Longrightarrow> call_kind c = Some d \<Longrightarrow> \<not> busy d s \<and> busy d s'"
    and same: "in_flight s' = in_flight s" "sent_calls s' = sent_calls s"
  shows "flights_ok (send (Some c) s')"
proof -
  have b: "busy d (send (Some c) s') = busy d s'" for d by (cases d) (simp_all add: send_def)
  have "length (calls_of d (send (Some c) s')) = of_bool (busy d (send (Some c) s'))" if "d \<in> set flagged" for d
    using ok rest [OF that] own [OF that] that unfolding b
    by (cases "call_kind c = Some d") (auto simp: flights_ok_def calls_of_def send_def same)
  moreover have "distinct (map fst (in_flight (send (Some c) s')))"
    and "\<forall>n \<in> fst ` set (in_flight (send (Some c) s')). n < length (sent_calls (send (Some c) s'))"
    using ok by (auto simp: flights_ok_def send_def same)
  ultimately show ?thesis by (simp add: flights_ok_def)
qed

lemma flights_send_other:
  "flights_ok s \<Longrightarrow> call_kind c \<notin> Some ` set flagged \<Longrightarrow> same_flights s s' \<Longrightarrow> flights_ok (send (Some c) s')"
  by (rule flights_send) (auto simp: same_flights_def)

lemma flights_answer:
  assumes ok: "flights_ok s" and c: "map_of (in_flight s) n = Some c"
    and own: "\<And>d. d \<in> set flagged \<Longrightarrow> call_kind c = Some d \<Longrightarrow> \<not> busy d s'"
    and rest: "\<And>d. d \<in> set flagged \<Longrightarrow> call_kind c \<noteq> Some d \<Longrightarrow> busy d s' = busy d s"
    and "in_flight s' = filter (\<lambda>(k, c). k \<noteq> n) (in_flight s)" "sent_calls s' = sent_calls s"
  shows "flights_ok s'"
proof -
  have dist: "distinct (map fst (in_flight s))" using ok by (simp add: flights_ok_def)
  obtain xs ys where x: "in_flight s = xs @ (n, c) # ys" using map_of_SomeD [OF c] split_list by metis
  have "n \<notin> fst ` set xs" "n \<notin> fst ` set ys" using dist unfolding x by auto
  then have "filter (\<lambda>(k, c). k \<noteq> n) xs = xs" "filter (\<lambda>(k, c). k \<noteq> n) ys = ys"
    by (force simp: filter_id_conv)+
  then have s': "in_flight s' = xs @ ys" using assms(5) by (simp add: x)
  have "length (calls_of d s') = of_bool (busy d s')" if d: "d \<in> set flagged" for d
  proof -
    have n: "length (calls_of d s) = of_bool (busy d s)" using ok d by (simp add: flights_ok_def)
    show ?thesis
    proof (cases "call_kind c = Some d")
      case True
      then have "Suc (length (calls_of d s')) = length (calls_of d s)" by (simp add: calls_of_def s' x)
      then have "length (calls_of d s') = 0" using n by (cases "busy d s") simp_all
      then show ?thesis using own [OF d True] by simp
    next
      case False
      then have "length (calls_of d s') = length (calls_of d s)" by (simp add: calls_of_def s' x)
      then show ?thesis using n rest [OF d False] by simp
    qed
  qed
  moreover have "distinct (map fst (in_flight s'))" using dist by (auto simp: s' x)
  moreover have "\<forall>m \<in> fst ` set (in_flight s'). m < length (sent_calls s')"
    using ok assms(6) by (auto simp: flights_ok_def s' x)
  ultimately show ?thesis by (simp add: flights_ok_def)
qed

lemma in_flagged: "d \<in> set flagged \<longleftrightarrow> d = Creating \<or> d = Editing \<or> d = Removing \<or> d = Cloning \<or> d = Docker"
  by (auto simp: flagged_def)

lemma start_flags:
  "start_create techs d1 = (d1', c) \<Longrightarrow> if c = None then submitting d1' = submitting d1 else submitting d1'"
  "start_edit d2 = (d2', c) \<Longrightarrow> if c = None then edit_submitting d2' = edit_submitting d2 else edit_submitting d2'"
  "start_delete d3 = (d3', c) \<Longrightarrow> if c = None then deleting d3' = deleting d3 else deleting d3'"
  "start_clone d4 = (d4', c) \<Longrightarrow> if c = None then clone_submitting d4' = clone_submitting d4 else clone_submitting d4'"
  "start_docker d5 = (d5', c) \<Longrightarrow> if c = None then exporting d5' = exporting d5 else exporting d5'"
  by (auto simp: start_create_def start_edit_def start_delete_def start_clone_def start_docker_def
      split: if_splits option.splits)

lemma start_kinds:
  "start_create techs d1 = (d1', Some c) \<Longrightarrow> call_kind c = Some Creating"
  "start_edit d2 = (d2', Some c) \<Longrightarrow> call_kind c = Some Editing"
  "start_delete d3 = (d3', Some c) \<Longrightarrow> call_kind c = Some Removing"
  "start_clone d4 = (d4', Some c) \<Longrightarrow> call_kind c = Some Cloning"
  "start_docker d5 = (d5', Some c) \<Longrightarrow> call_kind c = Some Docker"
  "start_git parse d6 = (d6', Some c) \<Longrightarrow> call_kind c = Some Git"
  "start_archive d7 = (d7', Some c) \<Longrightarrow> call_kind c = Some Archive"
  "start_website parse d8 = (d8', Some c) \<Longrightarrow> call_kind c = Some Website"
  "start_tar d9 = (d9', Some c) \<Longrightarrow> call_kind c = None"
  "start_tar d9 = (d9', co) \<Longrightarrow> d9' = d9"
  by (auto simp: start_create_def start_edit_def start_delete_def start_clone_def start_docker_def start_git_def
      start_archive_def start_website_def start_tar_def split: if_splits option.splits)

text \<open>A start that sends nothing, and one that does.\<close>

lemma flights_started:
  assumes "flights_ok s" and "in_flight s' = in_flight s" "sent_calls s' = sent_calls s"
    and "\<And>c. co = Some c \<Longrightarrow> call_kind c = Some d"
    and "\<And>x. x \<in> set flagged \<Longrightarrow> x \<noteq> d \<Longrightarrow> busy x s' = busy x s"
    and "d \<in> set flagged \<Longrightarrow> \<not> busy d s \<and> busy d s' = (co \<noteq> None)"
  shows "flights_ok (send co s')"
proof (cases co)
  case None
  then have "same_flights s s'" using assms by (auto simp: same_flights_def)
  then show ?thesis using flights_kept [OF assms(1)] None by (simp add: send_def)
next
  case (Some c)
  then have k: "call_kind c = Some d" using assms(4) by blast
  show ?thesis unfolding Some using assms(2,3,5,6) k Some by (intro flights_send [OF assms(1)]) auto
qed

lemma flights_submit:
  assumes ok: "flights_ok s"
  shows "flights_ok (submit parse techs d s)"
proof (cases d)
  case Creating
  obtain d' c where c: "start_create techs (creating s) = (d', c)" by fastforce
  have "flights_ok (send c (s\<lparr>creating := d'\<rparr>))" if "\<not> submitting (creating s)"
    using that start_flags(1) [OF c] start_kinds(1) c
    by (intro flights_started [OF ok, where d = Creating]) (auto simp: in_flagged split: if_splits)
  then show ?thesis using ok c Creating by (simp add: on_if_def)
next
  case Editing
  obtain d' c where c: "start_edit (editing s) = (d', c)" by fastforce
  have "flights_ok (send c (s\<lparr>editing := d'\<rparr>))" if "\<not> edit_submitting (editing s)"
    using that start_flags(2) [OF c] start_kinds(2) c
    by (intro flights_started [OF ok, where d = Editing]) (auto simp: in_flagged split: if_splits)
  then show ?thesis using ok c Editing by (simp add: on_if_def)
next
  case Removing
  obtain d' c where c: "start_delete (removing s) = (d', c)" by fastforce
  have "flights_ok (send c (s\<lparr>removing := d'\<rparr>))" if "\<not> deleting (removing s)"
    using that start_flags(3) [OF c] start_kinds(3) c
    by (intro flights_started [OF ok, where d = Removing]) (auto simp: in_flagged split: if_splits)
  then show ?thesis using ok c Removing by (simp add: on_if_def)
next
  case Cloning
  obtain d' c where c: "start_clone (cloning s) = (d', c)" by fastforce
  have "flights_ok (send c (s\<lparr>cloning := d'\<rparr>))" if "\<not> clone_submitting (cloning s)"
    using that start_flags(4) [OF c] start_kinds(4) c
    by (intro flights_started [OF ok, where d = Cloning]) (auto simp: in_flagged split: if_splits)
  then show ?thesis using ok c Cloning by (simp add: on_if_def)
next
  case Docker
  obtain d' c where c: "start_docker (docker s) = (d', c)" by fastforce
  have "flights_ok (send c (s\<lparr>docker := d'\<rparr>))" if "\<not> exporting (docker s)"
    using that start_flags(5) [OF c] start_kinds(5) c
    by (intro flights_started [OF ok, where d = Docker]) (auto simp: in_flagged split: if_splits)
  then show ?thesis using ok c Docker by (simp add: on_if_def docker_editable_def)
next
  case Git
  obtain d' c where c: "start_git parse (git s) = (d', c)" by fastforce
  have "flights_ok (send c (s\<lparr>git := d'\<rparr>))"
    using start_kinds(6) c by (intro flights_started [OF ok, where d = Git]) (auto simp: in_flagged)
  then show ?thesis using ok c Git by (simp add: on_if_def)
next
  case Archive
  obtain d' c where c: "start_archive (archive s) = (d', c)" by fastforce
  have "flights_ok (send c (s\<lparr>archive := d'\<rparr>))"
    using start_kinds(7) c by (intro flights_started [OF ok, where d = Archive]) (auto simp: in_flagged)
  then show ?thesis using ok c Archive by (simp add: on_if_def)
next
  case Website
  obtain d' c where c: "start_website parse (website s) = (d', c)" by fastforce
  have "flights_ok (send c (s\<lparr>website := d'\<rparr>))"
    using start_kinds(8) c by (intro flights_started [OF ok, where d = Website]) (auto simp: in_flagged)
  then show ?thesis using ok c Website by (simp add: on_if_def)
qed

lemma quiet_events:
  "same_flights s (typed f v s)" "same_flights s (ticked x b s)" "same_flights s (cancel_dialog d s)"
  subgoal by (cases f) (auto simp: same_flights_def in_flagged on_if_def)
  subgoal by (cases x) (auto simp: same_flights_def in_flagged on_if_def)
  subgoal by (cases d) (auto simp: same_flights_def in_flagged handleClose_def)
  done

lemma quiet_open: "same_flights s (open_change d b s)"
  by (cases d) (auto simp: same_flights_def in_flagged create_open_change_def edit_open_change_def
      delete_open_change_def clone_open_change_def handleClose_def)

lemma flights_continue:
  assumes "flights_ok s" and "map_of (in_flight s) n = Some c"
  shows "flights_ok (continue_call c r (s\<lparr>in_flight := filter (\<lambda>(k, c). k \<noteq> n) (in_flight s)\<rparr>))"
  by (rule flights_answer [OF assms]; cases c)
    (auto simp: in_flagged create_answered_def edit_answered_def delete_answered_def clone_answered_def
      docker_answered_def tar_answered_def split: sum.splits)

lemma flights_step:
  assumes ok: "flights_ok s"
  shows "flights_ok (page_step parse techs e s)"
proof (cases e)
  case (Answered n r)
  then show ?thesis using flights_continue [OF ok] ok by (auto split: option.split)
next
  case (Submit d)
  then show ?thesis using flights_submit [OF ok] by simp
next
  case (ExportClicked p)
  have "same_flights s s" by (simp add: same_flights_def)
  then show ?thesis using flights_send_other [OF ok, of "ExportProject (pr_id p)" s] ExportClicked
    by (simp add: image_iff)
next
  case TarClicked
  obtain d' c where c: "start_tar (docker s) = (d', c)" by fastforce
  have "same_flights s (s\<lparr>docker := d'\<rparr>)" using start_kinds(10) [OF c] by (auto simp: same_flights_def in_flagged)
  then have "flights_ok (send c (s\<lparr>docker := d'\<rparr>))"
    using flights_send_other [OF ok] flights_kept [OF ok] start_kinds(9) c
    by (cases c) (auto simp: send_def [of None])
  then show ?thesis using ok c TarClicked by (simp add: on_if_def)
next
  case (OpenChange d b)
  then show ?thesis using flights_kept [OF ok quiet_open] by simp
next
  case (Cancel d)
  then show ?thesis using ok flights_kept [OF ok quiet_events(3)] by (simp add: on_if_def)
next
  case (Typed f v)
  then show ?thesis using flights_kept [OF ok quiet_events(1)] by simp
next
  case (Ticked f b)
  then show ?thesis using flights_kept [OF ok quiet_events(2)] by simp
qed (rule flights_kept [OF ok]; auto simp: same_flights_def in_flagged on_if_def toggle_box_def handleToggleTech_def
  openEdit_def openDelete_def openClone_def openDockerExport_def Let_def)+

text \<open>C32: The button that creates, edits, deletes, clones or exports a project is disabled exactly while a request
  that this button made is under way, and there is never more than one; for the export this is the request that builds
  the image, not the later download of its archive, whose button is never disabled.
\<close>

theorem one_submission_per_dialog:
  "list_all (\<lambda>d. length (calls_of d (run_page parse techs es)) = of_bool (busy d (run_page parse techs es))) flagged"
proof -
  have "flights_ok (fold (page_step parse techs) es s)" if "flights_ok s" for s
    using that by (induction es arbitrary: s) (simp_all add: flights_step)
  moreover have "flights_ok initial_page"
    by (auto simp: flights_ok_def calls_of_def in_flagged initial_page_def initial_create_def initial_edit_def
        initial_delete_def initial_clone_def initial_docker_def)
  ultimately show ?thesis by (simp add: run_page_def flights_ok_def list_all_iff)
qed

subsection \<open>Where the page does what it does not mean to\<close>

text \<open>A technology that declares a conflict with one that is selected is not disabled when only it declares it.\<close>

definition one_sided :: "technology_info list" where
  "one_sided =
     [\<lparr>tech_id = ''a'', tech_name = ''A'', requires_technologies = [], conflicts_with = [], exposed_ports = [], sidecar_names = []\<rparr>,
      \<lparr>tech_id = ''b'', tech_name = ''B'', requires_technologies = [], conflicts_with = [''a''], exposed_ports = [], sidecar_names = []\<rparr>]"

definition no_urls :: url_parser where
  "no_urls u = None"

lemma one_sided_conflict_selected:
  "resolvedTechs one_sided (creating (run_page no_urls one_sided
     [OpenChange Creating True, ClickedBox ''a'', ClickedBox ''b''])) = [''a'', ''b'']"
  by code_simp

text \<open>Cancelling an import keeps its fields and lets the polling go on; closing it otherwise does not.\<close>

lemma cancel_keeps_polling:
  "let s = run_page no_urls [] [OpenChange Git True, Typed Git_Name ''x'', Cancel Git]
   in git_name (git s) = ''x'' \<and> polling_stops s = 0"
  by code_simp

lemma completed_import_hides_button:
  "\<not> may_import d (run_page parse techs [HookRenders False (Some ''completed''), OpenChange d True])"
  by (simp add: may_import_def run_page_def import_offered_def) (cases d; simp)

text \<open>The answer to an edit that was cancelled closes the dialog of the project that is edited meanwhile.\<close>

definition first_project :: project where
  "first_project = \<lparr>pr_id = ''1'', pr_name = ''One'', pr_path = ''one''\<rparr>"

definition second_project :: project where
  "second_project = \<lparr>pr_id = ''2'', pr_name = ''Two'', pr_path = ''two''\<rparr>"

lemma late_edit_closes_other:
  "let s = run_page no_urls [] [OpenEdit first_project, Submit Editing, Cancel Editing, OpenEdit second_project,
       Answered 0 (Inr None)]
   in \<not> edit_open (editing s) \<and> edit_project (editing s) = None \<and> sent_calls s = [UpdateProject ''1'' ''One'' ''one'']"
  by code_simp

text \<open>The second project is exported under the name of the first.\<close>

lemma image_keeps_first_name:
  "sent_calls (run_page no_urls [] [OpenDocker first_project, Cancel Docker, OpenDocker second_project, Submit Docker]) =
     [ExportDocker ''2'' (Some ''one'') True False]"
  by code_simp

text \<open>The button that downloads the archive of an exported project is not disabled meanwhile.\<close>

lemma downloads_overlap:
  "let s = run_page no_urls [] [OpenDocker first_project, Submit Docker,
       Answered 0 (Inr (Some (JObj [(''image_id'', JStr ''i'')]))), TarClicked, TarClicked]
   in map snd (in_flight s) = [DownloadTar ''1'' ''i'', DownloadTar ''1'' ''i''] \<and> \<not> busy Docker s"
  by code_simp

text \<open>Hosts that are refused or let through although they should not be.\<close>

lemma host_check_gaps:
  "is_private_host ''10.example.com'' \<and> \<not> is_private_host ''169.254.169.254'' \<and> \<not> is_private_host ''127.0.0.2''"
  by code_simp

lemma sent_calls_exist:
  "let parse = (\<lambda>u. Some \<lparr>url_protocol = ''https:'', url_hostname = ''github.com'', url_pathname = ''/a/b''\<rparr>)
   in sent_calls (run_page parse [] [OpenChange Git True, Typed Git_Name ''x'', Typed Git_Url ''https://github.com/a/b '',
        Submit Git]) = [ImportGit ''x'' ''https://github.com/a/b'' None True]"
  by code_simp

end
