(* ===== verification/Tools_Panel.thy ===== *)
theory Tools_Panel
  imports Page_State Filenames Sse_Stream
begin

section \<open>The panel of the tools\<close>

text \<open>
  \<^verbatim>\<open>components/workspace/tools/tools-panel.tsx\<close> and \<^verbatim>\<open>tool-parameter-form.tsx\<close>: choosing a tool, its parameters,
  executing it, and the reruns that the page around the panel asks for.  An execution is in flight until it is
  answered.  After every event the panel is rendered and the effects whose dependencies changed run; arrays of
  tools are compared by reference, which is a version number here.
\<close>

subsection \<open>Tools and their parameters\<close>

record tool =
  tool_name_of :: string
  tool_description :: string
  parameters_schema :: json

type_synonym parameters = "(string \<times> json) list"

text \<open>\<open>schema.properties ?? {}\<close>, and its entries.\<close>

definition schema_entries :: "json \<Rightarrow> parameters" where
  "schema_entries schema =
     (case json_nullish (member schema ''properties'') (JObj []) of JObj kvs \<Rightarrow> kvs | _ \<Rightarrow> [])"

definition required_params :: "json \<Rightarrow> string list" where
  "required_params schema =
     (case json_nullish (member schema ''required'') (JArr []) of
        JArr xs \<Rightarrow> List.map_filter (\<lambda>j. as_string (Some j)) xs | _ \<Rightarrow> [])"

definition slugForParamType :: "json \<Rightarrow> string" where
  "slugForParamType param =
     (let ty = as_string (member param ''type'')
      in if ty = Some ''boolean'' then ''tool-parameter-boolean''
         else if truthy (member param ''enum'') then ''tool-parameter-select''
         else if ty = Some ''number'' \<or> ty = Some ''integer'' then ''tool-parameter-number''
         else ''tool-parameter-text'')"

definition handleChange :: "string \<Rightarrow> json \<Rightarrow> parameters \<Rightarrow> parameters" where
  "handleChange key v values = AList.update key v values"

definition currentValue :: "parameters \<Rightarrow> (string \<times> string) list \<Rightarrow> json \<Rightarrow> string \<Rightarrow> json" where
  "currentValue values prefill param key =
     json_nullish (map_of values key)
       (json_nullish (map_option JStr (map_of prefill key))
         (json_nullish (member param ''default'') (JStr [])))"

text \<open>What a field of numbers hands on: an empty one stays empty.\<close>

definition typed_number :: "real option \<Rightarrow> json" where
  "typed_number v = (case v of None \<Rightarrow> JStr [] | Some x \<Rightarrow> JNum x)"

lemma currentValue_changed:
  "v \<noteq> JNull \<Longrightarrow> currentValue (handleChange key v values) prefill param key = v"
  by (cases v) (simp_all add: currentValue_def handleChange_def update_conv json_nullish_def)

lemma currentValue_other:
  "k \<noteq> key \<Longrightarrow> currentValue (handleChange key v values) prefill param k = currentValue values prefill param k"
  by (simp add: currentValue_def handleChange_def update_conv)

subsection \<open>State\<close>

record tool_result =
  res_tool :: string
  res_success :: bool
  res_value :: json
  res_error :: "string option"
  res_duration :: real

record past_execution =
  past_tool :: string
  past_time :: nat
  past_result :: tool_result
  past_parameters :: parameters

text \<open>An execution in flight; one that was started by a rerun goes on with the tools it was started with.\<close>

record running_execution =
  run_name :: string
  run_params :: parameters
  run_is_rerun :: bool
  run_tools :: "nat \<times> tool list"

type_synonym versioned_tool = "nat \<times> tool"

type_synonym dependencies =
  "(string option \<times> nat \<times> tool list) \<times> (rerun option \<times> (nat \<times> tool list) \<times> bool) \<times>
   (string option \<times> versioned_tool option)"

record tools_panel =
  tools_prop :: "tool list"
  tools_version :: nat
  given_file :: "string option"
  only_file_tools :: bool
  asked_tool :: "string option"
  rerun_prop :: "rerun option"
  search_text :: string
  pinned :: "string list"
  favorites :: "string list"
  stored_sets :: "(string \<times> string list) list"
  selected_tool :: "versioned_tool option"
  param_values :: parameters
  executing :: bool
  last_result :: "tool_result option"
  recent_executions :: "past_execution list"
  active_tab :: string
  processed_rerun :: nat
  pending_rerun :: "rerun option"
  running :: "running_execution list"
  started_reruns :: "nat list"
  reported_results :: "(tool_result \<times> string \<times> parameters) list"
  rendered_deps :: "dependencies option"

text \<open>Storage that cannot be read is an empty set; one that cannot be written is reported and forgotten.\<close>

definition loadStringSet :: "(string \<times> string list) list \<Rightarrow> string \<Rightarrow> string list" where
  "loadStringSet stored key = remdups (nullish (map_of stored key) [])"

definition saveStringSet :: "bool \<Rightarrow> string \<Rightarrow> string list \<Rightarrow> (string \<times> string list) list \<Rightarrow> (string \<times> string list) list" where
  "saveStringSet writable key xs stored = (if writable then AList.update key xs stored else stored)"

definition initial_tools_panel :: "(string \<times> string list) list \<Rightarrow> tools_panel" where
  "initial_tools_panel stored =
     \<lparr>tools_prop = [], tools_version = 0, given_file = None, only_file_tools = False, asked_tool = None,
      rerun_prop = None, search_text = [], pinned = loadStringSet stored ''tools:pinned'',
      favorites = loadStringSet stored ''tools:favorites'', stored_sets = stored, selected_tool = None,
      param_values = [], executing = False, last_result = None, recent_executions = [], active_tab = ''all'',
      processed_rerun = 0, pending_rerun = None, running = [], started_reruns = [], reported_results = [],
      rendered_deps = None\<rparr>"

subsection \<open>Choosing\<close>

definition find_tool :: "tool list \<Rightarrow> string \<Rightarrow> tool option" where
  "find_tool tools nm = find (\<lambda>t. tool_name_of t = nm) tools"

definition toggled :: "string \<Rightarrow> string list \<Rightarrow> string list" where
  "toggled nm xs = (if nm \<in> set xs then removeAll nm xs else xs @ [nm])"

definition togglePin :: "bool \<Rightarrow> string \<Rightarrow> tools_panel \<Rightarrow> tools_panel" where
  "togglePin writable nm s =
     s\<lparr>pinned := toggled nm (pinned s),
       stored_sets := saveStringSet writable ''tools:pinned'' (toggled nm (pinned s)) (stored_sets s)\<rparr>"

definition toggleFavorite :: "bool \<Rightarrow> string \<Rightarrow> tools_panel \<Rightarrow> tools_panel" where
  "toggleFavorite writable nm s =
     s\<lparr>favorites := toggled nm (favorites s),
       stored_sets := saveStringSet writable ''tools:favorites'' (toggled nm (favorites s)) (stored_sets s)\<rparr>"

definition file_key :: "string \<Rightarrow> bool" where
  "file_key k \<longleftrightarrow> occurs ''file'' (to_lower k) \<or> occurs ''path'' (to_lower k)"

definition file_keys :: "tool \<Rightarrow> string list" where
  "file_keys t = filter file_key (map fst (schema_entries (parameters_schema t)))"

text \<open>The search is tested trimmed and used as it is.\<close>

definition filteredTools :: "tools_panel \<Rightarrow> tool list" where
  "filteredTools s =
     (let q = to_lower (search_text s);
          found = (if trim (search_text s) \<noteq> []
                   then filter (\<lambda>t. occurs q (to_lower (tool_name_of t)) \<or> occurs q (to_lower (tool_description t)))
                          (tools_prop s)
                   else tools_prop s)
      in if only_file_tools s \<and> truthy_string (given_file s) then filter (\<lambda>t. file_keys t \<noteq> []) found else found)"

definition pinnedTools :: "tools_panel \<Rightarrow> tool list" where
  "pinnedTools s = filter (\<lambda>t. tool_name_of t \<in> set (pinned s)) (tools_prop s)"

definition favoriteTools :: "tools_panel \<Rightarrow> tool list" where
  "favoriteTools s = filter (\<lambda>t. tool_name_of t \<in> set (favorites s)) (tools_prop s)"

definition handleSelectTool :: "versioned_tool \<Rightarrow> tools_panel \<Rightarrow> tools_panel" where
  "handleSelectTool t s = s\<lparr>selected_tool := Some t, param_values := [], last_result := None, active_tab := ''execute''\<rparr>"

definition handleRerun :: "past_execution \<Rightarrow> tools_panel \<Rightarrow> tools_panel" where
  "handleRerun x s =
     (case find_tool (tools_prop s) (past_tool x) of
        None \<Rightarrow> s
      | Some t \<Rightarrow> s\<lparr>selected_tool := Some (tools_version s, t), param_values := past_parameters x, last_result := None,
          active_tab := ''execute''\<rparr>)"

subsection \<open>Executing\<close>

definition handleExecute :: "tools_panel \<Rightarrow> tools_panel" where
  "handleExecute s =
     (case selected_tool s of
        None \<Rightarrow> s
      | Some (v, t) \<Rightarrow>
          if executing s then s
          else s\<lparr>executing := True, last_result := None,
             running := running s @ [\<lparr>run_name = tool_name_of t, run_params = param_values s, run_is_rerun = False,
               run_tools = (tools_version s, tools_prop s)\<rparr>]\<rparr>)"

definition run_tool :: "versioned_tool \<Rightarrow> parameters \<Rightarrow> nat \<Rightarrow> tools_panel \<Rightarrow> tools_panel" where
  "run_tool t params time s =
     s\<lparr>processed_rerun := time, selected_tool := Some t, param_values := params, active_tab := ''execute'',
       executing := True, last_result := None, started_reruns := started_reruns s @ [time],
       running := running s @ [\<lparr>run_name = tool_name_of (snd t), run_params = params, run_is_rerun = True,
         run_tools = (tools_version s, tools_prop s)\<rparr>]\<rparr>"

definition fail_result :: "string \<Rightarrow> string option \<Rightarrow> tool_result" where
  "fail_result nm e =
     \<lparr>res_tool = nm, res_success = False, res_value = JNull, res_error = Some (nullish e ''Execution failed''), res_duration = 0\<rparr>"

definition record_result :: "nat \<Rightarrow> running_execution \<Rightarrow> tool_result \<Rightarrow> tools_panel \<Rightarrow> tools_panel" where
  "record_result now x res s =
     s\<lparr>last_result := Some res,
       recent_executions := \<lparr>past_tool = run_name x, past_time = now, past_result = res, past_parameters = run_params x\<rparr>
         # take 19 (recent_executions s),
       reported_results := reported_results s @ [(res, run_name x, run_params x)]\<rparr>"

text \<open>What follows the last line of a rerun: the one that was asked for meanwhile.\<close>

definition run_pending :: "nat \<times> tool list \<Rightarrow> tools_panel \<Rightarrow> tools_panel" where
  "run_pending vtools s =
     (case pending_rerun s of
        None \<Rightarrow> s
      | Some p \<Rightarrow>
          if processed_rerun s < rerun_timestamp p
          then (let s1 = s\<lparr>pending_rerun := None\<rparr>
                in case find_tool (snd vtools) (rerun_tool p) of
                     None \<Rightarrow> s1
                   | Some t \<Rightarrow> run_tool (fst vtools, t) (rerun_params p) (rerun_timestamp p) s1)
          else s)"

definition execution_answered :: "nat \<Rightarrow> nat \<Rightarrow> string option + tool_result \<Rightarrow> tools_panel \<Rightarrow> tools_panel" where
  "execution_answered n now r s =
     (if n < length (running s) then
        (let x = running s ! n;
             res = (case r of Inl e \<Rightarrow> fail_result (run_name x) e | Inr v \<Rightarrow> v);
             s1 = (record_result now x res s)\<lparr>running := take n (running s) @ drop (Suc n) (running s), executing := False\<rparr>
         in if run_is_rerun x then run_pending (run_tools x) s1 else s1)
      else s)"

subsection \<open>The effects\<close>

definition deps_of :: "tools_panel \<Rightarrow> dependencies" where
  "deps_of s =
     ((asked_tool s, tools_version s, tools_prop s),
      (rerun_prop s, (tools_version s, tools_prop s), executing s),
      (given_file s, selected_tool s))"

text \<open>An effect sees the rendered state \<open>c\<close>; the references, and what it sets, are in the state \<open>s\<close>.\<close>

definition initial_tool_effect :: "tools_panel \<Rightarrow> tools_panel \<Rightarrow> tools_panel" where
  "initial_tool_effect c s =
     (if truthy_string (asked_tool c) \<and> tools_prop c \<noteq> [] then
        (case find_tool (tools_prop c) (nullish (asked_tool c) []) of
           None \<Rightarrow> s
         | Some t \<Rightarrow> s\<lparr>selected_tool := Some (tools_version c, t), active_tab := ''execute''\<rparr>)
      else s)"

definition rerun_effect :: "tools_panel \<Rightarrow> tools_panel \<Rightarrow> tools_panel" where
  "rerun_effect c s =
     (case rerun_prop c of
        None \<Rightarrow> s
      | Some w \<Rightarrow>
          if rerun_timestamp w \<le> processed_rerun s then s
          else if executing c then s\<lparr>pending_rerun := Some w\<rparr>
          else (case find_tool (tools_prop c) (rerun_tool w) of
                  None \<Rightarrow> s
                | Some t \<Rightarrow> run_tool (tools_version c, t) (rerun_params w) (rerun_timestamp w) s))"

definition prefill_effect :: "tools_panel \<Rightarrow> tools_panel \<Rightarrow> tools_panel" where
  "prefill_effect c s =
     (case selected_tool c of
        None \<Rightarrow> s
      | Some (v, t) \<Rightarrow>
          if truthy_string (given_file c) \<and> file_keys t \<noteq> []
          then s\<lparr>param_values := AList.update (hd (file_keys t)) (JStr (nullish (given_file c) [])) (param_values s)\<rparr>
          else s)"

definition changed :: "('a \<Rightarrow> 'b) \<Rightarrow> 'a option \<Rightarrow> 'a \<Rightarrow> bool" where
  "changed f old new \<longleftrightarrow> (case old of None \<Rightarrow> True | Some o' \<Rightarrow> f o' \<noteq> f new)"

definition render_round :: "tools_panel \<Rightarrow> tools_panel" where
  "render_round s =
     (let old = rendered_deps s; new = deps_of s;
          s1 = (if changed fst old new then initial_tool_effect s s else s);
          s2 = (if changed (fst \<circ> snd) old new then rerun_effect s s1 else s1);
          s3 = (if changed (snd \<circ> snd) old new then prefill_effect s s2 else s2)
      in s3\<lparr>rendered_deps := Some new\<rparr>)"

text \<open>What the effects set is rendered in turn; a third rendering changes nothing.\<close>

definition commit_panel :: "tools_panel \<Rightarrow> tools_panel" where
  "commit_panel s = render_round (render_round s)"

subsection \<open>Events\<close>

datatype tools_input =
  ToolsArrive "tool list"
| FileGiven "string option" bool
| InitialTool "string option"
| RerunWanted "rerun option"
| SearchTyped string
| PinClicked bool string
| FavoriteClicked bool string
| ToolClicked tool
| ParamChanged string json
| ExecuteClicked
| Execution_Answered nat nat "string option + tool_result"
| PastClicked past_execution
| TabClicked string

fun tools_event :: "tools_input \<Rightarrow> tools_panel \<Rightarrow> tools_panel" where
  "tools_event (ToolsArrive ts) s = s\<lparr>tools_prop := ts, tools_version := Suc (tools_version s)\<rparr>"
| "tools_event (FileGiven f b) s = s\<lparr>given_file := f, only_file_tools := b\<rparr>"
| "tools_event (InitialTool t) s = s\<lparr>asked_tool := t\<rparr>"
| "tools_event (RerunWanted w) s = s\<lparr>rerun_prop := w\<rparr>"
| "tools_event (SearchTyped v) s = s\<lparr>search_text := v\<rparr>"
| "tools_event (PinClicked w nm) s = togglePin w nm s"
| "tools_event (FavoriteClicked w nm) s = toggleFavorite w nm s"
| "tools_event (ToolClicked t) s = handleSelectTool (tools_version s, t) s"
| "tools_event (ParamChanged k v) s = s\<lparr>param_values := handleChange k v (param_values s)\<rparr>"
| "tools_event ExecuteClicked s = handleExecute s"
| "tools_event (Execution_Answered n now r) s = execution_answered n now r s"
| "tools_event (PastClicked x) s = handleRerun x s"
| "tools_event (TabClicked t) s = s\<lparr>active_tab := t\<rparr>"

definition tools_step :: "tools_input \<Rightarrow> tools_panel \<Rightarrow> tools_panel" where
  "tools_step e s = commit_panel (tools_event e s)"

definition run_tools_panel :: "(string \<times> string list) list \<Rightarrow> tools_input list \<Rightarrow> tools_panel" where
  "run_tools_panel stored es = fold tools_step es (commit_panel (initial_tools_panel stored))"

lemmas tools_simps = tools_event.simps togglePin_def toggleFavorite_def handleSelectTool_def

subsection \<open>The effects come to rest\<close>

lemma quiet_effects [simp]:
  "rerun_prop (initial_tool_effect c s) = rerun_prop s" "tools_prop (initial_tool_effect c s) = tools_prop s"
  "tools_version (initial_tool_effect c s) = tools_version s" "executing (initial_tool_effect c s) = executing s"
  "processed_rerun (initial_tool_effect c s) = processed_rerun s" "asked_tool (initial_tool_effect c s) = asked_tool s"
  "given_file (initial_tool_effect c s) = given_file s" "pending_rerun (initial_tool_effect c s) = pending_rerun s"
  "running (initial_tool_effect c s) = running s" "started_reruns (initial_tool_effect c s) = started_reruns s"
  "recent_executions (initial_tool_effect c s) = recent_executions s"
  "rerun_prop (prefill_effect c s) = rerun_prop s" "tools_prop (prefill_effect c s) = tools_prop s"
  "tools_version (prefill_effect c s) = tools_version s" "executing (prefill_effect c s) = executing s"
  "processed_rerun (prefill_effect c s) = processed_rerun s" "asked_tool (prefill_effect c s) = asked_tool s"
  "given_file (prefill_effect c s) = given_file s" "selected_tool (prefill_effect c s) = selected_tool s"
  "pending_rerun (prefill_effect c s) = pending_rerun s"
  "running (prefill_effect c s) = running s" "started_reruns (prefill_effect c s) = started_reruns s"
  "recent_executions (prefill_effect c s) = recent_executions s"
  by (simp_all add: initial_tool_effect_def prefill_effect_def split: option.split)

lemma run_tool_simps [simp]:
  "rerun_prop (run_tool t ps time s) = rerun_prop s" "tools_prop (run_tool t ps time s) = tools_prop s"
  "tools_version (run_tool t ps time s) = tools_version s" "executing (run_tool t ps time s)"
  "processed_rerun (run_tool t ps time s) = time" "asked_tool (run_tool t ps time s) = asked_tool s"
  "given_file (run_tool t ps time s) = given_file s" "started_reruns (run_tool t ps time s) = started_reruns s @ [time]"
  "length (running (run_tool t ps time s)) = Suc (length (running s))"
  "recent_executions (run_tool t ps time s) = recent_executions s"
  "pending_rerun (run_tool t ps time s) = pending_rerun s"
  by (simp_all add: run_tool_def)

lemma rerun_effect_props [simp]:
  "rerun_prop (rerun_effect c s) = rerun_prop s" "tools_prop (rerun_effect c s) = tools_prop s"
  "tools_version (rerun_effect c s) = tools_version s" "asked_tool (rerun_effect c s) = asked_tool s"
  "given_file (rerun_effect c s) = given_file s" "recent_executions (rerun_effect c s) = recent_executions s"
  by (simp_all add: rerun_effect_def split: option.split)

text \<open>Done with the rerun that the page asks for: it is running, or was, or nobody knows its tool.\<close>

definition settled :: "tools_panel \<Rightarrow> bool" where
  "settled s \<longleftrightarrow>
     executing s \<or> (case rerun_prop s of
       None \<Rightarrow> True
     | Some w \<Rightarrow> rerun_timestamp w \<le> processed_rerun s \<or> find_tool (tools_prop s) (rerun_tool w) = None)"

lemma rerun_effect_busy:
  "executing c \<Longrightarrow> rerun_effect c s = s \<or> (\<exists>w. rerun_effect c s = s\<lparr>pending_rerun := Some w\<rparr>)"
  by (auto simp: rerun_effect_def split: option.split)

lemma rerun_effect_settled:
  assumes "rerun_prop s = rerun_prop c" "tools_prop s = tools_prop c" "executing s = executing c"
  shows "settled (rerun_effect c s)"
  using assms by (auto simp: settled_def rerun_effect_def split: option.split)

definition same_run :: "tools_panel \<Rightarrow> tools_panel \<Rightarrow> bool" where
  "same_run s s' \<longleftrightarrow>
     executing s' = executing s \<and> processed_rerun s' = processed_rerun s \<and> running s' = running s \<and>
     started_reruns s' = started_reruns s \<and> rerun_prop s' = rerun_prop s \<and> tools_prop s' = tools_prop s \<and>
     tools_version s' = tools_version s \<and> recent_executions s' = recent_executions s"

text \<open>A rendering as its three effects.\<close>

lemma render_round_cases:
  obtains s1 s2 where
    "s1 = initial_tool_effect s s \<or> s1 = s" "same_run s s1" "asked_tool s1 = asked_tool s"
    "given_file s1 = given_file s"
    "s2 = (if changed (fst \<circ> snd) (rendered_deps s) (deps_of s) then rerun_effect s s1 else s1)"
    "render_round s = (if changed (snd \<circ> snd) (rendered_deps s) (deps_of s) then prefill_effect s s2 else s2)
       \<lparr>rendered_deps := Some (deps_of s)\<rparr>"
    "\<not> changed fst (rendered_deps s) (deps_of s) \<Longrightarrow> s1 = s"
proof -
  define s1 where "s1 = (if changed fst (rendered_deps s) (deps_of s) then initial_tool_effect s s else s)"
  have "s1 = initial_tool_effect s s \<or> s1 = s" "same_run s s1" "asked_tool s1 = asked_tool s"
      "given_file s1 = given_file s"
    by (simp_all add: s1_def same_run_def)
  moreover have "\<not> changed fst (rendered_deps s) (deps_of s) \<Longrightarrow> s1 = s" by (simp add: s1_def)
  ultimately show thesis using that [OF _ _ _ _ refl] by (simp add: render_round_def Let_def s1_def)
qed

lemma settled_update [simp]: "settled (s\<lparr>rendered_deps := d\<rparr>) = settled s"
  by (simp add: settled_def cong: option.case_cong)

lemma settled_prefill [simp]: "settled (prefill_effect c s) = settled s"
  by (simp add: settled_def split: option.split)

lemma settled_same: "same_run s s' \<Longrightarrow> settled s' = settled s"
  by (simp add: settled_def same_run_def split: option.split)

lemma round_settles:
  assumes "\<not> changed (fst \<circ> snd) (rendered_deps s) (deps_of s) \<Longrightarrow> settled s"
  shows "settled (render_round s)"
proof -
  obtain s1 s2 where r: "same_run s s1"
      "s2 = (if changed (fst \<circ> snd) (rendered_deps s) (deps_of s) then rerun_effect s s1 else s1)"
      "render_round s = (if changed (snd \<circ> snd) (rendered_deps s) (deps_of s) then prefill_effect s s2 else s2)
         \<lparr>rendered_deps := Some (deps_of s)\<rparr>"
    by (rule render_round_cases)
  have "settled s2"
  proof (cases "changed (fst \<circ> snd) (rendered_deps s) (deps_of s)")
    case True
    then show ?thesis using r(1,2) rerun_effect_settled [of s1 s] by (simp add: same_run_def)
  next
    case False
    then show ?thesis using r(1,2) assms settled_same by simp
  qed
  then show ?thesis by (simp add: r(3))
qed

lemma panel_commit_settles:
  assumes "\<not> changed (fst \<circ> snd) (rendered_deps s) (deps_of s) \<Longrightarrow> settled s"
  shows "settled (commit_panel s)"
proof -
  have "settled (render_round s)" using assms by (rule round_settles)
  then have "settled (render_round (render_round s))" by (rule round_settles)
  then show ?thesis by (simp add: commit_panel_def)
qed

text \<open>After one round the tools are rendered; after two, everything is.\<close>

lemma round_rendered: "rendered_deps (render_round s) = Some (deps_of s)"
  by (simp add: render_round_def Let_def)

lemma round_first: "fst (deps_of (render_round s)) = fst (deps_of s)"
  by (rule render_round_cases [of s]) (auto simp: deps_of_def same_run_def)

lemma second_round:
  assumes "rendered_deps s = Some d" and "fst d = fst (deps_of s)"
    and "fst (snd d) \<noteq> fst (snd (deps_of s)) \<Longrightarrow> executing s"
  shows "deps_of (render_round s) = deps_of s"
proof (rule render_round_cases [of s])
  fix s1 s2
  assume r: "\<not> changed fst (rendered_deps s) (deps_of s) \<Longrightarrow> s1 = s"
    "s2 = (if changed (fst \<circ> snd) (rendered_deps s) (deps_of s) then rerun_effect s s1 else s1)"
    "render_round s = (if changed (snd \<circ> snd) (rendered_deps s) (deps_of s) then prefill_effect s s2 else s2)
       \<lparr>rendered_deps := Some (deps_of s)\<rparr>"
  have "s1 = s" using r(1) assms by (simp add: changed_def)
  then have "s2 = s \<or> (\<exists>w. s2 = s\<lparr>pending_rerun := Some w\<rparr>)"
    using r(2) assms rerun_effect_busy [of s s] by (auto simp: changed_def)
  then have "deps_of s2 = deps_of s" by (auto simp: deps_of_def)
  then show ?thesis by (auto simp: r(3) deps_of_def)
qed

lemma first_round_reruns:
  "fst (snd (deps_of (render_round s))) \<noteq> fst (snd (deps_of s)) \<Longrightarrow> executing (render_round s)"
proof (rule render_round_cases [of s])
  fix s1 s2
  assume ne: "fst (snd (deps_of (render_round s))) \<noteq> fst (snd (deps_of s))"
    and r: "same_run s s1"
    "s2 = (if changed (fst \<circ> snd) (rendered_deps s) (deps_of s) then rerun_effect s s1 else s1)"
    "render_round s = (if changed (snd \<circ> snd) (rendered_deps s) (deps_of s) then prefill_effect s s2 else s2)
       \<lparr>rendered_deps := Some (deps_of s)\<rparr>"
  have same: "fst (snd (deps_of s2)) = fst (snd (deps_of s)) \<or> executing s2"
    using r(1,2) by (auto simp: deps_of_def same_run_def rerun_effect_def split: option.split)
  have "fst (snd (deps_of (render_round s))) = fst (snd (deps_of s2))" "executing (render_round s) = executing s2"
    by (simp_all add: r(3) deps_of_def)
  then show ?thesis using ne same by simp
qed

lemma panel_commit_rendered: "rendered_deps (commit_panel s) = Some (deps_of (commit_panel s))"
proof -
  have "deps_of (render_round (render_round s)) = deps_of (render_round s)"
    using second_round [OF round_rendered] round_first first_round_reruns by metis
  then show ?thesis by (simp add: commit_panel_def round_rendered)
qed

text \<open>The effects of the panel of the tools come to rest: whatever happened, after two renderings nothing is
  left that a third would change.\<close>

theorem panel_comes_to_rest: "render_round (commit_panel s) = commit_panel s"
  using panel_commit_rendered [of s] by (simp add: render_round_def [of "commit_panel s"] changed_def Let_def)

subsection \<open>One execution at a time\<close>

definition runs_ok :: "tools_panel \<Rightarrow> bool" where
  "runs_ok s \<longleftrightarrow>
     length (running s) = of_bool (executing s) \<and> length (recent_executions s) \<le> 20 \<and>
     sorted_wrt (<) (started_reruns s) \<and> (\<forall>t \<in> set (started_reruns s). t \<le> processed_rerun s) \<and>
     (processed_rerun s = 0 \<or> processed_rerun s \<in> set (started_reruns s))"

text \<open>The reruns that were started, or may be, were asked for.\<close>

definition asked_ok :: "nat set \<Rightarrow> tools_panel \<Rightarrow> bool" where
  "asked_ok A s \<longleftrightarrow>
     set (started_reruns s) \<subseteq> A \<and> rerun_timestamp ` set_option (rerun_prop s) \<subseteq> A \<and>
     rerun_timestamp ` set_option (pending_rerun s) \<subseteq> A"

lemma run_tool_ok:
  assumes "runs_ok s" and "\<not> executing s" and "processed_rerun s < time"
  shows "runs_ok (run_tool t ps time s)"
proof -
  have "\<forall>x \<in> set (started_reruns s). x < time" using assms by (auto simp: runs_ok_def)
  then show ?thesis using assms by (auto simp: runs_ok_def sorted_wrt_append)
qed

lemma runs_ok_same: "runs_ok s \<Longrightarrow> same_run s s' \<Longrightarrow> runs_ok s'"
  by (simp add: runs_ok_def same_run_def)

lemma runs_ok_pending [simp]: "runs_ok (s\<lparr>pending_rerun := w\<rparr>) = runs_ok s"
  by (simp add: runs_ok_def)

lemma rerun_effect_ok: "runs_ok s \<Longrightarrow> executing c = executing s \<Longrightarrow> runs_ok (rerun_effect c s)"
  by (auto simp: rerun_effect_def split: option.split intro!: run_tool_ok)

lemma rerun_effect_asked: "asked_ok A s \<Longrightarrow> rerun_prop c = rerun_prop s \<Longrightarrow> asked_ok A (rerun_effect c s)"
  by (auto simp: rerun_effect_def asked_ok_def split: option.split)

lemma round_ok:
  assumes "runs_ok s" and "asked_ok A s"
  shows "runs_ok (render_round s)" "asked_ok A (render_round s)"
proof -
  obtain s1 s2 where r: "s1 = initial_tool_effect s s \<or> s1 = s" "same_run s s1"
      "s2 = (if changed (fst \<circ> snd) (rendered_deps s) (deps_of s) then rerun_effect s s1 else s1)"
      "render_round s = (if changed (snd \<circ> snd) (rendered_deps s) (deps_of s) then prefill_effect s s2 else s2)
         \<lparr>rendered_deps := Some (deps_of s)\<rparr>"
    by (rule render_round_cases)
  have "runs_ok s1" using assms(1) r(2) by (rule runs_ok_same)
  then have s2: "runs_ok s2" using r(2,3) rerun_effect_ok by (simp add: same_run_def)
  show "runs_ok (render_round s)"
    by (rule runs_ok_same [OF s2]) (simp add: r(4) same_run_def)
  have "asked_ok A s1" using assms(2) r(1) by (auto simp: asked_ok_def)
  then have "asked_ok A s2" using r(2,3) rerun_effect_asked by (simp add: same_run_def)
  then show "asked_ok A (render_round s)" by (simp add: r(4) asked_ok_def)
qed

lemma commit_ok:
  assumes "runs_ok s" and "asked_ok A s"
  shows "runs_ok (commit_panel s)" "asked_ok A (commit_panel s)"
  using round_ok [OF round_ok [OF assms]] by (simp_all add: commit_panel_def)

lemma answered_split:
  assumes "runs_ok s" and "n < length (running s)"
  obtains x where "executing s" "running s = [x]" "n = 0"
  using assms by (cases "executing s") (auto simp: runs_ok_def length_Suc_conv)

lemma run_pending_ok:
  "runs_ok s \<Longrightarrow> \<not> executing s \<Longrightarrow> runs_ok (run_pending v s)"
  by (auto simp: run_pending_def Let_def split: option.split intro!: run_tool_ok)

lemma run_pending_asked: "asked_ok A s \<Longrightarrow> asked_ok A (run_pending v s)"
  by (auto simp: run_pending_def Let_def asked_ok_def split: option.split)

lemma execution_answered_ok:
  assumes "runs_ok s" and "asked_ok A s"
  shows "runs_ok (execution_answered n now r s)" "asked_ok A (execution_answered n now r s)"
proof -
  have "runs_ok (execution_answered n now r s) \<and> asked_ok A (execution_answered n now r s)"
  proof (cases "n < length (running s)")
    case False
    then show ?thesis using assms by (simp add: execution_answered_def)
  next
    case True
    then obtain x where x: "executing s" "running s = [x]" "n = 0" using answered_split assms(1) by metis
    define s1 where "s1 = (record_result now x (case r of Inl e \<Rightarrow> fail_result (run_name x) e | Inr v \<Rightarrow> v) s)
      \<lparr>running := [], executing := False\<rparr>"
    have "runs_ok s1" "\<not> executing s1" "asked_ok A s1"
      using assms by (auto simp: s1_def record_result_def runs_ok_def asked_ok_def)
    moreover have "execution_answered n now r s = (if run_is_rerun x then run_pending (run_tools x) s1 else s1)"
      using x by (simp add: execution_answered_def s1_def Let_def)
    ultimately show ?thesis using run_pending_ok run_pending_asked by simp
  qed
  then show "runs_ok (execution_answered n now r s)" "asked_ok A (execution_answered n now r s)" by simp_all
qed

fun asked_by :: "tools_input \<Rightarrow> nat set" where
  "asked_by (RerunWanted w) = rerun_timestamp ` set_option w"
| "asked_by e = {}"

lemma tools_event_ok:
  assumes "runs_ok s" and "asked_ok A s"
  shows "runs_ok (tools_event e s)" "asked_ok (A \<union> asked_by e) (tools_event e s)"
proof -
  have "runs_ok (tools_event e s) \<and> asked_ok (A \<union> asked_by e) (tools_event e s)"
  proof (cases e)
    case (Execution_Answered n now r)
    then show ?thesis using execution_answered_ok [OF assms] by simp
  next
    case ExecuteClicked
    then show ?thesis using assms by (auto simp: handleExecute_def runs_ok_def asked_ok_def split: option.split)
  next
    case (PastClicked x)
    then show ?thesis using assms by (auto simp: handleRerun_def runs_ok_def asked_ok_def split: option.split)
  next
    case (RerunWanted w)
    then show ?thesis using assms by (auto simp: runs_ok_def asked_ok_def)
  qed (use assms in \<open>simp_all add: togglePin_def toggleFavorite_def handleSelectTool_def runs_ok_def asked_ok_def\<close>)
  then show "runs_ok (tools_event e s)" "asked_ok (A \<union> asked_by e) (tools_event e s)" by simp_all
qed

text \<open>An event that leaves the dependencies of the rerun effect as they are leaves nothing unsettled.\<close>

lemma event_settled:
  assumes "runs_ok s" "settled s" "fst (snd (deps_of (tools_event e s))) = fst (snd (deps_of s))"
  shows "settled (tools_event e s)"
proof (cases e)
  case (Execution_Answered n now r)
  show ?thesis
  proof (cases "n < length (running s)")
    case True
    then have "executing s" using answered_split assms(1) by metis
    then show ?thesis using assms(3) by (simp add: settled_def deps_of_def)
  next
    case False
    then show ?thesis using assms(2) Execution_Answered by (simp add: execution_answered_def)
  qed
next
  case ExecuteClicked
  then show ?thesis using assms(2) by (auto simp: handleExecute_def settled_def split: option.split)
next
  case (PastClicked x)
  then show ?thesis using assms(2) by (auto simp: handleRerun_def settled_def split: option.splits)
qed (use assms in \<open>auto simp: deps_of_def togglePin_def toggleFavorite_def handleSelectTool_def settled_def split: option.splits\<close>)

lemma event_keeps_rendered [simp]: "rendered_deps (tools_event e s) = rendered_deps s"
  by (cases e) (auto simp: togglePin_def toggleFavorite_def handleSelectTool_def handleRerun_def handleExecute_def
      execution_answered_def record_result_def run_pending_def run_tool_def Let_def split: option.split)

definition asked_in :: "tools_input list \<Rightarrow> nat set" where
  "asked_in es = (\<Union>e \<in> set es. asked_by e)"

lemma panel_always:
  "runs_ok (run_tools_panel stored es)" "asked_ok (asked_in es) (run_tools_panel stored es)"
  "settled (run_tools_panel stored es)"
proof -
  have "runs_ok (fold tools_step es s) \<and> asked_ok (A \<union> asked_in es) (fold tools_step es s) \<and> settled (fold tools_step es s)"
    if "runs_ok s" "asked_ok A s" "settled s" "rendered_deps s = Some (deps_of s)" for s A
    using that
  proof (induction es arbitrary: s A)
    case (Cons e es)
    let ?s = "tools_step e s"
    have "settled ?s" unfolding tools_step_def
      using event_settled [OF Cons.prems(1,3), of e] Cons.prems(4) by (intro panel_commit_settles) (auto simp: changed_def)
    moreover have "runs_ok ?s" "asked_ok (A \<union> asked_by e) ?s"
      unfolding tools_step_def using commit_ok [OF tools_event_ok [OF Cons.prems(1,2), of e]] by simp_all
    moreover have "rendered_deps ?s = Some (deps_of ?s)" by (simp add: tools_step_def panel_commit_rendered)
    ultimately have "runs_ok (fold tools_step es ?s) \<and> asked_ok (A \<union> asked_by e \<union> asked_in es) (fold tools_step es ?s) \<and>
        settled (fold tools_step es ?s)" by (intro Cons.IH)
    then show ?case by (simp add: asked_in_def Un_assoc)
  qed (simp add: asked_in_def)
  moreover have i: "runs_ok (initial_tools_panel stored)" "asked_ok {} (initial_tools_panel stored)"
    by (simp_all add: initial_tools_panel_def runs_ok_def asked_ok_def)
  moreover have "settled (commit_panel (initial_tools_panel stored))"
    by (rule panel_commit_settles) (simp add: settled_def initial_tools_panel_def)
  ultimately show "runs_ok (run_tools_panel stored es)" "asked_ok (asked_in es) (run_tools_panel stored es)"
    "settled (run_tools_panel stored es)"
    using commit_ok [OF i] panel_commit_rendered unfolding run_tools_panel_def by fastforce+
qed

text \<open>The panel of the tools executes one tool at a time, and is shown as busy exactly meanwhile; the reruns
  that the page asks for start in the order of their times, none twice; at most twenty past executions are kept.\<close>

theorem panel_executes_one_at_a_time:
  "let s = run_tools_panel stored es
   in length (running s) = of_bool (executing s) \<and> sorted_wrt (<) (started_reruns s) \<and> length (recent_executions s) \<le> 20"
  using panel_always(1) [of stored es] by (simp add: runs_ok_def Let_def)

text \<open>C33: No rerun is lost: when the panel is not executing anything, the rerun that the page asked for last has
  been started, if its tool is known, also when it was asked for while another execution was under way.\<close>

theorem newest_rerun_started:
  assumes "rerun_prop (run_tools_panel stored es) = Some w" and "\<not> executing (run_tools_panel stored es)"
    and "find_tool (tools_prop (run_tools_panel stored es)) (rerun_tool w) \<noteq> None"
    and "0 < rerun_timestamp w" and "\<forall>t \<in> asked_in es. t \<le> rerun_timestamp w"
  shows "rerun_timestamp w \<in> set (started_reruns (run_tools_panel stored es))"
proof -
  let ?s = "run_tools_panel stored es"
  have "rerun_timestamp w \<le> processed_rerun ?s"
    using panel_always(3) [of stored es] assms(1-3) by (simp add: settled_def)
  moreover have "processed_rerun ?s \<in> set (started_reruns ?s)"
    using panel_always(1) [of stored es] calculation assms(4) by (auto simp: runs_ok_def)
  moreover have "processed_rerun ?s \<in> asked_in es"
    using panel_always(2) [where stored = stored and es = es] calculation(2) by (auto simp: asked_ok_def)
  ultimately show ?thesis using assms(5) by force
qed

definition sample_tool :: tool where
  "sample_tool =
     \<lparr>tool_name_of = ''grep'', tool_description = ''search files'', parameters_schema = JObj [(''properties'', JObj
        [(''file'', JObj [(''type'', JStr ''string'')]), (''depth'', JObj [(''type'', JStr ''number''), (''default'', JNum 3)])])]\<rparr>"

definition sample_rerun :: rerun where
  "sample_rerun = \<lparr>rerun_tool = ''grep'', rerun_params = [], rerun_timestamp = 5\<rparr>"

definition sample_inputs :: "tools_input list" where
  "sample_inputs =
     [ToolsArrive [sample_tool], ToolClicked sample_tool, ExecuteClicked, RerunWanted (Some sample_rerun),
      Execution_Answered 0 1 (Inl None), Execution_Answered 0 2 (Inl None)]"

lemma newest_rerun_started_witness:
  "rerun_timestamp sample_rerun \<in> set (started_reruns (run_tools_panel [] sample_inputs)) \<and>
   length (recent_executions (run_tools_panel [] sample_inputs)) = 2"
proof
  have "rerun_prop (run_tools_panel [] sample_inputs) = Some sample_rerun"
    "\<not> executing (run_tools_panel [] sample_inputs)"
    "find_tool (tools_prop (run_tools_panel [] sample_inputs)) (rerun_tool sample_rerun) \<noteq> None"
    "0 < rerun_timestamp sample_rerun"
    by code_simp+
  moreover have "\<forall>t \<in> asked_in sample_inputs. t \<le> rerun_timestamp sample_rerun"
    by (simp add: asked_in_def sample_inputs_def)
  ultimately show "rerun_timestamp sample_rerun \<in> set (started_reruns (run_tools_panel [] sample_inputs))"
    by (rule newest_rerun_started)
qed code_simp

subsection \<open>Where the panel does what it does not mean to\<close>

text \<open>The default that the form shows is not sent.\<close>

lemma shown_default_not_sent:
  "let s = run_tools_panel [] [ToolsArrive [sample_tool], ToolClicked sample_tool, ExecuteClicked]
   in currentValue (param_values s) [] (JObj [(''type'', JStr ''number''), (''default'', JNum 3)]) ''depth'' = JNum 3 \<and>
      map run_params (running s) = [[]]"
  by code_simp

text \<open>With a file given, an execution that is taken up again from the recent ones gets that file.\<close>

lemma past_file_replaced:
  "let x = \<lparr>past_tool = ''grep'', past_time = 1, past_result = fail_result ''grep'' None,
             past_parameters = [(''file'', JStr ''old.txt'')]\<rparr>;
       s = run_tools_panel [] [ToolsArrive [sample_tool], FileGiven (Some ''new.txt'') False, PastClicked x]
   in param_values s = [(''file'', JStr ''new.txt'')]"
  by code_simp

text \<open>A refresh of the tools takes the user back to the tool that the panel was opened with.\<close>

lemma refresh_selects_again:
  "let other = sample_tool\<lparr>tool_name_of := ''other''\<rparr>; tools = [sample_tool, other];
       s = run_tools_panel [] [ToolsArrive tools, InitialTool (Some ''grep''), ToolClicked other];
       s' = tools_step (ToolsArrive tools) s
   in map_option (tool_name_of \<circ> snd) (selected_tool s) = Some ''other'' \<and>
      map_option (tool_name_of \<circ> snd) (selected_tool s') = Some ''grep''"
  by code_simp

lemma trailing_blank_finds_nothing:
  "map tool_name_of (filteredTools (run_tools_panel [] [ToolsArrive [sample_tool], SearchTyped ''grep''])) = [''grep''] \<and>
   filteredTools (run_tools_panel [] [ToolsArrive [sample_tool], SearchTyped ''grep '']) = []"
  by code_simp

end
