(* ===== verification/Model_Selector.thy ===== *)
theory Model_Selector
  imports Page_State
begin

section \<open>Choosing a model\<close>

text \<open>
  \<^verbatim>\<open>components/model-selector-dialog.tsx\<close> on the hook of the models.  To apply a model that is not in memory the
  dialog asks the hook to load it and lets an interval advance a bar meanwhile.  The loads in flight, the armed
  intervals and the variable \<open>simulated\<close> of each are parts of the state; an application of a model and its
  interval have the same number.
\<close>

subsection \<open>Texts\<close>

text \<open>\<open>toFixed\<close> is the host's.\<close>

definition formatBytes :: "(nat \<Rightarrow> real \<Rightarrow> string) \<Rightarrow> real option \<Rightarrow> string" where
  "formatBytes fixed bytes =
     (case bytes of
        None \<Rightarrow> []
      | Some b \<Rightarrow>
          if 1 \<le> b / 1024 ^ 3 then fixed 1 (b / 1024 ^ 3) @ '' GB'' else fixed 0 (b / 1024 ^ 2) @ '' MB'')"

definition deriveCapabilities :: "string \<Rightarrow> string option \<Rightarrow> string list" where
  "deriveCapabilities name description =
     (let haystack = to_lower (name @ '' '' @ nullish description []);
          has = (\<lambda>w. occurs w haystack);
          found = (if has ''code'' \<or> has ''coder'' then [''Code generation''] else []) @
                  (if has ''embed'' then [''Embeddings''] else []) @
                  (if has ''reason'' then [''Reasoning''] else []) @
                  (if has ''vision'' then [''Vision''] else []) @
                  (if has ''multi'' \<or> has ''qwen'' then [''Multilingual''] else [])
      in take 4 (if found = [] then [''General chat''] else found))"

definition activeModelDisplay :: "string option \<Rightarrow> string" where
  "activeModelDisplay m = (if truthy_string m then takeWhile (\<lambda>c. c \<noteq> CHR '':'') (nullish m []) else ''None'')"

lemma capabilities_bounds: "deriveCapabilities name d \<noteq> [] \<and> length (deriveCapabilities name d) \<le> 4"
  by (simp add: deriveCapabilities_def Let_def)

subsection \<open>State\<close>

datatype model_tab = Installed | NotInstalled | Cloud

record apply_progress =
  bar_model :: string
  bar_percent :: real
  bar_status :: string

record selector =
  sel_open :: bool
  sel_tab :: model_tab
  pending_selection :: "(string \<times> model_tab) option"
  expanded_keys :: "string list"
  is_applying :: bool
  apply_bar :: "apply_progress option"
  mounted :: bool
  timer_ref :: "nat option"
  intervals :: "(nat \<times> string) list"
  simulated :: "nat \<Rightarrow> real"
  loads :: "(nat \<times> string) list"
  next_apply :: nat
  hook_active :: "string option"
  in_vram :: "string list"
  activated :: "string list"
  refreshes :: nat

definition initial_selector :: selector where
  "initial_selector =
     \<lparr>sel_open = False, sel_tab = Installed, pending_selection = None, expanded_keys = [], is_applying = False,
      apply_bar = None, mounted = True, timer_ref = None, intervals = [], simulated = (\<lambda>_. 0), loads = [],
      next_apply = 0, hook_active = None, in_vram = [], activated = [], refreshes = 0\<rparr>"

definition toggleExpanded :: "string \<Rightarrow> selector \<Rightarrow> selector" where
  "toggleExpanded key s =
     s\<lparr>expanded_keys := (if key \<in> set (expanded_keys s) then removeAll key (expanded_keys s) else key # expanded_keys s)\<rparr>"

text \<open>The two effects of opening; the second one also follows a change of the active model.\<close>

definition sync_selection :: "selector \<Rightarrow> selector" where
  "sync_selection s =
     (if sel_open s then
        s\<lparr>pending_selection := (if truthy_string (hook_active s) then Some (nullish (hook_active s) [], Installed) else None)\<rparr>
      else s)"

definition open_selector :: "selector \<Rightarrow> selector" where
  "open_selector s =
     (if sel_open s then s
      else sync_selection
        (s\<lparr>sel_open := True, refreshes := Suc (refreshes s), sel_tab := Installed, expanded_keys := [], is_applying := False,
           apply_bar := None\<rparr>))"

definition close_selector :: "selector \<Rightarrow> selector" where
  "close_selector s = s\<lparr>sel_open := False\<rparr>"

definition active_changed :: "string option \<Rightarrow> selector \<Rightarrow> selector" where
  "active_changed m s = (if m = hook_active s then s else sync_selection (s\<lparr>hook_active := m\<rparr>))"

definition select_model :: "string \<Rightarrow> model_tab \<Rightarrow> selector \<Rightarrow> selector" where
  "select_model nm tab s = (if sel_open s then s\<lparr>pending_selection := Some (nm, tab)\<rparr> else s)"

definition canApplyInstalledSelection :: "selector \<Rightarrow> bool" where
  "canApplyInstalledSelection s \<longleftrightarrow>
     (case pending_selection s of Some (nm, Installed) \<Rightarrow> \<not> is_applying s | _ \<Rightarrow> False)"

definition applyHelperMessage :: "selector \<Rightarrow> string option" where
  "applyHelperMessage s =
     (case pending_selection s of
        Some (nm, NotInstalled) \<Rightarrow>
          Some ''Download the model first from Not Installed, then switch to Installed and Apply.''
      | Some (nm, Cloud) \<Rightarrow> Some ''Cloud model routing is not configured in this backend yet.''
      | _ \<Rightarrow> None)"

subsection \<open>Applying\<close>

text \<open>\<open>setActiveModel\<close> of the hook, and the end of \<open>handleApplySelection\<close>.\<close>

definition finish_apply :: "string \<Rightarrow> selector \<Rightarrow> selector" where
  "finish_apply nm s =
     active_changed (Some nm)
       (s\<lparr>activated := activated s @ [nm],
          apply_bar := Some \<lparr>bar_model = nm, bar_percent = 100, bar_status = ''Model applied.''\<rparr>, is_applying := False\<rparr>)"

definition handleApplySelection :: "selector \<Rightarrow> selector" where
  "handleApplySelection s =
     (case pending_selection s of
        Some (nm, Installed) \<Rightarrow>
          if is_applying s \<or> \<not> mounted s then s
          else if nm \<in> set (in_vram s) then finish_apply nm (s\<lparr>is_applying := True\<rparr>)
          else (let k = next_apply s
                in s\<lparr>is_applying := True,
                     apply_bar := Some \<lparr>bar_model = nm, bar_percent = 8, bar_status = ''Starting model load...''\<rparr>,
                     simulated := (simulated s)(k := 8), intervals := intervals s @ [(k, nm)], timer_ref := Some k,
                     loads := loads s @ [(k, nm)], next_apply := Suc k\<rparr>)
      | _ \<Rightarrow> s)"

text \<open>One firing of the interval \<open>k\<close>, every 280 ms.\<close>

definition bar_tick :: "nat \<Rightarrow> selector \<Rightarrow> selector" where
  "bar_tick k s =
     (case map_of (intervals s) k of
        None \<Rightarrow> s
      | Some nm \<Rightarrow>
          if \<not> mounted s then s
          else (let v = min (simulated s k + 7) 92; s1 = s\<lparr>simulated := (simulated s)(k := v)\<rparr>
                in case apply_bar s of
                     None \<Rightarrow> s1
                   | Some b \<Rightarrow>
                       if bar_model b \<noteq> nm then s1
                       else s1\<lparr>apply_bar := Some (b\<lparr>bar_percent := v, bar_status := ''Loading model into VRAM...''\<rparr>)\<rparr>))"

definition clear_apply_timer :: "selector \<Rightarrow> selector" where
  "clear_apply_timer s =
     (case timer_ref s of None \<Rightarrow> s | Some k \<Rightarrow> s\<lparr>intervals := filter (\<lambda>(j, nm). j \<noteq> k) (intervals s), timer_ref := None\<rparr>)"

text \<open>The answer of \<open>loadModel\<close>: \<open>None\<close> is thrown, else whether the model was loaded.\<close>

definition load_answered :: "nat \<Rightarrow> bool option \<Rightarrow> selector \<Rightarrow> selector" where
  "load_answered k r s =
     (case map_of (loads s) k of
        None \<Rightarrow> s
      | Some nm \<Rightarrow>
          (let ok = (r = Some True);
               s0 = s\<lparr>loads := filter (\<lambda>(j, nm). j \<noteq> k) (loads s)\<rparr>;
               s1 = (if r = None \<and> mounted s then
                       s0\<lparr>apply_bar := Some \<lparr>bar_model = nm, bar_percent = simulated s k,
                         bar_status = ''Load failed. Check the error above.''\<rparr>\<rparr>
                     else s0);
               s2 = clear_apply_timer s1;
               s3 = (if mounted s \<and> \<not> ok then s2\<lparr>is_applying := False\<rparr> else s2)
           in if mounted s \<and> ok then finish_apply nm s3 else s3))"

definition unmount_selector :: "selector \<Rightarrow> selector" where
  "unmount_selector s = clear_apply_timer (s\<lparr>mounted := False\<rparr>)"

datatype selector_event =
  OpenSelector
| CloseSelector
| ActiveChanged "string option"
| VramChanged "string list"
| TabChosen model_tab
| ModelClicked string model_tab
| DetailsClicked string
| ApplyClicked
| BarTick nat
| LoadAnswered nat "bool option"
| ModelEvent
| UnmountSelector

fun selector_step :: "selector_event \<Rightarrow> selector \<Rightarrow> selector" where
  "selector_step OpenSelector s = open_selector s"
| "selector_step CloseSelector s = close_selector s"
| "selector_step (ActiveChanged m) s = active_changed m s"
| "selector_step (VramChanged ms) s = s\<lparr>in_vram := ms\<rparr>"
| "selector_step (TabChosen t) s = (if sel_open s then s\<lparr>sel_tab := t\<rparr> else s)"
| "selector_step (ModelClicked nm t) s = select_model nm t s"
| "selector_step (DetailsClicked key) s = (if sel_open s then toggleExpanded key s else s)"
| "selector_step ApplyClicked s = (if sel_open s \<and> canApplyInstalledSelection s then handleApplySelection s else s)"
| "selector_step (BarTick k) s = bar_tick k s"
| "selector_step (LoadAnswered k r) s = load_answered k r s"
| "selector_step ModelEvent s = s\<lparr>refreshes := Suc (refreshes s)\<rparr>"
| "selector_step UnmountSelector s = unmount_selector s"

definition run_selector :: "selector_event list \<Rightarrow> selector" where
  "run_selector es = fold selector_step es initial_selector"

subsection \<open>The bar and what is applied\<close>

definition bar_ok :: "selector \<Rightarrow> bool" where
  "bar_ok s \<longleftrightarrow>
     (case apply_bar s of
        None \<Rightarrow> True
      | Some b \<Rightarrow> 8 \<le> bar_percent b \<and> (bar_percent b \<le> 92 \<or> (bar_percent b = 100 \<and> bar_model b \<in> set (activated s))))"

definition numbers_ok :: "selector \<Rightarrow> bool" where
  "numbers_ok s \<longleftrightarrow>
     (\<forall>k \<in> fst ` set (intervals s) \<union> fst ` set (loads s) \<union> set_option (timer_ref s). k < next_apply s \<and>
        8 \<le> simulated s k \<and> simulated s k \<le> 92)"

lemma sync_simps [simp]:
  "apply_bar (sync_selection s) = apply_bar s" "activated (sync_selection s) = activated s"
  "intervals (sync_selection s) = intervals s" "loads (sync_selection s) = loads s"
  "timer_ref (sync_selection s) = timer_ref s" "next_apply (sync_selection s) = next_apply s"
  "simulated (sync_selection s) = simulated s" "is_applying (sync_selection s) = is_applying s"
  "mounted (sync_selection s) = mounted s" "hook_active (sync_selection s) = hook_active s"
  "in_vram (sync_selection s) = in_vram s"
  by (simp_all add: sync_selection_def)

lemma active_changed_simps [simp]:
  "apply_bar (active_changed m s) = apply_bar s" "activated (active_changed m s) = activated s"
  "intervals (active_changed m s) = intervals s" "loads (active_changed m s) = loads s"
  "timer_ref (active_changed m s) = timer_ref s" "next_apply (active_changed m s) = next_apply s"
  "simulated (active_changed m s) = simulated s" "is_applying (active_changed m s) = is_applying s"
  "mounted (active_changed m s) = mounted s" "hook_active (active_changed m s) = m"
  "in_vram (active_changed m s) = in_vram s"
  by (simp_all add: active_changed_def)

lemma clear_timer_simps [simp]:
  "apply_bar (clear_apply_timer s) = apply_bar s" "activated (clear_apply_timer s) = activated s"
  "loads (clear_apply_timer s) = loads s" "timer_ref (clear_apply_timer s) = None"
  "next_apply (clear_apply_timer s) = next_apply s" "simulated (clear_apply_timer s) = simulated s"
  "mounted (clear_apply_timer s) = mounted s" "hook_active (clear_apply_timer s) = hook_active s"
  "is_applying (clear_apply_timer s) = is_applying s"
  by (simp_all add: clear_apply_timer_def split: option.split)

lemma clear_timer_intervals: "set (intervals (clear_apply_timer s)) \<subseteq> set (intervals s)"
  by (auto simp: clear_apply_timer_def split: option.split)

definition selector_ok :: "selector \<Rightarrow> bool" where
  "selector_ok s \<longleftrightarrow> bar_ok s \<and> numbers_ok s"

text \<open>What only changes the selection or the dialog keeps the invariant.\<close>

definition same_apply :: "selector \<Rightarrow> selector \<Rightarrow> bool" where
  "same_apply s s' \<longleftrightarrow>
     intervals s' = intervals s \<and> loads s' = loads s \<and> timer_ref s' = timer_ref s \<and> next_apply s' = next_apply s \<and>
     simulated s' = simulated s \<and> activated s' = activated s \<and>
     (apply_bar s' = apply_bar s \<or> apply_bar s' = None)"

lemma same_apply_ok: "selector_ok s \<Longrightarrow> same_apply s s' \<Longrightarrow> selector_ok s'"
  by (auto simp: selector_ok_def same_apply_def bar_ok_def numbers_ok_def split: option.splits)

lemma finish_apply_ok: "numbers_ok s \<Longrightarrow> selector_ok (finish_apply nm s)"
  by (auto simp: selector_ok_def finish_apply_def bar_ok_def numbers_ok_def)

lemma map_of_number: "map_of xs k = Some nm \<Longrightarrow> k \<in> fst ` set xs"
  by (metis domI dom_map_of_conv_image_fst)

lemma numbers_okD:
  assumes "numbers_ok s" and "map_of (intervals s) k = Some nm \<or> map_of (loads s) k = Some nm"
  shows "8 \<le> simulated s k" "simulated s k \<le> 92"
proof -
  have "k \<in> fst ` set (intervals s) \<union> fst ` set (loads s) \<union> set_option (timer_ref s)"
    using assms(2) map_of_number [of "intervals s" k nm] map_of_number [of "loads s" k nm] by blast
  then show "8 \<le> simulated s k" "simulated s k \<le> 92" using assms(1) unfolding numbers_ok_def by blast+
qed

lemma tick_ok:
  assumes "selector_ok s"
  shows "selector_ok (bar_tick k s)"
proof (cases "map_of (intervals s) k")
  case None
  then show ?thesis using assms by (simp add: bar_tick_def)
next
  case (Some nm)
  then have "8 \<le> simulated s k" using assms numbers_okD by (auto simp: selector_ok_def)
  then show ?thesis using assms Some
    by (auto simp: bar_tick_def selector_ok_def numbers_ok_def bar_ok_def Let_def split: option.splits)
qed

lemma load_answered_ok:
  assumes ok: "selector_ok s"
  shows "selector_ok (load_answered k r s)"
proof (cases "map_of (loads s) k")
  case None
  then show ?thesis using ok by (simp add: load_answered_def)
next
  case (Some nm)
  have k: "8 \<le> simulated s k" "simulated s k \<le> 92"
    using ok numbers_okD [of s k nm] Some by (simp_all add: selector_ok_def)
  define s0 where "s0 = s\<lparr>loads := filter (\<lambda>(j, nm). j \<noteq> k) (loads s)\<rparr>"
  define s1 where "s1 = (if r = None \<and> mounted s then s0\<lparr>apply_bar := Some \<lparr>bar_model = nm, bar_percent = simulated s k,
    bar_status = ''Load failed. Check the error above.''\<rparr>\<rparr> else s0)"
  have "selector_ok s0" using ok by (auto simp: s0_def selector_ok_def bar_ok_def numbers_ok_def split: option.splits)
  then have "selector_ok s1" using k by (auto simp: s1_def selector_ok_def bar_ok_def numbers_ok_def)
  then have c: "selector_ok (clear_apply_timer s1)"
    using clear_timer_intervals [of s1] by (auto simp: selector_ok_def bar_ok_def numbers_ok_def clear_apply_timer_def split: option.splits)
  then have "selector_ok ((clear_apply_timer s1)\<lparr>is_applying := False\<rparr>)"
    by (rule same_apply_ok) (simp add: same_apply_def)
  moreover have "selector_ok (finish_apply nm (clear_apply_timer s1))"
    using c by (intro finish_apply_ok) (simp add: selector_ok_def)
  moreover have "load_answered k r s =
      (if mounted s \<and> r = Some True then finish_apply nm (clear_apply_timer s1)
       else if mounted s then (clear_apply_timer s1)\<lparr>is_applying := False\<rparr> else clear_apply_timer s1)"
    unfolding load_answered_def Some option.case Let_def s1_def s0_def by simp
  ultimately show ?thesis using c by simp
qed

lemma apply_ok:
  assumes ok: "selector_ok s"
  shows "selector_ok (handleApplySelection s)"
proof -
  have "selector_ok (finish_apply nm (s\<lparr>is_applying := True\<rparr>))" for nm
    using ok by (intro finish_apply_ok) (simp add: selector_ok_def numbers_ok_def)
  moreover have "selector_ok (s\<lparr>is_applying := True,
      apply_bar := Some \<lparr>bar_model = nm, bar_percent = 8, bar_status = ''Starting model load...''\<rparr>,
      simulated := (simulated s)(next_apply s := 8), intervals := intervals s @ [(next_apply s, nm)],
      timer_ref := Some (next_apply s), loads := loads s @ [(next_apply s, nm)], next_apply := Suc (next_apply s)\<rparr>)" for nm
  proof -
    have "k < next_apply s \<and> 8 \<le> simulated s k \<and> simulated s k \<le> 92"
      if "k \<in> fst ` set (intervals s) \<union> fst ` set (loads s)" for k
      using ok that unfolding selector_ok_def numbers_ok_def by blast
    then show ?thesis using ok by (auto simp: selector_ok_def numbers_ok_def bar_ok_def less_SucI)
  qed
  ultimately show ?thesis using ok
    by (simp add: handleApplySelection_def Let_def split: option.split model_tab.split prod.split)
qed

lemma step_ok:
  assumes ok: "selector_ok s"
  shows "selector_ok (selector_step e s)"
proof (cases e)
  case ApplyClicked
  then show ?thesis using ok apply_ok by simp
next
  case (BarTick k)
  then show ?thesis using ok tick_ok by simp
next
  case (LoadAnswered k r)
  then show ?thesis using ok load_answered_ok by simp
next
  case UnmountSelector
  then show ?thesis using ok
    by (auto simp: unmount_selector_def clear_apply_timer_def selector_ok_def numbers_ok_def bar_ok_def split: option.splits)
qed (use ok in \<open>auto intro!: same_apply_ok [OF ok] simp: same_apply_def open_selector_def close_selector_def
    select_model_def toggleExpanded_def\<close>)

lemma run_ok: "selector_ok (run_selector es)"
proof -
  have "selector_ok (fold selector_step es s)" if "selector_ok s" for s
    using that by (induction es arbitrary: s) (simp_all add: step_ok)
  then show ?thesis by (simp add: run_selector_def selector_ok_def bar_ok_def numbers_ok_def initial_selector_def)
qed

subsection \<open>Where a load comes from\<close>

text \<open>The load of number \<open>k\<close> for a model was started by a click on Apply, and has not been answered since.\<close>

definition load_pending :: "selector_event list \<Rightarrow> nat \<Rightarrow> string \<Rightarrow> bool" where
  "load_pending es k nm \<longleftrightarrow>
     (\<exists>es1 es2. es = es1 @ ApplyClicked # es2 \<and> next_apply (run_selector es1) = k \<and>
        pending_selection (run_selector es1) = Some (nm, Installed) \<and> nm \<notin> set (in_vram (run_selector es1)) \<and>
        list_all (\<lambda>e. case e of LoadAnswered j r \<Rightarrow> j \<noteq> k | _ \<Rightarrow> True) es2)"

lemma map_of_without: "map_of (filter (\<lambda>(j, x). j \<noteq> a) xs) k = (if k = a then None else map_of xs k)"
  by (induction xs) auto

lemma load_answered_loads: "loads (load_answered j r s) = filter (\<lambda>(i, nm). i \<noteq> j) (loads s)"
proof (cases "map_of (loads s) j")
  case None
  then have "j \<notin> fst ` set (loads s)" by (simp add: map_of_eq_None_iff)
  then have "filter (\<lambda>(i, nm). i \<noteq> j) (loads s) = loads s" by (force simp: filter_id_conv)
  then show ?thesis by (simp add: load_answered_def None)
qed (simp add: load_answered_def finish_apply_def Let_def)

lemma apply_loads:
  "loads (handleApplySelection s) = loads s \<or>
   (\<exists>nm. loads (handleApplySelection s) = loads s @ [(next_apply s, nm)] \<and> pending_selection s = Some (nm, Installed) \<and>
      nm \<notin> set (in_vram s))"
  by (simp add: handleApplySelection_def finish_apply_def Let_def split: option.split prod.split model_tab.split)

lemma other_loads:
  "e \<noteq> ApplyClicked \<Longrightarrow> \<forall>j r. e \<noteq> LoadAnswered j r \<Longrightarrow> loads (selector_step e s) = loads s"
  by (cases e) (simp_all add: open_selector_def close_selector_def select_model_def toggleExpanded_def bar_tick_def
      unmount_selector_def Let_def split: option.split)

lemma run_snoc: "run_selector (es @ [e]) = selector_step e (run_selector es)"
  by (simp add: run_selector_def)

lemma load_started: "map_of (loads (run_selector es)) k = Some nm \<Longrightarrow> load_pending es k nm"
proof (induction es rule: rev_induct)
  case Nil
  then show ?case by (simp add: run_selector_def initial_selector_def)
next
  case (snoc e es)
  let ?s = "run_selector es"
  note run = run_snoc [of es e]
  have later: "load_pending (es @ [e]) k nm"
    if now: "map_of (loads ?s) k = Some nm" "case e of LoadAnswered j r \<Rightarrow> j \<noteq> k | _ \<Rightarrow> True"
  proof -
    obtain es1 es2 where "es = es1 @ ApplyClicked # es2" "next_apply (run_selector es1) = k"
      "pending_selection (run_selector es1) = Some (nm, Installed)" "nm \<notin> set (in_vram (run_selector es1))"
      "list_all (\<lambda>e. case e of LoadAnswered j r \<Rightarrow> j \<noteq> k | _ \<Rightarrow> True) es2"
      using snoc.IH [OF now(1)] unfolding load_pending_def by blast
    then show ?thesis unfolding load_pending_def using now(2)
      by (intro exI [of _ es1] exI [of _ "es2 @ [e]"]) simp
  qed
  show ?case
  proof (cases e)
    case (LoadAnswered j r)
    then show ?thesis using snoc.prems later unfolding run by (simp add: load_answered_loads map_of_without split: if_splits)
  next
    case ApplyClicked
    show ?thesis
    proof (cases "map_of (loads ?s) k = Some nm")
      case True
      then show ?thesis using later ApplyClicked by simp
    next
      case False
      then have "loads (handleApplySelection ?s) \<noteq> loads ?s" and on: "map_of (loads (handleApplySelection ?s)) k = Some nm"
        using snoc.prems ApplyClicked unfolding run by (auto split: if_splits)
      then obtain nm' where new: "loads (handleApplySelection ?s) = loads ?s @ [(next_apply ?s, nm')]"
        "pending_selection ?s = Some (nm', Installed)" "nm' \<notin> set (in_vram ?s)"
        using apply_loads [of ?s] by blast
      then have "k = next_apply ?s" "nm' = nm" using False on by (auto simp: map_add_def split: option.splits if_splits)
      then show ?thesis unfolding load_pending_def using new ApplyClicked
        by (intro exI [of _ es] exI [of _ "[]"]) simp
    qed
  qed (use snoc.prems later other_loads [of e ?s] in \<open>simp_all add: run_snoc\<close>)
qed

lemma apply_activated:
  "activated (handleApplySelection s) = activated s \<or>
   (\<exists>nm. activated (handleApplySelection s) = activated s @ [nm] \<and> hook_active (handleApplySelection s) = Some nm \<and>
      pending_selection s = Some (nm, Installed) \<and> nm \<in> set (in_vram s))"
  by (simp add: handleApplySelection_def finish_apply_def Let_def split: option.split prod.split model_tab.split)

lemma load_activated:
  "activated (load_answered k r s) = activated s \<or>
   (\<exists>nm. activated (load_answered k r s) = activated s @ [nm] \<and> hook_active (load_answered k r s) = Some nm \<and>
      r = Some True \<and> mounted s \<and> map_of (loads s) k = Some nm)"
  by (simp add: load_answered_def finish_apply_def Let_def split: option.split)

lemma other_activated:
  "e \<noteq> ApplyClicked \<Longrightarrow> \<forall>j r. e \<noteq> LoadAnswered j r \<Longrightarrow> activated (selector_step e s) = activated s"
  by (cases e) (simp_all add: open_selector_def close_selector_def select_model_def toggleExpanded_def bar_tick_def
      unmount_selector_def Let_def split: option.split)

text \<open>C35: Whatever happened before, an event at the selector makes at most one model active, and it does so only in two
  ways.  Either it is a click on Apply, and the model that it makes active is the chosen one and among the models that
  are in memory at that moment; or it is the good answer to a load, and that load was asked for this very model by an
  earlier click on Apply, when it was chosen and not in memory, and had not been answered before.  The bar stays
  between 8 and 92 percent, and shows 100 only for a model that was made active.\<close>

theorem selector_applies_loaded_models:
  "let s = run_selector es; s' = selector_step e s in
    (activated s' = activated s \<or>
     (\<exists>nm. activated s' = activated s @ [nm] \<and> hook_active s' = Some nm \<and>
        (e = ApplyClicked \<and> pending_selection s = Some (nm, Installed) \<and> nm \<in> set (in_vram s) \<or>
         (\<exists>k. e = LoadAnswered k (Some True) \<and> mounted s \<and> load_pending es k nm)))) \<and>
    bar_ok s'"
proof -
  let ?s = "run_selector es"
  have bar: "bar_ok (selector_step e ?s)" using step_ok [OF run_ok] by (simp add: selector_ok_def)
  show ?thesis
  proof (cases e)
    case ApplyClicked
    then show ?thesis using bar apply_activated [of ?s] by (auto simp: Let_def)
  next
    case (LoadAnswered k r)
    then show ?thesis using bar load_activated [of k r ?s] load_started [of es k] by (auto simp: Let_def)
  qed (use bar other_activated [of e ?s] in \<open>simp_all add: Let_def\<close>)
qed

subsection \<open>Where the dialog does what it does not mean to\<close>

text \<open>A load that fails is answered by false, not thrown: the bar goes on claiming that the model is loading.\<close>

lemma failed_load_keeps_bar:
  "let s = run_selector [OpenSelector, ModelClicked ''m'' Installed, ApplyClicked, BarTick 0, LoadAnswered 0 (Some False)]
   in map_option bar_status (apply_bar s) = Some ''Loading model into VRAM...'' \<and> \<not> is_applying s \<and> loads s = []"
  by code_simp

text \<open>Opened again while a model is loading, the dialog lets a second one be applied: the interval of the first is
  never stopped, not even by the unmounting.\<close>

definition reopened_apply :: "selector_event list" where
  "reopened_apply =
     [OpenSelector, ModelClicked ''m'' Installed, ApplyClicked, CloseSelector, OpenSelector, ModelClicked ''n'' Installed,
      ApplyClicked, LoadAnswered 0 (Some True), LoadAnswered 1 (Some True), UnmountSelector]"

lemma reopening_leaks_interval: "map fst (intervals (run_selector reopened_apply)) = [0]"
  by code_simp

text \<open>The first answer stops the bar of the second load and makes the other model active.\<close>

lemma first_answer_stops_second_bar:
  "let s = run_selector (take 8 reopened_apply)
   in map fst (loads s) = [1] \<and> timer_ref s = None \<and> \<not> is_applying s \<and> hook_active s = Some ''m''"
  by code_simp

end
