(* ===== verification/Image_Views.thy ===== *)
theory Image_Views
  imports Technologies
begin

section \<open>The gallery of images and its viewer\<close>

text \<open>
  \<^verbatim>\<open>components/workspace/image-gen/image-gallery.tsx\<close> and \<^verbatim>\<open>image-viewer.tsx\<close>, on the hook of the images, whose
  generations, page and total are parts of the state that the hook sets.  The time of a generation is its
  \<open>created_at\<close> as the browser reads it, 0 without one.
\<close>

subsection \<open>State\<close>

record generation =
  gn_id :: string
  gn_status :: string
  gn_images :: "string list"
  gn_favorite :: bool
  gn_time :: real

datatype zoom_mode = Fit | Full | Double

record viewer =
  view_zoom :: zoom_mode
  image_index :: nat
  pan :: "real \<times> real"
  dragging :: bool
  drag_origin :: "real \<times> real"
  show_metadata :: bool
  upscaling :: bool

definition initial_viewer :: viewer where
  "initial_viewer =
     \<lparr>view_zoom = Fit, image_index = 0, pan = (0, 0), dragging = False, drag_origin = (0, 0), show_metadata = False,
      upscaling = False\<rparr>"

record gallery =
  generations :: "generation list"
  total_count :: nat
  favorites_only :: bool
  newest_first :: bool
  selected_generation :: "generation option"
  viewer_of :: viewer
  gallery_delete :: "generation option"
  bulk_mode :: bool
  selected_ids :: "string list"
  bulk_deleting :: bool
  bulk_downloading :: bool
  starting_comfyui :: bool
  comfyui_message :: "string option"
  comfyui_error :: "string option"
  comfyui_seconds :: nat

definition initial_gallery :: gallery where
  "initial_gallery =
     \<lparr>generations = [], total_count = 0, favorites_only = False, newest_first = True, selected_generation = None,
      viewer_of = initial_viewer, gallery_delete = None, bulk_mode = False, selected_ids = [], bulk_deleting = False,
      bulk_downloading = False, starting_comfyui = False, comfyui_message = None, comfyui_error = None,
      comfyui_seconds = 0\<rparr>"

subsection \<open>What is shown\<close>

definition getFilenameFromUrl :: "string \<Rightarrow> string" where
  "getFilenameFromUrl url =
     (let path = takeWhile (\<lambda>c. c \<noteq> CHR ''?'') url; name = rev (takeWhile (\<lambda>c. c \<noteq> CHR ''/'') (rev path))
      in or_string (Some name) ''image.png'')"

definition sortedGenerations :: "gallery \<Rightarrow> generation list" where
  "sortedGenerations s =
     sort_key (\<lambda>g. if newest_first s then - gn_time g else gn_time g)
       (if favorites_only s then filter gn_favorite (generations s) else generations s)"

definition page_size :: nat where
  "page_size = 20"

definition totalPages :: "gallery \<Rightarrow> nat" where
  "totalPages s = max 1 ((total_count s + page_size - 1) div page_size)"

definition choose_filter :: "gallery \<Rightarrow> gallery" where
  "choose_filter s = s\<lparr>favorites_only := False\<rparr>"

definition toggle_favorites_only :: "gallery \<Rightarrow> gallery" where
  "toggle_favorites_only s = s\<lparr>favorites_only := \<not> favorites_only s\<rparr>"

subsection \<open>Several at once\<close>

definition toggleSelect :: "string \<Rightarrow> gallery \<Rightarrow> gallery" where
  "toggleSelect k s =
     s\<lparr>selected_ids := (if k \<in> set (selected_ids s) then removeAll k (selected_ids s) else selected_ids s @ [k])\<rparr>"

definition selectAll :: "gallery \<Rightarrow> gallery" where
  "selectAll s = s\<lparr>selected_ids := fold set_add (map gn_id (generations s)) []\<rparr>"

definition clearSelection :: "gallery \<Rightarrow> gallery" where
  "clearSelection s = s\<lparr>selected_ids := []\<rparr>"

definition toggle_bulk_mode :: "gallery \<Rightarrow> gallery" where
  "toggle_bulk_mode s = (if bulk_mode s then s\<lparr>bulk_mode := False, selected_ids := []\<rparr> else s\<lparr>bulk_mode := True\<rparr>)"

text \<open>The ids that the hook is asked to delete, and what follows; \<open>False\<close>: it threw.\<close>

definition handleBulkDelete :: "gallery \<Rightarrow> string list \<times> gallery" where
  "handleBulkDelete s = (if selected_ids s = [] then ([], s) else (selected_ids s, s\<lparr>bulk_deleting := True\<rparr>))"

definition bulk_deleted :: "bool \<Rightarrow> gallery \<Rightarrow> gallery" where
  "bulk_deleted ok s =
     (let s1 = (if ok then s\<lparr>selected_ids := []\<rparr> else s) in s1\<lparr>bulk_deleting := False\<rparr>)"

text \<open>The downloads, one after the other: id and file name.\<close>

definition handleBulkDownload :: "gallery \<Rightarrow> (string \<times> string) list" where
  "handleBulkDownload s =
     (if selected_ids s = [] then []
      else map (\<lambda>g. (gn_id g, getFilenameFromUrl (hd (gn_images g))))
        (filter (\<lambda>g. gn_id g \<in> set (selected_ids s) \<and> gn_status g = ''completed'' \<and> gn_images g \<noteq> [] \<and> hd (gn_images g) \<noteq> [])
          (generations s)))"

subsection \<open>Starting the service\<close>

definition startComfyUI :: "gallery \<Rightarrow> bool \<times> gallery" where
  "startComfyUI s =
     (if starting_comfyui s then (False, s)
      else (True, s\<lparr>comfyui_error := None, comfyui_seconds := 0, comfyui_message := Some ''Starting ComfyUI container...'',
              starting_comfyui := True\<rparr>))"

definition comfyui_start_answered :: "string option + string \<Rightarrow> gallery \<Rightarrow> gallery" where
  "comfyui_start_answered r s =
     (case r of
        Inl e \<Rightarrow> s\<lparr>comfyui_error := Some (nullish e ''Failed to start ComfyUI''), starting_comfyui := False\<rparr>
      | Inr m \<Rightarrow> s\<lparr>comfyui_message := Some m\<rparr>)"

text \<open>The effect on the health that the status poll reports, and the interval of two seconds.\<close>

definition comfyui_effect :: "bool \<Rightarrow> string option \<Rightarrow> gallery \<Rightarrow> gallery" where
  "comfyui_effect healthy message s =
     (if \<not> starting_comfyui s then s
      else if healthy
      then s\<lparr>starting_comfyui := False, comfyui_message := Some ''ComfyUI is ready.'', comfyui_error := None\<rparr>
      else if truthy_string message then s\<lparr>comfyui_message := message\<rparr> else s)"

definition comfyui_tick :: "gallery \<Rightarrow> gallery" where
  "comfyui_tick s = (if starting_comfyui s then s\<lparr>comfyui_seconds := comfyui_seconds s + 2\<rparr> else s)"

definition comfyuiStatusMessage :: "string option \<Rightarrow> gallery \<Rightarrow> string option" where
  "comfyuiStatusMessage health s =
     (case comfyui_error s of Some e \<Rightarrow> Some e | None \<Rightarrow>
        (case comfyui_message s of Some m \<Rightarrow> Some m | None \<Rightarrow> health))"

subsection \<open>The viewer\<close>

text \<open>It is mounted with a generation, and reset when another one is shown.\<close>

definition view_generation :: "generation \<Rightarrow> gallery \<Rightarrow> gallery" where
  "view_generation g s =
     (let v = (case selected_generation s of
                 None \<Rightarrow> initial_viewer
               | Some h \<Rightarrow> if gn_id h = gn_id g then viewer_of s
                           else (viewer_of s)\<lparr>view_zoom := Fit, image_index := 0, pan := (0, 0)\<rparr>)
      in s\<lparr>selected_generation := Some g, viewer_of := v\<rparr>)"

definition close_viewer :: "gallery \<Rightarrow> gallery" where
  "close_viewer s = s\<lparr>selected_generation := None\<rparr>"

definition confirm_delete :: "gallery \<Rightarrow> string option" where
  "confirm_delete s = map_option gn_id (gallery_delete s)"

definition delete_confirmed :: "generation \<Rightarrow> gallery \<Rightarrow> gallery" where
  "delete_confirmed g s =
     (let s1 = (case selected_generation s of None \<Rightarrow> s | Some h \<Rightarrow> if gn_id h = gn_id g then close_viewer s else s)
      in s1\<lparr>gallery_delete := None\<rparr>)"

datatype direction = Prev | Next

fun find_index :: "('a \<Rightarrow> bool) \<Rightarrow> 'a list \<Rightarrow> nat option" where
  "find_index p [] = None"
| "find_index p (x # xs) = (if p x then Some 0 else map_option Suc (find_index p xs))"

definition navigateSelected :: "direction \<Rightarrow> gallery \<Rightarrow> gallery" where
  "navigateSelected d s =
     (case selected_generation s of
        None \<Rightarrow> s
      | Some g \<Rightarrow>
          (case find_index (\<lambda>h. gn_id h = gn_id g) (sortedGenerations s) of
             None \<Rightarrow> s
           | Some i \<Rightarrow>
               (case d of
                  Prev \<Rightarrow> if i = 0 then s else view_generation (sortedGenerations s ! (i - 1)) s
                | Next \<Rightarrow> if length (sortedGenerations s) \<le> Suc i then s
                          else view_generation (sortedGenerations s ! Suc i) s)))"

definition set_index :: "nat \<Rightarrow> gallery \<Rightarrow> gallery" where
  "set_index i s = s\<lparr>viewer_of := (viewer_of s)\<lparr>image_index := i\<rparr>\<rparr>"

definition navigateImage :: "direction \<Rightarrow> gallery \<Rightarrow> gallery" where
  "navigateImage d s =
     (case selected_generation s of
        None \<Rightarrow> s
      | Some g \<Rightarrow>
          (let i = image_index (viewer_of s); n = length (gn_images g)
           in if n \<le> 1 then navigateSelected d s
              else (case d of
                      Prev \<Rightarrow> if 0 < i then set_index (i - 1) s else navigateSelected Prev s
                    | Next \<Rightarrow> if i < n - 1 then set_index (Suc i) s else navigateSelected Next s)))"

definition key_pressed :: "string \<Rightarrow> gallery \<Rightarrow> gallery" where
  "key_pressed key s =
     (if key = ''ArrowLeft'' then navigateImage Prev s else if key = ''ArrowRight'' then navigateImage Next s else s)"

definition currentImage :: "gallery \<Rightarrow> string option" where
  "currentImage s =
     (case selected_generation s of
        None \<Rightarrow> None
      | Some g \<Rightarrow> if image_index (viewer_of s) < length (gn_images g) then Some (gn_images g ! image_index (viewer_of s)) else None)"

text \<open>\<open>handleDownload\<close>: what is asked of the client.\<close>

definition handleDownload :: "gallery \<Rightarrow> (string \<times> string) option" where
  "handleDownload s =
     (case (selected_generation s, currentImage s) of
        (Some g, Some u) \<Rightarrow> if u = [] then None else Some (gn_id g, getFilenameFromUrl u)
      | _ \<Rightarrow> None)"

definition set_zoom :: "zoom_mode \<Rightarrow> viewer \<Rightarrow> viewer" where
  "set_zoom z v = (if z = Fit then v\<lparr>view_zoom := Fit, pan := (0, 0)\<rparr> else v\<lparr>view_zoom := z\<rparr>)"

definition view_scale :: "zoom_mode \<Rightarrow> nat" where
  "view_scale z = (case z of Double \<Rightarrow> 2 | _ \<Rightarrow> 1)"

definition handleMouseDown :: "real \<Rightarrow> real \<Rightarrow> viewer \<Rightarrow> viewer" where
  "handleMouseDown x y v =
     (if view_zoom v = Fit then v else v\<lparr>dragging := True, drag_origin := (x - fst (pan v), y - snd (pan v))\<rparr>)"

definition handleMouseMove :: "real \<Rightarrow> real \<Rightarrow> viewer \<Rightarrow> viewer" where
  "handleMouseMove x y v = (if dragging v then v\<lparr>pan := (x - fst (drag_origin v), y - snd (drag_origin v))\<rparr> else v)"

definition handleMouseUp :: "viewer \<Rightarrow> viewer" where
  "handleMouseUp v = v\<lparr>dragging := False\<rparr>"

text \<open>A drag moves the image by what the pointer moved, however it came there.\<close>

lemma drag_moves_by_pointer:
  assumes "view_zoom v \<noteq> Fit"
  shows "pan (fold (\<lambda>(a, b). handleMouseMove a b) (ps @ [(x', y')]) (handleMouseDown x y v)) =
    (fst (pan v) + (x' - x), snd (pan v) + (y' - y))"
proof -
  have "dragging w \<and> drag_origin w = d \<Longrightarrow>
      dragging (fold (\<lambda>(a, b). handleMouseMove a b) ps w) \<and> drag_origin (fold (\<lambda>(a, b). handleMouseMove a b) ps w) = d" for w d
    by (induction ps arbitrary: w) (auto simp: handleMouseMove_def)
  from this [of "handleMouseDown x y v" "(x - fst (pan v), y - snd (pan v))"] assms
  show ?thesis by (simp add: handleMouseDown_def handleMouseMove_def)
qed

subsection \<open>Going through all images\<close>

lemma sorted_shown: "mset (sortedGenerations s) = mset (if favorites_only s then filter gn_favorite (generations s) else generations s)"
  by (simp add: sortedGenerations_def)

lemma find_index_nth:
  "distinct (map f xs) \<Longrightarrow> i < length xs \<Longrightarrow> find_index (\<lambda>h. f h = f (xs ! i)) xs = Some i"
proof (induction xs arbitrary: i)
  case (Cons x xs)
  show ?case
  proof (cases i)
    case (Suc j)
    then have "f (xs ! j) \<in> f ` set xs" using Cons.prems(2) by simp
    then have "f x \<noteq> f (xs ! j)" using Cons.prems(1) by force
    then show ?thesis using Cons Suc by simp
  qed simp
qed simp

text \<open>The frames of a generation: its images, or one empty frame.\<close>

definition frames_of :: "generation \<Rightarrow> (string \<times> string option) list" where
  "frames_of g = map (Pair (gn_id g)) (if gn_images g = [] then [None] else map Some (gn_images g))"

definition all_frames :: "gallery \<Rightarrow> (string \<times> string option) list" where
  "all_frames s = concat (map frames_of (sortedGenerations s))"

definition current_frame :: "gallery \<Rightarrow> (string \<times> string option) option" where
  "current_frame s = map_option (\<lambda>g. (gn_id g, currentImage s)) (selected_generation s)"

text \<open>At image \<open>j\<close> of generation \<open>i\<close>, \<open>todo\<close> being what is shown and what follows.\<close>

definition viewer_at :: "generation list \<Rightarrow> nat \<Rightarrow> (string \<times> string option) list \<Rightarrow> gallery \<Rightarrow> bool" where
  "viewer_at gs i todo s \<longleftrightarrow>
     sortedGenerations s = gs \<and> distinct (map gn_id gs) \<and> i < length gs \<and> selected_generation s = Some (gs ! i) \<and>
     image_index (viewer_of s) < length (frames_of (gs ! i)) \<and>
     todo = drop (image_index (viewer_of s)) (frames_of (gs ! i)) @ concat (map frames_of (drop (Suc i) gs))"

lemma frames_length: "length (frames_of g) = max 1 (length (gn_images g))"
  by (cases "gn_images g") (auto simp: frames_of_def)

lemma viewer_at_frame:
  assumes "viewer_at gs i todo s"
  shows "todo \<noteq> [] \<and> current_frame s = Some (hd todo)"
proof -
  have "frames_of (gs ! i) ! image_index (viewer_of s) = (gn_id (gs ! i), currentImage s)"
    using assms by (auto simp: viewer_at_def frames_of_def currentImage_def)
  then show ?thesis using assms by (auto simp: viewer_at_def current_frame_def hd_append hd_drop_conv_nth)
qed

lemma sorted_kept [simp]:
  "sortedGenerations (view_generation g s) = sortedGenerations s" "sortedGenerations (set_index j s) = sortedGenerations s"
  by (simp_all add: sortedGenerations_def view_generation_def set_index_def Let_def)

lemma viewer_next:
  assumes at: "viewer_at gs i todo s" and more: "tl todo \<noteq> []"
  shows "\<exists>i'. viewer_at gs i' (tl todo) (navigateImage Next s)"
proof -
  let ?j = "image_index (viewer_of s)" and ?g = "gs ! i"
  have s: "sortedGenerations s = gs" "distinct (map gn_id gs)" "i < length gs" "selected_generation s = Some ?g"
      "?j < length (frames_of ?g)" "todo = drop ?j (frames_of ?g) @ concat (map frames_of (drop (Suc i) gs))"
    using at by (auto simp: viewer_at_def)
  have tl: "tl todo = drop (Suc ?j) (frames_of ?g) @ concat (map frames_of (drop (Suc i) gs))"
    using s(5,6) by (simp add: tl_drop drop_Suc)
  show ?thesis
  proof (cases "Suc ?j < length (frames_of ?g)")
    case True
    then have n: "1 < length (gn_images ?g)" "?j < length (gn_images ?g) - 1" by (auto simp: frames_length)
    then have "navigateImage Next s = set_index (Suc ?j) s" by (simp add: navigateImage_def s(4) Let_def)
    then have "viewer_at gs i (tl todo) (navigateImage Next s)"
      using s True tl by (simp add: viewer_at_def) (simp add: set_index_def)
    then show ?thesis by blast
  next
    case False
    then have e: "tl todo = concat (map frames_of (drop (Suc i) gs))" using tl by simp
    then have i: "Suc i < length gs" using more by (metis concat.simps(1) drop_all list.simps(8) not_less)
    have "find_index (\<lambda>h. gn_id h = gn_id ?g) gs = Some i" using find_index_nth [OF s(2,3)] .
    moreover have "\<not> ?j < length (gn_images ?g) - 1" if "1 < length (gn_images ?g)" using False that by (simp add: frames_length)
    ultimately have n: "navigateImage Next s = view_generation (gs ! Suc i) s"
      using i by (auto simp: navigateImage_def navigateSelected_def s(1,4) Let_def)
    have "gn_id (gs ! i) \<noteq> gn_id (gs ! Suc i)"
      using s(2) i nth_eq_iff_index_eq [OF s(2), of i "Suc i"] by simp
    then have "viewer_at gs (Suc i) (tl todo) (view_generation (gs ! Suc i) s)"
      using s i e by (simp add: viewer_at_def Cons_nth_drop_Suc [symmetric])
        (simp add: view_generation_def s(4) frames_length)
    then show ?thesis using n by auto
  qed
qed

lemma viewer_steps:
  "viewer_at gs i todo s \<Longrightarrow> k < length todo \<Longrightarrow> \<exists>i'. viewer_at gs i' (drop k todo) ((navigateImage Next ^^ k) s)"
proof (induction k)
  case (Suc k)
  then obtain i' where at: "viewer_at gs i' (drop k todo) ((navigateImage Next ^^ k) s)" by auto
  have "tl (drop k todo) = drop (Suc k) todo" by (simp add: drop_Suc tl_drop)
  moreover have "drop (Suc k) todo \<noteq> []" using Suc.prems(2) by simp
  ultimately show ?case using viewer_next [OF at] by simp
qed auto

lemma sorted_distinct: "distinct (map gn_id (generations s)) \<Longrightarrow> distinct (map gn_id (sortedGenerations s))"
proof -
  assume d: "distinct (map gn_id (generations s))"
  let ?shown = "if favorites_only s then filter gn_favorite (generations s) else generations s"
  have "distinct (map gn_id ?shown)" using d by (simp add: distinct_map_filter)
  moreover have "mset (map gn_id (sortedGenerations s)) = mset (map gn_id ?shown)"
    by (simp only: mset_map sorted_shown)
  ultimately show ?thesis using mset_eq_imp_distinct_iff by blast
qed

text \<open>C34: Opened at the first generation of the gallery, the viewer comes through every image: after \<open>k\<close> steps
  forward it shows the \<open>k\<close>-th of all images, in the order in which the gallery is sorted; a generation without
  images is one empty frame.\<close>

theorem next_visits_every_image:
  assumes "sortedGenerations s = g # gs" and "distinct (map gn_id (generations s))" and "selected_generation s = None"
    and "k < length (all_frames s)"
  shows "current_frame ((navigateImage Next ^^ k) (view_generation g s)) = Some (all_frames s ! k)"
proof -
  have "distinct (map gn_id (g # gs))" using sorted_distinct [OF assms(2)] assms(1) by simp
  then have "viewer_at (g # gs) 0 (all_frames s) (view_generation g s)"
    using assms(1,3) by (simp add: viewer_at_def all_frames_def)
      (simp add: view_generation_def initial_viewer_def frames_length)
  then obtain i where "viewer_at (g # gs) i (drop k (all_frames s)) ((navigateImage Next ^^ k) (view_generation g s))"
    using viewer_steps assms(4) by blast
  then show ?thesis using viewer_at_frame assms(4) by (auto simp: hd_drop_conv_nth)
qed

definition sample_generations :: "generation list" where
  "sample_generations =
     [\<lparr>gn_id = ''a'', gn_status = ''completed'', gn_images = [''/x/a1.png'', ''/x/a2.png?s=1''], gn_favorite = False, gn_time = 1\<rparr>,
      \<lparr>gn_id = ''b'', gn_status = ''completed'', gn_images = [''/x/b1.png''], gn_favorite = True, gn_time = 2\<rparr>]"

definition sample_gallery :: gallery where
  "sample_gallery = initial_gallery\<lparr>generations := sample_generations, total_count := 2\<rparr>"

lemma sample_sorted: "sortedGenerations sample_gallery = rev sample_generations"
  by (simp add: sortedGenerations_def sample_gallery_def initial_gallery_def sample_generations_def)

lemma sample_frames:
  "all_frames sample_gallery = [(''b'', Some ''/x/b1.png''), (''a'', Some ''/x/a1.png''), (''a'', Some ''/x/a2.png?s=1'')]"
  unfolding all_frames_def sample_sorted by (simp add: sample_generations_def frames_of_def)

lemma next_visits_every_image_witness:
  "current_frame ((navigateImage Next ^^ 2) (view_generation (last sample_generations) sample_gallery)) =
     Some (''a'', Some ''/x/a2.png?s=1'')"
proof -
  have "sortedGenerations sample_gallery = last sample_generations # [hd sample_generations]"
    unfolding sample_sorted by (simp add: sample_generations_def)
  moreover have "distinct (map gn_id (generations sample_gallery))" "selected_generation sample_gallery = None"
    by (simp_all add: sample_gallery_def sample_generations_def initial_gallery_def)
  moreover have "2 < length (all_frames sample_gallery)" by (simp add: sample_frames)
  ultimately show ?thesis using next_visits_every_image [of sample_gallery] by (simp add: sample_frames)
qed

text \<open>A deletion that is confirmed closes the viewer on it.\<close>

lemma deleted_not_viewed:
  "selected_generation (delete_confirmed g s) = Some h \<Longrightarrow> gn_id h \<noteq> gn_id g"
  by (auto simp: delete_confirmed_def close_viewer_def Let_def split: option.splits if_splits)

lemma bulk_download_names:
  "(k, f) \<in> set (handleBulkDownload s) \<Longrightarrow> k \<in> set (selected_ids s) \<and> k \<in> gn_id ` set (generations s)"
  by (auto simp: handleBulkDownload_def split: if_splits)

subsection \<open>Where the gallery does what it does not mean to\<close>

text \<open>Going back does not undo going forward: the generation before is entered at its first image.\<close>

lemma back_skips_images:
  "let s = view_generation (hd sample_generations) (sample_gallery\<lparr>newest_first := False\<rparr>);
       s2 = navigateImage Next (navigateImage Next s)
   in map_option fst (current_frame s2) = Some ''b'' \<and>
      current_frame (navigateImage Prev s2) = Some (''a'', Some ''/x/a1.png'')"
proof -
  have "sortedGenerations (sample_gallery\<lparr>newest_first := False\<rparr>) = sample_generations"
    by (simp add: sortedGenerations_def sample_gallery_def initial_gallery_def sample_generations_def)
  then show ?thesis
    by (simp add: sample_generations_def navigateImage_def navigateSelected_def current_frame_def currentImage_def Let_def
        numeral_2_eq_2 view_generation_def set_index_def initial_viewer_def sample_gallery_def initial_gallery_def
        sortedGenerations_def)
qed

text \<open>The selection outlives a change of the page: what is deleted is not on the screen.\<close>

lemma bulk_delete_of_hidden:
  "let s = (toggleSelect ''a'' (toggle_bulk_mode sample_gallery))\<lparr>generations := tl sample_generations\<rparr>
   in fst (handleBulkDelete s) = [''a''] \<and> ''a'' \<notin> gn_id ` set (generations s)"
  by (simp add: toggleSelect_def toggle_bulk_mode_def handleBulkDelete_def sample_gallery_def initial_gallery_def
      sample_generations_def)

text \<open>The viewer holds the generation as it was when it was opened.\<close>

lemma viewer_holds_old_state:
  "let s = view_generation (hd sample_generations) sample_gallery;
       s' = s\<lparr>generations := map (\<lambda>g. g\<lparr>gn_favorite := True\<rparr>) (generations s)\<rparr>
   in map_option gn_favorite (selected_generation s') = Some False"
  by (simp add: view_generation_def sample_generations_def)

end
