(* ===== verification/Help_Topics.thy ===== *)
theory Help_Topics
  imports Resources Page_Texts Page_State
begin

section \<open>The administration of the help topics\<close>

text \<open>
  \<^verbatim>\<open>components/admin/help-topic-management.tsx\<close>: the list with its search and its groups, the form that creates and
  edits a topic, and its deletion.  A call of the hook is a value, in flight until it is answered.  Strings are
  ASCII; \<open>localeCompare\<close> is a parameter.
\<close>

subsection \<open>The form\<close>

record help_topic =
  topic_id :: string
  topic_slug :: string
  topic_section :: string
  topic_title :: string
  topic_body :: string
  topic_tags :: "string list"

record topic_form =
  tf_slug :: string
  tf_section :: string
  tf_title :: string
  tf_body :: string
  tf_tags :: string

definition emptyForm :: topic_form where
  "emptyForm = \<lparr>tf_slug = [], tf_section = [], tf_title = [], tf_body = [], tf_tags = []\<rparr>"

definition topicToForm :: "help_topic \<Rightarrow> topic_form" where
  "topicToForm t =
     \<lparr>tf_slug = topic_slug t, tf_section = topic_section t, tf_title = topic_title t, tf_body = topic_body t,
      tf_tags = join '', '' (topic_tags t)\<rparr>"

definition form_tags :: "string \<Rightarrow> string list" where
  "form_tags v = filter (\<lambda>t. t \<noteq> []) (map trim (split_on CHR '','' v))"

text \<open>\<^verbatim>\<open>^[a-z0-9]+(?:-[a-z0-9]+)*$\<close>: parts of letters and digits, none empty, between single hyphens.\<close>

definition slug_ok :: "string \<Rightarrow> bool" where
  "slug_ok s \<longleftrightarrow> list_all (\<lambda>p. p \<noteq> [] \<and> list_all lower_or_digit p) (split_on CHR ''-'' s)"

datatype form_field = F_Slug | F_Section | F_Title | F_Body

definition validate :: "topic_form \<Rightarrow> (form_field \<times> string) list" where
  "validate f =
     (if trim (tf_slug f) = [] then [(F_Slug, ''Slug is required'')]
      else if \<not> slug_ok (trim (tf_slug f))
      then [(F_Slug, ''Slug must be lowercase with hyphens (e.g. getting-started)'')] else []) @
     (if trim (tf_section f) = [] then [(F_Section, ''Section is required'')] else []) @
     (if trim (tf_title f) = [] then [(F_Title, ''Title is required'')] else []) @
     (if trim (tf_body f) = [] then [(F_Body, ''Body is required'')] else [])"

definition lookup_error :: "form_field \<Rightarrow> (form_field \<times> string) list \<Rightarrow> string option" where
  "lookup_error k errs = map_of errs k"

text \<open>\<open>.replace(/^-|-$/g, "")\<close>: one hyphen at each end.\<close>

definition drop_one_hyphen :: "string \<Rightarrow> string" where
  "drop_one_hyphen s = (case s of c # r \<Rightarrow> if c = CHR ''-'' then r else s | [] \<Rightarrow> [])"

definition slug_of_title :: "string \<Rightarrow> string" where
  "slug_of_title title =
     rev (drop_one_hyphen (rev (drop_one_hyphen (replace_runs lower_or_digit CHR ''-'' False (to_lower title)))))"

definition autoSlug :: "bool \<Rightarrow> topic_form \<Rightarrow> topic_form" where
  "autoSlug creating f =
     (if creating \<and> tf_slug f = [] \<and> tf_title f \<noteq> [] then f\<lparr>tf_slug := slug_of_title (tf_title f)\<rparr> else f)"

text \<open>What is typed as a slug or a section.\<close>

definition typed_slug :: "string \<Rightarrow> string" where
  "typed_slug v = filter role_char (to_lower v)"

subsection \<open>The page\<close>

datatype topic_call =
  CreateTopic topic_form "string list"
| UpdateTopic string topic_form "string list"
| DeleteTopic string

record topics_page =
  topics :: "help_topic list"
  search_query :: string
  section_filter :: "string option"
  collapsed_sections :: "string list"
  form_open :: bool
  form_creates :: bool
  form_initial :: topic_form
  shown_form :: topic_form
  form_errors :: "(form_field \<times> string) list"
  editing_topic :: "string option"
  topic_delete_open :: bool
  topic_delete_target :: "help_topic option"
  action_error :: "string option"

definition initial_topics_page :: topics_page where
  "initial_topics_page =
     \<lparr>topics = [], search_query = [], section_filter = None, collapsed_sections = [], form_open = False,
      form_creates = True, form_initial = emptyForm, shown_form = emptyForm, form_errors = [], editing_topic = None,
      topic_delete_open = False, topic_delete_target = None, action_error = None\<rparr>"

text \<open>The comparison of \<open>sort()\<close> without an argument, by code units.\<close>

fun code_compare :: "string \<Rightarrow> string \<Rightarrow> real" where
  "code_compare [] [] = 0"
| "code_compare [] (d # t) = -1"
| "code_compare (c # s) [] = 1"
| "code_compare (c # s) (d # t) =
     (if c = d then code_compare s t else if (of_char c :: nat) < of_char d then -1 else 1)"

definition sections :: "topics_page \<Rightarrow> string list" where
  "sections s = js_sort code_compare (remdups (map topic_section (topics s)))"

definition filtered :: "topics_page \<Rightarrow> help_topic list" where
  "filtered s =
     (let q = to_lower (search_query s);
          found = (if truthy_string (section_filter s)
                   then filter (\<lambda>t. Some (topic_section t) = section_filter s) (topics s) else topics s)
      in if trim (search_query s) \<noteq> []
         then filter (\<lambda>t. occurs q (to_lower (topic_title t)) \<or> occurs q (to_lower (topic_body t)) \<or>
                occurs q (to_lower (topic_slug t)) \<or> (\<exists>tag \<in> set (topic_tags t). occurs q (to_lower tag))) found
         else found)"

text \<open>\<open>map[t.section_id].push(t)\<close> on an object, whose entries are in the order of their first topic.\<close>

definition push_topic :: "help_topic \<Rightarrow> (string \<times> help_topic list) list \<Rightarrow> (string \<times> help_topic list) list" where
  "push_topic t groups = AList.update (topic_section t) (nullish (map_of groups (topic_section t)) [] @ [t]) groups"

definition grouped :: "(string \<Rightarrow> string \<Rightarrow> real) \<Rightarrow> topics_page \<Rightarrow> (string \<times> help_topic list) list" where
  "grouped localeCompare s = js_sort (\<lambda>a b. localeCompare (fst a) (fst b)) (fold push_topic (filtered s) [])"

definition toggleSection :: "string \<Rightarrow> topics_page \<Rightarrow> topics_page" where
  "toggleSection k s =
     s\<lparr>collapsed_sections := (if k \<in> set (collapsed_sections s) then removeAll k (collapsed_sections s)
        else collapsed_sections s @ [k])\<rparr>"

definition select_section :: "string option \<Rightarrow> topics_page \<Rightarrow> topics_page" where
  "select_section k s = s\<lparr>section_filter := (if k = section_filter s then None else k)\<rparr>"

text \<open>When the dialog opens it takes the initial values.\<close>

definition open_form :: "topics_page \<Rightarrow> topics_page" where
  "open_form s = (if form_open s then s else s\<lparr>form_open := True, shown_form := form_initial s, form_errors := []\<rparr>)"

definition handleCreate :: "topics_page \<Rightarrow> topics_page" where
  "handleCreate s = open_form (s\<lparr>form_creates := True, form_initial := emptyForm, editing_topic := None\<rparr>)"

definition handleEdit :: "help_topic \<Rightarrow> topics_page \<Rightarrow> topics_page" where
  "handleEdit t s = open_form (s\<lparr>form_creates := False, form_initial := topicToForm t, editing_topic := Some (topic_id t)\<rparr>)"

definition close_form :: "topics_page \<Rightarrow> topics_page" where
  "close_form s = s\<lparr>form_open := False\<rparr>"

definition handleDelete :: "help_topic \<Rightarrow> topics_page \<Rightarrow> topics_page" where
  "handleDelete t s = s\<lparr>topic_delete_target := Some t, topic_delete_open := True\<rparr>"

text \<open>\<open>handleSubmit\<close> with \<open>handleSave\<close> up to its request; one that makes none closes the form.\<close>

definition handleSave :: "topics_page \<Rightarrow> topics_page \<times> topic_call option" where
  "handleSave s =
     (let f = shown_form s; tags = form_tags (tf_tags f)
      in if form_creates s then (s\<lparr>action_error := None\<rparr>, Some (CreateTopic f tags))
         else (case editing_topic s of
                 Some k \<Rightarrow>
                   if k = [] then (s\<lparr>action_error := None, form_open := False\<rparr>, None)
                   else (s\<lparr>action_error := None\<rparr>, Some (UpdateTopic k f tags))
               | None \<Rightarrow> (s\<lparr>action_error := None, form_open := False\<rparr>, None)))"

definition handleSubmit :: "topics_page \<Rightarrow> topics_page \<times> topic_call option" where
  "handleSubmit s =
     (let errs = validate (shown_form s); s1 = s\<lparr>form_errors := errs\<rparr>
      in if errs = [] then handleSave s1 else (s1, None))"

definition save_answered :: "(string option + unit) \<Rightarrow> topics_page \<Rightarrow> topics_page" where
  "save_answered r s =
     (case r of Inl e \<Rightarrow> s\<lparr>action_error := Some (nullish e ''Save failed'')\<rparr> | Inr _ \<Rightarrow> s\<lparr>form_open := False\<rparr>)"

definition handleDeleteConfirm :: "topics_page \<Rightarrow> topics_page \<times> topic_call option" where
  "handleDeleteConfirm s =
     (case topic_delete_target s of
        None \<Rightarrow> (s, None) | Some t \<Rightarrow> (s\<lparr>action_error := None\<rparr>, Some (DeleteTopic (topic_id t))))"

definition topic_deleted :: "(string option + unit) \<Rightarrow> topics_page \<Rightarrow> topics_page" where
  "topic_deleted r s =
     (case r of Inl e \<Rightarrow> s\<lparr>action_error := Some (nullish e ''Delete failed'')\<rparr>
      | Inr _ \<Rightarrow> s\<lparr>topic_delete_open := False, topic_delete_target := None\<rparr>)"

subsection \<open>Slugs\<close>

text \<open>A slug, read from left to right; \<open>b\<close>: the character before is of a word.\<close>

fun scan_slug :: "bool \<Rightarrow> string \<Rightarrow> bool" where
  "scan_slug b [] \<longleftrightarrow> b"
| "scan_slug b (c # s) \<longleftrightarrow> (if lower_or_digit c then scan_slug True s else c = CHR ''-'' \<and> b \<and> scan_slug False s)"

lemma hyphen_no_word [simp]: "\<not> lower_or_digit CHR ''-''"
  by (simp add: lower_or_digit_def)

lemma scan_slug_parts:
  "scan_slug b s \<longleftrightarrow>
     (b \<or> hd (split_on CHR ''-'' s) \<noteq> []) \<and> list_all lower_or_digit (hd (split_on CHR ''-'' s)) \<and>
     list_all (\<lambda>p. p \<noteq> [] \<and> list_all lower_or_digit p) (tl (split_on CHR ''-'' s))"
proof (induction s arbitrary: b)
  case (Cons c s)
  obtain p ps where ps: "split_on CHR ''-'' s = p # ps" by (cases "split_on CHR ''-'' s") simp_all
  then show ?case using Cons [of True] Cons [of False] by auto
qed simp

lemma slug_ok_scan: "slug_ok s \<longleftrightarrow> scan_slug False s"
proof -
  obtain p ps where "split_on CHR ''-'' s = p # ps" by (cases "split_on CHR ''-'' s") simp_all
  then show ?thesis by (simp add: slug_ok_def scan_slug_parts)
qed

definition drop_last_hyphen :: "string \<Rightarrow> string" where
  "drop_last_hyphen s = rev (drop_one_hyphen (rev s))"

lemma drop_last_hyphen_simps:
  "drop_last_hyphen [] = []" "drop_last_hyphen [c] = (if c = CHR ''-'' then [] else [c])"
  "r \<noteq> [] \<Longrightarrow> drop_last_hyphen (c # r) = c # drop_last_hyphen r"
proof -
  show "drop_last_hyphen (c # r) = c # drop_last_hyphen r" if r: "r \<noteq> []"
  proof (cases "rev r")
    case Nil
    then show ?thesis using r by simp
  next
    case (Cons x y)
    then show ?thesis by (simp add: drop_last_hyphen_def drop_one_hyphen_def)
  qed
qed (simp_all add: drop_last_hyphen_def drop_one_hyphen_def)

lemma drop_last_word: "c \<noteq> CHR ''-'' \<Longrightarrow> drop_last_hyphen (c # r) = c # drop_last_hyphen r"
  by (cases "r = []") (simp_all add: drop_last_hyphen_simps)

lemma replaced_scan:
  "(inside \<longrightarrow> replace_runs lower_or_digit CHR ''-'' inside s = [] \<or>
      scan_slug False (drop_last_hyphen (replace_runs lower_or_digit CHR ''-'' inside s))) \<and>
   (\<not> inside \<longrightarrow> scan_slug True (drop_last_hyphen (replace_runs lower_or_digit CHR ''-'' inside s)))"
proof (induction s arbitrary: inside)
  case (Cons c s)
  show ?case
  proof (cases "lower_or_digit c")
    case True
    then have "c \<noteq> CHR ''-''" by auto
    then show ?thesis using True Cons [of False] by (simp add: drop_last_word)
  next
    case False
    then show ?thesis using Cons [of True]
      by (cases "replace_runs lower_or_digit CHR ''-'' True s = []") (auto simp: drop_last_hyphen_simps)
  qed
qed (simp add: drop_last_hyphen_simps)

lemma replaced_keeps_words: "c \<in> set s \<Longrightarrow> lower_or_digit c \<Longrightarrow> c \<in> set (replace_runs lower_or_digit r inside s)"
  by (induction s arbitrary: inside) auto

lemma drop_one_keeps: "c \<in> set s \<Longrightarrow> c \<noteq> CHR ''-'' \<Longrightarrow> c \<in> set (drop_one_hyphen s)"
  by (cases s) (simp_all add: drop_one_hyphen_def, metis)

lemma slug_of_title_ok:
  assumes "slug_of_title title \<noteq> []"
  shows "slug_ok (slug_of_title title)"
proof -
  have def': "slug_of_title title = drop_last_hyphen (drop_one_hyphen (replace_runs lower_or_digit CHR ''-'' False (to_lower title)))"
    by (simp add: slug_of_title_def drop_last_hyphen_def)
  show ?thesis
  proof (cases "to_lower title")
    case Nil
    then show ?thesis using assms by (simp add: def' drop_one_hyphen_def drop_last_hyphen_simps)
  next
    case (Cons c s)
    show ?thesis
    proof (cases "lower_or_digit c")
      case True
      then have "c \<noteq> CHR ''-''" by auto
      then have "slug_of_title title = c # drop_last_hyphen (replace_runs lower_or_digit CHR ''-'' False s)"
        using True Cons by (simp add: def' drop_one_hyphen_def drop_last_word)
      then show ?thesis using True replaced_scan [of False s] by (simp add: slug_ok_scan)
    next
      case False
      then have "slug_of_title title = drop_last_hyphen (replace_runs lower_or_digit CHR ''-'' True s)"
        using Cons by (simp add: def' drop_one_hyphen_def)
      then show ?thesis using assms replaced_scan [of True s] by (auto simp: slug_ok_scan drop_last_hyphen_simps)
    qed
  qed
qed

lemma slug_of_title_empty: "slug_of_title title = [] \<longleftrightarrow> (\<forall>c \<in> set (to_lower title). \<not> lower_or_digit c)"
proof
  assume e: "slug_of_title title = []"
  show "\<forall>c \<in> set (to_lower title). \<not> lower_or_digit c"
  proof (rule ccontr)
    assume "\<not> ?thesis"
    then obtain c where c: "c \<in> set (to_lower title)" "lower_or_digit c" by blast
    then have "c \<noteq> CHR ''-''" by auto
    then have "c \<in> set (slug_of_title title)"
      using c replaced_keeps_words drop_one_keeps unfolding slug_of_title_def by simp
    then show False using e by simp
  qed
next
  assume none: "\<forall>c \<in> set (to_lower title). \<not> lower_or_digit c"
  have "(\<forall>c \<in> set s. \<not> lower_or_digit c) \<Longrightarrow>
      replace_runs lower_or_digit CHR ''-'' inside s = (if inside \<or> s = [] then [] else ''-'')" for inside s
    by (induction s arbitrary: inside) auto
  from this [OF none, of False] show "slug_of_title title = []"
    by (simp add: slug_of_title_def drop_one_hyphen_def)
qed

text \<open>The slug that the form makes from a title is one that the form accepts, whenever the title has a letter
  or a digit at all; otherwise it is empty, and the form asks for one.\<close>

theorem auto_slug_accepted:
  "if \<exists>c \<in> set (to_lower title). lower_or_digit c then slug_ok (slug_of_title title)
   else slug_of_title title = [] \<and> lookup_error F_Slug (validate (f\<lparr>tf_slug := slug_of_title title\<rparr>)) = Some ''Slug is required''"
proof -
  have "lookup_error F_Slug (validate (f\<lparr>tf_slug := []\<rparr>)) = Some ''Slug is required''"
    by (simp add: validate_def lookup_error_def trim_def trim_end_by_def)
  then show ?thesis using slug_of_title_ok [of title] slug_of_title_empty [of title] by metis
qed

subsection \<open>Tags and groups\<close>

text \<open>C37: A topic that is opened in the form and saved unchanged is sent as it was, with the tags in the same order,
  as long as they are trimmed, not empty and without commas, as the form itself makes them.\<close>

theorem edited_topic_round_trip:
  assumes "\<forall>t \<in> set (topic_tags x). trim t = t \<and> t \<noteq> [] \<and> CHR '','' \<notin> set t"
    and "validate (topicToForm x) = []" and "topic_id x \<noteq> []" and "\<not> form_open s"
  shows "snd (handleSubmit (handleEdit x s)) =
    Some (UpdateTopic (topic_id x) (topicToForm x) (topic_tags x))"
proof -
  have "form_tags (join '', '' (topic_tags x)) = topic_tags x"
    unfolding form_tags_def using assms(1) by (rule tags_of_joined)
  then show ?thesis using assms
    by (simp add: handleEdit_def open_form_def handleSubmit_def handleSave_def Let_def topicToForm_def)
qed

definition sample_topic :: help_topic where
  "sample_topic =
     \<lparr>topic_id = ''1'', topic_slug = ''the-terminal'', topic_section = ''tools'', topic_title = ''The terminal'',
      topic_body = ''Type.'', topic_tags = [''shell'', ''basic use'']\<rparr>"

lemma edited_topic_round_trip_witness:
  "snd (handleSubmit (handleEdit sample_topic initial_topics_page)) =
     Some (UpdateTopic ''1'' (topicToForm sample_topic) [''shell'', ''basic use''])"
proof -
  have "\<forall>t \<in> set (topic_tags sample_topic). trim t = t \<and> t \<noteq> [] \<and> CHR '','' \<notin> set t"
    "validate (topicToForm sample_topic) = []" "topic_id sample_topic \<noteq> []" "\<not> form_open initial_topics_page"
    by code_simp+
  from edited_topic_round_trip [OF this] show ?thesis by (simp add: sample_topic_def)
qed

text \<open>Every topic that is listed is in the group of its section, and the groups hold nothing else.\<close>

definition groups_ok :: "help_topic list \<Rightarrow> (string \<times> help_topic list) list \<Rightarrow> bool" where
  "groups_ok ts groups \<longleftrightarrow>
     distinct (map fst groups) \<and> (\<forall>k. nullish (map_of groups k) [] = filter (\<lambda>t. topic_section t = k) ts)"

lemma push_topic_ok: "groups_ok ts groups \<Longrightarrow> groups_ok (ts @ [t]) (push_topic t groups)"
  by (auto simp: groups_ok_def push_topic_def distinct_update update_conv nullish_def)

lemma grouped_ok: "groups_ok (filtered s) (grouped lc s)"
proof -
  have "groups_ok (us @ ts) (fold push_topic ts groups)" if "groups_ok us groups" for us ts groups
    using that by (induction ts arbitrary: us groups) (simp, metis append.assoc append_Cons append_Nil fold_simps(2) push_topic_ok)
  from this [of "[]" "[]" "filtered s"] have g: "groups_ok (filtered s) (fold push_topic (filtered s) [])"
    by (simp add: groups_ok_def nullish_def)
  let ?g = "fold push_topic (filtered s) []"
  have m: "mset (grouped lc s) = mset ?g" by (simp add: grouped_def mset_js_sort)
  then have "mset (map fst (grouped lc s)) = mset (map fst ?g)" by (simp only: mset_map)
  then have d: "distinct (map fst (grouped lc s))" using g mset_eq_imp_distinct_iff by (metis groups_ok_def)
  have "map_of (grouped lc s) = map_of ?g"
    using d g m by (metis groups_ok_def map_of_eqI map_of_inject_set mset_eq_setD)
  then show ?thesis using d g by (simp add: groups_ok_def)
qed

subsection \<open>Where the page does what it does not mean to\<close>

text \<open>The answer to a save that was cancelled closes the form that is open meanwhile.\<close>

lemma late_save_closes_other_form:
  "form_open (handleCreate (close_form s)) \<and> \<not> form_open (save_answered (Inr ()) (handleCreate (close_form s)))"
  by (simp add: handleCreate_def open_form_def close_form_def save_answered_def)

text \<open>What was checked trimmed is sent untrimmed.\<close>

lemma title_sent_untrimmed:
  "let s = initial_topics_page\<lparr>shown_form := \<lparr>tf_slug = ''a'', tf_section = ''b'', tf_title = '' c '', tf_body = ''d'', tf_tags = []\<rparr>\<rparr>
   in map_option (\<lambda>c. case c of CreateTopic f ts \<Rightarrow> tf_title f | _ \<Rightarrow> []) (snd (handleSubmit s)) = Some '' c ''"
  by code_simp

end
