(* ===== verification/Context_Page.thy ===== *)
theory Context_Page
  imports Page_State Filenames
begin

section \<open>The editor of a chat's context\<close>

text \<open>
  \<^verbatim>\<open>components/context/context-editor.tsx\<close>: the layers of the context, of which the instructions and the summaries
  of compactions can be edited, saving, snippets, and compacting.  The layers come from the hook; a request is a value
  in flight.  After every event the effect that copies the selected layer into the editor runs, when the context or the
  selection changed; contexts are compared by reference, which is a version here.  The texts of numbers are the
  browser's.
\<close>

subsection \<open>State\<close>

record layer =
  ly_name :: string
  ly_content :: string
  ly_tokens :: nat

record compaction =
  cp_id :: string
  cp_summary :: string
  cp_status :: string

datatype layer_choice = Combined | Layer nat

datatype editor_call =
  SaveInstructions string
| SaveCompaction string string
| SaveNothing
| TriggerCompaction
| CreateSnippet string string

record context_page =
  layers :: "layer list option"
  context_version :: nat
  compactions :: "compaction list"
  editor_tab :: string
  selected_layer_index :: layer_choice
  edit_content :: string
  editing_compaction :: "string option"
  snippet_open :: bool
  snippet_name :: string
  snippet_selection :: string
  snippet_saving :: bool
  snippet_error :: "string option"
  snippet_refresh :: nat
  toasts :: "(bool \<times> string) list"
  refetch_timer :: "nat option"
  next_timer :: nat
  fetches :: nat
  pending_calls :: "editor_call list"
  synced_for :: "(nat \<times> layer_choice) option"

definition initial_context_page :: context_page where
  "initial_context_page =
     \<lparr>layers = None, context_version = 0, compactions = [], editor_tab = ''overview'', selected_layer_index = Layer 0,
      edit_content = [], editing_compaction = None, snippet_open = False, snippet_name = [], snippet_selection = [],
      snippet_saving = False, snippet_error = None, snippet_refresh = 0, toasts = [], refetch_timer = None,
      next_timer = 0, fetches = 1, pending_calls = [], synced_for = None\<rparr>"

definition compaction_layer :: "layer \<Rightarrow> bool" where
  "compaction_layer l \<longleftrightarrow> starts_with (ly_name l) ''compaction_summary''"

definition selectedLayer :: "context_page \<Rightarrow> layer option" where
  "selectedLayer s =
     (case selected_layer_index s of
        Combined \<Rightarrow> None
      | Layer i \<Rightarrow> (case layers s of None \<Rightarrow> None | Some ls \<Rightarrow> if i < length ls then Some (ls ! i) else None))"

definition isEditable :: "context_page \<Rightarrow> bool" where
  "isEditable s \<longleftrightarrow>
     (case selectedLayer s of None \<Rightarrow> False | Some l \<Rightarrow> ly_name l = ''chat_instructions'' \<or> compaction_layer l)"

subsection \<open>The effect\<close>

definition layer_heading :: "(nat \<Rightarrow> string) \<Rightarrow> layer \<Rightarrow> string" where
  "layer_heading number l =
     ''--- '' @ get_layer_label (ly_name l) @ '' ('' @ number (ly_tokens l) @ '' tokens) ---'' @ [newline] @ ly_content l"

definition combined_view :: "(nat \<Rightarrow> string) \<Rightarrow> layer list \<Rightarrow> string" where
  "combined_view number ls = join [newline, newline] (map (layer_heading number) ls)"

definition sync_editor :: "(nat \<Rightarrow> string) \<Rightarrow> context_page \<Rightarrow> context_page" where
  "sync_editor number s =
     (if synced_for s = Some (context_version s, selected_layer_index s) then s
      else (let s1 = s\<lparr>synced_for := Some (context_version s, selected_layer_index s)\<rparr>
            in case layers s of
                 None \<Rightarrow> s1
               | Some ls \<Rightarrow>
                   (case selected_layer_index s of
                      Combined \<Rightarrow> s1\<lparr>edit_content := combined_view number ls\<rparr>
                    | Layer i \<Rightarrow> if i < length ls then s1\<lparr>edit_content := ly_content (ls ! i)\<rparr> else s1)))"

subsection \<open>Choosing a layer\<close>

definition choose_layer :: "layer_choice \<Rightarrow> context_page \<Rightarrow> context_page" where
  "choose_layer c s =
     (case c of
        Combined \<Rightarrow> s\<lparr>selected_layer_index := Combined, editing_compaction := None\<rparr>
      | Layer i \<Rightarrow>
          (let s1 = s\<lparr>selected_layer_index := Layer i\<rparr>
           in case selectedLayer s1 of
                None \<Rightarrow> s1\<lparr>editing_compaction := None\<rparr>
              | Some l \<Rightarrow>
                  if compaction_layer l
                  then s1\<lparr>editing_compaction := map_option cp_id (find (\<lambda>c. cp_summary c = ly_content l) (compactions s))\<rparr>
                  else s1\<lparr>editing_compaction := None\<rparr>))"

fun find_layer :: "(layer \<Rightarrow> bool) \<Rightarrow> layer list \<Rightarrow> nat option" where
  "find_layer p [] = None"
| "find_layer p (l # ls) = (if p l then Some 0 else map_option Suc (find_layer p ls))"

definition openCompactionInEditor :: "compaction \<Rightarrow> context_page \<Rightarrow> context_page" where
  "openCompactionInEditor c s =
     (case layers s of
        None \<Rightarrow> s
      | Some ls \<Rightarrow>
          (case find_layer (\<lambda>l. compaction_layer l \<and> ly_content l = cp_summary c) ls of
             None \<Rightarrow> s
           | Some i \<Rightarrow> s\<lparr>selected_layer_index := Layer i, edit_content := cp_summary c,
               editing_compaction := Some (cp_id c), editor_tab := ''editor''\<rparr>))"

subsection \<open>Saving\<close>

text \<open>The request of \<open>handleSave\<close>; with neither of the two kinds of layer, or no compaction, there is none.\<close>

definition handleSave :: "context_page \<Rightarrow> context_page" where
  "handleSave s =
     (case selectedLayer s of
        None \<Rightarrow> s
      | Some l \<Rightarrow>
          s\<lparr>pending_calls := pending_calls s @
            [if ly_name l = ''chat_instructions'' then SaveInstructions (edit_content s)
             else if compaction_layer l \<and> truthy_string (editing_compaction s)
             then SaveCompaction (nullish (editing_compaction s) []) (edit_content s)
             else SaveNothing]\<rparr>)"

text \<open>What follows the await.  \<open>Some e\<close>: it threw, with this message if it is an \<open>Error\<close>.\<close>

definition toast :: "bool \<Rightarrow> string \<Rightarrow> context_page \<Rightarrow> context_page" where
  "toast good m s = s\<lparr>toasts := toasts s @ [(good, m)]\<rparr>"

definition save_ended :: "editor_call \<Rightarrow> string option option \<Rightarrow> context_page \<Rightarrow> context_page" where
  "save_ended c thrown s =
     (case thrown of
        Some e \<Rightarrow> toast False (''Failed to save context: '' @ nullish e ''Unknown error'') s
      | None \<Rightarrow>
          toast True ''Context saved successfully''
            (case c of SaveCompaction k v \<Rightarrow> s\<lparr>editing_compaction := None\<rparr> | _ \<Rightarrow> s))"

definition handleCompact :: "context_page \<Rightarrow> context_page" where
  "handleCompact s = s\<lparr>pending_calls := pending_calls s @ [TriggerCompaction]\<rparr>"

text \<open>The context is fetched again after three seconds.\<close>

definition compact_ended :: "string option option \<Rightarrow> context_page \<Rightarrow> context_page" where
  "compact_ended thrown s =
     (case thrown of
        Some e \<Rightarrow> toast False (''Compaction failed: '' @ nullish e ''Unknown error'') s
      | None \<Rightarrow> s\<lparr>refetch_timer := Some (next_timer s), next_timer := Suc (next_timer s)\<rparr>)"

definition refetch_fires :: "nat \<Rightarrow> context_page \<Rightarrow> context_page" where
  "refetch_fires k s =
     (if refetch_timer s = Some k then s\<lparr>fetches := Suc (fetches s), refetch_timer := None\<rparr> else s)"

definition refresh_clicked :: "context_page \<Rightarrow> context_page" where
  "refresh_clicked s = s\<lparr>fetches := Suc (fetches s)\<rparr>"

definition context_arrives :: "layer list option \<Rightarrow> context_page \<Rightarrow> context_page" where
  "context_arrives ls s = s\<lparr>layers := ls, context_version := Suc (context_version s)\<rparr>"

subsection \<open>Snippets\<close>

definition handleInsertSnippet :: "string \<Rightarrow> context_page \<Rightarrow> context_page" where
  "handleInsertSnippet v s =
     (if selected_layer_index s = Combined \<or> \<not> isEditable s then s
      else s\<lparr>edit_content := edit_content s @ newline # v\<rparr>)"

definition handleSaveAsSnippet :: "nat \<Rightarrow> nat \<Rightarrow> context_page \<Rightarrow> context_page" where
  "handleSaveAsSnippet start end s =
     (if start = end then s
      else s\<lparr>snippet_selection := take (end - start) (drop start (edit_content s)), snippet_name := [], snippet_open := True\<rparr>)"

definition close_snippet :: "context_page \<Rightarrow> context_page" where
  "close_snippet s = s\<lparr>snippet_open := False, snippet_error := None\<rparr>"

definition save_snippet :: "context_page \<Rightarrow> context_page" where
  "save_snippet s =
     (if trim (snippet_name s) = [] \<or> snippet_saving s then s
      else s\<lparr>snippet_saving := True, snippet_error := None,
             pending_calls := pending_calls s @ [CreateSnippet (trim (snippet_name s)) (snippet_selection s)]\<rparr>)"

text \<open>\<open>True\<close>: the hook returned the snippet; it returned nothing, or threw, otherwise.\<close>

definition snippet_ended :: "bool \<Rightarrow> context_page \<Rightarrow> context_page" where
  "snippet_ended ok s =
     (if ok then s\<lparr>snippet_open := False, snippet_refresh := Suc (snippet_refresh s), snippet_saving := False\<rparr>
      else s\<lparr>snippet_error := Some ''Failed to save snippet. Please try again.'', snippet_saving := False\<rparr>)"

subsection \<open>Events\<close>

datatype context_input =
  ContextArrives "layer list option"
| CompactionsArrive "compaction list"
| LayerChosen layer_choice
| CompactionOpened compaction
| ContentTyped string
| SaveClicked
| CompactClicked
| RefreshClicked
| CallEnded nat "string option option"
| RefetchFires nat
| SnippetInserted string
| SelectionAsSnippet nat nat
| SnippetNamed string
| SnippetSaved
| SnippetClosed

fun call_ended :: "editor_call \<Rightarrow> string option option \<Rightarrow> context_page \<Rightarrow> context_page" where
  "call_ended TriggerCompaction r s = compact_ended r s"
| "call_ended (CreateSnippet nm v) r s = snippet_ended (r = None) s"
| "call_ended c r s = save_ended c r s"

fun context_event :: "context_input \<Rightarrow> context_page \<Rightarrow> context_page" where
  "context_event (ContextArrives ls) s = context_arrives ls s"
| "context_event (CompactionsArrive cs) s = s\<lparr>compactions := cs\<rparr>"
| "context_event (LayerChosen c) s = choose_layer c s"
| "context_event (CompactionOpened c) s = openCompactionInEditor c s"
| "context_event (ContentTyped v) s = (if isEditable s then s\<lparr>edit_content := v\<rparr> else s)"
| "context_event SaveClicked s = (if isEditable s then handleSave s else s)"
| "context_event CompactClicked s = handleCompact s"
| "context_event RefreshClicked s = refresh_clicked s"
| "context_event (CallEnded n r) s =
     (if n < length (pending_calls s)
      then call_ended (pending_calls s ! n) r
        (s\<lparr>pending_calls := take n (pending_calls s) @ drop (Suc n) (pending_calls s)\<rparr>)
      else s)"
| "context_event (RefetchFires k) s = refetch_fires k s"
| "context_event (SnippetInserted v) s = handleInsertSnippet v s"
| "context_event (SelectionAsSnippet a b) s = (if isEditable s then handleSaveAsSnippet a b s else s)"
| "context_event (SnippetNamed v) s = s\<lparr>snippet_name := v\<rparr>"
| "context_event SnippetSaved s = save_snippet s"
| "context_event SnippetClosed s = close_snippet s"

definition context_step :: "(nat \<Rightarrow> string) \<Rightarrow> context_input \<Rightarrow> context_page \<Rightarrow> context_page" where
  "context_step number e s = sync_editor number (context_event e s)"

definition run_context :: "(nat \<Rightarrow> string) \<Rightarrow> context_input list \<Rightarrow> context_page" where
  "run_context number es = fold (context_step number) es (sync_editor number initial_context_page)"

subsection \<open>The editor shows the selected layer\<close>

lemma sync_synced: "synced_for (sync_editor number s) = Some (context_version s, selected_layer_index s)"
  by (simp add: sync_editor_def Let_def split: option.split layer_choice.split)

lemma sync_keeps [simp]:
  "layers (sync_editor number s) = layers s" "context_version (sync_editor number s) = context_version s"
  "selected_layer_index (sync_editor number s) = selected_layer_index s" "pending_calls (sync_editor number s) = pending_calls s"
  by (simp_all add: sync_editor_def Let_def split: option.split layer_choice.split)

lemma selectedLayer_sync [simp]: "selectedLayer (sync_editor number s) = selectedLayer s"
  by (simp add: selectedLayer_def split: layer_choice.split)

text \<open>Selecting a layer, or the arrival of a context, shows the layer that is selected then.\<close>

definition shows_selection :: "(nat \<Rightarrow> string) \<Rightarrow> context_page \<Rightarrow> bool" where
  "shows_selection number s \<longleftrightarrow>
     (case selected_layer_index s of
        Combined \<Rightarrow> (case layers s of None \<Rightarrow> True | Some ls \<Rightarrow> edit_content s = combined_view number ls)
      | Layer i \<Rightarrow> (case selectedLayer s of None \<Rightarrow> True | Some l \<Rightarrow> isEditable s \<or> edit_content s = ly_content l))"

lemma sync_shows:
  assumes "synced_for s = Some (context_version s, selected_layer_index s) \<Longrightarrow> shows_selection number s"
  shows "shows_selection number (sync_editor number s)"
proof (cases "synced_for s = Some (context_version s, selected_layer_index s)")
  case True
  then show ?thesis using assms by (simp add: sync_editor_def)
next
  case False
  then show ?thesis
    by (auto simp: sync_editor_def shows_selection_def selectedLayer_def Let_def split: option.split layer_choice.split)
qed

text \<open>An event that leaves the context and the selection leaves what is shown, unless it can be edited.\<close>

definition same_view :: "context_page \<Rightarrow> context_page \<Rightarrow> bool" where
  "same_view s s' \<longleftrightarrow>
     layers s' = layers s \<and> selected_layer_index s' = selected_layer_index s \<and>
     (edit_content s' = edit_content s \<or> isEditable s)"

lemma editable_not_combined: "isEditable s \<Longrightarrow> selected_layer_index s \<noteq> Combined"
  by (auto simp: isEditable_def selectedLayer_def)

lemma same_view_selected:
  "layers s' = layers s \<Longrightarrow> selected_layer_index s' = selected_layer_index s \<Longrightarrow>
   selectedLayer s' = selectedLayer s \<and> isEditable s' = isEditable s"
  by (cases "selected_layer_index s") (simp_all add: selectedLayer_def isEditable_def)

lemma same_view_shows: "same_view s s' \<Longrightarrow> shows_selection number s \<Longrightarrow> shows_selection number s'"
  using same_view_selected [of s' s] editable_not_combined [of s]
  by (auto simp: same_view_def shows_selection_def split: layer_choice.splits option.splits)

lemma find_layer_some: "find_layer p ls = Some i \<Longrightarrow> i < length ls \<and> p (ls ! i)"
  by (induction ls arbitrary: i) (auto split: if_splits)

lemma opened_shows: "shows_selection number s \<Longrightarrow> shows_selection number (openCompactionInEditor c s)"
  by (auto simp: openCompactionInEditor_def shows_selection_def selectedLayer_def split: option.splits dest!: find_layer_some)

lemma call_ended_view:
  "layers (call_ended c r s) = layers s \<and> selected_layer_index (call_ended c r s) = selected_layer_index s \<and>
   edit_content (call_ended c r s) = edit_content s"
  by (cases c) (auto simp: compact_ended_def snippet_ended_def save_ended_def toast_def split: option.split editor_call.split)

lemma event_shows:
  assumes ok: "shows_selection number s"
    and same: "(context_version (context_event e s), selected_layer_index (context_event e s)) =
      (context_version s, selected_layer_index s)"
  shows "shows_selection number (context_event e s)"
proof (cases e)
  case (ContextArrives ls)
  then show ?thesis using same by (simp add: context_arrives_def)
next
  case (CompactionOpened c)
  then show ?thesis using opened_shows ok by simp
next
  case (LayerChosen c)
  then have "same_view s (context_event e s)"
    using same by (auto simp: same_view_def choose_layer_def Let_def split: layer_choice.splits option.splits)
  then show ?thesis using same_view_shows ok by blast
next
  case (CallEnded n r)
  then have "same_view s (context_event e s)" by (simp add: same_view_def call_ended_view)
  then show ?thesis using same_view_shows ok by blast
qed (rule same_view_shows [OF _ ok]; auto simp: same_view_def handleSave_def handleCompact_def refresh_clicked_def
    refetch_fires_def handleInsertSnippet_def handleSaveAsSnippet_def save_snippet_def close_snippet_def split: option.split)+

lemma call_ended_synced: "synced_for (call_ended c r s) = synced_for s"
  by (cases c) (auto simp: compact_ended_def snippet_ended_def save_ended_def toast_def split: option.split)

lemma event_synced: "synced_for (context_event e s) = synced_for s"
  by (cases e) (auto simp: context_arrives_def choose_layer_def openCompactionInEditor_def handleSave_def handleCompact_def
      refresh_clicked_def refetch_fires_def handleInsertSnippet_def handleSaveAsSnippet_def save_snippet_def
      close_snippet_def call_ended_synced Let_def split: option.split layer_choice.split)

text \<open>C36: What cannot be edited reaches the editor as it is: whatever happened, the text that the editor of a layer
  that is not the instructions nor a compaction is given is the content of that layer in the context that arrived
  last, and that of the combined view all its layers.  (The view of the text that the editor then makes is not part of
  this: its token view can be that of another text.)\<close>

theorem read_only_layers_shown:
  "shows_selection number (run_context number es)"
proof -
  have "shows_selection number (fold (context_step number) es s)"
    if "shows_selection number s" "synced_for s = Some (context_version s, selected_layer_index s)" for s
    using that
  proof (induction es arbitrary: s)
    case (Cons e es)
    have "shows_selection number (context_step number e s)" unfolding context_step_def
      using event_shows [OF Cons.prems(1), of e] Cons.prems(2) by (intro sync_shows) (simp add: event_synced)
    then show ?case using Cons.IH [of "context_step number e s"] by (simp add: context_step_def sync_synced)
  qed simp
  moreover have "shows_selection number (sync_editor number initial_context_page)"
    by (rule sync_shows) (simp add: initial_context_page_def)
  ultimately show ?thesis by (simp add: run_context_def sync_synced)
qed

subsection \<open>Where the page does what it does not mean to\<close>

definition two_summaries :: "layer list" where
  "two_summaries =
     [\<lparr>ly_name = ''compaction_summary_1'', ly_content = ''first'', ly_tokens = 1\<rparr>,
      \<lparr>ly_name = ''compaction_summary_2'', ly_content = ''second'', ly_tokens = 1\<rparr>]"

definition first_compaction :: compaction where
  "first_compaction = \<lparr>cp_id = ''c1'', cp_summary = ''first'', cp_status = ''completed''\<rparr>"

definition open_summary :: "context_input list" where
  "open_summary = [ContextArrives (Some two_summaries), CompactionOpened first_compaction]"

text \<open>Once saved, a compaction is edited without its id: saving again sends nothing and reports success.\<close>

lemma second_save_sends_nothing:
  "let s = run_context show_nat (open_summary @ [ContentTyped ''a'', SaveClicked, CallEnded 0 None, ContentTyped ''b'', SaveClicked]);
       s' = context_step show_nat (CallEnded 0 None) s
   in pending_calls s = [SaveNothing] \<and> map fst (toasts s') = [True, True]"
  by code_simp

text \<open>Any context that arrives, as after a refresh or a compaction, takes back what was typed.\<close>

lemma arrival_discards_edit:
  "let s = run_context show_nat (open_summary @ [ContentTyped ''a long edit'']);
       s' = context_step show_nat (ContextArrives (Some two_summaries)) s
   in edit_content s = ''a long edit'' \<and> edit_content s' = ''first''"
  by code_simp

text \<open>The selection is a position: when the layers move, the summary that is shown then is saved to the compaction
  that was opened before.\<close>

lemma moved_layer_saved_to_other_compaction:
  "pending_calls (run_context show_nat (open_summary @ [ContextArrives (Some (tl two_summaries)), SaveClicked])) =
     [SaveCompaction ''c1'' ''second'']"
  by code_simp

end
