(* ===== verification/Terminal_Pane.thy ===== *)
theory Terminal_Pane
  imports Terminal_Socket Filenames
begin

section \<open>The terminal\<close>

text \<open>
  \<^verbatim>\<open>components/workspace/terminal/terminal-pane.tsx\<close>: several tabs over the one terminal socket of
  \<open>Terminal_Socket\<close>.  What the socket calls back is written to the tab that gave the last command.  A state
  holds the socket; a step of the socket is followed by the callbacks that it caused, in their order.  The text of
  a number is a parameter.
\<close>

subsection \<open>State\<close>

record terminal_tab =
  tab_id :: string
  tab_name :: string
  tab_lines :: "string list"
  tab_input :: string
  tab_running :: bool

definition createTab :: "string \<Rightarrow> string \<Rightarrow> terminal_tab" where
  "createTab i name = \<lparr>tab_id = i, tab_name = name, tab_lines = [''$ ''], tab_input = [], tab_running = False\<rparr>"

record pane =
  tabs :: "terminal_tab list"
  active_tab :: string
  tab_counter :: nat
  issuing_tab :: string
  socket :: term_state
  notified :: "string list"

definition initial_pane :: "term_options \<Rightarrow> pane" where
  "initial_pane opts =
     \<lparr>tabs = [createTab ''term-1'' ''Terminal 1''], active_tab = ''term-1'', tab_counter = 1,
      issuing_tab = ''term-1'', socket = term_mount opts initial_term, notified = []\<rparr>"

definition updateTabById :: "string \<Rightarrow> (terminal_tab \<Rightarrow> terminal_tab) \<Rightarrow> pane \<Rightarrow> pane" where
  "updateTabById i f p = p\<lparr>tabs := map (\<lambda>t. if tab_id t = i then f t else t) (tabs p)\<rparr>"

definition currentTab :: "pane \<Rightarrow> terminal_tab option" where
  "currentTab p = find (\<lambda>t. tab_id t = active_tab p) (tabs p)"

subsection \<open>The callbacks of the socket\<close>

text \<open>\<^verbatim>\<open>newLines.splice(Math.max(newLines.length - 1, 0), 0, ...xs)\<close>\<close>

definition before_prompt :: "string list \<Rightarrow> string list \<Rightarrow> string list" where
  "before_prompt xs ls = take (length ls - 1) ls @ xs @ drop (length ls - 1) ls"

definition output_lines :: "string \<Rightarrow> string list" where
  "output_lines content =
     (let ls = split_on CHR 0x0A content in if last ls = [] then butlast ls else ls)"

definition onOutput :: "string \<Rightarrow> pane \<Rightarrow> pane" where
  "onOutput content p =
     updateTabById (issuing_tab p)
       (\<lambda>t. t\<lparr>tab_lines := before_prompt (output_lines content) (tab_lines t)\<rparr>) p"

definition onExit :: "(real \<Rightarrow> string) \<Rightarrow> real \<Rightarrow> pane \<Rightarrow> pane" where
  "onExit number code p =
     updateTabById (issuing_tab p)
       (\<lambda>t. t\<lparr>tab_lines := (if code \<noteq> 0
                then before_prompt [''[exit code: '' @ number code @ '']''] (tab_lines t) else tab_lines t),
             tab_running := False\<rparr>) p"

definition onError :: "string \<Rightarrow> pane \<Rightarrow> pane" where
  "onError message p =
     updateTabById (issuing_tab p)
       (\<lambda>t. t\<lparr>tab_lines := before_prompt [''Error: '' @ message] (tab_lines t), tab_running := False\<rparr>) p"

text \<open>The pane gives no \<open>onConnected\<close>.\<close>

fun call_back :: "(real \<Rightarrow> string) \<Rightarrow> term_output \<Rightarrow> pane \<Rightarrow> pane" where
  "call_back number (Output stream content) p = onOutput content p"
| "call_back number (Exit code) p = onExit number code p"
| "call_back number (TermError message) p = onError message p"
| "call_back number (ContainerConnected c) p = p"

definition with_socket :: "(real \<Rightarrow> string) \<Rightarrow> (term_state \<Rightarrow> term_state) \<Rightarrow> pane \<Rightarrow> pane" where
  "with_socket number f p =
     fold (call_back number) (drop (length (t_calls (socket p))) (t_calls (f (socket p)))) (p\<lparr>socket := f (socket p)\<rparr>)"

subsection \<open>The handlers\<close>

definition handleCommand :: "(real \<Rightarrow> string) \<Rightarrow> string \<Rightarrow> pane \<Rightarrow> pane" where
  "handleCommand number cmd p =
     (if trim cmd = [] then p
      else if trim cmd = ''clear''
      then updateTabById (active_tab p) (\<lambda>t. t\<lparr>tab_lines := [''$ ''], tab_input := []\<rparr>) p
      else
        (let p1 = p\<lparr>issuing_tab := active_tab p\<rparr>;
             p2 = updateTabById (active_tab p)
               (\<lambda>t. t\<lparr>tab_lines := (tab_lines t)[length (tab_lines t) - 1 := ''$ '' @ cmd] @ [''$ ''],
                     tab_input := [], tab_running := True\<rparr>) p1;
             p3 = with_socket number (send_command cmd) p2
         in p3\<lparr>notified := notified p3 @ [cmd]\<rparr>))"

definition addTab :: "string \<Rightarrow> pane \<Rightarrow> pane" where
  "addTab uuid p =
     (let n = Suc (tab_counter p); i = ''term-'' @ uuid
      in p\<lparr>tab_counter := n, tabs := tabs p @ [createTab i (''Terminal '' @ show_nat n)], active_tab := i\<rparr>)"

definition closeTab :: "string \<Rightarrow> pane \<Rightarrow> pane" where
  "closeTab i p =
     (if length (tabs p) = 1 then p
      else
        (let remaining = filter (\<lambda>t. tab_id t \<noteq> i) (tabs p);
             new_active = (if remaining \<noteq> [] then tab_id (hd remaining) else tab_id (hd (tabs p)))
         in p\<lparr>tabs := remaining,
              active_tab := (if active_tab p = i then new_active else active_tab p),
              issuing_tab := (if issuing_tab p = i then new_active else issuing_tab p)\<rparr>))"

definition switch_tab :: "string \<Rightarrow> pane \<Rightarrow> pane" where
  "switch_tab i p = (if i \<in> set (map tab_id (tabs p)) then p\<lparr>active_tab := i\<rparr> else p)"

definition input_enabled :: "pane \<Rightarrow> bool" where
  "input_enabled p \<longleftrightarrow> t_status (socket p) = Connected"

definition type_input :: "string \<Rightarrow> pane \<Rightarrow> pane" where
  "type_input text p =
     (if input_enabled p then updateTabById (active_tab p) (\<lambda>t. t\<lparr>tab_input := text\<rparr>) p else p)"

definition press_enter :: "(real \<Rightarrow> string) \<Rightarrow> pane \<Rightarrow> pane" where
  "press_enter number p =
     (case currentTab p of
        Some t \<Rightarrow> if input_enabled p then handleCommand number (tab_input t) p else p
      | None \<Rightarrow> p)"

definition reconnect :: "(real \<Rightarrow> string) \<Rightarrow> term_options \<Rightarrow> pane \<Rightarrow> pane" where
  "reconnect number opts p =
     (if t_status (socket p) = Disconnected \<or> t_status (socket p) = Exhausted
      then with_socket number (term_connect opts) p else p)"

text \<open>What can happen to the pane.  \<open>RunCommand\<close> is the call of the page through the handle.\<close>

datatype pane_event =
    TabClicked string
  | InputTyped string
  | EnterPressed
  | RunCommand string
  | NewTab string
  | CloseClicked string
  | ReconnectClicked
  | SocketEvent term_event

fun pane_step :: "(real \<Rightarrow> string) \<Rightarrow> term_options \<Rightarrow> pane_event \<Rightarrow> pane \<Rightarrow> pane" where
  "pane_step number opts (TabClicked i) p = switch_tab i p"
| "pane_step number opts (InputTyped text) p = type_input text p"
| "pane_step number opts EnterPressed p = press_enter number p"
| "pane_step number opts (RunCommand cmd) p = handleCommand number cmd p"
| "pane_step number opts (NewTab uuid) p = addTab uuid p"
| "pane_step number opts (CloseClicked i) p = closeTab i p"
| "pane_step number opts ReconnectClicked p = reconnect number opts p"
| "pane_step number opts (SocketEvent e) p = with_socket number (term_step opts e) p"

subsection \<open>Well-formed panes\<close>

definition tab_named :: "string \<Rightarrow> pane \<Rightarrow> terminal_tab option" where
  "tab_named a p = find (\<lambda>t. tab_id t = a) (tabs p)"

definition prompted :: "terminal_tab \<Rightarrow> bool" where
  "prompted t \<longleftrightarrow> tab_lines t \<noteq> [] \<and> last (tab_lines t) = ''$ ''"

definition tab_ids :: "pane \<Rightarrow> string list" where
  "tab_ids p = map tab_id (tabs p)"

definition well_formed :: "pane \<Rightarrow> bool" where
  "well_formed p \<longleftrightarrow>
     distinct (tab_ids p) \<and> active_tab p \<in> set (tab_ids p) \<and> issuing_tab p \<in> set (tab_ids p) \<and>
     (\<forall>t\<in>set (tabs p). prompted t)"

text \<open>The events as they can occur: \<open>crypto.randomUUID\<close> gives an id that no tab has, the socket sends nothing of
  its own, and a tab has a button that closes it if there is another one.\<close>

fun occurs :: "pane \<Rightarrow> pane_event \<Rightarrow> bool" where
  "occurs p (NewTab uuid) = (''term-'' @ uuid \<notin> set (tab_ids p))"
| "occurs p (SocketEvent (TermSend c)) = False"
| "occurs p e = True"

inductive pane_reachable :: "(real \<Rightarrow> string) \<Rightarrow> term_options \<Rightarrow> pane \<Rightarrow> bool" for number opts where
  pane_start: "pane_reachable number opts (initial_pane opts)"
| pane_next: "pane_reachable number opts p \<Longrightarrow> occurs p e \<Longrightarrow> pane_reachable number opts (pane_step number opts e p)"

text \<open>What a callback writes, and whether the command has ended with it.\<close>

fun shown :: "(real \<Rightarrow> string) \<Rightarrow> term_output \<Rightarrow> string list" where
  "shown number (Output stream content) = output_lines content"
| "shown number (Exit code) = (if code \<noteq> 0 then [''[exit code: '' @ number code @ '']''] else [])"
| "shown number (TermError message) = [''Error: '' @ message]"
| "shown number (ContainerConnected c) = []"

fun ends_command :: "term_output \<Rightarrow> bool" where
  "ends_command (Exit code) = True"
| "ends_command (TermError message) = True"
| "ends_command c = False"

definition receive :: "(real \<Rightarrow> string) \<Rightarrow> term_output \<Rightarrow> terminal_tab \<Rightarrow> terminal_tab" where
  "receive number c t =
     t\<lparr>tab_lines := before_prompt (shown number c) (tab_lines t), tab_running := tab_running t \<and> \<not> ends_command c\<rparr>"

lemma before_prompt_snoc [simp]: "before_prompt xs (ls @ [l]) = ls @ xs @ [l]"
  by (simp add: before_prompt_def)

lemma before_prompt_Nil [simp]: "before_prompt [] ls = ls"
  by (simp add: before_prompt_def)

lemma prompted_snoc: "prompted t \<longleftrightarrow> (\<exists>ls. tab_lines t = ls @ [''$ ''])"
proof
  assume "prompted t"
  then show "\<exists>ls. tab_lines t = ls @ [''$ '']"
    by (intro exI [of _ "butlast (tab_lines t)"]) (metis append_butlast_last_id prompted_def)
qed (auto simp: prompted_def)

lemma receive_connected [simp]: "receive number (ContainerConnected c) t = t"
  by (simp add: receive_def)

lemma tabs_unchanged: "(\<And>t. f t = t) \<Longrightarrow> p\<lparr>tabs := map f (tabs p)\<rparr> = p"
  by (simp add: map_idI)

lemma call_back_tabs:
  "call_back number c p = p\<lparr>tabs := map (\<lambda>t. if tab_id t = issuing_tab p then receive number c t else t) (tabs p)\<rparr>"
proof (cases c)
  case (ContainerConnected x)
  show ?thesis unfolding ContainerConnected call_back.simps by (rule sym, rule tabs_unchanged) simp
qed (simp_all add: onOutput_def onExit_def onError_def updateTabById_def receive_def)

lemma receive_id [simp]: "tab_id (receive number c t) = tab_id t"
  by (simp add: receive_def)

lemma fold_receive_id [simp]: "tab_id (fold (receive number) cs t) = tab_id t"
  by (induction cs arbitrary: t) simp_all

lemma fold_call_back:
  "fold (call_back number) cs p =
     p\<lparr>tabs := map (\<lambda>t. if tab_id t = issuing_tab p then fold (receive number) cs t else t) (tabs p)\<rparr>"
proof (induction cs arbitrary: p)
  case (Cons c cs)
  show ?case unfolding fold_Cons comp_def Cons.IH by (simp add: call_back_tabs)
next
  case (Nil p)
  show ?case unfolding fold_Nil id_apply by (rule sym, rule tabs_unchanged) simp
qed

lemma fold_receive:
  "tab_lines t = ls @ [l] \<Longrightarrow>
     tab_lines (fold (receive number) cs t) = ls @ concat (map (shown number) cs) @ [l] \<and>
     tab_running (fold (receive number) cs t) = (tab_running t \<and> (\<forall>c\<in>set cs. \<not> ends_command c))"
proof (induction cs arbitrary: t ls)
  case (Cons c cs)
  have "tab_lines (receive number c t) = (ls @ shown number c) @ [l]" by (simp add: receive_def Cons.prems)
  from Cons.IH [OF this] show ?case by (auto simp: receive_def)
qed simp

definition new_calls :: "(term_state \<Rightarrow> term_state) \<Rightarrow> pane \<Rightarrow> term_output list" where
  "new_calls f p = drop (length (t_calls (socket p))) (t_calls (f (socket p)))"

lemma with_socket_eq:
  "with_socket number f p =
     p\<lparr>socket := f (socket p),
       tabs := map (\<lambda>t. if tab_id t = issuing_tab p then fold (receive number) (new_calls f p) t else t) (tabs p)\<rparr>"
  by (simp add: with_socket_def fold_call_back new_calls_def)

lemma ids_mapped: "(\<And>t. tab_id (f t) = tab_id t) \<Longrightarrow> map tab_id (map f ts) = map tab_id ts"
  by simp

lemma prompted_fold_receive: "prompted t \<Longrightarrow> prompted (fold (receive number) cs t)"
  using fold_receive [of t _ "''$ ''" number cs] by (auto simp: prompted_snoc)

lemma with_socket_well_formed: "well_formed p \<Longrightarrow> well_formed (with_socket number f p)"
  by (auto simp: well_formed_def tab_ids_def with_socket_eq comp_def if_distrib prompted_fold_receive cong: if_cong)

lemma update_well_formed:
  assumes "well_formed p" and "\<And>t. tab_id (f t) = tab_id t" and "\<And>t. prompted t \<Longrightarrow> prompted (f t)"
  shows "well_formed (updateTabById i f p)"
  using assms by (auto simp: well_formed_def tab_ids_def updateTabById_def comp_def if_distrib cong: if_cong)

lemma handleCommand_well_formed: "well_formed p \<Longrightarrow> well_formed (handleCommand number cmd p)"
proof -
  assume w: "well_formed p"
  let ?f = "\<lambda>t. t\<lparr>tab_lines := (tab_lines t)[length (tab_lines t) - 1 := ''$ '' @ cmd] @ [''$ ''],
    tab_input := [], tab_running := True\<rparr>"
  have i: "well_formed (p\<lparr>issuing_tab := active_tab p\<rparr>)" using w by (simp add: well_formed_def tab_ids_def)
  have u: "well_formed (updateTabById (active_tab p) ?f (p\<lparr>issuing_tab := active_tab p\<rparr>))"
    by (rule update_well_formed [OF i]) (auto simp: prompted_def)
  have n: "well_formed (q\<lparr>notified := x\<rparr>)" if "well_formed q" for q x
    using that by (simp add: well_formed_def tab_ids_def)
  have c: "well_formed (updateTabById (active_tab p) (\<lambda>t. t\<lparr>tab_lines := [''$ ''], tab_input := []\<rparr>) p)"
    by (rule update_well_formed [OF w]) (auto simp: prompted_def)
  show ?thesis unfolding handleCommand_def Let_def
    using w c n [OF with_socket_well_formed [OF u]] by simp
qed

lemma addTab_well_formed: "well_formed p \<Longrightarrow> ''term-'' @ uuid \<notin> set (tab_ids p) \<Longrightarrow> well_formed (addTab uuid p)"
  by (auto simp: well_formed_def tab_ids_def addTab_def Let_def createTab_def prompted_def)

lemma closeTab_well_formed:
  assumes w: "well_formed p"
  shows "well_formed (closeTab i p)"
proof (cases "length (tabs p) = 1")
  case False
  let ?r = "filter (\<lambda>t. tab_id t \<noteq> i) (tabs p)"
  have d: "distinct (map tab_id (tabs p))" and a: "active_tab p \<in> set (map tab_id (tabs p))"
    and s: "issuing_tab p \<in> set (map tab_id (tabs p))" using w by (simp_all add: well_formed_def tab_ids_def)
  have r: "?r \<noteq> []"
  proof
    assume "?r = []"
    then have "set (map tab_id (tabs p)) \<subseteq> {i}" by (auto simp: filter_empty_conv)
    then have "card (set (map tab_id (tabs p))) \<le> 1" using card_mono [of "{i}"] by auto
    then have "length (tabs p) \<le> 1" using distinct_card [OF d] by simp
    then show False using False a by (cases "tabs p") auto
  qed
  then have h: "tab_id (hd ?r) \<in> set (map tab_id ?r)" using hd_in_set [OF r] by (simp only: set_map imageI)
  have m: "x \<in> set (map tab_id ?r)" if "x \<in> set (map tab_id (tabs p))" "x \<noteq> i" for x
    using that by auto
  have dr: "distinct (map tab_id ?r)" using d by (simp add: distinct_map_filter)
  show ?thesis using False r h m [OF a] m [OF s] dr w
    by (auto simp: closeTab_def well_formed_def tab_ids_def Let_def)
qed (use w in \<open>simp add: closeTab_def\<close>)

lemma step_well_formed: "well_formed p \<Longrightarrow> occurs p e \<Longrightarrow> well_formed (pane_step number opts e p)"
proof (cases e)
  case (InputTyped v)
  assume "well_formed p"
  then show ?thesis
    using update_well_formed [of p "\<lambda>t. t\<lparr>tab_input := v\<rparr>" "active_tab p"] InputTyped
    by (simp add: type_input_def prompted_def)
qed (auto simp: addTab_well_formed closeTab_well_formed handleCommand_well_formed with_socket_well_formed
    press_enter_def reconnect_def switch_tab_def split: option.split, auto simp: well_formed_def tab_ids_def)

lemma well_formed_initial: "well_formed (initial_pane opts)"
  by (simp add: well_formed_def initial_pane_def tab_ids_def createTab_def prompted_def)

text \<open>The terminal always shows a tab: in every state that the pane reaches its tabs have different ids, the
  active tab and the tab that the output goes to are among them, and every tab ends with a prompt.\<close>

theorem pane_well_formed:
  assumes "pane_reachable number opts p"
  shows "well_formed p \<and> currentTab p \<noteq> None"
proof -
  have "well_formed p"
    using assms by induction (simp_all add: step_well_formed well_formed_initial)
  then show ?thesis by (auto simp: currentTab_def find_None_iff well_formed_def tab_ids_def)
qed

subsection \<open>The output of a command\<close>

text \<open>The events that neither give a further command nor close the tab \<open>a\<close>.\<close>

fun undisturbed :: "string \<Rightarrow> pane_event \<Rightarrow> bool" where
  "undisturbed a EnterPressed = False"
| "undisturbed a (RunCommand cmd) = False"
| "undisturbed a (CloseClicked i) = (i \<noteq> a)"
| "undisturbed a (SocketEvent (TermSend c)) = False"
| "undisturbed a e = True"

lemma calls_connect: "t_calls (term_connect opts s) = t_calls s"
  by (simp add: term_connect_def term_cleanup_def Let_def split: option.split)

lemma calls_send [simp]: "t_calls (send_command c s) = t_calls s"
  by (simp add: send_command_def split: option.split)

lemma calls_step: "\<exists>cs. t_calls (term_step opts e s) = t_calls s @ cs"
proof (cases e)
  case (TermMessage i m)
  show ?thesis unfolding TermMessage
    by (simp add: term_on_message_def term_message_def term_connected_def term_call_def Let_def
        split: option.split json.split)
qed (simp_all add: term_on_open_def term_on_close_def term_timer_fires_def calls_connect Let_def)

lemma named_with_socket:
  "tab_named a (with_socket number f p) =
     map_option (\<lambda>t. if a = issuing_tab p then fold (receive number) (new_calls f p) t else t) (tab_named a p)"
proof -
  have "find (\<lambda>t. tab_id t = a) (map (\<lambda>t. if tab_id t = i then g t else t) ts) =
      map_option (\<lambda>t. if a = i then g t else t) (find (\<lambda>t. tab_id t = a) ts)"
    if "\<And>t. tab_id (g t) = tab_id t" for g :: "terminal_tab \<Rightarrow> terminal_tab" and i ts
    using that by (induction ts) auto
  then show ?thesis by (simp add: tab_named_def with_socket_eq)
qed

lemma named_update:
  "(\<And>t. tab_id (f t) = tab_id t) \<Longrightarrow>
     tab_named a (updateTabById i f p) = map_option (\<lambda>t. if a = i then f t else t) (tab_named a p)"
proof -
  assume f: "\<And>t. tab_id (f t) = tab_id t"
  have "find (\<lambda>t. tab_id t = a) (map (\<lambda>t. if tab_id t = i then f t else t) ts) =
      map_option (\<lambda>t. if a = i then f t else t) (find (\<lambda>t. tab_id t = a) ts)" for ts
    using f by (induction ts) auto
  then show ?thesis by (simp add: tab_named_def updateTabById_def)
qed

lemma named_fields [simp]:
  "tab_named a (p\<lparr>issuing_tab := i\<rparr>) = tab_named a p" "tab_named a (p\<lparr>notified := ns\<rparr>) = tab_named a p"
  by (simp_all add: tab_named_def)

lemma named_add: "tab_named a p = Some t \<Longrightarrow> tab_named a (addTab uuid p) = Some t"
proof -
  have "find P xs = Some t \<Longrightarrow> find P (xs @ ys) = Some t" for P and xs ys :: "terminal_tab list"
    by (induction xs) (auto split: if_splits)
  then show "tab_named a p = Some t \<Longrightarrow> ?thesis" by (simp add: tab_named_def addTab_def Let_def)
qed

lemma named_close: "i \<noteq> a \<Longrightarrow> tab_named a (closeTab i p) = tab_named a p"
proof -
  assume i: "i \<noteq> a"
  have "find (\<lambda>t. tab_id t = a) (filter (\<lambda>t. tab_id t \<noteq> i) ts) = find (\<lambda>t. tab_id t = a) ts" for ts
    using i by (induction ts) auto
  from this [of "tabs p"] show ?thesis by (simp add: tab_named_def closeTab_def Let_def)
qed

text \<open>The tab \<open>a\<close> shows what it had, the command, and what was called back since.\<close>

definition shows_run :: "(real \<Rightarrow> string) \<Rightarrow> string \<Rightarrow> string list \<Rightarrow> term_output list \<Rightarrow> pane \<Rightarrow> bool" where
  "shows_run number a ls cs q \<longleftrightarrow>
     issuing_tab q = a \<and>
     (\<exists>t. tab_named a q = Some t \<and> tab_lines t = ls @ concat (map (shown number) cs) @ [''$ ''] \<and>
        tab_running t = (\<forall>c\<in>set cs. \<not> ends_command c))"

lemma shows_socket:
  assumes q: "shows_run number a ls cs q"
  shows "shows_run number a ls (cs @ new_calls f q) (with_socket number f q)"
proof -
  obtain t where t: "issuing_tab q = a" "tab_named a q = Some t"
      "tab_lines t = (ls @ concat (map (shown number) cs)) @ [''$ '']"
      "tab_running t = (\<forall>c\<in>set cs. \<not> ends_command c)"
    using q by (auto simp: shows_run_def)
  have i: "issuing_tab (with_socket number f q) = a" by (simp add: with_socket_eq t)
  show ?thesis using fold_receive [OF t(3), of number "new_calls f q"] t(1,2,4) i
    by (auto simp: shows_run_def named_with_socket)
qed

lemma shows_same:
  assumes "shows_run number a ls cs q" and "issuing_tab q' = issuing_tab q"
    and "\<And>t. tab_named a q = Some t \<Longrightarrow> tab_named a q' = Some t"
  shows "shows_run number a ls cs q'"
  using assms by (auto simp: shows_run_def)

lemma shows_step:
  assumes q: "shows_run number a ls cs q" and e: "undisturbed a e"
  shows "\<exists>ds. t_calls (socket (pane_step number opts e q)) = t_calls (socket q) @ ds \<and>
    shows_run number a ls (cs @ ds) (pane_step number opts e q)"
proof (cases e)
  case (InputTyped v)
  obtain t where t: "issuing_tab q = a" "tab_named a q = Some t" "tab_lines t = ls @ concat (map (shown number) cs) @ [''$ '']"
      "tab_running t = (\<forall>c\<in>set cs. \<not> ends_command c)"
    using q by (auto simp: shows_run_def)
  have "issuing_tab (updateTabById i f q) = a" for i f by (simp add: updateTabById_def t)
  then have "shows_run number a ls cs (type_input v q)"
    using q t by (cases "a = active_tab q") (auto simp: shows_run_def type_input_def named_update)
  then show ?thesis by (cases "input_enabled q") (simp_all add: InputTyped type_input_def updateTabById_def)
next
  case (NewTab uuid)
  have "issuing_tab (addTab uuid q) = issuing_tab q" "socket (addTab uuid q) = socket q"
    by (simp_all add: addTab_def Let_def)
  then show ?thesis using shows_same [OF q _ named_add] by (simp add: NewTab)
next
  case (CloseClicked i)
  then have i: "i \<noteq> a" using e by simp
  then have "issuing_tab (closeTab i q) = issuing_tab q" "socket (closeTab i q) = socket q"
    using q by (simp_all add: closeTab_def Let_def shows_run_def)
  then show ?thesis using shows_same [OF q, of "closeTab i q"] named_close [OF i] by (simp add: CloseClicked)
next
  case (TabClicked i)
  have "tab_named a (switch_tab i q) = tab_named a q" "issuing_tab (switch_tab i q) = issuing_tab q"
      "socket (switch_tab i q) = socket q" by (simp_all add: switch_tab_def tab_named_def)
  then show ?thesis using shows_same [OF q, of "switch_tab i q"] by (simp add: TabClicked)
next
  case ReconnectClicked
  show ?thesis using q shows_socket [OF q, of "term_connect opts"]
    by (auto simp: ReconnectClicked reconnect_def new_calls_def calls_connect, auto simp: with_socket_eq calls_connect)
next
  case (SocketEvent x)
  obtain ds where ds: "t_calls (term_step opts x (socket q)) = t_calls (socket q) @ ds" using calls_step by blast
  then have "new_calls (term_step opts x) q = ds" by (simp add: new_calls_def)
  then show ?thesis using shows_socket [OF q, of "term_step opts x"] ds by (simp add: SocketEvent) (simp add: with_socket_eq)
qed (use e in simp_all)

lemma shows_steps:
  "shows_run number a ls cs q \<Longrightarrow> list_all (undisturbed a) es \<Longrightarrow>
     \<exists>ds. t_calls (socket (fold (pane_step number opts) es q)) = t_calls (socket q) @ ds \<and>
       shows_run number a ls (cs @ ds) (fold (pane_step number opts) es q)"
proof (induction es arbitrary: cs q)
  case (Cons e es)
  then obtain ds where ds: "t_calls (socket (pane_step number opts e q)) = t_calls (socket q) @ ds"
      "shows_run number a ls (cs @ ds) (pane_step number opts e q)"
    using shows_step [of number a ls cs q e opts] by auto
  then show ?case using Cons.IH [OF ds(2)] Cons.prems(2) by auto
qed (use append_Nil2 in auto)

lemma shows_command:
  assumes "prompted t" and t: "tab_named (active_tab p) p = Some t" and cmd: "trim cmd \<noteq> []" "trim cmd \<noteq> ''clear''"
  shows "shows_run number (active_tab p) (butlast (tab_lines t) @ [''$ '' @ cmd]) [] (handleCommand number cmd p)"
    and "t_calls (socket (handleCommand number cmd p)) = t_calls (socket p)"
proof -
  obtain ls where ls: "tab_lines t = ls @ [''$ '']" using assms(1) by (auto simp: prompted_snoc)
  define typed where "typed = updateTabById (active_tab p)
    (\<lambda>t. t\<lparr>tab_lines := (tab_lines t)[length (tab_lines t) - 1 := ''$ '' @ cmd] @ [''$ ''],
      tab_input := [], tab_running := True\<rparr>) (p\<lparr>issuing_tab := active_tab p\<rparr>)"
  have sent: "new_calls (send_command cmd) typed = []" by (simp add: new_calls_def)
  have h: "handleCommand number cmd p =
      (with_socket number (send_command cmd) typed)\<lparr>notified := notified (with_socket number (send_command cmd) typed) @ [cmd]\<rparr>"
    using cmd by (simp add: handleCommand_def typed_def Let_def)
  have n: "tab_named (active_tab p) typed = Some (t\<lparr>tab_lines := ls @ [''$ '' @ cmd, ''$ ''], tab_input := [], tab_running := True\<rparr>)"
    unfolding typed_def by (simp add: named_update t ls)
  have i: "issuing_tab typed = active_tab p" by (simp add: typed_def updateTabById_def)
  show "shows_run number (active_tab p) (butlast (tab_lines t) @ [''$ '' @ cmd]) [] (handleCommand number cmd p)"
    unfolding h shows_run_def named_fields named_with_socket sent n by (simp add: with_socket_eq i ls)
  show "t_calls (socket (handleCommand number cmd p)) = t_calls (socket p)"
    unfolding h by (simp add: with_socket_eq) (simp add: typed_def updateTabById_def)
qed

text \<open>C38: What a command prints appears under it, in its own tab: after a command of a reached pane, however tabs
  are switched, opened and closed, input is typed (but not entered: no further command
  is run) and the connection breaks and comes back, the tab shows the lines it
  had, the command, and what the socket has delivered since, in its order and above the prompt; it counts as running
  until an exit or an error has been delivered.\<close>

theorem output_follows_command:
  assumes p: "pane_reachable number opts p" and cmd: "trim cmd \<noteq> []" "trim cmd \<noteq> ''clear''"
    and es: "list_all (undisturbed (active_tab p)) es"
  shows "let q = fold (pane_step number opts) es (handleCommand number cmd p);
      cs = drop (length (t_calls (socket p))) (t_calls (socket q))
    in \<exists>old t. tab_named (active_tab p) p = Some old \<and> tab_named (active_tab p) q = Some t \<and>
      tab_lines t = butlast (tab_lines old) @ [''$ '' @ cmd] @ concat (map (shown number) cs) @ [''$ ''] \<and>
      tab_running t = (\<forall>c\<in>set cs. \<not> ends_command c)"
proof -
  have w: "well_formed p"
    using p by induction (simp_all add: step_well_formed well_formed_initial)
  obtain old where old: "tab_named (active_tab p) p = Some old"
    using w by (cases "tab_named (active_tab p) p") (auto simp: tab_named_def find_None_iff well_formed_def tab_ids_def)
  then have "prompted old" using w by (auto simp: tab_named_def find_Some_iff well_formed_def)
  note start = shows_command [OF this old cmd, of number]
  from shows_steps [OF start(1) es, of opts] start(2) old show ?thesis
    by (auto simp: shows_run_def Let_def)
qed

definition sample_options :: term_options where
  "sample_options = \<lparr>to_project = ''p'', to_token = Some ''t'', to_api_url = Some ''http://h'', to_page = None\<rparr>"

definition server_says :: "string \<Rightarrow> (string \<times> json) list \<Rightarrow> pane_event" where
  "server_says kind payload =
     SocketEvent (TermMessage 0 (Some (JObj [(''type'', JStr kind), (''data'', JObj payload)])))"

definition prints :: "string \<Rightarrow> pane_event" where
  "prints content = server_says ''output'' [(''stream'', JStr ''stdout''), (''content'', JStr content)]"

definition connected_pane :: pane where
  "connected_pane =
     fold (pane_step (\<lambda>x. ''1'') sample_options) [SocketEvent (TermOpen 0), server_says ''connected'' []]
       (initial_pane sample_options)"

lemma connected_pane_reachable: "pane_reachable (\<lambda>x. ''1'') sample_options connected_pane"
  unfolding connected_pane_def fold_simps server_says_def
  by (intro pane_reachable.intros) simp_all

lemma pane_well_formed_witness: "well_formed connected_pane \<and> currentTab connected_pane \<noteq> None"
  by (rule pane_well_formed [OF connected_pane_reachable])

definition while_it_runs :: "pane_event list" where
  "while_it_runs =
     [prints ''a
'', NewTab ''u'', InputTyped ''x'', prints ''b
c
'', TabClicked ''term-1'', server_says ''exit'' [(''code'', JNum 1)]]"

lemma output_follows_command_witness:
  "\<exists>old t. tab_named ''term-1'' connected_pane = Some old \<and>
     tab_named ''term-1'' (fold (pane_step (\<lambda>x. ''1'') sample_options) while_it_runs
       (handleCommand (\<lambda>x. ''1'') ''ls'' connected_pane)) = Some t \<and>
     tab_lines t = [''$ ls'', ''a'', ''b'', ''c'', ''[exit code: 1]'', ''$ ''] \<and> \<not> tab_running t"
proof -
  have a: "active_tab connected_pane = ''term-1''" by code_simp
  have u: "list_all (undisturbed (active_tab connected_pane)) while_it_runs" unfolding a by code_simp
  have cs: "drop (length (t_calls (socket connected_pane)))
      (t_calls (socket (fold (pane_step (\<lambda>x. ''1'') sample_options) while_it_runs
        (handleCommand (\<lambda>x. ''1'') ''ls'' connected_pane)))) =
    [Output ''stdout'' ''a
'', Output ''stdout'' ''b
c
'', Exit 1]" by code_simp
  have old: "map_option tab_lines (tab_named ''term-1'' connected_pane) = Some [''$ '']" by code_simp
  have cmd: "trim ''ls'' \<noteq> []" "trim ''ls'' \<noteq> ''clear''" by code_simp+
  have shown: "concat (map (shown (\<lambda>x. ''1'')) [Output ''stdout'' ''a
'', Output ''stdout'' ''b
c
'', Exit 1]) = [''a'', ''b'', ''c'', ''[exit code: 1]'']" by code_simp
  show ?thesis
    using output_follows_command [OF connected_pane_reachable cmd u] old
    unfolding Let_def cs a shown by auto
qed

subsection \<open>Where the terminal does what it does not mean to\<close>

text \<open>A command that the page runs while there is no connection is shown as entered, and nothing is sent, nothing
  says so, and the tab stays running.\<close>

lemma command_without_connection_runs_forever:
  "let p = pane_step (\<lambda>x. ''1'') sample_options (RunCommand ''npm start'') (initial_pane sample_options)
   in map tab_lines (tabs p) = [[''$ npm start'', ''$ '']] \<and> map tab_running (tabs p) = [True] \<and>
     t_commands (socket p) = []"
  by code_simp

text \<open>All tabs share the connection: with a command in each of two tabs, what the first one still prints, and its
  exit, goes to the second, and the first tab stays running.\<close>

definition two_commands :: "pane_event list" where
  "two_commands =
     [RunCommand ''one'', NewTab ''u'', RunCommand ''two'', prints ''of one'', server_says ''exit'' [(''code'', JNum 0)]]"

lemma second_command_takes_output:
  "let p = fold (pane_step (\<lambda>x. ''1'') sample_options) two_commands connected_pane
   in map tab_lines (tabs p) = [[''$ one'', ''$ ''], [''$ two'', ''of one'', ''$ '']] \<and>
     map tab_running (tabs p) = [True, False]"
  by code_simp

text \<open>A line that arrives in two pieces is shown as two lines.\<close>

lemma split_line_shown_as_two:
  "map tab_lines (tabs (fold (pane_step (\<lambda>x. ''1'') sample_options) [prints ''ab'', prints ''cd''] connected_pane)) =
     [[''ab'', ''cd'', ''$ '']]"
  by code_simp

end
