(* ===== verification/Event_Dialog.thy ===== *)
theory Event_Dialog
  imports Filenames "HOL-Library.Sublist"
begin

section \<open>Creating an event\<close>

text \<open>
  \<^verbatim>\<open>components/workspace/events/create-event-modal.tsx\<close>, with the state that its page and \<open>useCreateEvent\<close> keep for
  it: whether the dialog is open, and the request in flight (\<open>creating\<close>).  \<open>JSON.parse\<close> is the parameter \<open>parse\<close>,
  the message of its error on the left; \<open>JSON.stringify(v, null, 2)\<close> is the parameter \<open>pretty\<close>.
\<close>

subsection \<open>Templates\<close>

datatype severity = SevInfo | SevWarning | SevError | SevCritical

record event_template =
  et_type :: string
  et_data :: json
  et_severity :: severity

definition event_template :: "string \<Rightarrow> (string \<times> json) list \<Rightarrow> severity \<Rightarrow> event_template" where
  "event_template t members sev = \<lparr>et_type = t, et_data = JObj members, et_severity = sev\<rparr>"

definition EVENT_TEMPLATES :: "(string \<times> event_template) list" where
  "EVENT_TEMPLATES =
     [(''Model Loaded'', event_template ''model_loaded'' [(''model_name'', JStr []), (''vram_mb'', JNum 0)] SevInfo),
      (''Model Unloaded'', event_template ''model_unloaded'' [(''model_name'', JStr []), (''reason'', JStr ''manual'')] SevInfo),
      (''System Alert'', event_template ''system'' [(''message'', JStr [])] SevWarning),
      (''Error Report'', event_template ''error'' [(''message'', JStr []), (''stack'', JStr [])] SevError),
      (''User Action'', event_template ''user_action'' [(''action'', JStr []), (''target'', JStr [])] SevInfo),
      (''Resource Updated'', event_template ''resource_updated'' [(''resource_id'', JStr []), (''changes'', JObj [])] SevInfo),
      (''Custom'', event_template [] [] SevInfo)]"

subsection \<open>State\<close>

datatype dialog_step = Edit | Preview

record event_create =
  ec_type :: string
  ec_data :: json
  ec_severity :: severity
  ec_source :: string
  ec_persist :: bool

record event_dialog =
  dialog_open :: bool
  dialog_step :: dialog_step
  event_type :: string
  data_text :: string
  severity :: severity
  source_text :: string
  persist :: bool
  data_error :: "string option"
  type_list_open :: bool
  blur_timers :: nat
  succeeded :: bool
  close_timer :: bool
  creating :: "event_create list"
  created :: "event_create list"
  create_error :: "string option"

definition initial_dialog :: event_dialog where
  "initial_dialog =
     \<lparr>dialog_open = False, dialog_step = Edit, event_type = [], data_text = ''{}'', severity = SevInfo,
      source_text = ''ui'', persist = False, data_error = None, type_list_open = False, blur_timers = 0,
      succeeded = False, close_timer = False, creating = [], created = [], create_error = None\<rparr>"

definition filteredTypes :: "string list \<Rightarrow> event_dialog \<Rightarrow> string list" where
  "filteredTypes types d =
     (if event_type d = [] then types
      else filter (\<lambda>t. sublist (to_lower (event_type d)) (to_lower t)) types)"

definition canSubmit :: "event_dialog \<Rightarrow> bool" where
  "canSubmit d \<longleftrightarrow>
     trim (event_type d) \<noteq> [] \<and> trim (source_text d) \<noteq> [] \<and> \<not> truthy_string (data_error d) \<and> creating d = []"

subsection \<open>Handlers\<close>

definition validateJson :: "(string \<Rightarrow> string + json) \<Rightarrow> string \<Rightarrow> event_dialog \<Rightarrow> event_dialog" where
  "validateJson parse v d = d\<lparr>data_error := (case parse v of Inl m \<Rightarrow> Some m | Inr x \<Rightarrow> None)\<rparr>"

definition handleTemplateSelect :: "(json \<Rightarrow> string) \<Rightarrow> string \<Rightarrow> event_dialog \<Rightarrow> event_dialog" where
  "handleTemplateSelect pretty name d =
     (case map_of EVENT_TEMPLATES name of
        None \<Rightarrow> d
      | Some t \<Rightarrow> d\<lparr>event_type := et_type t, data_text := pretty (et_data t), severity := et_severity t, data_error := None\<rparr>)"

definition resetForm :: "event_dialog \<Rightarrow> event_dialog" where
  "resetForm d =
     d\<lparr>dialog_step := Edit, event_type := [], data_text := ''{}'', severity := SevInfo, source_text := ''ui'',
       persist := False, data_error := None, succeeded := False\<rparr>"

text \<open>\<open>onSubmit\<close> of the page: \<open>createEvent\<close>, which clears the error and sets \<open>creating\<close>.\<close>

definition start_submit :: "event_create \<Rightarrow> event_dialog \<Rightarrow> event_dialog" where
  "start_submit e d = d\<lparr>creating := creating d @ [e], created := created d @ [e], create_error := None\<rparr>"

definition handleSubmit :: "(string \<Rightarrow> string + json) \<Rightarrow> event_dialog \<Rightarrow> event_dialog" where
  "handleSubmit parse d =
     (let d1 = validateJson parse (data_text d) d
      in case parse (data_text d) of
           Inl m \<Rightarrow> d1
         | Inr v \<Rightarrow>
             if trim (event_type d) = [] \<or> trim (source_text d) = [] then d1
             else start_submit
               \<lparr>ec_type = trim (event_type d), ec_data = v, ec_severity = severity d,
                ec_source = trim (source_text d), ec_persist = persist d\<rparr> d1)"

definition submit_answered :: "string option \<Rightarrow> event_dialog \<Rightarrow> event_dialog" where
  "submit_answered failure d =
     (case creating d of
        [] \<Rightarrow> d
      | e # es \<Rightarrow>
          (case failure of
             None \<Rightarrow> d\<lparr>creating := es, succeeded := True, close_timer := True\<rparr>
           | Some m \<Rightarrow> d\<lparr>creating := es, create_error := Some m\<rparr>))"

definition close_timer_fires :: "event_dialog \<Rightarrow> event_dialog" where
  "close_timer_fires d =
     (if close_timer d then (resetForm (d\<lparr>close_timer := False, succeeded := False\<rparr>))\<lparr>dialog_open := False\<rparr> else d)"

definition dismiss :: "event_dialog \<Rightarrow> event_dialog" where
  "dismiss d = (resetForm d)\<lparr>dialog_open := False\<rparr>"

definition type_typed :: "string \<Rightarrow> event_dialog \<Rightarrow> event_dialog" where
  "type_typed v d = d\<lparr>event_type := v, type_list_open := True\<rparr>"

definition type_blurred :: "event_dialog \<Rightarrow> event_dialog" where
  "type_blurred d = d\<lparr>blur_timers := Suc (blur_timers d)\<rparr>"

definition blur_timer_fires :: "event_dialog \<Rightarrow> event_dialog" where
  "blur_timer_fires d =
     (if blur_timers d = 0 then d else d\<lparr>blur_timers := blur_timers d - 1, type_list_open := False\<rparr>)"

definition type_chosen :: "string list \<Rightarrow> string \<Rightarrow> event_dialog \<Rightarrow> event_dialog" where
  "type_chosen types t d =
     (if type_list_open d \<and> t \<in> set (filteredTypes types d) then d\<lparr>event_type := t, type_list_open := False\<rparr> else d)"

definition data_typed :: "(string \<Rightarrow> string + json) \<Rightarrow> string \<Rightarrow> event_dialog \<Rightarrow> event_dialog" where
  "data_typed parse v d = validateJson parse v (d\<lparr>data_text := v\<rparr>)"

text \<open>The controls of the two steps: those of a step are there while the dialog is open in that step and does
  not show a success.\<close>

datatype edit_control =
    TypeTyped string
  | TypeFocused
  | TypeBlurred
  | TypeChosen string
  | SeverityChosen severity
  | SourceTyped string
  | DataTyped string
  | PersistToggled
  | TemplateClicked string
  | CancelClicked
  | PreviewClicked

fun edit_step ::
  "(string \<Rightarrow> string + json) \<Rightarrow> (json \<Rightarrow> string) \<Rightarrow> string list \<Rightarrow> edit_control \<Rightarrow> event_dialog \<Rightarrow> event_dialog" where
  "edit_step parse pretty types (TypeTyped v) d = type_typed v d"
| "edit_step parse pretty types TypeFocused d = d\<lparr>type_list_open := True\<rparr>"
| "edit_step parse pretty types TypeBlurred d = type_blurred d"
| "edit_step parse pretty types (TypeChosen t) d = type_chosen types t d"
| "edit_step parse pretty types (SeverityChosen s) d = d\<lparr>severity := s\<rparr>"
| "edit_step parse pretty types (SourceTyped v) d = d\<lparr>source_text := v\<rparr>"
| "edit_step parse pretty types (DataTyped v) d = data_typed parse v d"
| "edit_step parse pretty types PersistToggled d = d\<lparr>persist := \<not> persist d\<rparr>"
| "edit_step parse pretty types (TemplateClicked name) d = handleTemplateSelect pretty name d"
| "edit_step parse pretty types CancelClicked d = d\<lparr>dialog_open := False\<rparr>"
| "edit_step parse pretty types PreviewClicked d = (if canSubmit d then d\<lparr>dialog_step := Preview\<rparr> else d)"

datatype dialog_input =
    OpenClicked
  | Dismissed
  | EditEvent edit_control
  | BackClicked
  | SubmitClicked
  | SubmitAnswered "string option"
  | CloseTimer
  | BlurTimer

fun dialog_event ::
  "(string \<Rightarrow> string + json) \<Rightarrow> (json \<Rightarrow> string) \<Rightarrow> string list \<Rightarrow> dialog_input \<Rightarrow> event_dialog \<Rightarrow> event_dialog" where
  "dialog_event parse pretty types OpenClicked d = d\<lparr>dialog_open := True\<rparr>"
| "dialog_event parse pretty types Dismissed d = (if dialog_open d then dismiss d else d)"
| "dialog_event parse pretty types (EditEvent c) d =
     (if dialog_open d \<and> dialog_step d = Edit \<and> \<not> succeeded d then edit_step parse pretty types c d else d)"
| "dialog_event parse pretty types BackClicked d =
     (if dialog_open d \<and> dialog_step d = Preview \<and> \<not> succeeded d \<and> creating d = [] then d\<lparr>dialog_step := Edit\<rparr> else d)"
| "dialog_event parse pretty types SubmitClicked d =
     (if dialog_open d \<and> dialog_step d = Preview \<and> \<not> succeeded d \<and> creating d = [] then handleSubmit parse d else d)"
| "dialog_event parse pretty types (SubmitAnswered failure) d = submit_answered failure d"
| "dialog_event parse pretty types CloseTimer d = close_timer_fires d"
| "dialog_event parse pretty types BlurTimer d = blur_timer_fires d"

definition run_dialog ::
  "(string \<Rightarrow> string + json) \<Rightarrow> (json \<Rightarrow> string) \<Rightarrow> string list \<Rightarrow> dialog_input list \<Rightarrow> event_dialog" where
  "run_dialog parse pretty types es = fold (dialog_event parse pretty types) es initial_dialog"

subsection \<open>What is sent is what was previewed\<close>

text \<open>What the dialog relies on: \<open>{}\<close> and the texts of the templates parse, and an error has a message.\<close>

definition json_host :: "(string \<Rightarrow> string + json) \<Rightarrow> (json \<Rightarrow> string) \<Rightarrow> bool" where
  "json_host parse pretty \<longleftrightarrow>
     (\<exists>v. parse ''{}'' = Inr v) \<and> (\<forall>(n, t)\<in>set EVENT_TEMPLATES. \<exists>v. parse (pretty (et_data t)) = Inr v) \<and>
     (\<forall>s. parse s \<noteq> Inl [])"

definition complete :: "(string \<Rightarrow> string + json) \<Rightarrow> event_dialog \<Rightarrow> bool" where
  "complete parse d \<longleftrightarrow>
     trim (event_type d) \<noteq> [] \<and> trim (source_text d) \<noteq> [] \<and> (\<exists>v. parse (data_text d) = Inr v)"

definition dialog_inv :: "(string \<Rightarrow> string + json) \<Rightarrow> event_dialog \<Rightarrow> bool" where
  "dialog_inv parse d \<longleftrightarrow>
     (\<not> truthy_string (data_error d) \<longrightarrow> (\<exists>v. parse (data_text d) = Inr v)) \<and>
     (dialog_step d = Preview \<longrightarrow> complete parse d) \<and> length (creating d) \<le> 1"

lemma reset_inv: "json_host parse pretty \<Longrightarrow> length (creating d) \<le> 1 \<Longrightarrow> dialog_inv parse (resetForm d)"
  by (simp add: dialog_inv_def resetForm_def json_host_def truthy_string_def)

lemma form_unchanged_inv:
  assumes "dialog_inv parse d" and "data_error d' = data_error d" and "data_text d' = data_text d"
    and "dialog_step d' = dialog_step d" and "event_type d' = event_type d" and "source_text d' = source_text d"
    and "length (creating d') \<le> 1"
  shows "dialog_inv parse d'"
  using assms by (simp add: dialog_inv_def complete_def)

lemma validated_error: "json_host parse pretty \<Longrightarrow>
    (\<not> truthy_string (case parse v of Inl m \<Rightarrow> Some m | Inr x \<Rightarrow> None)) = (\<exists>x. parse v = Inr x)"
  by (auto simp: json_host_def truthy_string_def split: sum.split)

lemma edit_inv:
  assumes h: "json_host parse pretty" and i: "dialog_inv parse d" and s: "dialog_step d = Edit"
  shows "dialog_inv parse (edit_step parse pretty types c d)"
proof (cases c)
  case (DataTyped v)
  show ?thesis using i s
    by (simp add: DataTyped data_typed_def validateJson_def dialog_inv_def validated_error [OF h])
next
  case (TemplateClicked name)
  show ?thesis
  proof (cases "map_of EVENT_TEMPLATES name")
    case (Some t)
    then have "(name, t) \<in> set EVENT_TEMPLATES" by (rule map_of_SomeD)
    then have "\<exists>v. parse (pretty (et_data t)) = Inr v" using h by (auto simp: json_host_def)
    then show ?thesis using i s Some by (simp add: TemplateClicked handleTemplateSelect_def dialog_inv_def)
  qed (use i in \<open>simp add: TemplateClicked handleTemplateSelect_def\<close>)
next
  case PreviewClicked
  show ?thesis using i by (simp add: PreviewClicked dialog_inv_def canSubmit_def complete_def)
qed (use i s in \<open>auto simp: dialog_inv_def type_typed_def type_blurred_def type_chosen_def\<close>)

lemma submit_inv:
  assumes "json_host parse pretty" and i: "dialog_inv parse d" and c: "creating d = []"
  shows "dialog_inv parse (handleSubmit parse d)"
proof -
  have "parse v \<noteq> Inl []" for v using assms(1) by (simp add: json_host_def)
  then show ?thesis
    using i c by (auto simp: handleSubmit_def validateJson_def start_submit_def dialog_inv_def complete_def Let_def
        truthy_string_def split: sum.split)
qed

lemma dialog_event_inv:
  assumes h: "json_host parse pretty" and i: "dialog_inv parse d"
  shows "dialog_inv parse (dialog_event parse pretty types e d)"
proof (cases e)
  case (SubmitAnswered failure)
  have "length (creating (submit_answered failure d)) \<le> 1"
    using i by (auto simp: submit_answered_def dialog_inv_def split: list.split option.split)
  then show ?thesis unfolding SubmitAnswered dialog_event.simps
    by (intro form_unchanged_inv [OF i]) (simp_all add: submit_answered_def split: list.split option.split)
next
  case Dismissed
  have "length (creating d) \<le> 1" using i by (simp add: dialog_inv_def)
  then have "dialog_inv parse (dismiss d)"
    unfolding dismiss_def using form_unchanged_inv [OF reset_inv [OF h], of d "(resetForm d)\<lparr>dialog_open := False\<rparr>"]
    by (simp add: resetForm_def)
  then show ?thesis using i by (simp add: Dismissed)
next
  case CloseTimer
  let ?d = "d\<lparr>close_timer := False, succeeded := False\<rparr>"
  have "length (creating d) \<le> 1" using i by (simp add: dialog_inv_def)
  then have "dialog_inv parse ((resetForm ?d)\<lparr>dialog_open := False\<rparr>)"
    using form_unchanged_inv [OF reset_inv [OF h], of ?d "(resetForm ?d)\<lparr>dialog_open := False\<rparr>"] by (simp add: resetForm_def)
  then show ?thesis using i by (simp add: CloseTimer close_timer_fires_def)
qed (use i edit_inv [OF h i] submit_inv [OF h i] in
    \<open>auto simp: blur_timer_fires_def dialog_inv_def complete_def\<close>)

text \<open>An event is sent as it was previewed: whatever happened before, the button of the preview sends one event,
  with the type and the source without surrounding blanks, neither of them empty, and the data that the text parses to;
  and there is never more than one request for an event in flight.\<close>

theorem preview_is_sent:
  assumes "json_host parse pretty"
  shows "let d = run_dialog parse pretty types es; d' = dialog_event parse pretty types SubmitClicked d
    in length (creating d) \<le> 1 \<and>
      (dialog_open d \<and> dialog_step d = Preview \<and> \<not> succeeded d \<and> creating d = [] \<longrightarrow>
        (\<exists>v. parse (data_text d) = Inr v \<and> trim (event_type d) \<noteq> [] \<and> trim (source_text d) \<noteq> [] \<and>
          created d' = created d @
            [\<lparr>ec_type = trim (event_type d), ec_data = v, ec_severity = severity d,
              ec_source = trim (source_text d), ec_persist = persist d\<rparr>]))"
proof -
  have "dialog_inv parse (fold (dialog_event parse pretty types) es d)" if "dialog_inv parse d" for d
    using that by (induction es arbitrary: d) (simp_all add: dialog_event_inv [OF assms])
  moreover have "dialog_inv parse initial_dialog"
    using assms by (simp add: dialog_inv_def initial_dialog_def json_host_def)
  ultimately have "dialog_inv parse (run_dialog parse pretty types es)" by (simp add: run_dialog_def)
  then show ?thesis
    by (auto simp: Let_def dialog_inv_def complete_def handleSubmit_def validateJson_def start_submit_def)
qed

text \<open>A host that knows two texts.\<close>

definition small_parse :: "string \<Rightarrow> string + json" where
  "small_parse s = (if s = ''{}'' then Inr (JObj []) else if s = ''[]'' then Inr (JArr []) else Inl ''Unexpected token'')"

definition small_pretty :: "json \<Rightarrow> string" where
  "small_pretty v = ''{}''"

lemma small_host: "json_host small_parse small_pretty"
  by (auto simp: json_host_def small_parse_def small_pretty_def)

definition composed :: "dialog_input list" where
  "composed = [OpenClicked, EditEvent (TypeTyped '' ping ''), EditEvent (DataTyped ''[]''), EditEvent PreviewClicked]"

lemma preview_is_sent_witness:
  "created (run_dialog small_parse small_pretty [] (composed @ [SubmitClicked])) =
     [\<lparr>ec_type = ''ping'', ec_data = JArr [], ec_severity = SevInfo, ec_source = ''ui'', ec_persist = False\<rparr>]"
proof -
  let ?d = "run_dialog small_parse small_pretty [] composed"
  have d: "dialog_open ?d" "dialog_step ?d = Preview" "\<not> succeeded ?d" "creating ?d = []" "created ?d = []"
      "small_parse (data_text ?d) = Inr (JArr [])" "trim (event_type ?d) = ''ping''" "trim (source_text ?d) = ''ui''"
      "severity ?d = SevInfo" "\<not> persist ?d"
    by code_simp+
  have "run_dialog small_parse small_pretty [] (composed @ [SubmitClicked]) =
      dialog_event small_parse small_pretty [] SubmitClicked ?d" by (simp add: run_dialog_def)
  then show ?thesis using preview_is_sent [OF small_host, of "[]" composed] d by (simp add: Let_def)
qed

subsection \<open>Where the dialog does what it does not mean to\<close>

definition sent_and_reopened :: "dialog_input list" where
  "sent_and_reopened =
     composed @ [SubmitClicked, SubmitAnswered None, Dismissed, OpenClicked, EditEvent (TypeTyped ''next'')]"

text \<open>The timer of a success is not stopped when the dialog is closed: it closes and empties the form that has been
  opened since.\<close>

lemma success_timer_closes_next_form:
  "let d = run_dialog small_parse small_pretty [] sent_and_reopened;
       d' = dialog_event small_parse small_pretty [] CloseTimer d
   in dialog_open d \<and> event_type d = ''next'' \<and> \<not> dialog_open d' \<and> event_type d' = []"
  by code_simp

text \<open>Cancel closes the dialog without the reset that every other way of closing it does.\<close>

lemma cancel_keeps_the_form:
  "let d = run_dialog small_parse small_pretty [] [OpenClicked, EditEvent (TypeTyped ''a''), EditEvent CancelClicked, OpenClicked];
       d' = run_dialog small_parse small_pretty [] [OpenClicked, EditEvent (TypeTyped ''a''), Dismissed, OpenClicked]
   in event_type d = ''a'' \<and> event_type d' = []"
  by code_simp

text \<open>The answer to an event whose dialog was closed shows a success, and hides the form, of one that was opened
  since.\<close>

lemma late_success_hides_next_form:
  "let d = run_dialog small_parse small_pretty []
         (composed @ [SubmitClicked, Dismissed, OpenClicked, EditEvent (TypeTyped ''next''), SubmitAnswered None])
   in dialog_open d \<and> event_type d = ''next'' \<and> succeeded d"
  by code_simp

end
