(* ===== verification/Chat_Sidebar.thy ===== *)
theory Chat_Sidebar
  imports Filenames "HOL-Library.Multiset"
begin

section \<open>The sidebar of the chats\<close>

text \<open>
  \<^verbatim>\<open>components/chat-sidebar.tsx\<close>: the list of the chats in three groups, and renaming, deleting, pinning and
  archiving a chat.  The chats, the current path and the requests of \<open>useChats\<close> belong to the hook and the router:
  here a request is a call in flight that is answered in any order, with the message of its error if it failed.  A
  callback keeps the path that was current when it was clicked.
\<close>

subsection \<open>The groups\<close>

record chat_entry =
  chat_id :: string
  chat_title :: string
  is_pinned :: bool
  is_archived :: bool

definition pinnedChats :: "chat_entry list \<Rightarrow> chat_entry list" where
  "pinnedChats chats = filter (\<lambda>c. is_pinned c \<and> \<not> is_archived c) chats"

definition regularChats :: "chat_entry list \<Rightarrow> chat_entry list" where
  "regularChats chats = filter (\<lambda>c. \<not> is_pinned c \<and> \<not> is_archived c) chats"

definition archivedChats :: "chat_entry list \<Rightarrow> chat_entry list" where
  "archivedChats chats = filter is_archived chats"

datatype chat_row = Heading string | Chat chat_entry

definition chat_group :: "bool \<Rightarrow> string \<Rightarrow> chat_entry list \<Rightarrow> chat_row list" where
  "chat_group headed title cs = (if cs = [] then [] else (if headed then [Heading title] else []) @ map Chat cs)"

definition chat_rows :: "chat_entry list \<Rightarrow> chat_row list" where
  "chat_rows chats =
     chat_group True ''pinned'' (pinnedChats chats) @
     chat_group (pinnedChats chats \<noteq> []) ''recent'' (regularChats chats) @
     chat_group True ''archived'' (archivedChats chats)"

definition chat_path :: "string \<Rightarrow> string" where
  "chat_path i = ''/chat/'' @ i"

definition row_active :: "string \<Rightarrow> chat_entry \<Rightarrow> bool" where
  "row_active pathname c \<longleftrightarrow> pathname = chat_path (chat_id c)"

subsection \<open>State\<close>

datatype chat_call =
    Rename string string
  | Remove string string
  | SetPinned string bool
  | SetArchived string bool

record chat_sidebar =
  project :: "string option"
  pathname :: string
  is_mobile :: bool
  mobile_open :: bool
  operation_error :: "string option"
  rename_target :: "(string \<times> string) option"
  rename_value :: string
  delete_target :: "(string \<times> string) option"
  pending :: "chat_call list"
  calls :: "chat_call list"
  pushed :: "string list"

definition initial_sidebar :: "string option \<Rightarrow> bool \<Rightarrow> string \<Rightarrow> chat_sidebar" where
  "initial_sidebar proj mobile path =
     \<lparr>project = proj, pathname = path, is_mobile = mobile, mobile_open = False, operation_error = None,
      rename_target = None, rename_value = [], delete_target = None, pending = [], calls = [], pushed = []\<rparr>"

subsection \<open>Handlers\<close>

definition onMobileClose :: "chat_sidebar \<Rightarrow> chat_sidebar" where
  "onMobileClose s = s\<lparr>mobile_open := False\<rparr>"

definition handleChatSelect :: "chat_sidebar \<Rightarrow> chat_sidebar" where
  "handleChatSelect s = (if is_mobile s then onMobileClose s else s)"

definition push :: "string \<Rightarrow> chat_sidebar \<Rightarrow> chat_sidebar" where
  "push path s = s\<lparr>pushed := pushed s @ [path], pathname := path\<rparr>"

definition handleNewChat :: "chat_sidebar \<Rightarrow> chat_sidebar" where
  "handleNewChat s =
     (let s1 = s\<lparr>operation_error := None\<rparr>
      in if \<not> truthy_string (project s1)
         then s1\<lparr>operation_error := Some ''No project selected. Please select a project first.''\<rparr>
         else (let s2 = push ''/chat/new'' s1 in if is_mobile s2 then onMobileClose s2 else s2))"

definition start_call :: "chat_call \<Rightarrow> chat_sidebar \<Rightarrow> chat_sidebar" where
  "start_call c s = s\<lparr>operation_error := None, pending := pending s @ [c], calls := calls s @ [c]\<rparr>"

definition handleOpenRename :: "string \<Rightarrow> string \<Rightarrow> chat_sidebar \<Rightarrow> chat_sidebar" where
  "handleOpenRename i title s = s\<lparr>rename_target := Some (i, title), rename_value := title\<rparr>"

definition handleOpenDelete :: "string \<Rightarrow> string \<Rightarrow> chat_sidebar \<Rightarrow> chat_sidebar" where
  "handleOpenDelete i title s = s\<lparr>delete_target := Some (i, title)\<rparr>"

definition handleRename :: "chat_sidebar \<Rightarrow> chat_sidebar" where
  "handleRename s =
     (case rename_target s of
        None \<Rightarrow> s
      | Some (i, title) \<Rightarrow>
          if trim (rename_value s) = [] then s else start_call (Rename i (trim (rename_value s))) s)"

definition handleDelete :: "chat_sidebar \<Rightarrow> chat_sidebar" where
  "handleDelete s =
     (case delete_target s of None \<Rightarrow> s | Some (i, title) \<Rightarrow> start_call (Remove i (pathname s)) s)"

definition handleTogglePin :: "string \<Rightarrow> bool \<Rightarrow> chat_sidebar \<Rightarrow> chat_sidebar" where
  "handleTogglePin i pinned s = start_call (SetPinned i (\<not> pinned)) s"

definition handleToggleArchive :: "string \<Rightarrow> bool \<Rightarrow> chat_sidebar \<Rightarrow> chat_sidebar" where
  "handleToggleArchive i archived s = start_call (SetArchived i (\<not> archived)) s"

fun failure_text :: "chat_call \<Rightarrow> string" where
  "failure_text (Rename i t) = ''Failed to rename chat: ''"
| "failure_text (Remove i p) = ''Failed to delete chat: ''"
| "failure_text (SetPinned i b) = ''Failed to update pin state: ''"
| "failure_text (SetArchived i b) = ''Failed to update archive state: ''"

fun call_succeeded :: "chat_call \<Rightarrow> chat_sidebar \<Rightarrow> chat_sidebar" where
  "call_succeeded (Rename i t) s = s\<lparr>rename_target := None\<rparr>"
| "call_succeeded (Remove i path) s =
     (let s1 = s\<lparr>delete_target := None\<rparr> in if path = chat_path i then push ''/chat'' s1 else s1)"
| "call_succeeded (SetPinned i b) s = s"
| "call_succeeded (SetArchived i b) s = s"

definition call_answered :: "nat \<Rightarrow> string option \<Rightarrow> chat_sidebar \<Rightarrow> chat_sidebar" where
  "call_answered k failure s =
     (if k < length (pending s)
      then (let c = pending s ! k; s1 = s\<lparr>pending := take k (pending s) @ drop (Suc k) (pending s)\<rparr>
            in case failure of
                 None \<Rightarrow> call_succeeded c s1
               | Some m \<Rightarrow> s1\<lparr>operation_error := Some (failure_text c @ m)\<rparr>)
      else s)"

text \<open>Enter in the field renames also when the button is disabled.\<close>

datatype sidebar_input =
    NewChatClicked
  | ChatClicked string
  | RenameClicked chat_entry
  | RenameTyped string
  | RenameSaved
  | RenameCancelled
  | DeleteClicked chat_entry
  | DeleteConfirmed
  | DeleteCancelled
  | PinClicked chat_entry
  | ArchiveClicked chat_entry
  | Answer nat "string option"
  | SwipedLeft
  | Navigated string

fun sidebar_step :: "sidebar_input \<Rightarrow> chat_sidebar \<Rightarrow> chat_sidebar" where
  "sidebar_step NewChatClicked s = handleNewChat s"
| "sidebar_step (ChatClicked i) s = (handleChatSelect s)\<lparr>pathname := chat_path i\<rparr>"
| "sidebar_step (RenameClicked c) s = handleOpenRename (chat_id c) (chat_title c) s"
| "sidebar_step (RenameTyped v) s = (if rename_target s = None then s else s\<lparr>rename_value := v\<rparr>)"
| "sidebar_step RenameSaved s = handleRename s"
| "sidebar_step RenameCancelled s = s\<lparr>rename_target := None\<rparr>"
| "sidebar_step (DeleteClicked c) s = handleOpenDelete (chat_id c) (chat_title c) s"
| "sidebar_step DeleteConfirmed s = handleDelete s"
| "sidebar_step DeleteCancelled s = s\<lparr>delete_target := None\<rparr>"
| "sidebar_step (PinClicked c) s = handleTogglePin (chat_id c) (is_pinned c) s"
| "sidebar_step (ArchiveClicked c) s = handleToggleArchive (chat_id c) (is_archived c) s"
| "sidebar_step (Answer k failure) s = call_answered k failure s"
| "sidebar_step SwipedLeft s = onMobileClose s"
| "sidebar_step (Navigated path) s = s\<lparr>pathname := path\<rparr>"

subsection \<open>Every chat is listed once\<close>

fun row_chats :: "chat_row list \<Rightarrow> chat_entry list" where
  "row_chats [] = []"
| "row_chats (Heading h # rs) = row_chats rs"
| "row_chats (Chat c # rs) = c # row_chats rs"

lemma row_chats_append [simp]: "row_chats (xs @ ys) = row_chats xs @ row_chats ys"
  by (induction xs rule: row_chats.induct) simp_all

lemma row_chats_group [simp]: "row_chats (chat_group headed title cs) = cs"
proof -
  have "row_chats (map Chat cs) = cs" by (induction cs) simp_all
  then show ?thesis by (simp add: chat_group_def)
qed

lemma chats_listed_once: "mset (row_chats (chat_rows chats)) = mset chats"
proof -
  have "mset (pinnedChats chats) + (mset (regularChats chats) + mset (archivedChats chats)) = mset chats"
    by (induction chats) (auto simp: pinnedChats_def regularChats_def archivedChats_def)
  then show ?thesis by (simp add: chat_rows_def)
qed

subsection \<open>What is asked of the server\<close>

text \<open>A call that the inputs so far account for: a rename is of the chat whose dialog was opened and to a text that is
  not blank, a deletion was asked for and confirmed, a pin or an archive is the other state of the chat that was
  clicked.\<close>

definition asked_for :: "sidebar_input list \<Rightarrow> chat_call \<Rightarrow> bool" where
  "asked_for es c =
     (case c of
        Rename i t \<Rightarrow> t \<noteq> [] \<and> trim t = t \<and> RenameSaved \<in> set es \<and> (\<exists>x. RenameClicked x \<in> set es \<and> chat_id x = i) \<and>
          ((\<exists>v. RenameTyped v \<in> set es \<and> trim v = t) \<or> (\<exists>x. RenameClicked x \<in> set es \<and> trim (chat_title x) = t))
      | Remove i path \<Rightarrow> DeleteConfirmed \<in> set es \<and> (\<exists>x. DeleteClicked x \<in> set es \<and> chat_id x = i)
      | SetPinned i b \<Rightarrow> (\<exists>x. PinClicked x \<in> set es \<and> chat_id x = i \<and> is_pinned x = (\<not> b))
      | SetArchived i b \<Rightarrow> (\<exists>x. ArchiveClicked x \<in> set es \<and> chat_id x = i \<and> is_archived x = (\<not> b)))"

definition rename_known :: "sidebar_input list \<Rightarrow> chat_sidebar \<Rightarrow> bool" where
  "rename_known es s \<longleftrightarrow>
     (\<forall>i t. rename_target s = Some (i, t) \<longrightarrow>
        (\<exists>x. RenameClicked x \<in> set es \<and> chat_id x = i) \<and>
        (RenameTyped (rename_value s) \<in> set es \<or> (\<exists>x. RenameClicked x \<in> set es \<and> chat_title x = rename_value s)))"

definition delete_known :: "sidebar_input list \<Rightarrow> chat_sidebar \<Rightarrow> bool" where
  "delete_known es s \<longleftrightarrow>
     (\<forall>i t. delete_target s = Some (i, t) \<longrightarrow> (\<exists>x. DeleteClicked x \<in> set es \<and> chat_id x = i))"

definition targets_known :: "sidebar_input list \<Rightarrow> chat_sidebar \<Rightarrow> bool" where
  "targets_known es s \<longleftrightarrow> rename_known es s \<and> delete_known es s \<and> (\<forall>c\<in>set (calls s). asked_for es c)"

lemma asked_for_mono: "asked_for es c \<Longrightarrow> set es \<subseteq> set es' \<Longrightarrow> asked_for es' c"
  unfolding asked_for_def by (cases c) (simp_all, blast+)

lemma rename_known_mono:
  "rename_known es s \<Longrightarrow> rename_target s' = rename_target s \<and> rename_value s' = rename_value s \<or> rename_target s' = None \<Longrightarrow>
     rename_known (es @ [e]) s'"
  by (auto simp: rename_known_def)

lemma delete_known_mono:
  "delete_known es s \<Longrightarrow> delete_target s' = delete_target s \<or> delete_target s' = None \<Longrightarrow> delete_known (es @ [e]) s'"
  by (auto simp: delete_known_def)

lemma calls_mono:
  assumes "\<forall>c\<in>set (calls s). asked_for es c"
    and "\<And>c. c \<in> set (calls s') \<Longrightarrow> c \<in> set (calls s) \<or> asked_for (es @ [e]) c"
  shows "\<forall>c\<in>set (calls s'). asked_for (es @ [e]) c"
  using assms asked_for_mono [of es _ "es @ [e]"] by fastforce

lemma calls_same:
  "\<forall>c\<in>set (calls s). asked_for es c \<Longrightarrow> calls s' = calls s \<Longrightarrow> \<forall>c\<in>set (calls s'). asked_for (es @ [e]) c"
  by (rule calls_mono [of s]) simp_all

lemma targets_mono:
  assumes "targets_known es s"
    and "rename_target s' = rename_target s \<and> rename_value s' = rename_value s \<or> rename_target s' = None"
    and "delete_target s' = delete_target s \<or> delete_target s' = None"
    and "\<And>c. c \<in> set (calls s') \<Longrightarrow> c \<in> set (calls s) \<or> asked_for (es @ [e]) c"
  shows "targets_known (es @ [e]) s'"
  using assms rename_known_mono [OF _ assms(2)] delete_known_mono [OF _ assms(3)] calls_mono [OF _ assms(4)]
  by (simp add: targets_known_def)

lemma answered_targets:
  "rename_target (call_answered k f s) = rename_target s \<and> rename_value (call_answered k f s) = rename_value s \<or>
     rename_target (call_answered k f s) = None"
  "delete_target (call_answered k f s) = delete_target s \<or> delete_target (call_answered k f s) = None"
  "calls (call_answered k f s) = calls s"
  by (cases "pending s ! k"; simp add: call_answered_def push_def Let_def split: option.split)+

lemma new_chat_fields:
  "rename_target (handleNewChat s) = rename_target s" "rename_value (handleNewChat s) = rename_value s"
  "delete_target (handleNewChat s) = delete_target s" "calls (handleNewChat s) = calls s"
  by (simp_all add: handleNewChat_def push_def onMobileClose_def Let_def)

lemma step_targets:
  assumes s: "targets_known es s"
  shows "targets_known (es @ [e]) (sidebar_step e s)"
proof (cases e)
  case (RenameClicked x)
  have "rename_known (es @ [e]) (handleOpenRename (chat_id x) (chat_title x) s)"
    by (auto simp: RenameClicked rename_known_def handleOpenRename_def)
  moreover have "delete_known (es @ [e]) (handleOpenRename (chat_id x) (chat_title x) s)"
    by (rule delete_known_mono [of es s]) (use s in \<open>auto simp: targets_known_def handleOpenRename_def\<close>)
  moreover have "\<forall>c\<in>set (calls (handleOpenRename (chat_id x) (chat_title x) s)). asked_for (es @ [e]) c"
    by (rule calls_same [of s es]) (use s in \<open>auto simp: targets_known_def handleOpenRename_def\<close>)
  ultimately show ?thesis by (simp add: RenameClicked targets_known_def)
next
  case (RenameTyped v)
  let ?s = "if rename_target s = None then s else s\<lparr>rename_value := v\<rparr>"
  have "rename_known (es @ [e]) ?s" using s by (auto simp: RenameTyped rename_known_def targets_known_def)
  moreover have "delete_known (es @ [e]) ?s"
    by (rule delete_known_mono [of es s]) (use s in \<open>auto simp: targets_known_def\<close>)
  moreover have "\<forall>c\<in>set (calls ?s). asked_for (es @ [e]) c"
    by (rule calls_same [of s es]) (use s in \<open>auto simp: targets_known_def\<close>)
  ultimately show ?thesis by (simp add: RenameTyped targets_known_def)
next
  case (DeleteClicked x)
  let ?s = "handleOpenDelete (chat_id x) (chat_title x) s"
  have "delete_known (es @ [e]) ?s" by (auto simp: DeleteClicked delete_known_def handleOpenDelete_def)
  moreover have "rename_known (es @ [e]) ?s"
    by (rule rename_known_mono [of es s]) (use s in \<open>auto simp: targets_known_def handleOpenDelete_def\<close>)
  moreover have "\<forall>c\<in>set (calls ?s). asked_for (es @ [e]) c"
    by (rule calls_same [of s es]) (use s in \<open>auto simp: targets_known_def handleOpenDelete_def\<close>)
  ultimately show ?thesis by (simp add: DeleteClicked targets_known_def)
next
  case RenameSaved
  have "asked_for (es @ [e]) (Rename i (trim (rename_value s)))"
    if "rename_target s = Some (i, t)" "trim (rename_value s) \<noteq> []" for i t
  proof -
    have "(\<exists>x. RenameClicked x \<in> set es \<and> chat_id x = i) \<and>
        (RenameTyped (rename_value s) \<in> set es \<or> (\<exists>x. RenameClicked x \<in> set es \<and> chat_title x = rename_value s))"
      using s that(1) by (simp add: targets_known_def rename_known_def)
    then show ?thesis using that(2) by (simp add: asked_for_def trim_idem RenameSaved) metis
  qed
  then have "c \<in> set (calls s) \<or> asked_for (es @ [e]) c" if "c \<in> set (calls (handleRename s))" for c
    using that by (auto simp: handleRename_def start_call_def split: option.splits if_splits)
  then show ?thesis unfolding RenameSaved sidebar_step.simps
    by (intro targets_mono [OF s]) (auto simp: handleRename_def start_call_def split: option.split)
next
  case DeleteConfirmed
  have "asked_for (es @ [e]) (Remove i (pathname s))" if "delete_target s = Some (i, t)" for i t
    using s that by (simp add: asked_for_def targets_known_def delete_known_def DeleteConfirmed)
  then have "c \<in> set (calls s) \<or> asked_for (es @ [e]) c" if "c \<in> set (calls (handleDelete s))" for c
    using that by (auto simp: handleDelete_def start_call_def split: option.splits)
  then show ?thesis unfolding DeleteConfirmed sidebar_step.simps
    by (intro targets_mono [OF s]) (auto simp: handleDelete_def start_call_def split: option.split)
next
  case (Answer k f)
  show ?thesis unfolding Answer sidebar_step.simps
    by (rule targets_mono [OF s]) (use answered_targets [of k f s] in auto)
next
  case NewChatClicked
  show ?thesis unfolding NewChatClicked sidebar_step.simps by (rule targets_mono [OF s]) (simp_all add: new_chat_fields)
next
  case (PinClicked x)
  have "asked_for (es @ [e]) (SetPinned (chat_id x) (\<not> is_pinned x))" by (auto simp: asked_for_def PinClicked)
  then show ?thesis unfolding PinClicked sidebar_step.simps
    by (intro targets_mono [OF s]) (auto simp: handleTogglePin_def start_call_def)
next
  case (ArchiveClicked x)
  have "asked_for (es @ [e]) (SetArchived (chat_id x) (\<not> is_archived x))" by (auto simp: asked_for_def ArchiveClicked)
  then show ?thesis unfolding ArchiveClicked sidebar_step.simps
    by (intro targets_mono [OF s]) (auto simp: handleToggleArchive_def start_call_def)
next
  case (ChatClicked i)
  show ?thesis unfolding ChatClicked sidebar_step.simps
    by (rule targets_mono [OF s]) (auto simp: handleChatSelect_def onMobileClose_def split: if_splits)
qed (rule targets_mono [OF s]; simp add: onMobileClose_def)+

text \<open>The sidebar asks the server only for what was asked of it: after any run a deletion is of a chat whose
  deletion was opened and confirmed, a renaming is of a chat whose dialog was opened and to the text that was typed or
  that it had, without surrounding blanks and not empty, and a pin or an archive turns the state that was clicked.\<close>

theorem sidebar_calls_asked_for:
  "\<forall>c\<in>set (calls (fold sidebar_step es (initial_sidebar proj mobile path))). asked_for es c"
proof -
  have "targets_known es (fold sidebar_step es (initial_sidebar proj mobile path))"
  proof (induction es rule: rev_induct)
    case (snoc e es)
    then show ?case using step_targets by simp
  qed (simp add: targets_known_def rename_known_def delete_known_def initial_sidebar_def)
  then show ?thesis by (simp add: targets_known_def)
qed

lemma sidebar_calls_asked_for_witness:
  "\<forall>c\<in>set (calls (fold sidebar_step [DeleteClicked \<lparr>chat_id = ''a'', chat_title = [], is_pinned = False, is_archived = False\<rparr>,
      DeleteConfirmed] (initial_sidebar None False ''/chat''))).
     asked_for [DeleteClicked \<lparr>chat_id = ''a'', chat_title = [], is_pinned = False, is_archived = False\<rparr>, DeleteConfirmed] c"
  by (rule sidebar_calls_asked_for)

subsection \<open>Where the sidebar does what it does not mean to\<close>

definition plain_chat :: "string \<Rightarrow> chat_entry" where
  "plain_chat i = \<lparr>chat_id = i, chat_title = i, is_pinned = False, is_archived = False\<rparr>"

text \<open>A deletion remembers the path of its click: its answer leads away from the chat that has been opened since, and
  does not lead away from the deleted chat if that was opened since.\<close>

lemma deletion_leaves_other_chat:
  "let s = fold sidebar_step [DeleteClicked (plain_chat ''a''), DeleteConfirmed, ChatClicked ''b'', Answer 0 None]
         (initial_sidebar (Some ''p'') False ''/chat/a'');
       s' = fold sidebar_step [DeleteClicked (plain_chat ''a''), DeleteConfirmed, ChatClicked ''a'', Answer 0 None]
         (initial_sidebar (Some ''p'') False ''/chat/b'')
   in pathname s = ''/chat'' \<and> pathname s' = ''/chat/a''"
  by code_simp

text \<open>The button of the deletion is never disabled: a second click sends the deletion again, and when that fails,
  as the chat is gone, a failure is shown for a deletion that succeeded.\<close>

lemma second_click_shows_failure:
  "let s = fold sidebar_step [DeleteClicked (plain_chat ''a''), DeleteConfirmed, DeleteConfirmed, Answer 0 None,
         Answer 0 (Some ''not found'')] (initial_sidebar (Some ''p'') False ''/chat'')
   in calls s = [Remove ''a'' ''/chat'', Remove ''a'' ''/chat''] \<and>
     operation_error s = Some ''Failed to delete chat: not found''"
  by code_simp

text \<open>The answer to a renaming whose dialog was closed closes the dialog of another chat, with what was typed.\<close>

lemma late_rename_closes_other:
  "let s = fold sidebar_step [RenameClicked (plain_chat ''a''), RenameSaved, RenameCancelled, RenameClicked (plain_chat ''b'')]
         (initial_sidebar (Some ''p'') False ''/chat'')
   in rename_target s = Some (''b'', ''b'') \<and> rename_target (sidebar_step (Answer 0 None) s) = None"
  by code_simp

end
