(* ===== verification/Actions_Panel.thy ===== *)
theory Actions_Panel
  imports Sse_Stream "HOL-Library.Multiset"
begin

section \<open>The panel of the automation actions\<close>

text \<open>
  \<^verbatim>\<open>components/workspace/automation-actions-panel.tsx\<close>: the actions that the assistant proposes, in three groups;
  a pending one is approved in a dialog, in which its data can be edited, or rejected, and an approved one is executed.
  The requests of \<open>useAutomationActions\<close> are calls in flight, answered in any order.  The text of a value in a
  template literal is the parameter \<open>show_value\<close>; \<open>JSON.parse\<close> is \<open>parse\<close>, none where it throws.
\<close>

subsection \<open>Actions\<close>

record automation_action =
  action_id :: string
  action_type :: string
  action_data :: "(string \<times> json) list option"
  user_approved :: bool
  executed_at :: "string option"

definition isPending :: "automation_action \<Rightarrow> bool" where
  "isPending a \<longleftrightarrow> \<not> user_approved a \<and> \<not> truthy_string (executed_at a)"

definition isApproved :: "automation_action \<Rightarrow> bool" where
  "isApproved a \<longleftrightarrow> user_approved a \<and> \<not> truthy_string (executed_at a)"

definition isExecuted :: "automation_action \<Rightarrow> bool" where
  "isExecuted a \<longleftrightarrow> truthy_string (executed_at a)"

text \<open>\<^verbatim>\<open>data.key || d\<close> in a template literal\<close>

definition data_text :: "(json \<Rightarrow> string) \<Rightarrow> (string \<times> json) list \<Rightarrow> string \<Rightarrow> string \<Rightarrow> string" where
  "data_text show_value data key d =
     (if truthy (map_of data key) then show_value (the (map_of data key)) else d)"

definition getActionDescription :: "(json \<Rightarrow> string) \<Rightarrow> automation_action \<Rightarrow> string" where
  "getActionDescription show_value a =
     (let data = nullish (action_data a) []; t = action_type a
      in if t = ''file_create'' then ''Create file: '' @ data_text show_value data ''path'' ''unknown''
         else if t = ''file_modify'' then ''Modify file: '' @ data_text show_value data ''path'' ''unknown''
         else if t = ''file_delete'' then ''Delete file: '' @ data_text show_value data ''path'' ''unknown''
         else if t = ''run_command'' then ''Run: '' @ data_text show_value data ''command'' ''unknown''
         else if t = ''install_package''
         then ''Install '' @ data_text show_value data ''package'' ''unknown'' @ '' ('' @
           data_text show_value data ''manager'' ''pip'' @ '')''
         else t)"

definition EDITABLE_FIELDS :: "(string \<times> (string \<times> string) list) list" where
  "EDITABLE_FIELDS =
     [(''file_create'', [(''path'', ''File Path''), (''content'', ''Content'')]),
      (''file_modify'', [(''path'', ''File Path''), (''content'', ''Content'')]),
      (''file_delete'', [(''path'', ''File Path'')]),
      (''run_command'', [(''command'', ''Command'')]),
      (''install_package'', [(''package'', ''Package''), (''manager'', ''Manager (pip/npm/yarn/pnpm)'')])]"

definition ACTION_FIELD_HELP :: "(string \<times> string \<times> string) list" where
  "ACTION_FIELD_HELP =
     [(''path'', ''workspace-files'', ''Path of the file the action will create, modify, or delete.''),
      (''content'', ''tool-parameter-text'', ''Text content that will be written or applied by this action.''),
      (''command'', ''workspace-run'', ''Shell command the assistant proposes to execute.''),
      (''package'', ''tool-parameter-text'', ''Package name that will be installed by this action.''),
      (''manager'', ''tool-parameter-select'', ''Package manager used to install the dependency.'')]"

subsection \<open>State\<close>

datatype action_call =
    Approve string json
  | Reject string
  | Execute string

record actions_panel =
  actions :: "automation_action list"
  showExecuted :: bool
  confirmId :: "string option"
  approveAction :: "automation_action option"
  editedData :: json
  jsonError :: "string option"
  in_flight :: "action_call list"
  sent :: "action_call list"
  toasts :: "string list"

definition initial_actions :: actions_panel where
  "initial_actions =
     \<lparr>actions = [], showExecuted = False, confirmId = None, approveAction = None, editedData = JObj [], jsonError = None,
      in_flight = [], sent = [], toasts = []\<rparr>"

definition pendingActions :: "actions_panel \<Rightarrow> automation_action list" where
  "pendingActions s = filter isPending (actions s)"

definition approvedActions :: "actions_panel \<Rightarrow> automation_action list" where
  "approvedActions s = filter isApproved (actions s)"

definition executedActions :: "actions_panel \<Rightarrow> automation_action list" where
  "executedActions s = filter isExecuted (actions s)"

definition shown_actions :: "actions_panel \<Rightarrow> automation_action list" where
  "shown_actions s = pendingActions s @ approvedActions s @ (if showExecuted s then executedActions s else [])"

definition approveFields :: "actions_panel \<Rightarrow> (string \<times> string) list option" where
  "approveFields s = Option.bind (approveAction s) (\<lambda>a. map_of EDITABLE_FIELDS (action_type a))"

subsection \<open>Handlers\<close>

definition start_call :: "action_call \<Rightarrow> actions_panel \<Rightarrow> actions_panel" where
  "start_call c s = s\<lparr>in_flight := in_flight s @ [c], sent := sent s @ [c]\<rparr>"

definition handleApproveClick :: "automation_action \<Rightarrow> actions_panel \<Rightarrow> actions_panel" where
  "handleApproveClick a s =
     s\<lparr>approveAction := Some a, editedData := JObj (nullish (action_data a) []), jsonError := None\<rparr>"

text \<open>The fields are there for the types that \<open>EDITABLE_FIELDS\<close> has; the data is an object then.\<close>

fun with_member :: "string \<Rightarrow> json \<Rightarrow> json \<Rightarrow> json" where
  "with_member k v (JObj kvs) = JObj (AList.update k v kvs)"
| "with_member k v j = JObj [(k, v)]"

definition handleEditField :: "string \<Rightarrow> string \<Rightarrow> actions_panel \<Rightarrow> actions_panel" where
  "handleEditField key v s = s\<lparr>editedData := with_member key (JStr v) (editedData s)\<rparr>"

definition handleEditJson :: "(string \<Rightarrow> json option) \<Rightarrow> string \<Rightarrow> actions_panel \<Rightarrow> actions_panel" where
  "handleEditJson parse v s =
     (case parse v of
        Some j \<Rightarrow> s\<lparr>editedData := j, jsonError := None\<rparr>
      | None \<Rightarrow> s\<lparr>jsonError := Some ''Invalid JSON''\<rparr>)"

definition closeApprove :: "actions_panel \<Rightarrow> actions_panel" where
  "closeApprove s = s\<lparr>approveAction := None, editedData := JObj []\<rparr>"

definition confirmApprove :: "actions_panel \<Rightarrow> actions_panel" where
  "confirmApprove s =
     (case approveAction s of
        None \<Rightarrow> s
      | Some a \<Rightarrow> if truthy_string (jsonError s) then s else start_call (Approve (action_id a) (editedData s)) s)"

definition handleReject :: "string \<Rightarrow> actions_panel \<Rightarrow> actions_panel" where
  "handleReject i s = s\<lparr>confirmId := Some i\<rparr>"

definition confirmReject :: "actions_panel \<Rightarrow> actions_panel" where
  "confirmReject s = (if truthy_string (confirmId s) then start_call (Reject (the (confirmId s))) s else s)"

definition handleExecute :: "string \<Rightarrow> actions_panel \<Rightarrow> actions_panel" where
  "handleExecute i s = start_call (Execute i) s"

fun failure_text :: "action_call \<Rightarrow> string" where
  "failure_text (Approve i d) = ''Failed to approve action: ''"
| "failure_text (Reject i) = ''Failed to reject action: ''"
| "failure_text (Execute i) = ''Failed to execute action: ''"

fun after_call :: "action_call \<Rightarrow> actions_panel \<Rightarrow> actions_panel" where
  "after_call (Approve i d) s = closeApprove s"
| "after_call (Reject i) s = s\<lparr>confirmId := None\<rparr>"
| "after_call (Execute i) s = s"

definition call_ended :: "nat \<Rightarrow> string option \<Rightarrow> actions_panel \<Rightarrow> actions_panel" where
  "call_ended k failure s =
     (if k < length (in_flight s)
      then (let c = in_flight s ! k;
                s1 = s\<lparr>in_flight := take k (in_flight s) @ drop (Suc k) (in_flight s)\<rparr>;
                s2 = (case failure of None \<Rightarrow> s1 | Some m \<Rightarrow> s1\<lparr>toasts := toasts s1 @ [failure_text c @ m]\<rparr>)
            in after_call c s2)
      else s)"

datatype panel_input =
    ActionsArrive "automation_action list"
  | ToggleExecuted
  | ApproveClicked automation_action
  | FieldEdited string string
  | JsonEdited string
  | ApproveConfirmed
  | ApproveCancelled
  | RejectClicked automation_action
  | RejectConfirmed
  | RejectCancelled
  | ExecuteClicked automation_action
  | CallEnded nat "string option"

definition panel_step :: "(string \<Rightarrow> json option) \<Rightarrow> panel_input \<Rightarrow> actions_panel \<Rightarrow> actions_panel" where
  "panel_step parse e s =
     (case e of
        ActionsArrive as \<Rightarrow> s\<lparr>actions := as\<rparr>
      | ToggleExecuted \<Rightarrow> s\<lparr>showExecuted := \<not> showExecuted s\<rparr>
      | ApproveClicked a \<Rightarrow> if a \<in> set (shown_actions s) \<and> isPending a then handleApproveClick a s else s
      | FieldEdited k v \<Rightarrow>
          (case approveFields s of Some fs \<Rightarrow> if k \<in> fst ` set fs then handleEditField k v s else s | None \<Rightarrow> s)
      | JsonEdited v \<Rightarrow> if approveAction s \<noteq> None \<and> approveFields s = None then handleEditJson parse v s else s
      | ApproveConfirmed \<Rightarrow> confirmApprove s
      | ApproveCancelled \<Rightarrow> closeApprove s
      | RejectClicked a \<Rightarrow> if a \<in> set (shown_actions s) \<and> isPending a then handleReject (action_id a) s else s
      | RejectConfirmed \<Rightarrow> confirmReject s
      | RejectCancelled \<Rightarrow> s\<lparr>confirmId := None\<rparr>
      | ExecuteClicked a \<Rightarrow> if a \<in> set (shown_actions s) \<and> isApproved a then handleExecute (action_id a) s else s
      | CallEnded k failure \<Rightarrow> call_ended k failure s)"

subsection \<open>Every action is in one group\<close>

lemma action_groups: "mset (pendingActions s) + mset (approvedActions s) + mset (executedActions s) = mset (actions s)"
proof -
  have "mset (filter isPending as) + mset (filter isApproved as) + mset (filter isExecuted as) = mset as" for as
    by (induction as) (auto simp: isPending_def isApproved_def isExecuted_def)
  then show ?thesis by (simp add: pendingActions_def approvedActions_def executedActions_def)
qed

subsection \<open>Approving\<close>

text \<open>The edits of a run, the last one of a field counting.\<close>

fun last_edit :: "string \<Rightarrow> panel_input list \<Rightarrow> string option" where
  "last_edit k [] = None"
| "last_edit k (FieldEdited j v # es) = (case last_edit k es of None \<Rightarrow> if j = k then Some v else None | Some w \<Rightarrow> Some w)"
| "last_edit k (e # es) = last_edit k es"

text \<open>Events that leave the dialog of an approval open for the same action.\<close>

fun dialog_stays :: "panel_input \<Rightarrow> bool" where
  "dialog_stays (ApproveClicked a) = False"
| "dialog_stays ApproveConfirmed = False"
| "dialog_stays ApproveCancelled = False"
| "dialog_stays (CallEnded k f) = False"
| "dialog_stays e = True"

definition edits :: "string set \<Rightarrow> automation_action \<Rightarrow> panel_input list \<Rightarrow> string \<Rightarrow> json option" where
  "edits editable a es k =
     (case last_edit k es of
        Some v \<Rightarrow> if k \<in> editable then Some (JStr v) else map_of (nullish (action_data a) []) k
      | None \<Rightarrow> map_of (nullish (action_data a) []) k)"

definition edited_state :: "automation_action \<Rightarrow> (string \<times> string) list \<Rightarrow> (string \<times> json) list \<Rightarrow> actions_panel \<Rightarrow> bool" where
  "edited_state a fs kvs s \<longleftrightarrow>
     approveAction s = Some a \<and> map_of EDITABLE_FIELDS (action_type a) = Some fs \<and> editedData s = JObj kvs \<and> jsonError s = None"

lemma edited_step:
  assumes s: "edited_state a fs kvs s" and e: "dialog_stays e"
  shows "\<exists>kvs'. edited_state a fs kvs' (panel_step parse e s) \<and>
    (\<forall>k. map_of kvs' k = (case last_edit k [e] of Some v \<Rightarrow> if k \<in> fst ` set fs then Some (JStr v) else map_of kvs k
       | None \<Rightarrow> map_of kvs k))"
proof (cases e)
  case (FieldEdited j v)
  have f: "approveFields s = Some fs" using s by (simp add: approveFields_def edited_state_def)
  show ?thesis
  proof (cases "j \<in> fst ` set fs")
    case True
    then show ?thesis using s
      by (intro exI [of _ "AList.update j (JStr v) kvs"])
        (auto simp: FieldEdited panel_step_def f handleEditField_def edited_state_def update_conv')
  qed (use s f in \<open>auto simp: FieldEdited panel_step_def intro!: exI [of _ kvs]\<close>)
next
  case (JsonEdited v)
  have f: "approveFields s = Some fs" using s by (simp add: approveFields_def edited_state_def)
  show ?thesis using s f by (intro exI [of _ kvs]) (simp add: JsonEdited panel_step_def)
qed (use s e in \<open>auto simp: panel_step_def edited_state_def handleReject_def confirmReject_def handleExecute_def
      start_call_def intro!: exI [of _ kvs]\<close>)

lemma edited_run:
  "edited_state a fs kvs s \<Longrightarrow> list_all dialog_stays es \<Longrightarrow>
     \<exists>kvs'. edited_state a fs kvs' (fold (panel_step parse) es s) \<and>
       (\<forall>k. map_of kvs' k = (case last_edit k es of Some v \<Rightarrow> if k \<in> fst ` set fs then Some (JStr v) else map_of kvs k
          | None \<Rightarrow> map_of kvs k))"
proof (induction es arbitrary: kvs s)
  case (Cons e es)
  then have d: "dialog_stays e" "list_all dialog_stays es" by simp_all
  obtain kvs1 where k1: "edited_state a fs kvs1 (panel_step parse e s)"
      "\<And>k. map_of kvs1 k = (case last_edit k [e] of Some v \<Rightarrow> if k \<in> fst ` set fs then Some (JStr v) else map_of kvs k
        | None \<Rightarrow> map_of kvs k)"
    using edited_step [OF Cons.prems(1) d(1), of parse] by blast
  obtain kvs2 where k2: "edited_state a fs kvs2 (fold (panel_step parse) es (panel_step parse e s))"
      "\<And>k. map_of kvs2 k = (case last_edit k es of Some v \<Rightarrow> if k \<in> fst ` set fs then Some (JStr v) else map_of kvs1 k
        | None \<Rightarrow> map_of kvs1 k)"
    using Cons.IH [OF k1(1) d(2)] by blast
  have "last_edit k (e # es) = (case last_edit k es of None \<Rightarrow> last_edit k [e] | Some w \<Rightarrow> Some w)" for k
    by (cases e) (simp_all split: option.split)
  then show ?case using k2 k1(2) by (intro exI [of _ kvs2]) (simp split: option.split)
qed auto

text \<open>What is approved is what was edited: when a pending action of a known type is opened, fields are edited while
  actions arrive, are rejected and executed, and the approval is confirmed, then one request is sent, for that action,
  and in its data every field that was edited has its last text and every other member the value that it had.\<close>

theorem approved_as_edited:
  assumes "a \<in> set (actions s)" and "isPending a" and "action_type a \<in> fst ` set EDITABLE_FIELDS"
    and "list_all dialog_stays es"
  shows "let editable = fst ` set (the (map_of EDITABLE_FIELDS (action_type a)));
      s1 = fold (panel_step parse) es (panel_step parse (ApproveClicked a) s)
    in \<exists>kvs. sent (panel_step parse ApproveConfirmed s1) = sent s1 @ [Approve (action_id a) (JObj kvs)] \<and>
      map_of kvs = edits editable a es"
proof -
  obtain fs where fs: "map_of EDITABLE_FIELDS (action_type a) = Some fs"
    using assms(3) by (auto simp: map_of_eq_None_iff dest!: weak_map_of_SomeI)
  have "a \<in> set (shown_actions s)" using assms(1,2) by (simp add: shown_actions_def pendingActions_def)
  then have "edited_state a fs (nullish (action_data a) []) (panel_step parse (ApproveClicked a) s)"
    using assms(2) fs by (simp add: panel_step_def handleApproveClick_def edited_state_def)
  from edited_run [OF this assms(4), of parse] obtain kvs where
    k: "edited_state a fs kvs (fold (panel_step parse) es (panel_step parse (ApproveClicked a) s))"
      "\<And>k. map_of kvs k = edits (fst ` set fs) a es k" by (auto simp: edits_def)
  then show ?thesis
    using fs by (auto simp: Let_def panel_step_def confirmApprove_def edited_state_def start_call_def truthy_string_def
        intro!: exI [of _ kvs])
qed

definition proposed :: automation_action where
  "proposed =
     \<lparr>action_id = ''x'', action_type = ''install_package'', action_data = Some [(''package'', JStr ''flask'')],
      user_approved = False, executed_at = None\<rparr>"

lemma approved_as_edited_witness:
  "let s = panel_step (\<lambda>s. None) (ActionsArrive [proposed]) initial_actions;
       s1 = fold (panel_step (\<lambda>s. None)) [FieldEdited ''manager'' ''npm''] (panel_step (\<lambda>s. None) (ApproveClicked proposed) s)
   in \<exists>kvs. sent (panel_step (\<lambda>s. None) ApproveConfirmed s1) = sent s1 @ [Approve ''x'' (JObj kvs)] \<and>
     map_of kvs ''manager'' = Some (JStr ''npm'') \<and> map_of kvs ''package'' = Some (JStr ''flask'')"
proof -
  let ?s = "panel_step (\<lambda>s. None) (ActionsArrive [proposed]) initial_actions"
  have a: "proposed \<in> set (actions ?s)" by (simp add: panel_step_def)
  have p: "isPending proposed" by (simp add: isPending_def proposed_def truthy_string_def)
  have t: "action_type proposed \<in> fst ` set EDITABLE_FIELDS" by (simp add: proposed_def EDITABLE_FIELDS_def)
  have d: "list_all dialog_stays [FieldEdited ''manager'' ''npm'']" by simp
  have f: "fst ` set (the (map_of EDITABLE_FIELDS (action_type proposed))) = {''package'', ''manager''}"
    by (simp add: proposed_def EDITABLE_FIELDS_def)
  have i: "action_id proposed = ''x''" by (simp add: proposed_def)
  have e: "edits {''package'', ''manager''} proposed [FieldEdited ''manager'' ''npm''] ''manager'' = Some (JStr ''npm'')"
      "edits {''package'', ''manager''} proposed [FieldEdited ''manager'' ''npm''] ''package'' = Some (JStr ''flask'')"
    by (simp_all add: edits_def proposed_def)
  from approved_as_edited [OF a p t d, of "\<lambda>s. None"] show ?thesis unfolding Let_def f i using e by metis
qed

subsection \<open>Where the panel does what it does not mean to\<close>

text \<open>An action of an unknown type is edited as JSON.  A text that does not parse is not kept, so the field goes back to
  what it showed, but the error stays and blocks the approval of the data that is shown.\<close>

definition unknown_action :: automation_action where
  "unknown_action =
     \<lparr>action_id = ''y'', action_type = ''deploy'', action_data = None, user_approved = False, executed_at = None\<rparr>"

lemma discarded_text_blocks_approval:
  "let s = fold (panel_step (\<lambda>s. None)) [ActionsArrive [unknown_action], ApproveClicked unknown_action, JsonEdited ''{'',
         ApproveConfirmed] initial_actions
   in editedData s = JObj [] \<and> jsonError s \<noteq> None \<and> sent s = []"
  by code_simp

text \<open>An approval that fails closes the dialog like one that succeeds: the edits are lost.\<close>

lemma failed_approval_loses_edits:
  "let s = fold (panel_step (\<lambda>s. None)) [ActionsArrive [proposed], ApproveClicked proposed, FieldEdited ''package'' ''django'',
         ApproveConfirmed, CallEnded 0 (Some ''offline'')] initial_actions
   in approveAction s = None \<and> editedData s = JObj [] \<and> toasts s = [''Failed to approve action: offline'']"
  by code_simp

text \<open>The answer to an approval whose dialog was cancelled closes the dialog of the next action.\<close>

lemma late_approval_closes_next:
  "let s = fold (panel_step (\<lambda>s. None)) [ActionsArrive [proposed, unknown_action], ApproveClicked proposed, ApproveConfirmed,
         ApproveCancelled, ApproveClicked unknown_action] initial_actions
   in approveAction s = Some unknown_action \<and> approveAction (panel_step (\<lambda>s. None) (CallEnded 0 None) s) = None"
  by code_simp

text \<open>An action stays executable until the list is loaded again: two clicks execute it twice.\<close>

lemma two_clicks_execute_twice:
  "let a = proposed\<lparr>user_approved := True\<rparr>;
       s = fold (panel_step (\<lambda>s. None)) [ActionsArrive [a], ExecuteClicked a, ExecuteClicked a] initial_actions
   in sent s = [Execute ''x'', Execute ''x'']"
  by code_simp

end
