(* ===== verification/Ide_Layout.thy ===== *)
theory Ide_Layout
  imports Terminal_Pane Tools_Panel
begin

section \<open>The workspace of a project\<close>

text \<open>
  \<^verbatim>\<open>components/workspace/ide-layout.tsx\<close> with the two panes that it drives: the terminal of \<open>Terminal_Pane\<close>, which
  it calls through a handle and which reports its commands, and the panel of \<open>Tools_Panel\<close>, which gets its
  properties and reports its results.  A pane exists while it is rendered: on a desktop the terminal always and the
  panel of the tools in its sheet, on a mobile the one of the current tab.  One that is unmounted is gone; a panel
  of the tools whose execution is in flight still reports its result, and runs the rerun that waits for it.
\<close>

subsection \<open>State\<close>

record ide =
  is_mobile :: bool
  active_panel :: "string option"
  show_chat :: bool
  show_close_confirm :: bool
  closing :: bool
  ide_tools :: tools_state
  mobile_tab :: string
  selected_file :: "string option"
  terminal_history :: "string list"
  terminal :: "pane option"
  tool_list :: "nat \<times> tool list"
  panel :: "tools_panel option"
  closed_panels :: "tools_panel list"
  storage :: "(string \<times> string list) list"
  pinned_tool_names :: "string list"
  tree_refreshes :: nat
  stop_requests :: nat
  routes :: "string list"

text \<open>The answers of the host that the layout does not read: the text of numbers, and the options of the socket.\<close>

record ide_host =
  host_number :: "real \<Rightarrow> string"
  host_options :: term_options

definition unmounted_ide :: "bool \<Rightarrow> (string \<times> string list) list \<Rightarrow> ide" where
  "unmounted_ide mobile stored =
     \<lparr>is_mobile = mobile, active_panel = None, show_chat = False, show_close_confirm = False, closing = False,
      ide_tools = initial_tools, mobile_tab = ''editor'', selected_file = None, terminal_history = [], terminal = None,
      tool_list = (0, []), panel = None, closed_panels = [], storage = stored,
      pinned_tool_names = nullish (map_of stored ''tools:pinned'') [], tree_refreshes = 0, stop_requests = 0, routes = []\<rparr>"

subsection \<open>Rendering the panes\<close>

definition terminal_shown :: "ide \<Rightarrow> bool" where
  "terminal_shown i \<longleftrightarrow> \<not> is_mobile i \<or> mobile_tab i = ''terminal''"

definition panel_shown :: "ide \<Rightarrow> bool" where
  "panel_shown i \<longleftrightarrow> (if is_mobile i then mobile_tab i = ''tools'' else active_panel i = Some ''tools'')"

definition sheet_shown :: "ide \<Rightarrow> string option" where
  "sheet_shown i = (if is_mobile i then None else active_panel i)"

definition close_dialog_shown :: "ide \<Rightarrow> bool" where
  "close_dialog_shown i \<longleftrightarrow> \<not> is_mobile i \<and> show_close_confirm i"

definition give_props :: "ide \<Rightarrow> tools_panel \<Rightarrow> tools_panel" where
  "give_props i p =
     p\<lparr>tools_prop := snd (tool_list i), tools_version := fst (tool_list i), given_file := prefill_file (ide_tools i),
       only_file_tools := filter_for_file (ide_tools i), asked_tool := initial_tool (ide_tools i),
       rerun_prop := rerun_execution (ide_tools i)\<rparr>"

definition render_terminal :: "ide_host \<Rightarrow> ide \<Rightarrow> ide" where
  "render_terminal h i =
     i\<lparr>terminal := (if terminal_shown i
         then Some (case terminal i of None \<Rightarrow> initial_pane (host_options h) | Some p \<Rightarrow> p) else None)\<rparr>"

definition render_panel :: "ide \<Rightarrow> ide" where
  "render_panel i =
     (if panel_shown i then
        i\<lparr>panel := Some (commit_panel (give_props i
            (case panel i of None \<Rightarrow> initial_tools_panel (storage i) | Some p \<Rightarrow> p)))\<rparr>
      else (case panel i of None \<Rightarrow> i | Some p \<Rightarrow> i\<lparr>panel := None, closed_panels := closed_panels i @ [p]\<rparr>))"

definition render_ide :: "ide_host \<Rightarrow> ide \<Rightarrow> ide" where
  "render_ide h i = render_panel (render_terminal h i)"

definition initial_ide :: "ide_host \<Rightarrow> bool \<Rightarrow> (string \<times> string list) list \<Rightarrow> ide" where
  "initial_ide h mobile stored = render_ide h (unmounted_ide mobile stored)"

subsection \<open>The terminal\<close>

definition push_command :: "string \<Rightarrow> string list \<Rightarrow> string list" where
  "push_command cmd prev = drop (length prev - 49) prev @ [cmd]"

definition handleTerminalCommand :: "string \<Rightarrow> ide \<Rightarrow> ide" where
  "handleTerminalCommand cmd i = i\<lparr>terminal_history := push_command cmd (terminal_history i)\<rparr>"

text \<open>A step of the terminal, with the commands that it reports.\<close>

definition in_terminal :: "ide_host \<Rightarrow> pane_event \<Rightarrow> ide \<Rightarrow> ide" where
  "in_terminal h e i =
     (case terminal i of
        None \<Rightarrow> i
      | Some p \<Rightarrow>
          (let p' = pane_step (host_number h) (host_options h) e p
           in fold handleTerminalCommand (drop (length (notified p)) (notified p')) (i\<lparr>terminal := Some p'\<rparr>)))"

definition handleRunClick :: "ide_host \<Rightarrow> ide \<Rightarrow> ide" where
  "handleRunClick h i =
     in_terminal h (RunCommand ''npm start'') (if is_mobile i then i\<lparr>mobile_tab := ''terminal''\<rparr> else i)"

subsection \<open>The panels\<close>

definition handleFilesClick :: "ide \<Rightarrow> ide" where
  "handleFilesClick i =
     (if is_mobile i then i\<lparr>mobile_tab := ''files''\<rparr> else i\<lparr>tree_refreshes := Suc (tree_refreshes i)\<rparr>)"

definition handleChatClick :: "ide \<Rightarrow> ide" where
  "handleChatClick i = (if is_mobile i then i\<lparr>mobile_tab := ''chat''\<rparr> else i\<lparr>show_chat := \<not> show_chat i\<rparr>)"

definition togglePanel :: "string \<Rightarrow> string option \<Rightarrow> ide \<Rightarrow> ide" where
  "togglePanel p tab i =
     (case tab of
        Some t \<Rightarrow> if is_mobile i then i\<lparr>mobile_tab := t\<rparr>
                  else i\<lparr>active_panel := (if active_panel i = Some p then None else Some p)\<rparr>
      | None \<Rightarrow> i\<lparr>active_panel := (if active_panel i = Some p then None else Some p)\<rparr>)"

text \<open>The buttons of the toolbar: the panel that each one toggles and its tab on a mobile.\<close>

definition panel_buttons :: "(string \<times> string option) list" where
  "panel_buttons =
     [(''automations'', Some ''chat''), (''history'', None), (''image-gen'', Some ''image-gen''),
      (''resources'', Some ''resources''), (''events'', Some ''events''), (''drupal'', Some ''drupal''),
      (''kb'', Some ''kb''), (''snapshots'', Some ''snapshots''), (''context'', Some ''context''),
      (''ui-builder'', Some ''ui-builder''), (''planning'', Some ''planning''), (''kb-builder'', Some ''kb-builder''),
      (''issues'', Some ''issues'')]"

definition show_tools :: "ide \<Rightarrow> ide" where
  "show_tools i = (if is_mobile i then i\<lparr>mobile_tab := ''tools''\<rparr> else i\<lparr>active_panel := Some ''tools''\<rparr>)"

definition set_context :: "string option \<Rightarrow> bool \<Rightarrow> string option \<Rightarrow> ide \<Rightarrow> ide" where
  "set_context file only tool_name i =
     i\<lparr>ide_tools := (ide_tools i)\<lparr>prefill_file := file, filter_for_file := only, initial_tool := tool_name\<rparr>\<rparr>"

definition handleToolsClick :: "ide \<Rightarrow> ide" where
  "handleToolsClick i =
     (let i1 = set_context None False None i
      in if is_mobile i1 then i1\<lparr>mobile_tab := ''tools''\<rparr>
         else i1\<lparr>active_panel := (if active_panel i1 = Some ''tools'' then None else Some ''tools'')\<rparr>)"

definition handleRunToolOnFile :: "string \<Rightarrow> ide \<Rightarrow> ide" where
  "handleRunToolOnFile filePath i = show_tools (set_context (Some filePath) True None i)"

definition handleQuickExecuteTool :: "string \<Rightarrow> ide \<Rightarrow> ide" where
  "handleQuickExecuteTool toolName i = show_tools (set_context None False (Some toolName) i)"

definition handleShowActions :: "ide \<Rightarrow> ide" where
  "handleShowActions i = i\<lparr>active_panel := Some ''automations''\<rparr>"

definition quick_tools :: "ide \<Rightarrow> tool list" where
  "quick_tools i = filter (\<lambda>t. tool_name_of t \<in> set (pinned_tool_names i)) (snd (tool_list i))"

subsection \<open>The tools\<close>

definition handleToolExecuted :: "bool \<Rightarrow> nat \<Rightarrow> tool_result \<times> string \<times> parameters \<Rightarrow> ide \<Rightarrow> ide" where
  "handleToolExecuted storable now r i =
     (case r of (result, toolName, params) \<Rightarrow>
        i\<lparr>ide_tools := (ide_tools i)
            \<lparr>last_execution := Some \<lparr>exec_tool = toolName, exec_success = res_success result, exec_timestamp = now,
               exec_params = params\<rparr>,
             results_for_chat := (res_success result, res_value result) # take 9 (results_for_chat (ide_tools i)),
             stored_execution := (if storable then Some (toolName, res_success result, now)
               else stored_execution (ide_tools i))\<rparr>\<rparr>)"

definition handleRerunLastTool :: "nat \<Rightarrow> ide \<Rightarrow> ide" where
  "handleRerunLastTool now i =
     (case last_execution (ide_tools i) of
        None \<Rightarrow> i
      | Some e \<Rightarrow> i\<lparr>active_panel := Some ''tools'',
          ide_tools := (ide_tools i)\<lparr>rerun_execution :=
            Some \<lparr>rerun_tool = exec_tool e, rerun_params = exec_params e, rerun_timestamp = now\<rparr>\<rparr>\<rparr>)"

text \<open>When the panel reports: its answers come with the time and whether the storage takes a value.\<close>

fun report_time :: "tools_input \<Rightarrow> nat" where
  "report_time (Execution_Answered n now r) = now"
| "report_time e = 0"

definition in_panel :: "bool \<Rightarrow> tools_input \<Rightarrow> ide \<Rightarrow> ide" where
  "in_panel storable e i =
     (case panel i of
        None \<Rightarrow> i
      | Some p \<Rightarrow>
          (let p' = tools_event e p
           in fold (handleToolExecuted storable (report_time e)) (drop (length (reported_results p)) (reported_results p'))
                (i\<lparr>panel := Some p', storage := stored_sets p'\<rparr>)))"

definition closed_answered :: "bool \<Rightarrow> nat \<Rightarrow> nat \<Rightarrow> nat \<Rightarrow> string option + tool_result \<Rightarrow> ide \<Rightarrow> ide" where
  "closed_answered storable k n now r i =
     (if k < length (closed_panels i)
      then (let p = closed_panels i ! k; p' = execution_answered n now r p
            in fold (handleToolExecuted storable now) (drop (length (reported_results p)) (reported_results p'))
                 (i\<lparr>closed_panels := (closed_panels i)[k := p']\<rparr>))
      else i)"

subsection \<open>Closing the project\<close>

definition handleCloseProject :: "ide \<Rightarrow> ide" where
  "handleCloseProject i = i\<lparr>closing := True, stop_requests := Suc (stop_requests i)\<rparr>"

definition stop_answered :: "ide \<Rightarrow> ide" where
  "stop_answered i =
     (if stop_requests i = 0 then i
      else i\<lparr>stop_requests := stop_requests i - 1, show_close_confirm := False, routes := routes i @ [''/chat'']\<rparr>)"

subsection \<open>Keys and events\<close>

record key_press =
  key_mod :: bool
  key_shift :: bool
  key_name :: string

definition handleKeyDown :: "nat \<Rightarrow> key_press \<Rightarrow> ide \<Rightarrow> ide" where
  "handleKeyDown now k i =
     (if key_mod k \<and> \<not> key_shift k \<and> key_name k = ''t'' then show_tools i
      else if key_mod k \<and> key_shift k \<and> key_name k = ''T'' then show_tools (set_context None False None i)
      else if key_mod k \<and> key_name k = '';'' then handleRerunLastTool now i
      else i)"

datatype ide_event =
    FilesClicked
  | RunClicked
  | ChatClicked
  | PanelClicked string
  | ToolsClicked
  | RunOnFile string
  | QuickExecute string
  | ShowActions
  | SettingsClicked
  | CloseClicked
  | CloseConfirmed
  | CloseCancelled
  | StopAnswered
  | KeyDown nat key_press
  | TabChosen string
  | SheetClosed
  | FileSelected string
  | ToolListArrives "tool list"
  | BreakpointCrossed bool
  | TerminalEvent pane_event
  | PanelEvent bool tools_input
  | ClosedAnswered bool nat nat nat "string option + tool_result"

text \<open>What the page tells the panel comes as properties, not as an event of the panel.\<close>

fun of_panel :: "tools_input \<Rightarrow> bool" where
  "of_panel (ToolsArrive ts) = False"
| "of_panel (FileGiven f b) = False"
| "of_panel (InitialTool t) = False"
| "of_panel (RerunWanted w) = False"
| "of_panel e = True"

definition ide_event :: "ide_host \<Rightarrow> ide_event \<Rightarrow> ide \<Rightarrow> ide" where
  "ide_event h e i =
     (case e of
        FilesClicked \<Rightarrow> handleFilesClick i
      | RunClicked \<Rightarrow> handleRunClick h i
      | ChatClicked \<Rightarrow> handleChatClick i
      | PanelClicked p \<Rightarrow> (case map_of panel_buttons p of None \<Rightarrow> i | Some tab \<Rightarrow> togglePanel p tab i)
      | ToolsClicked \<Rightarrow> handleToolsClick i
      | RunOnFile f \<Rightarrow> handleRunToolOnFile f i
      | QuickExecute t \<Rightarrow> handleQuickExecuteTool t i
      | ShowActions \<Rightarrow> handleShowActions i
      | SettingsClicked \<Rightarrow> i\<lparr>routes := routes i @ [''/settings'']\<rparr>
      | CloseClicked \<Rightarrow> i\<lparr>show_close_confirm := True\<rparr>
      | CloseConfirmed \<Rightarrow> if close_dialog_shown i \<and> \<not> closing i then handleCloseProject i else i
      | CloseCancelled \<Rightarrow> if close_dialog_shown i \<and> \<not> closing i then i\<lparr>show_close_confirm := False\<rparr> else i
      | StopAnswered \<Rightarrow> stop_answered i
      | KeyDown now k \<Rightarrow> handleKeyDown now k i
      | TabChosen t \<Rightarrow> if is_mobile i then i\<lparr>mobile_tab := t\<rparr> else i
      | SheetClosed \<Rightarrow> if is_mobile i then i else i\<lparr>active_panel := None\<rparr>
      | FileSelected f \<Rightarrow> i\<lparr>selected_file := Some f\<rparr>
      | ToolListArrives ts \<Rightarrow> i\<lparr>tool_list := (Suc (fst (tool_list i)), ts)\<rparr>
      | BreakpointCrossed b \<Rightarrow>
          if b = is_mobile i then i
          else i\<lparr>is_mobile := b, terminal := None, panel := None,
                 closed_panels := closed_panels i @ (case panel i of None \<Rightarrow> [] | Some p \<Rightarrow> [p])\<rparr>
      | TerminalEvent x \<Rightarrow> in_terminal h x i
      | PanelEvent storable x \<Rightarrow> if of_panel x then in_panel storable x i else i
      | ClosedAnswered storable k n now r \<Rightarrow> closed_answered storable k n now r i)"

definition ide_step :: "ide_host \<Rightarrow> ide_event \<Rightarrow> ide \<Rightarrow> ide" where
  "ide_step h e i = render_ide h (ide_event h e i)"

definition run_ide :: "ide_host \<Rightarrow> bool \<Rightarrow> (string \<times> string list) list \<Rightarrow> ide_event list \<Rightarrow> ide" where
  "run_ide h mobile stored es = fold (ide_step h) es (initial_ide h mobile stored)"

subsection \<open>The history of the commands\<close>

lemma rev_last: "rev (drop (length xs - n) xs) = take n (rev xs)"
  by (cases "length xs \<le> n") (simp_all add: rev_drop)

interpretation commands: capped_history push_command rev 50
proof
  fix x :: string and h :: "string list"
  have "rev (drop (length h - 49) h) = take 49 (rev h)" by (rule rev_last)
  then show "rev (push_command x h) = take 50 (x # rev h)" by (simp add: push_command_def take_Cons')
qed

lemma fold_commands:
  "fold handleTerminalCommand cs i = i\<lparr>terminal_history := fold push_command cs (terminal_history i)\<rparr>"
  by (induction cs arbitrary: i) (simp_all add: handleTerminalCommand_def)

lemma push_last_fifty:
  "fold push_command cs (drop (length xs - 50) xs) = drop (length (xs @ cs) - 50) (xs @ cs)"
proof -
  have r: "rev (drop (length ys - 50) ys) = take 50 (rev ys)" for ys :: "string list" by (rule rev_last)
  have "rev (fold push_command cs (drop (length xs - 50) xs)) = take 50 (rev cs @ rev (drop (length xs - 50) xs))"
    by (rule commands.view_pushes) simp
  also have "\<dots> = take 50 (rev (xs @ cs))" unfolding r by (simp add: take_append min_def)
  also have "\<dots> = rev (drop (length (xs @ cs) - 50) (xs @ cs))" by (rule r [symmetric])
  finally show ?thesis by (simp only: rev_is_rev_conv)
qed

lemma notified_grows: "\<exists>cs. notified (pane_step number opts e p) = notified p @ cs"
  by (cases e) (auto simp: switch_tab_def type_input_def press_enter_def handleCommand_def addTab_def closeTab_def
      reconnect_def with_socket_eq updateTabById_def Let_def split: option.split)

definition history_of_terminal :: "ide \<Rightarrow> bool" where
  "history_of_terminal i \<longleftrightarrow>
     \<not> is_mobile i \<and>
     (\<exists>p. terminal i = Some p \<and> terminal_history i = drop (length (notified p) - 50) (notified p))"

lemma history_in_terminal:
  assumes "history_of_terminal i"
  shows "history_of_terminal (in_terminal h e i)"
proof -
  obtain p where p: "\<not> is_mobile i" "terminal i = Some p"
      "terminal_history i = drop (length (notified p) - 50) (notified p)"
    using assms by (auto simp: history_of_terminal_def)
  obtain cs where cs: "notified (pane_step (host_number h) (host_options h) e p) = notified p @ cs"
    using notified_grows by blast
  show ?thesis using p push_last_fifty [of cs "notified p"]
    by (simp add: in_terminal_def Let_def cs fold_commands history_of_terminal_def)
qed

lemma history_other:
  assumes "history_of_terminal i" and "is_mobile i' = is_mobile i" and "terminal i' = terminal i"
    and "terminal_history i' = terminal_history i"
  shows "history_of_terminal i'"
  using assms by (simp add: history_of_terminal_def)

lemma fold_executed:
  "is_mobile (fold (handleToolExecuted w t) rs i) = is_mobile i"
  "terminal (fold (handleToolExecuted w t) rs i) = terminal i"
  "terminal_history (fold (handleToolExecuted w t) rs i) = terminal_history i"
  by (induction rs arbitrary: i) (simp_all add: handleToolExecuted_def split: prod.split)

lemmas ide_handlers = handleFilesClick_def handleChatClick_def togglePanel_def handleToolsClick_def
  handleRunToolOnFile_def handleQuickExecuteTool_def handleShowActions_def handleCloseProject_def stop_answered_def
  handleKeyDown_def handleRerunLastTool_def show_tools_def set_context_def in_panel_def closed_answered_def

lemma other_events:
  assumes "\<nexists>b. e = BreakpointCrossed b" and "\<nexists>x. e = TerminalEvent x" and "e \<noteq> RunClicked"
  shows "is_mobile (ide_event h e i) = is_mobile i" "terminal (ide_event h e i) = terminal i"
    "terminal_history (ide_event h e i) = terminal_history i"
  using assms by (cases e; simp add: ide_event_def ide_handlers fold_executed Let_def split: option.split)+

lemma history_render: "history_of_terminal i \<Longrightarrow> history_of_terminal (render_ide h i)"
  by (auto simp: history_of_terminal_def render_ide_def render_panel_def render_terminal_def terminal_shown_def
      split: option.split)

lemma history_step:
  assumes i: "history_of_terminal i" and e: "\<nexists>b. e = BreakpointCrossed b"
  shows "history_of_terminal (ide_step h e i)"
proof -
  have "history_of_terminal (ide_event h e i)"
  proof (cases "e = RunClicked \<or> (\<exists>x. e = TerminalEvent x)")
    case True
    then show ?thesis using history_in_terminal [OF i] i
      by (auto simp: ide_event_def handleRunClick_def history_of_terminal_def)
  next
    case False
    then show ?thesis using history_other [OF i] other_events [of e h i] e by blast
  qed
  then show ?thesis unfolding ide_step_def by (rule history_render)
qed

text \<open>On a desktop the chat is given the last fifty commands of the terminal: whatever happens in the workspace, the
  history is what the terminal has been told, cut to its last fifty, and the terminal is never lost.\<close>

theorem desktop_history_is_of_terminal:
  assumes "\<forall>e\<in>set es. \<nexists>b. e = BreakpointCrossed b"
  shows "\<exists>p. terminal (run_ide h False stored es) = Some p \<and>
    terminal_history (run_ide h False stored es) = drop (length (notified p) - 50) (notified p)"
proof -
  have "history_of_terminal (fold (ide_step h) es i)" if "history_of_terminal i" for i
    using that assms by (induction es arbitrary: i) (simp_all add: history_step)
  moreover have "history_of_terminal (initial_ide h False stored)"
    by (simp add: history_of_terminal_def initial_ide_def unmounted_ide_def render_ide_def render_panel_def
        render_terminal_def terminal_shown_def panel_shown_def initial_pane_def)
  ultimately show ?thesis by (simp add: run_ide_def history_of_terminal_def)
qed

subsection \<open>The copy of the state of the tools\<close>

text \<open>The layout has its own copy of \<open>useToolsState\<close>: the two agree.\<close>

theorem layout_agrees_with_tools_state:
  "ide_tools (handleToolsClick i) = reset_tools_open (ide_tools i)"
  "ide_tools (handleRunToolOnFile f i) = prepare_run_tool_on_file f (ide_tools i)"
  "ide_tools (handleQuickExecuteTool t i) = prepare_quick_execute t (ide_tools i)"
  "ide_tools (handleToolExecuted w now (r, nm, ps) i) =
     handle_tool_executed w now (res_success r, res_value r) nm ps (ide_tools i)"
  "ide_tools (handleRerunLastTool now i) = snd (handle_rerun_last_tool now (ide_tools i))"
  by (simp_all add: ide_handlers reset_tools_open_def prepare_run_tool_on_file_def prepare_quick_execute_def
      handleToolExecuted_def handle_tool_executed_def add_result_def handle_rerun_last_tool_def Let_def
      split: option.split)

subsection \<open>Where the workspace does what it does not mean to\<close>

definition sample_host :: ide_host where
  "sample_host = \<lparr>host_number = (\<lambda>x. ''1''), host_options = sample_options\<rparr>"

lemma desktop_history_is_of_terminal_witness:
  "\<exists>p. terminal (run_ide sample_host False [] [RunClicked]) = Some p \<and>
    terminal_history (run_ide sample_host False [] [RunClicked]) = drop (length (notified p) - 50) (notified p)"
  by (rule desktop_history_is_of_terminal) simp

definition lint :: tool where
  "lint = \<lparr>tool_name_of = ''lint'', tool_description = [], parameters_schema = JObj []\<rparr>"

definition lint_result :: tool_result where
  "lint_result = \<lparr>res_tool = ''lint'', res_success = True, res_value = JNull, res_error = None, res_duration = 1\<rparr>"

definition press_rerun :: "nat \<Rightarrow> ide_event" where
  "press_rerun now = KeyDown now \<lparr>key_mod = True, key_shift = False, key_name = '';''\<rparr>"

definition run_once :: "ide_event list" where
  "run_once =
     [ToolListArrives [lint], ToolsClicked, PanelEvent True (ToolClicked lint), PanelEvent True ExecuteClicked,
      PanelEvent True (Execution_Answered 0 1 (Inr lint_result))]"

definition started_in :: "ide \<Rightarrow> string list" where
  "started_in i = (case panel i of None \<Rightarrow> [] | Some p \<Rightarrow> map run_name (running p))"

text \<open>The rerun that was asked for stays a property of the panel: each time the panel is opened again, the tool is
  executed again.\<close>

lemma opening_panel_reruns:
  "let i = run_ide sample_host False [] (run_once @ [press_rerun 2, PanelEvent True (Execution_Answered 0 3 (Inr lint_result))]);
       i' = fold (ide_step sample_host) [SheetClosed, ToolsClicked] i
   in started_in i = [] \<and> started_in i' = [''lint'']"
  by code_simp

text \<open>On a mobile the terminal is there only in its tab: Run switches to the tab, and the command reaches no terminal.\<close>

lemma mobile_run_lost:
  "let i = run_ide sample_host True [] [RunClicked]
   in mobile_tab i = ''terminal'' \<and> map_option notified (terminal i) = Some [] \<and> terminal_history i = []"
  by code_simp

text \<open>Leaving the tab loses the terminal, with its tabs and what they show.\<close>

lemma mobile_tab_loses_terminal:
  "let i = run_ide sample_host True [] [TabChosen ''terminal'', TerminalEvent (NewTab ''u'')];
       i' = fold (ide_step sample_host) [TabChosen ''editor'', TabChosen ''terminal''] i
   in map_option (length \<circ> tabs) (terminal i) = Some 2 \<and> map_option (length \<circ> tabs) (terminal i') = Some 1"
  by code_simp

text \<open>The dialog that closes a project is rendered on a desktop only: on a mobile the button shows nothing, and no
  later input of a mobile can confirm it.\<close>

lemma mobile_cannot_close_project:
  assumes "is_mobile i" and "\<nexists>b. e = BreakpointCrossed b"
  shows "\<not> close_dialog_shown (ide_step h e i) \<and> stop_requests (ide_step h e i) \<le> stop_requests i"
proof -
  have t: "is_mobile (in_terminal h x j) = is_mobile j" "stop_requests (in_terminal h x j) = stop_requests j" for x j
    by (simp_all add: in_terminal_def fold_commands Let_def split: option.split)
  have r: "stop_requests (fold (handleToolExecuted w now) rs j) = stop_requests j" for w now rs j
    by (induction rs arbitrary: j) (simp_all add: handleToolExecuted_def split: prod.split)
  have "is_mobile (ide_event h e i) \<and> stop_requests (ide_event h e i) \<le> stop_requests i"
    using assms by (cases e)
      (simp_all add: ide_event_def ide_handlers fold_executed handleRunClick_def close_dialog_shown_def t r Let_def
        split: option.split)
  moreover have "is_mobile (render_ide h j) = is_mobile j" "stop_requests (render_ide h j) = stop_requests j" for j
    by (simp_all add: render_ide_def render_panel_def render_terminal_def split: option.split)
  ultimately show ?thesis by (simp add: ide_step_def close_dialog_shown_def)
qed

text \<open>The re-run by keyboard opens the sheet of the tools, which a mobile does not render: nothing is executed.\<close>

lemma mobile_rerun_shows_nothing:
  "let i = run_ide sample_host True [] (run_once @ [TabChosen ''editor'', press_rerun 2])
   in active_panel i = Some ''tools'' \<and> sheet_shown i = None \<and> mobile_tab i = ''editor'' \<and> panel i = None"
  by code_simp

end
