(* ===== verification/Context_Libraries.thy ===== *)
theory Context_Libraries
  imports Filenames
begin

section \<open>The libraries of snippets and of system prompts\<close>

text \<open>
  \<^verbatim>\<open>components/context/snippet-library.tsx\<close> and \<^verbatim>\<open>prompt-library.tsx\<close>: two lists with a form that creates or edits
  an entry, and a dialog that deletes one.  The two share a record of their state, which each extends.  The requests
  of their hooks are calls in flight that are answered in any order; an answer is whether the request succeeded.
\<close>

subsection \<open>What they share\<close>

record form_text =
  ft_name :: string
  ft_content :: string
  ft_description :: string

definition blank_text :: form_text where
  "blank_text = \<lparr>ft_name = [], ft_content = [], ft_description = []\<rparr>"

datatype library_call =
    Create json
  | Update string json
  | Remove string
  | SetDefault string

record library =
  dialog_open :: bool
  editing_id :: "string option"
  delete_confirm :: "string option"
  saving :: bool
  form_text :: form_text
  form_error :: "string option"
  in_flight :: "library_call list"
  sent :: "library_call list"

definition start_call :: "library_call \<Rightarrow> 'a library_scheme \<Rightarrow> 'a library_scheme" where
  "start_call c s = s\<lparr>in_flight := in_flight s @ [c], sent := sent s @ [c]\<rparr>"

text \<open>The first thing that keeps a form from being saved.\<close>

definition missing_field :: "form_text \<Rightarrow> string option" where
  "missing_field f =
     (if trim (ft_name f) = [] then Some ''Name is required''
      else if trim (ft_content f) = [] then Some ''Content is required'' else None)"

text \<open>\<^verbatim>\<open>description.trim() || undefined\<close>\<close>

definition sent_description :: "form_text \<Rightarrow> json option" where
  "sent_description f = (if trim (ft_description f) = [] then None else Some (JStr (trim (ft_description f))))"

definition request_of :: "form_text \<Rightarrow> (string \<times> json option) list \<Rightarrow> json" where
  "request_of f rest =
     js_object ([(''name'', Some (JStr (trim (ft_name f)))), (''content'', Some (JStr (trim (ft_content f)))),
       (''description'', sent_description f)] @ rest)"

text \<open>\<open>editingId\<close> is tested for truth.\<close>

definition save_call :: "'a library_scheme \<Rightarrow> json \<Rightarrow> library_call" where
  "save_call s data = (if truthy_string (editing_id s) then Update (the (editing_id s)) data else Create data)"

subsection \<open>Snippets\<close>

record snippet =
  snippet_id :: string
  snippet_name :: string
  snippet_content :: string
  snippet_description :: "string option"
  snippet_tags :: "string list option"

record snippet_library = library +
  tags_text :: string
  deleting :: bool

definition initial_snippets :: snippet_library where
  "initial_snippets =
     \<lparr>dialog_open = False, editing_id = None, delete_confirm = None, saving = False, form_text = blank_text,
      form_error = None, in_flight = [], sent = [], tags_text = [], deleting = False\<rparr>"

definition snippet_resetForm :: "snippet_library \<Rightarrow> snippet_library" where
  "snippet_resetForm s =
     s\<lparr>form_text := blank_text, tags_text := [], editing_id := None, form_error := None, saving := False\<rparr>"

definition snippet_openCreate :: "snippet_library \<Rightarrow> snippet_library" where
  "snippet_openCreate s = (snippet_resetForm s)\<lparr>dialog_open := True\<rparr>"

definition snippet_openEdit :: "snippet \<Rightarrow> snippet_library \<Rightarrow> snippet_library" where
  "snippet_openEdit x s =
     s\<lparr>editing_id := Some (snippet_id x),
       form_text := \<lparr>ft_name = snippet_name x, ft_content = snippet_content x,
         ft_description = nullish (snippet_description x) []\<rparr>,
       tags_text := (case snippet_tags x of None \<Rightarrow> [] | Some ts \<Rightarrow> join '', '' ts),
       form_error := None, saving := False, dialog_open := True\<rparr>"

definition parsedTags :: "string \<Rightarrow> string list" where
  "parsedTags v = filter (\<lambda>t. t \<noteq> []) (map trim (split_on CHR '','' v))"

definition sent_tags :: "string list \<Rightarrow> json option" where
  "sent_tags ts = (if 0 < length ts then Some (JArr (map JStr ts)) else None)"

definition snippet_handleSave :: "snippet_library \<Rightarrow> snippet_library" where
  "snippet_handleSave s =
     (if saving s then s
      else case missing_field (form_text s) of
             Some m \<Rightarrow> s\<lparr>form_error := Some m\<rparr>
           | None \<Rightarrow>
               start_call (save_call s (request_of (form_text s) [(''tags'', sent_tags (parsedTags (tags_text s)))]))
                 (s\<lparr>saving := True, form_error := None\<rparr>))"

definition snippet_handleDelete :: "snippet_library \<Rightarrow> snippet_library" where
  "snippet_handleDelete s =
     (if truthy_string (delete_confirm s) \<and> \<not> deleting s
      then start_call (Remove (the (delete_confirm s))) (s\<lparr>deleting := True\<rparr>) else s)"

fun snippet_after :: "library_call \<Rightarrow> bool \<Rightarrow> snippet_library \<Rightarrow> snippet_library" where
  "snippet_after (Remove i) ok s =
     (if ok then s\<lparr>deleting := False, delete_confirm := None\<rparr> else s\<lparr>deleting := False\<rparr>)"
| "snippet_after (Update i d) ok s =
     (if ok then snippet_resetForm (s\<lparr>saving := False, dialog_open := False\<rparr>)
      else s\<lparr>form_error := Some ''Failed to update snippet'', saving := False\<rparr>)"
| "snippet_after (Create d) ok s =
     (if ok then snippet_resetForm (s\<lparr>saving := False, dialog_open := False\<rparr>)
      else s\<lparr>form_error := Some ''Failed to create snippet'', saving := False\<rparr>)"
| "snippet_after (SetDefault i) ok s = s"

subsection \<open>System prompts\<close>

record system_prompt =
  prompt_id :: string
  prompt_name :: string
  prompt_content :: string
  prompt_description :: "string option"
  prompt_default :: bool

record prompt_library = library +
  is_default :: bool

definition initial_prompts :: prompt_library where
  "initial_prompts =
     \<lparr>dialog_open = False, editing_id = None, delete_confirm = None, saving = False, form_text = blank_text,
      form_error = None, in_flight = [], sent = [], is_default = False\<rparr>"

text \<open>Unlike that of the snippets, this one leaves \<open>saving\<close>.\<close>

definition prompt_resetForm :: "prompt_library \<Rightarrow> prompt_library" where
  "prompt_resetForm s = s\<lparr>form_text := blank_text, is_default := False, editing_id := None, form_error := None\<rparr>"

definition prompt_openCreate :: "prompt_library \<Rightarrow> prompt_library" where
  "prompt_openCreate s = (prompt_resetForm s)\<lparr>dialog_open := True\<rparr>"

definition prompt_openEdit :: "system_prompt \<Rightarrow> prompt_library \<Rightarrow> prompt_library" where
  "prompt_openEdit x s =
     s\<lparr>editing_id := Some (prompt_id x),
       form_text := \<lparr>ft_name = prompt_name x, ft_content = prompt_content x,
         ft_description = nullish (prompt_description x) []\<rparr>,
       is_default := prompt_default x, form_error := None, dialog_open := True\<rparr>"

text \<open>The button is disabled while it saves.\<close>

definition prompt_handleSave :: "prompt_library \<Rightarrow> prompt_library" where
  "prompt_handleSave s =
     (if saving s then s
      else case missing_field (form_text s) of
             Some m \<Rightarrow> s\<lparr>form_error := Some m\<rparr>
           | None \<Rightarrow>
               start_call (save_call s (request_of (form_text s) [(''is_default'', Some (JBool (is_default s)))]))
                 (s\<lparr>saving := True, form_error := None\<rparr>))"

definition prompt_handleDelete :: "prompt_library \<Rightarrow> prompt_library" where
  "prompt_handleDelete s =
     (if truthy_string (delete_confirm s) then start_call (Remove (the (delete_confirm s))) s else s)"

fun prompt_after :: "library_call \<Rightarrow> bool \<Rightarrow> prompt_library \<Rightarrow> prompt_library" where
  "prompt_after (Remove i) ok s = (if ok then s\<lparr>delete_confirm := None\<rparr> else s)"
| "prompt_after (Update i d) ok s =
     (if ok then prompt_resetForm (s\<lparr>saving := False, dialog_open := False\<rparr>)
      else s\<lparr>form_error := Some ''Failed to update prompt'', saving := False\<rparr>)"
| "prompt_after (Create d) ok s =
     (if ok then prompt_resetForm (s\<lparr>saving := False, dialog_open := False\<rparr>)
      else s\<lparr>form_error := Some ''Failed to create prompt'', saving := False\<rparr>)"
| "prompt_after (SetDefault i) ok s = s"

subsection \<open>Events\<close>

text \<open>What the two differ in.\<close>

record ('i, 's) library_ops =
  op_create :: "'s \<Rightarrow> 's"
  op_edit :: "'i \<Rightarrow> 's \<Rightarrow> 's"
  op_reset :: "'s \<Rightarrow> 's"
  op_save :: "'s \<Rightarrow> 's"
  op_delete :: "'s \<Rightarrow> 's"
  op_after :: "library_call \<Rightarrow> bool \<Rightarrow> 's \<Rightarrow> 's"

definition snippet_ops :: "(snippet, snippet_library) library_ops" where
  "snippet_ops =
     \<lparr>op_create = snippet_openCreate, op_edit = snippet_openEdit, op_reset = snippet_resetForm,
      op_save = snippet_handleSave, op_delete = snippet_handleDelete, op_after = snippet_after\<rparr>"

definition prompt_ops :: "(system_prompt, prompt_library) library_ops" where
  "prompt_ops =
     \<lparr>op_create = prompt_openCreate, op_edit = prompt_openEdit, op_reset = prompt_resetForm,
      op_save = prompt_handleSave, op_delete = prompt_handleDelete, op_after = prompt_after\<rparr>"

text \<open>\<open>Typed\<close> is a change of the three fields that both have, \<open>Other\<close> one of the field that only one has.\<close>

datatype ('i, 's) library_input =
    NewClicked
  | EditClicked 'i
  | Typed form_text
  | Other "'s \<Rightarrow> 's"
  | SaveClicked
  | FormClosed
  | DeleteClicked string
  | DeleteConfirmed
  | DeleteCancelled
  | DefaultClicked string
  | Answer nat bool

definition call_answered ::
  "('i, 'a library_scheme) library_ops \<Rightarrow> nat \<Rightarrow> bool \<Rightarrow> 'a library_scheme \<Rightarrow> 'a library_scheme" where
  "call_answered ops k ok s =
     (if k < length (in_flight s)
      then op_after ops (in_flight s ! k) ok (s\<lparr>in_flight := take k (in_flight s) @ drop (Suc k) (in_flight s)\<rparr>)
      else s)"

fun library_step ::
  "('i, 'a library_scheme) library_ops \<Rightarrow> ('i, 'a library_scheme) library_input \<Rightarrow> 'a library_scheme \<Rightarrow> 'a library_scheme" where
  "library_step ops NewClicked s = op_create ops s"
| "library_step ops (EditClicked x) s = op_edit ops x s"
| "library_step ops (Typed f) s = (if dialog_open s then s\<lparr>form_text := f\<rparr> else s)"
| "library_step ops (Other g) s = (if dialog_open s then g s else s)"
| "library_step ops SaveClicked s = (if dialog_open s then op_save ops s else s)"
| "library_step ops FormClosed s = op_reset ops (s\<lparr>dialog_open := False\<rparr>)"
| "library_step ops (DeleteClicked i) s = s\<lparr>delete_confirm := Some i\<rparr>"
| "library_step ops DeleteConfirmed s = op_delete ops s"
| "library_step ops DeleteCancelled s = s\<lparr>delete_confirm := None\<rparr>"
| "library_step ops (DefaultClicked i) s = start_call (SetDefault i) s"
| "library_step ops (Answer k ok) s = call_answered ops k ok s"

definition set_tags :: "string \<Rightarrow> snippet_library \<Rightarrow> snippet_library" where
  "set_tags v s = s\<lparr>tags_text := v\<rparr>"

definition toggle_default :: "prompt_library \<Rightarrow> prompt_library" where
  "toggle_default s = s\<lparr>is_default := \<not> is_default s\<rparr>"

subsection \<open>What every request has\<close>

text \<open>A request with a name and a content that are trimmed and not empty.\<close>

definition complete_request :: "json \<Rightarrow> bool" where
  "complete_request d \<longleftrightarrow>
     (\<exists>n c rest. d = JObj ((''name'', JStr n) # (''content'', JStr c) # rest) \<and> trim n = n \<and> n \<noteq> [] \<and> trim c = c \<and> c \<noteq> [])"

definition complete_call :: "library_call \<Rightarrow> bool" where
  "complete_call c =
     (case c of Create d \<Rightarrow> complete_request d | Update i d \<Rightarrow> i \<noteq> [] \<and> complete_request d
      | Remove i \<Rightarrow> i \<noteq> [] | SetDefault i \<Rightarrow> True)"

lemma request_complete: "missing_field f = None \<Longrightarrow> complete_request (request_of f rest)"
  by (auto simp: missing_field_def complete_request_def request_of_def js_object_def sent_description_def trim_idem
      split: if_splits)

lemma save_call_complete: "missing_field f = None \<Longrightarrow> complete_call (save_call s (request_of f rest))"
  by (auto simp: save_call_def complete_call_def request_complete truthy_string_def)

text \<open>The contract of a library: only saving and deleting send something, and saving only a form that lacks nothing.\<close>

locale form_library =
  fixes ops :: "('i, 'a library_scheme) library_ops"
  assumes create_sends: "sent (op_create ops s) = sent s"
    and edit_sends: "sent (op_edit ops x s) = sent s"
    and reset_sends: "sent (op_reset ops s) = sent s"
    and after_sends: "sent (op_after ops c ok s) = sent s"
    and save_sends: "sent (op_save ops s) = sent s \<or>
      missing_field (form_text s) = None \<and> (\<exists>rest. sent (op_save ops s) = sent s @ [save_call s (request_of (form_text s) rest)])"
    and delete_sends: "sent (op_delete ops s) = sent s \<or> (\<exists>i. i \<noteq> [] \<and> sent (op_delete ops s) = sent s @ [Remove i])"
begin

lemma step_complete:
  assumes s: "\<forall>c\<in>set (sent s). complete_call c" and e: "\<And>g. e = Other g \<Longrightarrow> sent (g s) = sent s"
  shows "\<forall>c\<in>set (sent (library_step ops e s)). complete_call c"
proof (cases e)
  case SaveClicked
  show ?thesis using s save_sends [of s] save_call_complete by (auto simp: SaveClicked)
next
  case DeleteConfirmed
  show ?thesis using s delete_sends [of s] by (auto simp: DeleteConfirmed complete_call_def)
qed (use s e in \<open>auto simp: create_sends edit_sends reset_sends after_sends call_answered_def start_call_def complete_call_def\<close>)

lemma run_complete:
  assumes "sent s0 = []" and "\<And>g s. Other g \<in> set es \<Longrightarrow> sent (g s) = sent s"
  shows "\<forall>c\<in>set (sent (fold (library_step ops) es s0)). complete_call c"
proof -
  have "\<forall>c\<in>set (sent (fold (library_step ops) es s)). complete_call c" if "\<forall>c\<in>set (sent s). complete_call c" for s
    using that assms(2)
  proof (induction es arbitrary: s)
    case (Cons e es)
    have "\<forall>c\<in>set (sent (library_step ops e s)). complete_call c" using Cons.prems by (intro step_complete) auto
    then show ?case using Cons.IH Cons.prems(2) by auto
  qed simp
  from this [of s0] show ?thesis by (simp add: assms(1))
qed

end

interpretation snippets: form_library snippet_ops
proof
  fix s :: snippet_library and x c ok
  show "sent (op_create snippet_ops s) = sent s"
    by (simp add: snippet_ops_def snippet_openCreate_def snippet_resetForm_def)
  show "sent (op_edit snippet_ops x s) = sent s" by (simp add: snippet_ops_def snippet_openEdit_def)
  show "sent (op_reset snippet_ops s) = sent s" by (simp add: snippet_ops_def snippet_resetForm_def)
  show "sent (op_after snippet_ops c ok s) = sent s"
    by (cases c) (simp_all add: snippet_ops_def snippet_resetForm_def)
  show "sent (op_save snippet_ops s) = sent s \<or> missing_field (form_text s) = None \<and>
      (\<exists>rest. sent (op_save snippet_ops s) = sent s @ [save_call s (request_of (form_text s) rest)])"
    by (auto simp: snippet_ops_def snippet_handleSave_def start_call_def split: option.split)
  show "sent (op_delete snippet_ops s) = sent s \<or> (\<exists>i. i \<noteq> [] \<and> sent (op_delete snippet_ops s) = sent s @ [Remove i])"
    by (auto simp: snippet_ops_def snippet_handleDelete_def start_call_def truthy_string_def)
qed

interpretation prompts: form_library prompt_ops
proof
  fix s :: prompt_library and x c ok
  show "sent (op_create prompt_ops s) = sent s"
    by (simp add: prompt_ops_def prompt_openCreate_def prompt_resetForm_def)
  show "sent (op_edit prompt_ops x s) = sent s" by (simp add: prompt_ops_def prompt_openEdit_def)
  show "sent (op_reset prompt_ops s) = sent s" by (simp add: prompt_ops_def prompt_resetForm_def)
  show "sent (op_after prompt_ops c ok s) = sent s"
    by (cases c) (simp_all add: prompt_ops_def prompt_resetForm_def)
  show "sent (op_save prompt_ops s) = sent s \<or> missing_field (form_text s) = None \<and>
      (\<exists>rest. sent (op_save prompt_ops s) = sent s @ [save_call s (request_of (form_text s) rest)])"
    by (auto simp: prompt_ops_def prompt_handleSave_def start_call_def split: option.split)
  show "sent (op_delete prompt_ops s) = sent s \<or> (\<exists>i. i \<noteq> [] \<and> sent (op_delete prompt_ops s) = sent s @ [Remove i])"
    by (auto simp: prompt_ops_def prompt_handleDelete_def start_call_def truthy_string_def)
qed

text \<open>The inputs whose other field is that of the library.\<close>

fun snippet_input :: "(snippet, snippet_library) library_input \<Rightarrow> bool" where
  "snippet_input (Other g) = (\<exists>v. g = set_tags v)"
| "snippet_input e = True"

fun prompt_input :: "(system_prompt, prompt_library) library_input \<Rightarrow> bool" where
  "prompt_input (Other g) = (g = toggle_default)"
| "prompt_input e = True"

text \<open>Whatever happens in the two libraries, every request to create or change an entry has a name and a content that
  are not blank and have no blanks around them, and no request is for an entry without an id.\<close>

theorem library_requests_complete:
  "list_all snippet_input es \<Longrightarrow> \<forall>c\<in>set (sent (fold (library_step snippet_ops) es initial_snippets)). complete_call c"
  "list_all prompt_input fs \<Longrightarrow> \<forall>c\<in>set (sent (fold (library_step prompt_ops) fs initial_prompts)). complete_call c"
proof -
  assume "list_all snippet_input es"
  then have "sent (g s) = sent s" if "Other g \<in> set es" for g s
    using that by (auto simp: list_all_iff set_tags_def dest!: bspec)
  then show "\<forall>c\<in>set (sent (fold (library_step snippet_ops) es initial_snippets)). complete_call c"
    by (intro snippets.run_complete) (simp_all add: initial_snippets_def)
next
  assume "list_all prompt_input fs"
  then have "sent (g s) = sent s" if "Other g \<in> set fs" for g s
    using that by (auto simp: list_all_iff toggle_default_def dest!: bspec)
  then show "\<forall>c\<in>set (sent (fold (library_step prompt_ops) fs initial_prompts)). complete_call c"
    by (intro prompts.run_complete) (simp_all add: initial_prompts_def)
qed

text \<open>An entry that is opened and saved unchanged is sent as it was.\<close>

theorem unchanged_snippet_sent:
  assumes "missing_field (form_text (snippet_openEdit x s)) = None" and "snippet_id x \<noteq> []"
    and "snippet_tags x = Some ts" and "\<forall>t \<in> set ts. trim t = t \<and> t \<noteq> [] \<and> CHR '','' \<notin> set t"
  shows "sent (snippet_handleSave (snippet_openEdit x s)) =
    sent s @ [Update (snippet_id x) (request_of (form_text (snippet_openEdit x s)) [(''tags'', sent_tags ts)])]"
proof -
  have "parsedTags (join '', '' ts) = ts" unfolding parsedTags_def using assms(4) by (rule tags_of_joined)
  then show ?thesis using assms(1-3)
    by (simp add: snippet_handleSave_def snippet_openEdit_def start_call_def save_call_def truthy_string_def)
qed

subsection \<open>Where the libraries do what they do not mean to\<close>

definition old_snippet :: snippet where
  "old_snippet =
     \<lparr>snippet_id = ''1'', snippet_name = ''a'', snippet_content = ''b'', snippet_description = Some ''old'',
      snippet_tags = Some [''t'']\<rparr>"

text \<open>A description and tags that were emptied are left out of the request, so the server keeps the old ones.\<close>

lemma emptied_fields_not_sent:
  "sent (fold (library_step snippet_ops)
      [EditClicked old_snippet, Typed \<lparr>ft_name = ''a'', ft_content = ''b'', ft_description = []\<rparr>, Other (set_tags []), SaveClicked]
      initial_snippets) =
     [Update ''1'' (JObj [(''name'', JStr ''a''), (''content'', JStr ''b'')])]"
  by code_simp

definition typed_text :: form_text where
  "typed_text = \<lparr>ft_name = ''n'', ft_content = ''c'', ft_description = []\<rparr>"

text \<open>The answer to a save whose form was closed closes the form that was opened since, with what was typed.\<close>

lemma late_save_closes_new_snippet:
  "let s = fold (library_step snippet_ops) [NewClicked, Typed typed_text, SaveClicked, FormClosed, NewClicked, Typed typed_text]
         initial_snippets;
       s' = library_step snippet_ops (Answer 0 True) s
   in dialog_open s \<and> \<not> dialog_open s' \<and> form_text s' = blank_text"
  by code_simp

text \<open>The form of the prompts does not reset its flag: while the save of a closed form runs, the next one cannot be
  saved.\<close>

lemma closed_save_blocks_next_prompt:
  "let s = fold (library_step prompt_ops) [NewClicked, Typed typed_text, SaveClicked, FormClosed, NewClicked, Typed typed_text]
         initial_prompts
   in library_step prompt_ops SaveClicked s = s"
  by code_simp

text \<open>A second click on the deletion of a prompt sends it again.\<close>

lemma prompt_deleted_twice:
  "sent (fold (library_step prompt_ops) [DeleteClicked ''1'', DeleteConfirmed, DeleteConfirmed] initial_prompts) =
     [Remove ''1'', Remove ''1'']"
  by code_simp

end
