(* ===== verification/Editor_Pane.thy ===== *)
theory Editor_Pane
  imports Base
begin

section \<open>The editor of the workspace\<close>

text \<open>
  \<^verbatim>\<open>components/workspace/editor/editor-pane.tsx\<close> with the tabs of \<^verbatim>\<open>editor-tabs.tsx\<close>: the open files, loading the file
  that the explorer selects, editing and saving.  Loads and saves are requests in flight, answered in any order; the
  effect that opens the selected file runs when the selection has changed, and cancels the load before it.  What the
  server is known to hold is kept beside the state: the content that was loaded or saved last.  Strings are bytes.
\<close>

subsection \<open>State\<close>

record open_file =
  file_path :: string
  file_name :: string
  file_content :: string
  file_language :: string
  is_dirty :: bool
  saved_content :: string
  is_large :: bool
  byte_size :: nat

record editor =
  project :: "string option"
  selected_file :: "string option"
  files :: "open_file list"
  active_file :: string
  saving :: bool
  loading_file :: bool
  loads :: "(string \<times> bool) list"
  saves :: "(string \<times> string) list"
  on_server :: "(string \<times> string) list"

definition initial_editor :: "string option \<Rightarrow> editor" where
  "initial_editor proj =
     \<lparr>project = proj, selected_file = None, files = [], active_file = [], saving = False, loading_file = False,
      loads = [], saves = [], on_server = []\<rparr>"

definition MAX_EDITOR_FILE_SIZE :: nat where
  "MAX_EDITOR_FILE_SIZE = 5 * 1024 * 1024"

definition currentFile :: "editor \<Rightarrow> open_file option" where
  "currentFile s = find_by file_path (active_file s) (files s)"

text \<open>The part after the last slash.\<close>

definition last_part :: "string \<Rightarrow> string" where
  "last_part p = rev (takeWhile (\<lambda>c. c \<noteq> CHR ''/'') (rev p))"

subsection \<open>Opening\<close>

text \<open>The effect on the selected file; the load of an earlier selection is cancelled first.\<close>

definition open_selected :: "editor \<Rightarrow> editor" where
  "open_selected s =
     (let s1 = s\<lparr>loads := map (\<lambda>(p, c). (p, True)) (loads s)\<rparr>
      in case selected_file s1 of
           None \<Rightarrow> s1
         | Some p \<Rightarrow>
             if p = [] \<or> \<not> truthy_string (project s1) then s1
             else if find_by file_path p (files s1) \<noteq> None then s1\<lparr>active_file := p\<rparr>
             else s1\<lparr>loading_file := True, loads := loads s1 @ [(p, False)]\<rparr>)"

definition select_file :: "string option \<Rightarrow> editor \<Rightarrow> editor" where
  "select_file p s = (if p = selected_file s then s else open_selected (s\<lparr>selected_file := p\<rparr>))"

definition new_file :: "string \<Rightarrow> string \<Rightarrow> string \<Rightarrow> string \<Rightarrow> open_file" where
  "new_file requested path content language =
     \<lparr>file_path = path, file_name = last_part requested, file_content = content, file_language = language,
      is_dirty = False, saved_content = content, is_large = MAX_EDITOR_FILE_SIZE < length content,
      byte_size = length content\<rparr>"

text \<open>The answer to a load: its path, content and language, or none if it failed.\<close>

definition load_answered :: "nat \<Rightarrow> (string \<times> string \<times> string) option \<Rightarrow> editor \<Rightarrow> editor" where
  "load_answered k answer s =
     (if k < length (loads s)
      then (let (requested, cancelled) = loads s ! k;
                s1 = s\<lparr>loads := take k (loads s) @ drop (Suc k) (loads s)\<rparr>
            in if cancelled then s1
               else case answer of
                      None \<Rightarrow> s1\<lparr>loading_file := False\<rparr>
                    | Some (path, content, language) \<Rightarrow>
                        s1\<lparr>files := files s1 @ [new_file requested path content language], active_file := path,
                          loading_file := False, on_server := AList.update path content (on_server s1)\<rparr>)
      else s)"

subsection \<open>Editing and saving\<close>

definition handleClose :: "string \<Rightarrow> editor \<Rightarrow> editor" where
  "handleClose path s =
     (let remaining = filter_out file_path path (files s)
      in s\<lparr>files := remaining,
           active_file := (if active_file s = path
             then (case remaining of [] \<Rightarrow> [] | f # fs \<Rightarrow> file_path f) else active_file s)\<rparr>)"

definition handleChange :: "string option \<Rightarrow> editor \<Rightarrow> editor" where
  "handleChange v s =
     (case v of
        None \<Rightarrow> s
      | Some value \<Rightarrow>
          if active_file s = [] then s
          else s\<lparr>files := map_where file_path (active_file s)
              (\<lambda>f. f\<lparr>file_content := value, is_dirty := value \<noteq> saved_content f\<rparr>) (files s)\<rparr>)"

definition handleSave :: "editor \<Rightarrow> editor" where
  "handleSave s =
     (case currentFile s of
        None \<Rightarrow> s
      | Some f \<Rightarrow>
          if \<not> truthy_string (project s) \<or> \<not> is_dirty f then s
          else s\<lparr>saving := True, saves := saves s @ [(file_path f, file_content f)]\<rparr>)"

definition save_answered :: "nat \<Rightarrow> bool \<Rightarrow> editor \<Rightarrow> editor" where
  "save_answered k ok s =
     (if k < length (saves s)
      then (let (path, sent) = saves s ! k;
                s1 = s\<lparr>saves := take k (saves s) @ drop (Suc k) (saves s), saving := False\<rparr>
            in if ok
               then s1\<lparr>files := map_where file_path path (\<lambda>f. f\<lparr>is_dirty := False, saved_content := file_content f\<rparr>) (files s1),
                      on_server := AList.update path sent (on_server s1)\<rparr>
               else s1)
      else s)"

definition handleLoadLargeFile :: "string \<Rightarrow> editor \<Rightarrow> editor" where
  "handleLoadLargeFile path s = s\<lparr>files := map_where file_path path (\<lambda>f. f\<lparr>is_large := False\<rparr>) (files s)\<rparr>"

definition editor_shown :: "editor \<Rightarrow> bool" where
  "editor_shown s \<longleftrightarrow> (case currentFile s of None \<Rightarrow> False | Some f \<Rightarrow> \<not> is_large f)"

datatype editor_input =
    FileSelected "string option"
  | LoadAnswered nat "(string \<times> string \<times> string) option"
  | TabSelected string
  | TabClosed string
  | Edited string
  | SavePressed
  | SaveAnswered nat bool
  | LoadAnyway

fun editor_step :: "editor_input \<Rightarrow> editor \<Rightarrow> editor" where
  "editor_step (FileSelected p) s = select_file p s"
| "editor_step (LoadAnswered k a) s = load_answered k a s"
| "editor_step (TabSelected p) s = (if p \<in> file_path ` set (files s) then s\<lparr>active_file := p\<rparr> else s)"
| "editor_step (TabClosed p) s = handleClose p s"
| "editor_step (Edited v) s = (if editor_shown s then handleChange (Some v) s else s)"
| "editor_step SavePressed s = handleSave s"
| "editor_step (SaveAnswered k ok) s = save_answered k ok s"
| "editor_step LoadAnyway s = handleLoadLargeFile (active_file s) s"

subsection \<open>The tabs\<close>

text \<open>The server answers with the file that was asked for.\<close>

fun honest :: "editor \<Rightarrow> editor_input \<Rightarrow> bool" where
  "honest s (LoadAnswered k (Some (path, content, language))) = (k < length (loads s) \<longrightarrow> path = fst (loads s ! k))"
| "honest s e = True"

text \<open>A file with a save in flight is neither edited nor closed.\<close>

fun unhurried :: "editor \<Rightarrow> editor_input \<Rightarrow> bool" where
  "unhurried s (Edited v) = (active_file s \<notin> fst ` set (saves s))"
| "unhurried s (TabClosed p) = (p \<notin> fst ` set (saves s))"
| "unhurried s e = True"

fun all_along :: "(editor \<Rightarrow> editor_input \<Rightarrow> bool) \<Rightarrow> editor_input list \<Rightarrow> editor \<Rightarrow> bool" where
  "all_along P [] s = True"
| "all_along P (e # es) s = (P s e \<and> all_along P es (editor_step e s))"

definition paths :: "editor \<Rightarrow> string list" where
  "paths s = map file_path (files s)"

definition waiting :: "editor \<Rightarrow> string list" where
  "waiting s = map fst (filter (\<lambda>(p, c). \<not> c) (loads s))"

definition tabs_ok :: "editor \<Rightarrow> bool" where
  "tabs_ok s \<longleftrightarrow>
     distinct (waiting s @ paths s) \<and> length (waiting s) \<le> 1 \<and> [] \<notin> set (waiting s @ paths s) \<and>
     (files s = [] \<longrightarrow> active_file s = []) \<and> (files s \<noteq> [] \<longrightarrow> active_file s \<in> set (paths s)) \<and>
     (\<forall>f\<in>set (files s). is_dirty f \<longleftrightarrow> file_content f \<noteq> saved_content f)"

lemma tabs_ok_fields [simp]:
  "tabs_ok (s\<lparr>saves := x\<rparr>) = tabs_ok s" "tabs_ok (s\<lparr>saving := b\<rparr>) = tabs_ok s" "tabs_ok (s\<lparr>on_server := m\<rparr>) = tabs_ok s"
  "tabs_ok (s\<lparr>loading_file := b\<rparr>) = tabs_ok s"
  by (simp_all add: tabs_ok_def paths_def waiting_def)

lemma find_path_None: "find_by file_path p (files s) = None \<longleftrightarrow> p \<notin> set (paths s)"
  by (simp add: find_by_None_iff paths_def)

lemma cancelled_waiting: "filter (\<lambda>(p, c). \<not> c) (map (\<lambda>(p, c). (p, True)) xs) = ([] :: (string \<times> bool) list)"
  by (induction xs) auto

lemma select_ok: "tabs_ok s \<Longrightarrow> tabs_ok (select_file p s)"
  by (auto simp: tabs_ok_def select_file_def open_selected_def waiting_def paths_def cancelled_waiting find_by_None_iff Let_def
      dest: find_by_SomeD split: option.split)

lemma waiting_removed:
  assumes "k < length xs"
  shows "filter P xs = filter P (take k xs) @ (if P (xs ! k) then [xs ! k] else []) @ filter P (drop (Suc k) xs)"
proof -
  have "xs = take k xs @ xs ! k # drop (Suc k) xs" using assms by (rule id_take_nth_drop)
  then have "filter P xs = filter P (take k xs @ xs ! k # drop (Suc k) xs)" by simp
  then show ?thesis by simp
qed

lemma load_ok:
  assumes s: "tabs_ok s" and h: "honest s (LoadAnswered k a)"
  shows "tabs_ok (load_answered k a s)"
proof (cases "k < length (loads s)")
  case True
  obtain p c where l: "loads s ! k = (p, c)" by (cases "loads s ! k")
  let ?s = "s\<lparr>loads := take k (loads s) @ drop (Suc k) (loads s)\<rparr>"
  have w: "waiting s = map fst (filter (\<lambda>(p, c). \<not> c) (take k (loads s))) @ (if c then [] else [p]) @
      map fst (filter (\<lambda>(p, c). \<not> c) (drop (Suc k) (loads s)))"
    unfolding waiting_def waiting_removed [OF True] by (simp add: l)
  have w': "waiting ?s = map fst (filter (\<lambda>(p, c). \<not> c) (take k (loads s))) @
      map fst (filter (\<lambda>(p, c). \<not> c) (drop (Suc k) (loads s)))" by (simp add: waiting_def)
  have ok: "tabs_ok ?s" using s unfolding tabs_ok_def w w' by (auto simp: paths_def split: if_splits)
  have step: "load_answered k a s = (if c then ?s else case a of None \<Rightarrow> ?s\<lparr>loading_file := False\<rparr>
      | Some (path, content, language) \<Rightarrow> ?s\<lparr>files := files s @ [new_file p path content language], active_file := path,
          loading_file := False, on_server := AList.update path content (on_server s)\<rparr>)"
    using True by (simp add: load_answered_def l Let_def split: option.split)
  have add: "tabs_ok (?s\<lparr>files := files s @ [new_file p p content language], active_file := p\<rparr>)" if "\<not> c" for content language
  proof -
    have n: "waiting ?s = []" "p \<notin> set (paths s)" "p \<noteq> []" "[] \<notin> set (paths s)" "distinct (paths s)"
      using s that unfolding tabs_ok_def w w' by auto
    let ?t = "?s\<lparr>files := files s @ [new_file p p content language], active_file := p\<rparr>"
    have "waiting ?t = []" "paths ?t = paths s @ [p]" "files ?t \<noteq> []" "active_file ?t = p"
      using n(1) by (simp_all add: waiting_def paths_def new_file_def)
    moreover have "\<forall>f\<in>set (files ?t). is_dirty f = (file_content f \<noteq> saved_content f)"
      using s by (simp add: tabs_ok_def new_file_def)
    ultimately show ?thesis using n unfolding tabs_ok_def by simp
  qed
  show ?thesis
  proof (cases a)
    case (Some x)
    then obtain content language where x: "c \<or> a = Some (p, content, language)"
      using h True l by (cases x) auto
    then show ?thesis using ok add [of content language] unfolding step by auto
  next
    case None
    show ?thesis unfolding step using ok by (simp add: None)
  qed
qed (use s in \<open>simp add: load_answered_def\<close>)

lemma map_where_tabs:
  assumes "tabs_ok s" and "\<And>f. file_path (g f) = file_path f"
    and "\<And>f. is_dirty f = (file_content f \<noteq> saved_content f) \<Longrightarrow> is_dirty (g f) = (file_content (g f) \<noteq> saved_content (g f))"
  shows "tabs_ok (s\<lparr>files := map_where file_path p g (files s)\<rparr>)"
proof -
  have p: "map file_path (map_where file_path p g (files s)) = map file_path (files s)"
    using assms(2) by (rule keys_map_where)
  have "is_dirty f = (file_content f \<noteq> saved_content f)" if "f \<in> set (map_where file_path p g (files s))" for f
    using that assms(1,3) by (auto simp: map_where_def tabs_ok_def)
  moreover have "map_where file_path p g (files s) = [] \<longleftrightarrow> files s = []" by (simp add: map_where_def)
  ultimately show ?thesis using assms(1) by (simp add: tabs_ok_def paths_def waiting_def p)
qed

lemma close_ok: "tabs_ok s \<Longrightarrow> tabs_ok (handleClose p s)"
proof -
  assume s: "tabs_ok s"
  let ?r = "filter_out file_path p (files s)" and ?t = "handleClose p s"
  have f: "files ?t = ?r" and w: "waiting ?t = waiting s" by (simp_all add: handleClose_def Let_def waiting_def)
  have q: "paths ?t = filter (\<lambda>x. x \<noteq> p) (paths s)" by (simp add: paths_def f keys_filter_out)
  have dirty: "\<forall>x\<in>set (files ?t). is_dirty x = (file_content x \<noteq> saved_content x)"
    using s by (simp add: f tabs_ok_def)
  have dist: "distinct (waiting ?t @ paths ?t)" and none: "[] \<notin> set (waiting ?t @ paths ?t)" and one: "length (waiting ?t) \<le> 1"
    using s by (auto simp: w q tabs_ok_def)
  have act: "active_file ?t = (if active_file s = p then (case ?r of [] \<Rightarrow> [] | x # xs \<Rightarrow> file_path x) else active_file s)"
    by (simp add: handleClose_def Let_def)
  have gone: "active_file ?t = []" if "files ?t = []"
  proof (cases "active_file s = p \<or> files s = []")
    case False
    then have "active_file s \<in> set (paths ?t)" using s by (simp add: q tabs_ok_def)
    then show ?thesis using that by (simp add: paths_def)
  next
    case True
    then show ?thesis using s that by (auto simp: act f tabs_ok_def)
  qed
  have there: "active_file ?t \<in> set (paths ?t)" if r: "files ?t \<noteq> []"
  proof (cases "active_file s = p")
    case True
    obtain x xs where x: "?r = x # xs" using r f by (cases ?r) auto
    have "file_path x \<in> set (paths ?t)" by (simp add: paths_def f x)
    then show ?thesis by (simp add: act True x)
  next
    case False
    have "files s \<noteq> []" using r f by auto
    then show ?thesis using s False by (simp add: act q tabs_ok_def)
  qed
  show ?thesis unfolding tabs_ok_def using dirty dist none one gone there by blast
qed

lemma editor_step_ok: "tabs_ok s \<Longrightarrow> honest s e \<Longrightarrow> tabs_ok (editor_step e s)"
proof (cases e)
  case (Edited v)
  assume s: "tabs_ok s"
  show ?thesis using s map_where_tabs [OF s, of "\<lambda>f. f\<lparr>file_content := v, is_dirty := v \<noteq> saved_content f\<rparr>"]
    by (simp add: Edited handleChange_def)
next
  case (SaveAnswered k ok)
  assume s: "tabs_ok s"
  let ?s = "s\<lparr>saves := take k (saves s) @ drop (Suc k) (saves s), saving := False\<rparr>"
  have t: "tabs_ok ?s" using s by (simp add: tabs_ok_def paths_def waiting_def)
  have "tabs_ok (?s\<lparr>files := map_where file_path p (\<lambda>f. f\<lparr>is_dirty := False, saved_content := file_content f\<rparr>) (files ?s)\<rparr>)" for p
    by (rule map_where_tabs [OF t]) simp_all
  then have "tabs_ok (?s\<lparr>files := map_where file_path p (\<lambda>f. f\<lparr>is_dirty := False, saved_content := file_content f\<rparr>) (files ?s),
      on_server := m\<rparr>)" for p m by (simp add: tabs_ok_def paths_def waiting_def)
  then show ?thesis using s t by (auto simp: SaveAnswered save_answered_def Let_def split: prod.split)
next
  case LoadAnyway
  assume s: "tabs_ok s"
  show ?thesis unfolding LoadAnyway editor_step.simps handleLoadLargeFile_def by (rule map_where_tabs [OF s]) simp_all
qed (simp_all add: select_ok load_ok close_ok, auto simp: tabs_ok_def paths_def waiting_def handleSave_def split: option.split)

text \<open>The tabs of the editor stay in order: with a server that answers what was asked for, the open files have different
  paths, the active one is open if any is, at most one load is waited for, and a file is marked as changed exactly when
  its content differs from what was saved.\<close>

theorem editor_tabs_ok: "all_along honest es (initial_editor proj) \<Longrightarrow> tabs_ok (fold editor_step es (initial_editor proj))"
proof -
  have "tabs_ok s \<Longrightarrow> all_along honest es s \<Longrightarrow> tabs_ok (fold editor_step es s)" for s
    by (induction es arbitrary: s) (simp_all add: editor_step_ok)
  moreover have "tabs_ok (initial_editor proj)" by (simp add: tabs_ok_def initial_editor_def waiting_def paths_def)
  ultimately show "all_along honest es (initial_editor proj) \<Longrightarrow> ?thesis" by blast
qed

subsection \<open>What is marked as saved is saved\<close>

definition stored_ok :: "editor \<Rightarrow> bool" where
  "stored_ok s \<longleftrightarrow>
     (\<forall>f\<in>set (files s). map_of (on_server s) (file_path f) = Some (saved_content f)) \<and>
     (\<forall>w\<in>set (saves s). \<exists>f\<in>set (files s). file_path f = fst w \<and> file_content f = snd w)"

lemma same_path: "tabs_ok s \<Longrightarrow> f \<in> set (files s) \<Longrightarrow> g \<in> set (files s) \<Longrightarrow> file_path f = file_path g \<Longrightarrow> f = g"
  by (auto simp: tabs_ok_def paths_def dest: inj_onD [of file_path "set (files s)"] simp: distinct_map)

lemma stored_saves: "stored_ok s \<Longrightarrow> w \<in> set (saves s) \<Longrightarrow> \<exists>f\<in>set (files s). file_path f = fst w \<and> file_content f = snd w"
  by (simp add: stored_ok_def)

lemma stored_select: "stored_ok s \<Longrightarrow> stored_ok (select_file p s)"
  by (auto simp: stored_ok_def select_file_def open_selected_def Let_def split: option.split)

lemma stored_load:
  assumes t: "tabs_ok s" and s: "stored_ok s" and h: "honest s (LoadAnswered k a)"
  shows "stored_ok (load_answered k a s)"
proof (cases "k < length (loads s) \<and> \<not> snd (loads s ! k) \<and> a \<noteq> None")
  case True
  then obtain p content language where a: "a = Some (p, content, language)" and l: "loads s ! k = (p, False)"
    using h by (cases a; cases "loads s ! k") auto
  have "(p, False) \<in> set (loads s)" using True l by (metis nth_mem)
  then have "p \<in> set (waiting s)" by (force simp: waiting_def)
  then have p: "p \<notin> set (paths s)" using t by (auto simp: tabs_ok_def)
  have st: "\<forall>f\<in>set (files s). map_of (on_server s) (file_path f) = Some (saved_content f)"
      "\<forall>w\<in>set (saves s). \<exists>f\<in>set (files s). file_path f = fst w \<and> file_content f = snd w"
    using s by (simp_all add: stored_ok_def)
  show ?thesis using st p True
    by (auto simp: load_answered_def a l stored_ok_def new_file_def paths_def update_conv' Let_def)
qed (use s in \<open>auto simp: load_answered_def stored_ok_def Let_def split: prod.split option.split\<close>)

lemma stored_where:
  assumes s: "stored_ok s" and v: "v \<in> set (saves s)" and g: "\<And>f. file_path (g f) = file_path f" "\<And>f. file_content (g f) = file_content f"
  shows "\<exists>x\<in>set (map_where file_path p g (files s)). file_path x = fst v \<and> file_content x = snd v"
proof -
  obtain x where x: "x \<in> set (files s)" "file_path x = fst v" "file_content x = snd v"
    using stored_saves [OF s v] by blast
  have "(if file_path x = p then g x else x) \<in> set (map_where file_path p g (files s))"
    unfolding map_where_def set_map using x(1) by (rule imageI)
  then show ?thesis using x(2,3) g by (metis (full_types))
qed

lemma stored_edit:
  assumes s: "stored_ok s" and u: "active_file s \<notin> fst ` set (saves s)"
  shows "stored_ok (handleChange v s)"
proof -
  have "\<exists>f\<in>set (map_where file_path (active_file s) g (files s)). file_path f = fst w \<and> file_content f = snd w"
    if w: "w \<in> set (saves s)" for w g
  proof -
    obtain f where f: "f \<in> set (files s)" "file_path f = fst w" "file_content f = snd w"
      using stored_saves [OF s w] by blast
    have "fst w \<in> fst ` set (saves s)" using w by (rule imageI)
    then have "file_path f \<noteq> active_file s" using u f(2) by metis
    then have "f \<in> set (map_where file_path (active_file s) g (files s))" using f(1) by (force simp: map_where_def)
    then show ?thesis using f by blast
  qed
  then show ?thesis using s by (auto simp: handleChange_def stored_ok_def map_where_def split: option.split)
qed

lemma stored_close:
  assumes s: "stored_ok s" and u: "p \<notin> fst ` set (saves s)"
  shows "stored_ok (handleClose p s)"
  using s u by (force simp: handleClose_def stored_ok_def Let_def)

lemma stored_press:
  assumes s: "stored_ok s"
  shows "stored_ok (handleSave s)"
  using s by (auto simp: handleSave_def stored_ok_def currentFile_def dest: find_by_SomeD split: option.split)

lemma stored_answer:
  assumes t: "tabs_ok s" and s: "stored_ok s"
  shows "stored_ok (save_answered k ok s)"
proof (cases "k < length (saves s) \<and> ok")
  case True
  obtain p c where w: "saves s ! k = (p, c)" by (cases "saves s ! k")
  then have "(p, c) \<in> set (saves s)" using True nth_mem by metis
  then obtain f where f: "f \<in> set (files s)" "file_path f = p" "file_content f = c"
    using s by (auto simp: stored_ok_def)
  let ?g = "\<lambda>f. f\<lparr>is_dirty := False, saved_content := file_content f\<rparr>"
  let ?fs = "map_where file_path p ?g (files s)"
  have content: "file_content g = c" if "g \<in> set (files s)" "file_path g = p" for g
    using same_path [OF t that(1) f(1)] that f by simp
  have files: "map_of (AList.update p c (on_server s)) (file_path x) = Some (saved_content x)" if "x \<in> set ?fs" for x
    using that s content by (auto simp: map_where_def update_conv' stored_ok_def split: if_splits)
  have rest: "\<exists>x\<in>set ?fs. file_path x = fst v \<and> file_content x = snd v" if "v \<in> set (saves s)" for v
    by (rule stored_where [OF s that]) simp_all
  have "set (take k (saves s) @ drop (Suc k) (saves s)) \<subseteq> set (saves s)"
    by (auto dest: in_set_takeD in_set_dropD)
  then show ?thesis using True files rest by (auto simp: save_answered_def w stored_ok_def Let_def)
next
  case False
  have "set (take k (saves s) @ drop (Suc k) (saves s)) \<subseteq> set (saves s)"
    by (auto dest: in_set_takeD in_set_dropD)
  then show ?thesis using False s by (auto simp: save_answered_def stored_ok_def Let_def split: prod.split)
qed

lemma stored_large:
  assumes s: "stored_ok s"
  shows "stored_ok (handleLoadLargeFile p s)"
proof -
  let ?g = "\<lambda>f. f\<lparr>is_large := False\<rparr>"
  let ?fs = "map_where file_path p ?g (files s)"
  have "\<exists>x\<in>set ?fs. file_path x = fst v \<and> file_content x = snd v" if "v \<in> set (saves s)" for v
    by (rule stored_where [OF s that]) simp_all
  moreover have "\<forall>f\<in>set ?fs. map_of (on_server s) (file_path f) = Some (saved_content f)"
    using s by (auto simp: stored_ok_def map_where_def)
  ultimately show ?thesis by (simp add: stored_ok_def handleLoadLargeFile_def)
qed

lemma stored_step:
  assumes "tabs_ok s" and "stored_ok s" and "honest s e" and "unhurried s e"
  shows "stored_ok (editor_step e s)"
proof (cases e)
  case (TabSelected p)
  show ?thesis using assms(2) by (simp add: TabSelected stored_ok_def)
next
  case LoadAnyway
  then show ?thesis using stored_large [OF assms(2)] by simp
next
  case (LoadAnswered k a)
  then show ?thesis using stored_load [OF assms(1,2)] assms(3) by simp
qed (use assms in \<open>simp_all add: stored_select stored_edit stored_close stored_press stored_answer\<close>)

text \<open>C39: What the editor marks as saved is saved: as long as no file is edited or closed while a save of it is in
  flight, every open file without the mark of a change has the content that the server was last known to hold, whatever
  else happened, with loads that were cancelled and saves that failed.  A server that answers a load names the path it was
  asked for.\<close>

theorem unmarked_files_are_saved:
  assumes "all_along (\<lambda>s e. honest s e \<and> unhurried s e) es (initial_editor proj)"
    and "f \<in> set (files (fold editor_step es (initial_editor proj)))" and "\<not> is_dirty f"
  shows "map_of (on_server (fold editor_step es (initial_editor proj))) (file_path f) = Some (file_content f)"
proof -
  have "tabs_ok s \<and> stored_ok s \<Longrightarrow> all_along (\<lambda>s e. honest s e \<and> unhurried s e) es s \<Longrightarrow>
      tabs_ok (fold editor_step es s) \<and> stored_ok (fold editor_step es s)" for s
    by (induction es arbitrary: s) (simp_all add: editor_step_ok stored_step)
  moreover have "tabs_ok (initial_editor proj)" "stored_ok (initial_editor proj)"
    by (simp_all add: tabs_ok_def stored_ok_def initial_editor_def waiting_def paths_def)
  ultimately have "tabs_ok (fold editor_step es (initial_editor proj))" "stored_ok (fold editor_step es (initial_editor proj))"
    using assms(1) by blast+
  then show ?thesis using assms(2,3) by (auto simp: tabs_ok_def stored_ok_def)
qed

lemmas editor_eval = select_file_def open_selected_def load_answered_def new_file_def MAX_EDITOR_FILE_SIZE_def handleClose_def
  handleChange_def handleSave_def save_answered_def editor_shown_def currentFile_def find_by_def last_part_def filter_out_def
  map_where_def initial_editor_def Let_def truthy_string_def

definition open_a :: "editor_input list" where
  "open_a = [FileSelected (Some ''a''), LoadAnswered 0 (Some (''a'', ''old'', ''text''))]"

lemma unmarked_files_are_saved_witness:
  "map_of (on_server (fold editor_step (open_a @ [Edited ''new'', SavePressed, SaveAnswered 0 True]) (initial_editor (Some ''p'')))) ''a'' =
     Some ''new''"
proof -
  let ?es = "open_a @ [Edited ''new'', SavePressed, SaveAnswered 0 True]"
  let ?f = "\<lparr>file_path = ''a'', file_name = ''a'', file_content = ''new'', file_language = ''text'', is_dirty = False,
    saved_content = ''new'', is_large = False, byte_size = 3\<rparr>"
  have "all_along (\<lambda>s e. honest s e \<and> unhurried s e) ?es (initial_editor (Some ''p''))" by (simp add: open_a_def editor_eval)
  moreover have "files (fold editor_step ?es (initial_editor (Some ''p''))) = [?f]" by (simp add: open_a_def editor_eval)
  ultimately show ?thesis using unmarked_files_are_saved [of ?es "Some ''p''" ?f] by simp
qed

subsection \<open>Where the editor does what it does not mean to\<close>

text \<open>The answer to a save marks the content of then as saved, not the one that was sent: what is typed while a save is
  in flight is never saved, the mark is gone, and saving again does nothing.\<close>

lemma edit_during_save_lost:
  "let s = fold editor_step (open_a @ [Edited ''new'', SavePressed, Edited ''newer'', SaveAnswered 0 True, SavePressed])
         (initial_editor (Some ''p''))
   in map file_content (files s) = [''newer''] \<and> map is_dirty (files s) = [False] \<and>
     map_of (on_server s) ''a'' = Some ''new'' \<and> saves s = []"
  by (simp add: open_a_def editor_eval)

text \<open>The effect looks at a change of the selection only: a file that was closed, or left for another tab, is not shown
  again by selecting it.\<close>

lemma closed_file_not_reopened:
  "let s = fold editor_step (open_a @ [TabClosed ''a'', FileSelected (Some ''a'')]) (initial_editor (Some ''p''))
   in files s = [] \<and> loads s = []"
  by (simp add: open_a_def editor_eval)

lemma left_file_not_shown:
  "let s = fold editor_step (open_a @ [FileSelected (Some ''b''), LoadAnswered 0 (Some (''b'', [], ''text'')), TabSelected ''a'',
         FileSelected (Some ''b'')]) (initial_editor (Some ''p''))
   in active_file s = ''a''"
  by (simp add: open_a_def editor_eval)

text \<open>A load that is cancelled by selecting an open file leaves its flag set.\<close>

lemma cancelled_load_keeps_flag:
  "let s = fold editor_step (open_a @ [FileSelected (Some ''b''), FileSelected (Some ''a''), LoadAnswered 0 None, TabClosed ''a''])
         (initial_editor (Some ''p''))
   in loads s = [] \<and> files s = [] \<and> loading_file s"
  by (simp add: open_a_def editor_eval)

text \<open>A tab with changes is closed without a question.\<close>

lemma closing_discards_changes:
  "files (fold editor_step (open_a @ [Edited ''new'', TabClosed ''a'']) (initial_editor (Some ''p''))) = []"
  by (simp add: open_a_def editor_eval)

end
