(* ===== verification/File_Explorer.thy ===== *)
theory File_Explorer
  imports Filenames
begin

section \<open>The file explorer\<close>

text \<open>
  \<^verbatim>\<open>components/workspace/file-explorer\<close>: the tree of the files with its items (\<^verbatim>\<open>file-tree-item.tsx\<close>), the field for a
  new item (\<^verbatim>\<open>new-item-input.tsx\<close>) and the explorer that shows them (\<^verbatim>\<open>file-explorer.tsx\<close>).  An item lives as long as
  it is shown: it is found again by its path when the tree arrives again, and mounted anew otherwise; its instance is a
  number, so that an answer reaches the item that asked and not its successor.  The calls are those of
  \<open>useFileExplorer\<close>, in flight until they are answered.  Strings are bytes.
\<close>

subsection \<open>The tree\<close>

datatype tree_node = TreeNode (node_path: string) (node_name: string) (node_is_dir: bool) (node_children: "tree_node list option")

fun all_paths :: "tree_node list \<Rightarrow> string list" where
  "all_paths [] = []"
| "all_paths (TreeNode p nm d None # ns) = p # all_paths ns"
| "all_paths (TreeNode p nm d (Some ch) # ns) = p # all_paths ch @ all_paths ns"

text \<open>\<open>substring(0, lastIndexOf("/"))\<close>, or nothing without a slash.\<close>

definition parent_dir :: "string \<Rightarrow> string" where
  "parent_dir p = rev (drop 1 (dropWhile (\<lambda>c. c \<noteq> CHR ''/'') (rev p)))"

definition in_directory :: "string \<Rightarrow> string \<Rightarrow> string" where
  "in_directory parent v = (if parent = [] then trim v else parent @ ''/'' @ trim v)"

subsection \<open>The field for a new item\<close>

datatype item_type = NewFile | NewDirectory

record name_input =
  input_value :: string
  just_submitted :: bool
  resets :: nat

datatype input_event = Typed string | EnterPressed | EscapePressed | Blurred | ResetFires

definition fresh_input :: name_input where
  "fresh_input = \<lparr>input_value = [], just_submitted = False, resets = 0\<rparr>"

text \<open>Enter submits the path, if the value is not blank.\<close>

definition input_enter :: "string \<Rightarrow> name_input \<Rightarrow> name_input \<times> string option" where
  "input_enter parent x =
     (if trim (input_value x) \<noteq> []
      then (x\<lparr>just_submitted := True, resets := Suc (resets x)\<rparr>, Some (in_directory parent (input_value x)))
      else (x, None))"

text \<open>The field after an event, the path that it submits, and whether it cancels.\<close>

fun input_step :: "string \<Rightarrow> input_event \<Rightarrow> name_input \<Rightarrow> name_input \<times> string option \<times> bool" where
  "input_step parent (Typed v) x = (x\<lparr>input_value := v\<rparr>, None, False)"
| "input_step parent EnterPressed x = (let (x1, p) = input_enter parent x in (x1, p, False))"
| "input_step parent EscapePressed x = (x, None, True)"
| "input_step parent Blurred x = (x, None, \<not> just_submitted x)"
| "input_step parent ResetFires x =
     (if resets x = 0 then (x, None, False) else (x\<lparr>just_submitted := False, resets := resets x - 1\<rparr>, None, False))"

text \<open>What the explorer and a directory keep for it: what is created, and the field while it is shown.\<close>

record creator =
  creating_type :: "item_type option"
  field_shown :: "name_input option"

definition idle :: creator where
  "idle = \<lparr>creating_type = None, field_shown = None\<rparr>"

definition set_creating :: "bool \<Rightarrow> item_type option \<Rightarrow> creator \<Rightarrow> creator" where
  "set_creating shown v c =
     c\<lparr>creating_type := v,
       field_shown := (if shown \<and> v \<noteq> None then Some (case field_shown c of None \<Rightarrow> fresh_input | Some x \<Rightarrow> x) else None)\<rparr>"

definition creator_step :: "bool \<Rightarrow> string \<Rightarrow> input_event \<Rightarrow> creator \<Rightarrow> creator \<times> string option" where
  "creator_step shown parent e c =
     (case field_shown c of
        None \<Rightarrow> (c, None)
      | Some x \<Rightarrow>
          let (x1, submitted, cancelled) = input_step parent e x;
              c1 = c\<lparr>field_shown := Some x1\<rparr>
          in (if cancelled then set_creating shown None c1 else c1, submitted))"

subsection \<open>Items\<close>

record tree_item =
  inst :: nat
  item_path :: string
  item_name :: string
  is_directory :: bool
  item_depth :: nat
  expanded :: bool
  isRenaming :: bool
  renameValue :: string
  submitting_ref :: bool
  isSubmitting :: bool
  item_creator :: creator

definition new_item :: "nat \<Rightarrow> nat \<Rightarrow> string \<Rightarrow> string \<Rightarrow> bool \<Rightarrow> tree_item" where
  "new_item n depth p nm d =
     \<lparr>inst = n, item_path = p, item_name = nm, is_directory = d, item_depth = depth, expanded = depth < 1, isRenaming = False,
      renameValue = nm, submitting_ref = False, isSubmitting = False, item_creator = idle\<rparr>"

datatype file_request =
    CreateRequest "nat option" string item_type string
  | RenameRequest nat string string
  | DeleteRequest string

record explorer =
  file_nodes :: "tree_node list option"
  top_creator :: creator
  items :: "tree_item list"
  next_inst :: nat
  selectedFile :: "string option"
  tool_runs :: "string list"
  requests :: "file_request list"
  in_flight :: "file_request list"

definition initial_explorer :: explorer where
  "initial_explorer =
     \<lparr>file_nodes = None, top_creator = idle, items = [], next_inst = 0, selectedFile = None, tool_runs = [], requests = [],
      in_flight = []\<rparr>"

text \<open>The items that are shown for a list of nodes: those of before that have their paths, or new ones.\<close>

definition reuse_item :: "nat \<Rightarrow> string \<Rightarrow> string \<Rightarrow> bool \<Rightarrow> tree_item list \<Rightarrow> nat \<Rightarrow> tree_item \<times> nat" where
  "reuse_item depth p nm d old n =
     (case find_by item_path p old of
        None \<Rightarrow> (new_item n depth p nm d, Suc n)
      | Some it \<Rightarrow> (it\<lparr>item_name := nm, is_directory := d, item_depth := depth\<rparr>, n))"

fun mount :: "nat \<Rightarrow> tree_node list \<Rightarrow> tree_item list \<Rightarrow> nat \<Rightarrow> tree_item list \<times> nat" where
  "mount depth [] old n = ([], n)"
| "mount depth (TreeNode p nm d None # ns) old n =
     (let (it, n1) = reuse_item depth p nm d old n; (rest, n2) = mount depth ns old n1 in (it # rest, n2))"
| "mount depth (TreeNode p nm d (Some ch) # ns) old n =
     (let (it, n1) = reuse_item depth p nm d old n;
          (sub, n2) = (if d \<and> expanded it then mount (Suc depth) ch old n1 else ([], n1));
          (rest, n3) = mount depth ns old n2
      in (it # sub @ rest, n3))"

definition render :: "explorer \<Rightarrow> explorer" where
  "render s = (let (its, n) = mount 0 (nullish (file_nodes s) []) (items s) (next_inst s) in s\<lparr>items := its, next_inst := n\<rparr>)"

definition change_item :: "nat \<Rightarrow> (tree_item \<Rightarrow> tree_item) \<Rightarrow> explorer \<Rightarrow> explorer" where
  "change_item i f s = s\<lparr>items := map_where inst i f (items s)\<rparr>"

definition ask :: "file_request \<Rightarrow> explorer \<Rightarrow> explorer" where
  "ask r s = s\<lparr>requests := requests s @ [r], in_flight := in_flight s @ [r]\<rparr>"

subsection \<open>Handlers of an item\<close>

definition set_expanded :: "bool \<Rightarrow> tree_item \<Rightarrow> tree_item" where
  "set_expanded b it = it\<lparr>expanded := b, item_creator := set_creating b (creating_type (item_creator it)) (item_creator it)\<rparr>"

definition start_new :: "item_type \<Rightarrow> tree_item \<Rightarrow> tree_item" where
  "start_new ty it = it\<lparr>expanded := True, item_creator := set_creating True (Some ty) (item_creator it)\<rparr>"

definition start_rename :: "tree_item \<Rightarrow> tree_item" where
  "start_rename it = it\<lparr>renameValue := item_name it, isRenaming := True\<rparr>"

definition rename_escape :: "tree_item \<Rightarrow> tree_item" where
  "rename_escape it = it\<lparr>renameValue := item_name it, isRenaming := False\<rparr>"

definition finish_rename :: "tree_item \<Rightarrow> tree_item" where
  "finish_rename it = it\<lparr>isRenaming := False, submitting_ref := False, isSubmitting := False\<rparr>"

definition rename_answered :: "bool \<Rightarrow> tree_item \<Rightarrow> tree_item" where
  "rename_answered ok it = finish_rename (if ok then it else it\<lparr>renameValue := item_name it\<rparr>)"

definition handleRenameSubmit :: "tree_item \<Rightarrow> explorer \<Rightarrow> explorer" where
  "handleRenameSubmit it s =
     (if submitting_ref it then s
      else if trim (renameValue it) \<noteq> [] \<and> renameValue it \<noteq> item_name it
      then ask (RenameRequest (inst it) (item_path it) (in_directory (parent_dir (item_path it)) (renameValue it)))
             (change_item (inst it) (\<lambda>x. x\<lparr>submitting_ref := True, isSubmitting := True\<rparr>) s)
      else change_item (inst it) finish_rename s)"

definition handleNewItemSubmit :: "nat option \<Rightarrow> string \<Rightarrow> creator \<Rightarrow> string option \<Rightarrow> explorer \<Rightarrow> explorer" where
  "handleNewItemSubmit owner parent c submitted s =
     (case (creating_type c, submitted) of
        (Some ty, Some p) \<Rightarrow> ask (CreateRequest owner parent ty p) s
      | _ \<Rightarrow> s)"

definition item_input :: "input_event \<Rightarrow> tree_item \<Rightarrow> explorer \<Rightarrow> explorer" where
  "item_input e it s =
     (let (c, submitted) = creator_step True (item_path it) e (item_creator it)
      in handleNewItemSubmit (Some (inst it)) (item_path it) (item_creator it) submitted
           (change_item (inst it) (\<lambda>x. x\<lparr>item_creator := c\<rparr>) s))"

definition top_input :: "input_event \<Rightarrow> explorer \<Rightarrow> explorer" where
  "top_input e s =
     (let (c, submitted) = creator_step True [] e (top_creator s)
      in handleNewItemSubmit None [] (top_creator s) submitted (s\<lparr>top_creator := c\<rparr>))"

text \<open>The answers; a creation that was rejected leaves the field, and \<open>useFileExplorer\<close> never rejects.\<close>

fun request_done :: "bool \<Rightarrow> file_request \<Rightarrow> explorer \<Rightarrow> explorer" where
  "request_done ok (CreateRequest None q ty p) s = (if ok then s\<lparr>top_creator := set_creating True None (top_creator s)\<rparr> else s)"
| "request_done ok (CreateRequest (Some i) q ty p) s =
     (if ok then change_item i (\<lambda>x. x\<lparr>item_creator := set_creating (expanded x) None (item_creator x)\<rparr>) s else s)"
| "request_done ok (RenameRequest i p q) s = change_item i (rename_answered ok) s"
| "request_done ok (DeleteRequest p) s = s"

definition answered :: "nat \<Rightarrow> bool \<Rightarrow> explorer \<Rightarrow> explorer" where
  "answered k ok s =
     (if k < length (in_flight s)
      then request_done ok (in_flight s ! k) (s\<lparr>in_flight := take k (in_flight s) @ drop (Suc k) (in_flight s)\<rparr>)
      else s)"

datatype item_event =
    Clicked
  | RenameChosen
  | NewChosen item_type
  | DeleteChosen
  | ToolChosen
  | RenameTyped string
  | RenameEnter
  | RenameEscape
  | RenameBlurred
  | InField input_event

fun item_step :: "item_event \<Rightarrow> tree_item \<Rightarrow> explorer \<Rightarrow> explorer" where
  "item_step Clicked it s =
     (if is_directory it then render (change_item (inst it) (\<lambda>x. set_expanded (\<not> expanded x) x) s)
      else s\<lparr>selectedFile := Some (item_path it)\<rparr>)"
| "item_step RenameChosen it s = change_item (inst it) start_rename s"
| "item_step (NewChosen ty) it s = (if is_directory it then render (change_item (inst it) (start_new ty) s) else s)"
| "item_step DeleteChosen it s = ask (DeleteRequest (item_path it)) s"
| "item_step ToolChosen it s = (if is_directory it then s else s\<lparr>tool_runs := tool_runs s @ [item_path it]\<rparr>)"
| "item_step (RenameTyped v) it s = (if isRenaming it then change_item (inst it) (\<lambda>x. x\<lparr>renameValue := v\<rparr>) s else s)"
| "item_step RenameEnter it s = (if isRenaming it then handleRenameSubmit it s else s)"
| "item_step RenameEscape it s = (if isRenaming it then change_item (inst it) rename_escape s else s)"
| "item_step RenameBlurred it s = (if isRenaming it then handleRenameSubmit it s else s)"
| "item_step (InField e) it s = (if is_directory it then item_input e it s else s)"

datatype explorer_input =
    TreeArrived "tree_node list"
  | NewAtTop item_type
  | AtTop input_event
  | AtItem nat item_event
  | Answered nat bool

fun explorer_step :: "explorer_input \<Rightarrow> explorer \<Rightarrow> explorer" where
  "explorer_step (TreeArrived ns) s = render (s\<lparr>file_nodes := Some ns\<rparr>)"
| "explorer_step (NewAtTop ty) s = s\<lparr>top_creator := set_creating True (Some ty) (top_creator s)\<rparr>"
| "explorer_step (AtTop e) s = top_input e s"
| "explorer_step (AtItem i e) s = (case find_by inst i (items s) of None \<Rightarrow> s | Some it \<Rightarrow> item_step e it s)"
| "explorer_step (Answered k ok) s = answered k ok s"

subsection \<open>One rename of an item at a time\<close>

fun renaming :: "file_request list \<Rightarrow> nat list" where
  "renaming [] = []"
| "renaming (RenameRequest i p q # rs) = i # renaming rs"
| "renaming (CreateRequest ow d ty p # rs) = renaming rs"
| "renaming (DeleteRequest p # rs) = renaming rs"

lemma renaming_append [simp]: "renaming (xs @ ys) = renaming xs @ renaming ys"
  by (induction xs rule: renaming.induct) simp_all

text \<open>The server answers with a tree in which every path is there once.\<close>

fun plain_tree :: "explorer_input \<Rightarrow> bool" where
  "plain_tree (TreeArrived ns) = distinct (all_paths ns)"
| "plain_tree e = True"

definition tidy :: "explorer \<Rightarrow> bool" where
  "tidy s \<longleftrightarrow>
     distinct (map inst (items s)) \<and> (\<forall>it\<in>set (items s). inst it < next_inst s) \<and>
     distinct (all_paths (nullish (file_nodes s) [])) \<and>
     distinct (renaming (in_flight s)) \<and> (\<forall>i\<in>set (renaming (in_flight s)). i < next_inst s) \<and>
     (\<forall>it\<in>set (items s). inst it \<in> set (renaming (in_flight s)) \<longrightarrow> submitting_ref it)"

definition kept_or_new :: "tree_item list \<Rightarrow> nat \<Rightarrow> nat \<Rightarrow> tree_item \<Rightarrow> bool" where
  "kept_or_new old n m it \<longleftrightarrow>
     (\<exists>x\<in>set old. inst x = inst it \<and> item_path x = item_path it \<and> submitting_ref x = submitting_ref it) \<or>
     (n \<le> inst it \<and> inst it < m)"

lemma kept_or_new_mono: "kept_or_new old n m it \<Longrightarrow> n' \<le> n \<Longrightarrow> m \<le> m' \<Longrightarrow> kept_or_new old n' m' it"
  by (auto simp: kept_or_new_def)

lemma reuse_kept:
  assumes "reuse_item depth p nm d old n = (it, n1)"
  shows "n \<le> n1" "item_path it = p" "kept_or_new old n n1 it"
  using assms by (auto simp: reuse_item_def new_item_def kept_or_new_def dest!: find_by_SomeD split: option.splits)

lemma apart:
  assumes "distinct (map inst old)" and "\<forall>x\<in>set old. inst x < n"
    and "kept_or_new old n m a" and "kept_or_new old m k b" and "n \<le> m" and "item_path a \<noteq> item_path b"
  shows "inst a \<noteq> inst b"
proof
  assume eq: "inst a = inst b"
  have inj: "x = y" if "x \<in> set old" "y \<in> set old" "inst x = inst y" for x y
    using assms(1) that by (auto simp: distinct_map dest: inj_onD)
  show False using assms(2-6) eq inj by (fastforce simp: kept_or_new_def)
qed

lemma mounted_append:
  assumes "distinct (map inst old)" and "\<forall>x\<in>set old. inst x < n"
    and "n \<le> m" "m \<le> k" "distinct (map inst xs)" "distinct (map inst ys)"
    and "\<forall>it\<in>set xs. item_path it \<in> P \<and> kept_or_new old n m it"
    and "\<forall>it\<in>set ys. item_path it \<in> Q \<and> kept_or_new old m k it" and "P \<inter> Q = {}"
  shows "distinct (map inst (xs @ ys)) \<and> (\<forall>it\<in>set (xs @ ys). item_path it \<in> P \<union> Q \<and> kept_or_new old n k it)"
proof -
  have "inst a \<noteq> inst b" if "a \<in> set xs" "b \<in> set ys" for a b
  proof (rule apart [OF assms(1,2)])
    show "kept_or_new old n m a" "kept_or_new old m k b" "n \<le> m" using that assms(3,7,8) by simp_all
    have "item_path a \<in> P" "item_path b \<in> Q" using that assms(7,8) by simp_all
    then show "item_path a \<noteq> item_path b" using assms(9) by auto
  qed
  then have "set (map inst xs) \<inter> set (map inst ys) = {}" by auto
  then have d: "distinct (map inst (xs @ ys))" using assms(5,6) by simp
  have "item_path it \<in> P \<union> Q \<and> kept_or_new old n k it" if "it \<in> set xs" for it
    using assms(7) that kept_or_new_mono [of old n m it n k] assms(4) by blast
  moreover have "item_path it \<in> P \<union> Q \<and> kept_or_new old n k it" if "it \<in> set ys" for it
    using assms(8) that kept_or_new_mono [of old m k it n k] assms(3) by blast
  ultimately have "\<forall>it\<in>set (xs @ ys). item_path it \<in> P \<union> Q \<and> kept_or_new old n k it" unfolding set_append by blast
  with d show ?thesis by blast
qed

lemma mounted_cons:
  assumes old: "distinct (map inst old)" "\<forall>x\<in>set old. inst x < n" and r: "reuse_item depth p nm d old n = (it, m)"
    and ys: "m \<le> k" "distinct (map inst ys)" "\<forall>x\<in>set ys. item_path x \<in> Q \<and> kept_or_new old m k x" "p \<notin> Q"
  shows "distinct (map inst (it # ys)) \<and> (\<forall>x\<in>set (it # ys). item_path x \<in> insert p Q \<and> kept_or_new old n k x)"
proof -
  note k = reuse_kept [OF r]
  have "distinct (map inst ([it] @ ys)) \<and> (\<forall>x\<in>set ([it] @ ys). item_path x \<in> {p} \<union> Q \<and> kept_or_new old n k x)"
    by (rule mounted_append [OF old k(1) ys(1)]) (use k ys in simp_all)
  then show ?thesis by simp
qed

lemma reuse_below: "reuse_item depth p nm d old n = (it, m) \<Longrightarrow> \<forall>x\<in>set old. inst x < n \<Longrightarrow> \<forall>x\<in>set old. inst x < m"
  using reuse_kept(1) by fastforce

lemma mount_ok:
  assumes old: "distinct (map inst old)"
  shows "\<forall>x\<in>set old. inst x < n \<Longrightarrow> distinct (all_paths ns) \<Longrightarrow> mount depth ns old n = (its, m) \<Longrightarrow>
     n \<le> m \<and> distinct (map inst its) \<and> (\<forall>it\<in>set its. item_path it \<in> set (all_paths ns) \<and> kept_or_new old n m it)"
  using old
proof (induction depth ns old n arbitrary: its m rule: mount.induct)
  case (1 depth old n)
  then show ?case by simp
next
  case (2 depth p nm d ns old n)
  obtain it n1 where r: "reuse_item depth p nm d old n = (it, n1)" by (cases "reuse_item depth p nm d old n")
  obtain rest n2 where e: "mount depth ns old n1 = (rest, n2)" by (cases "mount depth ns old n1")
  have o: "its = it # rest" "m = n2" using "2.prems"(3) by (simp_all add: r e)
  have ih: "n1 \<le> n2 \<and> distinct (map inst rest) \<and> (\<forall>x\<in>set rest. item_path x \<in> set (all_paths ns) \<and> kept_or_new old n1 n2 x)"
    using "2.IH" [OF r [symmetric] refl reuse_below [OF r "2.prems"(1)] _ e "2.prems"(4)] "2.prems"(2) by simp
  show ?case
    using mounted_cons [OF "2.prems"(4,1) r, of n2 rest "set (all_paths ns)"] ih "2.prems"(2) reuse_kept(1) [OF r]
    by (simp add: o)
next
  case (3 depth p nm d ch ns old n)
  obtain it n1 where r: "reuse_item depth p nm d old n = (it, n1)" by (cases "reuse_item depth p nm d old n")
  define shown where "shown \<longleftrightarrow> d \<and> expanded it"
  obtain sub n2 where s: "(if shown then mount (Suc depth) ch old n1 else ([], n1)) = (sub, n2)"
    by (cases "if shown then mount (Suc depth) ch old n1 else ([], n1)")
  obtain rest n3 where e: "mount depth ns old n2 = (rest, n3)" by (cases "mount depth ns old n2")
  have o: "its = it # sub @ rest" "m = n3" using "3.prems"(3) s by (simp_all add: r e shown_def [symmetric])
  note b = reuse_below [OF r "3.prems"(1)]
  have dist: "distinct (all_paths ch)" "distinct (all_paths ns)" "p \<notin> set (all_paths ch) \<union> set (all_paths ns)"
      "set (all_paths ch) \<inter> set (all_paths ns) = {}"
    using "3.prems"(2) by auto
  have one: "n1 \<le> n2 \<and> distinct (map inst sub) \<and> (\<forall>x\<in>set sub. item_path x \<in> set (all_paths ch) \<and> kept_or_new old n1 n2 x)"
  proof (cases shown)
    case True
    then show ?thesis using "3.IH"(1) [OF r [symmetric] refl _ b dist(1) _ "3.prems"(4)] s by (simp add: shown_def)
  next
    case False
    then show ?thesis using s by auto
  qed
  then have b2: "\<forall>x\<in>set old. inst x < n2" using b by fastforce
  have two: "n2 \<le> n3 \<and> distinct (map inst rest) \<and> (\<forall>x\<in>set rest. item_path x \<in> set (all_paths ns) \<and> kept_or_new old n2 n3 x)"
    using "3.IH"(2) [OF r [symmetric] refl s [symmetric, unfolded shown_def] refl b2 dist(2) e "3.prems"(4)] .
  have both: "distinct (map inst (sub @ rest)) \<and> (\<forall>x\<in>set (sub @ rest). item_path x \<in> set (all_paths ch) \<union> set (all_paths ns) \<and>
      kept_or_new old n1 n3 x)"
    by (rule mounted_append [OF "3.prems"(4) b, of n2 n3]) (use one two dist in blast)+
  show ?case
    using mounted_cons [OF "3.prems"(4,1) r, of n3 "sub @ rest" "set (all_paths ch) \<union> set (all_paths ns)"] both one two dist(3)
      reuse_kept(1) [OF r]
    by (simp add: o)
qed

lemma render_tidy:
  assumes s: "tidy s" and ns: "distinct (all_paths (nullish v []))"
  shows "tidy (render (s\<lparr>file_nodes := v\<rparr>))"
proof -
  obtain its m where e: "mount 0 (nullish v []) (items s) (next_inst s) = (its, m)"
    by (cases "mount 0 (nullish v []) (items s) (next_inst s)")
  have old: "distinct (map inst (items s))" "\<forall>x\<in>set (items s). inst x < next_inst s"
      "distinct (renaming (in_flight s))" "\<forall>i\<in>set (renaming (in_flight s)). i < next_inst s"
      "\<forall>x\<in>set (items s). inst x \<in> set (renaming (in_flight s)) \<longrightarrow> submitting_ref x"
    using s by (simp_all add: tidy_def)
  have m: "next_inst s \<le> m" "distinct (map inst its)" "\<forall>x\<in>set its. kept_or_new (items s) (next_inst s) m x"
    using mount_ok [OF old(1,2) ns e] by simp_all
  have below: "inst x < m" if "x \<in> set its" for x
    using m that old(2) by (fastforce simp: kept_or_new_def)
  have sub: "submitting_ref x" if x: "x \<in> set its" "inst x \<in> set (renaming (in_flight s))" for x
    using m(3) x old(4,5) by (fastforce simp: kept_or_new_def)
  have flight: "i < m" if "i \<in> set (renaming (in_flight s))" for i using old(4) m(1) that by fastforce
  have "render (s\<lparr>file_nodes := v\<rparr>) = s\<lparr>file_nodes := v, items := its, next_inst := m\<rparr>" using e by (simp add: render_def)
  then show ?thesis using m(2) ns old(3) below sub flight by (simp add: tidy_def)
qed

lemma tidy_change:
  assumes s: "tidy s" and f: "\<And>x. inst (f x) = inst x"
    and g: "i \<in> set (renaming (in_flight s)) \<Longrightarrow> (\<And>x. submitting_ref x \<Longrightarrow> submitting_ref (f x))"
  shows "tidy (change_item i f s)"
proof -
  have k: "map inst (map_where inst i f (items s)) = map inst (items s)" using f by (rule keys_map_where)
  have x: "inst y < next_inst s \<and> (inst y \<in> set (renaming (in_flight s)) \<longrightarrow> submitting_ref y)"
    if y: "y \<in> set (map_where inst i f (items s))" for y
  proof -
    obtain x where "x \<in> set (items s)" "y = (if inst x = i then f x else x)"
      using y unfolding map_where_def set_map by blast
    then show ?thesis using s f g by (auto simp: tidy_def)
  qed
  then show ?thesis using s unfolding tidy_def change_item_def by (simp add: k)
qed

lemma tidy_fields [simp]:
  "tidy (s\<lparr>top_creator := c\<rparr>) = tidy s" "tidy (s\<lparr>selectedFile := p\<rparr>) = tidy s" "tidy (s\<lparr>tool_runs := r\<rparr>) = tidy s"
  by (simp_all add: tidy_def)

lemma tidy_ask: "tidy s \<Longrightarrow> renaming [r] = [] \<Longrightarrow> tidy (ask r s)"
  by (simp add: tidy_def ask_def)

lemma tidy_submit: "tidy s \<Longrightarrow> tidy (handleNewItemSubmit ow d c p s)"
  by (simp add: handleNewItemSubmit_def tidy_ask split: option.split)

lemma tidy_rename:
  assumes s: "tidy s" and it: "it \<in> set (items s)"
  shows "tidy (handleRenameSubmit it s)"
proof (cases "submitting_ref it")
  case False
  then have out: "inst it \<notin> set (renaming (in_flight s))" using s it by (auto simp: tidy_def)
  let ?f = "\<lambda>x. x\<lparr>submitting_ref := True, isSubmitting := True\<rparr>"
  let ?t = "change_item (inst it) ?f s"
  have t: "tidy ?t" using s by (rule tidy_change) simp_all
  have below: "inst it < next_inst s" using s it by (simp add: tidy_def)
  have set: "submitting_ref x" if "x \<in> set (items ?t)" "inst x = inst it" for x
    using that by (auto simp: change_item_def map_where_def split: if_splits)
  have "tidy (ask (RenameRequest (inst it) p q) ?t)" for p q
    using t out below set by (auto simp: tidy_def ask_def change_item_def)
  moreover have "tidy (change_item (inst it) finish_rename s)" using s out by (intro tidy_change) (simp_all add: finish_rename_def)
  ultimately show ?thesis using False by (simp add: handleRenameSubmit_def)
qed (simp add: handleRenameSubmit_def s)

lemma tidy_render: "tidy s \<Longrightarrow> tidy (render s)"
  using render_tidy [of s "file_nodes s"] by (simp add: tidy_def)

lemma tidy_item_step:
  assumes s: "tidy s" and it: "it \<in> set (items s)"
  shows "tidy (item_step e it s)"
proof (cases e)
  case Clicked
  have "tidy (change_item (inst it) (\<lambda>x. set_expanded (\<not> expanded x) x) s)"
    using s by (rule tidy_change) (simp_all add: set_expanded_def)
  then show ?thesis using s by (simp add: Clicked tidy_render)
next
  case RenameChosen
  show ?thesis unfolding RenameChosen item_step.simps using s by (rule tidy_change) (simp_all add: start_rename_def)
next
  case (NewChosen ty)
  have "tidy (change_item (inst it) (start_new ty) s)" using s by (rule tidy_change) (simp_all add: start_new_def)
  then show ?thesis using s by (simp add: NewChosen tidy_render)
next
  case (RenameTyped v)
  have "tidy (change_item (inst it) (\<lambda>x. x\<lparr>renameValue := v\<rparr>) s)" using s by (rule tidy_change) simp_all
  then show ?thesis using s by (simp add: RenameTyped)
next
  case RenameEscape
  have "tidy (change_item (inst it) rename_escape s)" using s by (rule tidy_change) (simp_all add: rename_escape_def)
  then show ?thesis using s by (simp add: RenameEscape)
next
  case (InField f)
  have "tidy (change_item (inst it) (\<lambda>x. x\<lparr>item_creator := c\<rparr>) s)" for c using s by (rule tidy_change) simp_all
  then show ?thesis using s by (simp add: InField item_input_def tidy_submit split: prod.split)
qed (use s it in \<open>simp_all add: tidy_rename tidy_ask\<close>)

lemma renaming_removed:
  assumes "k < length rs"
  shows "renaming rs = renaming (take k rs) @ renaming [rs ! k] @ renaming (drop (Suc k) rs)"
proof -
  have "rs = take k rs @ [rs ! k] @ drop (Suc k) rs" using id_take_nth_drop [OF assms] by simp
  then have "renaming rs = renaming (take k rs @ [rs ! k] @ drop (Suc k) rs)" by simp
  then show ?thesis by (simp only: renaming_append)
qed

lemma tidy_answered:
  assumes s: "tidy s"
  shows "tidy (answered k ok s)"
proof (cases "k < length (in_flight s)")
  case True
  let ?r = "take k (in_flight s) @ drop (Suc k) (in_flight s)"
  let ?t = "s\<lparr>in_flight := ?r\<rparr>"
  have r: "renaming (in_flight s) = renaming (take k (in_flight s)) @ renaming [in_flight s ! k] @ renaming (drop (Suc k) (in_flight s))"
    using True by (rule renaming_removed)
  have t: "tidy ?t" using s unfolding tidy_def r by auto
  have gone: "i \<notin> set (renaming ?r)" if "in_flight s ! k = RenameRequest i p q" for i p q
    using s unfolding tidy_def r that by auto
  have ans: "answered k ok s = request_done ok (in_flight s ! k) ?t" using True by (simp add: answered_def)
  show ?thesis
  proof (cases "in_flight s ! k")
    case (CreateRequest ow d ty p)
    have "tidy (change_item i (\<lambda>x. x\<lparr>item_creator := set_creating (expanded x) None (item_creator x)\<rparr>) ?t)" for i
      using t by (rule tidy_change) simp_all
    then show ?thesis unfolding ans using t by (cases ow) (simp_all add: CreateRequest)
  next
    case (RenameRequest i p q)
    show ?thesis unfolding ans RenameRequest request_done.simps
      by (rule tidy_change [OF t]) (use gone [OF RenameRequest] in \<open>simp_all add: rename_answered_def finish_rename_def\<close>)
  next
    case (DeleteRequest p)
    then show ?thesis unfolding ans using t by simp
  qed
qed (simp add: answered_def s)

lemma tidy_step: "tidy s \<Longrightarrow> plain_tree e \<Longrightarrow> tidy (explorer_step e s)"
proof (cases e)
  case (AtItem i f)
  assume s: "tidy s"
  then show ?thesis using tidy_item_step [OF s] by (auto simp: AtItem dest: find_by_SomeD split: option.split)
qed (simp_all add: render_tidy top_input_def tidy_submit tidy_answered split: prod.split)

text \<open>An item sends one rename at a time: whatever is typed, and in whatever order Enter, the loss of the focus, the
  answers and the trees arrive, no two renames of the same item are in flight.\<close>

theorem renames_one_at_a_time:
  assumes "\<forall>e\<in>set es. plain_tree e"
  shows "distinct (renaming (in_flight (fold explorer_step es initial_explorer)))"
proof -
  have "tidy s \<Longrightarrow> \<forall>e\<in>set es. plain_tree e \<Longrightarrow> tidy (fold explorer_step es s)" for s
    by (induction es arbitrary: s) (simp_all add: tidy_step)
  moreover have "tidy initial_explorer" by (simp add: tidy_def initial_explorer_def)
  ultimately show ?thesis using assms unfolding tidy_def by blast
qed

definition folder :: tree_node where
  "folder = TreeNode ''d'' ''d'' True (Some [TreeNode ''d/a'' ''a'' False None])"

lemmas explorer_eval = render_def change_item_def ask_def set_expanded_def start_new_def start_rename_def rename_escape_def
  finish_rename_def rename_answered_def handleRenameSubmit_def handleNewItemSubmit_def item_input_def top_input_def
  answered_def reuse_item_def new_item_def idle_def set_creating_def creator_step_def input_enter_def fresh_input_def
  in_directory_def parent_dir_def initial_explorer_def folder_def trim_def trim_end_by_def white_def

lemma renames_one_at_a_time_witness:
  "distinct (renaming (in_flight (fold explorer_step [TreeArrived [folder], AtItem 1 RenameChosen, AtItem 1 (RenameTyped ''b''),
     AtItem 1 RenameEnter, AtItem 1 RenameBlurred] initial_explorer))) \<and>
   in_flight (fold explorer_step [TreeArrived [folder], AtItem 1 RenameChosen, AtItem 1 (RenameTyped ''b''),
     AtItem 1 RenameEnter, AtItem 1 RenameBlurred] initial_explorer) = [RenameRequest 1 ''d/a'' ''d/b'']"
proof
  show "distinct (renaming (in_flight (fold explorer_step [TreeArrived [folder], AtItem 1 RenameChosen,
      AtItem 1 (RenameTyped ''b''), AtItem 1 RenameEnter, AtItem 1 RenameBlurred] initial_explorer)))"
    by (rule renames_one_at_a_time) (simp add: folder_def)
qed code_simp

subsection \<open>Files stay in their directories\<close>

definition plain :: "string \<Rightarrow> bool" where
  "plain v \<longleftrightarrow> CHR ''/'' \<notin> set v"

fun all_names :: "tree_node list \<Rightarrow> string list" where
  "all_names [] = []"
| "all_names (TreeNode p nm d None # ns) = nm # all_names ns"
| "all_names (TreeNode p nm d (Some ch) # ns) = nm # all_names ch @ all_names ns"

fun plain_field :: "input_event \<Rightarrow> bool" where
  "plain_field (Typed v) = plain v"
| "plain_field e = True"

fun plain_item :: "item_event \<Rightarrow> bool" where
  "plain_item (RenameTyped v) = plain v"
| "plain_item (InField e) = plain_field e"
| "plain_item e = True"

text \<open>What is typed and the names of the tree are without a slash.\<close>

fun plain_event :: "explorer_input \<Rightarrow> bool" where
  "plain_event (TreeArrived ns) = (\<forall>nm\<in>set (all_names ns). plain nm)"
| "plain_event (AtTop e) = plain_field e"
| "plain_event (AtItem i e) = plain_item e"
| "plain_event e = True"

text \<open>A rename keeps the directory and gives a name; a creation is in the directory that was asked for and has a name.\<close>

definition last_name :: "string \<Rightarrow> string" where
  "last_name p = rev (takeWhile (\<lambda>c. c \<noteq> CHR ''/'') (rev p))"

fun well_placed :: "file_request \<Rightarrow> bool" where
  "well_placed (RenameRequest i p q) = (parent_dir q = parent_dir p \<and> last_name q \<noteq> [])"
| "well_placed (CreateRequest ow d ty p) = (parent_dir p = d \<and> last_name p \<noteq> [])"
| "well_placed (DeleteRequest p) = True"

lemma plain_trim: "plain v \<Longrightarrow> plain (trim v)"
  by (auto simp: plain_def trim_def trim_end_by_def dest!: set_dropWhileD)

lemma placed:
  assumes "plain v" and "trim v \<noteq> []"
  shows "parent_dir (in_directory d v) = d" and "last_name (in_directory d v) \<noteq> []"
proof -
  have v: "\<forall>c\<in>set (rev (trim v)). c \<noteq> CHR ''/''" using plain_trim [OF assms(1)] by (auto simp: plain_def)
  then have w: "dropWhile (\<lambda>c. c \<noteq> CHR ''/'') (rev (trim v)) = []" "takeWhile (\<lambda>c. c \<noteq> CHR ''/'') (rev (trim v)) = rev (trim v)"
    by simp_all
  have u: "dropWhile (\<lambda>c. c \<noteq> CHR ''/'') (rev (trim v) @ CHR ''/'' # rev d) = CHR ''/'' # rev d"
    using v by (simp add: dropWhile_append3)
  have u': "takeWhile (\<lambda>c. c \<noteq> CHR ''/'') (rev (trim v) @ CHR ''/'' # rev d) = rev (trim v)"
    using takeWhile_append2 [of "rev (trim v)" "\<lambda>c. c \<noteq> CHR ''/''" "CHR ''/'' # rev d"] v by simp
  show "parent_dir (in_directory d v) = d" "last_name (in_directory d v) \<noteq> []"
    using assms(2) by (simp_all add: parent_dir_def last_name_def in_directory_def w u u')
qed

definition plain_creator :: "creator \<Rightarrow> bool" where
  "plain_creator c \<longleftrightarrow> (\<forall>x. field_shown c = Some x \<longrightarrow> plain (input_value x))"

definition plain_shown :: "tree_item \<Rightarrow> bool" where
  "plain_shown it \<longleftrightarrow> plain (item_name it) \<and> plain (renameValue it) \<and> plain_creator (item_creator it)"

definition in_place :: "explorer \<Rightarrow> bool" where
  "in_place s \<longleftrightarrow>
     (\<forall>it\<in>set (items s). plain_shown it) \<and> plain_creator (top_creator s) \<and>
     (\<forall>nm\<in>set (all_names (nullish (file_nodes s) [])). plain nm) \<and> (\<forall>r\<in>set (requests s). well_placed r)"

lemma plain_set_creating: "plain_creator c \<Longrightarrow> plain_creator (set_creating b v c)"
  by (auto simp: plain_creator_def set_creating_def fresh_input_def plain_def split: option.splits)

lemma plain_creator_step:
  assumes c: "plain_creator c" and e: "plain_field e"
  shows "plain_creator (fst (creator_step b d e c))"
    and "snd (creator_step b d e c) = Some p \<Longrightarrow> parent_dir p = d \<and> last_name p \<noteq> []"
proof -
  have "plain_creator (fst (creator_step b d e c)) \<and>
      (snd (creator_step b d e c) = Some p \<longrightarrow> parent_dir p = d \<and> last_name p \<noteq> [])"
  proof (cases "field_shown c")
    case (Some x)
    have x: "plain (input_value x)" using c Some by (simp add: plain_creator_def)
    have f: "plain_creator (c\<lparr>field_shown := Some y\<rparr>)" if "plain (input_value y)" for y
      using that by (simp add: plain_creator_def)
    show ?thesis
      by (cases e) (use x e f placed [OF x] in \<open>auto simp: creator_step_def Some input_enter_def plain_set_creating Let_def\<close>)
  qed (simp add: creator_step_def c)
  then show "plain_creator (fst (creator_step b d e c))"
    and "snd (creator_step b d e c) = Some p \<Longrightarrow> parent_dir p = d \<and> last_name p \<noteq> []" by blast+
qed

lemma plain_reuse:
  assumes "reuse_item depth p nm d old n = (it, m)" and "\<forall>x\<in>set old. plain_shown x" and "plain nm"
  shows "plain_shown it"
  using assms
  by (auto simp: reuse_item_def new_item_def plain_shown_def plain_creator_def idle_def dest: find_by_SomeD split: option.splits)

lemma plain_mount:
  "\<forall>x\<in>set old. plain_shown x \<Longrightarrow> \<forall>nm\<in>set (all_names ns). plain nm \<Longrightarrow> \<forall>x\<in>set (fst (mount depth ns old n)). plain_shown x"
proof (induction depth ns old n rule: mount.induct)
  case (2 depth p nm d ns old n)
  then show ?case by (auto split: prod.splits dest: plain_reuse)
next
  case (3 depth p nm d ch ns old n)
  then show ?case by (fastforce split: prod.splits if_splits dest: plain_reuse)
qed simp

lemma in_place_change:
  assumes s: "in_place s" and f: "\<And>x. x \<in> set (items s) \<Longrightarrow> plain_shown x \<Longrightarrow> plain_shown (f x)"
  shows "in_place (change_item i f s)"
proof -
  have "plain_shown y" if y: "y \<in> set (map_where inst i f (items s))" for y
  proof -
    obtain x where "x \<in> set (items s)" "y = (if inst x = i then f x else x)"
      using y unfolding map_where_def set_map by blast
    then show ?thesis using s f by (auto simp: in_place_def)
  qed
  then show ?thesis using s by (simp add: in_place_def change_item_def)
qed

lemma in_place_ask: "in_place s \<Longrightarrow> well_placed r \<Longrightarrow> in_place (ask r s)"
  by (auto simp: in_place_def ask_def)

lemma in_place_render:
  assumes "in_place s" and "\<forall>nm\<in>set (all_names (nullish v [])). plain nm"
  shows "in_place (render (s\<lparr>file_nodes := v\<rparr>))"
proof -
  obtain its m where e: "mount 0 (nullish v []) (items s) (next_inst s) = (its, m)"
    by (cases "mount 0 (nullish v []) (items s) (next_inst s)")
  have "\<forall>x\<in>set its. plain_shown x" using plain_mount [of "items s" "nullish v []" 0 "next_inst s"] assms e by (simp add: in_place_def)
  moreover have "render (s\<lparr>file_nodes := v\<rparr>) = s\<lparr>file_nodes := v, items := its, next_inst := m\<rparr>" using e by (simp add: render_def)
  ultimately show ?thesis using assms by (simp add: in_place_def)
qed

lemma in_place_rerender: "in_place s \<Longrightarrow> in_place (render s)"
  using in_place_render [of s "file_nodes s"] by (simp add: in_place_def)

lemma in_place_submit:
  assumes "in_place s" and "\<And>q. p = Some q \<Longrightarrow> parent_dir q = d \<and> last_name q \<noteq> []"
  shows "in_place (handleNewItemSubmit ow d c p s)"
  using assms by (auto simp: handleNewItemSubmit_def in_place_ask split: option.split)

lemma in_place_rename:
  assumes s: "in_place s" and it: "it \<in> set (items s)"
  shows "in_place (handleRenameSubmit it s)"
proof -
  have "plain (renameValue it)" using s it by (simp add: in_place_def plain_shown_def)
  then have "well_placed (RenameRequest i (item_path it) (in_directory (parent_dir (item_path it)) (renameValue it)))"
    if "trim (renameValue it) \<noteq> []" for i
    using placed that by simp
  moreover have "in_place (change_item (inst it) (\<lambda>x. x\<lparr>submitting_ref := True, isSubmitting := True\<rparr>) s)"
      "in_place (change_item (inst it) finish_rename s)"
    by (rule in_place_change [OF s], simp add: plain_shown_def finish_rename_def)+
  ultimately show ?thesis using s by (auto simp: handleRenameSubmit_def in_place_ask)
qed

lemma in_place_item_step:
  assumes s: "in_place s" and it: "it \<in> set (items s)" and e: "plain_item e"
  shows "in_place (item_step e it s)"
proof (cases e)
  case Clicked
  have "in_place (change_item (inst it) (\<lambda>x. set_expanded (\<not> expanded x) x) s)"
    by (rule in_place_change [OF s]) (simp add: plain_shown_def set_expanded_def plain_set_creating)
  moreover have "in_place (s\<lparr>selectedFile := p\<rparr>)" for p using s by (simp add: in_place_def)
  ultimately show ?thesis by (simp add: Clicked in_place_rerender)
next
  case RenameChosen
  show ?thesis unfolding RenameChosen item_step.simps
    by (rule in_place_change [OF s]) (simp add: plain_shown_def start_rename_def)
next
  case (NewChosen ty)
  have "in_place (change_item (inst it) (start_new ty) s)"
    by (rule in_place_change [OF s]) (simp add: plain_shown_def start_new_def plain_set_creating)
  then show ?thesis using s by (simp add: NewChosen in_place_rerender)
next
  case (RenameTyped v)
  have "in_place (change_item (inst it) (\<lambda>x. x\<lparr>renameValue := v\<rparr>) s)"
    by (rule in_place_change [OF s]) (use e in \<open>simp add: plain_shown_def RenameTyped\<close>)
  then show ?thesis using s by (simp add: RenameTyped)
next
  case RenameEscape
  have "in_place (change_item (inst it) rename_escape s)"
    by (rule in_place_change [OF s]) (simp add: plain_shown_def rename_escape_def)
  then show ?thesis using s by (simp add: RenameEscape)
next
  case (InField f)
  obtain c p where c: "creator_step True (item_path it) f (item_creator it) = (c, p)"
    by (cases "creator_step True (item_path it) f (item_creator it)")
  have "plain_creator (item_creator it)" "plain_field f" using s it e by (simp_all add: in_place_def plain_shown_def InField)
  then have p: "plain_creator c" "\<And>q. p = Some q \<Longrightarrow> parent_dir q = item_path it \<and> last_name q \<noteq> []"
    using plain_creator_step [of "item_creator it" f True "item_path it"] c by simp_all
  have "in_place (change_item (inst it) (\<lambda>x. x\<lparr>item_creator := c\<rparr>) s)"
    by (rule in_place_change [OF s]) (use p in \<open>simp add: plain_shown_def\<close>)
  then show ?thesis using s p(2) by (simp add: InField item_input_def c in_place_submit)
next
  case ToolChosen
  then show ?thesis using s by (simp add: in_place_def)
qed (use s it in \<open>simp_all add: in_place_rename in_place_ask\<close>)

lemma in_place_answered:
  assumes "in_place s"
  shows "in_place (answered k ok s)"
proof -
  have "in_place t \<Longrightarrow> in_place (request_done ok r t)" for r t
  proof (cases r)
    case (CreateRequest ow d ty p)
    assume t: "in_place t"
    have "in_place (change_item i (\<lambda>x. x\<lparr>item_creator := set_creating (expanded x) None (item_creator x)\<rparr>) t)" for i
      by (rule in_place_change [OF t]) (simp add: plain_shown_def plain_set_creating)
    moreover have "in_place (t\<lparr>top_creator := set_creating True None (top_creator t)\<rparr>)"
      using t by (simp add: in_place_def plain_set_creating)
    ultimately show ?thesis using t by (cases ow) (simp_all add: CreateRequest)
  next
    case (RenameRequest i p q)
    assume t: "in_place t"
    show ?thesis unfolding RenameRequest request_done.simps
      by (rule in_place_change [OF t]) (simp add: plain_shown_def rename_answered_def finish_rename_def)
  qed simp
  moreover have "in_place (s\<lparr>in_flight := r\<rparr>)" for r using assms by (simp add: in_place_def)
  ultimately show ?thesis using assms by (simp add: answered_def)
qed

lemma in_place_step: "in_place s \<Longrightarrow> plain_event e \<Longrightarrow> in_place (explorer_step e s)"
proof (cases e)
  case (AtItem i f)
  assume s: "in_place s" and e: "plain_event e"
  then show ?thesis using in_place_item_step [OF s] by (auto simp: AtItem dest: find_by_SomeD split: option.split)
next
  case (AtTop f)
  assume s: "in_place s" and e: "plain_event e"
  obtain c p where c: "creator_step True [] f (top_creator s) = (c, p)" by (cases "creator_step True [] f (top_creator s)")
  have p: "plain_creator c" "\<And>q. p = Some q \<Longrightarrow> parent_dir q = [] \<and> last_name q \<noteq> []"
    using plain_creator_step [of "top_creator s" f True "[]"] c s e by (simp_all add: in_place_def AtTop)
  have "in_place (s\<lparr>top_creator := c\<rparr>)" using s p(1) by (simp add: in_place_def)
  then show ?thesis using p(2) by (simp add: AtTop top_input_def c in_place_submit)
next
  case (NewAtTop ty)
  assume "in_place s"
  then show ?thesis by (simp add: NewAtTop in_place_def plain_set_creating)
qed (simp_all add: in_place_render in_place_answered)

text \<open>Without slashes in names and in what is typed, a rename keeps a file in its directory, and a new item is in the
  directory whose menu was used; neither has a blank name.\<close>

theorem files_stay_in_their_directories:
  assumes "\<forall>e\<in>set es. plain_event e" and "r \<in> set (requests (fold explorer_step es initial_explorer))"
  shows "well_placed r"
proof -
  have "in_place s \<Longrightarrow> \<forall>e\<in>set es. plain_event e \<Longrightarrow> in_place (fold explorer_step es s)" for s
    by (induction es arbitrary: s) (simp_all add: in_place_step)
  moreover have "in_place initial_explorer" by (simp add: in_place_def initial_explorer_def plain_creator_def idle_def)
  ultimately show ?thesis using assms unfolding in_place_def by blast
qed

lemma files_stay_in_their_directories_witness:
  "well_placed (CreateRequest (Some 0) ''d'' NewFile ''d/b'')"
proof (rule files_stay_in_their_directories)
  let ?es = "[TreeArrived [folder], AtItem 0 (NewChosen NewFile), AtItem 0 (InField (Typed ''b'')), AtItem 0 (InField EnterPressed)]"
  show "\<forall>e\<in>set ?es. plain_event e" by code_simp
  show "CreateRequest (Some 0) ''d'' NewFile ''d/b'' \<in> set (requests (fold explorer_step ?es initial_explorer))" by code_simp
qed

subsection \<open>Where the explorer does what it does not mean to\<close>

text \<open>A second Enter while the first creation runs asks for the same file again.\<close>

lemma enter_twice_creates_twice:
  "requests (fold explorer_step [NewAtTop NewFile, AtTop (Typed ''a''), AtTop EnterPressed, AtTop EnterPressed] initial_explorer) =
     [CreateRequest None [] NewFile ''a'', CreateRequest None [] NewFile ''a'']"
  by code_simp

text \<open>A name with blanks at its ends differs from the one of before but is sent trimmed: the file is renamed to itself.\<close>

lemma renamed_to_itself:
  "requests (fold explorer_step [TreeArrived [folder], AtItem 1 RenameChosen, AtItem 1 (RenameTyped ''a ''), AtItem 1 RenameEnter]
     initial_explorer) = [RenameRequest 1 ''d/a'' ''d/a'']"
  by code_simp

text \<open>The answer to a creation closes the field that was opened since.\<close>

lemma late_creation_closes_next_field:
  "top_creator (fold explorer_step [NewAtTop NewFile, AtTop (Typed ''a''), AtTop EnterPressed, AtTop ResetFires, AtTop EscapePressed,
     NewAtTop NewDirectory, AtTop (Typed ''b''), Answered 0 True] initial_explorer) = idle"
  by code_simp

text \<open>A rename that fails closes the field of the item, also when it was opened again since.\<close>

lemma late_rename_closes_next_field:
  "map isRenaming (items (fold explorer_step [TreeArrived [folder], AtItem 1 RenameChosen, AtItem 1 (RenameTyped ''b''),
     AtItem 1 RenameEnter, AtItem 1 RenameEscape, AtItem 1 RenameChosen, AtItem 1 (RenameTyped ''c''), Answered 0 False]
     initial_explorer)) = [False, False]"
  by code_simp

text \<open>A file that is renamed stays selected under its old path.\<close>

lemma selection_keeps_old_path:
  "let s = fold explorer_step [TreeArrived [folder], AtItem 1 Clicked, AtItem 1 RenameChosen, AtItem 1 (RenameTyped ''b''),
       AtItem 1 RenameEnter, TreeArrived [TreeNode ''d'' ''d'' True (Some [TreeNode ''d/b'' ''b'' False None])], Answered 0 True]
       initial_explorer
   in selectedFile s = Some ''d/a'' \<and> map item_path (items s) = [''d'', ''d/b'']"
  by code_simp

end
