(* ===== verification/Mask_Editor.thy ===== *)
theory Mask_Editor
  imports Generation_Form "HOL-Library.Countable"
begin

section \<open>The mask editor\<close>

text \<open>
  \<^verbatim>\<open>components/workspace/image-gen/mask-editor.tsx\<close> in the form of \<open>Generation_Form\<close>: a canvas over the input image,
  whose strokes become the mask of the form.  The browser's pictures are a parameter: the type of a picture, and a
  record with loading one, its size, a black one, drawing a stroke or a picture on another, and \<open>toDataURL\<close>.  The
  effect that prepares the canvas waits for two images, is not cancelled, and runs when one of the two previews has
  changed.  The editor is there while the form is set to inpainting and shows its images; what the form does to
  the images elsewhere (uploads, the gallery, the defaults, a form that was stored) is part of the model.
\<close>

subsection \<open>State\<close>

datatype mask_tool = Paint | Erase

type_synonym point = "rat \<times> rat"

record 'p image_host =
  image_of :: "string \<Rightarrow> 'p option"
  size_of :: "'p \<Rightarrow> nat \<times> nat"
  new_canvas :: 'p
  black :: "nat \<times> nat \<Rightarrow> 'p"
  stroke_on :: "bool \<Rightarrow> nat \<Rightarrow> point \<Rightarrow> point \<Rightarrow> 'p \<Rightarrow> 'p"
  draw_on :: "'p \<Rightarrow> 'p \<Rightarrow> 'p"
  toDataURL :: "'p \<Rightarrow> string"
  opaque :: "'p \<Rightarrow> bool"

datatype preparation = AwaitBase nat string "string option" | AwaitMask nat string

record 'p mask_editor =
  page :: generation_page
  mounted :: bool
  canvas :: 'p
  canvas_inst :: nat
  drawing :: bool
  last_point :: "point option"
  brushSize :: nat
  maskTool :: mask_tool
  editorError :: "string option"
  setups :: "preparation list"
  seen_props :: "string option \<times> string option"

definition initial_mask_editor :: "'p image_host \<Rightarrow> generation_page \<Rightarrow> 'p mask_editor" where
  "initial_mask_editor h gp =
     \<lparr>page = gp, mounted = False, canvas = new_canvas h, canvas_inst = 0, drawing = False, last_point = None, brushSize = 28,
      maskTool = Paint, editorError = None, setups = [], seen_props = (None, None)\<rparr>"

definition inputImagePreview :: "'p mask_editor \<Rightarrow> string option" where
  "inputImagePreview s = previews (form_uploads (page s)) InputImage"

definition maskImagePreview :: "'p mask_editor \<Rightarrow> string option" where
  "maskImagePreview s = previews (form_uploads (page s)) MaskImage"

text \<open>The canvas is there while the editor is and there is an input image.\<close>

definition has_canvas :: "'p mask_editor \<Rightarrow> bool" where
  "has_canvas s \<longleftrightarrow> mounted s \<and> truthy_string (inputImagePreview s)"

subsection \<open>Preparing the canvas\<close>

definition setup_canvas :: "'p mask_editor \<Rightarrow> 'p mask_editor" where
  "setup_canvas s =
     (case inputImagePreview s of
        None \<Rightarrow> s
      | Some u \<Rightarrow>
          if u = [] then s
          else s\<lparr>editorError := None, setups := setups s @ [AwaitBase (canvas_inst s) u (maskImagePreview s)]\<rparr>)"

text \<open>After a rendering: a canvas that appears is a new one, and the effect runs if a preview has changed.\<close>

definition rendered :: "'p image_host \<Rightarrow> 'p mask_editor \<Rightarrow> 'p mask_editor" where
  "rendered h s =
     (let now = (inputImagePreview s, maskImagePreview s);
          s1 = (if truthy_string (fst (seen_props s)) = has_canvas s then s
                else s\<lparr>canvas_inst := Suc (canvas_inst s), canvas := new_canvas h\<rparr>)
      in if \<not> mounted s \<or> now = seen_props s then s else setup_canvas (s1\<lparr>seen_props := now\<rparr>))"

definition setup_failed :: "'p mask_editor \<Rightarrow> 'p mask_editor" where
  "setup_failed s = s\<lparr>editorError := Some ''Could not initialize the inpaint mask editor.''\<rparr>"

definition setup_step :: "'p image_host \<Rightarrow> preparation \<Rightarrow> 'p mask_editor \<Rightarrow> preparation list \<times> 'p mask_editor" where
  "setup_step h x s =
     (case x of
        AwaitBase i u m \<Rightarrow>
          (case image_of h u of
             None \<Rightarrow> ([], setup_failed s)
           | Some b \<Rightarrow>
               (case m of None \<Rightarrow> [] | Some v \<Rightarrow> if v = [] then [] else [AwaitMask i v],
                if i = canvas_inst s then s\<lparr>canvas := black h (size_of h b)\<rparr> else s))
      | AwaitMask i v \<Rightarrow>
          (case image_of h v of
             None \<Rightarrow> ([], setup_failed s)
           | Some q \<Rightarrow> ([], if i = canvas_inst s then s\<lparr>canvas := draw_on h q (canvas s)\<rparr> else s)))"

text \<open>The image that a setup waits for has loaded, or failed to.\<close>

definition image_arrived :: "'p image_host \<Rightarrow> nat \<Rightarrow> 'p mask_editor \<Rightarrow> 'p mask_editor" where
  "image_arrived h k s =
     (if k < length (setups s)
      then (case setup_step h (setups s ! k) s of
              (xs, s1) \<Rightarrow> s1\<lparr>setups := take k (setups s) @ xs @ drop (Suc k) (setups s)\<rparr>)
      else s)"

text \<open>The editor goes, with its state; a setup that still runs ends on a canvas that nobody sees.  When it comes back it
  starts anew.\<close>

definition unmount_editor :: "'p mask_editor \<Rightarrow> 'p mask_editor" where
  "unmount_editor s = s\<lparr>mounted := False, drawing := False, last_point := None, editorError := None, setups := []\<rparr>"

definition mount_editor :: "'p image_host \<Rightarrow> 'p mask_editor \<Rightarrow> 'p mask_editor" where
  "mount_editor h s =
     (if mounted s then s
      else rendered h (s\<lparr>mounted := True, drawing := False, last_point := None, brushSize := 28, maskTool := Paint,
        editorError := None, setups := [], seen_props := (None, None)\<rparr>))"

subsection \<open>Drawing\<close>

record rect =
  rect_left :: rat
  rect_top :: rat
  rect_width :: rat
  rect_height :: rat

definition getCanvasPoint :: "'p image_host \<Rightarrow> rect \<Rightarrow> point \<Rightarrow> 'p mask_editor \<Rightarrow> point" where
  "getCanvasPoint h r p s =
     ((fst p - rect_left r) * (rat_of_nat (fst (size_of h (canvas s))) / rect_width r),
      (snd p - rect_top r) * (rat_of_nat (snd (size_of h (canvas s))) / rect_height r))"

definition paintStroke :: "'p image_host \<Rightarrow> point \<Rightarrow> point \<Rightarrow> 'p mask_editor \<Rightarrow> 'p mask_editor" where
  "paintStroke h p q s = s\<lparr>canvas := stroke_on h (maskTool s = Paint) (brushSize s) p q (canvas s)\<rparr>"

definition onPointerDown :: "'p image_host \<Rightarrow> rect \<Rightarrow> point \<Rightarrow> 'p mask_editor \<Rightarrow> 'p mask_editor" where
  "onPointerDown h r ev s =
     (if \<not> has_canvas s then s
      else let p = getCanvasPoint h r ev s in paintStroke h p p (s\<lparr>drawing := True, last_point := Some p\<rparr>))"

definition onPointerMove :: "'p image_host \<Rightarrow> rect \<Rightarrow> point \<Rightarrow> 'p mask_editor \<Rightarrow> 'p mask_editor" where
  "onPointerMove h r ev s =
     (if \<not> drawing s \<or> \<not> has_canvas s then s
      else case last_point s of
             None \<Rightarrow> s
           | Some q \<Rightarrow> let p = getCanvasPoint h r ev s in (paintStroke h q p s)\<lparr>last_point := Some p\<rparr>)"

definition pushCanvasMask :: "'p image_host \<Rightarrow> 'p mask_editor \<Rightarrow> 'p mask_editor" where
  "pushCanvasMask h s =
     (if has_canvas s then s\<lparr>page := onMaskChange (toDataURL h (canvas s)) (page s)\<rparr> else s)"

definition finishDraw :: "'p image_host \<Rightarrow> 'p mask_editor \<Rightarrow> 'p mask_editor" where
  "finishDraw h s =
     (if drawing s then rendered h (pushCanvasMask h (s\<lparr>drawing := False, last_point := None\<rparr>)) else s)"

definition clearCanvas :: "'p image_host \<Rightarrow> 'p mask_editor \<Rightarrow> 'p mask_editor" where
  "clearCanvas h s =
     (if has_canvas s
      then rendered h (s\<lparr>canvas := black h (size_of h (canvas s)), page := onMaskClear (page s)\<rparr>) else s)"

text \<open>Besides the editor's own: a file that was read or could not be, a pick from the gallery, the buttons of the form,
  and a form that is taken from the storage of the session.\<close>

datatype mask_input =
    PointerDown rect point
  | PointerMove rect point
  | PointerUp
  | ToolChosen mask_tool
  | BrushChosen nat
  | ClearClicked
  | ImageArrived nat
  | Uploaded upload_file upload_field string
  | FileUnreadable upload_field
  | GalleryPicked upload_field string string
  | FormReset "json option" "string list"
  | DefaultsUsed "json option"
  | FormRestored form_state
  | EditorShown
  | EditorHidden

fun mask_step :: "'p image_host \<Rightarrow> mask_input \<Rightarrow> 'p mask_editor \<Rightarrow> 'p mask_editor" where
  "mask_step h (PointerDown r p) s = onPointerDown h r p s"
| "mask_step h (PointerMove r p) s = onPointerMove h r p s"
| "mask_step h PointerUp s = finishDraw h s"
| "mask_step h (ToolChosen t) s = s\<lparr>maskTool := t\<rparr>"
| "mask_step h (BrushChosen n) s = s\<lparr>brushSize := n\<rparr>"
| "mask_step h ClearClicked s = clearCanvas h s"
| "mask_step h (ImageArrived k) s = image_arrived h k s"
| "mask_step h (Uploaded f field b) s = rendered h (s\<lparr>page := uploaded f field b (page s)\<rparr>)"
| "mask_step h (FileUnreadable field) s =
     rendered h (s\<lparr>page := (page s)\<lparr>form_uploads := file_unreadable field (form_uploads (page s))\<rparr>\<rparr>)"
| "mask_step h (GalleryPicked field b name) s = rendered h (s\<lparr>page := handleGallerySelect field b name (page s)\<rparr>)"
| "mask_step h (FormReset prefs models) s = rendered h (s\<lparr>page := onReset prefs models (page s)\<rparr>)"
| "mask_step h (DefaultsUsed prefs) s = rendered h (s\<lparr>page := onUseDefaults prefs (page s)\<rparr>)"
| "mask_step h (FormRestored f) s = rendered h (s\<lparr>page := edit (\<lambda>_. f) (page s)\<rparr>)"
| "mask_step h EditorShown s = mount_editor h s"
| "mask_step h EditorHidden s = unmount_editor s"

subsection \<open>What the browser's pictures promise\<close>

text \<open>
  \<open>toDataURL\<close> gives a text, which loads again as the same picture when that is opaque and not empty.  The black
  picture of an image's size is; strokes and pictures that are drawn on one keep it opaque and of its size; an
  opaque picture of the same size covers it.
\<close>

definition host_ok :: "'p image_host \<Rightarrow> bool" where
  "host_ok h \<longleftrightarrow>
     (\<forall>p. toDataURL h p \<noteq> [] \<and> (opaque h p \<longrightarrow> image_of h (toDataURL h p) = Some p)) \<and>
     (\<forall>u b. image_of h u = Some b \<longrightarrow> opaque h (black h (size_of h b))) \<and> (\<forall>z. size_of h (black h z) = z) \<and>
     (\<forall>w n a b p. size_of h (stroke_on h w n a b p) = size_of h p \<and> (opaque h p \<longrightarrow> opaque h (stroke_on h w n a b p))) \<and>
     (\<forall>q p. size_of h (draw_on h q p) = size_of h p \<and> (opaque h p \<longrightarrow> opaque h (draw_on h q p)) \<and>
        (opaque h q \<and> opaque h p \<and> size_of h q = size_of h p \<longrightarrow> draw_on h q p = q))"

lemma host_okD:
  assumes "host_ok h"
  shows "toDataURL h p \<noteq> []" "opaque h p \<Longrightarrow> image_of h (toDataURL h p) = Some p"
    "image_of h u = Some b \<Longrightarrow> opaque h (black h (size_of h b))" "size_of h (black h z) = z"
    "size_of h (stroke_on h w n x y p) = size_of h p" "opaque h p \<Longrightarrow> opaque h (stroke_on h w n x y p)"
    "size_of h (draw_on h q p) = size_of h p" "opaque h p \<Longrightarrow> opaque h (draw_on h q p)"
    "opaque h q \<Longrightarrow> opaque h p \<Longrightarrow> size_of h q = size_of h p \<Longrightarrow> draw_on h q p = q"
  using assms unfolding host_ok_def by blast+

subsection \<open>The mask is what was painted\<close>

text \<open>Nothing is touched while the canvas is prepared, and images are not changed in the middle of a stroke.\<close>

definition idle :: "'p mask_editor \<Rightarrow> bool" where
  "idle s \<longleftrightarrow> setups s = [] \<and> \<not> drawing s"

fun patient :: "'p mask_editor \<Rightarrow> mask_input \<Rightarrow> bool" where
  "patient s (PointerDown r p) = (setups s = [])"
| "patient s ClearClicked = idle s"
| "patient s (Uploaded f field b) = (idle s \<and> b \<noteq> [])"
| "patient s (FileUnreadable field) = idle s"
| "patient s (GalleryPicked field b name) = (idle s \<and> b \<noteq> [])"
| "patient s (FormReset prefs models) = idle s"
| "patient s e = True"

fun patiently :: "'p image_host \<Rightarrow> mask_input list \<Rightarrow> 'p mask_editor \<Rightarrow> bool" where
  "patiently h [] s = True"
| "patiently h (e # es) s = (patient s e \<and> patiently h es (mask_step h e s))"

text \<open>The picture that belongs on the canvas: the mask that is previewed, on black of the input image's size.\<close>

definition canvas_for :: "'p image_host \<Rightarrow> string option \<Rightarrow> string option \<Rightarrow> 'p option" where
  "canvas_for h u m =
     (case Option.bind u (image_of h) of
        None \<Rightarrow> None
      | Some b \<Rightarrow>
          (case m of
             None \<Rightarrow> Some (black h (size_of h b))
           | Some v \<Rightarrow> map_option (\<lambda>q. draw_on h q (black h (size_of h b))) (image_of h v)))"

definition shows_mask :: "'p image_host \<Rightarrow> 'p mask_editor \<Rightarrow> bool" where
  "shows_mask h s \<longleftrightarrow> canvas_for h (inputImagePreview s) (maskImagePreview s) = Some (canvas s)"

text \<open>What is under the brush: opaque, and of the input image's size.\<close>

definition clean_canvas :: "'p image_host \<Rightarrow> 'p mask_editor \<Rightarrow> bool" where
  "clean_canvas h s \<longleftrightarrow>
     opaque h (canvas s) \<and> map_option (size_of h) (Option.bind (inputImagePreview s) (image_of h)) = Some (size_of h (canvas s))"

definition setup_ok :: "'p image_host \<Rightarrow> 'p mask_editor \<Rightarrow> bool" where
  "setup_ok h s \<longleftrightarrow>
     (\<forall>x\<in>set (setups s). has_canvas s \<and>
        (case x of
           AwaitBase i u m \<Rightarrow> i = canvas_inst s \<and> Some u = inputImagePreview s \<and> m = maskImagePreview s
         | AwaitMask i v \<Rightarrow> i = canvas_inst s \<and> Some v = maskImagePreview s \<and>
             canvas_for h (inputImagePreview s) None = Some (canvas s))) \<and>
     length (setups s) \<le> 1 \<and> (drawing s \<longrightarrow> setups s = [])"

definition editor_ok :: "'p image_host \<Rightarrow> 'p mask_editor \<Rightarrow> bool" where
  "editor_ok h s \<longleftrightarrow>
     (mounted s \<longrightarrow> seen_props s = (inputImagePreview s, maskImagePreview s)) \<and> maskImagePreview s \<noteq> Some [] \<and> setup_ok h s \<and>
     (has_canvas s \<and> setups s = [] \<and> editorError s = None \<longrightarrow> (if drawing s then clean_canvas h s else shows_mask h s))"

lemma shown_clean:
  assumes "host_ok h" and "shows_mask h s"
  shows "clean_canvas h s"
proof -
  obtain u b where u: "inputImagePreview s = Some u" "image_of h u = Some b"
    using assms(2) by (cases "inputImagePreview s"; cases "image_of h (the (inputImagePreview s))")
      (auto simp: shows_mask_def canvas_for_def)
  have "opaque h (black h (size_of h b))" "size_of h (black h (size_of h b)) = size_of h b"
    using host_okD(3,4) [OF assms(1)] u(2) by blast+
  moreover have "canvas s = black h (size_of h b) \<or> (\<exists>q. canvas s = draw_on h q (black h (size_of h b)))"
    using assms(2) u by (auto simp: shows_mask_def canvas_for_def split: option.splits; metis)
  ultimately have "opaque h (canvas s) \<and> size_of h (canvas s) = size_of h b"
    using host_okD(7,8) [OF assms(1)] by auto
  then show ?thesis using u by (simp add: clean_canvas_def)
qed

lemma previews_after:
  "previews (form_uploads (onMaskChange v gp)) f = (if f = MaskImage then Some v else previews (form_uploads gp) f)"
  "previews (form_uploads (onMaskClear gp)) f = (if f = MaskImage then None else previews (form_uploads gp) f)"
  "previews (form_uploads (onReset prefs models gp)) f = None"
  "previews (form_uploads (uploaded file g b gp)) f =
     (if f = g then Some b else if g = InputImage \<and> f = MaskImage then None else previews (form_uploads gp) f)"
  "previews (form_uploads (handleGallerySelect g b name gp)) f = (if f = g then Some b else previews (form_uploads gp) f)"
  "previews (file_unreadable g u) f = (if f = g then None else previews u f)"
  "previews (form_uploads (onUseDefaults prefs gp)) f = previews (form_uploads gp) f"
  "previews (form_uploads (edit c gp)) f = previews (form_uploads gp) f"
  by (simp_all add: onMaskChange_def onMaskClear_def put_preview_def edit_def onReset_def reset_all_def initial_uploads_def
      uploaded_def file_read_def handleGallerySelect_def file_unreadable_def onUseDefaults_def)

lemma mask_image_after:
  "gf_mask_image (form (onMaskChange v gp)) = v"
  "gf_mask_image (form (onMaskClear gp)) = []"
  "gf_mask_image (form (onReset prefs models gp)) = []"
  "gf_mask_image (form (uploaded file g b gp)) = (if g = MaskImage then b else if g = InputImage then [] else gf_mask_image (form gp))"
  "gf_mask_image (form (handleGallerySelect g b name gp)) =
     (if g = MaskImage then b else if g = InputImage then [] else gf_mask_image (form gp))"
proof -
  have "form_image MaskImage (form (onReset prefs models gp)) = [] \<longleftrightarrow> previews (form_uploads (onReset prefs models gp)) MaskImage = None"
    using shown_after_reset [of prefs models gp] unfolding shown_is_sent_def by (rule spec)
  then show "gf_mask_image (form (onReset prefs models gp)) = []" by (simp add: previews_after)
  show "gf_mask_image (form (uploaded file g b gp)) =
      (if g = MaskImage then b else if g = InputImage then [] else gf_mask_image (form gp))"
    "gf_mask_image (form (handleGallerySelect g b name gp)) =
      (if g = MaskImage then b else if g = InputImage then [] else gf_mask_image (form gp))"
    by (cases g; simp add: uploaded_def handleGallerySelect_def put_preview_def edit_def handleFormUpload_def set_form_image.simps)+
qed (simp_all add: onMaskChange_def onMaskClear_def put_preview_def edit_def set_form_image.simps)

text \<open>A rendering starts to prepare the canvas, or nothing has changed.\<close>

lemma setup_ok_none: "setups s = [] \<Longrightarrow> setup_ok h s"
  by (simp add: setup_ok_def)

lemma rendered_ok:
  assumes "maskImagePreview s \<noteq> Some []" and "setups s = []" and "\<not> drawing s"
    and "seen_props s = (inputImagePreview s, maskImagePreview s) \<Longrightarrow> has_canvas s \<Longrightarrow> editorError s = None \<Longrightarrow> shows_mask h s"
  shows "editor_ok h (rendered h s)"
proof (cases "\<not> mounted s \<or> seen_props s = (inputImagePreview s, maskImagePreview s)")
  case True
  then have "rendered h s = s" by (auto simp: rendered_def)
  then show ?thesis using assms True by (auto simp: editor_ok_def setup_ok_none has_canvas_def)
next
  case False
  define s1 where "s1 = (if truthy_string (fst (seen_props s)) = has_canvas s then s
      else s\<lparr>canvas_inst := Suc (canvas_inst s), canvas := new_canvas h\<rparr>)
      \<lparr>seen_props := (inputImagePreview s, maskImagePreview s)\<rparr>"
  have f: "page s1 = page s" "setups s1 = []" "drawing s1 = drawing s" "mounted s1 = mounted s"
      "seen_props s1 = (inputImagePreview s, maskImagePreview s)"
    using assms(2) by (simp_all add: s1_def)
  have p: "inputImagePreview s1 = inputImagePreview s" "maskImagePreview s1 = maskImagePreview s" "has_canvas s1 = has_canvas s"
    by (simp_all add: inputImagePreview_def maskImagePreview_def has_canvas_def f)
  have r: "rendered h s = setup_canvas s1" using False by (auto simp: rendered_def s1_def Let_def)
  show ?thesis
  proof (cases "has_canvas s")
    case True
    then obtain u where u: "inputImagePreview s1 = Some u" "u \<noteq> []" by (auto simp: has_canvas_def truthy_string_def p)
    let ?t = "s1\<lparr>editorError := None, setups := [AwaitBase (canvas_inst s1) u (maskImagePreview s1)]\<rparr>"
    have q: "inputImagePreview ?t = Some u" "maskImagePreview ?t = maskImagePreview s" "has_canvas ?t"
      using u True p f by (simp_all add: inputImagePreview_def maskImagePreview_def has_canvas_def)
    have "setup_canvas s1 = ?t" using u f(2) by (simp add: setup_canvas_def)
    moreover have "editor_ok h ?t" using assms f p q u by (simp add: editor_ok_def setup_ok_def)
    ultimately show ?thesis by (simp add: r)
  next
    case c: False
    then have "setup_canvas s1 = s1" using False
      by (auto simp: setup_canvas_def has_canvas_def truthy_string_def p split: option.split)
    then show ?thesis using c assms f p by (simp add: r editor_ok_def setup_ok_none)
  qed
qed

lemma same_page:
  "page s' = page s \<Longrightarrow> mounted s' = mounted s \<Longrightarrow>
   inputImagePreview s' = inputImagePreview s \<and> maskImagePreview s' = maskImagePreview s \<and> has_canvas s' = has_canvas s"
  by (simp add: inputImagePreview_def maskImagePreview_def has_canvas_def)

lemma image_arrived_ok:
  assumes s: "editor_ok h s"
  shows "editor_ok h (image_arrived h k s)"
proof (cases "k < length (setups s)")
  case True
  then obtain x where x: "setups s = [x]" "k = 0" using s by (cases "setups s") (auto simp: editor_ok_def setup_ok_def)
  have ok: "mounted s \<longrightarrow> seen_props s = (inputImagePreview s, maskImagePreview s)"
      "maskImagePreview s \<noteq> Some []" "has_canvas s" "\<not> drawing s"
    using s x by (auto simp: editor_ok_def setup_ok_def)
  have now: "case x of AwaitBase i u m \<Rightarrow> i = canvas_inst s \<and> Some u = inputImagePreview s \<and> m = maskImagePreview s
      | AwaitMask i v \<Rightarrow> i = canvas_inst s \<and> Some v = maskImagePreview s \<and> canvas_for h (inputImagePreview s) None = Some (canvas s)"
    using s x by (simp add: editor_ok_def setup_ok_def)
  have done0: "editor_ok h (s'\<lparr>setups := []\<rparr>)"
    if same: "page s' = page s" "mounted s' = mounted s" "seen_props s' = seen_props s" "drawing s' = drawing s"
      "editorError s' = None \<Longrightarrow> shows_mask h (s'\<lparr>setups := []\<rparr>)" for s'
    using ok same same_page [OF same(1,2)] same_page [of "s'\<lparr>setups := []\<rparr>" s] by (simp add: editor_ok_def setup_ok_none)
  show ?thesis
  proof (cases x)
    case (AwaitBase i u m)
    show ?thesis
    proof (cases "image_of h u")
      case None
      then have "image_arrived h k s = (setup_failed s)\<lparr>setups := []\<rparr>" using x by (simp add: image_arrived_def setup_step_def AwaitBase)
      then show ?thesis using done0 [of "setup_failed s"] by (simp add: setup_failed_def)
    next
      case b: (Some b)
      let ?s = "s\<lparr>canvas := black h (size_of h b)\<rparr>"
      have base: "canvas_for h (inputImagePreview s) None = Some (canvas ?s)"
      proof -
        have "inputImagePreview s = Some u" using now by (simp add: AwaitBase)
        then show ?thesis using b by (simp add: canvas_for_def)
      qed
      show ?thesis
      proof (cases m)
        case None
        then have "image_arrived h k s = ?s\<lparr>setups := []\<rparr>"
          using x now b by (simp add: image_arrived_def setup_step_def AwaitBase)
        moreover have "shows_mask h (?s\<lparr>setups := []\<rparr>)" using None now base same_page [of "?s\<lparr>setups := []\<rparr>" s]
          by (simp add: shows_mask_def AwaitBase)
        ultimately show ?thesis using done0 [of ?s] by simp
      next
        case (Some v)
        then have v: "v \<noteq> []" "maskImagePreview s = Some v" using ok(2) now by (auto simp: AwaitBase)
        then have "image_arrived h k s = ?s\<lparr>setups := [AwaitMask i v]\<rparr>"
          using x now Some b by (simp add: image_arrived_def setup_step_def AwaitBase)
        moreover have "editor_ok h (?s\<lparr>setups := [AwaitMask i v]\<rparr>)"
          using ok v now base same_page [of "?s\<lparr>setups := [AwaitMask i v]\<rparr>" s] by (simp add: editor_ok_def setup_ok_def AwaitBase)
        ultimately show ?thesis by simp
      qed
    qed
  next
    case (AwaitMask i v)
    then have v: "v \<noteq> []" "maskImagePreview s = Some v" using ok(2) now by auto
    show ?thesis
    proof (cases "image_of h v")
      case None
      then have "image_arrived h k s = (setup_failed s)\<lparr>setups := []\<rparr>" using x by (simp add: image_arrived_def setup_step_def AwaitMask)
      then show ?thesis using done0 [of "setup_failed s"] by (simp add: setup_failed_def)
    next
      case (Some q)
      let ?s = "s\<lparr>canvas := draw_on h q (canvas s)\<rparr>"
      have "image_arrived h k s = ?s\<lparr>setups := []\<rparr>" using x now Some by (simp add: image_arrived_def setup_step_def AwaitMask)
      moreover have "shows_mask h (?s\<lparr>setups := []\<rparr>)"
        using Some v now same_page [of "?s\<lparr>setups := []\<rparr>" s]
        by (auto simp: shows_mask_def canvas_for_def AwaitMask split: option.splits)
      ultimately show ?thesis using done0 [of ?s] by simp
    qed
  qed
qed (simp add: image_arrived_def s)

lemma finishDraw_ok:
  assumes h: "host_ok h" and s: "editor_ok h s"
  shows "editor_ok h (finishDraw h s)"
proof (cases "drawing s")
  case True
  let ?s = "s\<lparr>drawing := False, last_point := None\<rparr>"
  let ?v = "toDataURL h (canvas s)"
  have none: "setups s = []" using s True by (simp add: editor_ok_def setup_ok_def)
  show ?thesis
  proof (cases "has_canvas s")
    case c: True
    let ?t = "?s\<lparr>page := onMaskChange ?v (page s)\<rparr>"
    have p: "maskImagePreview ?t = Some ?v" "inputImagePreview ?t = inputImagePreview s"
      by (simp_all add: maskImagePreview_def inputImagePreview_def previews_after)
    have "shows_mask h ?t" if "editorError s = None"
    proof -
      have clean: "clean_canvas h s" using s True c none that by (simp add: editor_ok_def)
      then obtain b where b: "Option.bind (inputImagePreview s) (image_of h) = Some b" "size_of h b = size_of h (canvas s)"
        by (auto simp: clean_canvas_def)
      obtain u where u: "image_of h u = Some b" using b(1) by (auto simp: bind_eq_Some_conv)
      have "draw_on h (canvas s) (black h (size_of h b)) = canvas s"
        using host_okD(3) [OF h u] host_okD(4) [OF h] clean b(2) by (intro host_okD(9) [OF h]) (simp_all add: clean_canvas_def)
      moreover have "image_of h ?v = Some (canvas s)" using host_okD(2) [OF h] clean by (simp add: clean_canvas_def)
      ultimately show ?thesis using b(1) p by (simp add: shows_mask_def canvas_for_def)
    qed
    then have "editor_ok h (rendered h ?t)" using none p host_okD(1) [OF h] by (intro rendered_ok) simp_all
    moreover have "finishDraw h s = rendered h ?t" using True c
      by (simp add: finishDraw_def pushCanvasMask_def has_canvas_def inputImagePreview_def)
    ultimately show ?thesis by simp
  next
    case c: False
    have d: "\<not> has_canvas ?s" using c by (simp add: has_canvas_def inputImagePreview_def)
    have "editor_ok h (rendered h ?s)"
      using s none d by (intro rendered_ok) (simp_all add: editor_ok_def maskImagePreview_def)
    moreover have "finishDraw h s = rendered h ?s" using True d by (simp add: finishDraw_def pushCanvasMask_def)
    ultimately show ?thesis by simp
  qed
qed (simp add: finishDraw_def s)

text \<open>A stroke keeps the canvas clean.\<close>

lemma stroke_ok:
  assumes h: "host_ok h" and s: "editor_ok h s" and c: "has_canvas s" "setups s = []"
    and s': "page s' = page s" "mounted s' = mounted s" "setups s' = setups s" "seen_props s' = seen_props s"
      "editorError s' = editorError s" "drawing s'" "canvas s' = stroke_on h w n a b (canvas s)"
  shows "editor_ok h s'"
proof -
  note p = same_page [OF s'(1,2)]
  have "clean_canvas h s'" if "editorError s = None"
  proof -
    have "clean_canvas h s" using s c that shown_clean [OF h, of s] by (auto simp: editor_ok_def split: if_splits)
    then show ?thesis using p s'(7) host_okD(5,6) [OF h] by (simp add: clean_canvas_def)
  qed
  then show ?thesis using s c s' p by (simp add: editor_ok_def setup_ok_none)
qed

lemma tool_ok: "editor_ok h (s\<lparr>maskTool := t\<rparr>) = editor_ok h s" "editor_ok h (s\<lparr>brushSize := n\<rparr>) = editor_ok h s"
  by (simp_all add: editor_ok_def setup_ok_def shows_mask_def clean_canvas_def has_canvas_def inputImagePreview_def
      maskImagePreview_def cong: preparation.case_cong)

text \<open>A change of the form outside the editor, when it is idle.\<close>

lemma form_changed_ok:
  assumes s: "editor_ok h s" and i: "idle s" and m: "previews (form_uploads gp) MaskImage \<noteq> Some []"
  shows "editor_ok h (rendered h (s\<lparr>page := gp\<rparr>))"
proof (rule rendered_ok)
  let ?t = "s\<lparr>page := gp\<rparr>"
  show "maskImagePreview ?t \<noteq> Some []" using m by (simp add: maskImagePreview_def)
  show "setups ?t = []" "\<not> drawing ?t" using i by (simp_all add: idle_def)
  assume seen: "seen_props ?t = (inputImagePreview ?t, maskImagePreview ?t)" "has_canvas ?t" "editorError ?t = None"
  then have "inputImagePreview ?t = inputImagePreview s" "maskImagePreview ?t = maskImagePreview s" "has_canvas s" "editorError s = None"
    using s by (auto simp: editor_ok_def has_canvas_def)
  then show "shows_mask h ?t" using s i by (simp add: editor_ok_def shows_mask_def idle_def)
qed

lemma same_previews_ok:
  assumes s: "editor_ok h s" and p: "\<And>f. previews (form_uploads gp) f = previews (form_uploads (page s)) f"
  shows "editor_ok h (rendered h (s\<lparr>page := gp\<rparr>))"
proof -
  let ?t = "s\<lparr>page := gp\<rparr>"
  have q: "inputImagePreview ?t = inputImagePreview s" "maskImagePreview ?t = maskImagePreview s" "has_canvas ?t = has_canvas s"
    using p by (simp_all add: inputImagePreview_def maskImagePreview_def has_canvas_def)
  then have "rendered h ?t = ?t" using s by (simp add: rendered_def editor_ok_def)
  moreover have "editor_ok h ?t = editor_ok h s"
    by (simp add: q editor_ok_def setup_ok_def shows_mask_def clean_canvas_def cong: preparation.case_cong)
  ultimately show ?thesis using s by simp
qed

lemma clear_ok:
  assumes h: "host_ok h" and s: "editor_ok h s" and i: "idle s"
  shows "editor_ok h (clearCanvas h s)"
proof (cases "has_canvas s")
  case c: True
  let ?t = "s\<lparr>canvas := black h (size_of h (canvas s)), page := onMaskClear (page s)\<rparr>"
  have p: "maskImagePreview ?t = None" "inputImagePreview ?t = inputImagePreview s"
    by (simp_all add: maskImagePreview_def inputImagePreview_def previews_after)
  have "shows_mask h ?t" if "editorError s = None"
  proof -
    have "clean_canvas h s" using s c i that shown_clean [OF h, of s] by (auto simp: editor_ok_def idle_def)
    then show ?thesis using p by (auto simp: clean_canvas_def shows_mask_def canvas_for_def)
  qed
  then have "editor_ok h (rendered h ?t)" using i p by (intro rendered_ok) (simp_all add: idle_def)
  then show ?thesis using c by (simp add: clearCanvas_def)
qed (simp add: clearCanvas_def s)

lemma mask_step_ok:
  assumes h: "host_ok h" and s: "editor_ok h s" and e: "patient s e"
  shows "editor_ok h (mask_step h e s)"
proof -
  have m: "previews (form_uploads (page s)) MaskImage \<noteq> Some []" using s by (simp add: editor_ok_def maskImagePreview_def)
  show ?thesis
  proof (cases e)
    case (PointerDown r p)
    show ?thesis
    proof (cases "has_canvas s")
      case True
      then show ?thesis using e unfolding PointerDown mask_step.simps onPointerDown_def paintStroke_def Let_def
        by simp (rule stroke_ok [OF h s], simp_all)
    qed (simp add: PointerDown onPointerDown_def s)
  next
    case (PointerMove r p)
    show ?thesis
    proof (cases "drawing s \<and> has_canvas s \<and> last_point s \<noteq> None")
      case True
      then obtain q where q: "last_point s = Some q" "drawing s" "has_canvas s" by auto
      have "setups s = []" using s q by (simp add: editor_ok_def setup_ok_def)
      then show ?thesis using q unfolding PointerMove mask_step.simps onPointerMove_def paintStroke_def Let_def
        by simp (rule stroke_ok [OF h s], simp_all)
    next
      case False
      then have "mask_step h e s = s" by (auto simp: PointerMove onPointerMove_def split: option.split)
      then show ?thesis using s by simp
    qed
  next
    case EditorShown
    show ?thesis
    proof (cases "mounted s")
      case False
      have "editor_ok h (mount_editor h s)" using False m unfolding mount_editor_def
        by simp (rule rendered_ok, auto simp: maskImagePreview_def has_canvas_def inputImagePreview_def truthy_string_def)
      then show ?thesis by (simp add: EditorShown)
    qed (simp add: EditorShown mount_editor_def s)
  next
    case EditorHidden
    then show ?thesis using m
      by (simp add: unmount_editor_def editor_ok_def setup_ok_def has_canvas_def maskImagePreview_def)
  qed (use e m finishDraw_ok [OF h s] image_arrived_ok [OF s] clear_ok [OF h s] s form_changed_ok [OF s]
      same_previews_ok [OF s] in \<open>simp_all add: previews_after tool_ok\<close>)
qed

text \<open>The form's mask is the one that is previewed.  What parts them: an input image from the gallery, the defaults, a
  form from the storage, and a mask file that cannot be read.\<close>

definition in_step :: "'p mask_editor \<Rightarrow> bool" where
  "in_step s \<longleftrightarrow> gf_mask_image (form (page s)) = nullish (maskImagePreview s) []"

fun keeps_in_step :: "mask_input \<Rightarrow> bool" where
  "keeps_in_step (GalleryPicked field b name) = (field \<noteq> InputImage)"
| "keeps_in_step (FileUnreadable field) = (field \<noteq> MaskImage)"
| "keeps_in_step (DefaultsUsed prefs) = False"
| "keeps_in_step (FormRestored f) = False"
| "keeps_in_step e = True"

lemma page_kept [simp]:
  "page (rendered h s) = page s" "page (image_arrived h k s) = page s" "page (unmount_editor s) = page s"
  "page (mount_editor h s) = page s" "page (onPointerDown h r p s) = page s" "page (onPointerMove h r p s) = page s"
proof -
  show r: "page (rendered h s) = page s" for s
    by (simp add: rendered_def setup_canvas_def Let_def split: option.split)
  show "page (image_arrived h k s) = page s"
    by (simp add: image_arrived_def setup_step_def setup_failed_def split: preparation.split option.split)
  show "page (mount_editor h s) = page s" by (simp add: mount_editor_def r)
qed (simp_all add: unmount_editor_def onPointerDown_def onPointerMove_def paintStroke_def Let_def split: option.split)

lemma in_step_kept:
  assumes "in_step s" and "keeps_in_step e"
  shows "in_step (mask_step h e s)"
proof -
  have by_page: "in_step s'" if "page s' = page s" for s' :: "'b mask_editor"
    using assms(1) that by (simp add: in_step_def maskImagePreview_def)
  show ?thesis
  proof (cases e)
    case PointerUp
    then show ?thesis using by_page [of s]
      by (auto simp: finishDraw_def pushCanvasMask_def in_step_def maskImagePreview_def previews_after mask_image_after)
  next
    case ClearClicked
    then show ?thesis using by_page [of s]
      by (auto simp: clearCanvas_def in_step_def maskImagePreview_def previews_after mask_image_after)
  qed (use assms in \<open>auto intro: by_page simp: in_step_def maskImagePreview_def previews_after mask_image_after\<close>)
qed

lemma initial_previews: "previews (form_uploads (initial_page prefs)) f = None"
  by (simp add: initial_page_def initial_uploads_def Let_def)

lemma initial_ok:
  "editor_ok h (initial_mask_editor h (initial_page prefs))" "in_step (initial_mask_editor h (initial_page prefs))"
proof -
  have "gf_mask_image (form (initial_page prefs)) = []"
    by (simp add: initial_page_def with_preferences_def take_text_def take_number_def DEFAULT_FORM_def split: option.split)
  then show "in_step (initial_mask_editor h (initial_page prefs))"
    by (simp add: in_step_def initial_mask_editor_def maskImagePreview_def initial_previews)
  show "editor_ok h (initial_mask_editor h (initial_page prefs))"
    by (simp add: editor_ok_def initial_mask_editor_def setup_ok_none maskImagePreview_def has_canvas_def initial_previews)
qed

lemma finished_mask:
  assumes "has_canvas s" and "drawing s"
  shows "gf_mask_image (form (page (finishDraw h s))) = toDataURL h (canvas s)"
proof -
  have "has_canvas (s\<lparr>drawing := False, last_point := None\<rparr>)" using assms(1) by (simp add: has_canvas_def inputImagePreview_def)
  then show ?thesis using assms(2) by (simp add: finishDraw_def pushCanvasMask_def mask_image_after)
qed

text \<open>C40: If nothing is touched while the canvas is being prepared, and no image fails to load, then a stroke that ends
  gives the form a mask whose picture is the canvas; and whenever the canvas is prepared and no stroke is under way,
  the canvas is the previewed mask drawn on black of the input image's size, or just black when there is none.  As
  long as the input image was not taken from the gallery, the defaults were not used, no stored form was taken over
  and every mask file could be read, that mask is the one that will be sent; and if its picture is opaque and of the
  input image's size, as that of a painted one is, the canvas is exactly this picture.  Images are not empty texts;
  \<open>host_ok\<close> says what is relied on of the browser's canvas.\<close>

theorem mask_is_what_was_painted:
  assumes "host_ok h" and "patiently h es (initial_mask_editor h (initial_page prefs))"
    and "s = fold (mask_step h) es (initial_mask_editor h (initial_page prefs))"
    and "has_canvas s" and "setups s = []" and "editorError s = None"
  shows "(drawing s \<longrightarrow> image_of h (gf_mask_image (form (page (finishDraw h s)))) = Some (canvas s)) \<and>
    (\<not> drawing s \<longrightarrow>
      canvas_for h (inputImagePreview s) (maskImagePreview s) = Some (canvas s) \<and>
      (list_all keeps_in_step es \<longrightarrow>
        (case image_of h (the (inputImagePreview s)) of
           None \<Rightarrow> False
         | Some b \<Rightarrow>
             if gf_mask_image (form (page s)) = [] then canvas s = black h (size_of h b)
             else case image_of h (gf_mask_image (form (page s))) of
                    None \<Rightarrow> False
                  | Some q \<Rightarrow> canvas s = draw_on h q (black h (size_of h b)) \<and>
                      (opaque h q \<and> size_of h q = size_of h b \<longrightarrow> canvas s = q))))"
proof -
  have "editor_ok h t \<Longrightarrow> patiently h es t \<Longrightarrow> editor_ok h (fold (mask_step h) es t)" for t
    by (induction es arbitrary: t) (simp_all add: mask_step_ok [OF assms(1)])
  then have ok: "editor_ok h s" using initial_ok(1) assms(2,3) by blast
  have step: "in_step t \<Longrightarrow> list_all keeps_in_step es \<Longrightarrow> in_step (fold (mask_step h) es t)" for t
    by (induction es arbitrary: t) (simp_all add: in_step_kept)
  show ?thesis
  proof (cases "drawing s")
    case True
    then have "clean_canvas h s" using ok assms(4-6) by (simp add: editor_ok_def)
    then show ?thesis using True finished_mask [OF assms(4) True] host_okD(2) [OF assms(1)] by (simp add: clean_canvas_def)
  next
    case False
    then have shown: "canvas_for h (inputImagePreview s) (maskImagePreview s) = Some (canvas s)"
      using ok assms(4-6) by (simp add: editor_ok_def shows_mask_def)
    obtain u b where u: "inputImagePreview s = Some u" "image_of h u = Some b"
      using shown by (auto simp: canvas_for_def bind_eq_Some_conv split: option.splits)
    have cover: "draw_on h q (black h (size_of h b)) = q" if "opaque h q" "size_of h q = size_of h b" for q
      using that host_okD(3) [OF assms(1) u(2)] host_okD(4) [OF assms(1)] by (intro host_okD(9) [OF assms(1)]) simp_all
    have sent: "in_step s" if "list_all keeps_in_step es"
      using step [OF initial_ok(2) that] assms(3) by blast
    show ?thesis
    proof (cases "maskImagePreview s")
      case None
      then show ?thesis using False shown u sent by (auto simp: canvas_for_def in_step_def)
    next
      case (Some v)
      then have "v \<noteq> []" using ok by (simp add: editor_ok_def)
      then show ?thesis using False shown u sent Some cover by (auto simp: canvas_for_def in_step_def)
    qed
  qed
qed

text \<open>A host whose pictures have a size and one colour, white or black.\<close>

definition tone_host :: "((nat \<times> nat) \<times> bool) image_host" where
  "tone_host =
     \<lparr>image_of = (\<lambda>u. case u of [] \<Rightarrow> None | c # r \<Rightarrow> if c = CHR ''d'' then Some (from_nat (length r)) else Some ((10, 10), False)),
      size_of = fst, new_canvas = ((300, 150), False), black = (\<lambda>z. (z, False)), stroke_on = (\<lambda>w n a b p. (fst p, w)),
      draw_on = (\<lambda>q p. (fst p, snd q)), toDataURL = (\<lambda>p. CHR ''d'' # replicate (to_nat p) CHR ''x''), opaque = (\<lambda>_. True)\<rparr>"

lemma tone_host_ok: "host_ok tone_host"
  by (auto simp: host_ok_def tone_host_def)

lemma tone_host_simps [simp]:
  "image_of tone_host ''u'' = Some ((10, 10), False)" "size_of tone_host p = fst p" "black tone_host z = (z, False)"
  "stroke_on tone_host w n a b p = (fst p, w)" "draw_on tone_host q p = (fst p, snd q)"
  "image_of tone_host (toDataURL tone_host p) = Some p" "toDataURL tone_host p \<noteq> []"
  "(toDataURL tone_host p = toDataURL tone_host q) = (p = q)"
proof -
  show img: "image_of tone_host (toDataURL tone_host p) = Some p" for p by (simp add: tone_host_def)
  show "(toDataURL tone_host p = toDataURL tone_host q) = (p = q)" using img by (metis option.inject)
qed (simp_all add: tone_host_def)

definition photo :: upload_file where
  "photo = \<lparr>file_name = ''a.png'', file_type = ''image/png'', file_size = 1\<rparr>"

definition square :: rect where
  "square = \<lparr>rect_left = 0, rect_top = 0, rect_width = 10, rect_height = 10\<rparr>"

definition one_stroke :: "mask_input list" where
  "one_stroke = [Uploaded photo InputImage ''u'', EditorShown, ImageArrived 0, PointerDown square (1, 2), PointerUp]"

lemmas mask_eval = one_stroke_def initial_mask_editor_def rendered_def setup_canvas_def has_canvas_def inputImagePreview_def
  maskImagePreview_def previews_after truthy_string_def image_arrived_def setup_step_def onPointerDown_def onPointerMove_def
  paintStroke_def getCanvasPoint_def photo_def finishDraw_def pushCanvasMask_def clearCanvas_def mount_editor_def
  idle_def Let_def

lemma mask_is_what_was_painted_witness:
  "let s = fold (mask_step tone_host) (one_stroke @ [ImageArrived 0, ImageArrived 0]) (initial_mask_editor tone_host (initial_page None))
   in image_of tone_host (gf_mask_image (form (page s))) = Some (canvas s) \<and> canvas s = ((10, 10), True)"
proof -
  let ?es = "one_stroke @ [ImageArrived 0, ImageArrived 0]"
  define s where "s = fold (mask_step tone_host) ?es (initial_mask_editor tone_host (initial_page None))"
  have p: "patiently tone_host ?es (initial_mask_editor tone_host (initial_page None))"
    by (simp add: mask_eval initial_previews)
  have k: "list_all keeps_in_step ?es" by (simp add: one_stroke_def)
  have s': "has_canvas s" "setups s = []" "editorError s = None" "\<not> drawing s" "inputImagePreview s = Some ''u''"
      "gf_mask_image (form (page s)) = toDataURL tone_host ((10, 10), True)"
    by (simp_all add: s_def mask_eval initial_previews mask_image_after)
  have "opaque tone_host q" for q by (simp add: tone_host_def)
  then show ?thesis
    using mask_is_what_was_painted [OF tone_host_ok p s_def s'(1-3)] s'(4-6) k
    unfolding s_def [symmetric] Let_def by simp
qed

subsection \<open>Where the editor does what it does not mean to\<close>

text \<open>The effect is not cancelled: a mask that is cleared while the canvas is prepared for it is drawn again, and what is
  shown is not sent.\<close>

lemma cleared_mask_returns:
  "let s = fold (mask_step tone_host) (one_stroke @ [ClearClicked, ImageArrived 0, ImageArrived 1, ImageArrived 0])
       (initial_mask_editor tone_host (initial_page None))
   in setups s = [] \<and> editorError s = None \<and> gf_mask_image (form (page s)) = [] \<and> canvas s = ((10, 10), True)"
  by (simp add: mask_eval initial_previews mask_image_after)

text \<open>A stroke that is begun while the canvas is prepared for the one before is lost, in the canvas and in the mask.\<close>

lemma quick_stroke_lost:
  "let s = fold (mask_step tone_host) (one_stroke @ [ToolChosen Erase, PointerDown square (3, 4), ImageArrived 0, ImageArrived 0,
       PointerUp]) (initial_mask_editor tone_host (initial_page None))
   in image_of tone_host (gf_mask_image (form (page s))) = Some ((10, 10), True)"
  by (simp add: mask_eval initial_previews mask_image_after)

text \<open>An earlier preparation that is finished late draws the older mask.\<close>

lemma older_mask_wins:
  "let s = fold (mask_step tone_host) (one_stroke @ [ToolChosen Erase, PointerDown square (3, 4), PointerUp, ImageArrived 1,
       ImageArrived 1, ImageArrived 0, ImageArrived 0]) (initial_mask_editor tone_host (initial_page None))
   in setups s = [] \<and> canvas s = ((10, 10), True) \<and> image_of tone_host (gf_mask_image (form (page s))) = Some ((10, 10), False)"
  by (simp add: mask_eval initial_previews mask_image_after)

text \<open>An input image from the gallery empties the mask of the form, but not its preview: the canvas of the new image shows
  the mask of the old one, and none is sent.\<close>

lemma gallery_image_shows_old_mask:
  "let s = fold (mask_step tone_host) (one_stroke @ [ImageArrived 0, ImageArrived 0, GalleryPicked InputImage ''u2'' ''b.png'',
       ImageArrived 0, ImageArrived 0]) (initial_mask_editor tone_host (initial_page None))
   in setups s = [] \<and> editorError s = None \<and> canvas s = ((10, 10), True) \<and> gf_mask_image (form (page s)) = []"
proof -
  have "image_of tone_host ''u2'' = Some ((10, 10), False)" by (simp add: tone_host_def)
  then show ?thesis by (simp add: mask_eval initial_previews mask_image_after)
qed

end
