(* ===== verification/Spec2Isabelle.thy ===== *)
theory Spec2Isabelle
  imports Studio_Store Playback_Engine Ui_Builder Sse_Stream Conversation Terminal_Socket Polling
    Technologies Api_Kernel Api_Context Api_Sandbox Api_Image Api_Projects Api_Drupal Api_Knowledge
    Api_Admin Api_Notes Hook_Laws Auth_Session Image_Jobs
    Workspace_Conversation Model_Switcher Page_State Service_Status Drupal_Hook Hooks_Account Resources Interval_Polls Studio_Server Project_Import Kb_Builder Context_Hooks Message_Text Generation_Form Page_Texts Subtitles Studio_Editing Studio_Preview Studio_Dialogs Panels Project_Pages Tools_Panel Model_Selector Image_Views Help_Topics Context_Page Terminal_Pane Event_Dialog Chat_Sidebar Actions_Panel Ide_Layout Context_Libraries Editor_Pane File_Explorer Mask_Editor
begin

text \<open>
  \<^bold>\<open>The program.\<close>  The repository is a workstation for working with language models.  What is modelled
  is its TypeScript frontend, \<^verbatim>\<open>src/frontend\<close>: the package \<^verbatim>\<open>packages/api\<close> (the client of the backend
  and the React hooks on top of it) and the logic of the application \<^verbatim>\<open>apps/chat\<close>.  The backend is
  behind the interface of the client and is a parameter.

  \<^bold>\<open>How the parts interact.\<close>  \<open>WorkstationClient\<close> (\<^verbatim>\<open>client.ts\<close>) is the only way to the server: its
  \<open>request\<close> and \<open>rawFetch\<close> do the retries, the timeout and the handling of a 401, its endpoint methods
  each make one request with them, and its two streaming methods read server-sent events.  The hooks
  hold what the server sent in React state and call the client; the event socket and the terminal
  socket are connections of their own.  The studio, the page builder and the small state hooks of
  \<^verbatim>\<open>apps/chat\<close> work on local state only.

  \<^bold>\<open>The theories.\<close>  \<open>Base\<close> has the vocabulary: JSON values, the falsy and nullish defaults, the array
  idioms, the interface \<open>keyed_collection\<close> that they implement.

  \<^item> Transport.  \<open>Http_Client\<close>: the client's fields, \<open>request\<close> (\<open>request\<close>, \<open>request_loop\<close>,
    \<open>try_attempt\<close>, \<open>bad_response\<close>), \<open>rawFetch\<close> (\<open>raw_fetch\<close>) and the generic methods.  Its lemmas bound
    the requests of a call, say when it recovers and when it gives up, and what a 401 does; the locale
    \<open>transport\<close> states once for both methods what a call does to the client.  \<open>Url_Codec\<close>:
    \<open>encodeURIComponent\<close> and \<open>URLSearchParams\<close> with their round trips (locale \<open>text_codec\<close>).  \<open>Sse_Stream\<close>:
    \<open>pullOllamaModel\<close> and \<open>streamMessage\<close> with the non-streaming fallback; the result does not depend on
    how the bytes are cut into chunks.
  \<^item> Endpoints.  \<open>Api_Core\<close> has the parts that paths, queries and bodies are made of and what a server
    reads from them; \<open>Api_Kernel\<close>, \<open>Api_Context\<close>, \<open>Api_Sandbox\<close>, \<open>Api_Image\<close>, \<open>Api_Projects\<close>,
    \<open>Api_Drupal\<close>, \<open>Api_Knowledge\<close>, \<open>Api_Admin\<close> and \<open>Api_Notes\<close> have the methods of \<open>WorkstationClient\<close>, one
    definition each, under the method's name.
  \<^item> Conversations.  \<open>Conversation\<close> is \<^verbatim>\<open>use-conversation.ts\<close>, \<open>Workspace_Conversation\<close> is
    \<^verbatim>\<open>use-workspace-conversation.ts\<close>: a reply arrives whole and in order among other events, and a chat
    that was left is silent, unless its stream had fallen back to the plain request of the client, which is not
    cancelled (events \<open>FallsBack\<close>).
  \<^item> Connections.  \<open>Web_Socket\<close> (\<^verbatim>\<open>use-websocket.ts\<close>), \<open>Terminal_Socket\<close> (\<^verbatim>\<open>use-terminal-websocket.ts\<close>)
    and \<open>Polling\<close> (\<^verbatim>\<open>use-polling.ts\<close>): reconnection gives up after its attempts, polling respects its
    limits, disconnecting is final.  \<open>Service_Status\<close> (\<^verbatim>\<open>use-service-status.ts\<close>): the flags of the
    status poll are truthful.
  \<^item> Identity.  \<open>Jwt\<close> reads a token down to \<open>atob\<close> and \<open>decodeURIComponent\<close>; \<open>Auth_Session\<close> is
    \<^verbatim>\<open>use-auth.ts\<close>: three states, logouts that hold, agreement of the login with the event socket.
  \<^item> Data hooks.  \<open>Hook_Monad\<close> is the language that they are written in (state of the hook and of the
    client, exceptions); \<open>Hooks_Content\<close> and \<open>Hooks_Catalog\<close> have the callbacks, named after hook and
    callback; \<open>Hook_Laws\<close> has the interfaces \<open>settling\<close> and \<open>fetching\<close> with an interpretation for every
    refresh, the refinement of the list hooks and what mutations report.  \<open>Hooks_Services\<close> (planning,
    Brevo, the local Drupal) and \<open>Hooks_Account\<close> (settings, users, administration, audit, graphics memory)
    are the further hooks of this kind.
  \<^item> Hooks whose callbacks interleave.  \<open>Coroutine\<close> has their statements, which may wait for answers, and
    the scheduler; its rules say what a callback keeps (\<open>keeps\<close>), when it is without effect (\<open>silent\<close>) and
    when it has ended (\<open>ends_within\<close>), its locale \<open>latest_call\<close> is the guard of comparing a counter, and
    \<open>through\<close> relates it to \<open>Hook_Monad\<close>: a callback of the data hooks is an uninterrupted run.
    \<open>Interval_Polls\<close> has polls by \<open>setInterval\<close> with the locale \<open>restarting\<close>.  On these: \<open>Drupal_Hook\<close>
    (\<^verbatim>\<open>use-drupal.ts\<close>), \<open>Studio_Server\<close> (\<^verbatim>\<open>use-studio.ts\<close>), \<open>Project_Import\<close>
    (\<^verbatim>\<open>use-project-import.ts\<close>), \<open>Kb_Builder\<close> (\<^verbatim>\<open>use-kb-builder.ts\<close>) and \<open>Context_Hooks\<close> (chat mode,
    compaction, context editor and its search, token usage).  \<open>Resources\<close> is \<^verbatim>\<open>use-resources.ts\<close>: the
    sorted view and a poll that backs off within bounds.
  \<^item> Jobs and models.  \<open>Image_Jobs\<close> is \<^verbatim>\<open>use-image-generation.ts\<close> (two polling loops),
    \<open>Model_Switcher\<close> is \<^verbatim>\<open>use-model-switcher.ts\<close> (pulls as promises).
  \<^item> Local state.  \<open>Studio_Store\<close> (\<^verbatim>\<open>use-studio-store.ts\<close>) and \<open>Playback_Engine\<close>
    (\<^verbatim>\<open>playback-engine.ts\<close>): the timeline's invariants, one animation loop, the display follows the
    playhead.  \<open>Ui_Builder\<close> (\<^verbatim>\<open>use-ui-builder-state.ts\<close>): trees with unique ids, moves that conserve.
    \<open>Page_State\<close>: panels, tools, console, forms, uploads.  \<open>Technologies\<close> (\<^verbatim>\<open>app/projects/page.tsx\<close>): the
    technologies that a selection brings with it are the least closed set.  \<open>Filenames\<close> (\<^verbatim>\<open>utils/validation.ts\<close>): sanitized names are valid.
  \<^item> Logic inside components.  \<open>Message_Text\<close> (\<^verbatim>\<open>message-bubble.tsx\<close>, \<^verbatim>\<open>markdown-editor.tsx\<close>): the parts of
    a message are those it was written from; the editor's text, and its view of tokens.
    \<open>Generation_Form\<close> (\<^verbatim>\<open>generation-form.tsx\<close>): a request that is sent is within its limits.  \<open>Page_Texts\<close>: what the audit table shows of details, style sheets of palettes,
    machine names, chunk settings.  \<open>Subtitles\<close> (\<^verbatim>\<open>subtitle-editor.tsx\<close>): adding,
    editing, deleting and transcribing, on the studio store.
  \<^item> The studio's components.  \<open>Studio_Editing\<close> (timeline, tracks, clips, playback controls, properties, media
    bin, loading and saving): a gesture, or an answer of the server to one, is a run of actions of
    \<open>Studio_Store\<close> whose new ids are fresh.  \<open>Studio_Preview\<close>
    (\<^verbatim>\<open>preview-canvas.tsx\<close>): the effects that tie \<open>Playback_Engine\<close> to the store, so that the preview shows
    the store.  \<open>Studio_Dialogs\<close>: the export dialog and the screen recorder.
  \<^item> Pages and dialogs that call the hooks.  \<open>Project_Pages\<close> (\<^verbatim>\<open>app/projects/page.tsx\<close>): its dialogs send
    checked calls, one at a time.  \<open>Tools_Panel\<close> (\<^verbatim>\<open>tools-panel.tsx\<close>): executions one at a time, and reruns.
    \<open>Model_Selector\<close> (\<^verbatim>\<open>model-selector-dialog.tsx\<close>): a model is applied by a click when it is in memory, and else by the
    answer to its own load.  \<open>Image_Views\<close>
    (gallery and viewer): going on visits every image.  \<open>Help_Topics\<close> (\<^verbatim>\<open>help-topic-management.tsx\<close>): a topic that is
    edited and saved keeps what was not edited.  \<open>Context_Page\<close> (\<^verbatim>\<open>context-editor.tsx\<close>): the text that the editor is given
    is that of the layer that was chosen.  \<open>Terminal_Pane\<close> (\<^verbatim>\<open>terminal-pane.tsx\<close>), on \<open>Terminal_Socket\<close>: the output of a command
    follows it.  \<open>Event_Dialog\<close> (\<^verbatim>\<open>create-event-modal.tsx\<close>): what is sent was previewed.  \<open>Chat_Sidebar\<close>
    (\<^verbatim>\<open>chat-sidebar.tsx\<close>): only what was asked for is called.  \<open>Actions_Panel\<close>
    (\<^verbatim>\<open>automation-actions-panel.tsx\<close>): what is approved is what was edited.  \<open>Context_Libraries\<close> (\<^verbatim>\<open>snippet-library.tsx\<close>,
    \<^verbatim>\<open>prompt-library.tsx\<close>): one interface, \<open>form_library\<close>, for two forms.  \<open>Panels\<close>: issues, the board of notes,
    help.
  \<^item> The workspace.  \<open>Ide_Layout\<close> (\<^verbatim>\<open>ide-layout.tsx\<close>) composes \<open>Terminal_Pane\<close> and \<open>Tools_Panel\<close>: it mounts
    them, gives them their commands and properties, and hears their commands and results; its copy of the state of
    the tools agrees with \<open>Page_State\<close>, and the history of the commands is that of the terminal.
    \<open>Editor_Pane\<close> (\<^verbatim>\<open>editor-pane.tsx\<close>): what is marked as saved is saved.
    \<open>File_Explorer\<close> (\<^verbatim>\<open>file-explorer\<close>): one rename of an item at a time, and files stay in their directories.
  \<^item> The mask of an image.  \<open>Mask_Editor\<close> (\<^verbatim>\<open>mask-editor.tsx\<close>), in the form of \<open>Generation_Form\<close>: the mask that is
    sent is the one that was painted.  The type of a picture and what the browser does with pictures are the parameter
    \<open>image_host\<close>; \<open>host_ok\<close> says what is relied on, and \<open>tone_host\<close> is a host that keeps it.

  \<^bold>\<open>How code is rendered.\<close>  A component with local state is a record and one function per operation.
  A component whose requests, timers and callbacks interleave is a record with the requests in flight,
  the pending timers and the live streams, and one function per event: the call of the page, the
  timer, or the answer, with what follows the await in it; an \<open>inductive\<close> predicate or a fold over a
  list of events gives the reachable states.  A hook whose callbacks are long and many is a state with
  coroutines, one per callback, under the scheduler of \<open>Coroutine\<close>.  The data hooks run a callback from
  its call to its end.  A component with effects is a record, a function per handler, and a step that runs
  the effects whose dependencies have changed (\<open>commit\<close>, \<open>sync_editor\<close>, \<open>rerun_effect\<close> and the like); a
  component that only calls hooks keeps the calls that are in flight, answered in any order.
  An exception is the left side of a sum, \<open>undefined\<close> is \<open>None\<close>, \<open>null\<close> is \<open>JNull\<close> where the two
  differ.  Strings are lists of bytes, numbers are exact reals: rounding and \<open>NaN\<close> are outside.

  \<^bold>\<open>Parameters and bounds.\<close>  The server is a function from the number of a request and the request to
  a response with its latency; \<open>JSON.parse\<close>, the texts of the host's own errors, \<open>Math.random\<close>, the
  locale's time format and the chunks of a stream are parameters too.  All loops of the code are total
  functions: the retry loop and the reading of a stream recurse on the attempts and the chunks that are
  left, the resolution of technologies on what is not visited yet.  No fuel is used.

  \<^bold>\<open>Findings.\<close>  Where the code does something that it does not mean to, a lemma beside the definitions
  shows it, such as \<open>failed_job_shows_no_error\<close>, \<open>late_logout_drops_new_token\<close>,
  \<open>switch_mid_stream_sticks\<close>, \<open>move_into_descendant_loses_subtree\<close> or \<open>generate_image_drops_guidance\<close>.

  \<^bold>\<open>Not modelled.\<close>  The rendering of the React components and their styles (\<^verbatim>\<open>apps/chat/app\<close>,
  \<^verbatim>\<open>apps/chat/components\<close>, \<^verbatim>\<open>packages/ui\<close>), which call what is modelled here; the components that the list above
  does not name, which only show what a hook returns or hand a click on to it (toolbars, layouts, managers of the
  graphics memory, of users and of the Drupal site); the Python backend, which is a parameter; tests and deployment.
\<close>

end
